(* ===== verification/MH_Prelude.thy ===== *)
theory MH_Prelude
  imports Main "HOL-Library.Word" "HOL-Library.AList"
begin

text \<open>
  Shared vocabulary of the MemHop development: the machine integer types of the Go
  source, little-endian byte runs (what \<^verbatim>\<open>encoding/binary.LittleEndian\<close> reads and writes),
  Go maps as association lists with distinct keys, and the lemma collections the component
  theories add to.

  A Go map has no iteration order. A model map is an association list, so a definition that
  ranges over one visits it in list order; theorems are stated up to \<^const>\<open>map_of\<close> and
  quantify over the list, hence over every order the runtime may choose.
\<close>

named_theorems bytes_simps \<open>lengths and splits of byte runs\<close>
named_theorems map_simps \<open>lookups in updated association lists\<close>

type_synonym byte = "8 word"
type_synonym u16 = "16 word"
type_synonym u32 = "32 word"
type_synonym u64 = "64 word"
type_synonym bytes = "byte list"

section \<open>Little-endian byte runs\<close>

primrec le_bytes :: "nat \<Rightarrow> nat \<Rightarrow> bytes" where
  "le_bytes 0 x = []"
| "le_bytes (Suc n) x = of_nat (x mod 256) # le_bytes n (x div 256)"

primrec le_nat :: "bytes \<Rightarrow> nat" where
  "le_nat [] = 0"
| "le_nat (b # bs) = unat b + 256 * le_nat bs"

lemma length_le_bytes [simp, bytes_simps]: "length (le_bytes n x) = n"
  by (induction n arbitrary: x) auto

lemma unat_ucast_u32: "unat (ucast (w :: u32) :: u64) = unat w"
  by transfer (simp add: take_bit_take_bit)

lemma word_less_succ:
  fixes w :: "'a::len word"
  assumes "w \<noteq> -1"
  shows "w < w + 1"
proof -
  have "unat w + 1 \<noteq> 2 ^ LENGTH('a)"
  proof
    assume "unat w + 1 = 2 ^ LENGTH('a)"
    then have "of_nat (unat w + 1) = (2 ^ LENGTH('a) :: 'a word)" by (metis of_nat_numeral of_nat_power)
    then have "w + 1 = 0" by (simp add: add.commute)
    then show False using assms by (simp add: eq_neg_iff_add_eq_0)
  qed
  moreover have "unat w < 2 ^ LENGTH('a)" by (rule unsigned_less)
  ultimately have "unat w + 1 < 2 ^ LENGTH('a)" by linarith
  then have "w \<le> w + 1" by (simp add: no_olen_add_nat)
  then show ?thesis by (simp add: order_less_le)
qed

lemma unat_byte: "unat (b :: byte) < 256"
  using unsigned_less [of b, where ?'a = nat] by simp

lemma le_nat_le_bytes: "le_nat (le_bytes n x) = x mod 256 ^ n"
proof (induction n arbitrary: x)
  case 0
  then show ?case by simp
next
  case (Suc n)
  have "unat (of_nat (x mod 256) :: byte) = x mod 256"
    by (simp add: unat_of_nat)
  moreover have "x mod (256 * 256 ^ n) = x mod 256 + 256 * (x div 256 mod 256 ^ n)"
    by (simp add: mod_mult2_eq)
  ultimately show ?case by (simp add: Suc.IH)
qed

lemma le_nat_bound: "le_nat bs < 256 ^ length bs"
proof (induction bs)
  case Nil
  then show ?case by simp
next
  case (Cons b bs)
  have "unat b < 256" by (rule unat_byte)
  moreover have "256 * le_nat bs + 256 \<le> 256 * 256 ^ length bs"
    using Cons.IH by (metis Suc_leI mult_Suc_right mult_le_mono2 add.commute)
  ultimately show ?case by simp
qed

lemma le_bytes_le_nat: "le_bytes (length bs) (le_nat bs) = bs"
proof (induction bs)
  case Nil
  then show ?case by simp
next
  case (Cons b bs)
  have b: "unat b < 256" by (rule unat_byte)
  have "(unat b + 256 * le_nat bs) mod 256 = unat b" using b by simp
  moreover have "(unat b + 256 * le_nat bs) div 256 = le_nat bs" using b by simp
  ultimately show ?case by (simp add: Cons.IH)
qed

lemma le_nat_zero_iff: "le_nat bs = 0 \<longleftrightarrow> (\<forall>b \<in> set bs. b = 0)"
  by (induction bs) (auto simp: unat_eq_zero)

lemma le_nat_replicate_0 [simp]: "le_nat (replicate n 0) = 0"
  by (simp add: le_nat_zero_iff)

text \<open>The four accessors of \<^verbatim>\<open>binary.LittleEndian\<close> the source uses.\<close>

definition put_u16 :: "u16 \<Rightarrow> bytes" where "put_u16 v = le_bytes 2 (unat v)"
definition put_u32 :: "u32 \<Rightarrow> bytes" where "put_u32 v = le_bytes 4 (unat v)"
definition put_u64 :: "u64 \<Rightarrow> bytes" where "put_u64 v = le_bytes 8 (unat v)"
definition get_u16 :: "bytes \<Rightarrow> u16" where "get_u16 bs = of_nat (le_nat bs)"
definition get_u32 :: "bytes \<Rightarrow> u32" where "get_u32 bs = of_nat (le_nat bs)"
definition get_u64 :: "bytes \<Rightarrow> u64" where "get_u64 bs = of_nat (le_nat bs)"

text \<open>
  A fixed-width codec: what the frame, the header and the snapshot rely on when they lay
  integers out one after another.
\<close>

locale fixed_codec =
  fixes put :: "'v \<Rightarrow> bytes" and get :: "bytes \<Rightarrow> 'v" and width :: nat
  assumes put_width: "length (put v) = width"
    and get_put: "get (put v) = v"
    and put_get: "length bs = width \<Longrightarrow> put (get bs) = bs"
begin

lemma put_inject: "put v = put w \<longleftrightarrow> v = w"
  by (metis get_put)

lemma get_inject: "length bs = width \<Longrightarrow> length cs = width \<Longrightarrow> get bs = get cs \<longleftrightarrow> bs = cs"
  by (metis put_get)

lemma take_put: "take width (put v @ rest) = put v"
  by (simp add: put_width)

lemma drop_put: "drop width (put v @ rest) = rest"
  by (simp add: put_width)

lemma get_take_put: "get (take width (put v @ rest)) = v"
  by (simp only: take_put get_put)

end

lemma unat_of_nat_le_nat:
  assumes "length bs * 8 = LENGTH('a::len)"
  shows "unat (of_nat (le_nat bs) :: 'a word) = le_nat bs"
proof -
  have "(256::nat) ^ length bs = (2 ^ 8) ^ length bs" by simp
  also have "\<dots> = 2 ^ LENGTH('a)" by (metis assms mult.commute power_mult)
  finally have "le_nat bs < 2 ^ LENGTH('a)" using le_nat_bound [of bs] by simp
  then show ?thesis by (simp add: unat_of_nat)
qed

interpretation c16: fixed_codec put_u16 get_u16 2
proof
  fix v :: u16 and bs :: bytes
  show "length (put_u16 v) = 2" by (simp add: put_u16_def)
  show "get_u16 (put_u16 v) = v"
    using unsigned_less [of v, where ?'a = nat] by (simp add: get_u16_def put_u16_def le_nat_le_bytes)
  show "put_u16 (get_u16 bs) = bs" if "length bs = 2"
    using le_bytes_le_nat [of bs] that
    by (simp add: get_u16_def put_u16_def unat_of_nat_le_nat)
qed

interpretation c32: fixed_codec put_u32 get_u32 4
proof
  fix v :: u32 and bs :: bytes
  show "length (put_u32 v) = 4" by (simp add: put_u32_def)
  show "get_u32 (put_u32 v) = v"
    using unsigned_less [of v, where ?'a = nat] by (simp add: get_u32_def put_u32_def le_nat_le_bytes)
  show "put_u32 (get_u32 bs) = bs" if "length bs = 4"
    using le_bytes_le_nat [of bs] that
    by (simp add: get_u32_def put_u32_def unat_of_nat_le_nat)
qed

interpretation c64: fixed_codec put_u64 get_u64 8
proof
  fix v :: u64 and bs :: bytes
  show "length (put_u64 v) = 8" by (simp add: put_u64_def)
  show "get_u64 (put_u64 v) = v"
    using unsigned_less [of v, where ?'a = nat] by (simp add: get_u64_def put_u64_def le_nat_le_bytes)
  show "put_u64 (get_u64 bs) = bs" if "length bs = 8"
    using le_bytes_le_nat [of bs] that
    by (simp add: get_u64_def put_u64_def unat_of_nat_le_nat)
qed

lemmas codec_width [simp, bytes_simps] = c16.put_width c32.put_width c64.put_width
lemmas codec_get_put [simp] = c16.get_put c32.get_put c64.get_put

section \<open>Reading a slice of a byte list\<close>

text \<open>\<open>bslice bs i j\<close> is Go's \<^verbatim>\<open>bs[i:j]\<close> for \<open>i \<le> j \<le> length bs\<close>; callers check the bound first.\<close>

definition bslice :: "'a list \<Rightarrow> nat \<Rightarrow> nat \<Rightarrow> 'a list" where
  "bslice bs i j = take (j - i) (drop i bs)"

lemma length_bslice [simp, bytes_simps]: "j \<le> length bs \<Longrightarrow> length (bslice bs i j) = j - i"
  by (simp add: bslice_def)

lemma bslice_append_left: "j \<le> length xs \<Longrightarrow> bslice (xs @ ys) i j = bslice xs i j"
  by (simp add: bslice_def)

lemma bslice_append_right:
  "bslice (xs @ ys) (length xs + i) (length xs + j) = bslice ys i j"
  by (simp add: bslice_def)

lemma bslice_full [simp]: "bslice xs 0 (length xs) = xs"
  by (simp add: bslice_def)

lemma bslice_shift: "length xs = n \<Longrightarrow> n \<le> i \<Longrightarrow> n \<le> j \<Longrightarrow> bslice (xs @ ys) i j = bslice ys (i - n) (j - n)"
  by (simp add: bslice_def)

lemma bslice_prefix: "length xs = n \<Longrightarrow> bslice (xs @ ys) 0 n = xs"
  by (simp add: bslice_def)

lemma option_eqI: "(\<And>x. a = Some x \<longleftrightarrow> b = Some x) \<Longrightarrow> a = b"
  by (cases a; cases b) auto

section \<open>Go maps\<close>

type_synonym ('k, 'v) gomap = "('k \<times> 'v) list"

definition map_wf :: "('k, 'v) gomap \<Rightarrow> bool" where
  "map_wf m \<longleftrightarrow> distinct (map fst m)"

lemma map_wf_simps [simp]: "map_wf []" "map_wf ((k, v) # m) \<longleftrightarrow> k \<notin> fst ` set m \<and> map_wf m"
  by (auto simp: map_wf_def)

lemma map_wf_update [simp, intro]: "map_wf m \<Longrightarrow> map_wf (AList.update k v m)"
  unfolding map_wf_def by (rule distinct_update)

lemma map_wf_delete [simp, intro]: "map_wf m \<Longrightarrow> map_wf (AList.delete k m)"
  unfolding map_wf_def by (rule distinct_delete)

lemma map_of_update [simp, map_simps]: "map_of (AList.update k v m) = (map_of m)(k \<mapsto> v)"
  by (rule update_conv')

lemma map_of_delete [simp, map_simps]: "map_of (AList.delete k m) = (map_of m)(k := None)"
  by (rule delete_conv')

lemma update_fresh: "k \<notin> fst ` set m \<Longrightarrow> AList.update k v m = m @ [(k, v)]"
  by (induction m) auto

lemma update_not_Nil [simp]: "AList.update k v m \<noteq> []" "[] \<noteq> AList.update k v m"
  by (cases m; auto)+

lemma set_update_cases: "x \<in> set (AList.update k v m) \<Longrightarrow> x = (k, v) \<or> x \<in> set m"
  by (induction m) (auto split: if_splits)

lemma map_of_Some_iff: "map_wf m \<Longrightarrow> map_of m k = Some v \<longleftrightarrow> (k, v) \<in> set m"
  by (simp add: map_wf_def)

lemma map_of_empty_iff [simp]: "map_of m = Map.empty \<longleftrightarrow> m = []"
  by (cases m) (auto simp: fun_eq_iff split: if_splits)

lemma length_eq_card_dom: "map_wf m \<Longrightarrow> length m = card (dom (map_of m))"
  by (metis distinct_card dom_map_of_conv_image_fst length_map list.set_map map_wf_def)

end
