(* ===== verification/Crc32.thy ===== *)
theory Crc32
  imports MH_Prelude
begin

unbundle bit_operations_syntax

text \<open>
  The CRC-32 checksum of Go's \<^verbatim>\<open>hash/crc32\<close> with the IEEE polynomial (bit-reversed
  \<open>0xEDB88320\<close>), as the record frames, the file headers and the snapshots use it:
  \<^verbatim>\<open>crc32.Update\<close> complements the running value, folds the bytes in and complements back,
  and \<^verbatim>\<open>crc32.ChecksumIEEE p\<close> is \<^verbatim>\<open>Update(0, IEEETable, p)\<close>.

  Beyond the definition the theory shows the two facts the storage engine relies on: the
  checksum of a message may be computed piecewise, and a change confined to one byte is
  always seen.
\<close>

definition crc_poly :: u32 where "crc_poly = 0xEDB88320"

definition crc_shift :: "u32 \<Rightarrow> u32" where
  "crc_shift c = (if bit c 0 then drop_bit 1 c XOR crc_poly else drop_bit 1 c)"

definition crc_byte :: "u32 \<Rightarrow> byte \<Rightarrow> u32" where
  "crc_byte c b = (crc_shift ^^ 8) (c XOR ucast b)"

definition crc32_update :: "u32 \<Rightarrow> bytes \<Rightarrow> u32" where
  "crc32_update c p = NOT (foldl crc_byte (NOT c) p)"

definition crc32_ieee :: "bytes \<Rightarrow> u32" where
  "crc32_ieee p = crc32_update 0 p"

lemma crc32_update_append: "crc32_update (crc32_update c xs) ys = crc32_update c (xs @ ys)"
  by (simp add: crc32_update_def)

lemma crc32_ieee_append: "crc32_update (crc32_ieee xs) ys = crc32_ieee (xs @ ys)"
  by (simp add: crc32_ieee_def crc32_update_append)

subsection \<open>One changed byte is always seen\<close>

text \<open>
  The top bit of a shifted register tells which branch was taken, because the polynomial has
  that bit and a right shift clears it. So the shift can be undone, every byte step is
  injective in the register, and two registers that differ once never meet again on equal
  input.
\<close>

lemma crc_poly_top: "bit crc_poly 31"
  by (simp add: crc_poly_def bit_numeral_rec)

lemma drop_bit_top: "\<not> bit (drop_bit 1 (c :: u32)) 31"
  using bit_imp_le_length [of c 32] by (auto simp: bit_drop_bit_eq)

lemma crc_shift_top: "bit (crc_shift c) 31 \<longleftrightarrow> bit c 0"
  using drop_bit_top [of c] crc_poly_top by (simp add: crc_shift_def bit_xor_iff)

lemma drop_bit_1_eq:
  assumes "drop_bit 1 c = drop_bit 1 d" and "bit c 0 = bit d 0"
  shows "(c :: u32) = d"
proof (rule bit_word_eqI)
  fix n
  show "bit c n = bit d n"
  proof (cases n)
    case 0
    with assms(2) show ?thesis by simp
  next
    case (Suc m)
    have "bit (drop_bit 1 c) m = bit (drop_bit 1 d) m" by (simp only: assms(1))
    with Suc show ?thesis by (simp add: bit_drop_bit_eq)
  qed
qed

lemma xor_right_cancel: "(a :: 'a::len word) XOR c = b XOR c \<longleftrightarrow> a = b"
  by (metis xor.assoc xor_self_eq xor.right_neutral)

lemma crc_shift_inj: "crc_shift c = crc_shift d \<Longrightarrow> c = d"
proof -
  assume eq: "crc_shift c = crc_shift d"
  then have low: "bit c 0 = bit d 0" by (metis crc_shift_top)
  with eq have "drop_bit 1 c = drop_bit 1 d"
    by (cases "bit c 0") (simp_all add: crc_shift_def xor_right_cancel)
  then show "c = d" using low by (rule drop_bit_1_eq)
qed

lemma crc_shift_pow_inj: "(crc_shift ^^ n) c = (crc_shift ^^ n) d \<Longrightarrow> c = d"
  by (induction n) (auto dest: crc_shift_inj)

lemma crc_byte_inj_reg: "crc_byte c b = crc_byte d b \<Longrightarrow> c = d"
  unfolding crc_byte_def by (drule crc_shift_pow_inj) (simp add: xor_right_cancel)

lemma crc_byte_inj_byte: "crc_byte c a = crc_byte c b \<Longrightarrow> a = b"
proof -
  assume "crc_byte c a = crc_byte c b"
  then have "(ucast a :: u32) XOR c = ucast b XOR c"
    unfolding crc_byte_def by (auto dest!: crc_shift_pow_inj simp: xor.commute)
  then have "(ucast a :: u32) = ucast b" by (simp add: xor_right_cancel)
  then have "(ucast (ucast a :: u32) :: byte) = ucast (ucast b :: u32)" by simp
  then show "a = b" by (simp add: ucast_up_ucast_id is_up)
qed

lemma foldl_crc_inj: "foldl crc_byte c xs = foldl crc_byte d xs \<Longrightarrow> c = d"
  by (induction xs arbitrary: c d) (auto dest: crc_byte_inj_reg)

lemma crc32_byte_change:
  assumes "crc32_ieee (xs @ a # ys) = crc32_ieee (xs @ b # ys)"
  shows "a = b"
proof -
  have "foldl crc_byte (foldl crc_byte (NOT 0) (xs @ [a])) ys
      = foldl crc_byte (foldl crc_byte (NOT 0) (xs @ [b])) ys"
    using assms by (simp add: crc32_ieee_def crc32_update_def)
  then have "foldl crc_byte (NOT 0) (xs @ [a]) = foldl crc_byte (NOT 0) (xs @ [b])"
    by (rule foldl_crc_inj)
  then show ?thesis by (auto dest: crc_byte_inj_byte)
qed

end
