(* ===== verification/Common.thy ===== *)
theory Common
  imports MH_Prelude
begin

unbundle bit_operations_syntax

text \<open>
  \<^verbatim>\<open>internal/common\<close>: the numeric error codes and the error values carrying them, the hex
  form of a record id, and the two slice helpers the layers share. Error messages are not
  modelled: nothing in the source branches on them.
\<close>

section \<open>Errors\<close>

datatype code =
    ErrNone \<comment> \<open>0, what \<^verbatim>\<open>CodeOf\<close> answers for an error that carries no code\<close>
  | ErrConfig | ErrInvalidQuery | ErrNotFound | ErrAgentNotFound | ErrIO | ErrClosed
  | ErrInvalidMagic | ErrCRCMismatch | ErrCorruption | ErrSerialization | ErrDeserialization
  | ErrCancelled | ErrLLM

primrec code_num :: "code \<Rightarrow> u16" where
  "code_num ErrNone = 0"
| "code_num ErrConfig = 1001"
| "code_num ErrInvalidQuery = 1003"
| "code_num ErrNotFound = 3001"
| "code_num ErrAgentNotFound = 3002"
| "code_num ErrIO = 5001"
| "code_num ErrClosed = 5002"
| "code_num ErrInvalidMagic = 5003"
| "code_num ErrCRCMismatch = 5004"
| "code_num ErrCorruption = 5005"
| "code_num ErrSerialization = 5006"
| "code_num ErrDeserialization = 5007"
| "code_num ErrCancelled = 5008"
| "code_num ErrLLM = 9002"

text \<open>
  A Go error value: \<^verbatim>\<open>io.EOF\<close>, an error of another package, what a cancelled or expired \<^verbatim>\<open>context.Context\<close> answers, the sentinel of a reply the output ceiling cut off, a \<^verbatim>\<open>*common.Error\<close> with its
  optional cause, or several joined by \<^verbatim>\<open>errors.Join\<close>. \<open>Panic\<close> is a run-time panic, the one
  outcome no caller of the source recovers from.
\<close>

datatype goerr = Io_EOF | Plain_Err | Ctx_Err | ErrTruncated | Error code "goerr option" | Joined "goerr list" | Panic

abbreviation NewError :: "code \<Rightarrow> goerr" where "NewError c \<equiv> Error c None"

text \<open>The first \<^verbatim>\<open>*Error\<close> of the tree, depth first, as \<^verbatim>\<open>errors.AsType\<close> walks it.\<close>

fun as_error :: "goerr \<Rightarrow> code option"
and as_error_list :: "goerr list \<Rightarrow> code option" where
  "as_error Io_EOF = None"
| "as_error Plain_Err = None"
| "as_error Ctx_Err = None"
| "as_error ErrTruncated = None"
| "as_error Panic = None"
| "as_error (Error c _) = Some c"
| "as_error (Joined es) = as_error_list es"
| "as_error_list [] = None"
| "as_error_list (e # es) = (case as_error e of Some c \<Rightarrow> Some c | None \<Rightarrow> as_error_list es)"

definition CodeOf :: "goerr \<Rightarrow> code" where
  "CodeOf e = (case as_error e of Some c \<Rightarrow> c | None \<Rightarrow> ErrNone)"

fun is_eof :: "goerr \<Rightarrow> bool"
and is_eof_list :: "goerr list \<Rightarrow> bool" where
  "is_eof Io_EOF = True"
| "is_eof Plain_Err = False"
| "is_eof Ctx_Err = False"
| "is_eof ErrTruncated = False"
| "is_eof Panic = False"
| "is_eof (Error _ None) = False"
| "is_eof (Error _ (Some e)) = is_eof e"
| "is_eof (Joined es) = is_eof_list es"
| "is_eof_list [] = False"
| "is_eof_list (e # es) = (is_eof e \<or> is_eof_list es)"

text \<open>\<^verbatim>\<open>errors.Is(err, ErrTruncated)\<close>.\<close>

fun is_truncated :: "goerr \<Rightarrow> bool"
and is_truncated_list :: "goerr list \<Rightarrow> bool" where
  "is_truncated ErrTruncated = True"
| "is_truncated Io_EOF = False"
| "is_truncated Plain_Err = False"
| "is_truncated Ctx_Err = False"
| "is_truncated Panic = False"
| "is_truncated (Error _ None) = False"
| "is_truncated (Error _ (Some e)) = is_truncated e"
| "is_truncated (Joined es) = is_truncated_list es"
| "is_truncated_list [] = False"
| "is_truncated_list (e # es) = (is_truncated e \<or> is_truncated_list es)"

text \<open>\<^verbatim>\<open>errors.Is(err, context.Canceled) || errors.Is(err, context.DeadlineExceeded)\<close>.\<close>

fun is_cancelled :: "goerr \<Rightarrow> bool"
and is_cancelled_list :: "goerr list \<Rightarrow> bool" where
  "is_cancelled Ctx_Err = True"
| "is_cancelled Io_EOF = False"
| "is_cancelled Plain_Err = False"
| "is_cancelled ErrTruncated = False"
| "is_cancelled Panic = False"
| "is_cancelled (Error _ None) = False"
| "is_cancelled (Error _ (Some e)) = is_cancelled e"
| "is_cancelled (Joined es) = is_cancelled_list es"
| "is_cancelled_list [] = False"
| "is_cancelled_list (e # es) = (is_cancelled e \<or> is_cancelled_list es)"

lemma CodeOf_simps [simp]: "CodeOf (Error c e) = c" "CodeOf Io_EOF = ErrNone" "CodeOf Plain_Err = ErrNone" "CodeOf Ctx_Err = ErrNone"
  by (simp_all add: CodeOf_def)

lemma CodeOf_Joined [simp]: "CodeOf (Joined (Error c e # es)) = c"
  by (simp add: CodeOf_def)

section \<open>Ids in hexadecimal\<close>

definition hex_digit :: "nat \<Rightarrow> char" where
  "hex_digit n = ''0123456789abcdef'' ! n"

primrec format_digits :: "nat \<Rightarrow> u64 \<Rightarrow> string" where
  "format_digits 0 h = []"
| "format_digits (Suc i) h = format_digits i (drop_bit 4 h) @ [hex_digit (unat (h AND 0xf))]"

definition FormatHash :: "u64 \<Rightarrow> string" where
  "FormatHash h = format_digits 16 h"

text \<open>\<^verbatim>\<open>strconv.ParseUint(s, 16, 64)\<close>: hex digits of either case and nothing else.\<close>

definition hex_val :: "char \<Rightarrow> nat option" where
  "hex_val c = (let n = of_char c :: nat in
     if 48 \<le> n \<and> n \<le> 57 then Some (n - 48)
     else if 97 \<le> n \<and> n \<le> 102 then Some (n - 87)
     else if 65 \<le> n \<and> n \<le> 70 then Some (n - 55)
     else None)"

fun parse_hex :: "nat \<Rightarrow> string \<Rightarrow> nat option" where
  "parse_hex acc [] = Some acc"
| "parse_hex acc (c # cs) = (case hex_val c of None \<Rightarrow> None | Some d \<Rightarrow> parse_hex (16 * acc + d) cs)"

definition ParseUint16 :: "string \<Rightarrow> goerr + u64" where
  "ParseUint16 s = (if s = [] then Inl Plain_Err else
     case parse_hex 0 s of None \<Rightarrow> Inl Plain_Err
     | Some n \<Rightarrow> if n < 2 ^ 64 then Inr (of_nat n) else Inl Plain_Err)"

definition ParseID :: "string \<Rightarrow> goerr + u64" where
  "ParseID s = (if length s \<noteq> 16 then Inl (NewError ErrInvalidQuery)
     else case ParseUint16 s of Inl e \<Rightarrow> Inl (Error ErrInvalidQuery (Some e)) | Inr h \<Rightarrow> Inr h)"

fun ParseAll :: "string list \<Rightarrow> goerr + u64 list" where
  "ParseAll [] = Inr []"
| "ParseAll (s # ss) = (case ParseID s of Inl e \<Rightarrow> Inl e
     | Inr h \<Rightarrow> (case ParseAll ss of Inl e \<Rightarrow> Inl e | Inr hs \<Rightarrow> Inr (h # hs)))"

lemma length_format_digits [simp]: "length (format_digits n h) = n"
  by (induction n arbitrary: h) auto

lemma length_FormatHash [simp]: "length (FormatHash h) = 16"
  by (simp add: FormatHash_def)

lemma hex_val_digits: "list_all (\<lambda>n. hex_val (hex_digit n) = Some n) [0..<16]"
  by code_simp

lemma hex_val_digit: "n < 16 \<Longrightarrow> hex_val (hex_digit n) = Some n"
  using hex_val_digits by (auto simp: list_all_iff)

lemma parse_hex_append:
  "parse_hex a (xs @ ys) = Option.bind (parse_hex a xs) (\<lambda>b. parse_hex b ys)"
  by (induction a xs rule: parse_hex.induct) (auto split: option.splits)

lemma unat_low_nibble: "unat ((h :: u64) AND 0xf) = unat h mod 16"
proof -
  have "h AND 0xf = take_bit 4 h" by (simp add: take_bit_eq_mask mask_eq_exp_minus_1)
  then show ?thesis by (simp add: take_bit_eq_mod unat_mod)
qed

lemma unat_shift4: "unat (drop_bit 4 (h :: u64)) = unat h div 16"
  by (simp add: drop_bit_eq_div unat_div)

lemma parse_hex_format: "parse_hex a (format_digits n h) = Some (16 ^ n * a + unat h mod 16 ^ n)"
proof (induction n arbitrary: a h)
  case 0
  then show ?case by simp
next
  case (Suc n)
  have "unat (h AND 0xf) < 16" by (simp add: unat_low_nibble)
  then have "hex_val (hex_digit (unat (h AND 0xf))) = Some (unat h mod 16)"
    by (simp add: hex_val_digit unat_low_nibble)
  moreover have "16 * (16 ^ n * a + unat h div 16 mod 16 ^ n) + unat h mod 16
      = 16 ^ Suc n * a + unat h mod 16 ^ Suc n"
    by (simp add: mod_mult2_eq algebra_simps)
  ultimately show ?case by (simp add: parse_hex_append Suc.IH unat_shift4)
qed

lemma ParseID_FormatHash [simp]: "ParseID (FormatHash h) = Inr h"
proof -
  have "parse_hex 0 (FormatHash h) = Some (unat h)"
    using unsigned_less [of h, where ?'a = nat]
    by (simp add: FormatHash_def parse_hex_format)
  moreover have "FormatHash h \<noteq> []" by (metis length_FormatHash length_0_conv zero_neq_numeral)
  moreover have "unat h < 2 ^ 64" using unsigned_less [of h, where ?'a = nat] by simp
  ultimately show ?thesis by (simp add: ParseID_def ParseUint16_def)
qed

lemma FormatHash_inject: "FormatHash h = FormatHash k \<longleftrightarrow> h = k"
  by (metis ParseID_FormatHash sum.inject(2))

lemma ParseAll_FormatHash: "ParseAll (map FormatHash hs) = Inr hs"
  by (induction hs) auto

lemma ParseID_code: "ParseID s = Inl e \<Longrightarrow> CodeOf e = ErrInvalidQuery"
  by (auto simp: ParseID_def split: if_splits sum.splits)

lemma ParseAll_code: "ParseAll ss = Inl e \<Longrightarrow> CodeOf e = ErrInvalidQuery"
  by (induction ss) (auto split: sum.splits dest: ParseID_code)

section \<open>Slices\<close>

text \<open>\<^verbatim>\<open>slices.Compact\<close> drops an element equal to the one before it.\<close>

fun compact :: "'a list \<Rightarrow> 'a list" where
  "compact [] = []"
| "compact [x] = [x]"
| "compact (x # y # zs) = (if x = y then compact (y # zs) else x # compact (y # zs))"

definition DedupSorted :: "u64 list \<Rightarrow> u64 list" where
  "DedupSorted ids = compact (sort ids)"

fun union_loop :: "'a list \<Rightarrow> 'a list \<Rightarrow> 'a list \<Rightarrow> 'a list" where
  "union_loop seen out [] = out"
| "union_loop seen out (x # xs) =
     (if x \<in> set seen then union_loop seen out xs else union_loop (x # seen) (out @ [x]) xs)"

definition Union :: "'a list \<Rightarrow> 'a list \<Rightarrow> 'a list" where
  "Union a b = union_loop a a b"

lemma set_compact [simp]: "set (compact xs) = set xs"
  by (induction xs rule: compact.induct) auto

lemma hd_compact: "xs \<noteq> [] \<Longrightarrow> hd (compact xs) = hd xs"
  by (induction xs rule: compact.induct) auto

lemma sorted_compact: "sorted (xs :: 'a::linorder list) \<Longrightarrow> sorted (compact xs) \<and> distinct (compact xs)"
  by (induction xs rule: compact.induct) fastforce+

lemma DedupSorted_props: "sorted (DedupSorted ids)" "distinct (DedupSorted ids)" "set (DedupSorted ids) = set ids"
  using sorted_compact [of "sort ids"] by (simp_all add: DedupSorted_def)

lemma DedupSorted_eq: "DedupSorted ids = sorted_list_of_set (set ids)"
  by (metis DedupSorted_props sorted_list_of_set.idem_if_sorted_distinct)

lemma union_loop_eq:
  "set out \<subseteq> set seen \<Longrightarrow> \<exists>app. union_loop seen out xs = out @ app \<and> set app = set xs - set seen \<and> distinct app"
proof (induction seen out xs rule: union_loop.induct)
  case (1 seen out)
  then show ?case by simp
next
  case (2 seen out x xs)
  show ?case
  proof (cases "x \<in> set seen")
    case True
    with "2.IH"(1) [OF True "2.prems"] show ?thesis by auto
  next
    case False
    have "set (out @ [x]) \<subseteq> set (x # seen)" using "2.prems" by auto
    from "2.IH"(2) [OF False this] obtain app where
      "union_loop (x # seen) (out @ [x]) xs = (out @ [x]) @ app"
      "set app = set xs - set (x # seen)" "distinct app" by auto
    then have "union_loop seen out (x # xs) = out @ (x # app)" "set (x # app) = set (x # xs) - set seen"
      "distinct (x # app)" using False by auto
    then show ?thesis by blast
  qed
qed

lemma Union_props:
  "set (Union a b) = set a \<union> set b" "take (length a) (Union a b) = a"
  "distinct a \<Longrightarrow> distinct (Union a b)"
proof -
  obtain app where "Union a b = a @ app" "set app = set b - set a" "distinct app"
    using union_loop_eq [of a a b] unfolding Union_def by blast
  then show "set (Union a b) = set a \<union> set b" "take (length a) (Union a b) = a"
    "distinct a \<Longrightarrow> distinct (Union a b)" by auto
qed

end
