(* ===== verification/Frame.thy ===== *)
theory Frame
  imports Crc32 Common
begin

text \<open>
  \<^verbatim>\<open>internal/repo/core/frame.go\<close>: the record frame of a \<^verbatim>\<open>.meh\<close> file. A frame is a 26-byte
  header (type, flags, payload length, agent id, record id, CRC-32 of the first 22 bytes and
  the payload) followed by the payload. The theory shows that encoding and decoding are
  inverse, that decoding accepts nothing but encodings, and how a decoder meets the three
  kinds of damage: a torn tail, a changed byte and zero-filled space.
\<close>

definition RecordHeaderSize :: nat where "RecordHeaderSize = 26"
definition FlagDeleted :: byte where "FlagDeleted = 0x01"

definition RecL0Profile :: byte where "RecL0Profile = 0x01"
definition RecL1SceneNode :: byte where "RecL1SceneNode = 0x02"
definition RecL1Hyperedge :: byte where "RecL1Hyperedge = 0x03"
definition RecL2Topic :: byte where "RecL2Topic = 0x04"
definition RecL2Scene :: byte where "RecL2Scene = 0x05"
definition RecL3GraphNode :: byte where "RecL3GraphNode = 0x06"
definition RecL3GraphEdge :: byte where "RecL3GraphEdge = 0x07"
definition RecL4Archive :: byte where "RecL4Archive = 0x08"
definition RecL3GraphSlot :: byte where "RecL3GraphSlot = 0x0B"
definition RecL5PlanNode :: byte where "RecL5PlanNode = 0x0F"
definition RecAgentRegistry :: byte where "RecAgentRegistry = 0x10"

definition DefaultAgentID :: u64 where "DefaultAgentID = 0"
definition SharedPoolAgentID :: u64 where "SharedPoolAgentID = 0x4C33000000000000"

definition EncodeRecord :: "u64 \<Rightarrow> byte \<Rightarrow> byte \<Rightarrow> u64 \<Rightarrow> bytes \<Rightarrow> bytes" where
  "EncodeRecord agentID recordType flags idHash data =
     (let head = [recordType, flags] @ put_u32 (of_nat (length data)) @ put_u64 agentID @ put_u64 idHash;
          crc = crc32_update (crc32_ieee head) data
      in head @ put_u32 crc @ data)"

text \<open>What \<^verbatim>\<open>RecordData\<close> returns on success.\<close>

record frame =
  f_type :: byte
  f_flags :: byte
  f_data :: bytes
  f_agent :: u64
  f_id :: u64

definition RecordData :: "bytes \<Rightarrow> nat \<Rightarrow> goerr + frame" where
  "RecordData mmap off =
     (if off = length mmap then Inl Io_EOF
      else if off > length mmap \<or> RecordHeaderSize > length mmap - off then Inl (NewError ErrCorruption)
      else
        let recordType = mmap ! off;
            flags = mmap ! (off + 1);
            dataLen = get_u32 (bslice mmap (off + 2) (off + 6));
            agentID = get_u64 (bslice mmap (off + 6) (off + 14));
            idHash = get_u64 (bslice mmap (off + 14) (off + 22))
        in if recordType = 0 \<and> flags = 0 \<and> dataLen = 0 \<and> agentID = 0 \<and> idHash = 0 then Inl Io_EOF
           else
             let frameStart = off + RecordHeaderSize
             in if unat dataLen > length mmap - frameStart then Inl (NewError ErrCorruption)
                else
                  let dataEnd = frameStart + unat dataLen;
                      storedCRC = get_u32 (bslice mmap (off + 22) (off + 26));
                      crc = crc32_update (crc32_ieee (bslice mmap off (off + 22)))
                              (bslice mmap (off + RecordHeaderSize) dataEnd)
                  in if crc \<noteq> storedCRC then Inl (NewError ErrCRCMismatch)
                     else Inr \<lparr>f_type = recordType, f_flags = flags,
                               f_data = bslice mmap (off + RecordHeaderSize) dataEnd,
                               f_agent = agentID, f_id = idHash\<rparr>)"

section \<open>The shape of an encoded frame\<close>

definition frame_head :: "u64 \<Rightarrow> byte \<Rightarrow> byte \<Rightarrow> u64 \<Rightarrow> u32 \<Rightarrow> bytes" where
  "frame_head a t fl i n = [t, fl] @ put_u32 n @ put_u64 a @ put_u64 i"

lemma length_frame_head [simp]: "length (frame_head a t fl i n) = 22"
  by (simp add: frame_head_def)

lemma EncodeRecord_alt:
  "EncodeRecord a t fl i d = frame_head a t fl i (of_nat (length d))
     @ put_u32 (crc32_ieee (frame_head a t fl i (of_nat (length d)) @ d)) @ d"
  by (simp add: EncodeRecord_def frame_head_def Let_def crc32_ieee_append)

lemma length_EncodeRecord [simp, bytes_simps]:
  "length (EncodeRecord a t fl i d) = RecordHeaderSize + length d"
  by (simp add: EncodeRecord_alt RecordHeaderSize_def)

lemma EncodeRecord_not_Nil [simp]: "EncodeRecord a t fl i d \<noteq> []"
  by (simp add: EncodeRecord_def Let_def)

lemma frame_head_fields:
  "frame_head a t fl i n ! 0 = t" "frame_head a t fl i n ! Suc 0 = fl"
  "bslice (frame_head a t fl i n) 2 6 = put_u32 n"
  "bslice (frame_head a t fl i n) 6 14 = put_u64 a"
  "bslice (frame_head a t fl i n) 14 22 = put_u64 i"
proof -
  show "frame_head a t fl i n ! 0 = t" "frame_head a t fl i n ! Suc 0 = fl"
    by (simp_all add: frame_head_def)
  have l: "length (put_u32 n) = 4" "length (put_u64 a) = 8" "length (put_u64 i) = 8" by simp_all
  show "bslice (frame_head a t fl i n) 2 6 = put_u32 n"
    using l by (simp add: frame_head_def bslice_def numeral_2_eq_2)
  show "bslice (frame_head a t fl i n) 6 14 = put_u64 a"
    using l by (simp add: frame_head_def bslice_def drop_Cons')
  show "bslice (frame_head a t fl i n) 14 22 = put_u64 i"
    using l by (simp add: frame_head_def bslice_def drop_Cons')
qed

text \<open>A header whose five fields are all zero is read as free space, not as a record.\<close>

definition blank_head :: "u64 \<Rightarrow> byte \<Rightarrow> byte \<Rightarrow> u64 \<Rightarrow> u32 \<Rightarrow> bool" where
  "blank_head a t fl i n \<longleftrightarrow> t = 0 \<and> fl = 0 \<and> n = 0 \<and> a = 0 \<and> i = 0"

text \<open>
  Decoding at the end of a prefix, with the 22 header bytes, the checksum bytes and the
  remainder of the file named.
\<close>

lemma RecordData_at:
  assumes "length c = 4"
  shows "RecordData (pre @ frame_head a t fl i n @ c @ rest) (length pre) =
    (if blank_head a t fl i n then Inl Io_EOF
     else if unat n > length rest then Inl (NewError ErrCorruption)
     else if crc32_ieee (frame_head a t fl i n @ take (unat n) rest) \<noteq> get_u32 c
       then Inl (NewError ErrCRCMismatch)
     else Inr \<lparr>f_type = t, f_flags = fl, f_data = take (unat n) rest, f_agent = a, f_id = i\<rparr>)"
proof -
  let ?h = "frame_head a t fl i n" and ?k = "length pre"
  let ?mm = "pre @ ?h @ c @ rest"
  have sl: "bslice ?mm (?k + x) (?k + y) = bslice ?h x y" if "y \<le> 22" for x y
    using that bslice_append_right [of pre "?h @ c @ rest" x y] bslice_append_left [of y ?h "c @ rest" x]
    by simp
  have n0: "?mm ! ?k = t" "?mm ! (?k + 1) = fl"
    using frame_head_fields(1,2) [of a t fl i n] by (simp_all add: nth_append)
  have d0: "bslice ?mm ?k (?k + 22) = ?h"
    using sl [of 22 0] bslice_full [of ?h] by simp
  have fields: "bslice ?mm (?k + 2) (?k + 6) = put_u32 n" "bslice ?mm (?k + 6) (?k + 14) = put_u64 a"
    "bslice ?mm (?k + 14) (?k + 22) = put_u64 i"
    using sl [of 6 2] sl [of 14 6] sl [of 22 14] frame_head_fields [of a t fl i n]
    by (simp_all del: add_2_eq_Suc')
  have cc: "bslice ?mm (?k + 22) (?k + 26) = c"
    using assms by (simp add: bslice_def)
  have dd: "bslice ?mm (?k + 26) (?k + 26 + unat n) = take (unat n) rest"
    using assms by (simp add: bslice_def)
  have len: "length ?mm = ?k + 26 + length rest" using assms by simp
  show ?thesis
    unfolding RecordData_def Let_def n0 fields cc RecordHeaderSize_def len
    using dd d0 by (simp add: blank_head_def crc32_ieee_append)
qed

section \<open>Round trips\<close>

lemma RecordData_EncodeRecord:
  assumes "length d < 2 ^ 32" and "\<not> blank_head a t fl i (of_nat (length d))"
  shows "RecordData (pre @ EncodeRecord a t fl i d @ post) (length pre)
    = Inr \<lparr>f_type = t, f_flags = fl, f_data = d, f_agent = a, f_id = i\<rparr>"
proof -
  have "unat (of_nat (length d) :: u32) = length d" using assms(1) by (simp add: unat_of_nat)
  then show ?thesis
    using assms(2) by (simp add: EncodeRecord_alt RecordData_at)
qed

text \<open>Every byte position the decoder accepts holds exactly the encoding of what it returns.\<close>

lemma split_head:
  assumes "length (hd26 :: bytes) = 22"
  shows "hd26 = frame_head (get_u64 (bslice hd26 6 14)) (hd26 ! 0) (hd26 ! 1) (get_u64 (bslice hd26 14 22))
           (get_u32 (bslice hd26 2 6))"
proof -
  obtain t fl r where r: "hd26 = t # fl # r" "length r = 20"
    using assms by (auto simp: numeral_eq_Suc length_Suc_conv)
  have "r = take 4 r @ drop 4 r" by simp
  moreover have "drop 4 r = take 8 (drop 4 r) @ drop 8 (drop 4 r)" by (simp only: append_take_drop_id)
  moreover have "drop 8 (drop 4 r) = take 8 (drop 12 r)" using r(2) by simp
  ultimately have "r = take 4 r @ take 8 (drop 4 r) @ take 8 (drop 12 r)" by metis
  moreover have "put_u32 (get_u32 (take 4 r)) = take 4 r" "put_u64 (get_u64 (take 8 (drop 4 r))) = take 8 (drop 4 r)"
    "put_u64 (get_u64 (take 8 (drop 12 r))) = take 8 (drop 12 r)"
    using r(2) by (simp_all add: c32.put_get c64.put_get)
  ultimately show ?thesis
    by (simp add: r(1) frame_head_def bslice_def drop_Cons')
qed

text \<open>A file cut at a decodable offset: what precedes, the header, the checksum, the rest.\<close>

lemma split_file:
  assumes "off + 26 \<le> length mm"
  obtains pre a t fl i n c rest where
    "mm = pre @ frame_head a t fl i n @ c @ rest" "length pre = off" "length c = 4"
proof
  let ?h = "take 22 (drop off mm)"
  have "length ?h = 22" using assms by simp
  note h = split_head [OF this]
  have "mm = take off mm @ ?h @ drop 22 (drop off mm)"
    by (simp only: append_take_drop_id)
  also have "drop 22 (drop off mm) = take 4 (drop 22 (drop off mm)) @ drop 4 (drop 22 (drop off mm))"
    by (simp only: append_take_drop_id)
  finally show "mm = take off mm
      @ frame_head (get_u64 (bslice ?h 6 14)) (?h ! 0) (?h ! 1) (get_u64 (bslice ?h 14 22)) (get_u32 (bslice ?h 2 6))
      @ take 4 (drop 22 (drop off mm)) @ drop 4 (drop 22 (drop off mm))"
    by (simp only: h [symmetric])
  show "length (take off mm) = off" "length (take 4 (drop 22 (drop off mm))) = 4"
    using assms by simp_all
qed

lemma RecordData_Inr_bound: "RecordData mm off = Inr f \<Longrightarrow> off + RecordHeaderSize \<le> length mm"
  by (auto simp: RecordData_def Let_def split: if_splits)

lemma RecordData_InrD:
  assumes "RecordData mm off = Inr f"
  shows "\<exists>pre post. length pre = off
      \<and> mm = pre @ EncodeRecord (f_agent f) (f_type f) (f_flags f) (f_id f) (f_data f) @ post"
    and "off + RecordHeaderSize + length (f_data f) \<le> length mm"
    and "length (f_data f) < 2 ^ 32"
    and "\<not> blank_head (f_agent f) (f_type f) (f_flags f) (f_id f) (of_nat (length (f_data f)))"
proof -
  from RecordData_Inr_bound [OF assms] have "off + 26 \<le> length mm"
    by (simp add: RecordHeaderSize_def)
  then obtain pre a t fl i n c rest where
    mm: "mm = pre @ frame_head a t fl i n @ c @ rest" and p: "length pre = off" and c: "length c = 4"
    by (rule split_file)
  have "RecordData (pre @ frame_head a t fl i n @ c @ rest) (length pre) = Inr f"
    using assms mm p by simp
  then have nb: "\<not> blank_head a t fl i n" and le: "unat n \<le> length rest"
    and crc: "crc32_ieee (frame_head a t fl i n @ take (unat n) rest) = get_u32 c"
    and f: "f = \<lparr>f_type = t, f_flags = fl, f_data = take (unat n) rest, f_agent = a, f_id = i\<rparr>"
    unfolding RecordData_at [OF c] by (auto split: if_splits)
  have n: "of_nat (length (take (unat n) rest)) = n" using le by (simp add: min_absorb2)
  have cc: "c = put_u32 (crc32_ieee (frame_head a t fl i n @ take (unat n) rest))"
    using crc c by (simp add: c32.put_get)
  have "mm = pre @ EncodeRecord a t fl i (take (unat n) rest) @ drop (unat n) rest"
    unfolding EncodeRecord_alt n cc [symmetric] mm by simp
  then show "\<exists>pre post. length pre = off
      \<and> mm = pre @ EncodeRecord (f_agent f) (f_type f) (f_flags f) (f_id f) (f_data f) @ post"
    using p f by auto
  show "off + RecordHeaderSize + length (f_data f) \<le> length mm"
    using mm p c le f by (simp add: RecordHeaderSize_def)
  show "length (f_data f) < 2 ^ 32"
    using le f unsigned_less [of n, where ?'a = nat] by simp
  show "\<not> blank_head (f_agent f) (f_type f) (f_flags f) (f_id f) (of_nat (length (f_data f)))"
    using nb n f by simp
qed

text \<open>Decoding looks at the frame's own bytes only.\<close>

lemma RecordData_mono:
  assumes "RecordData mm off = Inr f" "length mm \<le> length mm'"
    and "take (off + RecordHeaderSize + length (f_data f)) mm' = take (off + RecordHeaderSize + length (f_data f)) mm"
  shows "RecordData mm' off = Inr f"
proof -
  from RecordData_InrD(1) [OF assms(1)] obtain pre post where
    p: "length pre = off" and mm: "mm = pre @ EncodeRecord (f_agent f) (f_type f) (f_flags f) (f_id f) (f_data f) @ post"
    by blast
  let ?k = "off + RecordHeaderSize + length (f_data f)"
  have "take ?k mm = pre @ EncodeRecord (f_agent f) (f_type f) (f_flags f) (f_id f) (f_data f)"
    using p by (simp add: mm)
  then have "mm' = pre @ EncodeRecord (f_agent f) (f_type f) (f_flags f) (f_id f) (f_data f) @ drop ?k mm'"
    using assms(3) by (metis append_assoc append_take_drop_id)
  then show ?thesis
    using RecordData_EncodeRecord [OF RecordData_InrD(3,4) [OF assms(1)], of pre "drop ?k mm'"] p by simp
qed

lemma RecordData_append:
  assumes "RecordData mm off = Inr f"
  shows "RecordData (mm @ xs) off = Inr f"
proof (rule RecordData_mono [OF assms])
  show "length mm \<le> length (mm @ xs)" by simp
  show "take (off + RecordHeaderSize + length (f_data f)) (mm @ xs)
      = take (off + RecordHeaderSize + length (f_data f)) mm"
    using RecordData_InrD(2) [OF assms] by simp
qed

section \<open>Damage\<close>

text \<open>Zero-filled space of at least one header reads as the end of the log.\<close>

lemma blank_frame_head: "frame_head 0 0 0 0 0 = replicate 22 0"
proof -
  have "le_bytes n 0 = replicate n 0" for n by (induction n) auto
  then show ?thesis by (simp add: frame_head_def put_u32_def put_u64_def eval_nat_numeral)
qed

lemma RecordData_zeros:
  assumes "26 \<le> n"
  shows "RecordData (pre @ replicate n 0) (length pre) = Inl Io_EOF"
proof -
  have "replicate n (0::byte) = frame_head 0 0 0 0 0 @ replicate 4 0 @ replicate (n - 26) 0"
  proof -
    have "n = 22 + (4 + (n - 26))" using assms by simp
    then show ?thesis unfolding blank_frame_head by (metis replicate_add)
  qed
  then show ?thesis by (simp add: RecordData_at blank_head_def)
qed

text \<open>A frame the file ends inside of is refused as corruption.\<close>

lemma RecordData_torn:
  assumes k: "0 < k" "k < RecordHeaderSize + length d" and d: "length d < 2 ^ 32"
    and nb: "\<not> blank_head a t fl i (of_nat (length d))"
  shows "RecordData (pre @ take k (EncodeRecord a t fl i d)) (length pre) = Inl (NewError ErrCorruption)"
proof (cases "k < 26")
  case True
  then show ?thesis using k by (simp add: RecordData_def RecordHeaderSize_def)
next
  case False
  let ?h = "frame_head a t fl i (of_nat (length d))"
  let ?c = "put_u32 (crc32_ieee (?h @ d))"
  have "take k (EncodeRecord a t fl i d) = ?h @ ?c @ take (k - 26) d"
    using False by (simp add: EncodeRecord_alt)
  moreover have "unat (of_nat (length d) :: u32) = length d" using d by (simp add: unat_of_nat)
  moreover have "k - 26 < length d" using k False by (simp add: RecordHeaderSize_def)
  ultimately show ?thesis using nb by (simp add: RecordData_at)
qed

text \<open>A changed payload byte is a checksum mismatch.\<close>

lemma RecordData_payload_changed:
  assumes "length d < 2 ^ 32" "j < length d" "b \<noteq> d ! j"
    and nb: "\<not> blank_head a t fl i (of_nat (length d))"
  shows "RecordData (pre @ (EncodeRecord a t fl i d)[RecordHeaderSize + j := b] @ post) (length pre)
    = Inl (NewError ErrCRCMismatch)"
proof -
  let ?h = "frame_head a t fl i (of_nat (length d))"
  let ?c = "put_u32 (crc32_ieee (?h @ d))"
  have len: "unat (of_nat (length d) :: u32) = length d" using assms(1) by (simp add: unat_of_nat)
  have upd: "(EncodeRecord a t fl i d)[RecordHeaderSize + j := b] = ?h @ ?c @ d[j := b]"
    by (simp add: EncodeRecord_alt RecordHeaderSize_def list_update_append)
  have "d = take j d @ d ! j # drop (Suc j) d" "d[j := b] = take j d @ b # drop (Suc j) d"
    using assms(2) by (simp_all add: id_take_nth_drop upd_conv_take_nth_drop)
  then have "crc32_ieee (?h @ d[j := b]) \<noteq> crc32_ieee (?h @ d)"
    using crc32_byte_change [of "?h @ take j d" b "drop (Suc j) d" "d ! j"] assms(3) by (metis append_assoc)
  then show ?thesis
    unfolding upd using nb len by (simp add: RecordData_at)
qed

end
