(* ===== verification/Header.thy ===== *)
theory Header
  imports Frame
begin

text \<open>
  \<^verbatim>\<open>internal/repo/core/header.go\<close>: the 4096-byte file header, of which a file carries two
  (A at offset 0, B at 4096). \<^verbatim>\<open>ToBytes\<close> and \<^verbatim>\<open>FileHeaderFromBytes\<close> are inverse on the one format
  version the engine opens, a changed byte is refused, and \<^verbatim>\<open>loadHeaders\<close> survives the loss of
  either copy.
\<close>

definition HeaderSize :: nat where "HeaderSize = 4096"
definition HeaderAOffset :: nat where "HeaderAOffset = 0"
definition HeaderBOffset :: nat where "HeaderBOffset = 4096"
definition DataStart :: nat where "DataStart = 8192"
definition FormatVersion :: u16 where "FormatVersion = 0x0012"

definition Magic :: bytes where "Magic = [0x4D, 0x45, 0x48, 0x32]"
definition TailMagic :: bytes where "TailMagic = [0x32, 0x48, 0x45, 0x4D]"

record FileHeader =
  Version :: u16
  Reserved :: u16
  CommitID :: u64
  SnapshotOffset :: u64
  SnapshotLength :: u32
  RecordCount :: u32
  Flags :: u32
  RecordEnd :: u64
  CRC32 :: u32

definition NewFileHeader :: FileHeader where
  "NewFileHeader = \<lparr>Version = FormatVersion, Reserved = 0, CommitID = 0, SnapshotOffset = 0,
     SnapshotLength = 0, RecordCount = 0, Flags = 0, RecordEnd = 0, CRC32 = 0\<rparr>"

text \<open>The bytes between the last field and the checksum; a Go array starts zeroed.\<close>

definition header_pad :: bytes where "header_pad = replicate 4044 0"

definition header_body :: "FileHeader \<Rightarrow> bytes" where
  "header_body h = Magic @ put_u16 (Version h) @ put_u16 (Reserved h) @ put_u64 (CommitID h)
     @ put_u64 (SnapshotOffset h) @ put_u32 (SnapshotLength h) @ put_u32 (RecordCount h)
     @ put_u32 (Flags h) @ put_u64 (RecordEnd h) @ header_pad"

definition ToBytes :: "FileHeader \<Rightarrow> bytes" where
  "ToBytes h = header_body h @ put_u32 (crc32_ieee (header_body h)) @ TailMagic"

definition FileHeaderFromBytes :: "bytes \<Rightarrow> goerr + FileHeader" where
  "FileHeaderFromBytes buf =
     (if bslice buf 0 4 \<noteq> Magic then Inl (NewError ErrInvalidMagic)
      else if bslice buf 4092 4096 \<noteq> TailMagic then Inl (NewError ErrInvalidMagic)
      else
        let storedCRC = get_u32 (bslice buf 4088 4092)
        in if crc32_ieee (bslice buf 0 4088) \<noteq> storedCRC then Inl (NewError ErrCRCMismatch)
           else
             let version = get_u16 (bslice buf 4 6)
             in if version \<noteq> FormatVersion then Inl (NewError ErrCorruption)
                else Inr \<lparr>Version = version, Reserved = get_u16 (bslice buf 6 8),
                     CommitID = get_u64 (bslice buf 8 16), SnapshotOffset = get_u64 (bslice buf 16 24),
                     SnapshotLength = get_u32 (bslice buf 24 28), RecordCount = get_u32 (bslice buf 28 32),
                     Flags = get_u32 (bslice buf 32 36), RecordEnd = get_u64 (bslice buf 36 44),
                     CRC32 = storedCRC\<rparr>)"

definition calculateCRC :: "FileHeader \<Rightarrow> u32" where
  "calculateCRC h = crc32_ieee (bslice (ToBytes h) 0 4088)"

definition SelectValidHeader :: "FileHeader \<Rightarrow> FileHeader \<Rightarrow> FileHeader" where
  "SelectValidHeader a b = (if CommitID a \<ge> CommitID b then a else b)"

text \<open>\<open>loadHeaders mm\<close> answers header A, header B and whether B is the active one.\<close>

definition loadHeaders :: "bytes \<Rightarrow> goerr + (FileHeader \<times> FileHeader \<times> bool)" where
  "loadHeaders mm =
     (let bufA = bslice mm 0 HeaderSize;
          bufB = bslice mm HeaderSize (HeaderSize * 2)
      in case (FileHeaderFromBytes bufA, FileHeaderFromBytes bufB) of
           (Inr a, Inr b) \<Rightarrow>
             (let active = SelectValidHeader a b
              in if CommitID active = CommitID a then Inr (a, b, False) else Inr (a, b, True))
         | (Inr a, Inl _) \<Rightarrow> Inr (a, a, False)
         | (Inl _, Inr b) \<Rightarrow> Inr (b, b, True)
         | (Inl _, Inl _) \<Rightarrow> Inl (NewError ErrCorruption))"

section \<open>Round trip\<close>

lemma length_magics [simp]: "length Magic = 4" "length TailMagic = 4" "length header_pad = 4044"
  by (simp_all add: Magic_def TailMagic_def header_pad_def)

lemma length_header_body [simp]: "length (header_body h) = 4088"
  by (simp add: header_body_def)

lemma length_ToBytes [simp, bytes_simps]: "length (ToBytes h) = HeaderSize"
  by (simp add: ToBytes_def HeaderSize_def)

lemma ToBytes_body [simp]: "bslice (ToBytes h) 0 4088 = header_body h"
  by (simp add: ToBytes_def bslice_def)

lemma calculateCRC_eq: "calculateCRC h = crc32_ieee (header_body h)"
  by (simp add: calculateCRC_def)

lemma header_body_CRC32 [simp]: "header_body (h\<lparr>CRC32 := c\<rparr>) = header_body h"
  by (simp add: header_body_def)

lemma ToBytes_CRC32 [simp]: "ToBytes (h\<lparr>CRC32 := c\<rparr>) = ToBytes h"
  by (simp add: ToBytes_def)

lemma header_body_fields:
  "bslice (header_body h) 0 4 = Magic" "bslice (header_body h) 4 6 = put_u16 (Version h)"
  "bslice (header_body h) 6 8 = put_u16 (Reserved h)" "bslice (header_body h) 8 16 = put_u64 (CommitID h)"
  "bslice (header_body h) 16 24 = put_u64 (SnapshotOffset h)"
  "bslice (header_body h) 24 28 = put_u32 (SnapshotLength h)"
  "bslice (header_body h) 28 32 = put_u32 (RecordCount h)" "bslice (header_body h) 32 36 = put_u32 (Flags h)"
  "bslice (header_body h) 36 44 = put_u64 (RecordEnd h)"
  by (simp_all add: header_body_def bslice_def)

lemma ToBytes_bslice: "j \<le> 4088 \<Longrightarrow> bslice (ToBytes h) i j = bslice (header_body h) i j"
  by (simp add: ToBytes_def bslice_append_left)

lemma ToBytes_trailer:
  "bslice (ToBytes h) 4088 4092 = put_u32 (crc32_ieee (header_body h))"
  "bslice (ToBytes h) 4092 4096 = TailMagic"
  by (simp_all add: ToBytes_def bslice_def)

lemma FileHeaderFromBytes_ToBytes:
  "FileHeaderFromBytes (ToBytes h) =
     (if Version h = FormatVersion then Inr (h\<lparr>CRC32 := calculateCRC h\<rparr>) else Inl (NewError ErrCorruption))"
  by (simp add: FileHeaderFromBytes_def ToBytes_bslice header_body_fields ToBytes_trailer calculateCRC_eq Let_def)

section \<open>Damage\<close>

text \<open>Whatever byte of the checksummed part changes, the header is refused.\<close>

lemma FileHeaderFromBytes_changed:
  assumes "j < 4088" "b \<noteq> ToBytes h ! j"
  shows "\<exists>e. FileHeaderFromBytes ((ToBytes h)[j := b]) = Inl e"
proof -
  let ?d = "header_body h" and ?t = "put_u32 (crc32_ieee (header_body h)) @ TailMagic"
  have upd: "(ToBytes h)[j := b] = ?d[j := b] @ ?t"
    using assms(1) by (simp add: ToBytes_def list_update_append)
  have sl: "bslice (?d[j := b] @ ?t) 0 4088 = ?d[j := b]"
    "bslice (?d[j := b] @ ?t) 4088 4092 = put_u32 (crc32_ieee ?d)"
    by (simp_all add: bslice_def)
  have "b \<noteq> ?d ! j" using assms by (simp add: ToBytes_def nth_append)
  moreover have "?d = take j ?d @ ?d ! j # drop (Suc j) ?d" "?d[j := b] = take j ?d @ b # drop (Suc j) ?d"
    using assms(1) by (simp_all add: id_take_nth_drop upd_conv_take_nth_drop)
  ultimately have "crc32_ieee (?d[j := b]) \<noteq> crc32_ieee ?d"
    using crc32_byte_change by metis
  then show ?thesis
    by (simp add: FileHeaderFromBytes_def upd sl Let_def)
qed

section \<open>Choosing between the two copies\<close>

lemma FileHeaderFromBytes_version: "FileHeaderFromBytes buf = Inr h \<Longrightarrow> Version h = FormatVersion"
  by (auto simp: FileHeaderFromBytes_def Let_def split: if_splits)

text \<open>The active header is one that decoded, and no decoded header has a higher commit id.\<close>

lemma loadHeaders_active:
  assumes "loadHeaders mm = Inr (hA, hB, act)"
  defines "active \<equiv> (if act then hB else hA)"
  shows "FileHeaderFromBytes (bslice mm 0 HeaderSize) = Inr active
       \<or> FileHeaderFromBytes (bslice mm HeaderSize (HeaderSize * 2)) = Inr active"
    and "FileHeaderFromBytes (bslice mm 0 HeaderSize) = Inr h
       \<or> FileHeaderFromBytes (bslice mm HeaderSize (HeaderSize * 2)) = Inr h
       \<Longrightarrow> CommitID h \<le> CommitID active"
  using assms
  by (auto simp: loadHeaders_def SelectValidHeader_def Let_def split: sum.splits if_splits)

lemma loadHeaders_None:
  "(\<exists>e. loadHeaders mm = Inl e) \<longleftrightarrow>
     (\<exists>e. FileHeaderFromBytes (bslice mm 0 HeaderSize) = Inl e)
   \<and> (\<exists>e. FileHeaderFromBytes (bslice mm HeaderSize (HeaderSize * 2)) = Inl e)"
  by (auto simp: loadHeaders_def Let_def split: sum.splits)

text \<open>The two copies a file starts with.\<close>

lemma loadHeaders_two:
  assumes "Version a = FormatVersion" "Version b = FormatVersion"
  shows "loadHeaders (ToBytes a @ ToBytes b @ rest) =
    Inr (a\<lparr>CRC32 := calculateCRC a\<rparr>, b\<lparr>CRC32 := calculateCRC b\<rparr>, CommitID a < CommitID b)"
proof -
  have "bslice (ToBytes a @ ToBytes b @ rest) 0 HeaderSize = ToBytes a"
    "bslice (ToBytes a @ ToBytes b @ rest) HeaderSize (HeaderSize * 2) = ToBytes b"
    by (simp_all add: bslice_def)
  then show ?thesis
    using assms
    by (auto simp: loadHeaders_def FileHeaderFromBytes_ToBytes SelectValidHeader_def Let_def)
qed

end
