(* ===== verification/Snapshot.thy ===== *)
theory Snapshot
  imports Header
begin

text \<open>
  \<^verbatim>\<open>internal/repo/core/snapshot.go\<close> and the blob helpers of \<^verbatim>\<open>reclaim.go\<close>: the record index
  serialized as one blob (magic, version, agent sections of 16-byte entries, CRC-32). The index
  maps an agent id to that agent's map from record id to file offset.
\<close>

type_synonym record_index = "(u64, (u64, u64) gomap) gomap"

definition index_wf :: "record_index \<Rightarrow> bool" where
  "index_wf idx \<longleftrightarrow> map_wf idx \<and> (\<forall>(a, m) \<in> set idx. map_wf m)"

definition SnapshotMagic :: u32 where "SnapshotMagic = 0x534E4150"
definition SnapshotVersion :: byte where "SnapshotVersion = 0x03"

definition appendU32LE :: "bytes \<Rightarrow> u32 \<Rightarrow> bytes" where "appendU32LE buf v = buf @ put_u32 v"
definition appendU64LE :: "bytes \<Rightarrow> u64 \<Rightarrow> bytes" where "appendU64LE buf v = buf @ put_u64 v"

fun snapshot_entries :: "bytes \<Rightarrow> (u64, u64) gomap \<Rightarrow> bytes" where
  "snapshot_entries buf [] = buf"
| "snapshot_entries buf ((i, off) # m) = snapshot_entries (appendU64LE (appendU64LE buf i) off) m"

fun snapshot_agents :: "bytes \<Rightarrow> record_index \<Rightarrow> bytes" where
  "snapshot_agents buf [] = buf"
| "snapshot_agents buf ((a, m) # idx) =
     snapshot_agents (snapshot_entries (appendU32LE (appendU64LE buf a) (of_nat (length m))) m) idx"

definition BuildSnapshot :: "record_index \<Rightarrow> bytes" where
  "BuildSnapshot index =
     (let agents = filter (\<lambda>(a, m). m \<noteq> []) index;
          buf = appendU32LE [] SnapshotMagic;
          buf = buf @ [SnapshotVersion];
          buf = appendU32LE buf (of_nat (length agents));
          buf = snapshot_agents buf agents
      in appendU32LE buf (crc32_ieee buf))"

definition checkSnapshotEnvelope :: "bytes \<Rightarrow> goerr option" where
  "checkSnapshotEnvelope raw =
     (if length raw < 13 then Some (NewError ErrCorruption)
      else if crc32_ieee (bslice raw 0 (length raw - 4)) \<noteq> get_u32 (bslice raw (length raw - 4) (length raw))
        then Some (NewError ErrCRCMismatch)
      else if get_u32 (bslice raw 0 4) \<noteq> SnapshotMagic then Some (NewError ErrCorruption)
      else if raw ! 4 \<noteq> SnapshotVersion then Some (NewError ErrCorruption)
      else None)"

fun parse_entries :: "nat \<Rightarrow> bytes \<Rightarrow> nat \<Rightarrow> (u64, u64) gomap \<Rightarrow> (u64, u64) gomap \<times> nat" where
  "parse_entries 0 raw pos m = (m, pos)"
| "parse_entries (Suc n) raw pos m =
     parse_entries n raw (pos + 16)
       (AList.update (get_u64 (bslice raw pos (pos + 8))) (get_u64 (bslice raw (pos + 8) (pos + 16))) m)"

definition parseSnapshotAgent :: "bytes \<Rightarrow> nat \<Rightarrow> goerr + (u64 \<times> (u64, u64) gomap \<times> nat)" where
  "parseSnapshotAgent raw pos =
     (if pos + 12 > length raw - 4 then Inl (NewError ErrCorruption)
      else
        let agentID = get_u64 (bslice raw pos (pos + 8));
            count = unat (get_u32 (bslice raw (pos + 8) (pos + 12)));
            pos = pos + 12
        in if pos + count * 16 > length raw - 4 then Inl (NewError ErrCorruption)
           else let (m, pos) = parse_entries count raw pos [] in Inr (agentID, m, pos))"

fun parse_agents :: "nat \<Rightarrow> bytes \<Rightarrow> nat \<Rightarrow> record_index \<Rightarrow> goerr + record_index" where
  "parse_agents 0 raw pos idx = Inr idx"
| "parse_agents (Suc n) raw pos idx =
     (case parseSnapshotAgent raw pos of Inl e \<Rightarrow> Inl e
      | Inr (agentID, m, next) \<Rightarrow> parse_agents n raw next (AList.update agentID m idx))"

definition ParseSnapshot :: "bytes \<Rightarrow> goerr + record_index" where
  "ParseSnapshot raw =
     (case checkSnapshotEnvelope raw of Some e \<Rightarrow> Inl e
      | None \<Rightarrow> parse_agents (unat (get_u32 (bslice raw 5 9))) raw 9 [])"

definition isSnapshotBlobAt :: "bytes \<Rightarrow> bool" where
  "isSnapshotBlobAt raw \<longleftrightarrow> length raw \<ge> 13 \<and> get_u32 (bslice raw 0 4) = SnapshotMagic"

fun skip_agents :: "nat \<Rightarrow> bytes \<Rightarrow> nat \<Rightarrow> goerr + nat" where
  "skip_agents 0 raw pos = Inr pos"
| "skip_agents (Suc n) raw pos =
     (case parseSnapshotAgent raw pos of Inl e \<Rightarrow> Inl e | Inr (_, _, next) \<Rightarrow> skip_agents n raw next)"

definition snapshotBlobLength :: "bytes \<Rightarrow> goerr + nat" where
  "snapshotBlobLength raw =
     (if length raw < 13 then Inl (NewError ErrCorruption)
      else if get_u32 (bslice raw 0 4) \<noteq> SnapshotMagic \<or> raw ! 4 \<noteq> SnapshotVersion
        then Inl (NewError ErrCorruption)
      else case skip_agents (unat (get_u32 (bslice raw 5 9))) raw 9 of
        Inl e \<Rightarrow> Inl e
      | Inr pos \<Rightarrow> if pos + 4 > length raw then Inl (NewError ErrCorruption) else Inr (pos + 4))"

section \<open>The layout of a blob\<close>

definition entry_bytes :: "u64 \<times> u64 \<Rightarrow> bytes" where
  "entry_bytes e = put_u64 (fst e) @ put_u64 (snd e)"

definition section_bytes :: "u64 \<times> (u64, u64) gomap \<Rightarrow> bytes" where
  "section_bytes s = put_u64 (fst s) @ put_u32 (of_nat (length (snd s))) @ concat (map entry_bytes (snd s))"

lemma length_entry_bytes [simp]: "length (entry_bytes e) = 16"
  by (simp add: entry_bytes_def)

lemma length_concat_entries [simp]: "length (concat (map entry_bytes m)) = 16 * length m"
  by (induction m) auto

lemma length_section_bytes [simp]: "length (section_bytes s) = 12 + 16 * length (snd s)"
  by (simp add: section_bytes_def)

lemma snapshot_entries_eq: "snapshot_entries buf m = buf @ concat (map entry_bytes m)"
  by (induction buf m rule: snapshot_entries.induct)
    (auto simp: appendU64LE_def entry_bytes_def)

lemma snapshot_agents_eq: "snapshot_agents buf idx = buf @ concat (map section_bytes idx)"
  by (induction buf idx rule: snapshot_agents.induct)
    (auto simp: appendU64LE_def appendU32LE_def section_bytes_def snapshot_entries_eq)

definition live_domains :: "record_index \<Rightarrow> record_index" where
  "live_domains idx = filter (\<lambda>(a, m). m \<noteq> []) idx"

definition snapshot_body :: "record_index \<Rightarrow> bytes" where
  "snapshot_body idx = put_u32 SnapshotMagic @ [SnapshotVersion] @ put_u32 (of_nat (length (live_domains idx)))
     @ concat (map section_bytes (live_domains idx))"

lemma BuildSnapshot_eq: "BuildSnapshot idx = snapshot_body idx @ put_u32 (crc32_ieee (snapshot_body idx))"
  by (simp add: BuildSnapshot_def snapshot_body_def appendU32LE_def snapshot_agents_eq live_domains_def Let_def)

lemma length_snapshot_body_ge: "length (snapshot_body idx) \<ge> 9"
  by (simp add: snapshot_body_def)

text \<open>The counts of a blob are 32-bit; an index within them is \<open>index_fits\<close>.\<close>

definition index_fits :: "record_index \<Rightarrow> bool" where
  "index_fits idx \<longleftrightarrow> length idx < 2 ^ 32 \<and> (\<forall>(a, m) \<in> set idx. length m < 2 ^ 32)"

section \<open>Reading a blob back\<close>

lemma bslice_at: "length ys = n \<Longrightarrow> bslice (pre @ ys @ post) (length pre) (length pre + n) = ys"
  by (simp add: bslice_def)

lemma parse_entries_at:
  assumes "map_wf (acc @ m)"
  shows "parse_entries (length m) (pre @ concat (map entry_bytes m) @ post) (length pre) acc
    = (acc @ m, length pre + 16 * length m)"
  using assms
proof (induction m arbitrary: pre acc)
  case Nil
  then show ?case by simp
next
  case (Cons e m)
  obtain i off where e: "e = (i, off)" by (cases e)
  let ?raw = "pre @ concat (map entry_bytes (e # m)) @ post"
  have "bslice ?raw (length pre) (length pre + 8) = put_u64 i"
    "bslice ?raw (length pre + 8) (length pre + 16) = put_u64 off"
    using bslice_at [of "put_u64 i" 8 pre] bslice_at [of "put_u64 off" 8 "pre @ put_u64 i"]
    by (simp_all add: e entry_bytes_def add.commute)
  moreover have "AList.update i off acc = acc @ [(i, off)]"
    using Cons.prems by (intro update_fresh) (auto simp: map_wf_def e)
  moreover have "parse_entries (length m) ((pre @ entry_bytes e) @ concat (map entry_bytes m) @ post)
      (length (pre @ entry_bytes e)) (acc @ [(i, off)]) = ((acc @ [(i, off)]) @ m, length (pre @ entry_bytes e) + 16 * length m)"
    using Cons.prems by (intro Cons.IH) (simp add: e map_wf_def)
  ultimately show ?case by (simp add: e)
qed

lemma parseSnapshotAgent_at:
  assumes "map_wf m" "length m < 2 ^ 32" "4 \<le> length post"
  shows "parseSnapshotAgent (pre @ section_bytes (a, m) @ post) (length pre)
    = Inr (a, m, length pre + length (section_bytes (a, m)))"
proof -
  let ?raw = "pre @ section_bytes (a, m) @ post"
  have s: "bslice ?raw (length pre) (length pre + 8) = put_u64 a"
    "bslice ?raw (length pre + 8) (length pre + 12) = put_u32 (of_nat (length m))"
    using bslice_at [of "put_u64 a" 8 pre] bslice_at [of "put_u32 (of_nat (length m))" 4 "pre @ put_u64 a"]
    by (simp_all add: section_bytes_def add.commute)
  have c: "unat (of_nat (length m) :: u32) = length m" using assms(2) by (simp add: unat_of_nat)
  have "parse_entries (length m) ((pre @ put_u64 a @ put_u32 (of_nat (length m))) @ concat (map entry_bytes m) @ post)
      (length (pre @ put_u64 a @ put_u32 (of_nat (length m)))) [] = ([] @ m, length pre + 12 + 16 * length m)"
    using parse_entries_at [of "[]" m "pre @ put_u64 a @ put_u32 (of_nat (length m))" post] assms(1) by simp
  then have "parse_entries (length m) ?raw (length pre + 12) [] = (m, length pre + 12 + 16 * length m)"
    by (simp add: section_bytes_def)
  then show ?thesis
    using assms(3) by (simp add: parseSnapshotAgent_def s c Let_def)
qed

lemma parse_agents_at:
  assumes "index_wf (acc @ idx)" "\<forall>(a, m) \<in> set idx. length m < 2 ^ 32" "4 \<le> length post"
  shows "parse_agents (length idx) (pre @ concat (map section_bytes idx) @ post) (length pre) acc = Inr (acc @ idx)"
    and "skip_agents (length idx) (pre @ concat (map section_bytes idx) @ post) (length pre)
      = Inr (length pre + length (concat (map section_bytes idx)))"
  using assms(1,2)
proof (induction idx arbitrary: pre acc)
  case Nil
  {
    case 1
    then show ?case by simp
  next
    case 2
    then show ?case by simp
  }
next
  case (Cons s idx)
  obtain a m where s: "s = (a, m)" by (cases s)
  have hd: "parseSnapshotAgent (pre @ concat (map section_bytes (s # idx)) @ post) (length pre) = Inr (a, m, length pre + length (section_bytes (a, m)))"
    if "index_wf (acc @ s # idx)" "\<forall>(a, m) \<in> set (s # idx). length m < 2 ^ 32" for acc pre
    using parseSnapshotAgent_at [of m "concat (map section_bytes idx) @ post" pre a] that assms(3)
    by (simp add: index_wf_def s)
  {
    case 1
    have "AList.update a m acc = acc @ [(a, m)]"
      using 1 by (intro update_fresh) (auto simp: index_wf_def map_wf_def s)
    moreover have "parse_agents (length idx) ((pre @ section_bytes s) @ concat (map section_bytes idx) @ post)
        (length (pre @ section_bytes s)) (acc @ [s]) = Inr ((acc @ [s]) @ idx)"
      using 1 by (intro Cons.IH(1)) auto
    ultimately show ?case using hd [OF 1] by (simp add: s)
  next
    case 2
    have "skip_agents (length idx) ((pre @ section_bytes s) @ concat (map section_bytes idx) @ post)
        (length (pre @ section_bytes s)) = Inr (length (pre @ section_bytes s) + length (concat (map section_bytes idx)))"
      using 2 by (intro Cons.IH(2) [where acc = "acc @ [s]"]) auto
    then show ?case using hd [OF 2] by (simp add: s)
  }
qed

lemma live_domains_wf: "index_wf idx \<Longrightarrow> index_wf (live_domains idx)"
  unfolding index_wf_def live_domains_def map_wf_def by (auto intro: distinct_map_filter)

lemma live_domains_fits: "index_fits idx \<Longrightarrow> index_fits (live_domains idx)"
  using le_less_trans [OF length_filter_le [of "\<lambda>(a, m). m \<noteq> []" idx]]
  by (auto simp: index_fits_def live_domains_def)

lemma snapshot_prefix:
  fixes rest :: bytes
  assumes "index_fits idx"
  defines "raw \<equiv> snapshot_body idx @ rest"
  shows "get_u32 (bslice raw 0 4) = SnapshotMagic" "raw ! 4 = SnapshotVersion"
    "unat (get_u32 (bslice raw 5 9)) = length (live_domains idx)"
proof -
  have len: "length (live_domains idx) < 2 ^ 32"
    using live_domains_fits [OF assms(1)] by (simp add: index_fits_def)
  show "get_u32 (bslice raw 0 4) = SnapshotMagic" "raw ! 4 = SnapshotVersion"
    by (simp_all add: raw_def snapshot_body_def bslice_def nth_append)
  have "bslice raw 5 9 = put_u32 (of_nat (length (live_domains idx)))"
    using bslice_at [of "put_u32 (of_nat (length (live_domains idx)))" 4 "put_u32 SnapshotMagic @ [SnapshotVersion]"]
    by (simp add: raw_def snapshot_body_def)
  then show "unat (get_u32 (bslice raw 5 9)) = length (live_domains idx)"
    using len by (simp add: unat_of_nat)
qed

lemma snapshot_sections:
  assumes "index_wf idx" "index_fits idx" "4 \<le> length rest"
  shows "parse_agents (length (live_domains idx)) (snapshot_body idx @ rest) 9 [] = Inr (live_domains idx)"
    and "skip_agents (length (live_domains idx)) (snapshot_body idx @ rest) 9 = Inr (length (snapshot_body idx))"
proof -
  let ?pre = "put_u32 SnapshotMagic @ [SnapshotVersion] @ put_u32 (of_nat (length (live_domains idx)))"
  have wf: "index_wf ([] @ live_domains idx)" using live_domains_wf [OF assms(1)] by simp
  have fit: "\<forall>(a, m) \<in> set (live_domains idx). length m < 2 ^ 32"
    using live_domains_fits [OF assms(2)] by (simp add: index_fits_def)
  have body: "snapshot_body idx @ rest = ?pre @ concat (map section_bytes (live_domains idx)) @ rest"
    by (simp add: snapshot_body_def)
  show "parse_agents (length (live_domains idx)) (snapshot_body idx @ rest) 9 [] = Inr (live_domains idx)"
    unfolding body using parse_agents_at(1) [OF wf fit assms(3), of ?pre] by simp
  show "skip_agents (length (live_domains idx)) (snapshot_body idx @ rest) 9 = Inr (length (snapshot_body idx))"
    unfolding body using parse_agents_at(2) [OF wf fit assms(3), of ?pre] by (simp add: snapshot_body_def)
qed

lemma ParseSnapshot_BuildSnapshot:
  assumes "index_wf idx" "index_fits idx"
  shows "ParseSnapshot (BuildSnapshot idx) = Inr (live_domains idx)"
proof -
  let ?c = "put_u32 (crc32_ieee (snapshot_body idx))"
  have "checkSnapshotEnvelope (BuildSnapshot idx) = None"
    using length_snapshot_body_ge [of idx] snapshot_prefix [OF assms(2), of ?c]
    by (simp add: checkSnapshotEnvelope_def BuildSnapshot_eq bslice_def)
  then show ?thesis
    using snapshot_prefix [OF assms(2), of ?c] snapshot_sections(1) [OF assms, of ?c]
    by (simp add: ParseSnapshot_def BuildSnapshot_eq)
qed

lemma snapshotBlobLength_BuildSnapshot:
  assumes "index_wf idx" "index_fits idx"
  shows "snapshotBlobLength (BuildSnapshot idx @ rest) = Inr (length (BuildSnapshot idx))"
    and "isSnapshotBlobAt (BuildSnapshot idx @ rest)"
proof -
  let ?r = "put_u32 (crc32_ieee (snapshot_body idx)) @ rest"
  note l = length_snapshot_body_ge [of idx] and p = snapshot_prefix [OF assms(2), of ?r]
  show "snapshotBlobLength (BuildSnapshot idx @ rest) = Inr (length (BuildSnapshot idx))"
    using l p snapshot_sections(2) [OF assms, of ?r]
    by (simp add: snapshotBlobLength_def BuildSnapshot_eq)
  show "isSnapshotBlobAt (BuildSnapshot idx @ rest)"
    using l p by (simp add: isSnapshotBlobAt_def BuildSnapshot_eq)
qed

text \<open>Whatever a blob holds, parsing it yields a well-formed index or an error.\<close>

lemma parse_entries_wf: "map_wf m \<Longrightarrow> map_wf (fst (parse_entries n raw pos m))"
  by (induction n arbitrary: pos m) auto

lemma index_wf_update: "index_wf idx \<Longrightarrow> map_wf m \<Longrightarrow> index_wf (AList.update a m idx)"
  unfolding index_wf_def by (auto dest: set_update_cases)

lemma index_wf_Nil [simp]: "index_wf []"
  by (simp add: index_wf_def)

lemma parse_agents_wf: "index_wf idx \<Longrightarrow> parse_agents n raw pos idx = Inr idx' \<Longrightarrow> index_wf idx'"
proof (induction n arbitrary: pos idx)
  case 0
  then show ?case by simp
next
  case (Suc n)
  then obtain a m p where s: "parseSnapshotAgent raw pos = Inr (a, m, p)"
    and r: "parse_agents n raw p (AList.update a m idx) = Inr idx'"
    by (auto split: sum.splits prod.splits)
  have "map_wf m"
    using s parse_entries_wf [of "[]"]
    by (auto simp: parseSnapshotAgent_def Let_def split: if_splits prod.splits) (metis fst_conv map_wf_simps(1))
  then show ?case using Suc.IH r Suc.prems(1) index_wf_update by blast
qed

lemma ParseSnapshot_wf: "ParseSnapshot raw = Inr idx \<Longrightarrow> index_wf idx"
  unfolding ParseSnapshot_def
  by (auto split: option.splits dest: parse_agents_wf [OF index_wf_Nil])

end
