(* ===== verification/Os_File.thy ===== *)
theory Os_File
  imports Common
begin

text \<open>
  The operating system as the storage engine sees it: one open file with its contents and its
  write position, and the outcomes the next system calls will have. \<open>faults\<close> is a script: every
  call takes its outcome off the front, and a script that has run out means success, so an
  engine whose script is empty runs on a healthy disk while any failure pattern can be written
  down and evaluated. \<open>OpShort n\<close> makes a write store \<open>n\<close> bytes before it fails.

  \<^verbatim>\<open>mmap.go\<close> and \<^verbatim>\<open>mmap_unix.go\<close> map the file shared and read-only, so a mapping is the first
  \<open>n\<close> bytes of the file's current contents; the model keeps \<open>n\<close>.
\<close>

datatype fault = OpOk | OpFail | OpShort nat

record osfile =
  contents :: bytes
  cursor :: nat
  faults :: "fault list"

definition next_op :: "osfile \<Rightarrow> fault \<times> osfile" where
  "next_op f = (case faults f of [] \<Rightarrow> (OpOk, f) | x # xs \<Rightarrow> (x, f\<lparr>faults := xs\<rparr>))"

definition os_call :: "(osfile \<Rightarrow> 'a \<times> osfile) \<Rightarrow> osfile \<Rightarrow> (goerr + 'a) \<times> osfile" where
  "os_call act f = (case next_op f of
     (OpOk, f') \<Rightarrow> (case act f' of (r, f'') \<Rightarrow> (Inr r, f''))
   | (_, f') \<Rightarrow> (Inl Plain_Err, f'))"

definition f_seek_end :: "osfile \<Rightarrow> (goerr + nat) \<times> osfile" where
  "f_seek_end = os_call (\<lambda>f. (length (contents f), f\<lparr>cursor := length (contents f)\<rparr>))"

definition f_seek :: "nat \<Rightarrow> osfile \<Rightarrow> (goerr + unit) \<times> osfile" where
  "f_seek off = os_call (\<lambda>f. ((), f\<lparr>cursor := off\<rparr>))"

definition write_at :: "nat \<Rightarrow> bytes \<Rightarrow> bytes \<Rightarrow> bytes" where
  "write_at p bs c = take p c @ replicate (p - length c) 0 @ bs @ drop (p + length bs) c"

definition f_write :: "bytes \<Rightarrow> osfile \<Rightarrow> (goerr + unit) \<times> osfile" where
  "f_write bs f = (case next_op f of
     (OpOk, f') \<Rightarrow> (Inr (), f'\<lparr>contents := write_at (cursor f') bs (contents f'),
                          cursor := cursor f' + length bs\<rparr>)
   | (OpFail, f') \<Rightarrow> (Inl Plain_Err, f')
   | (OpShort n, f') \<Rightarrow> (Inl Plain_Err, f'\<lparr>contents := write_at (cursor f') (take n bs) (contents f'),
                          cursor := cursor f' + length (take n bs)\<rparr>))"

definition f_truncate :: "nat \<Rightarrow> osfile \<Rightarrow> (goerr + unit) \<times> osfile" where
  "f_truncate sz = os_call (\<lambda>f. ((),
     f\<lparr>contents := take sz (contents f) @ replicate (sz - length (contents f)) 0\<rparr>))"

definition f_sync :: "osfile \<Rightarrow> (goerr + unit) \<times> osfile" where
  "f_sync = os_call (\<lambda>f. ((), f))"

definition f_size :: "osfile \<Rightarrow> (goerr + nat) \<times> osfile" where
  "f_size = os_call (\<lambda>f. (length (contents f), f))"

section \<open>Mappings\<close>

text \<open>\<open>MapFile\<close> answers the length of the new mapping; a zero size maps nothing.\<close>

definition MapFile :: "nat \<Rightarrow> osfile \<Rightarrow> (goerr + nat) \<times> osfile" where
  "MapFile sz f = (if sz = 0 then (Inr 0, f)
     else case os_call (\<lambda>f. (sz, f)) f of
       (Inl e, f) \<Rightarrow> (Inl (Error ErrIO (Some e)), f)
     | (Inr n, f) \<Rightarrow> (Inr n, f))"

definition UnmapFile :: "nat \<Rightarrow> osfile \<Rightarrow> (goerr + unit) \<times> osfile" where
  "UnmapFile mapped f = (if mapped = 0 then (Inr (), f)
     else case os_call (\<lambda>f. ((), f)) f of
       (Inl e, f) \<Rightarrow> (Inl (Error ErrIO (Some e)), f)
     | (Inr _, f) \<Rightarrow> (Inr (), f))"

definition RemapFile :: "nat \<Rightarrow> osfile \<Rightarrow> (goerr + nat) \<times> osfile" where
  "RemapFile oldMapped f = (case f_size f of
     (Inl e, f) \<Rightarrow> (Inl (Error ErrIO (Some e)), f)
   | (Inr sz, f) \<Rightarrow> (case MapFile sz f of
       (Inl e, f) \<Rightarrow> (Inl e, f)
     | (Inr newMapped, f) \<Rightarrow> (case UnmapFile oldMapped f of
         (Inl e, f) \<Rightarrow> (case UnmapFile newMapped f of (_, f) \<Rightarrow> (Inl e, f))
       | (Inr _, f) \<Rightarrow> (Inr newMapped, f))))"

section \<open>A healthy disk\<close>

named_theorems os_simps \<open>system calls on a disk without faults\<close>

lemma next_op_ok [os_simps]: "faults f = [] \<Longrightarrow> next_op f = (OpOk, f)"
  by (simp add: next_op_def)

lemma os_call_ok [os_simps]: "faults f = [] \<Longrightarrow> os_call act f = (case act f of (r, f') \<Rightarrow> (Inr r, f'))"
  by (simp add: os_call_def next_op_ok)

lemma f_seek_end_ok [os_simps]:
  "faults f = [] \<Longrightarrow> f_seek_end f = (Inr (length (contents f)), f\<lparr>cursor := length (contents f)\<rparr>)"
  by (simp add: f_seek_end_def os_call_ok)

lemma f_seek_ok [os_simps]: "faults f = [] \<Longrightarrow> f_seek off f = (Inr (), f\<lparr>cursor := off\<rparr>)"
  by (simp add: f_seek_def os_call_ok)

lemma f_write_ok [os_simps]:
  "faults f = [] \<Longrightarrow> f_write bs f = (Inr (), f\<lparr>contents := write_at (cursor f) bs (contents f),
     cursor := cursor f + length bs\<rparr>)"
  by (simp add: f_write_def next_op_ok)

lemma f_truncate_ok [os_simps]:
  "faults f = [] \<Longrightarrow> f_truncate sz f =
     (Inr (), f\<lparr>contents := take sz (contents f) @ replicate (sz - length (contents f)) 0\<rparr>)"
  by (simp add: f_truncate_def os_call_ok)

lemma f_sync_ok [os_simps]: "faults f = [] \<Longrightarrow> f_sync f = (Inr (), f)"
  by (simp add: f_sync_def os_call_ok)

lemma f_size_ok [os_simps]: "faults f = [] \<Longrightarrow> f_size f = (Inr (length (contents f)), f)"
  by (simp add: f_size_def os_call_ok)

lemma MapFile_ok [os_simps]: "faults f = [] \<Longrightarrow> MapFile sz f = (Inr sz, f)"
  by (simp add: MapFile_def os_call_ok)

lemma UnmapFile_ok [os_simps]: "faults f = [] \<Longrightarrow> UnmapFile n f = (Inr (), f)"
  by (simp add: UnmapFile_def os_call_ok)

lemma RemapFile_ok [os_simps]: "faults f = [] \<Longrightarrow> RemapFile n f = (Inr (length (contents f)), f)"
  by (simp add: RemapFile_def os_simps)

lemma write_at_end: "write_at (length c) bs c = c @ bs"
  by (simp add: write_at_def)

lemma write_at_inside: "p + length bs \<le> length c \<Longrightarrow> write_at p bs c = take p c @ bs @ drop (p + length bs) c"
  by (simp add: write_at_def)

section \<open>What a system call may change\<close>

text \<open>No call but a write and a truncation changes the contents, whatever its outcome.\<close>

lemma next_op_contents: "next_op f = (x, f') \<Longrightarrow> contents f' = contents f \<and> cursor f' = cursor f"
  by (auto simp: next_op_def split: list.splits)

lemma f_seek_end_contents: "f_seek_end f = (r, f') \<Longrightarrow> contents f' = contents f"
  by (auto simp: f_seek_end_def os_call_def split: prod.splits fault.splits dest: next_op_contents)

lemma f_seek_end_Inr:
  "f_seek_end f = (Inr n, f') \<Longrightarrow> n = length (contents f) \<and> cursor f' = n \<and> contents f' = contents f"
  by (auto simp: f_seek_end_def os_call_def split: prod.splits fault.splits dest: next_op_contents)

lemma f_write_Inr:
  "f_write bs f = (Inr u, f') \<Longrightarrow> contents f' = write_at (cursor f) bs (contents f)"
  by (auto simp: f_write_def split: prod.splits fault.splits dest: next_op_contents)

lemma f_write_Inl:
  "f_write bs f = (Inl e, f') \<Longrightarrow> (\<exists>n. contents f' = write_at (cursor f) (take n bs) (contents f))
     \<or> contents f' = contents f"
  by (cases "next_op f") (auto simp: f_write_def split: fault.splits dest!: next_op_contents)

lemma f_truncate_Inr:
  "f_truncate sz f = (Inr u, f') \<Longrightarrow>
     contents f' = take sz (contents f) @ replicate (sz - length (contents f)) 0"
  by (auto simp: f_truncate_def os_call_def split: prod.splits fault.splits dest: next_op_contents)

lemma f_sync_contents: "f_sync f = (r, f') \<Longrightarrow> contents f' = contents f"
  by (auto simp: f_sync_def os_call_def split: prod.splits fault.splits dest: next_op_contents)

lemma f_size_contents: "f_size f = (r, f') \<Longrightarrow> contents f' = contents f \<and> (\<forall>n. r = Inr n \<longrightarrow> n = length (contents f))"
  by (auto simp: f_size_def os_call_def split: prod.splits fault.splits dest: next_op_contents)

lemma MapFile_contents: "MapFile n f = (r, f') \<Longrightarrow> contents f' = contents f \<and> (\<forall>k. r = Inr k \<longrightarrow> k = n)"
  by (auto simp: MapFile_def os_call_def split: prod.splits fault.splits if_splits dest: next_op_contents)

lemma UnmapFile_contents: "UnmapFile n f = (r, f') \<Longrightarrow> contents f' = contents f"
  by (auto simp: UnmapFile_def os_call_def split: prod.splits fault.splits if_splits dest: next_op_contents)

lemma RemapFile_contents:
  "RemapFile n f = (r, f') \<Longrightarrow> contents f' = contents f \<and> (\<forall>k. r = Inr k \<longrightarrow> k = length (contents f))"
  by (auto simp: RemapFile_def split: prod.splits sum.splits
      dest!: f_size_contents MapFile_contents UnmapFile_contents)

end
