(* ===== verification/Engine.thy ===== *)
theory Engine
  imports Snapshot Os_File
begin

text \<open>
  \<^verbatim>\<open>internal/repo/core/engine.go\<close>, \<^verbatim>\<open>engine_read.go\<close>, \<^verbatim>\<open>engine_write.go\<close>, \<^verbatim>\<open>engine_delete.go\<close> and
  the trimming half of \<^verbatim>\<open>reclaim.go\<close>: the append-only storage engine. An operation takes the
  engine and returns its error or result together with the engine it leaves behind, because a
  failing Go method still leaves its mutations in place. The engine's mutex makes each exported
  method one atomic step; nothing else of it is modelled.

  File positions are natural numbers (a Go file is shorter than \<open>2^63\<close> bytes), the offsets the
  index stores are the 64-bit words of the source.
\<close>

record RecordEntry =
  r_agent :: u64
  r_type :: byte
  r_id :: u64
  r_data :: bytes

type_synonym type_index = "(u64, (byte, u64 list) gomap) gomap"

record StorageEngine =
  efile :: osfile
  mapped :: nat
  headerA :: FileHeader
  headerB :: FileHeader
  activeHeader :: bool \<comment> \<open>False = A, True = B\<close>
  index :: record_index
  byAgentType :: type_index
  nextOffset :: nat
  closed :: bool

definition errEngineClosed :: goerr where "errEngineClosed = NewError ErrClosed"

text \<open>The mapped bytes: what Go reads through \<^verbatim>\<open>e.mmap\<close>.\<close>

definition mmap :: "StorageEngine \<Rightarrow> bytes" where
  "mmap e = take (mapped e) (contents (efile e))"

section \<open>Nested maps\<close>

definition idx_lookup :: "record_index \<Rightarrow> u64 \<Rightarrow> u64 \<Rightarrow> u64 option" where
  "idx_lookup idx a i = (case map_of idx a of None \<Rightarrow> None | Some m \<Rightarrow> map_of m i)"

definition idx_put :: "u64 \<Rightarrow> u64 \<Rightarrow> u64 \<Rightarrow> record_index \<Rightarrow> record_index" where
  "idx_put a i off idx =
     AList.update a (AList.update i off (case map_of idx a of None \<Rightarrow> [] | Some m \<Rightarrow> m)) idx"

definition bt_ids :: "type_index \<Rightarrow> u64 \<Rightarrow> byte \<Rightarrow> u64 list" where
  "bt_ids bt a t = (case map_of bt a of None \<Rightarrow> []
     | Some types \<Rightarrow> (case map_of types t of None \<Rightarrow> [] | Some ids \<Rightarrow> ids))"

definition bt_add :: "u64 \<Rightarrow> byte \<Rightarrow> u64 \<Rightarrow> type_index \<Rightarrow> type_index" where
  "bt_add a t i bt =
     AList.update a (AList.update t (List.insert i (bt_ids bt a t))
       (case map_of bt a of None \<Rightarrow> [] | Some types \<Rightarrow> types)) bt"

definition removeTypeLocked :: "u64 \<Rightarrow> byte \<Rightarrow> u64 \<Rightarrow> type_index \<Rightarrow> type_index" where
  "removeTypeLocked a t i bt =
     (case map_of bt a of None \<Rightarrow> bt
      | Some types \<Rightarrow> (case map_of types t of None \<Rightarrow> bt
        | Some ids \<Rightarrow>
            let ids = filter (\<lambda>x. x \<noteq> i) ids
            in if ids \<noteq> [] then AList.update a (AList.update t ids types) bt
               else
                 let types = AList.delete t types
                 in if types = [] then AList.delete a bt else AList.update a types bt))"

section \<open>Accessors\<close>

definition Contains :: "StorageEngine \<Rightarrow> u64 \<Rightarrow> u64 \<Rightarrow> bool" where
  "Contains e a i = (if closed e then False else idx_lookup (index e) a i \<noteq> None)"

definition totalRecordsLocked :: "StorageEngine \<Rightarrow> nat" where
  "totalRecordsLocked e = sum_list (map (\<lambda>(a, m). length m) (index e))"

definition Stats :: "StorageEngine \<Rightarrow> nat \<times> nat" where
  "Stats e = (if closed e then (0, 0) else (length (mmap e), totalRecordsLocked e))"

definition iterSnapshot :: "StorageEngine \<Rightarrow> u64 list \<Rightarrow> u64 list" where
  "iterSnapshot e ids = (if closed e then [] else sort ids)"

definition IndexByType :: "StorageEngine \<Rightarrow> u64 \<Rightarrow> byte \<Rightarrow> u64 list" where
  "IndexByType e a t = iterSnapshot e (bt_ids (byAgentType e) a t)"

definition IterAgents :: "StorageEngine \<Rightarrow> u64 list" where
  "IterAgents e = iterSnapshot e (map fst (index e))"

definition mappedSize :: "StorageEngine \<Rightarrow> nat" where
  "mappedSize e = length (mmap e)"

definition activeHeaderRef :: "StorageEngine \<Rightarrow> FileHeader" where
  "activeHeaderRef e = (if activeHeader e then headerB e else headerA e)"

text \<open>
  The type byte of the frame at an offset. An offset of \<open>2^63\<close> or more would be a negative Go
  \<open>int\<close> and the read would panic; no index an \<open>Open\<close> hands out holds one (\<open>rebuildByAgentType\<close>).
\<close>

definition recordTypeAt :: "StorageEngine \<Rightarrow> u64 \<Rightarrow> byte option" where
  "recordTypeAt e off = (if unat off \<ge> length (mmap e) then None else Some (mmap e ! unat off))"

section \<open>Reading\<close>

definition ReadRecord :: "StorageEngine \<Rightarrow> u64 \<Rightarrow> u64 \<Rightarrow> goerr + (byte \<times> bytes)" where
  "ReadRecord e a i =
     (if closed e then Inl errEngineClosed
      else case idx_lookup (index e) a i of
        None \<Rightarrow> Inl (NewError ErrNotFound)
      | Some off \<Rightarrow> (case RecordData (mmap e) (unat off) of
          Inl err \<Rightarrow> if is_eof err then Inl (Error ErrCorruption (Some err)) else Inl err
        | Inr f \<Rightarrow> Inr (f_type f, f_data f)))"

section \<open>Headers on disk, truncation\<close>

definition writeHeaderAt :: "nat \<Rightarrow> bytes \<Rightarrow> osfile \<Rightarrow> (goerr + unit) \<times> osfile" where
  "writeHeaderAt off buf f = (case f_seek off f of
     (Inl e, f) \<Rightarrow> (Inl (Error ErrIO (Some e)), f)
   | (Inr _, f) \<Rightarrow> (case f_write buf f of
       (Inl e, f) \<Rightarrow> (Inl (Error ErrIO (Some e)), f)
     | (Inr _, f) \<Rightarrow> (Inr (), f)))"

definition writeInactiveHeader :: "FileHeader \<Rightarrow> StorageEngine \<Rightarrow> (goerr + unit) \<times> StorageEngine" where
  "writeInactiveHeader hdr e =
     (let writeOffset = (if \<not> activeHeader e then HeaderBOffset else HeaderAOffset)
      in case writeHeaderAt writeOffset (ToBytes hdr) (efile e) of
           (Inl err, f) \<Rightarrow> (Inl err, e\<lparr>efile := f\<rparr>)
         | (Inr _, f) \<Rightarrow> (case f_sync f of
             (Inl err, f) \<Rightarrow> (Inl (Error ErrIO (Some err)), e\<lparr>efile := f\<rparr>)
           | (Inr _, f) \<Rightarrow> (Inr (), e\<lparr>efile := f\<rparr>)))"

definition switchHeader :: "FileHeader \<Rightarrow> StorageEngine \<Rightarrow> StorageEngine" where
  "switchHeader hdr e = (if activeHeader e then e\<lparr>headerA := hdr, activeHeader := False\<rparr>
     else e\<lparr>headerB := hdr, activeHeader := True\<rparr>)"

definition truncateTail :: "nat \<Rightarrow> StorageEngine \<Rightarrow> (goerr + unit) \<times> StorageEngine" where
  "truncateTail sz e = (case UnmapFile (mapped e) (efile e) of
     (Inl err, f) \<Rightarrow> (Inl err, e\<lparr>efile := f\<rparr>)
   | (Inr _, f) \<Rightarrow>
       (let e = e\<lparr>efile := f, mapped := 0\<rparr>
        in case f_truncate sz (efile e) of
             (Inl err, f) \<Rightarrow> (Inl (Error ErrIO (Some err)), e\<lparr>efile := f\<rparr>)
           | (Inr _, f) \<Rightarrow> (case f_sync f of
               (Inl err, f) \<Rightarrow> (Inl (Error ErrIO (Some err)), e\<lparr>efile := f\<rparr>)
             | (Inr _, f) \<Rightarrow> (case MapFile sz f of
                 (Inl err, f) \<Rightarrow> (Inl err, e\<lparr>efile := f\<rparr>)
               | (Inr n, f) \<Rightarrow> (Inr (), e\<lparr>efile := f, mapped := n\<rparr>)))))"

definition writeNullSnapshotHeader :: "StorageEngine \<Rightarrow> (goerr + unit) \<times> StorageEngine" where
  "writeNullSnapshotHeader e =
     (let nullHdr = (activeHeaderRef e)\<lparr>CommitID := CommitID (activeHeaderRef e) + 1,
            SnapshotOffset := 0, SnapshotLength := 0\<rparr>;
          nullHdr = nullHdr\<lparr>CRC32 := calculateCRC nullHdr\<rparr>
      in case writeInactiveHeader nullHdr e of
           (Inl err, e) \<Rightarrow> (Inl err, e)
         | (Inr _, e) \<Rightarrow> (Inr (), switchHeader nullHdr e))"

definition trimTailSnapshot :: "StorageEngine \<Rightarrow> (goerr + unit) \<times> StorageEngine" where
  "trimTailSnapshot e =
     (let h = activeHeaderRef e
      in if SnapshotOffset h = 0 \<or> SnapshotLength h = 0 then (Inr (), e)
         else if SnapshotOffset h + ucast (SnapshotLength h) \<noteq> of_nat (length (mmap e)) then (Inr (), e)
         else case truncateTail (nextOffset e) e of
           (Inl err, e) \<Rightarrow> (Inl err, e)
         | (Inr _, e) \<Rightarrow> writeNullSnapshotHeader e)"

section \<open>Writing\<close>

definition undoAppend :: "nat \<Rightarrow> goerr \<Rightarrow> StorageEngine \<Rightarrow> goerr \<times> StorageEngine" where
  "undoAppend start cause e = (case truncateTail start e of
     (Inl err, e) \<Rightarrow> (Joined [cause, err], e)
   | (Inr _, e) \<Rightarrow> (Joined [cause], e))"

fun append_loop :: "nat \<Rightarrow> RecordEntry list \<Rightarrow> u64 list \<Rightarrow> StorageEngine \<Rightarrow> (goerr + u64 list) \<times> StorageEngine" where
  "append_loop start [] offsets e = (Inr offsets, e)"
| "append_loop start (r # rs) offsets e =
     (let encoded = EncodeRecord (r_agent r) (r_type r) 0 (r_id r) (r_data r)
      in case f_seek_end (efile e) of
           (Inl err, f) \<Rightarrow> (case undoAppend start (Error ErrIO (Some err)) (e\<lparr>efile := f\<rparr>) of
               (err, e) \<Rightarrow> (Inl err, e))
         | (Inr offset, f) \<Rightarrow> (case f_write encoded f of
             (Inl err, f) \<Rightarrow> (case undoAppend start (Error ErrIO (Some err)) (e\<lparr>efile := f\<rparr>) of
               (err, e) \<Rightarrow> (Inl err, e))
           | (Inr _, f) \<Rightarrow> append_loop start rs (offsets @ [of_nat offset]) (e\<lparr>efile := f\<rparr>)))"

definition appendFrames :: "RecordEntry list \<Rightarrow> StorageEngine \<Rightarrow> (goerr + u64 list) \<times> StorageEngine" where
  "appendFrames records e = (case f_seek_end (efile e) of
     (Inl err, f) \<Rightarrow> (Inl (Error ErrIO (Some err)), e\<lparr>efile := f\<rparr>)
   | (Inr start, f) \<Rightarrow> append_loop start records [] (e\<lparr>efile := f\<rparr>))"

definition index_one :: "RecordEntry \<times> u64 \<Rightarrow> StorageEngine \<Rightarrow> StorageEngine" where
  "index_one ro e =
     (let r = fst ro; off = snd ro;
          bt = (case idx_lookup (index e) (r_agent r) (r_id r) of
                  None \<Rightarrow> byAgentType e
                | Some oldOff \<Rightarrow> (case recordTypeAt e oldOff of
                    None \<Rightarrow> byAgentType e
                  | Some oldRT \<Rightarrow> if oldRT \<noteq> r_type r
                      then removeTypeLocked (r_agent r) oldRT (r_id r) (byAgentType e)
                      else byAgentType e))
      in e\<lparr>index := idx_put (r_agent r) (r_id r) off (index e),
           byAgentType := bt_add (r_agent r) (r_type r) (r_id r) bt\<rparr>)"

definition updateIndexAfterWrite :: "RecordEntry list \<Rightarrow> u64 list \<Rightarrow> StorageEngine \<Rightarrow> StorageEngine" where
  "updateIndexAfterWrite records offsets e = fold index_one (zip records offsets) e"

definition writeRecordBatch :: "RecordEntry list \<Rightarrow> StorageEngine \<Rightarrow> (goerr + u64 list) \<times> StorageEngine" where
  "writeRecordBatch records e =
     (if records = [] then (Inr [], e)
      else case trimTailSnapshot e of
        (Inl err, e) \<Rightarrow> (Inl err, e)
      | (Inr _, e) \<Rightarrow> (case appendFrames records e of
          (Inl err, e) \<Rightarrow> (Inl err, e)
        | (Inr offsets, e) \<Rightarrow>
            (let e = e\<lparr>nextOffset := unat (last offsets) + (RecordHeaderSize + length (r_data (last records)))\<rparr>
             in case f_sync (efile e) of
                  (Inl err, f) \<Rightarrow> (Inl (Error ErrIO (Some err)), e\<lparr>efile := f\<rparr>)
                | (Inr _, f) \<Rightarrow> (case RemapFile (mapped e) f of
                    (Inl err, f) \<Rightarrow> (Inl err, e\<lparr>efile := f\<rparr>)
                  | (Inr n, f) \<Rightarrow>
                      (Inr offsets, updateIndexAfterWrite records offsets (e\<lparr>efile := f, mapped := n\<rparr>))))))"

definition WriteRecordBatch :: "RecordEntry list \<Rightarrow> StorageEngine \<Rightarrow> (goerr + u64 list) \<times> StorageEngine" where
  "WriteRecordBatch records e = (if closed e then (Inl errEngineClosed, e) else writeRecordBatch records e)"

definition WriteRecord :: "u64 \<Rightarrow> byte \<Rightarrow> u64 \<Rightarrow> bytes \<Rightarrow> StorageEngine \<Rightarrow> (goerr + u64) \<times> StorageEngine" where
  "WriteRecord a t i data e =
     (if closed e then (Inl errEngineClosed, e)
      else case writeRecordBatch [\<lparr>r_agent = a, r_type = t, r_id = i, r_data = data\<rparr>] e of
        (Inl err, e) \<Rightarrow> (Inl err, e)
      | (Inr offsets, e) \<Rightarrow> (Inr (hd offsets), e))"

section \<open>Deleting\<close>

text \<open>\<open>buildTombstones\<close> answers the frames, the old offsets of the deleted ids and their count.\<close>

fun buildTombstones :: "StorageEngine \<Rightarrow> u64 \<Rightarrow> u64 list \<Rightarrow> bytes \<times> (u64, u64) gomap \<times> nat
    \<Rightarrow> bytes \<times> (u64, u64) gomap \<times> nat" where
  "buildTombstones e a [] acc = acc"
| "buildTombstones e a (i # ids) (frames, liveOffsets, deleted) =
     (case idx_lookup (index e) a i of
        None \<Rightarrow> buildTombstones e a ids (frames, liveOffsets, deleted)
      | Some off \<Rightarrow>
          let rt = (if unat off < length (mmap e) then mmap e ! unat off else 0)
          in buildTombstones e a ids
               (frames @ EncodeRecord a rt FlagDeleted i [], AList.update i off liveOffsets, deleted + 1))"

definition delete_one :: "u64 \<Rightarrow> u64 \<times> u64 \<Rightarrow> StorageEngine \<Rightarrow> StorageEngine" where
  "delete_one a io e =
     (let i = fst io; off = snd io;
          e = e\<lparr>index := (case map_of (index e) a of None \<Rightarrow> index e
                 | Some m \<Rightarrow> AList.update a (AList.delete i m) (index e))\<rparr>
      in case recordTypeAt e off of None \<Rightarrow> e
         | Some oldRT \<Rightarrow> e\<lparr>byAgentType := removeTypeLocked a oldRT i (byAgentType e)\<rparr>)"

definition applyDeletions :: "u64 \<Rightarrow> (u64, u64) gomap \<Rightarrow> StorageEngine \<Rightarrow> StorageEngine" where
  "applyDeletions a deletedOffsets e =
     (let e = fold (delete_one a) deletedOffsets e
      in if (case map_of (index e) a of None \<Rightarrow> True | Some m \<Rightarrow> m = [])
         then e\<lparr>index := AList.delete a (index e)\<rparr> else e)"

definition deleteRecordBatchLocked :: "u64 \<Rightarrow> u64 list \<Rightarrow> StorageEngine \<Rightarrow> (goerr + nat) \<times> StorageEngine" where
  "deleteRecordBatchLocked a ids e =
     (case buildTombstones e a ids ([], [], 0) of (tombstones, liveOffsets, deleted) \<Rightarrow>
        if deleted = 0 then (Inr 0, e)
        else case trimTailSnapshot e of
          (Inl err, e) \<Rightarrow> (Inl err, e)
        | (Inr _, e) \<Rightarrow> (case f_seek_end (efile e) of
            (Inl err, f) \<Rightarrow> (Inl (Error ErrIO (Some err)), e\<lparr>efile := f\<rparr>)
          | (Inr end, f) \<Rightarrow> (case f_write tombstones f of
              (Inl err, f) \<Rightarrow> (case undoAppend end (Error ErrIO (Some err)) (e\<lparr>efile := f\<rparr>) of
                  (err, e) \<Rightarrow> (Inl err, e))
            | (Inr _, f) \<Rightarrow>
                (let e = e\<lparr>efile := f, nextOffset := end + length tombstones\<rparr>
                 in case f_sync (efile e) of
                      (Inl err, f) \<Rightarrow> (Inl (Error ErrIO (Some err)), e\<lparr>efile := f\<rparr>)
                    | (Inr _, f) \<Rightarrow> (case RemapFile (mapped e) f of
                        (Inl err, f) \<Rightarrow> (Inl err, e\<lparr>efile := f\<rparr>)
                      | (Inr n, f) \<Rightarrow>
                          (Inr deleted, applyDeletions a liveOffsets (e\<lparr>efile := f, mapped := n\<rparr>)))))))"

definition DeleteRecordBatch :: "u64 \<Rightarrow> u64 list \<Rightarrow> StorageEngine \<Rightarrow> (goerr + nat) \<times> StorageEngine" where
  "DeleteRecordBatch a ids e = (if closed e then (Inl errEngineClosed, e) else deleteRecordBatchLocked a ids e)"

definition DeleteRecord :: "u64 \<Rightarrow> u64 \<Rightarrow> StorageEngine \<Rightarrow> (goerr + bool) \<times> StorageEngine" where
  "DeleteRecord a i e =
     (if closed e then (Inl errEngineClosed, e)
      else case deleteRecordBatchLocked a [i] e of
        (Inl err, e) \<Rightarrow> (Inl err, e)
      | (Inr n, e) \<Rightarrow> (Inr (n > 0), e))"

end
