(* ===== verification/Engine_Lifecycle.thy ===== *)
theory Engine_Lifecycle
  imports Engine
begin

unbundle bit_operations_syntax

text \<open>
  \<^verbatim>\<open>internal/repo/core/engine_lifecycle.go\<close>, \<^verbatim>\<open>engine_recovery.go\<close> and the compaction of
  \<^verbatim>\<open>reclaim.go\<close>: creating and opening a file, the record scan that rebuilds the index, the
  checkpoint that persists it, closing and compacting. \<open>Open\<close> and \<open>Create\<close> work on the file the
  operating system hands out for a path; their first two system calls are the open and the
  exclusive lock, so a second instance is a script whose second outcome fails.
\<close>

section \<open>Scanning the record area\<close>

definition dropFromIndexLocked :: "u64 \<Rightarrow> u64 \<Rightarrow> record_index \<Rightarrow> record_index" where
  "dropFromIndexLocked a i idx =
     (case map_of idx a of None \<Rightarrow> idx
      | Some m \<Rightarrow> (let m = AList.delete i m
                  in if m = [] then AList.delete a idx else AList.update a m idx))"

function resyncScan :: "bytes \<Rightarrow> nat \<Rightarrow> nat option" where
  "resyncScan mm off =
     (if off < length mm then
        (case RecordData mm off of Inr _ \<Rightarrow> Some off | Inl _ \<Rightarrow> resyncScan mm (Suc off))
      else None)"
  by pat_completeness auto
termination by (relation "measure (\<lambda>(mm, off). length mm - off)") auto

declare resyncScan.simps [simp del]

lemma resyncScan_Some: "resyncScan mm from = Some off \<Longrightarrow> from \<le> off \<and> off < length mm \<and> (\<exists>f. RecordData mm off = Inr f)"
proof (induction mm "from" rule: resyncScan.induct)
  case (1 mm "from")
  from "1.prems" show ?case
    by (subst (asm) resyncScan.simps) (auto split: if_splits sum.splits dest: "1.IH")
qed

text \<open>\<^verbatim>\<open>cursorInSnapshotArea\<close>, on the snapshot offset the active header names.\<close>

definition cursorInSnapshotArea :: "u64 \<Rightarrow> nat \<Rightarrow> bool" where
  "cursorInSnapshotArea snapshotOffset off \<longleftrightarrow> snapshotOffset \<noteq> 0 \<and> off \<ge> unat snapshotOffset"

definition scan_frame :: "nat \<Rightarrow> frame \<Rightarrow> record_index \<Rightarrow> record_index" where
  "scan_frame off f idx = (if f_flags f AND FlagDeleted \<noteq> 0
     then dropFromIndexLocked (f_agent f) (f_id f) idx
     else idx_put (f_agent f) (f_id f) (of_nat off) idx)"

function scan_loop :: "bytes \<Rightarrow> u64 \<Rightarrow> nat \<Rightarrow> record_index \<Rightarrow> (goerr + nat \<times> bool) \<times> record_index" where
  "scan_loop mm snapOff off idx =
     (case RecordData mm off of
        Inr f \<Rightarrow> scan_loop mm snapOff (off + (RecordHeaderSize + length (f_data f))) (scan_frame off f idx)
      | Inl err \<Rightarrow>
          if is_eof err then (Inr (off, False), idx)
          else if CodeOf err \<noteq> ErrCRCMismatch \<and> CodeOf err \<noteq> ErrCorruption then (Inl err, idx)
          else if cursorInSnapshotArea snapOff off then (Inr (off, True), idx)
          else (case resyncScan mm (off + 1) of
                  None \<Rightarrow> (Inr (off, True), idx)
                | Some next \<Rightarrow> scan_loop mm snapOff next idx))"
  by pat_completeness auto
termination
proof (relation "measure (\<lambda>(mm, snapOff, off, idx). length mm - off)", goal_cases)
  case 1
  then show ?case by simp
next
  case (2 mm snapOff off idx err "next")
  then have "off + 1 \<le> next \<and> next < length mm" using resyncScan_Some [of mm "off + 1" "next"] by blast
  then show ?case by auto
next
  case (3 mm snapOff off idx f)
  then show ?case using RecordData_Inr_bound [of mm off f] by (simp add: RecordHeaderSize_def)
qed

declare scan_loop.simps [simp del]

definition scanRecords :: "nat \<Rightarrow> StorageEngine \<Rightarrow> (goerr + nat \<times> bool) \<times> StorageEngine" where
  "scanRecords start e =
     (case scan_loop (mmap e) (SnapshotOffset (activeHeaderRef e)) start (index e) of
        (r, idx) \<Rightarrow> (r, e\<lparr>index := idx\<rparr>))"

lemma snapshotBlobLength_pos: "snapshotBlobLength raw = Inr n \<Longrightarrow> 0 < n"
  by (auto simp: snapshotBlobLength_def split: if_splits sum.splits)

function walk_loop :: "bytes \<Rightarrow> nat \<Rightarrow> nat \<Rightarrow> nat \<times> nat \<times> bool" where
  "walk_loop mm off recordEnd =
     (if off < length mm then
        if isSnapshotBlobAt (drop off mm) then
          (case snapshotBlobLength (drop off mm) of
             Inl _ \<Rightarrow> (off, 0, False)
           | Inr n \<Rightarrow> walk_loop mm (off + n) recordEnd)
        else
          (case RecordData mm off of
             Inl _ \<Rightarrow> (off, 0, False)
           | Inr f \<Rightarrow> walk_loop mm (off + (RecordHeaderSize + length (f_data f)))
                        (off + (RecordHeaderSize + length (f_data f))))
      else (off, recordEnd, off = length mm))"
  by pat_completeness auto
termination
proof (relation "measure (\<lambda>(mm, off, recordEnd). length mm - off)", goal_cases)
  case 1
  then show ?case by simp
next
  case (2 mm off recordEnd n)
  then show ?case using snapshotBlobLength_pos [of "drop off mm" n] by simp
next
  case (3 mm off recordEnd f)
  then show ?case by (simp add: RecordHeaderSize_def)
qed

declare walk_loop.simps [simp del]

definition walkRecordArea :: "StorageEngine \<Rightarrow> nat \<times> nat \<times> bool" where
  "walkRecordArea e = walk_loop (mmap e) DataStart 0"

definition recoverRecordAreaEnd :: "StorageEngine \<Rightarrow> nat" where
  "recoverRecordAreaEnd e =
     (let active = activeHeaderRef e
      in if unat (RecordEnd active) \<ge> DataStart \<and> RecordEnd active \<le> SnapshotOffset active
            \<and> unat (RecordEnd active) \<le> length (mmap e)
         then unat (RecordEnd active)
         else case walkRecordArea e of (_, recordEnd, ok) \<Rightarrow>
           if ok then recordEnd else unat (SnapshotOffset active))"

text \<open>
  The type index, rebuilt from the frames the record index names. Reading the type byte at an
  offset of \<open>2^63\<close> or more would index with a negative \<open>int\<close>: a panic.
\<close>

definition rebuild_entry :: "StorageEngine \<Rightarrow> u64 \<Rightarrow> u64 \<times> u64 \<Rightarrow> type_index \<Rightarrow> type_index" where
  "rebuild_entry e a io bt = (case recordTypeAt e (snd io) of None \<Rightarrow> bt | Some rt \<Rightarrow> bt_add a rt (fst io) bt)"

definition rebuild_domain :: "StorageEngine \<Rightarrow> u64 \<times> (u64, u64) gomap \<Rightarrow> type_index \<Rightarrow> type_index" where
  "rebuild_domain e am bt = fold (rebuild_entry e (fst am)) (snd am) bt"

definition rebuildByAgentType :: "StorageEngine \<Rightarrow> goerr + StorageEngine" where
  "rebuildByAgentType e =
     (if \<exists>(a, m) \<in> set (index e). \<exists>(i, off) \<in> set m. unat off \<ge> 2 ^ 63 then Inl Panic
      else Inr (e\<lparr>byAgentType := fold (rebuild_domain e) (index e) []\<rparr>))"

section \<open>Opening\<close>

definition lockFile :: "osfile \<Rightarrow> (goerr + unit) \<times> osfile" where
  "lockFile f = (case os_call (\<lambda>f. ((), f)) f of
     (Inl e, f) \<Rightarrow> (Inl (Error ErrIO (Some e)), f)
   | (Inr _, f) \<Rightarrow> (Inr (), f))"

definition unlockFile :: "osfile \<Rightarrow> (goerr + unit) \<times> osfile" where
  "unlockFile f = (case os_call (\<lambda>f. ((), f)) f of
     (Inl e, f) \<Rightarrow> (Inl (Error ErrIO (Some e)), f)
   | (Inr _, f) \<Rightarrow> (Inr (), f))"

definition openEngineFile :: "osfile \<Rightarrow> (goerr + (nat \<times> FileHeader \<times> FileHeader \<times> bool)) \<times> osfile" where
  "openEngineFile f = (case os_call (\<lambda>f. ((), f)) f of
     (Inl e, f) \<Rightarrow> (Inl (Error ErrIO (Some e)), f)
   | (Inr _, f) \<Rightarrow> (case lockFile f of
       (Inl e, f) \<Rightarrow> (Inl e, f)
     | (Inr _, f) \<Rightarrow> (case f_size f of
         (Inl e, f) \<Rightarrow> (Inl (Error ErrIO (Some e)), f)
       | (Inr sz, f) \<Rightarrow>
           if sz < HeaderSize * 2 then (Inl (NewError ErrCorruption), f)
           else (case MapFile sz f of
             (Inl e, f) \<Rightarrow> (Inl e, f)
           | (Inr n, f) \<Rightarrow> (case loadHeaders (take n (contents f)) of
               Inl e \<Rightarrow> (case UnmapFile n f of (_, f) \<Rightarrow> (Inl e, f))
             | Inr (hA, hB, act) \<Rightarrow> (Inr (n, hA, hB, act), f))))))"

text \<open>
  \<open>int\<close> arithmetic of the bounds check: both operands are 64-bit signed, so the sum of a huge
  offset and the length wraps, and slicing up to a wrapped bound panics.
\<close>

definition loadSnapshot :: "StorageEngine \<Rightarrow> goerr + StorageEngine" where
  "loadSnapshot e =
     (let active = activeHeaderRef e;
          off = sint (SnapshotOffset active);
          end = sint (SnapshotOffset active + ucast (SnapshotLength active))
      in if off < int DataStart \<or> end > int (length (mmap e)) then Inl (NewError ErrCorruption)
         else if end < off then Inl Panic
         else case ParseSnapshot (bslice (mmap e) (nat off) (nat end)) of
           Inl err \<Rightarrow> Inl err
         | Inr idx \<Rightarrow> Inr (e\<lparr>index := idx\<rparr>))"

text \<open>Where the scan starts, whether a snapshot was loaded, whether it was found corrupt.\<close>

definition restoreFromSnapshot :: "StorageEngine \<Rightarrow> goerr + (nat \<times> bool \<times> bool \<times> StorageEngine)" where
  "restoreFromSnapshot e =
     (let active = activeHeaderRef e
      in if SnapshotOffset active = 0 \<or> SnapshotLength active = 0 then Inr (DataStart, False, False, e)
         else case loadSnapshot e of
           Inl err \<Rightarrow> if err = Panic then Inl Panic
             else Inr (DataStart, False, True, e\<lparr>index := []\<rparr>)
         | Inr e \<Rightarrow> Inr (unat (SnapshotOffset active + ucast (SnapshotLength active)), True, False, e))"

definition clearActiveSnapshot :: "StorageEngine \<Rightarrow> (goerr + unit) \<times> StorageEngine" where
  "clearActiveSnapshot e =
     (let hdr = (activeHeaderRef e)\<lparr>SnapshotOffset := 0, SnapshotLength := 0\<rparr>;
          hdr = hdr\<lparr>CRC32 := calculateCRC hdr\<rparr>
      in case writeHeaderAt (if activeHeader e then HeaderSize else 0) (ToBytes hdr) (efile e) of
           (Inl err, f) \<Rightarrow> (Inl err, e\<lparr>efile := f\<rparr>)
         | (Inr _, f) \<Rightarrow> (Inr (), if activeHeader e then e\<lparr>efile := f, headerB := hdr\<rparr>
                              else e\<lparr>efile := f, headerA := hdr\<rparr>))"

text \<open>The recovery half of \<^verbatim>\<open>Open\<close>, on the engine its first half built.\<close>

definition recover :: "StorageEngine \<Rightarrow> (goerr + unit) \<times> StorageEngine" where
  "recover e = (case restoreFromSnapshot e of
     Inl err \<Rightarrow> (Inl err, e)
   | Inr (scanStart, snapshotLoaded, snapshotCorrupt, e) \<Rightarrow> (case scanRecords scanStart e of
       (Inl err, e) \<Rightarrow> (Inl err, e)
     | (Inr (end, trunc), e) \<Rightarrow>
         (let e = e\<lparr>nextOffset := end\<rparr>;
              (r, e) = (if trunc then truncateTail end e
                        else if snapshotLoaded \<and> end = scanStart
                        then (Inr (), e\<lparr>nextOffset := recoverRecordAreaEnd e\<rparr>)
                        else (Inr (), e))
          in case r of Inl err \<Rightarrow> (Inl err, e)
             | Inr _ \<Rightarrow> if snapshotCorrupt then clearActiveSnapshot e else (Inr (), e))))"

definition Open :: "osfile \<Rightarrow> (goerr + StorageEngine) \<times> osfile" where
  "Open f = (case openEngineFile f of
     (Inl err, f) \<Rightarrow> (Inl err, f)
   | (Inr (n, hA, hB, act), f) \<Rightarrow>
       (let e = \<lparr>efile = f, mapped = n, headerA = hA, headerB = hB, activeHeader = act, index = [],
                 byAgentType = [], nextOffset = DataStart, closed = False\<rparr>
        in case recover e of
             (Inl err, e) \<Rightarrow> (case UnmapFile (mapped e) (efile e) of (_, f) \<Rightarrow> (Inl err, f))
           | (Inr _, e) \<Rightarrow> (case rebuildByAgentType e of
               Inl err \<Rightarrow> (Inl err, efile e)
             | Inr e \<Rightarrow> (Inr e, efile e))))"

definition Create :: "osfile \<Rightarrow> (goerr + StorageEngine) \<times> osfile" where
  "Create f = (case os_call (\<lambda>f. ((), f)) f of
     (Inl e, f) \<Rightarrow> (Inl (Error ErrIO (Some e)), f)
   | (Inr _, f) \<Rightarrow> (case lockFile f of
       (Inl e, f) \<Rightarrow> (Inl e, f)
     | (Inr _, f) \<Rightarrow> (case f_truncate DataStart f of
         (Inl e, f) \<Rightarrow> (Inl (Error ErrIO (Some e)), f)
       | (Inr _, f) \<Rightarrow> (case writeHeaderAt HeaderAOffset (ToBytes NewFileHeader) f of
           (Inl e, f) \<Rightarrow> (Inl e, f)
         | (Inr _, f) \<Rightarrow> (case writeHeaderAt HeaderBOffset (ToBytes NewFileHeader) f of
             (Inl e, f) \<Rightarrow> (Inl e, f)
           | (Inr _, f) \<Rightarrow> (case MapFile DataStart f of
               (Inl e, f) \<Rightarrow> (Inl e, f)
             | (Inr n, f) \<Rightarrow> (case f_sync f of
                 (Inl e, f) \<Rightarrow> (case UnmapFile n f of (_, f) \<Rightarrow> (Inl (Error ErrIO (Some e)), f))
               | (Inr _, f) \<Rightarrow>
                   (Inr \<lparr>efile = f, mapped = n, headerA = NewFileHeader, headerB = NewFileHeader,
                        activeHeader = False, index = [], byAgentType = [], nextOffset = DataStart,
                        closed = False\<rparr>, f))))))))"

section \<open>Checkpoint and close\<close>

definition buildCheckpointHeader :: "StorageEngine \<Rightarrow> nat \<Rightarrow> u32 \<Rightarrow> FileHeader" where
  "buildCheckpointHeader e snapOffset snapLen =
     (let h = (activeHeaderRef e)\<lparr>CommitID := CommitID (activeHeaderRef e) + 1,
            SnapshotOffset := of_nat snapOffset, SnapshotLength := snapLen,
            RecordCount := of_nat (totalRecordsLocked e), RecordEnd := of_nat (nextOffset e)\<rparr>
      in h\<lparr>CRC32 := calculateCRC h\<rparr>)"

definition appendSnapshot :: "bytes \<Rightarrow> StorageEngine \<Rightarrow> (goerr + unit) \<times> StorageEngine" where
  "appendSnapshot blob e = (case f_seek_end (efile e) of
     (Inl err, f) \<Rightarrow> (Inl (Error ErrIO (Some err)), e\<lparr>efile := f\<rparr>)
   | (Inr snapOffset, f) \<Rightarrow> (case f_write blob f of
       (Inl err, f) \<Rightarrow> (Inl (Error ErrIO (Some err)), e\<lparr>efile := f\<rparr>)
     | (Inr _, f) \<Rightarrow> (case f_sync f of
         (Inl err, f) \<Rightarrow> (Inl (Error ErrIO (Some err)), e\<lparr>efile := f\<rparr>)
       | (Inr _, f) \<Rightarrow> (case RemapFile (mapped e) f of
           (Inl err, f) \<Rightarrow> (Inl err, e\<lparr>efile := f\<rparr>)
         | (Inr n, f) \<Rightarrow>
             (let e = e\<lparr>efile := f, mapped := n\<rparr>;
                  newHdr = buildCheckpointHeader e snapOffset (of_nat (length blob))
              in case writeInactiveHeader newHdr e of
                   (Inl err, e) \<Rightarrow> (Inl err, e)
                 | (Inr _, e) \<Rightarrow> (case RemapFile (mapped e) (efile e) of
                     (Inl err, f) \<Rightarrow> (Inl err, e\<lparr>efile := f\<rparr>)
                   | (Inr n, f) \<Rightarrow> (Inr (), switchHeader newHdr (e\<lparr>efile := f, mapped := n\<rparr>))))))))"

definition Checkpoint :: "StorageEngine \<Rightarrow> (goerr + unit) \<times> StorageEngine" where
  "Checkpoint e = (if closed e then (Inl errEngineClosed, e) else appendSnapshot (BuildSnapshot (index e)) e)"

definition first_err :: "(goerr + 'a) \<Rightarrow> goerr option \<Rightarrow> goerr option" where
  "first_err r acc = (case acc of Some e \<Rightarrow> Some e | None \<Rightarrow> (case r of Inl e \<Rightarrow> Some e | Inr _ \<Rightarrow> None))"

text \<open>Unmap, sync, unlock, close: every step runs, the first error wins.\<close>

definition shutdownHandles :: "StorageEngine \<Rightarrow> (goerr + unit) \<times> StorageEngine" where
  "shutdownHandles e =
     (case UnmapFile (mapped e) (efile e) of (r1, f) \<Rightarrow>
      case f_sync f of (r2, f) \<Rightarrow>
      case unlockFile f of (r3, f) \<Rightarrow>
      case os_call (\<lambda>f. ((), f)) f of (r4, f) \<Rightarrow>
        (let r2 = (case r2 of Inl err \<Rightarrow> Inl (Error ErrIO (Some err)) | Inr u \<Rightarrow> Inr u);
             err = first_err r4 (first_err r3 (first_err r2 (first_err r1 None)))
         in (case err of None \<Rightarrow> Inr () | Some err \<Rightarrow> Inl err, e\<lparr>efile := f, mapped := 0\<rparr>)))"

definition Close :: "StorageEngine \<Rightarrow> (goerr + unit) \<times> StorageEngine" where
  "Close e =
     (if closed e then (Inl errEngineClosed, e)
      else case appendSnapshot (BuildSnapshot (index e)) (e\<lparr>closed := True\<rparr>) of
        (ckptErr, e) \<Rightarrow> (case shutdownHandles e of
          (shutErr, e) \<Rightarrow> (case ckptErr of Inl err \<Rightarrow> (Inl err, e) | Inr _ \<Rightarrow> (shutErr, e))))"

definition closeNoCheckpoint :: "StorageEngine \<Rightarrow> (goerr + unit) \<times> StorageEngine" where
  "closeNoCheckpoint e = (if closed e then (Inl errEngineClosed, e) else shutdownHandles (e\<lparr>closed := True\<rparr>))"

section \<open>Compaction\<close>

definition compact_chunk :: nat where "compact_chunk = 256"

definition compact_flush :: "RecordEntry list \<Rightarrow> StorageEngine \<Rightarrow> (goerr + unit) \<times> StorageEngine" where
  "compact_flush batch newEng = (if batch = [] then (Inr (), newEng)
     else case WriteRecordBatch batch newEng of (Inl err, e) \<Rightarrow> (Inl err, e) | (Inr _, e) \<Rightarrow> (Inr (), e))"

fun compact_domain :: "bytes \<Rightarrow> u64 \<Rightarrow> (u64, u64) gomap \<Rightarrow> RecordEntry list \<Rightarrow> StorageEngine
    \<Rightarrow> (goerr + unit) \<times> StorageEngine" where
  "compact_domain mm a [] batch newEng = compact_flush batch newEng"
| "compact_domain mm a ((i, off) # m) batch newEng =
     (case RecordData mm (unat off) of
        Inl readErr \<Rightarrow>
          (let code = CodeOf readErr;
               code = (if code \<noteq> ErrCRCMismatch \<and> code \<noteq> ErrCorruption then ErrCorruption else code)
           in (Inl (Error code (Some readErr)), newEng))
      | Inr f \<Rightarrow>
          (let batch = batch @ [\<lparr>r_agent = a, r_type = f_type f, r_id = i, r_data = f_data f\<rparr>]
           in if length batch = compact_chunk
              then (case compact_flush batch newEng of
                      (Inl err, e) \<Rightarrow> (Inl err, e)
                    | (Inr _, e) \<Rightarrow> compact_domain mm a m [] e)
              else compact_domain mm a m batch newEng))"

fun compact_domains :: "bytes \<Rightarrow> record_index \<Rightarrow> StorageEngine \<Rightarrow> (goerr + unit) \<times> StorageEngine" where
  "compact_domains mm [] newEng = (Inr (), newEng)"
| "compact_domains mm ((a, m) # idx) newEng =
     (case compact_domain mm a m [] newEng of
        (Inl err, e) \<Rightarrow> (Inl err, e)
      | (Inr _, e) \<Rightarrow> compact_domains mm idx e)"

text \<open>\<open>Compact e f\<close> copies the live records of \<open>e\<close> into the new file \<open>f\<close>.\<close>

definition Compact :: "StorageEngine \<Rightarrow> osfile \<Rightarrow> (goerr + unit) \<times> osfile" where
  "Compact e f = (case Create f of
     (Inl err, f) \<Rightarrow> (Inl err, f)
   | (Inr newEng, _) \<Rightarrow>
       (let (r, newEng) = (case compact_domains (mmap e) (index e) newEng of
              (Inl err, newEng) \<Rightarrow> (Inl err, newEng)
            | (Inr _, newEng) \<Rightarrow> Checkpoint newEng)
        in case shutdownHandles newEng of (cleanupErr, newEng) \<Rightarrow>
             (case r of Inl err \<Rightarrow> (Inl err, efile newEng) | Inr _ \<Rightarrow> (cleanupErr, efile newEng))))"

end
