(* ===== verification/Engine_Log.thy ===== *)
theory Engine_Log
  imports Engine_Lifecycle
begin

unbundle bit_operations_syntax

text \<open>
  The record area as a log of frames: its bytes, the map from keys to frames it denotes, and the
  index a scan of it builds. A key is an (agent, record id) pair; a later frame of a key replaces
  an earlier one and a tombstone removes it. The lemmas here connect the three views and carry
  every proof about the engine.
\<close>

type_synonym key = "u64 \<times> u64"

definition enc :: "frame \<Rightarrow> bytes" where
  "enc f = EncodeRecord (f_agent f) (f_type f) (f_flags f) (f_id f) (f_data f)"

definition frame_ok :: "frame \<Rightarrow> bool" where
  "frame_ok f \<longleftrightarrow> length (f_data f) < 2 ^ 32
     \<and> \<not> blank_head (f_agent f) (f_type f) (f_flags f) (f_id f) (of_nat (length (f_data f)))"

definition enc_log :: "frame list \<Rightarrow> bytes" where
  "enc_log fs = concat (map enc fs)"

definition f_key :: "frame \<Rightarrow> key" where "f_key f = (f_agent f, f_id f)"

definition tombstone :: "frame \<Rightarrow> bool" where
  "tombstone f \<longleftrightarrow> f_flags f AND FlagDeleted \<noteq> 0"

definition view_step :: "frame \<Rightarrow> (key \<rightharpoonup> frame) \<Rightarrow> (key \<rightharpoonup> frame)" where
  "view_step f v = (if tombstone f then v(f_key f := None) else v(f_key f \<mapsto> f))"

definition log_view :: "frame list \<Rightarrow> (key \<rightharpoonup> frame)" where
  "log_view fs = fold view_step fs Map.empty"

fun replay :: "nat \<Rightarrow> frame list \<Rightarrow> (key \<rightharpoonup> u64) \<Rightarrow> (key \<rightharpoonup> u64)" where
  "replay off [] m = m"
| "replay off (f # fs) m =
     replay (off + length (enc f)) fs (if tombstone f then m(f_key f := None) else m(f_key f \<mapsto> of_nat off))"

fun replay_idx :: "nat \<Rightarrow> frame list \<Rightarrow> record_index \<Rightarrow> record_index" where
  "replay_idx off [] idx = idx"
| "replay_idx off (f # fs) idx = replay_idx (off + length (enc f)) fs (scan_frame off f idx)"

definition idx_map :: "record_index \<Rightarrow> (key \<rightharpoonup> u64)" where
  "idx_map idx = (\<lambda>(a, i). idx_lookup idx a i)"

text \<open>An index an engine keeps: unique keys and no empty domain.\<close>

definition idx_ok :: "record_index \<Rightarrow> bool" where
  "idx_ok idx \<longleftrightarrow> index_wf idx \<and> (\<forall>(a, m) \<in> set idx. m \<noteq> [])"

section \<open>Bytes of a log\<close>

lemma length_enc [simp, bytes_simps]: "length (enc f) = RecordHeaderSize + length (f_data f)"
  by (simp add: enc_def)

lemma enc_log_simps [simp]: "enc_log [] = []" "enc_log (f # fs) = enc f @ enc_log fs"
  "enc_log (fs @ gs) = enc_log fs @ enc_log gs"
  by (simp_all add: enc_log_def)

lemma RecordData_enc: "frame_ok f \<Longrightarrow> RecordData (pre @ enc f @ post) (length pre) = Inr f"
  unfolding enc_def frame_ok_def by (simp add: RecordData_EncodeRecord)

lemma RecordData_frame_ok: "RecordData mm off = Inr f \<Longrightarrow> frame_ok f"
  using RecordData_InrD(3,4) [of mm off f] by (simp add: frame_ok_def)

section \<open>Index operations as map operations\<close>

lemma idx_map_put [simp]: "idx_map (idx_put a i off idx) = (idx_map idx)((a, i) \<mapsto> off)"
  by (auto simp: idx_map_def idx_put_def idx_lookup_def fun_eq_iff split: option.splits)

lemma map_of_Some_Nil: "map_of idx a = Some [] \<Longrightarrow> (\<forall>(a, m) \<in> set idx. m \<noteq> []) \<Longrightarrow> False"
  by (auto dest: map_of_SomeD)

lemma AList_delete_Nil: "AList.delete i m = [] \<Longrightarrow> map_of m j \<noteq> None \<Longrightarrow> j = i"
  by (metis fun_upd_other map_of.simps(1) map_of_delete)

lemma idx_map_drop [simp]: "idx_map (dropFromIndexLocked a i idx) = (idx_map idx)((a, i) := None)"
proof (rule ext)
  fix k :: key
  obtain b j where k: "k = (b, j)" by (cases k)
  show "idx_map (dropFromIndexLocked a i idx) k = ((idx_map idx)((a, i) := None)) k"
  proof (cases "map_of idx a")
    case None
    then show ?thesis by (auto simp: k idx_map_def dropFromIndexLocked_def idx_lookup_def)
  next
    case (Some m)
    have "AList.delete i m = [] \<Longrightarrow> j \<noteq> i \<Longrightarrow> map_of m j = None"
      using AList_delete_Nil [of i m j] by blast
    then show ?thesis
      using Some by (auto simp: k idx_map_def dropFromIndexLocked_def idx_lookup_def Let_def)
  qed
qed

lemma idx_map_delete_agent:
  "map_of idx a = Some [] \<or> map_of idx a = None \<Longrightarrow> idx_map (AList.delete a idx) = idx_map idx"
  by (auto simp: idx_map_def idx_lookup_def fun_eq_iff split: option.splits)

lemma idx_ok_Nil [simp]: "idx_ok []"
  by (simp add: idx_ok_def)

lemma idx_ok_put [simp]: "idx_ok idx \<Longrightarrow> idx_ok (idx_put a i off idx)"
proof -
  assume ok: "idx_ok idx"
  let ?m = "case map_of idx a of None \<Rightarrow> [] | Some m \<Rightarrow> m"
  have "map_wf ?m" using ok by (auto simp: idx_ok_def index_wf_def split: option.splits dest: map_of_SomeD)
  then have "index_wf (idx_put a i off idx)"
    unfolding idx_put_def using ok by (intro index_wf_update) (auto simp: idx_ok_def)
  moreover have "m \<noteq> []" if "(b, m) \<in> set (idx_put a i off idx)" for b m
    using set_update_cases [OF that [unfolded idx_put_def]] ok by (auto simp: idx_ok_def)
  ultimately show ?thesis by (auto simp: idx_ok_def)
qed

lemma set_AList_delete: "x \<in> set (AList.delete k m) \<Longrightarrow> x \<in> set m"
  by (auto simp: AList.delete_eq)

lemma idx_ok_delete_agent: "idx_ok idx \<Longrightarrow> idx_ok (AList.delete a idx)"
  by (auto simp: idx_ok_def index_wf_def dest: set_AList_delete)

lemma idx_ok_drop [simp]: "idx_ok idx \<Longrightarrow> idx_ok (dropFromIndexLocked a i idx)"
proof (cases "map_of idx a")
  case None
  then show "idx_ok idx \<Longrightarrow> idx_ok (dropFromIndexLocked a i idx)" by (simp add: dropFromIndexLocked_def)
next
  case (Some m)
  assume ok: "idx_ok idx"
  then have "map_wf (AList.delete i m)"
    using map_of_SomeD [OF Some] by (auto simp: idx_ok_def index_wf_def)
  then show ?thesis
    using ok Some idx_ok_delete_agent [OF ok, of a] index_wf_update [of idx "AList.delete i m" a]
    by (auto simp: dropFromIndexLocked_def Let_def idx_ok_def dest!: set_update_cases)
qed

lemma idx_ok_scan_frame [simp]: "idx_ok idx \<Longrightarrow> idx_ok (scan_frame off f idx)"
  by (simp add: scan_frame_def)

lemma idx_map_scan_frame:
  "idx_map (scan_frame off f idx) =
     (if tombstone f then (idx_map idx)(f_key f := None) else (idx_map idx)(f_key f \<mapsto> of_nat off))"
  by (simp add: scan_frame_def tombstone_def f_key_def)

lemma replay_idx_props:
  "idx_ok idx \<Longrightarrow> idx_ok (replay_idx off fs idx)"
  "idx_map (replay_idx off fs idx) = replay off fs (idx_map idx)"
  by (induction fs arbitrary: off idx) (auto simp: idx_map_scan_frame)

lemma replay_append: "replay off (fs @ gs) m = replay (off + length (enc_log fs)) gs (replay off fs m)"
  by (induction fs arbitrary: off m) (auto simp: add.assoc)

lemma log_view_append: "log_view (fs @ gs) = fold view_step gs (log_view fs)"
  by (simp add: log_view_def)

text \<open>In one index, equal maps have equal live domains up to order, hence the same totals.\<close>

lemma idx_map_eq_None: "idx_map idx (a, i) = None \<longleftrightarrow> idx_lookup idx a i = None"
  by (simp add: idx_map_def)

section \<open>A scan of the log rebuilds its index\<close>

lemma scan_log:
  assumes "\<forall>f \<in> set fs. frame_ok f"
  shows "scan_loop (pre @ enc_log fs @ post) so (length pre) idx
    = scan_loop (pre @ enc_log fs @ post) so (length pre + length (enc_log fs)) (replay_idx (length pre) fs idx)"
  using assms
proof (induction fs arbitrary: pre idx)
  case Nil
  then show ?case by simp
next
  case (Cons f fs)
  let ?mm = "pre @ enc_log (f # fs) @ post"
  have "RecordData ?mm (length pre) = Inr f"
    using RecordData_enc [of f pre "enc_log fs @ post"] Cons.prems by simp
  then have "scan_loop ?mm so (length pre) idx
      = scan_loop ?mm so (length pre + length (enc f)) (scan_frame (length pre) f idx)"
    by (subst scan_loop.simps) simp
  also have "\<dots> = scan_loop ((pre @ enc f) @ enc_log fs @ post) so (length (pre @ enc f)) (scan_frame (length pre) f idx)"
    by simp
  also have "\<dots> = scan_loop ((pre @ enc f) @ enc_log fs @ post) so (length (pre @ enc f) + length (enc_log fs))
        (replay_idx (length (pre @ enc f)) fs (scan_frame (length pre) f idx))"
    by (rule Cons.IH) (use Cons.prems in auto)
  finally show ?case by (simp add: add.assoc)
qed

lemma scan_eof: "scan_loop mm so (length mm) idx = (Inr (length mm, False), idx)"
  by (subst scan_loop.simps) (simp add: RecordData_def)

lemma scan_torn:
  assumes "RecordData mm off = Inl (NewError ErrCorruption)" "resyncScan mm (off + 1) = None"
  shows "scan_loop mm so off idx = (Inr (off, True), idx)"
  using assms by (subst scan_loop.simps) simp

section \<open>Every offset of the index decodes to its frame\<close>

lemma replay_decodes:
  assumes "\<forall>f \<in> set fs. frame_ok f" "length (pre @ enc_log fs @ post) < 2 ^ 64"
    and "\<And>k. rel_option (\<lambda>off f. RecordData (pre @ enc_log fs @ post) (unat off) = Inr f \<and> unat off \<le> length pre) (m k) (v k)"
  shows "rel_option (\<lambda>off f. RecordData (pre @ enc_log fs @ post) (unat off) = Inr f
      \<and> unat off \<le> length (pre @ enc_log fs)) (replay (length pre) fs m k) (fold view_step fs v k)"
  using assms
proof (induction fs arbitrary: pre m v)
  case Nil
  then show ?case by simp
next
  case (Cons f fs)
  let ?mm = "pre @ enc_log (f # fs) @ post"
  have dec: "RecordData ?mm (length pre) = Inr f"
    using RecordData_enc [of f pre "enc_log fs @ post"] Cons.prems by simp
  have off: "unat (of_nat (length pre) :: u64) = length pre"
    using Cons.prems(2) by (simp add: unat_of_nat)
  let ?m = "if tombstone f then m(f_key f := None) else m(f_key f \<mapsto> of_nat (length pre))"
  have "rel_option (\<lambda>off g. RecordData ((pre @ enc f) @ enc_log fs @ post) (unat off) = Inr g
      \<and> unat off \<le> length ((pre @ enc f) @ enc_log fs)) (replay (length (pre @ enc f)) fs ?m k) (fold view_step fs (view_step f v) k)"
  proof (rule Cons.IH)
    show "\<forall>f \<in> set fs. frame_ok f" "length ((pre @ enc f) @ enc_log fs @ post) < 2 ^ 64"
      using Cons.prems by auto
    fix k
    from Cons.prems(3) [of k]
    show "rel_option (\<lambda>off f'. RecordData ((pre @ enc f) @ enc_log fs @ post) (unat off) = Inr f'
        \<and> unat off \<le> length (pre @ enc f)) (?m k) (view_step f v k)"
      using dec off
      by (auto simp: view_step_def elim!: option.rel_mono_strong)
  qed
  then show ?case by simp
qed

lemma replay_view:
  assumes "\<forall>f \<in> set fs. frame_ok f" "length (pre @ enc_log fs @ post) < 2 ^ 64"
  shows "rel_option (\<lambda>off f. RecordData (pre @ enc_log fs @ post) (unat off) = Inr f)
    (replay (length pre) fs Map.empty k) (log_view fs k)"
proof -
  have "rel_option (\<lambda>off f. RecordData (pre @ enc_log fs @ post) (unat off) = Inr f
      \<and> unat off \<le> length (pre @ enc_log fs)) (replay (length pre) fs Map.empty k) (fold view_step fs Map.empty k)"
    by (rule replay_decodes [OF assms]) simp
  then show ?thesis
    unfolding log_view_def by (rule option.rel_mono_strong) auto
qed

lemma log_view_key: "log_view fs k = Some f \<Longrightarrow> f_key f = k \<and> f \<in> set fs \<and> \<not> tombstone f"
proof (induction fs arbitrary: k rule: rev_induct)
  case Nil
  then show ?case by (simp add: log_view_def)
next
  case (snoc g fs)
  have "log_view (fs @ [g]) = view_step g (log_view fs)" by (simp add: log_view_append)
  with snoc show ?case by (auto simp: view_step_def split: if_splits)
qed

end
