(* ===== verification/Engine_Correct.thy ===== *)
theory Engine_Correct
  imports Engine_Log
begin

unbundle bit_operations_syntax

text \<open>
  The invariant of a healthy engine and the proof that the operations implement the map its log
  denotes. \<open>engine_inv e fs\<close> says that the file of \<open>e\<close> is two headers, the encoded frames \<open>fs\<close> and
  at most a tail of snapshots, and that both in-memory indexes are the ones \<open>fs\<close> determines.
  Every operation that runs on a disk without faults keeps it and appends to \<open>fs\<close> exactly the
  frames its contract names.
\<close>

section \<open>The invariant\<close>

definition has_snapshot :: "FileHeader \<Rightarrow> bool" where
  "has_snapshot h \<longleftrightarrow> SnapshotOffset h \<noteq> 0 \<and> SnapshotLength h \<noteq> 0"

text \<open>The active header is on disk, and the other slot cannot win against it.\<close>

definition slots :: "StorageEngine \<Rightarrow> bytes \<Rightarrow> bytes" where
  "slots e other = (if activeHeader e then other @ ToBytes (headerB e) else ToBytes (headerA e) @ other)"

definition loses :: "StorageEngine \<Rightarrow> bytes \<Rightarrow> bool" where
  "loses e other \<longleftrightarrow> (\<forall>h. FileHeaderFromBytes other = Inr h \<longrightarrow>
     (if activeHeader e then CommitID h < CommitID (headerB e) else CommitID h \<le> CommitID (headerA e)))"

definition tail_ok :: "StorageEngine \<Rightarrow> bytes \<Rightarrow> bool" where
  "tail_ok e tail \<longleftrightarrow>
     (if has_snapshot (activeHeaderRef e)
      then \<exists>mid idx. tail = mid @ BuildSnapshot idx \<and> idx_ok idx \<and> idx_map idx = idx_map (index e)
        \<and> index_fits idx \<and> unat (SnapshotOffset (activeHeaderRef e)) = nextOffset e + length mid
        \<and> unat (SnapshotLength (activeHeaderRef e)) = length (BuildSnapshot idx)
        \<and> RecordEnd (activeHeaderRef e) = of_nat (nextOffset e)
      else tail = [])"

definition disk_inv :: "StorageEngine \<Rightarrow> frame list \<Rightarrow> bool" where
  "disk_inv e fs \<longleftrightarrow> (\<exists>other tail.
     contents (efile e) = slots e other @ enc_log fs @ tail \<and> length other = HeaderSize
     \<and> loses e other \<and> tail_ok e tail
     \<and> Version (activeHeaderRef e) = FormatVersion
     \<and> nextOffset e = DataStart + length (enc_log fs)
     \<and> (\<forall>f \<in> set fs. frame_ok f) \<and> length (contents (efile e)) < 2 ^ 63)"

definition types_ok :: "type_index \<Rightarrow> (key \<rightharpoonup> frame) \<Rightarrow> bool" where
  "types_ok bt v \<longleftrightarrow> (\<forall>a t. distinct (bt_ids bt a t)
     \<and> set (bt_ids bt a t) = {i. \<exists>f. v (a, i) = Some f \<and> f_type f = t})"

definition engine_inv :: "StorageEngine \<Rightarrow> frame list \<Rightarrow> bool" where
  "engine_inv e fs \<longleftrightarrow> faults (efile e) = [] \<and> \<not> closed e
     \<and> mapped e = length (contents (efile e)) \<and> disk_inv e fs
     \<and> idx_ok (index e) \<and> idx_map (index e) = replay DataStart fs Map.empty
     \<and> types_ok (byAgentType e) (log_view fs)"

definition commit_room :: "StorageEngine \<Rightarrow> bool" where
  "commit_room e \<longleftrightarrow> unat (CommitID (activeHeaderRef e)) + 1 < 2 ^ 64"

text \<open>
  Trimming takes a commit id when there is a snapshot to trim; \<open>trim_room\<close> leaves one more for the
  next checkpoint.
\<close>

definition trim_room :: "StorageEngine \<Rightarrow> bool" where
  "trim_room e \<longleftrightarrow>
     unat (CommitID (activeHeaderRef e)) + (if has_snapshot (activeHeaderRef e) then 1 else 0) + 1 < 2 ^ 64"

lemma trim_room_commit: "trim_room e \<Longrightarrow> commit_room e"
  by (simp add: trim_room_def commit_room_def split: if_splits)

lemma length_slots [simp]: "length other = HeaderSize \<Longrightarrow> length (slots e other) = DataStart"
  by (simp add: slots_def DataStart_def HeaderSize_def)

lemma engine_invD:
  assumes "engine_inv e fs"
  obtains other tail where "contents (efile e) = slots e other @ enc_log fs @ tail" "length other = HeaderSize"
    "loses e other" "tail_ok e tail" "Version (activeHeaderRef e) = FormatVersion"
    "nextOffset e = DataStart + length (enc_log fs)" "\<forall>f \<in> set fs. frame_ok f"
    "length (contents (efile e)) < 2 ^ 63"
  using assms unfolding engine_inv_def disk_inv_def by blast

lemma engine_inv_simps:
  assumes "engine_inv e fs"
  shows "faults (efile e) = []" "\<not> closed e" "mapped e = length (contents (efile e))" "mmap e = contents (efile e)"
    "idx_ok (index e)" "idx_map (index e) = replay DataStart fs Map.empty" "types_ok (byAgentType e) (log_view fs)"
  using assms by (simp_all add: engine_inv_def mmap_def)

lemma mmap_update [simp]: "mmap (e\<lparr>index := x\<rparr>) = mmap e" "mmap (e\<lparr>byAgentType := y\<rparr>) = mmap e"
  "mmap (e\<lparr>nextOffset := z\<rparr>) = mmap e" "mmap (e\<lparr>closed := b\<rparr>) = mmap e"
  by (simp_all add: mmap_def)

lemma activeHeaderRef_upd [simp]:
  "activeHeaderRef (e\<lparr>index := x\<rparr>) = activeHeaderRef e" "activeHeaderRef (e\<lparr>nextOffset := n\<rparr>) = activeHeaderRef e"
  "activeHeaderRef (e\<lparr>efile := f\<rparr>) = activeHeaderRef e" "activeHeaderRef (e\<lparr>mapped := m\<rparr>) = activeHeaderRef e"
  "activeHeaderRef (e\<lparr>closed := b\<rparr>) = activeHeaderRef e"
  "activeHeaderRef (e\<lparr>byAgentType := t\<rparr>) = activeHeaderRef e"
  by (simp_all add: activeHeaderRef_def)

section \<open>Reading through the index\<close>

lemma engine_entry:
  assumes "engine_inv e fs"
  shows "rel_option (\<lambda>off f. RecordData (mmap e) (unat off) = Inr f) (idx_lookup (index e) a i) (log_view fs (a, i))"
proof -
  obtain other tail where c: "contents (efile e) = slots e other @ enc_log fs @ tail" "length other = HeaderSize"
    "\<forall>f \<in> set fs. frame_ok f" "length (contents (efile e)) < 2 ^ 63"
    using assms by (rule engine_invD)
  have "idx_lookup (index e) a i = replay DataStart fs Map.empty (a, i)"
    using engine_inv_simps(6) [OF assms] by (simp add: idx_map_def fun_eq_iff)
  moreover have "rel_option (\<lambda>off f. RecordData (slots e other @ enc_log fs @ tail) (unat off) = Inr f)
      (replay (length (slots e other)) fs Map.empty (a, i)) (log_view fs (a, i))"
    using c by (intro replay_view) auto
  ultimately show ?thesis
    using c engine_inv_simps(4) [OF assms] by simp
qed

lemma ReadRecord_view:
  assumes "engine_inv e fs"
  shows "ReadRecord e a i = (case log_view fs (a, i) of
     None \<Rightarrow> Inl (NewError ErrNotFound) | Some f \<Rightarrow> Inr (f_type f, f_data f))"
  using engine_entry [OF assms, of a i] engine_inv_simps(2) [OF assms]
  by (cases "idx_lookup (index e) a i"; cases "log_view fs (a, i)") (auto simp: ReadRecord_def)

lemma Contains_view: "engine_inv e fs \<Longrightarrow> Contains e a i \<longleftrightarrow> log_view fs (a, i) \<noteq> None"
  using engine_entry [of e fs a i] engine_inv_simps(2) [of e fs]
  by (cases "idx_lookup (index e) a i"; cases "log_view fs (a, i)") (auto simp: Contains_def)

lemma recordTypeAt_frame: "RecordData (mmap e) (unat off) = Inr f \<Longrightarrow> recordTypeAt e off = Some (f_type f)"
proof -
  assume d: "RecordData (mmap e) (unat off) = Inr f"
  from RecordData_InrD(1) [OF d] obtain pre post where "length pre = unat off"
    "mmap e = pre @ EncodeRecord (f_agent f) (f_type f) (f_flags f) (f_id f) (f_data f) @ post" by blast
  then show ?thesis
    using RecordData_Inr_bound [OF d]
    by (simp add: recordTypeAt_def RecordHeaderSize_def nth_append EncodeRecord_def Let_def)
qed

lemma IndexByType_view:
  assumes "engine_inv e fs"
  shows "sorted (IndexByType e a t)" "distinct (IndexByType e a t)"
    "set (IndexByType e a t) = {i. \<exists>f. log_view fs (a, i) = Some f \<and> f_type f = t}"
  using engine_inv_simps(2,7) [OF assms]
  by (auto simp: IndexByType_def iterSnapshot_def types_ok_def)

section \<open>The type index\<close>

lemma bt_ids_add: "bt_ids (bt_add a t i bt) b s = (if b = a \<and> s = t then List.insert i (bt_ids bt a t) else bt_ids bt b s)"
  by (auto simp: bt_ids_def bt_add_def split: option.splits)

lemma filter_Nil_bt: "map_of types t = Some ids \<Longrightarrow> AList.delete t types = [] \<Longrightarrow> s \<noteq> t \<Longrightarrow> map_of types s = None"
  using AList_delete_Nil by fastforce

lemma bt_ids_remove:
  "bt_ids (removeTypeLocked a t i bt) b s =
     (if b = a \<and> s = t then filter (\<lambda>x. x \<noteq> i) (bt_ids bt a t) else bt_ids bt b s)"
proof (cases "map_of bt a")
  case None
  then show ?thesis by (auto simp: bt_ids_def removeTypeLocked_def)
next
  case (Some types)
  show ?thesis
  proof (cases "map_of types t")
    case None
    with Some show ?thesis by (auto simp: bt_ids_def removeTypeLocked_def)
  next
    case (Some ids)
    with \<open>map_of bt a = Some types\<close> show ?thesis
      using filter_Nil_bt [OF Some, of s] by (auto simp: bt_ids_def removeTypeLocked_def Let_def)
  qed
qed

lemma types_ok_put:
  assumes "types_ok bt v" "\<not> tombstone g" "f_key g = (a, i)"
    and "bt' = (case v (a, i) of None \<Rightarrow> bt | Some f \<Rightarrow> if f_type f \<noteq> f_type g then removeTypeLocked a (f_type f) i bt else bt)"
  shows "types_ok (bt_add a (f_type g) i bt') (view_step g v)"
  using assms
  by (auto simp: types_ok_def view_step_def bt_ids_add bt_ids_remove split: option.splits if_splits)

lemma types_ok_drop:
  assumes "types_ok bt v" "tombstone g" "f_key g = (a, i)"
    and "bt' = (case v (a, i) of None \<Rightarrow> bt | Some f \<Rightarrow> removeTypeLocked a (f_type f) i bt)"
  shows "types_ok bt' (view_step g v)"
  using assms
  by (auto simp: types_ok_def view_step_def bt_ids_remove split: option.splits if_splits)

section \<open>System-call level steps on a healthy disk\<close>

lemma truncateTail_ok:
  assumes "faults (efile e) = []" "n \<le> length (contents (efile e))"
  shows "truncateTail n e = (Inr (), e\<lparr>efile := (efile e)\<lparr>contents := take n (contents (efile e))\<rparr>, mapped := n\<rparr>)"
  using assms by (simp add: truncateTail_def os_simps)

lemma writeHeaderAt_ok:
  "faults f = [] \<Longrightarrow> writeHeaderAt off buf f =
     (Inr (), f\<lparr>contents := write_at off buf (contents f), cursor := off + length buf\<rparr>)"
  by (simp add: writeHeaderAt_def os_simps)

definition inactive_slot :: "StorageEngine \<Rightarrow> nat" where
  "inactive_slot e = (if activeHeader e then HeaderAOffset else HeaderBOffset)"

definition put_header :: "FileHeader \<Rightarrow> StorageEngine \<Rightarrow> StorageEngine" where
  "put_header hdr e = switchHeader hdr (e\<lparr>efile := (efile e)\<lparr>
     contents := write_at (inactive_slot e) (ToBytes hdr) (contents (efile e)),
     cursor := inactive_slot e + HeaderSize\<rparr>\<rparr>)"

lemma writeInactiveHeader_ok:
  assumes "faults (efile e) = []"
  shows "writeInactiveHeader hdr e = (Inr (), e\<lparr>efile := (efile e)\<lparr>
     contents := write_at (inactive_slot e) (ToBytes hdr) (contents (efile e)),
     cursor := inactive_slot e + HeaderSize\<rparr>\<rparr>)"
  using assms by (simp add: writeInactiveHeader_def inactive_slot_def writeHeaderAt_ok os_simps Let_def)

lemma write_at_slots:
  assumes "length other = HeaderSize"
  shows "write_at (inactive_slot e) (ToBytes hdr) (slots e other @ rest) = slots e (ToBytes hdr) @ rest"
  using assms
  by (auto simp: write_at_def inactive_slot_def slots_def HeaderAOffset_def HeaderBOffset_def HeaderSize_def)

lemma slots_switch: "slots e (ToBytes hdr) = slots (switchHeader hdr e) (ToBytes (activeHeaderRef e))"
  by (simp add: slots_def switchHeader_def activeHeaderRef_def)

lemma put_header_simps [simp]:
  "activeHeaderRef (put_header hdr e) = hdr" "index (put_header hdr e) = index e"
  "byAgentType (put_header hdr e) = byAgentType e" "nextOffset (put_header hdr e) = nextOffset e"
  "closed (put_header hdr e) = closed e" "mapped (put_header hdr e) = mapped e"
  "faults (efile (put_header hdr e)) = faults (efile e)"
  by (simp_all add: put_header_def switchHeader_def activeHeaderRef_def)

lemma put_header_contents:
  assumes "contents (efile e) = slots e other @ rest" "length other = HeaderSize"
  shows "contents (efile (put_header hdr e)) = slots (put_header hdr e) (ToBytes (activeHeaderRef e)) @ rest"
  using assms write_at_slots [OF assms(2), of e hdr rest]
  by (auto simp: put_header_def switchHeader_def slots_def activeHeaderRef_def)

text \<open>A header with a higher commit id takes over, and the old one loses against it.\<close>

lemma put_header_loses:
  assumes "Version (activeHeaderRef e) = FormatVersion" "CommitID (activeHeaderRef e) < CommitID hdr"
  shows "loses (put_header hdr e) (ToBytes (activeHeaderRef e))"
  using assms
  by (auto simp: loses_def FileHeaderFromBytes_ToBytes put_header_def switchHeader_def)

lemma commit_room_less: "commit_room e \<Longrightarrow> CommitID (activeHeaderRef e) < CommitID (activeHeaderRef e) + 1"
  unfolding commit_room_def word_less_nat_alt by (simp add: unat_word_ariths)

section \<open>Trimming the snapshot tail\<close>

definition null_header :: "StorageEngine \<Rightarrow> FileHeader" where
  "null_header e = (let h = (activeHeaderRef e)\<lparr>CommitID := CommitID (activeHeaderRef e) + 1,
     SnapshotOffset := 0, SnapshotLength := 0\<rparr> in h\<lparr>CRC32 := calculateCRC h\<rparr>)"

lemma null_header_simps [simp]:
  "SnapshotOffset (null_header e) = 0" "SnapshotLength (null_header e) = 0"
  "CommitID (null_header e) = CommitID (activeHeaderRef e) + 1" "Version (null_header e) = Version (activeHeaderRef e)"
  by (simp_all add: null_header_def Let_def)

lemma writeNullSnapshotHeader_ok:
  "faults (efile e) = [] \<Longrightarrow> writeNullSnapshotHeader e = (Inr (), put_header (null_header e) e)"
  by (simp add: writeNullSnapshotHeader_def writeInactiveHeader_ok put_header_def null_header_def Let_def
      activeHeaderRef_def)

text \<open>The engine ready to append: the file ends with the record area.\<close>

definition appendable :: "StorageEngine \<Rightarrow> frame list \<Rightarrow> bool" where
  "appendable e fs \<longleftrightarrow> engine_inv e fs \<and> \<not> has_snapshot (activeHeaderRef e)"

lemma snapshot_end:
  assumes "unat (so :: u64) + unat (sl :: u32) = n" "n < 2 ^ 63"
  shows "so + ucast sl = of_nat n" "unat (so + ucast sl) = n"
proof -
  have "unat (ucast sl :: u64) = unat sl" by (rule unat_ucast_u32)
  then show "unat (so + ucast sl) = n" using assms by (simp add: unat_word_ariths)
  then have "of_nat (unat (so + ucast sl)) = (of_nat n :: u64)" by (rule arg_cong)
  then show "so + ucast sl = of_nat n" by simp
qed

lemma trimTailSnapshot_inv:
  assumes inv: "engine_inv e fs" and room: "trim_room e"
  shows "\<exists>e'. trimTailSnapshot e = (Inr (), e') \<and> appendable e' fs \<and> index e' = index e
    \<and> byAgentType e' = byAgentType e \<and> trim_room e'"
proof (cases "has_snapshot (activeHeaderRef e)")
  case False
  then show ?thesis using inv room by (auto simp: trimTailSnapshot_def has_snapshot_def appendable_def Let_def)
next
  case True
  obtain other tail where c: "contents (efile e) = slots e other @ enc_log fs @ tail" "length other = HeaderSize"
    "loses e other" "tail_ok e tail" "Version (activeHeaderRef e) = FormatVersion"
    "nextOffset e = DataStart + length (enc_log fs)" "\<forall>f \<in> set fs. frame_ok f"
    "length (contents (efile e)) < 2 ^ 63"
    using inv by (rule engine_invD)
  note simps = engine_inv_simps [OF inv]
  let ?h = "activeHeaderRef e"
  from c(4) True obtain mid idx where t: "tail = mid @ BuildSnapshot idx"
    "unat (SnapshotOffset ?h) = nextOffset e + length mid" "unat (SnapshotLength ?h) = length (BuildSnapshot idx)"
    by (auto simp: tail_ok_def)
  have "unat (SnapshotOffset ?h) + unat (SnapshotLength ?h) = length (mmap e)"
    using t c(1,2,6) simps(4) by simp
  from snapshot_end(1) [OF this] have at_tail: "SnapshotOffset ?h + ucast (SnapshotLength ?h) = of_nat (length (mmap e))"
    using c(8) simps(4) by simp
  let ?e1 = "e\<lparr>efile := (efile e)\<lparr>contents := slots e other @ enc_log fs\<rparr>, mapped := nextOffset e\<rparr>"
  have "take (nextOffset e) (contents (efile e)) = slots e other @ enc_log fs"
    using c(1,2,6) by simp
  then have "truncateTail (nextOffset e) e = (Inr (), ?e1)"
    using truncateTail_ok [of e "nextOffset e"] simps(1) c(1,2,6) by simp
  then have trim: "trimTailSnapshot e = (Inr (), put_header (null_header ?e1) ?e1)"
    using True at_tail simps(1)
    by (simp add: trimTailSnapshot_def has_snapshot_def Let_def writeNullSnapshotHeader_ok)
  let ?e2 = "put_header (null_header ?e1) ?e1"
  have act: "activeHeaderRef ?e1 = ?h" by (simp add: activeHeaderRef_def)
  have slot1: "slots ?e1 = slots e" by (simp add: slots_def fun_eq_iff)
  have cont: "contents (efile ?e2) = slots ?e2 (ToBytes ?h) @ enc_log fs"
    using put_header_contents [of ?e1 other "enc_log fs" "null_header ?e1"] c(2) act slot1 by simp
  have "loses ?e2 (ToBytes ?h)"
    using put_header_loses [of ?e1 "null_header ?e1"] c(5) act commit_room_less [OF trim_room_commit [OF room]] by simp
  then have "disk_inv ?e2 fs"
    unfolding disk_inv_def using cont c(1,2,5,6,7,8) act
    by (intro exI [of _ "ToBytes ?h"] exI [of _ "[]"]) (simp add: tail_ok_def has_snapshot_def)
  then have "engine_inv ?e2 fs"
    using simps cont c(6) by (simp add: engine_inv_def)
  moreover have "trim_room ?e2"
  proof -
    have "unat (CommitID ?h) + 2 < 2 ^ 64" using room True by (simp add: trim_room_def)
    then have "unat (CommitID ?h + 1) = unat (CommitID ?h) + 1" by (simp add: unat_word_ariths)
    then show ?thesis using \<open>unat (CommitID ?h) + 2 < 2 ^ 64\<close> act by (simp add: trim_room_def has_snapshot_def)
  qed
  ultimately show ?thesis using trim by (auto simp: appendable_def has_snapshot_def)
qed

section \<open>Writing\<close>

definition frame_of :: "RecordEntry \<Rightarrow> frame" where
  "frame_of r = \<lparr>f_type = r_type r, f_flags = 0, f_data = r_data r, f_agent = r_agent r, f_id = r_id r\<rparr>"

fun log_offsets :: "nat \<Rightarrow> frame list \<Rightarrow> u64 list" where
  "log_offsets off [] = []"
| "log_offsets off (f # fs) = of_nat off # log_offsets (off + length (enc f)) fs"

lemma frame_of_simps [simp]: "f_type (frame_of r) = r_type r" "f_data (frame_of r) = r_data r"
  "f_key (frame_of r) = (r_agent r, r_id r)" "\<not> tombstone (frame_of r)"
  "enc (frame_of r) = EncodeRecord (r_agent r) (r_type r) 0 (r_id r) (r_data r)"
  by (simp_all add: frame_of_def f_key_def tombstone_def enc_def)

lemma append_loop_ok:
  assumes "faults (efile e) = []"
  shows "\<exists>cur. append_loop start rs offs e =
    (Inr (offs @ log_offsets (length (contents (efile e))) (map frame_of rs)),
     e\<lparr>efile := (efile e)\<lparr>contents := contents (efile e) @ enc_log (map frame_of rs), cursor := cur\<rparr>\<rparr>)"
  using assms
proof (induction rs arbitrary: offs e)
  case Nil
  show ?case by (rule exI [of _ "cursor (efile e)"]) simp
next
  case (Cons r rs)
  let ?c = "contents (efile e)" and ?x = "enc (frame_of r)"
  let ?e1 = "e\<lparr>efile := (efile e)\<lparr>contents := ?c @ ?x, cursor := length ?c + length ?x\<rparr>\<rparr>"
  have "append_loop start (r # rs) offs e = append_loop start rs (offs @ [of_nat (length ?c)]) ?e1"
    using Cons.prems by (simp add: os_simps write_at_end Let_def)
  moreover obtain cur where "append_loop start rs (offs @ [of_nat (length ?c)]) ?e1 =
    (Inr ((offs @ [of_nat (length ?c)]) @ log_offsets (length (?c @ ?x)) (map frame_of rs)),
     ?e1\<lparr>efile := (efile ?e1)\<lparr>contents := (?c @ ?x) @ enc_log (map frame_of rs), cursor := cur\<rparr>\<rparr>)"
    using Cons.IH [of ?e1 "offs @ [of_nat (length ?c)]"] Cons.prems by auto
  ultimately show ?case by auto
qed

lemma last_log_offsets:
  "fs \<noteq> [] \<Longrightarrow> off + length (enc_log fs) < 2 ^ 64 \<Longrightarrow>
     unat (last (log_offsets off fs)) + length (enc (last fs)) = off + length (enc_log fs)"
proof (induction fs arbitrary: off)
  case Nil
  then show ?case by simp
next
  case (Cons f fs)
  show ?case
  proof (cases fs)
    case Nil
    then show ?thesis using Cons.prems by (simp add: unat_of_nat)
  next
    case (Cons g gs)
    then have "log_offsets (off + length (enc f)) fs \<noteq> []" by simp
    then show ?thesis using Cons.IH [of "off + length (enc f)"] Cons.prems Cons by (simp add: add.assoc)
  qed
qed

lemma length_log_offsets [simp]: "length (log_offsets off fs) = length fs"
  by (induction fs arbitrary: off) auto

text \<open>Adding one written record to both indexes.\<close>

definition indexed :: "StorageEngine \<Rightarrow> frame list \<Rightarrow> bool" where
  "indexed e fs \<longleftrightarrow> idx_ok (index e) \<and> idx_map (index e) = replay DataStart fs Map.empty
     \<and> types_ok (byAgentType e) (log_view fs)"

definition log_mapped :: "StorageEngine \<Rightarrow> frame list \<Rightarrow> bool" where
  "log_mapped e fs \<longleftrightarrow> (\<forall>f \<in> set fs. frame_ok f) \<and> length (mmap e) < 2 ^ 63
     \<and> (\<exists>pre post. length pre = DataStart \<and> mmap e = pre @ enc_log fs @ post)"

lemma indexed_entry:
  assumes "indexed e fs" "log_mapped e (fs @ gs)"
  shows "rel_option (\<lambda>off f. RecordData (mmap e) (unat off) = Inr f) (idx_lookup (index e) a i) (log_view fs (a, i))"
proof -
  from assms(2) obtain pre post where m: "length pre = DataStart" "mmap e = pre @ enc_log fs @ (enc_log gs @ post)"
    "\<forall>f \<in> set fs. frame_ok f" "length (mmap e) < 2 ^ 63" by (auto simp: log_mapped_def)
  have "idx_lookup (index e) a i = replay DataStart fs Map.empty (a, i)"
    using assms(1) by (simp add: indexed_def idx_map_def fun_eq_iff)
  moreover have "rel_option (\<lambda>off f. RecordData (mmap e) (unat off) = Inr f)
      (replay (length pre) fs Map.empty (a, i)) (log_view fs (a, i))"
    using m unfolding m(2) by (intro replay_view) auto
  ultimately show ?thesis using m(1) by simp
qed

lemma index_one_indexed:
  assumes "indexed e fs" "log_mapped e (fs @ frame_of r # gs)"
  shows "indexed (index_one (r, of_nat (DataStart + length (enc_log fs))) e) (fs @ [frame_of r])"
proof -
  let ?k = "(r_agent r, r_id r)" and ?off = "of_nat (DataStart + length (enc_log fs)) :: u64"
  let ?bt = "case log_view fs ?k of None \<Rightarrow> byAgentType e
    | Some f \<Rightarrow> if f_type f \<noteq> f_type (frame_of r) then removeTypeLocked (r_agent r) (f_type f) (r_id r) (byAgentType e)
        else byAgentType e"
  have "index_one (r, ?off) e = e\<lparr>index := idx_put (r_agent r) (r_id r) ?off (index e),
      byAgentType := bt_add (r_agent r) (r_type r) (r_id r) ?bt\<rparr>"
    using indexed_entry [OF assms, of "r_agent r" "r_id r"]
    by (cases "idx_lookup (index e) (r_agent r) (r_id r)"; cases "log_view fs ?k")
      (auto simp: index_one_def Let_def recordTypeAt_frame)
  moreover have "types_ok (bt_add (r_agent r) (f_type (frame_of r)) (r_id r) ?bt) (view_step (frame_of r) (log_view fs))"
    using assms(1) by (intro types_ok_put) (auto simp: indexed_def)
  ultimately show ?thesis
    using assms(1) by (simp add: indexed_def replay_append log_view_append)
qed

lemma index_one_rest: "\<exists>idx bt. index_one ro e = e\<lparr>index := idx, byAgentType := bt\<rparr>"
  by (auto simp: index_one_def Let_def)

lemma log_mapped_cong: "mmap e' = mmap e \<Longrightarrow> log_mapped e' fs = log_mapped e fs"
  by (simp add: log_mapped_def)

lemma updateIndex_indexed:
  assumes "indexed e fs" "log_mapped e (fs @ map frame_of rs)"
  shows "\<exists>idx bt. updateIndexAfterWrite rs (log_offsets (DataStart + length (enc_log fs)) (map frame_of rs)) e
      = e\<lparr>index := idx, byAgentType := bt\<rparr> \<and> indexed (e\<lparr>index := idx, byAgentType := bt\<rparr>) (fs @ map frame_of rs)"
  using assms
proof (induction rs arbitrary: e fs)
  case Nil
  then show ?case
    by (intro exI [of _ "index e"] exI [of _ "byAgentType e"]) (simp add: updateIndexAfterWrite_def)
next
  case (Cons r rs)
  let ?off = "of_nat (DataStart + length (enc_log fs)) :: u64"
  let ?e1 = "index_one (r, ?off) e"
  obtain idx1 bt1 where e1: "?e1 = e\<lparr>index := idx1, byAgentType := bt1\<rparr>" using index_one_rest by blast
  have "indexed ?e1 (fs @ [frame_of r])" using Cons.prems by (intro index_one_indexed) auto
  moreover have "log_mapped ?e1 ((fs @ [frame_of r]) @ map frame_of rs)"
  proof -
    have "mmap ?e1 = mmap e" unfolding e1 by (simp add: mmap_def)
    then show ?thesis using Cons.prems(2) by (simp add: log_mapped_def)
  qed
  ultimately obtain idx bt where
    "updateIndexAfterWrite rs (log_offsets (DataStart + length (enc_log (fs @ [frame_of r]))) (map frame_of rs)) ?e1
       = ?e1\<lparr>index := idx, byAgentType := bt\<rparr>"
    "indexed (?e1\<lparr>index := idx, byAgentType := bt\<rparr>) ((fs @ [frame_of r]) @ map frame_of rs)"
    using Cons.IH by blast
  moreover have "?e1\<lparr>index := idx, byAgentType := bt\<rparr> = e\<lparr>index := idx, byAgentType := bt\<rparr>" unfolding e1 by simp
  ultimately show ?case
    by (intro exI [of _ idx] exI [of _ bt]) (simp add: updateIndexAfterWrite_def add.assoc)
qed

text \<open>The state between a successful append and the index update.\<close>

lemma appendable_layout:
  assumes "appendable e fs"
  obtains other where "contents (efile e) = slots e other @ enc_log fs" "length other = HeaderSize"
    "loses e other" "Version (activeHeaderRef e) = FormatVersion"
    "nextOffset e = length (contents (efile e))" "length (contents (efile e)) = DataStart + length (enc_log fs)"
    "\<forall>f \<in> set fs. frame_ok f"
proof -
  obtain other tail where c: "contents (efile e) = slots e other @ enc_log fs @ tail" "length other = HeaderSize"
    "loses e other" "tail_ok e tail" "Version (activeHeaderRef e) = FormatVersion"
    "nextOffset e = DataStart + length (enc_log fs)" "\<forall>f \<in> set fs. frame_ok f"
    using assms unfolding appendable_def by (auto elim: engine_invD)
  moreover have "tail = []" using c(4) assms by (simp add: tail_ok_def appendable_def)
  ultimately show ?thesis using that [of other] by simp
qed

text \<open>
  A file that ends with its record area, extended by frames and remapped, with the indexes
  brought up to date: the invariant holds for the extended log.
\<close>

lemma appended_inv:
  assumes app: "appendable e fs" and new: "\<forall>f \<in> set gs. frame_ok f"
    and bound: "nextOffset e + length (enc_log gs) < 2 ^ 63"
    and e': "efile e' = (efile e)\<lparr>contents := contents (efile e) @ enc_log gs, cursor := cur\<rparr>"
      "mapped e' = length (contents (efile e) @ enc_log gs)" "nextOffset e' = nextOffset e + length (enc_log gs)"
      "headerA e' = headerA e" "headerB e' = headerB e" "activeHeader e' = activeHeader e" "closed e' = closed e"
    and idx: "indexed e' (fs @ gs)"
  shows "engine_inv e' (fs @ gs)" "\<not> has_snapshot (activeHeaderRef e')"
proof -
  obtain other where c: "contents (efile e) = slots e other @ enc_log fs" "length other = HeaderSize"
    "loses e other" "Version (activeHeaderRef e) = FormatVersion"
    "nextOffset e = length (contents (efile e))" "length (contents (efile e)) = DataStart + length (enc_log fs)"
    "\<forall>f \<in> set fs. frame_ok f"
    using app by (rule appendable_layout)
  have same: "slots e' = slots e" "loses e' = loses e" "activeHeaderRef e' = activeHeaderRef e"
    using e' by (simp_all add: slots_def loses_def activeHeaderRef_def fun_eq_iff)
  show no: "\<not> has_snapshot (activeHeaderRef e')" using app same by (simp add: appendable_def)
  have "disk_inv e' (fs @ gs)"
    unfolding disk_inv_def using c same e' new bound no
    by (intro exI [of _ other] exI [of _ "[]"]) (auto simp: tail_ok_def)
  moreover have "faults (efile e') = []" "\<not> closed e'"
    using app e' by (simp_all add: appendable_def engine_inv_def)
  ultimately show "engine_inv e' (fs @ gs)"
    using e' idx by (simp add: engine_inv_def indexed_def)
qed

lemma writeRecordBatch_inv:
  assumes inv: "engine_inv e fs" and room: "trim_room e" and new: "\<forall>r \<in> set rs. frame_ok (frame_of r)"
    and bound: "nextOffset e + length (enc_log (map frame_of rs)) < 2 ^ 63"
  shows "\<exists>e'. writeRecordBatch rs e = (Inr (log_offsets (nextOffset e) (map frame_of rs)), e')
    \<and> engine_inv e' (fs @ map frame_of rs) \<and> trim_room e'
    \<and> length (contents (efile e')) \<le> length (contents (efile e)) + length (enc_log (map frame_of rs))"
proof (cases "rs = []")
  case True
  then show ?thesis using inv room by (simp add: writeRecordBatch_def)
next
  case False
  obtain e1 where trim: "trimTailSnapshot e = (Inr (), e1)" and app: "appendable e1 fs" and room1: "trim_room e1"
    using trimTailSnapshot_inv [OF inv room] by blast
  obtain other where c: "contents (efile e1) = slots e1 other @ enc_log fs" "length other = HeaderSize"
    "nextOffset e1 = length (contents (efile e1))" "length (contents (efile e1)) = DataStart + length (enc_log fs)"
    "\<forall>f \<in> set fs. frame_ok f"
    using app by (rule appendable_layout)
  have no: "nextOffset e = nextOffset e1" and le: "nextOffset e \<le> length (contents (efile e))"
    using inv c by (auto elim!: engine_invD)
  have ok: "faults (efile e1) = []" using app by (simp add: appendable_def engine_inv_def)
  let ?gs = "map frame_of rs" and ?c = "contents (efile e1)"
  let ?offs = "log_offsets (nextOffset e1) ?gs"
  let ?f0 = "(efile e1)\<lparr>cursor := length ?c\<rparr>"
  obtain cur where ap: "appendFrames rs e1 = (Inr ?offs, e1\<lparr>efile := (efile e1)\<lparr>contents := ?c @ enc_log ?gs, cursor := cur\<rparr>\<rparr>)"
    using append_loop_ok [of "e1\<lparr>efile := ?f0\<rparr>" "length ?c" rs "[]"] ok c(3)
    by (auto simp: appendFrames_def os_simps)
  have "unat (last ?offs) + length (enc (last ?gs)) = nextOffset e1 + length (enc_log ?gs)"
    using False bound no by (intro last_log_offsets) auto
  then have nxt: "unat (last ?offs) + (RecordHeaderSize + length (r_data (last rs))) = nextOffset e1 + length (enc_log ?gs)"
    using False by (simp add: last_map)
  let ?e2 = "e1\<lparr>nextOffset := nextOffset e1 + length (enc_log ?gs),
     efile := (efile e1)\<lparr>contents := ?c @ enc_log ?gs, cursor := cur\<rparr>, mapped := length (?c @ enc_log ?gs)\<rparr>"
  have mm: "mmap ?e2 = slots e1 other @ enc_log (fs @ ?gs) @ []" using c(1) by (simp add: mmap_def)
  have "indexed ?e2 fs" using app by (simp add: appendable_def engine_inv_def indexed_def)
  moreover have "log_mapped ?e2 (fs @ ?gs)"
  proof -
    have "length (mmap ?e2) < 2 ^ 63" using c(3) bound no by (simp add: mmap_def)
    moreover have "\<forall>f \<in> set (fs @ ?gs). frame_ok f" using c(5) new by auto
    moreover have "length (slots e1 other) = DataStart" using c(2) by simp
    ultimately show ?thesis unfolding log_mapped_def using mm by blast
  qed
  ultimately obtain idx bt where upd:
    "updateIndexAfterWrite rs (log_offsets (DataStart + length (enc_log fs)) ?gs) ?e2 = ?e2\<lparr>index := idx, byAgentType := bt\<rparr>"
    "indexed (?e2\<lparr>index := idx, byAgentType := bt\<rparr>) (fs @ ?gs)"
    using updateIndex_indexed by blast
  let ?e3 = "?e2\<lparr>index := idx, byAgentType := bt\<rparr>"
  have "writeRecordBatch rs e = (Inr ?offs, ?e3)"
    using False trim ap ok nxt upd(1) c(3,4)
    by (simp add: writeRecordBatch_def os_simps Let_def)
  moreover have "engine_inv ?e3 (fs @ ?gs)"
    using app new bound no upd(2) by (intro appended_inv(1) [where e = e1 and cur = cur]) auto
  moreover have "trim_room ?e3" using room1 by (simp add: trim_room_def)
  moreover have "length (contents (efile ?e3)) \<le> length (contents (efile e)) + length (enc_log ?gs)"
    using le no c(3) by simp
  ultimately show ?thesis using no by auto
qed

section \<open>Deleting\<close>

definition tomb :: "u64 \<Rightarrow> byte \<Rightarrow> u64 \<Rightarrow> frame" where
  "tomb a t i = \<lparr>f_type = t, f_flags = FlagDeleted, f_data = [], f_agent = a, f_id = i\<rparr>"

definition dead_frames :: "(key \<rightharpoonup> frame) \<Rightarrow> u64 \<Rightarrow> u64 list \<Rightarrow> frame list" where
  "dead_frames v a ids = concat (map (\<lambda>i. case v (a, i) of None \<Rightarrow> [] | Some f \<Rightarrow> [tomb a (f_type f) i]) ids)"

lemma tomb_simps [simp]: "tombstone (tomb a t i)" "f_key (tomb a t i) = (a, i)" "frame_ok (tomb a t i)"
  "enc (tomb a t i) = EncodeRecord a t FlagDeleted i []"
  by (simp_all add: tomb_def tombstone_def f_key_def frame_ok_def blank_head_def enc_def FlagDeleted_def)

lemma dead_frames_simps [simp]: "dead_frames v a [] = []"
  "dead_frames v a (i # ids) = (case v (a, i) of None \<Rightarrow> [] | Some f \<Rightarrow> [tomb a (f_type f) i]) @ dead_frames v a ids"
  by (simp_all add: dead_frames_def)

lemma dead_frames_ok: "\<forall>f \<in> set (dead_frames v a ids). frame_ok f"
  by (induction ids) (auto split: option.splits)

definition live_ids :: "(key \<rightharpoonup> frame) \<Rightarrow> u64 \<Rightarrow> u64 list \<Rightarrow> u64 list" where
  "live_ids v a ids = filter (\<lambda>i. v (a, i) \<noteq> None) ids"

lemma length_dead_frames: "length (dead_frames v a ids) = length (live_ids v a ids)"
  by (induction ids) (auto simp: live_ids_def split: option.splits)

lemma fold_dead_frames: "fold view_step (dead_frames v a ids) w (b, j) = (if b = a \<and> j \<in> set (live_ids v a ids) then None else w (b, j))"
  by (induction ids arbitrary: w) (auto simp: view_step_def live_ids_def split: option.splits)

text \<open>A deleted key is gone, every other key keeps its frame.\<close>

lemma log_view_dead:
  "log_view (fs @ dead_frames (log_view fs) a ids) (b, j) = (if b = a \<and> j \<in> set ids then None else log_view fs (b, j))"
  by (auto simp: log_view_append fold_dead_frames live_ids_def)

lemma buildTombstones_eq:
  assumes "engine_inv e fs"
  shows "buildTombstones e a ids (x, m, n) =
    (x @ enc_log (dead_frames (log_view fs) a ids),
     fold (\<lambda>i. AList.update i (the (idx_lookup (index e) a i))) (live_ids (log_view fs) a ids) m,
     n + length (live_ids (log_view fs) a ids))"
proof (induction ids arbitrary: x m n)
  case Nil
  then show ?case by (simp add: live_ids_def)
next
  case (Cons i ids)
  note entry = engine_entry [OF assms, of a i]
  show ?case
  proof (cases "log_view fs (a, i)")
    case None
    then show ?thesis using entry Cons.IH by (auto simp: live_ids_def)
  next
    case (Some f)
    with entry obtain off where off: "idx_lookup (index e) a i = Some off" "RecordData (mmap e) (unat off) = Inr f"
      by (auto simp: option_rel_Some2)
    have "(if unat off < length (mmap e) then mmap e ! unat off else 0) = f_type f"
      using recordTypeAt_frame [OF off(2)] by (auto simp: recordTypeAt_def split: if_splits)
    then show ?thesis using Some off Cons.IH by (simp add: live_ids_def)
  qed
qed

text \<open>The map of old offsets has each deleted id once.\<close>

lemma fold_update_map:
  "map_wf m \<Longrightarrow> map_wf (fold (\<lambda>i. AList.update i (g i)) ids m)"
  "map_of (fold (\<lambda>i. AList.update i (g i)) ids m) j = (if j \<in> set ids then Some (g j) else map_of m j)"
  by (induction ids arbitrary: m) auto

text \<open>Dropping an id from a domain without pruning the domain, as the deletion loop does.\<close>

definition idx_rm :: "u64 \<Rightarrow> u64 \<Rightarrow> record_index \<Rightarrow> record_index" where
  "idx_rm a i idx = (case map_of idx a of None \<Rightarrow> idx | Some m \<Rightarrow> AList.update a (AList.delete i m) idx)"

definition idx_ok_but :: "u64 \<Rightarrow> record_index \<Rightarrow> bool" where
  "idx_ok_but a idx \<longleftrightarrow> index_wf idx \<and> (\<forall>(b, m) \<in> set idx. b \<noteq> a \<longrightarrow> m \<noteq> [])"

lemma idx_map_rm [simp]: "idx_map (idx_rm a i idx) = (idx_map idx)((a, i) := None)"
  by (auto simp: idx_map_def idx_rm_def idx_lookup_def fun_eq_iff split: option.splits)

lemma idx_ok_but_rm: "idx_ok_but a idx \<Longrightarrow> idx_ok_but a (idx_rm a i idx)"
proof (cases "map_of idx a")
  case (Some m)
  assume ok: "idx_ok_but a idx"
  then have "map_wf (AList.delete i m)"
    using map_of_SomeD [OF Some] by (auto simp: idx_ok_but_def index_wf_def)
  then show ?thesis
    using ok Some by (auto simp: idx_ok_but_def idx_rm_def intro: index_wf_update dest!: set_update_cases)
qed (simp add: idx_rm_def)

lemma fold_idx_rm:
  "idx_map (fold (\<lambda>d. idx_rm a (fst d)) dels idx) (b, j) =
     (if b = a \<and> j \<in> fst ` set dels then None else idx_map idx (b, j))"
  "idx_ok_but a idx \<Longrightarrow> idx_ok_but a (fold (\<lambda>d. idx_rm a (fst d)) dels idx)"
  by (induction dels arbitrary: idx) (auto simp: idx_ok_but_rm)

definition prune_agent :: "u64 \<Rightarrow> record_index \<Rightarrow> record_index" where
  "prune_agent a idx = (if (case map_of idx a of None \<Rightarrow> True | Some m \<Rightarrow> m = []) then AList.delete a idx else idx)"

lemma idx_map_prune: "idx_map (prune_agent a idx) = idx_map idx"
  unfolding prune_agent_def by (auto simp: idx_map_delete_agent split: option.splits)

lemma idx_ok_prune:
  assumes "idx_ok_but a idx"
  shows "idx_ok (prune_agent a idx)"
proof (cases "case map_of idx a of None \<Rightarrow> True | Some m \<Rightarrow> m = []")
  case True
  have "index_wf (AList.delete a idx)"
    using assms by (auto simp: idx_ok_but_def index_wf_def dest: set_AList_delete)
  moreover have "m \<noteq> []" if "(b, m) \<in> set (AList.delete a idx)" for b m
    using that assms by (auto simp: idx_ok_but_def AList.delete_eq)
  ultimately show ?thesis using True by (auto simp: prune_agent_def idx_ok_def)
next
  case False
  then obtain m where m: "map_of idx a = Some m" "m \<noteq> []" by (auto split: option.splits)
  have "n \<noteq> []" if "(b, n) \<in> set idx" for b n
    using that assms m map_of_Some_iff [of idx a n] by (cases "b = a") (auto simp: idx_ok_but_def index_wf_def)
  then show ?thesis using False assms by (auto simp: prune_agent_def idx_ok_def idx_ok_but_def)
qed

lemma delete_one_eq:
  assumes "recordTypeAt e off = Some t"
  shows "delete_one a (i, off) e = e\<lparr>index := idx_rm a i (index e), byAgentType := removeTypeLocked a t i (byAgentType e)\<rparr>"
proof -
  have "recordTypeAt (e\<lparr>index := idx\<rparr>) off = Some t" for idx
    using assms by (simp add: recordTypeAt_def split: if_splits)
  then show ?thesis by (simp add: delete_one_def Let_def idx_rm_def)
qed

lemma fold_delete_one:
  assumes "types_ok (byAgentType e) w" "map_wf dels"
    and "\<And>i off. (i, off) \<in> set dels \<Longrightarrow> \<exists>f. w (a, i) = Some f \<and> recordTypeAt e off = Some (f_type f)"
  shows "\<exists>bt. fold (delete_one a) dels e = e\<lparr>index := fold (\<lambda>d. idx_rm a (fst d)) dels (index e), byAgentType := bt\<rparr>
    \<and> types_ok bt (\<lambda>(b, j). if b = a \<and> j \<in> fst ` set dels then None else w (b, j))"
  using assms
proof (induction dels arbitrary: e w)
  case Nil
  then show ?case by (intro exI [of _ "byAgentType e"]) simp
next
  case (Cons d dels)
  obtain i off where d: "d = (i, off)" by (cases d)
  from Cons.prems(3) [of i off] d obtain f where f: "w (a, i) = Some f" "recordTypeAt e off = Some (f_type f)" by auto
  let ?e1 = "e\<lparr>index := idx_rm a i (index e), byAgentType := removeTypeLocked a (f_type f) i (byAgentType e)\<rparr>"
  let ?w1 = "view_step (tomb a (f_type f) i) w"
  have w1: "?w1 = w((a, i) := None)" by (simp add: view_step_def)
  have "types_ok (byAgentType ?e1) ?w1"
    using Cons.prems(1) f(1) by (intro types_ok_drop [where g = "tomb a (f_type f) i"]) auto
  moreover have "map_wf dels" "i \<notin> fst ` set dels" using Cons.prems(2) d by auto
  moreover have "\<exists>f. ?w1 (a, j) = Some f \<and> recordTypeAt ?e1 o' = Some (f_type f)" if "(j, o') \<in> set dels" for j o'
    using Cons.prems(3) [of j o'] that \<open>i \<notin> fst ` set dels\<close>
    by (force simp: w1 recordTypeAt_def)
  ultimately obtain bt where
    "fold (delete_one a) dels ?e1 = ?e1\<lparr>index := fold (\<lambda>d. idx_rm a (fst d)) dels (index ?e1), byAgentType := bt\<rparr>"
    "types_ok bt (\<lambda>(b, j). if b = a \<and> j \<in> fst ` set dels then None else ?w1 (b, j))"
    using Cons.IH [of ?e1 ?w1] by blast
  moreover have "(\<lambda>(b, j). if b = a \<and> j \<in> fst ` set dels then None else ?w1 (b, j))
      = (\<lambda>(b, j). if b = a \<and> j \<in> fst ` set (d # dels) then None else w (b, j))"
    by (auto simp: w1 d fun_eq_iff)
  ultimately show ?case
    using delete_one_eq [OF f(2), of a i] by (intro exI [of _ bt]) (simp add: d)
qed

lemma replay_dead:
  "replay off (dead_frames v a ids) m (b, j) = (if b = a \<and> j \<in> set (live_ids v a ids) then None else m (b, j))"
  by (induction ids arbitrary: off m) (auto simp: live_ids_def split: option.splits)

lemma applyDeletions_indexed:
  assumes idx: "indexed e fs" and lm: "log_mapped e (fs @ dead_frames (log_view fs) a ids)"
    and live: "dels = fold (\<lambda>i. AList.update i (the (idx_lookup (index e) a i))) (live_ids (log_view fs) a ids) []"
  shows "\<exists>idx bt. applyDeletions a dels e = e\<lparr>index := idx, byAgentType := bt\<rparr>
    \<and> indexed (e\<lparr>index := idx, byAgentType := bt\<rparr>) (fs @ dead_frames (log_view fs) a ids)"
proof -
  let ?L = "live_ids (log_view fs) a ids"
  have wf: "map_wf dels" by (simp add: live fold_update_map)
  have look: "map_of dels j = (if j \<in> set ?L then Some (the (idx_lookup (index e) a j)) else None)" for j
    by (simp add: live fold_update_map(2))
  have keys: "fst ` set dels = set ?L"
    by (auto simp: dom_map_of_conv_image_fst [symmetric] look split: if_splits)
  have entries: "\<exists>f. log_view fs (a, i) = Some f \<and> recordTypeAt e off = Some (f_type f)" if "(i, off) \<in> set dels" for i off
  proof -
    from that have "map_of dels i = Some off" using wf by (simp add: map_of_Some_iff)
    then have i: "i \<in> set ?L" "off = the (idx_lookup (index e) a i)" by (auto simp: look split: if_splits)
    from i(1) obtain f where f: "log_view fs (a, i) = Some f" by (auto simp: live_ids_def)
    with indexed_entry [OF idx lm, of a i] i(2) have "RecordData (mmap e) (unat off) = Inr f"
      by (auto simp: option_rel_Some2)
    with f show ?thesis using recordTypeAt_frame by blast
  qed
  have "types_ok (byAgentType e) (log_view fs)" using idx by (simp add: indexed_def)
  from fold_delete_one [OF this wf entries] obtain bt where
    fold: "fold (delete_one a) dels e = e\<lparr>index := fold (\<lambda>d. idx_rm a (fst d)) dels (index e), byAgentType := bt\<rparr>"
    and bt: "types_ok bt (\<lambda>(b, j). if b = a \<and> j \<in> fst ` set dels then None else log_view fs (b, j))" by blast
  let ?idx0 = "fold (\<lambda>d. idx_rm a (fst d)) dels (index e)"
  let ?e' = "e\<lparr>index := prune_agent a ?idx0, byAgentType := bt\<rparr>"
  have "applyDeletions a dels e = ?e'"
    unfolding applyDeletions_def fold by (simp add: prune_agent_def)
  moreover have "indexed ?e' (fs @ dead_frames (log_view fs) a ids)"
  proof -
    have "idx_ok_but a (index e)" using idx by (auto simp: indexed_def idx_ok_def idx_ok_but_def)
    then have "idx_ok (prune_agent a ?idx0)" by (intro idx_ok_prune fold_idx_rm(2))
    moreover have "idx_map (prune_agent a ?idx0) = replay DataStart (fs @ dead_frames (log_view fs) a ids) Map.empty"
    proof
      fix k :: key
      show "idx_map (prune_agent a ?idx0) k = replay DataStart (fs @ dead_frames (log_view fs) a ids) Map.empty k"
        using idx by (cases k) (simp add: idx_map_prune fold_idx_rm(1) keys replay_append replay_dead indexed_def)
    qed
    moreover have "(\<lambda>(b, j). if b = a \<and> j \<in> fst ` set dels then None else log_view fs (b, j))
        = log_view (fs @ dead_frames (log_view fs) a ids)"
      by (auto simp: fun_eq_iff keys log_view_append fold_dead_frames)
    ultimately show ?thesis using bt by (simp add: indexed_def)
  qed
  ultimately show ?thesis by (intro exI [of _ "prune_agent a ?idx0"] exI [of _ bt]) simp
qed

lemma deleteRecordBatch_inv:
  assumes inv: "engine_inv e fs" and room: "trim_room e"
    and bound: "nextOffset e + length (enc_log (dead_frames (log_view fs) a ids)) < 2 ^ 63"
  shows "\<exists>e'. deleteRecordBatchLocked a ids e = (Inr (length (live_ids (log_view fs) a ids)), e')
    \<and> engine_inv e' (fs @ dead_frames (log_view fs) a ids) \<and> trim_room e'
    \<and> length (contents (efile e')) \<le> length (contents (efile e)) + length (enc_log (dead_frames (log_view fs) a ids))"
proof (cases "live_ids (log_view fs) a ids = []")
  case True
  then have "dead_frames (log_view fs) a ids = []" using length_dead_frames [of "log_view fs" a ids] by simp
  then show ?thesis using True inv room
    by (simp add: deleteRecordBatchLocked_def buildTombstones_eq [OF inv])
next
  case False
  let ?L = "live_ids (log_view fs) a ids" and ?gs = "dead_frames (log_view fs) a ids"
  let ?dels = "fold (\<lambda>i. AList.update i (the (idx_lookup (index e) a i))) ?L []"
  obtain e1 where trim: "trimTailSnapshot e = (Inr (), e1)" and app: "appendable e1 fs" and ix: "index e1 = index e"
    and room1: "trim_room e1"
    using trimTailSnapshot_inv [OF inv room] by blast
  obtain other where c: "contents (efile e1) = slots e1 other @ enc_log fs" "length other = HeaderSize"
    "nextOffset e1 = length (contents (efile e1))" "length (contents (efile e1)) = DataStart + length (enc_log fs)"
    "\<forall>f \<in> set fs. frame_ok f"
    using app by (rule appendable_layout)
  have no: "nextOffset e = nextOffset e1" and le: "nextOffset e \<le> length (contents (efile e))"
    using inv c by (auto elim!: engine_invD)
  have ok: "faults (efile e1) = []" using app by (simp add: appendable_def engine_inv_def)
  let ?c = "contents (efile e1)" and ?x = "enc_log ?gs"
  let ?e2 = "e1\<lparr>nextOffset := length ?c + length ?x,
     efile := (efile e1)\<lparr>contents := ?c @ ?x, cursor := length (?c @ ?x)\<rparr>, mapped := length (?c @ ?x)\<rparr>"
  have "indexed ?e2 fs" using app by (simp add: appendable_def engine_inv_def indexed_def)
  moreover have "log_mapped ?e2 (fs @ ?gs)"
  proof -
    have "length (mmap ?e2) < 2 ^ 63" using c(3) bound no by (simp add: mmap_def)
    moreover have "\<forall>f \<in> set (fs @ ?gs). frame_ok f" using c(5) dead_frames_ok by auto
    moreover have "length (slots e1 other) = DataStart" "mmap ?e2 = slots e1 other @ enc_log (fs @ ?gs) @ []"
      using c(1,2) by (simp_all add: mmap_def)
    ultimately show ?thesis unfolding log_mapped_def by blast
  qed
  moreover have "?dels = fold (\<lambda>i. AList.update i (the (idx_lookup (index ?e2) a i))) ?L []" using ix by simp
  ultimately obtain idx bt where del:
    "applyDeletions a ?dels ?e2 = ?e2\<lparr>index := idx, byAgentType := bt\<rparr>"
    "indexed (?e2\<lparr>index := idx, byAgentType := bt\<rparr>) (fs @ ?gs)"
    using applyDeletions_indexed by blast
  let ?e3 = "?e2\<lparr>index := idx, byAgentType := bt\<rparr>"
  have "deleteRecordBatchLocked a ids e = (Inr (length ?L), ?e3)"
    using False trim ok del(1)
    by (simp add: deleteRecordBatchLocked_def buildTombstones_eq [OF inv] os_simps write_at_end Let_def)
  moreover have "engine_inv ?e3 (fs @ ?gs)"
    using app dead_frames_ok bound no del(2) c(3)
    by (intro appended_inv(1) [where e = e1 and cur = "length (?c @ ?x)"]) auto
  moreover have "trim_room ?e3" using room1 by (simp add: trim_room_def)
  moreover have "length (contents (efile ?e3)) \<le> length (contents (efile e)) + length (enc_log ?gs)"
    using le no c(3) by simp
  ultimately show ?thesis by auto
qed

end
