(* ===== verification/Engine_Recovery.thy ===== *)
theory Engine_Recovery
  imports Engine_Correct
begin

unbundle bit_operations_syntax

text \<open>
  What survives the process: a created file, a checkpoint, a clean close and a crash. Opening a
  file an engine left behind yields an engine whose invariant names the same log, whichever of
  the three ways recovery takes: the snapshot of the active header, a scan of the whole record
  area, or a scan after a snapshot that is named but gone.
\<close>

section \<open>Rebuilding the type index\<close>

lemma rebuild_entry_ids:
  "bt_ids (rebuild_entry e a io bt) b t =
     (if b = a \<and> recordTypeAt e (snd io) = Some t then List.insert (fst io) (bt_ids bt b t) else bt_ids bt b t)"
  by (auto simp: rebuild_entry_def bt_ids_add split: option.splits)

lemma rebuild_entry_distinct: "distinct (bt_ids bt b t) \<Longrightarrow> distinct (bt_ids (rebuild_entry e a io bt) b t)"
  by (auto simp: rebuild_entry_ids)

lemma bt_ids_Nil [simp]: "bt_ids [] a t = []"
  by (simp add: bt_ids_def)

lemma rebuild_domain_ids:
  "set (bt_ids (rebuild_domain e (a, m) bt) b t) =
     set (bt_ids bt b t) \<union> (if b = a then {i. \<exists>off. (i, off) \<in> set m \<and> recordTypeAt e off = Some t} else {})"
  unfolding rebuild_domain_def fst_conv snd_conv
  by (induction m arbitrary: bt) (auto simp: rebuild_entry_ids)

lemma rebuild_domain_distinct: "distinct (bt_ids bt b t) \<Longrightarrow> distinct (bt_ids (rebuild_domain e am bt) b t)"
  unfolding rebuild_domain_def
  by (rule fold_invariant [where Q = "\<lambda>_. True" and P = "\<lambda>bt. distinct (bt_ids bt b t)"]) (auto simp: rebuild_entry_distinct)

lemma rebuild_domains_ids:
  "set (bt_ids (fold (rebuild_domain e) idx bt) b t) =
     set (bt_ids bt b t) \<union> {i. \<exists>m off. (b, m) \<in> set idx \<and> (i, off) \<in> set m \<and> recordTypeAt e off = Some t}"
proof (induction idx arbitrary: bt)
  case (Cons am idx)
  obtain a m where am: "am = (a, m)" by (cases am)
  have "set (bt_ids (fold (rebuild_domain e) (am # idx) bt) b t) =
      set (bt_ids (rebuild_domain e (a, m) bt) b t) \<union> {i. \<exists>m off. (b, m) \<in> set idx \<and> (i, off) \<in> set m \<and> recordTypeAt e off = Some t}"
    using Cons.IH by (simp add: am)
  then show ?case unfolding rebuild_domain_ids by (auto simp: am)
qed simp

lemma rebuild_domains_distinct: "distinct (bt_ids bt b t) \<Longrightarrow> distinct (bt_ids (fold (rebuild_domain e) idx bt) b t)"
  by (rule fold_invariant [where Q = "\<lambda>_. True" and P = "\<lambda>bt. distinct (bt_ids bt b t)"]) (auto simp: rebuild_domain_distinct)

lemma idx_lookup_iff:
  assumes "index_wf idx"
  shows "idx_lookup idx a i = Some off \<longleftrightarrow> (\<exists>m. (a, m) \<in> set idx \<and> (i, off) \<in> set m)"
proof
  assume "idx_lookup idx a i = Some off"
  then show "\<exists>m. (a, m) \<in> set idx \<and> (i, off) \<in> set m"
    by (auto simp: idx_lookup_def split: option.splits dest!: map_of_SomeD)
next
  assume "\<exists>m. (a, m) \<in> set idx \<and> (i, off) \<in> set m"
  then obtain m where m: "(a, m) \<in> set idx" "(i, off) \<in> set m" by blast
  then have "map_wf m" "map_of idx a = Some m" using assms by (auto simp: index_wf_def map_of_Some_iff)
  then show "idx_lookup idx a i = Some off" using m(2) by (simp add: idx_lookup_def map_of_Some_iff)
qed

definition decodes :: "bytes \<Rightarrow> (key \<rightharpoonup> u64) \<Rightarrow> (key \<rightharpoonup> frame) \<Rightarrow> bool" where
  "decodes mm m v \<longleftrightarrow> (\<forall>k. rel_option (\<lambda>off f. RecordData mm (unat off) = Inr f) (m k) (v k))"

lemma rebuildByAgentType_ok:
  assumes "idx_ok (index e)" "decodes (mmap e) (idx_map (index e)) v" "length (mmap e) < 2 ^ 63"
  shows "\<exists>bt. rebuildByAgentType e = Inr (e\<lparr>byAgentType := bt\<rparr>) \<and> types_ok bt v"
proof -
  let ?bt = "fold (rebuild_domain e) (index e) []"
  have wf: "index_wf (index e)" using assms(1) by (simp add: idx_ok_def)
  have dec: "\<exists>f. v (a, i) = Some f \<and> RecordData (mmap e) (unat off) = Inr f"
    if "(a, m) \<in> set (index e)" "(i, off) \<in> set m" for a m i off
  proof -
    have "idx_lookup (index e) a i = Some off" using idx_lookup_iff [OF wf] that by blast
    moreover have "rel_option (\<lambda>off f. RecordData (mmap e) (unat off) = Inr f) (idx_map (index e) (a, i)) (v (a, i))"
      using assms(2) unfolding decodes_def by blast
    ultimately show ?thesis by (simp add: idx_map_def option_rel_Some1)
  qed
  have "\<not> (\<exists>(a, m) \<in> set (index e). \<exists>(i, off) \<in> set m. unat off \<ge> 2 ^ 63)"
    using dec RecordData_Inr_bound assms(3) by (fastforce simp: RecordHeaderSize_def)
  then have "rebuildByAgentType e = Inr (e\<lparr>byAgentType := ?bt\<rparr>)"
    by (simp add: rebuildByAgentType_def)
  moreover have "types_ok ?bt v"
  proof -
    have "i \<in> set (bt_ids ?bt a t) \<longleftrightarrow> (\<exists>f. v (a, i) = Some f \<and> f_type f = t)" for a t i
    proof -
      have "i \<in> set (bt_ids ?bt a t) \<longleftrightarrow> (\<exists>off. idx_lookup (index e) a i = Some off \<and> recordTypeAt e off = Some t)"
        using idx_lookup_iff [OF wf, of a i] by (auto simp: rebuild_domains_ids)
      moreover have "rel_option (\<lambda>off f. RecordData (mmap e) (unat off) = Inr f) (idx_lookup (index e) a i) (v (a, i))"
        using assms(2) unfolding decodes_def idx_map_def by (auto dest: spec [where x = "(a, i)"])
      ultimately show ?thesis
        using recordTypeAt_frame [of e]
        by (cases "idx_lookup (index e) a i"; cases "v (a, i)") auto
    qed
    then show ?thesis
      by (auto simp: types_ok_def set_eq_iff intro: rebuild_domains_distinct)
  qed
  ultimately show ?thesis by blast
qed

section \<open>A file an engine left behind\<close>

text \<open>The headers of \<open>e\<close>, the frames \<open>fs\<close>, then \<open>tail\<close>.\<close>

definition left_behind :: "StorageEngine \<Rightarrow> frame list \<Rightarrow> bytes \<Rightarrow> osfile \<Rightarrow> bool" where
  "left_behind e fs tail f \<longleftrightarrow> faults f = []
     \<and> (\<exists>other. contents f = slots e other @ enc_log fs @ tail \<and> length other = HeaderSize \<and> loses e other)
     \<and> Version (activeHeaderRef e) = FormatVersion
     \<and> (\<forall>g \<in> set fs. frame_ok g) \<and> length (contents f) < 2 ^ 63"

lemma loadHeaders_slots:
  assumes "length other = HeaderSize" "loses e other" "Version (activeHeaderRef e) = FormatVersion"
  shows "\<exists>hA hB. loadHeaders (slots e other @ rest) = Inr (hA, hB, activeHeader e)
    \<and> (if activeHeader e then hB else hA) = (activeHeaderRef e)\<lparr>CRC32 := calculateCRC (activeHeaderRef e)\<rparr>"
proof (cases "activeHeader e")
  case True
  then have "bslice (slots e other @ rest) 0 HeaderSize = other"
    "bslice (slots e other @ rest) HeaderSize (HeaderSize * 2) = ToBytes (headerB e)"
    using assms(1) by (simp_all add: slots_def bslice_def)
  then show ?thesis
    using True assms(2,3)
    by (cases "FileHeaderFromBytes other")
      (auto simp: loadHeaders_def FileHeaderFromBytes_ToBytes SelectValidHeader_def activeHeaderRef_def loses_def Let_def)
next
  case False
  then have "bslice (slots e other @ rest) 0 HeaderSize = ToBytes (headerA e)"
    "bslice (slots e other @ rest) HeaderSize (HeaderSize * 2) = other"
    using assms(1) by (simp_all add: slots_def bslice_def)
  then show ?thesis
    using False assms(2,3)
    by (cases "FileHeaderFromBytes other")
      (auto simp: loadHeaders_def FileHeaderFromBytes_ToBytes SelectValidHeader_def activeHeaderRef_def loses_def Let_def)
qed

definition opened :: "osfile \<Rightarrow> FileHeader \<Rightarrow> FileHeader \<Rightarrow> bool \<Rightarrow> StorageEngine" where
  "opened f hA hB act = \<lparr>efile = f, mapped = length (contents f), headerA = hA, headerB = hB,
     activeHeader = act, index = [], byAgentType = [], nextOffset = DataStart, closed = False\<rparr>"

lemma opened_simps [simp]: "mmap (opened f hA hB act) = contents f" "index (opened f hA hB act) = []"
  "efile (opened f hA hB act) = f" "activeHeader (opened f hA hB act) = act" "closed (opened f hA hB act) = False"
  "mapped (opened f hA hB act) = length (contents f)"
  by (simp_all add: opened_def mmap_def)

text \<open>The first half of \<open>Open\<close> finds the headers, and what is left is \<open>recover\<close> and the rebuild.\<close>

lemma Open_left_behind:
  assumes "left_behind e fs tail f"
  obtains hA hB e0 where "e0 = opened f hA hB (activeHeader e)"
    "activeHeaderRef e0 = (activeHeaderRef e)\<lparr>CRC32 := calculateCRC (activeHeaderRef e)\<rparr>"
    "\<forall>e1 bt. recover e0 = (Inr (), e1) \<longrightarrow> rebuildByAgentType e1 = Inr (e1\<lparr>byAgentType := bt\<rparr>)
       \<longrightarrow> Open f = (Inr (e1\<lparr>byAgentType := bt\<rparr>), efile e1)"
proof -
  from assms obtain other where c: "contents f = slots e other @ enc_log fs @ tail" "length other = HeaderSize"
    "loses e other" "Version (activeHeaderRef e) = FormatVersion" "faults f = []"
    by (auto simp: left_behind_def)
  obtain hA hB where h: "loadHeaders (contents f) = Inr (hA, hB, activeHeader e)"
    "(if activeHeader e then hB else hA) = (activeHeaderRef e)\<lparr>CRC32 := calculateCRC (activeHeaderRef e)\<rparr>"
    using loadHeaders_slots [OF c(2,3,4), of "enc_log fs @ tail"] c(1) by auto
  have "length (contents f) \<ge> HeaderSize * 2" using c(1,2) by (simp add: DataStart_def HeaderSize_def)
  then have "openEngineFile f = (Inr (length (contents f), hA, hB, activeHeader e), f)"
    using c(5) h(1) by (simp add: openEngineFile_def lockFile_def os_simps)
  then have "Open f = (Inr (e1\<lparr>byAgentType := bt\<rparr>), efile e1)"
    if "recover (opened f hA hB (activeHeader e)) = (Inr (), e1)"
      "rebuildByAgentType e1 = Inr (e1\<lparr>byAgentType := bt\<rparr>)" for e1 bt
    using that by (simp add: Open_def opened_def Let_def)
  moreover have "activeHeaderRef (opened f hA hB (activeHeader e))
      = (activeHeaderRef e)\<lparr>CRC32 := calculateCRC (activeHeaderRef e)\<rparr>"
    using h(2) by (cases "activeHeader e") (simp_all add: opened_def activeHeaderRef_def)
  ultimately show ?thesis using that by blast
qed


lemma disk_invI:
  assumes "contents (efile e) = slots e other @ enc_log fs @ tail" "length other = HeaderSize"
    "loses e other" "tail_ok e tail" "Version (activeHeaderRef e) = FormatVersion"
    "nextOffset e = DataStart + length (enc_log fs)" "\<forall>f \<in> set fs. frame_ok f"
    "length (contents (efile e)) < 2 ^ 63"
  shows "disk_inv e fs"
  unfolding disk_inv_def using assms by blast

lemma idx_map_Nil [simp]: "idx_map [] = Map.empty"
  by (auto simp: idx_map_def idx_lookup_def fun_eq_iff)

definition disk_indexed :: "StorageEngine \<Rightarrow> frame list \<Rightarrow> bool" where
  "disk_indexed e fs \<longleftrightarrow> faults (efile e) = [] \<and> \<not> closed e
     \<and> mapped e = length (contents (efile e)) \<and> disk_inv e fs
     \<and> idx_ok (index e) \<and> idx_map (index e) = replay DataStart fs Map.empty"

lemma rebuild_inv:
  assumes "disk_indexed e fs"
  shows "\<exists>bt. rebuildByAgentType e = Inr (e\<lparr>byAgentType := bt\<rparr>) \<and> engine_inv (e\<lparr>byAgentType := bt\<rparr>) fs"
proof -
  from assms obtain other tail where c: "contents (efile e) = slots e other @ enc_log fs @ tail"
    "length other = HeaderSize" "\<forall>f \<in> set fs. frame_ok f" "length (contents (efile e)) < 2 ^ 63"
    by (auto simp: disk_indexed_def disk_inv_def)
  have mm: "mmap e = contents (efile e)" using assms by (simp add: disk_indexed_def mmap_def)
  have "decodes (mmap e) (idx_map (index e)) (log_view fs)"
    unfolding decodes_def
  proof
    fix k
    have "rel_option (\<lambda>off f. RecordData (slots e other @ enc_log fs @ tail) (unat off) = Inr f)
        (replay (length (slots e other)) fs Map.empty k) (log_view fs k)"
      using c by (intro replay_view) auto
    then show "rel_option (\<lambda>off f. RecordData (mmap e) (unat off) = Inr f) (idx_map (index e) k) (log_view fs k)"
      using c assms by (simp add: mm disk_indexed_def)
  qed
  then obtain bt where bt: "rebuildByAgentType e = Inr (e\<lparr>byAgentType := bt\<rparr>)" "types_ok bt (log_view fs)"
    using rebuildByAgentType_ok [of e "log_view fs"] assms c(4) mm by (auto simp: disk_indexed_def)
  have "disk_inv (e\<lparr>byAgentType := bt\<rparr>) fs = disk_inv e fs"
    by (simp add: disk_inv_def slots_def loses_def tail_ok_def activeHeaderRef_def)
  then show ?thesis using bt assms by (auto simp: engine_inv_def disk_indexed_def)
qed

text \<open>The engine a reopened file starts from has the old engine's headers, up to the stored checksum.\<close>

definition same_headers :: "StorageEngine \<Rightarrow> StorageEngine \<Rightarrow> bool" where
  "same_headers e0 e \<longleftrightarrow> activeHeader e0 = activeHeader e
     \<and> activeHeaderRef e0 = (activeHeaderRef e)\<lparr>CRC32 := calculateCRC (activeHeaderRef e)\<rparr>"

lemma same_headers_slots: "same_headers e0 e \<Longrightarrow> slots e0 = slots e"
  by (auto simp: same_headers_def slots_def activeHeaderRef_def fun_eq_iff split: if_splits)

lemma same_headers_loses: "same_headers e0 e \<Longrightarrow> loses e0 = loses e"
  by (auto simp: same_headers_def loses_def activeHeaderRef_def fun_eq_iff split: if_splits)

lemma same_headers_upd [simp]:
  "same_headers (e0\<lparr>index := x\<rparr>) e = same_headers e0 e" "same_headers (e0\<lparr>nextOffset := n\<rparr>) e = same_headers e0 e"
  "same_headers (e0\<lparr>efile := f\<rparr>) e = same_headers e0 e" "same_headers (e0\<lparr>mapped := m\<rparr>) e = same_headers e0 e"
  by (simp_all add: same_headers_def activeHeaderRef_def)

lemma Open_via_recover:
  assumes lb: "left_behind e fs tail f"
    and rec: "\<And>e0. e0 = opened f (headerA e0) (headerB e0) (activeHeader e) \<Longrightarrow> same_headers e0 e
      \<Longrightarrow> \<exists>e1. recover e0 = (Inr (), e1) \<and> disk_indexed e1 fs"
  shows "\<exists>e'. Open f = (Inr e', efile e') \<and> engine_inv e' fs"
proof -
  obtain e0 hA hB where e0: "e0 = opened f hA hB (activeHeader e)"
    "activeHeaderRef e0 = (activeHeaderRef e)\<lparr>CRC32 := calculateCRC (activeHeaderRef e)\<rparr>"
    "\<forall>e1 bt. recover e0 = (Inr (), e1) \<longrightarrow> rebuildByAgentType e1 = Inr (e1\<lparr>byAgentType := bt\<rparr>)
       \<longrightarrow> Open f = (Inr (e1\<lparr>byAgentType := bt\<rparr>), efile e1)"
    using Open_left_behind [OF lb] by metis
  have "e0 = opened f (headerA e0) (headerB e0) (activeHeader e)" "same_headers e0 e"
    using e0(1,2) by (simp_all add: opened_def same_headers_def)
  from rec [OF this] obtain e1 where e1: "recover e0 = (Inr (), e1)" "disk_indexed e1 fs" by blast
  from rebuild_inv [OF e1(2)] obtain bt where bt: "rebuildByAgentType e1 = Inr (e1\<lparr>byAgentType := bt\<rparr>)"
    "engine_inv (e1\<lparr>byAgentType := bt\<rparr>) fs" by blast
  show ?thesis using e0(3) e1(1) bt by auto
qed

section \<open>Recovery by scanning\<close>

text \<open>The scan ends at \<open>off\<close>: the file ends there, or a frame that does not decode starts there and
  nothing after it decodes.\<close>

definition stops :: "bytes \<Rightarrow> nat \<Rightarrow> bool" where
  "stops mm off \<longleftrightarrow> off = length mm
     \<or> (RecordData mm off = Inl (NewError ErrCorruption) \<or> RecordData mm off = Inl (NewError ErrCRCMismatch))
       \<and> resyncScan mm (off + 1) = None"

lemma scan_stops:
  assumes "stops mm off"
  shows "scan_loop mm so off idx = (Inr (off, off \<noteq> length mm), idx)"
proof (cases "off = length mm")
  case True
  then show ?thesis by (simp add: scan_eof)
next
  case False
  then show ?thesis using assms by (subst scan_loop.simps) (auto simp: stops_def)
qed

lemma scanRecords_log:
  assumes "contents f = slots e other @ enc_log fs @ tail" "length other = HeaderSize" "\<forall>g \<in> set fs. frame_ok g"
    and "stops (contents f) (DataStart + length (enc_log fs))" "mmap e0 = contents f" "index e0 = []"
  shows "scanRecords DataStart e0 =
    (Inr (DataStart + length (enc_log fs), tail \<noteq> []), e0\<lparr>index := replay_idx DataStart fs []\<rparr>)"
proof -
  let ?stop = "DataStart + length (enc_log fs)"
  have "scan_loop (contents f) so DataStart [] = scan_loop (contents f) so ?stop (replay_idx DataStart fs [])" for so
    using scan_log [OF assms(3), of "slots e other" tail so "[]"] assms(1,2) by simp
  moreover have "?stop \<noteq> length (contents f) \<longleftrightarrow> tail \<noteq> []" using assms(1,2) by auto
  ultimately show ?thesis
    using scan_stops [OF assms(4)] assms(5,6) by (simp add: scanRecords_def)
qed

text \<open>The engine recovery leaves: the scanned index over a file cut back to its frames.\<close>

definition scanned :: "frame list \<Rightarrow> StorageEngine \<Rightarrow> StorageEngine" where
  "scanned fs e0 = (let n = DataStart + length (enc_log fs) in e0\<lparr>index := replay_idx DataStart fs [], nextOffset := n,
     efile := (efile e0)\<lparr>contents := take n (contents (efile e0))\<rparr>, mapped := n\<rparr>)"

lemma cut_tail:
  assumes "contents (efile e0) = slots e other @ enc_log fs @ tail" "length other = HeaderSize"
    "faults (efile e0) = []" "mapped e0 = length (contents (efile e0))"
  defines "n \<equiv> DataStart + length (enc_log fs)"
  shows "(if tail \<noteq> [] then truncateTail n (e0\<lparr>index := replay_idx DataStart fs [], nextOffset := n\<rparr>)
     else (Inr (), e0\<lparr>index := replay_idx DataStart fs [], nextOffset := n\<rparr>)) = (Inr (), scanned fs e0)"
proof -
  have len: "length (slots e other) = DataStart" using assms(2) by simp
  show ?thesis
  proof (cases "tail = []")
    case True
    then have "mapped e0 = n" "take n (contents (efile e0)) = contents (efile e0)" using assms len by simp_all
    then show ?thesis using True by (simp add: scanned_def n_def [symmetric] Let_def)
  next
    case False
    then show ?thesis using assms len by (simp add: scanned_def truncateTail_ok Let_def)
  qed
qed

lemma scanned_indexed:
  assumes lb: "left_behind e fs tail f" and sh: "same_headers e0 e" and e0: "efile e0 = f" "closed e0 = False"
    and no: "\<not> has_snapshot (activeHeaderRef e)"
  shows "disk_indexed (scanned fs e0) fs"
proof -
  from lb obtain other where c: "contents f = slots e other @ enc_log fs @ tail" "length other = HeaderSize"
    "loses e other" "Version (activeHeaderRef e) = FormatVersion" "faults f = []" "\<forall>g \<in> set fs. frame_ok g"
    "length (contents f) < 2 ^ 63" by (auto simp: left_behind_def)
  have sh': "same_headers (scanned fs e0) e" using sh by (simp add: scanned_def Let_def)
  have len: "length (slots e other) = DataStart" using c(2) by simp
  have "contents (efile (scanned fs e0)) = slots e other @ enc_log fs"
    using c(1) e0 len by (simp add: scanned_def Let_def)
  moreover have "activeHeaderRef (scanned fs e0) = (activeHeaderRef e)\<lparr>CRC32 := calculateCRC (activeHeaderRef e)\<rparr>"
    using sh' by (simp add: same_headers_def)
  moreover have "nextOffset (scanned fs e0) = DataStart + length (enc_log fs)" by (simp add: scanned_def Let_def)
  ultimately have "disk_inv (scanned fs e0) fs"
    using c no same_headers_slots [OF sh'] same_headers_loses [OF sh'] len
    by (intro disk_invI [where other = other and tail = "[]"]) (auto simp: tail_ok_def has_snapshot_def)
  then show ?thesis
    using c e0 len replay_idx_props [where idx = "[]" and off = DataStart and fs = fs]
    by (simp add: disk_indexed_def scanned_def Let_def)
qed

text \<open>Opening after a crash that left no snapshot: the frames before the torn tail are all there is.\<close>

lemma Open_scan:
  assumes lb: "left_behind e fs tail f" and no: "\<not> has_snapshot (activeHeaderRef e)"
    and st: "stops (contents f) (DataStart + length (enc_log fs))"
  shows "\<exists>e'. Open f = (Inr e', efile e') \<and> engine_inv e' fs"
proof (rule Open_via_recover [OF lb])
  fix e0 assume e0: "e0 = opened f (headerA e0) (headerB e0) (activeHeader e)" and sh: "same_headers e0 e"
  from lb obtain other where c: "contents f = slots e other @ enc_log fs @ tail" "length other = HeaderSize"
    "faults f = []" "\<forall>g \<in> set fs. frame_ok g" by (auto simp: left_behind_def)
  have s: "mmap e0 = contents f" "index e0 = []" "efile e0 = f" "closed e0 = False" "mapped e0 = length (contents f)"
    by (subst e0, simp)+
  have "restoreFromSnapshot e0 = Inr (DataStart, False, False, e0)"
    using no sh by (auto simp: restoreFromSnapshot_def same_headers_def has_snapshot_def Let_def)
  moreover have "scanRecords DataStart e0 = (Inr (DataStart + length (enc_log fs), tail \<noteq> []), e0\<lparr>index := replay_idx DataStart fs []\<rparr>)"
    using c st s by (intro scanRecords_log) auto
  ultimately have "recover e0 = (Inr (), scanned fs e0)"
    using cut_tail [of e0 e other fs tail] c s by (cases "tail = []") (simp_all add: recover_def Let_def)
  then show "\<exists>e1. recover e0 = (Inr (), e1) \<and> disk_indexed e1 fs"
    using scanned_indexed [OF lb sh] s no by blast
qed

section \<open>Recovery from the snapshot\<close>

lemma sint_small:
  assumes "unat (w :: u64) < 2 ^ 63"
  shows "sint w = int (unat w)"
proof -
  have "uint w < 2 ^ 63" using assms unfolding unat_eq_nat_uint by (subst (asm) nat_less_iff) simp_all
  moreover have "- (2 ^ 63) \<le> uint w" by (rule order_trans [of _ 0]) simp_all
  ultimately have "signed_take_bit 63 (uint w) = uint w" by (intro signed_take_bit_int_eq_self)
  then show ?thesis by (simp add: sint_uint)
qed

lemma live_domains_idx_ok: "idx_ok idx \<Longrightarrow> live_domains idx = idx"
  by (auto simp: idx_ok_def live_domains_def filter_id_conv)

lemma loadSnapshot_ok:
  assumes "mmap e = pre @ BuildSnapshot idx" "unat (SnapshotOffset (activeHeaderRef e)) = length pre"
    and "unat (SnapshotLength (activeHeaderRef e)) = length (BuildSnapshot idx)"
    and "DataStart \<le> length pre" "idx_ok idx" "index_fits idx" "length (mmap e) < 2 ^ 63"
  shows "loadSnapshot e = Inr (e\<lparr>index := idx\<rparr>)"
proof -
  let ?h = "activeHeaderRef e"
  have len: "unat (SnapshotOffset ?h) + unat (SnapshotLength ?h) = length (mmap e)" using assms(1-3) by simp
  from snapshot_end(2) [OF this assms(7)]
  have u: "unat (SnapshotOffset ?h + ucast (SnapshotLength ?h)) = length (mmap e)" .
  have "length pre < 2 ^ 63" using assms(1,7) by simp
  then have "sint (SnapshotOffset ?h) = int (length pre)"
    using assms(2) by (simp add: sint_small)
  moreover have "sint (SnapshotOffset ?h + ucast (SnapshotLength ?h)) = int (length (mmap e))"
    using u assms(7) by (simp add: sint_small)
  moreover have "bslice (mmap e) (length pre) (length (mmap e)) = BuildSnapshot idx"
    using assms(1) by (simp add: bslice_def)
  moreover have "ParseSnapshot (BuildSnapshot idx) = Inr idx"
    using ParseSnapshot_BuildSnapshot [of idx] assms(5,6) live_domains_idx_ok [of idx] by (simp add: idx_ok_def)
  moreover have "nat (int (length (mmap e))) = length (mmap e)" by simp
  moreover have "\<not> int (length pre) < int DataStart" "\<not> int (length (mmap e)) < int (length pre)"
    using assms(1,4) by simp_all
  ultimately show ?thesis by (simp only: loadSnapshot_def Let_def) simp
qed

lemma tail_okD:
  assumes "tail_ok e tail" "has_snapshot (activeHeaderRef e)"
  obtains mid idx where "tail = mid @ BuildSnapshot idx" "idx_ok idx" "idx_map idx = idx_map (index e)" "index_fits idx"
    "unat (SnapshotOffset (activeHeaderRef e)) = nextOffset e + length mid"
    "unat (SnapshotLength (activeHeaderRef e)) = length (BuildSnapshot idx)"
    "RecordEnd (activeHeaderRef e) = of_nat (nextOffset e)"
  using assms unfolding tail_ok_def by (auto simp: Let_def)

lemma tail_okI:
  assumes "has_snapshot (activeHeaderRef e)" "tail = mid @ BuildSnapshot idx" "idx_ok idx" "idx_map idx = idx_map (index e)"
    "index_fits idx" "unat (SnapshotOffset (activeHeaderRef e)) = nextOffset e + length mid"
    "unat (SnapshotLength (activeHeaderRef e)) = length (BuildSnapshot idx)"
    "RecordEnd (activeHeaderRef e) = of_nat (nextOffset e)"
  shows "tail_ok e tail"
  using assms unfolding tail_ok_def by auto

lemma recover_from_snapshot:
  assumes c: "contents f = pre @ mid @ BuildSnapshot idx" and e0: "mmap e0 = contents f" "efile e0 = f" "mapped e0 = length (contents f)"
    and h: "unat (SnapshotOffset (activeHeaderRef e0)) = length (pre @ mid)"
    "unat (SnapshotLength (activeHeaderRef e0)) = length (BuildSnapshot idx)"
    "RecordEnd (activeHeaderRef e0) = of_nat (length pre)"
    and ok: "DataStart \<le> length pre" "idx_ok idx" "index_fits idx" "length (contents f) < 2 ^ 63"
  shows "recover e0 = (Inr (), e0\<lparr>index := idx, nextOffset := length pre\<rparr>)"
proof -
  let ?h = "activeHeaderRef e0"
  have "0 < length (BuildSnapshot idx)" by (simp add: BuildSnapshot_eq)
  then have ne: "SnapshotOffset ?h \<noteq> 0" "SnapshotLength ?h \<noteq> 0"
    using h(1,2) ok(1) by (auto simp: DataStart_def HeaderSize_def)
  have "loadSnapshot e0 = Inr (e0\<lparr>index := idx\<rparr>)"
    using c e0 h ok by (intro loadSnapshot_ok [where pre = "pre @ mid"]) auto
  moreover have "unat (SnapshotOffset ?h + ucast (SnapshotLength ?h)) = length (contents f)"
    using c h(1,2) ok(4) by (intro snapshot_end(2)) auto
  ultimately have "restoreFromSnapshot e0 = Inr (length (contents f), True, False, e0\<lparr>index := idx\<rparr>)"
    using ne by (simp add: restoreFromSnapshot_def Let_def)
  moreover have "scanRecords (length (contents f)) (e0\<lparr>index := idx\<rparr>)
      = (Inr (length (contents f), False), e0\<lparr>index := idx\<rparr>)"
    using e0(1) scan_eof [of "contents f"] by (simp add: scanRecords_def)
  moreover have "recoverRecordAreaEnd (e0\<lparr>index := idx, nextOffset := length (contents f)\<rparr>) = length pre"
  proof -
    have "length pre < 2 ^ 63" using c ok(4) by simp
    then have r: "unat (RecordEnd ?h) = length pre" using h(3) by (simp add: unat_of_nat)
    have "RecordEnd ?h \<le> SnapshotOffset ?h" using r h(1) by (simp add: word_le_nat_alt)
    then show ?thesis using r ok(1) e0(1) c by (simp add: recoverRecordAreaEnd_def Let_def)
  qed
  ultimately show ?thesis by (simp add: recover_def Let_def)
qed

lemma Open_snapshot:
  assumes lb: "left_behind e fs tail f" and snap: "has_snapshot (activeHeaderRef e)" "tail_ok e tail"
    and ix: "nextOffset e = DataStart + length (enc_log fs)" "idx_map (index e) = replay DataStart fs Map.empty"
  shows "\<exists>e'. Open f = (Inr e', efile e') \<and> engine_inv e' fs"
proof (rule Open_via_recover [OF lb])
  fix e0 assume e0: "e0 = opened f (headerA e0) (headerB e0) (activeHeader e)" and sh: "same_headers e0 e"
  from lb obtain other where c: "contents f = slots e other @ enc_log fs @ tail" "length other = HeaderSize"
    "faults f = []" "\<forall>g \<in> set fs. frame_ok g" "length (contents f) < 2 ^ 63" "loses e other"
    "Version (activeHeaderRef e) = FormatVersion" by (auto simp: left_behind_def)
  from snap(2,1) obtain mid idx where t: "tail = mid @ BuildSnapshot idx" "idx_ok idx" "idx_map idx = idx_map (index e)" "index_fits idx"
    "unat (SnapshotOffset (activeHeaderRef e)) = nextOffset e + length mid"
    "unat (SnapshotLength (activeHeaderRef e)) = length (BuildSnapshot idx)"
    "RecordEnd (activeHeaderRef e) = of_nat (nextOffset e)" by (rule tail_okD)
  have s: "mmap e0 = contents f" "efile e0 = f" "closed e0 = False" "mapped e0 = length (contents f)"
    by (subst e0, simp)+
  have act: "activeHeaderRef e0 = (activeHeaderRef e)\<lparr>CRC32 := calculateCRC (activeHeaderRef e)\<rparr>"
    using sh by (simp add: same_headers_def)
  let ?pre = "slots e other @ enc_log fs"
  have len: "length ?pre = nextOffset e" "DataStart \<le> length ?pre" using c(2) ix(1) by simp_all
  let ?e1 = "e0\<lparr>index := idx, nextOffset := length ?pre\<rparr>"
  have rec: "recover e0 = (Inr (), ?e1)"
    using c t s len act by (intro recover_from_snapshot [where f = f and mid = mid]) simp_all
  have sh1: "same_headers ?e1 e" using sh by simp
  have "tail_ok ?e1 tail"
    using snap(1) t len(1) act by (intro tail_okI [where mid = mid and idx = idx]) (simp_all add: has_snapshot_def)
  then have "disk_inv ?e1 fs"
    using c same_headers_slots [OF sh1] same_headers_loses [OF sh1] s(2) act len(1) ix(1)
    by (intro disk_invI [where other = other and tail = tail]) simp_all
  then have "disk_indexed ?e1 fs" using s c(3) t(2,3) ix(2) by (simp add: disk_indexed_def)
  with rec show "\<exists>e1. recover e0 = (Inr (), e1) \<and> disk_indexed e1 fs" by blast
qed

text \<open>Whatever a live engine's file holds, snapshot or not, opening it yields the same log.\<close>

lemma engine_left_behind:
  assumes "engine_inv e fs"
  shows "\<exists>tail. left_behind e fs tail (efile e) \<and> tail_ok e tail"
  using assms unfolding engine_inv_def disk_inv_def left_behind_def by blast

lemma Open_engine:
  assumes inv: "engine_inv e fs"
  shows "\<exists>e'. Open (efile e) = (Inr e', efile e') \<and> engine_inv e' fs"
proof -
  obtain tail where lb: "left_behind e fs tail (efile e)" "tail_ok e tail"
    using engine_left_behind [OF inv] by blast
  show ?thesis
  proof (cases "has_snapshot (activeHeaderRef e)")
    case True
    then show ?thesis
      using Open_snapshot [OF lb(1) True lb(2)] inv engine_inv_simps(6) [OF inv] by (auto elim!: engine_invD)
  next
    case False
    then have "tail = []" using lb(2) by (simp add: tail_ok_def)
    then have "stops (contents (efile e)) (DataStart + length (enc_log fs))"
      using lb(1) by (auto simp: left_behind_def stops_def)
    then show ?thesis using Open_scan [OF lb(1) False] by blast
  qed
qed

end
