(* ===== verification/Engine_Durable.thy ===== *)
theory Engine_Durable
  imports Engine_Recovery
begin

unbundle bit_operations_syntax

text \<open>
  Creating, checkpointing, closing and reopening: what the engine promises about durability.
\<close>

section \<open>A new file\<close>

lemma Create_inv:
  assumes "faults f = []"
  shows "\<exists>e. Create f = (Inr e, efile e) \<and> engine_inv e [] \<and> index e = []"
proof -
  let ?h = "ToBytes NewFileHeader" and ?c0 = "take DataStart (contents f) @ replicate (DataStart - length (contents f)) 0"
  let ?f = "f\<lparr>contents := ?h @ ?h, cursor := DataStart\<rparr>"
  have len: "length ?c0 = DataStart" by simp
  have "write_at HeaderBOffset ?h (write_at HeaderAOffset ?h ?c0) = ?h @ ?h"
    using len by (simp add: write_at_def HeaderAOffset_def HeaderBOffset_def HeaderSize_def DataStart_def)
  moreover have "HeaderBOffset + HeaderSize = DataStart" by (simp add: HeaderBOffset_def HeaderSize_def DataStart_def)
  ultimately have cr: "Create f = (Inr \<lparr>efile = ?f, mapped = DataStart, headerA = NewFileHeader, headerB = NewFileHeader,
      activeHeader = False, index = [], byAgentType = [], nextOffset = DataStart, closed = False\<rparr>, ?f)"
    using assms by (simp add: Create_def lockFile_def os_simps writeHeaderAt_ok)
  let ?e = "\<lparr>efile = ?f, mapped = DataStart, headerA = NewFileHeader, headerB = NewFileHeader,
      activeHeader = False, index = [], byAgentType = [], nextOffset = DataStart, closed = False\<rparr>"
  have v: "Version NewFileHeader = FormatVersion" "SnapshotOffset NewFileHeader = 0"
    by (simp_all add: NewFileHeader_def Let_def)
  have "disk_inv ?e []"
    using v by (intro disk_invI [where other = ?h and tail = "[]"])
      (auto simp: slots_def loses_def tail_ok_def has_snapshot_def activeHeaderRef_def FileHeaderFromBytes_ToBytes DataStart_def HeaderSize_def)
  then have "engine_inv ?e []"
    using assms by (simp add: engine_inv_def types_ok_def log_view_def DataStart_def HeaderSize_def)
  with cr show ?thesis by (intro exI [of _ ?e]) simp
qed

section \<open>Checkpoint\<close>

lemma length_sections: "length (concat (map section_bytes idx)) = sum_list (map (\<lambda>s. 12 + 16 * length (snd s)) idx)"
  by (induction idx) auto

lemma index_fits_blob:
  assumes "idx_ok idx" "length (BuildSnapshot idx) < 2 ^ 32"
  shows "index_fits idx"
proof -
  have b: "length (concat (map section_bytes idx)) < 2 ^ 32"
    using assms live_domains_idx_ok [OF assms(1)] by (simp add: BuildSnapshot_eq snapshot_body_def)
  have "length idx \<le> length (concat (map section_bytes idx))"
    by (induction idx) auto
  moreover have "length m \<le> length (concat (map section_bytes idx))" if "(a, m) \<in> set idx" for a m
    using that by (induction idx) auto
  ultimately show ?thesis using b unfolding index_fits_def by fastforce
qed

definition snapshot_written :: "StorageEngine \<Rightarrow> StorageEngine" where
  "snapshot_written e = (let c = contents (efile e) @ BuildSnapshot (index e)
     in e\<lparr>efile := (efile e)\<lparr>contents := c, cursor := length c\<rparr>, mapped := length c\<rparr>)"

definition checkpointed :: "StorageEngine \<Rightarrow> StorageEngine" where
  "checkpointed e = put_header (buildCheckpointHeader e (length (contents (efile e)))
     (of_nat (length (BuildSnapshot (index e))))) (snapshot_written e)"

lemma buildCheckpointHeader_simps [simp]:
  "CommitID (buildCheckpointHeader e o' n) = CommitID (activeHeaderRef e) + 1"
  "Version (buildCheckpointHeader e o' n) = Version (activeHeaderRef e)"
  "SnapshotOffset (buildCheckpointHeader e o' n) = of_nat o'" "SnapshotLength (buildCheckpointHeader e o' n) = n"
  "RecordEnd (buildCheckpointHeader e o' n) = of_nat (nextOffset e)"
  by (simp_all add: buildCheckpointHeader_def Let_def)

lemma snapshot_written_simps [simp]:
  "index (snapshot_written e) = index e" "nextOffset (snapshot_written e) = nextOffset e"
  "activeHeaderRef (snapshot_written e) = activeHeaderRef e" "closed (snapshot_written e) = closed e"
  "byAgentType (snapshot_written e) = byAgentType e" "activeHeader (snapshot_written e) = activeHeader e"
  "headerA (snapshot_written e) = headerA e" "headerB (snapshot_written e) = headerB e"
  "faults (efile (snapshot_written e)) = faults (efile e)"
  "contents (efile (snapshot_written e)) = contents (efile e) @ BuildSnapshot (index e)"
  "mapped (snapshot_written e) = length (contents (efile e)) + length (BuildSnapshot (index e))"
  by (simp_all add: snapshot_written_def Let_def)

lemma length_write_at_inside: "p + length bs \<le> length c \<Longrightarrow> length (write_at p bs c) = length c"
  by (simp add: write_at_inside)

lemma inactive_slot_le: "inactive_slot e + HeaderSize \<le> DataStart"
  by (simp add: inactive_slot_def HeaderAOffset_def HeaderBOffset_def DataStart_def HeaderSize_def)

lemma header_upd [simp]:
  "inactive_slot (e\<lparr>efile := f\<rparr>) = inactive_slot e" "inactive_slot (e\<lparr>mapped := n\<rparr>) = inactive_slot e"
  "buildCheckpointHeader (e\<lparr>efile := f\<rparr>) = buildCheckpointHeader e"
  "buildCheckpointHeader (e\<lparr>mapped := n\<rparr>) = buildCheckpointHeader e"
  by (simp_all add: inactive_slot_def buildCheckpointHeader_def totalRecordsLocked_def fun_eq_iff)

lemma appendSnapshot_ok:
  assumes "faults (efile e) = []" "DataStart \<le> length (contents (efile e))"
  shows "appendSnapshot (BuildSnapshot (index e)) e = (Inr (), checkpointed e)"
proof -
  let ?hdr = "buildCheckpointHeader e (length (contents (efile e))) (of_nat (length (BuildSnapshot (index e))))"
  have "length (write_at (inactive_slot e) (ToBytes ?hdr) (contents (efile e) @ BuildSnapshot (index e)))
      = length (contents (efile e) @ BuildSnapshot (index e))"
    using assms(2) inactive_slot_le [of e] by (intro length_write_at_inside) simp
  then show ?thesis
    using assms(1)
    by (cases "activeHeader e")
      (simp_all add: appendSnapshot_def os_simps write_at_end writeInactiveHeader_ok checkpointed_def put_header_def
        snapshot_written_def switchHeader_def Let_def)
qed

lemma checkpointed_disk:
  assumes d: "disk_inv e fs" and ix: "idx_ok (index e)" and room: "commit_room e"
    and blob: "length (BuildSnapshot (index e)) < 2 ^ 32"
    and bound: "length (contents (efile e)) + length (BuildSnapshot (index e)) < 2 ^ 63"
  shows "disk_inv (checkpointed e) fs"
proof -
  let ?n = "length (contents (efile e))" and ?b = "BuildSnapshot (index e)"
  let ?hdr = "buildCheckpointHeader e ?n (of_nat (length ?b))" and ?e1 = "snapshot_written e"
  from d obtain other tail where c: "contents (efile e) = slots e other @ enc_log fs @ tail" "length other = HeaderSize"
    "Version (activeHeaderRef e) = FormatVersion" "nextOffset e = DataStart + length (enc_log fs)" "\<forall>f \<in> set fs. frame_ok f"
    by (auto simp: disk_inv_def)
  have sl: "slots ?e1 = slots e" by (simp add: slots_def fun_eq_iff)
  have cont: "contents (efile (checkpointed e)) = slots (checkpointed e) (ToBytes (activeHeaderRef e)) @ enc_log fs @ (tail @ ?b)"
    using put_header_contents [of ?e1 other "enc_log fs @ tail @ ?b" ?hdr] c(1,2) sl by (simp add: checkpointed_def)
  have los: "loses (checkpointed e) (ToBytes (activeHeaderRef e))"
    using put_header_loses [of ?e1 ?hdr] c(3) commit_room_less [OF room] by (simp add: checkpointed_def)
  have act: "activeHeaderRef (checkpointed e) = ?hdr" by (simp add: checkpointed_def)
  have u: "unat (of_nat ?n :: u64) = ?n" "unat (of_nat (length ?b) :: u32) = length ?b"
    using bound blob by (simp_all add: unat_of_nat)
  have "length ?b \<noteq> 0" by (simp add: BuildSnapshot_eq)
  then have "(of_nat (length ?b) :: u32) \<noteq> 0" using u(2) by (metis unat_0)
  moreover have "?n \<noteq> 0" using c(1,2) by (simp add: DataStart_def HeaderSize_def)
  then have "(of_nat ?n :: u64) \<noteq> 0" using u(1) by (metis unat_0)
  ultimately have snap: "has_snapshot ?hdr" by (simp add: has_snapshot_def)
  have "tail_ok (checkpointed e) (tail @ ?b)"
    using snap act ix index_fits_blob [OF ix blob] u c(1,2,4)
    by (intro tail_okI [where mid = tail and idx = "index e"]) (simp_all add: checkpointed_def)
  then show ?thesis
    using cont los c bound act
    by (intro disk_invI [where other = "ToBytes (activeHeaderRef e)" and tail = "tail @ ?b"]) (simp_all add: checkpointed_def)
qed

lemma checkpointed_simps [simp]:
  "index (checkpointed e) = index e" "byAgentType (checkpointed e) = byAgentType e" "closed (checkpointed e) = closed e"
  "faults (efile (checkpointed e)) = faults (efile e)"
  "mapped (checkpointed e) = length (contents (efile e)) + length (BuildSnapshot (index e))"
  by (simp_all add: checkpointed_def)

lemma checkpointed_length:
  "DataStart \<le> length (contents (efile e)) \<Longrightarrow>
     length (contents (efile (checkpointed e))) = length (contents (efile e)) + length (BuildSnapshot (index e))"
  using inactive_slot_le [of "snapshot_written e"]
  by (auto simp: checkpointed_def put_header_def switchHeader_def length_write_at_inside)

lemma checkpointed_inv:
  assumes inv: "engine_inv e fs" and room: "commit_room e"
    and blob: "length (BuildSnapshot (index e)) < 2 ^ 32"
    and bound: "length (contents (efile e)) + length (BuildSnapshot (index e)) < 2 ^ 63"
  shows "engine_inv (checkpointed e) fs" "DataStart \<le> length (contents (efile e))"
proof -
  show len: "DataStart \<le> length (contents (efile e))"
    using inv by (auto elim!: engine_invD)
  show "engine_inv (checkpointed e) fs"
    using checkpointed_disk [OF _ _ room blob bound] inv checkpointed_length [OF len]
    by (simp add: engine_inv_def)
qed

lemma Checkpoint_inv:
  assumes inv: "engine_inv e fs" and room: "commit_room e"
    and blob: "length (BuildSnapshot (index e)) < 2 ^ 32"
    and bound: "length (contents (efile e)) + length (BuildSnapshot (index e)) < 2 ^ 63"
  shows "\<exists>e'. Checkpoint e = (Inr (), e') \<and> engine_inv e' fs"
  using checkpointed_inv [OF assms] appendSnapshot_ok [of e] engine_inv_simps(1,2) [OF inv]
  by (auto simp: Checkpoint_def)

section \<open>Close\<close>

lemma checkpointed_closed: "efile (checkpointed (e\<lparr>closed := b\<rparr>)) = efile (checkpointed e)"
proof -
  have "snapshot_written (e\<lparr>closed := b\<rparr>) = (snapshot_written e)\<lparr>closed := b\<rparr>"
    by (simp add: snapshot_written_def Let_def)
  moreover have "buildCheckpointHeader (e\<lparr>closed := b\<rparr>) = buildCheckpointHeader e"
    by (simp add: buildCheckpointHeader_def totalRecordsLocked_def fun_eq_iff)
  ultimately show ?thesis
    by (simp add: checkpointed_def put_header_def switchHeader_def inactive_slot_def)
qed

lemma Close_ok:
  assumes inv: "engine_inv e fs"
  shows "\<exists>e'. Close e = (Inr (), e') \<and> closed e' \<and> efile e' = efile (checkpointed e)"
proof -
  have len: "DataStart \<le> length (contents (efile e))" using inv by (auto elim!: engine_invD)
  note s = engine_inv_simps(1,2) [OF inv]
  have "appendSnapshot (BuildSnapshot (index e)) (e\<lparr>closed := True\<rparr>) = (Inr (), checkpointed (e\<lparr>closed := True\<rparr>))"
    using appendSnapshot_ok [of "e\<lparr>closed := True\<rparr>"] s len by simp
  then show ?thesis
    using s checkpointed_closed [where e = e and b = True]
    by (auto simp: Close_def shutdownHandles_def unlockFile_def os_simps first_err_def Let_def)
qed

lemma Close_Open:
  assumes inv: "engine_inv e fs" and room: "commit_room e"
    and blob: "length (BuildSnapshot (index e)) < 2 ^ 32"
    and bound: "length (contents (efile e)) + length (BuildSnapshot (index e)) < 2 ^ 63"
  shows "\<exists>e1 e2. Close e = (Inr (), e1) \<and> Open (efile e1) = (Inr e2, efile e2) \<and> engine_inv e2 fs"
  using Close_ok [OF inv] Open_engine [OF checkpointed_inv(1) [OF assms]] by metis

end
