(* ===== verification/Engine_Crash.thy ===== *)
theory Engine_Crash
  imports Engine_Durable
begin

unbundle bit_operations_syntax

text \<open>
  Crashes and failing system calls. A crash in the middle of a batch leaves a prefix of the
  batch's bytes; opening the file then keeps the whole frames of that prefix and cuts the torn
  one. A crash between the two halves of \<open>trimTailSnapshot\<close> leaves a header that names a
  snapshot the file no longer holds; opening then rescans. A failing write leaves the engine as
  it was.
\<close>

section \<open>A torn batch\<close>

text \<open>How many frames of a batch lie within its first \<open>n\<close> bytes.\<close>

fun whole :: "frame list \<Rightarrow> nat \<Rightarrow> nat" where
  "whole [] n = 0"
| "whole (g # gs) n = (if length (enc g) \<le> n then Suc (whole gs (n - length (enc g))) else 0)"

definition silent_after :: "bytes \<Rightarrow> nat \<Rightarrow> bool" where
  "silent_after mm off \<longleftrightarrow> (\<forall>o'. off < o' \<longrightarrow> o' < length mm \<longrightarrow> (\<forall>f. RecordData mm o' \<noteq> Inr f))"

lemma resyncScan_None: "(\<And>o'. from \<le> o' \<Longrightarrow> o' < length mm \<Longrightarrow> \<forall>f. RecordData mm o' \<noteq> Inr f) \<Longrightarrow> resyncScan mm from = None"
proof (induction mm "from" rule: resyncScan.induct)
  case (1 mm "from")
  show ?case
  proof (cases "from < length mm")
    case True
    then obtain err where "RecordData mm from = Inl err" using "1.prems" [of "from"] by (cases "RecordData mm from") auto
    then show ?thesis using "1.IH" [OF True] "1.prems" by (subst resyncScan.simps) simp
  qed (subst resyncScan.simps, simp)
qed

text \<open>A tail shorter than a frame header can hide nothing.\<close>

lemma silent_short: "length mm \<le> off + RecordHeaderSize \<Longrightarrow> silent_after mm off"
  using RecordData_Inr_bound by (fastforce simp: silent_after_def RecordHeaderSize_def)

lemma stops_torn:
  assumes "frame_ok g" "k < length (enc g)" "silent_after (pre @ take k (enc g)) (length pre)"
  shows "stops (pre @ take k (enc g)) (length pre)"
proof (cases "k = 0")
  case True
  then show ?thesis by (simp add: stops_def)
next
  case False
  then have "RecordData (pre @ take k (enc g)) (length pre) = Inl (NewError ErrCorruption)"
    unfolding enc_def using assms(1,2) by (intro RecordData_torn) (simp_all add: frame_ok_def enc_def)
  moreover have "resyncScan (pre @ take k (enc g)) (length pre + 1) = None"
    using assms(3) by (intro resyncScan_None) (auto simp: silent_after_def)
  ultimately show ?thesis by (simp add: stops_def)
qed

lemma take_enc_log:
  assumes "n \<le> length (enc_log gs)"
  shows "\<exists>t. take n (enc_log gs) = enc_log (take (whole gs n) gs) @ t
    \<and> (t = [] \<or> (\<exists>g \<in> set gs. \<exists>k < length (enc g). t = take k (enc g)))"
  using assms
proof (induction gs arbitrary: n)
  case (Cons g gs)
  show ?case
  proof (cases "length (enc g) \<le> n")
    case True
    have "n - length (enc g) \<le> length (enc_log gs)" using Cons.prems by simp
    from Cons.IH [OF this] obtain t where
      "take (n - length (enc g)) (enc_log gs) = enc_log (take (whole gs (n - length (enc g))) gs) @ t"
      "t = [] \<or> (\<exists>g \<in> set gs. \<exists>k < length (enc g). t = take k (enc g))" by blast
    with True show ?thesis by (intro exI [of _ t]) (auto simp: take_append)
  next
    case False
    then have "n < length (enc g)" by simp
    then show ?thesis by (intro exI [of _ "take n (enc g)"] conjI disjI2 bexI [of _ g] exI [of _ n]) simp_all
  qed
qed simp

lemma stops_end: "stops mm (length mm)"
  by (simp add: stops_def)

lemma Open_torn_batch:
  assumes inv: "engine_inv e fs" and no: "\<not> has_snapshot (activeHeaderRef e)"
    and gs: "\<forall>g \<in> set gs. frame_ok g" "n \<le> length (enc_log gs)"
    and f: "f = (efile e)\<lparr>contents := contents (efile e) @ take n (enc_log gs), cursor := cur\<rparr>"
    and bound: "length (contents (efile e)) + n < 2 ^ 63"
    and silent: "silent_after (contents f) (length (contents (efile e)) + length (enc_log (take (whole gs n) gs)))"
  shows "\<exists>e'. Open f = (Inr e', efile e') \<and> engine_inv e' (fs @ take (whole gs n) gs)"
proof -
  let ?gs = "take (whole gs n) gs"
  obtain other tail where c: "contents (efile e) = slots e other @ enc_log fs @ tail" "length other = HeaderSize"
    "loses e other" "tail_ok e tail" "Version (activeHeaderRef e) = FormatVersion" "\<forall>f \<in> set fs. frame_ok f"
    using inv by (rule engine_invD)
  have "tail = []" using c(4) no by (simp add: tail_ok_def)
  obtain t where t: "take n (enc_log gs) = enc_log ?gs @ t" "t = [] \<or> (\<exists>g \<in> set gs. \<exists>k < length (enc g). t = take k (enc g))"
    using take_enc_log [OF gs(2)] by blast
  have cont: "contents f = slots e other @ enc_log (fs @ ?gs) @ t"
    using f c(1) \<open>tail = []\<close> t(1) by simp
  let ?pre = "slots e other @ enc_log (fs @ ?gs)"
  have len: "length (contents (efile e)) + length (enc_log ?gs) = length ?pre" "length ?pre = DataStart + length (enc_log (fs @ ?gs))"
    using c(1,2) \<open>tail = []\<close> by simp_all
  have "stops (?pre @ t) (length ?pre)"
    using t(2)
  proof (elim disjE bexE exE conjE)
    assume "t = []"
    then show ?thesis by (simp only: append_Nil2 stops_end)
  next
    fix g k assume g: "g \<in> set gs" "k < length (enc g)" "t = take k (enc g)"
    have "silent_after (?pre @ t) (length ?pre)" using silent [unfolded len(1)] cont by simp
    then show ?thesis using g gs(1) by (simp only: stops_torn)
  qed
  then have "stops (contents f) (DataStart + length (enc_log (fs @ ?gs)))" using cont len(2) by simp
  moreover have "left_behind e (fs @ ?gs) t f"
  proof -
    have "length (contents f) < 2 ^ 63" using f bound gs(2) by simp
    moreover have "\<forall>g \<in> set (fs @ ?gs). frame_ok g" using c(6) gs(1) by (auto dest: in_set_takeD)
    moreover have "faults f = []" using f engine_inv_simps(1) [OF inv] by simp
    ultimately show ?thesis using cont c unfolding left_behind_def by blast
  qed
  ultimately show ?thesis using Open_scan [OF _ no] by blast
qed

section \<open>A snapshot that is named but gone\<close>

lemma loadSnapshot_gone:
  assumes "DataStart \<le> unat (SnapshotOffset (activeHeaderRef e))"
    and "length (mmap e) < unat (SnapshotOffset (activeHeaderRef e)) + unat (SnapshotLength (activeHeaderRef e))"
    and "unat (SnapshotOffset (activeHeaderRef e)) + unat (SnapshotLength (activeHeaderRef e)) < 2 ^ 63"
  shows "loadSnapshot e = Inl (NewError ErrCorruption)"
proof -
  let ?h = "activeHeaderRef e"
  have "unat (SnapshotOffset ?h + ucast (SnapshotLength ?h)) = unat (SnapshotOffset ?h) + unat (SnapshotLength ?h)"
    using assms(3) by (intro snapshot_end(2)) simp_all
  then have "sint (SnapshotOffset ?h + ucast (SnapshotLength ?h)) = int (unat (SnapshotOffset ?h) + unat (SnapshotLength ?h))"
    using assms(3) sint_small by metis
  then have "sint (SnapshotOffset ?h + ucast (SnapshotLength ?h)) > int (length (mmap e))"
    using assms(2) by linarith
  then show ?thesis by (simp only: loadSnapshot_def Let_def) simp
qed

text \<open>The active header rewritten in place without its snapshot.\<close>

definition cleared_header :: "StorageEngine \<Rightarrow> FileHeader" where
  "cleared_header e = (let h = (activeHeaderRef e)\<lparr>SnapshotOffset := 0, SnapshotLength := 0\<rparr> in h\<lparr>CRC32 := calculateCRC h\<rparr>)"

definition cleared :: "StorageEngine \<Rightarrow> bytes \<Rightarrow> bytes \<Rightarrow> StorageEngine" where
  "cleared e other rest = (let p = (if activeHeader e then HeaderSize else 0);
      e = e\<lparr>efile := (efile e)\<lparr>contents := (if activeHeader e then other @ ToBytes (cleared_header e)
         else ToBytes (cleared_header e) @ other) @ rest, cursor := p + HeaderSize\<rparr>\<rparr>
    in if activeHeader e then e\<lparr>headerB := cleared_header e\<rparr> else e\<lparr>headerA := cleared_header e\<rparr>)"

lemma clearActiveSnapshot_ok:
  assumes "faults (efile e) = []" "contents (efile e) = slots e other @ rest" "length other = HeaderSize"
  shows "clearActiveSnapshot e = (Inr (), cleared e other rest)"
  using assms
  by (cases "activeHeader e") (simp_all add: clearActiveSnapshot_def writeHeaderAt_ok write_at_def slots_def cleared_def
      cleared_header_def activeHeaderRef_def Let_def)

lemma cleared_simps [simp]:
  "index (cleared e other rest) = index e" "nextOffset (cleared e other rest) = nextOffset e"
  "mapped (cleared e other rest) = mapped e" "closed (cleared e other rest) = closed e"
  "faults (efile (cleared e other rest)) = faults (efile e)"
  "activeHeader (cleared e other rest) = activeHeader e"
  "SnapshotOffset (activeHeaderRef (cleared e other rest)) = 0"
  "Version (activeHeaderRef (cleared e other rest)) = Version (activeHeaderRef e)"
  "CommitID (activeHeaderRef (cleared e other rest)) = CommitID (activeHeaderRef e)"
  "contents (efile (cleared e other rest)) = slots (cleared e other rest) other @ rest"
  by (simp_all add: cleared_def activeHeaderRef_def cleared_header_def slots_def Let_def)

lemma loses_alt: "loses e other \<longleftrightarrow> (\<forall>h. FileHeaderFromBytes other = Inr h \<longrightarrow>
     (if activeHeader e then CommitID h < CommitID (activeHeaderRef e) else CommitID h \<le> CommitID (activeHeaderRef e)))"
  by (auto simp: loses_def activeHeaderRef_def)

lemma Open_gone_snapshot:
  assumes lb: "left_behind e fs [] f" and snap: "has_snapshot (activeHeaderRef e)"
    and h: "DataStart \<le> unat (SnapshotOffset (activeHeaderRef e))"
      "length (contents f) < unat (SnapshotOffset (activeHeaderRef e)) + unat (SnapshotLength (activeHeaderRef e))"
      "unat (SnapshotOffset (activeHeaderRef e)) + unat (SnapshotLength (activeHeaderRef e)) < 2 ^ 63"
  shows "\<exists>e'. Open f = (Inr e', efile e') \<and> engine_inv e' fs"
proof (rule Open_via_recover [OF lb])
  fix e0 assume e0: "e0 = opened f (headerA e0) (headerB e0) (activeHeader e)" and sh: "same_headers e0 e"
  from lb obtain other where c: "contents f = slots e other @ enc_log fs" "length other = HeaderSize"
    "faults f = []" "\<forall>g \<in> set fs. frame_ok g" "length (contents f) < 2 ^ 63" "loses e other"
    "Version (activeHeaderRef e) = FormatVersion" by (auto simp: left_behind_def)
  have s: "mmap e0 = contents f" "index e0 = []" "efile e0 = f" "closed e0 = False" "mapped e0 = length (contents f)"
    by (subst e0, simp)+
  have act: "activeHeaderRef e0 = (activeHeaderRef e)\<lparr>CRC32 := calculateCRC (activeHeaderRef e)\<rparr>"
    using sh by (simp add: same_headers_def)
  let ?n = "DataStart + length (enc_log fs)"
  have len: "length (contents f) = ?n" using c(1,2) by simp
  have "loadSnapshot e0 = Inl (NewError ErrCorruption)"
    using h s(1) act by (intro loadSnapshot_gone) simp_all
  moreover have "e0\<lparr>index := []\<rparr> = e0" using s(2) by simp
  ultimately have "restoreFromSnapshot e0 = Inr (DataStart, False, True, e0)"
    using snap act by (simp add: restoreFromSnapshot_def has_snapshot_def Let_def)
  moreover have "scanRecords DataStart e0 = (Inr (?n, [] \<noteq> ([] :: bytes)), e0\<lparr>index := replay_idx DataStart fs []\<rparr>)"
    using c len s stops_end [of "contents f"] by (intro scanRecords_log [where e = e and other = other and f = f]) simp_all
  moreover let ?e1 = "e0\<lparr>index := replay_idx DataStart fs [], nextOffset := ?n\<rparr>"
  have sh1: "same_headers ?e1 e" using sh by simp
  have cl: "clearActiveSnapshot ?e1 = (Inr (), cleared ?e1 other (enc_log fs))"
    using c s same_headers_slots [OF sh1] by (intro clearActiveSnapshot_ok) simp_all
  ultimately have "recover e0 = (Inr (), cleared ?e1 other (enc_log fs))"
    by (simp add: recover_def Let_def)
  moreover have "disk_indexed (cleared ?e1 other (enc_log fs)) fs"
  proof -
    let ?e2 = "cleared ?e1 other (enc_log fs)"
    have "loses ?e2 other" using c(6) sh act by (simp add: loses_alt same_headers_def)
    moreover have "tail_ok ?e2 []" by (simp add: tail_ok_def has_snapshot_def)
    ultimately have "disk_inv ?e2 fs"
      using c act len by (intro disk_invI [where other = other and tail = "[]"]) simp_all
    then show ?thesis
      using c(2,3) s len replay_idx_props [where idx = "[]" and off = DataStart and fs = fs] by (simp add: disk_indexed_def)
  qed
  ultimately show "\<exists>e1. recover e0 = (Inr (), e1) \<and> disk_indexed e1 fs" by blast
qed

text \<open>The crash window of \<open>trimTailSnapshot\<close>: the file is cut, the new header is not yet written.\<close>

lemma Open_trim_window:
  assumes inv: "engine_inv e fs" and snap: "has_snapshot (activeHeaderRef e)"
    and f: "f = (efile e)\<lparr>contents := take (nextOffset e) (contents (efile e))\<rparr>"
  shows "\<exists>e'. Open f = (Inr e', efile e') \<and> engine_inv e' fs"
proof -
  obtain other tail where c: "contents (efile e) = slots e other @ enc_log fs @ tail" "length other = HeaderSize"
    "loses e other" "tail_ok e tail" "Version (activeHeaderRef e) = FormatVersion"
    "nextOffset e = DataStart + length (enc_log fs)" "\<forall>f \<in> set fs. frame_ok f"
    "length (contents (efile e)) < 2 ^ 63"
    using inv by (rule engine_invD)
  from c(4) snap obtain mid idx where t: "tail = mid @ BuildSnapshot idx"
    "unat (SnapshotOffset (activeHeaderRef e)) = nextOffset e + length mid"
    "unat (SnapshotLength (activeHeaderRef e)) = length (BuildSnapshot idx)" by (rule tail_okD)
  have cont: "contents f = slots e other @ enc_log fs @ []" using f c(1,2,6) by simp
  have lb: "left_behind e fs [] f"
    using cont c f engine_inv_simps(1) [OF inv] unfolding left_behind_def by auto
  have "0 < length (BuildSnapshot idx)" by (simp add: BuildSnapshot_eq)
  then show ?thesis
    using t c cont by (intro Open_gone_snapshot [OF lb snap]) simp_all
qed

section \<open>Failing system calls\<close>

lemma truncateTail_frame:
  "truncateTail n e = (r, e') \<Longrightarrow> index e' = index e \<and> byAgentType e' = byAgentType e \<and> nextOffset e' = nextOffset e
     \<and> activeHeaderRef e' = activeHeaderRef e \<and> closed e' = closed e"
  by (auto simp: truncateTail_def Let_def activeHeaderRef_def split: prod.splits sum.splits)

lemma truncateTail_Inr:
  assumes t: "truncateTail n e = (Inr u, e')" and n: "n \<le> length (contents (efile e))"
  shows "contents (efile e') = take n (contents (efile e))"
proof -
  obtain r1 f1 where u: "UnmapFile (mapped e) (efile e) = (r1, f1)" by (cases "UnmapFile (mapped e) (efile e)")
  obtain r2 f2 where tr: "f_truncate n f1 = (r2, f2)" by (cases "f_truncate n f1")
  obtain r3 f3 where sy: "f_sync f2 = (r3, f3)" by (cases "f_sync f2")
  obtain r4 f4 where mp: "MapFile n f3 = (r4, f4)" by (cases "MapFile n f3")
  from t obtain v1 v2 v3 v4 where r: "r1 = Inr v1" "r2 = Inr v2" "r3 = Inr v3" "r4 = Inr v4"
    by (cases r1; cases r2; cases r3; cases r4) (simp_all add: truncateTail_def u tr sy mp)
  then have "efile e' = f4" using t by (auto simp: truncateTail_def u tr sy mp)
  moreover have "contents f4 = contents f2" using MapFile_contents [OF mp] f_sync_contents [OF sy] by simp
  moreover have "contents f2 = take n (contents (efile e))"
    using f_truncate_Inr [of n f1] tr r(2) UnmapFile_contents [OF u] n by simp
  ultimately show ?thesis by simp
qed

lemma undoAppend_frame:
  assumes "undoAppend start cause e = (err, e')" "start \<le> length (contents (efile e))"
  shows "index e' = index e \<and> byAgentType e' = byAgentType e \<and> nextOffset e' = nextOffset e
     \<and> activeHeaderRef e' = activeHeaderRef e \<and> closed e' = closed e"
    "err = Joined [cause] \<and> contents (efile e') = take start (contents (efile e)) \<or> (\<exists>undo. err = Joined [cause, undo])"
  using assms truncateTail_frame [of start e] truncateTail_Inr [of start e]
  by (auto simp: undoAppend_def split: prod.splits sum.splits)

text \<open>A batch that fails half-way leaves every in-memory structure as it was, and unless cutting
  the file back failed too (the second error of the joined pair) also the file.\<close>

lemma append_loop_fail:
  assumes "append_loop start rs offs e = (Inl err, e')" "start \<le> length (contents (efile e))"
  shows "index e' = index e \<and> byAgentType e' = byAgentType e \<and> nextOffset e' = nextOffset e
     \<and> activeHeaderRef e' = activeHeaderRef e \<and> closed e' = closed e
     \<and> (contents (efile e') = take start (contents (efile e)) \<or> (\<exists>cause undo. err = Joined [cause, undo]))"
  using assms
proof (induction rs arbitrary: offs e)
  case (Cons r rs)
  let ?x = "EncodeRecord (r_agent r) (r_type r) 0 (r_id r) (r_data r)"
  obtain sr f1 where sk: "f_seek_end (efile e) = (sr, f1)" by (cases "f_seek_end (efile e)")
  note c1 = f_seek_end_contents [OF sk]
  show ?case
  proof (cases sr)
    case (Inl a)
    then have "undoAppend start (Error ErrIO (Some a)) (e\<lparr>efile := f1\<rparr>) = (err, e')"
      using Cons.prems(1) sk by (auto simp: Let_def split: prod.splits)
    from undoAppend_frame [OF this] show ?thesis using Cons.prems(2) c1 by auto
  next
    case (Inr off)
    then have cur: "cursor f1 = length (contents (efile e))" using f_seek_end_Inr sk by blast
    obtain wr f2 where wr: "f_write ?x f1 = (wr, f2)" by (cases "f_write ?x f1")
    show ?thesis
    proof (cases wr)
      case (Inl a)
      then have u: "undoAppend start (Error ErrIO (Some a)) (e\<lparr>efile := f2\<rparr>) = (err, e')"
        using Cons.prems(1) sk Inr wr by (auto simp: Let_def split: prod.splits)
      have "\<exists>y. contents f2 = contents (efile e) @ y"
        using f_write_Inl wr Inl cur c1 write_at_end by (metis append_Nil2)
      then show ?thesis using undoAppend_frame [OF u] Cons.prems(2) by auto
    next
      case (Inr v)
      have c2: "contents f2 = contents (efile e) @ ?x"
        using f_write_Inr wr Inr cur c1 write_at_end by metis
      have "append_loop start rs (offs @ [of_nat off]) (e\<lparr>efile := f2\<rparr>) = (Inl err, e')"
        using Cons.prems(1) sk \<open>sr = Inr off\<close> wr Inr by (simp add: Let_def)
      from Cons.IH [OF this] show ?thesis using Cons.prems(2) c2 by auto
    qed
  qed
qed simp

lemma appendFrames_fail:
  assumes "appendFrames rs e = (Inl err, e')"
  shows "index e' = index e \<and> byAgentType e' = byAgentType e \<and> nextOffset e' = nextOffset e
     \<and> activeHeaderRef e' = activeHeaderRef e \<and> closed e' = closed e
     \<and> (contents (efile e') = contents (efile e) \<or> (\<exists>cause undo. err = Joined [cause, undo]))"
proof -
  obtain sr f1 where sk: "f_seek_end (efile e) = (sr, f1)" by (cases "f_seek_end (efile e)")
  note c1 = f_seek_end_contents [OF sk]
  show ?thesis
  proof (cases sr)
    case (Inl a)
    then show ?thesis using assms sk c1 by (auto simp: appendFrames_def)
  next
    case (Inr n)
    then have "n = length (contents (efile e))" using f_seek_end_Inr sk by blast
    then show ?thesis
      using assms sk Inr c1 append_loop_fail [of n rs "[]" "e\<lparr>efile := f1\<rparr>" err e'] by (auto simp: appendFrames_def)
  qed
qed

section \<open>A zero-filled tail\<close>

lemma RecordData_blank: "RecordData (pre @ replicate 26 0 @ post) (length pre) = Inl Io_EOF"
proof -
  have "replicate 26 (0::byte) = frame_head 0 0 0 0 0 @ replicate 4 0"
    by (simp add: blank_frame_head flip: replicate_add)
  then show ?thesis
    using RecordData_at [of "replicate 4 0" pre 0 0 0 0 0 post] by (simp add: blank_head_def)
qed

lemma scan_blank:
  assumes "\<forall>g \<in> set fs. frame_ok g"
  shows "scan_loop (pre @ enc_log fs @ replicate 26 0 @ post) so (length pre) []
    = (Inr (length pre + length (enc_log fs), False), replay_idx (length pre) fs [])"
proof -
  have "RecordData ((pre @ enc_log fs) @ replicate 26 0 @ post) (length (pre @ enc_log fs)) = Inl Io_EOF"
    by (rule RecordData_blank)
  then show ?thesis
    using scan_log [OF assms, of pre "replicate 26 0 @ post" so "[]"] by simp (subst scan_loop.simps, simp)
qed

end
