(* ===== verification/Record_Store.thy ===== *)
theory Record_Store
  imports Engine_Crash
begin

text \<open>
  What the layers above the engine rely on: a keyed store of typed payloads. The locale states the
  contract, with the laws every caller uses proved once from it; the interpretation shows that the
  storage engine on a healthy disk provides it, the abstract store being what its log denotes.
  \<open>room s n\<close> says that \<open>n\<close> more bytes of frames fit into the file.
\<close>

type_synonym store = "key \<rightharpoonup> byte \<times> bytes"

definition put_entry :: "RecordEntry \<Rightarrow> store \<Rightarrow> store" where
  "put_entry r m = m((r_agent r, r_id r) \<mapsto> (r_type r, r_data r))"

definition put_all :: "RecordEntry list \<Rightarrow> store \<Rightarrow> store" where
  "put_all rs m = fold put_entry rs m"

definition del_all :: "u64 \<Rightarrow> u64 list \<Rightarrow> store \<Rightarrow> store" where
  "del_all a ids m = (\<lambda>(b, j). if b = a \<and> j \<in> set ids then None else m (b, j))"

definition entry_ok :: "RecordEntry \<Rightarrow> bool" where
  "entry_ok r \<longleftrightarrow> frame_ok (frame_of r)"

definition batch_size :: "RecordEntry list \<Rightarrow> nat" where
  "batch_size rs = (\<Sum>r \<leftarrow> rs. RecordHeaderSize + length (r_data r))"

lemma batch_size_simps [simp]: "batch_size [] = 0"
  "batch_size (r # rs) = RecordHeaderSize + length (r_data r) + batch_size rs"
  by (simp_all add: batch_size_def)

lemma put_all_simps [simp]: "put_all [] m = m" "put_all (r # rs) m = put_all rs (put_entry r m)"
  by (simp_all add: put_all_def)

lemma put_all_other: "k \<notin> (\<lambda>r. (r_agent r, r_id r)) ` set rs \<Longrightarrow> put_all rs m k = m k"
  by (induction rs arbitrary: m) (auto simp: put_entry_def)

locale record_store =
  fixes rep :: "'s \<Rightarrow> store \<Rightarrow> bool"
    and room :: "'s \<Rightarrow> nat \<Rightarrow> bool"
    and wr_batch :: "RecordEntry list \<Rightarrow> 's \<Rightarrow> (goerr + 'o) \<times> 's"
    and del_batch :: "u64 \<Rightarrow> u64 list \<Rightarrow> 's \<Rightarrow> (goerr + nat) \<times> 's"
    and rd :: "'s \<Rightarrow> u64 \<Rightarrow> u64 \<Rightarrow> goerr + byte \<times> bytes"
    and has :: "'s \<Rightarrow> u64 \<Rightarrow> u64 \<Rightarrow> bool"
    and ids_of :: "'s \<Rightarrow> u64 \<Rightarrow> byte \<Rightarrow> u64 list"
  assumes read_law: "rep s m \<Longrightarrow>
      rd s a i = (case m (a, i) of None \<Rightarrow> Inl (NewError ErrNotFound) | Some r \<Rightarrow> Inr r)"
    and has_law: "rep s m \<Longrightarrow> has s a i \<longleftrightarrow> m (a, i) \<noteq> None"
    and ids_law: "rep s m \<Longrightarrow> sorted (ids_of s a t) \<and> distinct (ids_of s a t)
      \<and> set (ids_of s a t) = {i. \<exists>d. m (a, i) = Some (t, d)}"
    and write_law: "rep s m \<Longrightarrow> room s (batch_size rs + n) \<Longrightarrow> \<forall>r \<in> set rs. entry_ok r \<Longrightarrow>
      \<exists>out s'. wr_batch rs s = (Inr out, s') \<and> rep s' (put_all rs m) \<and> room s' n"
    and delete_law: "rep s m \<Longrightarrow> room s (RecordHeaderSize * length ids + n) \<Longrightarrow>
      \<exists>s'. del_batch a ids s = (Inr (length (filter (\<lambda>i. m (a, i) \<noteq> None) ids)), s')
        \<and> rep s' (del_all a ids m) \<and> room s' n"
begin

lemma rep_unique:
  assumes "rep s m" "rep s m'"
  shows "m = m'"
proof
  fix k :: key
  obtain a i where k: "k = (a, i)" by (cases k)
  show "m k = m' k"
    using read_law [OF assms(1), of a i] read_law [OF assms(2), of a i]
    by (cases "m k"; cases "m' k") (auto simp: k)
qed

text \<open>A key the two maps agree on reads the same in both states.\<close>

lemma read_frame: "rep s m \<Longrightarrow> rep s' m' \<Longrightarrow> m' (a, i) = m (a, i) \<Longrightarrow> rd s' a i = rd s a i"
  using read_law [of s m a i] read_law [of s' m' a i] by simp

lemma read_frame_put:
  "rep s m \<Longrightarrow> rep s' (put_all rs m) \<Longrightarrow> (b, i) \<notin> (\<lambda>r. (r_agent r, r_id r)) ` set rs \<Longrightarrow> rd s' b i = rd s b i"
  by (erule read_frame, assumption, erule put_all_other)

lemma read_frame_del: "rep s m \<Longrightarrow> rep s' (del_all a ids m) \<Longrightarrow> b \<noteq> a \<or> i \<notin> set ids \<Longrightarrow> rd s' b i = rd s b i"
  by (erule read_frame, assumption) (auto simp: del_all_def)

lemma write_read:
  assumes "rep s m" "room s (batch_size [r])" "entry_ok r"
  shows "\<exists>out s'. wr_batch [r] s = (Inr out, s') \<and> rd s' (r_agent r) (r_id r) = Inr (r_type r, r_data r)
    \<and> (\<forall>a i. (a, i) \<noteq> (r_agent r, r_id r) \<longrightarrow> rd s' a i = rd s a i)"
proof -
  obtain out s' where w: "wr_batch [r] s = (Inr out, s')" "rep s' (put_entry r m)"
    using write_law [OF assms(1), of "[r]" 0] assms(2,3) by auto
  have "rd s' a i = rd s a i" if "(a, i) \<noteq> (r_agent r, r_id r)" for a i
    using read_law [OF assms(1), of a i] read_law [OF w(2), of a i] that by (auto simp: put_entry_def)
  moreover have "rd s' (r_agent r) (r_id r) = Inr (r_type r, r_data r)"
    using read_law [OF w(2), of "r_agent r" "r_id r"] by (simp add: put_entry_def)
  ultimately show ?thesis using w(1) by blast
qed

lemma delete_read:
  assumes "rep s m" "room s (RecordHeaderSize * length ids)"
  shows "\<exists>n s'. del_batch a ids s = (Inr n, s') \<and> (\<forall>i \<in> set ids. rd s' a i = Inl (NewError ErrNotFound))
    \<and> (\<forall>b i. b \<noteq> a \<or> i \<notin> set ids \<longrightarrow> rd s' b i = rd s b i)"
proof -
  obtain n s' where d: "del_batch a ids s = (Inr n, s')" "rep s' (del_all a ids m)"
    using delete_law [OF assms(1), of ids 0 a] assms(2) by auto
  have "rd s' b i = rd s b i" if "b \<noteq> a \<or> i \<notin> set ids" for b i
    using read_law [OF assms(1), of b i] read_law [OF d(2), of b i] that by (auto simp: del_all_def)
  moreover have "rd s' a i = Inl (NewError ErrNotFound)" if "i \<in> set ids" for i
    using read_law [OF d(2), of a i] that by (simp add: del_all_def)
  ultimately show ?thesis using d(1) by blast
qed

lemma ids_after_write:
  assumes "rep s m" "room s (batch_size [r])" "entry_ok r" "m (r_agent r, r_id r) = None"
  shows "\<exists>out s'. wr_batch [r] s = (Inr out, s')
    \<and> ids_of s' (r_agent r) (r_type r) = insort (r_id r) (ids_of s (r_agent r) (r_type r))"
proof -
  obtain out s' where w: "wr_batch [r] s = (Inr out, s')" "rep s' (put_entry r m)"
    using write_law [OF assms(1), of "[r]" 0] assms(2,3) by auto
  let ?old = "ids_of s (r_agent r) (r_type r)" and ?new = "ids_of s' (r_agent r) (r_type r)"
  note old = ids_law [OF assms(1), of "r_agent r" "r_type r"] and n = ids_law [OF w(2), of "r_agent r" "r_type r"]
  have "r_id r \<notin> set ?old" using old assms(4) by auto
  then have "sorted (insort (r_id r) ?old)" "distinct (insort (r_id r) ?old)"
    using old by (auto simp: sorted_insort distinct_insort)
  moreover have "set ?new = set (insort (r_id r) ?old)"
    using old n assms(4) by (auto simp: put_entry_def set_insort_key)
  ultimately have "?new = insort (r_id r) ?old" using n by (intro sorted_distinct_set_unique) auto
  with w(1) show ?thesis by blast
qed

end

section \<open>The engine is such a store\<close>

definition view_of :: "frame list \<Rightarrow> store" where
  "view_of fs = (\<lambda>k. map_option (\<lambda>f. (f_type f, f_data f)) (log_view fs k))"

definition engine_rep :: "StorageEngine \<Rightarrow> store \<Rightarrow> bool" where
  "engine_rep e m \<longleftrightarrow> (\<exists>fs. engine_inv e fs \<and> m = view_of fs)"

definition engine_room :: "StorageEngine \<Rightarrow> nat \<Rightarrow> bool" where
  "engine_room e n \<longleftrightarrow> trim_room e \<and> length (contents (efile e)) + n < 2 ^ 63"

lemma view_of_write: "view_of (fs @ map frame_of rs) = put_all rs (view_of fs)"
proof (induction rs arbitrary: fs)
  case (Cons r rs)
  have "view_of (fs @ [frame_of r]) = put_entry r (view_of fs)"
    by (auto simp: view_of_def log_view_append view_step_def put_entry_def fun_eq_iff)
  then show ?case using Cons.IH [of "fs @ [frame_of r]"] by simp
qed simp

lemma view_of_dead: "view_of (fs @ dead_frames (log_view fs) a ids) = del_all a ids (view_of fs)"
  by (auto simp: view_of_def log_view_dead del_all_def fun_eq_iff)

lemma length_enc_log_frames: "length (enc_log (map frame_of rs)) = batch_size rs"
  by (induction rs) (simp_all add: frame_of_def)

lemma length_enc_log_dead: "length (enc_log (dead_frames v a ids)) \<le> RecordHeaderSize * length ids"
  by (induction ids) (auto split: option.splits simp: tomb_def)

lemma engine_inv_nextOffset: "engine_inv e fs \<Longrightarrow> nextOffset e \<le> length (contents (efile e))"
  by (auto elim!: engine_invD)

lemma WriteRecordBatch_law:
  assumes "engine_inv e fs" "engine_room e (batch_size rs + n)" "\<forall>r \<in> set rs. entry_ok r"
  shows "\<exists>e'. WriteRecordBatch rs e = (Inr (log_offsets (nextOffset e) (map frame_of rs)), e')
    \<and> engine_inv e' (fs @ map frame_of rs) \<and> engine_room e' n"
proof -
  have "nextOffset e + length (enc_log (map frame_of rs)) < 2 ^ 63"
    using engine_inv_nextOffset [OF assms(1)] assms(2) by (simp add: engine_room_def length_enc_log_frames)
  with writeRecordBatch_inv [OF assms(1), of rs] assms(2,3) obtain e' where
    e': "writeRecordBatch rs e = (Inr (log_offsets (nextOffset e) (map frame_of rs)), e')"
    "engine_inv e' (fs @ map frame_of rs)" "trim_room e'"
    "length (contents (efile e')) \<le> length (contents (efile e)) + batch_size rs"
    by (auto simp: engine_room_def entry_ok_def length_enc_log_frames)
  then show ?thesis
    using engine_inv_simps(2) [OF assms(1)] assms(2) by (auto simp: WriteRecordBatch_def engine_room_def)
qed

lemma DeleteRecordBatch_law:
  assumes "engine_inv e fs" "engine_room e (RecordHeaderSize * length ids + n)"
  shows "\<exists>e'. DeleteRecordBatch a ids e = (Inr (length (live_ids (log_view fs) a ids)), e')
    \<and> engine_inv e' (fs @ dead_frames (log_view fs) a ids) \<and> engine_room e' n"
proof -
  note len = length_enc_log_dead [of "log_view fs" a ids]
  have "nextOffset e + length (enc_log (dead_frames (log_view fs) a ids)) < 2 ^ 63"
    using engine_inv_nextOffset [OF assms(1)] assms(2) len by (simp add: engine_room_def)
  with deleteRecordBatch_inv [OF assms(1), of a ids] assms(2) obtain e' where
    e': "deleteRecordBatchLocked a ids e = (Inr (length (live_ids (log_view fs) a ids)), e')"
    "engine_inv e' (fs @ dead_frames (log_view fs) a ids)" "trim_room e'"
    "length (contents (efile e')) \<le> length (contents (efile e)) + length (enc_log (dead_frames (log_view fs) a ids))"
    by (auto simp: engine_room_def)
  then show ?thesis
    using engine_inv_simps(2) [OF assms(1)] assms(2) len by (auto simp: DeleteRecordBatch_def engine_room_def)
qed

interpretation eng: record_store engine_rep engine_room WriteRecordBatch DeleteRecordBatch ReadRecord Contains IndexByType
proof
  fix s m a i t
  show "engine_rep s m \<Longrightarrow> ReadRecord s a i = (case m (a, i) of None \<Rightarrow> Inl (NewError ErrNotFound) | Some r \<Rightarrow> Inr r)"
    by (auto simp: engine_rep_def view_of_def ReadRecord_view split: option.splits)
  show "engine_rep s m \<Longrightarrow> Contains s a i \<longleftrightarrow> m (a, i) \<noteq> None"
    by (auto simp: engine_rep_def view_of_def Contains_view)
  show "engine_rep s m \<Longrightarrow> sorted (IndexByType s a t) \<and> distinct (IndexByType s a t)
      \<and> set (IndexByType s a t) = {i. \<exists>d. m (a, i) = Some (t, d)}"
    by (auto simp: engine_rep_def view_of_def IndexByType_view)
next
  fix s m rs n
  assume "engine_rep s m" "engine_room s (batch_size rs + n)" "\<forall>r \<in> set rs. entry_ok r"
  then show "\<exists>out s'. WriteRecordBatch rs s = (Inr out, s') \<and> engine_rep s' (put_all rs m) \<and> engine_room s' n"
    using WriteRecordBatch_law view_of_write unfolding engine_rep_def by metis
next
  fix s m and ids :: "u64 list" and n a
  assume "engine_rep s m" "engine_room s (RecordHeaderSize * length ids + n)"
  then obtain fs where fs: "engine_inv s fs" "m = view_of fs" by (auto simp: engine_rep_def)
  have "live_ids (log_view fs) a ids = filter (\<lambda>i. m (a, i) \<noteq> None) ids"
    by (simp add: live_ids_def fs(2) view_of_def)
  then show "\<exists>s'. DeleteRecordBatch a ids s = (Inr (length (filter (\<lambda>i. m (a, i) \<noteq> None) ids)), s')
        \<and> engine_rep s' (del_all a ids m) \<and> engine_room s' n"
    using DeleteRecordBatch_law [OF fs(1)] \<open>engine_room s (RecordHeaderSize * length ids + n)\<close> view_of_dead fs
    unfolding engine_rep_def by metis
qed

lemma WriteRecord_batch:
  "WriteRecord a t i d e = (case WriteRecordBatch [\<lparr>r_agent = a, r_type = t, r_id = i, r_data = d\<rparr>] e of
     (Inl err, e) \<Rightarrow> (Inl err, e) | (Inr offsets, e) \<Rightarrow> (Inr (hd offsets), e))"
  by (simp add: WriteRecord_def WriteRecordBatch_def)

lemma DeleteRecord_batch:
  "DeleteRecord a i e = (case DeleteRecordBatch a [i] e of (Inl err, e) \<Rightarrow> (Inl err, e) | (Inr n, e) \<Rightarrow> (Inr (n > 0), e))"
  by (simp add: DeleteRecord_def DeleteRecordBatch_def)

end
