(* ===== verification/Engine_Compact.thy ===== *)
theory Engine_Compact
  imports Record_Store
begin

text \<open>
  Compaction: \<open>Compact e f\<close> writes the live records of \<open>e\<close> into the new file \<open>f\<close>, in batches, then
  checkpoints and closes it. Opening \<open>f\<close> afterwards gives a store with exactly the records of \<open>e\<close>,
  none of the dead bytes. The size of a snapshot is bounded by the number of live records.
\<close>

section \<open>The size of a snapshot\<close>

lemma dom_idx_map_Cons:
  assumes "a \<notin> fst ` set idx"
  shows "dom (idx_map ((a, m) # idx)) = Pair a ` dom (map_of m) \<union> dom (idx_map idx)"
    and "Pair a ` dom (map_of m) \<inter> dom (idx_map idx) = {}"
proof -
  have "map_of idx a = None" using assms by (simp add: map_of_eq_None_iff)
  then show "dom (idx_map ((a, m) # idx)) = Pair a ` dom (map_of m) \<union> dom (idx_map idx)"
    "Pair a ` dom (map_of m) \<inter> dom (idx_map idx) = {}"
    by (auto simp: idx_map_def idx_lookup_def image_iff split: if_splits)
qed

lemma finite_idx_map: "finite (dom (idx_map idx))"
proof -
  have "dom (idx_map idx) \<subseteq> (\<Union>(a, m) \<in> set idx. Pair a ` dom (map_of m))"
    by (fastforce simp: idx_map_def idx_lookup_def split: option.splits dest: map_of_SomeD)
  then show ?thesis by (rule finite_subset) (auto intro: finite_dom_map_of)
qed

lemma count_records:
  "index_wf idx \<Longrightarrow> sum_list (map (\<lambda>s. length (snd s)) idx) = card (dom (idx_map idx))"
proof (induction idx)
  case Nil
  then show ?case by (simp add: idx_map_def idx_lookup_def dom_def)
next
  case (Cons s idx)
  obtain a m where s: "s = (a, m)" by (cases s)
  have nin: "a \<notin> fst ` set idx" and wf: "map_wf m" "index_wf idx"
    using Cons.prems by (auto simp: s index_wf_def map_wf_def)
  have "card (dom (idx_map ((a, m) # idx))) = card (Pair a ` dom (map_of m)) + card (dom (idx_map idx))"
    unfolding dom_idx_map_Cons(1) [OF nin]
    by (rule card_Un_disjoint) (auto simp: finite_dom_map_of finite_idx_map dom_idx_map_Cons(2) [OF nin])
  moreover have "card (Pair a ` dom (map_of m)) = length m"
    using length_eq_card_dom [OF wf(1)] by (simp add: card_image inj_on_def)
  ultimately show ?case using Cons.IH [OF wf(2)] by (simp add: s)
qed

lemma BuildSnapshot_size:
  assumes "idx_ok idx"
  shows "length (BuildSnapshot idx) \<le> 13 + 28 * card (dom (idx_map idx))"
proof -
  have "\<forall>s \<in> set idx. snd s \<noteq> []" using assms by (auto simp: idx_ok_def)
  then have "length (concat (map section_bytes idx)) \<le> 28 * sum_list (map (\<lambda>s. length (snd s)) idx)"
  proof (induction idx)
    case (Cons s idx)
    then have "1 \<le> length (snd s)" by (simp add: Suc_le_eq)
    then show ?case using Cons by simp
  qed simp
  then show ?thesis
    using count_records [of idx] assms live_domains_idx_ok [OF assms]
    by (simp add: BuildSnapshot_eq snapshot_body_def idx_ok_def)
qed

text \<open>Room for a checkpoint, in terms of the store.\<close>

definition snapshot_room :: "StorageEngine \<Rightarrow> store \<Rightarrow> bool" where
  "snapshot_room e m \<longleftrightarrow> commit_room e \<and> 13 + 28 * card (dom m) < 2 ^ 32
     \<and> length (contents (efile e)) + 13 + 28 * card (dom m) < 2 ^ 63"

lemma dom_view:
  assumes "engine_inv e fs"
  shows "dom (view_of fs) = dom (idx_map (index e))"
proof -
  have "view_of fs (a, i) = None \<longleftrightarrow> idx_map (index e) (a, i) = None" for a i
    using engine_entry [OF assms, of a i] by (auto simp: view_of_def idx_map_def option.rel_sel)
  then show ?thesis by (metis (no_types, lifting) domIff subsetI subset_antisym surj_pair)
qed

lemma snapshot_roomD:
  assumes "engine_inv e fs" "snapshot_room e (view_of fs)"
  shows "commit_room e" "length (BuildSnapshot (index e)) < 2 ^ 32"
    "length (contents (efile e)) + length (BuildSnapshot (index e)) < 2 ^ 63"
  using assms BuildSnapshot_size [OF engine_inv_simps(5) [OF assms(1)]] dom_view [OF assms(1)]
  by (auto simp: snapshot_room_def)

lemma Checkpoint_rep:
  assumes "engine_rep e m" "snapshot_room e m"
  shows "\<exists>e'. Checkpoint e = (Inr (), e') \<and> engine_rep e' m"
  using assms Checkpoint_inv snapshot_roomD unfolding engine_rep_def by metis

lemma Close_Open_rep:
  assumes "engine_rep e m" "snapshot_room e m"
  shows "\<exists>e1 e2. Close e = (Inr (), e1) \<and> Open (efile e1) = (Inr e2, efile e2) \<and> engine_rep e2 m"
  using assms Close_Open snapshot_roomD unfolding engine_rep_def by metis

section \<open>Copying\<close>

definition copy_entry :: "bytes \<Rightarrow> u64 \<Rightarrow> u64 \<times> u64 \<Rightarrow> RecordEntry" where
  "copy_entry mm a io = (case RecordData mm (unat (snd io)) of
     Inr f \<Rightarrow> \<lparr>r_agent = a, r_type = f_type f, r_id = fst io, r_data = f_data f\<rparr>
   | Inl _ \<Rightarrow> \<lparr>r_agent = a, r_type = 0, r_id = fst io, r_data = []\<rparr>)"

definition domain_entries :: "bytes \<Rightarrow> u64 \<times> (u64, u64) gomap \<Rightarrow> RecordEntry list" where
  "domain_entries mm s = map (copy_entry mm (fst s)) (snd s)"

definition live_entries :: "bytes \<Rightarrow> record_index \<Rightarrow> RecordEntry list" where
  "live_entries mm idx = concat (map (domain_entries mm) idx)"

definition all_decode :: "bytes \<Rightarrow> (u64, u64) gomap \<Rightarrow> bool" where
  "all_decode mm m \<longleftrightarrow> (\<forall>(i, off) \<in> set m. \<exists>f. RecordData mm (unat off) = Inr f)"

lemma batch_size_append [simp]: "batch_size (xs @ ys) = batch_size xs + batch_size ys"
  by (induction xs) simp_all

lemma compact_flush_ok:
  assumes "engine_inv e gs" "engine_room e (batch_size batch + n)" "\<forall>r \<in> set batch. entry_ok r"
  shows "\<exists>e'. compact_flush batch e = (Inr (), e') \<and> engine_inv e' (gs @ map frame_of batch) \<and> engine_room e' n"
  using WriteRecordBatch_law [OF assms] assms(1,2) by (auto simp: compact_flush_def)

lemma compact_domain_ok:
  assumes "engine_inv e gs" "engine_room e (batch_size (batch @ domain_entries mm (a, m)) + n)"
    and "\<forall>r \<in> set (batch @ domain_entries mm (a, m)). entry_ok r" "all_decode mm m"
  shows "\<exists>e'. compact_domain mm a m batch e = (Inr (), e')
    \<and> engine_inv e' (gs @ map frame_of (batch @ domain_entries mm (a, m))) \<and> engine_room e' n"
  using assms
proof (induction m arbitrary: batch e gs)
  case Nil
  then show ?case using compact_flush_ok by (simp add: domain_entries_def)
next
  case (Cons io m)
  obtain i off where io: "io = (i, off)" by (cases io)
  obtain f where f: "RecordData mm (unat off) = Inr f" using Cons.prems(4) by (auto simp: all_decode_def io)
  let ?r = "\<lparr>r_agent = a, r_type = f_type f, r_id = i, r_data = f_data f\<rparr>"
  have ents: "domain_entries mm (a, io # m) = ?r # domain_entries mm (a, m)" by (simp add: domain_entries_def copy_entry_def io f)
  have ad: "all_decode mm m" using Cons.prems(4) by (simp add: all_decode_def)
  show ?case
  proof (cases "length (batch @ [?r]) = compact_chunk")
    case True
    have "engine_room e (batch_size (batch @ [?r]) + (batch_size (domain_entries mm (a, m)) + n))"
      using Cons.prems(2) by (simp add: ents add.assoc)
    then obtain e1 where e1: "compact_flush (batch @ [?r]) e = (Inr (), e1)"
      "engine_inv e1 (gs @ map frame_of (batch @ [?r]))" "engine_room e1 (batch_size (domain_entries mm (a, m)) + n)"
      using compact_flush_ok [OF Cons.prems(1), of "batch @ [?r]"] Cons.prems(3) unfolding ents by auto
    then show ?thesis
      using Cons.IH [of e1 "gs @ map frame_of (batch @ [?r])" "[]"] Cons.prems(3) ad True unfolding ents
      by (simp add: io f Let_def)
  next
    case False
    then show ?thesis
      using Cons.IH [of e gs "batch @ [?r]"] Cons.prems(1,2,3) ad unfolding ents by (simp add: io f Let_def)
  qed
qed

lemma compact_domains_ok:
  assumes "engine_inv e gs" "engine_room e (batch_size (live_entries mm idx) + n)"
    and "\<forall>r \<in> set (live_entries mm idx). entry_ok r" "\<forall>s \<in> set idx. all_decode mm (snd s)"
  shows "\<exists>e'. compact_domains mm idx e = (Inr (), e')
    \<and> engine_inv e' (gs @ map frame_of (live_entries mm idx)) \<and> engine_room e' n"
  using assms
proof (induction idx arbitrary: e gs)
  case Nil
  then show ?case by (simp add: live_entries_def)
next
  case (Cons s idx)
  obtain a m where s: "s = (a, m)" by (cases s)
  have ents: "live_entries mm (s # idx) = domain_entries mm (a, m) @ live_entries mm idx" by (simp add: live_entries_def s)
  have "engine_room e (batch_size ([] @ domain_entries mm (a, m)) + (batch_size (live_entries mm idx) + n))"
    using Cons.prems(2) by (simp add: ents add.assoc)
  then obtain e1 where e1: "compact_domain mm a m [] e = (Inr (), e1)"
    "engine_inv e1 (gs @ map frame_of (domain_entries mm (a, m)))" "engine_room e1 (batch_size (live_entries mm idx) + n)"
    using compact_domain_ok [OF Cons.prems(1), of "[]" mm a m "batch_size (live_entries mm idx) + n"] Cons.prems(3,4)
    unfolding ents by (auto simp: s)
  moreover have "\<exists>e'. compact_domains mm idx e1 = (Inr (), e')
      \<and> engine_inv e' ((gs @ map frame_of (domain_entries mm (a, m))) @ map frame_of (live_entries mm idx)) \<and> engine_room e' n"
    using Cons.prems(3,4) e1(2,3) unfolding ents by (intro Cons.IH) auto
  ultimately show ?case unfolding ents by (simp add: s)
qed

section \<open>What the copy denotes\<close>

lemma put_all_distinct:
  "distinct (map (\<lambda>r. (r_agent r, r_id r)) rs) \<Longrightarrow> r \<in> set rs \<Longrightarrow> put_all rs m (r_agent r, r_id r) = Some (r_type r, r_data r)"
proof (induction rs arbitrary: m)
  case (Cons x rs)
  then show ?case by (cases "r = x") (auto simp: put_entry_def put_all_other)
qed simp

lemma copy_entry_key: "(\<lambda>r. (r_agent r, r_id r)) (copy_entry mm a io) = (a, fst io)"
  by (simp add: copy_entry_def split: sum.splits)

lemma live_entries_keys:
  "map (\<lambda>r. (r_agent r, r_id r)) (live_entries mm idx) = concat (map (\<lambda>(a, m). map (\<lambda>io. (a, fst io)) m) idx)"
  by (induction idx) (auto simp: live_entries_def domain_entries_def copy_entry_key [simplified])

lemma distinct_live_keys:
  "index_wf idx \<Longrightarrow> distinct (concat (map (\<lambda>(a, m). map (\<lambda>io. (a, fst io)) m) idx))"
proof (induction idx)
  case (Cons s idx)
  obtain a m where s: "s = (a, m)" by (cases s)
  have "distinct (map (\<lambda>io. (a, fst io)) m)"
    using Cons.prems by (auto simp: s index_wf_def map_wf_def distinct_map inj_on_def)
  then show ?case using Cons by (force simp: s index_wf_def map_wf_def)
qed simp

lemma live_entries_view:
  assumes inv: "engine_inv e fs"
  shows "put_all (live_entries (mmap e) (index e)) Map.empty = view_of fs"
proof
  fix k :: key
  obtain a i where k: "k = (a, i)" by (cases k)
  let ?rs = "live_entries (mmap e) (index e)" and ?key = "\<lambda>r. (r_agent r, r_id r)"
  have wf: "index_wf (index e)" using engine_inv_simps(5) [OF inv] by (simp add: idx_ok_def)
  have dist: "distinct (map ?key ?rs)" unfolding live_entries_keys by (rule distinct_live_keys [OF wf])
  note entry = engine_entry [OF inv, of a i]
  show "put_all ?rs Map.empty k = view_of fs k"
  proof (cases "idx_lookup (index e) a i")
    case None
    then have "(a, i) \<notin> set (map ?key ?rs)"
      unfolding live_entries_keys using idx_lookup_iff [OF wf, of a i] by auto
    then show ?thesis using None entry by (simp add: k put_all_other view_of_def)
  next
    case (Some off)
    then obtain m where m: "(a, m) \<in> set (index e)" "(i, off) \<in> set m" using idx_lookup_iff [OF wf] by blast
    from entry Some obtain f where f: "log_view fs (a, i) = Some f" "RecordData (mmap e) (unat off) = Inr f"
      by (auto simp: option_rel_Some1)
    have "copy_entry (mmap e) a (i, off) \<in> set ?rs"
      using m by (force simp: live_entries_def domain_entries_def)
    from put_all_distinct [OF dist this, of Map.empty] show ?thesis
      using f by (simp add: k view_of_def copy_entry_def)
  qed
qed

lemma live_entries_ok:
  assumes inv: "engine_inv e fs" and nb: "view_of fs (0, 0) \<noteq> Some (0, [])"
  shows "\<forall>r \<in> set (live_entries (mmap e) (index e)). entry_ok r" "\<forall>s \<in> set (index e). all_decode (mmap e) (snd s)"
proof -
  have wf: "index_wf (index e)" using engine_inv_simps(5) [OF inv] by (simp add: idx_ok_def)
  have dec: "\<exists>f. log_view fs (a, i) = Some f \<and> RecordData (mmap e) (unat off) = Inr f"
    if "(a, m) \<in> set (index e)" "(i, off) \<in> set m" for a m i off
  proof -
    have "idx_lookup (index e) a i = Some off" using idx_lookup_iff [OF wf] that by blast
    then show ?thesis using engine_entry [OF inv, of a i] by (simp add: option_rel_Some1)
  qed
  then show "\<forall>s \<in> set (index e). all_decode (mmap e) (snd s)" by (fastforce simp: all_decode_def)
  show "\<forall>r \<in> set (live_entries (mmap e) (index e)). entry_ok r"
  proof
    fix r assume "r \<in> set (live_entries (mmap e) (index e))"
    then obtain a m i off where m: "(a, m) \<in> set (index e)" "(i, off) \<in> set m" "r = copy_entry (mmap e) a (i, off)"
      by (auto simp: live_entries_def domain_entries_def)
    from dec [OF m(1,2)] obtain f where f: "log_view fs (a, i) = Some f" "RecordData (mmap e) (unat off) = Inr f" by blast
    have "length (f_data f) < 2 ^ 32" using RecordData_frame_ok [OF f(2)] by (simp add: frame_ok_def)
    moreover have "\<not> blank_head a (f_type f) 0 i (of_nat (length (f_data f)))"
    proof
      assume "blank_head a (f_type f) 0 i (of_nat (length (f_data f)))"
      then have z: "a = 0" "i = 0" "f_type f = 0" "(of_nat (length (f_data f)) :: u32) = 0" by (auto simp: blank_head_def)
      have "unat (of_nat (length (f_data f)) :: u32) = length (f_data f)"
        using \<open>length (f_data f) < 2 ^ 32\<close> by (simp add: unat_of_nat)
      then have "f_data f = []" using z(4) by simp
      then show False using nb f(1) z by (simp add: view_of_def)
    qed
    ultimately show "entry_ok r" using m(3) f(2) by (simp add: entry_ok_def frame_ok_def frame_of_def copy_entry_def)
  qed
qed

section \<open>Compaction keeps the store\<close>

lemma Create_room:
  assumes "Create f = (Inr e, f')" "faults f = []"
  shows "trim_room e" "nextOffset e = DataStart" "length (contents (efile e)) = DataStart"
  using assms
  by (auto simp: Create_def lockFile_def os_simps writeHeaderAt_ok trim_room_def activeHeaderRef_def has_snapshot_def
      NewFileHeader_def write_at_def HeaderAOffset_def HeaderBOffset_def HeaderSize_def DataStart_def)

lemma shutdownHandles_ok:
  "faults (efile e) = [] \<Longrightarrow> shutdownHandles e = (Inr (), e\<lparr>efile := efile e, mapped := 0\<rparr>)"
  by (simp add: shutdownHandles_def unlockFile_def os_simps first_err_def Let_def)

lemma Compact_file:
  assumes inv: "engine_inv e fs" and nb: "view_of fs (0, 0) \<noteq> Some (0, [])" and f: "faults f = []"
    and size: "DataStart + batch_size (live_entries (mmap e) (index e)) + 13 + 28 * card (dom (view_of fs)) < 2 ^ 63"
      "13 + 28 * card (dom (view_of fs)) < 2 ^ 32"
  shows "\<exists>f' e'. Compact e f = (Inr (), f') \<and> Open f' = (Inr e', efile e') \<and> engine_rep e' (view_of fs)"
proof -
  let ?rs = "live_entries (mmap e) (index e)"
  obtain n0 where n0: "Create f = (Inr n0, efile n0)" "engine_inv n0 []" using Create_inv [OF f] by blast
  note room0 = Create_room [OF n0(1) f]
  have "engine_room n0 (batch_size ?rs + (13 + 28 * card (dom (view_of fs))))"
    using room0(1,3) size(1) by (simp add: engine_room_def)
  from compact_domains_ok [OF n0(2) this live_entries_ok [OF inv nb]]
  obtain n1 where n1: "compact_domains (mmap e) (index e) n0 = (Inr (), n1)"
    "engine_inv n1 (map frame_of ?rs)" "engine_room n1 (13 + 28 * card (dom (view_of fs)))" by auto
  have view: "view_of (map frame_of ?rs) = view_of fs"
    using view_of_write [of "[]" ?rs] live_entries_view [OF inv] by (simp add: view_of_def log_view_def)
  have "snapshot_room n1 (view_of (map frame_of ?rs))"
    using n1(3) size(2) view trim_room_commit by (auto simp: snapshot_room_def engine_room_def)
  then obtain n2 where n2: "Checkpoint n1 = (Inr (), n2)" "engine_inv n2 (map frame_of ?rs)"
    using Checkpoint_inv [OF n1(2)] snapshot_roomD [OF n1(2)] by blast
  have "Compact e f = (Inr (), efile n2)"
    using n0(1) n1(1) n2(1) shutdownHandles_ok [OF engine_inv_simps(1) [OF n2(2)]] by (simp add: Compact_def Let_def)
  then show ?thesis
    using Open_engine [OF n2(2)] view unfolding engine_rep_def by metis
qed

end
