(* ===== verification/Engine_Defects.thy ===== *)
theory Engine_Defects
  imports Engine_Crash
begin

unbundle bit_operations_syntax

text \<open>
  Two files on which the engine does not do what its comments say. A zero-filled tail is taken for
  \<^emph>\<open>the zero-filled space an append will overwrite\<close> (\<^verbatim>\<open>engine_recovery.go\<close>), but appends go to the
  end of the file, behind the zeros, where the next scan never looks. And a header without a
  recorded end of the record area (\<^verbatim>\<open>header.go\<close>: 0 means unknown) over an empty record area makes
  the reconstruction answer 0, after which the first write cuts the headers off.
\<close>

section \<open>A record written behind zeros\<close>

definition zeroed :: "frame list \<Rightarrow> StorageEngine \<Rightarrow> StorageEngine" where
  "zeroed fs e0 = e0\<lparr>index := replay_idx DataStart fs [], nextOffset := DataStart + length (enc_log fs)\<rparr>"

lemma recover_zeroed:
  assumes lb: "left_behind e fs (replicate 26 0 @ post) f" and no: "\<not> has_snapshot (activeHeaderRef e)"
    and e0: "e0 = opened f (headerA e0) (headerB e0) (activeHeader e)" and sh: "same_headers e0 e"
  shows "recover e0 = (Inr (), zeroed fs e0)"
proof -
  from lb obtain other where c: "contents f = slots e other @ enc_log fs @ replicate 26 0 @ post" "length other = HeaderSize"
    "\<forall>g \<in> set fs. frame_ok g" by (auto simp: left_behind_def)
  have s: "mmap e0 = contents f" "index e0 = []" by (subst e0, simp)+
  have "restoreFromSnapshot e0 = Inr (DataStart, False, False, e0)"
    using no sh by (auto simp: restoreFromSnapshot_def same_headers_def has_snapshot_def Let_def)
  moreover have "scanRecords DataStart e0 = (Inr (DataStart + length (enc_log fs), False), e0\<lparr>index := replay_idx DataStart fs []\<rparr>)"
    using scan_blank [OF c(3), of "slots e other" post] c(1,2) s by (simp add: scanRecords_def)
  ultimately show ?thesis by (simp add: recover_def zeroed_def Let_def)
qed

lemma zeroed_decodes:
  assumes lb: "left_behind e fs tail f" and e0: "e0 = opened f (headerA e0) (headerB e0) (activeHeader e)"
  shows "\<exists>bt. rebuildByAgentType (zeroed fs e0) = Inr ((zeroed fs e0)\<lparr>byAgentType := bt\<rparr>)"
    and "decodes (contents f) (replay DataStart fs Map.empty) (log_view fs)"
proof -
  from lb obtain other where c: "contents f = slots e other @ enc_log fs @ tail" "length other = HeaderSize"
    "\<forall>g \<in> set fs. frame_ok g" "length (contents f) < 2 ^ 63" by (auto simp: left_behind_def)
  have s: "mmap (zeroed fs e0) = contents f" by (subst e0) (simp add: zeroed_def)
  show d: "decodes (contents f) (replay DataStart fs Map.empty) (log_view fs)"
    unfolding decodes_def
  proof
    fix k
    have "rel_option (\<lambda>off f. RecordData (slots e other @ enc_log fs @ tail) (unat off) = Inr f)
        (replay (length (slots e other)) fs Map.empty k) (log_view fs k)"
      using c by (intro replay_view) auto
    then show "rel_option (\<lambda>off g. RecordData (contents f) (unat off) = Inr g) (replay DataStart fs Map.empty k) (log_view fs k)"
      using c by simp
  qed
  have "idx_ok (index (zeroed fs e0))" "idx_map (index (zeroed fs e0)) = replay DataStart fs Map.empty"
    using replay_idx_props [where idx = "[]" and off = DataStart and fs = fs] by (simp_all add: zeroed_def)
  then show "\<exists>bt. rebuildByAgentType (zeroed fs e0) = Inr ((zeroed fs e0)\<lparr>byAgentType := bt\<rparr>)"
    using rebuildByAgentType_ok [of "zeroed fs e0" "log_view fs"] d s c(4) by auto
qed

text \<open>Opening a file with a zero tail: the index holds the frames before it, the tail stays.\<close>

lemma Open_zeroed:
  assumes lb: "left_behind e fs (replicate 26 0 @ post) f" and no: "\<not> has_snapshot (activeHeaderRef e)"
  shows "\<exists>e'. Open f = (Inr e', f) \<and> efile e' = f \<and> mapped e' = length (contents f) \<and> \<not> closed e' \<and> same_headers e' e
    \<and> idx_ok (index e') \<and> idx_map (index e') = replay DataStart fs Map.empty"
proof -
  obtain e0 hA hB where e0: "e0 = opened f hA hB (activeHeader e)"
    "activeHeaderRef e0 = (activeHeaderRef e)\<lparr>CRC32 := calculateCRC (activeHeaderRef e)\<rparr>"
    "\<forall>e1 bt. recover e0 = (Inr (), e1) \<longrightarrow> rebuildByAgentType e1 = Inr (e1\<lparr>byAgentType := bt\<rparr>)
       \<longrightarrow> Open f = (Inr (e1\<lparr>byAgentType := bt\<rparr>), efile e1)"
    using Open_left_behind [OF lb] by metis
  have o': "e0 = opened f (headerA e0) (headerB e0) (activeHeader e)" and sh: "same_headers e0 e"
    using e0(1,2) by (simp_all add: opened_def same_headers_def)
  obtain bt where bt: "rebuildByAgentType (zeroed fs e0) = Inr ((zeroed fs e0)\<lparr>byAgentType := bt\<rparr>)"
    using zeroed_decodes(1) [OF lb o'] by blast
  have "Open f = (Inr ((zeroed fs e0)\<lparr>byAgentType := bt\<rparr>), f)"
    using e0(1,3) recover_zeroed [OF lb no o' sh] bt by (simp add: zeroed_def)
  moreover have "same_headers ((zeroed fs e0)\<lparr>byAgentType := bt\<rparr>) e"
    using sh by (cases "activeHeader e") (auto simp: zeroed_def same_headers_def activeHeaderRef_def)
  ultimately show ?thesis
    using replay_idx_props [where idx = "[]" and off = DataStart and fs = fs] e0(1)
    by (intro exI [of _ "(zeroed fs e0)\<lparr>byAgentType := bt\<rparr>"]) (simp add: zeroed_def)
qed

lemma WriteRecord_no_snapshot:
  assumes "faults (efile e) = []" "\<not> closed e" "\<not> has_snapshot (activeHeaderRef e)" "length (contents (efile e)) < 2 ^ 64"
    and g: "g = \<lparr>f_type = t, f_flags = 0, f_data = d, f_agent = a, f_id = i\<rparr>"
  shows "\<exists>e'. WriteRecord a t i d e = (Inr (of_nat (length (contents (efile e)))), e')
    \<and> contents (efile e') = contents (efile e) @ enc g \<and> faults (efile e') = []
    \<and> mmap e' = contents (efile e) @ enc g \<and> \<not> closed e'
    \<and> idx_lookup (index e') a i = Some (of_nat (length (contents (efile e))))"
proof -
  have "trimTailSnapshot e = (Inr (), e)" using assms(3) by (auto simp: trimTailSnapshot_def has_snapshot_def Let_def)
  moreover have "idx_lookup (idx_put a i off x) a i = Some off" for off x
    by (simp add: idx_lookup_def idx_put_def)
  ultimately show ?thesis
    using assms(1,2) 
    by (simp add: WriteRecord_def writeRecordBatch_def appendFrames_def os_simps write_at_end updateIndexAfterWrite_def
        index_one_def g enc_def mmap_def Let_def)
qed

text \<open>Writing then reading works, but after a crash the record is gone.\<close>

lemma zero_tail_loses:
  assumes lb: "left_behind e fs (replicate 26 0 @ post) f" and no: "\<not> has_snapshot (activeHeaderRef e)"
    and d: "length d < 2 ^ 32" and room: "length (contents f) + RecordHeaderSize + length d < 2 ^ 63"
    and nb: "\<not> blank_head a t 0 i (of_nat (length d))"
    and new: "log_view fs (a, i) = None"
  shows "\<exists>e1 off e2 e3. Open f = (Inr e1, f) \<and> WriteRecord a t i d e1 = (Inr off, e2)
    \<and> ReadRecord e2 a i = Inr (t, d)
    \<and> Open (efile e2) = (Inr e3, efile e2) \<and> ReadRecord e3 a i = Inl (NewError ErrNotFound)"
proof -
  let ?g = "\<lparr>f_type = t, f_flags = 0, f_data = d, f_agent = a, f_id = i\<rparr>"
  obtain e1 where e1: "Open f = (Inr e1, f)" "efile e1 = f" "\<not> closed e1" "same_headers e1 e"
    using Open_zeroed [OF lb no] by blast
  have no1: "\<not> has_snapshot (activeHeaderRef e1)" using e1(4) no by (simp add: same_headers_def has_snapshot_def)
  have fl: "faults f = []" using lb by (simp add: left_behind_def)
  obtain e2 where e2: "WriteRecord a t i d e1 = (Inr (of_nat (length (contents f))), e2)"
    "contents (efile e2) = contents f @ enc ?g" "faults (efile e2) = []" "mmap e2 = contents f @ enc ?g" "\<not> closed e2"
    "idx_lookup (index e2) a i = Some (of_nat (length (contents f)))"
    using WriteRecord_no_snapshot [of e1 ?g t d a i] e1(2,3) no1 fl room by auto
  have "frame_ok ?g" using d nb by (simp add: frame_ok_def)
  then have "RecordData (mmap e2) (length (contents f)) = Inr ?g"
    using RecordData_enc [of ?g "contents f" "[]"] e2(4) by simp
  moreover have "unat (of_nat (length (contents f)) :: u64) = length (contents f)" using room by (simp add: unat_of_nat)
  ultimately have rd: "ReadRecord e2 a i = Inr (t, d)" using e2(5,6) by (simp add: ReadRecord_def)
  have "left_behind e fs (replicate 26 0 @ (post @ enc ?g)) (efile e2)"
    using lb e2(2,3) room by (auto simp: left_behind_def)
  from Open_zeroed [OF this no] obtain e3 where e3: "Open (efile e2) = (Inr e3, efile e2)" "\<not> closed e3"
    "idx_map (index e3) = replay DataStart fs Map.empty" by blast
  have "rel_option (\<lambda>off g. RecordData (contents f) (unat off) = Inr g) (replay DataStart fs Map.empty (a, i)) (log_view fs (a, i))"
    using zeroed_decodes(2) [OF lb, of "opened f (headerA e) (headerB e) (activeHeader e)"] by (simp add: decodes_def opened_def)
  then have "idx_lookup (index e3) a i = None" using new e3(3) by (auto simp: idx_map_def fun_eq_iff)
  then have "ReadRecord e3 a i = Inl (NewError ErrNotFound)" using e3(2) by (simp add: ReadRecord_def)
  with e1(1) e2(1) rd e3(1) show ?thesis by blast
qed

section \<open>An unknown end of an empty record area\<close>

lemma length_BuildSnapshot_Nil [simp]: "length (BuildSnapshot []) = 13"
  by (simp add: BuildSnapshot_eq snapshot_body_def live_domains_def)

lemma recoverRecordAreaEnd_empty:
  assumes mm: "mmap e = hdrs @ BuildSnapshot []" "length hdrs = DataStart" and r: "RecordEnd (activeHeaderRef e) = 0"
  shows "recoverRecordAreaEnd e = 0"
proof -
  have fits: "index_wf []" "index_fits []" by (simp_all add: index_fits_def)
  have "drop DataStart (mmap e) = BuildSnapshot [] @ []" using mm by simp
  then have "isSnapshotBlobAt (drop DataStart (mmap e))" "snapshotBlobLength (drop DataStart (mmap e)) = Inr 13"
    using snapshotBlobLength_BuildSnapshot [OF fits, of "[]"] by simp_all
  then have "walk_loop (mmap e) DataStart 0 = walk_loop (mmap e) (DataStart + 13) 0"
    using mm by (subst walk_loop.simps) simp
  also have "\<dots> = (DataStart + 13, 0, True)" using mm by (subst walk_loop.simps) simp
  finally show ?thesis using r by (simp add: recoverRecordAreaEnd_def walkRecordArea_def DataStart_def HeaderSize_def Let_def)
qed

text \<open>The next write then cuts the file to nothing and writes one header at its start: what is
  left is too short to open.\<close>

lemma trim_destroys:
  assumes "faults (efile e) = []" "has_snapshot (activeHeaderRef e)" "activeHeader e" "nextOffset e = 0"
    and "SnapshotOffset (activeHeaderRef e) + ucast (SnapshotLength (activeHeaderRef e)) = of_nat (length (mmap e))"
  shows "\<exists>e'. trimTailSnapshot e = (Inr (), e') \<and> contents (efile e') = ToBytes (null_header e)
    \<and> Open (efile e') = (Inl (NewError ErrCorruption), efile e')"
proof -
  let ?e1 = "e\<lparr>efile := (efile e)\<lparr>contents := []\<rparr>, mapped := 0\<rparr>"
  have nh: "null_header ?e1 = null_header e" by (simp add: null_header_def)
  have "truncateTail 0 e = (Inr (), ?e1)" using truncateTail_ok [of e 0] assms(1) by simp
  then have "trimTailSnapshot e = (Inr (), put_header (null_header e) ?e1)"
    using assms writeNullSnapshotHeader_ok [of ?e1] by (simp add: trimTailSnapshot_def has_snapshot_def nh)
  moreover have c: "contents (efile (put_header (null_header e) ?e1)) = ToBytes (null_header e)"
    using assms(3) by (simp add: put_header_def switchHeader_def inactive_slot_def write_at_def HeaderAOffset_def)
  moreover have "Open (efile (put_header (null_header e) ?e1)) = (Inl (NewError ErrCorruption), efile (put_header (null_header e) ?e1))"
    using assms(1) c by (simp add: Open_def openEngineFile_def lockFile_def os_simps HeaderSize_def)
  ultimately show ?thesis by blast
qed

end
