(* ===== verification/Fresh_Store.thy ===== *)
theory Fresh_Store
  imports Engine_Compact Engine_Defects
begin

text \<open>
  The store just created on an empty file: the engine \<open>Create\<close> answers represents the empty store, has
  room for the largest batch, and its file has no snapshot until the first checkpoint. These are the
  facts concrete examples start from.
\<close>

definition blank_file :: osfile where
  "blank_file = \<lparr>contents = [], cursor = 0, faults = []\<rparr>"

lemma fresh_engine:
  "\<exists>e. Create blank_file = (Inr e, efile e) \<and> engine_inv e [] \<and> trim_room e \<and> length (contents (efile e)) = DataStart
     \<and> \<not> has_snapshot (activeHeaderRef e) \<and> index e = []"
proof -
  obtain e where e: "Create blank_file = (Inr e, efile e)" "engine_inv e []" "index e = []"
    using Create_inv [of blank_file] by (auto simp: blank_file_def)
  have "faults blank_file = []" by (simp add: blank_file_def)
  note r = Create_room [OF e(1) this]
  have "\<not> has_snapshot (activeHeaderRef e)"
    using e(1) by (auto simp: blank_file_def Create_def lockFile_def os_simps writeHeaderAt_ok activeHeaderRef_def has_snapshot_def NewFileHeader_def)
  with e r show ?thesis by blast
qed

lemma view_of_Nil [simp]: "view_of [] = Map.empty"
  by (simp add: view_of_def log_view_def)

lemma fresh_rep:
  assumes "n < 2 ^ 62"
  shows "\<exists>e. Create blank_file = (Inr e, efile e) \<and> engine_rep e Map.empty \<and> engine_room e n"
proof -
  obtain e where e: "Create blank_file = (Inr e, efile e)" "engine_inv e []" "trim_room e" "length (contents (efile e)) = DataStart"
    using fresh_engine by blast
  have "engine_rep e Map.empty" unfolding engine_rep_def using e(2) view_of_Nil by metis
  moreover have "engine_room e n"
    using e(3,4) assms unfolding engine_room_def by (simp add: DataStart_def HeaderSize_def)
  ultimately show ?thesis using e(1) by blast
qed

lemma entry_ok_iff:
  assumes "length d < 2 ^ 32"
  shows "entry_ok \<lparr>r_agent = a, r_type = t, r_id = i, r_data = d\<rparr> \<longleftrightarrow> (a, t, i, d) \<noteq> (0, 0, 0, [])"
proof -
  let ?w = "of_nat (length d) :: u32"
  have "unat ?w = length d" using assms by (simp add: unat_of_nat)
  then have "?w = 0 \<longleftrightarrow> length d = 0" using unat_eq_zero [of ?w] by (simp only:)
  then have "blank_head a t 0 i ?w \<longleftrightarrow> (a, t, i, d) = (0, 0, 0, [])" unfolding blank_head_def by (simp only: length_0_conv) blast
  then show ?thesis using assms unfolding entry_ok_def frame_ok_def frame_of_def by simp
qed

lemma fresh_checkpointed:
  "\<exists>e e1. Create blank_file = (Inr e, efile e) \<and> Checkpoint e = (Inr (), e1) \<and> engine_inv e1 []
     \<and> has_snapshot (activeHeaderRef e1)"
proof -
  obtain e where e: "Create blank_file = (Inr e, efile e)" "engine_inv e []" "trim_room e" "length (contents (efile e)) = DataStart"
    "index e = []" using fresh_engine by blast
  have len: "length (BuildSnapshot (index e)) = 13" by (simp add: e(5))
  have b: "length (BuildSnapshot (index e)) < 2 ^ 32" "length (contents (efile e)) + length (BuildSnapshot (index e)) < 2 ^ 63"
    by (simp_all add: len e(4) DataStart_def HeaderSize_def)
  have "Checkpoint e = (Inr (), checkpointed e)"
    using appendSnapshot_ok [of e] engine_inv_simps(1,2) [OF e(2)] e(4) by (simp add: Checkpoint_def)
  moreover have "engine_inv (checkpointed e) []"
    using checkpointed_inv(1) [OF e(2) trim_room_commit [OF e(3)] b] .
  moreover have "has_snapshot (activeHeaderRef (checkpointed e))"
    by (simp add: checkpointed_def has_snapshot_def len e(4) DataStart_def HeaderSize_def)
  ultimately show ?thesis using e(1) by blast
qed

end
