(* ===== verification/Json.thy ===== *)
theory Json
  imports MH_Prelude
begin

text \<open>
  The part of Go's \<^verbatim>\<open>encoding/json\<close> that the record layer uses: the compact text of a value, with
  Go's string escaping (quotes, control characters, HTML characters, the two line separators,
  replacement of invalid UTF-8), and the parser for the whole JSON grammar. Strings are Go strings,
  that is byte strings; numbers keep their literal, which is how the decoder checks an integer field.
  The parser takes fuel because its three functions recurse through one another; two calls of it
  consume at least one character, so twice the length of the text is enough. The nesting limit of
  Go's scanner (10000) is not modelled.
\<close>

datatype json = JNull | JBool bool | JNum string | JStr string | JArr "json list" | JObj "(string \<times> json) list"

definition cval :: "char \<Rightarrow> nat" where "cval c = of_char c"

section \<open>UTF-8\<close>

definition between :: "nat \<Rightarrow> nat \<Rightarrow> char \<Rightarrow> bool" where
  "between lo hi c \<longleftrightarrow> lo \<le> cval c \<and> cval c \<le> hi"

text \<open>The length of the valid encoding a string starts with, 0 when there is none.\<close>

definition runes2 :: "char \<Rightarrow> string \<Rightarrow> bool" where
  "runes2 a r = (case r of b # _ \<Rightarrow> between 0x80 0xBF b | _ \<Rightarrow> False)"

definition runes3 :: "char \<Rightarrow> string \<Rightarrow> bool" where
  "runes3 a r = (case r of b # c # _ \<Rightarrow>
     between (if cval a = 0xE0 then 0xA0 else 0x80) (if cval a = 0xED then 0x9F else 0xBF) b \<and> between 0x80 0xBF c
   | _ \<Rightarrow> False)"

definition runes4 :: "char \<Rightarrow> string \<Rightarrow> bool" where
  "runes4 a r = (case r of b # c # d # _ \<Rightarrow>
     between (if cval a = 0xF0 then 0x90 else 0x80) (if cval a = 0xF4 then 0x8F else 0xBF) b
       \<and> between 0x80 0xBF c \<and> between 0x80 0xBF d
   | _ \<Rightarrow> False)"

definition rune_len :: "string \<Rightarrow> nat" where
  "rune_len s = (case s of [] \<Rightarrow> 0 | a # r \<Rightarrow>
     if cval a < 0x80 then 1
     else if between 0xC2 0xDF a then (if runes2 a r then 2 else 0)
     else if between 0xE0 0xEF a then (if runes3 a r then 3 else 0)
     else if between 0xF0 0xF4 a then (if runes4 a r then 4 else 0)
     else 0)"

lemma runes_length: "runes2 a r \<Longrightarrow> 1 \<le> length r" "runes3 a r \<Longrightarrow> 2 \<le> length r" "runes4 a r \<Longrightarrow> 3 \<le> length r"
  by (auto simp: runes2_def runes3_def runes4_def split: list.splits)

lemma runes_take: "runes2 a r \<Longrightarrow> runes2 a (take 1 r @ t)" "runes3 a r \<Longrightarrow> runes3 a (take 2 r @ t)"
  "runes4 a r \<Longrightarrow> runes4 a (take 3 r @ t)"
  by (auto simp: runes2_def runes3_def runes4_def numeral_2_eq_2 numeral_3_eq_3 split: list.splits)

definition chr :: "nat \<Rightarrow> char" where "chr n = char_of n"

definition utf8_enc :: "nat \<Rightarrow> string" where
  "utf8_enc v = (if v < 0x80 then [chr v]
     else if v < 0x800 then [chr (0xC0 + v div 64), chr (0x80 + v mod 64)]
     else if v < 0x10000 then [chr (0xE0 + v div 4096), chr (0x80 + v div 64 mod 64), chr (0x80 + v mod 64)]
     else [chr (0xF0 + v div 262144), chr (0x80 + v div 4096 mod 64), chr (0x80 + v div 64 mod 64), chr (0x80 + v mod 64)])"

definition replacement :: string where "replacement = [CHR 0xEF, CHR 0xBF, CHR 0xBD]"

lemma rune_len_le: "rune_len s \<le> length s" "rune_len s \<noteq> 0 \<Longrightarrow> s \<noteq> []"
  using runes_length by (fastforce simp: rune_len_def split: list.splits)+

section \<open>Strings\<close>

definition json_hex :: "nat \<Rightarrow> char" where
  "json_hex n = ''0123456789abcdef'' ! n"

definition esc1 :: "char \<Rightarrow> string" where
  "esc1 c = (if c = CHR 0x22 \<or> c = CHR 0x5C then [CHR 0x5C, c]
     else if c = CHR 0x08 then [CHR 0x5C, CHR ''b'']
     else if c = CHR 0x0C then [CHR 0x5C, CHR ''f'']
     else if c = CHR 0x0A then [CHR 0x5C, CHR ''n'']
     else if c = CHR 0x0D then [CHR 0x5C, CHR ''r'']
     else if c = CHR 0x09 then [CHR 0x5C, CHR ''t'']
     else if cval c < 0x20 \<or> c = CHR ''<'' \<or> c = CHR ''>'' \<or> c = CHR 0x26
       then [CHR 0x5C, CHR ''u'', CHR ''0'', CHR ''0'', json_hex (cval c div 16), json_hex (cval c mod 16)]
     else [c])"

definition esc_rune :: "string \<Rightarrow> string" where
  "esc_rune u = (if u = [CHR 0xE2, CHR 0x80, CHR 0xA8] then CHR 0x5C # ''u2028''
     else if u = [CHR 0xE2, CHR 0x80, CHR 0xA9] then CHR 0x5C # ''u2029'' else u)"

function esc :: "string \<Rightarrow> string" where
  "esc s = (if s = [] then []
     else if rune_len s = 0 then CHR 0x5C # ''ufffd'' @ esc (tl s)
     else if rune_len s = 1 then esc1 (hd s) @ esc (tl s)
     else esc_rune (take (rune_len s) s) @ esc (drop (rune_len s) s))"
  by pat_completeness auto
termination by (relation "measure length") auto

declare esc.simps [simp del]

definition quote :: "string \<Rightarrow> string" where
  "quote s = CHR 0x22 # esc s @ [CHR 0x22]"

definition hex_of :: "char \<Rightarrow> nat option" where
  "hex_of c = (if between 0x30 0x39 c then Some (cval c - 0x30)
     else if between 0x61 0x66 c then Some (cval c - 0x61 + 10)
     else if between 0x41 0x46 c then Some (cval c - 0x41 + 10) else None)"

fun hex4 :: "string \<Rightarrow> nat option" where
  "hex4 (a # b # c # d # _) = (case (hex_of a, hex_of b, hex_of c, hex_of d) of
     (Some w, Some x, Some y, Some z) \<Rightarrow> Some (((w * 16 + x) * 16 + y) * 16 + z) | _ \<Rightarrow> None)"
| "hex4 _ = None"

definition push :: "string \<Rightarrow> (string \<times> string) option \<Rightarrow> (string \<times> string) option" where
  "push u r = (case r of None \<Rightarrow> None | Some (s, rest) \<Rightarrow> Some (u @ s, rest))"

definition simple_escape :: "char \<Rightarrow> char option" where
  "simple_escape e = (if e = CHR 0x22 \<or> e = CHR 0x5C \<or> e = CHR ''/'' then Some e
     else if e = CHR ''b'' then Some CHR 0x08 else if e = CHR ''f'' then Some CHR 0x0C
     else if e = CHR ''n'' then Some CHR 0x0A else if e = CHR ''r'' then Some CHR 0x0D
     else if e = CHR ''t'' then Some CHR 0x09 else None)"

text \<open>A second \<^verbatim>\<open>\u\<close> escape that completes the surrogate \<open>v\<close>, as the code point of the pair.\<close>

definition low_surrogate :: "nat \<Rightarrow> string \<Rightarrow> nat option" where
  "low_surrogate v s = (case s of a # b # r \<Rightarrow>
     if a = CHR 0x5C \<and> b = CHR ''u'' then
       (case hex4 r of Some w \<Rightarrow> if 0xD800 \<le> v \<and> v < 0xDC00 \<and> 0xDC00 \<le> w \<and> w < 0xE000
            then Some (0x10000 + (v - 0xD800) * 1024 + (w - 0xDC00)) else None
        | None \<Rightarrow> None)
     else None | _ \<Rightarrow> None)"

text \<open>\<open>unesc\<close> reads after the opening quote, up to and including the closing one.\<close>

function unesc :: "string \<Rightarrow> (string \<times> string) option" where
  "unesc s = (case s of [] \<Rightarrow> None | c # r \<Rightarrow>
     if c = CHR 0x22 then Some ([], r)
     else if c = CHR 0x5C then
       (case r of [] \<Rightarrow> None | e # r' \<Rightarrow>
         (case simple_escape e of Some x \<Rightarrow> push [x] (unesc r')
          | None \<Rightarrow> if e \<noteq> CHR ''u'' then None
              else (case hex4 r' of None \<Rightarrow> None
                | Some v \<Rightarrow> if 0xD800 \<le> v \<and> v < 0xE000
                    then (case low_surrogate v (drop 4 r') of
                            Some w \<Rightarrow> push (utf8_enc w) (unesc (drop 10 r'))
                          | None \<Rightarrow> push replacement (unesc (drop 4 r')))
                    else push (utf8_enc v) (unesc (drop 4 r')))))
     else if cval c < 0x20 then None
     else if rune_len s = 0 then push replacement (unesc r)
     else push (take (rune_len s) s) (unesc (drop (rune_len s) s)))"
  by pat_completeness auto
termination by (relation "measure length") (auto simp: rune_len_def)

declare unesc.simps [simp del]

section \<open>Values\<close>

definition sep :: "string list \<Rightarrow> string" where
  "sep parts = (case parts of [] \<Rightarrow> [] | p # ps \<Rightarrow> p @ concat (map (\<lambda>q. CHR '','' # q) ps))"

fun enc_val :: "json \<Rightarrow> string" where
  "enc_val JNull = ''null''"
| "enc_val (JBool b) = (if b then ''true'' else ''false'')"
| "enc_val (JNum l) = l"
| "enc_val (JStr s) = quote s"
| "enc_val (JArr vs) = CHR ''['' # sep (map enc_val vs) @ '']''"
| "enc_val (JObj ms) = CHR 0x7B # sep (map (\<lambda>m. quote (fst m) @ CHR '':'' # enc_val (snd m)) ms) @ [CHR 0x7D]"

definition is_ws :: "char \<Rightarrow> bool" where
  "is_ws c \<longleftrightarrow> c = CHR 0x20 \<or> c = CHR 0x09 \<or> c = CHR 0x0A \<or> c = CHR 0x0D"

definition skip_ws :: "string \<Rightarrow> string" where "skip_ws s = dropWhile is_ws s"

definition digit :: "char \<Rightarrow> bool" where "digit c \<longleftrightarrow> between 0x30 0x39 c"

text \<open>A number literal at the front of a string, and what follows it.\<close>

definition num_int :: "string \<Rightarrow> (string \<times> string) option" where
  "num_int s = (let ds = takeWhile digit s
     in if ds = [] \<or> (hd ds = CHR ''0'' \<and> tl ds \<noteq> []) then None else Some (ds, dropWhile digit s))"

definition num_frac :: "string \<Rightarrow> (string \<times> string) option" where
  "num_frac s = (case s of c # r \<Rightarrow> if c = CHR ''.'' then
       (let ds = takeWhile digit r in if ds = [] then None else Some (c # ds, dropWhile digit r))
     else Some ([], s) | [] \<Rightarrow> Some ([], []))"

definition num_exp :: "string \<Rightarrow> (string \<times> string) option" where
  "num_exp s = (case s of c # r \<Rightarrow> if c = CHR ''e'' \<or> c = CHR ''E'' then
       (let (sg, r) = (case r of d # r' \<Rightarrow> if d = CHR ''+'' \<or> d = CHR ''-'' then ([d], r') else ([], r) | [] \<Rightarrow> ([], []));
            ds = takeWhile digit r
        in if ds = [] then None else Some (c # sg @ ds, dropWhile digit r))
     else Some ([], s) | [] \<Rightarrow> Some ([], []))"

definition num_lit :: "string \<Rightarrow> (string \<times> string) option" where
  "num_lit s = (let (sg, s) = (case s of c # r \<Rightarrow> if c = CHR ''-'' then ([c], r) else ([], s) | [] \<Rightarrow> ([], []))
     in case num_int s of None \<Rightarrow> None | Some (i, s) \<Rightarrow>
        (case num_frac s of None \<Rightarrow> None | Some (f, s) \<Rightarrow>
          (case num_exp s of None \<Rightarrow> None | Some (x, s) \<Rightarrow> Some (sg @ i @ f @ x, s))))"

definition word_lit :: "string \<Rightarrow> string \<Rightarrow> string option" where
  "word_lit w s = (if take (length w) s = w then Some (drop (length w) s) else None)"

definition p_scalar :: "string \<Rightarrow> (json \<times> string) option" where
  "p_scalar s = (case word_lit ''true'' s of Some r \<Rightarrow> Some (JBool True, r) | None \<Rightarrow>
     (case word_lit ''false'' s of Some r \<Rightarrow> Some (JBool False, r) | None \<Rightarrow>
       (case word_lit ''null'' s of Some r \<Rightarrow> Some (JNull, r) | None \<Rightarrow>
         (case num_lit s of Some (l, r) \<Rightarrow> Some (JNum l, r) | None \<Rightarrow> None))))"

fun p_val :: "nat \<Rightarrow> string \<Rightarrow> (json \<times> string) option"
  and p_elems :: "nat \<Rightarrow> string \<Rightarrow> json list \<Rightarrow> (json \<times> string) option"
  and p_members :: "nat \<Rightarrow> string \<Rightarrow> (string \<times> json) list \<Rightarrow> (json \<times> string) option" where
  "p_val 0 s = None"
| "p_val (Suc n) s = (case skip_ws s of [] \<Rightarrow> None | c # r \<Rightarrow>
     if c = CHR 0x7B then (case skip_ws r of d # r' \<Rightarrow> if d = CHR 0x7D then Some (JObj [], r') else p_members n r []
        | [] \<Rightarrow> None)
     else if c = CHR ''['' then (case skip_ws r of d # r' \<Rightarrow> if d = CHR '']'' then Some (JArr [], r') else p_elems n r []
        | [] \<Rightarrow> None)
     else if c = CHR 0x22 then (case unesc r of None \<Rightarrow> None | Some (t, r') \<Rightarrow> Some (JStr t, r'))
     else p_scalar (c # r))"
| "p_elems 0 s acc = None"
| "p_elems (Suc n) s acc = (case p_val n s of None \<Rightarrow> None | Some (v, r) \<Rightarrow>
     (case skip_ws r of [] \<Rightarrow> None | c # r' \<Rightarrow>
        if c = CHR '','' then p_elems n r' (acc @ [v])
        else if c = CHR '']'' then Some (JArr (acc @ [v]), r') else None))"
| "p_members 0 s acc = None"
| "p_members (Suc n) s acc = (case skip_ws s of [] \<Rightarrow> None | c # r \<Rightarrow>
     if c \<noteq> CHR 0x22 then None
     else (case unesc r of None \<Rightarrow> None | Some (k, r) \<Rightarrow>
       (case skip_ws r of [] \<Rightarrow> None | d # r \<Rightarrow>
         if d \<noteq> CHR '':'' then None
         else (case p_val n r of None \<Rightarrow> None | Some (v, r) \<Rightarrow>
           (case skip_ws r of [] \<Rightarrow> None | x # r' \<Rightarrow>
             if x = CHR '','' then p_members n r' (acc @ [(k, v)])
             else if x = CHR 0x7D then Some (JObj (acc @ [(k, v)]), r') else None)))))"

definition json_parse :: "string \<Rightarrow> json option" where
  "json_parse s = (case p_val (2 * length s + 2) s of None \<Rightarrow> None
     | Some (v, r) \<Rightarrow> if skip_ws r = [] then Some v else None)"

end
