(* ===== verification/Json_Roundtrip.thy ===== *)
theory Json_Roundtrip
  imports Json
begin

text \<open>
  Parsing the compact text of a value gives the value back, for valid UTF-8 strings and integer
  numbers: what the record layer writes it can read.
\<close>

section \<open>Strings\<close>

function utf8 :: "string \<Rightarrow> bool" where
  "utf8 s = (if s = [] then True else if rune_len s = 0 then False else utf8 (drop (rune_len s) s))"
  by pat_completeness auto
termination by (relation "measure length") auto

declare utf8.simps [simp del]

lemma utf8_Nil [simp]: "utf8 []" by (simp add: utf8.simps)

lemma utf8_ascii: "\<forall>c \<in> set s. cval c < 0x80 \<Longrightarrow> utf8 s"
proof (induction s)
  case (Cons c s)
  have "rune_len (c # s) = 1" using Cons.prems by (simp add: rune_len_def)
  then show ?case using Cons by (subst utf8.simps) simp
qed simp

lemma rune_len_take: "rune_len s = n \<Longrightarrow> n \<noteq> 0 \<Longrightarrow> rune_len (take n s @ t) = n"
  using runes_take by (cases s) (auto simp: rune_len_def numeral_eq_Suc split: if_splits)

lemma rune_len_1: "rune_len s = 1 \<longleftrightarrow> (\<exists>c r. s = c # r \<and> cval c < 0x80)"
  by (auto simp: rune_len_def split: list.splits if_splits)

lemma rune_len_multi: "rune_len s \<noteq> 0 \<Longrightarrow> rune_len s \<noteq> 1 \<Longrightarrow> \<exists>c r. s = c # r \<and> 0x80 \<le> cval c"
  by (cases s) (auto simp: rune_len_def split: if_splits)

lemma chr_cval [simp]: "chr (cval c) = c"
  by (simp add: chr_def cval_def)

lemma hex_of_digits: "list_all (\<lambda>n. hex_of (json_hex n) = Some n) [0..<16]"
  by code_simp

lemma hex_of_json_hex [simp]: "n < 16 \<Longrightarrow> hex_of (json_hex n) = Some n"
  using hex_of_digits by (auto simp: list_all_iff)

lemma hex_of_0 [simp]: "hex_of CHR ''0'' = Some 0"
  by code_simp

lemma unesc_plain:
  assumes "0x20 \<le> cval c" "cval c < 0x80" "c \<noteq> CHR 0x22" "c \<noteq> CHR 0x5C"
  shows "unesc (c # t) = push [c] (unesc t)"
  using assms by (subst unesc.simps) (simp add: rune_len_def)

lemma unesc_simple: "simple_escape e = Some x \<Longrightarrow> unesc (CHR 0x5C # e # t) = push [x] (unesc t)"
  by (subst unesc.simps) simp

lemma unesc_u:
  assumes "hex4 (u @ t) = Some v" "length u = 4" "v < 0xD800"
  shows "unesc (CHR 0x5C # CHR ''u'' # u @ t) = push (utf8_enc v) (unesc t)"
  using assms by (subst unesc.simps) (simp add: simple_escape_def)

lemma unesc_esc1:
  assumes "cval c < 0x80"
  shows "unesc (esc1 c @ t) = push [c] (unesc t)"
proof -
  let ?u = "[CHR ''0'', CHR ''0'', json_hex (cval c div 16), json_hex (cval c mod 16)]"
  have u: "unesc (CHR 0x5C # CHR ''u'' # ?u @ t) = push [c] (unesc t)"
    using unesc_u [of ?u t "cval c"] assms by (simp add: utf8_enc_def)
  show ?thesis
    unfolding esc1_def using u unesc_plain [of c t] unesc_simple [of _ _ t] assms
    by (auto simp: simple_escape_def)
qed

lemma separators:
  "utf8_enc 0x2028 = [CHR 0xE2, CHR 0x80, CHR 0xA8]" "utf8_enc 0x2029 = [CHR 0xE2, CHR 0x80, CHR 0xA9]"
  using chr_cval [of "CHR 0xE2"] chr_cval [of "CHR 0x80"] chr_cval [of "CHR 0xA8"] chr_cval [of "CHR 0xA9"]
  by (simp_all add: utf8_enc_def cval_def)

lemma hex_separators: "hex4 (''2028'' @ t) = Some 0x2028" "hex4 (''2029'' @ t) = Some 0x2029"
  by (simp_all add: hex_of_def between_def cval_def)

lemma unesc_rune:
  assumes "rune_len s = n" "n \<noteq> 0" "n \<noteq> 1"
  shows "unesc (take n s @ t) = push (take n s) (unesc t)"
proof -
  from rune_len_multi [of s] assms obtain c r where c: "s = c # r" "0x80 \<le> cval c" by auto
  have "cval CHR 0x22 = 0x22" "cval CHR 0x5C = 0x5C" by (simp_all add: cval_def)
  then have ne: "c \<noteq> CHR 0x22" "c \<noteq> CHR 0x5C" "\<not> cval c < 0x20" using c(2) by auto
  obtain r' where tk: "take n s = c # r'" using c(1) assms(2) by (cases n) auto
  have n: "rune_len (take n s @ t) = n" using rune_len_take assms by blast
  have len: "length (take n s) = n" using rune_len_le(1) [of s] assms(1) by simp
  have "take n (take n s @ t) = take n s" "drop n (take n s @ t) = t" using len by simp_all
  then show ?thesis using ne n assms(2) by (subst unesc.simps) (simp add: tk)
qed

lemma unesc_esc_rune:
  assumes "rune_len s = n" "n \<noteq> 0" "n \<noteq> 1"
  shows "unesc (esc_rune (take n s) @ t) = push (take n s) (unesc t)"
  using unesc_rune [OF assms, of t] unesc_u [OF hex_separators(1) [of t]] unesc_u [OF hex_separators(2) [of t]]
  by (simp add: esc_rune_def separators)

lemma unesc_esc: "utf8 s \<Longrightarrow> unesc (esc s @ CHR 0x22 # t) = Some (s, t)"
proof (induction s rule: esc.induct)
  case (1 s)
  show ?case
  proof (cases "s = []")
    case True
    then show ?thesis by (simp add: esc.simps) (subst unesc.simps, simp)
  next
    case False
    then have n: "rune_len s \<noteq> 0" "utf8 (drop (rune_len s) s)" using "1.prems" by (simp_all add: utf8.simps [of s] split: if_splits)
    show ?thesis
    proof (cases "rune_len s = 1")
      case True
      then obtain c r where s: "s = c # r" "cval c < 0x80" using rune_len_1 by auto
      then have "unesc (esc r @ CHR 0x22 # t) = Some (r, t)" using "1.IH"(2) n True False by simp
      then show ?thesis using s True unesc_esc1 [OF s(2)] by (subst esc.simps) (simp add: push_def)
    next
      case False
      then have "unesc (esc (drop (rune_len s) s) @ CHR 0x22 # t) = Some (drop (rune_len s) s, t)"
        using "1.IH"(3) n \<open>s \<noteq> []\<close> by simp
      then show ?thesis
        using False n \<open>s \<noteq> []\<close> unesc_esc_rune [of s] by (subst esc.simps) (simp add: push_def)
    qed
  qed
qed

lemma unesc_quote: "utf8 s \<Longrightarrow> unesc (tl (quote s) @ t) = Some (s, t)"
  by (simp add: quote_def unesc_esc)

section \<open>Integers\<close>

fun nat_dec :: "nat \<Rightarrow> string" where
  "nat_dec n = (if n < 10 then [chr (48 + n)] else nat_dec (n div 10) @ [chr (48 + n mod 10)])"

definition int_dec :: "int \<Rightarrow> string" where
  "int_dec i = (if i < 0 then CHR ''-'' # nat_dec (nat (- i)) else nat_dec (nat i))"

definition dec_nat :: "string \<Rightarrow> nat" where
  "dec_nat s = foldl (\<lambda>n c. 10 * n + (cval c - 48)) 0 s"

text \<open>What \<^verbatim>\<open>strconv\<close> accepts as a decimal integer: an optional sign and digits.\<close>

definition dec_int :: "string \<Rightarrow> int option" where
  "dec_int s = (case s of [] \<Rightarrow> None | c # r \<Rightarrow>
     if c = CHR ''-'' then (if r \<noteq> [] \<and> list_all digit r then Some (- int (dec_nat r)) else None)
     else if list_all digit s then Some (int (dec_nat s)) else None)"

declare nat_dec.simps [simp del]

lemma cval_chr [simp]: "n < 256 \<Longrightarrow> cval (chr n) = n"
  by (simp add: chr_def cval_def)

lemma digit_chr: "n < 10 \<Longrightarrow> digit (chr (48 + n))"
  by (simp add: digit_def between_def)

lemma nat_dec_digits: "list_all digit (nat_dec n)" "nat_dec n \<noteq> []"
proof (induction n rule: nat_dec.induct)
  case (1 n)
  {
    case 1
    show ?case by (subst nat_dec.simps) (use "1.IH"(1) in \<open>auto simp: digit_chr\<close>)
  next
    case 2
    show ?case by (subst nat_dec.simps) simp
  }
qed

lemma dec_nat_nat_dec: "dec_nat (nat_dec n) = n"
proof (induction n rule: nat_dec.induct)
  case (1 n)
  then show ?case by (subst nat_dec.simps) (simp add: dec_nat_def)
qed

lemma nat_dec_hd: "n \<noteq> 0 \<Longrightarrow> hd (nat_dec n) \<noteq> CHR ''0''"
proof (induction n rule: nat_dec.induct)
  case (1 n)
  show ?case
  proof (cases "n < 10")
    case True
    have "cval (chr (48 + n)) \<noteq> cval CHR ''0''" using True 1(2) by (simp add: cval_def [of "CHR ''0''"])
    then have "chr (48 + n) \<noteq> CHR ''0''" by metis
    then show ?thesis using True by (subst nat_dec.simps) simp
  next
    case False
    then show ?thesis using 1 nat_dec_digits(2) by (subst nat_dec.simps) simp
  qed
qed

lemma nat_dec_no_minus: "hd (nat_dec n) \<noteq> CHR ''-''"
  using nat_dec_digits [of n] by (cases "nat_dec n") (auto simp: digit_def between_def cval_def)

lemma dec_int_int_dec: "dec_int (int_dec i) = Some i"
proof (cases "i < 0")
  case True
  then show ?thesis using nat_dec_digits by (simp add: int_dec_def dec_int_def dec_nat_nat_dec)
next
  case False
  then show ?thesis
    using nat_dec_digits [of "nat i"] nat_dec_no_minus [of "nat i"] dec_nat_nat_dec [of "nat i"]
    by (cases "nat_dec (nat i)") (auto simp: int_dec_def dec_int_def)
qed

section \<open>Values\<close>

fun good :: "json \<Rightarrow> bool" where
  "good JNull = True"
| "good (JBool b) = True"
| "good (JNum l) = (\<exists>i. l = int_dec i)"
| "good (JStr s) = utf8 s"
| "good (JArr vs) = (\<forall>v \<in> set vs. good v)"
| "good (JObj ms) = (\<forall>m \<in> set ms. utf8 (fst m) \<and> good (snd m))"

definition stop :: "string \<Rightarrow> bool" where
  "stop r \<longleftrightarrow> (case r of [] \<Rightarrow> True | c # _ \<Rightarrow> c = CHR '','' \<or> c = CHR '']'' \<or> c = CHR 0x7D)"

lemma stop_simps [simp]: "stop []" "stop (CHR '','' # r)" "stop (CHR '']'' # r)" "stop (CHR 0x7D # r)"
  by (simp_all add: stop_def)

lemma not_digit: "\<not> digit CHR '',''" "\<not> digit CHR '']''" "\<not> digit CHR 0x7D"
  by (simp_all add: digit_def between_def cval_def)

lemma stop_num: "stop r \<Longrightarrow> takeWhile digit r = []" "stop r \<Longrightarrow> dropWhile digit r = r"
  "stop r \<Longrightarrow> num_frac r = Some ([], r)" "stop r \<Longrightarrow> num_exp r = Some ([], r)"
  by (cases r; auto simp: stop_def not_digit num_frac_def num_exp_def)+

lemma num_int_dec: "stop r \<Longrightarrow> num_int (nat_dec n @ r) = Some (nat_dec n, r)"
proof -
  assume r: "stop r"
  have d: "\<forall>c \<in> set (nat_dec n). digit c" using nat_dec_digits(1) [of n] by (simp add: list_all_iff)
  have tw: "takeWhile digit (nat_dec n @ r) = nat_dec n" "dropWhile digit (nat_dec n @ r) = r"
    using d stop_num(1,2) [OF r] by (simp_all add: takeWhile_append2 dropWhile_append2)
  have "\<not> (hd (nat_dec n) = CHR ''0'' \<and> tl (nat_dec n) \<noteq> [])"
  proof (cases "n = 0")
    case True
    then show ?thesis by (simp add: nat_dec.simps)
  next
    case False
    then show ?thesis using nat_dec_hd by blast
  qed
  then show ?thesis using nat_dec_digits(2) by (auto simp: num_int_def tw Let_def)
qed

lemma num_lit_dec:
  assumes "stop r"
  shows "num_lit (int_dec i @ r) = Some (int_dec i, r)"
proof (cases "i < 0")
  case True
  then show ?thesis using num_int_dec [OF assms] stop_num(3,4) [OF assms] by (simp add: int_dec_def num_lit_def)
next
  case False
  obtain c s where c: "nat_dec (nat i) = c # s" "c \<noteq> CHR ''-''"
    using nat_dec_digits(2) nat_dec_no_minus by (metis list.collapse)
  then show ?thesis
    using False num_int_dec [OF assms, of "nat i"] stop_num(3,4) [OF assms] by (simp add: int_dec_def num_lit_def)
qed

text \<open>The first character of an integer decides between the alternatives of a value.\<close>

lemma int_dec_hd: "\<exists>c s. int_dec i = c # s \<and> (c = CHR ''-'' \<or> digit c)"
  using nat_dec_digits [of "nat i"] by (cases "nat_dec (nat i)") (auto simp: int_dec_def)

lemma digit_not: "digit c \<or> c = CHR ''-'' \<Longrightarrow> \<not> is_ws c \<and> c \<noteq> CHR 0x7B \<and> c \<noteq> CHR ''['' \<and> c \<noteq> CHR 0x22
    \<and> c \<noteq> CHR ''t'' \<and> c \<noteq> CHR ''f'' \<and> c \<noteq> CHR ''n'' \<and> c \<noteq> CHR '']''"
  by (auto simp: digit_def between_def is_ws_def cval_def)

lemma p_val_num:
  assumes "stop r"
  shows "p_val (Suc n) (int_dec i @ r) = Some (JNum (int_dec i), r)"
proof -
  obtain c s where c: "int_dec i = c # s" "c = CHR ''-'' \<or> digit c" using int_dec_hd by blast
  have nl: "num_lit (c # s @ r) = Some (c # s, r)" using num_lit_dec [OF assms, of i] c(1) by simp
  have ne: "\<not> is_ws c" "c \<noteq> CHR 0x7B" "c \<noteq> CHR ''[''" "c \<noteq> CHR 0x22" "c \<noteq> CHR ''t''" "c \<noteq> CHR ''f''" "c \<noteq> CHR ''n''"
    using digit_not [of c] c(2) by blast+
  have "skip_ws (c # s @ r) = c # s @ r" using ne(1) by (simp add: skip_ws_def)
  moreover have "p_scalar (c # s @ r) = Some (JNum (c # s), r)" using ne nl by (simp add: p_scalar_def word_lit_def)
  ultimately show ?thesis unfolding c(1) using ne by simp
qed

definition starts :: "string \<Rightarrow> bool" where
  "starts s \<longleftrightarrow> (case s of [] \<Rightarrow> False | c # _ \<Rightarrow> \<not> is_ws c \<and> c \<noteq> CHR '']'')"

lemma enc_val_starts: "good j \<Longrightarrow> starts (enc_val j @ r)"
proof (cases j)
  case (JNum l)
  assume "good j"
  then obtain i where i: "l = int_dec i" using JNum by auto
  obtain c s where c: "int_dec i = c # s" "c = CHR ''-'' \<or> digit c" using int_dec_hd by blast
  then show ?thesis using digit_not [of c] by (auto simp: starts_def JNum i)
qed (simp_all add: starts_def quote_def is_ws_def)

lemma skip_ws_starts: "starts s \<Longrightarrow> skip_ws s = s"
  by (cases s) (auto simp: starts_def skip_ws_def)

lemma skip_ws_punct [simp]: "skip_ws (CHR '','' # r) = CHR '','' # r" "skip_ws (CHR '']'' # r) = CHR '']'' # r"
  "skip_ws (CHR 0x7D # r) = CHR 0x7D # r" "skip_ws (CHR '':'' # r) = CHR '':'' # r" "skip_ws (CHR 0x22 # r) = CHR 0x22 # r"
  "skip_ws [] = []"
  by (simp_all add: skip_ws_def is_ws_def)

lemma sep_simps [simp]: "sep [] = []" "sep [p] = p" "sep (p # q # ps) = p @ CHR '','' # sep (q # ps)"
  by (simp_all add: sep_def)

lemma p_elems_ok:
  assumes "\<And>v n r. v \<in> set vs \<Longrightarrow> 2 * length (enc_val v) \<le> n \<Longrightarrow> stop r \<Longrightarrow> p_val n (enc_val v @ r) = Some (v, r)"
    and "vs \<noteq> []" "2 * length (sep (map enc_val vs)) + 1 \<le> n"
  shows "p_elems n (sep (map enc_val vs) @ CHR '']'' # r) acc = Some (JArr (acc @ vs), r)"
  using assms
proof (induction vs arbitrary: n acc)
  case (Cons v vs)
  obtain m where n: "n = Suc m" using Cons.prems(3) by (cases n) auto
  show ?case
  proof (cases vs)
    case Nil
    then show ?thesis using Cons.prems n by simp
  next
    case (Cons w ws)
    have "p_val m (enc_val v @ CHR '','' # sep (map enc_val vs) @ CHR '']'' # r) = Some (v, CHR '','' # sep (map enc_val vs) @ CHR '']'' # r)"
      using Cons.prems(1,3) n Cons by simp
    moreover have "p_elems m (sep (map enc_val vs) @ CHR '']'' # r) (acc @ [v]) = Some (JArr ((acc @ [v]) @ vs), r)"
      using Cons.prems n Cons by (intro Cons.IH) auto
    ultimately show ?thesis using Cons n by simp
  qed
qed simp

definition enc_mem :: "string \<times> json \<Rightarrow> string" where
  "enc_mem m = quote (fst m) @ CHR '':'' # enc_val (snd m)"

lemma p_members_step:
  assumes "utf8 (fst m)" "p_val n (enc_val (snd m) @ c # r) = Some (snd m, c # r)" "c = CHR '','' \<or> c = CHR 0x7D"
  shows "p_members (Suc n) (enc_mem m @ c # r) acc =
    (if c = CHR '','' then p_members n r (acc @ [m]) else Some (JObj (acc @ [m]), r))"
proof -
  have "unesc (esc (fst m) @ CHR 0x22 # CHR '':'' # enc_val (snd m) @ c # r) = Some (fst m, CHR '':'' # enc_val (snd m) @ c # r)"
    using unesc_esc [OF assms(1)] by simp
  then show ?thesis using assms(2,3) by (auto simp: enc_mem_def quote_def)
qed

lemma p_members_ok:
  assumes "\<And>m n r. m \<in> set ms \<Longrightarrow> 2 * length (enc_val (snd m)) \<le> n \<Longrightarrow> stop r \<Longrightarrow> p_val n (enc_val (snd m) @ r) = Some (snd m, r)"
    and "\<forall>m \<in> set ms. utf8 (fst m)" "ms \<noteq> []" "2 * length (sep (map enc_mem ms)) + 1 \<le> n"
  shows "p_members n (sep (map enc_mem ms) @ CHR 0x7D # r) acc = Some (JObj (acc @ ms), r)"
  using assms
proof (induction ms arbitrary: n acc)
  case (Cons m ms)
  obtain k where n: "n = Suc k" using Cons.prems(4) by (cases n) auto
  have u: "utf8 (fst m)" using Cons.prems(2) by simp
  show ?case
  proof (cases ms)
    case Nil
    have "p_val k (enc_val (snd m) @ CHR 0x7D # r) = Some (snd m, CHR 0x7D # r)"
      using Cons.prems(1,4) n Nil by (simp add: enc_mem_def)
    then show ?thesis using p_members_step [OF u] n Nil by simp
  next
    case (Cons w ws)
    have "p_val k (enc_val (snd m) @ CHR '','' # sep (map enc_mem ms) @ CHR 0x7D # r)
        = Some (snd m, CHR '','' # sep (map enc_mem ms) @ CHR 0x7D # r)"
      using Cons.prems(1,4) n Cons by (simp add: enc_mem_def)
    moreover have "p_members k (sep (map enc_mem ms) @ CHR 0x7D # r) (acc @ [m]) = Some (JObj ((acc @ [m]) @ ms), r)"
      using Cons.prems n Cons by (intro Cons.IH) (auto simp: enc_mem_def)
    ultimately show ?thesis using p_members_step [OF u] n Cons by simp
  qed
qed simp

lemma p_val_ok: "good j \<Longrightarrow> 2 * length (enc_val j) \<le> n \<Longrightarrow> stop r \<Longrightarrow> p_val n (enc_val j @ r) = Some (j, r)"
proof (induction j arbitrary: n r)
  case JNull
  then show ?case by (cases n) (auto simp: skip_ws_def is_ws_def p_scalar_def word_lit_def)
next
  case (JBool b)
  then show ?case by (cases n) (auto simp: skip_ws_def is_ws_def p_scalar_def word_lit_def split: if_splits)
next
  case (JNum l)
  then obtain i where "l = int_dec i" by auto
  moreover have "int_dec i \<noteq> []" for i using int_dec_hd [of i] by auto
  ultimately show ?case using JNum p_val_num by (cases n) auto
next
  case (JStr s)
  then show ?case using unesc_quote [of s r] by (cases n) (auto simp: quote_def)
next
  case (JArr vs)
  obtain m where n: "n = Suc m" using JArr.prems(2) by (cases n) auto
  show ?case
  proof (cases vs)
    case Nil
    then show ?thesis by (simp add: n skip_ws_def is_ws_def)
  next
    case (Cons v ws)
    have st: "starts (sep (map enc_val vs) @ CHR '']'' # r)"
      using enc_val_starts [of v] JArr.prems(1) Cons by (cases ws) simp_all
    have "p_elems m (sep (map enc_val vs) @ CHR '']'' # r) [] = Some (JArr ([] @ vs), r)"
      using JArr.prems Cons n by (intro p_elems_ok JArr.IH) auto
    then show ?thesis
      using st skip_ws_starts [OF st] n by (auto simp: starts_def skip_ws_def is_ws_def split: list.splits)
  qed
next
  case (JObj ms)
  obtain m where n: "n = Suc m" using JObj.prems(2) by (cases n) auto
  have enc: "enc_val (JObj ms) = CHR 0x7B # sep (map enc_mem ms) @ [CHR 0x7D]"
    unfolding enc_mem_def by simp
  show ?case
  proof (cases ms)
    case Nil
    then show ?thesis by (simp add: n skip_ws_def is_ws_def)
  next
    case (Cons v ws)
    obtain t where t: "sep (map enc_mem ms) @ CHR 0x7D # r = CHR 0x22 # t"
      using Cons by (cases ws) (auto simp: enc_mem_def quote_def)
    have "p_members m (sep (map enc_mem ms) @ CHR 0x7D # r) [] = Some (JObj ([] @ ms), r)"
      using JObj.prems Cons n enc by (intro p_members_ok JObj.IH) (auto simp: snds.simps)
    then show ?thesis unfolding enc using t n by (simp add: skip_ws_def is_ws_def)
  qed
qed

lemma json_parse_enc_val: "good j \<Longrightarrow> json_parse (enc_val j) = Some j"
  using p_val_ok [of j "2 * length (enc_val j) + 2" "[]"] by (simp add: json_parse_def)

section \<open>What the parser answers\<close>

lemma utf8_rune: "rune_len u = length u \<Longrightarrow> u \<noteq> [] \<Longrightarrow> utf8 t \<Longrightarrow> utf8 (u @ t)"
  using rune_len_take [of u "length u" t] by (subst utf8.simps) simp

lemma utf8_char: "cval c < 0x80 \<Longrightarrow> utf8 t \<Longrightarrow> utf8 (c # t)"
  using utf8_rune [of "[c]" t] by (simp add: rune_len_def)

lemma hex_of_bound: "hex_of c = Some v \<Longrightarrow> v < 16"
  by (auto simp: hex_of_def between_def split: if_splits)

lemma hex4_bound: "hex4 s = Some v \<Longrightarrow> v < 0x10000"
proof (cases s rule: hex4.cases)
  case (1 a b c d t)
  assume "hex4 s = Some v"
  with 1 obtain w x y z where "hex_of a = Some w" "hex_of b = Some x" "hex_of c = Some y" "hex_of d = Some z" "v = ((w * 16 + x) * 16 + y) * 16 + z"
    by (auto split: option.splits)
  then show ?thesis using hex_of_bound [of a w] hex_of_bound [of b x] hex_of_bound [of c y] hex_of_bound [of d z] by simp
qed simp_all

lemma rune_len_2: "a < 32 \<Longrightarrow> 2 \<le> a \<Longrightarrow> b < 64 \<Longrightarrow> rune_len [chr (0xC0 + a), chr (0x80 + b)] = 2"
  by (simp add: rune_len_def between_def runes2_def)

lemma rune_len_3:
  "a < 16 \<Longrightarrow> b < 64 \<Longrightarrow> c < 64 \<Longrightarrow> (a = 0 \<Longrightarrow> 32 \<le> b) \<Longrightarrow> (a = 13 \<Longrightarrow> b < 32) \<Longrightarrow> rune_len [chr (0xE0 + a), chr (0x80 + b), chr (0x80 + c)] = 3"
  by (auto simp: rune_len_def between_def runes3_def)

lemma rune_len_4:
  "a < 5 \<Longrightarrow> b < 64 \<Longrightarrow> c < 64 \<Longrightarrow> d < 64 \<Longrightarrow> (a = 0 \<Longrightarrow> 16 \<le> b) \<Longrightarrow> (a = 4 \<Longrightarrow> b < 16)
    \<Longrightarrow> rune_len [chr (0xF0 + a), chr (0x80 + b), chr (0x80 + c), chr (0x80 + d)] = 4"
  by (auto simp: rune_len_def between_def runes4_def)

lemma surrogate_gap:
  fixes v :: nat
  assumes "\<not> (0xD800 \<le> v \<and> v < 0xE000)"
  shows "v div 4096 = 13 \<Longrightarrow> v div 64 mod 64 < 32"
proof -
  assume a: "v div 4096 = 13"
  define x where "x = v div 64"
  have "v div 4096 = x div 64" by (simp add: x_def div_mult2_eq [symmetric])
  then have "x div 64 = 13" using a by simp
  moreover have "x < 864 \<or> 896 \<le> x" using assms unfolding x_def by linarith
  moreover have "x = 64 * (x div 64) + x mod 64" by simp
  moreover have "x mod 64 < 64" by simp
  ultimately have "x mod 64 < 32" by linarith
  then show ?thesis by (simp add: x_def)
qed

lemma rune_len_enc_3:
  assumes "0x800 \<le> v" "v < 0x10000" "\<not> (0xD800 \<le> v \<and> v < 0xE000)"
  shows "rune_len (utf8_enc v) = length (utf8_enc v)"
proof -
  have "v div 4096 < 16" using assms(2) by linarith
  moreover have "v div 4096 = 0 \<Longrightarrow> 32 \<le> v div 64 mod 64"
  proof -
    assume "v div 4096 = 0"
    then have "v < 4096" by linarith
    then have "v div 64 < 64" "32 \<le> v div 64" using assms(1) by linarith+
    then show ?thesis by simp
  qed
  ultimately have "rune_len [chr (0xE0 + v div 4096), chr (0x80 + v div 64 mod 64), chr (0x80 + v mod 64)] = 3"
    using surrogate_gap [OF assms(3)] by (intro rune_len_3) simp_all
  moreover have "utf8_enc v = [chr (0xE0 + v div 4096), chr (0x80 + v div 64 mod 64), chr (0x80 + v mod 64)]"
    using assms(1,2) unfolding utf8_enc_def by (simp only: not_le [symmetric] if_False if_True) simp
  ultimately show ?thesis by simp
qed

lemma rune_len_enc_4:
  assumes "0x10000 \<le> v" "v < 0x110000"
  shows "rune_len (utf8_enc v) = length (utf8_enc v)"
proof -
  define x where "x = v div 4096"
  have q: "v div 262144 = x div 64" by (simp add: x_def div_mult2_eq [symmetric])
  have x: "16 \<le> x" "x < 272" using assms unfolding x_def by linarith+
  have "x div 64 < 5" using x by linarith
  moreover have "x div 64 = 0 \<Longrightarrow> 16 \<le> x mod 64" "x div 64 = 4 \<Longrightarrow> x mod 64 < 16" using x mult_div_mod_eq [of 64 x] by linarith+
  ultimately have "rune_len [chr (0xF0 + x div 64), chr (0x80 + x mod 64), chr (0x80 + v div 64 mod 64), chr (0x80 + v mod 64)] = 4"
    by (intro rune_len_4) simp_all
  moreover have "utf8_enc v = [chr (0xF0 + x div 64), chr (0x80 + x mod 64), chr (0x80 + v div 64 mod 64), chr (0x80 + v mod 64)]"
    using assms unfolding utf8_enc_def q x_def [symmetric] by simp
  ultimately show ?thesis by simp
qed

lemma rune_len_enc:
  assumes "v < 0x110000" "\<not> (0xD800 \<le> v \<and> v < 0xE000)"
  shows "rune_len (utf8_enc v) = length (utf8_enc v)"
proof -
  consider "v < 0x80" | "0x80 \<le> v" "v < 0x800" | "0x800 \<le> v" "v < 0x10000" | "0x10000 \<le> v" by linarith
  then show ?thesis
  proof cases
    case 1
    then show ?thesis by (simp add: utf8_enc_def rune_len_def)
  next
    case 2
    have "v div 64 < 32" "2 \<le> v div 64" using 2 by linarith+
    then show ?thesis using 2 rune_len_2 [of "v div 64" "v mod 64"] by (simp add: utf8_enc_def)
  next
    case 3
    then show ?thesis using rune_len_enc_3 assms(2) by blast
  next
    case 4
    then show ?thesis using rune_len_enc_4 assms(1) by blast
  qed
qed

lemma utf8_enc_nonempty: "utf8_enc v \<noteq> []"
  by (simp add: utf8_enc_def)

lemma push_Some: "push u r = Some (t, rest) \<longleftrightarrow> (\<exists>s. r = Some (s, rest) \<and> t = u @ s)"
  by (auto simp: push_def split: option.splits)

lemma low_surrogate_bound: "low_surrogate v s = Some w \<Longrightarrow> 0x10000 \<le> w \<and> w < 0x110000"
  by (auto simp: low_surrogate_def split: list.splits if_splits option.splits)

lemma simple_escape_ascii: "simple_escape e = Some x \<Longrightarrow> cval x < 0x80"
  by (auto simp: simple_escape_def cval_def split: if_splits)

lemma replacement_len: "rune_len replacement = length replacement" "replacement \<noteq> []"
  by (simp_all add: replacement_def rune_len_def between_def runes3_def cval_def)

lemma utf8_enc_append: "v < 0x110000 \<Longrightarrow> \<not> (0xD800 \<le> v \<and> v < 0xE000) \<Longrightarrow> utf8 t \<Longrightarrow> utf8 (utf8_enc v @ t)"
  using rune_len_enc utf8_enc_nonempty by (simp add: utf8_rune)

lemma unesc_utf8: "unesc s = Some (t, r) \<Longrightarrow> utf8 t"
proof (induction s arbitrary: t r rule: unesc.induct)
  case (1 s)
  note IH = "1.IH" and res = "1.prems" [unfolded unesc.simps [of s]]
  show ?case
  proof (cases s)
    case Nil
    then show ?thesis using res by simp
  next
    case (Cons c q)
    show ?thesis
    proof (cases "c = CHR 0x22 \<or> c = CHR 0x5C \<or> cval c < 0x20")
      case False
      show ?thesis
      proof (cases "rune_len s = 0")
        case True
        then obtain u where u: "unesc q = Some (u, r)" "t = replacement @ u" using False res Cons by (auto simp: push_Some)
        then show ?thesis using IH(5) [OF Cons _ _ _ True u(1)] False utf8_rune [OF replacement_len] by simp
      next
        case len: False
        then obtain u where u: "unesc (drop (rune_len s) s) = Some (u, r)" "t = take (rune_len s) s @ u"
          using False res Cons by (auto simp: push_Some)
        have "utf8 u" using IH(6) [OF Cons _ _ _ len] u(1) False Cons by simp
        then show ?thesis using u(2) len rune_len_take [of s "rune_len s" "[]"] rune_len_le [of s]
          by (auto intro!: utf8_rune simp: min_def)
      qed
    next
      case True
      then show ?thesis
      proof (cases "c = CHR 0x5C")
        case bs: True
        then obtain e q' where q: "q = e # q'" using res Cons by (cases q) simp_all
        show ?thesis
        proof (cases "simple_escape e")
          case (Some x)
          then obtain u where u: "unesc q' = Some (u, r)" "t = [x] @ u" using res Cons bs q by (auto simp: push_Some)
          then show ?thesis using IH(4) [OF Cons _ bs q Some] u simple_escape_ascii [OF Some] bs utf8_char by simp
        next
          case None
          then have e: "e = CHR ''u''" using res Cons bs q by (simp split: if_splits)
          then obtain v where v: "hex4 q' = Some v" using res Cons bs q None by (auto split: option.splits)
          show ?thesis
          proof (cases "0xD800 \<le> v \<and> v < 0xE000")
            case sur: True
            show ?thesis
            proof (cases "low_surrogate v (drop 4 q')")
              case low: None
              then obtain u where u: "unesc (drop 4 q') = Some (u, r)" "t = replacement @ u" using res Cons bs q None e v sur by (auto simp: push_Some)
              then show ?thesis using IH(1) [OF Cons _ bs q None _ v sur low] u(1) e bs utf8_rune [OF replacement_len] by simp
            next
              case low: (Some w)
              then obtain u where u: "unesc (drop 10 q') = Some (u, r)" "t = utf8_enc w @ u" using res Cons bs q None e v sur by (auto simp: push_Some)
              have "utf8 u" using IH(2) [OF Cons _ bs q None _ v sur low] u(1) e bs by simp
              then show ?thesis using u(2) low_surrogate_bound [OF low] by (simp add: utf8_enc_append)
            qed
          next
            case sur: False
            then obtain u where u: "unesc (drop 4 q') = Some (u, r)" "t = utf8_enc v @ u" using res Cons bs q None e v by (auto simp: push_Some)
            have "utf8 u" using IH(3) [OF Cons _ bs q None _ v sur] u(1) e bs by simp
            then show ?thesis using u(2) hex4_bound [OF v] sur utf8_enc_append [of v u] by simp
          qed
        qed
      next
        case False
        then show ?thesis using res Cons True by (auto split: if_splits)
      qed
    qed
  qed
qed

fun texts_ok :: "json \<Rightarrow> bool" where
  "texts_ok (JStr s) = utf8 s"
| "texts_ok (JArr vs) = (\<forall>v \<in> set vs. texts_ok v)"
| "texts_ok (JObj ms) = (\<forall>m \<in> set ms. texts_ok (snd m))"
| "texts_ok _ = True"

lemma p_scalar_texts: "p_scalar s = Some (j, r) \<Longrightarrow> texts_ok j"
  by (auto simp: p_scalar_def split: option.splits)

lemma parsed_texts:
  "p_val n s = Some (j, r) \<Longrightarrow> texts_ok j"
  "p_elems n s vs = Some (j, r) \<Longrightarrow> \<forall>v \<in> set vs. texts_ok v \<Longrightarrow> texts_ok j"
  "p_members n s ms = Some (j, r) \<Longrightarrow> \<forall>m \<in> set ms. texts_ok (snd m) \<Longrightarrow> texts_ok j"
proof (induction n s and n s vs and n s ms arbitrary: j r and j r and j r rule: p_val_p_elems_p_members.induct)
  case (2 n s)
  then show ?case using unesc_utf8 p_scalar_texts by (auto split: list.splits if_splits option.splits)
next
  case (4 n s acc)
  then show ?case by (auto split: list.splits if_splits option.splits)
next
  case (6 n s acc)
  then show ?case by (auto split: list.splits if_splits option.splits)
qed simp_all

lemma json_parse_texts: "json_parse s = Some j \<Longrightarrow> texts_ok j"
  by (auto simp: json_parse_def simp del: p_val.simps dest: parsed_texts(1) split: option.splits prod.splits if_splits)

end
