(* ===== verification/Codec.thy ===== *)
theory Codec
  imports Json_Roundtrip Common
begin

text \<open>
  How \<^verbatim>\<open>encoding/json\<close> moves a Go struct to JSON text and back. A struct's decoder is a table of
  setters; each member of an object goes to the field of its name, by exact match first and by
  Go's case folding otherwise, unknown members are skipped, and a member of the wrong type makes the
  whole decode fail. A null leaves a scalar as it is and empties a slice or a pointer. A nil and an
  empty slice are both the empty list here and are written as null; both read back as no elements.
\<close>

type_synonym i64 = int

definition i64_ok :: "i64 \<Rightarrow> bool" where
  "i64_ok i \<longleftrightarrow> - (2 ^ 63) \<le> i \<and> i < 2 ^ 63"

section \<open>Text and bytes\<close>

definition text_bytes :: "string \<Rightarrow> bytes" where "text_bytes s = map (\<lambda>c. of_nat (cval c)) s"
definition bytes_text :: "bytes \<Rightarrow> string" where "bytes_text bs = map (\<lambda>b. chr (unat b)) bs"

lemma cval_bound: "cval c < 256"
proof -
  have "cval c = cval c mod 256" by (simp add: cval_def)
  also have "\<dots> < 256" by (rule mod_less_divisor) simp
  finally show ?thesis .
qed

lemma bytes_text_bytes [simp]: "bytes_text (text_bytes s) = s"
proof -
  have "chr (unat (of_nat (cval c) :: byte)) = c" for c
    using cval_bound [of c] by (simp add: unat_of_nat)
  then show ?thesis by (simp add: bytes_text_def text_bytes_def comp_def)
qed

section \<open>Field names\<close>

fun foldName :: "string \<Rightarrow> string" where
  "foldName [] = []"
| "foldName (c # s) =
     (if c = CHR 0xC5 \<and> take 1 s = [CHR 0xBF] then CHR ''S'' # foldName (drop 1 s)
      else if c = CHR 0xE2 \<and> take 2 s = [CHR 0x84, CHR 0xAA] then CHR ''K'' # foldName (drop 2 s)
      else if between 0x61 0x7A c then chr (cval c - 0x20) # foldName s
      else c # foldName s)"

type_synonym 'a setter = "json \<Rightarrow> 'a \<Rightarrow> 'a option"

definition find_field :: "(string \<times> 'a setter) list \<Rightarrow> string \<Rightarrow> 'a setter option" where
  "find_field fs k = (case map_of fs k of Some f \<Rightarrow> Some f
     | None \<Rightarrow> map_option snd (List.find (\<lambda>nf. foldName (fst nf) = foldName k) fs))"

fun set_members :: "(string \<times> 'a setter) list \<Rightarrow> (string \<times> json) list \<Rightarrow> 'a \<Rightarrow> 'a option" where
  "set_members fs [] st = Some st"
| "set_members fs ((k, v) # ms) st =
     (case find_field fs k of None \<Rightarrow> set_members fs ms st
      | Some f \<Rightarrow> (case f v st of None \<Rightarrow> None | Some st' \<Rightarrow> set_members fs ms st'))"

definition decode_struct :: "(string \<times> 'a setter) list \<Rightarrow> 'a \<Rightarrow> json \<Rightarrow> 'a option" where
  "decode_struct fs zero j = (case j of JObj ms \<Rightarrow> set_members fs ms zero | JNull \<Rightarrow> Some zero | _ \<Rightarrow> None)"

definition unmarshal_struct :: "(string \<times> 'a setter) list \<Rightarrow> 'a \<Rightarrow> bytes \<Rightarrow> goerr + 'a" where
  "unmarshal_struct fs zero data = (case json_parse (bytes_text data) of
     None \<Rightarrow> Inl Plain_Err
   | Some j \<Rightarrow> (case decode_struct fs zero j of None \<Rightarrow> Inl Plain_Err | Some x \<Rightarrow> Inr x))"

definition marshal_struct :: "('a \<Rightarrow> (string \<times> json) list) \<Rightarrow> 'a \<Rightarrow> goerr + bytes" where
  "marshal_struct members x = Inr (text_bytes (enc_val (JObj (members x))))"

section \<open>Field values\<close>

definition j_int :: "int \<Rightarrow> json" where "j_int i = JNum (int_dec i)"
definition j_word :: "'a::len word \<Rightarrow> json" where "j_word w = j_int (uint w)"
definition j_list :: "('a \<Rightarrow> json) \<Rightarrow> 'a list \<Rightarrow> json" where
  "j_list f xs = (if xs = [] then JNull else JArr (map f xs))"

text \<open>\<^verbatim>\<open>strconv.ParseUint\<close> takes digits only, \<^verbatim>\<open>ParseInt\<close> a sign; both refuse what does not fit.\<close>

definition d_word :: "json \<Rightarrow> 'a::len word option" where
  "d_word j = (case j of JNum l \<Rightarrow> if l \<noteq> [] \<and> list_all digit l \<and> dec_nat l < 2 ^ LENGTH('a) then Some (of_nat (dec_nat l)) else None
     | _ \<Rightarrow> None)"

definition d_i64 :: "json \<Rightarrow> i64 option" where
  "d_i64 j = (case j of JNum l \<Rightarrow> (case dec_int l of Some i \<Rightarrow> if i64_ok i then Some i else None | None \<Rightarrow> None) | _ \<Rightarrow> None)"

definition d_str :: "json \<Rightarrow> string option" where
  "d_str j = (case j of JStr s \<Rightarrow> Some s | _ \<Rightarrow> None)"

definition d_bool :: "json \<Rightarrow> bool option" where
  "d_bool j = (case j of JBool b \<Rightarrow> Some b | _ \<Rightarrow> None)"

fun d_elems :: "(json \<Rightarrow> 'a option) \<Rightarrow> 'a \<Rightarrow> json list \<Rightarrow> 'a list option" where
  "d_elems d zero [] = Some []"
| "d_elems d zero (v # vs) = (case (if v = JNull then Some zero else d v) of None \<Rightarrow> None
     | Some x \<Rightarrow> (case d_elems d zero vs of None \<Rightarrow> None | Some xs \<Rightarrow> Some (x # xs)))"

definition d_list :: "(json \<Rightarrow> 'a option) \<Rightarrow> 'a \<Rightarrow> json \<Rightarrow> 'a list option" where
  "d_list d zero j = (case j of JArr vs \<Rightarrow> d_elems d zero vs | _ \<Rightarrow> None)"

text \<open>A scalar keeps its value on null; a slice and a pointer become empty.\<close>

definition scalar :: "(json \<Rightarrow> 'v option) \<Rightarrow> ('v \<Rightarrow> 'a \<Rightarrow> 'a) \<Rightarrow> 'a setter" where
  "scalar d upd j st = (if j = JNull then Some st else map_option (\<lambda>v. upd v st) (d j))"

definition slices :: "(json \<Rightarrow> 'v option) \<Rightarrow> 'v \<Rightarrow> ('v list \<Rightarrow> 'a \<Rightarrow> 'a) \<Rightarrow> 'a setter" where
  "slices d zero upd j st = (if j = JNull then Some (upd [] st) else map_option (\<lambda>v. upd v st) (d_list d zero j))"

definition pointer :: "(json \<Rightarrow> 'v option) \<Rightarrow> ('v option \<Rightarrow> 'a \<Rightarrow> 'a) \<Rightarrow> 'a setter" where
  "pointer d upd j st = (if j = JNull then Some (upd None st) else map_option (\<lambda>v. upd (Some v) st) (d j))"

definition omit :: "bool \<Rightarrow> string \<Rightarrow> json \<Rightarrow> (string \<times> json) list" where
  "omit b k v = (if b then [] else [(k, v)])"

section \<open>Round trips\<close>

named_theorems codec_simps \<open>decoding of encoded fields\<close>

lemma uint_unat_dec: "int_dec (uint (w :: 'a::len word)) = nat_dec (unat w)"
proof -
  have "\<not> uint w < 0" using uint_ge_0 [of w] by linarith
  then show ?thesis unfolding int_dec_def by (simp only: if_False unat_eq_nat_uint)
qed

lemma d_word_j_word [codec_simps]: "d_word (j_word w) = Some w"
  using nat_dec_digits [of "unat w"] unsigned_less [of w, where ?'a = nat]
  by (simp add: d_word_def j_word_def j_int_def uint_unat_dec dec_nat_nat_dec)

lemma d_i64_j_int [codec_simps]: "i64_ok i \<Longrightarrow> d_i64 (j_int i) = Some i"
  by (simp add: d_i64_def j_int_def dec_int_int_dec)

lemma d_scalars [codec_simps]: "d_str (JStr s) = Some s" "d_bool (JBool b) = Some b"
  by (simp_all add: d_str_def d_bool_def)

lemma not_null [codec_simps]: "j_word w \<noteq> JNull" "j_int i \<noteq> JNull"
  by (simp_all add: j_word_def j_int_def)

lemma d_elems_map: "(\<And>x. x \<in> set xs \<Longrightarrow> f x \<noteq> JNull \<and> d (f x) = Some x) \<Longrightarrow> d_elems d zero (map f xs) = Some xs"
  by (induction xs) auto

lemma slices_j_list [codec_simps]:
  assumes "\<And>x. x \<in> set xs \<Longrightarrow> f x \<noteq> JNull \<and> d (f x) = Some x"
  shows "slices d zero upd (j_list f xs) st = Some (upd xs st)"
  using d_elems_map [OF assms] by (auto simp: slices_def j_list_def d_list_def)

lemma scalar_value [codec_simps]: "j \<noteq> JNull \<Longrightarrow> d j = Some v \<Longrightarrow> scalar d upd j st = Some (upd v st)"
  by (simp add: scalar_def)

lemma pointer_value [codec_simps]: "j \<noteq> JNull \<Longrightarrow> d j = Some v \<Longrightarrow> pointer d upd j st = Some (upd (Some v) st)"
  by (simp add: pointer_def)

lemma set_members_field [codec_simps]:
  "find_field fs k = Some f \<Longrightarrow> f v st = Some st' \<Longrightarrow> set_members fs ((k, v) # ms) st = set_members fs ms st'"
  by simp

lemma set_members_omit [codec_simps]:
  assumes "find_field fs k = Some f" "\<not> b \<Longrightarrow> f v st = Some st'" "b \<Longrightarrow> st' = st"
  shows "set_members fs (omit b k v @ ms) st = set_members fs ms st'"
  using assms by (auto simp: omit_def)

lemma good_fields [codec_simps]: "good (j_int i)" "good (j_word w)" "good (JStr s) \<longleftrightarrow> utf8 s" "good (JBool b)"
  by (auto simp: j_int_def j_word_def)

lemma good_j_list [codec_simps]: "(\<And>x. x \<in> set xs \<Longrightarrow> good (f x)) \<Longrightarrow> good (j_list f xs)"
  by (auto simp: j_list_def)

lemma struct_round_trip:
  assumes "good (JObj (members x))" "set_members fs (members x) zero = Some x"
  shows "\<exists>data. marshal_struct members x = Inr data \<and> unmarshal_struct fs zero data = Inr x"
  using json_parse_enc_val [OF assms(1)] assms(2)
  by (simp add: marshal_struct_def unmarshal_struct_def decode_struct_def)

section \<open>What a decoder answers\<close>

text \<open>A decoder is sound for a property of values when it answers only such values for a parsed member.\<close>

definition sound_dec :: "(json \<Rightarrow> 'v option) \<Rightarrow> ('v \<Rightarrow> bool) \<Rightarrow> bool" where
  "sound_dec d Q \<longleftrightarrow> (\<forall>v x. texts_ok v \<longrightarrow> d v = Some x \<longrightarrow> Q x)"

definition keeps :: "('a \<Rightarrow> bool) \<Rightarrow> 'a setter \<Rightarrow> bool" where
  "keeps P f \<longleftrightarrow> (\<forall>v st st'. texts_ok v \<longrightarrow> P st \<longrightarrow> f v st = Some st' \<longrightarrow> P st')"

lemma sound_decs: "sound_dec d_str utf8" "sound_dec d_i64 i64_ok" "sound_dec d (\<lambda>_. True)"
  by (auto simp: sound_dec_def d_str_def d_i64_def split: json.splits option.splits if_splits)

lemma keeps_scalar: "sound_dec d Q \<Longrightarrow> (\<And>x st. Q x \<Longrightarrow> P st \<Longrightarrow> P (upd x st)) \<Longrightarrow> keeps P (scalar d upd)"
  by (auto simp: keeps_def sound_dec_def scalar_def split: if_splits)

lemma keeps_pointer:
  "sound_dec d Q \<Longrightarrow> (\<And>x st. \<forall>v. x = Some v \<longrightarrow> Q v \<Longrightarrow> P st \<Longrightarrow> P (upd x st)) \<Longrightarrow> keeps P (pointer d upd)"
  by (fastforce simp: keeps_def sound_dec_def pointer_def split: if_splits)

lemma d_elems_sound: "sound_dec d Q \<Longrightarrow> Q zero \<Longrightarrow> \<forall>v \<in> set vs. texts_ok v \<Longrightarrow> d_elems d zero vs = Some xs \<Longrightarrow> \<forall>x \<in> set xs. Q x"
  by (induction vs arbitrary: xs) (auto simp: sound_dec_def split: option.splits if_splits)

lemma keeps_slices:
  assumes "sound_dec d Q" "Q zero" "\<And>xs st. \<forall>x \<in> set xs. Q x \<Longrightarrow> P st \<Longrightarrow> P (upd xs st)"
  shows "keeps P (slices d zero upd)"
  unfolding keeps_def
proof (intro allI impI)
  fix v st st' assume v: "texts_ok v" "P st" "slices d zero upd v st = Some st'"
  show "P st'"
  proof (cases "v = JNull")
    case True
    then show ?thesis using v assms(3) [of "[]" st] by (simp add: slices_def)
  next
    case False
    then obtain xs where "d_list d zero v = Some xs" "st' = upd xs st" using v(3) by (auto simp: slices_def)
    moreover from this obtain vs where "v = JArr vs" "d_elems d zero vs = Some xs" by (auto simp: d_list_def split: json.splits)
    ultimately show ?thesis using d_elems_sound [OF assms(1,2), of vs xs] v(1,2) assms(3) by simp
  qed
qed

lemma find_field_in: "find_field fs k = Some f \<Longrightarrow> f \<in> snd ` set fs"
  by (auto simp: find_field_def find_Some_iff image_iff dest!: map_of_SomeD split: option.splits) (metis nth_mem snd_conv)+

lemma set_members_keeps:
  "\<forall>f \<in> snd ` set fs. keeps P f \<Longrightarrow> \<forall>m \<in> set ms. texts_ok (snd m) \<Longrightarrow> P st \<Longrightarrow> set_members fs ms st = Some st' \<Longrightarrow> P st'"
proof (induction fs ms st rule: set_members.induct)
  case (2 fs k v ms st)
  show ?case
  proof (cases "find_field fs k")
    case None
    then show ?thesis using 2 by simp
  next
    case (Some f)
    then obtain st1 where st1: "f v st = Some st1" "set_members fs ms st1 = Some st'" using "2.prems"(4) by (auto split: option.splits)
    then have "P st1" using "2.prems" find_field_in [OF Some] by (auto simp: keeps_def)
    then show ?thesis using "2.IH"(2) [OF Some st1(1)] "2.prems" st1(2) by simp
  qed
qed simp

lemma unmarshal_struct_keeps:
  assumes "unmarshal_struct fs zero data = Inr x" "P zero" "\<forall>f \<in> snd ` set fs. keeps P f"
  shows "P x"
proof -
  obtain j where j: "json_parse (bytes_text data) = Some j" "decode_struct fs zero j = Some x"
    using assms(1) by (auto simp: unmarshal_struct_def split: option.splits)
  have "texts_ok j" using json_parse_texts [OF j(1)] .
  then show ?thesis using j(2) assms(2) set_members_keeps [OF assms(3)]
    by (cases j) (auto simp: decode_struct_def)
qed

end
