(* ===== verification/Model.thy ===== *)
theory Model
  imports Codec Frame
begin

text \<open>
  \<^verbatim>\<open>internal/repo/core/model.go\<close> and \<^verbatim>\<open>model_enums.go\<close>: the records of the scene, topic, graph,
  content and plan layers, the ids derived for them, and their JSON form. The slots with
  floating-point fields stand in theories of their own (the profile in \<open>Agents\<close>, the scene node in \<open>L1_Layer\<close>; the
  scene edge is not modelled). \<^verbatim>\<open>common.HashID\<close> is a call
  into a third-party hash, so every definition that derives an id takes it as the argument \<open>H\<close>.
\<close>

section \<open>Enumerations\<close>

definition EnumString :: "byte \<Rightarrow> (byte \<times> string) list \<Rightarrow> string \<Rightarrow> string" where
  "EnumString v names typeName = (case map_of names v of Some s \<Rightarrow> s
     | None \<Rightarrow> typeName @ ''('' @ nat_dec (unat v) @ '')'')"

definition ContentText :: byte where "ContentText = 0"

definition contentTypeNames :: "(byte \<times> string) list" where
  "contentTypeNames = [(0, ''text''), (1, ''image''), (2, ''video''), (3, ''document''), (4, ''audio''), (5, ''code''), (0xFF, ''other'')]"

definition ContentType_Valid :: "byte \<Rightarrow> bool" where
  "ContentType_Valid c \<longleftrightarrow> map_of contentTypeNames c \<noteq> None"

definition ContentType_String :: "byte \<Rightarrow> string" where
  "ContentType_String c = EnumString c contentTypeNames ''ContentType''"

definition KindUtterance :: byte where "KindUtterance = 0"
definition KindEvent :: byte where "KindEvent = 1"

definition archiveKindNames :: "(byte \<times> string) list" where
  "archiveKindNames = [(KindUtterance, ''utterance''), (KindEvent, ''event'')]"

definition ArchiveKind_Valid :: "byte \<Rightarrow> bool" where
  "ArchiveKind_Valid k \<longleftrightarrow> map_of archiveKindNames k \<noteq> None"

definition RoleUser :: byte where "RoleUser = 0"
definition RoleAgent :: byte where "RoleAgent = 1"
definition RoleSystem :: byte where "RoleSystem = 2"
definition RoleDream :: byte where "RoleDream = 3"

definition archiveRoleNames :: "(byte \<times> string) list" where
  "archiveRoleNames = [(RoleUser, ''user''), (RoleAgent, ''agent''), (RoleSystem, ''system''), (RoleDream, ''dream'')]"

definition ArchiveRole_Valid :: "byte \<Rightarrow> bool" where
  "ArchiveRole_Valid r \<longleftrightarrow> map_of archiveRoleNames r \<noteq> None"

definition graphEdgeKindNames :: "(byte \<times> string) list" where
  "graphEdgeKindNames = [(0, ''related''), (1, ''causal''), (2, ''part_of''), (3, ''sequence''), (4, ''dependency''), (5, ''custom'')]"

definition GraphEdgeKind_Valid :: "byte \<Rightarrow> bool" where
  "GraphEdgeKind_Valid k \<longleftrightarrow> map_of graphEdgeKindNames k \<noteq> None"

section \<open>Slots\<close>

record SceneSlot =
  ss_SceneID :: u64
  ss_SceneName :: string
  ss_TurnSeq :: u64
  ss_LastUsedAt :: i64
  ss_L3ID :: u64

record TopicSlot =
  ts_ID :: u64
  ts_SceneID :: u64
  ts_ParentID :: "u64 option"
  ts_Depth :: byte
  ts_Name :: string
  ts_FusedKeywords :: "string list"
  ts_UserTimestamp :: i64
  ts_AgentTimestamp :: i64

record ArchiveSlot =
  as_IDHash :: u64
  as_Kind :: byte
  as_Seq :: u64
  as_ContentType :: byte
  as_Role :: byte
  as_TopicID :: u64
  as_EventType :: string
  as_NodeSeq :: u32
  as_CreatedAt :: i64
  as_Content :: string

record PlanNode =
  pn_IDHash :: u64
  pn_TopicID :: u64
  pn_Seq :: u32
  pn_ParentSeq :: u32
  pn_Status :: byte
  pn_Title :: string
  pn_Summary :: string
  pn_SummaryFolded :: bool
  pn_CreatedAt :: i64
  pn_FinishedAt :: i64
  pn_UpdatedAt :: i64

record HypergraphSlot =
  hs_IDHash :: u64
  hs_Name :: string
  hs_CreatedAt :: i64
  hs_UpdatedAt :: i64

record HypergraphNode =
  hn_IDHash :: u64
  hn_GraphID :: u64
  hn_Title :: string
  hn_NodeType :: string
  hn_Content :: string
  hn_Keywords :: "string list"
  hn_SourceRef :: "string option"
  hn_CreatedAt :: i64
  hn_UpdatedAt :: i64

record HypergraphEdge =
  he_IDHash :: u64
  he_GraphID :: u64
  he_Kind :: byte
  he_NodeIDs :: "u64 list"
  he_CreatedAt :: i64

definition SeqUser :: u64 where "SeqUser = 1"
definition SeqAgent :: u64 where "SeqAgent = 2"
definition LastUtteranceSeq :: u64 where "LastUtteranceSeq = SeqAgent"

definition StatusInProgress :: byte where "StatusInProgress = 0"
definition StatusDone :: byte where "StatusDone = 1"
definition StatusFailed :: byte where "StatusFailed = 2"

definition NewSceneSlot :: "i64 \<Rightarrow> u64 \<Rightarrow> string \<Rightarrow> SceneSlot" where
  "NewSceneSlot now sceneID name =
     \<lparr>ss_SceneID = sceneID, ss_SceneName = name, ss_TurnSeq = 0, ss_LastUsedAt = now, ss_L3ID = 0\<rparr>"

text \<open>\<^verbatim>\<open>cmp.Compare\<close>: negative, zero or positive.\<close>

definition cmp :: "'a::linorder \<Rightarrow> 'a \<Rightarrow> int" where
  "cmp a b = (if a < b then -1 else if a > b then 1 else 0)"

definition CompareTopicOrder :: "TopicSlot \<Rightarrow> TopicSlot \<Rightarrow> int" where
  "CompareTopicOrder a b = (if ts_UserTimestamp a \<noteq> ts_UserTimestamp b
     then cmp (ts_UserTimestamp a) (ts_UserTimestamp b) else cmp (ts_ID a) (ts_ID b))"

section \<open>Derived ids\<close>

definition dec_word :: "'a::len word \<Rightarrow> string" where "dec_word w = nat_dec (unat w)"

definition SceneNodeID :: "(string \<Rightarrow> u64) \<Rightarrow> u64 \<Rightarrow> u64" where
  "SceneNodeID H sceneID = H (''scene-node:'' @ FormatHash sceneID)"

definition fused_key :: "u64 \<Rightarrow> i64 \<Rightarrow> i64 \<Rightarrow> u64 list \<Rightarrow> string" where
  "fused_key sceneID userTS agentTS members =
     ''fused:'' @ dec_word sceneID @ '':'' @ int_dec userTS @ '':'' @ int_dec agentTS
       @ concat (map (\<lambda>m. '':'' @ dec_word m) (sort members))"

definition ComputeFusedTopicID :: "(string \<Rightarrow> u64) \<Rightarrow> u64 \<Rightarrow> i64 \<Rightarrow> i64 \<Rightarrow> u64 list \<Rightarrow> u64" where
  "ComputeFusedTopicID H sceneID userTS agentTS members = H (fused_key sceneID userTS agentTS members)"

definition turn_key :: "u64 \<Rightarrow> u64 \<Rightarrow> string" where
  "turn_key sceneID seq = ''turn:'' @ dec_word sceneID @ '':'' @ dec_word seq"

definition ComputeTurnTopicID :: "(string \<Rightarrow> u64) \<Rightarrow> u64 \<Rightarrow> u64 \<Rightarrow> u64" where
  "ComputeTurnTopicID H sceneID seq = H (turn_key sceneID seq)"

definition content_key :: "u64 \<Rightarrow> u64 \<Rightarrow> string" where
  "content_key topicID seq = ''content:'' @ dec_word topicID @ '':'' @ dec_word seq"

definition HashContent :: "(string \<Rightarrow> u64) \<Rightarrow> u64 \<Rightarrow> u64 \<Rightarrow> u64" where
  "HashContent H topicID seq = H (content_key topicID seq)"

definition plan_key :: "u64 \<Rightarrow> u32 \<Rightarrow> string" where
  "plan_key topicID seq = ''plan:'' @ dec_word topicID @ '':'' @ dec_word seq"

definition HashPlanNode :: "(string \<Rightarrow> u64) \<Rightarrow> u64 \<Rightarrow> u32 \<Rightarrow> u64" where
  "HashPlanNode H topicID seq = H (plan_key topicID seq)"

lemma dec_word_inj: "dec_word (v :: 'a::len word) = dec_word w \<longleftrightarrow> v = w"
  unfolding dec_word_def using dec_nat_nat_dec by (metis unsigned_word_eqI)

lemma dec_word_digits: "\<forall>c \<in> set (dec_word w). digit c"
  using nat_dec_digits(1) [of "unat w"] by (simp add: dec_word_def list_all_iff)

lemma takeWhile_digits: "\<forall>c \<in> set s. digit c \<Longrightarrow> takeWhile digit (s @ CHR '':'' # t) = s"
proof -
  assume s: "\<forall>c \<in> set s. digit c"
  have "\<not> digit CHR '':''" by (simp add: digit_def between_def cval_def)
  then show ?thesis using s by (simp add: takeWhile_append2)
qed

text \<open>Two decimal numbers separated by a colon determine both numbers.\<close>

lemma colon_inj:
  fixes v v' :: "'a::len word" and w w' :: "'b::len word"
  shows "dec_word v @ CHR '':'' # dec_word w = dec_word v' @ CHR '':'' # dec_word w' \<longleftrightarrow> v = v' \<and> w = w'"
proof
  assume eq: "dec_word v @ CHR '':'' # dec_word w = dec_word v' @ CHR '':'' # dec_word w'"
  then have "takeWhile digit (dec_word v @ CHR '':'' # dec_word w) = takeWhile digit (dec_word v' @ CHR '':'' # dec_word w')" by simp
  then have "dec_word v = dec_word v'" using takeWhile_digits dec_word_digits by metis
  moreover from this eq have "dec_word w = dec_word w'" by simp
  ultimately show "v = v' \<and> w = w'" by (simp add: dec_word_inj)
qed simp

lemma keys_inj:
  "content_key t s = content_key t' s' \<longleftrightarrow> t = t' \<and> s = s'"
  "plan_key t p = plan_key t' p' \<longleftrightarrow> t = t' \<and> p = p'"
  "turn_key t s = turn_key t' s' \<longleftrightarrow> t = t' \<and> s = s'"
  "content_key t s \<noteq> plan_key t' p'" "content_key t s \<noteq> turn_key t' s'" "plan_key t p \<noteq> turn_key t' s'"
  using colon_inj [of t s t' s'] colon_inj [of t p t' p']
  by (simp_all add: content_key_def plan_key_def turn_key_def)

end
