(* ===== verification/Slot_Codecs.thy ===== *)
theory Slot_Codecs
  imports Model
begin

text \<open>
  The JSON form of the slots, read off their struct tags: the members in field order with
  \<^verbatim>\<open>omitempty\<close> where the tag has it, and the setter of each field. The locale states what the record
  layer needs of a slot type; each type interprets it.
\<close>

locale slot_codec =
  fixes marshal :: "'a \<Rightarrow> goerr + bytes"
    and unmarshal :: "bytes \<Rightarrow> goerr + 'a"
    and ok :: "'a \<Rightarrow> bool"
  assumes round_trip: "ok x \<Longrightarrow> \<exists>data. marshal x = Inr data \<and> unmarshal data = Inr x"
begin

lemma marshal_inj: "ok x \<Longrightarrow> ok y \<Longrightarrow> marshal x = marshal y \<Longrightarrow> x = y"
  using round_trip by (metis Inr_inject)

lemma unmarshal_marshal: "ok x \<Longrightarrow> marshal x = Inr data \<Longrightarrow> unmarshal data = Inr x"
  using round_trip by fastforce

end

text \<open>
  A codec is exact when it also decodes nothing else: then the values that survive the way through the
  bytes are the ones that are \<open>ok\<close>.
\<close>

locale exact_codec = slot_codec +
  assumes decoded_ok: "unmarshal data = Inr x \<Longrightarrow> ok x"
begin

lemma round_trip_iff: "(\<exists>data. marshal x = Inr data \<and> unmarshal data = Inr x) \<longleftrightarrow> ok x"
  using round_trip decoded_ok by blast

end

section \<open>Scenes\<close>

definition scene_members :: "SceneSlot \<Rightarrow> (string \<times> json) list" where
  "scene_members s = (''scene_id'', j_word (ss_SceneID s)) # (''scene_name'', JStr (ss_SceneName s))
     # omit (ss_TurnSeq s = 0) ''turn_seq'' (j_word (ss_TurnSeq s))
     @ omit (ss_LastUsedAt s = 0) ''last_used_at'' (j_int (ss_LastUsedAt s))
     @ (''l3_id'', j_word (ss_L3ID s)) # []"

definition scene_fields :: "(string \<times> SceneSlot setter) list" where
  "scene_fields = [(''scene_id'', scalar d_word (\<lambda>v s. s\<lparr>ss_SceneID := v\<rparr>)), (''scene_name'', scalar d_str (\<lambda>v s. s\<lparr>ss_SceneName := v\<rparr>)),
     (''turn_seq'', scalar d_word (\<lambda>v s. s\<lparr>ss_TurnSeq := v\<rparr>)), (''last_used_at'', scalar d_i64 (\<lambda>v s. s\<lparr>ss_LastUsedAt := v\<rparr>)),
     (''l3_id'', scalar d_word (\<lambda>v s. s\<lparr>ss_L3ID := v\<rparr>))]"

definition scene_zero :: SceneSlot where
  "scene_zero = \<lparr>ss_SceneID = 0, ss_SceneName = [], ss_TurnSeq = 0, ss_LastUsedAt = 0, ss_L3ID = 0\<rparr>"

definition scene_ok :: "SceneSlot \<Rightarrow> bool" where
  "scene_ok s \<longleftrightarrow> utf8 (ss_SceneName s) \<and> i64_ok (ss_LastUsedAt s)"

definition marshal_scene :: "SceneSlot \<Rightarrow> goerr + bytes" where "marshal_scene = marshal_struct scene_members"
definition unmarshal_scene :: "bytes \<Rightarrow> goerr + SceneSlot" where "unmarshal_scene = unmarshal_struct scene_fields scene_zero"

lemma good_omit: "good (JObj (omit b k v @ ms)) \<longleftrightarrow> (b \<or> utf8 k \<and> good v) \<and> good (JObj ms)"
  by (auto simp: omit_def)

lemma good_member: "good (JObj ((k, v) # ms)) \<longleftrightarrow> utf8 k \<and> good v \<and> good (JObj ms)" "good (JObj [])"
  by auto

lemma omit_True [codec_simps]: "omit True k v = []"
  by (simp add: omit_def)

text \<open>Every field name is ASCII.\<close>

lemma utf8_name: "list_all (\<lambda>c. cval c < 0x80) s \<Longrightarrow> utf8 s"
  using utf8_ascii by (simp add: list_all_iff)

lemmas name_simps = utf8_name cval_def find_field_def

lemma scene_names: "utf8 ''scene_id''" "utf8 ''scene_name''" "utf8 ''turn_seq''" "utf8 ''last_used_at''" "utf8 ''l3_id''"
  by (simp_all add: name_simps)

interpretation scene: slot_codec marshal_scene unmarshal_scene scene_ok
proof
  fix s assume ok: "scene_ok s"
  have "good (JObj (scene_members s))"
    using ok by (simp only: scene_members_def good_member good_omit scene_names codec_simps scene_ok_def simp_thms)
  moreover have "set_members scene_fields (scene_members s) scene_zero = Some s"
    using ok
    by (simp add: scene_members_def codec_simps find_field_def scene_fields_def scene_zero_def scene_ok_def)
  ultimately show "\<exists>data. marshal_scene s = Inr data \<and> unmarshal_scene data = Inr s"
    unfolding marshal_scene_def unmarshal_scene_def by (rule struct_round_trip)
qed

section \<open>Topics\<close>

definition topic_members :: "TopicSlot \<Rightarrow> (string \<times> json) list" where
  "topic_members s =
     (''id'', j_word (ts_ID s)) #
     (''scene_id'', j_word (ts_SceneID s)) #
     omit (ts_ParentID s = None) ''parent_id'' ((case ts_ParentID s of None \<Rightarrow> JNull | Some w \<Rightarrow> j_word w)) @
     (''depth'', j_word (ts_Depth s)) #
     omit (ts_Name s = []) ''name'' (JStr (ts_Name s)) @
     (''fused_keywords'', j_list JStr (ts_FusedKeywords s)) #
     (''user_timestamp'', j_int (ts_UserTimestamp s)) #
     (''agent_timestamp'', j_int (ts_AgentTimestamp s)) #
     []"

definition topic_fields :: "(string \<times> TopicSlot setter) list" where
  "topic_fields = [
     (''id'', scalar d_word (\<lambda>v s. s\<lparr>ts_ID := v\<rparr>)),
     (''scene_id'', scalar d_word (\<lambda>v s. s\<lparr>ts_SceneID := v\<rparr>)),
     (''parent_id'', pointer d_word (\<lambda>v s. s\<lparr>ts_ParentID := v\<rparr>)),
     (''depth'', scalar d_word (\<lambda>v s. s\<lparr>ts_Depth := v\<rparr>)),
     (''name'', scalar d_str (\<lambda>v s. s\<lparr>ts_Name := v\<rparr>)),
     (''fused_keywords'', slices d_str [] (\<lambda>v s. s\<lparr>ts_FusedKeywords := v\<rparr>)),
     (''user_timestamp'', scalar d_i64 (\<lambda>v s. s\<lparr>ts_UserTimestamp := v\<rparr>)),
     (''agent_timestamp'', scalar d_i64 (\<lambda>v s. s\<lparr>ts_AgentTimestamp := v\<rparr>))]"

definition topic_zero :: TopicSlot where
  "topic_zero = \<lparr>ts_ID = 0, ts_SceneID = 0, ts_ParentID = None, ts_Depth = 0, ts_Name = [], ts_FusedKeywords = [], ts_UserTimestamp = 0, ts_AgentTimestamp = 0\<rparr>"

definition topic_ok :: "TopicSlot \<Rightarrow> bool" where
  "topic_ok s \<longleftrightarrow> utf8 (ts_Name s) \<and> (\<forall>k \<in> set (ts_FusedKeywords s). utf8 k) \<and> i64_ok (ts_UserTimestamp s) \<and> i64_ok (ts_AgentTimestamp s)"

definition marshal_topic :: "TopicSlot \<Rightarrow> goerr + bytes" where "marshal_topic = marshal_struct topic_members"
definition unmarshal_topic :: "bytes \<Rightarrow> goerr + TopicSlot" where "unmarshal_topic = unmarshal_struct topic_fields topic_zero"

lemma topic_names: "utf8 ''id''" "utf8 ''scene_id''" "utf8 ''parent_id''" "utf8 ''depth''" "utf8 ''name''" "utf8 ''fused_keywords''" "utf8 ''user_timestamp''" "utf8 ''agent_timestamp''"
  by (simp_all add: name_simps)

interpretation topic: slot_codec marshal_topic unmarshal_topic topic_ok
proof
  fix s assume ok: "topic_ok s"
  have "good (JObj (topic_members s))"
    using ok by (auto simp only: topic_members_def good_member good_omit topic_names codec_simps topic_ok_def simp_thms
        good.simps(1) option.simps split: option.split)
  moreover have "set_members topic_fields (topic_members s) topic_zero = Some s"
    using ok
    by (cases s) (auto simp: topic_members_def codec_simps find_field_def topic_fields_def topic_zero_def topic_ok_def split: option.split)
  ultimately show "\<exists>data. marshal_topic s = Inr data \<and> unmarshal_topic data = Inr s"
    unfolding marshal_topic_def unmarshal_topic_def by (rule struct_round_trip)
qed

section \<open>Content\<close>

definition archive_members :: "ArchiveSlot \<Rightarrow> (string \<times> json) list" where
  "archive_members s =
     (''id_hash'', j_word (as_IDHash s)) #
     (''kind'', j_word (as_Kind s)) #
     (''seq'', j_word (as_Seq s)) #
     (''content_type'', j_word (as_ContentType s)) #
     (''role'', j_word (as_Role s)) #
     (''topic_id'', j_word (as_TopicID s)) #
     omit (as_EventType s = []) ''event_type'' (JStr (as_EventType s)) @
     omit (as_NodeSeq s = 0) ''node_seq'' (j_word (as_NodeSeq s)) @
     (''created_at'', j_int (as_CreatedAt s)) #
     (''content'', JStr (as_Content s)) #
     []"

definition archive_fields :: "(string \<times> ArchiveSlot setter) list" where
  "archive_fields = [
     (''id_hash'', scalar d_word (\<lambda>v s. s\<lparr>as_IDHash := v\<rparr>)),
     (''kind'', scalar d_word (\<lambda>v s. s\<lparr>as_Kind := v\<rparr>)),
     (''seq'', scalar d_word (\<lambda>v s. s\<lparr>as_Seq := v\<rparr>)),
     (''content_type'', scalar d_word (\<lambda>v s. s\<lparr>as_ContentType := v\<rparr>)),
     (''role'', scalar d_word (\<lambda>v s. s\<lparr>as_Role := v\<rparr>)),
     (''topic_id'', scalar d_word (\<lambda>v s. s\<lparr>as_TopicID := v\<rparr>)),
     (''event_type'', scalar d_str (\<lambda>v s. s\<lparr>as_EventType := v\<rparr>)),
     (''node_seq'', scalar d_word (\<lambda>v s. s\<lparr>as_NodeSeq := v\<rparr>)),
     (''created_at'', scalar d_i64 (\<lambda>v s. s\<lparr>as_CreatedAt := v\<rparr>)),
     (''content'', scalar d_str (\<lambda>v s. s\<lparr>as_Content := v\<rparr>))]"

definition archive_zero :: ArchiveSlot where
  "archive_zero = \<lparr>as_IDHash = 0, as_Kind = 0, as_Seq = 0, as_ContentType = 0, as_Role = 0, as_TopicID = 0, as_EventType = [], as_NodeSeq = 0, as_CreatedAt = 0, as_Content = []\<rparr>"

definition archive_ok :: "ArchiveSlot \<Rightarrow> bool" where
  "archive_ok s \<longleftrightarrow> utf8 (as_EventType s) \<and> i64_ok (as_CreatedAt s) \<and> utf8 (as_Content s)"

definition marshal_archive :: "ArchiveSlot \<Rightarrow> goerr + bytes" where "marshal_archive = marshal_struct archive_members"
definition unmarshal_archive :: "bytes \<Rightarrow> goerr + ArchiveSlot" where "unmarshal_archive = unmarshal_struct archive_fields archive_zero"

lemma archive_names: "utf8 ''id_hash''" "utf8 ''kind''" "utf8 ''seq''" "utf8 ''content_type''" "utf8 ''role''" "utf8 ''topic_id''" "utf8 ''event_type''" "utf8 ''node_seq''" "utf8 ''created_at''" "utf8 ''content''"
  by (simp_all add: name_simps)

interpretation archive: slot_codec marshal_archive unmarshal_archive archive_ok
proof
  fix s assume ok: "archive_ok s"
  have "good (JObj (archive_members s))"
    using ok by (auto simp only: archive_members_def good_member good_omit archive_names codec_simps archive_ok_def simp_thms
        good.simps(1) option.simps split: option.split)
  moreover have "set_members archive_fields (archive_members s) archive_zero = Some s"
    using ok
    by (cases s) (auto simp: archive_members_def codec_simps find_field_def archive_fields_def archive_zero_def archive_ok_def split: option.split)
  ultimately show "\<exists>data. marshal_archive s = Inr data \<and> unmarshal_archive data = Inr s"
    unfolding marshal_archive_def unmarshal_archive_def by (rule struct_round_trip)
qed

section \<open>Plan nodes\<close>

definition plan_node_members :: "PlanNode \<Rightarrow> (string \<times> json) list" where
  "plan_node_members s =
     (''id_hash'', j_word (pn_IDHash s)) #
     (''topic_id'', j_word (pn_TopicID s)) #
     (''seq'', j_word (pn_Seq s)) #
     (''parent_seq'', j_word (pn_ParentSeq s)) #
     (''status'', j_word (pn_Status s)) #
     omit (pn_Title s = []) ''title'' (JStr (pn_Title s)) @
     omit (pn_Summary s = []) ''summary'' (JStr (pn_Summary s)) @
     omit (\<not> pn_SummaryFolded s) ''summary_folded'' (JBool (pn_SummaryFolded s)) @
     (''created_at'', j_int (pn_CreatedAt s)) #
     omit (pn_FinishedAt s = 0) ''finished_at'' (j_int (pn_FinishedAt s)) @
     (''updated_at'', j_int (pn_UpdatedAt s)) #
     []"

definition plan_node_fields :: "(string \<times> PlanNode setter) list" where
  "plan_node_fields = [
     (''id_hash'', scalar d_word (\<lambda>v s. s\<lparr>pn_IDHash := v\<rparr>)),
     (''topic_id'', scalar d_word (\<lambda>v s. s\<lparr>pn_TopicID := v\<rparr>)),
     (''seq'', scalar d_word (\<lambda>v s. s\<lparr>pn_Seq := v\<rparr>)),
     (''parent_seq'', scalar d_word (\<lambda>v s. s\<lparr>pn_ParentSeq := v\<rparr>)),
     (''status'', scalar d_word (\<lambda>v s. s\<lparr>pn_Status := v\<rparr>)),
     (''title'', scalar d_str (\<lambda>v s. s\<lparr>pn_Title := v\<rparr>)),
     (''summary'', scalar d_str (\<lambda>v s. s\<lparr>pn_Summary := v\<rparr>)),
     (''summary_folded'', scalar d_bool (\<lambda>v s. s\<lparr>pn_SummaryFolded := v\<rparr>)),
     (''created_at'', scalar d_i64 (\<lambda>v s. s\<lparr>pn_CreatedAt := v\<rparr>)),
     (''finished_at'', scalar d_i64 (\<lambda>v s. s\<lparr>pn_FinishedAt := v\<rparr>)),
     (''updated_at'', scalar d_i64 (\<lambda>v s. s\<lparr>pn_UpdatedAt := v\<rparr>))]"

definition plan_node_zero :: PlanNode where
  "plan_node_zero = \<lparr>pn_IDHash = 0, pn_TopicID = 0, pn_Seq = 0, pn_ParentSeq = 0, pn_Status = 0, pn_Title = [], pn_Summary = [], pn_SummaryFolded = False, pn_CreatedAt = 0, pn_FinishedAt = 0, pn_UpdatedAt = 0\<rparr>"

definition plan_node_ok :: "PlanNode \<Rightarrow> bool" where
  "plan_node_ok s \<longleftrightarrow> utf8 (pn_Title s) \<and> utf8 (pn_Summary s) \<and> i64_ok (pn_CreatedAt s) \<and> i64_ok (pn_FinishedAt s) \<and> i64_ok (pn_UpdatedAt s)"

definition marshal_plan_node :: "PlanNode \<Rightarrow> goerr + bytes" where "marshal_plan_node = marshal_struct plan_node_members"
definition unmarshal_plan_node :: "bytes \<Rightarrow> goerr + PlanNode" where "unmarshal_plan_node = unmarshal_struct plan_node_fields plan_node_zero"

lemma plan_node_names: "utf8 ''id_hash''" "utf8 ''topic_id''" "utf8 ''seq''" "utf8 ''parent_seq''" "utf8 ''status''" "utf8 ''title''" "utf8 ''summary''" "utf8 ''summary_folded''" "utf8 ''created_at''" "utf8 ''finished_at''" "utf8 ''updated_at''"
  by (simp_all add: name_simps)

interpretation plan_node: slot_codec marshal_plan_node unmarshal_plan_node plan_node_ok
proof
  fix s assume ok: "plan_node_ok s"
  have "good (JObj (plan_node_members s))"
    using ok by (auto simp only: plan_node_members_def good_member good_omit plan_node_names codec_simps plan_node_ok_def simp_thms
        good.simps(1) option.simps split: option.split)
  moreover have "set_members plan_node_fields (plan_node_members s) plan_node_zero = Some s"
    using ok
    by (cases s) (auto simp: plan_node_members_def codec_simps find_field_def plan_node_fields_def plan_node_zero_def plan_node_ok_def split: option.split)
  ultimately show "\<exists>data. marshal_plan_node s = Inr data \<and> unmarshal_plan_node data = Inr s"
    unfolding marshal_plan_node_def unmarshal_plan_node_def by (rule struct_round_trip)
qed

section \<open>Graphs\<close>

definition graph_slot_members :: "HypergraphSlot \<Rightarrow> (string \<times> json) list" where
  "graph_slot_members s =
     (''id_hash'', j_word (hs_IDHash s)) #
     (''name'', JStr (hs_Name s)) #
     (''created_at'', j_int (hs_CreatedAt s)) #
     (''updated_at'', j_int (hs_UpdatedAt s)) #
     []"

definition graph_slot_fields :: "(string \<times> HypergraphSlot setter) list" where
  "graph_slot_fields = [
     (''id_hash'', scalar d_word (\<lambda>v s. s\<lparr>hs_IDHash := v\<rparr>)),
     (''name'', scalar d_str (\<lambda>v s. s\<lparr>hs_Name := v\<rparr>)),
     (''created_at'', scalar d_i64 (\<lambda>v s. s\<lparr>hs_CreatedAt := v\<rparr>)),
     (''updated_at'', scalar d_i64 (\<lambda>v s. s\<lparr>hs_UpdatedAt := v\<rparr>))]"

definition graph_slot_zero :: HypergraphSlot where
  "graph_slot_zero = \<lparr>hs_IDHash = 0, hs_Name = [], hs_CreatedAt = 0, hs_UpdatedAt = 0\<rparr>"

definition graph_slot_ok :: "HypergraphSlot \<Rightarrow> bool" where
  "graph_slot_ok s \<longleftrightarrow> utf8 (hs_Name s) \<and> i64_ok (hs_CreatedAt s) \<and> i64_ok (hs_UpdatedAt s)"

definition marshal_graph_slot :: "HypergraphSlot \<Rightarrow> goerr + bytes" where "marshal_graph_slot = marshal_struct graph_slot_members"
definition unmarshal_graph_slot :: "bytes \<Rightarrow> goerr + HypergraphSlot" where "unmarshal_graph_slot = unmarshal_struct graph_slot_fields graph_slot_zero"

lemma graph_slot_names: "utf8 ''id_hash''" "utf8 ''name''" "utf8 ''created_at''" "utf8 ''updated_at''"
  by (simp_all add: name_simps)

interpretation graph_slot: slot_codec marshal_graph_slot unmarshal_graph_slot graph_slot_ok
proof
  fix s assume ok: "graph_slot_ok s"
  have "good (JObj (graph_slot_members s))"
    using ok by (auto simp only: graph_slot_members_def good_member good_omit graph_slot_names codec_simps graph_slot_ok_def simp_thms
        good.simps(1) option.simps split: option.split)
  moreover have "set_members graph_slot_fields (graph_slot_members s) graph_slot_zero = Some s"
    using ok
    by (cases s) (auto simp: graph_slot_members_def codec_simps find_field_def graph_slot_fields_def graph_slot_zero_def graph_slot_ok_def split: option.split)
  ultimately show "\<exists>data. marshal_graph_slot s = Inr data \<and> unmarshal_graph_slot data = Inr s"
    unfolding marshal_graph_slot_def unmarshal_graph_slot_def by (rule struct_round_trip)
qed

section \<open>Graph nodes\<close>

definition graph_node_members :: "HypergraphNode \<Rightarrow> (string \<times> json) list" where
  "graph_node_members s =
     (''id_hash'', j_word (hn_IDHash s)) #
     (''graph_id'', j_word (hn_GraphID s)) #
     (''title'', JStr (hn_Title s)) #
     (''node_type'', JStr (hn_NodeType s)) #
     (''content'', JStr (hn_Content s)) #
     (''keywords'', j_list JStr (hn_Keywords s)) #
     omit (hn_SourceRef s = None) ''source_ref'' ((case hn_SourceRef s of None \<Rightarrow> JNull | Some w \<Rightarrow> JStr w)) @
     (''created_at'', j_int (hn_CreatedAt s)) #
     (''updated_at'', j_int (hn_UpdatedAt s)) #
     []"

definition graph_node_fields :: "(string \<times> HypergraphNode setter) list" where
  "graph_node_fields = [
     (''id_hash'', scalar d_word (\<lambda>v s. s\<lparr>hn_IDHash := v\<rparr>)),
     (''graph_id'', scalar d_word (\<lambda>v s. s\<lparr>hn_GraphID := v\<rparr>)),
     (''title'', scalar d_str (\<lambda>v s. s\<lparr>hn_Title := v\<rparr>)),
     (''node_type'', scalar d_str (\<lambda>v s. s\<lparr>hn_NodeType := v\<rparr>)),
     (''content'', scalar d_str (\<lambda>v s. s\<lparr>hn_Content := v\<rparr>)),
     (''keywords'', slices d_str [] (\<lambda>v s. s\<lparr>hn_Keywords := v\<rparr>)),
     (''source_ref'', pointer d_str (\<lambda>v s. s\<lparr>hn_SourceRef := v\<rparr>)),
     (''created_at'', scalar d_i64 (\<lambda>v s. s\<lparr>hn_CreatedAt := v\<rparr>)),
     (''updated_at'', scalar d_i64 (\<lambda>v s. s\<lparr>hn_UpdatedAt := v\<rparr>))]"

definition graph_node_zero :: HypergraphNode where
  "graph_node_zero = \<lparr>hn_IDHash = 0, hn_GraphID = 0, hn_Title = [], hn_NodeType = [], hn_Content = [], hn_Keywords = [], hn_SourceRef = None, hn_CreatedAt = 0, hn_UpdatedAt = 0\<rparr>"

definition graph_node_ok :: "HypergraphNode \<Rightarrow> bool" where
  "graph_node_ok s \<longleftrightarrow> utf8 (hn_Title s) \<and> utf8 (hn_NodeType s) \<and> utf8 (hn_Content s) \<and> (\<forall>k \<in> set (hn_Keywords s). utf8 k) \<and> (\<forall>k. hn_SourceRef s = Some k \<longrightarrow> utf8 k) \<and> i64_ok (hn_CreatedAt s) \<and> i64_ok (hn_UpdatedAt s)"

definition marshal_graph_node :: "HypergraphNode \<Rightarrow> goerr + bytes" where "marshal_graph_node = marshal_struct graph_node_members"
definition unmarshal_graph_node :: "bytes \<Rightarrow> goerr + HypergraphNode" where "unmarshal_graph_node = unmarshal_struct graph_node_fields graph_node_zero"

lemma graph_node_names: "utf8 ''id_hash''" "utf8 ''graph_id''" "utf8 ''title''" "utf8 ''node_type''" "utf8 ''content''" "utf8 ''keywords''" "utf8 ''source_ref''" "utf8 ''created_at''" "utf8 ''updated_at''"
  by (simp_all add: name_simps)

interpretation graph_node: slot_codec marshal_graph_node unmarshal_graph_node graph_node_ok
proof
  fix s assume ok: "graph_node_ok s"
  have "good (JObj (graph_node_members s))"
    using ok by (auto simp only: graph_node_members_def good_member good_omit graph_node_names codec_simps graph_node_ok_def simp_thms
        good.simps(1) option.simps split: option.split)
  moreover have "set_members graph_node_fields (graph_node_members s) graph_node_zero = Some s"
    using ok
    by (cases s) (auto simp: graph_node_members_def codec_simps find_field_def graph_node_fields_def graph_node_zero_def graph_node_ok_def split: option.split)
  ultimately show "\<exists>data. marshal_graph_node s = Inr data \<and> unmarshal_graph_node data = Inr s"
    unfolding marshal_graph_node_def unmarshal_graph_node_def by (rule struct_round_trip)
qed

section \<open>Graph edges\<close>

definition graph_edge_members :: "HypergraphEdge \<Rightarrow> (string \<times> json) list" where
  "graph_edge_members s =
     (''id_hash'', j_word (he_IDHash s)) #
     (''graph_id'', j_word (he_GraphID s)) #
     (''kind'', j_word (he_Kind s)) #
     (''node_ids'', j_list j_word (he_NodeIDs s)) #
     (''created_at'', j_int (he_CreatedAt s)) #
     []"

definition graph_edge_fields :: "(string \<times> HypergraphEdge setter) list" where
  "graph_edge_fields = [
     (''id_hash'', scalar d_word (\<lambda>v s. s\<lparr>he_IDHash := v\<rparr>)),
     (''graph_id'', scalar d_word (\<lambda>v s. s\<lparr>he_GraphID := v\<rparr>)),
     (''kind'', scalar d_word (\<lambda>v s. s\<lparr>he_Kind := v\<rparr>)),
     (''node_ids'', slices d_word 0 (\<lambda>v s. s\<lparr>he_NodeIDs := v\<rparr>)),
     (''created_at'', scalar d_i64 (\<lambda>v s. s\<lparr>he_CreatedAt := v\<rparr>))]"

definition graph_edge_zero :: HypergraphEdge where
  "graph_edge_zero = \<lparr>he_IDHash = 0, he_GraphID = 0, he_Kind = 0, he_NodeIDs = [], he_CreatedAt = 0\<rparr>"

definition graph_edge_ok :: "HypergraphEdge \<Rightarrow> bool" where
  "graph_edge_ok s \<longleftrightarrow> i64_ok (he_CreatedAt s)"

definition marshal_graph_edge :: "HypergraphEdge \<Rightarrow> goerr + bytes" where "marshal_graph_edge = marshal_struct graph_edge_members"
definition unmarshal_graph_edge :: "bytes \<Rightarrow> goerr + HypergraphEdge" where "unmarshal_graph_edge = unmarshal_struct graph_edge_fields graph_edge_zero"

lemma graph_edge_names: "utf8 ''id_hash''" "utf8 ''graph_id''" "utf8 ''kind''" "utf8 ''node_ids''" "utf8 ''created_at''"
  by (simp_all add: name_simps)

interpretation graph_edge: slot_codec marshal_graph_edge unmarshal_graph_edge graph_edge_ok
proof
  fix s assume ok: "graph_edge_ok s"
  have "good (JObj (graph_edge_members s))"
    using ok by (auto simp only: graph_edge_members_def good_member good_omit graph_edge_names codec_simps graph_edge_ok_def simp_thms
        good.simps(1) option.simps split: option.split)
  moreover have "set_members graph_edge_fields (graph_edge_members s) graph_edge_zero = Some s"
    using ok
    by (cases s) (auto simp: graph_edge_members_def codec_simps find_field_def graph_edge_fields_def graph_edge_zero_def graph_edge_ok_def split: option.split)
  ultimately show "\<exists>data. marshal_graph_edge s = Inr data \<and> unmarshal_graph_edge data = Inr s"
    unfolding marshal_graph_edge_def unmarshal_graph_edge_def by (rule struct_round_trip)
qed

section \<open>The codecs are exact\<close>

interpretation exact_scene: exact_codec marshal_scene unmarshal_scene scene_ok
proof
  fix data s assume "unmarshal_scene data = Inr s"
  from this [unfolded unmarshal_scene_def] show "scene_ok s"
  proof (rule unmarshal_struct_keeps)
    show "scene_ok scene_zero" by (simp add: scene_ok_def scene_zero_def i64_ok_def)
    show "\<forall>f \<in> snd ` set scene_fields. keeps scene_ok f"
      by (simp add: scene_fields_def) (intro conjI; (rule keeps_scalar keeps_pointer keeps_slices, rule sound_decs; simp add: scene_ok_def)+)
  qed
qed

interpretation exact_topic: exact_codec marshal_topic unmarshal_topic topic_ok
proof
  fix data s assume "unmarshal_topic data = Inr s"
  from this [unfolded unmarshal_topic_def] show "topic_ok s"
  proof (rule unmarshal_struct_keeps)
    show "topic_ok topic_zero" by (simp add: topic_ok_def topic_zero_def i64_ok_def)
    show "\<forall>f \<in> snd ` set topic_fields. keeps topic_ok f"
      by (simp add: topic_fields_def) (intro conjI; (rule keeps_scalar keeps_pointer keeps_slices, rule sound_decs; simp add: topic_ok_def)+)
  qed
qed

interpretation exact_archive: exact_codec marshal_archive unmarshal_archive archive_ok
proof
  fix data s assume "unmarshal_archive data = Inr s"
  from this [unfolded unmarshal_archive_def] show "archive_ok s"
  proof (rule unmarshal_struct_keeps)
    show "archive_ok archive_zero" by (simp add: archive_ok_def archive_zero_def i64_ok_def)
    show "\<forall>f \<in> snd ` set archive_fields. keeps archive_ok f"
      by (simp add: archive_fields_def) (intro conjI; (rule keeps_scalar keeps_pointer keeps_slices, rule sound_decs; simp add: archive_ok_def)+)
  qed
qed

interpretation exact_plan_node: exact_codec marshal_plan_node unmarshal_plan_node plan_node_ok
proof
  fix data s assume "unmarshal_plan_node data = Inr s"
  from this [unfolded unmarshal_plan_node_def] show "plan_node_ok s"
  proof (rule unmarshal_struct_keeps)
    show "plan_node_ok plan_node_zero" by (simp add: plan_node_ok_def plan_node_zero_def i64_ok_def)
    show "\<forall>f \<in> snd ` set plan_node_fields. keeps plan_node_ok f"
      by (simp add: plan_node_fields_def) (intro conjI; (rule keeps_scalar keeps_pointer keeps_slices, rule sound_decs; simp add: plan_node_ok_def)+)
  qed
qed

interpretation exact_graph_slot: exact_codec marshal_graph_slot unmarshal_graph_slot graph_slot_ok
proof
  fix data s assume "unmarshal_graph_slot data = Inr s"
  from this [unfolded unmarshal_graph_slot_def] show "graph_slot_ok s"
  proof (rule unmarshal_struct_keeps)
    show "graph_slot_ok graph_slot_zero" by (simp add: graph_slot_ok_def graph_slot_zero_def i64_ok_def)
    show "\<forall>f \<in> snd ` set graph_slot_fields. keeps graph_slot_ok f"
      by (simp add: graph_slot_fields_def) (intro conjI; (rule keeps_scalar keeps_pointer keeps_slices, rule sound_decs; simp add: graph_slot_ok_def)+)
  qed
qed

interpretation exact_graph_node: exact_codec marshal_graph_node unmarshal_graph_node graph_node_ok
proof
  fix data s assume "unmarshal_graph_node data = Inr s"
  from this [unfolded unmarshal_graph_node_def] show "graph_node_ok s"
  proof (rule unmarshal_struct_keeps)
    show "graph_node_ok graph_node_zero" by (simp add: graph_node_ok_def graph_node_zero_def i64_ok_def)
    show "\<forall>f \<in> snd ` set graph_node_fields. keeps graph_node_ok f"
      by (simp add: graph_node_fields_def) (intro conjI; (rule keeps_scalar keeps_pointer keeps_slices, rule sound_decs; simp add: graph_node_ok_def)+)
  qed
qed

interpretation exact_graph_edge: exact_codec marshal_graph_edge unmarshal_graph_edge graph_edge_ok
proof
  fix data s assume "unmarshal_graph_edge data = Inr s"
  from this [unfolded unmarshal_graph_edge_def] show "graph_edge_ok s"
  proof (rule unmarshal_struct_keeps)
    show "graph_edge_ok graph_edge_zero" by (simp add: graph_edge_ok_def graph_edge_zero_def i64_ok_def)
    show "\<forall>f \<in> snd ` set graph_edge_fields. keeps graph_edge_ok f"
      by (simp add: graph_edge_fields_def) (intro conjI; (rule keeps_scalar keeps_pointer keeps_slices, rule sound_decs; simp add: graph_edge_ok_def)+)
  qed
qed

end
