(* ===== verification/Typed_Records.thy ===== *)
theory Typed_Records
  imports Slot_Codecs Engine_Compact
begin

text \<open>
  \<^verbatim>\<open>internal/repo/core/record.go\<close>: typed access to the engine's records. Go's generic helpers take
  their type's decoder from \<^verbatim>\<open>encoding/json\<close>; here it is their first argument, and the typed
  accessors pass the slot codecs. The lemmas, proved once for every slot type, say what a typed
  read sees of the abstract store.
\<close>

definition readJSON :: "(bytes \<Rightarrow> goerr + 'a) \<Rightarrow> StorageEngine \<Rightarrow> u64 \<Rightarrow> u64 \<Rightarrow> byte \<Rightarrow> goerr + 'a" where
  "readJSON unmarshal engine agentID i rt =
     (case ReadRecord engine agentID i of Inl err \<Rightarrow> Inl err
      | Inr (stored, data) \<Rightarrow>
          if stored \<noteq> rt then Inl (NewError ErrNotFound)
          else (case unmarshal data of Inl err \<Rightarrow> Inl (Error ErrDeserialization (Some err)) | Inr slot \<Rightarrow> Inr slot))"

definition writeJSON :: "('a \<Rightarrow> goerr + bytes) \<Rightarrow> u64 \<Rightarrow> byte \<Rightarrow> u64 \<Rightarrow> 'a \<Rightarrow> StorageEngine \<Rightarrow> (goerr + unit) \<times> StorageEngine" where
  "writeJSON marshal agentID rt i v engine =
     (case marshal v of Inl err \<Rightarrow> (Inl (Error ErrSerialization (Some err)), engine)
      | Inr data \<Rightarrow> (case WriteRecord agentID rt i data engine of
          (Inl err, e) \<Rightarrow> (Inl err, e) | (Inr _, e) \<Rightarrow> (Inr (), e)))"

definition TopicEntry :: "u64 \<Rightarrow> TopicSlot \<Rightarrow> goerr + RecordEntry" where
  "TopicEntry agentID topic = (case marshal_topic topic of Inl err \<Rightarrow> Inl (Error ErrSerialization (Some err))
     | Inr data \<Rightarrow> Inr \<lparr>r_agent = agentID, r_type = RecL2Topic, r_id = ts_ID topic, r_data = data\<rparr>)"

text \<open>\<open>IterAll\<close> collects what a full iteration yields: every record that reads back.\<close>

fun iter_ids :: "(bytes \<Rightarrow> goerr + 'a) \<Rightarrow> StorageEngine \<Rightarrow> u64 \<Rightarrow> byte \<Rightarrow> u64 list \<Rightarrow> 'a list" where
  "iter_ids unmarshal engine agentID rt [] = []"
| "iter_ids unmarshal engine agentID rt (i # ids) =
     (case readJSON unmarshal engine agentID i rt of
        Inl _ \<Rightarrow> iter_ids unmarshal engine agentID rt ids
      | Inr slot \<Rightarrow> slot # iter_ids unmarshal engine agentID rt ids)"

definition IterAll :: "(bytes \<Rightarrow> goerr + 'a) \<Rightarrow> StorageEngine \<Rightarrow> u64 \<Rightarrow> byte \<Rightarrow> 'a list" where
  "IterAll unmarshal engine agentID rt = iter_ids unmarshal engine agentID rt (IndexByType engine agentID rt)"

fun collect_ids :: "(bytes \<Rightarrow> goerr + 'a) \<Rightarrow> StorageEngine \<Rightarrow> u64 \<Rightarrow> byte \<Rightarrow> u64 list \<Rightarrow> 'a list \<Rightarrow> goerr + 'a list" where
  "collect_ids unmarshal engine agentID rt [] out = Inr out"
| "collect_ids unmarshal engine agentID rt (i # ids) out =
     (case readJSON unmarshal engine agentID i rt of
        Inl err \<Rightarrow> if CodeOf err = ErrNotFound then collect_ids unmarshal engine agentID rt ids out
                  else Inl (Error (CodeOf err) (Some err))
      | Inr slot \<Rightarrow> collect_ids unmarshal engine agentID rt ids (out @ [slot]))"

definition CollectAllStrict :: "(bytes \<Rightarrow> goerr + 'a) \<Rightarrow> StorageEngine \<Rightarrow> u64 \<Rightarrow> byte \<Rightarrow> goerr + 'a list" where
  "CollectAllStrict unmarshal engine agentID rt =
     collect_ids unmarshal engine agentID rt (IndexByType engine agentID rt) []"

section \<open>The typed accessors\<close>

definition ReadSceneSlot :: "StorageEngine \<Rightarrow> u64 \<Rightarrow> u64 \<Rightarrow> goerr + SceneSlot" where
  "ReadSceneSlot e a i = readJSON unmarshal_scene e a i RecL2Scene"
definition WriteSceneSlot :: "u64 \<Rightarrow> u64 \<Rightarrow> SceneSlot \<Rightarrow> StorageEngine \<Rightarrow> (goerr + unit) \<times> StorageEngine" where
  "WriteSceneSlot a i s e = writeJSON marshal_scene a RecL2Scene i s e"
definition ReadTopicSlot :: "StorageEngine \<Rightarrow> u64 \<Rightarrow> u64 \<Rightarrow> goerr + TopicSlot" where
  "ReadTopicSlot e a i = readJSON unmarshal_topic e a i RecL2Topic"
definition WriteTopicSlot :: "u64 \<Rightarrow> u64 \<Rightarrow> TopicSlot \<Rightarrow> StorageEngine \<Rightarrow> (goerr + unit) \<times> StorageEngine" where
  "WriteTopicSlot a i s e = writeJSON marshal_topic a RecL2Topic i s e"
definition CollectAllTopicsStrict :: "StorageEngine \<Rightarrow> u64 \<Rightarrow> goerr + TopicSlot list" where
  "CollectAllTopicsStrict e a = CollectAllStrict unmarshal_topic e a RecL2Topic"

definition ReadTopicLenient :: "StorageEngine \<Rightarrow> u64 \<Rightarrow> u64 \<Rightarrow> goerr + TopicSlot option" where
  "ReadTopicLenient e a i = (case ReadRecord e a i of Inl err \<Rightarrow> Inl err
     | Inr (rt, data) \<Rightarrow> if rt \<noteq> RecL2Topic then Inr None
         else (case unmarshal_topic data of Inl err \<Rightarrow> Inl (Error ErrDeserialization (Some err)) | Inr t \<Rightarrow> Inr (Some t)))"

definition ReadHypergraphNode :: "StorageEngine \<Rightarrow> u64 \<Rightarrow> u64 \<Rightarrow> goerr + HypergraphNode" where
  "ReadHypergraphNode e a i = readJSON unmarshal_graph_node e a i RecL3GraphNode"
definition WriteHypergraphNode :: "u64 \<Rightarrow> u64 \<Rightarrow> HypergraphNode \<Rightarrow> StorageEngine \<Rightarrow> (goerr + unit) \<times> StorageEngine" where
  "WriteHypergraphNode a i s e = writeJSON marshal_graph_node a RecL3GraphNode i s e"
definition WriteHypergraphEdge :: "u64 \<Rightarrow> u64 \<Rightarrow> HypergraphEdge \<Rightarrow> StorageEngine \<Rightarrow> (goerr + unit) \<times> StorageEngine" where
  "WriteHypergraphEdge a i s e = writeJSON marshal_graph_edge a RecL3GraphEdge i s e"
definition ReadGraphSlot :: "StorageEngine \<Rightarrow> u64 \<Rightarrow> u64 \<Rightarrow> goerr + HypergraphSlot" where
  "ReadGraphSlot e a i = readJSON unmarshal_graph_slot e a i RecL3GraphSlot"
definition WriteGraphSlot :: "u64 \<Rightarrow> u64 \<Rightarrow> HypergraphSlot \<Rightarrow> StorageEngine \<Rightarrow> (goerr + unit) \<times> StorageEngine" where
  "WriteGraphSlot a i s e = writeJSON marshal_graph_slot a RecL3GraphSlot i s e"
definition CollectAllGraphSlots :: "StorageEngine \<Rightarrow> u64 \<Rightarrow> goerr + HypergraphSlot list" where
  "CollectAllGraphSlots e a = CollectAllStrict unmarshal_graph_slot e a RecL3GraphSlot"

definition ReadArchiveSlot :: "StorageEngine \<Rightarrow> u64 \<Rightarrow> u64 \<Rightarrow> goerr + ArchiveSlot" where
  "ReadArchiveSlot e a i = readJSON unmarshal_archive e a i RecL4Archive"
definition WriteArchiveSlot :: "u64 \<Rightarrow> u64 \<Rightarrow> ArchiveSlot \<Rightarrow> StorageEngine \<Rightarrow> (goerr + unit) \<times> StorageEngine" where
  "WriteArchiveSlot a i s e = writeJSON marshal_archive a RecL4Archive i s e"
definition CollectAllArchives :: "StorageEngine \<Rightarrow> u64 \<Rightarrow> ArchiveSlot list" where
  "CollectAllArchives e a = IterAll unmarshal_archive e a RecL4Archive"

definition ReadPlanNode :: "StorageEngine \<Rightarrow> u64 \<Rightarrow> u64 \<Rightarrow> goerr + PlanNode" where
  "ReadPlanNode e a i = readJSON unmarshal_plan_node e a i RecL5PlanNode"
definition WritePlanNodeRecord :: "u64 \<Rightarrow> u64 \<Rightarrow> PlanNode \<Rightarrow> StorageEngine \<Rightarrow> (goerr + unit) \<times> StorageEngine" where
  "WritePlanNodeRecord a i s e = writeJSON marshal_plan_node a RecL5PlanNode i s e"
definition CollectAllPlanNodes :: "StorageEngine \<Rightarrow> u64 \<Rightarrow> PlanNode list" where
  "CollectAllPlanNodes e a = IterAll unmarshal_plan_node e a RecL5PlanNode"
definition CollectAllPlanNodesStrict :: "StorageEngine \<Rightarrow> u64 \<Rightarrow> goerr + PlanNode list" where
  "CollectAllPlanNodesStrict e a = CollectAllStrict unmarshal_plan_node e a RecL5PlanNode"

section \<open>What a typed read sees\<close>

text \<open>What the abstract store holds under an id when it is read as a slot type, and the entry a slot is written as.\<close>

definition typed_at :: "(bytes \<Rightarrow> goerr + 'a) \<Rightarrow> store \<Rightarrow> u64 \<Rightarrow> byte \<Rightarrow> u64 \<Rightarrow> 'a option" where
  "typed_at unmarshal m a rt i = (case m (a, i) of None \<Rightarrow> None
     | Some (t, d) \<Rightarrow> if t = rt then (case unmarshal d of Inl _ \<Rightarrow> None | Inr x \<Rightarrow> Some x) else None)"

definition size_of :: "('a \<Rightarrow> goerr + bytes) \<Rightarrow> 'a \<Rightarrow> nat" where
  "size_of marshal x = (case marshal x of Inl _ \<Rightarrow> 0 | Inr d \<Rightarrow> length d)"

definition record_of :: "('a \<Rightarrow> goerr + bytes) \<Rightarrow> byte \<Rightarrow> 'a \<Rightarrow> byte \<times> bytes" where
  "record_of marshal rt x = (rt, case marshal x of Inl _ \<Rightarrow> [] | Inr d \<Rightarrow> d)"

definition entry_for :: "('a \<Rightarrow> goerr + bytes) \<Rightarrow> u64 \<Rightarrow> byte \<Rightarrow> ('a \<Rightarrow> u64) \<Rightarrow> 'a \<Rightarrow> RecordEntry" where
  "entry_for marshal a rt key x = \<lparr>r_agent = a, r_type = rt, r_id = key x, r_data = snd (record_of marshal rt x)\<rparr>"

definition batch_room :: "('a \<Rightarrow> goerr + bytes) \<Rightarrow> 'a list \<Rightarrow> nat" where
  "batch_room marshal xs = (\<Sum>x \<leftarrow> xs. RecordHeaderSize + size_of marshal x)"

lemma batch_room_simps [simp]: "batch_room marshal [] = 0"
  "batch_room marshal (x # xs) = RecordHeaderSize + size_of marshal x + batch_room marshal xs"
  by (simp_all add: batch_room_def)

context slot_codec
begin

lemma readJSON_typed:
  assumes "engine_rep e m"
  shows "readJSON unmarshal e a i rt = Inr x \<longleftrightarrow> typed_at unmarshal m a rt i = Some x"
  using eng.read_law [OF assms, of a i]
  by (auto simp: readJSON_def typed_at_def split: option.splits sum.splits prod.splits)

lemma readJSON_absent:
  assumes "engine_rep e m" "m (a, i) = None \<or> (\<exists>t d. m (a, i) = Some (t, d) \<and> t \<noteq> rt)"
  shows "readJSON unmarshal e a i rt = Inl (NewError ErrNotFound)"
  using eng.read_law [OF assms(1), of a i] assms(2) by (auto simp: readJSON_def)

lemma typed_record_of: "ok x \<Longrightarrow> m (a, i) = Some (record_of marshal rt x) \<Longrightarrow> typed_at unmarshal m a rt i = Some x"
  using round_trip [of x] by (auto simp: typed_at_def record_of_def)

lemma entry_of:
  assumes "ok x" "size_of marshal x < 2 ^ 32" "rt \<noteq> 0"
  shows "\<exists>d. marshal x = Inr d \<and> length d = size_of marshal x \<and> entry_ok \<lparr>r_agent = a, r_type = rt, r_id = i, r_data = d\<rparr>"
  using round_trip [OF assms(1)] assms(2,3)
  by (auto simp: size_of_def entry_ok_def frame_ok_def frame_of_def blank_head_def)

lemma writeJSON_law:
  assumes "engine_rep e m" "ok x" "size_of marshal x < 2 ^ 32" "rt \<noteq> 0" "engine_room e (RecordHeaderSize + size_of marshal x + n)"
  shows "\<exists>e'. writeJSON marshal a rt i x e = (Inr (), e') \<and> engine_rep e' (m((a, i) \<mapsto> record_of marshal rt x)) \<and> engine_room e' n"
proof -
  obtain d where d: "marshal x = Inr d" "length d = size_of marshal x" "entry_ok \<lparr>r_agent = a, r_type = rt, r_id = i, r_data = d\<rparr>"
    using entry_of [OF assms(2,3,4)] by blast
  let ?r = "\<lparr>r_agent = a, r_type = rt, r_id = i, r_data = d\<rparr>"
  obtain out e' where w: "WriteRecordBatch [?r] e = (Inr out, e')" "engine_rep e' (put_all [?r] m)" "engine_room e' n"
    using eng.write_law [OF assms(1), of "[?r]" n] d assms(5) by auto
  then show ?thesis using d by (auto simp: writeJSON_def WriteRecord_batch record_of_def put_entry_def)
qed

lemma write_then_read:
  assumes "engine_rep e m" "ok x" "size_of marshal x < 2 ^ 32" "rt \<noteq> 0" "engine_room e (RecordHeaderSize + size_of marshal x)"
  shows "\<exists>e'. writeJSON marshal a rt i x e = (Inr (), e') \<and> readJSON unmarshal e' a i rt = Inr x"
proof -
  obtain e' where e': "writeJSON marshal a rt i x e = (Inr (), e')" "engine_rep e' (m((a, i) \<mapsto> record_of marshal rt x))"
    using writeJSON_law [OF assms(1-4), of 0 a i] assms(5) by auto
  moreover have "typed_at unmarshal (m((a, i) \<mapsto> record_of marshal rt x)) a rt i = Some x" using typed_record_of [OF assms(2)] by simp
  ultimately show ?thesis using readJSON_typed [OF e'(2)] by blast
qed

lemma iter_ids_typed:
  assumes "engine_rep e m"
  shows "iter_ids unmarshal e a rt ids = List.map_filter (typed_at unmarshal m a rt) ids"
proof (induction ids)
  case (Cons i ids)
  note law = readJSON_typed [OF assms, of a i rt]
  show ?case
  proof (cases "typed_at unmarshal m a rt i")
    case None
    then obtain err where "readJSON unmarshal e a i rt = Inl err" using law by (cases "readJSON unmarshal e a i rt") auto
    then show ?thesis using None Cons by (simp add: List.map_filter_simps)
  next
    case (Some x)
    then have "readJSON unmarshal e a i rt = Inr x" by (rule iffD2 [OF law])
    then show ?thesis using Some Cons by (simp add: List.map_filter_simps)
  qed
qed (simp add: List.map_filter_simps)

text \<open>The lenient scan answers the readable members in id order.\<close>

lemma IterAll_typed:
  assumes "engine_rep e m"
  shows "IterAll unmarshal e a rt = List.map_filter (typed_at unmarshal m a rt) (IndexByType e a rt)"
  by (simp add: IterAll_def iter_ids_typed [OF assms])

lemma collect_ids_all:
  assumes "engine_rep e m" "\<forall>i \<in> set ids. typed_at unmarshal m a rt i \<noteq> None"
  shows "collect_ids unmarshal e a rt ids out = Inr (out @ map (\<lambda>i. the (typed_at unmarshal m a rt i)) ids)"
  using assms(2)
proof (induction ids arbitrary: out)
  case (Cons i ids)
  then obtain x where x: "typed_at unmarshal m a rt i = Some x" by auto
  then have "readJSON unmarshal e a i rt = Inr x" by (rule iffD2 [OF readJSON_typed [OF assms(1)]])
  then show ?case using x Cons by simp
qed simp

lemma collect_ids_damaged:
  assumes "engine_rep e m" "\<forall>i \<in> set ids. \<exists>d. m (a, i) = Some (rt, d)" "i \<in> set ids" "typed_at unmarshal m a rt i = None"
  shows "\<exists>err. collect_ids unmarshal e a rt ids out = Inl err \<and> CodeOf err = ErrDeserialization"
  using assms(2,3,4)
proof (induction ids arbitrary: out)
  case (Cons j ids)
  then obtain d where d: "m (a, j) = Some (rt, d)" by auto
  show ?case
  proof (cases "unmarshal d")
    case (Inl err)
    then show ?thesis using d eng.read_law [OF assms(1), of a j] by (simp add: readJSON_def)
  next
    case (Inr x)
    then have "typed_at unmarshal m a rt j = Some x" using d by (simp add: typed_at_def)
    then have "i \<noteq> j" using Cons.prems(3) by auto
    then show ?thesis
      using Cons.IH [of "out @ [x]"] Cons.prems d Inr eng.read_law [OF assms(1), of a j] by (simp add: readJSON_def)
  qed
qed simp

text \<open>The strict scan answers every member in id order, or the first one that does not read back.\<close>

lemma CollectAllStrict_law:
  assumes "engine_rep e m"
  shows "(\<forall>i d. m (a, i) = Some (rt, d) \<longrightarrow> typed_at unmarshal m a rt i \<noteq> None) \<Longrightarrow>
      CollectAllStrict unmarshal e a rt = Inr (map (\<lambda>i. the (typed_at unmarshal m a rt i)) (IndexByType e a rt))"
    and "m (a, i) = Some (rt, d) \<Longrightarrow> typed_at unmarshal m a rt i = None \<Longrightarrow>
      \<exists>err. CollectAllStrict unmarshal e a rt = Inl err \<and> CodeOf err = ErrDeserialization"
proof -
  note ids = eng.ids_law [OF assms, of a rt]
  show "CollectAllStrict unmarshal e a rt = Inr (map (\<lambda>i. the (typed_at unmarshal m a rt i)) (IndexByType e a rt))"
    if "\<forall>i d. m (a, i) = Some (rt, d) \<longrightarrow> typed_at unmarshal m a rt i \<noteq> None"
    using collect_ids_all [OF assms, of "IndexByType e a rt" a rt "[]"] ids that by (auto simp: CollectAllStrict_def)
  show "\<exists>err. CollectAllStrict unmarshal e a rt = Inl err \<and> CodeOf err = ErrDeserialization"
    if "m (a, i) = Some (rt, d)" "typed_at unmarshal m a rt i = None"
    using collect_ids_damaged [OF assms, of "IndexByType e a rt" a rt i "[]"] ids that by (auto simp: CollectAllStrict_def)
qed

text \<open>A batch of slots, each under its own key, and a batch of deletions.\<close>

lemma batch_size_entries: "batch_size (map (entry_for marshal a rt key) xs) = batch_room marshal xs"
  by (induction xs) (auto simp: entry_for_def record_of_def size_of_def split: sum.splits)

lemma typed_put_all:
  assumes "\<forall>x \<in> set xs. ok x"
  shows "typed_at unmarshal (put_all (map (entry_for marshal a rt key) xs) m) a rt i =
    (case List.find (\<lambda>x. key x = i) (rev xs) of Some x \<Rightarrow> Some x | None \<Rightarrow> typed_at unmarshal m a rt i)"
  using assms
proof (induction xs rule: rev_induct)
  case (snoc x xs)
  let ?m = "put_all (map (entry_for marshal a rt key) xs) m"
  have "put_all (map (entry_for marshal a rt key) (xs @ [x])) m = ?m((a, key x) \<mapsto> record_of marshal rt x)"
    by (simp add: put_all_def put_entry_def entry_for_def record_of_def)
  then show ?case
    using snoc typed_record_of [of x "?m((a, key x) \<mapsto> record_of marshal rt x)" a i rt] by (auto simp: typed_at_def)
qed simp

lemma batch_law:
  assumes "engine_rep e m" "\<forall>x \<in> set xs. ok x \<and> size_of marshal x < 2 ^ 32" "rt \<noteq> 0"
    "engine_room e (batch_room marshal xs + n)"
  shows "\<exists>out e'. WriteRecordBatch (map (entry_for marshal a rt key) xs) e = (Inr out, e')
    \<and> engine_rep e' (put_all (map (entry_for marshal a rt key) xs) m) \<and> engine_room e' n"
proof (rule eng.write_law [OF assms(1)])
  show "engine_room e (batch_size (map (entry_for marshal a rt key) xs) + n)" using assms(4) by (simp add: batch_size_entries)
  show "\<forall>r \<in> set (map (entry_for marshal a rt key) xs). entry_ok r"
    using entry_of [of _ rt] assms(2,3) by (fastforce simp: entry_for_def record_of_def)
qed

end

text \<open>An id that holds no record of another type can be written without disturbing the other types.\<close>

definition own_kind :: "StorageEngine \<Rightarrow> u64 \<Rightarrow> byte \<Rightarrow> u64 \<Rightarrow> bool" where
  "own_kind e a rt i \<longleftrightarrow> (case ReadRecord e a i of Inl _ \<Rightarrow> True | Inr (t, d) \<Rightarrow> t = rt)"

lemma own_kind_store:
  assumes "engine_rep e m"
  shows "own_kind e a rt i \<longleftrightarrow> (\<forall>t d. m (a, i) = Some (t, d) \<longrightarrow> t = rt)"
  unfolding own_kind_def eng.read_law [OF assms] by (auto split: option.splits)

lemma put_all_ids:
  assumes "\<forall>r \<in> set rs. r_agent r = a \<and> r_type r = rt"
  shows "if i \<in> r_id ` set rs then \<exists>d. put_all rs m (a, i) = Some (rt, d) else put_all rs m (a, i) = m (a, i)"
  using assms
proof (induction rs rule: rev_induct)
  case (snoc r rs)
  have "r_agent r = a" "r_type r = rt" using snoc.prems by auto
  then have step: "put_all (rs @ [r]) m (a, i) = (if r_id r = i then Some (rt, r_data r) else put_all rs m (a, i))"
    unfolding put_all_def fold_append by (simp add: put_entry_def)
  show ?case
  proof (cases "r_id r = i")
    case True
    then have "i \<in> r_id ` set (rs @ [r])" by force
    then show ?thesis unfolding step if_P [OF True] by simp
  next
    case False
    then have "i \<in> r_id ` set (rs @ [r]) \<longleftrightarrow> i \<in> r_id ` set rs" by auto
    then show ?thesis unfolding step if_not_P [OF False] using snoc by (simp only: set_append) blast
  qed
qed simp

lemma typed_other_kind: "(\<And>t d. m (a, i) = Some (t, d) \<Longrightarrow> t \<noteq> rt) \<Longrightarrow> typed_at unmarshal m a rt i = None"
  by (cases "m (a, i)") (auto simp: typed_at_def)

lemma typed_put_other:
  assumes "engine_rep e m" "rt' \<noteq> rt" "\<forall>r \<in> set rs. r_agent r = a \<and> r_type r = rt \<and> own_kind e a rt (r_id r)"
  shows "typed_at unmarshal (put_all rs m) a rt' i = typed_at unmarshal m a rt' i"
proof (cases "i \<in> r_id ` set rs")
  case True
  then obtain d where d: "put_all rs m (a, i) = Some (rt, d)" using put_all_ids [of rs a rt i m] assms(3) by auto
  have "own_kind e a rt i" using True assms(3) by blast
  then have own: "m (a, i) = Some (t, d) \<Longrightarrow> t = rt" for t d unfolding own_kind_store [OF assms(1)] by blast
  have "typed_at unmarshal m a rt' i = None" by (rule typed_other_kind) (use own assms(2) in blast)
  moreover have "typed_at unmarshal (put_all rs m) a rt' i = None" by (rule typed_other_kind) (use d assms(2) in simp)
  ultimately show ?thesis by simp
next
  case False
  then have "put_all rs m (a, i) = m (a, i)" using put_all_ids [of rs a rt i m] assms(3) by auto
  then show ?thesis unfolding typed_at_def by simp
qed

lemma typed_del_all: "typed_at unmarshal (del_all a ids m) a rt i = (if i \<in> set ids then None else typed_at unmarshal m a rt i)"
  by (simp add: typed_at_def del_all_def)

end
