(* ===== verification/Codec_Size.thy ===== *)
theory Codec_Size
  imports Typed_Records
begin

text \<open>
  How long the JSON form of a slot can get: escaping makes at most six bytes of one, a number of the
  model's widths takes at most twenty-one characters, and the rest is the member names. A frame stores
  the length of its payload in 32 bits, so these bounds say which slots fit into one.
\<close>

lemma length_esc1: "length (esc1 c) \<le> 6"
  by (simp add: esc1_def)

lemma length_esc_rune: "u \<noteq> [] \<Longrightarrow> length (esc_rune u) \<le> 6 * length u"
  by (cases u) (auto simp: esc_rune_def)

lemma length_esc_step:
  assumes "s \<noteq> []"
  shows "\<exists>h r. esc s = h @ esc r \<and> length h \<le> 6 * (length s - length r) \<and> length r < length s"
proof -
    let ?n = "rune_len s"
    have z: "esc s = (if ?n = 0 then CHR 0x5C # ''ufffd'' @ esc (tl s) else if ?n = 1 then esc1 (hd s) @ esc (tl s)
        else esc_rune (take ?n s) @ esc (drop ?n s))"
      using assms by (subst esc.simps) simp
    have s: "length s = Suc (length (tl s))" using assms by (cases s) auto
    consider "?n = 0" | "?n = 1" | "1 < ?n" by linarith
    then show ?thesis
    proof cases
      case 1
      have "esc s = (CHR 0x5C # ''ufffd'') @ esc (tl s)" using z 1 by simp
      then show ?thesis using s by (intro exI [of _ "CHR 0x5C # ''ufffd''"] exI [of _ "tl s"]) simp
    next
      case 2
      have "esc s = esc1 (hd s) @ esc (tl s)" using z 2 by simp
      then show ?thesis using s length_esc1 [of "hd s"] by (intro exI [of _ "esc1 (hd s)"] exI [of _ "tl s"]) simp
    next
      case 3
      have u: "take ?n s \<noteq> []" using 3 assms by simp
      have "esc s = esc_rune (take ?n s) @ esc (drop ?n s)" using z 3 by simp
      moreover have "length (take ?n s) = length s - length (drop ?n s)" by simp
      moreover have "length (drop ?n s) < length s" using 3 assms by simp
      ultimately show ?thesis using length_esc_rune [OF u] by (intro exI conjI) auto
    qed
qed

lemma length_esc: "length (esc s) \<le> 6 * length s"
proof (induction s rule: length_induct)
  case (1 s)
  show ?case
  proof (cases "s = []")
    case True
    then show ?thesis by (subst esc.simps) simp
  next
    case False
    from length_esc_step [OF this] obtain h r where h: "esc s = h @ esc r" "length h \<le> 6 * (length s - length r)" "length r < length s"
      by blast
    have "length (esc r) \<le> 6 * length r" using 1 h(3) by blast
    then show ?thesis using h(2,3) unfolding h(1) length_append by linarith
  qed
qed

lemma length_quote: "length (quote s) \<le> 6 * length s + 2"
  using length_esc [of s] by (simp add: quote_def)

lemma length_nat_dec: "n < 10 ^ k \<Longrightarrow> 0 < k \<Longrightarrow> length (nat_dec n) \<le> k"
proof (induction n arbitrary: k rule: nat_dec.induct)
  case (1 n)
  show ?case
  proof (cases "n < 10")
    case False
    then obtain j where j: "k = Suc j" "0 < j" using 1(2,3) by (cases k; cases "k - 1") auto
    then have "n div 10 < 10 ^ j" using 1(2) by (simp add: less_mult_imp_div_less mult.commute)
    then have "length (nat_dec (n div 10)) \<le> j" using 1(1) False j by simp
    then show ?thesis using False j by (subst nat_dec.simps) simp
  qed (use 1(3) in \<open>subst nat_dec.simps, simp\<close>)
qed

lemma length_int_dec: "\<bar>i\<bar> < 10 ^ 20 \<Longrightarrow> length (int_dec i) \<le> 21"
  using length_nat_dec [of "nat i" 20] length_nat_dec [of "nat (- i)" 20]
  by (cases "i < 0") (auto simp: int_dec_def nat_less_iff)

lemma length_word: "length (int_dec (uint (w :: 'a::len word))) \<le> 21" if "LENGTH('a) \<le> 64"
proof -
  have "uint w < 2 ^ LENGTH('a)" by simp
  also have "\<dots> \<le> 2 ^ 64" using that by (intro power_increasing) auto
  finally have "uint w < 2 ^ 64" .
  then show ?thesis by (intro length_int_dec) simp
qed

lemma length_i64: "i64_ok i \<Longrightarrow> length (int_dec i) \<le> 21"
  by (rule length_int_dec) (auto simp: i64_ok_def abs_if)

section \<open>Objects\<close>

definition member_size :: "string \<times> json \<Rightarrow> nat" where
  "member_size m = length (quote (fst m)) + length (enc_val (snd m)) + 2"

lemma length_object: "length (enc_val (JObj ms)) \<le> 2 + (\<Sum>m \<leftarrow> ms. member_size m)"
  by (cases ms) (auto simp: sep_def member_size_def length_concat comp_def add_ac)

lemma size_of_struct: "size_of (marshal_struct members) x = length (enc_val (JObj (members x)))"
  by (simp add: size_of_def marshal_struct_def text_bytes_def)

lemma member_num: "length l \<le> 21 \<Longrightarrow> member_size (k, JNum l) \<le> 6 * length k + 25"
  using length_quote [of k] by (simp add: member_size_def)

lemma member_str: "member_size (k, JStr s) \<le> 6 * (length k + length s) + 6"
  using length_quote [of k] length_quote [of s] by (simp add: member_size_def)

lemma member_word: "LENGTH('a) \<le> 64 \<Longrightarrow> member_size (k, j_word (w :: 'a::len word)) \<le> 6 * length k + 25"
  unfolding j_word_def j_int_def by (rule member_num [OF length_word])

lemma member_int: "i64_ok i \<Longrightarrow> member_size (k, j_int i) \<le> 6 * length k + 25"
  unfolding j_int_def by (rule member_num [OF length_i64])

lemma member_bool: "member_size (k, JBool b) \<le> 6 * length k + 25"
  using length_quote [of k] by (simp add: member_size_def)

lemma omit_size: "(\<Sum>m \<leftarrow> omit b k v. member_size m) \<le> member_size (k, v)"
  by (simp add: omit_def)

lemma sum_members: "(\<Sum>m \<leftarrow> m # ms. member_size m) = member_size m + (\<Sum>m \<leftarrow> ms. member_size m)"
  "(\<Sum>m \<leftarrow> ms @ ms'. member_size m) = (\<Sum>m \<leftarrow> ms. member_size m) + (\<Sum>m \<leftarrow> ms'. member_size m)"
  by simp_all

lemma member_list: "member_size (k, j_list JStr ss) \<le> 6 * length k + 10 + (\<Sum>s \<leftarrow> ss. 6 * length s + 3)"
proof -
  have "length (sep (map enc_val (map JStr ss))) \<le> (\<Sum>s \<leftarrow> ss. length (quote s) + 1)"
    by (cases ss) (auto simp: sep_def length_concat comp_def)
  also have "\<dots> \<le> (\<Sum>s \<leftarrow> ss. 6 * length s + 3)"
    by (rule sum_list_mono) (use length_quote in \<open>simp add: add.commute le_SucI numeral_3_eq_3\<close>)
  finally have "length (sep (map enc_val (map JStr ss))) \<le> (\<Sum>s \<leftarrow> ss. 6 * length s + 3)" .
  then show ?thesis using length_quote [of k] by (auto simp: member_size_def j_list_def)
qed

section \<open>The slots\<close>

lemma archive_size_i64:
  assumes "i64_ok (as_CreatedAt x)"
  shows "size_of marshal_archive x \<le> 6 * (length (as_Content x) + length (as_EventType x)) + 900"
proof -
  let ?w = "\<lambda>k. 6 * length (k :: string) + 25"
  note o = omit_size [of "as_EventType x = []" "''event_type''" "JStr (as_EventType x)"]
    omit_size [of "as_NodeSeq x = 0" "''node_seq''" "j_word (as_NodeSeq x)"]
  note m = member_word [of "''id_hash''" "as_IDHash x"] member_word [of "''kind''" "as_Kind x"] member_word [of "''seq''" "as_Seq x"]
    member_word [of "''content_type''" "as_ContentType x"] member_word [of "''role''" "as_Role x"] member_word [of "''topic_id''" "as_TopicID x"]
    member_str [of "''event_type''" "as_EventType x"] member_word [of "''node_seq''" "as_NodeSeq x"] member_int [of "as_CreatedAt x" "''created_at''"]
    member_str [of "''content''" "as_Content x"]
  show ?thesis using assms
    unfolding marshal_archive_def size_of_struct using length_object [of "archive_members x"] o m
    unfolding archive_members_def sum_members by simp
qed

lemma archive_size: "archive_ok x \<Longrightarrow> size_of marshal_archive x \<le> 6 * (length (as_Content x) + length (as_EventType x)) + 900"
  by (rule archive_size_i64) (simp add: archive_ok_def)

lemma topic_size:
  assumes "topic_ok x"
  shows "size_of marshal_topic x \<le> 6 * length (ts_Name x) + (\<Sum>k \<leftarrow> ts_FusedKeywords x. 6 * length k + 3) + 800"
proof -
  note o = omit_size [of "ts_ParentID x = None" "''parent_id''" "case ts_ParentID x of None \<Rightarrow> JNull | Some w \<Rightarrow> j_word w"]
    omit_size [of "ts_Name x = []" "''name''" "JStr (ts_Name x)"]
  have p: "member_size (''parent_id'', case ts_ParentID x of None \<Rightarrow> JNull | Some w \<Rightarrow> j_word w) \<le> 6 * 9 + 25"
    using member_word [of "''parent_id''" "the (ts_ParentID x)"] length_quote [of "''parent_id''"]
    by (cases "ts_ParentID x") (auto simp: member_size_def)
  note m = member_word [of "''id''" "ts_ID x"] member_word [of "''scene_id''" "ts_SceneID x"] p member_word [of "''depth''" "ts_Depth x"]
    member_str [of "''name''" "ts_Name x"] member_list [of "''fused_keywords''" "ts_FusedKeywords x"]
    member_int [of "ts_UserTimestamp x" "''user_timestamp''"] member_int [of "ts_AgentTimestamp x" "''agent_timestamp''"]
  have "i64_ok (ts_UserTimestamp x)" "i64_ok (ts_AgentTimestamp x)" using assms by (simp_all add: topic_ok_def)
  then show ?thesis
    unfolding marshal_topic_def size_of_struct using length_object [of "topic_members x"] o m
    unfolding topic_members_def sum_members by simp
qed

lemma scene_size:
  assumes "scene_ok x"
  shows "size_of marshal_scene x \<le> 6 * length (ss_SceneName x) + 500"
proof -
  note o = omit_size [of "ss_TurnSeq x = 0" "''turn_seq''" "j_word (ss_TurnSeq x)"]
    omit_size [of "ss_LastUsedAt x = 0" "''last_used_at''" "j_int (ss_LastUsedAt x)"]
  note m = member_word [of "''scene_id''" "ss_SceneID x"] member_str [of "''scene_name''" "ss_SceneName x"] member_word [of "''turn_seq''" "ss_TurnSeq x"]
    member_int [of "ss_LastUsedAt x" "''last_used_at''"] member_word [of "''l3_id''" "ss_L3ID x"]
  have "i64_ok (ss_LastUsedAt x)" using assms by (simp add: scene_ok_def)
  then show ?thesis
    unfolding marshal_scene_def size_of_struct using length_object [of "scene_members x"] o m
    unfolding scene_members_def sum_members by simp
qed

lemma plan_node_size:
  assumes "plan_node_ok x"
  shows "size_of marshal_plan_node x \<le> 6 * (length (pn_Title x) + length (pn_Summary x)) + 1000"
proof -
  note o = omit_size [of "pn_Title x = []" "''title''" "JStr (pn_Title x)"] omit_size [of "pn_Summary x = []" "''summary''" "JStr (pn_Summary x)"]
    omit_size [of "\<not> pn_SummaryFolded x" "''summary_folded''" "JBool (pn_SummaryFolded x)"] omit_size [of "pn_FinishedAt x = 0" "''finished_at''" "j_int (pn_FinishedAt x)"]
  note m = member_word [of "''id_hash''" "pn_IDHash x"] member_word [of "''topic_id''" "pn_TopicID x"] member_word [of "''seq''" "pn_Seq x"]
    member_word [of "''parent_seq''" "pn_ParentSeq x"] member_word [of "''status''" "pn_Status x"] member_str [of "''title''" "pn_Title x"]
    member_str [of "''summary''" "pn_Summary x"] member_bool [of "''summary_folded''" "pn_SummaryFolded x"] member_int [of "pn_CreatedAt x" "''created_at''"]
    member_int [of "pn_FinishedAt x" "''finished_at''"] member_int [of "pn_UpdatedAt x" "''updated_at''"]
  have "i64_ok (pn_CreatedAt x)" "i64_ok (pn_FinishedAt x)" "i64_ok (pn_UpdatedAt x)" using assms by (simp_all add: plan_node_ok_def)
  then show ?thesis
    unfolding marshal_plan_node_def size_of_struct using length_object [of "plan_node_members x"] o m
    unfolding plan_node_members_def sum_members by simp
qed


lemma graph_edge_size:
  assumes "graph_edge_ok x"
  shows "size_of marshal_graph_edge x \<le> 22 * length (he_NodeIDs x) + 500"
proof -
  note m = member_word [of "''id_hash''" "he_IDHash x"] member_word [of "''graph_id''" "he_GraphID x"] member_word [of "''kind''" "he_Kind x"]
    member_int [of "he_CreatedAt x" "''created_at''"]
  have list: "length (sep (map enc_val (map j_word ws))) \<le> 22 * length ws" for ws :: "u64 list"
  proof -
    have "length (sep (map enc_val (map j_word ws))) \<le> (\<Sum>w \<leftarrow> ws. length (int_dec (uint w)) + 1)"
      by (cases ws) (auto simp: sep_def length_concat comp_def j_word_def j_int_def)
    also have "\<dots> \<le> (\<Sum>w \<leftarrow> ws. 22)"
      by (rule sum_list_mono) (use length_word [where 'a = 64] in simp)
    finally show ?thesis by (simp add: sum_list_triv)
  qed
  have ids: "member_size (''node_ids'', j_list j_word (he_NodeIDs x)) \<le> 22 * length (he_NodeIDs x) + 60"
    using length_quote [of "''node_ids''"] list [of "he_NodeIDs x"] by (auto simp: member_size_def j_list_def)
  have "i64_ok (he_CreatedAt x)" using assms by (simp add: graph_edge_ok_def)
  then show ?thesis
    unfolding marshal_graph_edge_def size_of_struct using length_object [of "graph_edge_members x"] m ids
    unfolding graph_edge_members_def sum_members by simp
qed

lemma graph_node_size:
  assumes "graph_node_ok x"
  shows "size_of marshal_graph_node x \<le> 6 * (length (hn_Title x) + length (hn_NodeType x) + length (hn_Content x) + (case hn_SourceRef x of None \<Rightarrow> 0 | Some s \<Rightarrow> length s))
    + (\<Sum>k \<leftarrow> hn_Keywords x. 6 * length k + 3) + 900"
proof -
  note o = omit_size [of "hn_NodeType x = []" "''node_type''" "JStr (hn_NodeType x)"] omit_size [of "hn_SourceRef x = None" "''source_ref''" "case hn_SourceRef x of None \<Rightarrow> JNull | Some w \<Rightarrow> JStr w"]
  have p: "member_size (''source_ref'', case hn_SourceRef x of None \<Rightarrow> JNull | Some w \<Rightarrow> JStr w) \<le> 6 * (10 + (case hn_SourceRef x of None \<Rightarrow> 0 | Some s \<Rightarrow> length s)) + 25"
    using member_str [of "''source_ref''" "the (hn_SourceRef x)"] length_quote [of "''source_ref''"]
    by (cases "hn_SourceRef x") (auto simp: member_size_def)
  note m = member_word [of "''id_hash''" "hn_IDHash x"] member_word [of "''graph_id''" "hn_GraphID x"] p member_str [of "''title''" "hn_Title x"]
    member_str [of "''node_type''" "hn_NodeType x"] member_str [of "''content''" "hn_Content x"] member_list [of "''keywords''" "hn_Keywords x"]
    member_int [of "hn_CreatedAt x" "''created_at''"] member_int [of "hn_UpdatedAt x" "''updated_at''"]
  have "i64_ok (hn_CreatedAt x)" "i64_ok (hn_UpdatedAt x)" using assms by (simp_all add: graph_node_ok_def)
  then show ?thesis
    unfolding marshal_graph_node_def size_of_struct using length_object [of "graph_node_members x"] o m
    unfolding graph_node_members_def sum_members by (simp split: option.split)
qed

end
