(* ===== verification/Go_Slices.thy ===== *)
theory Go_Slices
  imports Model "HOL-Library.Multiset"
begin

text \<open>
  What the source uses of \<^verbatim>\<open>slices\<close>: \<open>SortFunc\<close> and \<open>BinarySearchFunc\<close> over a comparison with values
  below, at or above zero. \<^verbatim>\<open>slices.SortFunc\<close> leaves the order of equal elements open; the model keeps
  the given one, and the lemma \<open>SortFunc_unique\<close> shows that without equal elements every sort
  algorithm answers the same list.
\<close>

named_theorems go_order \<open>comparison functions of the source as orders\<close>

fun insert_by :: "('a \<Rightarrow> 'a \<Rightarrow> int) \<Rightarrow> 'a \<Rightarrow> 'a list \<Rightarrow> 'a list" where
  "insert_by c x [] = [x]"
| "insert_by c x (y # ys) = (if c x y \<le> 0 then x # y # ys else y # insert_by c x ys)"

definition SortFunc :: "('a \<Rightarrow> 'a \<Rightarrow> int) \<Rightarrow> 'a list \<Rightarrow> 'a list" where
  "SortFunc c xs = foldr (insert_by c) xs []"

text \<open>A comparison that is a total preorder, as \<^verbatim>\<open>slices.SortFunc\<close> asks for.\<close>

locale comparison =
  fixes c :: "'a \<Rightarrow> 'a \<Rightarrow> int"
  assumes total: "c x y \<le> 0 \<or> c y x \<le> 0"
    and trans: "c x y \<le> 0 \<Longrightarrow> c y z \<le> 0 \<Longrightarrow> c x z \<le> 0"
begin

abbreviation sorted_c :: "'a list \<Rightarrow> bool" where "sorted_c \<equiv> sorted_wrt (\<lambda>x y. c x y \<le> 0)"

lemma mset_insert_by: "mset (insert_by c x ys) = add_mset x (mset ys)"
  by (induction ys) auto

lemma set_insert_by: "set (insert_by c x ys) = insert x (set ys)"
  using mset_insert_by [of x ys] by (metis set_mset_add_mset_insert set_mset_mset)

lemma sorted_insert_by: "sorted_c ys \<Longrightarrow> sorted_c (insert_by c x ys)"
proof (induction ys)
  case (Cons y ys)
  then show ?case using total [of x y] trans [of x y] by (auto simp: set_insert_by)
qed simp

lemma mset_SortFunc: "mset (SortFunc c xs) = mset xs"
  by (induction xs) (simp_all add: SortFunc_def mset_insert_by)

lemma set_SortFunc: "set (SortFunc c xs) = set xs"
  using mset_SortFunc by (metis set_mset_mset)

lemma length_SortFunc: "length (SortFunc c xs) = length xs"
  using mset_SortFunc by (metis size_mset)

lemma sorted_SortFunc: "sorted_c (SortFunc c xs)"
  by (induction xs) (simp_all add: SortFunc_def sorted_insert_by)

lemma distinct_SortFunc: "distinct (SortFunc c xs) \<longleftrightarrow> distinct xs"
  by (metis mset_SortFunc mset_eq_imp_distinct_iff)

lemma sorted_unique:
  assumes "sorted_c xs" "sorted_c ys" "mset xs = mset ys"
    and "\<And>x y. x \<in> set xs \<Longrightarrow> y \<in> set xs \<Longrightarrow> c x y \<le> 0 \<Longrightarrow> c y x \<le> 0 \<Longrightarrow> x = y"
  shows "xs = ys"
  using assms
proof (induction xs arbitrary: ys)
  case (Cons x xs)
  then obtain y ys' where ys: "ys = y # ys'" by (cases ys) auto
  have "x \<in> set ys" "y \<in> set (x # xs)" using Cons.prems(3) ys by (metis list.set_intros(1) mset_eq_setD)+
  then have "x = y" using Cons.prems(1,2,4) ys by (metis list.set_intros(1) set_ConsD sorted_wrt.simps(2))
  moreover have "xs = ys'"
    using Cons.IH [of ys'] Cons.prems ys calculation by simp
  ultimately show ?case using ys by simp
qed simp

text \<open>Without equal elements the sorted list is determined by the set.\<close>

lemma SortFunc_unique:
  assumes "sorted_c ys" "mset ys = mset xs"
    and "\<And>x y. x \<in> set xs \<Longrightarrow> y \<in> set xs \<Longrightarrow> c x y \<le> 0 \<Longrightarrow> c y x \<le> 0 \<Longrightarrow> x = y"
  shows "SortFunc c xs = ys"
proof (rule sorted_unique [OF sorted_SortFunc assms(1)])
  show "mset (SortFunc c xs) = mset ys" using assms(2) by (simp add: mset_SortFunc)
qed (use assms(3) set_SortFunc in auto)

lemma SortFunc_mset:
  assumes "mset xs = mset ys" and "\<And>x y. x \<in> set xs \<Longrightarrow> y \<in> set xs \<Longrightarrow> c x y \<le> 0 \<Longrightarrow> c y x \<le> 0 \<Longrightarrow> x = y"
  shows "SortFunc c xs = SortFunc c ys"
  using SortFunc_unique [OF sorted_SortFunc, of ys xs] assms mset_SortFunc by metis

end

lemma cmp_le [simp, go_order]: "cmp a b \<le> 0 \<longleftrightarrow> a \<le> b"
  by (auto simp: cmp_def)

lemma cmp_less [simp, go_order]: "cmp a b < 0 \<longleftrightarrow> a < b"
  by (auto simp: cmp_def)

lemma cmp_eq [simp, go_order]: "cmp a b = 0 \<longleftrightarrow> a = b"
  by (auto simp: cmp_def)

lemma sorted_strict:
  fixes f :: "'a \<Rightarrow> 'k::linorder"
  assumes "sorted_wrt (\<lambda>x y. f x \<le> f y) xs" "distinct (map f xs)"
  shows "sorted_wrt (\<lambda>x y. f x < f y) xs"
  using assms
proof (induction xs)
  case (Cons x xs)
  have "f x < f y" if "y \<in> set xs" for y
    using Cons.prems that by (auto simp: order_le_less image_iff)
  then show ?case using Cons by simp
qed simp

section \<open>Binary search\<close>

text \<open>\<open>BinarySearchFunc c xs\<close>, with the target already applied: the loop between \<open>i\<close> and \<open>j\<close>.\<close>

function search_loop :: "('a \<Rightarrow> int) \<Rightarrow> 'a list \<Rightarrow> nat \<Rightarrow> nat \<Rightarrow> nat" where
  "search_loop c xs i j = (if i < j then
     (let h = (i + j) div 2 in if c (xs ! h) < 0 then search_loop c xs (h + 1) j else search_loop c xs i h)
   else i)"
  by auto
termination by (relation "measure (\<lambda>(c, xs, i, j). j - i)") auto

declare search_loop.simps [simp del]

definition BinarySearchFunc :: "('a \<Rightarrow> int) \<Rightarrow> 'a list \<Rightarrow> nat" where
  "BinarySearchFunc c xs = search_loop c xs 0 (length xs)"

text \<open>On a list that is first below and then at or above the target, the search ends at the border.\<close>

lemma search_loop_border:
  assumes "\<forall>k < length xs. c (xs ! k) < 0 \<longleftrightarrow> k < n" "i \<le> n" "n \<le> j" "j \<le> length xs"
  shows "search_loop c xs i j = n"
  using assms
proof (induction c xs i j rule: search_loop.induct)
  case (1 c xs i j)
  show ?case
  proof (cases "i < j")
    case True
    let ?h = "(i + j) div 2"
    have h: "i \<le> ?h" "?h < j" using True by auto
    then have "c (xs ! ?h) < 0 \<longleftrightarrow> ?h < n" using "1.prems" by auto
    then show ?thesis
      using "1.IH" True h "1.prems" by (subst search_loop.simps) (auto simp: Let_def)
  next
    case False
    then show ?thesis using "1.prems" by (simp add: search_loop.simps)
  qed
qed

lemma BinarySearchFunc_border:
  assumes "list_all (\<lambda>x. c x < 0) lo" "list_all (\<lambda>x. \<not> c x < 0) hi"
  shows "BinarySearchFunc c (lo @ hi) = length lo"
  unfolding BinarySearchFunc_def
  by (rule search_loop_border) (use assms in \<open>auto simp: list_all_length nth_append\<close>)

end
