(* ===== verification/L4_Index.thy ===== *)
theory L4_Index
  imports Typed_Records Go_Slices
begin

text \<open>
  \<^verbatim>\<open>internal/repo/index/l4.go\<close>: the content mirror of one agent domain, a map from topics to entries
  in \<open>Seq\<close> order. \<open>l4_view\<close> reads it as a partial map from \<open>(topic, Seq)\<close>, and the locale
  \<open>content_mirror\<close> states over that view what the content layer relies on.
\<close>

record l4Entry =
  le_Seq :: u64
  le_IDHash :: u64
  le_Kind :: byte
  le_CreatedAt :: i64
  le_NodeSeq :: u32

record L4Index =
  byTopic :: "(u64, l4Entry list) gomap"

definition NewL4Index :: L4Index where
  "NewL4Index = \<lparr>byTopic = []\<rparr>"

text \<open>Reading a topic the map does not hold yields the nil slice.\<close>

definition entries_of :: "L4Index \<Rightarrow> u64 \<Rightarrow> l4Entry list" where
  "entries_of idx topicID = (case map_of (byTopic idx) topicID of None \<Rightarrow> [] | Some es \<Rightarrow> es)"

definition l4_put :: "u64 \<Rightarrow> l4Entry list \<Rightarrow> L4Index \<Rightarrow> L4Index" where
  "l4_put topicID es idx = idx\<lparr>byTopic := AList.update topicID es (byTopic idx)\<rparr>"

definition L4_Append :: "u64 \<Rightarrow> u64 \<Rightarrow> u64 \<Rightarrow> byte \<Rightarrow> i64 \<Rightarrow> u32 \<Rightarrow> L4Index \<Rightarrow> L4Index" where
  "L4_Append topicID seq idHash kind createdAt nodeSeq idx =
     (let entries = entries_of idx topicID;
          at = BinarySearchFunc (\<lambda>e. cmp (le_Seq e) seq) entries;
          e = \<lparr>le_Seq = seq, le_IDHash = idHash, le_Kind = kind, le_CreatedAt = createdAt, le_NodeSeq = nodeSeq\<rparr>
      in if at < length entries \<and> le_Seq (entries ! at) = seq
         then l4_put topicID (entries[at := e]) idx
         else l4_put topicID (take at entries @ e # drop at entries) idx)"

definition BuildL4FromEngine :: "StorageEngine \<Rightarrow> u64 \<Rightarrow> L4Index" where
  "BuildL4FromEngine engine agentID =
     fold (\<lambda>arc. L4_Append (as_TopicID arc) (as_Seq arc) (as_IDHash arc) (as_Kind arc) (as_CreatedAt arc) (as_NodeSeq arc))
       (CollectAllArchives engine agentID) NewL4Index"

definition MaxNodeSeq :: "L4Index \<Rightarrow> u64 \<Rightarrow> u32" where
  "MaxNodeSeq idx topicID = fold (\<lambda>e top. if le_NodeSeq e > top then le_NodeSeq e else top) (entries_of idx topicID) 0"

definition MaxSeq :: "L4Index \<Rightarrow> u64 \<Rightarrow> u64" where
  "MaxSeq idx topicID = (let entries = entries_of idx topicID in
     if length entries = 0 then 0 else le_Seq (entries ! (length entries - 1)))"

definition l4_ids :: "L4Index \<Rightarrow> u64 \<Rightarrow> byte option \<Rightarrow> u64 list" where
  "l4_ids idx topicID kind =
     map le_IDHash (filter (\<lambda>e. case kind of None \<Rightarrow> True | Some k \<Rightarrow> le_Kind e = k) (entries_of idx topicID))"

definition IDs :: "L4Index \<Rightarrow> u64 \<Rightarrow> byte \<Rightarrow> u64 list" where
  "IDs idx topicID kind = l4_ids idx topicID (Some kind)"

definition AllIDs :: "L4Index \<Rightarrow> u64 \<Rightarrow> u64 list" where
  "AllIDs idx topicID = l4_ids idx topicID None"

text \<open>A topic enters the result with its first expired entry, so no topic has an empty list there.\<close>

definition ExpiredBefore :: "L4Index \<Rightarrow> i64 \<Rightarrow> (u64, u64 list) gomap" where
  "ExpiredBefore idx cutoff =
     filter (\<lambda>(t, ids). ids \<noteq> [])
       (map (\<lambda>(t, es). (t, map le_IDHash (filter (\<lambda>e. le_CreatedAt e < cutoff) es))) (byTopic idx))"

definition RemoveIDs :: "u64 \<Rightarrow> u64 list \<Rightarrow> L4Index \<Rightarrow> L4Index" where
  "RemoveIDs topicID idHashes idx =
     (let entries = entries_of idx topicID;
          kept = filter (\<lambda>e. le_IDHash e \<notin> set idHashes) entries
      in if length entries = 0 \<or> length kept = length entries then idx
         else if length kept = 0 then idx\<lparr>byTopic := AList.delete topicID (byTopic idx)\<rparr>
         else l4_put topicID kept idx)"

definition L4_RemoveTopic :: "u64 \<Rightarrow> L4Index \<Rightarrow> L4Index" where
  "L4_RemoveTopic topicID idx = idx\<lparr>byTopic := AList.delete topicID (byTopic idx)\<rparr>"

section \<open>The mirror as a map\<close>

definition by_seq :: "l4Entry list \<Rightarrow> bool" where
  "by_seq es \<longleftrightarrow> sorted_wrt (\<lambda>x y. le_Seq x < le_Seq y) es"

definition l4_wf :: "L4Index \<Rightarrow> bool" where
  "l4_wf idx \<longleftrightarrow> map_wf (byTopic idx) \<and> (\<forall>(t, es) \<in> set (byTopic idx). by_seq es)"

definition l4_view :: "L4Index \<Rightarrow> u64 \<Rightarrow> u64 \<Rightarrow> l4Entry option" where
  "l4_view idx t s = List.find (\<lambda>e. le_Seq e = s) (entries_of idx t)"

definition l4_entry :: "ArchiveSlot \<Rightarrow> l4Entry" where
  "l4_entry x = \<lparr>le_Seq = as_Seq x, le_IDHash = as_IDHash x, le_Kind = as_Kind x, le_CreatedAt = as_CreatedAt x, le_NodeSeq = as_NodeSeq x\<rparr>"

definition append_slot :: "ArchiveSlot \<Rightarrow> L4Index \<Rightarrow> L4Index" where
  "append_slot x = L4_Append (as_TopicID x) (as_Seq x) (as_IDHash x) (as_Kind x) (as_CreatedAt x) (as_NodeSeq x)"

lemma l4_entry_simps [simp]: "le_Seq (l4_entry x) = as_Seq x" "le_IDHash (l4_entry x) = as_IDHash x"
  "le_Kind (l4_entry x) = as_Kind x" "le_CreatedAt (l4_entry x) = as_CreatedAt x" "le_NodeSeq (l4_entry x) = as_NodeSeq x"
  by (simp_all add: l4_entry_def)

lemma entries_of_simps [simp]:
  "entries_of NewL4Index t = []"
  "entries_of (l4_put t es idx) u = (if u = t then es else entries_of idx u)"
  "entries_of (L4_RemoveTopic t idx) u = (if u = t then [] else entries_of idx u)"
  by (auto simp: entries_of_def NewL4Index_def l4_put_def L4_RemoveTopic_def)

lemma by_seq_entries: "l4_wf idx \<Longrightarrow> by_seq (entries_of idx t)"
  unfolding l4_wf_def entries_of_def by (auto simp: by_seq_def split: option.splits dest!: map_of_SomeD)

lemma l4_wf_put: "l4_wf idx \<Longrightarrow> by_seq es \<Longrightarrow> l4_wf (l4_put t es idx)"
  unfolding l4_wf_def l4_put_def by (fastforce dest: set_update_cases)

lemma set_delete_sub: "x \<in> set (AList.delete k m) \<Longrightarrow> x \<in> set m"
  by (induction m) (auto split: if_splits)

lemma l4_wf_delete: "l4_wf idx \<Longrightarrow> l4_wf (idx\<lparr>byTopic := AList.delete t (byTopic idx)\<rparr>)"
  unfolding l4_wf_def by (auto dest: set_delete_sub)

lemma by_seq_inj: "by_seq es \<Longrightarrow> x \<in> set es \<Longrightarrow> y \<in> set es \<Longrightarrow> le_Seq x = le_Seq y \<Longrightarrow> x = y"
  unfolding by_seq_def by (induction es) auto

lemma find_by_seq: "by_seq es \<Longrightarrow> List.find (\<lambda>e. le_Seq e = s) es = Some x \<longleftrightarrow> x \<in> set es \<and> le_Seq x = s"
  using by_seq_inj [of es]
  by (auto simp: find_Some_iff in_set_conv_nth) (metis by_seq_def nat_neq_iff order_less_imp_not_eq sorted_wrt_nth_less)

lemma l4_view_iff: "l4_wf idx \<Longrightarrow> l4_view idx t s = Some x \<longleftrightarrow> x \<in> set (entries_of idx t) \<and> le_Seq x = s"
  by (simp add: l4_view_def find_by_seq by_seq_entries)

text \<open>The entries of a topic split at the sought sequence number.\<close>

lemma by_seq_split:
  assumes "by_seq es"
  obtains lo hi where "es = lo @ hi" "\<forall>x \<in> set lo. le_Seq x < s" "\<forall>x \<in> set hi. s \<le> le_Seq x"
    "BinarySearchFunc (\<lambda>e. cmp (le_Seq e) s) es = length lo"
proof -
  let ?lo = "takeWhile (\<lambda>e. le_Seq e < s) es" and ?hi = "dropWhile (\<lambda>e. le_Seq e < s) es"
  have lo: "\<forall>x \<in> set ?lo. le_Seq x < s" by (auto dest: set_takeWhileD)
  have hi: "\<forall>x \<in> set ?hi. s \<le> le_Seq x"
    using assms unfolding by_seq_def by (induction es) (auto simp: not_less)
  show ?thesis
    using lo hi BinarySearchFunc_border [of "\<lambda>e. cmp (le_Seq e) s" ?lo ?hi] that [of ?lo ?hi]
    by (auto simp: list_all_iff not_less)
qed

section \<open>What the operations do to the view\<close>

lemma L4_Append_law:
  assumes "l4_wf idx"
  shows "l4_wf (L4_Append t s h k c n idx)"
    and "l4_view (L4_Append t s h k c n idx) u q = (if u = t \<and> q = s
      then Some \<lparr>le_Seq = s, le_IDHash = h, le_Kind = k, le_CreatedAt = c, le_NodeSeq = n\<rparr> else l4_view idx u q)"
proof -
  let ?e = "\<lparr>le_Seq = s, le_IDHash = h, le_Kind = k, le_CreatedAt = c, le_NodeSeq = n\<rparr>"
  note es = by_seq_entries [OF assms, of t]
  obtain lo hi where split: "entries_of idx t = lo @ hi" "\<forall>x \<in> set lo. le_Seq x < s" "\<forall>x \<in> set hi. s \<le> le_Seq x"
    "BinarySearchFunc (\<lambda>e. cmp (le_Seq e) s) (entries_of idx t) = length lo"
    using by_seq_split [OF es] by blast
  define rest where "rest = (case hi of [] \<Rightarrow> [] | x # xs \<Rightarrow> if le_Seq x = s then xs else hi)"
  have new: "L4_Append t s h k c n idx = l4_put t (lo @ ?e # rest) idx"
    using split(4) by (auto simp: L4_Append_def Let_def split(1) rest_def nth_append split: list.splits)
  have hi: "by_seq hi" "\<forall>x \<in> set lo. \<forall>y \<in> set hi. le_Seq x < le_Seq y" using es split(1) by (auto simp: by_seq_def sorted_wrt_append)
  have rest: "(\<forall>x \<in> set rest. s < le_Seq x) \<and> by_seq rest \<and> (\<forall>x. x \<in> set hi \<longleftrightarrow> x \<in> set rest \<or> x \<in> set hi \<and> le_Seq x = s)"
  proof (cases hi)
    case (Cons y ys)
    then show ?thesis using hi(1) split(3) by (cases "le_Seq y = s") (force simp: rest_def by_seq_def)+
  qed (simp add: rest_def by_seq_def)
  have sorted: "by_seq (lo @ ?e # rest)"
    using es split(1,2) rest unfolding by_seq_def by (fastforce simp: sorted_wrt_append)
  show wf: "l4_wf (L4_Append t s h k c n idx)" unfolding new by (rule l4_wf_put [OF assms sorted])
  have "l4_view (L4_Append t s h k c n idx) t q = (if q = s then Some ?e else l4_view idx t q)"
  proof (rule option_eqI)
    fix x
    have "x \<in> set (lo @ ?e # rest) \<and> le_Seq x = q \<longleftrightarrow> (if q = s then x = ?e else x \<in> set (entries_of idx t) \<and> le_Seq x = q)"
    proof (cases "q = s")
      case True
      then show ?thesis using split(2) rest by (auto simp: order_less_imp_not_eq order_less_imp_not_eq2)
    next
      case False
      then show ?thesis using split(1) rest by auto
    qed
    then show "l4_view (L4_Append t s h k c n idx) t q = Some x \<longleftrightarrow> (if q = s then Some ?e else l4_view idx t q) = Some x"
      using l4_view_iff [OF wf, of t q x] l4_view_iff [OF assms, of t q x] by (auto simp: new)
  qed
  moreover have "l4_view (L4_Append t s h k c n idx) u q = l4_view idx u q" if "u \<noteq> t"
    using that by (simp add: new l4_view_def)
  ultimately show "l4_view (L4_Append t s h k c n idx) u q = (if u = t \<and> q = s then Some ?e else l4_view idx u q)" by (cases "u = t") auto
qed

lemma RemoveIDs_entries:
  "entries_of (RemoveIDs t hs idx) u = (if u = t then filter (\<lambda>e. le_IDHash e \<notin> set hs) (entries_of idx t) else entries_of idx u)"
proof -
  let ?es = "entries_of idx t"
  have "length (filter (\<lambda>e. le_IDHash e \<notin> set hs) ?es) = length ?es \<Longrightarrow> filter (\<lambda>e. le_IDHash e \<notin> set hs) ?es = ?es"
    by (metis filter_id_conv filter_True length_filter_less nat_neq_iff)
  moreover have "entries_of (idx\<lparr>byTopic := AList.delete t (byTopic idx)\<rparr>) u = (if u = t then [] else entries_of idx u)"
    using entries_of_simps(3) [of t idx u] by (simp add: L4_RemoveTopic_def)
  ultimately show ?thesis by (auto simp: RemoveIDs_def Let_def)
qed

lemma l4_wf_RemoveIDs: "l4_wf idx \<Longrightarrow> l4_wf (RemoveIDs t hs idx)"
  using by_seq_entries [of idx t] l4_wf_delete [of idx t] l4_wf_put [of idx _ t]
  by (auto simp: RemoveIDs_def Let_def by_seq_def sorted_wrt_filter)

lemma RemoveIDs_view:
  assumes "l4_wf idx"
  shows "l4_view (RemoveIDs t hs idx) u s = Some e \<longleftrightarrow> l4_view idx u s = Some e \<and> \<not> (u = t \<and> le_IDHash e \<in> set hs)"
  using l4_view_iff [OF l4_wf_RemoveIDs [OF assms], of t hs u s e] l4_view_iff [OF assms, of u s e]
  by (auto simp: RemoveIDs_entries)

lemma l4_view_ids: "l4_wf idx \<Longrightarrow> set (AllIDs idx t) = {le_IDHash e | e s. l4_view idx t s = Some e}"
  by (auto simp: AllIDs_def l4_ids_def l4_view_iff)

lemma MaxSeq_last: "entries_of idx t \<noteq> [] \<Longrightarrow> MaxSeq idx t = le_Seq (last (entries_of idx t))"
  by (simp add: MaxSeq_def Let_def last_conv_nth)

lemma sorted_last_max: "by_seq es \<Longrightarrow> x \<in> set es \<Longrightarrow> le_Seq x \<le> le_Seq (last es)"
  unfolding by_seq_def by (induction es) (auto, meson last_in_set less_le_trans order_less_imp_le)

lemma MaxSeq_bound: "l4_wf idx \<Longrightarrow> l4_view idx t s = Some e \<Longrightarrow> s \<le> MaxSeq idx t"
proof -
  assume wf: "l4_wf idx" and "l4_view idx t s = Some e"
  then have e: "e \<in> set (entries_of idx t)" "le_Seq e = s" by (simp_all add: l4_view_iff)
  then show "s \<le> MaxSeq idx t"
    using sorted_last_max [OF by_seq_entries [OF wf] e(1)] MaxSeq_last [of idx t] by force
qed

lemma MaxSeq_held: "l4_wf idx \<Longrightarrow> MaxSeq idx t \<noteq> 0 \<Longrightarrow> l4_view idx t (MaxSeq idx t) \<noteq> None"
proof -
  assume wf: "l4_wf idx" and "MaxSeq idx t \<noteq> 0"
  then have ne: "entries_of idx t \<noteq> []" by (auto simp: MaxSeq_def)
  then have "l4_view idx t (MaxSeq idx t) = Some (last (entries_of idx t))"
    by (simp add: l4_view_iff [OF wf] MaxSeq_last)
  then show ?thesis by simp
qed

section \<open>The contract of a content mirror\<close>

locale content_mirror =
  fixes wf :: "'i \<Rightarrow> bool"
    and view :: "'i \<Rightarrow> u64 \<Rightarrow> u64 \<Rightarrow> l4Entry option"
    and add_slot :: "ArchiveSlot \<Rightarrow> 'i \<Rightarrow> 'i"
    and drop_ids :: "u64 \<Rightarrow> u64 list \<Rightarrow> 'i \<Rightarrow> 'i"
    and drop_topic :: "u64 \<Rightarrow> 'i \<Rightarrow> 'i"
    and ids :: "'i \<Rightarrow> u64 \<Rightarrow> u64 list"
    and top :: "'i \<Rightarrow> u64 \<Rightarrow> u64"
  assumes add_wf: "wf i \<Longrightarrow> wf (add_slot x i)"
    and add_view: "wf i \<Longrightarrow> view (add_slot x i) t s = (if t = as_TopicID x \<and> s = as_Seq x then Some (l4_entry x) else view i t s)"
    and drop_ids_wf: "wf i \<Longrightarrow> wf (drop_ids t hs i)"
    and drop_ids_view: "wf i \<Longrightarrow> view (drop_ids t hs i) u s = Some e \<longleftrightarrow> view i u s = Some e \<and> \<not> (u = t \<and> le_IDHash e \<in> set hs)"
    and drop_topic_wf: "wf i \<Longrightarrow> wf (drop_topic t i)"
    and drop_topic_view: "wf i \<Longrightarrow> view (drop_topic t i) u s = (if u = t then None else view i u s)"
    and ids_view: "wf i \<Longrightarrow> set (ids i t) = {le_IDHash e | e s. view i t s = Some e}"
    and seq_view: "wf i \<Longrightarrow> view i t s = Some e \<Longrightarrow> le_Seq e = s"
    and top_bound: "wf i \<Longrightarrow> view i t s = Some e \<Longrightarrow> s \<le> top i t"
    and top_held: "wf i \<Longrightarrow> top i t \<noteq> 0 \<Longrightarrow> view i t (top i t) \<noteq> None"
begin

lemma fold_add_wf: "wf i \<Longrightarrow> wf (fold add_slot xs i)"
  by (induction xs arbitrary: i) (auto simp: add_wf)

text \<open>After a run of slots, an address holds the last slot of the run written there.\<close>

lemma fold_add_view:
  assumes "wf i"
  shows "view (fold add_slot xs i) t s = (case List.find (\<lambda>x. as_TopicID x = t \<and> as_Seq x = s) (rev xs) of
      Some x \<Rightarrow> Some (l4_entry x) | None \<Rightarrow> view i t s)"
  using assms
proof (induction xs rule: rev_induct)
  case (snoc x xs)
  then show ?case using add_view [OF fold_add_wf [OF snoc.prems], of x xs t s] by auto
qed simp

lemma fold_drop_topic:
  assumes "wf i"
  shows "wf (fold drop_topic ts i) \<and> view (fold drop_topic ts i) u s = (if u \<in> set ts then None else view i u s)"
  using assms by (induction ts arbitrary: i) (auto simp: drop_topic_wf drop_topic_view)

lemma fold_drop_ids:
  assumes "wf i"
  shows "wf (fold (\<lambda>(t, hs). drop_ids t hs) ds i)
    \<and> (view (fold (\<lambda>(t, hs). drop_ids t hs) ds i) u s = Some e \<longleftrightarrow> view i u s = Some e \<and> \<not> (\<exists>hs. (u, hs) \<in> set ds \<and> le_IDHash e \<in> set hs))"
  using assms
proof (induction ds arbitrary: i)
  case (Cons d ds)
  obtain t hs where d: "d = (t, hs)" by (cases d)
  show ?case using Cons.IH [OF drop_ids_wf [OF Cons.prems], of t hs] drop_ids_view [OF Cons.prems, of t hs u s e]
    by (auto simp: d)
qed simp

text \<open>A number above the top is free; the top rises with what is added.\<close>

lemma above_top_free: "wf i \<Longrightarrow> top i t < s \<Longrightarrow> view i t s = None"
  using top_bound [of i t s] by (cases "view i t s") auto

lemma top_add:
  assumes "wf i"
  shows "top (add_slot x i) (as_TopicID x) = max (top i (as_TopicID x)) (as_Seq x)"
proof (rule antisym)
  let ?t = "as_TopicID x" and ?j = "add_slot x i"
  have wf: "wf ?j" by (rule add_wf [OF assms])
  have "view ?j ?t (as_Seq x) = Some (l4_entry x)" using add_view [OF assms] by simp
  then have "as_Seq x \<le> top ?j ?t" by (rule top_bound [OF wf])
  moreover have "top i ?t \<le> top ?j ?t"
  proof (cases "top i ?t = 0")
    case False
    then have "view ?j ?t (top i ?t) \<noteq> None" using top_held [OF assms] add_view [OF assms] by auto
    then show ?thesis using top_bound [OF wf] by auto
  qed simp
  ultimately show "max (top i ?t) (as_Seq x) \<le> top ?j ?t" by simp
  show "top ?j ?t \<le> max (top i ?t) (as_Seq x)"
  proof (cases "top ?j ?t = 0")
    case False
    then have "view ?j ?t (top ?j ?t) \<noteq> None" by (rule top_held [OF wf])
    then show ?thesis using add_view [OF assms] top_bound [OF assms] by (auto simp: le_max_iff_disj split: if_splits)
  qed simp
qed

end

interpretation l4: content_mirror l4_wf l4_view append_slot RemoveIDs L4_RemoveTopic AllIDs MaxSeq
proof
  fix i x t s hs u e
  assume wf: "l4_wf i"
  show "l4_wf (append_slot x i)" unfolding append_slot_def by (rule L4_Append_law [OF wf])
  show "l4_view (append_slot x i) t s = (if t = as_TopicID x \<and> s = as_Seq x then Some (l4_entry x) else l4_view i t s)"
    unfolding append_slot_def l4_entry_def by (rule L4_Append_law [OF wf])
  show "l4_wf (RemoveIDs t hs i)" by (rule l4_wf_RemoveIDs [OF wf])
  show "l4_view (RemoveIDs t hs i) u s = Some e \<longleftrightarrow> l4_view i u s = Some e \<and> \<not> (u = t \<and> le_IDHash e \<in> set hs)"
    by (rule RemoveIDs_view [OF wf])
  show "l4_wf (L4_RemoveTopic t i)" unfolding L4_RemoveTopic_def by (rule l4_wf_delete [OF wf])
  show "l4_view (L4_RemoveTopic t i) u s = (if u = t then None else l4_view i u s)" by (simp add: l4_view_def)
  show "set (AllIDs i t) = {le_IDHash e | e s. l4_view i t s = Some e}" by (rule l4_view_ids [OF wf])
  show "l4_view i t s = Some e \<Longrightarrow> le_Seq e = s" by (simp add: l4_view_iff [OF wf])
  show "l4_view i t s = Some e \<Longrightarrow> s \<le> MaxSeq i t" by (rule MaxSeq_bound [OF wf])
  show "MaxSeq i t \<noteq> 0 \<Longrightarrow> l4_view i t (MaxSeq i t) \<noteq> None" by (rule MaxSeq_held [OF wf])
qed

lemma l4_wf_New [simp]: "l4_wf NewL4Index"
  by (simp add: l4_wf_def NewL4Index_def)

lemma l4_view_New [simp]: "l4_view NewL4Index t s = None"
  by (simp add: l4_view_def)

lemma BuildL4_slots: "BuildL4FromEngine e a = fold append_slot (CollectAllArchives e a) NewL4Index"
  by (simp add: BuildL4FromEngine_def append_slot_def [abs_def])

lemma MaxNodeSeq_bound:
  assumes "x \<in> set (entries_of idx t)"
  shows "le_NodeSeq x \<le> MaxNodeSeq idx t"
proof -
  have "top \<le> fold (\<lambda>e top. if le_NodeSeq e > top then le_NodeSeq e else top) es top
    \<and> (x \<in> set es \<longrightarrow> le_NodeSeq x \<le> fold (\<lambda>e top. if le_NodeSeq e > top then le_NodeSeq e else top) es top)" for es top
  proof (induction es arbitrary: top)
    case (Cons e es)
    show ?case using Cons.IH [of "if le_NodeSeq e > top then le_NodeSeq e else top"] by (auto split: if_splits)
  qed simp
  then show ?thesis using assms by (simp add: MaxNodeSeq_def)
qed

end
