(* ===== verification/L4_Layer.thy ===== *)
theory L4_Layer
  imports L4_Index
begin

text \<open>
  \<^verbatim>\<open>internal/repo/l4layer.go\<close>: content records and their mirror. Every operation that changes state takes
  the engine and the mirror and returns both. \<^verbatim>\<open>strings.ToLower\<close> works from Unicode tables and is the
  argument \<open>lower\<close> of the query.
\<close>

definition stamp_id :: "(string \<Rightarrow> u64) \<Rightarrow> ArchiveSlot \<Rightarrow> ArchiveSlot" where
  "stamp_id H arc = arc\<lparr>as_IDHash := HashContent H (as_TopicID arc) (as_Seq arc)\<rparr>"

fun archive_writes :: "u64 \<Rightarrow> ArchiveSlot list \<Rightarrow> goerr + RecordEntry list" where
  "archive_writes agentID [] = Inr []"
| "archive_writes agentID (arc # arcs) = (case marshal_archive arc of
     Inl err \<Rightarrow> Inl (Error ErrSerialization (Some err))
   | Inr data \<Rightarrow> (case archive_writes agentID arcs of Inl err \<Rightarrow> Inl err
       | Inr rs \<Rightarrow> Inr (\<lparr>r_agent = agentID, r_type = RecL4Archive, r_id = as_IDHash arc, r_data = data\<rparr> # rs)))"

definition AppendArchiveBatchL4 :: "(string \<Rightarrow> u64) \<Rightarrow> u64 \<Rightarrow> ArchiveSlot list \<Rightarrow> StorageEngine \<Rightarrow> L4Index
    \<Rightarrow> (goerr + unit) \<times> StorageEngine \<times> L4Index" where
  "AppendArchiveBatchL4 H agentID arcs engine idx =
     (let arcs = map (stamp_id H) arcs in
      case archive_writes agentID arcs of Inl err \<Rightarrow> (Inl err, engine, idx)
      | Inr writes \<Rightarrow> (case WriteRecordBatch writes engine of
          (Inl err, engine) \<Rightarrow> (Inl (Error (CodeOf err) (Some err)), engine, idx)
        | (Inr _, engine) \<Rightarrow> (Inr (), engine,
            fold (\<lambda>arc. L4_Append (as_TopicID arc) (as_Seq arc) (as_IDHash arc) (as_Kind arc) (as_CreatedAt arc) (as_NodeSeq arc)) arcs idx)))"

definition AppendArchiveL4 :: "(string \<Rightarrow> u64) \<Rightarrow> u64 \<Rightarrow> ArchiveSlot \<Rightarrow> StorageEngine \<Rightarrow> L4Index
    \<Rightarrow> (goerr + unit) \<times> StorageEngine \<times> L4Index" where
  "AppendArchiveL4 H agentID arc engine idx = AppendArchiveBatchL4 H agentID [stamp_id H arc] engine idx"

definition DeleteTopicArchives :: "u64 \<Rightarrow> u64 list \<Rightarrow> StorageEngine \<Rightarrow> L4Index \<Rightarrow> (goerr + unit) \<times> StorageEngine \<times> L4Index" where
  "DeleteTopicArchives agentID topics engine idx =
     (case DeleteRecordBatch agentID (DedupSorted (concat (map (AllIDs idx) topics))) engine of
        (Inl err, engine) \<Rightarrow> (Inl (Error ErrIO (Some err)), engine, idx)
      | (Inr _, engine) \<Rightarrow> (Inr (), engine, fold L4_RemoveTopic topics idx))"

definition DropExpiredArchives :: "u64 \<Rightarrow> i64 \<Rightarrow> StorageEngine \<Rightarrow> L4Index \<Rightarrow> (goerr + nat) \<times> StorageEngine \<times> L4Index" where
  "DropExpiredArchives agentID cutoff engine idx =
     (let expired = ExpiredBefore idx cutoff in
      case DeleteRecordBatch agentID (concat (map snd expired)) engine of
        (Inl err, engine) \<Rightarrow> (Inl (Error ErrIO (Some err)), engine, idx)
      | (Inr n, engine) \<Rightarrow> (Inr n, engine, fold (\<lambda>(t, ids). RemoveIDs t ids) expired idx))"

section \<open>Reading\<close>

record ArchiveQuery =
  aq_IDs :: "u64 list"
  aq_TopicID :: "u64 option"
  aq_Type :: "byte option"
  aq_Kind :: "byte option"
  aq_NodeSeqs :: "u32 list"
  aq_Keyword :: string
  aq_Start :: i64
  aq_End :: i64
  aq_Limit :: int
  aq_Index :: "L4Index option"

text \<open>\<^verbatim>\<open>strings.Contains\<close>.\<close>

fun str_contains :: "string \<Rightarrow> string \<Rightarrow> bool" where
  "str_contains [] sub \<longleftrightarrow> sub = []"
| "str_contains (c # s) sub \<longleftrightarrow> take (length sub) (c # s) = sub \<or> str_contains s sub"

definition matchesArchiveQuery :: "(string \<Rightarrow> string) \<Rightarrow> ArchiveSlot \<Rightarrow> ArchiveQuery \<Rightarrow> bool" where
  "matchesArchiveQuery lower arc q \<longleftrightarrow>
     \<not> (aq_IDs q \<noteq> [] \<and> as_IDHash arc \<notin> set (aq_IDs q))
   \<and> (case aq_TopicID q of None \<Rightarrow> True | Some t \<Rightarrow> as_TopicID arc = t)
   \<and> (case aq_Kind q of None \<Rightarrow> True | Some k \<Rightarrow> as_Kind arc = k)
   \<and> \<not> (aq_NodeSeqs q \<noteq> [] \<and> as_NodeSeq arc \<notin> set (aq_NodeSeqs q))
   \<and> (case aq_Type q of None \<Rightarrow> True | Some c \<Rightarrow> as_ContentType arc = c)
   \<and> \<not> (aq_Keyword q \<noteq> [] \<and> \<not> str_contains (lower (as_Content arc)) (aq_Keyword q))
   \<and> \<not> (aq_Start q > 0 \<and> as_CreatedAt arc < aq_Start q)
   \<and> \<not> (aq_End q > 0 \<and> as_CreatedAt arc > aq_End q)"

fun ReadArchivesByIDs :: "StorageEngine \<Rightarrow> u64 \<Rightarrow> u64 list \<Rightarrow> goerr + ArchiveSlot list" where
  "ReadArchivesByIDs engine agentID [] = Inr []"
| "ReadArchivesByIDs engine agentID (i # ids) = (case ReadArchiveSlot engine agentID i of
     Inl err \<Rightarrow> if CodeOf err = ErrNotFound then Inl (Error ErrIO (Some err)) else Inl err
   | Inr arc \<Rightarrow> (case ReadArchivesByIDs engine agentID ids of Inl err \<Rightarrow> Inl err | Inr arcs \<Rightarrow> Inr (arc # arcs)))"

text \<open>\<^verbatim>\<open>listByID\<close> of \<^verbatim>\<open>l2layer.go\<close>: an id that names nothing is skipped.\<close>

fun listByID :: "(u64 \<Rightarrow> goerr + 'a) \<Rightarrow> u64 list \<Rightarrow> goerr + 'a list" where
  "listByID get [] = Inr []"
| "listByID get (i # ids) = (case get i of
     Inl err \<Rightarrow> if CodeOf err = ErrNotFound then listByID get ids else Inl err
   | Inr v \<Rightarrow> (case listByID get ids of Inl err \<Rightarrow> Inl err | Inr out \<Rightarrow> Inr (v # out)))"

definition compareArchives :: "bool \<Rightarrow> ArchiveSlot \<Rightarrow> ArchiveSlot \<Rightarrow> int" where
  "compareArchives oneTopic a b = (if oneTopic then cmp (as_Seq a) (as_Seq b)
     else let c = cmp (as_CreatedAt a) (as_CreatedAt b) in if c \<noteq> 0 then c else cmp (as_IDHash a) (as_IDHash b))"

definition newest :: "'a list \<Rightarrow> int \<Rightarrow> 'a list" where
  "newest out limit = (if limit \<le> 0 \<or> int (length out) \<le> limit then out else drop (length out - nat limit) out)"

definition QueryArchivesL4 :: "(string \<Rightarrow> string) \<Rightarrow> StorageEngine \<Rightarrow> u64 \<Rightarrow> ArchiveQuery \<Rightarrow> goerr + ArchiveSlot list" where
  "QueryArchivesL4 lower engine agentID q0 =
     (let q = q0\<lparr>aq_Keyword := lower (aq_Keyword q0)\<rparr>;
          found =
            (if aq_TopicID q \<noteq> None \<and> aq_Index q \<noteq> None
             then ReadArchivesByIDs engine agentID (AllIDs (the (aq_Index q)) (the (aq_TopicID q)))
             else if aq_IDs q \<noteq> [] \<and> aq_TopicID q = None \<and> aq_Type q = None \<and> aq_Kind q = None
               \<and> aq_NodeSeqs q = [] \<and> aq_Keyword q = [] \<and> aq_Start q = 0 \<and> aq_End q = 0
             then listByID (ReadArchiveSlot engine agentID) (aq_IDs q)
             else CollectAllStrict unmarshal_archive engine agentID RecL4Archive)
      in case found of Inl err \<Rightarrow> Inl err
         | Inr out \<Rightarrow> Inr (newest (SortFunc (compareArchives (aq_TopicID q \<noteq> None))
             (filter (\<lambda>arc. matchesArchiveQuery lower arc q) out)) (aq_Limit q)))"

section \<open>The mirror agrees with the disk\<close>

text \<open>
  The invariant the content layer keeps: every entry names a record that reads back with the entry's
  fields, and every readable content record stands at the id its address hashes to and is in the mirror.
\<close>

definition l4_mirrors :: "(string \<Rightarrow> u64) \<Rightarrow> StorageEngine \<Rightarrow> u64 \<Rightarrow> L4Index \<Rightarrow> bool" where
  "l4_mirrors H e a idx \<longleftrightarrow> l4_wf idx
     \<and> (\<forall>t s en. l4_view idx t s = Some en \<longrightarrow> (\<exists>x. ReadArchiveSlot e a (le_IDHash en) = Inr x \<and> l4_entry x = en \<and> as_TopicID x = t))
     \<and> (\<forall>i x. ReadArchiveSlot e a i = Inr x \<longrightarrow> i = HashContent H (as_TopicID x) (as_Seq x) \<and> as_IDHash x = i
          \<and> l4_view idx (as_TopicID x) (as_Seq x) = Some (l4_entry x))"

text \<open>The addresses in use: no two of them may share a hash.\<close>

definition l4_addresses :: "L4Index \<Rightarrow> ArchiveSlot list \<Rightarrow> (u64 \<times> u64) set" where
  "l4_addresses idx arcs = {(t, s). l4_view idx t s \<noteq> None} \<union> (\<lambda>x. (as_TopicID x, as_Seq x)) ` set arcs"

definition no_clash :: "(string \<Rightarrow> u64) \<Rightarrow> (u64 \<times> u64) set \<Rightarrow> bool" where
  "no_clash H A \<longleftrightarrow> inj_on (\<lambda>(t, s). HashContent H t s) A"

definition archive_fits :: "ArchiveSlot \<Rightarrow> bool" where
  "archive_fits x \<longleftrightarrow> archive_ok x \<and> size_of marshal_archive x < 2 ^ 32"

lemma ReadArchiveSlot_typed:
  "engine_rep e m \<Longrightarrow> ReadArchiveSlot e a i = Inr x \<longleftrightarrow> typed_at unmarshal_archive m a RecL4Archive i = Some x"
  unfolding ReadArchiveSlot_def by (rule archive.readJSON_typed)

lemma l4_mirrorsD:
  assumes "l4_mirrors H e a idx"
  shows "l4_wf idx"
    and "l4_view idx t s = Some en \<Longrightarrow> \<exists>x. ReadArchiveSlot e a (le_IDHash en) = Inr x \<and> l4_entry x = en \<and> as_TopicID x = t"
    and "ReadArchiveSlot e a i = Inr x \<Longrightarrow> i = HashContent H (as_TopicID x) (as_Seq x)"
    and "ReadArchiveSlot e a i = Inr x \<Longrightarrow> as_IDHash x = i"
    and "ReadArchiveSlot e a i = Inr x \<Longrightarrow> l4_view idx (as_TopicID x) (as_Seq x) = Some (l4_entry x)"
  using assms unfolding l4_mirrors_def by blast+

text \<open>An entry's record stands at the address of the entry.\<close>

lemma l4_mirrors_entry:
  assumes "l4_mirrors H e a idx" "l4_view idx t s = Some en"
  shows "le_IDHash en = HashContent H t s" "le_Seq en = s"
    "\<exists>x. ReadArchiveSlot e a (HashContent H t s) = Inr x \<and> l4_entry x = en \<and> as_TopicID x = t \<and> as_Seq x = s"
proof -
  obtain x where x: "ReadArchiveSlot e a (le_IDHash en) = Inr x" "l4_entry x = en" "as_TopicID x = t"
    using l4_mirrorsD(2) [OF assms] by blast
  moreover show "le_Seq en = s" using l4.seq_view [OF l4_mirrorsD(1) [OF assms(1)] assms(2)] .
  moreover from this x(2) have "as_Seq x = s" by auto
  moreover show "le_IDHash en = HashContent H t s" using l4_mirrorsD(3) [OF assms(1) x(1)] x(3) calculation by simp
  ultimately show "\<exists>x. ReadArchiveSlot e a (HashContent H t s) = Inr x \<and> l4_entry x = en \<and> as_TopicID x = t \<and> as_Seq x = s" by auto
qed

lemma stamp_id_simps [simp]: "as_IDHash (stamp_id H x) = HashContent H (as_TopicID x) (as_Seq x)"
  "as_TopicID (stamp_id H x) = as_TopicID x" "as_Seq (stamp_id H x) = as_Seq x" "stamp_id H (stamp_id H x) = stamp_id H x"
  by (simp_all add: stamp_id_def)

lemma archive_writes_ok:
  "\<forall>x \<in> set xs. archive_ok x \<Longrightarrow> archive_writes a xs = Inr (map (entry_for marshal_archive a RecL4Archive as_IDHash) xs)"
proof (induction xs)
  case (Cons x xs)
  then obtain d where "marshal_archive x = Inr d" using archive.round_trip by (metis list.set_intros(1))
  then show ?case using Cons by (simp add: entry_for_def record_of_def)
qed simp

lemma find_address:
  assumes "no_clash H (l4_addresses idx arcs)" "(t, s) \<in> l4_addresses idx arcs"
  shows "List.find (\<lambda>x. as_IDHash x = HashContent H t s) (rev (map (stamp_id H) arcs)) =
    List.find (\<lambda>x. as_TopicID x = t \<and> as_Seq x = s) (rev (map (stamp_id H) arcs))"
proof (rule find_cong [OF refl])
  fix x assume "x \<in> set (rev (map (stamp_id H) arcs))"
  then obtain y where y: "x = stamp_id H y" "(as_TopicID y, as_Seq y) \<in> l4_addresses idx arcs" by (auto simp: l4_addresses_def)
  have "HashContent H (as_TopicID y) (as_Seq y) = HashContent H t s \<Longrightarrow> (as_TopicID y, as_Seq y) = (t, s)"
    by (rule inj_onD [OF assms(1) [unfolded no_clash_def] _ y(2) assms(2)]) simp
  then show "(as_IDHash x = HashContent H t s) = (as_TopicID x = t \<and> as_Seq x = s)" by (auto simp: y(1))
qed

lemma find_Some_set: "List.find P xs = Some x \<Longrightarrow> x \<in> set xs \<and> P x"
  by (auto simp: find_Some_iff in_set_conv_nth)

text \<open>Writing a batch and adding it to the mirror keeps the two in agreement.\<close>

lemma mirrors_after_append:
  assumes mir: "l4_mirrors H e a idx" and clash: "no_clash H (l4_addresses idx arcs)"
    and rep: "engine_rep e m" "engine_rep e' m'"
    and m': "\<And>i. typed_at unmarshal_archive m' a RecL4Archive i =
      (case List.find (\<lambda>x. as_IDHash x = i) (rev (map (stamp_id H) arcs)) of Some x \<Rightarrow> Some x | None \<Rightarrow> typed_at unmarshal_archive m a RecL4Archive i)"
  shows "l4_mirrors H e' a (fold append_slot (map (stamp_id H) arcs) idx)"
proof -
  let ?xs = "map (stamp_id H) arcs" and ?idx = "fold append_slot (map (stamp_id H) arcs) idx"
  let ?find = "\<lambda>t s. List.find (\<lambda>x. as_TopicID x = t \<and> as_Seq x = s) (rev ?xs)"
  let ?by_id = "\<lambda>i. List.find (\<lambda>x. as_IDHash x = i) (rev ?xs)"
  note wf = l4_mirrorsD(1) [OF mir] and view = l4.fold_add_view [OF l4_mirrorsD(1) [OF mir], of ?xs] and addr = find_address [OF clash]
  have hit: "ReadArchiveSlot e' a i = Inr x \<longleftrightarrow> y = x" if "?by_id i = Some y" for i x y
    unfolding ReadArchiveSlot_typed [OF rep(2)] m' that by simp
  have miss: "ReadArchiveSlot e' a i = Inr x \<longleftrightarrow> ReadArchiveSlot e a i = Inr x" if "?by_id i = None" for i x
    unfolding ReadArchiveSlot_typed [OF rep(1)] ReadArchiveSlot_typed [OF rep(2)] m' that by simp
  have 2: "\<exists>x. ReadArchiveSlot e' a (le_IDHash en) = Inr x \<and> l4_entry x = en \<and> as_TopicID x = t"
    if v: "l4_view ?idx t s = Some en" for t s en
  proof (cases "?find t s")
    case None
    then have old: "l4_view idx t s = Some en" using v view [of t s] by simp
    then have h: "(t, s) \<in> l4_addresses idx arcs" by (simp add: l4_addresses_def)
    have n: "?by_id (le_IDHash en) = None" unfolding l4_mirrors_entry(1) [OF mir old] addr [OF h] by (rule None)
    show ?thesis unfolding miss [OF n] by (rule l4_mirrorsD(2) [OF mir old])
  next
    case (Some x)
    then have en: "en = l4_entry x" using v view [of t s] by simp
    have x: "x \<in> set ?xs" "as_TopicID x = t" "as_Seq x = s" using find_Some_set [OF Some] by auto
    then have h: "(t, s) \<in> l4_addresses idx arcs" "le_IDHash en = HashContent H t s" unfolding en by (auto simp: l4_addresses_def)
    have "?by_id (le_IDHash en) = Some x" unfolding h(2) addr [OF h(1)] by (rule Some)
    then have "ReadArchiveSlot e' a (le_IDHash en) = Inr x" using hit by blast
    then show ?thesis using en x(2) by blast
  qed
  have 3: "i = HashContent H (as_TopicID x) (as_Seq x) \<and> as_IDHash x = i \<and> l4_view ?idx (as_TopicID x) (as_Seq x) = Some (l4_entry x)"
    if r: "ReadArchiveSlot e' a i = Inr x" for i x
  proof (cases "?by_id i")
    case None
    then have old: "ReadArchiveSlot e a i = Inr x" using r miss by blast
    note x = l4_mirrorsD(3-5) [OF mir old]
    then have h: "(as_TopicID x, as_Seq x) \<in> l4_addresses idx arcs" by (simp add: l4_addresses_def)
    have "?find (as_TopicID x) (as_Seq x) = None"
      by (rule trans [OF sym [OF addr [OF h, folded x(1)]] None])
    then show ?thesis using x view [of "as_TopicID x" "as_Seq x"] by simp
  next
    case (Some y)
    then have y: "y = x" using r hit by blast
    then have x: "x \<in> set ?xs" "as_IDHash x = i" using find_Some_set [OF Some] by auto
    then have hash: "i = HashContent H (as_TopicID x) (as_Seq x)" "(as_TopicID x, as_Seq x) \<in> l4_addresses idx arcs"
      by (auto simp: l4_addresses_def)
    have "?find (as_TopicID x) (as_Seq x) = Some x"
      by (rule trans [OF sym [OF addr [OF hash(2), folded hash(1)]] Some [unfolded y]])
    then show ?thesis using hash(1) x(2) view [of "as_TopicID x" "as_Seq x"] by simp
  qed
  show ?thesis unfolding l4_mirrors_def using l4.fold_add_wf [OF wf] 2 3 by blast
qed

lemma RecL4Archive_pos: "RecL4Archive \<noteq> 0"
  by (simp add: RecL4Archive_def)

lemma AppendArchiveBatchL4_law:
  assumes rep: "engine_rep e m" and mir: "l4_mirrors H e a idx" and fits: "\<forall>x \<in> set arcs. archive_fits (stamp_id H x)"
    and room: "engine_room e (batch_room marshal_archive (map (stamp_id H) arcs) + n)"
    and clash: "no_clash H (l4_addresses idx arcs)"
  defines "idx' \<equiv> fold append_slot (map (stamp_id H) arcs) idx"
  shows "\<exists>e'. AppendArchiveBatchL4 H a arcs e idx = (Inr (), e', idx') \<and> l4_mirrors H e' a idx' \<and> engine_room e' n
    \<and> engine_rep e' (put_all (map (entry_for marshal_archive a RecL4Archive as_IDHash) (map (stamp_id H) arcs)) m)"
proof -
  let ?xs = "map (stamp_id H) arcs"
  let ?rs = "map (entry_for marshal_archive a RecL4Archive as_IDHash) ?xs"
  have ok: "\<forall>x \<in> set ?xs. archive_ok x \<and> size_of marshal_archive x < 2 ^ 32" using fits by (simp add: archive_fits_def)
  obtain out e' where e': "WriteRecordBatch ?rs e = (Inr out, e')" "engine_rep e' (put_all ?rs m)" "engine_room e' n"
    using archive.batch_law [OF rep ok RecL4Archive_pos room] by blast
  have "archive_writes a ?xs = Inr ?rs" using archive_writes_ok ok by blast
  then have "AppendArchiveBatchL4 H a arcs e idx = (Inr (), e', idx')"
    using e'(1) by (simp add: AppendArchiveBatchL4_def Let_def idx'_def append_slot_def [abs_def])
  moreover have "l4_mirrors H e' a idx'"
    unfolding idx'_def
    by (rule mirrors_after_append [OF mir clash rep e'(2)], rule archive.typed_put_all) (use ok in auto)
  ultimately show ?thesis using e' by blast
qed

text \<open>Deleting records and dropping the entries that name them keeps the agreement too.\<close>

lemma mirrors_after_delete:
  assumes mir: "l4_mirrors H e a idx" and rep: "engine_rep e m" "engine_rep e' (del_all a ids m)" and wf: "l4_wf idx'"
    and view: "\<And>t s en. l4_view idx' t s = Some en \<longleftrightarrow> l4_view idx t s = Some en \<and> le_IDHash en \<notin> set ids"
  shows "l4_mirrors H e' a idx'"
proof -
  have read: "ReadArchiveSlot e' a i = Inr x \<longleftrightarrow> ReadArchiveSlot e a i = Inr x \<and> i \<notin> set ids" for i x
    by (simp add: ReadArchiveSlot_typed [OF rep(1)] ReadArchiveSlot_typed [OF rep(2)] typed_del_all)
  show ?thesis
    unfolding l4_mirrors_def
  proof (intro conjI allI impI wf)
    fix t s en assume "l4_view idx' t s = Some en"
    then have "l4_view idx t s = Some en" "le_IDHash en \<notin> set ids" by (simp_all add: view)
    then show "\<exists>x. ReadArchiveSlot e' a (le_IDHash en) = Inr x \<and> l4_entry x = en \<and> as_TopicID x = t"
      using l4_mirrorsD(2) [OF mir] read by blast
  next
    fix i x assume "ReadArchiveSlot e' a i = Inr x"
    then have r: "ReadArchiveSlot e a i = Inr x" "i \<notin> set ids" by (simp_all add: read)
    note x = l4_mirrorsD(3-5) [OF mir r(1)]
    show "i = HashContent H (as_TopicID x) (as_Seq x)" "as_IDHash x = i" using x by auto
    show "l4_view idx' (as_TopicID x) (as_Seq x) = Some (l4_entry x)" using x r(2) by (simp add: view)
  qed
qed

end
