(* ===== verification/L4_Correct.thy ===== *)
theory L4_Correct
  imports L4_Layer
begin

text \<open>
  The content layer against its specification: deletion by topic and by age, the mirror built at open,
  and the queries, where the read through the mirror answers what a scan of the whole domain answers.
\<close>

section \<open>Deletion\<close>

lemma if_None_Some: "(v = Some x \<Longrightarrow> b \<longleftrightarrow> \<not> P) \<Longrightarrow> ((if b then None else v) = Some x) \<longleftrightarrow> v = Some x \<and> P"
  by auto

text \<open>Two entries that name one record are one entry.\<close>

lemma l4_mirrors_same_id:
  assumes "l4_mirrors H e a idx" "l4_view idx t s = Some en" "l4_view idx t' s' = Some en'" "le_IDHash en = le_IDHash en'"
  shows "t = t' \<and> s = s' \<and> en = en'"
proof -
  obtain x where x: "ReadArchiveSlot e a (le_IDHash en) = Inr x" "l4_entry x = en" "as_TopicID x = t"
    using l4_mirrorsD(2) [OF assms(1,2)] by blast
  obtain y where y: "ReadArchiveSlot e a (le_IDHash en) = Inr y" "l4_entry y = en'" "as_TopicID y = t'"
    using l4_mirrorsD(2) [OF assms(1,3)] assms(4) by metis
  have "x = y" using x(1) y(1) by simp
  then show ?thesis
    using x y l4_mirrors_entry(2) [OF assms(1,2)] l4_mirrors_entry(2) [OF assms(1,3)] by auto
qed

lemma AllIDs_topics:
  assumes "l4_mirrors H e a idx" "l4_view idx t s = Some en"
  shows "le_IDHash en \<in> set (DedupSorted (concat (map (AllIDs idx) ts))) \<longleftrightarrow> t \<in> set ts"
proof
  note ids = l4.ids_view [OF l4_mirrorsD(1) [OF assms(1)]]
  assume "le_IDHash en \<in> set (DedupSorted (concat (map (AllIDs idx) ts)))"
  then obtain u where u: "u \<in> set ts" "le_IDHash en \<in> set (AllIDs idx u)" by (auto simp: DedupSorted_props)
  then obtain en' s' where "le_IDHash en = le_IDHash en'" "l4_view idx u s' = Some en'" using ids [of u] by auto
  then show "t \<in> set ts" using l4_mirrors_same_id [OF assms(1,2)] u(1) by blast
next
  assume "t \<in> set ts"
  then show "le_IDHash en \<in> set (DedupSorted (concat (map (AllIDs idx) ts)))"
    using l4.ids_view [OF l4_mirrorsD(1) [OF assms(1)], of t] assms(2) by (auto simp: DedupSorted_props)
qed

lemma DeleteTopicArchives_law:
  assumes "engine_rep e m" "l4_mirrors H e a idx"
    and room: "engine_room e (RecordHeaderSize * length (DedupSorted (concat (map (AllIDs idx) ts))) + n)"
  shows "\<exists>e'. DeleteTopicArchives a ts e idx = (Inr (), e', fold L4_RemoveTopic ts idx)
    \<and> engine_rep e' (del_all a (DedupSorted (concat (map (AllIDs idx) ts))) m) \<and> engine_room e' n
    \<and> l4_mirrors H e' a (fold L4_RemoveTopic ts idx)
    \<and> (\<forall>i x. ReadArchiveSlot e' a i = Inr x \<longleftrightarrow> ReadArchiveSlot e a i = Inr x \<and> as_TopicID x \<notin> set ts)"
proof -
  let ?ids = "DedupSorted (concat (map (AllIDs idx) ts))"
  obtain k e' where e': "DeleteRecordBatch a ?ids e = (Inr k, e')" "engine_rep e' (del_all a ?ids m)" "engine_room e' n"
    using eng.delete_law [OF assms(1) room, of a] by blast
  note wf = l4_mirrorsD(1) [OF assms(2)]
  note drop = l4.fold_drop_topic [OF wf, of ts]
  have "l4_view (fold L4_RemoveTopic ts idx) t s = Some en \<longleftrightarrow> l4_view idx t s = Some en \<and> le_IDHash en \<notin> set ?ids" for t s en
    using drop AllIDs_topics [OF assms(2), of t s en ts] by auto
  then have mir: "l4_mirrors H e' a (fold L4_RemoveTopic ts idx)"
    using mirrors_after_delete [OF assms(2,1) e'(2)] drop by blast
  have "ReadArchiveSlot e' a i = Inr x \<longleftrightarrow> ReadArchiveSlot e a i = Inr x \<and> as_TopicID x \<notin> set ts" for i x
  proof -
    have "i \<in> set ?ids \<longleftrightarrow> as_TopicID x \<in> set ts" if "ReadArchiveSlot e a i = Inr x"
      using AllIDs_topics [OF assms(2) l4_mirrorsD(5) [OF assms(2) that], of ts] l4_mirrorsD(4) [OF assms(2) that] by simp
    then show ?thesis
      unfolding ReadArchiveSlot_typed [OF assms(1)] ReadArchiveSlot_typed [OF e'(2)] typed_del_all by auto
  qed
  then show ?thesis using e' mir by (auto simp: DeleteTopicArchives_def)
qed

text \<open>What the age filter names.\<close>

lemma ExpiredBefore_ids: "concat (map snd (ExpiredBefore idx c)) =
    concat (map (\<lambda>(t, es). map le_IDHash (filter (\<lambda>e. le_CreatedAt e < c) es)) (byTopic idx))"
proof -
  have "concat (map snd (filter (\<lambda>(t, ids). ids \<noteq> []) ds)) = concat (map snd ds)" for ds :: "(u64, u64 list) gomap"
    by (induction ds) auto
  then show ?thesis by (simp add: ExpiredBefore_def comp_def case_prod_unfold)
qed

lemma by_topic_view:
  assumes "l4_wf idx" "(t, es) \<in> set (byTopic idx)"
  shows "entries_of idx t = es" "en \<in> set es \<Longrightarrow> l4_view idx t (le_Seq en) = Some en"
proof -
  show es: "entries_of idx t = es" using assms by (simp add: entries_of_def l4_wf_def map_wf_def)
  show "en \<in> set es \<Longrightarrow> l4_view idx t (le_Seq en) = Some en" using es by (simp add: l4_view_iff [OF assms(1)])
qed

lemma l4_view_by_topic: "l4_wf idx \<Longrightarrow> l4_view idx t s = Some en \<Longrightarrow> \<exists>es. (t, es) \<in> set (byTopic idx) \<and> en \<in> set es"
  by (auto simp: l4_view_iff entries_of_def split: option.splits dest: map_of_SomeD [OF sym])

lemma ExpiredBefore_names:
  assumes "l4_mirrors H e a idx" "l4_view idx t s = Some en"
  shows "le_IDHash en \<in> set (concat (map snd (ExpiredBefore idx c))) \<longleftrightarrow> le_CreatedAt en < c"
    and "(\<exists>hs. (t, hs) \<in> set (ExpiredBefore idx c) \<and> le_IDHash en \<in> set hs) \<longleftrightarrow> le_CreatedAt en < c"
proof -
  note wf = l4_mirrorsD(1) [OF assms(1)]
  have same: "x = en" if "(u, es) \<in> set (byTopic idx)" "x \<in> set es" "le_IDHash x = le_IDHash en" for u es x
    using l4_mirrors_same_id [OF assms(1) by_topic_view(2) [OF wf that(1,2)] assms(2) that(3)] by simp
  show "le_IDHash en \<in> set (concat (map snd (ExpiredBefore idx c))) \<longleftrightarrow> le_CreatedAt en < c"
    unfolding ExpiredBefore_ids using l4_view_by_topic [OF wf assms(2)] same by fastforce
  show "(\<exists>hs. (t, hs) \<in> set (ExpiredBefore idx c) \<and> le_IDHash en \<in> set hs) \<longleftrightarrow> le_CreatedAt en < c"
  proof
    assume "\<exists>hs. (t, hs) \<in> set (ExpiredBefore idx c) \<and> le_IDHash en \<in> set hs"
    then show "le_CreatedAt en < c" using same by (fastforce simp: ExpiredBefore_def)
  next
    assume old: "le_CreatedAt en < c"
    obtain es where es: "(t, es) \<in> set (byTopic idx)" "en \<in> set es" using l4_view_by_topic [OF wf assms(2)] by blast
    let ?hs = "map le_IDHash (filter (\<lambda>e. le_CreatedAt e < c) es)"
    have "le_IDHash en \<in> set ?hs" using es(2) old by auto
    moreover from this have "?hs \<noteq> []" by (metis empty_iff empty_set)
    then have "(t, ?hs) \<in> set (ExpiredBefore idx c)" using es(1) by (force simp: ExpiredBefore_def)
    ultimately show "\<exists>hs. (t, hs) \<in> set (ExpiredBefore idx c) \<and> le_IDHash en \<in> set hs" by blast
  qed
qed

lemma distinct_concat_ids:
  assumes "distinct (map fst m)" "\<forall>(t, es) \<in> set m. distinct es"
    and "\<And>t es x t' es' x'. (t, es) \<in> set m \<Longrightarrow> x \<in> set es \<Longrightarrow> (t', es') \<in> set m \<Longrightarrow> x' \<in> set es' \<Longrightarrow> f x = f x' \<Longrightarrow> t = t' \<and> x = x'"
  shows "distinct (concat (map (\<lambda>(t, es). map f (filter P es)) m))"
  using assms
proof (induction m)
  case (Cons d m)
  obtain t es where d: "d = (t, es)" by (cases d)
  have "distinct (concat (map (\<lambda>(t, es). map f (filter P es)) m))"
    using Cons.prems by (intro Cons.IH) (auto, blast+)
  moreover have "inj_on f (set es)" using Cons.prems(3) [of t es _ t es] by (simp add: inj_on_def d)
  then have "distinct (map f (filter P es))"
    using Cons.prems(2) by (auto simp: d distinct_map intro: inj_on_subset)
  moreover have "f x \<noteq> f x'" if "x \<in> set es" "(t', es') \<in> set m" "x' \<in> set es'" for x t' es' x'
  proof
    assume "f x = f x'"
    then have "t = t'" using Cons.prems(3) [of t es x t' es' x'] that by (simp add: d)
    then show False using Cons.prems(1) that(2) by (force simp: d)
  qed
  ultimately show ?case by (fastforce simp: d)
qed simp

lemma distinct_expired:
  assumes "l4_mirrors H e a idx"
  shows "distinct (concat (map snd (ExpiredBefore idx c)))"
  unfolding ExpiredBefore_ids
proof (rule distinct_concat_ids)
  note wf = l4_mirrorsD(1) [OF assms]
  show "distinct (map fst (byTopic idx))" using wf by (simp add: l4_wf_def map_wf_def)
  have "by_seq es \<Longrightarrow> distinct es" for es unfolding by_seq_def by (induction es) auto
  then show "\<forall>(t, es) \<in> set (byTopic idx). distinct es" using wf by (auto simp: l4_wf_def)
  fix t es x t' es' x'
  assume "(t, es) \<in> set (byTopic idx)" "x \<in> set es" "(t', es') \<in> set (byTopic idx)" "x' \<in> set es'" "le_IDHash x = le_IDHash x'"
  then show "t = t' \<and> x = x'"
    using l4_mirrors_same_id [OF assms by_topic_view(2) [OF wf] by_topic_view(2) [OF wf]] by blast
qed

lemma DropExpiredArchives_law:
  assumes "engine_rep e m" "l4_mirrors H e a idx"
    and room: "engine_room e (RecordHeaderSize * length (concat (map snd (ExpiredBefore idx c))) + n)"
  defines "idx' \<equiv> fold (\<lambda>(t, ids). RemoveIDs t ids) (ExpiredBefore idx c) idx"
  shows "\<exists>e'. DropExpiredArchives a c e idx = (Inr (card {i. \<exists>x. ReadArchiveSlot e a i = Inr x \<and> as_CreatedAt x < c}), e', idx')
    \<and> engine_room e' n \<and> l4_mirrors H e' a idx'
    \<and> (\<forall>i x. ReadArchiveSlot e' a i = Inr x \<longleftrightarrow> ReadArchiveSlot e a i = Inr x \<and> c \<le> as_CreatedAt x)
    \<and> (\<forall>b i. b \<noteq> a \<or> \<not> (\<exists>x. ReadArchiveSlot e a i = Inr x \<and> as_CreatedAt x < c) \<longrightarrow> ReadRecord e' b i = ReadRecord e b i)"
proof -
  let ?ids = "concat (map snd (ExpiredBefore idx c))"
  note wf = l4_mirrorsD(1) [OF assms(2)]
  obtain e' where e': "DeleteRecordBatch a ?ids e = (Inr (length (filter (\<lambda>i. m (a, i) \<noteq> None) ?ids)), e')"
    "engine_rep e' (del_all a ?ids m)" "engine_room e' n"
    using eng.delete_law [OF assms(1) room, of a] by blast
  have live: "i \<in> set ?ids \<longleftrightarrow> as_CreatedAt x < c" if "ReadArchiveSlot e a i = Inr x" for i x
    using ExpiredBefore_names(1) [OF assms(2) l4_mirrorsD(5) [OF assms(2) that]] l4_mirrorsD(4) [OF assms(2) that] by simp
  have named: "\<exists>x. ReadArchiveSlot e a i = Inr x" if i: "i \<in> set ?ids" for i
  proof -
    obtain t es en where "(t, es) \<in> set (byTopic idx)" "en \<in> set es" "i = le_IDHash en"
      using i unfolding ExpiredBefore_ids by fastforce
    then show ?thesis using l4_mirrorsD(2) [OF assms(2) by_topic_view(2) [OF wf]] by blast
  qed
  have set_ids: "set ?ids = {i. \<exists>x. ReadArchiveSlot e a i = Inr x \<and> as_CreatedAt x < c}" using live named by blast
  have "m (a, i) \<noteq> None" if "i \<in> set ?ids" for i
    using named [OF that] unfolding ReadArchiveSlot_typed [OF assms(1)] by (cases "m (a, i)") (auto simp: typed_at_def)
  then have "filter (\<lambda>i. m (a, i) \<noteq> None) ?ids = ?ids" by (simp add: filter_id_conv)
  then have "length (filter (\<lambda>i. m (a, i) \<noteq> None) ?ids) = card {i. \<exists>x. ReadArchiveSlot e a i = Inr x \<and> as_CreatedAt x < c}"
    using distinct_card [OF distinct_expired [OF assms(2)], of c] set_ids by simp
  moreover have "l4_mirrors H e' a idx'"
  proof (rule mirrors_after_delete [OF assms(2,1) e'(2)])
    show "l4_wf idx'" unfolding idx'_def using l4.fold_drop_ids [OF wf] by blast
    show "l4_view idx' t s = Some en \<longleftrightarrow> l4_view idx t s = Some en \<and> le_IDHash en \<notin> set ?ids" for t s en
      unfolding idx'_def using l4.fold_drop_ids [OF wf, of "ExpiredBefore idx c" t s en] ExpiredBefore_names [OF assms(2), of t s en c] by blast
  qed
  moreover have "ReadArchiveSlot e' a i = Inr x \<longleftrightarrow> ReadArchiveSlot e a i = Inr x \<and> c \<le> as_CreatedAt x" for i x
    using live [of i x] unfolding ReadArchiveSlot_typed [OF assms(1)] ReadArchiveSlot_typed [OF e'(2)] typed_del_all
    by (intro if_None_Some) (simp only: not_le)
  moreover have "ReadRecord e' b i = ReadRecord e b i" if "b \<noteq> a \<or> \<not> (\<exists>x. ReadArchiveSlot e a i = Inr x \<and> as_CreatedAt x < c)" for b i
    using that set_ids by (intro eng.read_frame_del [OF assms(1) e'(2)]) blast
  ultimately show ?thesis using e' by (auto simp: DropExpiredArchives_def Let_def idx'_def)
qed

section \<open>The mirror built at open\<close>

definition l4_addressed :: "(string \<Rightarrow> u64) \<Rightarrow> StorageEngine \<Rightarrow> u64 \<Rightarrow> bool" where
  "l4_addressed H e a \<longleftrightarrow> (\<forall>i x. ReadArchiveSlot e a i = Inr x \<longrightarrow> i = HashContent H (as_TopicID x) (as_Seq x) \<and> as_IDHash x = i)"

lemma set_CollectAllArchives:
  assumes "engine_rep e m"
  shows "x \<in> set (CollectAllArchives e a) \<longleftrightarrow> (\<exists>i. ReadArchiveSlot e a i = Inr x)"
proof -
  have "typed_at unmarshal_archive m a RecL4Archive i = Some x \<Longrightarrow> i \<in> set (IndexByType e a RecL4Archive)" for i
    using eng.ids_law [OF assms, of a RecL4Archive] by (auto simp: typed_at_def split: option.splits prod.splits if_splits)
  then show ?thesis
    unfolding CollectAllArchives_def archive.IterAll_typed [OF assms] ReadArchiveSlot_typed [OF assms]
    by (auto simp: List.map_filter_def image_iff) force
qed

lemma BuildL4_mirrors:
  assumes "engine_rep e m" "l4_addressed H e a"
  shows "l4_mirrors H e a (BuildL4FromEngine e a)"
proof -
  let ?xs = "CollectAllArchives e a" and ?idx = "BuildL4FromEngine e a"
  have view: "l4_view ?idx t s = map_option l4_entry (List.find (\<lambda>x. as_TopicID x = t \<and> as_Seq x = s) (rev ?xs))" for t s
    unfolding BuildL4_slots by (simp add: l4.fold_add_view split: option.splits)
  have read: "ReadArchiveSlot e a (as_IDHash x) = Inr x \<and> as_IDHash x = HashContent H (as_TopicID x) (as_Seq x)" if "x \<in> set ?xs" for x
    using that assms(2) unfolding set_CollectAllArchives [OF assms(1)] l4_addressed_def by metis
  show ?thesis
    unfolding l4_mirrors_def
  proof (intro conjI allI impI)
    show "l4_wf ?idx" unfolding BuildL4_slots by (rule l4.fold_add_wf) simp
  next
    fix t s en assume "l4_view ?idx t s = Some en"
    then obtain x where x: "List.find (\<lambda>x. as_TopicID x = t \<and> as_Seq x = s) (rev ?xs) = Some x" "en = l4_entry x"
      unfolding view by auto
    then show "\<exists>x. ReadArchiveSlot e a (le_IDHash en) = Inr x \<and> l4_entry x = en \<and> as_TopicID x = t"
      using find_Some_set [OF x(1)] read [of x] by auto
  next
    fix i x assume r: "ReadArchiveSlot e a i = Inr x"
    then show hash: "i = HashContent H (as_TopicID x) (as_Seq x)" "as_IDHash x = i" using assms(2) by (auto simp: l4_addressed_def)
    let ?f = "List.find (\<lambda>y. as_TopicID y = as_TopicID x \<and> as_Seq y = as_Seq x) (rev ?xs)"
    have "x \<in> set ?xs" using r set_CollectAllArchives [OF assms(1)] by blast
    then have "?f \<noteq> None" by (auto simp: find_None_iff)
    then obtain y where y: "?f = Some y" by blast
    then have "ReadArchiveSlot e a i = Inr y" using find_Some_set [OF y] read [of y] hash(1) by auto
    then have "y = x" using r by simp
    then show "l4_view ?idx (as_TopicID x) (as_Seq x) = Some (l4_entry x)" using view y by simp
  qed
qed

section \<open>Queries\<close>

text \<open>The mirror's ids of one topic read back as that topic's records in \<open>Seq\<close> order.\<close>

lemma ReadArchivesByIDs_entries:
  assumes "\<forall>en \<in> set es. \<exists>x. ReadArchiveSlot e a (le_IDHash en) = Inr x \<and> l4_entry x = en \<and> as_TopicID x = t"
  shows "\<exists>xs. ReadArchivesByIDs e a (map le_IDHash es) = Inr xs \<and> map l4_entry xs = es
    \<and> (\<forall>x \<in> set xs. as_TopicID x = t \<and> ReadArchiveSlot e a (as_IDHash x) = Inr x)"
  using assms
proof (induction es)
  case (Cons en es)
  then obtain x where x: "ReadArchiveSlot e a (le_IDHash en) = Inr x" "l4_entry x = en" "as_TopicID x = t" by auto
  obtain xs where xs: "ReadArchivesByIDs e a (map le_IDHash es) = Inr xs" "map l4_entry xs = es"
    "\<forall>x \<in> set xs. as_TopicID x = t \<and> ReadArchiveSlot e a (as_IDHash x) = Inr x" using Cons by auto
  then have "ReadArchivesByIDs e a (map le_IDHash (en # es)) = Inr (x # xs)" using x(1) by simp
  then show ?case using x xs by (intro exI [of _ "x # xs"]) auto
qed simp

lemma ReadArchives_mirror:
  assumes "l4_mirrors H e a idx"
  shows "\<exists>xs. ReadArchivesByIDs e a (l4_ids idx t kind) = Inr xs
    \<and> sorted_wrt (\<lambda>x y. as_Seq x < as_Seq y) xs
    \<and> set xs = {x. (\<exists>i. ReadArchiveSlot e a i = Inr x) \<and> as_TopicID x = t \<and> (case kind of None \<Rightarrow> True | Some k \<Rightarrow> as_Kind x = k)}"
proof -
  let ?P = "\<lambda>e. case kind of None \<Rightarrow> True | Some k \<Rightarrow> le_Kind e = k" and ?es = "entries_of idx t"
  note wf = l4_mirrorsD(1) [OF assms]
  have ent: "\<forall>en \<in> set (filter ?P ?es). \<exists>x. ReadArchiveSlot e a (le_IDHash en) = Inr x \<and> l4_entry x = en \<and> as_TopicID x = t"
    using l4_mirrorsD(2) [OF assms] l4_view_iff [OF wf] by auto
  obtain xs where xs: "ReadArchivesByIDs e a (l4_ids idx t kind) = Inr xs" "map l4_entry xs = filter ?P ?es"
    "\<forall>x \<in> set xs. as_TopicID x = t \<and> ReadArchiveSlot e a (as_IDHash x) = Inr x"
    using ReadArchivesByIDs_entries [OF ent] unfolding l4_ids_def by auto
  have "sorted_wrt (\<lambda>x y. le_Seq x < le_Seq y) (map l4_entry xs)"
    using by_seq_entries [OF wf, of t] unfolding xs(2) by_seq_def by (rule sorted_wrt_filter)
  then have "sorted_wrt (\<lambda>x y. as_Seq x < as_Seq y) xs" by (simp add: sorted_wrt_map)
  moreover have "x \<in> set xs \<longleftrightarrow> (\<exists>i. ReadArchiveSlot e a i = Inr x) \<and> as_TopicID x = t \<and> (case kind of None \<Rightarrow> True | Some k \<Rightarrow> as_Kind x = k)" for x
  proof
    assume x: "x \<in> set xs"
    then have "l4_entry x \<in> set (filter ?P ?es)" using xs(2) by (metis image_eqI list.set_map)
    then show "(\<exists>i. ReadArchiveSlot e a i = Inr x) \<and> as_TopicID x = t \<and> (case kind of None \<Rightarrow> True | Some k \<Rightarrow> as_Kind x = k)"
      using xs(3) x by (auto split: option.splits)
  next
    assume x: "(\<exists>i. ReadArchiveSlot e a i = Inr x) \<and> as_TopicID x = t \<and> (case kind of None \<Rightarrow> True | Some k \<Rightarrow> as_Kind x = k)"
    then obtain i where i: "ReadArchiveSlot e a i = Inr x" by blast
    have "l4_entry x \<in> set (filter ?P ?es)"
      using x l4_mirrorsD(5) [OF assms i] by (simp add: l4_view_iff [OF wf] split: option.splits)
    then obtain y where y: "y \<in> set xs" "l4_entry y = l4_entry x" unfolding xs(2) [symmetric] by auto
    then have "as_IDHash y = i" using l4_mirrorsD(4) [OF assms i] by (metis l4_entry_simps(2))
    then show "x \<in> set xs" using xs(3) y(1) i by auto
  qed
  ultimately show ?thesis using xs(1) by blast
qed

lemma comparison_compareArchives: "comparison (compareArchives oneTopic)"
  by unfold_locales (auto simp: compareArchives_def Let_def cmp_def split: if_splits)

interpretation arcs: comparison "compareArchives oneTopic"
  by (rule comparison_compareArchives)

text \<open>Two records that compare equal in the order of a query are one record.\<close>

lemma compareArchives_antisym:
  assumes "l4_mirrors H e a idx" "ReadArchiveSlot e a i = Inr x" "ReadArchiveSlot e a j = Inr y" "oneTopic \<Longrightarrow> as_TopicID x = as_TopicID y"
    and "compareArchives oneTopic x y \<le> 0" "compareArchives oneTopic y x \<le> 0"
  shows "x = y"
proof -
  have "as_IDHash x = as_IDHash y"
  proof (cases oneTopic)
    case True
    then have "as_Seq x = as_Seq y" using assms(5,6) by (auto simp: compareArchives_def)
    then show ?thesis using assms(4) True l4_mirrorsD(3,4) [OF assms(1,2)] l4_mirrorsD(3,4) [OF assms(1,3)] by simp
  next
    case False
    then show ?thesis using assms(5,6) by (auto simp: compareArchives_def Let_def cmp_def split: if_splits)
  qed
  then have "i = j" using l4_mirrorsD(4) [OF assms(1,2)] l4_mirrorsD(4) [OF assms(1,3)] by simp
  then show ?thesis using assms(2,3) by simp
qed

text \<open>A domain whose content records all decode: the strict scan answers them all.\<close>

definition l4_decodes :: "StorageEngine \<Rightarrow> u64 \<Rightarrow> bool" where
  "l4_decodes e a \<longleftrightarrow> (\<forall>i \<in> set (IndexByType e a RecL4Archive). \<exists>x. ReadArchiveSlot e a i = Inr x)"

lemma scan_archives:
  assumes "engine_rep e m" "l4_decodes e a" "l4_mirrors H e a idx"
  shows "\<exists>xs. CollectAllStrict unmarshal_archive e a RecL4Archive = Inr xs \<and> distinct xs
    \<and> set xs = {x. \<exists>i. ReadArchiveSlot e a i = Inr x}"
proof -
  let ?ty = "typed_at unmarshal_archive m a RecL4Archive" and ?ids = "IndexByType e a RecL4Archive"
  note ids = eng.ids_law [OF assms(1), of a RecL4Archive]
  have some: "\<exists>x. ?ty i = Some x" if "i \<in> set ?ids" for i
    using assms(2) that unfolding l4_decodes_def ReadArchiveSlot_typed [OF assms(1)] by blast
  then have scan: "CollectAllStrict unmarshal_archive e a RecL4Archive = Inr (map (\<lambda>i. the (?ty i)) ?ids)"
    using archive.CollectAllStrict_law(1) [OF assms(1), of a RecL4Archive] ids by fastforce
  have "inj_on (\<lambda>i. the (?ty i)) (set ?ids)"
  proof (rule inj_onI)
    fix i j assume ij: "i \<in> set ?ids" "j \<in> set ?ids" "the (?ty i) = the (?ty j)"
    obtain x y where "?ty i = Some x" "?ty j = Some y" using some ij by blast
    moreover from this have "as_IDHash x = i" "as_IDHash y = j"
      using l4_mirrorsD(4) [OF assms(3)] ReadArchiveSlot_typed [OF assms(1)] by blast+
    ultimately show "i = j" using ij(3) by simp
  qed
  then have "distinct (map (\<lambda>i. the (?ty i)) ?ids)" using ids by (simp add: distinct_map)
  moreover have "x \<in> set (map (\<lambda>i. the (?ty i)) ?ids) \<longleftrightarrow> (\<exists>i. ReadArchiveSlot e a i = Inr x)" for x
  proof -
    have "?ty i = Some x \<Longrightarrow> i \<in> set ?ids" for i
      using ids by (auto simp: typed_at_def split: option.splits prod.splits if_splits)
    moreover have "x \<in> set (map (\<lambda>i. the (?ty i)) ?ids) \<longleftrightarrow> (\<exists>i \<in> set ?ids. ?ty i = Some x)"
      using some unfolding set_map image_iff by (metis option.sel)
    ultimately show ?thesis unfolding ReadArchiveSlot_typed [OF assms(1)] by blast
  qed
  ultimately show ?thesis using scan by blast
qed

text \<open>The specified answer of a query before its limit: the readable records that match, in the order of the query.\<close>

definition lowered :: "(string \<Rightarrow> string) \<Rightarrow> ArchiveQuery \<Rightarrow> ArchiveQuery" where
  "lowered lower q = q\<lparr>aq_Keyword := lower (aq_Keyword q)\<rparr>"

definition archive_answer :: "(string \<Rightarrow> string) \<Rightarrow> StorageEngine \<Rightarrow> u64 \<Rightarrow> ArchiveQuery \<Rightarrow> ArchiveSlot list \<Rightarrow> bool" where
  "archive_answer lower e a q full \<longleftrightarrow> distinct full
     \<and> sorted_wrt (\<lambda>x y. compareArchives (aq_TopicID q \<noteq> None) x y \<le> 0) full
     \<and> set full = {x. (\<exists>i. ReadArchiveSlot e a i = Inr x) \<and> matchesArchiveQuery lower x (lowered lower q)}"

lemma archive_answerD:
  assumes "archive_answer lower e a q xs"
  shows "distinct xs" "sorted_wrt (\<lambda>x y. compareArchives (aq_TopicID q \<noteq> None) x y \<le> 0) xs"
    "set xs = {x. (\<exists>i. ReadArchiveSlot e a i = Inr x) \<and> matchesArchiveQuery lower x (lowered lower q)}"
  using assms by (simp_all only: archive_answer_def)

lemma match_topic: "matchesArchiveQuery lower x (lowered lower q) \<Longrightarrow> aq_TopicID q = Some t \<Longrightarrow> as_TopicID x = t"
  by (simp add: matchesArchiveQuery_def lowered_def)

lemma archive_answer_unique:
  assumes "l4_mirrors H e a idx" "archive_answer lower e a q xs" "archive_answer lower e a q ys"
  shows "xs = ys"
proof (rule arcs.sorted_unique [of "aq_TopicID q \<noteq> None"])
  note xs = archive_answerD [OF assms(2)] and ys = archive_answerD [OF assms(3)]
  show "sorted_wrt (\<lambda>x y. compareArchives (aq_TopicID q \<noteq> None) x y \<le> 0) xs" by (rule xs(2))
  show "sorted_wrt (\<lambda>x y. compareArchives (aq_TopicID q \<noteq> None) x y \<le> 0) ys" by (rule ys(2))
  have "set xs = set ys" unfolding xs(3) ys(3) ..
  then show "mset xs = mset ys" by (rule iffD1 [OF set_eq_iff_mset_eq_distinct [OF xs(1) ys(1)]])
  fix x y assume "x \<in> set xs" "y \<in> set xs"
    and c: "compareArchives (aq_TopicID q \<noteq> None) x y \<le> 0" "compareArchives (aq_TopicID q \<noteq> None) y x \<le> 0"
  then obtain i j where ij: "ReadArchiveSlot e a i = Inr x" "ReadArchiveSlot e a j = Inr y"
    and match: "matchesArchiveQuery lower x (lowered lower q)" "matchesArchiveQuery lower y (lowered lower q)"
    unfolding xs(3) by blast
  have "as_TopicID x = as_TopicID y" if "aq_TopicID q \<noteq> None"
    using that match_topic [OF match(1)] match_topic [OF match(2)] by (metis option.exhaust)
  then show "x = y" by (rule compareArchives_antisym [OF assms(1) ij _ c])
qed

lemma archive_answer_sorted:
  assumes "distinct xs" "\<And>x. x \<in> set xs \<and> matchesArchiveQuery lower x (lowered lower q)
      \<longleftrightarrow> (\<exists>i. ReadArchiveSlot e a i = Inr x) \<and> matchesArchiveQuery lower x (lowered lower q)"
  shows "archive_answer lower e a q (SortFunc (compareArchives (aq_TopicID q \<noteq> None)) (filter (\<lambda>x. matchesArchiveQuery lower x (lowered lower q)) xs))"
proof -
  have "{x \<in> set xs. matchesArchiveQuery lower x (lowered lower q)} =
     {x. (\<exists>i. ReadArchiveSlot e a i = Inr x) \<and> matchesArchiveQuery lower x (lowered lower q)}"
    using assms(2) by (simp only: set_eq_iff mem_Collect_eq) blast
  moreover have "distinct (filter (\<lambda>x. matchesArchiveQuery lower x (lowered lower q)) xs)" using assms(1) by (rule distinct_filter)
  ultimately show ?thesis
    unfolding archive_answer_def arcs.distinct_SortFunc arcs.set_SortFunc set_filter by (intro conjI arcs.sorted_SortFunc)
qed

lemma Query_topic:
  assumes "l4_mirrors H e a idx" "aq_TopicID q = Some t" "aq_Index q = Some idx"
  shows "\<exists>full. QueryArchivesL4 lower e a q = Inr (newest full (aq_Limit q)) \<and> archive_answer lower e a q full"
proof -
  obtain xs where xs: "ReadArchivesByIDs e a (AllIDs idx t) = Inr xs" "sorted_wrt (\<lambda>x y. as_Seq x < as_Seq y) xs"
    "set xs = {x. (\<exists>i. ReadArchiveSlot e a i = Inr x) \<and> as_TopicID x = t}"
    using ReadArchives_mirror [OF assms(1), of t None] by (auto simp: AllIDs_def)
  have "distinct xs" using xs(2) by (induction xs) auto
  moreover have "matchesArchiveQuery lower x (lowered lower q) \<Longrightarrow> as_TopicID x = t" for x
    by (rule match_topic [OF _ assms(2)])
  ultimately have "archive_answer lower e a q (SortFunc (compareArchives (aq_TopicID q \<noteq> None)) (filter (\<lambda>x. matchesArchiveQuery lower x (lowered lower q)) xs))"
    using xs(3) by (intro archive_answer_sorted) blast+
  then show ?thesis using xs(1) assms(2,3) by (auto simp: QueryArchivesL4_def Let_def lowered_def)
qed

lemma Query_scan:
  assumes "engine_rep e m" "l4_decodes e a" "l4_mirrors H e a idx" "aq_Index q = None" "aq_IDs q = [] \<or> aq_TopicID q \<noteq> None"
  shows "\<exists>full. QueryArchivesL4 lower e a q = Inr (newest full (aq_Limit q)) \<and> archive_answer lower e a q full"
proof -
  obtain xs where xs: "CollectAllStrict unmarshal_archive e a RecL4Archive = Inr xs" "distinct xs" "set xs = {x. \<exists>i. ReadArchiveSlot e a i = Inr x}"
    using scan_archives [OF assms(1-3)] by blast
  then have "archive_answer lower e a q (SortFunc (compareArchives (aq_TopicID q \<noteq> None)) (filter (\<lambda>x. matchesArchiveQuery lower x (lowered lower q)) xs))"
    by (intro archive_answer_sorted) auto
  then show ?thesis using xs(1) assms(4,5) by (auto simp: QueryArchivesL4_def Let_def lowered_def)
qed

end
