(* ===== verification/L2_Meta.thy ===== *)
theory L2_Meta
  imports Typed_Records Go_Slices
begin

text \<open>
  \<^verbatim>\<open>internal/repo/index/l2meta.go\<close> and \<^verbatim>\<open>rebuild.go\<close>: the cache of one agent domain's topic records, a
  table of rows by topic id and, per scene, the ids of its topics. A nil row that the source would
  dereference is \<open>None\<close> here, so a panic of the source is a value; the invariant \<open>l2_wf\<close> excludes it.
\<close>

record L2Meta =
  lm_IDHash :: u64
  lm_Depth :: byte
  lm_SceneID :: u64
  lm_ParentID :: "u64 option"
  lm_Name :: string
  lm_FusedKeywords :: "string list"
  lm_UserTimestamp :: i64
  lm_AgentTimestamp :: i64

record L2MetaIndex =
  l2_entries :: "(u64, L2Meta) gomap"
  l2_byScene :: "(u64, u64 list) gomap"

definition newL2MetaIndex :: L2MetaIndex where
  "newL2MetaIndex = \<lparr>l2_entries = [], l2_byScene = []\<rparr>"

definition L2MetaFromTopic :: "TopicSlot \<Rightarrow> L2Meta" where
  "L2MetaFromTopic t = \<lparr>lm_IDHash = ts_ID t, lm_Depth = ts_Depth t, lm_SceneID = ts_SceneID t, lm_ParentID = ts_ParentID t,
     lm_Name = ts_Name t, lm_FusedKeywords = ts_FusedKeywords t, lm_UserTimestamp = ts_UserTimestamp t, lm_AgentTimestamp = ts_AgentTimestamp t\<rparr>"

definition ToTopicSlot :: "L2Meta \<Rightarrow> TopicSlot" where
  "ToTopicSlot m = \<lparr>ts_ID = lm_IDHash m, ts_SceneID = lm_SceneID m, ts_ParentID = lm_ParentID m, ts_Depth = lm_Depth m,
     ts_Name = lm_Name m, ts_FusedKeywords = lm_FusedKeywords m, ts_UserTimestamp = lm_UserTimestamp m, ts_AgentTimestamp = lm_AgentTimestamp m\<rparr>"

definition scene_ids :: "L2MetaIndex \<Rightarrow> u64 \<Rightarrow> u64 list" where
  "scene_ids idx sceneID = (case map_of (l2_byScene idx) sceneID of None \<Rightarrow> [] | Some ids \<Rightarrow> ids)"

definition L2_Get :: "L2MetaIndex \<Rightarrow> u64 \<Rightarrow> L2Meta option" where
  "L2_Get idx idHash = map_of (l2_entries idx) idHash"

definition insertMeta :: "L2Meta \<Rightarrow> L2MetaIndex \<Rightarrow> L2MetaIndex" where
  "insertMeta meta idx = idx\<lparr>l2_entries := AList.update (lm_IDHash meta) meta (l2_entries idx),
     l2_byScene := AList.update (lm_SceneID meta) (scene_ids idx (lm_SceneID meta) @ [lm_IDHash meta]) (l2_byScene idx)\<rparr>"

definition removeFromIndices :: "u64 \<Rightarrow> u64 \<Rightarrow> L2MetaIndex \<Rightarrow> L2MetaIndex" where
  "removeFromIndices sceneID idHash idx = (case map_of (l2_byScene idx) sceneID of None \<Rightarrow> idx
     | Some ids \<Rightarrow> let filtered = filter (\<lambda>x. x \<noteq> idHash) ids in
         if length filtered = 0 then idx\<lparr>l2_byScene := AList.delete sceneID (l2_byScene idx)\<rparr>
         else idx\<lparr>l2_byScene := AList.update sceneID filtered (l2_byScene idx)\<rparr>)"

definition L2_Update :: "L2Meta \<Rightarrow> L2MetaIndex \<Rightarrow> L2MetaIndex" where
  "L2_Update meta idx = insertMeta meta (case map_of (l2_entries idx) (lm_IDHash meta) of
     Some old \<Rightarrow> removeFromIndices (lm_SceneID old) (lm_IDHash meta) idx | None \<Rightarrow> idx)"

definition L2_Remove :: "u64 \<Rightarrow> L2MetaIndex \<Rightarrow> L2MetaIndex" where
  "L2_Remove idHash idx = (case map_of (l2_entries idx) idHash of None \<Rightarrow> idx
     | Some meta \<Rightarrow> let idx = removeFromIndices (lm_SceneID meta) idHash idx
         in idx\<lparr>l2_entries := AList.delete idHash (l2_entries idx)\<rparr>)"

definition TopicsByScene :: "L2MetaIndex \<Rightarrow> u64 \<Rightarrow> L2Meta option list" where
  "TopicsByScene idx sceneID = map (map_of (l2_entries idx)) (scene_ids idx sceneID)"

fun retarget_rows :: "u64 \<Rightarrow> u64 list \<Rightarrow> (u64, L2Meta) gomap \<Rightarrow> (u64, L2Meta) gomap option" where
  "retarget_rows sid [] rows = Some rows"
| "retarget_rows sid (i # ids) rows = (case map_of rows i of None \<Rightarrow> None
     | Some meta \<Rightarrow> retarget_rows sid ids (AList.update i (meta\<lparr>lm_SceneID := sid\<rparr>) rows))"

definition RetargetScene :: "u64 \<Rightarrow> u64 \<Rightarrow> L2MetaIndex \<Rightarrow> L2MetaIndex option" where
  "RetargetScene fromSceneID toSceneID idx =
     (if fromSceneID = toSceneID \<or> length (scene_ids idx fromSceneID) = 0 then Some idx
      else let ids = scene_ids idx fromSceneID;
               byScene = AList.delete fromSceneID (l2_byScene idx);
               byScene = AList.update toSceneID (scene_ids idx toSceneID @ ids) byScene
           in (case retarget_rows toSceneID ids (l2_entries idx) of None \<Rightarrow> None
               | Some rows \<Rightarrow> Some (idx\<lparr>l2_entries := rows, l2_byScene := byScene\<rparr>)))"

definition BuildL2MetaFromEngine :: "StorageEngine \<Rightarrow> u64 \<Rightarrow> L2MetaIndex" where
  "BuildL2MetaFromEngine engine agentID =
     fold (\<lambda>topic. insertMeta (L2MetaFromTopic topic)) (IterAll unmarshal_topic engine agentID RecL2Topic) newL2MetaIndex"

lemma ToTopicSlot_L2MetaFromTopic [simp]: "ToTopicSlot (L2MetaFromTopic t) = t" "L2MetaFromTopic (ToTopicSlot m) = m"
  by (simp_all add: ToTopicSlot_def L2MetaFromTopic_def)

lemma L2MetaFromTopic_simps [simp]: "lm_IDHash (L2MetaFromTopic t) = ts_ID t" "lm_SceneID (L2MetaFromTopic t) = ts_SceneID t"
  "lm_Depth (L2MetaFromTopic t) = ts_Depth t" "lm_ParentID (L2MetaFromTopic t) = ts_ParentID t"
  by (simp_all add: L2MetaFromTopic_def)

lemma ToTopicSlot_simps [simp]: "ts_ID (ToTopicSlot m) = lm_IDHash m" "ts_SceneID (ToTopicSlot m) = lm_SceneID m" "ts_Depth (ToTopicSlot m) = lm_Depth m"
  by (simp_all add: ToTopicSlot_def)

section \<open>The two tables agree\<close>

definition l2_wf :: "L2MetaIndex \<Rightarrow> bool" where
  "l2_wf idx \<longleftrightarrow> (\<forall>i m. L2_Get idx i = Some m \<longrightarrow> lm_IDHash m = i)
     \<and> (\<forall>s. distinct (scene_ids idx s))
     \<and> (\<forall>s i. i \<in> set (scene_ids idx s) \<longleftrightarrow> (\<exists>m. L2_Get idx i = Some m \<and> lm_SceneID m = s))"

lemma l2_wfD:
  assumes "l2_wf idx"
  shows "L2_Get idx i = Some m \<Longrightarrow> lm_IDHash m = i" "distinct (scene_ids idx s)"
    "i \<in> set (scene_ids idx s) \<longleftrightarrow> (\<exists>m. L2_Get idx i = Some m \<and> lm_SceneID m = s)"
  using assms unfolding l2_wf_def by blast+

lemma l2_wf_new [simp]: "l2_wf newL2MetaIndex" "L2_Get newL2MetaIndex i = None"
  by (simp_all add: l2_wf_def newL2MetaIndex_def L2_Get_def scene_ids_def)

lemma removeFromIndices_simps [simp]:
  "L2_Get (removeFromIndices s i idx) j = L2_Get idx j"
  "scene_ids (removeFromIndices s i idx) u = (if u = s then filter (\<lambda>x. x \<noteq> i) (scene_ids idx s) else scene_ids idx u)"
  by (auto simp: removeFromIndices_def L2_Get_def scene_ids_def Let_def split: option.splits)

lemma insertMeta_simps [simp]:
  "L2_Get (insertMeta m idx) j = (if j = lm_IDHash m then Some m else L2_Get idx j)"
  "scene_ids (insertMeta m idx) u = (if u = lm_SceneID m then scene_ids idx u @ [lm_IDHash m] else scene_ids idx u)"
  by (auto simp: insertMeta_def L2_Get_def scene_ids_def)

lemma L2_Update_simps:
  assumes "l2_wf idx"
  shows "L2_Get (L2_Update m idx) j = (if j = lm_IDHash m then Some m else L2_Get idx j)"
    and "scene_ids (L2_Update m idx) u = filter (\<lambda>x. x \<noteq> lm_IDHash m) (scene_ids idx u) @ (if u = lm_SceneID m then [lm_IDHash m] else [])"
proof -
  show "L2_Get (L2_Update m idx) j = (if j = lm_IDHash m then Some m else L2_Get idx j)"
    by (auto simp: L2_Update_def split: option.splits)
  have keep: "filter (\<lambda>x. x \<noteq> lm_IDHash m) (scene_ids idx s) = scene_ids idx s" if "\<forall>r. L2_Get idx (lm_IDHash m) = Some r \<longrightarrow> lm_SceneID r \<noteq> s" for s
    using that l2_wfD(3) [OF assms, of "lm_IDHash m" s] by (metis (mono_tags, lifting) filter_True)
  show "scene_ids (L2_Update m idx) u = filter (\<lambda>x. x \<noteq> lm_IDHash m) (scene_ids idx u) @ (if u = lm_SceneID m then [lm_IDHash m] else [])"
  proof (cases "map_of (l2_entries idx) (lm_IDHash m)")
    case None
    then show ?thesis using keep by (simp add: L2_Update_def L2_Get_def)
  next
    case (Some r)
    then show ?thesis using keep [of u] by (auto simp: L2_Update_def L2_Get_def)
  qed
qed

lemma L2_Update_wf: "l2_wf idx \<Longrightarrow> l2_wf (L2_Update m idx)"
  unfolding l2_wf_def [of "L2_Update m idx"] using l2_wfD by (auto simp: L2_Update_simps)

lemma L2_Remove_simps:
  assumes "l2_wf idx"
  shows "L2_Get (L2_Remove i idx) j = (if j = i then None else L2_Get idx j)"
    and "scene_ids (L2_Remove i idx) u = filter (\<lambda>x. x \<noteq> i) (scene_ids idx u)"
proof -
  have upd: "L2_Get (x\<lparr>l2_entries := AList.delete i (l2_entries x)\<rparr>) k = (if k = i then None else L2_Get x k)"
    "scene_ids (x\<lparr>l2_entries := es\<rparr>) u = scene_ids x u" for x es k
    by (auto simp: L2_Get_def scene_ids_def)
  show "L2_Get (L2_Remove i idx) j = (if j = i then None else L2_Get idx j)"
    by (auto simp: L2_Remove_def upd Let_def split: option.splits) (simp add: L2_Get_def)
  have keep: "filter (\<lambda>x. x \<noteq> i) (scene_ids idx s) = scene_ids idx s" if "\<forall>r. L2_Get idx i = Some r \<longrightarrow> lm_SceneID r \<noteq> s" for s
    using that l2_wfD(3) [OF assms, of i s] by (metis (mono_tags, lifting) filter_True)
  show "scene_ids (L2_Remove i idx) u = filter (\<lambda>x. x \<noteq> i) (scene_ids idx u)"
  proof (cases "map_of (l2_entries idx) i")
    case None
    then show ?thesis using keep by (simp add: L2_Remove_def L2_Get_def)
  next
    case (Some r)
    then show ?thesis using keep [of u] by (auto simp: L2_Remove_def L2_Get_def upd Let_def)
  qed
qed

lemma L2_Remove_wf: "l2_wf idx \<Longrightarrow> l2_wf (L2_Remove i idx)"
  unfolding l2_wf_def [of "L2_Remove i idx"] using l2_wfD by (auto simp: L2_Remove_simps)

lemma TopicsByScene_rows:
  assumes "l2_wf idx"
  shows "\<exists>rows. TopicsByScene idx s = map Some rows \<and> distinct (map lm_IDHash rows)
    \<and> set rows = {m. lm_SceneID m = s \<and> L2_Get idx (lm_IDHash m) = Some m}"
proof -
  let ?ids = "scene_ids idx s" and ?row = "\<lambda>i. the (L2_Get idx i)"
  have row: "L2_Get idx i = Some (?row i) \<and> lm_IDHash (?row i) = i \<and> lm_SceneID (?row i) = s" if "i \<in> set ?ids" for i
    using that l2_wfD(1,3) [OF assms] by fastforce
  then have "TopicsByScene idx s = map Some (map ?row ?ids)" unfolding TopicsByScene_def L2_Get_def by auto
  moreover have "map lm_IDHash (map ?row ?ids) = ?ids" using row by (simp add: map_idI)
  moreover have "set (map ?row ?ids) = {m. lm_SceneID m = s \<and> L2_Get idx (lm_IDHash m) = Some m}"
    using row l2_wfD(3) [OF assms] by (force simp: image_iff)
  ultimately show ?thesis using l2_wfD(2) [OF assms, of s] by metis
qed

lemma retarget_rows_law:
  assumes "\<forall>i \<in> set ids. map_of rows i \<noteq> None" "distinct ids"
  shows "\<exists>rows'. retarget_rows s ids rows = Some rows'
    \<and> (\<forall>i. map_of rows' i = (if i \<in> set ids then map_option (\<lambda>m. m\<lparr>lm_SceneID := s\<rparr>) (map_of rows i) else map_of rows i))"
  using assms
proof (induction ids arbitrary: rows)
  case (Cons i ids)
  then obtain m where m: "map_of rows i = Some m" by auto
  have "\<forall>j \<in> set ids. map_of (AList.update i (m\<lparr>lm_SceneID := s\<rparr>) rows) j \<noteq> None" using Cons.prems by auto
  then obtain rows' where r: "retarget_rows s ids (AList.update i (m\<lparr>lm_SceneID := s\<rparr>) rows) = Some rows'"
    "\<forall>j. map_of rows' j = (if j \<in> set ids then map_option (\<lambda>m. m\<lparr>lm_SceneID := s\<rparr>) (map_of (AList.update i (m\<lparr>lm_SceneID := s\<rparr>) rows) j)
       else map_of (AList.update i (m\<lparr>lm_SceneID := s\<rparr>) rows) j)"
    using Cons.IH Cons.prems(2) by (metis distinct.simps(2))
  have "retarget_rows s (i # ids) rows = Some rows'" using m r(1) by simp
  moreover have "map_of rows' j = (if j \<in> set (i # ids) then map_option (\<lambda>m. m\<lparr>lm_SceneID := s\<rparr>) (map_of rows j) else map_of rows j)" for j
    using r(2) m Cons.prems(2) by auto
  ultimately show ?case by blast
qed simp

text \<open>A retarget moves every topic of the one scene to the other, in place in the other's list, and never panics.\<close>

lemma RetargetScene_law:
  assumes "l2_wf idx"
  shows "\<exists>idx'. RetargetScene f t idx = Some idx' \<and> l2_wf idx'
    \<and> (\<forall>i. L2_Get idx' i = map_option (\<lambda>m. if lm_SceneID m = f then m\<lparr>lm_SceneID := t\<rparr> else m) (L2_Get idx i))"
proof (cases "f = t \<or> scene_ids idx f = []")
  case True
  have "map_option (\<lambda>m. if lm_SceneID m = f then m\<lparr>lm_SceneID := t\<rparr> else m) (L2_Get idx i) = L2_Get idx i" for i
    using True l2_wfD(3) [OF assms, of i f] by (cases "L2_Get idx i") auto
  then show ?thesis using True assms by (auto simp: RetargetScene_def)
next
  case False
  let ?ids = "scene_ids idx f"
  have present: "\<forall>i \<in> set ?ids. map_of (l2_entries idx) i \<noteq> None"
    using l2_wfD(3) [OF assms, of _ f] unfolding L2_Get_def by (metis option.distinct(1))
  obtain rows where rows: "retarget_rows t ?ids (l2_entries idx) = Some rows"
    "\<forall>i. map_of rows i = (if i \<in> set ?ids then map_option (\<lambda>m. m\<lparr>lm_SceneID := t\<rparr>) (map_of (l2_entries idx) i) else map_of (l2_entries idx) i)"
    using retarget_rows_law [OF present l2_wfD(2) [OF assms], of t] by blast
  define idx' where "idx' = idx\<lparr>l2_entries := rows, l2_byScene := AList.update t (scene_ids idx t @ ?ids) (AList.delete f (l2_byScene idx))\<rparr>"
  have get: "L2_Get idx' i = (if i \<in> set ?ids then map_option (\<lambda>m. m\<lparr>lm_SceneID := t\<rparr>) (L2_Get idx i) else L2_Get idx i)" for i
    using rows(2) by (simp add: idx'_def L2_Get_def)
  have ids: "scene_ids idx' u = (if u = t then scene_ids idx t @ ?ids else if u = f then [] else scene_ids idx u)" for u
    using False by (auto simp: idx'_def scene_ids_def)
  note w = l2_wfD [OF assms]
  have disj: "set (scene_ids idx t) \<inter> set ?ids = {}" using False w(3) by fastforce
  have "l2_wf idx'"
    unfolding l2_wf_def
  proof (intro conjI allI impI)
    fix s i
    show "lm_IDHash m = i" if "L2_Get idx' i = Some m" for m
      using that w(1) [of i] by (auto simp: get split: if_splits)
    show "distinct (scene_ids idx' s)" using w(2) disj by (auto simp: ids)
    show "i \<in> set (scene_ids idx' s) \<longleftrightarrow> (\<exists>m. L2_Get idx' i = Some m \<and> lm_SceneID m = s)"
    proof (cases "i \<in> set ?ids")
      case True
      then obtain m where m: "L2_Get idx i = Some m" "lm_SceneID m = f" using w(3) by blast
      then have "i \<notin> set (scene_ids idx u)" if "u \<noteq> f" for u using that w(3) by auto
      then show ?thesis using True m False by (auto simp: get ids)
    next
      case iF: False
      then have "\<not> (\<exists>m. L2_Get idx i = Some m \<and> lm_SceneID m = f)" using w(3) by blast
      then show ?thesis using iF w(3) [of i s] False by (auto simp: get ids)
    qed
  qed
  moreover have "L2_Get idx' i = map_option (\<lambda>m. if lm_SceneID m = f then m\<lparr>lm_SceneID := t\<rparr> else m) (L2_Get idx i)" for i
    using w(3) [of i f] by (cases "L2_Get idx i") (auto simp: get)
  moreover have "RetargetScene f t idx = Some idx'" using False rows(1) by (simp add: RetargetScene_def Let_def idx'_def)
  ultimately show ?thesis by blast
qed

section \<open>The cache agrees with the topic records\<close>

definition l2_mirrors :: "StorageEngine \<Rightarrow> u64 \<Rightarrow> L2MetaIndex \<Rightarrow> bool" where
  "l2_mirrors e a idx \<longleftrightarrow> l2_wf idx
     \<and> (\<forall>i t. ReadTopicSlot e a i = Inr t \<longleftrightarrow> L2_Get idx i = Some (L2MetaFromTopic t))"

definition l2_addressed :: "StorageEngine \<Rightarrow> u64 \<Rightarrow> bool" where
  "l2_addressed e a \<longleftrightarrow> (\<forall>i t. ReadTopicSlot e a i = Inr t \<longrightarrow> ts_ID t = i)"

lemma ReadTopicSlot_typed:
  "engine_rep e m \<Longrightarrow> ReadTopicSlot e a i = Inr t \<longleftrightarrow> typed_at unmarshal_topic m a RecL2Topic i = Some t"
  unfolding ReadTopicSlot_def by (rule topic.readJSON_typed)

lemma l2_mirrorsD:
  assumes "l2_mirrors e a idx"
  shows "l2_wf idx" "ReadTopicSlot e a i = Inr t \<longleftrightarrow> L2_Get idx i = Some (L2MetaFromTopic t)"
  using assms unfolding l2_mirrors_def by blast+

lemma fold_insertMeta:
  assumes "l2_wf idx" "distinct (map ts_ID ts)" "\<forall>t \<in> set ts. L2_Get idx (ts_ID t) = None"
  shows "l2_wf (fold (\<lambda>t. insertMeta (L2MetaFromTopic t)) ts idx)
    \<and> (\<forall>i. L2_Get (fold (\<lambda>t. insertMeta (L2MetaFromTopic t)) ts idx) i =
        (case List.find (\<lambda>t. ts_ID t = i) ts of Some t \<Rightarrow> Some (L2MetaFromTopic t) | None \<Rightarrow> L2_Get idx i))"
  using assms
proof (induction ts arbitrary: idx)
  case (Cons t ts)
  let ?idx = "insertMeta (L2MetaFromTopic t) idx"
  have "L2_Get idx (ts_ID t) = None" using Cons.prems(3) by simp
  then have wf: "l2_wf ?idx" unfolding l2_wf_def [of ?idx] using l2_wfD [OF Cons.prems(1)] by auto
  have fresh: "\<forall>u \<in> set ts. ts_ID u \<noteq> ts_ID t" using Cons.prems(2) by (simp add: image_iff) metis
  then have "\<forall>u \<in> set ts. L2_Get ?idx (ts_ID u) = None" using Cons.prems(3) by simp
  note IH = Cons.IH [OF wf _ this]
  have "List.find (\<lambda>u. ts_ID u = ts_ID t) ts = None" using fresh by (auto simp: find_None_iff)
  then show ?case using IH Cons.prems(2) by (auto split: option.splits)
qed simp

lemma BuildL2Meta_mirrors:
  assumes "engine_rep e m" "l2_addressed e a"
  shows "l2_mirrors e a (BuildL2MetaFromEngine e a)"
proof -
  let ?ts = "IterAll unmarshal_topic e a RecL2Topic"
  let ?ty = "typed_at unmarshal_topic m a RecL2Topic" and ?ids = "IndexByType e a RecL2Topic"
  note read = ReadTopicSlot_typed [OF assms(1)] and ids = eng.ids_law [OF assms(1), of a RecL2Topic]
  have ts: "?ts = List.map_filter ?ty ?ids" by (rule topic.IterAll_typed [OF assms(1)])
  have addr: "ts_ID t = i" if "?ty i = Some t" for i t using assms(2) that unfolding l2_addressed_def read by blast
  have "map ts_ID (List.map_filter ?ty js) = filter (\<lambda>i. ?ty i \<noteq> None) js" for js
  proof (induction js)
    case (Cons j js)
    then show ?case using addr [of j] by (cases "?ty j") (simp_all add: List.map_filter_simps)
  qed (simp add: List.map_filter_simps)
  then have "distinct (map ts_ID ?ts)" using ids by (simp add: ts)
  then have law: "l2_wf (BuildL2MetaFromEngine e a)"
    "\<forall>i. L2_Get (BuildL2MetaFromEngine e a) i = (case List.find (\<lambda>t. ts_ID t = i) ?ts of Some t \<Rightarrow> Some (L2MetaFromTopic t) | None \<Rightarrow> None)"
    using fold_insertMeta [OF l2_wf_new(1), of ?ts] unfolding BuildL2MetaFromEngine_def by (simp_all cong: option.case_cong)
  have mem: "t \<in> set ?ts \<longleftrightarrow> ?ty (ts_ID t) = Some t" for t
  proof -
    have "?ty i = Some t \<Longrightarrow> i \<in> set ?ids" for i
      using ids by (auto simp: typed_at_def split: option.splits prod.splits if_splits)
    moreover have "t \<in> set (List.map_filter ?ty js) \<longleftrightarrow> (\<exists>i \<in> set js. ?ty i = Some t)" for js
    proof (induction js)
      case (Cons j js)
      then show ?case by (cases "?ty j") (auto simp: List.map_filter_simps)
    qed (simp add: List.map_filter_simps)
    ultimately show ?thesis using addr unfolding ts by blast
  qed
  have "L2_Get (BuildL2MetaFromEngine e a) i = Some (L2MetaFromTopic t) \<longleftrightarrow> ?ty i = Some t" for i t
  proof -
    show ?thesis
    proof (cases "List.find (\<lambda>t. ts_ID t = i) ?ts")
      case None
      then have "t \<notin> set ?ts" if "ts_ID t = i" using that by (auto simp: find_None_iff)
      then have "?ty i \<noteq> Some t" using mem [of t] addr [of i t] by metis
      then show ?thesis using None law(2) by simp
    next
      case (Some u)
      then have "u \<in> set ?ts" "ts_ID u = i" by (auto simp: find_Some_iff)
      then have "?ty i = Some u" using mem by blast
      moreover have "L2_Get (BuildL2MetaFromEngine e a) i = Some (L2MetaFromTopic u)" using law(2) Some by simp
      ultimately show ?thesis using ToTopicSlot_L2MetaFromTopic(1) by (metis option.inject)
    qed
  qed
  then show ?thesis using law(1) unfolding l2_mirrors_def read by blast
qed

end
