(* ===== verification/L5_Layer.thy ===== *)
theory L5_Layer
  imports Typed_Records Go_Slices
begin

text \<open>
  \<^verbatim>\<open>internal/repo/l5layer.go\<close>: the plan-node primitives and the grouping of a domain's nodes into one
  aggregate per topic.
\<close>

definition WritePlanNode :: "(string \<Rightarrow> u64) \<Rightarrow> u64 \<Rightarrow> PlanNode option \<Rightarrow> StorageEngine \<Rightarrow> (goerr + unit) \<times> StorageEngine" where
  "WritePlanNode H agentID node engine = (case node of
     None \<Rightarrow> (Inl (NewError ErrInvalidQuery), engine)
   | Some n \<Rightarrow> if pn_Seq n = 0 then (Inl (NewError ErrInvalidQuery), engine)
       else if pn_IDHash n \<noteq> HashPlanNode H (pn_TopicID n) (pn_Seq n) then (Inl (NewError ErrInvalidQuery), engine)
       else WritePlanNodeRecord agentID (pn_IDHash n) n engine)"

definition DeletePlanNodesByIDs :: "u64 \<Rightarrow> u64 list \<Rightarrow> StorageEngine \<Rightarrow> (goerr + unit) \<times> StorageEngine" where
  "DeletePlanNodesByIDs agentID idHashes engine = (case DeleteRecordBatch agentID idHashes engine of
     (Inl err, engine) \<Rightarrow> (Inl (Error ErrIO (Some err)), engine) | (Inr _, engine) \<Rightarrow> (Inr (), engine))"

definition PlanNodeIDsByTopicIDs :: "StorageEngine \<Rightarrow> u64 \<Rightarrow> u64 list \<Rightarrow> goerr + u64 list" where
  "PlanNodeIDsByTopicIDs engine agentID topics =
     (if length topics = 0 then Inr []
      else case CollectAllPlanNodesStrict engine agentID of Inl err \<Rightarrow> Inl err
        | Inr nodes \<Rightarrow> Inr (map pn_IDHash (filter (\<lambda>n. pn_TopicID n \<in> set topics) nodes)))"

record PlanAggregate =
  pa_TopicID :: u64
  pa_Nodes :: "PlanNode list"
  pa_LastActiveAt :: i64
  pa_HasNonDone :: bool

definition ComparePlanNodeSeq :: "PlanNode \<Rightarrow> PlanNode \<Rightarrow> int" where
  "ComparePlanNodeSeq a b = cmp (pn_Seq a) (pn_Seq b)"

definition RecomputePlanAgg :: "PlanAggregate \<Rightarrow> PlanAggregate" where
  "RecomputePlanAgg agg = fold (\<lambda>n agg.
       let agg = (if pn_UpdatedAt n > pa_LastActiveAt agg then agg\<lparr>pa_LastActiveAt := pn_UpdatedAt n\<rparr> else agg)
       in if pn_Status n \<noteq> StatusDone then agg\<lparr>pa_HasNonDone := True\<rparr> else agg)
     (pa_Nodes agg) (agg\<lparr>pa_LastActiveAt := 0, pa_HasNonDone := False\<rparr>)"

definition group_node :: "PlanNode \<Rightarrow> (u64, PlanAggregate) gomap \<Rightarrow> (u64, PlanAggregate) gomap" where
  "group_node node byTopic =
     (let agg = (case map_of byTopic (pn_TopicID node) of Some agg \<Rightarrow> agg
                 | None \<Rightarrow> \<lparr>pa_TopicID = pn_TopicID node, pa_Nodes = [], pa_LastActiveAt = 0, pa_HasNonDone = False\<rparr>)
      in AList.update (pn_TopicID node) (agg\<lparr>pa_Nodes := pa_Nodes agg @ [node]\<rparr>) byTopic)"

definition GroupPlanNodes :: "PlanNode list \<Rightarrow> PlanAggregate list" where
  "GroupPlanNodes nodes =
     SortFunc (\<lambda>a b. cmp (pa_TopicID a) (pa_TopicID b))
       (map (\<lambda>(t, agg). RecomputePlanAgg (agg\<lparr>pa_Nodes := SortFunc ComparePlanNodeSeq (pa_Nodes agg)\<rparr>))
         (fold group_node nodes []))"

definition CollectPlanNodes :: "StorageEngine \<Rightarrow> u64 \<Rightarrow> goerr + PlanAggregate list" where
  "CollectPlanNodes engine agentID = (case CollectAllPlanNodesStrict engine agentID of Inl err \<Rightarrow> Inl err
     | Inr nodes \<Rightarrow> Inr (GroupPlanNodes nodes))"

section \<open>The derived figures\<close>

definition last_active :: "PlanNode list \<Rightarrow> i64" where
  "last_active ns = fold (\<lambda>n m. max m (pn_UpdatedAt n)) ns 0"

definition agg_of :: "u64 \<Rightarrow> PlanNode list \<Rightarrow> PlanAggregate" where
  "agg_of t ns = \<lparr>pa_TopicID = t, pa_Nodes = ns, pa_LastActiveAt = last_active ns,
     pa_HasNonDone = (\<exists>n \<in> set ns. pn_Status n \<noteq> StatusDone)\<rparr>"

lemma RecomputePlanAgg_eq: "RecomputePlanAgg agg = agg_of (pa_TopicID agg) (pa_Nodes agg)"
proof -
  have "fold (\<lambda>n agg. let agg = (if pn_UpdatedAt n > pa_LastActiveAt agg then agg\<lparr>pa_LastActiveAt := pn_UpdatedAt n\<rparr> else agg)
       in if pn_Status n \<noteq> StatusDone then agg\<lparr>pa_HasNonDone := True\<rparr> else agg) ns agg = agg\<lparr>pa_LastActiveAt := fold (\<lambda>n m. max m (pn_UpdatedAt n)) ns (pa_LastActiveAt agg),
       pa_HasNonDone := (pa_HasNonDone agg \<or> (\<exists>n \<in> set ns. pn_Status n \<noteq> StatusDone))\<rparr>" for ns and agg :: PlanAggregate
    by (induction ns arbitrary: agg) (auto simp: Let_def max_def)
  note eq = this [of "pa_Nodes agg" "agg\<lparr>pa_LastActiveAt := 0, pa_HasNonDone := False\<rparr>"]
  show ?thesis unfolding RecomputePlanAgg_def eq by (simp add: agg_of_def last_active_def)
qed

lemma last_active_bound: "n \<in> set ns \<Longrightarrow> pn_UpdatedAt n \<le> last_active ns"
proof -
  have "m \<le> fold (\<lambda>n m. max m (pn_UpdatedAt n)) ns m \<and> (n \<in> set ns \<longrightarrow> pn_UpdatedAt n \<le> fold (\<lambda>n m. max m (pn_UpdatedAt n)) ns m)" for m
  proof (induction ns arbitrary: m)
    case (Cons k ns)
    show ?case using Cons.IH [of "max m (pn_UpdatedAt k)"] by auto
  qed simp
  then show "n \<in> set ns \<Longrightarrow> pn_UpdatedAt n \<le> last_active ns" by (simp add: last_active_def)
qed

lemma last_active_source: "last_active ns = 0 \<or> (\<exists>n \<in> set ns. pn_UpdatedAt n = last_active ns)"
proof -
  have "fold (\<lambda>n m. max m (pn_UpdatedAt n)) ns m = m \<or> (\<exists>n \<in> set ns. pn_UpdatedAt n = fold (\<lambda>n m. max m (pn_UpdatedAt n)) ns m)" for m
  proof (induction ns arbitrary: m)
    case (Cons k ns)
    show ?case using Cons.IH [of "max m (pn_UpdatedAt k)"] by (auto simp: max_def split: if_splits)
  qed simp
  then show ?thesis by (simp add: last_active_def)
qed

section \<open>Grouping\<close>

interpretation node_seq: comparison ComparePlanNodeSeq
  by unfold_locales (auto simp: ComparePlanNodeSeq_def cmp_def split: if_splits)

interpretation agg_topic: comparison "\<lambda>a b. cmp (pa_TopicID a) (pa_TopicID b)"
  by unfold_locales (auto simp: cmp_def split: if_splits)

abbreviation sort_nodes :: "PlanNode list \<Rightarrow> PlanNode list" where
  "sort_nodes \<equiv> SortFunc ComparePlanNodeSeq"

lemma in_image_pairs: "x \<in> f ` S \<longleftrightarrow> (\<exists>a b. (a, b) \<in> S \<and> x = f (a, b))"
  by force

lemma fold_group_node:
  "map_wf (fold group_node ns []) \<and> (\<forall>t. map_of (fold group_node ns []) t =
     (if \<exists>n \<in> set ns. pn_TopicID n = t
      then Some \<lparr>pa_TopicID = t, pa_Nodes = filter (\<lambda>n. pn_TopicID n = t) ns, pa_LastActiveAt = 0, pa_HasNonDone = False\<rparr> else None))"
proof (induction ns rule: rev_induct)
  case (snoc n ns)
  have "filter (\<lambda>k. pn_TopicID k = pn_TopicID n) ns = []" if "\<not> (\<exists>k \<in> set ns. pn_TopicID k = pn_TopicID n)"
    using that by (auto simp: filter_empty_conv)
  then show ?case using snoc by (auto simp: group_node_def Let_def)
qed simp

text \<open>One aggregate per topic in topic order, each with its topic's nodes in ordinal order and the figures derived from them.\<close>

lemma GroupPlanNodes_spec:
  shows "sorted_wrt (\<lambda>a b. pa_TopicID a < pa_TopicID b) (GroupPlanNodes ns)"
    and "set (GroupPlanNodes ns) = (\<lambda>t. agg_of t (sort_nodes (filter (\<lambda>n. pn_TopicID n = t) ns))) ` (pn_TopicID ` set ns)"
proof -
  define M where "M = fold group_node ns []"
  let ?f = "\<lambda>(t, agg). RecomputePlanAgg (agg\<lparr>pa_Nodes := sort_nodes (pa_Nodes agg)\<rparr>)"
  let ?g = "\<lambda>t. \<lparr>pa_TopicID = t, pa_Nodes = filter (\<lambda>n. pn_TopicID n = t) ns, pa_LastActiveAt = 0, pa_HasNonDone = False\<rparr>"
  have wf: "map_wf M" and M: "map_of M t = (if t \<in> pn_TopicID ` set ns then Some (?g t) else None)" for t
    using fold_group_node [of ns] unfolding M_def image_iff by metis+
  have row: "(t, agg) \<in> set M \<longleftrightarrow> t \<in> pn_TopicID ` set ns \<and> agg = ?g t" for t agg
    unfolding map_of_Some_iff [OF wf, symmetric] M by auto
  have img: "set (map ?f M) = (\<lambda>t. agg_of t (sort_nodes (filter (\<lambda>n. pn_TopicID n = t) ns))) ` (pn_TopicID ` set ns)"
  proof (rule set_eqI)
    fix x
    have "x \<in> set (map ?f M) \<longleftrightarrow> (\<exists>t agg. (t, agg) \<in> set M \<and> x = ?f (t, agg))" unfolding set_map by (rule in_image_pairs)
    then show "x \<in> set (map ?f M) \<longleftrightarrow> x \<in> (\<lambda>t. agg_of t (sort_nodes (filter (\<lambda>n. pn_TopicID n = t) ns))) ` (pn_TopicID ` set ns)"
      by (auto simp: row RecomputePlanAgg_eq)
  qed
  then show "set (GroupPlanNodes ns) = (\<lambda>t. agg_of t (sort_nodes (filter (\<lambda>n. pn_TopicID n = t) ns))) ` (pn_TopicID ` set ns)"
    by (simp only: GroupPlanNodes_def M_def agg_topic.set_SortFunc)
  have "pa_TopicID (?f d) = fst d" if "d \<in> set M" for d
  proof -
    obtain t agg where d: "d = (t, agg)" by (cases d)
    then have "agg = ?g t" using that row by blast
    then show ?thesis by (simp add: d RecomputePlanAgg_eq agg_of_def)
  qed
  then have "map pa_TopicID (map ?f M) = map fst M" unfolding map_map comp_def by (rule map_cong [OF refl])
  then have "distinct (map pa_TopicID (map ?f M))" using wf by (simp only: map_wf_def)
  then have "distinct (map pa_TopicID (GroupPlanNodes ns))"
    unfolding GroupPlanNodes_def M_def
    by (rule iffD1 [OF mset_eq_imp_distinct_iff, rotated]) (simp only: mset_map agg_topic.mset_SortFunc)
  moreover have "sorted_wrt (\<lambda>a b. pa_TopicID a \<le> pa_TopicID b) (GroupPlanNodes ns)"
    using agg_topic.sorted_SortFunc by (simp add: GroupPlanNodes_def)
  ultimately show "sorted_wrt (\<lambda>a b. pa_TopicID a < pa_TopicID b) (GroupPlanNodes ns)" by (intro sorted_strict)
qed

end
