(* ===== verification/Plan_Cache.thy ===== *)
theory Plan_Cache
  imports L5_Layer
begin

text \<open>
  \<^verbatim>\<open>internal/domain/plancache.go\<close>: the cached plan tree of each topic. The cache is a map from topics
  to aggregates; \<open>pc_view\<close> reads it as a partial map from \<open>(topic, ordinal)\<close>.
\<close>

section \<open>The breadth-first loop\<close>

text \<open>
  The breadth-first loop that the plan cache and the topic closure share: take the front of a queue,
  append its children to the queue and to the result. The source keeps no visited set, so the loop
  need not end: the model is a partial function whose value \<open>None\<close> is a run that does not return.
\<close>

partial_function (option) expand :: "('a \<Rightarrow> 'a list) \<Rightarrow> 'a list \<Rightarrow> 'a list \<Rightarrow> 'a list option" where
  "expand kids queue out = (case queue of [] \<Rightarrow> Some out
     | cur # rest \<Rightarrow> expand kids (rest @ kids cur) (out @ kids cur))"

lemma expand_simps [simp]: "expand kids [] out = Some out"
  "expand kids (cur # rest) out = expand kids (rest @ kids cur) (out @ kids cur)"
  by (subst expand.simps, simp)+

definition child_rel :: "('a \<Rightarrow> 'a list) \<Rightarrow> ('a \<times> 'a) set" where
  "child_rel kids = {(p, k). k \<in> set (kids p)}"

lemma child_rel_step: "(child_rel kids)\<^sup>+ `` {p} = set (kids p) \<union> (child_rel kids)\<^sup>+ `` set (kids p)"
proof -
  have "(child_rel kids)\<^sup>+ `` {p} \<subseteq> set (kids p) \<union> (child_rel kids)\<^sup>+ `` set (kids p)"
    by (auto simp: child_rel_def elim: tranclE dest!: tranclD) (metis (mono_tags) ImageI child_rel_def rtranclD)
  moreover have "set (kids p) \<union> (child_rel kids)\<^sup>+ `` set (kids p) \<subseteq> (child_rel kids)\<^sup>+ `` {p}"
    by (auto simp: child_rel_def intro: trancl_into_trancl2)
  ultimately show ?thesis by blast
qed

text \<open>Whatever the loop answers holds exactly what its queue reaches, besides what it started from.\<close>

lemma expand_reachable:
  assumes "expand kids queue out = Some r"
  shows "set r = set out \<union> (child_rel kids)\<^sup>+ `` set queue"
proof (rule expand.raw_induct [OF _ assms, of "\<lambda>kids queue out r. set r = set out \<union> (child_rel kids)\<^sup>+ `` set queue"])
  fix rec kids queue out r
  assume IH: "\<And>kids queue out r. rec kids queue out = Some r \<Longrightarrow> set r = set out \<union> (child_rel kids)\<^sup>+ `` set queue"
    and r: "(case queue of [] \<Rightarrow> Some out | cur # rest \<Rightarrow> rec kids (rest @ kids cur) (out @ kids cur)) = Some r"
  show "set r = set out \<union> (child_rel kids)\<^sup>+ `` set queue"
  proof (cases queue)
    case (Cons cur rest)
    then have "set r = set (out @ kids cur) \<union> (child_rel kids)\<^sup>+ `` set (rest @ kids cur)" using r IH by simp
    moreover have "(child_rel kids)\<^sup>+ `` set queue = (child_rel kids)\<^sup>+ `` {cur} \<union> (child_rel kids)\<^sup>+ `` set rest"
      unfolding Cons by auto
    ultimately show ?thesis by (auto simp: child_rel_step)
  qed (use r in simp)
qed

text \<open>A queue that meets a set closed under having a child in it is never emptied.\<close>

lemma expand_cycle:
  assumes "expand kids queue out = Some r" "\<forall>p \<in> C. \<exists>k \<in> set (kids p). k \<in> C"
  shows "set queue \<inter> C = {}"
proof -
  have "(\<forall>p \<in> C. \<exists>k \<in> set (kids p). k \<in> C) \<longrightarrow> set queue \<inter> C = {}"
  proof (rule expand.raw_induct [OF _ assms(1), of "\<lambda>kids queue out r. (\<forall>p \<in> C. \<exists>k \<in> set (kids p). k \<in> C) \<longrightarrow> set queue \<inter> C = {}"])
    fix rec kids queue out r
    assume IH: "\<And>kids queue out r. rec kids queue out = Some r \<Longrightarrow> (\<forall>p \<in> C. \<exists>k \<in> set (kids p). k \<in> C) \<longrightarrow> set queue \<inter> C = {}"
      and r: "(case queue of [] \<Rightarrow> Some out | cur # rest \<Rightarrow> rec kids (rest @ kids cur) (out @ kids cur)) = Some r"
    show "(\<forall>p \<in> C. \<exists>k \<in> set (kids p). k \<in> C) \<longrightarrow> set queue \<inter> C = {}"
      using r IH by (cases queue) fastforce+
  qed
  then show ?thesis using assms(2) by blast
qed

text \<open>
  The loop returns when children rank above their parents below a bound: a queue weighs
  \<open>(L + 1) ^ (N - rank)\<close> per element, and no element's children outweigh it.
\<close>

definition weight :: "nat \<Rightarrow> nat \<Rightarrow> ('a \<Rightarrow> nat) \<Rightarrow> 'a list \<Rightarrow> nat" where
  "weight L N rank queue = (\<Sum>x \<leftarrow> queue. (L + 1) ^ (N - rank x))"

lemma weight_kids:
  assumes "\<forall>k \<in> set ks. r < rank k \<and> rank k \<le> N" "length ks \<le> L"
  shows "weight L N rank ks < (L + 1) ^ (N - r)"
proof (cases "ks = []")
  case False
  then obtain k where "k \<in> set ks" by (cases ks) auto
  then have r: "r < N" using assms(1) by auto
  have "(L + 1) ^ (N - rank k) \<le> (L + 1) ^ (N - r - 1)" if "k \<in> set ks" for k
    using assms(1) that by (intro power_increasing) auto
  then have "weight L N rank ks \<le> (\<Sum>x \<leftarrow> ks. (L + 1) ^ (N - r - 1))" unfolding weight_def by (rule sum_list_mono)
  also have "\<dots> = length ks * (L + 1) ^ (N - r - 1)" by (simp add: sum_list_triv)
  also have "\<dots> \<le> L * (L + 1) ^ (N - r - 1)" using assms(2) by (intro mult_right_mono) auto
  also have "\<dots> < (L + 1) * (L + 1) ^ (N - r - 1)" by simp
  also have "\<dots> = (L + 1) ^ (N - r)" using r by (metis Suc_diff_Suc diff_Suc_eq_diff_pred power_Suc diff_commute)
  finally show ?thesis .
qed (simp add: weight_def)

lemma expand_returns:
  fixes rank :: "'a \<Rightarrow> nat"
  assumes "\<And>p k. k \<in> set (kids p) \<Longrightarrow> rank p < rank k \<and> rank k \<le> N" "\<And>p. length (kids p) \<le> L"
  shows "\<exists>r. expand kids queue out = Some r"
proof (induction "weight L N rank queue" arbitrary: queue out rule: less_induct)
  case less
  show ?case
  proof (cases queue)
    case (Cons cur rest)
    have "weight L N rank (kids cur) < (L + 1) ^ (N - rank cur)" using assms by (intro weight_kids) auto
    then have "weight L N rank (rest @ kids cur) < weight L N rank queue" by (simp add: Cons weight_def)
    then show ?thesis using less by (simp add: Cons)
  qed simp
qed

section \<open>The cache\<close>

record PlanCache =
  pc_plans :: "(u64, PlanAggregate) gomap"

definition buildPlanCache :: "StorageEngine \<Rightarrow> u64 \<Rightarrow> PlanCache" where
  "buildPlanCache engine agentID =
     \<lparr>pc_plans = fold (\<lambda>agg m. AList.update (pa_TopicID agg) agg m) (GroupPlanNodes (CollectAllPlanNodes engine agentID)) []\<rparr>"

definition Aggregate :: "PlanCache \<Rightarrow> u64 \<Rightarrow> PlanAggregate option" where
  "Aggregate pc topicID = map_of (pc_plans pc) topicID"

definition HasSeq :: "PlanCache \<Rightarrow> u64 \<Rightarrow> u32 \<Rightarrow> bool" where
  "HasSeq pc topicID seq = (case map_of (pc_plans pc) topicID of None \<Rightarrow> False
     | Some agg \<Rightarrow> list_ex (\<lambda>n. pn_Seq n = seq) (pa_Nodes agg))"

definition plan_kids :: "PlanNode list \<Rightarrow> u32 \<Rightarrow> u32 list" where
  "plan_kids nodes p = map pn_Seq (filter (\<lambda>n. pn_ParentSeq n = p) nodes)"

definition Subtree :: "PlanCache \<Rightarrow> u64 \<Rightarrow> u32 \<Rightarrow> u32 list option" where
  "Subtree pc topicID root = (case map_of (pc_plans pc) topicID of None \<Rightarrow> Some [root]
     | Some agg \<Rightarrow> map_option sort (expand (plan_kids (pa_Nodes agg)) [root] [root]))"

definition NextSeq :: "PlanCache \<Rightarrow> u64 \<Rightarrow> u32 \<Rightarrow> u32" where
  "NextSeq pc topicID reserved =
     (let top = (case map_of (pc_plans pc) topicID of None \<Rightarrow> 0
                 | Some agg \<Rightarrow> fold (\<lambda>n top. if pn_Seq n > top then pn_Seq n else top) (pa_Nodes agg) 0);
          top = (if reserved > top then reserved else top)
      in top + 1)"

fun replace_node :: "PlanNode \<Rightarrow> PlanNode list \<Rightarrow> PlanNode list option" where
  "replace_node node [] = None"
| "replace_node node (n # ns) = (if pn_IDHash n = pn_IDHash node then Some (node # ns)
     else map_option ((#) n) (replace_node node ns))"

definition UpsertNode :: "u64 \<Rightarrow> PlanNode option \<Rightarrow> PlanCache \<Rightarrow> PlanCache" where
  "UpsertNode topicID node pc = (case node of None \<Rightarrow> pc
     | Some node \<Rightarrow>
         let agg = (case map_of (pc_plans pc) topicID of Some agg \<Rightarrow> agg
                    | None \<Rightarrow> \<lparr>pa_TopicID = topicID, pa_Nodes = [], pa_LastActiveAt = 0, pa_HasNonDone = False\<rparr>);
             nodes = (case replace_node node (pa_Nodes agg) of Some ns \<Rightarrow> ns | None \<Rightarrow> pa_Nodes agg @ [node])
         in pc\<lparr>pc_plans := AList.update topicID (RecomputePlanAgg (agg\<lparr>pa_Nodes := SortFunc ComparePlanNodeSeq nodes\<rparr>)) (pc_plans pc)\<rparr>)"

definition RemoveNodes :: "u64 \<Rightarrow> u64 list \<Rightarrow> PlanCache \<Rightarrow> PlanCache" where
  "RemoveNodes topicID nodeIDs pc = (case map_of (pc_plans pc) topicID of None \<Rightarrow> pc
     | Some agg \<Rightarrow> let nodes = filter (\<lambda>n. pn_IDHash n \<notin> set nodeIDs) (pa_Nodes agg) in
         if length nodes = 0 then pc\<lparr>pc_plans := AList.delete topicID (pc_plans pc)\<rparr>
         else pc\<lparr>pc_plans := AList.update topicID (RecomputePlanAgg (agg\<lparr>pa_Nodes := nodes\<rparr>)) (pc_plans pc)\<rparr>)"

definition PC_RemoveTopic :: "u64 \<Rightarrow> PlanCache \<Rightarrow> PlanCache" where
  "PC_RemoveTopic topicID pc = pc\<lparr>pc_plans := AList.delete topicID (pc_plans pc)\<rparr>"

section \<open>The invariant\<close>

definition nodes_of :: "PlanCache \<Rightarrow> u64 \<Rightarrow> PlanNode list" where
  "nodes_of pc t = (case map_of (pc_plans pc) t of None \<Rightarrow> [] | Some agg \<Rightarrow> pa_Nodes agg)"

definition seq_sorted :: "PlanNode list \<Rightarrow> bool" where
  "seq_sorted ns \<longleftrightarrow> sorted_wrt (\<lambda>m n. pn_Seq m < pn_Seq n) ns"

text \<open>
  A key exists exactly while a node does; a tree's nodes belong to its topic, stand in ordinal order
  under distinct ids, and the derived figures are those of the nodes.
\<close>

definition agg_wf :: "u64 \<Rightarrow> PlanAggregate \<Rightarrow> bool" where
  "agg_wf t agg \<longleftrightarrow> agg = agg_of t (pa_Nodes agg) \<and> pa_Nodes agg \<noteq> [] \<and> seq_sorted (pa_Nodes agg)
     \<and> distinct (map pn_IDHash (pa_Nodes agg)) \<and> (\<forall>n \<in> set (pa_Nodes agg). pn_TopicID n = t)"

definition pc_wf :: "PlanCache \<Rightarrow> bool" where
  "pc_wf pc \<longleftrightarrow> (\<forall>t agg. map_of (pc_plans pc) t = Some agg \<longrightarrow> agg_wf t agg)"

definition pc_view :: "PlanCache \<Rightarrow> u64 \<Rightarrow> u32 \<Rightarrow> PlanNode option" where
  "pc_view pc t s = List.find (\<lambda>n. pn_Seq n = s) (nodes_of pc t)"

lemma pc_wfD:
  assumes "pc_wf pc" "map_of (pc_plans pc) t = Some agg"
  shows "agg = agg_of t (pa_Nodes agg)" "pa_Nodes agg \<noteq> []" "seq_sorted (pa_Nodes agg)"
    "distinct (map pn_IDHash (pa_Nodes agg))" "\<forall>n \<in> set (pa_Nodes agg). pn_TopicID n = t"
  using assms unfolding pc_wf_def agg_wf_def by blast+

lemma agg_wf_of:
  assumes "ns \<noteq> []" "seq_sorted ns" "distinct (map pn_IDHash ns)" "\<forall>n \<in> set ns. pn_TopicID n = t"
  shows "agg_wf t (agg_of t ns)"
proof -
  have "pa_Nodes (agg_of t ns) = ns" by (simp add: agg_of_def)
  then show ?thesis using assms by (simp add: agg_wf_def)
qed

lemma pc_wf_upd:
  assumes "pc_wf pc" "map_of (pc_plans pc') = (map_of (pc_plans pc))(t := v)" "\<And>agg. v = Some agg \<Longrightarrow> agg_wf t agg"
  shows "pc_wf pc'"
  using assms by (auto simp: pc_wf_def split: if_splits)

lemma nodes_of_wf:
  assumes "pc_wf pc"
  shows "seq_sorted (nodes_of pc t)" "distinct (map pn_IDHash (nodes_of pc t))" "\<forall>n \<in> set (nodes_of pc t). pn_TopicID n = t"
  using pc_wfD [OF assms, of t] by (cases "map_of (pc_plans pc) t"; simp add: nodes_of_def seq_sorted_def)+

lemma seq_sorted_inj: "seq_sorted ns \<Longrightarrow> m \<in> set ns \<Longrightarrow> n \<in> set ns \<Longrightarrow> pn_Seq m = pn_Seq n \<Longrightarrow> m = n"
  unfolding seq_sorted_def by (induction ns) auto

lemma find_seq: "seq_sorted ns \<Longrightarrow> List.find (\<lambda>n. pn_Seq n = s) ns = Some n \<longleftrightarrow> n \<in> set ns \<and> pn_Seq n = s"
proof (induction ns)
  case (Cons m ns)
  then have IH: "List.find (\<lambda>n. pn_Seq n = s) ns = Some n \<longleftrightarrow> n \<in> set ns \<and> pn_Seq n = s" by (simp add: seq_sorted_def)
  show ?case using IH Cons.prems by (auto simp: seq_sorted_def)
qed simp

lemma pc_view_iff: "pc_wf pc \<Longrightarrow> pc_view pc t s = Some n \<longleftrightarrow> n \<in> set (nodes_of pc t) \<and> pn_Seq n = s"
  unfolding pc_view_def by (rule find_seq [OF nodes_of_wf(1)])

lemma HasSeq_view: "pc_wf pc \<Longrightarrow> HasSeq pc t s \<longleftrightarrow> pc_view pc t s \<noteq> None"
  by (auto simp: HasSeq_def pc_view_def nodes_of_def list_ex_iff find_None_iff split: option.splits)

section \<open>Allocation\<close>

lemma fold_max_seq:
  fixes top :: u32
  defines "f \<equiv> \<lambda>n top. if pn_Seq n > top then pn_Seq n else top"
  shows "top \<le> fold f ns top \<and> (\<forall>n \<in> set ns. pn_Seq n \<le> fold f ns top) \<and> (fold f ns top = top \<or> (\<exists>n \<in> set ns. pn_Seq n = fold f ns top))"
proof (induction ns arbitrary: top)
  case (Cons n ns)
  have step: "fold f (n # ns) top = fold f ns (f n top)" by simp
  show ?case using Cons.IH [of "f n top"] unfolding step by (auto simp: f_def split: if_splits)
qed simp

lemma NextSeq_top:
  obtains top where "NextSeq pc t r = top + 1" "r \<le> top" "\<forall>n \<in> set (nodes_of pc t). pn_Seq n \<le> top"
    "top = r \<or> top = 0 \<or> (\<exists>n \<in> set (nodes_of pc t). pn_Seq n = top)"
proof -
  let ?m = "fold (\<lambda>n top. if pn_Seq n > top then pn_Seq n else top) (nodes_of pc t) (0 :: u32)"
  let ?top = "if r > ?m then r else ?m"
  have "NextSeq pc t r = ?top + 1"
    by (simp add: NextSeq_def nodes_of_def Let_def split: option.splits)
  moreover have "r \<le> ?top" by (simp add: not_less)
  moreover have "\<forall>n \<in> set (nodes_of pc t). pn_Seq n \<le> ?top" using fold_max_seq [of 0 "nodes_of pc t"] by auto
  moreover have "?top = r \<or> ?top = 0 \<or> (\<exists>n \<in> set (nodes_of pc t). pn_Seq n = ?top)" using fold_max_seq [of 0 "nodes_of pc t"] by auto
  ultimately show ?thesis by (rule that)
qed

text \<open>Below the last ordinal, the next ordinal is above every node and every reserved one.\<close>

lemma NextSeq_fresh:
  assumes "r \<noteq> -1" "\<forall>n \<in> set (nodes_of pc t). pn_Seq n \<noteq> -1"
  shows "r < NextSeq pc t r" "n \<in> set (nodes_of pc t) \<Longrightarrow> pn_Seq n < NextSeq pc t r" "NextSeq pc t r \<noteq> 0"
proof -
  obtain top where top: "NextSeq pc t r = top + 1" "r \<le> top" "\<forall>n \<in> set (nodes_of pc t). pn_Seq n \<le> top"
    "top = r \<or> top = 0 \<or> (\<exists>n \<in> set (nodes_of pc t). pn_Seq n = top)" by (rule NextSeq_top)
  have "top \<noteq> -1" using top(4) assms by auto
  then have up: "top < top + 1" by (rule word_less_succ)
  show "r < NextSeq pc t r" "n \<in> set (nodes_of pc t) \<Longrightarrow> pn_Seq n < NextSeq pc t r"
    using top(2,3) up by (auto simp: top(1) intro: le_less_trans)
  show "NextSeq pc t r \<noteq> 0" using up by (auto simp: top(1))
qed

section \<open>Writing the cache\<close>

lemma replace_node_eq:
  assumes "distinct (map pn_IDHash ns)"
  shows "replace_node n ns = (if pn_IDHash n \<in> pn_IDHash ` set ns then Some (map (\<lambda>m. if pn_IDHash m = pn_IDHash n then n else m) ns) else None)"
  using assms
proof (induction ns)
  case (Cons m ns)
  have "map (\<lambda>m. if pn_IDHash m = pn_IDHash n then n else m) ns = ns" if "pn_IDHash n \<notin> pn_IDHash ` set ns"
    using that by (intro map_idI) (auto simp: image_iff)
  then show ?case using Cons by auto
qed simp

text \<open>The nodes after an upsert: the new node in the place of the one with its id, or beside the others.\<close>

definition upserted :: "PlanNode \<Rightarrow> PlanNode list \<Rightarrow> PlanNode list" where
  "upserted n ns = (case replace_node n ns of Some ns' \<Rightarrow> ns' | None \<Rightarrow> ns @ [n])"

lemma upserted_law:
  assumes "seq_sorted ns" "distinct (map pn_IDHash ns)" "\<forall>m \<in> set ns. pn_IDHash m = pn_IDHash n \<longleftrightarrow> pn_Seq m = pn_Seq n"
  shows "set (upserted n ns) = insert n {m \<in> set ns. pn_Seq m \<noteq> pn_Seq n}"
    and "distinct (map pn_Seq (upserted n ns))" "distinct (map pn_IDHash (upserted n ns))"
proof -
  have seqs: "distinct (map pn_Seq ns)" using assms(1) by (induction ns) (auto simp: seq_sorted_def)
  let ?f = "\<lambda>m. if pn_IDHash m = pn_IDHash n then n else m"
  show "set (upserted n ns) = insert n {m \<in> set ns. pn_Seq m \<noteq> pn_Seq n}"
  proof (cases "pn_IDHash n \<in> pn_IDHash ` set ns")
    case True
    then show ?thesis using assms(3) by (auto simp: upserted_def replace_node_eq [OF assms(2)])
  next
    case False
    then have "\<forall>m \<in> set ns. pn_Seq m \<noteq> pn_Seq n" using assms(3) by (metis image_eqI)
    then show ?thesis using False by (auto simp: upserted_def replace_node_eq [OF assms(2)])
  qed
  show "distinct (map pn_Seq (upserted n ns))" "distinct (map pn_IDHash (upserted n ns))"
  proof (atomize (full), cases "pn_IDHash n \<in> pn_IDHash ` set ns")
    case True
    then have "upserted n ns = map ?f ns" by (simp add: upserted_def replace_node_eq [OF assms(2)])
    moreover have "map pn_Seq (map ?f ns) = map pn_Seq ns" "map pn_IDHash (map ?f ns) = map pn_IDHash ns"
      using assms(3) by (auto simp: comp_def intro!: map_cong)
    ultimately show "distinct (map pn_Seq (upserted n ns)) \<and> distinct (map pn_IDHash (upserted n ns))" using assms(2) seqs by (simp only: simp_thms)
  next
    case False
    then have "pn_Seq n \<notin> pn_Seq ` set ns" using assms(3) by (metis (mono_tags, opaque_lifting) image_iff)
    then show "distinct (map pn_Seq (upserted n ns)) \<and> distinct (map pn_IDHash (upserted n ns))"
      using False assms(2) seqs by (simp add: upserted_def replace_node_eq [OF assms(2)])
  qed
qed

lemma sort_nodes_strict: "distinct (map pn_Seq ns) \<Longrightarrow> seq_sorted (sort_nodes ns)"
proof -
  assume "distinct (map pn_Seq ns)"
  then have "distinct (map pn_Seq (sort_nodes ns))"
    by (rule iffD1 [OF mset_eq_imp_distinct_iff, rotated]) (simp only: mset_map node_seq.mset_SortFunc)
  moreover have "sorted_wrt (\<lambda>m n. pn_Seq m \<le> pn_Seq n) (sort_nodes ns)"
    using node_seq.sorted_SortFunc [of ns] by (simp add: ComparePlanNodeSeq_def)
  ultimately show ?thesis unfolding seq_sorted_def by (intro sorted_strict)
qed

lemma sort_nodes_sorted: "seq_sorted ns \<Longrightarrow> sort_nodes ns = ns"
proof (rule node_seq.SortFunc_unique)
  assume ns: "seq_sorted ns"
  show "sorted_wrt (\<lambda>x y. ComparePlanNodeSeq x y \<le> 0) ns"
    using ns unfolding seq_sorted_def by (rule sorted_wrt_mono_rel [rotated]) (simp add: ComparePlanNodeSeq_def)
  show "x = y" if "x \<in> set ns" "y \<in> set ns" "ComparePlanNodeSeq x y \<le> 0" "ComparePlanNodeSeq y x \<le> 0" for x y
  proof (rule seq_sorted_inj [OF ns that(1,2)])
    show "pn_Seq x = pn_Seq y" using that(3,4) by (simp add: ComparePlanNodeSeq_def)
  qed
qed simp

lemma distinct_ids_sort: "distinct (map pn_IDHash (sort_nodes ns)) = distinct (map pn_IDHash ns)"
  by (rule mset_eq_imp_distinct_iff) (simp only: mset_map node_seq.mset_SortFunc)

lemma UpsertNode_plans:
  assumes "pc_wf pc"
  shows "map_of (pc_plans (UpsertNode t (Some n) pc)) = (map_of (pc_plans pc))(t \<mapsto> agg_of t (sort_nodes (upserted n (nodes_of pc t))))"
proof (cases "map_of (pc_plans pc) t")
  case None
  then show ?thesis by (simp add: UpsertNode_def RecomputePlanAgg_eq nodes_of_def upserted_def)
next
  case (Some agg)
  then have "pa_TopicID agg = t" using pc_wfD(1) [OF assms Some] by (metis PlanAggregate.select_convs(1) agg_of_def)
  then show ?thesis using Some by (simp add: UpsertNode_def RecomputePlanAgg_eq nodes_of_def upserted_def Let_def split: option.splits)
qed

lemma UpsertNode_law:
  assumes "pc_wf pc" "pn_TopicID n = t" "\<forall>m \<in> set (nodes_of pc t). pn_IDHash m = pn_IDHash n \<longleftrightarrow> pn_Seq m = pn_Seq n"
  shows "pc_wf (UpsertNode t (Some n) pc)"
    and "pc_view (UpsertNode t (Some n) pc) u s = (if u = t \<and> s = pn_Seq n then Some n else pc_view pc u s)"
proof -
  let ?pc = "UpsertNode t (Some n) pc" and ?ns = "sort_nodes (upserted n (nodes_of pc t))"
  note wf = nodes_of_wf [OF assms(1), of t] and plans = UpsertNode_plans [OF assms(1), of t n]
  note up = upserted_law [OF wf(1,2) assms(3)]
  have set: "set ?ns = insert n {m \<in> set (nodes_of pc t). pn_Seq m \<noteq> pn_Seq n}" by (simp only: node_seq.set_SortFunc up(1))
  have new: "seq_sorted ?ns" "distinct (map pn_IDHash ?ns)" "?ns \<noteq> []" "\<forall>m \<in> set ?ns. pn_TopicID m = t"
  proof -
    show "seq_sorted ?ns" by (rule sort_nodes_strict [OF up(2)])
    show "distinct (map pn_IDHash ?ns)" unfolding distinct_ids_sort by (rule up(3))
    show "?ns \<noteq> []" using set by (metis empty_iff empty_set insertI1)
    show "\<forall>m \<in> set ?ns. pn_TopicID m = t" unfolding set using wf(3) assms(2) by blast
  qed
  show "pc_wf ?pc"
    by (rule pc_wf_upd [OF assms(1) plans]) (use agg_wf_of [OF new(3,1,2,4)] in simp)
  then have iff: "pc_view ?pc u s = Some m \<longleftrightarrow> m \<in> set (nodes_of ?pc u) \<and> pn_Seq m = s" for m by (rule pc_view_iff)
  have nodes: "nodes_of ?pc u = (if u = t then ?ns else nodes_of pc u)"
    unfolding nodes_of_def plans by (simp add: agg_of_def)
  show "pc_view ?pc u s = (if u = t \<and> s = pn_Seq n then Some n else pc_view pc u s)"
  proof (rule option_eqI)
    fix m
    show "pc_view ?pc u s = Some m \<longleftrightarrow> (if u = t \<and> s = pn_Seq n then Some n else pc_view pc u s) = Some m"
    proof (cases "u = t")
      case True
      have "m \<in> set ?ns \<and> pn_Seq m = s \<longleftrightarrow> (if s = pn_Seq n then m = n else m \<in> set (nodes_of pc t) \<and> pn_Seq m = s)"
        unfolding set by auto
      moreover have "pc_view ?pc u s = Some m \<longleftrightarrow> m \<in> set ?ns \<and> pn_Seq m = s" using iff [of m] nodes True by simp
      ultimately show ?thesis using pc_view_iff [OF assms(1), of u s m] True by (simp add: eq_commute [of n m])
    next
      case False
      then show ?thesis unfolding iff nodes using pc_view_iff [OF assms(1), of u s m] by simp
    qed
  qed
qed

lemma RemoveNodes_law:
  assumes "pc_wf pc"
  shows "pc_wf (RemoveNodes t ids pc)"
    and "nodes_of (RemoveNodes t ids pc) u = (if u = t then filter (\<lambda>n. pn_IDHash n \<notin> set ids) (nodes_of pc t) else nodes_of pc u)"
proof -
  let ?ns = "filter (\<lambda>n. pn_IDHash n \<notin> set ids) (nodes_of pc t)"
  note wf = nodes_of_wf [OF assms, of t]
  have plans: "map_of (pc_plans (RemoveNodes t ids pc)) = (map_of (pc_plans pc))(t := if ?ns = [] then None else Some (agg_of t ?ns))"
  proof (cases "map_of (pc_plans pc) t")
    case (Some agg)
    then have "pa_TopicID agg = t" using pc_wfD(1) [OF assms Some] by (metis PlanAggregate.select_convs(1) agg_of_def)
    then show ?thesis using Some by (simp add: RemoveNodes_def RecomputePlanAgg_eq nodes_of_def Let_def)
  qed (auto simp: RemoveNodes_def nodes_of_def)
  show "nodes_of (RemoveNodes t ids pc) u = (if u = t then ?ns else nodes_of pc u)"
    by (auto simp: nodes_of_def [of "RemoveNodes t ids pc"] plans agg_of_def) (simp add: nodes_of_def)
  have new: "seq_sorted ?ns" "distinct (map pn_IDHash ?ns)" "\<forall>m \<in> set ?ns. pn_TopicID m = t"
    using wf by (auto simp: seq_sorted_def sorted_wrt_filter distinct_map_filter)
  show "pc_wf (RemoveNodes t ids pc)"
    by (rule pc_wf_upd [OF assms plans]) (use agg_wf_of [OF _ new] in \<open>simp split: if_splits\<close>)
qed

lemma RemoveTopic_law:
  "pc_wf pc \<Longrightarrow> pc_wf (PC_RemoveTopic t pc)" "nodes_of (PC_RemoveTopic t pc) u = (if u = t then [] else nodes_of pc u)"
  by (auto simp: pc_wf_def PC_RemoveTopic_def nodes_of_def)

section \<open>Subtrees\<close>

text \<open>A tree whose steps were each created after the step they hang under.\<close>

definition parents_first :: "PlanNode list \<Rightarrow> bool" where
  "parents_first ns \<longleftrightarrow> (\<forall>n \<in> set ns. pn_ParentSeq n < pn_Seq n)"

lemma plan_kids_rel: "(p, k) \<in> child_rel (plan_kids ns) \<longleftrightarrow> (\<exists>n \<in> set ns. pn_ParentSeq n = p \<and> pn_Seq n = k)"
  by (auto simp: child_rel_def plan_kids_def)

lemma Subtree_law:
  assumes "parents_first (nodes_of pc t)"
  shows "\<exists>out. Subtree pc t root = Some out \<and> sorted out
    \<and> set out = {q. (root, q) \<in> (child_rel (plan_kids (nodes_of pc t)))\<^sup>*}"
proof (cases "map_of (pc_plans pc) t")
  case None
  have "plan_kids [] = (\<lambda>_. [])" by (auto simp: plan_kids_def)
  then have "(child_rel (plan_kids (nodes_of pc t)))\<^sup>* = Id" using None by (simp add: nodes_of_def child_rel_def)
  then show ?thesis using None by (auto simp: Subtree_def)
next
  case (Some agg)
  let ?kids = "plan_kids (nodes_of pc t)"
  have "unat p < unat k \<and> unat k \<le> 2 ^ 32" if "k \<in> set (?kids p)" for p k
  proof -
    have "p < k" using assms that by (auto simp: parents_first_def plan_kids_def)
    then show ?thesis using unsigned_less [of k, where ?'a = nat] by (simp add: word_less_nat_alt)
  qed
  moreover have "length (?kids p) \<le> length (nodes_of pc t)" for p by (simp add: plan_kids_def)
  ultimately obtain r where r: "expand ?kids [root] [root] = Some r" using expand_returns by metis
  have "set r = {q. (root, q) \<in> (child_rel ?kids)\<^sup>*}"
    unfolding expand_reachable [OF r] by (auto simp: rtrancl_eq_or_trancl)
  moreover have "Subtree pc t root = Some (sort r)" using Some r by (simp add: Subtree_def nodes_of_def)
  ultimately show ?thesis by auto
qed

section \<open>The cache agrees with the plan records\<close>

definition pc_mirrors :: "(string \<Rightarrow> u64) \<Rightarrow> StorageEngine \<Rightarrow> u64 \<Rightarrow> PlanCache \<Rightarrow> bool" where
  "pc_mirrors H e a pc \<longleftrightarrow> pc_wf pc
     \<and> (\<forall>t n. n \<in> set (nodes_of pc t) \<longrightarrow> ReadPlanNode e a (pn_IDHash n) = Inr n)
     \<and> (\<forall>i n. ReadPlanNode e a i = Inr n \<longrightarrow> i = HashPlanNode H (pn_TopicID n) (pn_Seq n) \<and> pn_IDHash n = i
          \<and> n \<in> set (nodes_of pc (pn_TopicID n)))"

definition plan_addressed :: "(string \<Rightarrow> u64) \<Rightarrow> StorageEngine \<Rightarrow> u64 \<Rightarrow> bool" where
  "plan_addressed H e a \<longleftrightarrow> (\<forall>i n. ReadPlanNode e a i = Inr n \<longrightarrow> i = HashPlanNode H (pn_TopicID n) (pn_Seq n) \<and> pn_IDHash n = i)"

lemma pc_mirrorsD:
  assumes "pc_mirrors H e a pc"
  shows "pc_wf pc" "n \<in> set (nodes_of pc t) \<Longrightarrow> ReadPlanNode e a (pn_IDHash n) = Inr n"
    "ReadPlanNode e a i = Inr n \<Longrightarrow> i = HashPlanNode H (pn_TopicID n) (pn_Seq n)"
    "ReadPlanNode e a i = Inr n \<Longrightarrow> pn_IDHash n = i"
    "ReadPlanNode e a i = Inr n \<Longrightarrow> n \<in> set (nodes_of pc (pn_TopicID n))"
  using assms unfolding pc_mirrors_def by blast+

lemma ReadPlanNode_typed:
  "engine_rep e m \<Longrightarrow> ReadPlanNode e a i = Inr n \<longleftrightarrow> typed_at unmarshal_plan_node m a RecL5PlanNode i = Some n"
  unfolding ReadPlanNode_def by (rule plan_node.readJSON_typed)

lemma pc_mirrors_node:
  assumes "pc_mirrors H e a pc" "n \<in> set (nodes_of pc t)"
  shows "pn_IDHash n = HashPlanNode H t (pn_Seq n)" "pn_TopicID n = t"
proof -
  show t: "pn_TopicID n = t" using nodes_of_wf(3) [OF pc_mirrorsD(1) [OF assms(1)]] assms(2) by blast
  show "pn_IDHash n = HashPlanNode H t (pn_Seq n)"
    using pc_mirrorsD(3) [OF assms(1) pc_mirrorsD(2) [OF assms]] t by simp
qed

lemma set_CollectAllPlanNodes:
  assumes "engine_rep e m"
  shows "n \<in> set (CollectAllPlanNodes e a) \<longleftrightarrow> (\<exists>i. ReadPlanNode e a i = Inr n)"
proof -
  have "typed_at unmarshal_plan_node m a RecL5PlanNode i = Some n \<Longrightarrow> i \<in> set (IndexByType e a RecL5PlanNode)" for i
    using eng.ids_law [OF assms, of a RecL5PlanNode] by (auto simp: typed_at_def split: option.splits prod.splits if_splits)
  then show ?thesis
    unfolding CollectAllPlanNodes_def plan_node.IterAll_typed [OF assms] ReadPlanNode_typed [OF assms]
    by (auto simp: List.map_filter_def image_iff) force
qed

lemma fold_update_aggs:
  assumes "distinct (map pa_TopicID aggs)"
  shows "map_of (fold (\<lambda>agg m. AList.update (pa_TopicID agg) agg m) aggs m) t =
    (case List.find (\<lambda>agg. pa_TopicID agg = t) aggs of Some agg \<Rightarrow> Some agg | None \<Rightarrow> map_of m t)"
  using assms
proof (induction aggs arbitrary: m)
  case (Cons agg aggs)
  have "List.find (\<lambda>x. pa_TopicID x = pa_TopicID agg) aggs = None"
    using Cons.prems by (auto simp: find_None_iff image_iff)
  then show ?case using Cons by (auto split: option.splits)
qed simp

lemma sorted_distinct_key: "sorted_wrt (\<lambda>a b. (f a :: 'k::linorder) < f b) xs \<Longrightarrow> distinct (map f xs)"
  by (induction xs) (auto simp: image_iff)

lemma buildPlanCache_plans:
  fixes e a t
  defines "ns \<equiv> filter (\<lambda>n. pn_TopicID n = t) (CollectAllPlanNodes e a)"
  shows "map_of (pc_plans (buildPlanCache e a)) t = (if ns = [] then None else Some (agg_of t (sort_nodes ns)))"
proof -
  let ?all = "CollectAllPlanNodes e a" and ?g = "GroupPlanNodes (CollectAllPlanNodes e a)"
  let ?f = "\<lambda>t. agg_of t (sort_nodes (filter (\<lambda>n. pn_TopicID n = t) ?all))"
  have topic: "pa_TopicID (?f u) = u" for u by (simp add: agg_of_def)
  have d: "distinct (map pa_TopicID ?g)" by (rule sorted_distinct_key [OF GroupPlanNodes_spec(1)])
  have plans: "map_of (pc_plans (buildPlanCache e a)) t = List.find (\<lambda>agg. pa_TopicID agg = t) ?g"
    unfolding buildPlanCache_def by (simp add: fold_update_aggs [OF d] split: option.splits)
  show ?thesis
  proof (cases "ns = []")
    case True
    then have "t \<notin> pn_TopicID ` set ?all" unfolding ns_def filter_empty_conv by blast
    then have "\<forall>agg \<in> set ?g. pa_TopicID agg \<noteq> t" unfolding GroupPlanNodes_spec(2) using topic by blast
    then have "List.find (\<lambda>agg. pa_TopicID agg = t) ?g = None" by (simp add: find_None_iff)
    then show ?thesis using True plans by simp
  next
    case False
    then have "t \<in> pn_TopicID ` set ?all" unfolding ns_def filter_empty_conv by blast
    then have "?f t \<in> set ?g" unfolding GroupPlanNodes_spec(2) by (rule imageI)
    then have "List.find (\<lambda>agg. pa_TopicID agg = t) ?g \<noteq> None" using topic by (auto simp: find_None_iff)
    then obtain agg where agg: "List.find (\<lambda>agg. pa_TopicID agg = t) ?g = Some agg" by blast
    then have "agg \<in> set ?g \<and> pa_TopicID agg = t" by (auto simp: find_Some_iff)
    then obtain u where "agg = ?f u" "pa_TopicID agg = t" unfolding GroupPlanNodes_spec(2) by blast
    then have "agg = ?f t" using topic by metis
    then show ?thesis using False plans agg by (simp add: ns_def)
  qed
qed

lemma buildPlanCache_mirrors:
  assumes "engine_rep e m" "plan_addressed H e a"
  shows "pc_mirrors H e a (buildPlanCache e a)"
proof -
  let ?all = "CollectAllPlanNodes e a" and ?pc = "buildPlanCache e a"
  let ?ns = "\<lambda>t. filter (\<lambda>n. pn_TopicID n = t) ?all"
  note all = set_CollectAllPlanNodes [OF assms(1), of _ a]
  have nodes: "nodes_of ?pc t = sort_nodes (?ns t)" for t
    unfolding nodes_of_def buildPlanCache_plans by (cases "?ns t = []") (simp_all add: agg_of_def SortFunc_def)
  have addr: "i = HashPlanNode H (pn_TopicID n) (pn_Seq n)" "pn_IDHash n = i" if "ReadPlanNode e a i = Inr n" for i n
    using assms(2) that unfolding plan_addressed_def by blast+
  have ids: "distinct (map pn_IDHash ?all)"
  proof -
    let ?ty = "typed_at unmarshal_plan_node m a RecL5PlanNode"
    have key: "pn_IDHash n = i" if "?ty i = Some n" for i n using addr(2) that unfolding ReadPlanNode_typed [OF assms(1)] by blast
    have "map pn_IDHash (List.map_filter ?ty js) = filter (\<lambda>i. ?ty i \<noteq> None) js" for js
    proof (induction js)
      case (Cons j js)
      then show ?case using key [of j] by (cases "?ty j") (simp_all add: List.map_filter_simps)
    qed (simp add: List.map_filter_simps)
    then show ?thesis
      using eng.ids_law [OF assms(1), of a RecL5PlanNode]
      by (simp add: CollectAllPlanNodes_def plan_node.IterAll_typed [OF assms(1)])
  qed
  have seqs: "distinct (map pn_Seq (?ns t))" for t
  proof -
    have "inj_on pn_Seq (set (?ns t))"
    proof (rule inj_onI)
      fix x y assume xy: "x \<in> set (?ns t)" "y \<in> set (?ns t)" "pn_Seq x = pn_Seq y"
      then obtain i j where ij: "ReadPlanNode e a i = Inr x" "ReadPlanNode e a j = Inr y" "pn_TopicID x = t" "pn_TopicID y = t"
        using all by auto
      then have "i = j" using addr(1) [OF ij(1)] addr(1) [OF ij(2)] xy(3) by simp
      then show "x = y" using ij(1,2) by simp
    qed
    moreover have "distinct ?all" using ids by (simp add: distinct_map)
    ultimately show ?thesis by (simp add: distinct_map)
  qed
  have "pc_wf ?pc"
    unfolding pc_wf_def
  proof (intro allI impI)
    fix t agg assume "map_of (pc_plans ?pc) t = Some agg"
    then have ne: "?ns t \<noteq> []" and agg: "agg = agg_of t (sort_nodes (?ns t))"
      unfolding buildPlanCache_plans by (auto simp only: option.distinct option.inject split: if_splits)
    show "agg_wf t agg"
      unfolding agg
    proof (rule agg_wf_of)
      show "sort_nodes (?ns t) \<noteq> []" using ne node_seq.length_SortFunc [of "?ns t"] by (metis length_0_conv)
      show "seq_sorted (sort_nodes (?ns t))" by (rule sort_nodes_strict [OF seqs])
      show "distinct (map pn_IDHash (sort_nodes (?ns t)))" unfolding distinct_ids_sort using ids by (rule distinct_map_filter)
      show "\<forall>n \<in> set (sort_nodes (?ns t)). pn_TopicID n = t" unfolding node_seq.set_SortFunc by simp
    qed
  qed
  moreover have "ReadPlanNode e a (pn_IDHash n) = Inr n" if n: "n \<in> set (nodes_of ?pc t)" for t n
  proof -
    obtain i where i: "ReadPlanNode e a i = Inr n" using n all unfolding nodes node_seq.set_SortFunc by auto
    then show ?thesis using addr(2) [OF i] by simp
  qed
  moreover have "n \<in> set (nodes_of ?pc (pn_TopicID n))" if "ReadPlanNode e a i = Inr n" for i n
    using that all unfolding nodes node_seq.set_SortFunc by auto
  ultimately show ?thesis unfolding pc_mirrors_def using addr by blast
qed

end
