(* ===== verification/Domain_Context.thy ===== *)
theory Domain_Context
  imports L4_Correct L2_Meta Plan_Cache
begin

text \<open>
  \<^verbatim>\<open>internal/domain/context.go\<close> and \<^verbatim>\<open>l2meta.go\<close>: one agent domain's state. The model context owns the
  engine (the source shares one engine among the domains through a pointer; an operation of a domain
  runs under its lock and touches its own agent id only). The language model, the defaults, the
  cancellation context and the atomics of the idle sweep are not state of the records and are left out.
\<close>

record Context =
  ctx_ID :: u64
  ctx_Engine :: StorageEngine
  ctx_L2Meta :: L2MetaIndex
  ctx_L4 :: L4Index
  ctx_Plans :: PlanCache
  ctx_Scene :: u64
  ctx_Turn :: u64
  ctx_lastUsedStamp :: i64

definition NewContext :: "u64 \<Rightarrow> StorageEngine \<Rightarrow> Context" where
  "NewContext i engine = \<lparr>ctx_ID = i, ctx_Engine = engine, ctx_L2Meta = BuildL2MetaFromEngine engine i,
     ctx_L4 = BuildL4FromEngine engine i, ctx_Plans = buildPlanCache engine i,
     ctx_Scene = 0, ctx_Turn = 0, ctx_lastUsedStamp = 0\<rparr>"

text \<open>\<^verbatim>\<open>int64\<close> addition wraps around.\<close>

definition i64_wrap :: "int \<Rightarrow> i64" where
  "i64_wrap x = (x + 2 ^ 63) mod 2 ^ 64 - 2 ^ 63"

definition NextUsedStamp :: "i64 \<Rightarrow> Context \<Rightarrow> i64 \<times> Context" where
  "NextUsedStamp now c =
     (let stamp = (if now \<le> ctx_lastUsedStamp c then i64_wrap (ctx_lastUsedStamp c + 1) else now)
      in (stamp, c\<lparr>ctx_lastUsedStamp := stamp\<rparr>))"

definition SyncL2Meta :: "TopicSlot \<Rightarrow> Context \<Rightarrow> Context" where
  "SyncL2Meta topic c = c\<lparr>ctx_L2Meta := L2_Update (L2MetaFromTopic topic) (ctx_L2Meta c)\<rparr>"

definition RemoveTopicsFromIndices :: "u64 list \<Rightarrow> Context \<Rightarrow> Context" where
  "RemoveTopicsFromIndices ids c =
     fold (\<lambda>i c. c\<lparr>ctx_L2Meta := L2_Remove i (ctx_L2Meta c), ctx_Plans := PC_RemoveTopic i (ctx_Plans c)\<rparr>) ids c"

fun retarget_scenes :: "u64 \<Rightarrow> u64 list \<Rightarrow> L2MetaIndex \<Rightarrow> L2MetaIndex option" where
  "retarget_scenes primary [] idx = Some idx"
| "retarget_scenes primary (sid # sids) idx = (case RetargetScene sid primary idx of None \<Rightarrow> None
     | Some idx \<Rightarrow> retarget_scenes primary sids idx)"

definition RetargetL2Meta :: "u64 \<Rightarrow> u64 list \<Rightarrow> Context \<Rightarrow> Context option" where
  "RetargetL2Meta primaryHash removed c = (case retarget_scenes primaryHash removed (ctx_L2Meta c) of None \<Rightarrow> None
     | Some idx \<Rightarrow> Some (c\<lparr>ctx_L2Meta := idx\<rparr>))"

definition ForgetScene :: "u64 \<Rightarrow> Context \<Rightarrow> Context" where
  "ForgetScene sceneID c = (if ctx_Scene c = sceneID then c\<lparr>ctx_Scene := 0, ctx_Turn := 0\<rparr> else c)"

definition MoveScene :: "u64 \<Rightarrow> u64 \<Rightarrow> Context \<Rightarrow> Context" where
  "MoveScene from to c = (if ctx_Scene c = from then c\<lparr>ctx_Scene := to, ctx_Turn := 0\<rparr> else c)"

definition ForgetTurn :: "u64 \<Rightarrow> Context \<Rightarrow> Context" where
  "ForgetTurn topicID c = (if ctx_Turn c = topicID then c\<lparr>ctx_Turn := 0\<rparr> else c)"

section \<open>The caches of a domain agree with its records\<close>

definition domain_inv :: "(string \<Rightarrow> u64) \<Rightarrow> u64 \<Rightarrow> Context \<Rightarrow> bool" where
  "domain_inv H a c \<longleftrightarrow> (\<exists>m. engine_rep (ctx_Engine c) m) \<and> l2_mirrors (ctx_Engine c) a (ctx_L2Meta c)
     \<and> l4_mirrors H (ctx_Engine c) a (ctx_L4 c) \<and> pc_mirrors H (ctx_Engine c) a (ctx_Plans c)"

text \<open>The agreement of a cache depends only on what its own kind of record reads as.\<close>

lemma l2_mirrors_cong: "(\<And>i t. ReadTopicSlot e' a i = Inr t \<longleftrightarrow> ReadTopicSlot e a i = Inr t) \<Longrightarrow> l2_mirrors e' a idx = l2_mirrors e a idx"
  by (simp add: l2_mirrors_def)

lemma l4_mirrors_cong: "(\<And>i x. ReadArchiveSlot e' a i = Inr x \<longleftrightarrow> ReadArchiveSlot e a i = Inr x) \<Longrightarrow> l4_mirrors H e' a idx = l4_mirrors H e a idx"
  by (simp add: l4_mirrors_def)

lemma pc_mirrors_cong: "(\<And>i n. ReadPlanNode e' a i = Inr n \<longleftrightarrow> ReadPlanNode e a i = Inr n) \<Longrightarrow> pc_mirrors H e' a pc = pc_mirrors H e a pc"
  by (simp add: pc_mirrors_def)

lemma domain_invD:
  assumes "domain_inv H a c"
  shows "\<exists>m. engine_rep (ctx_Engine c) m" "l2_mirrors (ctx_Engine c) a (ctx_L2Meta c)"
    "l4_mirrors H (ctx_Engine c) a (ctx_L4 c)" "pc_mirrors H (ctx_Engine c) a (ctx_Plans c)"
  using assms unfolding domain_inv_def by blast+

lemma NewContext_inv:
  assumes "engine_rep e m" "l2_addressed e a" "l4_addressed H e a" "plan_addressed H e a"
  shows "domain_inv H a (NewContext a e)"
  using BuildL2Meta_mirrors [OF assms(1,2)] BuildL4_mirrors [OF assms(1,3)] buildPlanCache_mirrors [OF assms(1,4)] assms(1)
  by (auto simp: domain_inv_def NewContext_def)

lemma i64_wrap_id: "i64_ok x \<Longrightarrow> i64_wrap x = x"
  unfolding i64_wrap_def i64_ok_def by simp

lemma NextUsedStamp_increases:
  assumes "i64_ok (ctx_lastUsedStamp c)" "ctx_lastUsedStamp c \<noteq> 2 ^ 63 - 1" "NextUsedStamp now c = (s, c')"
  shows "ctx_lastUsedStamp c < s" "ctx_lastUsedStamp c' = s" "now \<le> s"
proof -
  have "i64_ok (ctx_lastUsedStamp c + 1)" using assms(1,2) by (auto simp: i64_ok_def)
  then show "ctx_lastUsedStamp c < s" "ctx_lastUsedStamp c' = s" "now \<le> s"
    using assms(3) i64_wrap_id by (auto simp: NextUsedStamp_def Let_def split: if_splits)
qed

lemma RemoveTopics_simps:
  "ctx_Engine (RemoveTopicsFromIndices ids c) = ctx_Engine c" "ctx_L4 (RemoveTopicsFromIndices ids c) = ctx_L4 c"
  "ctx_L2Meta (RemoveTopicsFromIndices ids c) = fold L2_Remove ids (ctx_L2Meta c)"
  "ctx_Plans (RemoveTopicsFromIndices ids c) = fold PC_RemoveTopic ids (ctx_Plans c)"
  unfolding RemoveTopicsFromIndices_def by (induction ids arbitrary: c) simp_all

lemma fold_L2_Remove:
  assumes "l2_wf idx"
  shows "l2_wf (fold L2_Remove ids idx) \<and> L2_Get (fold L2_Remove ids idx) i = (if i \<in> set ids then None else L2_Get idx i)"
  using assms by (induction ids arbitrary: idx) (auto simp: L2_Remove_wf L2_Remove_simps)

lemma fold_PC_RemoveTopic:
  assumes "pc_wf pc"
  shows "pc_wf (fold PC_RemoveTopic ids pc) \<and> nodes_of (fold PC_RemoveTopic ids pc) t = (if t \<in> set ids then [] else nodes_of pc t)"
  using assms by (induction ids arbitrary: pc) (auto simp: RemoveTopic_law)

lemma retarget_scenes_law:
  assumes "l2_wf idx" "p \<notin> set sids"
  shows "\<exists>idx'. retarget_scenes p sids idx = Some idx' \<and> l2_wf idx'
    \<and> (\<forall>i. L2_Get idx' i = map_option (\<lambda>m. if lm_SceneID m \<in> set sids then m\<lparr>lm_SceneID := p\<rparr> else m) (L2_Get idx i))"
  using assms
proof (induction sids arbitrary: idx)
  case (Cons s sids)
  obtain i1 where i1: "RetargetScene s p idx = Some i1" "l2_wf i1"
    "\<forall>i. L2_Get i1 i = map_option (\<lambda>m. if lm_SceneID m = s then m\<lparr>lm_SceneID := p\<rparr> else m) (L2_Get idx i)"
    using RetargetScene_law [OF Cons.prems(1)] by blast
  obtain i2 where i2: "retarget_scenes p sids i1 = Some i2" "l2_wf i2"
    "\<forall>i. L2_Get i2 i = map_option (\<lambda>m. if lm_SceneID m \<in> set sids then m\<lparr>lm_SceneID := p\<rparr> else m) (L2_Get i1 i)"
    using Cons.IH [OF i1(2)] Cons.prems(2) by auto
  have "L2_Get i2 i = map_option (\<lambda>m. if lm_SceneID m \<in> set (s # sids) then m\<lparr>lm_SceneID := p\<rparr> else m) (L2_Get idx i)" for i
    using i1(3) i2(3) Cons.prems(2) by (cases "L2_Get idx i") auto
  then show ?case using i1(1) i2(1,2) by auto
qed (simp add: option.map_ident)

end
