(* ===== verification/L2_Layer.thy ===== *)
theory L2_Layer
  imports Domain_Context
begin

text \<open>
  \<^verbatim>\<open>internal/repo/l2layer.go\<close> and \<^verbatim>\<open>l2layer_topic.go\<close>: the record operations on scenes and topics. Every
  operation takes the engine and returns it, failed or not. The closure of a topic under its children
  is the worklist loop of \<open>Plan_Cache\<close>, which need not end; a listing that would dereference a nil row of
  the topic index is \<open>None\<close>.
\<close>

definition MaxDepth :: byte where "MaxDepth = 4"

text \<open>What the loop of \<open>CompressTopicsL2\<close> collects: the rewritten members and the ids to delete.\<close>

fun sink_members :: "StorageEngine \<Rightarrow> u64 \<Rightarrow> u64 \<Rightarrow> u64 list \<Rightarrow> goerr + RecordEntry list \<times> u64 list" where
  "sink_members engine agentID parentID [] = Inr ([], [])"
| "sink_members engine agentID parentID (i # ids) = (case ReadTopicLenient engine agentID i of
     Inl err \<Rightarrow> if CodeOf err = ErrNotFound then sink_members engine agentID parentID ids
               else Inl (Error ErrIO (Some err))
   | Inr None \<Rightarrow> Inl (NewError ErrIO)
   | Inr (Some topic) \<Rightarrow>
       let topic = topic\<lparr>ts_Depth := ts_Depth topic + 1, ts_ParentID := Some parentID\<rparr> in
       if ts_Depth topic \<ge> MaxDepth
       then (case sink_members engine agentID parentID ids of Inl err \<Rightarrow> Inl err
           | Inr (writes, deletes) \<Rightarrow> Inr (writes, ts_ID topic # deletes))
       else (case TopicEntry agentID topic of Inl err \<Rightarrow> Inl err
           | Inr entry \<Rightarrow> (case sink_members engine agentID parentID ids of Inl err \<Rightarrow> Inl err
               | Inr (writes, deletes) \<Rightarrow> Inr (entry # writes, deletes))))"

definition CompressTopicsL2 :: "u64 \<Rightarrow> u64 list \<Rightarrow> u64 \<Rightarrow> StorageEngine \<Rightarrow> (goerr + unit) \<times> StorageEngine" where
  "CompressTopicsL2 agentID ids parentID engine = (case sink_members engine agentID parentID ids of
     Inl err \<Rightarrow> (Inl err, engine)
   | Inr (writes, deletes) \<Rightarrow> (case WriteRecordBatch writes engine of
       (Inl err, engine) \<Rightarrow> (Inl err, engine)
     | (Inr _, engine) \<Rightarrow> (case DeleteRecordBatch agentID deletes engine of
         (Inl err, engine) \<Rightarrow> (Inl err, engine) | (Inr _, engine) \<Rightarrow> (Inr (), engine))))"

fun RestoreSunkTopicsL2 :: "u64 \<Rightarrow> u64 list \<Rightarrow> u64 \<Rightarrow> StorageEngine \<Rightarrow> (goerr + unit) \<times> StorageEngine" where
  "RestoreSunkTopicsL2 agentID [] parentID engine = (Inr (), engine)"
| "RestoreSunkTopicsL2 agentID (i # ids) parentID engine = (case ReadTopicLenient engine agentID i of
     Inl err \<Rightarrow> if CodeOf err = ErrNotFound then RestoreSunkTopicsL2 agentID ids parentID engine
               else (Inl (Error ErrIO (Some err)), engine)
   | Inr None \<Rightarrow> RestoreSunkTopicsL2 agentID ids parentID engine
   | Inr (Some topic) \<Rightarrow>
       if ts_ParentID topic \<noteq> Some parentID then RestoreSunkTopicsL2 agentID ids parentID engine
       else let topic = (if ts_Depth topic > 1 then topic\<lparr>ts_Depth := ts_Depth topic - 1\<rparr> else topic);
                topic = topic\<lparr>ts_ParentID := None\<rparr>
            in (case WriteTopicSlot agentID (ts_ID topic) topic engine of
                (Inl err, engine) \<Rightarrow> (Inl err, engine)
              | (Inr _, engine) \<Rightarrow> RestoreSunkTopicsL2 agentID ids parentID engine))"

definition TopicIDsBySceneL2 :: "StorageEngine \<Rightarrow> u64 \<Rightarrow> u64 list \<Rightarrow> goerr + u64 list" where
  "TopicIDsBySceneL2 engine agentID sceneIDs = (case CollectAllTopicsStrict engine agentID of Inl err \<Rightarrow> Inl err
     | Inr topics \<Rightarrow> Inr (map ts_ID (filter (\<lambda>t. ts_SceneID t \<in> set sceneIDs) topics)))"

definition DeleteL2Records :: "u64 \<Rightarrow> u64 list \<Rightarrow> StorageEngine \<Rightarrow> (goerr + unit) \<times> StorageEngine" where
  "DeleteL2Records agentID ids engine = (case DeleteRecordBatch agentID ids engine of
     (Inl err, engine) \<Rightarrow> (Inl err, engine) | (Inr _, engine) \<Rightarrow> (Inr (), engine))"

fun topic_writes :: "u64 \<Rightarrow> TopicSlot list \<Rightarrow> goerr + RecordEntry list" where
  "topic_writes agentID [] = Inr []"
| "topic_writes agentID (t # ts) = (case TopicEntry agentID t of Inl err \<Rightarrow> Inl err
     | Inr entry \<Rightarrow> (case topic_writes agentID ts of Inl err \<Rightarrow> Inl err | Inr es \<Rightarrow> Inr (entry # es)))"

definition MergeScenesL2 :: "u64 \<Rightarrow> u64 \<Rightarrow> u64 list \<Rightarrow> StorageEngine \<Rightarrow> (goerr + unit) \<times> StorageEngine" where
  "MergeScenesL2 agentID primaryID secondaryIDs engine = (case CollectAllTopicsStrict engine agentID of
     Inl err \<Rightarrow> (Inl err, engine)
   | Inr topics \<Rightarrow>
       (case topic_writes agentID (map (\<lambda>t. t\<lparr>ts_SceneID := primaryID\<rparr>) (filter (\<lambda>t. ts_SceneID t \<in> set secondaryIDs) topics)) of
          Inl err \<Rightarrow> (Inl err, engine)
        | Inr writes \<Rightarrow> (case WriteRecordBatch writes engine of
            (Inl err, engine) \<Rightarrow> (Inl err, engine)
          | (Inr _, engine) \<Rightarrow> DeleteL2Records agentID secondaryIDs engine)))"

definition OpenSceneTurn :: "u64 \<Rightarrow> u64 \<Rightarrow> i64 \<Rightarrow> StorageEngine \<Rightarrow> (goerr + SceneSlot) \<times> StorageEngine" where
  "OpenSceneTurn agentID sceneID stamp engine = (case ReadSceneSlot engine agentID sceneID of
     Inl err \<Rightarrow> (Inl err, engine)
   | Inr slot \<Rightarrow> let slot = slot\<lparr>ss_TurnSeq := ss_TurnSeq slot + 1, ss_LastUsedAt := stamp\<rparr>
       in (case WriteSceneSlot agentID sceneID slot engine of
           (Inl err, engine) \<Rightarrow> (Inl err, engine) | (Inr _, engine) \<Rightarrow> (Inr slot, engine)))"

definition ListScenesL2 :: "StorageEngine \<Rightarrow> u64 \<Rightarrow> u64 list \<Rightarrow> goerr + SceneSlot list" where
  "ListScenesL2 engine agentID ids = listByID (ReadSceneSlot engine agentID) ids"

definition CreateSceneL2 :: "u64 \<Rightarrow> SceneSlot \<Rightarrow> StorageEngine \<Rightarrow> (goerr + unit) \<times> StorageEngine" where
  "CreateSceneL2 agentID slot engine = (case ReadSceneSlot engine agentID (ss_SceneID slot) of
     Inr _ \<Rightarrow> (Inr (), engine)
   | Inl err \<Rightarrow> if CodeOf err \<noteq> ErrNotFound then (Inl (Error (CodeOf err) (Some err)), engine)
       else WriteSceneSlot agentID (ss_SceneID slot) slot engine)"

definition CollectAllScenesL2 :: "StorageEngine \<Rightarrow> u64 \<Rightarrow> goerr + SceneSlot list" where
  "CollectAllScenesL2 engine agentID = CollectAllStrict unmarshal_scene engine agentID RecL2Scene"

definition topic_kids :: "TopicSlot list \<Rightarrow> u64 \<Rightarrow> u64 list" where
  "topic_kids topics p = map ts_ID (filter (\<lambda>t. ts_ParentID t = Some p) topics)"

definition TopicClosureL2 :: "StorageEngine \<Rightarrow> u64 \<Rightarrow> u64 \<Rightarrow> (goerr + u64 list) option" where
  "TopicClosureL2 engine agentID root = (case CollectAllTopicsStrict engine agentID of Inl err \<Rightarrow> Some (Inl err)
     | Inr topics \<Rightarrow> if root \<notin> ts_ID ` set topics then Some (Inr [])
         else map_option Inr (expand (topic_kids topics) [root] [root]))"

section \<open>Topics\<close>

record TopicListQuery =
  tq_MetaIdx :: L2MetaIndex
  tq_SceneID :: u64
  tq_Depth :: byte

definition compare_listed :: "TopicSlot \<Rightarrow> TopicSlot \<Rightarrow> int" where
  "compare_listed a b =
     (if cmp (ts_UserTimestamp a) (ts_UserTimestamp b) \<noteq> 0 then cmp (ts_UserTimestamp a) (ts_UserTimestamp b)
      else if cmp (ts_Depth a) (ts_Depth b) \<noteq> 0 then cmp (ts_Depth a) (ts_Depth b)
      else cmp (ts_ID a) (ts_ID b))"

definition clamp_depth :: "byte \<Rightarrow> byte" where
  "clamp_depth d = (if d = 0 then 1 else if d > MaxDepth then MaxDepth else d)"

fun all_rows :: "'a option list \<Rightarrow> 'a list option" where
  "all_rows [] = Some []"
| "all_rows (None # rs) = None"
| "all_rows (Some r # rs) = map_option (\<lambda>out. r # out) (all_rows rs)"

definition ListTopicsL2 :: "TopicListQuery \<Rightarrow> TopicSlot list option" where
  "ListTopicsL2 q = (let depth = clamp_depth (tq_Depth q) in
     map_option (\<lambda>rows. SortFunc compare_listed (map ToTopicSlot (filter (\<lambda>m. \<not> lm_Depth m > depth) rows)))
       (all_rows (TopicsByScene (tq_MetaIdx q) (tq_SceneID q))))"

definition RenameTopicL2 :: "u64 \<Rightarrow> u64 \<Rightarrow> string \<Rightarrow> StorageEngine \<Rightarrow> (goerr + TopicSlot) \<times> StorageEngine" where
  "RenameTopicL2 agentID topicID name engine = (case ReadTopicSlot engine agentID topicID of
     Inl err \<Rightarrow> (Inl err, engine)
   | Inr topic \<Rightarrow>
       if ts_Name topic = name then (Inr topic, engine)
       else let topic = topic\<lparr>ts_Name := name\<rparr>
            in (case WriteTopicSlot agentID (ts_ID topic) topic engine of
                (Inl err, engine) \<Rightarrow> (Inl err, engine) | (Inr _, engine) \<Rightarrow> (Inr topic, engine)))"

definition turn_topic :: "u64 \<Rightarrow> u64 \<Rightarrow> string list \<Rightarrow> i64 \<Rightarrow> i64 \<Rightarrow> TopicSlot" where
  "turn_topic sceneHash topicID keywords userTS agentTS =
     \<lparr>ts_ID = topicID, ts_SceneID = sceneHash, ts_ParentID = None, ts_Depth = 1, ts_Name = '''',
      ts_FusedKeywords = keywords, ts_UserTimestamp = userTS, ts_AgentTimestamp = agentTS\<rparr>"

definition CreateTurnTopicL2 :: "u64 \<Rightarrow> u64 \<Rightarrow> u64 \<Rightarrow> string list \<Rightarrow> i64 \<Rightarrow> i64 \<Rightarrow> StorageEngine
    \<Rightarrow> (goerr + TopicSlot) \<times> StorageEngine" where
  "CreateTurnTopicL2 agentID sceneHash topicID keywords userTS agentTS engine =
     (let topic = turn_topic sceneHash topicID keywords userTS agentTS;
          save = (\<lambda>topic. case WriteTopicSlot agentID (ts_ID topic) topic engine of
            (Inl err, engine) \<Rightarrow> (Inl err, engine) | (Inr _, engine) \<Rightarrow> (Inr topic, engine))
      in case ReadTopicLenient engine agentID topicID of
           Inl err \<Rightarrow> if CodeOf err \<noteq> ErrNotFound then (Inl err, engine) else save topic
         | Inr None \<Rightarrow> (Inl (NewError ErrIO), engine)
         | Inr (Some stored) \<Rightarrow>
             save (topic\<lparr>ts_Name := ts_Name stored, ts_Depth := ts_Depth stored, ts_ParentID := ts_ParentID stored\<rparr>))"

definition CreateFusedTopicL2 :: "(string \<Rightarrow> u64) \<Rightarrow> u64 \<Rightarrow> u64 \<Rightarrow> string list \<Rightarrow> i64 \<Rightarrow> i64 \<Rightarrow> u64 list \<Rightarrow> StorageEngine
    \<Rightarrow> (goerr + unit) \<times> StorageEngine" where
  "CreateFusedTopicL2 H agentID sceneID fusedKeywords userTS agentTS members engine =
     (let topic = turn_topic sceneID (ComputeFusedTopicID H sceneID userTS agentTS members) fusedKeywords userTS agentTS
      in WriteTopicSlot agentID (ts_ID topic) topic engine)"

end
