(* ===== verification/L3_Layer.thy ===== *)
theory L3_Layer
  imports Typed_Records Go_Slices
begin

text \<open>
  \<^verbatim>\<open>internal/repo/l3layer.go\<close>: the knowledge graphs. All of them live in the shared domain of the file,
  and every id is derived from text the host supplies, so a create first asks whether its address is
  free. The clock is an argument.
\<close>

definition ReadSharedGraphL3 :: "StorageEngine \<Rightarrow> u64 \<Rightarrow> goerr + HypergraphSlot" where
  "ReadSharedGraphL3 engine graphID = ReadGraphSlot engine SharedPoolAgentID graphID"

definition l3AddressFree :: "StorageEngine \<Rightarrow> u64 \<Rightarrow> u64 \<Rightarrow> goerr + unit" where
  "l3AddressFree engine agentID i = (if Contains engine agentID i then Inl (NewError ErrInvalidQuery) else Inr ())"

text \<open>\<^verbatim>\<open>fmt.Sprintf("%v:%d", nodeIDs, kind)\<close>: the ids in brackets, separated by blanks, then the kind.\<close>

fun spaced :: "string list \<Rightarrow> string" where
  "spaced [] = ''''"
| "spaced [s] = s"
| "spaced (s # ss) = s @ '' '' @ spaced ss"

definition EdgeKeyL3 :: "u64 list \<Rightarrow> byte \<Rightarrow> string" where
  "EdgeKeyL3 nodeIDs kind = ''['' @ spaced (map dec_word nodeIDs) @ '']:'' @ dec_word kind"

definition NodeIDL3 :: "(string \<Rightarrow> u64) \<Rightarrow> u64 \<Rightarrow> string \<Rightarrow> u64" where
  "NodeIDL3 H graphID title = H (FormatHash graphID @ '':'' @ title)"

definition edge_id :: "(string \<Rightarrow> u64) \<Rightarrow> u64 \<Rightarrow> byte \<Rightarrow> u64 list \<Rightarrow> u64" where
  "edge_id H graphID kind nodeIDs = H (FormatHash graphID @ '':'' @ EdgeKeyL3 nodeIDs kind)"

section \<open>Writing\<close>

text \<open>The common tail of the three creates: refuse a taken address, write, answer the id.\<close>

definition create_at :: "u64 \<Rightarrow> u64 \<Rightarrow> (StorageEngine \<Rightarrow> (goerr + unit) \<times> StorageEngine) \<Rightarrow> StorageEngine
    \<Rightarrow> (goerr + u64) \<times> StorageEngine" where
  "create_at agentID i wr engine = (case l3AddressFree engine agentID i of Inl err \<Rightarrow> (Inl err, engine)
     | Inr _ \<Rightarrow> (case wr engine of (Inl err, engine) \<Rightarrow> (Inl err, engine) | (Inr _, engine) \<Rightarrow> (Inr i, engine)))"

definition CreateEdgeL3 :: "(string \<Rightarrow> u64) \<Rightarrow> i64 \<Rightarrow> u64 \<Rightarrow> u64 \<Rightarrow> byte \<Rightarrow> u64 list \<Rightarrow> StorageEngine \<Rightarrow> (goerr + u64) \<times> StorageEngine" where
  "CreateEdgeL3 H now agentID graphID kind nodeIDs engine =
     (let edgeID = edge_id H graphID kind nodeIDs
      in create_at agentID edgeID (WriteHypergraphEdge agentID edgeID
           \<lparr>he_IDHash = edgeID, he_GraphID = graphID, he_Kind = kind, he_NodeIDs = nodeIDs, he_CreatedAt = now\<rparr>) engine)"

definition createGraphL3 :: "(string \<Rightarrow> u64) \<Rightarrow> i64 \<Rightarrow> u64 \<Rightarrow> string \<Rightarrow> StorageEngine \<Rightarrow> (goerr + u64) \<times> StorageEngine" where
  "createGraphL3 H now agentID name engine =
     (let graphID = H name
      in create_at agentID graphID (WriteGraphSlot agentID graphID
           \<lparr>hs_IDHash = graphID, hs_Name = name, hs_CreatedAt = now, hs_UpdatedAt = now\<rparr>) engine)"

definition EnsureGraphL3 :: "(string \<Rightarrow> u64) \<Rightarrow> i64 \<Rightarrow> u64 \<Rightarrow> string \<Rightarrow> StorageEngine \<Rightarrow> (goerr + u64) \<times> StorageEngine" where
  "EnsureGraphL3 H now agentID name engine = (case ReadGraphSlot engine agentID (H name) of
     Inr slot \<Rightarrow> (Inr (hs_IDHash slot), engine)
   | Inl err \<Rightarrow> if CodeOf err \<noteq> ErrNotFound then (Inl err, engine) else createGraphL3 H now agentID name engine)"

definition CreateNodeL3 :: "(string \<Rightarrow> u64) \<Rightarrow> i64 \<Rightarrow> u64 \<Rightarrow> u64 \<Rightarrow> string \<Rightarrow> string \<Rightarrow> string \<Rightarrow> string list \<Rightarrow> string \<Rightarrow> StorageEngine
    \<Rightarrow> (goerr + u64) \<times> StorageEngine" where
  "CreateNodeL3 H now agentID graphID title nodeType content keywords sourceRef engine =
     (let nodeID = NodeIDL3 H graphID title
      in create_at agentID nodeID (WriteHypergraphNode agentID nodeID
           \<lparr>hn_IDHash = nodeID, hn_GraphID = graphID, hn_Title = title, hn_NodeType = nodeType, hn_Content = content,
            hn_Keywords = keywords, hn_SourceRef = (if sourceRef \<noteq> '''' then Some sourceRef else None),
            hn_CreatedAt = now, hn_UpdatedAt = now\<rparr>) engine)"

definition UpdateGraphL3 :: "i64 \<Rightarrow> u64 \<Rightarrow> u64 \<Rightarrow> string option \<Rightarrow> StorageEngine \<Rightarrow> (goerr + HypergraphSlot) \<times> StorageEngine" where
  "UpdateGraphL3 now agentID i name engine = (case ReadGraphSlot engine agentID i of
     Inl err \<Rightarrow> (Inl err, engine)
   | Inr slot \<Rightarrow>
       let slot = (case name of None \<Rightarrow> slot | Some n \<Rightarrow> slot\<lparr>hs_Name := n\<rparr>);
           slot = slot\<lparr>hs_UpdatedAt := now\<rparr>
       in (case WriteGraphSlot agentID i slot engine of
           (Inl err, engine) \<Rightarrow> (Inl err, engine) | (Inr _, engine) \<Rightarrow> (Inr slot, engine)))"

definition MutateNodeL3 :: "(string \<Rightarrow> u64) \<Rightarrow> u64 \<Rightarrow> u64 \<Rightarrow> string \<Rightarrow> (HypergraphNode \<Rightarrow> HypergraphNode) \<Rightarrow> StorageEngine
    \<Rightarrow> (goerr + u64) \<times> StorageEngine" where
  "MutateNodeL3 H agentID graphID title mutate engine =
     (let nodeID = NodeIDL3 H graphID title in
      case ReadHypergraphNode engine agentID nodeID of
        Inl err \<Rightarrow> (Inl err, engine)
      | Inr node \<Rightarrow>
          if hn_GraphID node \<noteq> graphID then (Inl (NewError ErrNotFound), engine)
          else (case WriteHypergraphNode agentID nodeID (mutate node) engine of
              (Inl err, engine) \<Rightarrow> (Inl err, engine) | (Inr _, engine) \<Rightarrow> (Inr nodeID, engine)))"

definition DeleteGraphL3 :: "u64 \<Rightarrow> u64 \<Rightarrow> StorageEngine \<Rightarrow> (goerr + unit) \<times> StorageEngine" where
  "DeleteGraphL3 agentID i engine = (case CollectAllStrict unmarshal_graph_node engine agentID RecL3GraphNode of
     Inl err \<Rightarrow> (Inl err, engine)
   | Inr nodes \<Rightarrow> (case CollectAllStrict unmarshal_graph_edge engine agentID RecL3GraphEdge of
       Inl err \<Rightarrow> (Inl err, engine)
     | Inr edges \<Rightarrow>
         let targets = map hn_IDHash (filter (\<lambda>n. hn_GraphID n = i) nodes) @ map he_IDHash (filter (\<lambda>e. he_GraphID e = i) edges) @ [i]
         in (case DeleteRecordBatch agentID targets engine of
             (Inl err, engine) \<Rightarrow> (Inl err, engine) | (Inr _, engine) \<Rightarrow> (Inr (), engine))))"

section \<open>Reading\<close>

definition ListNodeL3 :: "StorageEngine \<Rightarrow> u64 \<Rightarrow> u64 \<Rightarrow> goerr + HypergraphNode list" where
  "ListNodeL3 engine agentID graphID = (case CollectAllStrict unmarshal_graph_node engine agentID RecL3GraphNode of
     Inl err \<Rightarrow> Inl err
   | Inr all \<Rightarrow> Inr (SortFunc (\<lambda>a b. cmp (hn_IDHash a) (hn_IDHash b)) (filter (\<lambda>n. hn_GraphID n = graphID) all)))"

definition ListEdgeL3 :: "StorageEngine \<Rightarrow> u64 \<Rightarrow> u64 \<Rightarrow> goerr + HypergraphEdge list" where
  "ListEdgeL3 engine agentID graphID = (case CollectAllStrict unmarshal_graph_edge engine agentID RecL3GraphEdge of
     Inl err \<Rightarrow> Inl err
   | Inr all \<Rightarrow> Inr (SortFunc (\<lambda>a b. cmp (he_IDHash a) (he_IDHash b)) (filter (\<lambda>e. he_GraphID e = graphID) all)))"

end
