(* ===== verification/Scene.thy ===== *)
theory Scene
  imports L2_Layer L3_Layer
begin

text \<open>
  \<^verbatim>\<open>internal/scene\<close> and the gate of \<^verbatim>\<open>internal/turn\<close>: which scene a read resumes, how a scene is created and
  deleted with what it owns, what its surface shows, and which topics a turn may settle into. The random
  source is an argument, the list of its draws; a loop that has not ended when they are used up is
  \<open>None\<close>, and so is one that does not end at all.
\<close>

text \<open>\<^verbatim>\<open>slices.MaxFunc\<close> and \<^verbatim>\<open>slices.MinFunc\<close> on a non-empty slice: the first of the extreme elements.\<close>

definition MaxFunc :: "('a \<Rightarrow> 'a \<Rightarrow> int) \<Rightarrow> 'a list \<Rightarrow> 'a" where
  "MaxFunc c xs = fold (\<lambda>x m. if c x m > 0 then x else m) (tl xs) (hd xs)"

definition MinFunc :: "('a \<Rightarrow> 'a \<Rightarrow> int) \<Rightarrow> 'a list \<Rightarrow> 'a" where
  "MinFunc c xs = fold (\<lambda>x m. if c x m < 0 then x else m) (tl xs) (hd xs)"

definition compare_resumed :: "SceneSlot \<Rightarrow> SceneSlot \<Rightarrow> int" where
  "compare_resumed a b =
     (if cmp (ss_LastUsedAt a) (ss_LastUsedAt b) \<noteq> 0 then cmp (ss_LastUsedAt a) (ss_LastUsedAt b)
      else if cmp (ss_TurnSeq a) (ss_TurnSeq b) \<noteq> 0 then cmp (ss_TurnSeq a) (ss_TurnSeq b)
      else - cmp (ss_SceneID a) (ss_SceneID b))"

definition CurrentScene :: "StorageEngine \<Rightarrow> u64 \<Rightarrow> goerr + u64" where
  "CurrentScene engine agentID = (case CollectAllScenesL2 engine agentID of Inl err \<Rightarrow> Inl err
     | Inr scenes \<Rightarrow> if length scenes = 0 then Inr 0 else Inr (ss_SceneID (MaxFunc compare_resumed scenes)))"

definition ResolveExisting :: "StorageEngine \<Rightarrow> u64 \<Rightarrow> u64 \<Rightarrow> bool \<Rightarrow> goerr + u64" where
  "ResolveExisting engine agentID sceneID anchored = (case ReadSceneSlot engine agentID sceneID of Inl err \<Rightarrow> Inl err
     | Inr slot \<Rightarrow> if anchored then Inl (NewError ErrInvalidQuery) else Inr (ss_SceneID slot))"

fun freshID :: "StorageEngine \<Rightarrow> u64 \<Rightarrow> (goerr + bytes) list \<Rightarrow> (goerr + u64) option" where
  "freshID engine agentID [] = None"
| "freshID engine agentID (Inl err # draws) = Some (Inl (Error ErrIO (Some err)))"
| "freshID engine agentID (Inr b # draws) =
     (let i = get_u64 b in
      if i = 0 then freshID engine agentID draws
      else case ReadSceneSlot engine agentID i of
          Inl err \<Rightarrow> if CodeOf err \<noteq> ErrNotFound then Some (Inl err) else Some (Inr i)
        | Inr _ \<Rightarrow> freshID engine agentID draws)"

definition create_scene :: "u64 \<Rightarrow> u64 \<Rightarrow> i64 \<Rightarrow> (goerr + bytes) list \<Rightarrow> StorageEngine \<Rightarrow> ((goerr + u64) \<times> StorageEngine) option" where
  "create_scene agentID anchor stamp draws engine = (case freshID engine agentID draws of None \<Rightarrow> None
     | Some (Inl err) \<Rightarrow> Some (Inl err, engine)
     | Some (Inr i) \<Rightarrow>
         let slot = (NewSceneSlot stamp i (''session:'' @ FormatHash i))\<lparr>ss_LastUsedAt := stamp, ss_L3ID := anchor\<rparr>
         in (case CreateSceneL2 agentID slot engine of
             (Inl err, engine) \<Rightarrow> Some (Inl err, engine)
           | (Inr _, engine) \<Rightarrow> Some (Inr (ss_SceneID slot), engine)))"

definition Create_Scene :: "u64 \<Rightarrow> u64 \<Rightarrow> i64 \<Rightarrow> (goerr + bytes) list \<Rightarrow> StorageEngine \<Rightarrow> ((goerr + u64) \<times> StorageEngine) option" where
  "Create_Scene agentID anchor stamp draws engine =
     (if anchor \<noteq> 0
      then (case ReadSharedGraphL3 engine anchor of Inl err \<Rightarrow> Some (Inl err, engine)
          | Inr g \<Rightarrow> create_scene agentID (hs_IDHash g) stamp draws engine)
      else create_scene agentID anchor stamp draws engine)"

section \<open>Deleting\<close>

definition DeleteCascade :: "(string \<Rightarrow> u64) \<Rightarrow> u64 \<Rightarrow> u64 list \<Rightarrow> u64 list \<Rightarrow> Context \<Rightarrow> (goerr + unit) \<times> Context" where
  "DeleteCascade H agentID scenes topics ac = (case PlanNodeIDsByTopicIDs (ctx_Engine ac) agentID topics of
     Inl err \<Rightarrow> (Inl err, ac)
   | Inr planNodes \<Rightarrow> (case DeleteTopicArchives agentID topics (ctx_Engine ac) (ctx_L4 ac) of
       (Inl err, engine, l4) \<Rightarrow> (Inl err, ac\<lparr>ctx_Engine := engine, ctx_L4 := l4\<rparr>)
     | (Inr _, engine, l4) \<Rightarrow>
         let ac = ac\<lparr>ctx_Engine := engine, ctx_L4 := l4\<rparr>
         in (case DeletePlanNodesByIDs agentID planNodes (ctx_Engine ac) of
             (Inl err, engine) \<Rightarrow> (Inl err, ac\<lparr>ctx_Engine := engine\<rparr>)
           | (Inr _, engine) \<Rightarrow>
               let ac = ac\<lparr>ctx_Engine := engine\<rparr>
               in (case DeleteL2Records agentID (topics @ scenes) (ctx_Engine ac) of
                   (Inl err, engine) \<Rightarrow> (Inl err, ac\<lparr>ctx_Engine := engine\<rparr>)
                 | (Inr _, engine) \<Rightarrow> (Inr (), RemoveTopicsFromIndices topics (ac\<lparr>ctx_Engine := engine\<rparr>))))))"

text \<open>The rewrites of \<open>DetachGraph\<close> go on past a failure; the failures come back joined.\<close>

fun detach_scenes :: "u64 \<Rightarrow> u64 \<Rightarrow> SceneSlot list \<Rightarrow> StorageEngine \<Rightarrow> goerr list \<times> StorageEngine" where
  "detach_scenes agentID graphID [] engine = ([], engine)"
| "detach_scenes agentID graphID (slot # rest) engine =
     (if ss_L3ID slot \<noteq> graphID then detach_scenes agentID graphID rest engine
      else (case WriteSceneSlot agentID (ss_SceneID slot) (slot\<lparr>ss_L3ID := 0\<rparr>) engine of
          (Inl err, engine) \<Rightarrow> (case detach_scenes agentID graphID rest engine of (errs, engine) \<Rightarrow> (err # errs, engine))
        | (Inr _, engine) \<Rightarrow> detach_scenes agentID graphID rest engine))"

definition join_errors :: "goerr list \<Rightarrow> goerr + unit" where
  "join_errors errs = (if errs = [] then Inr () else Inl (Joined errs))"

definition DetachGraph :: "u64 \<Rightarrow> u64 \<Rightarrow> StorageEngine \<Rightarrow> (goerr + unit) \<times> StorageEngine" where
  "DetachGraph agentID graphID engine = (case CollectAllScenesL2 engine agentID of Inl err \<Rightarrow> (Inl err, engine)
     | Inr scenes \<Rightarrow> (case detach_scenes agentID graphID scenes engine of (errs, engine) \<Rightarrow> (join_errors errs, engine)))"

section \<open>The surface of a scene\<close>

definition SurfaceTopics :: "Context \<Rightarrow> u64 \<Rightarrow> TopicSlot list option" where
  "SurfaceTopics ac sceneID = map_option (\<lambda>rows. SortFunc CompareTopicOrder (map ToTopicSlot (filter (\<lambda>m. \<not> lm_Depth m \<noteq> 1) rows)))
     (all_rows (TopicsByScene (ctx_L2Meta ac) sceneID))"

record SceneMessage =
  sm_Role :: byte
  sm_Type :: byte
  sm_Content :: string
  sm_Seq :: u64
  sm_CreatedAt :: i64

record SceneContextTopic =
  sc_TopicID :: string
  sc_Depth :: nat
  sc_Name :: string
  sc_Keywords :: "string list"
  sc_Messages :: "SceneMessage list"
  sc_ChildCount :: nat
  sc_UserTimestamp :: i64
  sc_AgentTimestamp :: i64

definition ContextTopic :: "TopicSlot \<Rightarrow> (u64 \<Rightarrow> nat) \<Rightarrow> ArchiveSlot list \<Rightarrow> SceneContextTopic" where
  "ContextTopic t children utterances =
     \<lparr>sc_TopicID = FormatHash (ts_ID t), sc_Depth = unat (ts_Depth t), sc_Name = ts_Name t, sc_Keywords = ts_FusedKeywords t,
      sc_Messages = map (\<lambda>arc. \<lparr>sm_Role = as_Role arc, sm_Type = as_ContentType arc, sm_Content = as_Content arc,
        sm_Seq = as_Seq arc, sm_CreatedAt = as_CreatedAt arc\<rparr>) utterances,
      sc_ChildCount = children (ts_ID t), sc_UserTimestamp = ts_UserTimestamp t, sc_AgentTimestamp = ts_AgentTimestamp t\<rparr>"

section \<open>The turns a scene opened\<close>

partial_function (option) settle_loop :: "(string \<Rightarrow> u64) \<Rightarrow> u64 \<Rightarrow> u64 \<Rightarrow> u64 \<Rightarrow> u64 \<Rightarrow> (goerr + unit) option" where
  "settle_loop H sceneID topicID turnSeq s =
     (if \<not> s \<le> turnSeq then Some (Inl (NewError ErrInvalidQuery))
      else if ComputeTurnTopicID H sceneID s = topicID then Some (Inr ())
      else settle_loop H sceneID topicID turnSeq (s + 1))"

definition SettleTarget :: "(string \<Rightarrow> u64) \<Rightarrow> u64 \<Rightarrow> u64 \<Rightarrow> u64 \<Rightarrow> (goerr + unit) option" where
  "SettleTarget H sceneID topicID turnSeq = settle_loop H sceneID topicID turnSeq 1"

end
