(* ===== verification/Cascade.thy ===== *)
theory Cascade
  imports Scene
begin

text \<open>
  What the scene and topic operations guarantee: the strict scan answers exactly the readable records of
  its kind; the delete cascade removes the named topics and scenes with all content and plan nodes the
  topics own and nothing else, and leaves the caches mirroring the records; merging scenes retargets
  exactly the topics of the merged scenes.
\<close>

section \<open>Strict scans\<close>

context slot_codec
begin

lemma CollectAllStrict_ok:
  assumes "engine_rep e m" "CollectAllStrict unmarshal e a rt = Inr out"
  shows "out = map (\<lambda>i. the (typed_at unmarshal m a rt i)) (IndexByType e a rt)"
    and "i \<in> set (IndexByType e a rt) \<longleftrightarrow> typed_at unmarshal m a rt i \<noteq> None"
    and "set out = {x. \<exists>i. typed_at unmarshal m a rt i = Some x}"
proof -
  note ids = eng.ids_law [OF assms(1), of a rt]
  have all: "typed_at unmarshal m a rt i \<noteq> None" if "m (a, i) = Some (rt, d)" for i d
    using CollectAllStrict_law(2) [OF assms(1) that] assms(2) by auto
  then show out: "out = map (\<lambda>i. the (typed_at unmarshal m a rt i)) (IndexByType e a rt)"
    using CollectAllStrict_law(1) [OF assms(1), of a rt] assms(2) by auto
  have "typed_at unmarshal m a rt i \<noteq> None \<Longrightarrow> \<exists>d. m (a, i) = Some (rt, d)" for i
    by (auto simp: typed_at_def split: option.splits prod.splits if_splits)
  then show mem: "i \<in> set (IndexByType e a rt) \<longleftrightarrow> typed_at unmarshal m a rt i \<noteq> None" for i
    using ids all by blast
  have "x \<in> set out \<longleftrightarrow> (\<exists>i. typed_at unmarshal m a rt i = Some x)" for x
    unfolding out set_map image_iff using mem by (metis option.collapse option.sel option.distinct(1))
  then show "set out = {x. \<exists>i. typed_at unmarshal m a rt i = Some x}" by blast
qed

end

lemma topics_scan:
  assumes "engine_rep e m" "CollectAllTopicsStrict e a = Inr ts"
  shows "set ts = {t. \<exists>i. ReadTopicSlot e a i = Inr t}"
  using topic.CollectAllStrict_ok(3) [OF assms(1)] assms(2) unfolding CollectAllTopicsStrict_def ReadTopicSlot_typed [OF assms(1)] by blast

lemma plan_nodes_scan:
  assumes "engine_rep e m" "CollectAllPlanNodesStrict e a = Inr ns"
  shows "set ns = {n. \<exists>i. ReadPlanNode e a i = Inr n}"
  using plan_node.CollectAllStrict_ok(3) [OF assms(1)] assms(2) unfolding CollectAllPlanNodesStrict_def ReadPlanNode_typed [OF assms(1)] by blast

section \<open>Deleting what topics own\<close>

lemma pc_mirrors_delete:
  assumes mir: "pc_mirrors H e a pc" and wf: "pc_wf pc'"
    and nodes: "\<And>t. nodes_of pc' t = (if t \<in> ts then [] else nodes_of pc t)"
    and read: "\<And>i n. ReadPlanNode e' a i = Inr n \<longleftrightarrow> ReadPlanNode e a i = Inr n \<and> pn_TopicID n \<notin> ts"
  shows "pc_mirrors H e' a pc'"
  unfolding pc_mirrors_def
proof (intro conjI allI impI wf)
  fix t n assume "n \<in> set (nodes_of pc' t)"
  then have "t \<notin> ts" "n \<in> set (nodes_of pc t)" using nodes [of t] by (auto split: if_splits)
  then show "ReadPlanNode e' a (pn_IDHash n) = Inr n"
    using read pc_mirrorsD(2) [OF mir] pc_mirrors_node(2) [OF mir] by blast
next
  fix i n assume "ReadPlanNode e' a i = Inr n"
  then have r: "ReadPlanNode e a i = Inr n" "pn_TopicID n \<notin> ts" using read by blast+
  show "i = HashPlanNode H (pn_TopicID n) (pn_Seq n)" "pn_IDHash n = i" "n \<in> set (nodes_of pc' (pn_TopicID n))"
    using pc_mirrorsD(3-5) [OF mir r(1)] r(2) nodes by auto
qed

lemma l2_mirrors_delete:
  assumes "l2_mirrors e a idx" "\<And>i t. ReadTopicSlot e' a i = Inr t \<longleftrightarrow> ReadTopicSlot e a i = Inr t \<and> i \<notin> set ids"
  shows "l2_mirrors e' a (fold L2_Remove ids idx)"
  using fold_L2_Remove [OF l2_mirrorsD(1) [OF assms(1)], of ids] l2_mirrorsD(2) [OF assms(1)] assms(2)
  by (auto simp: l2_mirrors_def)

lemma typed_kind: "typed_at unmarshal m a rt i = Some x \<Longrightarrow> \<exists>d. m (a, i) = Some (rt, d)"
  by (auto simp: typed_at_def split: option.splits prod.splits if_splits)

lemma DeleteL2Records_law:
  assumes "engine_rep e m" "engine_room e (RecordHeaderSize * length ids + n)"
  shows "\<exists>e'. DeleteL2Records a ids e = (Inr (), e') \<and> engine_rep e' (del_all a ids m) \<and> engine_room e' n"
  using eng.delete_law [OF assms, of a] by (elim exE conjE) (simp add: DeleteL2Records_def)

lemma DeletePlanNodesByIDs_law:
  assumes "engine_rep e m" "engine_room e (RecordHeaderSize * length ids + n)"
  shows "\<exists>e'. DeletePlanNodesByIDs a ids e = (Inr (), e') \<and> engine_rep e' (del_all a ids m) \<and> engine_room e' n"
  using eng.delete_law [OF assms, of a] by (elim exE conjE) (simp add: DeletePlanNodesByIDs_def)

lemma PlanNodeIDsByTopicIDs_ids:
  assumes "engine_rep e m" "pc_mirrors H e a pc" "PlanNodeIDsByTopicIDs e a ts = Inr ids" "ReadPlanNode e a i = Inr n"
  shows "i \<in> set ids \<longleftrightarrow> pn_TopicID n \<in> set ts"
proof (cases "ts = []")
  case False
  then obtain ns where ns: "CollectAllPlanNodesStrict e a = Inr ns" "ids = map pn_IDHash (filter (\<lambda>n. pn_TopicID n \<in> set ts) ns)"
    using assms(3) by (auto simp: PlanNodeIDsByTopicIDs_def split: sum.splits)
  note scan = plan_nodes_scan [OF assms(1) ns(1)] and i = pc_mirrorsD(4) [OF assms(2)]
  have "k = n" if "ReadPlanNode e a j = Inr k" "pn_IDHash k = i" for j k using that i assms(4) by fastforce
  then show ?thesis using scan i assms(4) unfolding ns(2) by auto
qed (use assms(3) in \<open>auto simp: PlanNodeIDsByTopicIDs_def\<close>)

lemma PlanNodeIDsByTopicIDs_kind:
  assumes "engine_rep e m" "pc_mirrors H e a pc" "PlanNodeIDsByTopicIDs e a ts = Inr ids" "i \<in> set ids"
  shows "\<exists>n. ReadPlanNode e a i = Inr n"
proof -
  obtain ns where ns: "CollectAllPlanNodesStrict e a = Inr ns" "ids = map pn_IDHash (filter (\<lambda>n. pn_TopicID n \<in> set ts) ns)"
    using assms(3,4) by (auto simp: PlanNodeIDsByTopicIDs_def split: sum.splits if_splits)
  then obtain n where n: "n \<in> set ns" "pn_IDHash n = i" using assms(4) by auto
  then obtain j where "ReadPlanNode e a j = Inr n" using plan_nodes_scan [OF assms(1) ns(1)] by blast
  then show ?thesis using pc_mirrorsD(4) [OF assms(2)] n(2) by metis
qed

text \<open>
  The cascade. Of the ids it is given, the topics must not address a record of another kind than a topic
  and the scenes none of another kind than a scene, and the tombstones must fit into the file.
\<close>

definition cascade_ready :: "u64 \<Rightarrow> u64 list \<Rightarrow> u64 list \<Rightarrow> u64 list \<Rightarrow> Context \<Rightarrow> nat \<Rightarrow> bool" where
  "cascade_ready a scenes topics planNodes c k \<longleftrightarrow>
     PlanNodeIDsByTopicIDs (ctx_Engine c) a topics = Inr planNodes
   \<and> (\<forall>i \<in> set topics. own_kind (ctx_Engine c) a RecL2Topic i) \<and> (\<forall>i \<in> set scenes. own_kind (ctx_Engine c) a RecL2Scene i)
   \<and> engine_room (ctx_Engine c) (RecordHeaderSize * length (DedupSorted (concat (map (AllIDs (ctx_L4 c)) topics)))
        + (RecordHeaderSize * length planNodes + (RecordHeaderSize * length (topics @ scenes) + k)))"

lemma cascade_readyD:
  assumes "cascade_ready a scenes topics planNodes c k"
  shows "PlanNodeIDsByTopicIDs (ctx_Engine c) a topics = Inr planNodes"
    "i \<in> set topics \<Longrightarrow> own_kind (ctx_Engine c) a RecL2Topic i" "i \<in> set scenes \<Longrightarrow> own_kind (ctx_Engine c) a RecL2Scene i"
    "engine_room (ctx_Engine c) (RecordHeaderSize * length (DedupSorted (concat (map (AllIDs (ctx_L4 c)) topics)))
        + (RecordHeaderSize * length planNodes + (RecordHeaderSize * length (topics @ scenes) + k)))"
  using assms unfolding cascade_ready_def by blast+

lemma kinds_distinct:
  "RecL2Topic \<noteq> RecL2Scene" "RecL2Topic \<noteq> RecL4Archive" "RecL2Topic \<noteq> RecL5PlanNode" "RecL2Scene \<noteq> RecL4Archive"
  "RecL2Scene \<noteq> RecL5PlanNode" "RecL4Archive \<noteq> RecL5PlanNode" "RecL2Topic \<noteq> 0" "RecL2Scene \<noteq> 0" "RecL4Archive \<noteq> 0" "RecL5PlanNode \<noteq> 0"
  by (simp_all add: RecL2Topic_def RecL2Scene_def RecL4Archive_def RecL5PlanNode_def)

lemma ReadSceneSlot_typed:
  "engine_rep e m \<Longrightarrow> ReadSceneSlot e a i = Inr t \<longleftrightarrow> typed_at unmarshal_scene m a RecL2Scene i = Some t"
  unfolding ReadSceneSlot_def by (rule scene.readJSON_typed)

lemma DeleteCascade_law:
  assumes inv: "domain_inv H a c" and ready: "cascade_ready a scenes topics planNodes c k"
  shows "\<exists>c'. DeleteCascade H a scenes topics c = (Inr (), c') \<and> domain_inv H a c' \<and> engine_room (ctx_Engine c') k
    \<and> (\<forall>i t. ReadTopicSlot (ctx_Engine c') a i = Inr t \<longleftrightarrow> ReadTopicSlot (ctx_Engine c) a i = Inr t \<and> i \<notin> set topics)
    \<and> (\<forall>i s. ReadSceneSlot (ctx_Engine c') a i = Inr s \<longleftrightarrow> ReadSceneSlot (ctx_Engine c) a i = Inr s \<and> i \<notin> set scenes)
    \<and> (\<forall>i x. ReadArchiveSlot (ctx_Engine c') a i = Inr x \<longleftrightarrow> ReadArchiveSlot (ctx_Engine c) a i = Inr x \<and> as_TopicID x \<notin> set topics)
    \<and> (\<forall>i n. ReadPlanNode (ctx_Engine c') a i = Inr n \<longleftrightarrow> ReadPlanNode (ctx_Engine c) a i = Inr n \<and> pn_TopicID n \<notin> set topics)
    \<and> (\<forall>b i. b \<noteq> a \<or> i \<notin> set topics \<and> i \<notin> set scenes
          \<and> (\<forall>x. ReadArchiveSlot (ctx_Engine c) a i = Inr x \<longrightarrow> as_TopicID x \<notin> set topics)
          \<and> (\<forall>n. ReadPlanNode (ctx_Engine c) a i = Inr n \<longrightarrow> pn_TopicID n \<notin> set topics)
        \<longrightarrow> ReadRecord (ctx_Engine c') b i = ReadRecord (ctx_Engine c) b i)"
proof -
  let ?e = "ctx_Engine c" and ?arcs = "DedupSorted (concat (map (AllIDs (ctx_L4 c)) topics))"
  let ?l4 = "fold L4_RemoveTopic topics (ctx_L4 c)" and ?l2 = "topics @ scenes"
  obtain m where rep: "engine_rep ?e m" using domain_invD(1) [OF inv] by blast
  note l2m = domain_invD(2) [OF inv] and l4m = domain_invD(3) [OF inv] and pcm = domain_invD(4) [OF inv] and r = cascade_readyD [OF ready]
  obtain e1 where e1: "DeleteTopicArchives a topics ?e (ctx_L4 c) = (Inr (), e1, ?l4)" "engine_rep e1 (del_all a ?arcs m)"
    "engine_room e1 (RecordHeaderSize * length planNodes + (RecordHeaderSize * length ?l2 + k))" "l4_mirrors H e1 a ?l4"
    "\<And>i x. ReadArchiveSlot e1 a i = Inr x \<longleftrightarrow> ReadArchiveSlot ?e a i = Inr x \<and> as_TopicID x \<notin> set topics"
    using DeleteTopicArchives_law [OF rep l4m r(4)] by blast
  let ?m1 = "del_all a ?arcs m"
  obtain e2 where e2: "DeletePlanNodesByIDs a planNodes e1 = (Inr (), e2)" "engine_rep e2 (del_all a planNodes ?m1)"
    "engine_room e2 (RecordHeaderSize * length ?l2 + k)"
    using DeletePlanNodesByIDs_law [OF e1(2,3)] by blast
  let ?m2 = "del_all a planNodes ?m1"
  obtain e3 where e3: "DeleteL2Records a ?l2 e2 = (Inr (), e3)" "engine_rep e3 (del_all a ?l2 ?m2)" "engine_room e3 k"
    using DeleteL2Records_law [OF e2(2,3)] by blast
  let ?m3 = "del_all a ?l2 ?m2"
  have typed: "typed_at u ?m3 a rt i = (if i \<in> set ?arcs \<or> i \<in> set planNodes \<or> i \<in> set ?l2 then None else typed_at u m a rt i)" for u rt i
    by (simp add: typed_del_all)
  have arcs: "\<exists>d. m (a, i) = Some (RecL4Archive, d)" if i: "i \<in> set ?arcs" for i
  proof -
    obtain t where "i \<in> set (AllIDs (ctx_L4 c) t)" using i by (auto simp: DedupSorted_props)
    then obtain en s where "l4_view (ctx_L4 c) t s = Some en" "le_IDHash en = i"
      using l4.ids_view [OF l4_mirrorsD(1) [OF l4m], of t] by auto
    then obtain x where "ReadArchiveSlot ?e a i = Inr x" using l4_mirrorsD(2) [OF l4m] by blast
    then show ?thesis using typed_kind unfolding ReadArchiveSlot_typed [OF rep] by fast
  qed
  have plans: "\<exists>d. m (a, i) = Some (RecL5PlanNode, d)" if "i \<in> set planNodes" for i
    using PlanNodeIDsByTopicIDs_kind [OF rep pcm r(1) that] typed_kind unfolding ReadPlanNode_typed [OF rep] by fast
  have l2s: "m (a, i) = Some (t, d) \<Longrightarrow> t = RecL2Topic \<or> t = RecL2Scene" if "i \<in> set ?l2" for i t d
    using that r(2,3) unfolding own_kind_store [OF rep] by auto
  have topics: "m (a, i) = Some (t, d) \<Longrightarrow> t = RecL2Topic" if "i \<in> set topics" for i t d
    using r(2) [OF that] unfolding own_kind_store [OF rep] by blast
  have scenes: "m (a, i) = Some (t, d) \<Longrightarrow> t = RecL2Scene" if "i \<in> set scenes" for i t d
    using r(3) [OF that] unfolding own_kind_store [OF rep] by blast
  note kd = kinds_distinct kinds_distinct [symmetric]
  have topic: "ReadTopicSlot e3 a i = Inr t \<longleftrightarrow> ReadTopicSlot ?e a i = Inr t \<and> i \<notin> set topics" for i t
  proof -
    have "i \<notin> set ?arcs \<and> i \<notin> set planNodes \<and> i \<notin> set scenes" if "ReadTopicSlot ?e a i = Inr t"
      using that typed_kind [of unmarshal_topic m a RecL2Topic i] arcs [of i] plans [of i] scenes [of i] kd unfolding ReadTopicSlot_typed [OF rep] by fastforce
    then show ?thesis unfolding ReadTopicSlot_typed [OF rep] ReadTopicSlot_typed [OF e3(2)] typed by auto
  qed
  have scene: "ReadSceneSlot e3 a i = Inr t \<longleftrightarrow> ReadSceneSlot ?e a i = Inr t \<and> i \<notin> set scenes" for i t
  proof -
    have "i \<notin> set ?arcs \<and> i \<notin> set planNodes \<and> i \<notin> set topics" if "ReadSceneSlot ?e a i = Inr t"
      using that typed_kind [of unmarshal_scene m a RecL2Scene i] arcs [of i] plans [of i] topics [of i] kd unfolding ReadSceneSlot_typed [OF rep] by fastforce
    then show ?thesis unfolding ReadSceneSlot_typed [OF rep] ReadSceneSlot_typed [OF e3(2)] typed by auto
  qed
  have archive: "ReadArchiveSlot e3 a i = Inr x \<longleftrightarrow> ReadArchiveSlot e1 a i = Inr x" for i x
  proof -
    have "i \<notin> set planNodes \<and> i \<notin> set ?l2" if "ReadArchiveSlot ?e a i = Inr x"
      using that typed_kind [of unmarshal_archive m a RecL4Archive i] plans [of i] l2s [of i] kd unfolding ReadArchiveSlot_typed [OF rep] by fastforce
    then show ?thesis unfolding e1(5) ReadArchiveSlot_typed [OF rep] ReadArchiveSlot_typed [OF e3(2)] typed
      using e1(5) [of i x] unfolding ReadArchiveSlot_typed [OF rep] ReadArchiveSlot_typed [OF e1(2)] typed_del_all by auto
  qed
  have plan: "ReadPlanNode e3 a i = Inr n \<longleftrightarrow> ReadPlanNode ?e a i = Inr n \<and> pn_TopicID n \<notin> set topics" for i n
  proof -
    have "i \<notin> set ?arcs \<and> i \<notin> set ?l2" if "ReadPlanNode ?e a i = Inr n"
      using that typed_kind [of unmarshal_plan_node m a RecL5PlanNode i] arcs [of i] l2s [of i] kd unfolding ReadPlanNode_typed [OF rep] by fastforce
    moreover have "i \<in> set planNodes \<longleftrightarrow> pn_TopicID n \<in> set topics" if "ReadPlanNode ?e a i = Inr n"
      by (rule PlanNodeIDsByTopicIDs_ids [OF rep pcm r(1) that])
    ultimately show ?thesis unfolding ReadPlanNode_typed [OF rep] ReadPlanNode_typed [OF e3(2)] typed by auto
  qed
  have frame: "ReadRecord e3 b i = ReadRecord ?e b i"
    if keep: "b \<noteq> a \<or> i \<notin> set topics \<and> i \<notin> set scenes
      \<and> (\<forall>x. ReadArchiveSlot ?e a i = Inr x \<longrightarrow> as_TopicID x \<notin> set topics) \<and> (\<forall>n. ReadPlanNode ?e a i = Inr n \<longrightarrow> pn_TopicID n \<notin> set topics)" for b i
  proof (rule eng.read_frame [OF rep e3(2)])
    have "i \<notin> set ?arcs" if "\<forall>x. ReadArchiveSlot ?e a i = Inr x \<longrightarrow> as_TopicID x \<notin> set topics"
    proof
      assume "i \<in> set ?arcs"
      then obtain t where t: "t \<in> set topics" "i \<in> set (AllIDs (ctx_L4 c) t)" by (auto simp: DedupSorted_props)
      then obtain en s where "l4_view (ctx_L4 c) t s = Some en" "le_IDHash en = i"
        using l4.ids_view [OF l4_mirrorsD(1) [OF l4m], of t] by auto
      then obtain x where "ReadArchiveSlot ?e a i = Inr x" "as_TopicID x = t" using l4_mirrorsD(2) [OF l4m] by blast
      then show False using that t(1) by blast
    qed
    moreover have "i \<notin> set planNodes" if "\<forall>n. ReadPlanNode ?e a i = Inr n \<longrightarrow> pn_TopicID n \<notin> set topics"
      using PlanNodeIDsByTopicIDs_kind [OF rep pcm r(1)] PlanNodeIDsByTopicIDs_ids [OF rep pcm r(1)] that by blast
    ultimately show "?m3 (b, i) = m (b, i)" using keep by (auto simp: del_all_def)
  qed
  let ?c = "RemoveTopicsFromIndices topics (c\<lparr>ctx_Engine := e1, ctx_L4 := ?l4, ctx_Engine := e2, ctx_Engine := e3\<rparr>)"
  have run: "DeleteCascade H a scenes topics c = (Inr (), ?c)"
    using r(1) e1(1) e2(1) e3(1) by (simp add: DeleteCascade_def Let_def)
  note rm = RemoveTopics_simps [of topics]
  have l4: "l4_mirrors H e3 a ?l4" using e1(4) l4_mirrors_cong [OF archive] by simp
  have l2: "l2_mirrors e3 a (fold L2_Remove topics (ctx_L2Meta c))" by (rule l2_mirrors_delete [OF l2m topic])
  have pc: "pc_mirrors H e3 a (fold PC_RemoveTopic topics (ctx_Plans c))"
    using fold_PC_RemoveTopic [OF pc_mirrorsD(1) [OF pcm], of topics] by (intro pc_mirrors_delete [OF pcm _ _ plan]) auto
  have "domain_inv H a ?c" unfolding domain_inv_def rm using e3(2) l4 l2 pc by auto
  moreover have "ctx_Engine ?c = e3" by (simp add: rm)
  ultimately show ?thesis using run e3(3) topic scene archive plan e1(5) frame by auto
qed

end
