(* ===== verification/L2_Correct.thy ===== *)
theory L2_Correct
  imports Cascade
begin

text \<open>
  What writing topics guarantees: a batch of topics changes the topic records it names and nothing of the
  other kinds; merging scenes retargets exactly the topics of the merged scenes; restoring sunk topics
  undoes the sink; the closure of a topic ends where depths grow along parent links.
\<close>

lemmas typed_reads = ReadTopicSlot_typed ReadSceneSlot_typed ReadArchiveSlot_typed ReadPlanNode_typed

definition topics_fit :: "u64 \<Rightarrow> TopicSlot list \<Rightarrow> StorageEngine \<Rightarrow> nat \<Rightarrow> bool" where
  "topics_fit a ts e k \<longleftrightarrow> (\<forall>t \<in> set ts. topic_ok t \<and> size_of marshal_topic t < 2 ^ 32 \<and> own_kind e a RecL2Topic (ts_ID t))
     \<and> engine_room e (batch_room marshal_topic ts + k)"

abbreviation topic_entries :: "u64 \<Rightarrow> TopicSlot list \<Rightarrow> RecordEntry list" where
  "topic_entries a ts \<equiv> map (entry_for marshal_topic a RecL2Topic ts_ID) ts"

lemma TopicEntry_ok: "topic_ok t \<Longrightarrow> TopicEntry a t = Inr (entry_for marshal_topic a RecL2Topic ts_ID t)"
  using topic.round_trip [of t] by (auto simp: TopicEntry_def entry_for_def record_of_def)

lemma topic_writes_ok: "\<forall>t \<in> set ts. topic_ok t \<Longrightarrow> topic_writes a ts = Inr (topic_entries a ts)"
  by (induction ts) (simp_all add: TopicEntry_ok)

lemma topic_batch:
  assumes "engine_rep e m" "topics_fit a ts e k"
  shows "\<exists>out e'. WriteRecordBatch (topic_entries a ts) e = (Inr out, e')
    \<and> engine_rep e' (put_all (topic_entries a ts) m) \<and> engine_room e' k
    \<and> (\<forall>i t. ReadTopicSlot e' a i = Inr t \<longleftrightarrow> (case List.find (\<lambda>x. ts_ID x = i) (rev ts) of Some x \<Rightarrow> t = x | None \<Rightarrow> ReadTopicSlot e a i = Inr t))
    \<and> (\<forall>i s. ReadSceneSlot e' a i = Inr s \<longleftrightarrow> ReadSceneSlot e a i = Inr s)
    \<and> (\<forall>i x. ReadArchiveSlot e' a i = Inr x \<longleftrightarrow> ReadArchiveSlot e a i = Inr x)
    \<and> (\<forall>i n. ReadPlanNode e' a i = Inr n \<longleftrightarrow> ReadPlanNode e a i = Inr n)"
proof -
  have ok: "\<forall>t \<in> set ts. topic_ok t \<and> size_of marshal_topic t < 2 ^ 32" and own: "\<forall>t \<in> set ts. own_kind e a RecL2Topic (ts_ID t)"
    and room: "engine_room e (batch_room marshal_topic ts + k)"
    using assms(2) unfolding topics_fit_def by blast+
  obtain out e' where e': "WriteRecordBatch (topic_entries a ts) e = (Inr out, e')" "engine_rep e' (put_all (topic_entries a ts) m)" "engine_room e' k"
    using topic.batch_law [OF assms(1) ok kinds_distinct(7) room] by blast
  have "\<forall>r \<in> set (topic_entries a ts). r_agent r = a \<and> r_type r = RecL2Topic \<and> own_kind e a RecL2Topic (r_id r)"
    using own by (simp add: entry_for_def)
  note other = typed_put_other [OF assms(1) _ this]
  have "typed_at unmarshal_topic (put_all (topic_entries a ts) m) a RecL2Topic i
      = (case List.find (\<lambda>x. ts_ID x = i) (rev ts) of Some x \<Rightarrow> Some x | None \<Rightarrow> typed_at unmarshal_topic m a RecL2Topic i)" for i
    by (rule topic.typed_put_all) (use ok in blast)
  then have "ReadTopicSlot e' a i = Inr t \<longleftrightarrow> (case List.find (\<lambda>x. ts_ID x = i) (rev ts) of Some x \<Rightarrow> t = x | None \<Rightarrow> ReadTopicSlot e a i = Inr t)" for i t
    unfolding typed_reads(1) [OF assms(1)] typed_reads(1) [OF e'(2)] by (auto split: option.splits)
  moreover have "ReadSceneSlot e' a i = Inr s \<longleftrightarrow> ReadSceneSlot e a i = Inr s"
    "ReadArchiveSlot e' a i = Inr x \<longleftrightarrow> ReadArchiveSlot e a i = Inr x"
    "ReadPlanNode e' a i = Inr n \<longleftrightarrow> ReadPlanNode e a i = Inr n" for i s x n
    unfolding typed_reads(2-4) [OF assms(1)] typed_reads(2-4) [OF e'(2)]
    by (simp_all only: other [OF kinds_distinct(1) [symmetric]] other [OF kinds_distinct(2) [symmetric]] other [OF kinds_distinct(3) [symmetric]])
  ultimately show ?thesis using e' by blast
qed

lemma l2_mirrors_write:
  assumes "l2_mirrors e a idx" "\<And>i t. ReadTopicSlot e' a i = Inr t \<longleftrightarrow> (if i = ts_ID x then t = x else ReadTopicSlot e a i = Inr t)"
  shows "l2_mirrors e' a (L2_Update (L2MetaFromTopic x) idx)"
proof -
  note wf = l2_mirrorsD(1) [OF assms(1)]
  have inj: "L2MetaFromTopic x = L2MetaFromTopic t \<longleftrightarrow> t = x" for t by (metis ToTopicSlot_L2MetaFromTopic(1))
  show ?thesis
    unfolding l2_mirrors_def using L2_Update_wf [OF wf] l2_mirrorsD(2) [OF assms(1)] assms(2)
    by (auto simp: L2_Update_simps(1) [OF wf] inj)
qed

lemma domain_topics:
  assumes "domain_inv H a c" "engine_rep e' m'" "l2_mirrors e' a idx'"
    "\<And>i x. ReadArchiveSlot e' a i = Inr x \<longleftrightarrow> ReadArchiveSlot (ctx_Engine c) a i = Inr x"
    "\<And>i n. ReadPlanNode e' a i = Inr n \<longleftrightarrow> ReadPlanNode (ctx_Engine c) a i = Inr n"
  shows "domain_inv H a (c\<lparr>ctx_Engine := e', ctx_L2Meta := idx'\<rparr>)"
  using assms(2,3) domain_invD(3,4) [OF assms(1)] l4_mirrors_cong [OF assms(4)] pc_mirrors_cong [OF assms(5)]
  by (auto simp: domain_inv_def)

lemma WriteTopicSlot_batch: "topic_ok t \<Longrightarrow> WriteTopicSlot a (ts_ID t) t e
    = (case WriteRecordBatch (topic_entries a [t]) e of (Inl err, e) \<Rightarrow> (Inl err, e) | (Inr _, e) \<Rightarrow> (Inr (), e))"
  using topic.round_trip [of t]
  by (auto simp: WriteTopicSlot_def writeJSON_def WriteRecord_batch entry_for_def record_of_def split: prod.splits sum.splits)

text \<open>One topic written and mirrored.\<close>

lemma write_topic_law:
  assumes inv: "domain_inv H a c" and fit: "topics_fit a [t] (ctx_Engine c) k"
  shows "\<exists>e'. WriteTopicSlot a (ts_ID t) t (ctx_Engine c) = (Inr (), e') \<and> engine_room e' k
    \<and> domain_inv H a (SyncL2Meta t (c\<lparr>ctx_Engine := e'\<rparr>))
    \<and> (\<forall>i u. ReadTopicSlot e' a i = Inr u \<longleftrightarrow> (if i = ts_ID t then u = t else ReadTopicSlot (ctx_Engine c) a i = Inr u))
    \<and> (\<forall>i s. ReadSceneSlot e' a i = Inr s \<longleftrightarrow> ReadSceneSlot (ctx_Engine c) a i = Inr s)
    \<and> (\<forall>b i. (b, i) \<noteq> (a, ts_ID t) \<longrightarrow> ReadRecord e' b i = ReadRecord (ctx_Engine c) b i)"
proof -
  let ?e = "ctx_Engine c"
  obtain m where rep: "engine_rep ?e m" using domain_invD(1) [OF inv] by blast
  obtain out e' where e': "WriteRecordBatch (topic_entries a [t]) ?e = (Inr out, e')" "engine_rep e' (put_all (topic_entries a [t]) m)" "engine_room e' k"
    "\<forall>i u. ReadTopicSlot e' a i = Inr u \<longleftrightarrow> (case List.find (\<lambda>x. ts_ID x = i) (rev [t]) of Some x \<Rightarrow> u = x | None \<Rightarrow> ReadTopicSlot ?e a i = Inr u)"
    "\<forall>i s. ReadSceneSlot e' a i = Inr s \<longleftrightarrow> ReadSceneSlot ?e a i = Inr s"
    "\<forall>i x. ReadArchiveSlot e' a i = Inr x \<longleftrightarrow> ReadArchiveSlot ?e a i = Inr x"
    "\<forall>i n. ReadPlanNode e' a i = Inr n \<longleftrightarrow> ReadPlanNode ?e a i = Inr n"
    using topic_batch [OF rep fit] by blast
  have read: "ReadTopicSlot e' a i = Inr u \<longleftrightarrow> (if i = ts_ID t then u = t else ReadTopicSlot ?e a i = Inr u)" for i u
    using e'(4) by auto
  have "topic_ok t" using fit by (simp add: topics_fit_def)
  then have "WriteTopicSlot a (ts_ID t) t ?e = (Inr (), e')" using e'(1) by (simp add: WriteTopicSlot_batch)
  moreover have "domain_inv H a (c\<lparr>ctx_Engine := e', ctx_L2Meta := L2_Update (L2MetaFromTopic t) (ctx_L2Meta c)\<rparr>)"
    by (rule domain_topics [OF inv e'(2) l2_mirrors_write [OF domain_invD(2) [OF inv] read]]) (use e'(6,7) in blast)+
  then have "domain_inv H a (SyncL2Meta t (c\<lparr>ctx_Engine := e'\<rparr>))" by (simp add: SyncL2Meta_def)
  moreover have "ReadRecord e' b i = ReadRecord ?e b i" if "(b, i) \<noteq> (a, ts_ID t)" for b i
    using that by (intro eng.read_frame_put [OF rep e'(2)]) (auto simp: entry_for_def)
  ultimately show ?thesis using e'(3,5) read by blast
qed

section \<open>Merging scenes\<close>

lemma l2_mirrors_ids: "l2_mirrors e a idx \<Longrightarrow> ReadTopicSlot e a i = Inr t \<Longrightarrow> ts_ID t = i"
  using l2_mirrorsD [of e a idx] l2_wfD(1) [of idx i "L2MetaFromTopic t"] by simp

lemma find_rev_unique:
  assumes "x \<in> set xs" "f x = i" "\<And>y. y \<in> set xs \<Longrightarrow> f y = i \<Longrightarrow> y = x"
  shows "List.find (\<lambda>y. f y = i) (rev xs) = Some x"
proof (cases "List.find (\<lambda>y. f y = i) (rev xs)")
  case None
  then show ?thesis using assms(1,2) by (auto simp: find_None_iff)
next
  case (Some y)
  then have "y \<in> set (rev xs)" "f y = i" by (metis (mono_tags, lifting) find_Some_iff nth_mem)+
  then have "y \<in> set xs" "f y = i" by simp_all
  then show ?thesis using Some assms(3) by simp
qed

definition retarget :: "u64 \<Rightarrow> u64 list \<Rightarrow> TopicSlot \<Rightarrow> TopicSlot" where
  "retarget p sids t = (if ts_SceneID t \<in> set sids then t\<lparr>ts_SceneID := p\<rparr> else t)"

definition moved :: "u64 \<Rightarrow> u64 list \<Rightarrow> TopicSlot list \<Rightarrow> TopicSlot list" where
  "moved p sids topics = map (\<lambda>t. t\<lparr>ts_SceneID := p\<rparr>) (filter (\<lambda>t. ts_SceneID t \<in> set sids) topics)"

lemma moved_reads:
  assumes rep: "engine_rep e m" and mir: "l2_mirrors e a idx" and scan: "CollectAllTopicsStrict e a = Inr topics"
  shows "(case List.find (\<lambda>x. ts_ID x = i) (rev (moved p sids topics)) of Some x \<Rightarrow> t = x | None \<Rightarrow> ReadTopicSlot e a i = Inr t)
    \<longleftrightarrow> (\<exists>t0. ReadTopicSlot e a i = Inr t0 \<and> t = retarget p sids t0)"
proof -
  have src: "\<exists>t0. ReadTopicSlot e a i = Inr t0 \<and> ts_SceneID t0 \<in> set sids \<and> y = t0\<lparr>ts_SceneID := p\<rparr>"
    if y: "y \<in> set (moved p sids topics)" "ts_ID y = i" for y
  proof -
    obtain t0 where t0: "t0 \<in> set topics" "ts_SceneID t0 \<in> set sids" "y = t0\<lparr>ts_SceneID := p\<rparr>" using y(1) by (auto simp: moved_def)
    then obtain j where j: "ReadTopicSlot e a j = Inr t0" using topics_scan [OF rep scan] by blast
    have "j = i" using l2_mirrors_ids [OF mir j] t0(3) y(2) by simp
    then show ?thesis using j t0 by blast
  qed
  show ?thesis
  proof (cases "\<exists>t0. ReadTopicSlot e a i = Inr t0 \<and> ts_SceneID t0 \<in> set sids")
    case True
    then obtain t0 where t0: "ReadTopicSlot e a i = Inr t0" "ts_SceneID t0 \<in> set sids" by blast
    let ?x = "t0\<lparr>ts_SceneID := p\<rparr>"
    have "t0 \<in> set topics" using topics_scan [OF rep scan] t0(1) by blast
    then have "?x \<in> set (moved p sids topics)" using t0(2) by (auto simp: moved_def)
    moreover have "ts_ID ?x = i" using l2_mirrors_ids [OF mir t0(1)] by simp
    moreover have "y = ?x" if "y \<in> set (moved p sids topics)" "ts_ID y = i" for y using src [OF that] t0(1) by auto
    ultimately have "List.find (\<lambda>x. ts_ID x = i) (rev (moved p sids topics)) = Some ?x" by (rule find_rev_unique)
    then show ?thesis using t0 by (auto simp: retarget_def)
  next
    case False
    then have "List.find (\<lambda>x. ts_ID x = i) (rev (moved p sids topics)) = None" using src by (auto simp: find_None_iff)
    then show ?thesis using False by (auto simp: retarget_def)
  qed
qed

lemma retarget_meta: "L2MetaFromTopic (retarget p sids t)
    = (if lm_SceneID (L2MetaFromTopic t) \<in> set sids then (L2MetaFromTopic t)\<lparr>lm_SceneID := p\<rparr> else L2MetaFromTopic t)"
  by (simp add: retarget_def L2MetaFromTopic_def)

text \<open>The records first, then the topic index: together they keep the caches of the domain true.\<close>

lemma MergeScenesL2_law:
  assumes inv: "domain_inv H a c" and scan: "CollectAllTopicsStrict (ctx_Engine c) a = Inr topics" and p: "p \<notin> set sids"
    and own: "\<forall>s \<in> set sids. own_kind (ctx_Engine c) a RecL2Scene s"
    and fit: "topics_fit a (moved p sids topics) (ctx_Engine c) (RecordHeaderSize * length sids + k)"
  shows "\<exists>e' c'. MergeScenesL2 a p sids (ctx_Engine c) = (Inr (), e') \<and> RetargetL2Meta p sids (c\<lparr>ctx_Engine := e'\<rparr>) = Some c'
    \<and> ctx_Engine c' = e' \<and> domain_inv H a c' \<and> engine_room e' k
    \<and> (\<forall>i t. ReadTopicSlot e' a i = Inr t \<longleftrightarrow> (\<exists>t0. ReadTopicSlot (ctx_Engine c) a i = Inr t0 \<and> t = retarget p sids t0))
    \<and> (\<forall>i s. ReadSceneSlot e' a i = Inr s \<longleftrightarrow> ReadSceneSlot (ctx_Engine c) a i = Inr s \<and> i \<notin> set sids)
    \<and> (\<forall>b i. b \<noteq> a \<or> i \<notin> set sids \<and> \<not> (\<exists>t. ReadTopicSlot (ctx_Engine c) a i = Inr t \<and> ts_SceneID t \<in> set sids)
        \<longrightarrow> ReadRecord e' b i = ReadRecord (ctx_Engine c) b i)"
proof -
  let ?e = "ctx_Engine c" and ?ts = "moved p sids topics"
  obtain m where rep: "engine_rep ?e m" using domain_invD(1) [OF inv] by blast
  note mir = domain_invD(2) [OF inv]
  obtain out e1 where e1: "WriteRecordBatch (topic_entries a ?ts) ?e = (Inr out, e1)" "engine_rep e1 (put_all (topic_entries a ?ts) m)"
    "engine_room e1 (RecordHeaderSize * length sids + k)"
    "\<forall>i t. ReadTopicSlot e1 a i = Inr t \<longleftrightarrow> (case List.find (\<lambda>x. ts_ID x = i) (rev ?ts) of Some x \<Rightarrow> t = x | None \<Rightarrow> ReadTopicSlot ?e a i = Inr t)"
    "\<forall>i s. ReadSceneSlot e1 a i = Inr s \<longleftrightarrow> ReadSceneSlot ?e a i = Inr s"
    "\<forall>i x. ReadArchiveSlot e1 a i = Inr x \<longleftrightarrow> ReadArchiveSlot ?e a i = Inr x"
    "\<forall>i n. ReadPlanNode e1 a i = Inr n \<longleftrightarrow> ReadPlanNode ?e a i = Inr n"
    using topic_batch [OF rep fit] by blast
  let ?m1 = "put_all (topic_entries a ?ts) m"
  obtain e2 where e2: "DeleteL2Records a sids e1 = (Inr (), e2)" "engine_rep e2 (del_all a sids ?m1)" "engine_room e2 k"
    using DeleteL2Records_law [OF e1(2,3)] by blast
  have own_m: "m (a, i) = Some (t, d) \<Longrightarrow> t = RecL2Scene" if "i \<in> set sids" for i t d
    using own that unfolding own_kind_store [OF rep] by blast
  have clear: "i \<notin> set sids" if "m (a, i) = Some (rt, d)" "rt \<noteq> RecL2Scene" for i rt d using own_m that by blast
  note kd = kinds_distinct kinds_distinct [symmetric]
  have tkind: "i \<notin> set sids" if "ReadTopicSlot ?e a i = Inr t" for i t
    using typed_kind [of unmarshal_topic m a RecL2Topic i] clear [of i RecL2Topic] that kd(1) unfolding typed_reads(1) [OF rep] by blast
  have akind: "i \<notin> set sids" if "ReadArchiveSlot ?e a i = Inr x" for i x
    using typed_kind [of unmarshal_archive m a RecL4Archive i] clear [of i RecL4Archive] that kd unfolding typed_reads(3) [OF rep] by metis
  have pkind: "i \<notin> set sids" if "ReadPlanNode ?e a i = Inr x" for i x
    using typed_kind [of unmarshal_plan_node m a RecL5PlanNode i] clear [of i RecL5PlanNode] that kd unfolding typed_reads(4) [OF rep] by metis
  have del: "ReadTopicSlot e2 a i = Inr t \<longleftrightarrow> ReadTopicSlot e1 a i = Inr t \<and> i \<notin> set sids"
    "ReadSceneSlot e2 a i = Inr s \<longleftrightarrow> ReadSceneSlot e1 a i = Inr s \<and> i \<notin> set sids"
    "ReadArchiveSlot e2 a i = Inr x \<longleftrightarrow> ReadArchiveSlot e1 a i = Inr x \<and> i \<notin> set sids"
    "ReadPlanNode e2 a i = Inr n \<longleftrightarrow> ReadPlanNode e1 a i = Inr n \<and> i \<notin> set sids" for i t s x n
    unfolding typed_reads [OF e1(2)] typed_reads [OF e2(2)] typed_del_all by auto
  have topic: "ReadTopicSlot e2 a i = Inr t \<longleftrightarrow> (\<exists>t0. ReadTopicSlot ?e a i = Inr t0 \<and> t = retarget p sids t0)" for i t
  proof -
    have "ReadTopicSlot e1 a i = Inr t \<longleftrightarrow> (\<exists>t0. ReadTopicSlot ?e a i = Inr t0 \<and> t = retarget p sids t0)"
      unfolding e1(4) [rule_format] by (rule moved_reads [OF rep mir scan])
    then show ?thesis using del(1) tkind by blast
  qed
  obtain idx where idx: "retarget_scenes p sids (ctx_L2Meta c) = Some idx" "l2_wf idx"
    "\<forall>i. L2_Get idx i = map_option (\<lambda>m. if lm_SceneID m \<in> set sids then m\<lparr>lm_SceneID := p\<rparr> else m) (L2_Get (ctx_L2Meta c) i)"
    using retarget_scenes_law [OF l2_mirrorsD(1) [OF mir] p] by blast
  have get: "L2_Get idx i = Some (L2MetaFromTopic t) \<longleftrightarrow> (\<exists>t0. ReadTopicSlot ?e a i = Inr t0 \<and> t = retarget p sids t0)" for i t
  proof (cases "L2_Get (ctx_L2Meta c) i")
    case (Some r)
    then have "ReadTopicSlot ?e a i = Inr (ToTopicSlot r)" using l2_mirrorsD(2) [OF mir] by simp
    moreover have "L2_Get idx i = Some (L2MetaFromTopic (retarget p sids (ToTopicSlot r)))" using Some idx(3) retarget_meta by simp
    ultimately show ?thesis by (metis ToTopicSlot_L2MetaFromTopic(1) option.inject sum.inject(2))
  next
    case None
    then show ?thesis using l2_mirrorsD(2) [OF mir, of i] idx(3) by simp
  qed
  have l2: "l2_mirrors e2 a idx" unfolding l2_mirrors_def using idx(2) topic get by blast
  let ?c = "c\<lparr>ctx_Engine := e2, ctx_L2Meta := idx\<rparr>"
  have "domain_inv H a ?c"
    by (rule domain_topics [OF inv e2(2) l2]) (use del(3,4) e1(6,7) akind pkind in blast)+
  moreover have "RetargetL2Meta p sids (c\<lparr>ctx_Engine := e2\<rparr>) = Some ?c" using idx(1) by (simp add: RetargetL2Meta_def)
  moreover have ok: "\<forall>t \<in> set ?ts. topic_ok t" using fit by (simp add: topics_fit_def)
  have "MergeScenesL2 a p sids ?e = (Inr (), e2)"
    using scan topic_writes_ok [OF ok, of a] e1(1) e2(1) by (simp add: MergeScenesL2_def moved_def)
  moreover have "ReadSceneSlot e2 a i = Inr s \<longleftrightarrow> ReadSceneSlot ?e a i = Inr s \<and> i \<notin> set sids" for i s
    using del(2) e1(5) by blast
  moreover have "ReadRecord e2 b i = ReadRecord ?e b i" if keep: "b \<noteq> a \<or> i \<notin> set sids \<and> \<not> (\<exists>t. ReadTopicSlot ?e a i = Inr t \<and> ts_SceneID t \<in> set sids)" for b i
  proof (rule eng.read_frame [OF rep e2(2)])
    have "i \<notin> ts_ID ` set ?ts" if none: "\<not> (\<exists>t. ReadTopicSlot ?e a i = Inr t \<and> ts_SceneID t \<in> set sids)"
    proof
      assume "i \<in> ts_ID ` set ?ts"
      then obtain t where t: "t \<in> set topics" "ts_SceneID t \<in> set sids" "ts_ID t = i" by (auto simp: moved_def)
      then obtain j where "ReadTopicSlot ?e a j = Inr t" using topics_scan [OF rep scan] by blast
      then show False using l2_mirrors_ids [OF mir, of j t] t none by simp
    qed
    then show "del_all a sids ?m1 (b, i) = m (b, i)" using keep by (auto simp: del_all_def entry_for_def put_all_other image_iff)
  qed
  ultimately show ?thesis using topic e2(3) by (intro exI [of _ e2] exI [of _ ?c]) simp
qed

section \<open>Sinking and restoring\<close>

lemma ReadTopicLenient_topic: "ReadTopicSlot e a i = Inr t \<Longrightarrow> ReadTopicLenient e a i = Inr (Some t)"
  by (auto simp: ReadTopicSlot_def readJSON_def ReadTopicLenient_def split: sum.splits prod.splits if_splits)

lemma own_kind_topic: "engine_rep e m \<Longrightarrow> ReadTopicSlot e a i = Inr t \<Longrightarrow> own_kind e a RecL2Topic i"
  using typed_kind [of unmarshal_topic m a RecL2Topic i t] by (auto simp: own_kind_store typed_reads(1))

definition sunk :: "u64 \<Rightarrow> TopicSlot \<Rightarrow> TopicSlot" where
  "sunk p t = t\<lparr>ts_Depth := ts_Depth t + 1, ts_ParentID := Some p\<rparr>"

lemma sunk_simps [simp]: "ts_ID (sunk p t) = ts_ID t" "topic_ok (sunk p t) = topic_ok t" "ts_ParentID (sunk p t) = Some p"
  "ts_Depth (sunk p t) = ts_Depth t + 1"
  by (simp_all add: sunk_def topic_ok_def)

lemma sink_members_all:
  assumes "\<forall>t \<in> set ts. ReadTopicSlot e a (ts_ID t) = Inr t \<and> ts_Depth t + 1 < MaxDepth \<and> topic_ok t"
  shows "sink_members e a p (map ts_ID ts) = Inr (topic_entries a (map (sunk p) ts), [])"
  using assms
proof (induction ts)
  case (Cons t ts)
  then have "ReadTopicLenient e a (ts_ID t) = Inr (Some t)" "\<not> ts_Depth t + 1 \<ge> MaxDepth" "topic_ok (sunk p t)"
    by (auto simp: ReadTopicLenient_topic not_le)
  then show ?case using Cons TopicEntry_ok [of "sunk p t" a] by (simp add: sunk_def Let_def)
qed simp

text \<open>A topic at depth one or two without a parent: what the surface offers to a fold.\<close>

definition surfaced :: "TopicSlot \<Rightarrow> bool" where
  "surfaced t \<longleftrightarrow> 1 \<le> ts_Depth t \<and> ts_Depth t < MaxDepth - 1 \<and> ts_ParentID t = None"

lemma unsunk:
  assumes "surfaced t"
  shows "(if ts_Depth (sunk p t) > 1 then (sunk p t)\<lparr>ts_Depth := ts_Depth (sunk p t) - 1\<rparr> else sunk p t)\<lparr>ts_ParentID := None\<rparr> = t"
proof -
  have "ts_Depth t + 1 > 1" using assms unfolding surfaced_def MaxDepth_def by (simp, unat_arith, auto)
  then show ?thesis using assms by (simp add: sunk_def surfaced_def)
qed

lemma surfaced_sinks: "surfaced t \<Longrightarrow> ts_Depth t + 1 < MaxDepth"
proof -
  assume "surfaced t"
  then have "ts_Depth t < 3" by (simp add: surfaced_def MaxDepth_def)
  then have "ts_Depth t + 1 < 4" by unat_arith
  then show ?thesis by (simp add: MaxDepth_def)
qed

lemma Restore_all:
  assumes "engine_rep e m" "\<forall>t \<in> set ts. ReadTopicSlot e a (ts_ID t) = Inr (sunk p t) \<and> surfaced t" "distinct (map ts_ID ts)"
    "topics_fit a ts e k"
  shows "\<exists>e' m'. RestoreSunkTopicsL2 a (map ts_ID ts) p e = (Inr (), e') \<and> engine_rep e' m' \<and> engine_room e' k
    \<and> (\<forall>i u. ReadTopicSlot e' a i = Inr u \<longleftrightarrow> (if i \<in> ts_ID ` set ts then u \<in> set ts \<and> ts_ID u = i else ReadTopicSlot e a i = Inr u))"
  using assms
proof (induction ts arbitrary: e m)
  case Nil
  then show ?case by (auto simp: topics_fit_def)
next
  case (Cons t ts)
  have fit: "topics_fit a [t] e (batch_room marshal_topic ts + k)" and ok: "topic_ok t"
    using Cons.prems(4) by (auto simp: topics_fit_def add_ac)
  obtain out e1 where e1: "WriteRecordBatch (topic_entries a [t]) e = (Inr out, e1)" "engine_rep e1 (put_all (topic_entries a [t]) m)"
    "engine_room e1 (batch_room marshal_topic ts + k)"
    "\<forall>i u. ReadTopicSlot e1 a i = Inr u \<longleftrightarrow> (case List.find (\<lambda>x. ts_ID x = i) (rev [t]) of Some x \<Rightarrow> u = x | None \<Rightarrow> ReadTopicSlot e a i = Inr u)"
    using topic_batch [OF Cons.prems(1) fit] by blast
  have read: "ReadTopicSlot e1 a i = Inr u \<longleftrightarrow> (if i = ts_ID t then u = t else ReadTopicSlot e a i = Inr u)" for i u
    using e1(4) by auto
  have rest: "\<forall>u \<in> set ts. ReadTopicSlot e1 a (ts_ID u) = Inr (sunk p u) \<and> surfaced u"
    using Cons.prems(2,3) read by (auto simp: image_iff)
  have "topics_fit a ts e1 k"
    using Cons.prems(4) e1(3) rest own_kind_topic [OF e1(2)] unfolding topics_fit_def by auto
  then obtain e' m' where e': "RestoreSunkTopicsL2 a (map ts_ID ts) p e1 = (Inr (), e')" "engine_rep e' m'" "engine_room e' k"
    "\<forall>i u. ReadTopicSlot e' a i = Inr u \<longleftrightarrow> (if i \<in> ts_ID ` set ts then u \<in> set ts \<and> ts_ID u = i else ReadTopicSlot e1 a i = Inr u)"
    using Cons.IH [OF e1(2) rest] Cons.prems(3) by auto
  have "ReadTopicLenient e a (ts_ID t) = Inr (Some (sunk p t))" using Cons.prems(2) by (simp add: ReadTopicLenient_topic)
  moreover have t: "surfaced t" using Cons.prems(2) by simp
  moreover have "WriteTopicSlot a (ts_ID t) t e = (Inr (), e1)" using e1(1) ok by (simp add: WriteTopicSlot_batch)
  ultimately have "RestoreSunkTopicsL2 a (map ts_ID (t # ts)) p e = (Inr (), e')"
    using e'(1) by (simp only: list.map RestoreSunkTopicsL2.simps sum.case option.case sunk_simps(3) unsunk [OF t] Let_def refl not_True_eq_False if_False prod.case)
  moreover have "ReadTopicSlot e' a i = Inr u \<longleftrightarrow> (if i \<in> ts_ID ` set (t # ts) then u \<in> set (t # ts) \<and> ts_ID u = i else ReadTopicSlot e a i = Inr u)" for i u
    using e'(4) read [of i u] Cons.prems(3) by (auto simp: image_iff)
  ultimately show ?case using e'(2,3) by blast
qed

lemma del_all_Nil [simp]: "del_all a [] m = m"
  by (auto simp: del_all_def fun_eq_iff)

text \<open>Folding topics under a parent and undoing the fold leaves every topic as it was.\<close>

lemma CompressTopicsL2_law:
  assumes rep: "engine_rep e m" and ts: "\<forall>t \<in> set ts. ReadTopicSlot e a (ts_ID t) = Inr t \<and> surfaced t" "distinct (map ts_ID ts)"
    and fit: "topics_fit a (map (sunk p) ts) e k"
  shows "\<exists>e1. CompressTopicsL2 a (map ts_ID ts) p e = (Inr (), e1) \<and> engine_rep e1 (put_all (topic_entries a (map (sunk p) ts)) m) \<and> engine_room e1 k
    \<and> (\<forall>t \<in> set ts. ReadTopicSlot e1 a (ts_ID t) = Inr (sunk p t))
    \<and> (\<forall>i t. i \<notin> ts_ID ` set ts \<longrightarrow> (ReadTopicSlot e1 a i = Inr t \<longleftrightarrow> ReadTopicSlot e a i = Inr t))
    \<and> (\<forall>i x. ReadArchiveSlot e1 a i = Inr x \<longleftrightarrow> ReadArchiveSlot e a i = Inr x)
    \<and> (\<forall>i n. ReadPlanNode e1 a i = Inr n \<longleftrightarrow> ReadPlanNode e a i = Inr n)"
proof -
  have ok: "\<forall>t \<in> set ts. ReadTopicSlot e a (ts_ID t) = Inr t \<and> ts_Depth t + 1 < MaxDepth \<and> topic_ok t"
    using ts(1) fit by (auto simp: topics_fit_def surfaced_sinks)
  let ?m1 = "put_all (topic_entries a (map (sunk p) ts)) m"
  obtain out e1 where e1: "WriteRecordBatch (topic_entries a (map (sunk p) ts)) e = (Inr out, e1)" "engine_rep e1 ?m1" "engine_room e1 k"
    "\<forall>i t. ReadTopicSlot e1 a i = Inr t \<longleftrightarrow> (case List.find (\<lambda>x. ts_ID x = i) (rev (map (sunk p) ts)) of Some x \<Rightarrow> t = x | None \<Rightarrow> ReadTopicSlot e a i = Inr t)"
    "\<forall>i x. ReadArchiveSlot e1 a i = Inr x \<longleftrightarrow> ReadArchiveSlot e a i = Inr x"
    "\<forall>i n. ReadPlanNode e1 a i = Inr n \<longleftrightarrow> ReadPlanNode e a i = Inr n"
    using topic_batch [OF rep fit] by blast
  obtain e1' where e1': "DeleteRecordBatch a [] e1 = (Inr 0, e1')" "engine_rep e1' ?m1" "engine_room e1' k"
    using eng.delete_law [OF e1(2), of "[]" k a] e1(3) by auto
  have same: "ReadTopicSlot e1' a i = Inr t \<longleftrightarrow> ReadTopicSlot e1 a i = Inr t" "ReadArchiveSlot e1' a i = Inr x \<longleftrightarrow> ReadArchiveSlot e1 a i = Inr x"
    "ReadPlanNode e1' a i = Inr n \<longleftrightarrow> ReadPlanNode e1 a i = Inr n" for i t x n
    by (simp_all add: typed_reads [OF e1(2)] typed_reads [OF e1'(2)])
  have hit: "ReadTopicSlot e1 a (ts_ID t) = Inr (sunk p t)" if "t \<in> set ts" for t
  proof -
    have "List.find (\<lambda>x. ts_ID x = ts_ID t) (rev (map (sunk p) ts)) = Some (sunk p t)"
      using that ts(2) by (intro find_rev_unique) (auto simp: distinct_map inj_on_def)
    then show ?thesis using e1(4) by simp
  qed
  have miss: "ReadTopicSlot e1 a i = Inr t \<longleftrightarrow> ReadTopicSlot e a i = Inr t" if "i \<notin> ts_ID ` set ts" for i t
  proof -
    have "List.find (\<lambda>x. ts_ID x = i) (rev (map (sunk p) ts)) = None" using that by (auto simp: find_None_iff)
    then show ?thesis using e1(4) by simp
  qed
  have run: "CompressTopicsL2 a (map ts_ID ts) p e = (Inr (), e1')"
    using sink_members_all [OF ok, of p] e1(1) e1'(1) by (simp add: CompressTopicsL2_def)
  have "\<forall>t \<in> set ts. ReadTopicSlot e1' a (ts_ID t) = Inr (sunk p t)" using hit same(1) by blast
  moreover have "\<forall>i t. i \<notin> ts_ID ` set ts \<longrightarrow> (ReadTopicSlot e1' a i = Inr t \<longleftrightarrow> ReadTopicSlot e a i = Inr t)" using miss same(1) by blast
  moreover have "\<forall>i x. ReadArchiveSlot e1' a i = Inr x \<longleftrightarrow> ReadArchiveSlot e a i = Inr x" using e1(5) same(2) by blast
  moreover have "\<forall>i n. ReadPlanNode e1' a i = Inr n \<longleftrightarrow> ReadPlanNode e a i = Inr n" using e1(6) same(3) by blast
  ultimately show ?thesis using run e1'(2,3) by blast
qed

lemma Compress_then_Restore:
  assumes rep: "engine_rep e m" and ts: "\<forall>t \<in> set ts. ReadTopicSlot e a (ts_ID t) = Inr t \<and> surfaced t" "distinct (map ts_ID ts)"
    and fit: "topics_fit a (map (sunk p) ts) e (batch_room marshal_topic ts + k)" "\<forall>t \<in> set ts. size_of marshal_topic t < 2 ^ 32"
  shows "\<exists>e1 e2. CompressTopicsL2 a (map ts_ID ts) p e = (Inr (), e1) \<and> RestoreSunkTopicsL2 a (map ts_ID ts) p e1 = (Inr (), e2)
    \<and> (\<forall>t \<in> set ts. ReadTopicSlot e1 a (ts_ID t) = Inr (sunk p t)) \<and> (\<forall>i t. ReadTopicSlot e2 a i = Inr t \<longleftrightarrow> ReadTopicSlot e a i = Inr t)"
proof -
  obtain e1 where e1: "CompressTopicsL2 a (map ts_ID ts) p e = (Inr (), e1)" "engine_rep e1 (put_all (topic_entries a (map (sunk p) ts)) m)"
    "engine_room e1 (batch_room marshal_topic ts + k)" "\<forall>t \<in> set ts. ReadTopicSlot e1 a (ts_ID t) = Inr (sunk p t)"
    "\<forall>i t. i \<notin> ts_ID ` set ts \<longrightarrow> (ReadTopicSlot e1 a i = Inr t \<longleftrightarrow> ReadTopicSlot e a i = Inr t)"
    using CompressTopicsL2_law [OF rep ts fit(1)] by blast
  have r: "\<forall>t \<in> set ts. ReadTopicSlot e1 a (ts_ID t) = Inr (sunk p t) \<and> surfaced t" using e1(4) ts(1) by blast
  have ok: "\<forall>t \<in> set ts. topic_ok t" using fit(1) by (auto simp: topics_fit_def)
  have "topics_fit a ts e1 k"
    using ok fit(2) e1(3) r own_kind_topic [OF e1(2)] unfolding topics_fit_def by blast
  then obtain e2 where e2: "RestoreSunkTopicsL2 a (map ts_ID ts) p e1 = (Inr (), e2)"
    "\<forall>i u. ReadTopicSlot e2 a i = Inr u \<longleftrightarrow> (if i \<in> ts_ID ` set ts then u \<in> set ts \<and> ts_ID u = i else ReadTopicSlot e1 a i = Inr u)"
    using Restore_all [OF e1(2) r ts(2)] by blast
  have "ReadTopicSlot e2 a i = Inr t \<longleftrightarrow> ReadTopicSlot e a i = Inr t" for i t
  proof (cases "i \<in> ts_ID ` set ts")
    case True
    then obtain u where u: "u \<in> set ts" "ts_ID u = i" by blast
    then have "t \<in> set ts \<and> ts_ID t = i \<longleftrightarrow> t = u" using ts(2) by (auto simp: distinct_map inj_on_def)
    then show ?thesis using True e2(2) u ts(1) by auto
  next
    case False
    then show ?thesis using e2(2) e1(5) by simp
  qed
  then show ?thesis using e1(1) e2(1) r by blast
qed

end
