(* ===== verification/Scene_Correct.thy ===== *)
theory Scene_Correct
  imports L2_Correct
begin

text \<open>
  The scene operations: the closure of a topic is what its parent links reach and the walk ends where
  depths grow along them; a turn settles exactly into one of the turns its scene counted; the resumed
  scene is the last used one; opening a turn and settling it.
\<close>

section \<open>The closure of a topic\<close>

definition parent_rel :: "StorageEngine \<Rightarrow> u64 \<Rightarrow> (u64 \<times> u64) set" where
  "parent_rel e a = {(p, i). \<exists>t. ReadTopicSlot e a i = Inr t \<and> ts_ParentID t = Some p}"

text \<open>Every topic that hangs on a topic lies deeper than it.\<close>

definition depths_grow :: "StorageEngine \<Rightarrow> u64 \<Rightarrow> bool" where
  "depths_grow e a \<longleftrightarrow> (\<forall>i t p u. ReadTopicSlot e a i = Inr t \<and> ts_ParentID t = Some p \<and> ReadTopicSlot e a p = Inr u \<longrightarrow> ts_Depth u < ts_Depth t)"

lemma topic_kids_rel:
  assumes "engine_rep e m" "l2_addressed e a" "CollectAllTopicsStrict e a = Inr topics"
  shows "child_rel (topic_kids topics) = parent_rel e a"
proof -
  note scan = topics_scan [OF assms(1,3)]
  have "k \<in> set (topic_kids topics p) \<longleftrightarrow> (\<exists>t. ReadTopicSlot e a k = Inr t \<and> ts_ParentID t = Some p)" for p k
    using assms(2) unfolding topic_kids_def l2_addressed_def set_map set_filter scan by blast
  then show ?thesis by (auto simp: child_rel_def parent_rel_def)
qed

lemma scan_root:
  assumes "engine_rep e m" "l2_addressed e a" "CollectAllTopicsStrict e a = Inr topics"
  shows "i \<in> ts_ID ` set topics \<longleftrightarrow> (\<exists>t. ReadTopicSlot e a i = Inr t)"
proof
  assume "i \<in> ts_ID ` set topics"
  then obtain t j where "ts_ID t = i" "ReadTopicSlot e a j = Inr t" unfolding topics_scan [OF assms(1,3)] by blast
  then show "\<exists>t. ReadTopicSlot e a i = Inr t" using assms(2) unfolding l2_addressed_def by metis
next
  assume "\<exists>t. ReadTopicSlot e a i = Inr t"
  then obtain t where t: "ReadTopicSlot e a i = Inr t" by blast
  then have "t \<in> set topics" "ts_ID t = i" using topics_scan [OF assms(1,3)] assms(2) unfolding l2_addressed_def by blast+
  then show "i \<in> ts_ID ` set topics" by blast
qed

lemma TopicClosureL2_law:
  assumes rep: "engine_rep e m" and addr: "l2_addressed e a" and scan: "CollectAllTopicsStrict e a = Inr topics" and grow: "depths_grow e a"
  shows "\<exists>out. TopicClosureL2 e a root = Some (Inr out)
    \<and> set out = (if \<exists>t. ReadTopicSlot e a root = Inr t then {q. (root, q) \<in> (parent_rel e a)\<^sup>*} else {})"
proof (cases "\<exists>t. ReadTopicSlot e a root = Inr t")
  case False
  then have "root \<notin> ts_ID ` set topics" using scan_root [OF rep addr scan] by blast
  then show ?thesis using False scan by (simp add: TopicClosureL2_def)
next
  case True
  then have root: "root \<in> ts_ID ` set topics" using scan_root [OF rep addr scan] by blast
  let ?kids = "topic_kids topics"
  let ?rank = "\<lambda>i. case ReadTopicSlot e a i of Inl _ \<Rightarrow> 0 | Inr t \<Rightarrow> Suc (unat (ts_Depth t))"
  have "?rank p < ?rank k \<and> ?rank k \<le> 256" if "k \<in> set (?kids p)" for p k
  proof -
    have "(p, k) \<in> parent_rel e a" using that topic_kids_rel [OF rep addr scan] by (auto simp: child_rel_def)
    then obtain t where t: "ReadTopicSlot e a k = Inr t" "ts_ParentID t = Some p" by (auto simp: parent_rel_def)
    have "?rank p < Suc (unat (ts_Depth t))"
    proof (cases "ReadTopicSlot e a p")
      case (Inr u)
      then have "ts_Depth u < ts_Depth t" using grow t unfolding depths_grow_def by blast
      then show ?thesis using Inr by (simp add: word_less_nat_alt)
    qed simp
    then show ?thesis using t unsigned_less [of "ts_Depth t", where ?'a = nat] by simp
  qed
  moreover have "length (?kids p) \<le> length topics" for p by (simp add: topic_kids_def)
  ultimately obtain r where r: "expand ?kids [root] [root] = Some r" using expand_returns [of ?kids ?rank 256 "length topics"] by blast
  have "set r = {q. (root, q) \<in> (parent_rel e a)\<^sup>*}"
    unfolding expand_reachable [OF r] topic_kids_rel [OF rep addr scan] by (auto simp: rtrancl_eq_or_trancl)
  then show ?thesis using r root scan True by (simp add: TopicClosureL2_def)
qed

lemma TopicClosureL2_cycle:
  assumes rep: "engine_rep e m" and addr: "l2_addressed e a" and scan: "CollectAllTopicsStrict e a = Inr topics"
    and cyc: "(root, root) \<in> (parent_rel e a)\<^sup>+"
  shows "TopicClosureL2 e a root = None"
proof -
  let ?R = "parent_rel e a" and ?kids = "topic_kids topics"
  obtain q where "(q, root) \<in> ?R" using tranclD2 [OF cyc] by blast
  then have root: "root \<in> ts_ID ` set topics"
    using scan_root [OF rep addr scan] unfolding parent_rel_def by blast
  have "expand ?kids [root] [root] = None"
  proof (rule ccontr)
    assume "expand ?kids [root] [root] \<noteq> None"
    then obtain r where r: "expand ?kids [root] [root] = Some r" by blast
    let ?C = "{q. (q, root) \<in> ?R\<^sup>+}"
    have "\<exists>k \<in> set (?kids p). k \<in> ?C" if p: "p \<in> ?C" for p
    proof -
      obtain k where k: "(p, k) \<in> ?R" "(k, root) \<in> ?R\<^sup>*" using tranclD [of p root ?R] p by blast
      then have "k \<in> ?C" using cyc by (auto simp: rtrancl_eq_or_trancl)
      moreover have "k \<in> set (?kids p)" using k(1) topic_kids_rel [OF rep addr scan] by (auto simp: child_rel_def)
      ultimately show ?thesis by blast
    qed
    then show False using expand_cycle [OF r, of ?C] cyc by simp
  qed
  then show ?thesis using root scan by (simp add: TopicClosureL2_def)
qed

section \<open>Settling\<close>

lemma settle_loop_returns:
  assumes "turnSeq \<noteq> -1"
  shows "settle_loop H sc t turnSeq s = Some (if \<exists>q. s \<le> q \<and> q \<le> turnSeq \<and> ComputeTurnTopicID H sc q = t then Inr () else Inl (NewError ErrInvalidQuery))"
proof (induction "unat turnSeq + 1 - unat s" arbitrary: s rule: less_induct)
  case less
  show ?case
  proof (cases "s \<le> turnSeq")
    case False
    then show ?thesis by (subst settle_loop.simps) auto
  next
    case True
    then have s: "s \<noteq> -1" using assms by (metis max_word_max word_order.extremum_uniqueI)
    then have suc: "unat (s + 1) = unat s + 1" by (metis Suc_eq_plus1 add.commute unatSuc add_eq_0_iff)
    then have IH: "settle_loop H sc t turnSeq (s + 1) = Some (if \<exists>q. s + 1 \<le> q \<and> q \<le> turnSeq \<and> ComputeTurnTopicID H sc q = t then Inr () else Inl (NewError ErrInvalidQuery))"
      using less True by (simp add: word_le_nat_alt)
    have step: "s \<le> q \<longleftrightarrow> q = s \<or> s + 1 \<le> q" for q using suc by (auto simp: word_le_nat_alt word_unat_eq_iff)
    have "(\<exists>q. s \<le> q \<and> q \<le> turnSeq \<and> ComputeTurnTopicID H sc q = t) \<longleftrightarrow> ComputeTurnTopicID H sc s = t \<or> (\<exists>q. s + 1 \<le> q \<and> q \<le> turnSeq \<and> ComputeTurnTopicID H sc q = t)"
      unfolding step using True by auto
    then show ?thesis by (subst settle_loop.simps) (simp add: True IH)
  qed
qed

lemma SettleTarget_law:
  assumes "turnSeq \<noteq> -1"
  shows "SettleTarget H sc t turnSeq = Some (if \<exists>q. 1 \<le> q \<and> q \<le> turnSeq \<and> ComputeTurnTopicID H sc q = t then Inr () else Inl (NewError ErrInvalidQuery))"
  unfolding SettleTarget_def by (rule settle_loop_returns [OF assms])

text \<open>At the last value of the counter the loop's bound can never be passed.\<close>

lemma settle_loop_endless:
  assumes "settle_loop H sc t turnSeq s = Some r" "turnSeq = -1"
  shows "\<exists>q. ComputeTurnTopicID H sc q = t"
proof -
  have "turnSeq = -1 \<longrightarrow> (\<exists>q. ComputeTurnTopicID H sc q = t)"
  proof (rule settle_loop.raw_induct [OF _ assms(1), of "\<lambda>H sc t turnSeq s r. turnSeq = -1 \<longrightarrow> (\<exists>q. ComputeTurnTopicID H sc q = t)"])
    fix rec :: "(string \<Rightarrow> u64) \<Rightarrow> u64 \<Rightarrow> u64 \<Rightarrow> u64 \<Rightarrow> u64 \<Rightarrow> (goerr + unit) option" and H sc t turnSeq s r
    assume IH: "\<And>H sc t turnSeq s r. rec H sc t turnSeq s = Some r \<Longrightarrow> turnSeq = -1 \<longrightarrow> (\<exists>q. ComputeTurnTopicID H sc q = t)"
      and r: "(if \<not> s \<le> turnSeq then Some (Inl (NewError ErrInvalidQuery)) else if ComputeTurnTopicID H sc s = t then Some (Inr ())
        else rec H sc t turnSeq (s + 1)) = Some r"
    show "turnSeq = -1 \<longrightarrow> (\<exists>q. ComputeTurnTopicID H sc q = t)"
      using r IH by (auto split: if_splits)
  qed
  then show ?thesis using assms(2) by blast
qed

section \<open>The scene a domain resumes\<close>

context comparison
begin

lemma MaxFunc_max:
  assumes "xs \<noteq> []"
  shows "MaxFunc c xs \<in> set xs \<and> (\<forall>x \<in> set xs. c x (MaxFunc c xs) \<le> 0)"
proof -
  have "fold (\<lambda>x m. if c x m > 0 then x else m) ys z \<in> insert z (set ys)
      \<and> (\<forall>x \<in> insert z (set ys). c x (fold (\<lambda>x m. if c x m > 0 then x else m) ys z) \<le> 0)" for ys z
  proof (induction ys arbitrary: z)
    case Nil
    then show ?case using total [of z z] by auto
  next
    case (Cons y ys)
    let ?z = "if c y z > 0 then y else z"
    have z: "c z ?z \<le> 0" "c y ?z \<le> 0" using total [of z z] total [of y y] total [of y z] by (auto simp: not_less)
    have "fold (\<lambda>x m. if c x m > 0 then x else m) (y # ys) z = fold (\<lambda>x m. if c x m > 0 then x else m) ys ?z" by simp
    then show ?case using Cons.IH [of ?z] z trans by (smt (verit) insert_iff list.set(2))
  qed
  then show ?thesis using assms by (cases xs) (auto simp: MaxFunc_def)
qed

end

lemma comparison_resumed: "comparison compare_resumed"
  by unfold_locales (auto simp: compare_resumed_def cmp_def split: if_splits)

text \<open>\<open>a\<close> is resumed rather than \<open>b\<close>: used later, or else further on, or else of smaller id.\<close>

definition resumed_over :: "SceneSlot \<Rightarrow> SceneSlot \<Rightarrow> bool" where
  "resumed_over a b \<longleftrightarrow> ss_LastUsedAt b < ss_LastUsedAt a
     \<or> ss_LastUsedAt b = ss_LastUsedAt a \<and> (ss_TurnSeq b < ss_TurnSeq a \<or> ss_TurnSeq b = ss_TurnSeq a \<and> ss_SceneID a \<le> ss_SceneID b)"

lemma compare_resumed_over: "compare_resumed b a \<le> 0 \<longleftrightarrow> resumed_over a b"
  by (auto simp: compare_resumed_def cmp_def resumed_over_def split: if_splits)

lemma scenes_scan:
  assumes "engine_rep e m" "CollectAllScenesL2 e a = Inr ss"
  shows "set ss = {s. \<exists>i. ReadSceneSlot e a i = Inr s}"
  using scene.CollectAllStrict_ok(3) [OF assms(1)] assms(2) unfolding CollectAllScenesL2_def typed_reads(2) [OF assms(1)] by blast

lemma CurrentScene_law:
  assumes "engine_rep e m" "CurrentScene e a = Inr i"
  shows "(i = 0 \<and> (\<forall>j s. ReadSceneSlot e a j \<noteq> Inr s))
    \<or> (\<exists>s. ss_SceneID s = i \<and> (\<exists>j. ReadSceneSlot e a j = Inr s) \<and> (\<forall>j s'. ReadSceneSlot e a j = Inr s' \<longrightarrow> resumed_over s s'))"
proof -
  obtain ss where ss: "CollectAllScenesL2 e a = Inr ss" "i = (if ss = [] then 0 else ss_SceneID (MaxFunc compare_resumed ss))"
    using assms(2) by (auto simp: CurrentScene_def split: sum.splits if_splits)
  note scan = scenes_scan [OF assms(1) ss(1)]
  show ?thesis
  proof (cases "ss = []")
    case True
    then show ?thesis using ss(2) scan by auto
  next
    case False
    let ?s = "MaxFunc compare_resumed ss"
    have "?s \<in> set ss" "\<forall>x \<in> set ss. resumed_over ?s x"
      using comparison.MaxFunc_max [OF comparison_resumed False] by (auto simp: compare_resumed_over)
    then show ?thesis using ss(2) False unfolding scan by auto
  qed
qed

section \<open>Opening and settling a turn\<close>

lemma scene_put:
  assumes rep: "engine_rep e m" and own: "own_kind e a RecL2Scene i"
    and e': "engine_rep e' (m((a, i) \<mapsto> record_of marshal_scene RecL2Scene s))"
  shows "ReadTopicSlot e' a j = Inr t \<longleftrightarrow> ReadTopicSlot e a j = Inr t" "ReadArchiveSlot e' a j = Inr x \<longleftrightarrow> ReadArchiveSlot e a j = Inr x"
    "ReadPlanNode e' a j = Inr n \<longleftrightarrow> ReadPlanNode e a j = Inr n"
    "scene_ok s \<Longrightarrow> ReadSceneSlot e' a j = Inr u \<longleftrightarrow> (if j = i then u = s else ReadSceneSlot e a j = Inr u)"
proof -
  have none: "typed_at um m a rt i = None" if "rt \<noteq> RecL2Scene" for um :: "bytes \<Rightarrow> goerr + 'b" and rt
    by (rule typed_other_kind) (use own that in \<open>simp add: own_kind_store [OF rep]\<close>)
  have put: "typed_at um (m((a, i) \<mapsto> record_of marshal_scene RecL2Scene s)) a rt j = typed_at um m a rt j" if "rt \<noteq> RecL2Scene"
    for um :: "bytes \<Rightarrow> goerr + 'b" and rt
    using none [OF that, of um] that by (auto simp: typed_at_def record_of_def)
  show "ReadTopicSlot e' a j = Inr t \<longleftrightarrow> ReadTopicSlot e a j = Inr t" "ReadArchiveSlot e' a j = Inr x \<longleftrightarrow> ReadArchiveSlot e a j = Inr x"
    "ReadPlanNode e' a j = Inr n \<longleftrightarrow> ReadPlanNode e a j = Inr n"
    unfolding typed_reads(1,3,4) [OF rep] typed_reads(1,3,4) [OF e']
    by (simp_all only: put [OF kinds_distinct(1)] put [OF kinds_distinct(4) [symmetric]] put [OF kinds_distinct(5) [symmetric]])
  show "ReadSceneSlot e' a j = Inr u \<longleftrightarrow> (if j = i then u = s else ReadSceneSlot e a j = Inr u)" if "scene_ok s"
    unfolding typed_reads(2) [OF rep] typed_reads(2) [OF e'] using scene.typed_record_of [OF that, of _ a i RecL2Scene] by (auto simp: typed_at_def)
qed

lemma own_kind_scene: "engine_rep e m \<Longrightarrow> ReadSceneSlot e a i = Inr s \<Longrightarrow> own_kind e a RecL2Scene i"
  using typed_kind [of unmarshal_scene m a RecL2Scene i s] by (auto simp: own_kind_store typed_reads(2))

lemma write_scene_law:
  assumes inv: "domain_inv H a c" and own: "own_kind (ctx_Engine c) a RecL2Scene i" and ok: "scene_ok s" "size_of marshal_scene s < 2 ^ 32"
    and room: "engine_room (ctx_Engine c) (RecordHeaderSize + size_of marshal_scene s + k)"
  shows "\<exists>e'. WriteSceneSlot a i s (ctx_Engine c) = (Inr (), e') \<and> engine_room e' k \<and> domain_inv H a (c\<lparr>ctx_Engine := e'\<rparr>)
    \<and> (\<forall>j u. ReadSceneSlot e' a j = Inr u \<longleftrightarrow> (if j = i then u = s else ReadSceneSlot (ctx_Engine c) a j = Inr u))
    \<and> (\<forall>b j. (b, j) \<noteq> (a, i) \<longrightarrow> ReadRecord e' b j = ReadRecord (ctx_Engine c) b j)"
proof -
  let ?e = "ctx_Engine c"
  obtain m where rep: "engine_rep ?e m" using domain_invD(1) [OF inv] by blast
  obtain e' where e': "WriteSceneSlot a i s ?e = (Inr (), e')" "engine_rep e' (m((a, i) \<mapsto> record_of marshal_scene RecL2Scene s))" "engine_room e' k"
    using scene.writeJSON_law [OF rep ok kinds_distinct(8) room] unfolding WriteSceneSlot_def by blast
  note put = scene_put [OF rep own e'(2)]
  have l2: "l2_mirrors e' a (ctx_L2Meta c)" using domain_invD(2) [OF inv] l2_mirrors_cong [OF put(1)] by blast
  have "domain_inv H a (c\<lparr>ctx_Engine := e', ctx_L2Meta := ctx_L2Meta c\<rparr>)"
    by (rule domain_topics [OF inv e'(2) l2]) (use put(2,3) in blast)+
  moreover have "ReadRecord e' b j = ReadRecord ?e b j" if "(b, j) \<noteq> (a, i)" for b j
    by (rule eng.read_frame [OF rep e'(2)]) (use that in auto)
  ultimately show ?thesis using e'(1,3) put(4) [OF ok(1)] by auto
qed

text \<open>Opening a turn advances the scene's counter by one and stamps it as the last used.\<close>

definition opened_turn :: "i64 \<Rightarrow> SceneSlot \<Rightarrow> SceneSlot" where
  "opened_turn stamp s = s\<lparr>ss_TurnSeq := ss_TurnSeq s + 1, ss_LastUsedAt := stamp\<rparr>"

lemma OpenSceneTurn_law:
  assumes inv: "domain_inv H a c" and s: "ReadSceneSlot (ctx_Engine c) a i = Inr s"
    and ok: "scene_ok (opened_turn stamp s)" "size_of marshal_scene (opened_turn stamp s) < 2 ^ 32"
    and room: "engine_room (ctx_Engine c) (RecordHeaderSize + size_of marshal_scene (opened_turn stamp s) + k)"
  shows "\<exists>e'. OpenSceneTurn a i stamp (ctx_Engine c) = (Inr (opened_turn stamp s), e') \<and> engine_room e' k \<and> domain_inv H a (c\<lparr>ctx_Engine := e'\<rparr>)
    \<and> (\<forall>j u. ReadSceneSlot e' a j = Inr u \<longleftrightarrow> (if j = i then u = opened_turn stamp s else ReadSceneSlot (ctx_Engine c) a j = Inr u))
    \<and> (\<forall>b j. (b, j) \<noteq> (a, i) \<longrightarrow> ReadRecord e' b j = ReadRecord (ctx_Engine c) b j)"
proof -
  obtain m where rep: "engine_rep (ctx_Engine c) m" using domain_invD(1) [OF inv] by blast
  from write_scene_law [OF inv own_kind_scene [OF rep s] ok room]
  show ?thesis using s by (auto simp: OpenSceneTurn_def opened_turn_def Let_def)
qed

text \<open>What settling a turn stores: the new track and bounds, and what the host and Dream gave the stored topic.\<close>

definition settled :: "u64 \<Rightarrow> u64 \<Rightarrow> string list \<Rightarrow> i64 \<Rightarrow> i64 \<Rightarrow> TopicSlot option \<Rightarrow> TopicSlot" where
  "settled sc t kws userTS agentTS stored = (case stored of None \<Rightarrow> turn_topic sc t kws userTS agentTS
     | Some old \<Rightarrow> (turn_topic sc t kws userTS agentTS)\<lparr>ts_Name := ts_Name old, ts_Depth := ts_Depth old, ts_ParentID := ts_ParentID old\<rparr>)"

lemma settled_ID [simp]: "ts_ID (settled sc t kws us as stored) = t"
  by (simp add: settled_def turn_topic_def split: option.splits)

lemma CreateTurnTopicL2_law:
  assumes inv: "domain_inv H a c"
    and stored: "case stored of Some old \<Rightarrow> ReadTopicSlot (ctx_Engine c) a t = Inr old | None \<Rightarrow> ReadRecord (ctx_Engine c) a t = Inl (NewError ErrNotFound)"
    and fit: "topics_fit a [settled sc t kws us as stored] (ctx_Engine c) k"
  shows "\<exists>e'. CreateTurnTopicL2 a sc t kws us as (ctx_Engine c) = (Inr (settled sc t kws us as stored), e') \<and> engine_room e' k
    \<and> domain_inv H a (SyncL2Meta (settled sc t kws us as stored) (c\<lparr>ctx_Engine := e'\<rparr>))
    \<and> (\<forall>i u. ReadTopicSlot e' a i = Inr u \<longleftrightarrow> (if i = t then u = settled sc t kws us as stored else ReadTopicSlot (ctx_Engine c) a i = Inr u))
    \<and> (\<forall>b i. (b, i) \<noteq> (a, t) \<longrightarrow> ReadRecord e' b i = ReadRecord (ctx_Engine c) b i)"
proof -
  let ?new = "settled sc t kws us as stored"
  obtain e' where e': "WriteTopicSlot a (ts_ID ?new) ?new (ctx_Engine c) = (Inr (), e')" "engine_room e' k"
    "domain_inv H a (SyncL2Meta ?new (c\<lparr>ctx_Engine := e'\<rparr>))"
    "\<forall>i u. ReadTopicSlot e' a i = Inr u \<longleftrightarrow> (if i = ts_ID ?new then u = ?new else ReadTopicSlot (ctx_Engine c) a i = Inr u)"
    "\<forall>b i. (b, i) \<noteq> (a, ts_ID ?new) \<longrightarrow> ReadRecord e' b i = ReadRecord (ctx_Engine c) b i"
    using write_topic_law [OF inv fit] by blast
  have "CreateTurnTopicL2 a sc t kws us as (ctx_Engine c) = (Inr ?new, e')"
  proof (cases stored)
    case None
    then have "ReadTopicLenient (ctx_Engine c) a t = Inl (NewError ErrNotFound)" using stored by (simp add: ReadTopicLenient_def)
    then show ?thesis using e'(1) None by (simp add: CreateTurnTopicL2_def settled_def turn_topic_def)
  next
    case (Some old)
    then have "ReadTopicLenient (ctx_Engine c) a t = Inr (Some old)" using stored ReadTopicLenient_topic by simp
    then show ?thesis using e'(1) Some by (simp add: CreateTurnTopicL2_def settled_def turn_topic_def)
  qed
  then show ?thesis using e'(2-5) by auto
qed

end
