(* ===== verification/Plan.thy ===== *)
theory Plan
  imports Domain_Context
begin

text \<open>
  \<^verbatim>\<open>internal/plan\<close>: the status words, the create and update steps of a plan node, the forest of a turn's
  plan with its views, and the rollup. The clock is an argument; the rollup, which reads it once per
  rewritten node, takes a time per node id. The source links tree nodes by pointers into a map keyed by
  the ordinal: the model keeps that map (\<open>heap\<close>) and names a node by its ordinal, and the recursive walks
  carry a fuel that bounds the depth, with \<open>None\<close> for a walk that would go on past it.
\<close>

section \<open>Status\<close>

definition PlanInProgress :: string where "PlanInProgress = ''in_progress''"
definition PlanDone :: string where "PlanDone = ''done''"
definition PlanFailed :: string where "PlanFailed = ''failed''"

definition statusNames :: "(byte, string) gomap" where
  "statusNames = [(StatusInProgress, PlanInProgress), (StatusDone, PlanDone), (StatusFailed, PlanFailed)]"

definition StatusToU8 :: "string \<Rightarrow> goerr + byte" where
  "StatusToU8 s = (case List.find (\<lambda>(u, name). name = s) statusNames of Some (u, _) \<Rightarrow> Inr u | None \<Rightarrow> Inl (NewError ErrInvalidQuery))"

definition StatusToString :: "byte \<Rightarrow> goerr + string" where
  "StatusToString u = (case map_of statusNames u of Some s \<Rightarrow> Inr s | None \<Rightarrow> Inl (NewError ErrDeserialization))"

definition IsTerminalStatus :: "byte \<Rightarrow> bool" where
  "IsTerminalStatus u \<longleftrightarrow> u = StatusDone \<or> u = StatusFailed"

record Step =
  st_TopicID :: u64
  st_Seq :: u32
  st_Status :: string
  st_Title :: string
  st_Summary :: string

record NodeSpec =
  sp_TopicID :: u64
  sp_ParentSeq :: u32
  sp_Title :: string

section \<open>Writing nodes\<close>

definition writeNode :: "(string \<Rightarrow> u64) \<Rightarrow> u64 \<Rightarrow> PlanNode \<Rightarrow> Context \<Rightarrow> (goerr + unit) \<times> Context" where
  "writeNode H agentID node ac = (case WritePlanNode H agentID (Some node) (ctx_Engine ac) of
     (Inl err, engine) \<Rightarrow> (Inl err, ac\<lparr>ctx_Engine := engine\<rparr>)
   | (Inr _, engine) \<Rightarrow> (Inr (), ac\<lparr>ctx_Engine := engine, ctx_Plans := UpsertNode (pn_TopicID node) (Some node) (ctx_Plans ac)\<rparr>))"

definition new_node :: "(string \<Rightarrow> u64) \<Rightarrow> i64 \<Rightarrow> NodeSpec \<Rightarrow> u32 \<Rightarrow> PlanNode" where
  "new_node H now spec seq = \<lparr>pn_IDHash = HashPlanNode H (sp_TopicID spec) seq, pn_TopicID = sp_TopicID spec, pn_Seq = seq,
     pn_ParentSeq = sp_ParentSeq spec, pn_Status = 0, pn_Title = sp_Title spec, pn_Summary = '''', pn_SummaryFolded = False,
     pn_CreatedAt = now, pn_FinishedAt = 0, pn_UpdatedAt = now\<rparr>"

definition CreateNode :: "(string \<Rightarrow> u64) \<Rightarrow> i64 \<Rightarrow> u64 \<Rightarrow> NodeSpec \<Rightarrow> Context \<Rightarrow> (goerr + u32) \<times> Context" where
  "CreateNode H now agentID spec ac =
     (if sp_ParentSeq spec \<noteq> 0 \<and> \<not> HasSeq (ctx_Plans ac) (sp_TopicID spec) (sp_ParentSeq spec)
      then (Inl (NewError ErrNotFound), ac)
      else let seq = NextSeq (ctx_Plans ac) (sp_TopicID spec) (MaxNodeSeq (ctx_L4 ac) (sp_TopicID spec));
               idHash = HashPlanNode H (sp_TopicID spec) seq;
               create = (case writeNode H agentID (new_node H now spec seq) ac of
                  (Inl err, ac) \<Rightarrow> (Inl err, ac) | (Inr _, ac) \<Rightarrow> (Inr seq, ac))
           in case ReadPlanNode (ctx_Engine ac) agentID idHash of
                Inl err \<Rightarrow> if CodeOf err \<noteq> ErrNotFound then (Inl (Error (CodeOf err) (Some err)), ac) else create
              | Inr _ \<Rightarrow> create)"

definition restate :: "i64 \<Rightarrow> byte \<Rightarrow> Step \<Rightarrow> PlanNode \<Rightarrow> PlanNode" where
  "restate now u8 step node =
     (let node = node\<lparr>pn_Status := u8\<rparr>;
          node = (if st_Summary step \<noteq> '''' then node\<lparr>pn_Summary := st_Summary step, pn_SummaryFolded := False\<rparr> else node);
          node = (if st_Title step \<noteq> '''' then node\<lparr>pn_Title := st_Title step\<rparr> else node);
          node = (if IsTerminalStatus (pn_Status node)
                  then (if pn_FinishedAt node = 0 then node\<lparr>pn_FinishedAt := now\<rparr> else node)
                  else node\<lparr>pn_FinishedAt := 0\<rparr>)
      in node\<lparr>pn_UpdatedAt := now\<rparr>)"

definition UpdateNode :: "(string \<Rightarrow> u64) \<Rightarrow> i64 \<Rightarrow> u64 \<Rightarrow> Step \<Rightarrow> Context \<Rightarrow> (goerr + unit) \<times> Context" where
  "UpdateNode H now agentID step ac = (case StatusToU8 (st_Status step) of Inl err \<Rightarrow> (Inl err, ac)
     | Inr u8 \<Rightarrow> (case ReadPlanNode (ctx_Engine ac) agentID (HashPlanNode H (st_TopicID step) (st_Seq step)) of
         Inl err \<Rightarrow> (Inl err, ac)
       | Inr node \<Rightarrow> writeNode H agentID (restate now u8 step node) ac))"

definition UpdateNodeSummaryLocked :: "(string \<Rightarrow> u64) \<Rightarrow> i64 \<Rightarrow> u64 \<Rightarrow> u64 \<Rightarrow> string \<Rightarrow> Context \<Rightarrow> (goerr + unit) \<times> Context" where
  "UpdateNodeSummaryLocked H now agentID nodeID summary ac = (case ReadPlanNode (ctx_Engine ac) agentID nodeID of
     Inl err \<Rightarrow> (Inl err, ac)
   | Inr node \<Rightarrow> writeNode H agentID (node\<lparr>pn_Summary := summary, pn_SummaryFolded := True, pn_UpdatedAt := now\<rparr>) ac)"

section \<open>The forest\<close>

record planNode =
  t_id :: u64
  t_seq :: u32
  t_parentSeq :: u32
  t_title :: string
  t_status :: byte
  t_summary :: string
  t_folded :: bool
  t_createdAt :: i64
  t_finishedAt :: i64
  t_updatedAt :: i64
  t_children :: "u32 list"

type_synonym heap = "(u32, planNode) gomap"

datatype PlanNodeView = NodeView (v_Seq: u32) (v_ParentSeq: u32) (v_Title: string) (v_Status: string) (v_Summary: string)
  (v_CreatedAt: i64) (v_FinishedAt: i64) (v_UpdatedAt: i64) (v_Children: "PlanNodeView list")

record PlanTree =
  tr_Roots :: "PlanNodeView list"
  tr_DoneCount :: nat
  tr_TotalCount :: nat

definition tree_node :: "PlanNode \<Rightarrow> planNode" where
  "tree_node n = \<lparr>t_id = pn_IDHash n, t_seq = pn_Seq n, t_parentSeq = pn_ParentSeq n, t_title = pn_Title n, t_status = pn_Status n,
     t_summary = pn_Summary n, t_folded = pn_SummaryFolded n, t_createdAt = pn_CreatedAt n, t_finishedAt = pn_FinishedAt n,
     t_updatedAt = pn_UpdatedAt n, t_children = []\<rparr>"

definition link_node :: "PlanNode \<Rightarrow> heap \<times> u32 list \<Rightarrow> heap \<times> u32 list" where
  "link_node n = (\<lambda>(heap, roots).
     if pn_ParentSeq n = 0 then (heap, roots @ [pn_Seq n])
     else case map_of heap (pn_ParentSeq n) of
         Some p \<Rightarrow> (AList.update (pn_ParentSeq n) (p\<lparr>t_children := t_children p @ [pn_Seq n]\<rparr>) heap, roots)
       | None \<Rightarrow> (heap, roots @ [pn_Seq n]))"

definition Forest :: "PlanNode list \<Rightarrow> heap \<times> u32 list" where
  "Forest nodes = fold link_node nodes (fold (\<lambda>n. AList.update (pn_Seq n) (tree_node n)) nodes [], [])"

text \<open>\<open>each f xs\<close> runs \<open>f\<close> on the elements in order and stops at the first error or endless walk.\<close>

fun each :: "('x \<Rightarrow> (goerr + 'y) option) \<Rightarrow> 'x list \<Rightarrow> (goerr + 'y list) option" where
  "each f [] = Some (Inr [])"
| "each f (x # xs) = (case f x of None \<Rightarrow> None | Some (Inl err) \<Rightarrow> Some (Inl err)
     | Some (Inr y) \<Rightarrow> (case each f xs of None \<Rightarrow> None | Some (Inl err) \<Rightarrow> Some (Inl err) | Some (Inr ys) \<Rightarrow> Some (Inr (y # ys))))"

fun ToNodeView :: "nat \<Rightarrow> heap \<Rightarrow> u32 \<Rightarrow> (goerr + PlanNodeView) option" where
  "ToNodeView 0 heap s = None"
| "ToNodeView (Suc fuel) heap s = (case map_of heap s of None \<Rightarrow> None
     | Some n \<Rightarrow> (case StatusToString (t_status n) of Inl err \<Rightarrow> Some (Inl err)
       | Inr status \<Rightarrow>
           let title = (if t_title n = '''' then dec_word (t_seq n) else t_title n)
           in (case each (ToNodeView fuel heap) (t_children n) of None \<Rightarrow> None | Some (Inl err) \<Rightarrow> Some (Inl err)
               | Some (Inr children) \<Rightarrow> Some (Inr (NodeView (t_seq n) (t_parentSeq n) title status (t_summary n)
                   (t_createdAt n) (t_finishedAt n) (t_updatedAt n) children)))))"

primrec countTree :: "PlanNodeView \<Rightarrow> nat \<times> nat" where
  "countTree (NodeView sq p ti st su ca fa ua kids) =
     fold (\<lambda>(d, t) (nd, nt). (nd + d, nt + t)) (map countTree kids) (if st = PlanDone then 1 else 0, 1)"

definition CountForest :: "PlanNodeView list \<Rightarrow> nat \<times> nat" where
  "CountForest views = fold (\<lambda>v (nd, nt). case countTree v of (d, t) \<Rightarrow> (nd + d, nt + t)) views (0, 0)"

definition aggregate :: "Context \<Rightarrow> u64 \<Rightarrow> PlanNode list" where
  "aggregate ac topicID = (case Aggregate (ctx_Plans ac) topicID of None \<Rightarrow> [] | Some agg \<Rightarrow> pa_Nodes agg)"

definition BuildTree :: "Context \<Rightarrow> u64 \<Rightarrow> (goerr + PlanTree) option" where
  "BuildTree ac topicID =
     (let nodes = aggregate ac topicID; (heap, roots) = Forest nodes
      in case each (ToNodeView (length nodes) heap) roots of None \<Rightarrow> None | Some (Inl err) \<Rightarrow> Some (Inl err)
         | Some (Inr views) \<Rightarrow> (case CountForest views of (nd, nt) \<Rightarrow>
             Some (Inr \<lparr>tr_Roots = views, tr_DoneCount = nd, tr_TotalCount = nt\<rparr>)))"

primrec active_node :: "PlanNodeView \<Rightarrow> u32 \<Rightarrow> PlanNodeView list" where
  "active_node (NodeView sq p ti st su ca fa ua kids) parentSeq =
     (if st \<noteq> PlanInProgress then concat (map (\<lambda>f. f parentSeq) (map active_node kids))
      else [NodeView sq parentSeq ti st su ca fa ua (concat (map (\<lambda>f. f sq) (map active_node kids)))])"

definition activeNodes :: "PlanNodeView list \<Rightarrow> u32 \<Rightarrow> PlanNodeView list" where
  "activeNodes nodes parentSeq = concat (map (\<lambda>n. active_node n parentSeq) nodes)"

definition activeForest :: "PlanNodeView list \<Rightarrow> PlanNodeView list" where
  "activeForest nodes = activeNodes nodes 0"

definition BuildActiveTree :: "Context \<Rightarrow> u64 \<Rightarrow> (goerr + PlanTree) option" where
  "BuildActiveTree ac topicID = (case BuildTree ac topicID of None \<Rightarrow> None | Some (Inl err) \<Rightarrow> Some (Inl err)
     | Some (Inr full) \<Rightarrow> (let roots = activeForest (tr_Roots full) in case CountForest roots of (nd, nt) \<Rightarrow>
         Some (Inr \<lparr>tr_Roots = roots, tr_DoneCount = nd, tr_TotalCount = nt\<rparr>)))"

section \<open>Rollup\<close>

type_synonym rollup_state = "Context \<times> heap"

definition join_with :: "string \<Rightarrow> string list \<Rightarrow> string" where
  "join_with glue parts = concat (case parts of [] \<Rightarrow> [] | p # ps \<Rightarrow> p # concat (map (\<lambda>q. [glue, q]) ps))"

text \<open>Running a step on each element, threading the state and stopping at the first error.\<close>

fun each_do :: "('x \<Rightarrow> 's \<Rightarrow> ((goerr + unit) \<times> 's) option) \<Rightarrow> 'x list \<Rightarrow> 's \<Rightarrow> ((goerr + unit) \<times> 's) option" where
  "each_do f [] s = Some (Inr (), s)"
| "each_do f (x # xs) s = (case f x s of None \<Rightarrow> None | Some (Inl err, s) \<Rightarrow> Some (Inl err, s) | Some (Inr _, s) \<Rightarrow> each_do f xs s)"

text \<open>The parts a node's summary folds from, or \<open>None\<close> while a direct child is still open.\<close>

definition fold_parts :: "heap \<Rightarrow> u32 list \<Rightarrow> string list option" where
  "fold_parts heap kids =
     (let cs = List.map_filter (map_of heap) kids
      in if list_ex (\<lambda>c. \<not> IsTerminalStatus (t_status c)) cs then None
         else Some (filter (\<lambda>s. s \<noteq> '''') (map t_summary cs)))"

fun rollupNode :: "(string \<Rightarrow> u64) \<Rightarrow> (u64 \<Rightarrow> i64) \<Rightarrow> u64 \<Rightarrow> nat \<Rightarrow> u32 \<Rightarrow> rollup_state \<Rightarrow> ((goerr + unit) \<times> rollup_state) option" where
  "rollupNode H now agentID 0 s st = None"
| "rollupNode H now agentID (Suc fuel) s st =
     (case map_of (snd st) s of None \<Rightarrow> None
      | Some n \<Rightarrow> (case each_do (rollupNode H now agentID fuel) (t_children n) st of None \<Rightarrow> None
        | Some (Inl err, st) \<Rightarrow> Some (Inl err, st)
        | Some (Inr _, (ac, heap)) \<Rightarrow>
            if length (t_children n) = 0 \<or> t_status n \<noteq> StatusDone \<or> (t_summary n \<noteq> '''' \<and> \<not> t_folded n)
            then Some (Inr (), (ac, heap))
            else (case fold_parts heap (t_children n) of None \<Rightarrow> Some (Inr (), (ac, heap))
              | Some parts \<Rightarrow>
                  if length parts = 0 then Some (Inr (), (ac, heap))
                  else let summary = join_with ''; '' parts in
                    if summary = t_summary n then Some (Inr (), (ac, heap))
                    else (case UpdateNodeSummaryLocked H (now (t_id n)) agentID (t_id n) summary ac of
                        (Inl err, ac) \<Rightarrow> Some (Inl err, (ac, heap))
                      | (Inr _, ac) \<Rightarrow> Some (Inr (), (ac, AList.update s (n\<lparr>t_summary := summary\<rparr>) heap))))))"

definition RollupTree :: "(string \<Rightarrow> u64) \<Rightarrow> (u64 \<Rightarrow> i64) \<Rightarrow> u64 \<Rightarrow> u64 \<Rightarrow> Context \<Rightarrow> ((goerr + unit) \<times> Context) option" where
  "RollupTree H now agentID topicID ac =
     (let nodes = aggregate ac topicID; (heap, roots) = Forest nodes
      in map_option (\<lambda>(r, (ac, heap)). (r, ac)) (each_do (rollupNode H now agentID (length nodes)) roots (ac, heap)))"

end
