(* ===== verification/Plan_Correct.thy ===== *)
theory Plan_Correct
  imports Plan
begin

text \<open>
  The plan component against its specification: the status words, the create and update steps with the
  cache they maintain, and the forest, in which every stored step appears exactly once.
\<close>

section \<open>Status\<close>

lemma StatusToU8_StatusToString: "StatusToU8 s = Inr u \<longleftrightarrow> StatusToString u = Inr s"
  by (auto simp: StatusToU8_def StatusToString_def statusNames_def PlanInProgress_def PlanDone_def PlanFailed_def
      StatusInProgress_def StatusDone_def StatusFailed_def split: if_splits)

lemma StatusToString_total: "(\<exists>s. StatusToString u = Inr s) \<longleftrightarrow> u \<in> {StatusInProgress, StatusDone, StatusFailed}"
  by (auto simp: StatusToString_def statusNames_def)

lemma StatusToU8_error: "StatusToU8 s = Inl err \<Longrightarrow> CodeOf err = ErrInvalidQuery"
  by (auto simp: StatusToU8_def split: option.splits)

section \<open>Writing a node\<close>

definition plan_fits :: "PlanNode \<Rightarrow> bool" where
  "plan_fits n \<longleftrightarrow> plan_node_ok n \<and> size_of marshal_plan_node n < 2 ^ 32"

text \<open>What writing a node needs of the disk and of the hash.\<close>

definition node_ready :: "u64 \<Rightarrow> PlanNode \<Rightarrow> Context \<Rightarrow> nat \<Rightarrow> bool" where
  "node_ready a node c k \<longleftrightarrow> plan_fits node \<and> own_kind (ctx_Engine c) a RecL5PlanNode (pn_IDHash node)
     \<and> (\<forall>n. ReadPlanNode (ctx_Engine c) a (pn_IDHash node) = Inr n \<longrightarrow> pn_TopicID n = pn_TopicID node \<and> pn_Seq n = pn_Seq node)
     \<and> engine_room (ctx_Engine c) (RecordHeaderSize + size_of marshal_plan_node node + k)"

lemma RecL5PlanNode_pos: "RecL5PlanNode \<noteq> 0"
  by (simp add: RecL5PlanNode_def)

lemma record_entry:
  "m((a, i) \<mapsto> record_of marshal rt x) = put_all [\<lparr>r_agent = a, r_type = rt, r_id = i, r_data = snd (record_of marshal rt x)\<rparr>] m"
  by (simp add: put_all_def put_entry_def record_of_def)

lemma pc_mirrors_write:
  assumes pcm: "pc_mirrors H e a pc" and addr: "pn_IDHash node = HashPlanNode H (pn_TopicID node) (pn_Seq node)"
    and clash: "\<And>n. ReadPlanNode e a (pn_IDHash node) = Inr n \<Longrightarrow> pn_TopicID n = pn_TopicID node \<and> pn_Seq n = pn_Seq node"
    and new: "ReadPlanNode e' a (pn_IDHash node) = Inr node"
    and old: "\<And>i n. i \<noteq> pn_IDHash node \<Longrightarrow> ReadPlanNode e' a i = Inr n \<longleftrightarrow> ReadPlanNode e a i = Inr n"
  shows "pc_mirrors H e' a (UpsertNode (pn_TopicID node) (Some node) pc)"
proof -
  let ?pc = "UpsertNode (pn_TopicID node) (Some node) pc" and ?t = "pn_TopicID node"
  note wf = pc_mirrorsD(1) [OF pcm]
  have same: "pn_IDHash n = pn_IDHash node \<longleftrightarrow> pn_Seq n = pn_Seq node" if n: "n \<in> set (nodes_of pc ?t)" for n
  proof
    assume "pn_IDHash n = pn_IDHash node"
    then show "pn_Seq n = pn_Seq node" using clash [of n] pc_mirrorsD(2) [OF pcm n] by simp
  next
    assume "pn_Seq n = pn_Seq node"
    then show "pn_IDHash n = pn_IDHash node" using pc_mirrors_node(1) [OF pcm n] addr by simp
  qed
  then have "\<forall>n \<in> set (nodes_of pc ?t). pn_IDHash n = pn_IDHash node \<longleftrightarrow> pn_Seq n = pn_Seq node" by blast
  note up = UpsertNode_law [OF wf refl this]
  have hit: "n \<in> set (nodes_of ?pc t) \<longleftrightarrow> n = node" if "t = ?t" "pn_Seq n = pn_Seq node" for n t
    using pc_view_iff [OF up(1), of t "pn_Seq n" n] up(2) [of t "pn_Seq n"] that by auto
  have miss: "n \<in> set (nodes_of ?pc t) \<longleftrightarrow> n \<in> set (nodes_of pc t)" if "\<not> (t = ?t \<and> pn_Seq n = pn_Seq node)" for n t
    using pc_view_iff [OF up(1), of t "pn_Seq n" n] pc_view_iff [OF wf, of t "pn_Seq n" n] up(2) [of t "pn_Seq n"] that by simp
  show ?thesis
    unfolding pc_mirrors_def
  proof (intro conjI allI impI up(1))
    fix t n assume n: "n \<in> set (nodes_of ?pc t)"
    show "ReadPlanNode e' a (pn_IDHash n) = Inr n"
    proof (cases "t = ?t \<and> pn_Seq n = pn_Seq node")
      case True
      then show ?thesis using n hit new by blast
    next
      case False
      then have n': "n \<in> set (nodes_of pc t)" using n miss by blast
      have "pn_IDHash n \<noteq> pn_IDHash node"
        using False clash [of n] pc_mirrorsD(2) [OF pcm n'] pc_mirrors_node(2) [OF pcm n'] by auto
      then show ?thesis using pc_mirrorsD(2) [OF pcm n'] old by blast
    qed
  next
    fix i n assume n: "ReadPlanNode e' a i = Inr n"
    have "i = HashPlanNode H (pn_TopicID n) (pn_Seq n) \<and> pn_IDHash n = i \<and> n \<in> set (nodes_of ?pc (pn_TopicID n))"
    proof (cases "i = pn_IDHash node")
      case True
      then have "n = node" using n new by simp
      then show ?thesis using True addr hit [of ?t node] by simp
    next
      case False
      then have n': "ReadPlanNode e a i = Inr n" using n old by blast
      have "\<not> (pn_TopicID n = ?t \<and> pn_Seq n = pn_Seq node)" using pc_mirrorsD(3) [OF pcm n'] addr False by auto
      then show ?thesis using pc_mirrorsD(3-5) [OF pcm n'] miss by blast
    qed
    then show "i = HashPlanNode H (pn_TopicID n) (pn_Seq n)" "pn_IDHash n = i" "n \<in> set (nodes_of ?pc (pn_TopicID n))" by blast+
  qed
qed

lemma node_readyD:
  assumes "node_ready a node c k"
  shows "plan_node_ok node" "size_of marshal_plan_node node < 2 ^ 32" "own_kind (ctx_Engine c) a RecL5PlanNode (pn_IDHash node)"
    "\<And>n. ReadPlanNode (ctx_Engine c) a (pn_IDHash node) = Inr n \<Longrightarrow> pn_TopicID n = pn_TopicID node \<and> pn_Seq n = pn_Seq node"
    "engine_room (ctx_Engine c) (RecordHeaderSize + size_of marshal_plan_node node + k)"
  using assms unfolding node_ready_def plan_fits_def by blast+

lemma writeNode_law:
  assumes inv: "domain_inv H a c" and ready: "node_ready a node c k"
    and addr: "pn_IDHash node = HashPlanNode H (pn_TopicID node) (pn_Seq node)" "pn_Seq node \<noteq> 0"
  shows "\<exists>e'. writeNode H a node c = (Inr (), c\<lparr>ctx_Engine := e', ctx_Plans := UpsertNode (pn_TopicID node) (Some node) (ctx_Plans c)\<rparr>)
    \<and> domain_inv H a (c\<lparr>ctx_Engine := e', ctx_Plans := UpsertNode (pn_TopicID node) (Some node) (ctx_Plans c)\<rparr>)
    \<and> ReadPlanNode e' a (pn_IDHash node) = Inr node
    \<and> (\<forall>i n. i \<noteq> pn_IDHash node \<longrightarrow> ReadPlanNode e' a i = Inr n \<longleftrightarrow> ReadPlanNode (ctx_Engine c) a i = Inr n)
    \<and> engine_room e' k"
proof -
  let ?e = "ctx_Engine c" and ?pc = "UpsertNode (pn_TopicID node) (Some node) (ctx_Plans c)"
  obtain m where rep: "engine_rep ?e m" using domain_invD(1) [OF inv] by blast
  note r = node_readyD [OF ready] and pcm = domain_invD(4) [OF inv]
  obtain e' where e': "WritePlanNodeRecord a (pn_IDHash node) node ?e = (Inr (), e')"
    "engine_rep e' (m((a, pn_IDHash node) \<mapsto> record_of marshal_plan_node RecL5PlanNode node))" "engine_room e' k"
    using plan_node.writeJSON_law [OF rep r(1,2) RecL5PlanNode_pos r(5)] unfolding WritePlanNodeRecord_def by blast
  have new: "ReadPlanNode e' a (pn_IDHash node) = Inr node"
    unfolding ReadPlanNode_typed [OF e'(2)] by (rule plan_node.typed_record_of [OF r(1)]) simp
  have old: "ReadPlanNode e' a i = Inr n \<longleftrightarrow> ReadPlanNode ?e a i = Inr n" if "i \<noteq> pn_IDHash node" for i n
    using that unfolding ReadPlanNode_typed [OF rep] ReadPlanNode_typed [OF e'(2)] by (simp add: typed_at_def)
  have pc: "pc_mirrors H e' a ?pc" by (rule pc_mirrors_write [OF pcm addr(1) r(4) new old])
  let ?rs = "[\<lparr>r_agent = a, r_type = RecL5PlanNode, r_id = pn_IDHash node, r_data = snd (record_of marshal_plan_node RecL5PlanNode node)\<rparr>]"
  have own: "\<forall>x \<in> set ?rs. r_agent x = a \<and> r_type x = RecL5PlanNode \<and> own_kind ?e a RecL5PlanNode (r_id x)" using r(3) by simp
  note other = typed_put_other [OF rep _ own] and e2 = e'(2) [unfolded record_entry]
  have types: "RecL2Topic \<noteq> RecL5PlanNode" "RecL4Archive \<noteq> RecL5PlanNode"
    by (simp_all add: RecL2Topic_def RecL4Archive_def RecL5PlanNode_def)
  have l2: "l2_mirrors e' a (ctx_L2Meta c)"
    using domain_invD(2) [OF inv] l2_mirrors_cong [of e' a ?e] unfolding ReadTopicSlot_typed [OF rep] ReadTopicSlot_typed [OF e2] other [OF types(1)] by blast
  have l4: "l4_mirrors H e' a (ctx_L4 c)"
    using domain_invD(3) [OF inv] l4_mirrors_cong [of e' a ?e] unfolding ReadArchiveSlot_typed [OF rep] ReadArchiveSlot_typed [OF e2] other [OF types(2)] by blast
  have "writeNode H a node c = (Inr (), c\<lparr>ctx_Engine := e', ctx_Plans := ?pc\<rparr>)"
    using e'(1) addr by (simp add: writeNode_def WritePlanNode_def)
  moreover have "domain_inv H a (c\<lparr>ctx_Engine := e', ctx_Plans := ?pc\<rparr>)"
    unfolding domain_inv_def using l2 l4 pc e'(2) by auto
  ultimately show ?thesis using new old e'(3) by blast
qed

section \<open>Creating and restating a step\<close>

definition next_step :: "Context \<Rightarrow> u64 \<Rightarrow> u32" where
  "next_step c t = NextSeq (ctx_Plans c) t (MaxNodeSeq (ctx_L4 c) t)"

text \<open>The turn's ordinals are not used up: neither a step nor a content record holds the greatest one.\<close>

definition ordinals_left :: "Context \<Rightarrow> u64 \<Rightarrow> bool" where
  "ordinals_left c t \<longleftrightarrow> MaxNodeSeq (ctx_L4 c) t \<noteq> -1 \<and> (\<forall>n \<in> set (nodes_of (ctx_Plans c) t). pn_Seq n \<noteq> -1)"

lemma next_step_fresh:
  assumes "ordinals_left c t"
  shows "next_step c t \<noteq> 0" "n \<in> set (nodes_of (ctx_Plans c) t) \<Longrightarrow> pn_Seq n < next_step c t"
    "x \<in> set (entries_of (ctx_L4 c) t) \<Longrightarrow> le_NodeSeq x < next_step c t"
proof -
  note o = assms [unfolded ordinals_left_def]
  note fresh = NextSeq_fresh [of "MaxNodeSeq (ctx_L4 c) t" "ctx_Plans c" t, folded next_step_def]
  show "next_step c t \<noteq> 0" "n \<in> set (nodes_of (ctx_Plans c) t) \<Longrightarrow> pn_Seq n < next_step c t"
    using fresh o by blast+
  show "x \<in> set (entries_of (ctx_L4 c) t) \<Longrightarrow> le_NodeSeq x < next_step c t"
    using fresh(1) o MaxNodeSeq_bound le_less_trans by blast
qed

lemma CreateNode_missing_parent:
  assumes "domain_inv H a c" "sp_ParentSeq spec \<noteq> 0" "pc_view (ctx_Plans c) (sp_TopicID spec) (sp_ParentSeq spec) = None"
  shows "CreateNode H now a spec c = (Inl (NewError ErrNotFound), c)"
  using assms HasSeq_view [OF pc_mirrorsD(1) [OF domain_invD(4) [OF assms(1)]]] by (simp add: CreateNode_def)

lemma CreateNode_law:
  fixes H a c spec now k
  assumes inv: "domain_inv H a c" and left: "ordinals_left c (sp_TopicID spec)"
    and parent: "sp_ParentSeq spec = 0 \<or> pc_view (ctx_Plans c) (sp_TopicID spec) (sp_ParentSeq spec) \<noteq> None"
    and free: "ReadRecord (ctx_Engine c) a (HashPlanNode H (sp_TopicID spec) (next_step c (sp_TopicID spec))) = Inl (NewError ErrNotFound)"
  defines "node \<equiv> new_node H now spec (next_step c (sp_TopicID spec))"
  assumes fits: "plan_fits node" and room: "engine_room (ctx_Engine c) (RecordHeaderSize + size_of marshal_plan_node node + k)"
  shows "\<exists>c'. CreateNode H now a spec c = (Inr (next_step c (sp_TopicID spec)), c') \<and> domain_inv H a c' \<and> engine_room (ctx_Engine c') k
    \<and> nodes_of (ctx_Plans c') (sp_TopicID spec) = nodes_of (ctx_Plans c) (sp_TopicID spec) @ [node]
    \<and> (\<forall>t. t \<noteq> sp_TopicID spec \<longrightarrow> nodes_of (ctx_Plans c') t = nodes_of (ctx_Plans c) t)"
proof -
  let ?t = "sp_TopicID spec" and ?s = "next_step c (sp_TopicID spec)"
  have node: "pn_TopicID node = ?t" "pn_Seq node = ?s" "pn_IDHash node = HashPlanNode H ?t ?s" by (simp_all add: node_def new_node_def)
  have absent: "ReadPlanNode (ctx_Engine c) a (HashPlanNode H ?t ?s) = Inl (NewError ErrNotFound)"
    using free by (simp add: ReadPlanNode_def readJSON_def)
  have ready: "node_ready a node c k"
    unfolding node_ready_def own_kind_def node(3) using fits room free absent by simp
  note s = next_step_fresh [OF left] and wf = pc_mirrorsD(1) [OF domain_invD(4) [OF inv]]
  have addr: "pn_IDHash node = HashPlanNode H (pn_TopicID node) (pn_Seq node)" "pn_Seq node \<noteq> 0" using node s(1) by simp_all
  obtain e' where w: "writeNode H a node c = (Inr (), c\<lparr>ctx_Engine := e', ctx_Plans := UpsertNode ?t (Some node) (ctx_Plans c)\<rparr>)"
    "domain_inv H a (c\<lparr>ctx_Engine := e', ctx_Plans := UpsertNode ?t (Some node) (ctx_Plans c)\<rparr>)" "engine_room e' k"
    using writeNode_law [OF inv ready addr] unfolding node(1) by blast
  have "\<not> (sp_ParentSeq spec \<noteq> 0 \<and> \<not> HasSeq (ctx_Plans c) ?t (sp_ParentSeq spec))" using parent HasSeq_view [OF wf] by auto
  then have run: "CreateNode H now a spec c = (Inr ?s, c\<lparr>ctx_Engine := e', ctx_Plans := UpsertNode ?t (Some node) (ctx_Plans c)\<rparr>)"
    using absent w(1) unfolding CreateNode_def next_step_def [symmetric] Let_def node_def [symmetric] by simp
  have "pn_IDHash n \<noteq> pn_IDHash node" if n: "n \<in> set (nodes_of (ctx_Plans c) ?t)" for n
  proof
    assume "pn_IDHash n = pn_IDHash node"
    then have "ReadPlanNode (ctx_Engine c) a (HashPlanNode H ?t ?s) = Inr n"
      using pc_mirrorsD(2) [OF domain_invD(4) [OF inv] n] node(3) by simp
    then show False using absent by simp
  qed
  then have "pn_IDHash node \<notin> pn_IDHash ` set (nodes_of (ctx_Plans c) ?t)" by force
  then have up: "upserted node (nodes_of (ctx_Plans c) ?t) = nodes_of (ctx_Plans c) ?t @ [node]"
    unfolding upserted_def replace_node_eq [OF nodes_of_wf(2) [OF wf]] by simp
  have "seq_sorted (nodes_of (ctx_Plans c) ?t @ [node])"
    using nodes_of_wf(1) [OF wf, of ?t] s(2) node(2) by (simp add: seq_sorted_def sorted_wrt_append)
  then have "sort_nodes (nodes_of (ctx_Plans c) ?t @ [node]) = nodes_of (ctx_Plans c) ?t @ [node]" by (rule sort_nodes_sorted)
  then have "nodes_of (UpsertNode ?t (Some node) (ctx_Plans c)) u = (if u = ?t then nodes_of (ctx_Plans c) ?t @ [node] else nodes_of (ctx_Plans c) u)" for u
    using up unfolding nodes_of_def [of "UpsertNode ?t (Some node) (ctx_Plans c)"] UpsertNode_plans [OF wf] by (simp add: agg_of_def nodes_of_def)
  then show ?thesis using run w(2,3) by auto
qed

lemma restate_simps [simp]: "pn_IDHash (restate now u st n) = pn_IDHash n" "pn_TopicID (restate now u st n) = pn_TopicID n"
  "pn_Seq (restate now u st n) = pn_Seq n" "pn_ParentSeq (restate now u st n) = pn_ParentSeq n" "pn_Status (restate now u st n) = u"
  "pn_CreatedAt (restate now u st n) = pn_CreatedAt n" "pn_UpdatedAt (restate now u st n) = now"
  by (simp_all add: restate_def Let_def)

lemma restate_finished: "pn_FinishedAt (restate now u st n) =
    (if IsTerminalStatus u then (if pn_FinishedAt n = 0 then now else pn_FinishedAt n) else 0)"
  by (simp add: restate_def Let_def)

lemma restate_text:
  "pn_Title (restate now u st n) = (if st_Title st = '''' then pn_Title n else st_Title st)"
  "pn_Summary (restate now u st n) = (if st_Summary st = '''' then pn_Summary n else st_Summary st)"
  "pn_SummaryFolded (restate now u st n) = (if st_Summary st = '''' then pn_SummaryFolded n else False)"
  by (simp_all add: restate_def Let_def)

lemma UpdateNode_law:
  assumes inv: "domain_inv H a c" and status: "StatusToU8 (st_Status st) = Inr u"
    and stored: "ReadPlanNode (ctx_Engine c) a (HashPlanNode H (st_TopicID st) (st_Seq st)) = Inr n" "pn_Seq n \<noteq> 0"
    and ready: "node_ready a (restate now u st n) c k"
  shows "\<exists>c'. UpdateNode H now a st c = (Inr (), c') \<and> domain_inv H a c' \<and> engine_room (ctx_Engine c') k
    \<and> ReadPlanNode (ctx_Engine c') a (pn_IDHash n) = Inr (restate now u st n)
    \<and> (\<forall>i m. i \<noteq> pn_IDHash n \<longrightarrow> ReadPlanNode (ctx_Engine c') a i = Inr m \<longleftrightarrow> ReadPlanNode (ctx_Engine c) a i = Inr m)"
proof -
  note pcm = domain_invD(4) [OF inv]
  have addr: "pn_IDHash (restate now u st n) = HashPlanNode H (pn_TopicID (restate now u st n)) (pn_Seq (restate now u st n))"
    "pn_Seq (restate now u st n) \<noteq> 0"
    using pc_mirrorsD(3,4) [OF pcm stored(1)] stored(2) by simp_all
  show ?thesis using writeNode_law [OF inv ready addr] status stored(1) by (auto simp: UpdateNode_def)
qed

end
