(* ===== verification/Sample_Store.thy ===== *)
theory Sample_Store
  imports Fresh_Store Codec_Size Scene_Correct Plan_Correct Cascade
begin

text \<open>
  A small store every concrete example can stand on, built by the engine's own operations: agent 1
  holds a scene, two topics of it (the second below the first), one utterance and one plan step of the
  first topic, each encoded by the model's codec. The hash instance tells content keys from plan keys.
\<close>

definition sample_hash :: "string \<Rightarrow> u64" where
  "sample_hash s = (if take 8 s = ''content:'' then (if drop 10 s = ''1'' then 5 else if drop 10 s = ''3'' then 4 else 3) else if take 5 s = ''plan:'' then (if drop 7 s = ''1'' then 6 else 2) else 9)"

definition sample_scene :: SceneSlot where
  "sample_scene = \<lparr>ss_SceneID = 7, ss_SceneName = ''home'', ss_TurnSeq = 1, ss_LastUsedAt = 1000, ss_L3ID = 0\<rparr>"

definition sample_topic :: "u64 \<Rightarrow> u64 option \<Rightarrow> byte \<Rightarrow> TopicSlot" where
  "sample_topic i parent depth = \<lparr>ts_ID = i, ts_SceneID = 7, ts_ParentID = parent, ts_Depth = depth, ts_Name = ''talk'',
     ts_FusedKeywords = [''tea''], ts_UserTimestamp = 1000, ts_AgentTimestamp = 1001\<rparr>"

definition sample_archive :: ArchiveSlot where
  "sample_archive = \<lparr>as_IDHash = 5, as_Kind = KindUtterance, as_Seq = 1, as_ContentType = ContentText, as_Role = RoleUser, as_TopicID = 9,
     as_EventType = '''', as_NodeSeq = 0, as_CreatedAt = 1000, as_Content = ''hi''\<rparr>"

definition sample_node :: PlanNode where
  "sample_node = \<lparr>pn_IDHash = 6, pn_TopicID = 9, pn_Seq = 1, pn_ParentSeq = 0, pn_Status = StatusInProgress, pn_Title = ''step'',
     pn_Summary = '''', pn_SummaryFolded = False, pn_CreatedAt = 1000, pn_FinishedAt = 0, pn_UpdatedAt = 1000\<rparr>"

lemma sample_ok: "scene_ok sample_scene" "topic_ok (sample_topic i p d)" "archive_ok sample_archive" "plan_node_ok sample_node"
  unfolding sample_scene_def sample_topic_def sample_archive_def sample_node_def scene_ok_def topic_ok_def archive_ok_def plan_node_ok_def
  by (simp_all add: i64_ok_def) (code_simp+)

lemma sample_size: "size_of marshal_scene sample_scene < 2000" "size_of marshal_topic (sample_topic i p d) < 2000"
  "size_of marshal_archive sample_archive < 2000" "size_of marshal_plan_node sample_node < 2000"
  using scene_size [OF sample_ok(1)] topic_size [OF sample_ok(2) [of i p d]] archive_size [OF sample_ok(3)] plan_node_size [OF sample_ok(4)]
  by (simp_all add: sample_scene_def sample_topic_def sample_archive_def sample_node_def)

lemma stored_rep:
  assumes "\<forall>r \<in> set rs. entry_ok r" "batch_size rs < 2 ^ 60"
  shows "\<exists>e0 out e. Create blank_file = (Inr e0, efile e0) \<and> WriteRecordBatch rs e0 = (Inr out, e) \<and> engine_rep e (put_all rs Map.empty)
    \<and> engine_room e (2 ^ 60)"
proof -
  obtain e0 where e0: "Create blank_file = (Inr e0, efile e0)" "engine_rep e0 Map.empty" "engine_room e0 (2 ^ 61)"
    using fresh_rep [of "2 ^ 61"] by auto
  have "engine_room e0 (batch_size rs + 2 ^ 60)" using e0(3) assms(2) by (simp add: engine_room_def)
  from eng.write_law [OF e0(2) this assms(1)] e0(1) show ?thesis by blast
qed

definition sample_records :: "RecordEntry list" where
  "sample_records =
     [entry_for marshal_scene 1 RecL2Scene ss_SceneID sample_scene,
      entry_for marshal_topic 1 RecL2Topic ts_ID (sample_topic 9 None 1),
      entry_for marshal_topic 1 RecL2Topic ts_ID (sample_topic 8 (Some 9) 2),
      entry_for marshal_archive 1 RecL4Archive as_IDHash sample_archive,
      entry_for marshal_plan_node 1 RecL5PlanNode pn_IDHash sample_node]"

definition sample_store :: store where
  "sample_store = [(1, 7) \<mapsto> record_of marshal_scene RecL2Scene sample_scene,
     (1, 9) \<mapsto> record_of marshal_topic RecL2Topic (sample_topic 9 None 1),
     (1, 8) \<mapsto> record_of marshal_topic RecL2Topic (sample_topic 8 (Some 9) 2),
     (1, 5) \<mapsto> record_of marshal_archive RecL4Archive sample_archive,
     (1, 6) \<mapsto> record_of marshal_plan_node RecL5PlanNode sample_node]"

lemma sample_put: "put_all sample_records Map.empty = sample_store"
  by (rule ext) (simp add: sample_records_def sample_store_def put_entry_def entry_for_def record_of_def sample_scene_def sample_topic_def
      sample_archive_def sample_node_def)


lemma entry_for_ok:
  assumes "\<exists>d. marshal x = Inr d \<and> length d = size_of marshal x \<and> entry_ok \<lparr>r_agent = a, r_type = rt, r_id = key x, r_data = d\<rparr>"
  shows "entry_ok (entry_for marshal a rt key x)" "length (r_data (entry_for marshal a rt key x)) = size_of marshal x"
  using assms by (auto simp: entry_for_def record_of_def)

lemma sample_entries: "\<forall>r \<in> set sample_records. entry_ok r" "batch_size sample_records < 2 ^ 60"
proof -
  note s = less_trans [OF sample_size(1), of "2 ^ 32", simplified] less_trans [OF sample_size(2), of "2 ^ 32", simplified]
    less_trans [OF sample_size(3), of "2 ^ 32", simplified] less_trans [OF sample_size(4), of "2 ^ 32", simplified]
  note e = entry_for_ok [OF scene.entry_of [OF sample_ok(1) _ kinds_distinct(8)]] entry_for_ok [OF topic.entry_of [OF sample_ok(2) _ kinds_distinct(7)]]
    entry_for_ok [OF archive.entry_of [OF sample_ok(3) _ kinds_distinct(9)]] entry_for_ok [OF plan_node.entry_of [OF sample_ok(4) _ kinds_distinct(10)]]
  show "\<forall>r \<in> set sample_records. entry_ok r" using s by (simp add: sample_records_def e)
  have t: "size_of marshal_topic (sample_topic 9 None 1) < 2000" "size_of marshal_topic (sample_topic 8 (Some 9) 2) < 2000" by (rule sample_size)+
  have "batch_size sample_records = 130 + size_of marshal_scene sample_scene + size_of marshal_topic (sample_topic 9 None 1)
      + size_of marshal_topic (sample_topic 8 (Some 9) 2) + size_of marshal_archive sample_archive + size_of marshal_plan_node sample_node"
    using s by (simp add: sample_records_def e RecordHeaderSize_def)
  then have "batch_size sample_records < 20000" using sample_size(1,3,4) t by linarith
  then show "batch_size sample_records < 2 ^ 60" by simp
qed

text \<open>What the typed readers find in it.\<close>

lemma typed_at_cases: "typed_at unmarshal m a rt i = (case m (a, i) of None \<Rightarrow> None
    | Some (t, d) \<Rightarrow> if t = rt then typed_at unmarshal m a rt i else None)"
  by (simp add: typed_at_def split: option.splits prod.splits)

lemma sample_at: "sample_store (1, 7) = Some (record_of marshal_scene RecL2Scene sample_scene)"
  "sample_store (1, 9) = Some (record_of marshal_topic RecL2Topic (sample_topic 9 None 1))"
  "sample_store (1, 8) = Some (record_of marshal_topic RecL2Topic (sample_topic 8 (Some 9) 2))"
  "sample_store (1, 5) = Some (record_of marshal_archive RecL4Archive sample_archive)"
  "sample_store (1, 6) = Some (record_of marshal_plan_node RecL5PlanNode sample_node)"
  "k \<notin> {(1, 7), (1, 9), (1, 8), (1, 5), (1, 6)} \<Longrightarrow> sample_store k = None"
  by (simp_all add: sample_store_def)

lemma record_of_kind [simp]: "fst (record_of marshal rt x) = rt"
  by (simp add: record_of_def)

lemma sample_typed:
  "typed_at unmarshal sample_store a rt i = Some x \<Longrightarrow>
    a = 1 \<and> (i, rt) \<in> {(7, RecL2Scene), (9, RecL2Topic), (8, RecL2Topic), (5, RecL4Archive), (6, RecL5PlanNode)}"
  by (auto simp: typed_at_def sample_store_def record_of_def split: option.splits if_splits)

lemma sample_reads:
  "typed_at unmarshal_scene sample_store 1 RecL2Scene 7 = Some sample_scene"
  "typed_at unmarshal_topic sample_store 1 RecL2Topic 9 = Some (sample_topic 9 None 1)"
  "typed_at unmarshal_topic sample_store 1 RecL2Topic 8 = Some (sample_topic 8 (Some 9) 2)"
  "typed_at unmarshal_archive sample_store 1 RecL4Archive 5 = Some sample_archive"
  "typed_at unmarshal_plan_node sample_store 1 RecL5PlanNode 6 = Some sample_node"
  by (rule scene.typed_record_of topic.typed_record_of archive.typed_record_of plan_node.typed_record_of, rule sample_ok, rule sample_at)+


lemma sample_engine:
  "\<exists>e0 out e. Create blank_file = (Inr e0, efile e0) \<and> WriteRecordBatch sample_records e0 = (Inr out, e) \<and> engine_rep e sample_store
    \<and> engine_room e (2 ^ 60)"
  using stored_rep [OF sample_entries] unfolding sample_put .

definition sample_read :: "StorageEngine \<Rightarrow> bool" where
  "sample_read e \<longleftrightarrow> (\<forall>i t. ReadTopicSlot e 1 i = Inr t \<longleftrightarrow> i = 9 \<and> t = sample_topic 9 None 1 \<or> i = 8 \<and> t = sample_topic 8 (Some 9) 2)
    \<and> (\<forall>i s. ReadSceneSlot e 1 i = Inr s \<longleftrightarrow> i = 7 \<and> s = sample_scene)
    \<and> (\<forall>i x. ReadArchiveSlot e 1 i = Inr x \<longleftrightarrow> i = 5 \<and> x = sample_archive)
    \<and> (\<forall>i n. ReadPlanNode e 1 i = Inr n \<longleftrightarrow> i = 6 \<and> n = sample_node)"

lemma sample_reading:
  assumes "engine_rep e sample_store"
  shows "sample_read e"
  unfolding sample_read_def ReadTopicSlot_typed [OF assms] ReadSceneSlot_typed [OF assms] ReadArchiveSlot_typed [OF assms] ReadPlanNode_typed [OF assms]
  by (intro conjI allI iffI; (frule sample_typed)?; auto simp: sample_reads kinds_distinct kinds_distinct [symmetric])

lemma sample_readD:
  assumes "sample_read e"
  shows "ReadTopicSlot e 1 i = Inr t \<longleftrightarrow> i = 9 \<and> t = sample_topic 9 None 1 \<or> i = 8 \<and> t = sample_topic 8 (Some 9) 2"
    "ReadSceneSlot e 1 i = Inr s \<longleftrightarrow> i = 7 \<and> s = sample_scene"
    "ReadArchiveSlot e 1 i = Inr x \<longleftrightarrow> i = 5 \<and> x = sample_archive"
    "ReadPlanNode e 1 i = Inr n \<longleftrightarrow> i = 6 \<and> n = sample_node"
  using assms by (simp_all add: sample_read_def)

lemma sample_keys: "HashContent sample_hash 9 1 = 5" "HashContent sample_hash 9 3 = 4" "HashPlanNode sample_hash 9 1 = 6"
  "HashPlanNode sample_hash 9 2 = 2" "ComputeTurnTopicID sample_hash 7 1 = 9" "ComputeTurnTopicID sample_hash 7 2 = 9"
  by code_simp+

lemma sample_addressed:
  assumes "sample_read e"
  shows "l2_addressed e 1" "l4_addressed sample_hash e 1" "plan_addressed sample_hash e 1"
  unfolding l2_addressed_def l4_addressed_def plan_addressed_def sample_readD [OF assms]
  by (auto simp: sample_topic_def sample_archive_def sample_node_def sample_keys)

lemma sample_domain:
  "\<exists>e. engine_rep e sample_store \<and> sample_read e \<and> domain_inv sample_hash 1 (NewContext 1 e) \<and> engine_room e (2 ^ 60)"
  using sample_engine sample_reading sample_addressed NewContext_inv by meson

lemma sample_ids:
  assumes "engine_rep e sample_store"
  shows "IndexByType e 1 RecL2Topic = [8, 9]" "IndexByType e 1 RecL5PlanNode = [6]" "IndexByType e 1 RecL2Scene = [7]"
    "IndexByType e 1 RecL4Archive = [5]"
proof -
  note k = kinds_distinct kinds_distinct [symmetric]
  have law: "IndexByType e 1 t = ids" if "sorted ids" "distinct ids" "\<And>i. (\<exists>d. sample_store (1, i) = Some (t, d)) \<longleftrightarrow> i \<in> set ids" for t ids
    using eng.ids_law [OF assms, of 1 t] that by (intro sorted_distinct_set_unique) auto
  show "IndexByType e 1 RecL2Topic = [8, 9]" by (rule law) (use k in \<open>auto simp: sample_store_def record_of_def\<close>)
  show "IndexByType e 1 RecL5PlanNode = [6]" by (rule law) (use k in \<open>auto simp: sample_store_def record_of_def\<close>)
  show "IndexByType e 1 RecL2Scene = [7]" by (rule law) (use k in \<open>auto simp: sample_store_def record_of_def\<close>)
  show "IndexByType e 1 RecL4Archive = [5]" by (rule law) (use k in \<open>auto simp: sample_store_def record_of_def\<close>)
qed

lemma sample_scans:
  assumes "engine_rep e sample_store"
  shows "CollectAllTopicsStrict e 1 = Inr [sample_topic 8 (Some 9) 2, sample_topic 9 None 1]"
    "CollectAllPlanNodesStrict e 1 = Inr [sample_node]" "CollectAllScenesL2 e 1 = Inr [sample_scene]"
proof -
  note k = kinds_distinct kinds_distinct [symmetric]
  have t: "sample_store (1, i) = Some (RecL2Topic, d) \<Longrightarrow> typed_at unmarshal_topic sample_store 1 RecL2Topic i \<noteq> None" for i d
    using k sample_reads by (auto simp: sample_store_def record_of_def split: if_splits)
  have n: "sample_store (1, i) = Some (RecL5PlanNode, d) \<Longrightarrow> typed_at unmarshal_plan_node sample_store 1 RecL5PlanNode i \<noteq> None" for i d
    using k sample_reads by (auto simp: sample_store_def record_of_def split: if_splits)
  have s: "sample_store (1, i) = Some (RecL2Scene, d) \<Longrightarrow> typed_at unmarshal_scene sample_store 1 RecL2Scene i \<noteq> None" for i d
    using k sample_reads by (auto simp: sample_store_def record_of_def split: if_splits)
  show "CollectAllTopicsStrict e 1 = Inr [sample_topic 8 (Some 9) 2, sample_topic 9 None 1]"
    using topic.CollectAllStrict_law(1) [OF assms, of 1 RecL2Topic] t unfolding CollectAllTopicsStrict_def sample_ids [OF assms] by (simp add: sample_reads)
  show "CollectAllPlanNodesStrict e 1 = Inr [sample_node]"
    using plan_node.CollectAllStrict_law(1) [OF assms, of 1 RecL5PlanNode] n unfolding CollectAllPlanNodesStrict_def sample_ids [OF assms] by (simp add: sample_reads)
  show "CollectAllScenesL2 e 1 = Inr [sample_scene]"
    using scene.CollectAllStrict_law(1) [OF assms, of 1 RecL2Scene] s unfolding CollectAllScenesL2_def sample_ids [OF assms] by (simp add: sample_reads)
qed

section \<open>What its caches hold\<close>

lemma only_element: "distinct xs \<Longrightarrow> set xs = {x} \<Longrightarrow> xs = [x]"
  by (metis distinct_card card_1_singleton_iff length_0_conv length_Suc_conv One_nat_def list.set_intros(1) singletonD is_singletonI is_singleton_altdef)

lemma sample_index:
  assumes "domain_inv sample_hash 1 c" "sample_read (ctx_Engine c)"
  shows "l4_view (ctx_L4 c) t s = (if (t, s) = (9, 1) then Some (l4_entry sample_archive) else None)"
proof -
  note mir = domain_invD(3) [OF assms(1)]
  have "l4_view (ctx_L4 c) 9 1 = Some (l4_entry sample_archive)"
    using l4_mirrorsD(5) [OF mir, of 5 sample_archive] sample_readD(3) [OF assms(2)] by (simp add: sample_archive_def)
  moreover have "(t, s) = (9, 1)" if "l4_view (ctx_L4 c) t s = Some en" for en
    using l4_mirrors_entry(3) [OF mir that] sample_readD(3) [OF assms(2)] by (auto simp: sample_archive_def)
  ultimately show ?thesis by (cases "l4_view (ctx_L4 c) t s") auto
qed

lemma sample_top:
  assumes "domain_inv sample_hash 1 c" "sample_read (ctx_Engine c)"
  shows "MaxSeq (ctx_L4 c) 9 = 1"
proof -
  have wf: "l4_wf (ctx_L4 c)" using l4_mirrorsD(1) [OF domain_invD(3) [OF assms(1)]] .
  note v = sample_index [OF assms]
  have "1 \<le> MaxSeq (ctx_L4 c) 9" using MaxSeq_bound [OF wf, of 9 1] v by simp
  then have "MaxSeq (ctx_L4 c) 9 \<noteq> 0" by auto
  from MaxSeq_held [OF wf this] v show ?thesis by (auto split: if_splits)
qed

lemma sample_node_seq:
  assumes "domain_inv sample_hash 1 c" "sample_read (ctx_Engine c)"
  shows "MaxNodeSeq (ctx_L4 c) 9 = 0"
proof -
  have wf: "l4_wf (ctx_L4 c)" using l4_mirrorsD(1) [OF domain_invD(3) [OF assms(1)]] .
  have zero: "le_NodeSeq en = 0" if "en \<in> set (entries_of (ctx_L4 c) 9)" for en
  proof -
    have "l4_view (ctx_L4 c) 9 (le_Seq en) = Some en" by (simp add: l4_view_iff [OF wf] that)
    from l4_mirrorsD(2) [OF domain_invD(3) [OF assms(1)] this] obtain x where
      x: "ReadArchiveSlot (ctx_Engine c) 1 (le_IDHash en) = Inr x" "l4_entry x = en" by blast
    then have "x = sample_archive" using sample_readD(3) [OF assms(2)] by blast
    then show ?thesis using x(2) by (auto simp: l4_entry_def sample_archive_def)
  qed
  have "fold (\<lambda>e top. if le_NodeSeq e > top then le_NodeSeq e else top) es 0 = 0" if "\<forall>e \<in> set es. le_NodeSeq e = 0" for es
    using that by (induction es) simp_all
  moreover have "\<forall>e \<in> set (entries_of (ctx_L4 c) 9). le_NodeSeq e = 0" using zero by blast
  ultimately show ?thesis unfolding MaxNodeSeq_def by blast
qed

lemma sample_plan:
  assumes "domain_inv sample_hash 1 c" "sample_read (ctx_Engine c)"
  shows "nodes_of (ctx_Plans c) 9 = [sample_node]" "t \<noteq> 9 \<Longrightarrow> nodes_of (ctx_Plans c) t = []"
proof -
  note mir = domain_invD(4) [OF assms(1)]
  have mem: "n \<in> set (nodes_of (ctx_Plans c) t) \<longleftrightarrow> t = 9 \<and> n = sample_node" for t n
  proof
    assume n: "n \<in> set (nodes_of (ctx_Plans c) t)"
    then have "n = sample_node" using pc_mirrorsD(2) [OF mir n] sample_readD(4) [OF assms(2)] by blast
    then show "t = 9 \<and> n = sample_node" using pc_mirrors_node(2) [OF mir n] by (simp add: sample_node_def)
  next
    assume "t = 9 \<and> n = sample_node"
    then show "n \<in> set (nodes_of (ctx_Plans c) t)"
      using pc_mirrorsD(5) [OF mir, of 6 sample_node] sample_readD(4) [OF assms(2)] by (simp add: sample_node_def)
  qed
  have "set (nodes_of (ctx_Plans c) 9) = {sample_node}" using mem by auto
  moreover have "distinct (nodes_of (ctx_Plans c) 9)" using nodes_of_wf(2) [OF pc_mirrorsD(1) [OF mir], of 9] by (simp add: distinct_map)
  ultimately show "nodes_of (ctx_Plans c) 9 = [sample_node]" by (rule only_element [rotated])
  show "t \<noteq> 9 \<Longrightarrow> nodes_of (ctx_Plans c) t = []" using mem [of _ t] by (metis list.set_intros(1) neq_Nil_conv)
qed

lemma sample_all_ids:
  assumes "domain_inv sample_hash 1 c" "sample_read (ctx_Engine c)"
  shows "AllIDs (ctx_L4 c) t = (if t = 9 then [5] else [])"
proof -
  have wf: "l4_wf (ctx_L4 c)" using l4_mirrorsD(1) [OF domain_invD(3) [OF assms(1)]] .
  have mem: "en \<in> set (entries_of (ctx_L4 c) t) \<longleftrightarrow> t = 9 \<and> en = l4_entry sample_archive" for en
    using l4_view_iff [OF wf, of t "le_Seq en" en] sample_index [OF assms, of t "le_Seq en"] by (auto simp: l4_entry_def sample_archive_def split: if_splits)
  have "distinct (entries_of (ctx_L4 c) t)" using by_seq_entries [OF wf, of t] unfolding by_seq_def by (auto simp: distinct_conv_nth sorted_wrt_iff_nth_less dest: spec) (metis linorder_neqE_nat order_less_irrefl)
  then have "entries_of (ctx_L4 c) t = (if t = 9 then [l4_entry sample_archive] else [])"
    using mem only_element [of "entries_of (ctx_L4 c) t" "l4_entry sample_archive"] by (cases "t = 9") (auto, metis list.set_intros(1) neq_Nil_conv)
  then show ?thesis by (simp add: AllIDs_def l4_ids_def sample_archive_def)
qed

end
