(* ===== verification/Content.thy ===== *)
theory Content
  imports Domain_Context
begin

text \<open>
  \<^verbatim>\<open>internal/content/content.go\<close>: the write contract of a content record, the append of a batch with its
  slot allocation, the read of one track and the text a keyword call reads.
\<close>

definition ParseTopicID :: "string \<Rightarrow> goerr + u64" where
  "ParseTopicID topicID = (case ParseID topicID of Inl err \<Rightarrow> Inl (Error ErrInvalidQuery (Some err))
     | Inr h \<Rightarrow> if h = 0 then Inl (NewError ErrInvalidQuery) else Inr h)"

definition MaxEventPayload :: nat where "MaxEventPayload = 4 * 1024"
definition MaxUtterancePayload :: nat where "MaxUtterancePayload = 64 * 1024"

definition checkPayload :: "nat \<Rightarrow> nat \<Rightarrow> goerr + unit" where
  "checkPayload sz budget = (if sz > budget then Inl (NewError ErrInvalidQuery) else Inr ())"

definition secondsScaleFloor :: i64 where "secondsScaleFloor = 1000000000"
definition secondsScaleCeil :: i64 where "secondsScaleCeil = 100000000000"
definition millisScaleCeil :: i64 where "millisScaleCeil = 100000000000000"

definition wrongScale :: "i64 \<Rightarrow> string" where
  "wrongScale v = (if v \<ge> secondsScaleFloor \<and> v < secondsScaleCeil then ''seconds''
     else if v > millisScaleCeil then ''microseconds'' else '''')"

definition CheckQueryBound :: "i64 \<Rightarrow> goerr + unit" where
  "CheckQueryBound v = (if v = 0 then Inr () else if wrongScale v \<noteq> '''' then Inl (NewError ErrInvalidQuery) else Inr ())"

definition checkTimestamp :: "i64 \<Rightarrow> goerr + unit" where
  "checkTimestamp v = (if v \<le> 0 then Inl (NewError ErrInvalidQuery)
     else if wrongScale v \<noteq> '''' then Inl (NewError ErrInvalidQuery) else Inr ())"

definition ValidateAppend :: "ArchiveSlot \<Rightarrow> goerr + unit" where
  "ValidateAppend slot =
     (if \<not> ArchiveKind_Valid (as_Kind slot) then Inl (NewError ErrInvalidQuery)
      else if as_Content slot = '''' then Inl (NewError ErrInvalidQuery)
      else case checkTimestamp (as_CreatedAt slot) of Inl err \<Rightarrow> Inl err | Inr _ \<Rightarrow>
        if \<not> ContentType_Valid (as_ContentType slot) then Inl (NewError ErrInvalidQuery)
        else if as_Kind slot = KindEvent then
          (if as_EventType slot = '''' then Inl (NewError ErrInvalidQuery)
           else checkPayload (length (as_EventType slot) + length (as_Content slot)) MaxEventPayload)
        else if as_EventType slot \<noteq> '''' then Inl (NewError ErrInvalidQuery)
        else if as_Role slot \<in> {RoleUser, RoleAgent, RoleSystem}
          then checkPayload (length (as_Content slot)) MaxUtterancePayload
        else Inl (NewError ErrInvalidQuery))"

fun validate_all :: "ArchiveSlot list \<Rightarrow> goerr + unit" where
  "validate_all [] = Inr ()"
| "validate_all (r # rs) = (case ValidateAppend r of Inl err \<Rightarrow> Inl err | Inr _ \<Rightarrow> validate_all rs)"

definition prepared_slot :: "u64 \<Rightarrow> u64 \<Rightarrow> ArchiveSlot \<Rightarrow> ArchiveSlot" where
  "prepared_slot topicID seq slot =
     (let slot = slot\<lparr>as_TopicID := topicID, as_Seq := seq\<rparr>
      in if as_Kind slot = KindEvent then slot\<lparr>as_Role := 0, as_ContentType := ContentText\<rparr> else slot)"

text \<open>The allocation loop: \<open>next\<close> is the slot an unnamed record takes, in \<^verbatim>\<open>uint64\<close> arithmetic.\<close>

fun prepare_batch :: "(string \<Rightarrow> u64) \<Rightarrow> StorageEngine \<Rightarrow> u64 \<Rightarrow> u64 \<Rightarrow> u64 \<Rightarrow> ArchiveSlot list \<Rightarrow> goerr + (ArchiveSlot \<times> u64) list" where
  "prepare_batch H engine agentID topicID nxt [] = Inr []"
| "prepare_batch H engine agentID topicID nxt (slot # recs) =
     (if as_Seq slot = 0 then
        (let seq = nxt; nxt = nxt + 1;
             rest = (case prepare_batch H engine agentID topicID nxt recs of Inl err \<Rightarrow> Inl err
                     | Inr out \<Rightarrow> Inr ((prepared_slot topicID seq slot, seq) # out))
         in case ReadArchiveSlot engine agentID (HashContent H topicID seq) of
              Inl err \<Rightarrow> if CodeOf err \<noteq> ErrNotFound then Inl (Error (CodeOf err) (Some err)) else rest
            | Inr _ \<Rightarrow> rest)
      else
        (let seq = as_Seq slot; nxt = (if seq \<ge> nxt then seq + 1 else nxt)
         in case prepare_batch H engine agentID topicID nxt recs of Inl err \<Rightarrow> Inl err
            | Inr out \<Rightarrow> Inr ((prepared_slot topicID seq slot, seq) # out)))"

definition AppendBatch :: "(string \<Rightarrow> u64) \<Rightarrow> u64 \<Rightarrow> u64 \<Rightarrow> ArchiveSlot list \<Rightarrow> Context \<Rightarrow> (goerr + u64 list) \<times> Context" where
  "AppendBatch H agentID topicID records ac =
     (case validate_all records of Inl err \<Rightarrow> (Inl err, ac)
      | Inr _ \<Rightarrow>
        (case prepare_batch H (ctx_Engine ac) agentID topicID (max (MaxSeq (ctx_L4 ac) topicID) LastUtteranceSeq + 1) records of
           Inl err \<Rightarrow> (Inl err, ac)
         | Inr prepared \<Rightarrow>
             (case AppendArchiveBatchL4 H agentID (map fst prepared) (ctx_Engine ac) (ctx_L4 ac) of
                (Inl err, engine, idx) \<Rightarrow> (Inl err, ac\<lparr>ctx_Engine := engine, ctx_L4 := idx\<rparr>)
              | (Inr _, engine, idx) \<Rightarrow> (Inr (map snd prepared), ac\<lparr>ctx_Engine := engine, ctx_L4 := idx\<rparr>))))"

definition Append :: "(string \<Rightarrow> u64) \<Rightarrow> u64 \<Rightarrow> u64 \<Rightarrow> ArchiveSlot \<Rightarrow> Context \<Rightarrow> (goerr + u64) \<times> Context" where
  "Append H agentID topicID slot ac = (case AppendBatch H agentID topicID [slot] ac of
     (Inl err, ac) \<Rightarrow> (Inl err, ac) | (Inr seqs, ac) \<Rightarrow> (Inr (hd seqs), ac))"

definition Read :: "u64 \<Rightarrow> Context \<Rightarrow> u64 \<Rightarrow> byte \<Rightarrow> goerr + ArchiveSlot list" where
  "Read agentID ac topicID kind = ReadArchivesByIDs (ctx_Engine ac) agentID (IDs (ctx_L4 ac) topicID kind)"

definition speaker :: "byte \<Rightarrow> string" where
  "speaker role = (if role = RoleAgent then ''Assistant'' else if role = RoleSystem then ''System'' else ''User'')"

fun render_lines :: "bool \<Rightarrow> ArchiveSlot list \<Rightarrow> string" where
  "render_lines first [] = ''''"
| "render_lines first (u # us) = (if first then '''' else [CHR 0x0A]) @ speaker (as_Role u) @ '': '' @ as_Content u @ render_lines False us"

definition RenderForDistill :: "ArchiveSlot list \<Rightarrow> string" where
  "RenderForDistill utterances = render_lines True utterances"

section \<open>The write contract\<close>

lemma checkTimestamp_iff: "checkTimestamp v = Inr () \<longleftrightarrow> (0 < v \<and> v < 1000000000) \<or> (100000000000 \<le> v \<and> v \<le> 100000000000000)"
  by (auto simp: checkTimestamp_def wrongScale_def secondsScaleFloor_def secondsScaleCeil_def millisScaleCeil_def)

lemma checkPayload_iff: "checkPayload n b = Inr () \<longleftrightarrow> n \<le> b"
  by (auto simp: checkPayload_def)

lemma unit_ok: "(r :: goerr + unit) = Inr () \<longleftrightarrow> \<not> isl r"
  by (cases r) auto

text \<open>Exactly the records the contract describes pass; everything else is an invalid query.\<close>

definition well_formed_record :: "ArchiveSlot \<Rightarrow> bool" where
  "well_formed_record x \<longleftrightarrow> as_Content x \<noteq> '''' \<and> checkTimestamp (as_CreatedAt x) = Inr () \<and> ContentType_Valid (as_ContentType x)
     \<and> (as_Kind x = KindEvent \<and> as_EventType x \<noteq> '''' \<and> length (as_EventType x) + length (as_Content x) \<le> MaxEventPayload
      \<or> as_Kind x = KindUtterance \<and> as_EventType x = '''' \<and> as_Role x \<in> {RoleUser, RoleAgent, RoleSystem} \<and> length (as_Content x) \<le> MaxUtterancePayload)"

lemma ArchiveKind_Valid_iff: "ArchiveKind_Valid k \<longleftrightarrow> k = KindUtterance \<or> k = KindEvent"
  by (auto simp: ArchiveKind_Valid_def archiveKindNames_def split: if_splits)

lemma ValidateAppend_iff: "ValidateAppend x = Inr () \<longleftrightarrow> well_formed_record x"
proof -
  have k: "KindUtterance \<noteq> KindEvent" by (simp add: KindUtterance_def KindEvent_def)
  show ?thesis
  proof (cases "checkTimestamp (as_CreatedAt x)")
    case (Inl err)
    then show ?thesis by (auto simp: ValidateAppend_def well_formed_record_def)
  next
    case (Inr u)
    consider "as_Kind x = KindEvent" | "as_Kind x = KindUtterance" | "\<not> ArchiveKind_Valid (as_Kind x)" using ArchiveKind_Valid_iff by blast
    then show ?thesis
    proof cases
      case 1
      then show ?thesis using Inr k by (auto simp: ValidateAppend_def well_formed_record_def ArchiveKind_Valid_iff checkPayload_iff)
    next
      case 2
      then show ?thesis using Inr k by (auto simp: ValidateAppend_def well_formed_record_def ArchiveKind_Valid_iff checkPayload_iff)
    next
      case 3
      then show ?thesis by (auto simp: ValidateAppend_def well_formed_record_def ArchiveKind_Valid_iff)
    qed
  qed
qed

lemma ValidateAppend_error: "ValidateAppend x = Inl err \<Longrightarrow> CodeOf err = ErrInvalidQuery"
  by (auto simp: ValidateAppend_def checkTimestamp_def checkPayload_def split: if_splits sum.splits)

lemma validate_all_iff: "validate_all rs = Inr () \<longleftrightarrow> (\<forall>r \<in> set rs. well_formed_record r)"
proof (induction rs)
  case (Cons r rs)
  then show ?case using ValidateAppend_iff [of r] by (cases "ValidateAppend r") auto
qed simp

lemma validate_all_error: "validate_all rs = Inl err \<Longrightarrow> CodeOf err = ErrInvalidQuery"
  by (induction rs) (auto dest: ValidateAppend_error split: sum.splits)

section \<open>Slot allocation\<close>

text \<open>The recs the loop hands out, given the first free one.\<close>

fun alloc :: "u64 \<Rightarrow> u64 list \<Rightarrow> u64 list" where
  "alloc nxt [] = []"
| "alloc nxt (s # ss) = (if s = 0 then nxt # alloc (nxt + 1) ss else s # alloc (if s \<ge> nxt then s + 1 else nxt) ss)"

lemma length_alloc [simp]: "length (alloc nxt ss) = length ss"
  by (induction nxt ss rule: alloc.induct) auto

definition readable_or_absent :: "StorageEngine \<Rightarrow> u64 \<Rightarrow> u64 \<Rightarrow> bool" where
  "readable_or_absent e a i \<longleftrightarrow> (case ReadArchiveSlot e a i of Inl err \<Rightarrow> CodeOf err = ErrNotFound | Inr _ \<Rightarrow> True)"

lemma prepare_batch_alloc:
  assumes "\<forall>s. readable_or_absent e a (HashContent H t s)"
  shows "prepare_batch H e a t nxt recs =
    Inr (map2 (\<lambda>slot seq. (prepared_slot t seq slot, seq)) recs (alloc nxt (map as_Seq recs)))"
  using assms
proof (induction recs arbitrary: nxt)
  case (Cons slot recs)
  have "readable_or_absent e a (HashContent H t nxt)" using Cons.prems by blast
  then show ?case using Cons by (auto simp: readable_or_absent_def Let_def split: sum.splits)
qed simp

text \<open>Without wrap-around, an unnamed record takes a slot above the first free one and above everything before it.\<close>

lemma alloc_fresh:
  assumes "unat nxt + length ss < 2 ^ 64" "\<forall>s \<in> set ss. unat s + length ss < 2 ^ 64" "i < length ss" "ss ! i = 0"
  shows "nxt \<le> alloc nxt ss ! i \<and> (\<forall>j < i. alloc nxt ss ! j < alloc nxt ss ! i)"
  using assms
proof (induction nxt ss arbitrary: i rule: alloc.induct)
  case (2 nxt s ss)
  define nx where "nx = (if s = 0 then nxt + 1 else if s \<ge> nxt then s + 1 else nxt)"
  have succ: "unat (w + 1) = unat w + 1" if "unat w + length (s # ss) < 2 ^ 64" for w :: u64
    using that unat_add_lem [of w 1] by simp
  have nxt: "unat (nxt + 1) = unat nxt + 1" using succ "2.prems"(1) by blast
  have s: "unat (s + 1) = unat s + 1" using succ "2.prems"(2) by simp
  have bound: "unat nx + length ss < 2 ^ 64" using "2.prems"(1,2) nxt s by (auto simp: nx_def)
  have lo: "nxt \<le> nx" "s < nx \<or> s = 0" "s = 0 \<longrightarrow> nxt < nx"
    using nxt s by (auto simp: nx_def word_le_nat_alt word_less_nat_alt)
  have tl: "alloc nxt (s # ss) = (if s = 0 then nxt else s) # alloc nx ss" by (simp add: nx_def)
  show ?case
  proof (cases i)
    case 0
    then show ?thesis using "2.prems"(4) tl by simp
  next
    case (Suc k)
    have rest: "\<forall>s \<in> set ss. unat s + length ss < 2 ^ 64" "k < length ss" "ss ! k = 0" using "2.prems" Suc by auto
    have IH: "nx \<le> alloc nx ss ! k \<and> (\<forall>j < k. alloc nx ss ! j < alloc nx ss ! k)"
      using "2.IH" bound rest by (cases "s = 0") (simp_all add: nx_def)
    then have "(if s = 0 then nxt else s) < alloc nx ss ! k" using lo by (auto intro: less_le_trans)
    then show ?thesis
      using IH lo(1) unfolding tl Suc by (auto simp: less_Suc_eq_0_disj intro: order_trans)
  qed
qed simp

section \<open>Appending a batch\<close>

definition first_free :: "Context \<Rightarrow> u64 \<Rightarrow> u64" where
  "first_free c t = max (MaxSeq (ctx_L4 c) t) LastUtteranceSeq + 1"

definition prepared_batch :: "u64 \<Rightarrow> u64 list \<Rightarrow> ArchiveSlot list \<Rightarrow> ArchiveSlot list" where
  "prepared_batch t seqs recs = map2 (\<lambda>r s. prepared_slot t s r) recs seqs"

lemma prepared_slot_simps [simp]: "as_TopicID (prepared_slot t s r) = t" "as_Seq (prepared_slot t s r) = s"
  "as_Content (prepared_slot t s r) = as_Content r" "as_CreatedAt (prepared_slot t s r) = as_CreatedAt r"
  "as_Kind (prepared_slot t s r) = as_Kind r" "as_EventType (prepared_slot t s r) = as_EventType r" "as_NodeSeq (prepared_slot t s r) = as_NodeSeq r"
  by (simp_all add: prepared_slot_def Let_def)

text \<open>What a batch needs of the disk and of the hash to go through.\<close>

definition batch_ready :: "(string \<Rightarrow> u64) \<Rightarrow> u64 \<Rightarrow> u64 \<Rightarrow> ArchiveSlot list \<Rightarrow> Context \<Rightarrow> nat \<Rightarrow> bool" where
  "batch_ready H a t ps c n \<longleftrightarrow>
     (\<forall>s. readable_or_absent (ctx_Engine c) a (HashContent H t s))
   \<and> (\<forall>p \<in> set ps. archive_fits (stamp_id H p) \<and> own_kind (ctx_Engine c) a RecL4Archive (as_IDHash (stamp_id H p)))
   \<and> no_clash H (l4_addresses (ctx_L4 c) ps)
   \<and> engine_room (ctx_Engine c) (batch_room marshal_archive (map (stamp_id H) ps) + n)"

lemma AppendBatch_law:
  fixes H a t recs c n
  assumes inv: "domain_inv H a c" and ok: "\<forall>r \<in> set recs. well_formed_record r"
  defines "seqs \<equiv> alloc (first_free c t) (map as_Seq recs)"
  defines "ps \<equiv> prepared_batch t seqs recs"
  assumes ready: "batch_ready H a t ps c n"
  shows "\<exists>e'. AppendBatch H a t recs c = (Inr seqs, c\<lparr>ctx_Engine := e', ctx_L4 := fold append_slot (map (stamp_id H) ps) (ctx_L4 c)\<rparr>)
    \<and> domain_inv H a (c\<lparr>ctx_Engine := e', ctx_L4 := fold append_slot (map (stamp_id H) ps) (ctx_L4 c)\<rparr>) \<and> engine_room e' n
    \<and> (\<forall>i x. ReadArchiveSlot e' a i = Inr x \<longleftrightarrow> (case List.find (\<lambda>y. as_IDHash y = i) (rev (map (stamp_id H) ps)) of
          Some y \<Rightarrow> x = y | None \<Rightarrow> ReadArchiveSlot (ctx_Engine c) a i = Inr x))
    \<and> (\<forall>b i. b \<noteq> a \<or> i \<notin> (as_IDHash \<circ> stamp_id H) ` set ps \<longrightarrow> ReadRecord e' b i = ReadRecord (ctx_Engine c) b i)"
proof -
  let ?e = "ctx_Engine c"
  obtain m where rep: "engine_rep ?e m" using domain_invD(1) [OF inv] by blast
  note r = ready [unfolded batch_ready_def]
  have fits: "\<forall>x \<in> set ps. archive_fits (stamp_id H x)" using r by blast
  let ?rs = "map (entry_for marshal_archive a RecL4Archive as_IDHash) (map (stamp_id H) ps)"
  obtain e' where e': "AppendArchiveBatchL4 H a ps ?e (ctx_L4 c) = (Inr (), e', fold append_slot (map (stamp_id H) ps) (ctx_L4 c))"
    "l4_mirrors H e' a (fold append_slot (map (stamp_id H) ps) (ctx_L4 c))" "engine_room e' n" "engine_rep e' (put_all ?rs m)"
    using AppendArchiveBatchL4_law [OF rep domain_invD(3) [OF inv] fits, of n] r by blast
  have prep: "prepare_batch H ?e a t (first_free c t) recs = Inr (map2 (\<lambda>slot seq. (prepared_slot t seq slot, seq)) recs seqs)"
    unfolding seqs_def using prepare_batch_alloc r by blast
  have len: "length recs = length seqs" by (simp add: seqs_def)
  have fst: "map fst (map2 (\<lambda>slot seq. (prepared_slot t seq slot, seq)) recs seqs) = ps"
    by (simp add: ps_def prepared_batch_def comp_def case_prod_unfold)
  have snd: "map snd (map2 (\<lambda>slot seq. (prepared_slot t seq slot, seq)) recs seqs) = seqs"
    using len by (simp add: comp_def case_prod_unfold)
  have "validate_all recs = Inr ()" using ok validate_all_iff by blast
  then have run: "AppendBatch H a t recs c = (Inr seqs, c\<lparr>ctx_Engine := e', ctx_L4 := fold append_slot (map (stamp_id H) ps) (ctx_L4 c)\<rparr>)"
    unfolding AppendBatch_def first_free_def [symmetric] prep using e'(1) by (simp only: sum.case fst snd prod.case)
  have own: "\<forall>x \<in> set ?rs. r_agent x = a \<and> r_type x = RecL4Archive \<and> own_kind ?e a RecL4Archive (r_id x)"
    using r by (auto simp: entry_for_def)
  note other = typed_put_other [OF rep _ own]
  have types: "RecL2Topic \<noteq> RecL4Archive" "RecL5PlanNode \<noteq> RecL4Archive"
    by (simp_all add: RecL2Topic_def RecL4Archive_def RecL5PlanNode_def)
  have "l2_mirrors e' a (ctx_L2Meta c)"
    using domain_invD(2) [OF inv] l2_mirrors_cong [of e' a ?e] unfolding ReadTopicSlot_typed [OF rep] ReadTopicSlot_typed [OF e'(4)] other [OF types(1)] by blast
  moreover have "pc_mirrors H e' a (ctx_Plans c)"
    using domain_invD(4) [OF inv] pc_mirrors_cong [of e' a ?e] unfolding ReadPlanNode_typed [OF rep] ReadPlanNode_typed [OF e'(4)] other [OF types(2)] by blast
  moreover have "ReadArchiveSlot e' a i = Inr x \<longleftrightarrow> (case List.find (\<lambda>y. as_IDHash y = i) (rev (map (stamp_id H) ps)) of
      Some y \<Rightarrow> x = y | None \<Rightarrow> ReadArchiveSlot ?e a i = Inr x)" for i x
  proof -
    have "\<forall>x \<in> set (map (stamp_id H) ps). archive_ok x" using fits by (auto simp: archive_fits_def)
    from archive.typed_put_all [OF this, of a RecL4Archive as_IDHash m i] show ?thesis
      unfolding ReadArchiveSlot_typed [OF rep] ReadArchiveSlot_typed [OF e'(4)] by (auto split: option.splits)
  qed
  moreover have "ReadRecord e' b i = ReadRecord ?e b i" if "b \<noteq> a \<or> i \<notin> (as_IDHash \<circ> stamp_id H) ` set ps" for b i
    using that by (intro eng.read_frame_put [OF rep e'(4)]) (auto simp: entry_for_def image_iff)
  ultimately show ?thesis using run e'(2,3,4) by (auto simp: domain_inv_def)
qed

text \<open>Once the top slot is the greatest \<^verbatim>\<open>uint64\<close>, the next unnamed record takes slot 0.\<close>

lemma first_free_wraps: "MaxSeq (ctx_L4 c) t = -1 \<Longrightarrow> first_free c t = 0"
  by (simp add: first_free_def max_absorb1)

end
