(* ===== verification/Db.thy ===== *)
theory Db
  imports Scene Content Plan
begin

text \<open>
  \<^verbatim>\<open>internal/db.go\<close> and the session gate of \<^verbatim>\<open>agents.go\<close>: the database handle, its table of agent domains and the
  prologues every operation runs. One operation runs at a time here, so a lock is never found taken: what
  is left of \<^verbatim>\<open>lockAgent\<close> and \<^verbatim>\<open>lockOpen\<close> are their refusals. The engine is one for all domains: locking a
  domain hands its context the engine of the handle and unlocking puts it back. The language model
  table and the cancellation contexts are left out.
\<close>

record DB =
  db_engine :: StorageEngine
  db_closed :: bool
  db_agents :: "(u64, Context) gomap"
  db_nameToID :: "(string, u64) gomap"
  db_idToName :: "(u64, string) gomap"
  db_LastActiveAt :: "(u64, i64) gomap"
  db_DreamInFlight :: "u64 \<Rightarrow> u64 set"
  db_AgentIdleTTLMs :: i64
  db_SceneDreamTopicThreshold :: int

definition errDBClosed :: goerr where "errDBClosed = NewError ErrClosed"

definition HasAgent :: "u64 \<Rightarrow> DB \<Rightarrow> bool" where
  "HasAgent agentID db \<longleftrightarrow> agentID = DefaultAgentID \<or> map_of (db_idToName db) agentID \<noteq> None"

definition CheckSession :: "u64 \<Rightarrow> DB \<Rightarrow> goerr + unit" where
  "CheckSession agentID db = (if db_closed db then Inl errDBClosed
     else if \<not> HasAgent agentID db then Inl (NewError ErrAgentNotFound) else Inr ())"

text \<open>A context is reclaimed when it has been idle longer than the limit and runs no background Dream.\<close>

definition reclaimable :: "i64 \<Rightarrow> DB \<Rightarrow> u64 \<Rightarrow> bool" where
  "reclaimable now db i \<longleftrightarrow> \<not> (i = DefaultAgentID \<or> i = SharedPoolAgentID)
     \<and> \<not> i64_wrap (now - (case map_of (db_LastActiveAt db) i of None \<Rightarrow> 0 | Some t \<Rightarrow> t)) \<le> db_AgentIdleTTLMs db
     \<and> db_DreamInFlight db i = {}"

definition sweepIdleLocked :: "i64 \<Rightarrow> DB \<Rightarrow> DB" where
  "sweepIdleLocked now db = (if db_AgentIdleTTLMs db \<le> 0 then db
     else db\<lparr>db_agents := filter (\<lambda>(i, ac). \<not> reclaimable now db i) (db_agents db)\<rparr>)"

definition contextFor :: "i64 \<Rightarrow> u64 \<Rightarrow> DB \<Rightarrow> (goerr + Context) \<times> DB" where
  "contextFor now agentID db =
     (if db_closed db then (Inl errDBClosed, db)
      else if agentID \<noteq> DefaultAgentID \<and> agentID \<noteq> SharedPoolAgentID \<and> map_of (db_idToName db) agentID = None
      then (Inl (NewError ErrAgentNotFound), db)
      else let db = sweepIdleLocked now db;
               ac = (case map_of (db_agents db) agentID of Some ac \<Rightarrow> ac | None \<Rightarrow> NewContext agentID (db_engine db))
           in (Inr ac, db\<lparr>db_agents := AList.update agentID ac (db_agents db),
                 db_LastActiveAt := AList.update agentID now (db_LastActiveAt db)\<rparr>))"

definition lockAgent :: "i64 \<Rightarrow> u64 \<Rightarrow> DB \<Rightarrow> (goerr + Context) \<times> DB" where
  "lockAgent now agentID db = (case contextFor now agentID db of (Inl err, db) \<Rightarrow> (Inl err, db)
     | (Inr ac, db) \<Rightarrow> if db_closed db then (Inl errDBClosed, db) else (Inr (ac\<lparr>ctx_Engine := db_engine db\<rparr>), db))"

definition lockTurn :: "i64 \<Rightarrow> u64 \<Rightarrow> DB \<Rightarrow> (goerr + Context) \<times> DB" where
  "lockTurn now agentID db = (case lockAgent now agentID db of (Inl err, db) \<Rightarrow> (Inl err, db)
     | (Inr ac, db) \<Rightarrow> if ctx_Turn ac = 0 then (Inl (NewError ErrInvalidQuery), db) else (Inr ac, db))"

definition lockSharedPool :: "i64 \<Rightarrow> u64 \<Rightarrow> DB \<Rightarrow> (goerr + Context) \<times> DB" where
  "lockSharedPool now callerID db = (case CheckSession callerID db of Inl err \<Rightarrow> (Inl err, db)
     | Inr _ \<Rightarrow> lockAgent now SharedPoolAgentID db)"

definition unlock :: "u64 \<Rightarrow> Context \<Rightarrow> DB \<Rightarrow> DB" where
  "unlock agentID ac db = db\<lparr>db_engine := ctx_Engine ac, db_agents := AList.update agentID ac (db_agents db)\<rparr>"

text \<open>An operation under a lock; the second form is for bodies that may not return.\<close>

definition locked :: "(DB \<Rightarrow> (goerr + Context) \<times> DB) \<Rightarrow> u64 \<Rightarrow> (Context \<Rightarrow> (goerr + 'r) \<times> Context) \<Rightarrow> DB \<Rightarrow> (goerr + 'r) \<times> DB" where
  "locked lock agentID body db = (case lock db of (Inl err, db) \<Rightarrow> (Inl err, db)
     | (Inr ac, db) \<Rightarrow> (case body ac of (r, ac) \<Rightarrow> (r, unlock agentID ac db)))"

definition locked' :: "(DB \<Rightarrow> (goerr + Context) \<times> DB) \<Rightarrow> u64 \<Rightarrow> (Context \<Rightarrow> ((goerr + 'r) \<times> Context) option) \<Rightarrow> DB \<Rightarrow> ((goerr + 'r) \<times> DB) option" where
  "locked' lock agentID body db = (case lock db of (Inl err, db) \<Rightarrow> Some (Inl err, db)
     | (Inr ac, db) \<Rightarrow> map_option (\<lambda>(r, ac). (r, unlock agentID ac db)) (body ac))"

section \<open>The life of the handle\<close>

definition IsClosed :: "DB \<Rightarrow> bool" where "IsClosed db = db_closed db"

definition Close_DB :: "DB \<Rightarrow> (goerr + unit) \<times> DB" where
  "Close_DB db = (if db_closed db then (Inl errDBClosed, db)
     else case Close (db_engine db) of (r, engine) \<Rightarrow> (r, db\<lparr>db_closed := True, db_engine := engine\<rparr>))"

definition Checkpoint_DB :: "DB \<Rightarrow> (goerr + unit) \<times> DB" where
  "Checkpoint_DB db = (if db_closed db then (Inl errDBClosed, db)
     else case Checkpoint (db_engine db) of (r, engine) \<Rightarrow> (r, db\<lparr>db_engine := engine\<rparr>))"

definition Stats_DB :: "DB \<Rightarrow> goerr + nat \<times> nat" where
  "Stats_DB db = (if db_closed db then Inl errDBClosed else Inr (Stats (db_engine db)))"

definition parseID :: "string \<Rightarrow> goerr + u64" where
  "parseID hexID = (case ParseID hexID of Inl err \<Rightarrow> Inl (Error ErrInvalidQuery (Some err)) | Inr i \<Rightarrow> Inr i)"

end
