(* ===== verification/Scene_Ops.thy ===== *)
theory Scene_Ops
  imports Db
begin

text \<open>
  \<^verbatim>\<open>internal/l2.go\<close>: the scene and topic operations of the handle. Each is the body that runs under the
  domain lock (the definition with the suffix \<open>_body\<close>) and the operation that takes the lock and runs it.
\<close>

definition ListScenes_body :: "u64 \<Rightarrow> string \<Rightarrow> Context \<Rightarrow> (goerr + SceneSlot list) \<times> Context" where
  "ListScenes_body agentID l3ID ac =
     ((case CollectAllScenesL2 (ctx_Engine ac) agentID of Inl err \<Rightarrow> Inl err
       | Inr all \<Rightarrow> if l3ID = '''' then Inr all
           else (case ParseID l3ID of Inl err \<Rightarrow> Inl (Error ErrInvalidQuery (Some err))
             | Inr l3Hash \<Rightarrow> Inr (filter (\<lambda>s. ss_L3ID s = l3Hash) all))), ac)"

definition ListScenes :: "i64 \<Rightarrow> u64 \<Rightarrow> string \<Rightarrow> DB \<Rightarrow> (goerr + SceneSlot list) \<times> DB" where
  "ListScenes now agentID l3ID = locked (lockAgent now agentID) agentID (ListScenes_body agentID l3ID)"

record ScenePatch =
  sp_Name :: "string option"
  sp_L3ID :: "string option"
  sp_Force :: bool

text \<open>The anchor a patch asks for: 0 clears it or leaves it unnamed.\<close>

definition patch_anchor :: "StorageEngine \<Rightarrow> ScenePatch \<Rightarrow> goerr + u64" where
  "patch_anchor engine patch = (case sp_L3ID patch of None \<Rightarrow> Inr 0
     | Some l3 \<Rightarrow> if l3 = '''' then Inr 0
         else (case parseID l3 of Inl err \<Rightarrow> Inl err
           | Inr anchorID \<Rightarrow> (case ReadSharedGraphL3 engine anchorID of Inl err \<Rightarrow> Inl err | Inr g \<Rightarrow> Inr (hs_IDHash g))))"

definition apply_patch :: "ScenePatch \<Rightarrow> u64 \<Rightarrow> SceneSlot \<Rightarrow> goerr + SceneSlot" where
  "apply_patch patch l3Hash slot =
     (let slot = (case sp_Name patch of None \<Rightarrow> slot | Some n \<Rightarrow> slot\<lparr>ss_SceneName := n\<rparr>)
      in case sp_L3ID patch of None \<Rightarrow> Inr slot
         | Some _ \<Rightarrow> if l3Hash \<noteq> 0 \<and> ss_L3ID slot \<noteq> 0 \<and> ss_L3ID slot \<noteq> l3Hash \<and> \<not> sp_Force patch
             then Inl (NewError ErrInvalidQuery) else Inr (slot\<lparr>ss_L3ID := l3Hash\<rparr>))"

definition UpdateScene_body :: "u64 \<Rightarrow> string \<Rightarrow> ScenePatch \<Rightarrow> Context \<Rightarrow> (goerr + SceneSlot) \<times> Context" where
  "UpdateScene_body agentID sceneID patch ac =
     (if sp_Name patch = Some '''' then (Inl (NewError ErrInvalidQuery), ac)
      else case ParseID sceneID of Inl err \<Rightarrow> (Inl (Error ErrInvalidQuery (Some err)), ac)
        | Inr sceneHash \<Rightarrow> (case patch_anchor (ctx_Engine ac) patch of Inl err \<Rightarrow> (Inl err, ac)
          | Inr l3Hash \<Rightarrow> (case ReadSceneSlot (ctx_Engine ac) agentID sceneHash of Inl err \<Rightarrow> (Inl err, ac)
            | Inr stored \<Rightarrow> (case apply_patch patch l3Hash stored of Inl err \<Rightarrow> (Inl err, ac)
              | Inr slot \<Rightarrow> if slot = stored then (Inr stored, ac)
                  else (case WriteSceneSlot agentID sceneHash slot (ctx_Engine ac) of
                      (Inl err, engine) \<Rightarrow> (Inl err, ac\<lparr>ctx_Engine := engine\<rparr>)
                    | (Inr _, engine) \<Rightarrow> (Inr slot, ac\<lparr>ctx_Engine := engine\<rparr>))))))"

definition UpdateScene :: "i64 \<Rightarrow> u64 \<Rightarrow> string \<Rightarrow> ScenePatch \<Rightarrow> DB \<Rightarrow> (goerr + SceneSlot) \<times> DB" where
  "UpdateScene now agentID sceneID patch = locked (lockAgent now agentID) agentID (UpdateScene_body agentID sceneID patch)"

definition RenameTopic_body :: "u64 \<Rightarrow> string \<Rightarrow> string \<Rightarrow> Context \<Rightarrow> (goerr + TopicSlot) \<times> Context" where
  "RenameTopic_body agentID topicID name ac = (case ParseTopicID topicID of Inl err \<Rightarrow> (Inl err, ac)
     | Inr parsed \<Rightarrow> (case RenameTopicL2 agentID parsed name (ctx_Engine ac) of
         (Inl err, engine) \<Rightarrow> (Inl err, ac\<lparr>ctx_Engine := engine\<rparr>)
       | (Inr slot, engine) \<Rightarrow> (Inr slot, SyncL2Meta slot (ac\<lparr>ctx_Engine := engine\<rparr>))))"

definition RenameTopic :: "i64 \<Rightarrow> u64 \<Rightarrow> string \<Rightarrow> string \<Rightarrow> DB \<Rightarrow> (goerr + TopicSlot) \<times> DB" where
  "RenameTopic now agentID topicID name db = (if name = '''' then (Inl (NewError ErrInvalidQuery), db)
     else locked (lockAgent now agentID) agentID (RenameTopic_body agentID topicID name) db)"

section \<open>Merging\<close>

definition requireScenes :: "StorageEngine \<Rightarrow> u64 \<Rightarrow> u64 list \<Rightarrow> goerr + unit" where
  "requireScenes engine agentID ids = (case ListScenesL2 engine agentID ids of Inl err \<Rightarrow> Inl err
     | Inr scenes \<Rightarrow> if set ids \<subseteq> ss_SceneID ` set scenes then Inr () else Inl (NewError ErrNotFound))"

fun distinct_anchors :: "StorageEngine \<Rightarrow> u64 \<Rightarrow> u64 list \<Rightarrow> u64 list \<Rightarrow> goerr + u64 list" where
  "distinct_anchors engine agentID [] anchors = Inr anchors"
| "distinct_anchors engine agentID (i # ids) anchors = (case ReadSceneSlot engine agentID i of Inl err \<Rightarrow> Inl err
     | Inr secondary \<Rightarrow> distinct_anchors engine agentID ids
         (if ss_L3ID secondary = 0 \<or> ss_L3ID secondary \<in> set anchors then anchors else anchors @ [ss_L3ID secondary]))"

definition mergedAnchor :: "StorageEngine \<Rightarrow> u64 \<Rightarrow> u64 \<Rightarrow> u64 list \<Rightarrow> goerr + u64" where
  "mergedAnchor engine agentID primary secondaries = (case ReadSceneSlot engine agentID primary of Inl err \<Rightarrow> Inl err
     | Inr survivor \<Rightarrow> if ss_L3ID survivor \<noteq> 0 then Inr 0
         else (case distinct_anchors engine agentID secondaries [] of Inl err \<Rightarrow> Inl err
           | Inr [] \<Rightarrow> Inr 0 | Inr [g] \<Rightarrow> Inr g | Inr _ \<Rightarrow> Inl (NewError ErrInvalidQuery)))"

definition DeleteSceneNodeL1 :: "(string \<Rightarrow> u64) \<Rightarrow> u64 \<Rightarrow> u64 \<Rightarrow> StorageEngine \<Rightarrow> (goerr + unit) \<times> StorageEngine" where
  "DeleteSceneNodeL1 H agentID sceneID engine = (case DeleteRecordBatch agentID [SceneNodeID H sceneID] engine of
     (Inl err, engine) \<Rightarrow> (Inl (Error ErrIO (Some err)), engine) | (Inr _, engine) \<Rightarrow> (Inr (), engine))"

fun delete_scene_nodes :: "(string \<Rightarrow> u64) \<Rightarrow> u64 \<Rightarrow> u64 list \<Rightarrow> StorageEngine \<Rightarrow> (goerr + unit) \<times> StorageEngine" where
  "delete_scene_nodes H agentID [] engine = (Inr (), engine)"
| "delete_scene_nodes H agentID (i # ids) engine = (case DeleteSceneNodeL1 H agentID i engine of
     (Inl err, engine) \<Rightarrow> (Inl err, engine) | (Inr _, engine) \<Rightarrow> delete_scene_nodes H agentID ids engine)"

definition set_anchor :: "u64 \<Rightarrow> u64 \<Rightarrow> u64 \<Rightarrow> StorageEngine \<Rightarrow> (goerr + unit) \<times> StorageEngine" where
  "set_anchor agentID primary anchor engine = (if anchor = 0 then (Inr (), engine)
     else case ReadSceneSlot engine agentID primary of Inl err \<Rightarrow> (Inl err, engine)
       | Inr slot \<Rightarrow> WriteSceneSlot agentID primary (slot\<lparr>ss_L3ID := anchor\<rparr>) engine)"

definition merge_records :: "(string \<Rightarrow> u64) \<Rightarrow> u64 \<Rightarrow> u64 \<Rightarrow> u64 list \<Rightarrow> u64 \<Rightarrow> Context \<Rightarrow> (goerr + unit) \<times> Context" where
  "merge_records H agentID primary hashes anchor ac = (case delete_scene_nodes H agentID hashes (ctx_Engine ac) of
     (Inl err, engine) \<Rightarrow> (Inl err, ac\<lparr>ctx_Engine := engine\<rparr>)
   | (Inr _, engine) \<Rightarrow> (case MergeScenesL2 agentID primary hashes engine of
       (Inl err, engine) \<Rightarrow> (Inl err, ac\<lparr>ctx_Engine := engine\<rparr>)
     | (Inr _, engine) \<Rightarrow> (case set_anchor agentID primary anchor engine of (r, engine) \<Rightarrow> (r, ac\<lparr>ctx_Engine := engine\<rparr>))))"

definition MergeScenes_body :: "(string \<Rightarrow> u64) \<Rightarrow> u64 \<Rightarrow> string \<Rightarrow> string list \<Rightarrow> Context \<Rightarrow> ((goerr + unit) \<times> Context) option" where
  "MergeScenes_body H agentID primaryID secondaryIDs ac =
     (case ParseID primaryID of Inl err \<Rightarrow> Some (Inl (Error ErrInvalidQuery (Some err)), ac)
      | Inr primary \<Rightarrow> (case ParseAll secondaryIDs of Inl err \<Rightarrow> Some (Inl (Error ErrInvalidQuery (Some err)), ac)
        | Inr hashes \<Rightarrow>
            if length hashes = 0 \<or> primary \<in> set hashes \<or> \<not> distinct hashes then Some (Inl (NewError ErrInvalidQuery), ac)
            else (case requireScenes (ctx_Engine ac) agentID (primary # hashes) of Inl err \<Rightarrow> Some (Inl err, ac)
              | Inr _ \<Rightarrow> (case mergedAnchor (ctx_Engine ac) agentID primary hashes of Inl err \<Rightarrow> Some (Inl err, ac)
                | Inr anchor \<Rightarrow> (case merge_records H agentID primary hashes anchor ac of
                    (Inl err, ac) \<Rightarrow> Some (Inl err, ac)
                  | (Inr _, ac) \<Rightarrow> map_option (\<lambda>ac. (Inr (), fold (\<lambda>s. MoveScene s primary) hashes ac)) (RetargetL2Meta primary hashes ac))))))"

definition MergeScenes :: "(string \<Rightarrow> u64) \<Rightarrow> i64 \<Rightarrow> u64 \<Rightarrow> string \<Rightarrow> string list \<Rightarrow> DB \<Rightarrow> ((goerr + unit) \<times> DB) option" where
  "MergeScenes H now agentID primaryID secondaryIDs =
     locked' (lockAgent now agentID) agentID (MergeScenes_body H agentID primaryID secondaryIDs)"

section \<open>Deleting\<close>

definition DeleteTopic_body :: "(string \<Rightarrow> u64) \<Rightarrow> u64 \<Rightarrow> string \<Rightarrow> Context \<Rightarrow> ((goerr + unit) \<times> Context) option" where
  "DeleteTopic_body H agentID topicID ac = (case ParseTopicID topicID of Inl err \<Rightarrow> Some (Inl err, ac)
     | Inr parsedID \<Rightarrow> (case TopicClosureL2 (ctx_Engine ac) agentID parsedID of None \<Rightarrow> None
       | Some (Inl err) \<Rightarrow> Some (Inl err, ac)
       | Some (Inr topics) \<Rightarrow>
           if length topics = 0 then Some (Inl (NewError ErrNotFound), ac)
           else Some (case DeleteCascade H agentID [] topics ac of (Inl err, ac) \<Rightarrow> (Inl err, ac)
             | (Inr _, ac) \<Rightarrow> (Inr (), fold ForgetTurn topics ac))))"

definition DeleteTopic :: "(string \<Rightarrow> u64) \<Rightarrow> i64 \<Rightarrow> u64 \<Rightarrow> string \<Rightarrow> DB \<Rightarrow> ((goerr + unit) \<times> DB) option" where
  "DeleteTopic H now agentID topicID = locked' (lockAgent now agentID) agentID (DeleteTopic_body H agentID topicID)"

definition DeleteScene_body :: "(string \<Rightarrow> u64) \<Rightarrow> u64 \<Rightarrow> string \<Rightarrow> Context \<Rightarrow> (goerr + unit) \<times> Context" where
  "DeleteScene_body H agentID sceneID ac = (case ParseID sceneID of Inl err \<Rightarrow> (Inl (Error ErrInvalidQuery (Some err)), ac)
     | Inr sceneHash \<Rightarrow> (case ReadSceneSlot (ctx_Engine ac) agentID sceneHash of Inl err \<Rightarrow> (Inl err, ac)
       | Inr _ \<Rightarrow> (case TopicIDsBySceneL2 (ctx_Engine ac) agentID [sceneHash] of Inl err \<Rightarrow> (Inl err, ac)
         | Inr topics \<Rightarrow> (case DeleteCascade H agentID [sceneHash] topics ac of (Inl err, ac) \<Rightarrow> (Inl err, ac)
           | (Inr _, ac) \<Rightarrow> (case DeleteSceneNodeL1 H agentID sceneHash (ctx_Engine ac) of
               (Inl err, engine) \<Rightarrow> (Inl err, ac\<lparr>ctx_Engine := engine\<rparr>)
             | (Inr _, engine) \<Rightarrow> (Inr (), ForgetScene sceneHash (ac\<lparr>ctx_Engine := engine\<rparr>)))))))"

definition DeleteScene :: "(string \<Rightarrow> u64) \<Rightarrow> i64 \<Rightarrow> u64 \<Rightarrow> string \<Rightarrow> DB \<Rightarrow> (goerr + unit) \<times> DB" where
  "DeleteScene H now agentID sceneID = locked (lockAgent now agentID) agentID (DeleteScene_body H agentID sceneID)"

end
