(* ===== verification/Turn_Ops.thy ===== *)
theory Turn_Ops
  imports Scene_Ops
begin

text \<open>
  \<^verbatim>\<open>internal/search.go\<close>, \<^verbatim>\<open>update.go\<close>, \<^verbatim>\<open>l4.go\<close>, \<^verbatim>\<open>l5.go\<close> and the scene transcript of \<^verbatim>\<open>l2.go\<close>: the read that opens a turn, the
  content and plan writes of the open turn, and the call that closes it. The profile record holds
  floating-point fields, so its decoder and its zero value are arguments (\<open>dec\<close>, \<open>blank\<close>); the digest
  \<^verbatim>\<open>ProfileBrief\<close> of the answer is left out. The keyword extraction calls a language model and is the
  argument \<open>extract\<close>. A Dream that the close schedules is reported, not run.
\<close>

section \<open>Opening a turn\<close>

record SearchQuery =
  sq_SceneID :: string
  sq_L3ID :: string
  sq_NewScene :: bool

record 'p SearchResult =
  sr_Profile :: 'p
  sr_Scene :: SceneSlot
  sr_Topics :: "TopicSlot list"
  sr_OmittedTopicCount :: nat
  sr_NewTopicID :: u64

definition profile_id :: "(string \<Rightarrow> u64) \<Rightarrow> u64" where "profile_id H = H ''profile''"

definition GetProfileL0 :: "(bytes \<Rightarrow> goerr + 'p) \<Rightarrow> (string \<Rightarrow> u64) \<Rightarrow> StorageEngine \<Rightarrow> u64 \<Rightarrow> goerr + 'p" where
  "GetProfileL0 dec H engine agentID = (case readJSON dec engine agentID (profile_id H) RecL0Profile of
     Inl err \<Rightarrow> Inl (Error (CodeOf err) (Some err)) | Inr slot \<Rightarrow> Inr slot)"

definition ReadProfile :: "(bytes \<Rightarrow> goerr + 'p) \<Rightarrow> 'p \<Rightarrow> (string \<Rightarrow> u64) \<Rightarrow> StorageEngine \<Rightarrow> u64 \<Rightarrow> goerr + 'p" where
  "ReadProfile dec blank H engine agentID = (case GetProfileL0 dec H engine agentID of
     Inl err \<Rightarrow> if CodeOf err = ErrNotFound then Inr blank else Inl err | Inr slot \<Rightarrow> Inr slot)"

definition sceneAnchor :: "string \<Rightarrow> goerr + u64" where
  "sceneAnchor l3ID = (if l3ID = '''' then Inr 0 else parseID l3ID)"

definition ensureScene :: "u64 \<Rightarrow> Context \<Rightarrow> (goerr + unit) \<times> Context" where
  "ensureScene agentID ac = (if ctx_Scene ac \<noteq> 0 then (Inr (), ac)
     else case CurrentScene (ctx_Engine ac) agentID of Inl err \<Rightarrow> (Inl err, ac\<lparr>ctx_Scene := 0\<rparr>)
       | Inr i \<Rightarrow> (Inr (), ac\<lparr>ctx_Scene := i\<rparr>))"

definition create_in :: "u64 \<Rightarrow> u64 \<Rightarrow> i64 \<Rightarrow> (goerr + bytes) list \<Rightarrow> Context \<Rightarrow> ((goerr + u64) \<times> Context) option" where
  "create_in agentID anchor stamp draws ac =
     map_option (\<lambda>(r, engine). (r, ac\<lparr>ctx_Engine := engine\<rparr>)) (Create_Scene agentID anchor stamp draws (ctx_Engine ac))"

definition resolveScene :: "u64 \<Rightarrow> SearchQuery \<Rightarrow> i64 \<Rightarrow> (goerr + bytes) list \<Rightarrow> Context \<Rightarrow> ((goerr + u64) \<times> Context) option" where
  "resolveScene agentID q stamp draws ac =
     (if sq_SceneID q \<noteq> ''''
      then if sq_NewScene q then Some (Inl (NewError ErrInvalidQuery), ac)
        else (case parseID (sq_SceneID q) of Inl err \<Rightarrow> Some (Inl err, ac)
          | Inr named \<Rightarrow> Some (ResolveExisting (ctx_Engine ac) agentID named (sq_L3ID q \<noteq> ''''), ac))
      else case sceneAnchor (sq_L3ID q) of Inl err \<Rightarrow> Some (Inl err, ac)
        | Inr anchor \<Rightarrow>
            if sq_NewScene q then create_in agentID anchor stamp draws ac
            else (case ensureScene agentID ac of (Inl err, ac) \<Rightarrow> Some (Inl err, ac)
              | (Inr _, ac) \<Rightarrow>
                  if ctx_Scene ac = 0 then create_in agentID anchor stamp draws ac
                  else if anchor \<noteq> 0 then Some (Inl (NewError ErrInvalidQuery), ac)
                  else Some (Inr (ctx_Scene ac), ac)))"

definition omitted :: "int \<Rightarrow> TopicSlot list \<Rightarrow> nat" where
  "omitted limit topics = (if limit > 0 \<and> int (length topics) > limit then length topics - nat limit else 0)"

definition open_turn :: "(bytes \<Rightarrow> goerr + 'p) \<Rightarrow> 'p \<Rightarrow> (string \<Rightarrow> u64) \<Rightarrow> int \<Rightarrow> u64 \<Rightarrow> u64 \<Rightarrow> i64 \<Rightarrow> Context
    \<Rightarrow> ((goerr + 'p SearchResult) \<times> Context) option" where
  "open_turn dec blank H limit agentID sceneID stamp ac = (case OpenSceneTurn agentID sceneID stamp (ctx_Engine ac) of
     (Inl err, engine) \<Rightarrow> Some (Inl err, ac\<lparr>ctx_Engine := engine\<rparr>)
   | (Inr sceneSlot, engine) \<Rightarrow>
       let ac = ac\<lparr>ctx_Engine := engine\<rparr>
       in (case ReadProfile dec blank H (ctx_Engine ac) agentID of Inl err \<Rightarrow> Some (Inl err, ac)
         | Inr slot \<Rightarrow> (case SurfaceTopics ac (ss_SceneID sceneSlot) of None \<Rightarrow> None
           | Some topics \<Rightarrow>
               let opened = ComputeTurnTopicID H (ss_SceneID sceneSlot) (ss_TurnSeq sceneSlot)
               in if opened = 0 then Some (Inl (NewError ErrCorruption), ac)
                  else Some (Inr \<lparr>sr_Profile = slot, sr_Scene = sceneSlot, sr_Topics = drop (omitted limit topics) topics,
                         sr_OmittedTopicCount = omitted limit topics, sr_NewTopicID = opened\<rparr>,
                       ac\<lparr>ctx_Scene := ss_SceneID sceneSlot, ctx_Turn := opened\<rparr>))))"

definition Search_body :: "(bytes \<Rightarrow> goerr + 'p) \<Rightarrow> 'p \<Rightarrow> (string \<Rightarrow> u64) \<Rightarrow> int \<Rightarrow> i64 \<Rightarrow> (goerr + bytes) list \<Rightarrow> u64 \<Rightarrow> SearchQuery \<Rightarrow> Context
    \<Rightarrow> ((goerr + 'p SearchResult) \<times> Context) option" where
  "Search_body dec blank H limit now draws agentID q ac = (case NextUsedStamp now ac of (stamp, ac) \<Rightarrow>
     (case resolveScene agentID q stamp draws ac of None \<Rightarrow> None
      | Some (Inl err, ac) \<Rightarrow> Some (Inl err, ac)
      | Some (Inr sceneID, ac) \<Rightarrow> open_turn dec blank H limit agentID sceneID stamp ac))"

definition Search :: "(bytes \<Rightarrow> goerr + 'p) \<Rightarrow> 'p \<Rightarrow> (string \<Rightarrow> u64) \<Rightarrow> i64 \<Rightarrow> (goerr + bytes) list \<Rightarrow> u64 \<Rightarrow> SearchQuery \<Rightarrow> DB
    \<Rightarrow> ((goerr + 'p SearchResult) \<times> DB) option" where
  "Search dec blank H now draws agentID q db =
     locked' (lockAgent now agentID) agentID (Search_body dec blank H (db_SceneDreamTopicThreshold db) now draws agentID q) db"

section \<open>Reading a scene without opening a turn\<close>

definition readScene :: "u64 \<Rightarrow> string \<Rightarrow> Context \<Rightarrow> (goerr + u64 option) \<times> Context" where
  "readScene agentID sceneID ac =
     (if sceneID \<noteq> '''' then (case parseID sceneID of Inl err \<Rightarrow> (Inl err, ac) | Inr i \<Rightarrow> (Inr (Some i), ac))
      else case ensureScene agentID ac of (Inl err, ac) \<Rightarrow> (Inl err, ac)
        | (Inr _, ac) \<Rightarrow> (Inr (if ctx_Scene ac = 0 then None else Some (ctx_Scene ac)), ac))"

record SceneContext =
  sx_SceneName :: string
  sx_Topics :: "SceneContextTopic list"

definition child_count :: "TopicSlot list \<Rightarrow> u64 \<Rightarrow> nat" where
  "child_count topics p = length (filter (\<lambda>t. ts_ParentID t = Some p) topics)"

fun context_topics :: "u64 \<Rightarrow> Context \<Rightarrow> (u64 \<Rightarrow> nat) \<Rightarrow> TopicSlot list \<Rightarrow> goerr + SceneContextTopic list" where
  "context_topics agentID ac children [] = Inr []"
| "context_topics agentID ac children (t # ts) = (case Read agentID ac (ts_ID t) KindUtterance of Inl err \<Rightarrow> Inl err
     | Inr utterances \<Rightarrow> (case context_topics agentID ac children ts of Inl err \<Rightarrow> Inl err
         | Inr out \<Rightarrow> Inr (ContextTopic t children utterances # out)))"

definition scene_context :: "u64 \<Rightarrow> u64 \<Rightarrow> Context \<Rightarrow> (goerr + SceneContext) option" where
  "scene_context agentID sceneHash ac = (case ListScenesL2 (ctx_Engine ac) agentID [sceneHash] of Inl err \<Rightarrow> Some (Inl err)
     | Inr scenes \<Rightarrow> (case scenes of [] \<Rightarrow> Some (Inl (NewError ErrNotFound))
       | s # _ \<Rightarrow> (case ListTopicsL2 \<lparr>tq_MetaIdx = ctx_L2Meta ac, tq_SceneID = sceneHash, tq_Depth = 2\<rparr> of None \<Rightarrow> None
         | Some topics \<Rightarrow> Some (case context_topics agentID ac (child_count topics) topics of Inl err \<Rightarrow> Inl err
             | Inr out \<Rightarrow> Inr \<lparr>sx_SceneName = ss_SceneName s, sx_Topics = out\<rparr>))))"

definition SceneContext_body :: "u64 \<Rightarrow> string \<Rightarrow> Context \<Rightarrow> ((goerr + SceneContext) \<times> Context) option" where
  "SceneContext_body agentID sceneID ac = (case readScene agentID sceneID ac of (Inl err, ac) \<Rightarrow> Some (Inl err, ac)
     | (Inr None, ac) \<Rightarrow> Some (Inr \<lparr>sx_SceneName = '''', sx_Topics = []\<rparr>, ac)
     | (Inr (Some sceneHash), ac) \<Rightarrow> map_option (\<lambda>r. (r, ac)) (scene_context agentID sceneHash ac))"

definition Scene_Context :: "i64 \<Rightarrow> u64 \<Rightarrow> string \<Rightarrow> DB \<Rightarrow> ((goerr + SceneContext) \<times> DB) option" where
  "Scene_Context now agentID sceneID = locked' (lockAgent now agentID) agentID (SceneContext_body agentID sceneID)"

section \<open>Closing a turn\<close>

record TurnEnd =
  te_Input :: string
  te_Output :: string
  te_Outcome :: string
  te_CreatedAt :: i64

definition outcomeEvent :: string where "outcomeEvent = ''turn_outcome''"

definition turnEndRecords :: "TurnEnd \<Rightarrow> ArchiveSlot list" where
  "turnEndRecords e =
     (if te_Input e \<noteq> '''' then [archive_zero\<lparr>as_Kind := KindUtterance, as_Seq := SeqUser, as_Role := RoleUser,
        as_ContentType := ContentText, as_Content := te_Input e, as_CreatedAt := te_CreatedAt e\<rparr>] else [])
   @ (if te_Output e \<noteq> '''' then [archive_zero\<lparr>as_Kind := KindUtterance, as_Seq := SeqAgent, as_Role := RoleAgent,
        as_ContentType := ContentText, as_Content := te_Output e, as_CreatedAt := te_CreatedAt e\<rparr>] else [])
   @ (if te_Outcome e \<noteq> '''' then [archive_zero\<lparr>as_Kind := KindEvent, as_EventType := outcomeEvent,
        as_Content := te_Outcome e, as_CreatedAt := te_CreatedAt e\<rparr>] else [])"

definition byCreatedAt :: "ArchiveSlot \<Rightarrow> ArchiveSlot \<Rightarrow> int" where
  "byCreatedAt a b = cmp (as_CreatedAt a) (as_CreatedAt b)"

text \<open>Whether the scene's surface has outgrown the threshold, so that the close schedules a Dream.\<close>

definition consolidateScene :: "int \<Rightarrow> u64 \<Rightarrow> Context \<Rightarrow> bool option" where
  "consolidateScene t sceneID ac = (if t \<le> 0 then Some False
     else map_option (\<lambda>topics. \<not> int (length topics) \<le> t) (SurfaceTopics ac sceneID))"

definition settle_topic :: "int \<Rightarrow> u64 \<Rightarrow> u64 \<Rightarrow> u64 \<Rightarrow> string list \<Rightarrow> ArchiveSlot list \<Rightarrow> Context
    \<Rightarrow> ((goerr + TopicSlot \<times> bool) \<times> Context) option" where
  "settle_topic limit agentID sceneID topicID keywords utterances ac =
     (case CreateTurnTopicL2 agentID sceneID topicID keywords (as_CreatedAt (MinFunc byCreatedAt utterances))
         (as_CreatedAt (MaxFunc byCreatedAt utterances)) (ctx_Engine ac) of
        (Inl err, engine) \<Rightarrow> Some (Inl (Error (CodeOf err) (Some err)), ac\<lparr>ctx_Engine := engine\<rparr>)
      | (Inr topic, engine) \<Rightarrow>
          let ac = SyncL2Meta topic (ac\<lparr>ctx_Engine := engine\<rparr>)
          in map_option (\<lambda>dream. (Inr (topic, dream), ac)) (consolidateScene limit sceneID ac))"

definition settleLocked :: "(string \<Rightarrow> u64) \<Rightarrow> (string \<Rightarrow> goerr + string list) \<Rightarrow> int \<Rightarrow> u64 \<Rightarrow> u64 \<Rightarrow> u64 \<Rightarrow> Context
    \<Rightarrow> ((goerr + TopicSlot \<times> bool) \<times> Context) option" where
  "settleLocked H extract limit agentID sceneID topicID ac = (case ReadSceneSlot (ctx_Engine ac) agentID sceneID of
     Inl err \<Rightarrow> Some (Inl err, ac)
   | Inr slot \<Rightarrow> (case SettleTarget H sceneID topicID (ss_TurnSeq slot) of None \<Rightarrow> None
     | Some (Inl err) \<Rightarrow> Some (Inl err, ac)
     | Some (Inr _) \<Rightarrow> (case Read agentID ac topicID KindUtterance of Inl err \<Rightarrow> Some (Inl err, ac)
       | Inr utterances \<Rightarrow>
           if length utterances = 0 then Some (Inl (NewError ErrInvalidQuery), ac)
           else (case extract (RenderForDistill utterances) of Inl err \<Rightarrow> Some (Inl (Error ErrLLM (Some err)), ac)
             | Inr keywords \<Rightarrow>
                 if length keywords = 0 then Some (Inl (NewError ErrLLM), ac)
                 else settle_topic limit agentID sceneID topicID keywords utterances ac))))"

definition Update_body :: "(string \<Rightarrow> u64) \<Rightarrow> (string \<Rightarrow> goerr + string list) \<Rightarrow> int \<Rightarrow> u64 \<Rightarrow> TurnEnd \<Rightarrow> Context
    \<Rightarrow> ((goerr + TopicSlot \<times> bool) \<times> Context) option" where
  "Update_body H extract limit agentID e ac =
     (let records = turnEndRecords e in
      if length records = 0 then Some (Inl (NewError ErrInvalidQuery), ac)
      else (case AppendBatch H agentID (ctx_Turn ac) records ac of
          (Inl err, ac) \<Rightarrow> Some (Inl err, ac)
        | (Inr _, ac) \<Rightarrow> settleLocked H extract limit agentID (ctx_Scene ac) (ctx_Turn ac) ac))"

definition Update :: "(string \<Rightarrow> u64) \<Rightarrow> (string \<Rightarrow> goerr + string list) \<Rightarrow> i64 \<Rightarrow> u64 \<Rightarrow> TurnEnd \<Rightarrow> DB
    \<Rightarrow> ((goerr + TopicSlot \<times> bool) \<times> DB) option" where
  "Update H extract now agentID e db =
     locked' (lockTurn now agentID) agentID (Update_body H extract (db_SceneDreamTopicThreshold db) agentID e) db"

end
