(* ===== verification/Content_Ops.thy ===== *)
theory Content_Ops
  imports Turn_Ops
begin

text \<open>
  \<^verbatim>\<open>internal/l4.go\<close> and \<^verbatim>\<open>l5.go\<close>: reading and writing the content of a turn, and the plan tree of the open turn.
  The step filter of a content query walks the plan tree, which need not end on a damaged tree: the
  query is \<open>None\<close> then.
\<close>

record L4Query =
  lq_Keyword :: string
  lq_Start :: i64
  lq_End :: i64
  lq_IDs :: "string list"
  lq_TopicID :: "string option"
  lq_Type :: "byte option"
  lq_Kind :: "byte option"
  lq_NodeSeq :: u32
  lq_Limit :: int

text \<open>The refusals that need no record, in the order the source checks them.\<close>

definition refuse_query :: "L4Query \<Rightarrow> goerr + unit" where
  "refuse_query q =
     (if lq_NodeSeq q \<noteq> 0 \<and> lq_TopicID q = None then Inl (NewError ErrInvalidQuery)
      else if (case lq_Kind q of None \<Rightarrow> False | Some k \<Rightarrow> \<not> ArchiveKind_Valid k) then Inl (NewError ErrInvalidQuery)
      else if (case lq_Type q of None \<Rightarrow> False | Some t \<Rightarrow> \<not> ContentType_Valid t) then Inl (NewError ErrInvalidQuery)
      else case CheckQueryBound (lq_Start q) of Inl err \<Rightarrow> Inl err | Inr _ \<Rightarrow> CheckQueryBound (lq_End q))"

definition query_ids :: "L4Query \<Rightarrow> goerr + u64 list" where
  "query_ids q = (if length (lq_IDs q) = 0 then Inr []
     else case ParseAll (lq_IDs q) of Inl err \<Rightarrow> Inl (Error ErrInvalidQuery (Some err))
       | Inr ids \<Rightarrow> if 0 \<in> set ids then Inl (NewError ErrInvalidQuery) else Inr ids)"

definition query_topic :: "u64 \<Rightarrow> Context \<Rightarrow> L4Query \<Rightarrow> (goerr + u64 option \<times> u32 list) option" where
  "query_topic agentID ac q = (case lq_TopicID q of None \<Rightarrow> Some (Inr (None, []))
     | Some t \<Rightarrow> (case ParseTopicID t of Inl err \<Rightarrow> Some (Inl err)
       | Inr topicHash \<Rightarrow> (case ReadSceneSlot (ctx_Engine ac) agentID topicHash of
           Inr _ \<Rightarrow> Some (Inl (NewError ErrInvalidQuery))
         | Inl _ \<Rightarrow> if lq_NodeSeq q = 0 then Some (Inr (Some topicHash, []))
             else map_option (\<lambda>seqs. Inr (Some topicHash, seqs)) (Subtree (ctx_Plans ac) topicHash (lq_NodeSeq q)))))"

definition SearchL4_body :: "(string \<Rightarrow> string) \<Rightarrow> u64 \<Rightarrow> L4Query \<Rightarrow> Context \<Rightarrow> ((goerr + ArchiveSlot list) \<times> Context) option" where
  "SearchL4_body lower agentID q ac = (case refuse_query q of Inl err \<Rightarrow> Some (Inl err, ac)
     | Inr _ \<Rightarrow> (case query_ids q of Inl err \<Rightarrow> Some (Inl err, ac)
       | Inr ids \<Rightarrow> (case query_topic agentID ac q of None \<Rightarrow> None | Some (Inl err) \<Rightarrow> Some (Inl err, ac)
         | Some (Inr (topic, seqs)) \<Rightarrow>
             Some (QueryArchivesL4 lower (ctx_Engine ac) agentID
               \<lparr>aq_IDs = ids, aq_TopicID = topic, aq_Type = lq_Type q, aq_Kind = lq_Kind q, aq_NodeSeqs = seqs,
                aq_Keyword = lq_Keyword q, aq_Start = lq_Start q, aq_End = lq_End q, aq_Limit = lq_Limit q,
                aq_Index = Some (ctx_L4 ac)\<rparr>, ac))))"

definition SearchL4 :: "(string \<Rightarrow> string) \<Rightarrow> i64 \<Rightarrow> u64 \<Rightarrow> L4Query \<Rightarrow> DB \<Rightarrow> ((goerr + ArchiveSlot list) \<times> DB) option" where
  "SearchL4 lower now agentID q = locked' (lockAgent now agentID) agentID (SearchL4_body lower agentID q)"

definition AppendArchive_body :: "(string \<Rightarrow> u64) \<Rightarrow> u64 \<Rightarrow> ArchiveSlot \<Rightarrow> Context \<Rightarrow> (goerr + u64) \<times> Context" where
  "AppendArchive_body H agentID slot ac =
     (if as_NodeSeq slot \<noteq> 0 \<and> \<not> HasSeq (ctx_Plans ac) (ctx_Turn ac) (as_NodeSeq slot) then (Inl (NewError ErrInvalidQuery), ac)
      else Append H agentID (ctx_Turn ac) slot ac)"

definition AppendArchive :: "(string \<Rightarrow> u64) \<Rightarrow> i64 \<Rightarrow> u64 \<Rightarrow> ArchiveSlot \<Rightarrow> DB \<Rightarrow> (goerr + u64) \<times> DB" where
  "AppendArchive H now agentID slot = locked (lockTurn now agentID) agentID (AppendArchive_body H agentID slot)"

section \<open>The plan of the open turn\<close>

definition PlanNodeAdd_body :: "(string \<Rightarrow> u64) \<Rightarrow> i64 \<Rightarrow> u64 \<Rightarrow> u32 \<Rightarrow> string \<Rightarrow> Context \<Rightarrow> (goerr + u32) \<times> Context" where
  "PlanNodeAdd_body H now agentID parentSeq title ac =
     CreateNode H now agentID \<lparr>sp_TopicID = ctx_Turn ac, sp_ParentSeq = parentSeq, sp_Title = title\<rparr> ac"

definition PlanNodeAdd :: "(string \<Rightarrow> u64) \<Rightarrow> i64 \<Rightarrow> u64 \<Rightarrow> u32 \<Rightarrow> string \<Rightarrow> DB \<Rightarrow> (goerr + u32) \<times> DB" where
  "PlanNodeAdd H now agentID parentSeq title = locked (lockTurn now agentID) agentID (PlanNodeAdd_body H now agentID parentSeq title)"

definition PlanNodeUpdate_body :: "(string \<Rightarrow> u64) \<Rightarrow> (u64 \<Rightarrow> i64) \<Rightarrow> i64 \<Rightarrow> u64 \<Rightarrow> Step \<Rightarrow> Context \<Rightarrow> ((goerr + unit) \<times> Context) option" where
  "PlanNodeUpdate_body H clocks now agentID step ac =
     (case UpdateNode H now agentID (step\<lparr>st_TopicID := ctx_Turn ac\<rparr>) ac of
        (Inl err, ac) \<Rightarrow> Some (Inl err, ac)
      | (Inr _, ac) \<Rightarrow> RollupTree H clocks agentID (ctx_Turn ac) ac)"

definition PlanNodeUpdate :: "(string \<Rightarrow> u64) \<Rightarrow> (u64 \<Rightarrow> i64) \<Rightarrow> i64 \<Rightarrow> u64 \<Rightarrow> Step \<Rightarrow> DB \<Rightarrow> ((goerr + unit) \<times> DB) option" where
  "PlanNodeUpdate H clocks now agentID step = locked' (lockTurn now agentID) agentID (PlanNodeUpdate_body H clocks now agentID step)"

definition PlanState :: "i64 \<Rightarrow> u64 \<Rightarrow> DB \<Rightarrow> ((goerr + PlanTree) \<times> DB) option" where
  "PlanState now agentID = locked' (lockTurn now agentID) agentID (\<lambda>ac. map_option (\<lambda>r. (r, ac)) (BuildTree ac (ctx_Turn ac)))"

definition PlanActive :: "i64 \<Rightarrow> u64 \<Rightarrow> DB \<Rightarrow> ((goerr + PlanTree) \<times> DB) option" where
  "PlanActive now agentID = locked' (lockTurn now agentID) agentID (\<lambda>ac. map_option (\<lambda>r. (r, ac)) (BuildActiveTree ac (ctx_Turn ac)))"

end
