(* ===== verification/Content_Properties.thy ===== *)
theory Content_Properties
  imports Sample_Store Content_Ops
begin

text \<open>
  What the typed records and the archive layer promise, each with a concrete run: the codecs round
  trip, a record is only readable as the kind it was written as, a validated record fits its frame, an
  append stores its whole batch in fresh slots, a query answers the same from the index and from a scan,
  and the expiry drops exactly what is too old.
\<close>

text \<open>
  C17. A slot of a modelled record kind survives the store exactly when its text is valid UTF-8 and its
  timestamps fit \<^verbatim>\<open>int64\<close>: then what \<open>json.Marshal\<close> writes, \<open>json.Unmarshal\<close> reads back field by field, and
  otherwise nothing that reads back is that slot.
\<close>

theorem slots_round_trip:
  "((\<exists>d. marshal_scene s = Inr d \<and> unmarshal_scene d = Inr s) \<longleftrightarrow> scene_ok s)
    \<and> ((\<exists>d. marshal_topic t = Inr d \<and> unmarshal_topic d = Inr t) \<longleftrightarrow> topic_ok t)
    \<and> ((\<exists>d. marshal_archive x = Inr d \<and> unmarshal_archive d = Inr x) \<longleftrightarrow> archive_ok x)
    \<and> ((\<exists>d. marshal_plan_node n = Inr d \<and> unmarshal_plan_node d = Inr n) \<longleftrightarrow> plan_node_ok n)
    \<and> ((\<exists>d. marshal_graph_slot g = Inr d \<and> unmarshal_graph_slot d = Inr g) \<longleftrightarrow> graph_slot_ok g)
    \<and> ((\<exists>d. marshal_graph_node v = Inr d \<and> unmarshal_graph_node d = Inr v) \<longleftrightarrow> graph_node_ok v)
    \<and> ((\<exists>d. marshal_graph_edge w = Inr d \<and> unmarshal_graph_edge d = Inr w) \<longleftrightarrow> graph_edge_ok w)"
  by (intro conjI exact_scene.round_trip_iff exact_topic.round_trip_iff exact_archive.round_trip_iff exact_plan_node.round_trip_iff
      exact_graph_slot.round_trip_iff exact_graph_node.round_trip_iff exact_graph_edge.round_trip_iff)

lemma slots_round_trip_witness:
  "\<exists>d. marshal_graph_node \<lparr>hn_IDHash = 3, hn_GraphID = 2, hn_Title = ''a\"b'', hn_NodeType = ''concept'', hn_Content = ''x'', hn_Keywords = [''k''],
      hn_SourceRef = None, hn_CreatedAt = -1, hn_UpdatedAt = 5\<rparr> = Inr d
    \<and> unmarshal_graph_node d = Inr \<lparr>hn_IDHash = 3, hn_GraphID = 2, hn_Title = ''a\"b'', hn_NodeType = ''concept'', hn_Content = ''x'',
      hn_Keywords = [''k''], hn_SourceRef = None, hn_CreatedAt = -1, hn_UpdatedAt = 5\<rparr>"
  (is "\<exists>d. marshal_graph_node ?v = Inr d \<and> _")
proof -
  have "graph_node_ok ?v" by (simp add: graph_node_ok_def i64_ok_def) code_simp
  then show ?thesis using slots_round_trip [of _ _ _ _ _ ?v] by blast
qed

text \<open>
  The write contract does not ask for valid UTF-8: a record with an invalid byte in its content is accepted
  and stored, and what its stored form reads back as is another record.
\<close>

theorem accepted_text_is_altered:
  "\<exists>r. ValidateAppend r = Inr () \<and> as_Content r = [CHR 0xFF]
    \<and> (\<forall>H t q d. marshal_archive (stamp_id H (prepared_slot t q r)) = Inr d \<longrightarrow> unmarshal_archive d \<noteq> Inr (stamp_id H (prepared_slot t q r)))"
proof -
  let ?r = "sample_archive\<lparr>as_Seq := 0, as_Content := [CHR 0xFF]\<rparr>"
  have bad: "\<not> utf8 [CHR 0xFF]" by code_simp
  have "\<not> archive_ok (stamp_id H (prepared_slot t q ?r))" for H t q
    using bad by (simp add: archive_ok_def stamp_id_def)
  then have "marshal_archive (stamp_id H (prepared_slot t q ?r)) = Inr d \<Longrightarrow> unmarshal_archive d \<noteq> Inr (stamp_id H (prepared_slot t q ?r))" for H t q d
    using exact_archive.round_trip_iff by blast
  moreover have "ValidateAppend ?r = Inr ()"
    by (simp add: ValidateAppend_iff well_formed_record_def checkTimestamp_iff sample_archive_def
      MaxUtterancePayload_def ContentType_Valid_def contentTypeNames_def ContentText_def)
  ultimately show ?thesis by (intro exI [of _ ?r]) simp
qed



lemma accepted_small:
  assumes "ValidateAppend r = Inr ()"
  shows "size_of marshal_archive (stamp_id H (prepared_slot t s r)) < 2 ^ 19"
proof -
  let ?x = "stamp_id H (prepared_slot t s r)"
  have r: "well_formed_record r" using assms ValidateAppend_iff by blast
  then have c: "i64_ok (as_CreatedAt r)" unfolding well_formed_record_def checkTimestamp_iff i64_ok_def by auto
  have x: "as_CreatedAt ?x = as_CreatedAt r" "as_Content ?x = as_Content r" "as_EventType ?x = as_EventType r"
    by (simp_all add: stamp_id_def)
  have "length (as_Content r) + length (as_EventType r) \<le> 65536"
    using r by (auto simp: well_formed_record_def MaxEventPayload_def MaxUtterancePayload_def)
  then show ?thesis using archive_size_i64 [of ?x] c unfolding x by simp
qed

text \<open>
  C19. A record the write contract accepts fits into a frame with room to spare: its stored form is
  shorter than 512 KiB whatever its text holds, so the 32-bit payload length of the frame cannot wrap.
\<close>

theorem validated_record_is_small:
  assumes "ValidateAppend r = Inr ()"
  shows "size_of marshal_archive (stamp_id H (prepared_slot t s r)) < 2 ^ 19"
  using assms by (rule accepted_small)

lemma sample_accepted: "ValidateAppend (sample_archive\<lparr>as_Seq := s\<rparr>) = Inr ()"
  by (simp add: ValidateAppend_iff well_formed_record_def checkTimestamp_iff sample_archive_def
      MaxUtterancePayload_def ContentType_Valid_def contentTypeNames_def ContentText_def)

lemma validated_record_is_small_witness:
  "size_of marshal_archive (stamp_id sample_hash (prepared_slot 9 3 (sample_archive\<lparr>as_Seq := 0\<rparr>))) < 2 ^ 19"
  by (rule validated_record_is_small [OF sample_accepted])

section \<open>Appending\<close>

lemma prepare_batch_seqs:
  "prepare_batch H e a t nxt recs = Inr out \<Longrightarrow> map snd out = alloc nxt (map as_Seq recs)"
  by (induction recs arbitrary: nxt out) (auto simp: Let_def split: sum.splits if_splits)

lemma AppendBatch_seqs:
  assumes "AppendBatch H a t recs c = (Inr seqs, c')"
  shows "seqs = alloc (first_free c t) (map as_Seq recs)"
  using assms prepare_batch_seqs unfolding AppendBatch_def first_free_def
  by (auto split: sum.splits prod.splits)

text \<open>
  C20. An append is atomic and complete: when every record passes the contract and the frames fit, the
  whole batch is stored, each record reads back under its slot's address exactly as prepared, and nothing
  else changes: every record at any other address, of whatever kind and of whatever domain, reads as
  before, so no archive is lost or made up. The caches still mirror the records.
\<close>

theorem AppendBatch_stores:
  assumes "domain_inv H a c" "\<forall>r \<in> set recs. ValidateAppend r = Inr ()" "seqs = alloc (first_free c t) (map as_Seq recs)" "distinct seqs"
    and ready: "batch_ready H a t (prepared_batch t seqs recs) c n"
  shows "\<exists>c'. AppendBatch H a t recs c = (Inr seqs, c') \<and> domain_inv H a c' \<and> engine_room (ctx_Engine c') n
    \<and> (\<forall>i < length recs. ReadArchiveSlot (ctx_Engine c') a (HashContent H t (seqs ! i)) = Inr (stamp_id H (prepared_slot t (seqs ! i) (recs ! i))))
    \<and> (\<forall>j x. ReadArchiveSlot (ctx_Engine c) a j = Inr x \<and> (as_TopicID x \<noteq> t \<or> as_Seq x \<notin> set seqs) \<longrightarrow> ReadArchiveSlot (ctx_Engine c') a j = Inr x)
    \<and> (\<forall>b j. b \<noteq> a \<or> j \<notin> HashContent H t ` set seqs \<longrightarrow> ReadRecord (ctx_Engine c') b j = ReadRecord (ctx_Engine c) b j)"
proof -
  let ?ps = "prepared_batch t seqs recs"
  let ?xs = "map (stamp_id H) ?ps"
  have wf: "\<forall>r \<in> set recs. well_formed_record r" using assms(2) ValidateAppend_iff by blast
  obtain e' where e': "AppendBatch H a t recs c = (Inr seqs, c\<lparr>ctx_Engine := e', ctx_L4 := fold append_slot ?xs (ctx_L4 c)\<rparr>)"
    "domain_inv H a (c\<lparr>ctx_Engine := e', ctx_L4 := fold append_slot ?xs (ctx_L4 c)\<rparr>)" "engine_room e' n"
    "\<And>i x. ReadArchiveSlot e' a i = Inr x \<longleftrightarrow> (case List.find (\<lambda>y. as_IDHash y = i) (rev ?xs) of Some y \<Rightarrow> x = y | None \<Rightarrow> ReadArchiveSlot (ctx_Engine c) a i = Inr x)"
    "\<And>b i. b \<noteq> a \<or> i \<notin> (as_IDHash \<circ> stamp_id H) ` set ?ps \<Longrightarrow> ReadRecord e' b i = ReadRecord (ctx_Engine c) b i"
    using AppendBatch_law [OF assms(1) wf ready [unfolded assms(3)]] unfolding assms(3) [symmetric] by blast
  have len: "length seqs = length recs" by (simp add: assms(3))
  have lps: "length ?ps = length recs" using len by (simp add: prepared_batch_def)
  have nth: "?ps ! i = prepared_slot t (seqs ! i) (recs ! i)" if "i < length recs" for i
    using that len by (simp add: prepared_batch_def)
  have clash: "no_clash H (l4_addresses (ctx_L4 c) ?ps)" using ready by (simp add: batch_ready_def)
  have addr: "(t, seqs ! i) \<in> l4_addresses (ctx_L4 c) ?ps" if "i < length recs" for i
    using nth [OF that] that lps nth_mem [of i ?ps] unfolding l4_addresses_def by (metis (no_types, lifting) UnI2 image_eqI prepared_slot_simps(1,2))
  have seq: "x = y" if xy: "x \<in> set ?ps" "y \<in> set ?ps" "as_Seq x = as_Seq y" for x y
  proof -
    obtain i j where "i < length recs" "j < length recs" "x = ?ps ! i" "y = ?ps ! j"
      using xy(1,2) lps by (auto simp: in_set_conv_nth)
    then show ?thesis using xy(3) nth assms(4) len by (simp add: nth_eq_iff_index_eq)
  qed
  have new: "ReadArchiveSlot e' a (HashContent H t (seqs ! i)) = Inr (stamp_id H (prepared_slot t (seqs ! i) (recs ! i)))" if i: "i < length recs" for i
  proof -
    have p: "prepared_slot t (seqs ! i) (recs ! i) \<in> set ?ps" using nth [OF i] i lps nth_mem by metis
    let ?x = "stamp_id H (prepared_slot t (seqs ! i) (recs ! i))"
    have "y = ?x" if y: "y \<in> set ?xs" "(as_TopicID y, as_Seq y) = (t, seqs ! i)" for y
    proof -
      obtain z where z: "z \<in> set ?ps" "y = stamp_id H z" using y(1) by auto
      then have "z = prepared_slot t (seqs ! i) (recs ! i)" using seq [OF z(1) p] y(2) by simp
      then show ?thesis using z(2) by simp
    qed
    then have "List.find (\<lambda>y. (as_TopicID y, as_Seq y) = (t, seqs ! i)) (rev ?xs) = Some ?x"
      using p by (intro find_rev_unique) auto
    then have "List.find (\<lambda>y. as_TopicID y = t \<and> as_Seq y = seqs ! i) (rev ?xs) = Some ?x" by simp
    then show ?thesis using e'(4) find_address [OF clash addr [OF i]] by simp
  qed
  have old: "ReadArchiveSlot e' a j = Inr x" if x: "ReadArchiveSlot (ctx_Engine c) a j = Inr x" "as_TopicID x \<noteq> t \<or> as_Seq x \<notin> set seqs" for j x
  proof -
    note l4 = l4_mirrorsD [OF domain_invD(3) [OF assms(1)]]
    have j: "j = HashContent H (as_TopicID x) (as_Seq x)" "(as_TopicID x, as_Seq x) \<in> l4_addresses (ctx_L4 c) ?ps"
      using l4(3,5) [OF x(1)] by (auto simp: l4_addresses_def)
    have "map as_Seq ?ps = seqs" using len by (simp add: prepared_batch_def comp_def case_prod_unfold)
    then have "as_Seq p \<in> set seqs" if "p \<in> set ?ps" for p using that by (metis image_eqI set_map)
    moreover have "\<forall>p \<in> set ?ps. as_TopicID p = t" by (auto simp: prepared_batch_def)
    ultimately have "List.find (\<lambda>y. as_TopicID y = as_TopicID x \<and> as_Seq y = as_Seq x) (rev ?xs) = None"
      using x(2) unfolding find_None_iff set_rev set_map by (metis imageE stamp_id_simps(2,3))
    then show ?thesis using e'(4) x(1) find_address [OF clash j(2)] j(1) by simp
  qed
  have "(as_IDHash \<circ> stamp_id H) ` set ?ps = HashContent H t ` set seqs"
  proof -
    have "map (as_IDHash \<circ> stamp_id H) ?ps = map (HashContent H t) seqs"
      using len by (intro nth_equalityI) (simp_all add: prepared_batch_def stamp_id_def)
    then show ?thesis by (metis list.set_map)
  qed
  then show ?thesis using e'(1,2,3,5) new old by auto
qed


lemma sample_readable:
  assumes "engine_rep e sample_store"
  shows "readable_or_absent e 1 i"
proof (cases "i = 5")
  case True
  have "ReadArchiveSlot e 1 5 = Inr sample_archive" using sample_readD(3) [OF sample_reading [OF assms]] by simp
  then show ?thesis using True by (simp add: readable_or_absent_def)
next
  case False
  have "ReadArchiveSlot e 1 i = Inl (NewError ErrNotFound)" unfolding ReadArchiveSlot_def
    by (rule archive.readJSON_absent [OF assms]) (use False kinds_distinct in \<open>auto simp: sample_store_def record_of_def\<close>)
  then show ?thesis by (simp add: readable_or_absent_def)
qed

lemma sample_batch:
  assumes "engine_rep (ctx_Engine c) sample_store" "domain_inv sample_hash 1 c" "engine_room (ctx_Engine c) (2 ^ 60)"
  shows "batch_ready sample_hash 1 9 (prepared_batch 9 [3] [sample_archive\<lparr>as_Seq := 0\<rparr>]) c 1000"
proof -
  let ?r = "sample_archive\<lparr>as_Seq := 0\<rparr>"
  let ?x = "prepared_slot 9 3 ?r"
  note read = sample_reading [OF assms(1)]
  have ok: "archive_ok (stamp_id sample_hash ?x)" using sample_ok(3) by (simp add: archive_ok_def stamp_id_def sample_archive_def prepared_slot_def Let_def)
  have v: "ValidateAppend ?r = Inr ()" by (simp add: sample_accepted)
  have size: "size_of marshal_archive (stamp_id sample_hash ?x) < 2 ^ 19" using accepted_small [OF v] .
  have "own_kind (ctx_Engine c) 1 RecL4Archive 4"
    unfolding own_kind_store [OF assms(1)] by (simp add: sample_store_def)
  moreover have "no_clash sample_hash (l4_addresses (ctx_L4 c) [?x])"
  proof -
    have "l4_addresses (ctx_L4 c) [?x] = {(9, 1), (9, 3)}"
      using sample_index [OF assms(2) read] by (auto simp: l4_addresses_def split: if_splits)
    then show ?thesis by (simp add: no_clash_def sample_keys)
  qed
  moreover have "engine_room (ctx_Engine c) (batch_room marshal_archive [stamp_id sample_hash ?x] + 1000)"
    using assms(3) size by (simp add: engine_room_def RecordHeaderSize_def)
  ultimately show ?thesis
    using sample_readable [OF assms(1)] ok size by (simp add: batch_ready_def prepared_batch_def archive_fits_def sample_keys)
qed

lemma AppendBatch_stores_witness:
  "\<exists>c c'. AppendBatch sample_hash 1 9 [sample_archive\<lparr>as_Seq := 0\<rparr>] c = (Inr [3], c')
    \<and> ReadArchiveSlot (ctx_Engine c') 1 4 = Inr (sample_archive\<lparr>as_IDHash := 4, as_Seq := 3\<rparr>)
    \<and> ReadArchiveSlot (ctx_Engine c') 1 5 = Inr sample_archive"
proof -
  obtain e where e: "engine_rep e sample_store" "sample_read e" "domain_inv sample_hash 1 (NewContext 1 e)" "engine_room e (2 ^ 60)"
    using sample_domain by blast
  let ?c = "NewContext 1 e" and ?r = "sample_archive\<lparr>as_Seq := 0\<rparr>"
  have c: "ctx_Engine ?c = e" by (simp add: NewContext_def)
  have seqs: "[3] = alloc (first_free ?c 9) (map as_Seq [?r])"
    using sample_top [OF e(3)] e(2) by (simp add: c first_free_def LastUtteranceSeq_def SeqAgent_def)
  have v: "\<forall>r \<in> set [?r]. ValidateAppend r = Inr ()" by (simp add: sample_accepted)
  have ready: "batch_ready sample_hash 1 9 (prepared_batch 9 [3] [?r]) ?c 1000" by (rule sample_batch) (use e in \<open>simp_all add: c\<close>)
  have p: "stamp_id sample_hash (prepared_slot 9 3 ?r) = sample_archive\<lparr>as_IDHash := 4, as_Seq := 3\<rparr>"
    by (simp add: stamp_id_def prepared_slot_def Let_def sample_archive_def sample_keys KindUtterance_def KindEvent_def)
  have "ReadArchiveSlot (ctx_Engine ?c) 1 5 = Inr sample_archive" "as_Seq sample_archive \<notin> set [3]"
    using sample_readD(3) [OF e(2)] by (simp_all add: c sample_archive_def)
  with AppendBatch_stores [OF e(3) v seqs _ ready] show ?thesis
    by (simp add: sample_keys p) blast
qed


text \<open>
  C21. Where a caller names no slot, the append picks a fresh one: above everything the topic holds,
  above the two slots of the dialogue, and above every earlier record of the batch, as long as the
  64-bit slot numbers do not run out.
\<close>

theorem AppendBatch_allocates_fresh:
  assumes "AppendBatch H a t recs c = (Inr seqs, c')"
    and "unat (MaxSeq (ctx_L4 c) t) + length recs + 4 < 2 ^ 64" "\<forall>r \<in> set recs. unat (as_Seq r) + length recs < 2 ^ 64"
    and "i < length recs" "as_Seq (recs ! i) = 0"
  shows "length seqs = length recs \<and> MaxSeq (ctx_L4 c) t < seqs ! i \<and> LastUtteranceSeq < seqs ! i \<and> (\<forall>j < i. seqs ! j < seqs ! i)"
proof -
  let ?top = "max (MaxSeq (ctx_L4 c) t) LastUtteranceSeq"
  have seqs: "seqs = alloc (first_free c t) (map as_Seq recs)" using AppendBatch_seqs [OF assms(1)] .
  have "unat ?top = max (unat (MaxSeq (ctx_L4 c) t)) 2"
    by (simp add: max_def word_le_nat_alt LastUtteranceSeq_def SeqAgent_def)
  then have top: "unat ?top + length recs + 1 < 2 ^ 64" using assms(2) by simp
  have nx: "unat (first_free c t) = unat ?top + 1" using top unat_add_lem [of ?top 1] by (simp add: first_free_def)
  have free: "?top < first_free c t" using nx by (simp only: word_less_nat_alt)
  have "first_free c t \<le> seqs ! i \<and> (\<forall>j < i. seqs ! j < seqs ! i)"
    unfolding seqs using alloc_fresh [of "first_free c t" "map as_Seq recs" i] top nx assms(3,4,5) by simp
  then have "MaxSeq (ctx_L4 c) t < seqs ! i" "LastUtteranceSeq < seqs ! i" "\<forall>j < i. seqs ! j < seqs ! i"
    using free by (auto intro: le_less_trans less_le_trans max.cobounded1 max.cobounded2)
  moreover have "length seqs = length recs" by (simp add: seqs)
  ultimately show ?thesis by blast
qed

lemma sample_append:
  "\<exists>c c'. AppendBatch sample_hash 1 9 [sample_archive\<lparr>as_Seq := 0\<rparr>] c = (Inr [3], c') \<and> MaxSeq (ctx_L4 c) 9 = 1"
proof -
  obtain e where e: "engine_rep e sample_store" "sample_read e" "domain_inv sample_hash 1 (NewContext 1 e)" "engine_room e (2 ^ 60)"
    using sample_domain by blast
  let ?c = "NewContext 1 e" and ?r = "sample_archive\<lparr>as_Seq := 0\<rparr>"
  have c: "ctx_Engine ?c = e" by (simp add: NewContext_def)
  have top: "MaxSeq (ctx_L4 ?c) 9 = 1" using sample_top [OF e(3)] e(2) by (simp add: c)
  then have seqs: "alloc (first_free ?c 9) (map as_Seq [?r]) = [3]" by (simp add: first_free_def LastUtteranceSeq_def SeqAgent_def)
  have "batch_ready sample_hash 1 9 (prepared_batch 9 [3] [?r]) ?c 1000" by (rule sample_batch) (use e in \<open>simp_all add: c\<close>)
  moreover have "\<forall>r \<in> set [?r]. well_formed_record r" using sample_accepted ValidateAppend_iff by simp
  ultimately show ?thesis using AppendBatch_law [OF e(3), of "[?r]" 9 1000] top unfolding seqs by blast
qed

lemma AppendBatch_allocates_fresh_witness:
  "\<exists>c c'. AppendBatch sample_hash 1 9 [sample_archive\<lparr>as_Seq := 0\<rparr>] c = (Inr [3], c') \<and> MaxSeq (ctx_L4 c) 9 < [3] ! 0"
proof -
  obtain c c' where c: "AppendBatch sample_hash 1 9 [sample_archive\<lparr>as_Seq := 0\<rparr>] c = (Inr [3], c')" "MaxSeq (ctx_L4 c) 9 = 1"
    using sample_append by blast
  have "MaxSeq (ctx_L4 c) 9 < [3] ! 0"
    using AppendBatch_allocates_fresh [OF c(1), of 0] c(2) by simp
  then show ?thesis using c by blast
qed

text \<open>
  The slot numbers can run out: once a topic holds a record in the greatest slot, which a caller
  may name, every later append that names none is answered slot 0 and leaves the top where it is, so
  each such record is written over the one before it.
\<close>

theorem append_after_top_slot:
  assumes "domain_inv H a c" "MaxSeq (ctx_L4 c) t = -1" "as_Seq r = 0" "AppendBatch H a t [r] c = (Inr seqs, c')"
  shows "seqs = [0] \<and> MaxSeq (ctx_L4 c') t = -1"
proof -
  have seqs: "seqs = [0]" using AppendBatch_seqs [OF assms(4)] assms(3) first_free_wraps [OF assms(2)] by simp
  have wf: "l4_wf (ctx_L4 c)" using l4_mirrorsD(1) [OF domain_invD(3) [OF assms(1)]] .
  have "ctx_L4 c' = fold append_slot [stamp_id H (prepared_slot t (first_free c t) r)] (ctx_L4 c)"
    using assms(3,4) unfolding AppendBatch_def AppendArchiveBatchL4_def append_slot_def first_free_def [symmetric]
    by (auto simp: Let_def split: sum.splits prod.splits if_splits)
  then have "MaxSeq (ctx_L4 c') t = max (MaxSeq (ctx_L4 c) t) 0"
    using l4.top_add [OF wf, of "stamp_id H (prepared_slot t (first_free c t) r)"] first_free_wraps [OF assms(2)] by simp
  then show ?thesis using seqs assms(2) by (simp add: max_absorb1)
qed


text \<open>A store whose only record sits in the greatest slot.\<close>

definition length_hash :: "string \<Rightarrow> u64" where "length_hash s = of_nat (length s)"

definition top_archive :: ArchiveSlot where
  "top_archive = sample_archive\<lparr>as_IDHash := 30, as_Seq := -1\<rparr>"

lemma nat_dec_one: "n < 10 \<Longrightarrow> length (nat_dec n) = 1"
  by (subst nat_dec.simps) simp

lemma nat_dec_more: "\<not> n < 10 \<Longrightarrow> length (nat_dec n) = length (nat_dec (n div 10)) + 1"
  by (subst nat_dec.simps) simp

lemma top_keys: "HashContent length_hash 9 (-1) = 30" "HashContent length_hash 9 0 = 11"
  by (simp_all add: HashContent_def content_key_def dec_word_def length_hash_def nat_dec_one nat_dec_more unsigned_minus_1_eq_mask mask_eq_exp_minus_1)

lemma top_domain:
  "\<exists>e m. engine_rep e m \<and> domain_inv length_hash 1 (NewContext 1 e) \<and> engine_room e (2 ^ 60) \<and> (\<forall>i x. ReadArchiveSlot e 1 i = Inr x \<longleftrightarrow> i = 30 \<and> x = top_archive)
    \<and> (\<forall>i. readable_or_absent e 1 i) \<and> own_kind e 1 RecL4Archive 11"
proof -
  have ok: "archive_ok top_archive" using sample_ok(3) by (simp add: top_archive_def archive_ok_def)
  have "size_of marshal_archive top_archive \<le> 912" using archive_size [OF ok] by (simp add: top_archive_def sample_archive_def)
  then have size: "size_of marshal_archive top_archive < 2 ^ 32" "size_of marshal_archive top_archive < 2000" by simp_all
  let ?r = "entry_for marshal_archive 1 RecL4Archive as_IDHash top_archive"
  let ?m = "[(1, 30) \<mapsto> record_of marshal_archive RecL4Archive top_archive] :: store"
  note e = entry_for_ok [OF archive.entry_of [OF ok size(1) kinds_distinct(9)]]
  have "batch_size [?r] < 2 ^ 60" using size(2) by (simp add: e(2) RecordHeaderSize_def)
  moreover have "put_all [?r] Map.empty = ?m" by (simp add: put_entry_def entry_for_def record_of_def top_archive_def)
  ultimately obtain eng where eng: "engine_rep eng ?m" "engine_room eng (2 ^ 60)" using stored_rep [of "[?r]"] e(1) by auto
  have at: "typed_at unmarshal_archive ?m 1 RecL4Archive 30 = Some top_archive" by (rule archive.typed_record_of [OF ok]) simp
  have read: "ReadArchiveSlot eng 1 i = Inr x \<longleftrightarrow> i = 30 \<and> x = top_archive" for i x
    unfolding ReadArchiveSlot_typed [OF eng(1)] using at by (cases "i = 30") (auto simp: typed_at_def)
  have none: "(i, u) \<noteq> (30, RecL4Archive) \<Longrightarrow> typed_at f ?m 1 u i = None" for f :: "bytes \<Rightarrow> goerr + 'z" and i u
    by (auto simp: typed_at_def record_of_def)
  have "l2_addressed eng 1" "plan_addressed length_hash eng 1"
    unfolding l2_addressed_def plan_addressed_def ReadTopicSlot_typed [OF eng(1)] ReadPlanNode_typed [OF eng(1)]
    using none [of _ RecL2Topic unmarshal_topic] none [of _ RecL5PlanNode unmarshal_plan_node] kinds_distinct by auto
  moreover have "l4_addressed length_hash eng 1" unfolding l4_addressed_def read by (auto simp: top_archive_def sample_archive_def top_keys)
  ultimately have "domain_inv length_hash 1 (NewContext 1 eng)" using NewContext_inv [OF eng(1)] by blast
  moreover have "readable_or_absent eng 1 i" for i
  proof (cases "i = 30")
    case True
    have "ReadArchiveSlot eng 1 30 = Inr top_archive" using read by simp
    then show ?thesis using True by (simp add: readable_or_absent_def)
  next
    case False
    have "ReadArchiveSlot eng 1 i = Inl (NewError ErrNotFound)"
      unfolding ReadArchiveSlot_def by (rule archive.readJSON_absent [OF eng(1)]) (use False in simp)
    then show ?thesis by (simp add: readable_or_absent_def)
  qed
  moreover have "own_kind eng 1 RecL4Archive 11" unfolding own_kind_store [OF eng(1)] by simp
  ultimately show ?thesis using eng read by blast
qed

lemma append_after_top_slot_witness:
  "\<exists>c c'. AppendBatch length_hash 1 9 [sample_archive\<lparr>as_Seq := 0\<rparr>] c = (Inr [0], c') \<and> MaxSeq (ctx_L4 c') 9 = -1"
proof -
  obtain e m where e: "engine_rep e m" "domain_inv length_hash 1 (NewContext 1 e)" "engine_room e (2 ^ 60)"
    "\<And>i x. ReadArchiveSlot e 1 i = Inr x \<longleftrightarrow> i = 30 \<and> x = top_archive" "\<And>i. readable_or_absent e 1 i" "own_kind e 1 RecL4Archive 11"
    using top_domain by blast
  let ?c = "NewContext 1 e" and ?r = "sample_archive\<lparr>as_Seq := 0\<rparr>"
  let ?x = "prepared_slot 9 0 ?r"
  have c: "ctx_Engine ?c = e" by (simp add: NewContext_def)
  note mir = domain_invD(3) [OF e(2), unfolded c]
  have v: "l4_view (ctx_L4 ?c) 9 (-1) = Some (l4_entry top_archive)"
    using l4_mirrorsD(5) [OF mir, of 30 top_archive] e(4) by (simp add: top_archive_def sample_archive_def)
  have only: "(t, s) = (9, -1)" if "l4_view (ctx_L4 ?c) t s = Some en" for t s en
    using l4_mirrors_entry(3) [OF mir that] e(4) by (auto simp: top_archive_def sample_archive_def)
  have top: "MaxSeq (ctx_L4 ?c) 9 = -1"
    using antisym [OF word_n1_ge MaxSeq_bound [OF l4_mirrorsD(1) [OF mir] v]] .
  have seqs: "alloc (first_free ?c 9) (map as_Seq [?r]) = [0]" using first_free_wraps [OF top] by simp
  have ok: "archive_ok (stamp_id length_hash ?x)" using sample_ok(3) by (simp add: archive_ok_def stamp_id_def sample_archive_def prepared_slot_def Let_def)
  have size: "size_of marshal_archive (stamp_id length_hash ?x) < 2 ^ 19" using accepted_small [OF sample_accepted] .
  have "l4_addresses (ctx_L4 ?c) [?x] = {(9, -1), (9, 0)}"
  proof -
    have "l4_view (ctx_L4 ?c) t s \<noteq> None \<longleftrightarrow> (t, s) = (9, -1)" for t s using v only by blast
    then have "{(t, s). l4_view (ctx_L4 ?c) t s \<noteq> None} = {(9, -1)}" by blast
    then show ?thesis by (simp add: l4_addresses_def insert_commute)
  qed
  then have "no_clash length_hash (l4_addresses (ctx_L4 ?c) [?x])" by (simp add: no_clash_def top_keys)
  moreover have "engine_room e (batch_room marshal_archive [stamp_id length_hash ?x] + 1000)"
    using e(3) size by (simp add: engine_room_def RecordHeaderSize_def)
  ultimately have "batch_ready length_hash 1 9 (prepared_batch 9 [0] [?r]) ?c 1000"
    using ok size e(5,6) by (simp add: batch_ready_def prepared_batch_def archive_fits_def top_keys c)
  moreover have "\<forall>r \<in> set [?r]. well_formed_record r" using sample_accepted ValidateAppend_iff by simp
  ultimately obtain c' where "AppendBatch length_hash 1 9 [?r] ?c = (Inr [0], c')"
    using AppendBatch_law [OF e(2), of "[?r]" 9 1000] unfolding seqs by blast
  moreover have "as_Seq ?r = 0" by simp
  ultimately show ?thesis using append_after_top_slot [OF e(2) top] by blast
qed


section \<open>Querying and expiry\<close>

text \<open>
  C23. The index is only a fast path: asked for one topic, the query answers the same list through the
  index as through a scan of every archive record, namely the newest matches of all readable archives,
  each once, in slot order.
\<close>

theorem query_index_is_scan:
  assumes "engine_rep e m" "l4_mirrors H e a idx" "l4_decodes e a" "aq_TopicID q = Some t"
  shows "\<exists>full. QueryArchivesL4 lower e a (q\<lparr>aq_Index := Some idx\<rparr>) = Inr (newest full (aq_Limit q))
    \<and> QueryArchivesL4 lower e a (q\<lparr>aq_Index := None\<rparr>) = Inr (newest full (aq_Limit q))
    \<and> distinct full \<and> sorted_wrt (\<lambda>x y. compareArchives True x y \<le> 0) full
    \<and> set full = {x. (\<exists>i. ReadArchiveSlot e a i = Inr x) \<and> matchesArchiveQuery lower x (lowered lower q)}"
proof -
  let ?i = "q\<lparr>aq_Index := Some idx\<rparr>" and ?n = "q\<lparr>aq_Index := None\<rparr>"
  obtain xs where xs: "QueryArchivesL4 lower e a ?i = Inr (newest xs (aq_Limit ?i))" "archive_answer lower e a ?i xs"
    using Query_topic [OF assms(2), of ?i t lower] assms(4) by auto
  obtain ys where ys: "QueryArchivesL4 lower e a ?n = Inr (newest ys (aq_Limit ?n))" "archive_answer lower e a ?n ys"
    using Query_scan [OF assms(1,3,2), of ?n lower] assms(4) by auto
  have "matchesArchiveQuery lower x (lowered lower ?i) = matchesArchiveQuery lower x (lowered lower q)"
    "matchesArchiveQuery lower x (lowered lower ?n) = matchesArchiveQuery lower x (lowered lower q)" for x
    by (simp_all add: matchesArchiveQuery_def lowered_def)
  then have same: "archive_answer lower e a ?i zs = archive_answer lower e a q zs" "archive_answer lower e a ?n zs = archive_answer lower e a q zs" for zs
    by (simp_all add: archive_answer_def)
  have "xs = ys" using archive_answer_unique [OF assms(2)] xs(2) ys(2) unfolding same by blast
  then show ?thesis using xs ys archive_answerD [OF xs(2) [unfolded same]] assms(4) by auto
qed

definition sample_query :: ArchiveQuery where
  "sample_query = \<lparr>aq_IDs = [], aq_TopicID = Some 9, aq_Type = None, aq_Kind = None, aq_NodeSeqs = [], aq_Keyword = '''', aq_Start = 0, aq_End = 0,
     aq_Limit = 0, aq_Index = None\<rparr>"

lemma sample_decodes: "engine_rep e sample_store \<Longrightarrow> l4_decodes e 1"
proof -
  assume rep: "engine_rep e sample_store"
  have "i = 5" if "i \<in> set (IndexByType e 1 RecL4Archive)" for i
    using that eng.ids_law [OF rep, of 1 RecL4Archive] kinds_distinct by (auto simp: sample_store_def record_of_def split: if_splits)
  then show ?thesis using sample_readD(3) [OF sample_reading [OF rep]] by (auto simp: l4_decodes_def)
qed

lemma query_index_is_scan_witness:
  "\<exists>e idx. QueryArchivesL4 id e 1 (sample_query\<lparr>aq_Index := Some idx\<rparr>) = Inr [sample_archive]
    \<and> QueryArchivesL4 id e 1 (sample_query\<lparr>aq_Index := None\<rparr>) = Inr [sample_archive]"
proof -
  obtain e where e: "engine_rep e sample_store" "sample_read e" "domain_inv sample_hash 1 (NewContext 1 e)" using sample_domain by blast
  let ?idx = "ctx_L4 (NewContext 1 e)"
  have mir: "l4_mirrors sample_hash e 1 ?idx" using domain_invD(3) [OF e(3)] by (simp add: NewContext_def)
  have t: "aq_TopicID sample_query = Some 9" by (simp add: sample_query_def)
  obtain full where full: "QueryArchivesL4 id e 1 (sample_query\<lparr>aq_Index := Some ?idx\<rparr>) = Inr (newest full 0)"
    "QueryArchivesL4 id e 1 (sample_query\<lparr>aq_Index := None\<rparr>) = Inr (newest full 0)" "distinct full"
    "set full = {x. (\<exists>i. ReadArchiveSlot e 1 i = Inr x) \<and> matchesArchiveQuery id x (lowered id sample_query)}"
    using query_index_is_scan [OF e(1) mir sample_decodes [OF e(1)] t, of id] by (auto simp: sample_query_def)
  have "set full = {sample_archive}"
    unfolding full(4) sample_readD(3) [OF e(2)] by (auto simp: matchesArchiveQuery_def lowered_def sample_query_def sample_archive_def)
  then have "full = [sample_archive]" using full(3) by (metis distinct.simps(2) list.set_cases list.set_intros(1,2) neq_Nil_conv singletonD set_empty2 insert_not_empty)
  then show ?thesis using full(1,2) by (auto simp: newest_def)
qed

text \<open>
  C24. The expiry drops exactly the archives older than the cutoff, counts them, and leaves the index
  mirroring what is left; every other record of every domain reads as before.
\<close>

theorem expiry_drops_exactly_the_old:
  assumes "engine_rep e m" "l4_mirrors H e a idx"
    "engine_room e (RecordHeaderSize * length (concat (map snd (ExpiredBefore idx c))) + n)"
  shows "\<exists>e' idx'. DropExpiredArchives a c e idx = (Inr (card {i. \<exists>x. ReadArchiveSlot e a i = Inr x \<and> as_CreatedAt x < c}), e', idx')
    \<and> l4_mirrors H e' a idx' \<and> engine_room e' n
    \<and> (\<forall>i x. ReadArchiveSlot e' a i = Inr x \<longleftrightarrow> ReadArchiveSlot e a i = Inr x \<and> c \<le> as_CreatedAt x)
    \<and> (\<forall>b i. b \<noteq> a \<or> \<not> (\<exists>x. ReadArchiveSlot e a i = Inr x \<and> as_CreatedAt x < c) \<longrightarrow> ReadRecord e' b i = ReadRecord e b i)"
  using DropExpiredArchives_law [OF assms] by blast

lemma expiry_drops_exactly_the_old_witness:
  "\<exists>e e' idx idx'. DropExpiredArchives 1 1001 e idx = (Inr 1, e', idx') \<and> ReadArchiveSlot e 1 5 = Inr sample_archive
    \<and> (\<forall>x. ReadArchiveSlot e' 1 5 \<noteq> Inr x)"
proof -
  obtain e where e: "engine_rep e sample_store" "sample_read e" "domain_inv sample_hash 1 (NewContext 1 e)" "engine_room e (2 ^ 60)"
    using sample_domain by blast
  let ?idx = "ctx_L4 (NewContext 1 e)"
  have mir: "l4_mirrors sample_hash e 1 ?idx" using domain_invD(3) [OF e(3)] by (simp add: NewContext_def)
  note r = sample_readD(3) [OF e(2)]
  let ?ids = "concat (map snd (ExpiredBefore ?idx 1001))"
  have "i = 5" if "i \<in> set ?ids" for i
  proof -
    obtain t es en where "(t, es) \<in> set (byTopic ?idx)" "en \<in> set es" "i = le_IDHash en" using \<open>i \<in> set ?ids\<close> unfolding ExpiredBefore_ids by auto
    then have "l4_view ?idx t (le_Seq en) = Some en" using by_topic_view(2) [OF l4_mirrorsD(1) [OF mir]] by blast
    then show ?thesis using l4_mirrorsD(2) [OF mir] r \<open>i = le_IDHash en\<close> by blast
  qed
  then have "set ?ids \<subseteq> {5}" by blast
  then have "length ?ids \<le> 1" using distinct_card [OF distinct_expired [OF mir, of 1001]] card_mono [of "{5 :: u64}" "set ?ids"] by simp
  then have room: "engine_room e (RecordHeaderSize * length ?ids + 0)" using e(4) by (simp add: engine_room_def RecordHeaderSize_def)
  have "{i. \<exists>x. ReadArchiveSlot e 1 i = Inr x \<and> as_CreatedAt x < 1001} = {5}" unfolding r by (auto simp: sample_archive_def)
  then have card: "card {i. \<exists>x. ReadArchiveSlot e 1 i = Inr x \<and> as_CreatedAt x < 1001} = 1" by simp
  obtain e' idx' where e': "DropExpiredArchives 1 1001 e ?idx = (Inr 1, e', idx')"
    "\<And>i x. ReadArchiveSlot e' 1 i = Inr x \<longleftrightarrow> ReadArchiveSlot e 1 i = Inr x \<and> 1001 \<le> as_CreatedAt x"
    using expiry_drops_exactly_the_old [OF e(1) mir room] unfolding card by blast
  have "ReadArchiveSlot e 1 5 = Inr sample_archive" "\<And>x. ReadArchiveSlot e' 1 5 \<noteq> Inr x"
    unfolding e'(2) r by (auto simp: sample_archive_def)
  then show ?thesis using e'(1) by blast
qed

end
