(* ===== verification/Plan_Forest.thy ===== *)
theory Plan_Forest
  imports Plan_Correct
begin

text \<open>
  The forest of a turn's plan holds every stored step exactly once, the counts are those of the stored
  steps, and the active view keeps exactly the steps in progress, each under its nearest active ancestor.
\<close>

section \<open>Linking\<close>

definition is_root :: "PlanNode list \<Rightarrow> PlanNode \<Rightarrow> bool" where
  "is_root ns n \<longleftrightarrow> pn_ParentSeq n = 0 \<or> pn_ParentSeq n \<notin> pn_Seq ` set ns"

lemma base_heap:
  assumes "seq_sorted ns"
  shows "map_of (fold (\<lambda>n. AList.update (pn_Seq n) (tree_node n)) ns []) s = map_option tree_node (List.find (\<lambda>n. pn_Seq n = s) ns)"
proof -
  have "map_of (fold (\<lambda>n. AList.update (pn_Seq n) (tree_node n)) ns m) s =
      (case List.find (\<lambda>n. pn_Seq n = s) ns of Some n \<Rightarrow> Some (tree_node n) | None \<Rightarrow> map_of m s)" for m
    using assms
  proof (induction ns arbitrary: m)
    case (Cons n ns)
    then have "List.find (\<lambda>k. pn_Seq k = pn_Seq n) ns = None" by (auto simp: seq_sorted_def find_None_iff)
    then show ?case using Cons by (auto simp: seq_sorted_def split: option.splits)
  qed simp
  then show ?thesis by (simp split: option.splits)
qed

lemma link_prefix:
  assumes ns: "seq_sorted ns" "parents_first ns" and xs: "set xs \<subseteq> set ns"
    and base: "\<And>s. map_of heap0 s = map_option tree_node (List.find (\<lambda>n. pn_Seq n = s) ns)"
    and f: "fold link_node xs (heap0, []) = (heap, roots)"
  shows "map_of heap s = map_option (\<lambda>n. (tree_node n)\<lparr>t_children := plan_kids xs s\<rparr>) (List.find (\<lambda>n. pn_Seq n = s) ns)
    \<and> roots = map pn_Seq (filter (is_root ns) xs)"
  using xs f
proof (induction xs arbitrary: heap roots s rule: rev_induct)
  case Nil
  have "(tree_node n)\<lparr>t_children := plan_kids [] s\<rparr> = tree_node n" for n by (simp add: plan_kids_def tree_node_def)
  then show ?case using Nil base by simp
next
  case (snoc x xs)
  obtain h r where hr: "fold link_node xs (heap0, []) = (h, r)" by (cases "fold link_node xs (heap0, [])")
  have sub: "set xs \<subseteq> set ns" "x \<in> set ns" using snoc.prems(1) by auto
  have IH: "map_of h q = map_option (\<lambda>n. (tree_node n)\<lparr>t_children := plan_kids xs q\<rparr>) (List.find (\<lambda>n. pn_Seq n = q) ns)"
    "r = map pn_Seq (filter (is_root ns) xs)" for q using snoc.IH [OF sub(1) hr] by blast+
  have step: "link_node x (h, r) = (heap, roots)" using snoc.prems(2) hr by simp
  have kids: "plan_kids (xs @ [x]) q = plan_kids xs q @ (if pn_ParentSeq x = q then [pn_Seq x] else [])" for q
    by (simp add: plan_kids_def)
  have nz: "List.find (\<lambda>n. pn_Seq n = 0) ns = None"
    using ns(2) by (auto simp: find_None_iff parents_first_def)
  show ?case
  proof (cases "List.find (\<lambda>n. pn_Seq n = pn_ParentSeq x) ns")
    case None
    then have root: "is_root ns x" by (auto simp: is_root_def find_None_iff)
    have "map_of h (pn_ParentSeq x) = None" using IH(1) None by simp
    then have "heap = h" "roots = r @ [pn_Seq x]" using step by (auto simp: link_node_def split: if_splits)
    moreover have "map_option (\<lambda>n. (tree_node n)\<lparr>t_children := plan_kids (xs @ [x]) s\<rparr>) (List.find (\<lambda>n. pn_Seq n = s) ns)
       = map_option (\<lambda>n. (tree_node n)\<lparr>t_children := plan_kids xs s\<rparr>) (List.find (\<lambda>n. pn_Seq n = s) ns)"
      using None kids [of s] by (cases "pn_ParentSeq x = s") simp_all
    ultimately show ?thesis using IH root by simp
  next
    case (Some p)
    then have inner: "\<not> is_root ns x" using nz find_Some_iff [of "\<lambda>n. pn_Seq n = pn_ParentSeq x" ns p]
      by (auto simp: is_root_def image_iff) (metis nth_mem)
    have nz': "pn_ParentSeq x \<noteq> 0" using inner by (simp add: is_root_def)
    let ?p = "(tree_node p)\<lparr>t_children := plan_kids xs (pn_ParentSeq x)\<rparr>"
    have "map_of h (pn_ParentSeq x) = Some ?p" using IH(1) Some by simp
    then have "heap = AList.update (pn_ParentSeq x) (?p\<lparr>t_children := t_children ?p @ [pn_Seq x]\<rparr>) h" "roots = r"
      using step nz' by (auto simp: link_node_def)
    moreover have "map_of (AList.update (pn_ParentSeq x) (?p\<lparr>t_children := t_children ?p @ [pn_Seq x]\<rparr>) h) s
       = map_option (\<lambda>n. (tree_node n)\<lparr>t_children := plan_kids (xs @ [x]) s\<rparr>) (List.find (\<lambda>n. pn_Seq n = s) ns)"
      using IH(1) [of s] Some kids [of s] by (cases "pn_ParentSeq x = s") simp_all
    ultimately show ?thesis using IH inner by simp
  qed
qed

lemma Forest_law:
  assumes "seq_sorted ns" "parents_first ns" "Forest ns = (heap, roots)"
  shows "map_of heap s = map_option (\<lambda>n. (tree_node n)\<lparr>t_children := plan_kids ns s\<rparr>) (List.find (\<lambda>n. pn_Seq n = s) ns)"
    and "roots = map pn_Seq (filter (is_root ns) ns)"
  using link_prefix [OF assms(1,2) subset_refl base_heap [OF assms(1)], of heap roots s] assms(3) unfolding Forest_def by blast+

section \<open>Views\<close>

primrec view_seqs :: "PlanNodeView \<Rightarrow> u32 list" where
  "view_seqs (NodeView sq p ti st su ca fa ua kids) = sq # concat (map view_seqs kids)"

primrec view_statuses :: "PlanNodeView \<Rightarrow> (u32 \<times> string) list" where
  "view_statuses (NodeView sq p ti st su ca fa ua kids) = (sq, st) # concat (map view_statuses kids)"

lemma view_seqs_statuses: "map fst (view_statuses v) = view_seqs v"
  by (induction v) (simp add: map_concat comp_def cong: map_cong)

lemma each_all:
  assumes "\<And>x. x \<in> set xs \<Longrightarrow> \<exists>y. f x = Some (Inr y) \<and> P x y"
  shows "\<exists>ys. each f xs = Some (Inr ys) \<and> list_all2 P xs ys"
  using assms
proof (induction xs)
  case (Cons x xs)
  obtain y where y: "f x = Some (Inr y)" "P x y" using Cons.prems [of x] by auto
  obtain ys where ys: "each f xs = Some (Inr ys)" "list_all2 P xs ys" using Cons by auto
  then show ?case using y by auto
qed simp

definition status_name :: "byte \<Rightarrow> string" where
  "status_name u = (case StatusToString u of Inr s \<Rightarrow> s | Inl _ \<Rightarrow> '''')"

text \<open>A view of a step: its own ordinal, its descendants by the parent links, and the stored statuses.\<close>

definition view_of_seq :: "PlanNode list \<Rightarrow> u32 \<Rightarrow> PlanNodeView \<Rightarrow> bool" where
  "view_of_seq ns s v \<longleftrightarrow> set (view_seqs v) \<subseteq> pn_Seq ` set ns
     \<and> mset (view_seqs v) = add_mset s (\<Sum>x \<in># mset (view_seqs v). mset (plan_kids ns x))
     \<and> (\<forall>(q, st) \<in> set (view_statuses v). \<exists>n \<in> set ns. pn_Seq n = q \<and> StatusToString (pn_Status n) = Inr st)"

lemma views_mset:
  assumes "list_all2 (view_of_seq ns) ss vs"
  shows "mset (concat (map view_seqs vs)) = mset ss + (\<Sum>x \<in># mset (concat (map view_seqs vs)). mset (plan_kids ns x))"
  using assms
proof (induction ss vs rule: list_all2_induct)
  case (Cons s ss v vs)
  let ?K = "\<lambda>M. \<Sum>x \<in># M. mset (plan_kids ns x)"
  define A where "A = mset (view_seqs v)"
  define B where "B = mset (concat (map view_seqs vs))"
  have A: "A = add_mset s (?K A)" using Cons.hyps(1) unfolding A_def view_of_seq_def by (elim conjE)
  have B: "B = mset ss + ?K B" unfolding B_def by (rule Cons.IH)
  have "A + B = add_mset s (?K A) + (mset ss + ?K B)" by (rule arg_cong2 [OF A B])
  also have "\<dots> = mset (s # ss) + ?K (A + B)" by (simp add: ac_simps)
  finally show ?case unfolding A_def B_def by (simp only: list.map concat.simps mset_append)
qed simp

lemma ToNodeView_law:
  assumes ns: "seq_sorted ns" "parents_first ns" and st: "\<forall>n \<in> set ns. \<exists>w. StatusToString (pn_Status n) = Inr w"
    and heap: "\<And>s. map_of heap s = map_option (\<lambda>n. (tree_node n)\<lparr>t_children := plan_kids ns s\<rparr>) (List.find (\<lambda>n. pn_Seq n = s) ns)"
    and s: "s \<in> pn_Seq ` set ns" "card {q \<in> pn_Seq ` set ns. s \<le> q} \<le> fuel"
  shows "\<exists>v. ToNodeView fuel heap s = Some (Inr v) \<and> view_of_seq ns s v"
  using s
proof (induction fuel arbitrary: s)
  case 0
  then have "{q \<in> pn_Seq ` set ns. s \<le> q} = {}" by simp
  then show ?case using 0 by auto
next
  case (Suc fuel)
  let ?S = "pn_Seq ` set ns"
  obtain n where n: "n \<in> set ns" "pn_Seq n = s" using Suc.prems(1) by blast
  then have "List.find (\<lambda>n. pn_Seq n = s) ns = Some n" using find_seq [OF ns(1)] by blast
  then have cell: "map_of heap s = Some ((tree_node n)\<lparr>t_children := plan_kids ns s\<rparr>)" using heap by simp
  obtain w where w: "StatusToString (pn_Status n) = Inr w" using st n(1) by blast
  have kid: "k \<in> ?S \<and> s < k" if "k \<in> set (plan_kids ns s)" for k
    using that ns(2) by (auto simp: plan_kids_def parents_first_def)
  have "card {q \<in> ?S. k \<le> q} \<le> fuel" if "k \<in> set (plan_kids ns s)" for k
  proof -
    have "s \<in> {q \<in> ?S. s \<le> q}" "s \<notin> {q \<in> ?S. k \<le> q}" using kid [OF that] Suc.prems(1) by auto
    moreover have "{q \<in> ?S. k \<le> q} \<subseteq> {q \<in> ?S. s \<le> q}" using kid [OF that] by auto
    ultimately have "{q \<in> ?S. k \<le> q} \<subset> {q \<in> ?S. s \<le> q}" by blast
    then have "card {q \<in> ?S. k \<le> q} < card {q \<in> ?S. s \<le> q}" by (intro psubset_card_mono) auto
    then show ?thesis using Suc.prems(2) by simp
  qed
  then have "\<exists>v. ToNodeView fuel heap k = Some (Inr v) \<and> view_of_seq ns k v" if "k \<in> set (plan_kids ns s)" for k
    using Suc.IH kid that by blast
  then obtain vs where vs: "each (ToNodeView fuel heap) (plan_kids ns s) = Some (Inr vs)" "list_all2 (view_of_seq ns) (plan_kids ns s) vs"
    using each_all by metis
  let ?ti = "if pn_Title n = '''' then dec_word s else pn_Title n"
  let ?v = "NodeView s (pn_ParentSeq n) ?ti w (pn_Summary n) (pn_CreatedAt n) (pn_FinishedAt n) (pn_UpdatedAt n) vs"
  have run: "ToNodeView (Suc fuel) heap s = Some (Inr ?v)"
    using cell w vs(1) n(2) by (simp add: tree_node_def Let_def)
  have all: "\<forall>v \<in> set vs. \<exists>k. view_of_seq ns k v" using vs(2) by (metis in_set_conv_nth list_all2_conv_all_nth)
  have "mset (view_seqs ?v) = add_mset s (\<Sum>x \<in># mset (view_seqs ?v). mset (plan_kids ns x))"
    using views_mset [OF vs(2)] by simp
  moreover have "set (view_seqs ?v) \<subseteq> ?S" using all Suc.prems(1) unfolding view_of_seq_def by fastforce
  moreover have "\<forall>(q, st) \<in> set (view_statuses ?v). \<exists>n \<in> set ns. pn_Seq n = q \<and> StatusToString (pn_Status n) = Inr st"
    using all n w unfolding view_of_seq_def by fastforce
  ultimately show ?case using run unfolding view_of_seq_def by blast
qed

section \<open>Every step appears once\<close>

lemma count_sum_mset_image: "count (\<Sum>x \<in># M. mset (f x)) y = (\<Sum>x \<in># M. count (mset (f x)) y)"
  by (induction M) auto

lemma sum_mset_delta: "(\<Sum>x \<in># M. if x = y then 1 else 0) = count M y"
  by (induction M) auto

lemma seq_sorted_distinct: "seq_sorted ns \<Longrightarrow> distinct (map pn_Seq ns)"
  unfolding seq_sorted_def by (rule sorted_distinct_key)

lemma count_map_filter:
  assumes "seq_sorted ns" "n \<in> set ns"
  shows "count (mset (map pn_Seq (filter P ns))) (pn_Seq n) = (if P n then 1 else 0)"
proof -
  have "distinct (map pn_Seq (filter P ns))" using seq_sorted_distinct [OF assms(1)] by (rule distinct_map_filter)
  moreover have "pn_Seq n \<in> set (map pn_Seq (filter P ns)) \<longleftrightarrow> P n"
    using seq_sorted_inj [OF assms(1)] assms(2) by auto
  ultimately show ?thesis by (simp only: distinct_count_atmost_1)
qed

lemma forest_covers:
  assumes ns: "seq_sorted ns" "parents_first ns" and V: "set_mset V \<subseteq> pn_Seq ` set ns"
    and eq: "V = mset (map pn_Seq (filter (is_root ns) ns)) + (\<Sum>x \<in># V. mset (plan_kids ns x))"
  shows "V = mset (map pn_Seq ns)"
proof (rule multiset_eqI)
  let ?S = "pn_Seq ` set ns"
  have one: "count V (pn_Seq n) = 1" if "n \<in> set ns" for n
    using that
  proof (induction "pn_Seq n" arbitrary: n rule: less_induct)
    case less
    have "count (mset (plan_kids ns x)) (pn_Seq n) = (if x = pn_ParentSeq n then 1 else 0)" for x
      unfolding plan_kids_def count_map_filter [OF ns(1) less.prems] by auto
    then have kids: "count (\<Sum>x \<in># V. mset (plan_kids ns x)) (pn_Seq n) = count V (pn_ParentSeq n)"
      unfolding count_sum_mset_image by (simp add: sum_mset_delta)
    have "count V (pn_Seq n) = (if is_root ns n then 1 else 0) + count V (pn_ParentSeq n)"
      by (subst eq) (simp only: count_union kids count_map_filter [OF ns(1) less.prems])
    moreover have "count V (pn_ParentSeq n) = (if is_root ns n then 0 else 1)"
    proof (cases "is_root ns n")
      case True
      have "0 \<notin> ?S" using ns(2) by (auto simp: parents_first_def)
      then have "pn_ParentSeq n \<notin> ?S" using True by (auto simp: is_root_def)
      then show ?thesis using V True by (auto simp: not_in_iff [symmetric])
    next
      case False
      then obtain p where p: "p \<in> set ns" "pn_Seq p = pn_ParentSeq n" by (auto simp: is_root_def)
      moreover have "pn_ParentSeq n < pn_Seq n" using ns(2) less.prems by (auto simp: parents_first_def)
      ultimately show ?thesis using less.hyps [of p] False by simp
    qed
    ultimately show ?case by simp
  qed
  fix y
  show "count V y = count (mset (map pn_Seq ns)) y"
  proof (cases "y \<in> ?S")
    case True
    then obtain n where n: "n \<in> set ns" "y = pn_Seq n" by blast
    show ?thesis using one [OF n(1)] count_map_filter [OF ns(1) n(1), of "\<lambda>_. True"] by (simp add: n(2))
  next
    case False
    then show ?thesis using V by (metis count_eq_zero_iff image_set set_mset_mset subsetD)
  qed
qed

lemma countTree_eq: "countTree v = (length (filter (\<lambda>(q, st). st = PlanDone) (view_statuses v)), length (view_statuses v))"
proof (induction v)
  case (NodeView sq p ti st su ca fa ua kids)
  have "fold (\<lambda>(d, t) (nd, nt). (nd + d, nt + t)) (map countTree ks) (x, y) =
     (x + length (filter (\<lambda>(q, st). st = PlanDone) (concat (map view_statuses ks))), y + length (concat (map view_statuses ks)))"
    if "set ks \<subseteq> set kids" for ks x y
    using that
  proof (induction ks arbitrary: x y)
    case (Cons k ks)
    then show ?case using NodeView.IH [of k] by auto
  qed simp
  then show ?case by simp
qed

lemma CountForest_eq: "CountForest vs = (length (filter (\<lambda>(q, st). st = PlanDone) (concat (map view_statuses vs))), length (concat (map view_statuses vs)))"
proof -
  have "fold (\<lambda>v (nd, nt). case countTree v of (d, t) \<Rightarrow> (nd + d, nt + t)) vs (x, y) =
     (x + length (filter (\<lambda>(q, st). st = PlanDone) (concat (map view_statuses vs))), y + length (concat (map view_statuses vs)))" for x y
    by (induction vs arbitrary: x y) (auto simp: countTree_eq)
  then show ?thesis by (simp add: CountForest_def)
qed

definition node_status :: "PlanNode \<Rightarrow> u32 \<times> string" where
  "node_status n = (pn_Seq n, status_name (pn_Status n))"

lemma statuses_mset:
  assumes ns: "seq_sorted ns" and "mset (map fst sts) = mset (map pn_Seq ns)"
    and st: "\<forall>(q, st) \<in> set sts. \<exists>n \<in> set ns. pn_Seq n = q \<and> StatusToString (pn_Status n) = Inr st"
  shows "mset sts = mset (map node_status ns)"
proof -
  define nm where "nm q = status_name (pn_Status (THE n. n \<in> set ns \<and> pn_Seq n = q))" for q
  have the: "(THE k. k \<in> set ns \<and> pn_Seq k = pn_Seq n) = n" if "n \<in> set ns" for n
    using that seq_sorted_inj [OF ns] by (intro the_equality) auto
  have "map (\<lambda>p. (fst p, nm (fst p))) sts = sts"
  proof (rule map_idI)
    fix p assume p: "p \<in> set sts"
    then obtain n where "n \<in> set ns" "pn_Seq n = fst p" "StatusToString (pn_Status n) = Inr (snd p)" using st by fastforce
    then show "(fst p, nm (fst p)) = p" using the [of n] by (simp add: nm_def status_name_def prod_eq_iff)
  qed
  then have "mset sts = image_mset (\<lambda>q. (q, nm q)) (mset (map fst sts))"
    by (metis (no_types, lifting) image_mset.compositionality comp_apply mset_map multiset.map_cong0)
  also have "\<dots> = mset (map (\<lambda>n. (pn_Seq n, nm (pn_Seq n))) ns)" unfolding assms(2) by (simp add: image_mset.compositionality comp_def)
  also have "map (\<lambda>n. (pn_Seq n, nm (pn_Seq n))) ns = map node_status ns"
    using the by (intro map_cong) (auto simp: nm_def node_status_def)
  finally show ?thesis .
qed

lemma status_done: "StatusToString u = Inr st \<Longrightarrow> st = PlanDone \<longleftrightarrow> u = StatusDone"
  by (auto simp: StatusToString_def statusNames_def PlanInProgress_def PlanDone_def PlanFailed_def
      StatusInProgress_def StatusDone_def StatusFailed_def split: if_splits)

text \<open>The tree of a plan whose steps hang under earlier ones and carry known statuses.\<close>

lemma BuildTree_law:
  assumes "pc_wf (ctx_Plans c)" "parents_first (nodes_of (ctx_Plans c) t)"
    and st: "\<forall>n \<in> set (nodes_of (ctx_Plans c) t). \<exists>w. StatusToString (pn_Status n) = Inr w"
  defines "ns \<equiv> nodes_of (ctx_Plans c) t"
  shows "\<exists>tree. BuildTree c t = Some (Inr tree)
    \<and> mset (concat (map view_statuses (tr_Roots tree))) = mset (map node_status ns)
    \<and> tr_TotalCount tree = length ns \<and> tr_DoneCount tree = length (filter (\<lambda>n. pn_Status n = StatusDone) ns)"
proof -
  have ns: "seq_sorted ns" "parents_first ns" using nodes_of_wf(1) [OF assms(1)] assms(2) by (simp_all add: ns_def)
  have agg: "aggregate c t = ns" by (simp add: aggregate_def Aggregate_def ns_def nodes_of_def)
  obtain heap roots where f: "Forest ns = (heap, roots)" by (cases "Forest ns")
  note law = Forest_law [OF ns f]
  have fuel: "card {q \<in> pn_Seq ` set ns. s \<le> q} \<le> length ns" for s
  proof -
    have "card {q \<in> pn_Seq ` set ns. s \<le> q} \<le> card (pn_Seq ` set ns)" by (intro card_mono) auto
    also have "\<dots> \<le> length ns" by (metis card_length image_set length_map)
    finally show ?thesis .
  qed
  have "\<exists>v. ToNodeView (length ns) heap s = Some (Inr v) \<and> view_of_seq ns s v" if "s \<in> set roots" for s
    using ToNodeView_law [OF ns st [folded ns_def] law(1) _ fuel] that law(2) by auto
  then obtain vs where vs: "each (ToNodeView (length ns) heap) roots = Some (Inr vs)" "list_all2 (view_of_seq ns) roots vs"
    using each_all by metis
  have all: "\<forall>v \<in> set vs. \<exists>k. view_of_seq ns k v" using vs(2) by (metis in_set_conv_nth list_all2_conv_all_nth)
  let ?sts = "concat (map view_statuses vs)"
  have fsts: "map fst ?sts = concat (map view_seqs vs)" by (simp add: map_concat comp_def view_seqs_statuses)
  have "mset (concat (map view_seqs vs)) = mset (map pn_Seq ns)"
  proof (rule forest_covers [OF ns])
    show "set_mset (mset (concat (map view_seqs vs))) \<subseteq> pn_Seq ` set ns" using all unfolding view_of_seq_def by fastforce
    show "mset (concat (map view_seqs vs)) = mset (map pn_Seq (filter (is_root ns) ns)) + (\<Sum>x \<in># mset (concat (map view_seqs vs)). mset (plan_kids ns x))"
      using views_mset [OF vs(2)] unfolding law(2) .
  qed
  then have "mset (map fst ?sts) = mset (map pn_Seq ns)" by (simp only: fsts)
  moreover have "\<forall>(q, st) \<in> set ?sts. \<exists>n \<in> set ns. pn_Seq n = q \<and> StatusToString (pn_Status n) = Inr st"
    using all unfolding view_of_seq_def by fastforce
  ultimately have sts: "mset ?sts = mset (map node_status ns)" by (rule statuses_mset [OF ns(1)])
  have "length (filter (\<lambda>(q, st). st = PlanDone) ?sts) = length (filter (\<lambda>(q, st). st = PlanDone) (map node_status ns))"
    using sts by (metis mset_filter size_mset)
  also have "\<dots> = length (filter (\<lambda>n. pn_Status n = StatusDone) ns)"
  proof -
    have "(case node_status n of (q, st) \<Rightarrow> st = PlanDone) \<longleftrightarrow> pn_Status n = StatusDone" if n: "n \<in> set ns" for n
    proof -
      obtain w where "StatusToString (pn_Status n) = Inr w" using st n unfolding ns_def by blast
      then show ?thesis using status_done by (simp add: node_status_def status_name_def)
    qed
    then show ?thesis by (simp add: filter_map comp_def cong: filter_cong)
  qed
  finally have nd: "length (filter (\<lambda>(q, st). st = PlanDone) ?sts) = length (filter (\<lambda>n. pn_Status n = StatusDone) ns)" .
  have nt: "length ?sts = length ns" using sts by (metis length_map size_mset)
  have "BuildTree c t = Some (Inr \<lparr>tr_Roots = vs, tr_DoneCount = length (filter (\<lambda>n. pn_Status n = StatusDone) ns), tr_TotalCount = length ns\<rparr>)"
    unfolding BuildTree_def agg Let_def f prod.case vs(1) by (simp only: option.case sum.case CountForest_eq nd nt prod.case)
  then show ?thesis using sts by auto
qed

section \<open>The active view\<close>

lemma active_node_seqs: "concat (map view_statuses (active_node v p)) = filter (\<lambda>(q, st). st = PlanInProgress) (view_statuses v)"
proof (induction v arbitrary: p)
  case (NodeView sq p' ti st su ca fa ua kids)
  have "concat (map view_statuses (concat (map (\<lambda>f. f r) (map active_node kids)))) = filter (\<lambda>(q, st). st = PlanInProgress) (concat (map view_statuses kids))" for r
    using NodeView.IH [of _ r] by (induction kids) auto
  then show ?case by simp
qed

lemma activeNodes_statuses: "concat (map view_statuses (activeNodes vs p)) = filter (\<lambda>(q, st). st = PlanInProgress) (concat (map view_statuses vs))"
  unfolding activeNodes_def by (induction vs) (simp_all add: active_node_seqs)

text \<open>Every view of a list names the step it hangs under as its parent.\<close>

primrec linked :: "PlanNodeView \<Rightarrow> u32 \<Rightarrow> bool" where
  "linked (NodeView sq p ti st su ca fa ua kids) q \<longleftrightarrow> p = q \<and> list_all (\<lambda>f. f sq) (map linked kids)"

lemma active_node_linked: "v \<in> set (active_node w p) \<Longrightarrow> linked v p \<and> v_Status v = PlanInProgress"
proof (induction w arbitrary: v p)
  case (NodeView sq p' ti st su ca fa ua kids)
  show ?case
  proof (cases "st = PlanInProgress")
    case True
    then have v: "v = NodeView sq p ti st su ca fa ua (concat (map (\<lambda>f. f sq) (map active_node kids)))" using NodeView.prems by simp
    then show ?thesis using NodeView.IH True by (auto simp: list_all_iff)
  next
    case False
    then obtain k where "k \<in> set kids" "v \<in> set (active_node k p)" using NodeView.prems by auto
    then show ?thesis by (rule NodeView.IH)
  qed
qed

lemma activeNodes_linked: "v \<in> set (activeNodes vs p) \<Longrightarrow> linked v p \<and> v_Status v = PlanInProgress"
  unfolding activeNodes_def using active_node_linked by auto

end
