(* ===== verification/Plan_Properties.thy ===== *)
theory Plan_Properties
  imports Sample_Store Plan_Forest
begin

text \<open>
  What the plan operations promise, each with a concrete run: creating a step extends the turn's plan by
  exactly one node in a fresh ordinal below an existing parent, updating restates one node, the tree
  shows every node once, and a subtree is the set of a step's descendants.
\<close>

text \<open>
  C25. Creating a step below the root or below an existing step succeeds in a fresh ordinal greater than
  every step's, appends exactly that node to the turn's plan, leaves every other turn's plan alone, and
  keeps the two invariants: the caches mirror the records, and parents come before their children.
\<close>

theorem CreateNode_extends_plan:
  assumes "domain_inv H a c" "ordinals_left c (sp_TopicID spec)"
    "sp_ParentSeq spec = 0 \<or> pc_view (ctx_Plans c) (sp_TopicID spec) (sp_ParentSeq spec) \<noteq> None"
    "ReadRecord (ctx_Engine c) a (HashPlanNode H (sp_TopicID spec) (next_step c (sp_TopicID spec))) = Inl (NewError ErrNotFound)"
    "node = new_node H now spec (next_step c (sp_TopicID spec))" "plan_fits node"
    "engine_room (ctx_Engine c) (RecordHeaderSize + size_of marshal_plan_node node + k)"
    "parents_first (nodes_of (ctx_Plans c) (sp_TopicID spec))"
  shows "\<exists>c'. CreateNode H now a spec c = (Inr (next_step c (sp_TopicID spec)), c') \<and> domain_inv H a c' \<and> engine_room (ctx_Engine c') k
    \<and> nodes_of (ctx_Plans c') (sp_TopicID spec) = nodes_of (ctx_Plans c) (sp_TopicID spec) @ [node]
    \<and> (\<forall>t. t \<noteq> sp_TopicID spec \<longrightarrow> nodes_of (ctx_Plans c') t = nodes_of (ctx_Plans c) t)
    \<and> (\<forall>n \<in> set (nodes_of (ctx_Plans c) (sp_TopicID spec)). pn_Seq n < next_step c (sp_TopicID spec))
    \<and> parents_first (nodes_of (ctx_Plans c') (sp_TopicID spec))"
proof -
  let ?t = "sp_TopicID spec"
  note fresh = next_step_fresh [OF assms(2)]
  have "pn_ParentSeq node < pn_Seq node"
  proof (cases "sp_ParentSeq spec = 0")
    case True
    then show ?thesis using fresh(1) by (simp add: assms(5) new_node_def word_neq_0_conv)
  next
    case False
    then obtain n where "n \<in> set (nodes_of (ctx_Plans c) ?t)" "pn_Seq n = sp_ParentSeq spec"
      using assms(3) pc_view_iff [OF pc_mirrorsD(1) [OF domain_invD(4) [OF assms(1)]]] by blast
    then show ?thesis using fresh(2) by (force simp: assms(5) new_node_def)
  qed
  then have "parents_first (nodes_of (ctx_Plans c) ?t @ [node])" using assms(8) by (auto simp: parents_first_def)
  then show ?thesis
    using CreateNode_law [OF assms(1,2,3,4) assms(6,7) [unfolded assms(5)]] fresh(2) unfolding assms(5) [symmetric] by metis
qed

definition sample_spec :: NodeSpec where
  "sample_spec = \<lparr>sp_TopicID = 9, sp_ParentSeq = 1, sp_Title = ''next''\<rparr>"

lemma new_sample_node: "plan_fits (new_node sample_hash 1000 sample_spec 2)" "size_of marshal_plan_node (new_node sample_hash 1000 sample_spec 2) < 2000"
proof -
  have ok: "plan_node_ok (new_node sample_hash 1000 sample_spec 2)"
    unfolding plan_node_ok_def new_node_def sample_spec_def by (simp add: i64_ok_def) code_simp
  then show "size_of marshal_plan_node (new_node sample_hash 1000 sample_spec 2) < 2000"
    using plan_node_size [OF ok] by (simp add: new_node_def sample_spec_def)
  then show "plan_fits (new_node sample_hash 1000 sample_spec 2)" using ok by (simp add: plan_fits_def)
qed

lemma CreateNode_extends_plan_witness:
  "\<exists>c c'. CreateNode sample_hash 1000 1 sample_spec c = (Inr 2, c') \<and> map pn_Seq (nodes_of (ctx_Plans c') 9) = [1, 2]"
proof -
  obtain e where e: "engine_rep e sample_store" "sample_read e" "domain_inv sample_hash 1 (NewContext 1 e)" "engine_room e (2 ^ 60)"
    using sample_domain by blast
  let ?c = "NewContext 1 e" and ?n = "new_node sample_hash 1000 sample_spec 2"
  have c: "ctx_Engine ?c = e" by (simp add: NewContext_def)
  have r: "sample_read (ctx_Engine ?c)" using e(2) by (simp add: c)
  have spec: "sp_TopicID sample_spec = 9" "sp_ParentSeq sample_spec = 1" by (simp_all add: sample_spec_def)
  note plan = sample_plan(1) [OF e(3) r]
  have nx: "next_step ?c 9 = 2" "ordinals_left ?c 9"
    using sample_node_seq [OF e(3) r] plan
    by (simp_all add: next_step_def ordinals_left_def NextSeq_def nodes_of_def sample_node_def split: option.splits)
  have "pc_view (ctx_Plans ?c) 9 1 \<noteq> None" by (simp add: pc_view_def plan sample_node_def)
  moreover have "ReadRecord e 1 (HashPlanNode sample_hash 9 2) = Inl (NewError ErrNotFound)"
    using eng.read_law [OF e(1), of 1 2] by (simp add: sample_keys sample_store_def)
  moreover have "engine_room e (RecordHeaderSize + size_of marshal_plan_node ?n + 0)"
    using e(4) new_sample_node(2) by (simp add: engine_room_def RecordHeaderSize_def)
  moreover have "parents_first [sample_node]" by (simp add: parents_first_def sample_node_def)
  ultimately obtain c' where "CreateNode sample_hash 1000 1 sample_spec ?c = (Inr 2, c')" "nodes_of (ctx_Plans c') 9 = [sample_node] @ [?n]"
    using CreateNode_extends_plan [OF e(3), of sample_spec ?n 1000 0] nx new_sample_node(1) plan unfolding spec c by auto
  moreover from this(2) have "map pn_Seq (nodes_of (ctx_Plans c') 9) = [1, 2]" by (simp add: new_node_def sample_node_def)
  ultimately show ?thesis by (intro exI conjI)
qed


text \<open>
  C26. Updating a step restates that node in place, with the new status, the named title and summary and
  a finish time that is set on reaching a final status and cleared on leaving it, and changes no other
  node.
\<close>

theorem UpdateNode_restates:
  assumes "domain_inv H a c" "StatusToU8 (st_Status st) = Inr u"
    "ReadPlanNode (ctx_Engine c) a (HashPlanNode H (st_TopicID st) (st_Seq st)) = Inr n" "pn_Seq n \<noteq> 0"
    "n' = restate now u st n" "node_ready a n' c k"
  shows "\<exists>c'. UpdateNode H now a st c = (Inr (), c') \<and> domain_inv H a c' \<and> engine_room (ctx_Engine c') k
    \<and> ReadPlanNode (ctx_Engine c') a (pn_IDHash n) = Inr n'
    \<and> (\<forall>i m. i \<noteq> pn_IDHash n \<longrightarrow> ReadPlanNode (ctx_Engine c') a i = Inr m \<longleftrightarrow> ReadPlanNode (ctx_Engine c) a i = Inr m)
    \<and> pn_Status n' = u \<and> pn_ParentSeq n' = pn_ParentSeq n \<and> pn_Seq n' = pn_Seq n
    \<and> pn_FinishedAt n' = (if IsTerminalStatus u then (if pn_FinishedAt n = 0 then now else pn_FinishedAt n) else 0)"
  using UpdateNode_law [OF assms(1,2,3,4) assms(6) [unfolded assms(5)]] restate_finished unfolding assms(5) restate_simps by blast

definition sample_step :: Step where
  "sample_step = \<lparr>st_TopicID = 9, st_Seq = 1, st_Status = ''done'', st_Title = '''', st_Summary = ''ok''\<rparr>"

lemma UpdateNode_restates_witness:
  "\<exists>c c' n'. UpdateNode sample_hash 2000 1 sample_step c = (Inr (), c') \<and> ReadPlanNode (ctx_Engine c') 1 6 = Inr n' \<and> pn_Status n' = StatusDone
    \<and> pn_FinishedAt n' = 2000"
proof -
  obtain e where e: "engine_rep e sample_store" "sample_read e" "domain_inv sample_hash 1 (NewContext 1 e)" "engine_room e (2 ^ 60)"
    using sample_domain by blast
  let ?c = "NewContext 1 e"
  define n' where "n' = restate 2000 StatusDone sample_step sample_node"
  have c: "ctx_Engine ?c = e" by (simp add: NewContext_def)
  have st: "StatusToU8 (st_Status sample_step) = Inr StatusDone" by code_simp
  have key: "HashPlanNode sample_hash (st_TopicID sample_step) (st_Seq sample_step) = 6" by (simp add: sample_step_def sample_keys)
  note r = sample_readD(4) [OF e(2)]
  have n: "ReadPlanNode (ctx_Engine ?c) 1 (HashPlanNode sample_hash (st_TopicID sample_step) (st_Seq sample_step)) = Inr sample_node"
    unfolding key c using r by blast
  have ok: "plan_node_ok n'"
    unfolding n'_def plan_node_ok_def restate_def sample_step_def sample_node_def by (simp add: i64_ok_def Let_def IsTerminalStatus_def) code_simp
  have id: "pn_IDHash n' = 6" "pn_TopicID n' = 9" "pn_Seq n' = 1" by (simp_all add: n'_def sample_node_def)
  have "length (pn_Title n') = 4" "length (pn_Summary n') = 2" by (simp_all add: n'_def restate_text sample_step_def sample_node_def)
  then have size: "size_of marshal_plan_node n' < 2000" using plan_node_size [OF ok] by simp
  have "own_kind e 1 RecL5PlanNode 6" unfolding own_kind_store [OF e(1)] by (simp add: sample_store_def record_of_def)
  moreover have "engine_room e (RecordHeaderSize + size_of marshal_plan_node n' + 0)"
    using e(4) size by (simp add: engine_room_def RecordHeaderSize_def)
  ultimately have ready: "node_ready 1 n' ?c 0"
    using ok size r by (simp add: node_ready_def plan_fits_def id c sample_node_def)
  have n0: "pn_Seq sample_node \<noteq> 0" "pn_IDHash sample_node = 6" "pn_FinishedAt sample_node = 0" by (simp_all add: sample_node_def)
  from UpdateNode_restates [OF e(3) st n n0(1) n'_def ready] obtain c' where
    c': "UpdateNode sample_hash 2000 1 sample_step ?c = (Inr (), c')" "ReadPlanNode (ctx_Engine c') 1 (pn_IDHash sample_node) = Inr n'"
      "pn_Status n' = StatusDone"
      "pn_FinishedAt n' = (if IsTerminalStatus StatusDone then (if pn_FinishedAt sample_node = 0 then 2000 else pn_FinishedAt sample_node) else 0)"
    by blast
  have "pn_FinishedAt n' = 2000" using c'(4) by (simp add: IsTerminalStatus_def n0)
  with c'(1,3) c'(2) [unfolded n0(2)] show ?thesis by (intro exI conjI)
qed

text \<open>
  C27. The tree a host is shown is the whole plan: as long as parents precede their children and every
  status has a name, building it succeeds, shows each node of the turn exactly once with its status, and
  its counters are the number of nodes and of finished nodes.
\<close>

theorem BuildTree_shows_every_node:
  assumes "domain_inv H a c" "parents_first (nodes_of (ctx_Plans c) t)"
    "\<forall>n \<in> set (nodes_of (ctx_Plans c) t). pn_Status n \<in> {StatusInProgress, StatusDone, StatusFailed}"
  shows "\<exists>tree. BuildTree c t = Some (Inr tree)
    \<and> mset (concat (map view_statuses (tr_Roots tree))) = mset (map node_status (nodes_of (ctx_Plans c) t))
    \<and> tr_TotalCount tree = length (nodes_of (ctx_Plans c) t)
    \<and> tr_DoneCount tree = length (filter (\<lambda>n. pn_Status n = StatusDone) (nodes_of (ctx_Plans c) t))"
proof -
  have "\<forall>n \<in> set (nodes_of (ctx_Plans c) t). \<exists>w. StatusToString (pn_Status n) = Inr w"
    using assms(3) StatusToString_total by blast
  from BuildTree_law [OF pc_mirrorsD(1) [OF domain_invD(4) [OF assms(1)]] assms(2) this] show ?thesis .
qed

lemma BuildTree_shows_every_node_witness:
  "\<exists>c tree. BuildTree c 9 = Some (Inr tree) \<and> tr_TotalCount tree = 1 \<and> tr_DoneCount tree = 0"
proof -
  obtain e where e: "engine_rep e sample_store" "sample_read e" "domain_inv sample_hash 1 (NewContext 1 e)" "engine_room e (2 ^ 60)"
    using sample_domain by blast
  have "sample_read (ctx_Engine (NewContext 1 e))" using e(2) by (simp add: NewContext_def)
  note plan = sample_plan(1) [OF e(3) this]
  show ?thesis using BuildTree_shows_every_node [OF e(3), of 9] unfolding plan
    by (auto simp: parents_first_def sample_node_def StatusInProgress_def StatusDone_def)
qed

text \<open>
  Expanding a step into its subtree always ends on a plan whose parents precede their children, and
  answers, in order, exactly the ordinals reachable from it through parent links.
\<close>

theorem Subtree_is_descendants:
  assumes "parents_first (nodes_of pc t)"
  shows "\<exists>out. Subtree pc t root = Some out \<and> sorted out
    \<and> set out = {q. (root, q) \<in> {(p, s). \<exists>n \<in> set (nodes_of pc t). pn_ParentSeq n = p \<and> pn_Seq n = s}\<^sup>*}"
proof -
  have "child_rel (plan_kids (nodes_of pc t)) = {(p, s). \<exists>n \<in> set (nodes_of pc t). pn_ParentSeq n = p \<and> pn_Seq n = s}"
    by (auto simp: child_rel_def plan_kids_def)
  then show ?thesis using Subtree_law [OF assms, of root] by simp
qed

lemma Subtree_is_descendants_witness:
  "\<exists>out. Subtree \<lparr>pc_plans = [(9, agg_of 9 [sample_node, new_node sample_hash 1000 sample_spec 2])]\<rparr> 9 1 = Some out \<and> 2 \<in> set out"
proof -
  let ?pc = "\<lparr>pc_plans = [(9, agg_of 9 [sample_node, new_node sample_hash 1000 sample_spec 2])]\<rparr>"
  have "parents_first (nodes_of ?pc 9)" by (simp add: parents_first_def nodes_of_def agg_of_def sample_node_def new_node_def sample_spec_def)
  moreover have "(1, 2) \<in> {(p, s). \<exists>n \<in> set (nodes_of ?pc 9). pn_ParentSeq n = p \<and> pn_Seq n = s}"
    by (simp add: nodes_of_def agg_of_def sample_node_def new_node_def sample_spec_def)
  then have "(1, 2) \<in> {(p, s). \<exists>n \<in> set (nodes_of ?pc 9). pn_ParentSeq n = p \<and> pn_Seq n = s}\<^sup>*" by (rule r_into_rtrancl)
  moreover from Subtree_is_descendants [of ?pc 9 1] calculation(1) obtain out where out: "Subtree ?pc 9 1 = Some out"
    "set out = {q. (1, q) \<in> {(p, s). \<exists>n \<in> set (nodes_of ?pc 9). pn_ParentSeq n = p \<and> pn_Seq n = s}\<^sup>*}" by blast
  ultimately have "2 \<in> set out" unfolding out(2) mem_Collect_eq by blast
  with out(1) show ?thesis by (intro exI conjI)
qed

end
