(* ===== verification/Scene_Properties.thy ===== *)
theory Scene_Properties
  imports Sample_Store Turn_Ops
begin

text \<open>
  What the operations on scenes and topics promise, each with a concrete run: deletes cascade to exactly
  what the topics own, merging moves exactly the merged scenes' topics, sinking and surfacing topics are
  inverse, closures over parent links end on the trees the library builds and never end on a cycle, and
  the turn a search opens can be settled.
\<close>

section \<open>Deleting, merging, sinking\<close>

text \<open>
  C29. Deleting scenes and topics removes them together with every utterance, event and plan step the
  topics own, and nothing else: any other record, of whatever kind and of whatever agent, reads as before,
  and the caches mirror what is left.
\<close>

theorem DeleteCascade_removes_exactly:
  assumes "domain_inv H a c" "cascade_ready a scenes topics planNodes c k"
  shows "\<exists>c'. DeleteCascade H a scenes topics c = (Inr (), c') \<and> domain_inv H a c' \<and> engine_room (ctx_Engine c') k
    \<and> (\<forall>i t. ReadTopicSlot (ctx_Engine c') a i = Inr t \<longleftrightarrow> ReadTopicSlot (ctx_Engine c) a i = Inr t \<and> i \<notin> set topics)
    \<and> (\<forall>i s. ReadSceneSlot (ctx_Engine c') a i = Inr s \<longleftrightarrow> ReadSceneSlot (ctx_Engine c) a i = Inr s \<and> i \<notin> set scenes)
    \<and> (\<forall>i x. ReadArchiveSlot (ctx_Engine c') a i = Inr x \<longleftrightarrow> ReadArchiveSlot (ctx_Engine c) a i = Inr x \<and> as_TopicID x \<notin> set topics)
    \<and> (\<forall>i n. ReadPlanNode (ctx_Engine c') a i = Inr n \<longleftrightarrow> ReadPlanNode (ctx_Engine c) a i = Inr n \<and> pn_TopicID n \<notin> set topics)
    \<and> (\<forall>b i. b \<noteq> a \<or> i \<notin> set topics \<and> i \<notin> set scenes
          \<and> (\<forall>x. ReadArchiveSlot (ctx_Engine c) a i = Inr x \<longrightarrow> as_TopicID x \<notin> set topics)
          \<and> (\<forall>n. ReadPlanNode (ctx_Engine c) a i = Inr n \<longrightarrow> pn_TopicID n \<notin> set topics)
        \<longrightarrow> ReadRecord (ctx_Engine c') b i = ReadRecord (ctx_Engine c) b i)"
  using DeleteCascade_law [OF assms] .

lemma sample_kinds:
  assumes "engine_rep e sample_store"
  shows "i \<in> {8, 9} \<Longrightarrow> own_kind e 1 RecL2Topic i" "own_kind e 1 RecL2Scene 7" "sample_store (a, i) = None \<Longrightarrow> own_kind e a rt i"
  unfolding own_kind_store [OF assms] by (auto simp: sample_store_def record_of_def)

lemma sample_cascade:
  assumes "engine_rep e sample_store" "domain_inv sample_hash 1 (NewContext 1 e)" "engine_room e (2 ^ 60)"
  shows "cascade_ready 1 [] [9] [6] (NewContext 1 e) 1000"
proof -
  have c: "ctx_Engine (NewContext 1 e) = e" by (simp add: NewContext_def)
  have "sample_read (ctx_Engine (NewContext 1 e))" using sample_reading [OF assms(1)] by (simp add: c)
  note ids = sample_all_ids [OF assms(2) this]
  have "PlanNodeIDsByTopicIDs e 1 [9] = Inr [6]"
    unfolding PlanNodeIDsByTopicIDs_def sample_scans(2) [OF assms(1)] by (simp add: sample_node_def)
  moreover have "DedupSorted [5 :: u64] = [5]" by code_simp
  ultimately show ?thesis
    using assms(3) sample_kinds(1) [OF assms(1)] by (simp add: cascade_ready_def c ids engine_room_def RecordHeaderSize_def)
qed

lemma DeleteCascade_removes_exactly_witness:
  "\<exists>c c'. DeleteCascade sample_hash 1 [] [9] c = (Inr (), c') \<and> ReadTopicSlot (ctx_Engine c) 1 9 = Inr (sample_topic 9 None 1)
    \<and> (\<forall>t. ReadTopicSlot (ctx_Engine c') 1 9 \<noteq> Inr t) \<and> (\<forall>x. ReadArchiveSlot (ctx_Engine c') 1 5 \<noteq> Inr x)
    \<and> (\<forall>n. ReadPlanNode (ctx_Engine c') 1 6 \<noteq> Inr n) \<and> ReadSceneSlot (ctx_Engine c') 1 7 = Inr sample_scene"
proof -
  obtain e where e: "engine_rep e sample_store" "sample_read e" "domain_inv sample_hash 1 (NewContext 1 e)" "engine_room e (2 ^ 60)"
    using sample_domain by blast
  have c: "ctx_Engine (NewContext 1 e) = e" by (simp add: NewContext_def)
  note r = sample_readD [OF e(2)]
  obtain c' where c': "DeleteCascade sample_hash 1 [] [9] (NewContext 1 e) = (Inr (), c')"
    "\<And>i t. ReadTopicSlot (ctx_Engine c') 1 i = Inr t \<longleftrightarrow> ReadTopicSlot e 1 i = Inr t \<and> i \<notin> set [9]"
    "\<And>i s. ReadSceneSlot (ctx_Engine c') 1 i = Inr s \<longleftrightarrow> ReadSceneSlot e 1 i = Inr s \<and> i \<notin> set []"
    "\<And>i x. ReadArchiveSlot (ctx_Engine c') 1 i = Inr x \<longleftrightarrow> ReadArchiveSlot e 1 i = Inr x \<and> as_TopicID x \<notin> set [9]"
    "\<And>i n. ReadPlanNode (ctx_Engine c') 1 i = Inr n \<longleftrightarrow> ReadPlanNode e 1 i = Inr n \<and> pn_TopicID n \<notin> set [9]"
    using DeleteCascade_removes_exactly [OF e(3) sample_cascade [OF e(1,3,4)]] unfolding c by blast
  show ?thesis
    by (rule exI [of _ "NewContext 1 e"], rule exI [of _ c'], unfold c c'(2-5) r, intro conjI)
      (simp_all add: c'(1) sample_archive_def sample_node_def)
qed

text \<open>
  C30. Merging scenes moves exactly the topics of the merged scenes to the primary one, in the records
  and in the index alike, and removes exactly the merged scenes; every other record of every domain reads
  as before.
\<close>

theorem MergeScenes_moves_topics:
  assumes "domain_inv H a c" "CollectAllTopicsStrict (ctx_Engine c) a = Inr topics" "p \<notin> set sids"
    "\<forall>s \<in> set sids. own_kind (ctx_Engine c) a RecL2Scene s"
    "topics_fit a (moved p sids topics) (ctx_Engine c) (RecordHeaderSize * length sids + k)"
  shows "\<exists>e' c'. MergeScenesL2 a p sids (ctx_Engine c) = (Inr (), e') \<and> RetargetL2Meta p sids (c\<lparr>ctx_Engine := e'\<rparr>) = Some c'
    \<and> ctx_Engine c' = e' \<and> domain_inv H a c' \<and> engine_room e' k
    \<and> (\<forall>i t. ReadTopicSlot e' a i = Inr t \<longleftrightarrow> (\<exists>t0. ReadTopicSlot (ctx_Engine c) a i = Inr t0
          \<and> t = (if ts_SceneID t0 \<in> set sids then t0\<lparr>ts_SceneID := p\<rparr> else t0)))
    \<and> (\<forall>i s. ReadSceneSlot e' a i = Inr s \<longleftrightarrow> ReadSceneSlot (ctx_Engine c) a i = Inr s \<and> i \<notin> set sids)
    \<and> (\<forall>b i. b \<noteq> a \<or> i \<notin> set sids \<and> \<not> (\<exists>t. ReadTopicSlot (ctx_Engine c) a i = Inr t \<and> ts_SceneID t \<in> set sids)
        \<longrightarrow> ReadRecord e' b i = ReadRecord (ctx_Engine c) b i)"
  using MergeScenesL2_law [OF assms] unfolding retarget_def .

lemma sample_fit:
  assumes "engine_rep e sample_store" "engine_room e (2 ^ 60)" "ts_ID t \<in> {8, 9}" "topic_ok t" "size_of marshal_topic t < 2000"
  shows "topics_fit 1 [t] e 5000"
  using sample_kinds(1) [OF assms(1)] assms(2-5) by (auto simp: topics_fit_def engine_room_def RecordHeaderSize_def)

lemma sample_moved:
  "moved 3 [7] [sample_topic 8 (Some 9) 2, sample_topic 9 None 1] = [(sample_topic 8 (Some 9) 2)\<lparr>ts_SceneID := 3\<rparr>, (sample_topic 9 None 1)\<lparr>ts_SceneID := 3\<rparr>]"
  by (simp add: moved_def sample_topic_def)

lemma moved_sample_fits: "topic_ok ((sample_topic i q d)\<lparr>ts_SceneID := s\<rparr>)" "size_of marshal_topic ((sample_topic i q d)\<lparr>ts_SceneID := s\<rparr>) < 2000"
proof -
  show ok: "topic_ok ((sample_topic i q d)\<lparr>ts_SceneID := s\<rparr>)" using sample_ok(2) [of i q d] by (simp add: topic_ok_def)
  show "size_of marshal_topic ((sample_topic i q d)\<lparr>ts_SceneID := s\<rparr>) < 2000" using topic_size [OF ok] by (simp add: sample_topic_def)
qed

lemma MergeScenes_moves_topics_witness:
  "\<exists>e e'. MergeScenesL2 1 3 [7] e = (Inr (), e') \<and> ReadTopicSlot e 1 9 = Inr (sample_topic 9 None 1)
    \<and> ReadTopicSlot e' 1 9 = Inr ((sample_topic 9 None 1)\<lparr>ts_SceneID := 3\<rparr>) \<and> (\<forall>s. ReadSceneSlot e' 1 7 \<noteq> Inr s)"
proof -
  obtain e where e: "engine_rep e sample_store" "sample_read e" "domain_inv sample_hash 1 (NewContext 1 e)" "engine_room e (2 ^ 60)"
    using sample_domain by blast
  have c: "ctx_Engine (NewContext 1 e) = e" by (simp add: NewContext_def)
  note r = sample_readD [OF e(2)]
  have own: "\<forall>s \<in> set [7]. own_kind e 1 RecL2Scene s" using sample_kinds(2) [OF e(1)] by simp
  have size: "size_of marshal_topic ((sample_topic 8 (Some 9) 2)\<lparr>ts_SceneID := 3\<rparr>) < 2000" "size_of marshal_topic ((sample_topic 9 None 1)\<lparr>ts_SceneID := 3\<rparr>) < 2000"
    by (rule moved_sample_fits)+
  have ids: "ts_ID ((sample_topic i q d)\<lparr>ts_SceneID := 3\<rparr>) = i" for i q d by (simp add: sample_topic_def)
  have fit: "topics_fit 1 (moved 3 [7] [sample_topic 8 (Some 9) 2, sample_topic 9 None 1]) e (RecordHeaderSize * length [7 :: u64] + 0)"
    unfolding sample_moved topics_fit_def using size e(4) moved_sample_fits(1) sample_kinds(1) [OF e(1)] by (simp add: ids engine_room_def RecordHeaderSize_def)
  have "(3 :: u64) \<notin> set [7]" by simp
  from MergeScenes_moves_topics [OF e(3) _ this, unfolded c, OF sample_scans(1) [OF e(1)] own fit]
  obtain e' where e': "MergeScenesL2 1 3 [7] e = (Inr (), e')"
    "\<And>i t. ReadTopicSlot e' 1 i = Inr t \<longleftrightarrow> (\<exists>t0. ReadTopicSlot e 1 i = Inr t0 \<and> t = (if ts_SceneID t0 \<in> set [7] then t0\<lparr>ts_SceneID := 3\<rparr> else t0))"
    "\<And>i s. ReadSceneSlot e' 1 i = Inr s \<longleftrightarrow> ReadSceneSlot e 1 i = Inr s \<and> i \<notin> set [7]" by blast
  have "ReadTopicSlot e' 1 9 = Inr ((sample_topic 9 None 1)\<lparr>ts_SceneID := 3\<rparr>)" unfolding e'(2) r by (simp add: sample_topic_def)
  moreover have "\<forall>s. ReadSceneSlot e' 1 7 \<noteq> Inr s" unfolding e'(3) by simp
  moreover have "ReadTopicSlot e 1 9 = Inr (sample_topic 9 None 1)" unfolding r by simp
  ultimately show ?thesis using e'(1) by blast
qed


text \<open>
  C31. Sinking topics below a new parent and surfacing them again is the identity: after
  \<open>CompressTopicsL2\<close> each named topic hangs one level deeper below the parent, and after
  \<open>RestoreSunkTopicsL2\<close> every topic of the domain reads exactly as at the start.
\<close>

theorem Compress_Restore_identity:
  assumes "engine_rep e m" "\<forall>t \<in> set ts. ReadTopicSlot e a (ts_ID t) = Inr t \<and> surfaced t" "distinct (map ts_ID ts)"
    "topics_fit a (map (sunk p) ts) e (batch_room marshal_topic ts + k)" "\<forall>t \<in> set ts. size_of marshal_topic t < 2 ^ 32"
  shows "\<exists>e1 e2. CompressTopicsL2 a (map ts_ID ts) p e = (Inr (), e1) \<and> RestoreSunkTopicsL2 a (map ts_ID ts) p e1 = (Inr (), e2)
    \<and> (\<forall>t \<in> set ts. ReadTopicSlot e1 a (ts_ID t) = Inr (t\<lparr>ts_Depth := ts_Depth t + 1, ts_ParentID := Some p\<rparr>))
    \<and> (\<forall>i t. ReadTopicSlot e2 a i = Inr t \<longleftrightarrow> ReadTopicSlot e a i = Inr t)"
  using Compress_then_Restore [OF assms] unfolding sunk_def .

lemma Compress_Restore_identity_witness:
  "\<exists>e e1 e2. CompressTopicsL2 1 [9] 3 e = (Inr (), e1) \<and> RestoreSunkTopicsL2 1 [9] 3 e1 = (Inr (), e2)
    \<and> ReadTopicSlot e1 1 9 = Inr (sample_topic 9 (Some 3) 2) \<and> ReadTopicSlot e2 1 9 = Inr (sample_topic 9 None 1)"
proof -
  obtain e where e: "engine_rep e sample_store" "sample_read e" "engine_room e (2 ^ 60)"
    using sample_domain by blast
  let ?ts = "[sample_topic 9 None 1]"
  note r = sample_readD(1) [OF e(2)]
  have ids: "ts_ID (sample_topic i q d) = i" for i q d by (simp add: sample_topic_def)
  have top: "ReadTopicSlot e 1 9 = Inr (sample_topic 9 None 1)" using r by simp
  have ts: "\<forall>t \<in> set ?ts. ReadTopicSlot e 1 (ts_ID t) = Inr t \<and> surfaced t" "distinct (map ts_ID ?ts)"
    using top by (simp_all add: ids) (simp add: surfaced_def sample_topic_def MaxDepth_def)
  have s: "sunk 3 (sample_topic 9 None 1) = sample_topic 9 (Some 3) 2" by (simp add: sunk_def sample_topic_def)
  have size: "size_of marshal_topic (sample_topic i q d) < 2000" for i q d by (rule sample_size)
  have fit: "topics_fit 1 (map (sunk 3) ?ts) e (batch_room marshal_topic ?ts + 0)"
    using sample_kinds(1) [OF e(1)] sample_ok(2) size [of 9 "Some 3" 2] size [of 9 None 1] e(3)
    by (simp add: topics_fit_def s ids engine_room_def RecordHeaderSize_def)
  have small: "\<forall>t \<in> set ?ts. size_of marshal_topic t < 2 ^ 32" using size [of 9 None 1] by simp
  obtain e1 e2 where e12: "CompressTopicsL2 1 [9] 3 e = (Inr (), e1)" "RestoreSunkTopicsL2 1 [9] 3 e1 = (Inr (), e2)"
    "ReadTopicSlot e1 1 9 = Inr (sample_topic 9 (Some 3) 2)" "\<And>i t. ReadTopicSlot e2 1 i = Inr t \<longleftrightarrow> ReadTopicSlot e 1 i = Inr t"
    using Compress_Restore_identity [OF e(1) ts fit small] s by (auto simp: ids sunk_def)
  have "ReadTopicSlot e2 1 9 = Inr (sample_topic 9 None 1)" unfolding e12(4) by (rule top)
  with e12(1-3) show ?thesis by (intro exI conjI)
qed

section \<open>Closures over parent links\<close>

text \<open>
  Collecting a topic with everything below it ends and answers exactly the topics reachable through
  parent links, as long as a child lies deeper than its parent; an unknown root has an empty closure.
\<close>

theorem TopicClosure_terminates:
  assumes "engine_rep e m" "l2_addressed e a" "CollectAllTopicsStrict e a = Inr topics"
    "\<forall>i t p u. ReadTopicSlot e a i = Inr t \<and> ts_ParentID t = Some p \<and> ReadTopicSlot e a p = Inr u \<longrightarrow> ts_Depth u < ts_Depth t"
  shows "\<exists>out. TopicClosureL2 e a root = Some (Inr out)
    \<and> set out = (if \<exists>t. ReadTopicSlot e a root = Inr t
        then {q. (root, q) \<in> {(p, i). \<exists>t. ReadTopicSlot e a i = Inr t \<and> ts_ParentID t = Some p}\<^sup>*} else {})"
  using TopicClosureL2_law [OF assms(1,2,3), of root] assms(4) unfolding depths_grow_def parent_rel_def by blast

lemma TopicClosure_terminates_witness:
  "\<exists>e out. TopicClosureL2 e 1 9 = Some (Inr out) \<and> 8 \<in> set out"
proof -
  obtain e where e: "engine_rep e sample_store" "sample_read e" using sample_domain by blast
  note r = sample_readD(1) [OF e(2)]
  have deep: "\<forall>i t p u. ReadTopicSlot e 1 i = Inr t \<and> ts_ParentID t = Some p \<and> ReadTopicSlot e 1 p = Inr u \<longrightarrow> ts_Depth u < ts_Depth t"
    unfolding r by (auto simp: sample_topic_def)
  obtain out where out: "TopicClosureL2 e 1 9 = Some (Inr out)"
    "set out = (if \<exists>t. ReadTopicSlot e 1 9 = Inr t then {q. (9, q) \<in> {(p, i). \<exists>t. ReadTopicSlot e 1 i = Inr t \<and> ts_ParentID t = Some p}\<^sup>*} else {})"
    using TopicClosure_terminates [OF e(1) sample_addressed(1) [OF e(2)] sample_scans(1) [OF e(1)] deep] by blast
  have "ReadTopicSlot e 1 8 = Inr (sample_topic 8 (Some 9) 2)" "\<exists>t. ReadTopicSlot e 1 9 = Inr t" unfolding r by simp_all
  then have "8 \<in> set out" unfolding out(2) by (auto simp: sample_topic_def intro!: r_into_rtrancl)
  with out(1) show ?thesis by (intro exI conjI)
qed

text \<open>
  On a cycle of parent links the same collection never ends: the loop has no visited set, so one
  topic that is its own ancestor makes a delete of it hang while it holds the domain's lock.
\<close>

theorem TopicClosure_cycle_hangs:
  assumes "engine_rep e m" "l2_addressed e a" "CollectAllTopicsStrict e a = Inr topics"
    "(root, root) \<in> {(p, i). \<exists>t. ReadTopicSlot e a i = Inr t \<and> ts_ParentID t = Some p}\<^sup>+"
  shows "TopicClosureL2 e a root = None"
  using TopicClosureL2_cycle [OF assms(1,2,3)] assms(4) unfolding parent_rel_def by blast

lemma single_topic_store:
  assumes "topic_ok t" "size_of marshal_topic t < 2000"
  shows "\<exists>e. engine_rep e [(1, ts_ID t) \<mapsto> record_of marshal_topic RecL2Topic t] \<and> CollectAllTopicsStrict e 1 = Inr [t]
    \<and> (\<forall>i u. ReadTopicSlot e 1 i = Inr u \<longleftrightarrow> i = ts_ID t \<and> u = t)"
proof -
  let ?r = "entry_for marshal_topic 1 RecL2Topic ts_ID t" and ?m = "[(1, ts_ID t) \<mapsto> record_of marshal_topic RecL2Topic t] :: store"
  have size: "size_of marshal_topic t < 2 ^ 32" using assms(2) by simp
  note en = entry_for_ok [OF topic.entry_of [OF assms(1) size kinds_distinct(7)]]
  have "batch_size [?r] < 2 ^ 60" using assms(2) by (simp add: en(2) RecordHeaderSize_def)
  moreover have "put_all [?r] Map.empty = ?m" by (simp add: put_entry_def entry_for_def record_of_def)
  ultimately obtain e where rep: "engine_rep e ?m" using stored_rep [of "[?r]"] en(1) by auto
  have at: "typed_at unmarshal_topic ?m 1 RecL2Topic (ts_ID t) = Some t" by (rule topic.typed_record_of [OF assms(1)]) simp
  have "IndexByType e 1 RecL2Topic = [ts_ID t]"
    using eng.ids_law [OF rep, of 1 RecL2Topic] by (intro sorted_distinct_set_unique) (auto simp: record_of_def)
  moreover have "(1, i) \<in> dom ?m \<Longrightarrow> typed_at unmarshal_topic ?m 1 RecL2Topic i \<noteq> None" for i using at by (auto split: if_splits)
  ultimately have "CollectAllTopicsStrict e 1 = Inr [t]"
    using topic.CollectAllStrict_law(1) [OF rep, of 1 RecL2Topic] at unfolding CollectAllTopicsStrict_def by (auto split: if_splits)
  moreover have "ReadTopicSlot e 1 i = Inr u \<longleftrightarrow> i = ts_ID t \<and> u = t" for i u
    unfolding ReadTopicSlot_typed [OF rep] using at by (cases "i = ts_ID t") (auto simp: typed_at_def)
  ultimately show ?thesis using rep by blast
qed

lemma TopicClosure_cycle_hangs_witness:
  "\<exists>e. ReadTopicSlot e 1 9 = Inr (sample_topic 9 (Some 9) 1) \<and> TopicClosureL2 e 1 9 = None"
proof -
  let ?t = "sample_topic 9 (Some 9) 1"
  have id: "ts_ID ?t = 9" "ts_ParentID ?t = Some 9" by (simp_all add: sample_topic_def)
  obtain e where e: "engine_rep e [(1, ts_ID ?t) \<mapsto> record_of marshal_topic RecL2Topic ?t]" "CollectAllTopicsStrict e 1 = Inr [?t]"
    "\<And>i u. ReadTopicSlot e 1 i = Inr u \<longleftrightarrow> i = 9 \<and> u = ?t"
    using single_topic_store [of ?t, OF sample_ok(2) sample_size(2)] unfolding id by blast
  have "l2_addressed e 1" unfolding l2_addressed_def e(3) by (auto simp: id)
  moreover have "(9, 9) \<in> {(p, i). \<exists>t. ReadTopicSlot e 1 i = Inr t \<and> ts_ParentID t = Some p}\<^sup>+"
    unfolding e(3) by (intro trancl.r_into_trancl) (auto simp: id)
  ultimately have "TopicClosureL2 e 1 9 = None" using TopicClosure_cycle_hangs [OF e(1) _ e(2)] by blast
  moreover have "ReadTopicSlot e 1 9 = Inr ?t" unfolding e(3) by simp
  ultimately show ?thesis by blast
qed


section \<open>Turns\<close>

lemma all_rows_Some: "all_rows (map Some rows) = Some rows"
  by (induction rows) auto

interpretation topic_order: comparison CompareTopicOrder
  by unfold_locales (auto simp: CompareTopicOrder_def cmp_def split: if_splits)

lemma SurfaceTopics_law:
  assumes "l2_mirrors e a (ctx_L2Meta c)"
  shows "\<exists>ts. SurfaceTopics c sid = Some ts \<and> set ts = {t. (\<exists>i. ReadTopicSlot e a i = Inr t) \<and> ts_SceneID t = sid \<and> ts_Depth t = 1}"
proof -
  note mir = l2_mirrorsD [OF assms]
  obtain rows where rows: "TopicsByScene (ctx_L2Meta c) sid = map Some rows"
    "set rows = {m. lm_SceneID m = sid \<and> L2_Get (ctx_L2Meta c) (lm_IDHash m) = Some m}" using TopicsByScene_rows [OF mir(1)] by blast
  have "t \<in> ToTopicSlot ` {m \<in> set rows. lm_Depth m = 1} \<longleftrightarrow> (\<exists>i. ReadTopicSlot e a i = Inr t) \<and> ts_SceneID t = sid \<and> ts_Depth t = 1" for t
  proof -
    have "t \<in> ToTopicSlot ` {m \<in> set rows. lm_Depth m = 1} \<longleftrightarrow> L2MetaFromTopic t \<in> {m \<in> set rows. lm_Depth m = 1}"
      by (metis (no_types, lifting) ToTopicSlot_L2MetaFromTopic image_iff)
    moreover have "L2_Get (ctx_L2Meta c) i = Some (L2MetaFromTopic t) \<Longrightarrow> i = ts_ID t" for i
      using l2_wfD(1) [OF mir(1), of i "L2MetaFromTopic t"] by simp
    ultimately show ?thesis unfolding rows(2) mir(2) by auto
  qed
  then have "ToTopicSlot ` {m \<in> set rows. lm_Depth m = 1} = {t. (\<exists>i. ReadTopicSlot e a i = Inr t) \<and> ts_SceneID t = sid \<and> ts_Depth t = 1}" by blast
  then show ?thesis unfolding SurfaceTopics_def rows(1) all_rows_Some by (simp add: topic_order.set_SortFunc)
qed

lemma no_profile_blank:
  assumes "engine_rep e m" "\<And>d. m (a, profile_id H) \<noteq> Some (RecL0Profile, d)"
  shows "ReadProfile dec blank H e a = Inr blank"
proof -
  have "readJSON dec e a (profile_id H) RecL0Profile = Inl (NewError ErrNotFound)"
  proof (cases "m (a, profile_id H)")
    case (Some p)
    obtain t d where p: "p = (t, d)" by (cases p)
    then have "t \<noteq> RecL0Profile" using assms(2) [of d] Some by auto
    then show ?thesis using eng.read_law [OF assms(1), of a "profile_id H"] Some p by (simp add: readJSON_def)
  qed (use eng.read_law [OF assms(1), of a "profile_id H"] in \<open>simp add: readJSON_def\<close>)
  then show ?thesis by (simp add: ReadProfile_def GetProfileL0_def)
qed

lemma open_turn_law:
  assumes inv: "domain_inv H a c" and s: "ReadSceneSlot (ctx_Engine c) a i = Inr s" "ss_SceneID s = i"
    and ok: "scene_ok (opened_turn stamp s)" "size_of marshal_scene (opened_turn stamp s) < 2 ^ 32"
    and room: "engine_room (ctx_Engine c) (RecordHeaderSize + size_of marshal_scene (opened_turn stamp s) + k)"
    and profile: "ReadProfile dec blank H (ctx_Engine c) a = Inr p"
    and turn: "ComputeTurnTopicID H i (ss_TurnSeq s + 1) \<noteq> 0"
  shows "\<exists>r c'. open_turn dec blank H limit a i stamp c = Some (Inr r, c') \<and> domain_inv H a c' \<and> engine_room (ctx_Engine c') k
    \<and> sr_Profile r = p \<and> sr_Scene r = opened_turn stamp s \<and> ReadSceneSlot (ctx_Engine c') a i = Inr (opened_turn stamp s)
    \<and> sr_NewTopicID r = ComputeTurnTopicID H i (ss_TurnSeq s + 1) \<and> ctx_Scene c' = i \<and> ctx_Turn c' = sr_NewTopicID r
    \<and> (limit \<le> 0 \<longrightarrow> set (sr_Topics r) = {t. (\<exists>j. ReadTopicSlot (ctx_Engine c) a j = Inr t) \<and> ts_SceneID t = i \<and> ts_Depth t = 1})
    \<and> (\<forall>b j. (b, j) \<noteq> (a, i) \<longrightarrow> ReadRecord (ctx_Engine c') b j = ReadRecord (ctx_Engine c) b j)"
proof -
  obtain m where rep: "engine_rep (ctx_Engine c) m" using domain_invD(1) [OF inv] by blast
  let ?s = "opened_turn stamp s"
  obtain e' where e': "OpenSceneTurn a i stamp (ctx_Engine c) = (Inr ?s, e')" "engine_room e' k" "domain_inv H a (c\<lparr>ctx_Engine := e'\<rparr>)"
    "\<And>j u. ReadSceneSlot e' a j = Inr u \<longleftrightarrow> (if j = i then u = ?s else ReadSceneSlot (ctx_Engine c) a j = Inr u)"
    "\<And>b j. (b, j) \<noteq> (a, i) \<Longrightarrow> ReadRecord e' b j = ReadRecord (ctx_Engine c) b j"
    using OpenSceneTurn_law [OF inv s(1) ok room] by blast
  obtain e2 where e2: "WriteSceneSlot a i ?s (ctx_Engine c) = (Inr (), e2)" "engine_rep e2 (m((a, i) \<mapsto> record_of marshal_scene RecL2Scene ?s))"
    using scene.writeJSON_law [OF rep ok kinds_distinct(8) room] unfolding WriteSceneSlot_def by blast
  have "e2 = e'" using e'(1) e2(1) s(1) by (simp add: OpenSceneTurn_def opened_turn_def Let_def)
  then have rep': "engine_rep e' (m((a, i) \<mapsto> record_of marshal_scene RecL2Scene ?s))" using e2(2) by simp
  have prof: "ReadProfile dec blank H e' a = Inr p"
  proof (cases "profile_id H = i")
    case True
    have "m (a, i) \<noteq> Some (RecL0Profile, d)" for d
      using typed_kind [of unmarshal_scene m a RecL2Scene i s] s(1) unfolding typed_reads(2) [OF rep] by (auto simp: RecL2Scene_def RecL0Profile_def)
    then have "p = blank" using no_profile_blank [OF rep, of a H dec blank] profile True by simp
    moreover have "ReadProfile dec blank H e' a = Inr blank"
      using True by (intro no_profile_blank [OF rep']) (simp add: record_of_def RecL2Scene_def RecL0Profile_def)
    ultimately show ?thesis by simp
  next
    case False
    then have "readJSON dec e' a (profile_id H) RecL0Profile = readJSON dec (ctx_Engine c) a (profile_id H) RecL0Profile"
      using e'(5) [of a "profile_id H"] by (simp add: readJSON_def)
    then show ?thesis using profile by (simp add: ReadProfile_def GetProfileL0_def)
  qed
  have same: "ReadTopicSlot e' a j = Inr t \<longleftrightarrow> ReadTopicSlot (ctx_Engine c) a j = Inr t" for j t
    using scene_put(1) [OF rep own_kind_scene [OF rep s(1)] rep'] .
  obtain ts where ts: "SurfaceTopics (c\<lparr>ctx_Engine := e'\<rparr>) i = Some ts"
    "set ts = {t. (\<exists>j. ReadTopicSlot e' a j = Inr t) \<and> ts_SceneID t = i \<and> ts_Depth t = 1}"
    using SurfaceTopics_law [OF domain_invD(2) [OF e'(3)], of i] by auto
  have id: "ss_SceneID ?s = i" "ss_TurnSeq ?s = ss_TurnSeq s + 1" using s(2) by (simp_all add: opened_turn_def)
  let ?r = "\<lparr>sr_Profile = p, sr_Scene = ?s, sr_Topics = drop (omitted limit ts) ts, sr_OmittedTopicCount = omitted limit ts,
    sr_NewTopicID = ComputeTurnTopicID H i (ss_TurnSeq s + 1)\<rparr>"
  let ?c = "c\<lparr>ctx_Engine := e', ctx_Scene := i, ctx_Turn := ComputeTurnTopicID H i (ss_TurnSeq s + 1)\<rparr>"
  have run: "open_turn dec blank H limit a i stamp c = Some (Inr ?r, ?c)"
    using turn by (simp add: open_turn_def e'(1) prof id ts(1) Let_def)
  have "domain_inv H a ?c" using e'(3) by (simp add: domain_inv_def)
  moreover have "ReadSceneSlot e' a i = Inr ?s" using e'(4) by simp
  moreover have "limit \<le> 0 \<Longrightarrow> set (sr_Topics ?r) = {t. (\<exists>j. ReadTopicSlot (ctx_Engine c) a j = Inr t) \<and> ts_SceneID t = i \<and> ts_Depth t = 1}"
    using ts(2) same by (simp add: omitted_def)
  ultimately show ?thesis using run e'(2,5) by (intro exI [of _ ?r] exI [of _ ?c]) simp
qed

text \<open>
  C34. A search leaves a turn that can be settled: opening a turn in a scene of a domain whose profile
  reads (whatever it holds, and also when there is none) succeeds, stores the scene with its counter moved
  on and no other record, answers the profile, shows the scene's surface topics, and leaves the domain with
  an open turn that the settle check of the closing call accepts.
\<close>

theorem opened_turn_can_settle:
  assumes "domain_inv H a c" "ReadSceneSlot (ctx_Engine c) a i = Inr s" "ss_SceneID s = i"
    "scene_ok (opened_turn stamp s)" "size_of marshal_scene (opened_turn stamp s) < 2 ^ 32"
    "engine_room (ctx_Engine c) (RecordHeaderSize + size_of marshal_scene (opened_turn stamp s) + k)"
    "ReadProfile dec blank H (ctx_Engine c) a = Inr p"
    "ComputeTurnTopicID H i (ss_TurnSeq s + 1) \<noteq> 0" "ss_TurnSeq s + 2 \<noteq> 0" "ss_TurnSeq s + 1 \<noteq> 0"
  shows "\<exists>r c'. open_turn dec blank H limit a i stamp c = Some (Inr r, c') \<and> domain_inv H a c'
    \<and> ReadSceneSlot (ctx_Engine c') a (ctx_Scene c') = Inr (sr_Scene r) \<and> ss_TurnSeq (sr_Scene r) = ss_TurnSeq s + 1
    \<and> ctx_Turn c' = sr_NewTopicID r \<and> ctx_Turn c' \<noteq> 0 \<and> SettleTarget H (ctx_Scene c') (ctx_Turn c') (ss_TurnSeq (sr_Scene r)) = Some (Inr ())
    \<and> (limit \<le> 0 \<longrightarrow> set (sr_Topics r) = {t. (\<exists>j. ReadTopicSlot (ctx_Engine c) a j = Inr t) \<and> ts_SceneID t = i \<and> ts_Depth t = 1})
    \<and> sr_Profile r = p \<and> ctx_Scene c' = i \<and> sr_NewTopicID r = ComputeTurnTopicID H i (ss_TurnSeq s + 1)
    \<and> (\<forall>b j. (b, j) \<noteq> (a, i) \<longrightarrow> ReadRecord (ctx_Engine c') b j = ReadRecord (ctx_Engine c) b j)"
proof -
  let ?q = "ss_TurnSeq s + 1"
  obtain r c' where r: "open_turn dec blank H limit a i stamp c = Some (Inr r, c')" "domain_inv H a c'"
    "sr_Scene r = opened_turn stamp s" "ReadSceneSlot (ctx_Engine c') a i = Inr (opened_turn stamp s)"
    "sr_NewTopicID r = ComputeTurnTopicID H i ?q" "ctx_Scene c' = i" "ctx_Turn c' = sr_NewTopicID r"
    "limit \<le> 0 \<longrightarrow> set (sr_Topics r) = {t. (\<exists>j. ReadTopicSlot (ctx_Engine c) a j = Inr t) \<and> ts_SceneID t = i \<and> ts_Depth t = 1}"
    "sr_Profile r = p" "\<forall>b j. (b, j) \<noteq> (a, i) \<longrightarrow> ReadRecord (ctx_Engine c') b j = ReadRecord (ctx_Engine c) b j"
    using open_turn_law [OF assms(1-8), where limit = limit] by blast
  have "?q + 1 \<noteq> 0" using assms(9) by (simp add: add.assoc)
  then have q: "?q \<noteq> -1" by (metis add.left_inverse add.commute)
  moreover have "1 \<le> ?q" using assms(10) by (simp add: word_le_nat_alt word_less_nat_alt unat_gt_0 Suc_leI flip: word_neq_0_conv)
  ultimately have "SettleTarget H i (ComputeTurnTopicID H i ?q) ?q = Some (Inr ())"
    unfolding SettleTarget_law [OF q] by auto
  moreover have "ss_TurnSeq (sr_Scene r) = ?q" by (simp add: r(3) opened_turn_def)
  ultimately show ?thesis using r assms(8) by (intro exI [of _ r] exI [of _ c']) simp
qed

text \<open>The sample domain with a profile record in it, under a hash that keeps it apart from the topics.\<close>

definition profile_hash :: "string \<Rightarrow> u64" where
  "profile_hash s = (if s = ''profile'' then 40 else sample_hash s)"

lemma profile_keys: "HashContent profile_hash 9 1 = 5" "HashPlanNode profile_hash 9 1 = 6" "ComputeTurnTopicID profile_hash 7 1 = 9"
  "ComputeTurnTopicID profile_hash 7 2 = 9" "profile_id profile_hash = 40"
  by code_simp+

lemma profile_domain:
  "\<exists>e. sample_read e \<and> domain_inv profile_hash 1 (NewContext 1 e) \<and> engine_room e (2 ^ 59)
    \<and> ReadProfile (\<lambda>_. Inr True) False profile_hash e 1 = Inr True"
proof -
  obtain e0 where e0: "engine_rep e0 sample_store" "sample_read e0" "engine_room e0 (2 ^ 60)" using sample_domain by blast
  let ?r = "\<lparr>r_agent = 1, r_type = RecL0Profile, r_id = 40, r_data = []\<rparr>" and ?m = "sample_store((1, 40) \<mapsto> (RecL0Profile, []))"
  have ok: "entry_ok ?r" by (simp add: entry_ok_def frame_ok_def frame_of_def RecL0Profile_def blank_head_def)
  have "engine_room e0 (batch_size [?r] + 2 ^ 59)" using e0(3) by (simp add: engine_room_def RecordHeaderSize_def)
  then obtain e where e: "engine_rep e ?m" "engine_room e (2 ^ 59)"
    using eng.write_law [OF e0(1), of "[?r]" "2 ^ 59"] ok by (auto simp: put_entry_def)
  have other: "typed_at u ?m 1 rt i = typed_at u sample_store 1 rt i" if "rt \<noteq> RecL0Profile" for u rt i
    using that by (simp add: typed_at_def sample_at)
  have kinds: "RecL2Topic \<noteq> RecL0Profile" "RecL2Scene \<noteq> RecL0Profile" "RecL4Archive \<noteq> RecL0Profile" "RecL5PlanNode \<noteq> RecL0Profile"
    by (simp_all add: RecL2Topic_def RecL2Scene_def RecL4Archive_def RecL5PlanNode_def RecL0Profile_def)
  have read: "sample_read e"
    using e0(2) unfolding sample_read_def typed_reads [OF e(1)] typed_reads [OF e0(1)] other [OF kinds(1)] other [OF kinds(2)]
      other [OF kinds(3)] other [OF kinds(4)] .
  have "l2_addressed e 1" "l4_addressed profile_hash e 1" "plan_addressed profile_hash e 1"
    unfolding l2_addressed_def l4_addressed_def plan_addressed_def sample_readD [OF read]
    by (auto simp: sample_topic_def sample_archive_def sample_node_def profile_keys)
  then have "domain_inv profile_hash 1 (NewContext 1 e)" using NewContext_inv [OF e(1)] by blast
  moreover have "ReadProfile (\<lambda>_. Inr True) False profile_hash e 1 = Inr True"
    using eng.read_law [OF e(1), of 1 40] by (simp add: ReadProfile_def GetProfileL0_def readJSON_def profile_keys)
  ultimately show ?thesis using read e(2) by blast
qed

lemma opened_turn_can_settle_witness:
  "\<exists>c r c'. open_turn (\<lambda>_. Inr True) False profile_hash 0 1 7 2000 c = Some (Inr r, c') \<and> ctx_Turn c' = 9 \<and> sr_Profile r
    \<and> SettleTarget profile_hash 7 (ctx_Turn c') 2 = Some (Inr ()) \<and> set (sr_Topics r) = {sample_topic 9 None 1}"
proof -
  obtain e where e: "sample_read e" "domain_inv profile_hash 1 (NewContext 1 e)" "engine_room e (2 ^ 59)"
    "ReadProfile (\<lambda>_. Inr True) False profile_hash e 1 = Inr True" using profile_domain by blast
  let ?c = "NewContext 1 e" and ?s = "opened_turn 2000 sample_scene"
  have c: "ctx_Engine ?c = e" by (simp add: NewContext_def)
  note r = sample_readD [OF e(1)]
  have s: "ReadSceneSlot (ctx_Engine ?c) 1 7 = Inr sample_scene" "ss_SceneID sample_scene = 7" "ss_TurnSeq sample_scene = 1"
    unfolding c r by (simp_all add: sample_scene_def)
  have ok: "scene_ok ?s" using sample_ok(1) by (simp add: scene_ok_def opened_turn_def i64_ok_def)
  have "size_of marshal_scene ?s \<le> 524" using scene_size [OF ok] by (simp add: opened_turn_def sample_scene_def)
  then have size: "size_of marshal_scene ?s < 2 ^ 32" "engine_room (ctx_Engine ?c) (RecordHeaderSize + size_of marshal_scene ?s + 0)"
    using e(3) by (simp_all add: c engine_room_def RecordHeaderSize_def)
  have p: "ReadProfile (\<lambda>_. Inr True) False profile_hash (ctx_Engine ?c) 1 = Inr True" using e(4) by (simp add: c)
  have t: "ComputeTurnTopicID profile_hash 7 (ss_TurnSeq sample_scene + 1) \<noteq> 0" "ss_TurnSeq sample_scene + 2 \<noteq> 0" "ss_TurnSeq sample_scene + 1 \<noteq> 0"
    by (simp_all add: s(3) profile_keys)
  from opened_turn_can_settle [OF e(2) s(1,2) ok size p t, where limit = 0]
  obtain x c' where x: "open_turn (\<lambda>_. Inr True) False profile_hash 0 1 7 2000 ?c = Some (Inr x, c')" "ctx_Turn c' = sr_NewTopicID x"
    "SettleTarget profile_hash (ctx_Scene c') (ctx_Turn c') (ss_TurnSeq (sr_Scene x)) = Some (Inr ())"
    "ss_TurnSeq (sr_Scene x) = ss_TurnSeq sample_scene + 1" "sr_Profile x = True"
    "(0 :: int) \<le> 0 \<longrightarrow> set (sr_Topics x) = {t. (\<exists>j. ReadTopicSlot (ctx_Engine ?c) 1 j = Inr t) \<and> ts_SceneID t = 7 \<and> ts_Depth t = 1}"
    "ctx_Scene c' = 7" "sr_NewTopicID x = ComputeTurnTopicID profile_hash 7 (ss_TurnSeq sample_scene + 1)"
    by blast
  have run: "ctx_Scene c' = 7" "ctx_Turn c' = 9" using x(2,7,8) by (simp_all add: s(3) profile_keys)
  moreover have "set (sr_Topics x) = {sample_topic 9 None 1}" unfolding x(6) [rule_format, OF order_refl] c r by (auto simp: sample_topic_def)
  moreover have "SettleTarget profile_hash 7 (ctx_Turn c') 2 = Some (Inr ())" using x(3,4) run(1) by (simp add: s(3))
  ultimately show ?thesis using x(1,5) by (intro exI conjI) (assumption | simp)+
qed

lemma first_and_last_utterance:
  assumes "us \<noteq> []"
  shows "as_CreatedAt (MinFunc byCreatedAt us) = Min (as_CreatedAt ` set us)" "as_CreatedAt (MaxFunc byCreatedAt us) = Max (as_CreatedAt ` set us)"
proof -
  obtain z ys where us: "us = z # ys" using assms by (cases us) auto
  have "as_CreatedAt (fold (\<lambda>x m. if byCreatedAt x m < 0 then x else m) ys z) = fold min (map as_CreatedAt ys) (as_CreatedAt z)" for z
    by (induction ys arbitrary: z) (auto simp: byCreatedAt_def cmp_def min_def)
  then show "as_CreatedAt (MinFunc byCreatedAt us) = Min (as_CreatedAt ` set us)"
    using Min.set_eq_fold [of "as_CreatedAt z" "map as_CreatedAt ys"] by (simp add: us MinFunc_def)
  have "as_CreatedAt (fold (\<lambda>x m. if byCreatedAt x m > 0 then x else m) ys z) = fold max (map as_CreatedAt ys) (as_CreatedAt z)" for z
    by (induction ys arbitrary: z) (auto simp: byCreatedAt_def cmp_def max_def)
  then show "as_CreatedAt (MaxFunc byCreatedAt us) = Max (as_CreatedAt ` set us)"
    using Max.set_eq_fold [of "as_CreatedAt z" "map as_CreatedAt ys"] by (simp add: us MaxFunc_def)
qed

text \<open>
  C35. Closing a turn distils it: when the turn belongs to the scene, has utterances and yields keywords,
  the settle step stores the turn's topic with those keywords and the times of its first and last
  utterance, leaves every other record alone, keeps the caches in step, and asks for a Dream exactly when
  the scene's surface has outgrown its limit. A topic stored before keeps its name, its depth and its
  parent: settling a turn that a Dream has sunk under a fused parent leaves it sunk there, as
  \<^verbatim>\<open>CreateTurnTopicL2\<close> says, although the comment on \<^verbatim>\<open>SettleTarget\<close> (\<^verbatim>\<open>internal/turn/turn.go\<close>) calls the
  un-sinking of such a turn the job of the settle write. A topic settled first stands on the surface.
\<close>

theorem settle_stores_topic:
  assumes "domain_inv H a c" "ReadSceneSlot (ctx_Engine c) a sc = Inr s" "SettleTarget H sc t (ss_TurnSeq s) = Some (Inr ())"
    "Read a c t KindUtterance = Inr us" "us \<noteq> []" "extract (RenderForDistill us) = Inr kws" "kws \<noteq> []"
    "case stored of Some old \<Rightarrow> ReadTopicSlot (ctx_Engine c) a t = Inr old | None \<Rightarrow> ReadRecord (ctx_Engine c) a t = Inl (NewError ErrNotFound)"
    "topic = settled sc t kws (Min (as_CreatedAt ` set us)) (Max (as_CreatedAt ` set us)) stored" "topics_fit a [topic] (ctx_Engine c) k"
  shows "\<exists>dream c' surface. settleLocked H extract limit a sc t c = Some (Inr (topic, dream), c') \<and> domain_inv H a c' \<and> engine_room (ctx_Engine c') k
    \<and> (\<forall>i u. ReadTopicSlot (ctx_Engine c') a i = Inr u \<longleftrightarrow> (if i = t then u = topic else ReadTopicSlot (ctx_Engine c) a i = Inr u))
    \<and> SurfaceTopics c' sc = Some surface \<and> (dream \<longleftrightarrow> 0 < limit \<and> limit < int (length surface))
    \<and> (\<forall>b i. (b, i) \<noteq> (a, t) \<longrightarrow> ReadRecord (ctx_Engine c') b i = ReadRecord (ctx_Engine c) b i)
    \<and> (case stored of Some old \<Rightarrow> ts_Name topic = ts_Name old \<and> ts_Depth topic = ts_Depth old \<and> ts_ParentID topic = ts_ParentID old
        | None \<Rightarrow> ts_Name topic = '''' \<and> ts_Depth topic = 1 \<and> ts_ParentID topic = None)"
proof -
  obtain e' where e': "CreateTurnTopicL2 a sc t kws (as_CreatedAt (MinFunc byCreatedAt us)) (as_CreatedAt (MaxFunc byCreatedAt us)) (ctx_Engine c) = (Inr topic, e')"
    "engine_room e' k" "domain_inv H a (SyncL2Meta topic (c\<lparr>ctx_Engine := e'\<rparr>))"
    "\<And>i u. ReadTopicSlot e' a i = Inr u \<longleftrightarrow> (if i = t then u = topic else ReadTopicSlot (ctx_Engine c) a i = Inr u)"
    "\<forall>b i. (b, i) \<noteq> (a, t) \<longrightarrow> ReadRecord e' b i = ReadRecord (ctx_Engine c) b i"
    using CreateTurnTopicL2_law [OF assms(1,8) assms(10) [unfolded assms(9)]] unfolding first_and_last_utterance [OF assms(5)] assms(9) [symmetric] by blast
  let ?c = "SyncL2Meta topic (c\<lparr>ctx_Engine := e'\<rparr>)"
  have eng: "ctx_Engine ?c = e'" by (simp add: SyncL2Meta_def)
  obtain surface where sf: "SurfaceTopics ?c sc = Some surface" using SurfaceTopics_law [OF domain_invD(2) [OF e'(3)]] by blast
  have "consolidateScene limit sc ?c = Some (0 < limit \<and> limit < int (length surface))"
    using sf by (auto simp: consolidateScene_def)
  then have "settleLocked H extract limit a sc t c = Some (Inr (topic, 0 < limit \<and> limit < int (length surface)), ?c)"
    using assms(2-7) e'(1) by (simp add: settleLocked_def settle_topic_def Let_def)
  moreover have "case stored of Some old \<Rightarrow> ts_Name topic = ts_Name old \<and> ts_Depth topic = ts_Depth old \<and> ts_ParentID topic = ts_ParentID old
      | None \<Rightarrow> ts_Name topic = '''' \<and> ts_Depth topic = 1 \<and> ts_ParentID topic = None"
    by (simp add: assms(9) settled_def turn_topic_def split: option.splits)
  ultimately show ?thesis using e'(2-5) sf eng by (intro exI conjI) auto
qed

lemma settle_stores_topic_witness:
  "\<exists>c topic c'. settleLocked sample_hash (\<lambda>_. Inr [''tea'']) 0 1 7 9 c = Some (Inr (topic, False), c')
    \<and> topic = sample_topic 9 None 1\<lparr>ts_AgentTimestamp := 1000\<rparr>"
proof -
  obtain e where e: "engine_rep e sample_store" "sample_read e" "domain_inv sample_hash 1 (NewContext 1 e)" "engine_room e (2 ^ 60)"
    using sample_domain by blast
  let ?c = "NewContext 1 e" and ?t = "sample_topic 9 None 1\<lparr>ts_AgentTimestamp := 1000\<rparr>"
  have c: "ctx_Engine ?c = e" by (simp add: NewContext_def)
  note r = sample_readD [OF e(2)]
  have s: "ReadSceneSlot (ctx_Engine ?c) 1 7 = Inr sample_scene" unfolding c r by simp
  have "ss_TurnSeq sample_scene \<noteq> -1" by (simp add: sample_scene_def)
  then have target: "SettleTarget sample_hash 7 9 (ss_TurnSeq sample_scene) = Some (Inr ())"
    unfolding SettleTarget_law [OF \<open>ss_TurnSeq sample_scene \<noteq> -1\<close>] by (auto simp: sample_keys sample_scene_def intro!: exI [of _ 1])
  have us: "Read 1 ?c 9 KindUtterance = Inr [sample_archive]"
  proof -
    have mir: "l4_mirrors sample_hash e 1 (ctx_L4 ?c)" using domain_invD(3) [OF e(3)] by (simp add: c)
    obtain xs where xs: "ReadArchivesByIDs e 1 (l4_ids (ctx_L4 ?c) 9 (Some KindUtterance)) = Inr xs" "sorted_wrt (\<lambda>x y. as_Seq x < as_Seq y) xs"
      "set xs = {x. (\<exists>i. ReadArchiveSlot e 1 i = Inr x) \<and> as_TopicID x = 9 \<and> as_Kind x = KindUtterance}"
      using ReadArchives_mirror [OF mir, of 9 "Some KindUtterance"] by auto
    have "set xs = {sample_archive}" unfolding xs(3) r by (auto simp: sample_archive_def)
    moreover have "distinct xs" using xs(2) by (induction xs) auto
    ultimately show ?thesis using xs(1) only_element by (simp add: Read_def IDs_def c)
  qed
  have old: "case Some (sample_topic 9 None 1) of Some old \<Rightarrow> ReadTopicSlot (ctx_Engine ?c) 1 9 = Inr old | None \<Rightarrow> ReadRecord (ctx_Engine ?c) 1 9 = Inl (NewError ErrNotFound)"
    unfolding c by (simp add: r)
  have t: "?t = settled 7 9 [''tea''] (Min (as_CreatedAt ` set [sample_archive])) (Max (as_CreatedAt ` set [sample_archive])) (Some (sample_topic 9 None 1))"
    by (simp add: settled_def turn_topic_def sample_topic_def sample_archive_def)
  have ok: "topic_ok ?t" using sample_ok(2) [of 9 None 1] by (simp add: topic_ok_def i64_ok_def)
  have "size_of marshal_topic ?t < 2000" using topic_size [OF ok] by (simp add: sample_topic_def)
  then have fit: "topics_fit 1 [?t] (ctx_Engine ?c) 5000"
    unfolding c by (intro sample_fit [OF e(1,4) _ ok]) (simp_all add: sample_topic_def)
  from settle_stores_topic [OF e(3) s target us _ _ _ old t fit, of "\<lambda>_. Inr [''tea'']" 0]
  obtain dream c' where "settleLocked sample_hash (\<lambda>_. Inr [''tea'']) 0 1 7 9 ?c = Some (Inr (?t, dream), c')" "dream \<longleftrightarrow> (0 :: int) < 0 \<and> True" by auto
  then show ?thesis by auto
qed

text \<open>
  The scene a search without a scene name resumes is the one used last: among all readable scenes
  none was used later, equal times fall to the higher turn counter and then to the smaller id, and the
  answer 0 means there is no scene.
\<close>

theorem CurrentScene_is_last_used:
  assumes "engine_rep e m" "CurrentScene e a = Inr i"
  shows "(i = 0 \<and> (\<forall>j s. ReadSceneSlot e a j \<noteq> Inr s)) \<or> (\<exists>s. ss_SceneID s = i \<and> (\<exists>j. ReadSceneSlot e a j = Inr s)
    \<and> (\<forall>j s'. ReadSceneSlot e a j = Inr s' \<longrightarrow> ss_LastUsedAt s' < ss_LastUsedAt s \<or> ss_LastUsedAt s' = ss_LastUsedAt s
        \<and> (ss_TurnSeq s' < ss_TurnSeq s \<or> ss_TurnSeq s' = ss_TurnSeq s \<and> ss_SceneID s \<le> ss_SceneID s')))"
  using CurrentScene_law [OF assms] unfolding resumed_over_def .

lemma CurrentScene_is_last_used_witness:
  "\<exists>e. CurrentScene e 1 = Inr 7 \<and> (\<exists>j s. ReadSceneSlot e 1 j = Inr s \<and> ss_SceneID s = 7)"
proof -
  obtain e where e: "engine_rep e sample_store" "sample_read e" using sample_domain by blast
  have "CurrentScene e 1 = Inr 7"
    by (simp add: CurrentScene_def sample_scans(3) [OF e(1)] MaxFunc_def) (simp add: sample_scene_def)
  moreover from CurrentScene_is_last_used [OF e(1) this] have "\<exists>j s. ReadSceneSlot e 1 j = Inr s \<and> ss_SceneID s = 7" by auto
  ultimately show ?thesis by blast
qed

end
