(* ===== verification/Graph.thy ===== *)
theory Graph
  imports Db
begin

text \<open>
  \<^verbatim>\<open>internal/graph\<close> and \<^verbatim>\<open>internal/cap/knowledge\<close>, and the graph operations of \<^verbatim>\<open>l3.go\<close> and \<^verbatim>\<open>l3query.go\<close>: batch import with its
  merge policies, the node query and the bounded walk over the hyperedges. The sets and maps of an import
  batch are lists and association lists; \<^verbatim>\<open>strings.ToLower\<close> is the argument \<open>lower\<close>; the batch's report counts
  its error lines instead of spelling them. A Go map's iteration order is open: where the source ranges
  over one it sorts, or the result is a set.
\<close>

section \<open>Merging an imported node\<close>

definition mergeContent :: "string \<Rightarrow> string \<Rightarrow> string" where
  "mergeContent oldContent newContent =
     (if newContent = '''' then oldContent
      else if oldContent = '''' then newContent
      else if oldContent = newContent \<or> str_contains oldContent newContent then oldContent
      else if str_contains newContent oldContent then newContent
      else oldContent @ [CHR 0x0A] @ newContent)"

type_synonym mergeFn = "string \<Rightarrow> string \<Rightarrow> string list \<Rightarrow> string \<Rightarrow> i64 \<Rightarrow> HypergraphNode \<Rightarrow> HypergraphNode"

definition MergeFields :: mergeFn where
  "MergeFields nodeType content keywords sourceRef now node =
     node\<lparr>hn_NodeType := (if nodeType \<noteq> '''' then nodeType else hn_NodeType node),
       hn_Content := mergeContent (hn_Content node) content,
       hn_Keywords := Union (hn_Keywords node) keywords,
       hn_SourceRef := (if sourceRef \<noteq> '''' then Some sourceRef else hn_SourceRef node),
       hn_UpdatedAt := now\<rparr>"

definition OverwriteFields :: mergeFn where
  "OverwriteFields nodeType content keywords sourceRef now node =
     node\<lparr>hn_NodeType := nodeType, hn_Content := content, hn_Keywords := keywords,
       hn_SourceRef := (if sourceRef \<noteq> '''' then Some sourceRef else None), hn_UpdatedAt := now\<rparr>"

definition L3ImportSkip :: string where "L3ImportSkip = ''skip''"
definition L3ImportMerge :: string where "L3ImportMerge = ''merge''"
definition L3ImportOverwrite :: string where "L3ImportOverwrite = ''overwrite''"

definition ImportMode_Valid :: "string \<Rightarrow> bool" where
  "ImportMode_Valid m \<longleftrightarrow> m = L3ImportSkip \<or> m = L3ImportMerge \<or> m = L3ImportOverwrite"

definition mergePolicy :: "string \<Rightarrow> goerr + mergeFn option" where
  "mergePolicy mode = (if \<not> ImportMode_Valid mode then Inl (NewError ErrInvalidQuery)
     else if mode = L3ImportMerge then Inr (Some MergeFields)
     else if mode = L3ImportOverwrite then Inr (Some OverwriteFields) else Inr None)"

section \<open>The import batch\<close>

record L3Relation =
  rl_Titles :: "string list"
  rl_Kind :: byte

record L3ImportItem =
  im_Title :: string
  im_Domain :: string
  im_NodeType :: string
  im_Content :: string
  im_Keywords :: "string list"
  im_SourceRef :: string
  im_Related :: "L3Relation list"

record L3ImportResult =
  ir_GraphIDs :: "string list"
  ir_CreatedIDs :: "string list"
  ir_UpdatedIDs :: "string list"
  ir_SkippedCount :: nat
  ir_EdgesCreated :: nat
  ir_Errors :: nat

record ImportBatch =
  ib_engine :: StorageEngine
  ib_merge :: "mergeFn option"
  ib_result :: L3ImportResult
  ib_graphIDs :: "(string, u64) gomap"
  ib_touched :: "u64 list"
  ib_changed :: "u64 list"
  ib_nodeTitles :: "(u64, string list) gomap"
  ib_edgeKeys :: "(u64, string list) gomap"

definition preferGraphID :: "(string \<Rightarrow> u64) \<Rightarrow> string \<Rightarrow> u64 \<Rightarrow> u64 \<Rightarrow> bool" where
  "preferGraphID H name cur nxt = (let derived = H name in
     if (nxt = derived) \<noteq> (cur = derived) then nxt = derived else nxt < cur)"

definition names_of :: "(u64, string list) gomap \<Rightarrow> u64 \<Rightarrow> string list" where
  "names_of sets g = (case map_of sets g of None \<Rightarrow> [] | Some s \<Rightarrow> s)"

definition add_name :: "u64 \<Rightarrow> string \<Rightarrow> (u64, string list) gomap \<Rightarrow> (u64, string list) gomap" where
  "add_name g n sets = AList.update g (List.insert n (names_of sets g)) sets"

definition seed_graph :: "(string \<Rightarrow> u64) \<Rightarrow> HypergraphSlot \<Rightarrow> (string, u64) gomap \<Rightarrow> (string, u64) gomap" where
  "seed_graph H g ids = (case map_of ids (hs_Name g) of None \<Rightarrow> AList.update (hs_Name g) (hs_IDHash g) ids
     | Some cur \<Rightarrow> if preferGraphID H (hs_Name g) cur (hs_IDHash g) then AList.update (hs_Name g) (hs_IDHash g) ids else ids)"

definition loadContents :: "u64 \<Rightarrow> ImportBatch \<Rightarrow> goerr + ImportBatch" where
  "loadContents agentID b = (case CollectAllStrict unmarshal_graph_node (ib_engine b) agentID RecL3GraphNode of Inl err \<Rightarrow> Inl err
     | Inr nodes \<Rightarrow> (case CollectAllStrict unmarshal_graph_edge (ib_engine b) agentID RecL3GraphEdge of Inl err \<Rightarrow> Inl err
       | Inr edges \<Rightarrow> Inr (b\<lparr>ib_nodeTitles := fold (\<lambda>n. add_name (hn_GraphID n) (hn_Title n)) nodes (ib_nodeTitles b),
           ib_edgeKeys := fold (\<lambda>e. add_name (he_GraphID e) (EdgeKeyL3 (sort (he_NodeIDs e)) (he_Kind e))) edges (ib_edgeKeys b)\<rparr>)))"

definition NewImportBatch :: "(string \<Rightarrow> u64) \<Rightarrow> StorageEngine \<Rightarrow> u64 \<Rightarrow> string \<Rightarrow> goerr + ImportBatch" where
  "NewImportBatch H engine agentID mode = (case mergePolicy mode of Inl err \<Rightarrow> Inl err
     | Inr merge \<Rightarrow> (case CollectAllGraphSlots engine agentID of Inl err \<Rightarrow> Inl err
       | Inr graphs \<Rightarrow> loadContents agentID
           \<lparr>ib_engine = engine, ib_merge = merge,
            ib_result = \<lparr>ir_GraphIDs = [], ir_CreatedIDs = [], ir_UpdatedIDs = [], ir_SkippedCount = 0, ir_EdgesCreated = 0, ir_Errors = 0\<rparr>,
            ib_graphIDs = fold (seed_graph H) graphs [], ib_touched = [], ib_changed = [], ib_nodeTitles = [], ib_edgeKeys = []\<rparr>))"

definition graphFor :: "(string \<Rightarrow> u64) \<Rightarrow> i64 \<Rightarrow> u64 \<Rightarrow> string \<Rightarrow> ImportBatch \<Rightarrow> (goerr + u64) \<times> ImportBatch" where
  "graphFor H now agentID domain b = (case map_of (ib_graphIDs b) domain of
     Some g \<Rightarrow> (Inr g, b\<lparr>ib_touched := List.insert g (ib_touched b)\<rparr>)
   | None \<Rightarrow> (case EnsureGraphL3 H now agentID domain (ib_engine b) of
       (Inl err, engine) \<Rightarrow> (Inl err, b\<lparr>ib_engine := engine\<rparr>)
     | (Inr g, engine) \<Rightarrow> (Inr g, b\<lparr>ib_engine := engine, ib_graphIDs := AList.update domain g (ib_graphIDs b),
           ib_touched := List.insert g (ib_touched b)\<rparr>)))"

definition mutateNode :: "(string \<Rightarrow> u64) \<Rightarrow> i64 \<Rightarrow> u64 \<Rightarrow> u64 \<Rightarrow> L3ImportItem \<Rightarrow> mergeFn \<Rightarrow> ImportBatch \<Rightarrow> (goerr + u64) \<times> ImportBatch" where
  "mutateNode H now agentID graphID item merge b =
     (case MutateNodeL3 H agentID graphID (im_Title item) (merge (im_NodeType item) (im_Content item) (im_Keywords item) (im_SourceRef item) now) (ib_engine b) of
        (r, engine) \<Rightarrow> (r, b\<lparr>ib_engine := engine\<rparr>))"

definition ImportNode :: "(string \<Rightarrow> u64) \<Rightarrow> i64 \<Rightarrow> u64 \<Rightarrow> L3ImportItem \<Rightarrow> ImportBatch \<Rightarrow> (goerr + unit) \<times> ImportBatch" where
  "ImportNode H now agentID item b = (case graphFor H now agentID (im_Domain item) b of (Inl err, b) \<Rightarrow> (Inl err, b)
     | (Inr g, b) \<Rightarrow>
         if im_Title item \<in> set (names_of (ib_nodeTitles b) g)
         then (case ib_merge b of
             None \<Rightarrow> (Inr (), b\<lparr>ib_result := (ib_result b)\<lparr>ir_SkippedCount := ir_SkippedCount (ib_result b) + 1\<rparr>\<rparr>)
           | Some merge \<Rightarrow> (case mutateNode H now agentID g item merge b of (Inl err, b) \<Rightarrow> (Inl err, b)
               | (Inr i, b) \<Rightarrow> (Inr (), b\<lparr>ib_changed := List.insert g (ib_changed b),
                   ib_result := (ib_result b)\<lparr>ir_UpdatedIDs := ir_UpdatedIDs (ib_result b) @ [FormatHash i]\<rparr>\<rparr>)))
         else (case CreateNodeL3 H now agentID g (im_Title item) (im_NodeType item) (im_Content item) (im_Keywords item) (im_SourceRef item) (ib_engine b) of
             (Inl err, engine) \<Rightarrow> (Inl err, b\<lparr>ib_engine := engine\<rparr>)
           | (Inr i, engine) \<Rightarrow> (Inr (), b\<lparr>ib_engine := engine, ib_nodeTitles := add_name g (im_Title item) (ib_nodeTitles b),
               ib_changed := List.insert g (ib_changed b),
               ib_result := (ib_result b)\<lparr>ir_CreatedIDs := ir_CreatedIDs (ib_result b) @ [FormatHash i]\<rparr>\<rparr>)))"

text \<open>The far side of a relation, one title after the other; \<open>None\<close> is a relation that names no valid edge.\<close>

fun far_members :: "(string \<Rightarrow> u64) \<Rightarrow> u64 \<Rightarrow> string \<Rightarrow> string list \<Rightarrow> string list \<Rightarrow> string list \<Rightarrow> u64 list option" where
  "far_members H graphID source titles seen [] = Some []"
| "far_members H graphID source titles seen (target # targets) =
     (if target = '''' \<or> target = source \<or> target \<in> set seen \<or> target \<notin> set titles then None
      else map_option (\<lambda>ms. NodeIDL3 H graphID target # ms) (far_members H graphID source titles (target # seen) targets))"

definition relationMembers :: "(string \<Rightarrow> u64) \<Rightarrow> u64 \<Rightarrow> string \<Rightarrow> L3Relation \<Rightarrow> string list \<Rightarrow> u64 list option" where
  "relationMembers H graphID source rel titles =
     (if \<not> GraphEdgeKind_Valid (rl_Kind rel) \<or> length (rl_Titles rel) = 0 then None
      else map_option (\<lambda>ms. sort (NodeIDL3 H graphID source # ms)) (far_members H graphID source titles [source] (rl_Titles rel)))"

definition import_relation :: "(string \<Rightarrow> u64) \<Rightarrow> i64 \<Rightarrow> u64 \<Rightarrow> u64 \<Rightarrow> string \<Rightarrow> L3Relation \<Rightarrow> ImportBatch \<Rightarrow> ImportBatch" where
  "import_relation H now agentID g title rel b =
     (let fail = (\<lambda>b. b\<lparr>ib_result := (ib_result b)\<lparr>ir_Errors := ir_Errors (ib_result b) + 1\<rparr>\<rparr>)
      in case relationMembers H g title rel (names_of (ib_nodeTitles b) g) of None \<Rightarrow> fail b
         | Some members \<Rightarrow>
             let key = EdgeKeyL3 members (rl_Kind rel)
             in if key \<in> set (names_of (ib_edgeKeys b) g) then b
                else (case CreateEdgeL3 H now agentID g (rl_Kind rel) members (ib_engine b) of
                    (Inl err, engine) \<Rightarrow> fail (b\<lparr>ib_engine := engine\<rparr>)
                  | (Inr _, engine) \<Rightarrow> b\<lparr>ib_engine := engine, ib_edgeKeys := add_name g key (ib_edgeKeys b),
                      ib_changed := List.insert g (ib_changed b),
                      ib_result := (ib_result b)\<lparr>ir_EdgesCreated := ir_EdgesCreated (ib_result b) + 1\<rparr>\<rparr>))"

definition ImportRelations :: "(string \<Rightarrow> u64) \<Rightarrow> i64 \<Rightarrow> u64 \<Rightarrow> L3ImportItem \<Rightarrow> ImportBatch \<Rightarrow> ImportBatch" where
  "ImportRelations H now agentID item b = (case map_of (ib_graphIDs b) (im_Domain item) of None \<Rightarrow> b
     | Some g \<Rightarrow> fold (import_relation H now agentID g (im_Title item)) (im_Related item) b)"

fun stamp_graphs :: "i64 \<Rightarrow> u64 \<Rightarrow> u64 list \<Rightarrow> StorageEngine \<Rightarrow> goerr list \<times> StorageEngine" where
  "stamp_graphs now agentID [] engine = ([], engine)"
| "stamp_graphs now agentID (g # gs) engine = (case UpdateGraphL3 now agentID g None engine of
     (Inl err, engine) \<Rightarrow> (case stamp_graphs now agentID gs engine of (errs, engine) \<Rightarrow> (err # errs, engine))
   | (Inr _, engine) \<Rightarrow> stamp_graphs now agentID gs engine)"

definition StampChanged :: "i64 \<Rightarrow> u64 \<Rightarrow> ImportBatch \<Rightarrow> (goerr + unit) \<times> ImportBatch" where
  "StampChanged now agentID b = (case stamp_graphs now agentID (sort (ib_changed b)) (ib_engine b) of
     (errs, engine) \<Rightarrow> (join_errors errs, b\<lparr>ib_engine := engine\<rparr>))"

text \<open>\<^verbatim>\<open>slices.Sort\<close> on the hex forms of the graph ids: sixteen lower-case digits each, so their order is the ids'.\<close>

definition GraphIDs :: "ImportBatch \<Rightarrow> string list" where
  "GraphIDs b = map FormatHash (sort (ib_touched b))"

definition CheckRename :: "StorageEngine \<Rightarrow> u64 \<Rightarrow> u64 \<Rightarrow> string \<Rightarrow> goerr + bool" where
  "CheckRename engine agentID i name = (case CollectAllGraphSlots engine agentID of Inl err \<Rightarrow> Inl err
     | Inr graphs \<Rightarrow> if \<exists>g \<in> set graphs. hs_IDHash g \<noteq> i \<and> hs_Name g = name then Inl (NewError ErrInvalidQuery)
         else Inr (fold (\<lambda>g moves. if hs_IDHash g = i then hs_Name g \<noteq> name else moves) graphs False))"

end
