(* ===== verification/Graph_Query.thy ===== *)
theory Graph_Query
  imports Graph
begin

text \<open>
  \<^verbatim>\<open>internal/graph/query.go\<close>: the node filter, the adjacency the hyperedges induce and the level-by-level walk.
  The set the source ranges over per node is a list; what the walk answers is a set, so the order does
  not matter, and the last section shows that it is exactly what lies within the bound.
\<close>

record NodeFilter =
  nf_IDs :: "u64 list option"
  nf_Keyword :: string
  nf_NodeType :: string

definition matchesKeyword :: "(string \<Rightarrow> string) \<Rightarrow> HypergraphNode \<Rightarrow> string \<Rightarrow> bool" where
  "matchesKeyword lower n kw \<longleftrightarrow> str_contains (lower (hn_Title n)) kw \<or> str_contains (lower (hn_Content n)) kw
     \<or> list_ex (\<lambda>k. str_contains (lower k) kw) (hn_Keywords n)"

definition Filter_Matches :: "(string \<Rightarrow> string) \<Rightarrow> NodeFilter \<Rightarrow> HypergraphNode \<Rightarrow> bool" where
  "Filter_Matches lower f n \<longleftrightarrow> (case nf_IDs f of None \<Rightarrow> True | Some ids \<Rightarrow> hn_IDHash n \<in> set ids)
     \<and> \<not> (nf_NodeType f \<noteq> '''' \<and> hn_NodeType n \<noteq> nf_NodeType f)
     \<and> \<not> (nf_Keyword f \<noteq> '''' \<and> \<not> matchesKeyword lower n (nf_Keyword f))"

definition CheckSubgraphStart :: "StorageEngine \<Rightarrow> u64 \<Rightarrow> u64 \<Rightarrow> u64 \<Rightarrow> goerr + unit" where
  "CheckSubgraphStart engine agentID graphHash startHash = (case ReadHypergraphNode engine agentID startHash of
     Inl err \<Rightarrow> if CodeOf err \<noteq> ErrNotFound then Inl err else Inl (Error ErrNotFound (Some err))
   | Inr n \<Rightarrow> if hn_GraphID n \<noteq> graphHash then Inl (NewError ErrInvalidQuery) else Inr ())"

type_synonym adjacency = "(u64, u64 list) gomap"

definition nbs :: "adjacency \<Rightarrow> u64 \<Rightarrow> u64 list" where
  "nbs adj i = (case map_of adj i of None \<Rightarrow> [] | Some s \<Rightarrow> s)"

definition add_nb :: "u64 \<Rightarrow> u64 \<Rightarrow> adjacency \<Rightarrow> adjacency" where
  "add_nb i j adj = AList.update i (List.insert j (nbs adj i)) adj"

definition connect_pair :: "u64 \<Rightarrow> u64 \<Rightarrow> adjacency \<Rightarrow> adjacency" where
  "connect_pair i j adj = (if i = j then adj else add_nb j i (add_nb i j adj))"

fun connectNodes :: "u64 list \<Rightarrow> adjacency \<Rightarrow> adjacency" where
  "connectNodes [] adj = adj"
| "connectNodes (i # is) adj = connectNodes is (fold (connect_pair i) is adj)"

definition SubgraphAdjacency :: "StorageEngine \<Rightarrow> u64 \<Rightarrow> u64 \<Rightarrow> byte list \<Rightarrow> goerr + adjacency \<times> HypergraphEdge list" where
  "SubgraphAdjacency engine agentID graphID edgeKinds = (case ListEdgeL3 engine agentID graphID of Inl err \<Rightarrow> Inl err
     | Inr all \<Rightarrow> let edges = filter (\<lambda>e. \<not> (length edgeKinds > 0 \<and> he_Kind e \<notin> set edgeKinds)) all
         in Inr (fold (\<lambda>e. connectNodes (he_NodeIDs e)) edges [], edges))"

section \<open>The walk\<close>

fun visit_nbs :: "u64 list \<Rightarrow> u64 list \<times> u64 list \<Rightarrow> u64 list \<times> u64 list" where
  "visit_nbs [] s = s"
| "visit_nbs (nb # rest) (visited, nxt) = visit_nbs rest (if nb \<in> set visited then (visited, nxt) else (nb # visited, nxt @ [nb]))"

fun visit_level :: "adjacency \<Rightarrow> u64 list \<Rightarrow> u64 list \<times> u64 list \<Rightarrow> u64 list \<times> u64 list" where
  "visit_level adj [] s = s"
| "visit_level adj (cur # queue) s = visit_level adj queue (visit_nbs (nbs adj cur) s)"

lemma visit_nbs_law: "visit_nbs ns (visited, nxt) = (visited', nxt') \<Longrightarrow>
  set visited' = set visited \<union> set ns \<and> set nxt' = set nxt \<union> (set ns - set visited)"
proof (induction ns arbitrary: visited nxt)
  case (Cons n ns)
  show ?case
  proof (cases "n \<in> set visited")
    case True
    then show ?thesis using Cons.IH [of visited nxt] Cons.prems by auto
  next
    case False
    then show ?thesis using Cons.IH [of "n # visited" "nxt @ [n]"] Cons.prems by auto
  qed
qed simp

definition level_of :: "adjacency \<Rightarrow> u64 list \<Rightarrow> u64 set" where
  "level_of adj queue = (\<Union>cur \<in> set queue. set (nbs adj cur))"

lemma visit_level_law: "visit_level adj queue (visited, nxt) = (visited', nxt') \<Longrightarrow>
  set visited' = set visited \<union> level_of adj queue \<and> set nxt' = set nxt \<union> (level_of adj queue - set visited)"
proof (induction queue arbitrary: visited nxt)
  case (Cons cur queue)
  obtain v n where vn: "visit_nbs (nbs adj cur) (visited, nxt) = (v, n)" by (cases "visit_nbs (nbs adj cur) (visited, nxt)")
  have "visit_level adj queue (v, n) = (visited', nxt')" using Cons.prems by (simp add: vn)
  then show ?case using Cons.IH [of v n] visit_nbs_law [OF vn] by (auto simp: level_of_def)
qed (simp add: level_of_def)

definition all_nbs :: "adjacency \<Rightarrow> u64 set" where
  "all_nbs adj = (\<Union>(i, s) \<in> set adj. set s)"

lemma level_sub: "level_of adj queue \<subseteq> all_nbs adj" "finite (all_nbs adj)"
proof -
  show "finite (all_nbs adj)" by (auto simp: all_nbs_def)
  have "set (nbs adj i) \<subseteq> all_nbs adj" for i
    using map_of_SomeD [of adj i] by (cases "map_of adj i") (auto simp: nbs_def all_nbs_def)
  then show "level_of adj queue \<subseteq> all_nbs adj" by (auto simp: level_of_def)
qed

function bfs :: "adjacency \<Rightarrow> int \<Rightarrow> int \<Rightarrow> u64 list \<Rightarrow> u64 list \<Rightarrow> u64 list" where
  "bfs adj maxDepth depth visited queue =
     (if (maxDepth \<le> 0 \<or> depth < maxDepth) \<and> length queue > 0
      then case visit_level adj queue (visited, []) of (visited, nxt) \<Rightarrow> bfs adj maxDepth (depth + 1) visited nxt
      else visited)"
  by (pat_completeness, simp)
termination
proof (relation "measures [\<lambda>(adj, m, d, visited, queue). card (all_nbs adj - set visited), \<lambda>(adj, m, d, visited, queue). length queue]")
  fix adj :: adjacency and maxDepth depth :: int and visited queue :: "u64 list" and visited' nxt
  assume guard: "(maxDepth \<le> 0 \<or> depth < maxDepth) \<and> length queue > 0"
    and p: "(visited', nxt) = visit_level adj queue (visited, [])"
  have law: "set visited' = set visited \<union> level_of adj queue" "set nxt = level_of adj queue - set visited"
    using visit_level_law [of adj queue visited "[]" visited' nxt] p by auto
  show "((adj, maxDepth, depth + 1, visited', nxt), adj, maxDepth, depth, visited, queue)
      \<in> measures [\<lambda>(adj, m, d, visited, queue). card (all_nbs adj - set visited), \<lambda>(adj, m, d, visited, queue). length queue]"
  proof (cases "nxt = []")
    case True
    then have "set visited' = set visited" using law by auto
    then show ?thesis using True guard by simp
  next
    case False
    then obtain i where "i \<in> level_of adj queue" "i \<notin> set visited" using law(2) by (cases nxt) auto
    then have "all_nbs adj - set visited' \<subset> all_nbs adj - set visited" using law(1) level_sub(1) by blast
    then have "card (all_nbs adj - set visited') < card (all_nbs adj - set visited)"
      using level_sub(2) by (intro psubset_card_mono) auto
    then show ?thesis by simp
  qed
qed simp

declare bfs.simps [simp del]

definition BfsWithinDepth :: "u64 \<Rightarrow> adjacency \<Rightarrow> int \<Rightarrow> u64 list" where
  "BfsWithinDepth start adj maxDepth = bfs adj maxDepth 0 [start] [start]"

definition AllNodesVisited :: "u64 list \<Rightarrow> u64 list \<Rightarrow> bool" where
  "AllNodesVisited nodeIDs visited \<longleftrightarrow> list_all (\<lambda>i. i \<in> set visited) nodeIDs"

section \<open>What the walk reaches\<close>

definition adj_rel :: "adjacency \<Rightarrow> (u64 \<times> u64) set" where
  "adj_rel adj = {(i, j). j \<in> set (nbs adj i)}"

text \<open>What lies within \<open>n\<close> steps of \<open>start\<close>.\<close>

definition within :: "adjacency \<Rightarrow> u64 \<Rightarrow> nat \<Rightarrow> u64 set" where
  "within adj start n = {j. \<exists>k \<le> n. (start, j) \<in> adj_rel adj ^^ k}"

lemma within_0: "within adj start 0 = {start}"
  by (auto simp: within_def)

lemma within_Suc: "within adj start (Suc n) = within adj start n \<union> (\<Union>i \<in> within adj start n. set (nbs adj i))"
proof -
  have "j \<in> within adj start (Suc n) \<longleftrightarrow> j \<in> within adj start n \<or> (\<exists>i \<in> within adj start n. (i, j) \<in> adj_rel adj)" for j
  proof
    assume "j \<in> within adj start (Suc n)"
    then obtain k where k: "k \<le> Suc n" "(start, j) \<in> adj_rel adj ^^ k" by (auto simp: within_def)
    show "j \<in> within adj start n \<or> (\<exists>i \<in> within adj start n. (i, j) \<in> adj_rel adj)"
    proof (cases "k = Suc n")
      case True
      then obtain i where "(start, i) \<in> adj_rel adj ^^ n" "(i, j) \<in> adj_rel adj" using k(2) by auto
      then show ?thesis by (auto simp: within_def)
    next
      case False
      then show ?thesis using k by (auto simp: within_def)
    qed
  next
    assume "j \<in> within adj start n \<or> (\<exists>i \<in> within adj start n. (i, j) \<in> adj_rel adj)"
    then show "j \<in> within adj start (Suc n)"
    proof
      assume "j \<in> within adj start n"
      then show ?thesis using le_Suc_eq by (auto simp: within_def)
    next
      assume "\<exists>i \<in> within adj start n. (i, j) \<in> adj_rel adj"
      then obtain i k where "k \<le> n" "(start, i) \<in> adj_rel adj ^^ k" "(i, j) \<in> adj_rel adj" by (auto simp: within_def)
      then have "Suc k \<le> Suc n" "(start, j) \<in> adj_rel adj ^^ Suc k" by (auto intro: relcompI)
      then show ?thesis unfolding within_def by blast
    qed
  qed
  then show ?thesis by (auto simp: adj_rel_def)
qed

text \<open>The walk's invariant after \<open>d\<close> rounds: it has seen what lies within \<open>d\<close> steps, and the queue holds at
  least what the last round found.\<close>

definition bfs_inv :: "adjacency \<Rightarrow> u64 \<Rightarrow> nat \<Rightarrow> u64 list \<Rightarrow> u64 list \<Rightarrow> bool" where
  "bfs_inv adj start d visited queue \<longleftrightarrow> set visited = within adj start d
     \<and> within adj start (Suc d) = within adj start d \<union> level_of adj queue"

lemma bfs_inv_step:
  assumes "bfs_inv adj start d visited queue" "visit_level adj queue (visited, []) = (visited', nxt)"
  shows "bfs_inv adj start (Suc d) visited' nxt"
proof -
  let ?w = "within adj start" and ?next = "\<lambda>A. \<Union>i \<in> A. set (nbs adj i)"
  have law: "set visited' = set visited \<union> level_of adj queue" "set nxt = level_of adj queue - set visited"
    using visit_level_law [OF assms(2)] by auto
  have w: "set visited = ?w d" "?w (Suc d) = ?w d \<union> level_of adj queue"
    using assms(1) by (auto simp only: bfs_inv_def)
  have v: "set visited' = ?w (Suc d)" unfolding law(1) w ..
  have n: "?w (Suc d) = ?w d \<union> set nxt" unfolding law(2) w by blast
  have "?next (?w (Suc d)) = ?next (?w d) \<union> level_of adj nxt" unfolding n level_of_def by blast
  then have "?w (Suc (Suc d)) = ?w (Suc d) \<union> (?next (?w d) \<union> level_of adj nxt)" unfolding within_Suc [of adj start "Suc d"] by simp
  moreover have "?next (?w d) \<subseteq> ?w (Suc d)" unfolding within_Suc [of adj start d] by blast
  ultimately have "?w (Suc (Suc d)) = ?w (Suc d) \<union> level_of adj nxt" by blast
  with v show ?thesis unfolding bfs_inv_def by blast
qed

lemma within_stable: "within adj start (Suc d) = within adj start d \<Longrightarrow> within adj start (d + k) = within adj start d"
proof (induction k)
  case (Suc k)
  have "within adj start (Suc (d + k)) = within adj start (Suc d)"
    unfolding within_Suc [of adj start "d + k"] within_Suc [of adj start d] using Suc by simp
  then show ?case using Suc by simp
qed simp

lemma within_mono: "n \<le> n' \<Longrightarrow> within adj start n \<subseteq> within adj start n'"
  by (auto simp: within_def intro: le_trans)

lemma bfs_bounded:
  assumes "bfs_inv adj start (nat depth) visited queue" "0 \<le> depth" "0 < maxDepth" "depth \<le> maxDepth"
  shows "set (bfs adj maxDepth depth visited queue) = within adj start (nat maxDepth)"
  using assms
proof (induction adj maxDepth depth visited queue rule: bfs.induct)
  case (1 adj maxDepth depth visited queue)
  show ?case
  proof (cases "depth < maxDepth \<and> queue \<noteq> []")
    case True
    obtain v n where vn: "visit_level adj queue (visited, []) = (v, n)" by (cases "visit_level adj queue (visited, [])")
    have "bfs_inv adj start (nat (depth + 1)) v n"
      using bfs_inv_step [OF 1(2) vn] 1(3) by (simp add: nat_add_distrib)
    then have "set (bfs adj maxDepth (depth + 1) v n) = within adj start (nat maxDepth)"
      using 1(1) [OF _ vn [symmetric]] True 1(3-) by simp
    then show ?thesis using True 1(4) by (subst bfs.simps) (simp add: vn)
  next
    case False
    have res: "bfs adj maxDepth depth visited queue = visited" using False 1(4) by (subst bfs.simps) auto
    show ?thesis
    proof (cases "queue = []")
      case True
      then have "within adj start (Suc (nat depth)) = within adj start (nat depth)" using 1(2) by (simp add: bfs_inv_def level_of_def)
      then have "within adj start (nat depth + (nat maxDepth - nat depth)) = within adj start (nat depth)" by (rule within_stable)
      then show ?thesis using res 1(2,5) by (simp add: bfs_inv_def nat_mono)
    next
      case queue: False
      then have "depth = maxDepth" using False 1(5) by simp
      then show ?thesis using res 1(2) by (simp add: bfs_inv_def)
    qed
  qed
qed

lemma bfs_unbounded:
  assumes "bfs_inv adj start (nat depth) visited queue" "0 \<le> depth" "maxDepth \<le> 0"
  shows "set (bfs adj maxDepth depth visited queue) = (adj_rel adj)\<^sup>* `` {start}"
  using assms
proof (induction adj maxDepth depth visited queue rule: bfs.induct)
  case (1 adj maxDepth depth visited queue)
  show ?case
  proof (cases "queue = []")
    case False
    obtain v n where vn: "visit_level adj queue (visited, []) = (v, n)" by (cases "visit_level adj queue (visited, [])")
    have "bfs_inv adj start (nat (depth + 1)) v n"
      using bfs_inv_step [OF 1(2) vn] 1(3) by (simp add: nat_add_distrib)
    then have "set (bfs adj maxDepth (depth + 1) v n) = (adj_rel adj)\<^sup>* `` {start}"
      using 1(1) [OF _ vn [symmetric]] False 1(3-) by simp
    then show ?thesis using False 1(4) by (subst bfs.simps) (simp add: vn)
  next
    case True
    then have "within adj start (Suc (nat depth)) = within adj start (nat depth)" using 1(2) by (simp add: bfs_inv_def level_of_def)
    note stable = within_stable [OF this]
    have all: "within adj start k \<subseteq> within adj start (nat depth)" for k
      using within_mono [of k "nat depth + k" adj start] stable [of k] by simp
    have "j \<in> within adj start (nat depth) \<longleftrightarrow> (start, j) \<in> (adj_rel adj)\<^sup>*" for j
    proof
      show "j \<in> within adj start (nat depth) \<Longrightarrow> (start, j) \<in> (adj_rel adj)\<^sup>*" by (auto simp: within_def relpow_imp_rtrancl)
      assume "(start, j) \<in> (adj_rel adj)\<^sup>*"
      then obtain k where "(start, j) \<in> adj_rel adj ^^ k" using rtrancl_imp_relpow by blast
      then have "j \<in> within adj start k" by (auto simp: within_def)
      then show "j \<in> within adj start (nat depth)" using all by blast
    qed
    then show ?thesis using True 1(2) by (subst bfs.simps) (auto simp: bfs_inv_def)
  qed
qed

lemma bfs_start: "bfs_inv adj start 0 [start] [start]"
  using within_Suc [of adj start 0] by (simp add: bfs_inv_def within_0 level_of_def)

lemma BfsWithinDepth_law:
  "set (BfsWithinDepth start adj maxDepth) = (if maxDepth \<le> 0 then (adj_rel adj)\<^sup>* `` {start} else within adj start (nat maxDepth))"
  using bfs_bounded [of adj start 0 "[start]" "[start]" maxDepth] bfs_unbounded [of adj start 0 "[start]" "[start]" maxDepth] bfs_start
  by (auto simp: BfsWithinDepth_def)

end
