(* ===== verification/Graph_Ops.thy ===== *)
theory Graph_Ops
  imports Graph_Query
begin

text \<open>
  \<^verbatim>\<open>internal/l3.go\<close> and \<^verbatim>\<open>l3query.go\<close>: the graph operations of the handle. They run in the shared domain, under
  its lock; deleting a graph then clears the anchors that named it, domain by domain. An import batch
  reads the clock once here, where the source reads it per record.
\<close>

text \<open>A body that needs the engine only.\<close>

definition on_engine :: "(StorageEngine \<Rightarrow> 'r \<times> StorageEngine) \<Rightarrow> Context \<Rightarrow> 'r \<times> Context" where
  "on_engine f ac = (case f (ctx_Engine ac) of (r, engine) \<Rightarrow> (r, ac\<lparr>ctx_Engine := engine\<rparr>))"

record L3Graph =
  lg_Slot :: HypergraphSlot
  lg_Nodes :: "HypergraphNode list"
  lg_Edges :: "HypergraphEdge list"

definition graphView :: "StorageEngine \<Rightarrow> HypergraphSlot \<Rightarrow> goerr + L3Graph" where
  "graphView engine slot = (case ListNodeL3 engine SharedPoolAgentID (hs_IDHash slot) of Inl err \<Rightarrow> Inl err
     | Inr nodes \<Rightarrow> (case ListEdgeL3 engine SharedPoolAgentID (hs_IDHash slot) of Inl err \<Rightarrow> Inl err
       | Inr edges \<Rightarrow> Inr \<lparr>lg_Slot = slot, lg_Nodes = nodes, lg_Edges = edges\<rparr>))"

definition getL3Graph :: "StorageEngine \<Rightarrow> string \<Rightarrow> goerr + L3Graph" where
  "getL3Graph engine i = (case parseID i of Inl err \<Rightarrow> Inl err
     | Inr slotID \<Rightarrow> (case ReadSharedGraphL3 engine slotID of Inl err \<Rightarrow> Inl err | Inr slot \<Rightarrow> graphView engine slot))"

definition GetL3 :: "i64 \<Rightarrow> u64 \<Rightarrow> string \<Rightarrow> DB \<Rightarrow> (goerr + L3Graph) \<times> DB" where
  "GetL3 now agentID i = locked (lockSharedPool now agentID) SharedPoolAgentID (\<lambda>ac. (getL3Graph (ctx_Engine ac) i, ac))"

definition ListL3 :: "i64 \<Rightarrow> u64 \<Rightarrow> DB \<Rightarrow> (goerr + HypergraphSlot list) \<times> DB" where
  "ListL3 now agentID = locked (lockSharedPool now agentID) SharedPoolAgentID (\<lambda>ac.
     (case CollectAllGraphSlots (ctx_Engine ac) SharedPoolAgentID of Inl err \<Rightarrow> Inl err
      | Inr all \<Rightarrow> Inr (SortFunc (\<lambda>a b. cmp (hs_IDHash a) (hs_IDHash b)) all), ac))"

section \<open>Importing\<close>

definition import_node :: "(string \<Rightarrow> u64) \<Rightarrow> i64 \<Rightarrow> L3ImportItem \<Rightarrow> ImportBatch \<Rightarrow> ImportBatch" where
  "import_node H now item b = (case ImportNode H now SharedPoolAgentID item b of
     (Inl err, b) \<Rightarrow> b\<lparr>ib_result := (ib_result b)\<lparr>ir_Errors := ir_Errors (ib_result b) + 1\<rparr>\<rparr>
   | (Inr _, b) \<Rightarrow> b)"

definition import_items :: "(string \<Rightarrow> u64) \<Rightarrow> i64 \<Rightarrow> L3ImportItem list \<Rightarrow> ImportBatch \<Rightarrow> ImportBatch" where
  "import_items H now items b = fold (ImportRelations H now SharedPoolAgentID) items (fold (import_node H now) items b)"

definition import_report :: "i64 \<Rightarrow> ImportBatch \<Rightarrow> L3ImportResult \<times> StorageEngine" where
  "import_report now b =
     (let result = (ib_result b)\<lparr>ir_GraphIDs := GraphIDs b\<rparr>
      in case StampChanged now SharedPoolAgentID b of
           (Inl err, b) \<Rightarrow> (result\<lparr>ir_Errors := ir_Errors result + 1\<rparr>, ib_engine b)
         | (Inr _, b) \<Rightarrow> (result, ib_engine b))"

definition ImportL3_body :: "(string \<Rightarrow> u64) \<Rightarrow> i64 \<Rightarrow> L3ImportItem list \<Rightarrow> string \<Rightarrow> StorageEngine \<Rightarrow> (goerr + L3ImportResult) \<times> StorageEngine" where
  "ImportL3_body H now items mode engine =
     (if length items = 0 \<or> list_ex (\<lambda>item. im_Title item = '''' \<or> im_Domain item = '''') items then (Inl (NewError ErrInvalidQuery), engine)
      else case NewImportBatch H engine SharedPoolAgentID mode of Inl err \<Rightarrow> (Inl (Error (CodeOf err) (Some err)), engine)
        | Inr b \<Rightarrow> (case import_report now (import_items H now items b) of (result, engine) \<Rightarrow> (Inr result, engine)))"

definition ImportL3 :: "(string \<Rightarrow> u64) \<Rightarrow> i64 \<Rightarrow> u64 \<Rightarrow> L3ImportItem list \<Rightarrow> string \<Rightarrow> DB \<Rightarrow> (goerr + L3ImportResult) \<times> DB" where
  "ImportL3 H now agentID items mode = locked (lockSharedPool now agentID) SharedPoolAgentID (on_engine (ImportL3_body H now items mode))"

section \<open>Renaming and deleting\<close>

definition UpdateL3_body :: "i64 \<Rightarrow> string \<Rightarrow> string \<Rightarrow> StorageEngine \<Rightarrow> (goerr + L3Graph) \<times> StorageEngine" where
  "UpdateL3_body now i name engine = (case ParseID i of Inl err \<Rightarrow> (Inl (Error ErrInvalidQuery (Some err)), engine)
     | Inr graphHash \<Rightarrow>
         if name = '''' then (Inl (NewError ErrInvalidQuery), engine)
         else (case CheckRename engine SharedPoolAgentID graphHash name of Inl err \<Rightarrow> (Inl err, engine)
           | Inr moves \<Rightarrow>
               if \<not> moves then (getL3Graph engine i, engine)
               else (case UpdateGraphL3 now SharedPoolAgentID graphHash (Some name) engine of
                   (Inl err, engine) \<Rightarrow> (Inl err, engine)
                 | (Inr slot, engine) \<Rightarrow> (graphView engine slot, engine))))"

definition UpdateL3 :: "i64 \<Rightarrow> u64 \<Rightarrow> string \<Rightarrow> string \<Rightarrow> DB \<Rightarrow> (goerr + L3Graph) \<times> DB" where
  "UpdateL3 now agentID i name = locked (lockSharedPool now agentID) SharedPoolAgentID (on_engine (UpdateL3_body now i name))"

definition DeleteL3_body :: "string \<Rightarrow> StorageEngine \<Rightarrow> (goerr + u64) \<times> StorageEngine" where
  "DeleteL3_body i engine = (case parseID i of Inl err \<Rightarrow> (Inl err, engine)
     | Inr slotID \<Rightarrow> (case ReadSharedGraphL3 engine slotID of Inl err \<Rightarrow> (Inl err, engine)
       | Inr slot \<Rightarrow> (case DeleteGraphL3 SharedPoolAgentID (hs_IDHash slot) engine of
           (Inl err, engine) \<Rightarrow> (Inl err, engine) | (Inr _, engine) \<Rightarrow> (Inr (hs_IDHash slot), engine))))"

text \<open>A domain that can no longer be locked is passed over; the failures of the others come back joined.\<close>

fun detach_domains :: "i64 \<Rightarrow> u64 \<Rightarrow> u64 list \<Rightarrow> DB \<Rightarrow> goerr list \<times> DB" where
  "detach_domains now graphHash [] db = ([], db)"
| "detach_domains now graphHash (a # as) db = (case lockAgent now a db of
     (Inl _, db) \<Rightarrow> detach_domains now graphHash as db
   | (Inr ac, db) \<Rightarrow> (case on_engine (DetachGraph a graphHash) ac of (r, ac) \<Rightarrow>
       (case detach_domains now graphHash as (unlock a ac db) of (errs, db) \<Rightarrow>
          ((case r of Inl err \<Rightarrow> err # errs | Inr _ \<Rightarrow> errs), db))))"

definition detachGraphAnchors :: "i64 \<Rightarrow> u64 \<Rightarrow> DB \<Rightarrow> (goerr + unit) \<times> DB" where
  "detachGraphAnchors now graphHash db = (case detach_domains now graphHash (DefaultAgentID # map fst (db_idToName db)) db of
     (errs, db) \<Rightarrow> (join_errors errs, db))"

definition DeleteL3 :: "i64 \<Rightarrow> u64 \<Rightarrow> string \<Rightarrow> DB \<Rightarrow> (goerr + unit) \<times> DB" where
  "DeleteL3 now agentID i db = (case locked (lockSharedPool now agentID) SharedPoolAgentID (on_engine (DeleteL3_body i)) db of
     (Inl err, db) \<Rightarrow> (Inl err, db)
   | (Inr graphHash, db) \<Rightarrow> detachGraphAnchors now graphHash db)"

section \<open>Queries\<close>

record L3NodeQuery =
  nq_GraphID :: string
  nq_IDs :: "string list"
  nq_Keyword :: string
  nq_NodeType :: string
  nq_Limit :: int

definition nodeFilter :: "(string \<Rightarrow> string) \<Rightarrow> L3NodeQuery \<Rightarrow> goerr + NodeFilter" where
  "nodeFilter lower q =
     (let f = \<lparr>nf_IDs = None, nf_Keyword = lower (nq_Keyword q), nf_NodeType = nq_NodeType q\<rparr> in
      if length (nq_IDs q) = 0 then Inr f
      else case ParseAll (nq_IDs q) of Inl err \<Rightarrow> Inl (Error ErrInvalidQuery (Some err)) | Inr ids \<Rightarrow> Inr (f\<lparr>nf_IDs := Some ids\<rparr>))"

definition query_nodes :: "(string \<Rightarrow> string) \<Rightarrow> L3NodeQuery \<Rightarrow> StorageEngine \<Rightarrow> goerr + HypergraphNode list" where
  "query_nodes lower q engine =
     (if nq_GraphID q = '''' then Inl (NewError ErrInvalidQuery)
      else case parseID (nq_GraphID q) of Inl err \<Rightarrow> Inl err
        | Inr slotID \<Rightarrow> (case ReadSharedGraphL3 engine slotID of Inl err \<Rightarrow> Inl err
          | Inr slot \<Rightarrow> (case nodeFilter lower q of Inl err \<Rightarrow> Inl err
            | Inr f \<Rightarrow> (case ListNodeL3 engine SharedPoolAgentID (hs_IDHash slot) of Inl err \<Rightarrow> Inl err
              | Inr nodes \<Rightarrow>
                  let out = filter (Filter_Matches lower f) nodes
                  in Inr (if nq_Limit q > 0 \<and> int (length out) > nq_Limit q then take (nat (nq_Limit q)) out else out)))))"

definition QueryL3Nodes :: "(string \<Rightarrow> string) \<Rightarrow> i64 \<Rightarrow> u64 \<Rightarrow> L3NodeQuery \<Rightarrow> DB \<Rightarrow> (goerr + HypergraphNode list) \<times> DB" where
  "QueryL3Nodes lower now agentID q = locked (lockSharedPool now agentID) SharedPoolAgentID (\<lambda>ac. (query_nodes lower q (ctx_Engine ac), ac))"

record L3Subgraph =
  sg_Nodes :: "HypergraphNode list"
  sg_Edges :: "HypergraphEdge list"

fun read_nodes :: "StorageEngine \<Rightarrow> u64 list \<Rightarrow> goerr + HypergraphNode list" where
  "read_nodes engine [] = Inr []"
| "read_nodes engine (i # is) = (case ReadHypergraphNode engine SharedPoolAgentID i of Inl err \<Rightarrow> Inl err
     | Inr n \<Rightarrow> (case read_nodes engine is of Inl err \<Rightarrow> Inl err | Inr ns \<Rightarrow> Inr (n # ns)))"

definition query_subgraph :: "string \<Rightarrow> string \<Rightarrow> int \<Rightarrow> byte list \<Rightarrow> StorageEngine \<Rightarrow> goerr + L3Subgraph" where
  "query_subgraph graphID startNodeID maxDepth edgeKinds engine = (case parseID graphID of Inl err \<Rightarrow> Inl err
     | Inr graphHash \<Rightarrow> (case parseID startNodeID of Inl err \<Rightarrow> Inl err
       | Inr startHash \<Rightarrow> (case CheckSubgraphStart engine SharedPoolAgentID graphHash startHash of Inl err \<Rightarrow> Inl err
         | Inr _ \<Rightarrow> (case SubgraphAdjacency engine SharedPoolAgentID graphHash edgeKinds of Inl err \<Rightarrow> Inl err
           | Inr (adj, edges) \<Rightarrow>
               let visited = BfsWithinDepth startHash adj maxDepth
               in (case read_nodes engine (sort visited) of Inl err \<Rightarrow> Inl err
                 | Inr nodes \<Rightarrow> Inr \<lparr>sg_Nodes = nodes, sg_Edges = filter (\<lambda>e. AllNodesVisited (he_NodeIDs e) visited) edges\<rparr>)))))"

definition QueryL3Subgraph :: "i64 \<Rightarrow> u64 \<Rightarrow> string \<Rightarrow> string \<Rightarrow> int \<Rightarrow> byte list \<Rightarrow> DB \<Rightarrow> (goerr + L3Subgraph) \<times> DB" where
  "QueryL3Subgraph now agentID graphID startNodeID maxDepth edgeKinds db =
     (if list_ex (\<lambda>k. \<not> GraphEdgeKind_Valid k) edgeKinds then (Inl (NewError ErrInvalidQuery), db)
      else locked (lockSharedPool now agentID) SharedPoolAgentID
        (\<lambda>ac. (query_subgraph graphID startNodeID maxDepth edgeKinds (ctx_Engine ac), ac)) db)"

end
