(* ===== verification/Go_Text.thy ===== *)
theory Go_Text
  imports Json_Roundtrip
begin

text \<open>
  More of Go's \<^verbatim>\<open>strings\<close> package, as the program uses it on model prompts and replies: prefixes, suffixes and cuts,
  and the conversion of a string to its runes.
\<close>

text \<open>
  The parts of Go's \<^verbatim>\<open>strings\<close> package the program uses on host text: trimming white space. A Go string is a
  byte string here, so a white-space rune is the sequence of its UTF-8 bytes; beyond ASCII these are U+0085, U+00A0,
  U+1680, U+2000 to U+200A, U+2028, U+2029, U+202F, U+205F and U+3000, the runes \<^verbatim>\<open>unicode.IsSpace\<close> accepts.
\<close>

definition space_runes :: "string list" where
  "space_runes = map (\<lambda>c. [c]) [CHR 0x09, CHR 0x0A, CHR 0x0B, CHR 0x0C, CHR 0x0D, CHR 0x20]
     @ map (\<lambda>c. [CHR 0xC2, c]) [CHR 0x85, CHR 0xA0] @ [[CHR 0xE1, CHR 0x9A, CHR 0x80]]
     @ map (\<lambda>c. [CHR 0xE2, CHR 0x80, c]) [CHR 0x80, CHR 0x81, CHR 0x82, CHR 0x83, CHR 0x84, CHR 0x85, CHR 0x86, CHR 0x87, CHR 0x88,
         CHR 0x89, CHR 0x8A, CHR 0xA8, CHR 0xA9, CHR 0xAF]
     @ [[CHR 0xE2, CHR 0x81, CHR 0x9F], [CHR 0xE3, CHR 0x80, CHR 0x80]]"

text \<open>Strips pieces off the front as long as one matches.\<close>

definition piece :: "string list \<Rightarrow> string \<Rightarrow> string option" where
  "piece ps s = List.find (\<lambda>p. p \<noteq> [] \<and> take (length p) s = p) ps"

lemma piece_Some: "piece ps s = Some p \<Longrightarrow> p \<in> set ps \<and> p \<noteq> [] \<and> take (length p) s = p"
  by (auto simp: piece_def find_Some_iff)

function strip_front :: "string list \<Rightarrow> string \<Rightarrow> string" where
  "strip_front ps s = (case piece ps s of None \<Rightarrow> s | Some p \<Rightarrow> strip_front ps (drop (length p) s))"
  by pat_completeness auto
termination
proof (relation "measure (\<lambda>(ps, s). length s)")
  fix ps s p assume "piece ps s = Some p"
  then have "p \<noteq> []" "take (length p) s = p" using piece_Some by blast+
  then have "0 < length p" "s \<noteq> []" by auto
  then show "((ps, drop (length p) s), (ps, s)) \<in> measure (\<lambda>(ps, s). length s)" by simp
qed simp

declare strip_front.simps [simp del]

definition TrimSpace :: "string \<Rightarrow> string" where
  "TrimSpace s = rev (strip_front (map rev space_runes) (rev (strip_front space_runes s)))"

section \<open>What trimming leaves\<close>

lemma strip_front_None: "piece ps (strip_front ps s) = None"
proof (induction ps s rule: strip_front.induct)
  case (1 ps s)
  then show ?case by (cases "piece ps s") (simp_all add: strip_front.simps [of ps s])
qed

lemma strip_front_fix: "piece ps s = None \<Longrightarrow> strip_front ps s = s"
  by (simp add: strip_front.simps)

lemma strip_front_suffix: "\<exists>h. s = h @ strip_front ps s"
proof (induction ps s rule: strip_front.induct)
  case (1 ps s)
  show ?case
  proof (cases "piece ps s")
    case (Some p)
    then obtain h where "drop (length p) s = h @ strip_front ps (drop (length p) s)" using 1 by blast
    then have "s = (take (length p) s @ h) @ strip_front ps (drop (length p) s)" by (metis append.assoc append_take_drop_id)
    moreover have "strip_front ps s = strip_front ps (drop (length p) s)" using Some by (simp add: strip_front.simps [of ps s])
    ultimately show ?thesis by metis
  qed (simp add: strip_front_fix)
qed

lemma piece_prefix: "piece ps (s @ r) = None \<Longrightarrow> piece ps s = None"
  by (auto simp: piece_def find_None_iff)

lemma TrimSpace_idem [simp]: "TrimSpace (TrimSpace s) = TrimSpace s"
proof -
  let ?l = "strip_front space_runes s" and ?r = "strip_front (map rev space_runes) (rev (strip_front space_runes s))"
  obtain h where "rev ?l = h @ ?r" using strip_front_suffix by blast
  then have "?l = rev ?r @ rev h" by (metis rev_append rev_rev_ident)
  then have "piece space_runes (rev ?r) = None" using strip_front_None [of space_runes s] piece_prefix by metis
  then have "strip_front space_runes (TrimSpace s) = TrimSpace s" by (simp add: TrimSpace_def strip_front_fix)
  moreover have "strip_front (map rev space_runes) (rev (TrimSpace s)) = rev (TrimSpace s)"
    by (simp add: TrimSpace_def strip_front_fix strip_front_None)
  ultimately show ?thesis by (simp add: TrimSpace_def)
qed

lemma TrimSpace_Nil [simp]: "TrimSpace [] = []"
proof -
  have "piece ps [] = None" for ps by (auto simp: piece_def find_None_iff)
  then show ?thesis by (simp add: TrimSpace_def strip_front_fix)
qed

section \<open>Prefixes, suffixes and cuts\<close>

definition HasPrefix :: "string \<Rightarrow> string \<Rightarrow> bool" where "HasPrefix s p \<longleftrightarrow> take (length p) s = p"
definition TrimPrefix :: "string \<Rightarrow> string \<Rightarrow> string" where "TrimPrefix s p = (if HasPrefix s p then drop (length p) s else s)"
definition HasSuffix :: "string \<Rightarrow> string \<Rightarrow> bool" where "HasSuffix s p \<longleftrightarrow> HasPrefix (rev s) (rev p)"
definition CutSuffix :: "string \<Rightarrow> string \<Rightarrow> string option" where
  "CutSuffix s p = (if HasSuffix s p then Some (take (length s - length p) s) else None)"

definition TrimRight :: "string \<Rightarrow> string \<Rightarrow> string" where
  "TrimRight s cutset = rev (dropWhile (\<lambda>c. c \<in> set cutset) (rev s))"
definition Trim :: "string \<Rightarrow> string \<Rightarrow> string" where
  "Trim s cutset = TrimRight (dropWhile (\<lambda>c. c \<in> set cutset) s) cutset"

text \<open>What follows the first newline, and what precedes the last occurrence of a separator.\<close>

fun after_newline :: "string \<Rightarrow> string option" where
  "after_newline [] = None"
| "after_newline (c # s) = (if c = CHR 0x0A then Some s else after_newline s)"

fun before_last :: "string \<Rightarrow> string \<Rightarrow> string option" where
  "before_last mark [] = (if mark = [] then Some [] else None)"
| "before_last mark (c # s) = (case before_last mark s of Some b \<Rightarrow> Some (c # b)
     | None \<Rightarrow> if HasPrefix (c # s) mark then Some [] else None)"

section \<open>Runes\<close>

text \<open>
  \<^verbatim>\<open>[]rune(s)\<close>, a rune written as its UTF-8 bytes: a byte that begins no valid sequence becomes U+FFFD. So
  \<^verbatim>\<open>string(runes)\<close> is the concatenation, and it gives back the string when that is valid UTF-8.
\<close>

function runes :: "string \<Rightarrow> string list" where
  "runes s = (if s = [] then [] else if rune_len s = 0 then replacement # runes (tl s)
     else take (rune_len s) s # runes (drop (rune_len s) s))"
  by pat_completeness auto
termination by (relation "measure length") auto

declare runes.simps [simp del]

lemma runes_Nil [simp]: "runes [] = []" by (simp add: runes.simps)

lemma concat_runes: "utf8 s \<Longrightarrow> concat (runes s) = s"
proof (induction s rule: runes.induct)
  case (1 s)
  show ?case
  proof (cases "s = []")
    case False
    then have n: "rune_len s \<noteq> 0" "utf8 (drop (rune_len s) s)" using "1.prems" by (simp_all add: utf8.simps [of s] split: if_splits)
    then show ?thesis using "1.IH"(2) [OF False] by (simp add: runes.simps [of s] False)
  qed simp
qed

lemma runes_not_Nil: "r \<in> set (runes s) \<Longrightarrow> r \<noteq> []"
proof (induction s rule: runes.induct)
  case (1 s)
  show ?case
  proof (cases "s = []")
    case False
    then show ?thesis using 1 by (cases "rune_len s = 0") (auto simp: runes.simps [of s] replacement_def)
  qed (use 1 in simp)
qed

end
