(* ===== verification/Dream.thy ===== *)
theory Dream
  imports Scene Plan Go_Text
begin

text \<open>
  \<^verbatim>\<open>internal/dream\<close>: the passes a Dream makes over the records of a domain, short of the floating-point
  stages. The retention prunes run first; then each scene's surface topics are offered to a language
  model, whose answer, a list of merge groups, is the argument \<open>consolidate\<close>, and each usable group is
  fused: a summary content, a parent topic, and the members sunk below it. The keyword extraction is the
  argument \<open>keywords_of\<close>. The source works on up to four scenes at once; here they come one after another.
\<close>

section \<open>Retention\<close>

text \<open>Durations in nanoseconds, as \<^verbatim>\<open>time.Duration\<close>; \<open>None\<close> is a domain without defaults.\<close>

definition ContentRetention :: i64 where "ContentRetention = 7 * 24 * 3600 * 10 ^ 9"

definition retentionWindow :: "i64 option \<Rightarrow> i64" where
  "retentionWindow ms = (case ms of None \<Rightarrow> ContentRetention
     | Some r \<Rightarrow> if r > 0 then i64_wrap (r * 10 ^ 6) else ContentRetention)"

text \<open>\<^verbatim>\<open>time.Now().Add(-w).UnixMilli()\<close> at the instant \<open>now\<close>, in nanoseconds.\<close>

definition sweep_cutoff :: "int \<Rightarrow> i64 option \<Rightarrow> i64" where
  "sweep_cutoff now ms = (now - retentionWindow ms) div 10 ^ 6"

text \<open>Wall times are left out of the report.\<close>

record DreamStage =
  dst_Name :: string
  dst_Status :: string

record DreamReport =
  dr_L4RecordsPruned :: nat
  dr_L5NodesPruned :: nat
  dr_ConsolidatedScenes :: nat
  dr_L2TopicsCompressed :: nat
  dr_L1NodesAdded :: nat
  dr_L1EdgesAdded :: nat
  dr_L1NodesRemoved :: nat
  dr_L1EdgesRemoved :: nat
  dr_L0Updated :: bool
  dr_Stages :: "DreamStage list"

text \<open>\<^verbatim>\<open>&DreamReport{}\<close>.\<close>

definition new_report :: DreamReport where
  "new_report = \<lparr>dr_L4RecordsPruned = 0, dr_L5NodesPruned = 0, dr_ConsolidatedScenes = 0, dr_L2TopicsCompressed = 0, dr_L1NodesAdded = 0,
     dr_L1EdgesAdded = 0, dr_L1NodesRemoved = 0, dr_L1EdgesRemoved = 0, dr_L0Updated = False, dr_Stages = []\<rparr>"

text \<open>The classification of an outcome.\<close>

definition stageStatus :: "goerr option \<Rightarrow> string" where
  "stageStatus err = (case err of None \<Rightarrow> ''ok'' | Some e \<Rightarrow> if is_cancelled e then ''cancelled'' else ''error'')"

definition AppendStage :: "string \<Rightarrow> goerr option \<Rightarrow> DreamReport \<Rightarrow> DreamReport" where
  "AppendStage stage err rep = rep\<lparr>dr_Stages := dr_Stages rep @ [\<lparr>dst_Name = stage, dst_Status = stageStatus err\<rparr>]\<rparr>"

definition PruneContentStage :: "i64 \<Rightarrow> u64 \<Rightarrow> Context \<Rightarrow> DreamReport \<Rightarrow> Context \<times> DreamReport" where
  "PruneContentStage cutoff agentID ac rep = (case DropExpiredArchives agentID cutoff (ctx_Engine ac) (ctx_L4 ac) of
     (Inl err, engine, l4) \<Rightarrow> (ac\<lparr>ctx_Engine := engine, ctx_L4 := l4\<rparr>, AppendStage ''l4_prune'' (Some err) rep)
   | (Inr dropped, engine, l4) \<Rightarrow> (ac\<lparr>ctx_Engine := engine, ctx_L4 := l4\<rparr>,
       AppendStage ''l4_prune'' None (if dropped > 0 then rep\<lparr>dr_L4RecordsPruned := dropped\<rparr> else rep)))"

text \<open>The ids one plan loses to the sweep.\<close>

definition swept_ids :: "i64 \<Rightarrow> PlanAggregate \<Rightarrow> u64 list" where
  "swept_ids cutoff agg =
     (if pa_HasNonDone agg \<and> pa_LastActiveAt agg \<ge> cutoff then []
      else map pn_IDHash (filter (\<lambda>n. pn_UpdatedAt n < cutoff) (pa_Nodes agg)))"

definition plan_sweeps :: "i64 \<Rightarrow> PlanAggregate list \<Rightarrow> (u64 \<times> u64 list) list" where
  "plan_sweeps cutoff aggs = filter (\<lambda>(t, ids). \<not> length ids = 0) (map (\<lambda>agg. (pa_TopicID agg, swept_ids cutoff agg)) aggs)"

definition PrunePlanStage :: "i64 \<Rightarrow> u64 \<Rightarrow> Context \<Rightarrow> DreamReport \<Rightarrow> Context \<times> DreamReport" where
  "PrunePlanStage cutoff agentID ac rep = (case CollectPlanNodes (ctx_Engine ac) agentID of
     Inl err \<Rightarrow> (ac, AppendStage ''l5_prune'' (Some err) rep)
   | Inr aggs \<Rightarrow>
       let sweeps = plan_sweeps cutoff aggs; doomed = concat (map snd sweeps)
       in if length doomed > 0
          then (case DeletePlanNodesByIDs agentID doomed (ctx_Engine ac) of
              (Inl err, engine) \<Rightarrow> (ac\<lparr>ctx_Engine := engine\<rparr>, AppendStage ''l5_prune'' (Some err) rep)
            | (Inr _, engine) \<Rightarrow>
                (ac\<lparr>ctx_Engine := engine, ctx_Plans := fold (\<lambda>(t, ids). RemoveNodes t ids) sweeps (ctx_Plans ac)\<rparr>,
                 AppendStage ''l5_prune'' None (rep\<lparr>dr_L5NodesPruned := length doomed\<rparr>)))
          else (ac, AppendStage ''l5_prune'' None rep))"

section \<open>Which scenes\<close>

definition SceneSet :: "StorageEngine \<Rightarrow> u64 \<Rightarrow> u64 \<Rightarrow> goerr + u64 list" where
  "SceneSet engine agentID sceneID =
     (if sceneID \<noteq> 0 then (case ReadSceneSlot engine agentID sceneID of Inl err \<Rightarrow> Inl err | Inr _ \<Rightarrow> Inr [sceneID])
      else case CollectAllScenesL2 engine agentID of Inl err \<Rightarrow> Inl err | Inr scenes \<Rightarrow> Inr (map ss_SceneID scenes))"

section \<open>Fusing one group\<close>

record L2Group =
  NodeHashes :: "u64 list"
  MergedSummary :: string

text \<open>The two deletes of the rollback; a failure of either is logged and passed over.\<close>

definition discardFusedGroup :: "u64 \<Rightarrow> Context \<Rightarrow> Context" where
  "discardFusedGroup parentID ac =
     (let engine = snd (DeleteL2Records (ctx_ID ac) [parentID] (ctx_Engine ac))
      in case DeleteTopicArchives (ctx_ID ac) [parentID] engine (ctx_L4 ac) of
           (_, engine, l4) \<Rightarrow> ac\<lparr>ctx_Engine := engine, ctx_L4 := l4\<rparr>)"

definition summary_slot :: "u64 \<Rightarrow> string \<Rightarrow> i64 \<Rightarrow> ArchiveSlot" where
  "summary_slot parentID summary now = archive_zero\<lparr>as_TopicID := parentID, as_Seq := SeqUser, as_Kind := KindUtterance,
     as_Role := RoleDream, as_ContentType := ContentText, as_Content := summary, as_CreatedAt := now\<rparr>"

text \<open>The tail of \<open>applyOneGroup\<close>, once the summary is stored: topic and sink, or the rollback.\<close>

definition fuse_group :: "(string \<Rightarrow> u64) \<Rightarrow> u64 \<Rightarrow> string list \<Rightarrow> i64 \<Rightarrow> i64 \<Rightarrow> u64 list \<Rightarrow> Context \<Rightarrow> (goerr + unit) \<times> Context" where
  "fuse_group H sceneID keywords minTS maxTS members ac =
     (let parentID = ComputeFusedTopicID H sceneID minTS maxTS members
      in case CreateFusedTopicL2 H (ctx_ID ac) sceneID keywords minTS maxTS members (ctx_Engine ac) of
           (Inl err, engine) \<Rightarrow> (Inl (Error (CodeOf err) (Some err)), discardFusedGroup parentID (ac\<lparr>ctx_Engine := engine\<rparr>))
         | (Inr _, engine) \<Rightarrow> (case CompressTopicsL2 (ctx_ID ac) members parentID engine of
             (Inl err, engine) \<Rightarrow>
               let engine = snd (RestoreSunkTopicsL2 (ctx_ID ac) members parentID engine)
               in (Inl (Error ErrIO (Some err)), discardFusedGroup parentID (ac\<lparr>ctx_Engine := engine\<rparr>))
           | (Inr _, engine) \<Rightarrow> (Inr (), ac\<lparr>ctx_Engine := engine\<rparr>)))"

definition store_summary :: "(string \<Rightarrow> u64) \<Rightarrow> (string \<Rightarrow> goerr + string list) \<Rightarrow> i64 \<Rightarrow> u64 \<Rightarrow> L2Group \<Rightarrow> i64 \<Rightarrow> i64 \<Rightarrow> Context
    \<Rightarrow> (goerr + unit) \<times> Context" where
  "store_summary H keywords_of now sceneID g minTS maxTS ac =
     (let parentID = ComputeFusedTopicID H sceneID minTS maxTS (NodeHashes g)
      in case AppendArchiveL4 H (ctx_ID ac) (summary_slot parentID (MergedSummary g) now) (ctx_Engine ac) (ctx_L4 ac) of
           (Inl err, engine, l4) \<Rightarrow> (Inl (Error ErrIO (Some err)), ac\<lparr>ctx_Engine := engine, ctx_L4 := l4\<rparr>)
         | (Inr _, engine, l4) \<Rightarrow>
             let ac = ac\<lparr>ctx_Engine := engine, ctx_L4 := l4\<rparr>
             in (case keywords_of (MergedSummary g) of
                   Inl err \<Rightarrow> (Inl (Error ErrLLM (Some err)), discardFusedGroup parentID ac)
                 | Inr keywords \<Rightarrow>
                     if length keywords = 0 then (Inl (Error ErrLLM (Some (NewError ErrLLM))), discardFusedGroup parentID ac)
                     else fuse_group H sceneID keywords minTS maxTS (NodeHashes g) ac))"

definition applyOneGroup :: "(string \<Rightarrow> u64) \<Rightarrow> (string \<Rightarrow> goerr + string list) \<Rightarrow> i64 \<Rightarrow> u64 \<Rightarrow> L2Group \<Rightarrow> i64 \<Rightarrow> i64 \<Rightarrow> Context
    \<Rightarrow> (goerr + unit) \<times> Context" where
  "applyOneGroup H keywords_of now sceneID g minTS maxTS ac =
     (let parentID = ComputeFusedTopicID H sceneID minTS maxTS (NodeHashes g)
      in if TrimSpace (MergedSummary g) = '''' then (Inl (NewError ErrLLM), ac)
         else case ReadTopicLenient (ctx_Engine ac) (ctx_ID ac) parentID of
             Inl err \<Rightarrow> if CodeOf err \<noteq> ErrNotFound then (Inl (Error ErrIO (Some err)), ac)
                 else store_summary H keywords_of now sceneID g minTS maxTS ac
           | Inr None \<Rightarrow> (Inl (NewError ErrIO), ac)
           | Inr (Some _) \<Rightarrow> (Inl (NewError ErrLLM), ac))"

section \<open>The groups of a scene\<close>

definition sharesMember :: "u64 list \<Rightarrow> u64 list \<Rightarrow> bool" where
  "sharesMember nodeHashes claimed \<longleftrightarrow> list_ex (\<lambda>i. i \<in> set claimed) nodeHashes"

fun bounds_loop :: "(u64, TopicSlot) gomap \<Rightarrow> u64 list \<Rightarrow> i64 \<times> i64 \<times> bool \<Rightarrow> i64 \<times> i64 \<times> bool" where
  "bounds_loop byID [] b = b"
| "bounds_loop byID (i # ids) (minTS, maxTS, ok) = (case map_of byID i of None \<Rightarrow> (0, 0, False)
     | Some t \<Rightarrow> bounds_loop byID ids (if \<not> ok \<or> ts_UserTimestamp t < minTS then ts_UserTimestamp t else minTS,
         if \<not> ok \<or> ts_AgentTimestamp t > maxTS then ts_AgentTimestamp t else maxTS, True))"

definition groupTimestamps :: "u64 list \<Rightarrow> (u64, TopicSlot) gomap \<Rightarrow> i64 \<times> i64 \<times> bool" where
  "groupTimestamps nodeHashes byID = bounds_loop byID nodeHashes (0, 0, False)"

record groupOutcome =
  go_groups :: u32
  go_topics :: nat
  go_unusable :: nat

fun group_loop :: "(string \<Rightarrow> u64) \<Rightarrow> (string \<Rightarrow> goerr + string list) \<Rightarrow> i64 \<Rightarrow> u64 \<Rightarrow> (u64, TopicSlot) gomap \<Rightarrow> L2Group list \<Rightarrow> u64 list
    \<Rightarrow> groupOutcome \<Rightarrow> Context \<Rightarrow> (groupOutcome \<times> goerr option) \<times> Context" where
  "group_loop H keywords_of now sceneID byID [] claimed got ac = ((got, None), ac)"
| "group_loop H keywords_of now sceneID byID (g # gs) claimed got ac =
     (if length (NodeHashes g) < 2 \<or> sharesMember (NodeHashes g) claimed
      then group_loop H keywords_of now sceneID byID gs claimed (got\<lparr>go_unusable := go_unusable got + 1\<rparr>) ac
      else case groupTimestamps (NodeHashes g) byID of (minTS, maxTS, ok) \<Rightarrow>
        if \<not> ok then group_loop H keywords_of now sceneID byID gs claimed (got\<lparr>go_unusable := go_unusable got + 1\<rparr>) ac
        else (case applyOneGroup H keywords_of now sceneID g minTS maxTS ac of
            (Inl err, ac) \<Rightarrow> if CodeOf err \<noteq> ErrLLM then ((got, Some err), ac)
              else group_loop H keywords_of now sceneID byID gs claimed (got\<lparr>go_unusable := go_unusable got + 1\<rparr>) ac
          | (Inr _, ac) \<Rightarrow> group_loop H keywords_of now sceneID byID gs (NodeHashes g @ claimed)
              (got\<lparr>go_groups := go_groups got + 1, go_topics := go_topics got + length (NodeHashes g)\<rparr>) ac))"

definition applyGroups :: "(string \<Rightarrow> u64) \<Rightarrow> (string \<Rightarrow> goerr + string list) \<Rightarrow> i64 \<Rightarrow> u64 \<Rightarrow> TopicSlot list \<Rightarrow> L2Group list \<Rightarrow> Context
    \<Rightarrow> (groupOutcome \<times> goerr option) \<times> Context" where
  "applyGroups H keywords_of now sceneID topics groups ac =
     group_loop H keywords_of now sceneID (fold (\<lambda>t. AList.update (ts_ID t) t) topics []) groups []
       \<lparr>go_groups = 0, go_topics = 0, go_unusable = 0\<rparr> ac"

section \<open>The scenes of a pass\<close>

record compress_state =
  cs_succeeded :: "u64 list"
  cs_unusable :: nat
  cs_failed :: "goerr option"
  cs_rep :: DreamReport

definition compress_scene :: "(string \<Rightarrow> u64) \<Rightarrow> (string \<Rightarrow> goerr + string list) \<Rightarrow> (TopicSlot list \<Rightarrow> goerr + L2Group list) \<Rightarrow> int \<Rightarrow> i64
    \<Rightarrow> u64 \<Rightarrow> compress_state \<times> Context \<Rightarrow> (compress_state \<times> Context) option" where
  "compress_scene H keywords_of consolidate minTopics now sceneID st = (case st of (s, ac) \<Rightarrow>
     (case ListTopicsL2 \<lparr>tq_MetaIdx = ctx_L2Meta ac, tq_SceneID = sceneID, tq_Depth = 1\<rparr> of None \<Rightarrow> None
      | Some topics \<Rightarrow>
          if int (length topics) < minTopics then Some (s, ac)
          else (case consolidate topics of
              Inl _ \<Rightarrow> Some (s\<lparr>cs_unusable := cs_unusable s + 1\<rparr>, ac)
            | Inr groups \<Rightarrow> (case applyGroups H keywords_of now sceneID topics groups ac of
                ((got, Some err), ac) \<Rightarrow> Some (if cs_failed s = None then s\<lparr>cs_failed := Some err\<rparr> else s, ac)
              | ((got, None), ac) \<Rightarrow>
                  let s = s\<lparr>cs_unusable := cs_unusable s + go_unusable got\<rparr>
                  in Some (if go_groups got > 0 then s\<lparr>cs_succeeded := List.insert sceneID (cs_succeeded s),
                        cs_rep := (cs_rep s)\<lparr>dr_L2TopicsCompressed := dr_L2TopicsCompressed (cs_rep s) + go_topics got\<rparr>\<rparr> else s, ac)))))"

fun compress_scenes :: "(string \<Rightarrow> u64) \<Rightarrow> (string \<Rightarrow> goerr + string list) \<Rightarrow> (TopicSlot list \<Rightarrow> goerr + L2Group list) \<Rightarrow> int \<Rightarrow> i64
    \<Rightarrow> u64 list \<Rightarrow> compress_state \<times> Context \<Rightarrow> (compress_state \<times> Context) option" where
  "compress_scenes H keywords_of consolidate minTopics now [] st = Some st"
| "compress_scenes H keywords_of consolidate minTopics now (i # is) st =
     (case compress_scene H keywords_of consolidate minTopics now i st of None \<Rightarrow> None
      | Some st \<Rightarrow> compress_scenes H keywords_of consolidate minTopics now is st)"

section \<open>The cache after a pass\<close>

text \<open>The first step of \<open>StructureStages\<close>: the topic cache is rebuilt from the records and installed.\<close>

definition install_meta :: "Context \<Rightarrow> Context" where
  "install_meta ac = ac\<lparr>ctx_L2Meta := BuildL2MetaFromEngine (ctx_Engine ac) (ctx_ID ac)\<rparr>"

end
