(* ===== verification/Agents.thy ===== *)
theory Agents
  imports Db Turn_Ops Go_Text
begin

text \<open>
  The sub-agents of a file: their registry records (\<^verbatim>\<open>internal/repo/agentlayer.go\<close>), the name tables and the
  doors that hand out domains (\<^verbatim>\<open>internal/agents.go\<close>, \<open>loadTenantRegistry\<close> of \<^verbatim>\<open>internal/config.go\<close>), and the
  profile writes (\<^verbatim>\<open>internal/l0.go\<close>, \<^verbatim>\<open>internal/repo/l0layer.go\<close>). The emotion and MBTI fields of a profile are
  floating-point records, here type variables; the JSON form of a profile is the pair of arguments \<open>tojson\<close> and
  \<open>dec\<close>. A session is the id it is bound to; the endpoint tables of the language model are left out.
\<close>

section \<open>Registry records\<close>

text \<open>\<^verbatim>\<open>json.Marshal\<close> and \<^verbatim>\<open>json.Unmarshal\<close> of a string; a null leaves the string empty.\<close>

definition marshal_name :: "string \<Rightarrow> goerr + bytes" where
  "marshal_name s = Inr (text_bytes (enc_val (JStr s)))"

definition unmarshal_name :: "bytes \<Rightarrow> goerr + string" where
  "unmarshal_name data = (case json_parse (bytes_text data) of None \<Rightarrow> Inl Plain_Err
     | Some j \<Rightarrow> (case j of JStr s \<Rightarrow> Inr s | JNull \<Rightarrow> Inr '''' | _ \<Rightarrow> Inl Plain_Err))"

definition WriteAgentRegistry :: "u64 \<Rightarrow> string \<Rightarrow> StorageEngine \<Rightarrow> (goerr + unit) \<times> StorageEngine" where
  "WriteAgentRegistry agentID name engine = (case marshal_name name of Inl err \<Rightarrow> (Inl (Error ErrSerialization (Some err)), engine)
     | Inr data \<Rightarrow> (case WriteRecord agentID RecAgentRegistry agentID data engine of
         (Inl err, engine) \<Rightarrow> (Inl err, engine) | (Inr _, engine) \<Rightarrow> (Inr (), engine)))"

text \<open>The name one registry record resolves to.\<close>

definition registry_name :: "StorageEngine \<Rightarrow> u64 \<Rightarrow> u64 \<Rightarrow> goerr + string" where
  "registry_name engine agentID i = (case ReadRecord engine agentID i of Inl err \<Rightarrow> Inl err
     | Inr (_, data) \<Rightarrow> (case unmarshal_name data of Inl err \<Rightarrow> Inl (Error ErrDeserialization (Some err))
         | Inr name \<Rightarrow> if name = '''' then Inl (NewError ErrDeserialization) else Inr name))"

fun list_names :: "StorageEngine \<Rightarrow> (u64 \<times> u64) list \<Rightarrow> (u64, string) gomap \<Rightarrow> goerr option \<Rightarrow> (u64, string) gomap \<times> goerr option" where
  "list_names engine [] out unresolved = (out, unresolved)"
| "list_names engine ((agentID, i) # rest) out unresolved = (case registry_name engine agentID i of
     Inl err \<Rightarrow> list_names engine rest out (if unresolved = None then Some (Error (CodeOf err) (Some err)) else unresolved)
   | Inr name \<Rightarrow> list_names engine rest (AList.update agentID name out) unresolved)"

definition ListAgentRegistry :: "StorageEngine \<Rightarrow> (u64, string) gomap \<times> goerr option" where
  "ListAgentRegistry engine = list_names engine
     (concat (map (\<lambda>agentID. map (Pair agentID) (IndexByType engine agentID RecAgentRegistry)) (IterAgents engine))) [] None"

text \<open>Two names on one id cannot be; of two ids under one name the greater one keeps it.\<close>

definition file_name :: "(u64, string) gomap \<Rightarrow> u64 \<Rightarrow> (u64, string) gomap \<times> (string, u64) gomap \<Rightarrow> (u64, string) gomap \<times> (string, u64) gomap" where
  "file_name listed i tables = (case tables of (idToName, nameToID) \<Rightarrow>
     let name = the (map_of listed i)
     in (AList.update i name idToName,
         if (case map_of nameToID name of None \<Rightarrow> True | Some prev \<Rightarrow> i > prev) then AList.update name i nameToID else nameToID))"

definition loadTenantRegistry :: "StorageEngine \<Rightarrow> ((u64, string) gomap \<times> (string, u64) gomap) \<times> goerr option" where
  "loadTenantRegistry engine = (case ListAgentRegistry engine of (listed, err) \<Rightarrow>
     (fold (file_name listed) (sort (map fst listed)) ([], []), err))"

section \<open>Allocation\<close>

text \<open>The loop over the random draws; it does not return when the draws run out, every one of them taken.\<close>

fun allocate_id :: "string \<Rightarrow> (goerr + bytes) list \<Rightarrow> DB \<Rightarrow> ((goerr + u64) \<times> DB) option" where
  "allocate_id name [] db = None"
| "allocate_id name (Inl err # draws) db = Some (Inl (Error ErrIO (Some err)), db)"
| "allocate_id name (Inr b # draws) db =
     (let i = get_u64 b
      in if i = DefaultAgentID \<or> i = SharedPoolAgentID then allocate_id name draws db
         else if map_of (db_idToName db) i \<noteq> None then allocate_id name draws db
         else (case WriteAgentRegistry i name (db_engine db) of
             (Inl err, engine) \<Rightarrow> Some (Inl err, db\<lparr>db_engine := engine\<rparr>)
           | (Inr _, engine) \<Rightarrow> Some (Inr i, db\<lparr>db_engine := engine, db_nameToID := AList.update name i (db_nameToID db),
               db_idToName := AList.update i name (db_idToName db)\<rparr>)))"

definition ensureRegistered :: "string \<Rightarrow> (goerr + bytes) list \<Rightarrow> DB \<Rightarrow> ((goerr + u64) \<times> DB) option" where
  "ensureRegistered name draws db =
     (if db_closed db then Some (Inl errDBClosed, db)
      else case map_of (db_nameToID db) name of Some i \<Rightarrow> Some (Inr i, db)
        | None \<Rightarrow> (case snd (ListAgentRegistry (db_engine db)) of Some unresolved \<Rightarrow> Some (Inl unresolved, db)
            | None \<Rightarrow> allocate_id name draws db))"

section \<open>Profiles\<close>

record ('e, 'm) ProfileSlot =
  pr_Name :: string
  pr_Role :: string
  pr_Personality :: string
  pr_EmotionState :: 'e
  pr_MBTI :: 'm
  pr_Preferences :: "(string, string) gomap"
  pr_AgentType :: byte
  pr_UpdatedAtMs :: i64

definition AgentTypePrimary :: byte where "AgentTypePrimary = 0"
definition AgentTypeSub :: byte where "AgentTypeSub = 1"

definition UpdateProfileL0 :: "('p \<Rightarrow> goerr + bytes) \<Rightarrow> (string \<Rightarrow> u64) \<Rightarrow> u64 \<Rightarrow> 'p \<Rightarrow> StorageEngine \<Rightarrow> (goerr + unit) \<times> StorageEngine" where
  "UpdateProfileL0 tojson H agentID slot engine = writeJSON tojson agentID RecL0Profile (profile_id H) slot engine"

definition HasProfileL0 :: "(bytes \<Rightarrow> goerr + 'p) \<Rightarrow> (string \<Rightarrow> u64) \<Rightarrow> StorageEngine \<Rightarrow> u64 \<Rightarrow> goerr + bool" where
  "HasProfileL0 dec H engine agentID = (case readJSON dec engine agentID (profile_id H) RecL0Profile of
     Inr _ \<Rightarrow> Inr True | Inl err \<Rightarrow> if CodeOf err = ErrNotFound then Inr False else Inl err)"

definition GetL0 :: "(bytes \<Rightarrow> goerr + 'p) \<Rightarrow> 'p \<Rightarrow> (string \<Rightarrow> u64) \<Rightarrow> i64 \<Rightarrow> u64 \<Rightarrow> DB \<Rightarrow> (goerr + 'p) \<times> DB" where
  "GetL0 dec blank H now agentID = locked (lockAgent now agentID) agentID (\<lambda>ac. (ReadProfile dec blank H (ctx_Engine ac) agentID, ac))"

definition keep_distilled :: "('e, 'm) ProfileSlot \<Rightarrow> ('e, 'm) ProfileSlot \<Rightarrow> ('e, 'm) ProfileSlot" where
  "keep_distilled cur slot = slot\<lparr>pr_EmotionState := pr_EmotionState cur, pr_MBTI := pr_MBTI cur, pr_AgentType := pr_AgentType cur\<rparr>"

definition UpdateL0_body :: "(('e, 'm) ProfileSlot \<Rightarrow> goerr + bytes) \<Rightarrow> (bytes \<Rightarrow> goerr + ('e, 'm) ProfileSlot) \<Rightarrow> (string \<Rightarrow> u64) \<Rightarrow> i64 \<Rightarrow> u64
    \<Rightarrow> ('e, 'm) ProfileSlot \<Rightarrow> StorageEngine \<Rightarrow> (goerr + unit) \<times> StorageEngine" where
  "UpdateL0_body tojson dec H now agentID slot engine =
     (if TrimSpace (pr_Name slot) = '''' then (Inl (NewError ErrInvalidQuery), engine)
      else case GetProfileL0 dec H engine agentID of
          Inl err \<Rightarrow> if CodeOf err \<noteq> ErrNotFound then (Inl err, engine)
            else UpdateProfileL0 tojson H agentID (slot\<lparr>pr_UpdatedAtMs := now\<rparr>) engine
        | Inr cur \<Rightarrow>
            if pr_AgentType cur = AgentTypeSub \<and> pr_Name slot \<noteq> pr_Name cur then (Inl (NewError ErrInvalidQuery), engine)
            else UpdateProfileL0 tojson H agentID ((keep_distilled cur slot)\<lparr>pr_UpdatedAtMs := now\<rparr>) engine)"

definition UpdateL0 :: "(('e, 'm) ProfileSlot \<Rightarrow> goerr + bytes) \<Rightarrow> (bytes \<Rightarrow> goerr + ('e, 'm) ProfileSlot) \<Rightarrow> (string \<Rightarrow> u64) \<Rightarrow> i64 \<Rightarrow> u64
    \<Rightarrow> ('e, 'm) ProfileSlot \<Rightarrow> DB \<Rightarrow> (goerr + unit) \<times> DB" where
  "UpdateL0 tojson dec H now agentID slot = locked (lockAgent now agentID) agentID
     (\<lambda>ac. case UpdateL0_body tojson dec H now agentID slot (ctx_Engine ac) of (r, engine) \<Rightarrow> (r, ac\<lparr>ctx_Engine := engine\<rparr>))"

section \<open>The doors\<close>

definition NewSession :: "u64 \<Rightarrow> DB \<Rightarrow> goerr + u64" where
  "NewSession agentID db = (case CheckSession agentID db of Inl err \<Rightarrow> Inl err | Inr _ \<Rightarrow> Inr agentID)"

definition Primary :: "DB \<Rightarrow> goerr + u64" where "Primary = NewSession DefaultAgentID"

definition MaxSubAgentNameBytes :: nat where "MaxSubAgentNameBytes = 256"

text \<open>The part of \<open>SubAgent\<close> under the domain lock: the profile is written when there is none.\<close>

definition settle_profile :: "(('e, 'm) ProfileSlot \<Rightarrow> goerr + bytes) \<Rightarrow> (bytes \<Rightarrow> goerr + ('e, 'm) ProfileSlot) \<Rightarrow> (string \<Rightarrow> u64) \<Rightarrow> i64 \<Rightarrow> u64
    \<Rightarrow> string \<Rightarrow> ('e, 'm) ProfileSlot \<Rightarrow> Context \<Rightarrow> (goerr + u64) \<times> Context" where
  "settle_profile tojson dec H now i name profile ac = (case HasProfileL0 dec H (ctx_Engine ac) i of
     Inl err \<Rightarrow> (Inl err, ac)
   | Inr has \<Rightarrow> if has then (Inr i, ac)
       else (case UpdateProfileL0 tojson H i (profile\<lparr>pr_Name := name, pr_AgentType := AgentTypeSub, pr_UpdatedAtMs := now\<rparr>) (ctx_Engine ac) of
           (Inl err, engine) \<Rightarrow> (Inl err, ac\<lparr>ctx_Engine := engine\<rparr>)
         | (Inr _, engine) \<Rightarrow> (Inr i, ac\<lparr>ctx_Engine := engine\<rparr>)))"

text \<open>The endpoint check of the first line is the argument \<open>llm\<close>.\<close>

definition SubAgent :: "(('e, 'm) ProfileSlot \<Rightarrow> goerr + bytes) \<Rightarrow> (bytes \<Rightarrow> goerr + ('e, 'm) ProfileSlot) \<Rightarrow> (string \<Rightarrow> u64) \<Rightarrow> i64
    \<Rightarrow> (goerr + bytes) list \<Rightarrow> goerr + unit \<Rightarrow> ('e, 'm) ProfileSlot \<Rightarrow> DB \<Rightarrow> ((goerr + u64) \<times> DB) option" where
  "SubAgent tojson dec H now draws llm profile db = (case llm of Inl err \<Rightarrow> Some (Inl err, db)
     | Inr _ \<Rightarrow>
       let name = TrimSpace (pr_Name profile)
       in if name = '''' then Some (Inl (NewError ErrInvalidQuery), db)
          else if length name > MaxSubAgentNameBytes then Some (Inl (NewError ErrInvalidQuery), db)
          else (case ensureRegistered name draws db of None \<Rightarrow> None
            | Some (Inl err, db) \<Rightarrow> Some (Inl err, db)
            | Some (Inr i, db) \<Rightarrow> (case NewSession i db of Inl err \<Rightarrow> Some (Inl err, db)
                | Inr _ \<Rightarrow> Some (locked (lockAgent now i) i (settle_profile tojson dec H now i name profile) db))))"

definition Agent :: "i64 \<Rightarrow> goerr + unit \<Rightarrow> string \<Rightarrow> DB \<Rightarrow> (goerr + u64) \<times> DB" where
  "Agent now llm agentIDHex db = (case llm of Inl err \<Rightarrow> (Inl err, db)
     | Inr _ \<Rightarrow> (case parseID agentIDHex of Inl err \<Rightarrow> (Inl err, db)
         | Inr i \<Rightarrow> (case CheckSession i db of Inl err \<Rightarrow> (Inl err, db)
             | Inr _ \<Rightarrow> (case NewSession i db of Inl err \<Rightarrow> (Inl err, db)
                 | Inr _ \<Rightarrow> locked (lockAgent now i) i (\<lambda>ac. (Inr i, ac)) db))))"

record AgentInfo =
  ai_AgentID :: u64
  ai_Name :: string
  ai_Primary :: bool

definition Agents :: "(bytes \<Rightarrow> goerr + ('e, 'm) ProfileSlot) \<Rightarrow> ('e, 'm) ProfileSlot \<Rightarrow> (string \<Rightarrow> u64) \<Rightarrow> i64 \<Rightarrow> DB \<Rightarrow> (goerr + AgentInfo list) \<times> DB" where
  "Agents dec blank H now db =
     (if db_closed db then (Inl errDBClosed, db)
      else case ListAgentRegistry (db_engine db) of
          (names, Some unresolved) \<Rightarrow> (Inl unresolved, db)
        | (names, None) \<Rightarrow> (case GetL0 dec blank H now DefaultAgentID db of
            (Inl err, db) \<Rightarrow> (Inl err, db)
          | (Inr primary, db) \<Rightarrow> (Inr (\<lparr>ai_AgentID = DefaultAgentID, ai_Name = pr_Name primary, ai_Primary = True\<rparr>
              # map (\<lambda>i. \<lparr>ai_AgentID = i, ai_Name = the (map_of names i), ai_Primary = False\<rparr>) (sort (map fst names))), db)))"

end
