(* ===== verification/L1_Layer.thy ===== *)
theory L1_Layer
  imports Agents L2_Layer
begin

text \<open>
  \<^verbatim>\<open>internal/repo/l1layer_sync.go\<close> and the listing of \<^verbatim>\<open>l1.go\<close>: one L1 node per scene, kept in step with the topics of
  the scene. The three floating-point fields of a node are of a type variable, with the two constants the code writes
  as arguments, and its JSON form is the pair of arguments \<open>tojson\<close> and \<open>dec\<close>. A Go map is ranged over in list order, and
  the sync reads the clock \<open>now\<close> once.
\<close>

record 'f SceneNode =
  sn_IDHash :: u64
  sn_SceneID :: u64
  sn_TopicIDs :: "u64 list"
  sn_Importance :: 'f
  sn_Valence :: 'f
  sn_Arousal :: 'f
  sn_EmotionSet :: bool
  sn_CreatedAt :: i64
  sn_UpdatedAt :: i64
  sn_EdgeIDs :: "u64 list"

definition ReadSceneNode :: "(bytes \<Rightarrow> goerr + 'f SceneNode) \<Rightarrow> StorageEngine \<Rightarrow> u64 \<Rightarrow> u64 \<Rightarrow> goerr + 'f SceneNode" where
  "ReadSceneNode dec engine agentID i = readJSON dec engine agentID i RecL1SceneNode"

definition WriteSceneNode :: "('f SceneNode \<Rightarrow> goerr + bytes) \<Rightarrow> u64 \<Rightarrow> u64 \<Rightarrow> 'f SceneNode \<Rightarrow> StorageEngine \<Rightarrow> (goerr + unit) \<times> StorageEngine" where
  "WriteSceneNode tojson agentID i slot engine = writeJSON tojson agentID RecL1SceneNode i slot engine"

definition CollectAllSceneNodes :: "(bytes \<Rightarrow> goerr + 'f SceneNode) \<Rightarrow> StorageEngine \<Rightarrow> u64 \<Rightarrow> 'f SceneNode list" where
  "CollectAllSceneNodes dec engine agentID = IterAll dec engine agentID RecL1SceneNode"

text \<open>Files one topic under its scene; a set of ids is a list without repetitions.\<close>

definition file_topic :: "TopicSlot \<Rightarrow> (u64, u64 list) gomap \<Rightarrow> (u64, u64 list) gomap" where
  "file_topic topic byScene =
     (if ts_Depth topic > 2 then byScene
      else AList.update (ts_SceneID topic)
        (List.insert (ts_ID topic) (case map_of byScene (ts_SceneID topic) of None \<Rightarrow> [] | Some ids \<Rightarrow> ids)) byScene)"

definition collectTopicIDsByScene :: "StorageEngine \<Rightarrow> u64 \<Rightarrow> goerr + (u64, u64 list) gomap" where
  "collectTopicIDsByScene engine agentID = (case CollectAllTopicsStrict engine agentID of Inl err \<Rightarrow> Inl err
     | Inr topics \<Rightarrow> Inr (fold file_topic topics []))"

definition sortedIDs :: "u64 list \<Rightarrow> u64 list" where "sortedIDs ids = sort ids"

text \<open>The node a scene gets, or keeps: \<open>None\<close> when nothing is to be written.\<close>

definition next_node :: "'f \<Rightarrow> 'f \<Rightarrow> u64 \<Rightarrow> u64 \<Rightarrow> u64 list \<Rightarrow> i64 \<Rightarrow> 'f SceneNode option \<Rightarrow> 'f SceneNode option" where
  "next_node zero one nodeID sceneID ids now node =
     (if (case node of Some n \<Rightarrow> sn_TopicIDs n = ids | None \<Rightarrow> False) then None
      else Some ((case node of Some n \<Rightarrow> n
          | None \<Rightarrow> \<lparr>sn_IDHash = nodeID, sn_SceneID = sceneID, sn_TopicIDs = [], sn_Importance = one, sn_Valence = zero, sn_Arousal = zero,
              sn_EmotionSet = False, sn_CreatedAt = now, sn_UpdatedAt = 0, sn_EdgeIDs = []\<rparr>)
        \<lparr>sn_TopicIDs := ids, sn_UpdatedAt := now\<rparr>))"

definition syncOneSceneNode :: "('f SceneNode \<Rightarrow> goerr + bytes) \<Rightarrow> (bytes \<Rightarrow> goerr + 'f SceneNode) \<Rightarrow> 'f \<Rightarrow> 'f \<Rightarrow> (string \<Rightarrow> u64) \<Rightarrow> u64
    \<Rightarrow> u64 \<Rightarrow> u64 list \<Rightarrow> i64 \<Rightarrow> StorageEngine \<Rightarrow> (goerr + u64 \<times> bool) \<times> StorageEngine" where
  "syncOneSceneNode tojson dec zero one H agentID sceneID ids now engine =
     (let nodeID = SceneNodeID H sceneID
      in case (case ReadSceneNode dec engine agentID nodeID of Inr n \<Rightarrow> Inr (Some n)
            | Inl err \<Rightarrow> if CodeOf err \<noteq> ErrNotFound then Inl err else Inr None) of
          Inl err \<Rightarrow> (Inl err, engine)
        | Inr node \<Rightarrow> (case next_node zero one nodeID sceneID ids now node of None \<Rightarrow> (Inr (nodeID, False), engine)
            | Some n \<Rightarrow> (case WriteSceneNode tojson agentID nodeID n engine of
                (Inl err, engine) \<Rightarrow> (Inl (Error ErrIO (Some err)), engine)
              | (Inr _, engine) \<Rightarrow> (Inr (nodeID, True), engine))))"

fun sync_scenes :: "('f SceneNode \<Rightarrow> goerr + bytes) \<Rightarrow> (bytes \<Rightarrow> goerr + 'f SceneNode) \<Rightarrow> 'f \<Rightarrow> 'f \<Rightarrow> (string \<Rightarrow> u64) \<Rightarrow> u64 \<Rightarrow> i64
    \<Rightarrow> (u64 \<times> u64 list) list \<Rightarrow> u64 list \<Rightarrow> StorageEngine \<Rightarrow> (u64 list \<times> goerr option) \<times> StorageEngine" where
  "sync_scenes tojson dec zero one H agentID now [] touched engine = ((touched, None), engine)"
| "sync_scenes tojson dec zero one H agentID now ((sceneID, ids) # rest) touched engine =
     (case syncOneSceneNode tojson dec zero one H agentID sceneID (sortedIDs ids) now engine of
        (Inl err, engine) \<Rightarrow> ((touched, Some err), engine)
      | (Inr (nodeID, changed), engine) \<Rightarrow>
          sync_scenes tojson dec zero one H agentID now rest (if changed then List.insert nodeID touched else touched) engine)"

definition SyncL1NodesFromL2 :: "('f SceneNode \<Rightarrow> goerr + bytes) \<Rightarrow> (bytes \<Rightarrow> goerr + 'f SceneNode) \<Rightarrow> 'f \<Rightarrow> 'f \<Rightarrow> (string \<Rightarrow> u64) \<Rightarrow> i64 \<Rightarrow> u64
    \<Rightarrow> StorageEngine \<Rightarrow> (u64 list \<times> goerr option) \<times> StorageEngine" where
  "SyncL1NodesFromL2 tojson dec zero one H now agentID engine = (case collectTopicIDsByScene engine agentID of
     Inl err \<Rightarrow> (([], Some err), engine)
   | Inr byScene \<Rightarrow> sync_scenes tojson dec zero one H agentID now byScene [] engine)"

section \<open>Emotions\<close>

record 'f NodeEmotion =
  em_Valence :: 'f
  em_Arousal :: 'f

text \<open>The clock is read again for every node whose emotion moves: \<open>now i\<close> is the reading at node \<open>i\<close>.\<close>

fun BackfillL1Emotions :: "('f SceneNode \<Rightarrow> goerr + bytes) \<Rightarrow> (bytes \<Rightarrow> goerr + 'f SceneNode) \<Rightarrow> (u64 \<Rightarrow> i64) \<Rightarrow> u64 \<Rightarrow> (u64, 'f NodeEmotion) gomap
    \<Rightarrow> StorageEngine \<Rightarrow> (goerr + unit) \<times> StorageEngine" where
  "BackfillL1Emotions tojson dec now agentID [] engine = (Inr (), engine)"
| "BackfillL1Emotions tojson dec now agentID ((i, em) # perNode) engine = (case ReadSceneNode dec engine agentID i of
     Inl err \<Rightarrow> (Inl err, engine)
   | Inr node \<Rightarrow>
       if sn_EmotionSet node then BackfillL1Emotions tojson dec now agentID perNode engine
       else let moved = sn_Valence node \<noteq> em_Valence em \<or> sn_Arousal node \<noteq> em_Arousal em;
                node = node\<lparr>sn_Valence := em_Valence em, sn_Arousal := em_Arousal em, sn_EmotionSet := True\<rparr>;
                node = (if moved then node\<lparr>sn_UpdatedAt := now i\<rparr> else node)
            in (case WriteSceneNode tojson agentID i node engine of
                (Inl err, engine) \<Rightarrow> (Inl err, engine)
              | (Inr _, engine) \<Rightarrow> BackfillL1Emotions tojson dec now agentID perNode engine))"

section \<open>The listing\<close>

definition ListL1 :: "(bytes \<Rightarrow> goerr + 'f SceneNode) \<Rightarrow> i64 \<Rightarrow> u64 \<Rightarrow> DB \<Rightarrow> (goerr + 'f SceneNode list) \<times> DB" where
  "ListL1 dec now agentID = locked (lockAgent now agentID) agentID
     (\<lambda>ac. (case CollectAllStrict dec (ctx_Engine ac) agentID RecL1SceneNode of Inl err \<Rightarrow> Inl err
        | Inr nodes \<Rightarrow> Inr (SortFunc (\<lambda>a b. cmp (sn_IDHash a) (sn_IDHash b)) nodes), ac))"

end
