(* ===== verification/Engram.thy ===== *)
theory Engram
  imports L1_Layer L2_Meta
begin

text \<open>
  \<^verbatim>\<open>internal/cap/engram\<close>: the L1 network of scene nodes and the hyperedges between them, how edges are built from
  shared keywords (\<^verbatim>\<open>hyperedge.go\<close>) and how nodes and edges fade and go (\<^verbatim>\<open>decay.go\<close>). The arithmetic of \<^verbatim>\<open>float64\<close> is the
  argument \<open>F\<close>, a record of its operations (\<open>f_lit F n d\<close> is the literal of value \<open>n / d\<close>), and the JSON form of the two records is the argument \<open>J\<close>. A Go map is ranged
  over in list order, and each pass reads the clock once, as the source does.
\<close>

record 'f float64 =
  f_lit :: "int \<Rightarrow> int \<Rightarrow> 'f"
  f_of_int :: "int \<Rightarrow> 'f"
  f_lt :: "'f \<Rightarrow> 'f \<Rightarrow> bool"
  f_le :: "'f \<Rightarrow> 'f \<Rightarrow> bool"
  f_sub :: "'f \<Rightarrow> 'f \<Rightarrow> 'f"
  f_mul :: "'f \<Rightarrow> 'f \<Rightarrow> 'f"
  f_div :: "'f \<Rightarrow> 'f \<Rightarrow> 'f"
  f_neg :: "'f \<Rightarrow> 'f"
  f_exp :: "'f \<Rightarrow> 'f"
  f_abs :: "'f \<Rightarrow> 'f"
  f_min :: "'f \<Rightarrow> 'f \<Rightarrow> 'f"
  f_max :: "'f \<Rightarrow> 'f \<Rightarrow> 'f"

record 'f SceneEdge =
  se_IDHash :: u64
  se_NodeIDs :: "u64 list"
  se_Weight :: 'f
  se_CreatedAt :: i64
  se_LastDecayAt :: i64

record 'f l1_json =
  put_node :: "'f SceneNode \<Rightarrow> goerr + bytes"
  get_node :: "bytes \<Rightarrow> goerr + 'f SceneNode"
  put_edge :: "'f SceneEdge \<Rightarrow> goerr + bytes"
  get_edge :: "bytes \<Rightarrow> goerr + 'f SceneEdge"

definition ReadSceneEdge :: "'f l1_json \<Rightarrow> StorageEngine \<Rightarrow> u64 \<Rightarrow> u64 \<Rightarrow> goerr + 'f SceneEdge" where
  "ReadSceneEdge J engine agentID i = readJSON (get_edge J) engine agentID i RecL1Hyperedge"

definition WriteSceneEdge :: "'f l1_json \<Rightarrow> u64 \<Rightarrow> u64 \<Rightarrow> 'f SceneEdge \<Rightarrow> StorageEngine \<Rightarrow> (goerr + unit) \<times> StorageEngine" where
  "WriteSceneEdge J agentID i slot engine = writeJSON (put_edge J) agentID RecL1Hyperedge i slot engine"

definition ElapsedHours :: "'f float64 \<Rightarrow> i64 \<Rightarrow> i64 \<Rightarrow> 'f" where
  "ElapsedHours F nowMs updatedAtMs = f_div F (f_of_int F (max (i64_wrap (nowMs - updatedAtMs)) 0)) (f_lit F 3600000 1)"

section \<open>Building edges\<close>

text \<open>The keywords of a node's topics; a set of strings is a list without repetitions.\<close>

fun node_keywords :: "(string \<Rightarrow> string) \<Rightarrow> StorageEngine \<Rightarrow> u64 \<Rightarrow> u64 list \<Rightarrow> string list \<Rightarrow> goerr + string list" where
  "node_keywords lower engine agentID [] kws = Inr kws"
| "node_keywords lower engine agentID (t # ts) kws = (case ReadTopicLenient engine agentID t of
     Inl err \<Rightarrow> if CodeOf err \<noteq> ErrNotFound then Inl err else node_keywords lower engine agentID ts kws
   | Inr None \<Rightarrow> node_keywords lower engine agentID ts kws
   | Inr (Some topic) \<Rightarrow> node_keywords lower engine agentID ts (fold (\<lambda>kw. List.insert (lower kw)) (ts_FusedKeywords topic) kws))"

definition invert_node :: "u64 \<Rightarrow> string list \<Rightarrow> (string, u64 list) gomap \<Rightarrow> (string, u64 list) gomap" where
  "invert_node i kws inverted =
     fold (\<lambda>kw inv. AList.update kw ((case map_of inv kw of None \<Rightarrow> [] | Some ns \<Rightarrow> ns) @ [i]) inv) kws inverted"

fun collectNodeKeywordSets :: "(string \<Rightarrow> string) \<Rightarrow> StorageEngine \<Rightarrow> u64 \<Rightarrow> 'f SceneNode list
    \<Rightarrow> (u64, string list) gomap \<Rightarrow> (string, u64 list) gomap \<Rightarrow> goerr + (u64, string list) gomap \<times> (string, u64 list) gomap" where
  "collectNodeKeywordSets lower engine agentID [] kwByNode inverted = Inr (kwByNode, inverted)"
| "collectNodeKeywordSets lower engine agentID (node # nodes) kwByNode inverted =
     (case node_keywords lower engine agentID (sn_TopicIDs node) [] of Inl err \<Rightarrow> Inl err
      | Inr kws \<Rightarrow>
          if length kws = 0 then collectNodeKeywordSets lower engine agentID nodes kwByNode inverted
          else collectNodeKeywordSets lower engine agentID nodes (AList.update (sn_IDHash node) kws kwByNode)
            (invert_node (sn_IDHash node) kws inverted))"

definition jaccard :: "'f float64 \<Rightarrow> string list \<Rightarrow> string list \<Rightarrow> 'f option" where
  "jaccard F setA setB =
     (let inter = length (filter (\<lambda>kw. kw \<in> set setA) setB);
          union = length setA + length (filter (\<lambda>kw. kw \<notin> set setA) setB)
      in if union = 0 then None else Some (f_div F (f_of_int F (int inter)) (f_of_int F (int union))))"

definition l1edge_id :: "(string \<Rightarrow> u64) \<Rightarrow> u64 \<Rightarrow> u64 \<Rightarrow> u64" where
  "l1edge_id H lo hi = H (''l1edge:'' @ dec_word lo @ '':'' @ dec_word hi)"

text \<open>The edge enters the edge lists of its ends; an end that does not read back is passed over.\<close>

fun attach_edge :: "'f l1_json \<Rightarrow> u64 \<Rightarrow> u64 \<Rightarrow> u64 list \<Rightarrow> StorageEngine \<Rightarrow> (goerr + bool) \<times> StorageEngine" where
  "attach_edge J agentID edgeID [] engine = (Inr True, engine)"
| "attach_edge J agentID edgeID (n # ns) engine = (case ReadSceneNode (get_node J) engine agentID n of
     Inl _ \<Rightarrow> attach_edge J agentID edgeID ns engine
   | Inr node \<Rightarrow>
       if edgeID \<in> set (sn_EdgeIDs node) then attach_edge J agentID edgeID ns engine
       else (case WriteSceneNode (put_node J) agentID n (node\<lparr>sn_EdgeIDs := sn_EdgeIDs node @ [edgeID]\<rparr>) engine of
           (Inl err, engine) \<Rightarrow> (Inl err, engine)
         | (Inr _, engine) \<Rightarrow> attach_edge J agentID edgeID ns engine))"

definition upsertSceneEdge :: "'f float64 \<Rightarrow> 'f l1_json \<Rightarrow> (string \<Rightarrow> u64) \<Rightarrow> u64 \<Rightarrow> u64 \<Rightarrow> u64 \<Rightarrow> 'f \<Rightarrow> i64 \<Rightarrow> bool
    \<Rightarrow> StorageEngine \<Rightarrow> (goerr + bool) \<times> StorageEngine" where
  "upsertSceneEdge F J H agentID nodeA nodeB similarity now evidenceChanged engine =
     (let lo = min nodeA nodeB; hi = max nodeA nodeB; edgeID = l1edge_id H lo hi;
          write = (\<lambda>edge. case WriteSceneEdge J agentID edgeID (edge\<lparr>se_Weight := similarity\<rparr>) engine of
            (Inl err, engine) \<Rightarrow> (Inl err, engine) | (Inr _, engine) \<Rightarrow> attach_edge J agentID edgeID [lo, hi] engine)
      in case ReadSceneEdge J engine agentID edgeID of
           Inl err \<Rightarrow> if CodeOf err \<noteq> ErrNotFound then (Inl err, engine)
             else write \<lparr>se_IDHash = edgeID, se_NodeIDs = [lo, hi], se_Weight = f_lit F 0 1, se_CreatedAt = now, se_LastDecayAt = 0\<rparr>
         | Inr edge \<Rightarrow>
             if f_le F similarity (se_Weight edge) then (Inr False, engine)
             else if \<not> evidenceChanged then (Inr False, engine)
             else write edge)"

fun pairs_of :: "'a list \<Rightarrow> ('a \<times> 'a) list" where
  "pairs_of [] = []"
| "pairs_of (a # rest) = map (Pair a) rest @ pairs_of rest"

fun pair_loop :: "'f float64 \<Rightarrow> 'f l1_json \<Rightarrow> (string \<Rightarrow> u64) \<Rightarrow> u64 \<Rightarrow> 'f \<Rightarrow> u64 list \<Rightarrow> (u64, string list) gomap \<Rightarrow> i64
    \<Rightarrow> (u64 \<times> u64) list \<Rightarrow> (u64 \<times> u64) list \<Rightarrow> nat \<Rightarrow> StorageEngine \<Rightarrow> (nat \<times> goerr option) \<times> StorageEngine" where
  "pair_loop F J H agentID minSimilarity touched kwByNode now [] seen changed engine = ((changed, None), engine)"
| "pair_loop F J H agentID minSimilarity touched kwByNode now ((a, b) # rest) seen changed engine =
     (let lo = min a b; hi = max a b; kws = (\<lambda>i. case map_of kwByNode i of None \<Rightarrow> [] | Some ks \<Rightarrow> ks)
      in if (lo, hi) \<in> set seen then pair_loop F J H agentID minSimilarity touched kwByNode now rest seen changed engine
         else (case jaccard F (kws lo) (kws hi) of
             None \<Rightarrow> pair_loop F J H agentID minSimilarity touched kwByNode now rest ((lo, hi) # seen) changed engine
           | Some sim \<Rightarrow>
               if f_lt F sim minSimilarity then pair_loop F J H agentID minSimilarity touched kwByNode now rest ((lo, hi) # seen) changed engine
               else (case upsertSceneEdge F J H agentID lo hi sim now (lo \<in> set touched \<or> hi \<in> set touched) engine of
                   (Inl err, engine) \<Rightarrow> ((changed, Some err), engine)
                 | (Inr written, engine) \<Rightarrow> pair_loop F J H agentID minSimilarity touched kwByNode now rest ((lo, hi) # seen)
                     (if written then changed + 1 else changed) engine)))"

definition BuildHyperedges :: "'f float64 \<Rightarrow> 'f l1_json \<Rightarrow> (string \<Rightarrow> u64) \<Rightarrow> (string \<Rightarrow> string) \<Rightarrow> i64 \<Rightarrow> u64 \<Rightarrow> 'f \<Rightarrow> u64 list
    \<Rightarrow> StorageEngine \<Rightarrow> (nat \<times> goerr option) \<times> StorageEngine" where
  "BuildHyperedges F J H lower now agentID minSimilarity touched engine =
     (case CollectAllStrict (get_node J) engine agentID RecL1SceneNode of Inl err \<Rightarrow> ((0, Some err), engine)
      | Inr nodes \<Rightarrow>
          if length nodes < 2 then ((0, None), engine)
          else (case collectNodeKeywordSets lower engine agentID nodes [] [] of Inl err \<Rightarrow> ((0, Some err), engine)
            | Inr (kwByNode, inverted) \<Rightarrow>
                pair_loop F J H agentID minSimilarity touched kwByNode now (concat (map (\<lambda>(_, ns). pairs_of ns) inverted)) [] 0 engine))"

section \<open>Dropping edges and stale nodes\<close>

record 'f DecayParams =
  dp_LambdaNode :: 'f
  dp_LambdaEdge :: 'f
  dp_NodeRemoveThreshold :: 'f
  dp_NodePruneEdgeThreshold :: 'f
  dp_EdgeRemoveThreshold :: 'f
  dp_MinEdgeNodes :: int

record DecayReport =
  rp_RemovedNodes :: nat
  rp_RemovedEdges :: nat

definition removeEdgeFromNode :: "'f l1_json \<Rightarrow> u64 \<Rightarrow> u64 \<Rightarrow> u64 \<Rightarrow> StorageEngine \<Rightarrow> (goerr + unit) \<times> StorageEngine" where
  "removeEdgeFromNode J agentID nodeID edgeID engine = (case ReadSceneNode (get_node J) engine agentID nodeID of
     Inl err \<Rightarrow> (if CodeOf err = ErrNotFound then Inr () else Inl err, engine)
   | Inr node \<Rightarrow>
       let edges = filter (\<lambda>i. i \<noteq> edgeID) (sn_EdgeIDs node)
       in if length edges = length (sn_EdgeIDs node) then (Inr (), engine)
          else WriteSceneNode (put_node J) agentID nodeID (node\<lparr>sn_EdgeIDs := edges\<rparr>) engine)"

fun clear_refs :: "'f l1_json \<Rightarrow> u64 \<Rightarrow> u64 \<Rightarrow> u64 list \<Rightarrow> StorageEngine \<Rightarrow> (goerr + unit) \<times> StorageEngine" where
  "clear_refs J agentID edgeID [] engine = (Inr (), engine)"
| "clear_refs J agentID edgeID (n # ns) engine = (case removeEdgeFromNode J agentID n edgeID engine of
     (Inl err, engine) \<Rightarrow> (Inl err, engine) | (Inr _, engine) \<Rightarrow> clear_refs J agentID edgeID ns engine)"

text \<open>The references of the surviving members, then the edge itself.\<close>

definition drop_edge :: "'f l1_json \<Rightarrow> u64 \<Rightarrow> u64 \<Rightarrow> u64 list \<Rightarrow> StorageEngine \<Rightarrow> (goerr + unit) \<times> StorageEngine" where
  "drop_edge J agentID edgeID members engine = (case clear_refs J agentID edgeID members engine of
     (Inl err, engine) \<Rightarrow> (Inl err, engine)
   | (Inr _, engine) \<Rightarrow> (case DeleteRecord agentID edgeID engine of (Inl err, engine) \<Rightarrow> (Inl err, engine) | (Inr _, engine) \<Rightarrow> (Inr (), engine)))"

definition removeNodeFromEdge :: "'f l1_json \<Rightarrow> 'f DecayParams \<Rightarrow> u64 \<Rightarrow> u64 \<Rightarrow> u64 \<Rightarrow> StorageEngine \<Rightarrow> (goerr + bool) \<times> StorageEngine" where
  "removeNodeFromEdge J cfg agentID edgeID nodeID engine = (case ReadSceneEdge J engine agentID edgeID of
     Inl err \<Rightarrow> (if CodeOf err = ErrNotFound then Inr False else Inl err, engine)
   | Inr edge \<Rightarrow>
       let members = filter (\<lambda>i. i \<noteq> nodeID) (se_NodeIDs edge)
       in if length members = length (se_NodeIDs edge) then (Inr False, engine)
          else if int (length members) < dp_MinEdgeNodes cfg
          then (case drop_edge J agentID edgeID members engine of (Inl err, engine) \<Rightarrow> (Inl err, engine) | (Inr _, engine) \<Rightarrow> (Inr True, engine))
          else (case WriteSceneEdge J agentID edgeID (edge\<lparr>se_NodeIDs := members\<rparr>) engine of
              (Inl err, engine) \<Rightarrow> (Inl err, engine) | (Inr _, engine) \<Rightarrow> (Inr False, engine)))"

definition keepDeepNode :: "L2MetaIndex \<Rightarrow> StorageEngine \<Rightarrow> u64 \<Rightarrow> u64 \<Rightarrow> L2Meta \<Rightarrow> goerr + bool" where
  "keepDeepNode l2Meta engine agentID topicID meta =
     (if lm_Depth meta \<noteq> 3 then Inr False
      else case ReadTopicLenient engine agentID topicID of
          Inl err \<Rightarrow> if CodeOf err \<noteq> ErrNotFound then Inl err else Inr False
        | Inr None \<Rightarrow> Inr False
        | Inr (Some topic) \<Rightarrow> (case ts_ParentID topic of None \<Rightarrow> Inr False
            | Some p \<Rightarrow> Inr (case L2_Get l2Meta p of None \<Rightarrow> False | Some parent \<Rightarrow> lm_Depth parent \<le> 2)))"

definition isNodeStale :: "L2MetaIndex \<Rightarrow> StorageEngine \<Rightarrow> u64 \<Rightarrow> 'f SceneNode \<Rightarrow> goerr + bool" where
  "isNodeStale l2Meta engine agentID node = (case sn_TopicIDs node of [] \<Rightarrow> Inr True
     | firstID # _ \<Rightarrow>
         if firstID = 0 \<or> \<not> Contains engine agentID firstID then Inr True
         else (case L2_Get l2Meta firstID of None \<Rightarrow> Inr False
           | Some meta \<Rightarrow>
               if lm_Depth meta \<le> 2 then Inr False
               else (case keepDeepNode l2Meta engine agentID firstID meta of Inl err \<Rightarrow> Inl err | Inr keep \<Rightarrow> Inr (\<not> keep))))"

fun leave_edges :: "'f l1_json \<Rightarrow> 'f DecayParams \<Rightarrow> u64 \<Rightarrow> u64 \<Rightarrow> u64 list \<Rightarrow> nat \<Rightarrow> StorageEngine \<Rightarrow> (nat \<times> goerr option) \<times> StorageEngine" where
  "leave_edges J cfg agentID nodeID [] removed engine = ((removed, None), engine)"
| "leave_edges J cfg agentID nodeID (edgeID # rest) removed engine = (case removeNodeFromEdge J cfg agentID edgeID nodeID engine of
     (Inl err, engine) \<Rightarrow> ((removed, Some err), engine)
   | (Inr gone, engine) \<Rightarrow> leave_edges J cfg agentID nodeID rest (if gone then removed + 1 else removed) engine)"

fun rebuild_nodes :: "'f l1_json \<Rightarrow> 'f DecayParams \<Rightarrow> L2MetaIndex \<Rightarrow> u64 \<Rightarrow> 'f SceneNode list \<Rightarrow> string list \<Rightarrow> nat
    \<Rightarrow> StorageEngine \<Rightarrow> (string list \<times> nat \<times> goerr option) \<times> StorageEngine" where
  "rebuild_nodes J cfg l2Meta agentID [] updated edgesRemoved engine = ((updated, edgesRemoved, None), engine)"
| "rebuild_nodes J cfg l2Meta agentID (node # nodes) updated edgesRemoved engine = (case isNodeStale l2Meta engine agentID node of
     Inl err \<Rightarrow> ((updated, edgesRemoved, Some err), engine)
   | Inr stale \<Rightarrow>
       if \<not> stale then rebuild_nodes J cfg l2Meta agentID nodes updated edgesRemoved engine
       else (case leave_edges J cfg agentID (sn_IDHash node) (sn_EdgeIDs node) edgesRemoved engine of
           ((edgesRemoved, Some err), engine) \<Rightarrow> ((updated, edgesRemoved, Some err), engine)
         | ((edgesRemoved, None), engine) \<Rightarrow> (case DeleteRecord agentID (sn_IDHash node) engine of
             (Inl err, engine) \<Rightarrow> ((updated, edgesRemoved, Some err), engine)
           | (Inr _, engine) \<Rightarrow> rebuild_nodes J cfg l2Meta agentID nodes (updated @ [FormatHash (sn_IDHash node)]) edgesRemoved engine)))"

definition RebuildFromL2 :: "'f l1_json \<Rightarrow> u64 \<Rightarrow> L2MetaIndex \<Rightarrow> 'f DecayParams \<Rightarrow> StorageEngine
    \<Rightarrow> (string list \<times> nat \<times> goerr option) \<times> StorageEngine" where
  "RebuildFromL2 J agentID l2Meta cfg engine = (case CollectAllStrict (get_node J) engine agentID RecL1SceneNode of
     Inl err \<Rightarrow> (([], 0, Some err), engine) | Inr nodes \<Rightarrow> rebuild_nodes J cfg l2Meta agentID nodes [] 0 engine)"

section \<open>Decay\<close>

definition applyEmotionalBoost :: "'f float64 \<Rightarrow> 'f \<Rightarrow> 'f \<Rightarrow> 'f \<Rightarrow> 'f" where
  "applyEmotionalBoost F baseLambda valence arousal =
     (let strength = f_mul F (f_abs F (f_sub F valence (f_lit F 1 2))) (f_lit F 2 1);
          strength = (if f_lt F (f_lit F 1 1) strength then f_lit F 1 1 else strength);
          arousal = f_min F (f_max F arousal (f_lit F 0 1)) (f_lit F 1 1)
      in f_mul F baseLambda (f_sub F (f_lit F 1 1) (f_mul F (f_mul F (f_lit F 9 10) strength) arousal)))"

definition decayed :: "'f float64 \<Rightarrow> 'f \<Rightarrow> 'f \<Rightarrow> 'f \<Rightarrow> 'f" where
  "decayed F x lambda hours = f_mul F x (f_exp F (f_mul F (f_neg F lambda) hours))"

definition node_importance :: "'f float64 \<Rightarrow> 'f DecayParams \<Rightarrow> i64 \<Rightarrow> 'f SceneNode \<Rightarrow> 'f" where
  "node_importance F cfg nowMs node = decayed F (sn_Importance node)
     (applyEmotionalBoost F (dp_LambdaNode cfg) (sn_Valence node) (sn_Arousal node)) (ElapsedHours F nowMs (sn_UpdatedAt node))"

definition skipDeepNode :: "L2MetaIndex \<Rightarrow> 'f SceneNode \<Rightarrow> bool" where
  "skipDeepNode l2Meta node = (case sn_TopicIDs node of [] \<Rightarrow> False
     | t # _ \<Rightarrow> (case L2_Get l2Meta t of None \<Rightarrow> False | Some meta \<Rightarrow> lm_Depth meta > 2))"

record decay_state =
  ds_Report :: DecayReport
  ds_Removed :: "u64 list"
  ds_Cleared :: "(u64, u64 list) gomap"

definition clear_for :: "u64 \<Rightarrow> u64 \<Rightarrow> (u64, u64 list) gomap \<Rightarrow> (u64, u64 list) gomap" where
  "clear_for nodeID edgeID clr = AList.update edgeID (List.insert nodeID (case map_of clr edgeID of None \<Rightarrow> [] | Some ns \<Rightarrow> ns)) clr"

definition decayOneNode :: "'f float64 \<Rightarrow> 'f l1_json \<Rightarrow> 'f DecayParams \<Rightarrow> u64 \<Rightarrow> i64 \<Rightarrow> 'f SceneNode \<Rightarrow> decay_state
    \<Rightarrow> StorageEngine \<Rightarrow> (decay_state \<times> goerr option) \<times> StorageEngine" where
  "decayOneNode F J cfg agentID nowMs node st engine =
     (let newImportance = node_importance F cfg nowMs node
      in if f_lt F newImportance (dp_NodeRemoveThreshold cfg)
         then (case DeleteRecord agentID (sn_IDHash node) engine of
             (Inl err, engine) \<Rightarrow> ((st, Some err), engine)
           | (Inr _, engine) \<Rightarrow> ((st\<lparr>ds_Removed := List.insert (sn_IDHash node) (ds_Removed st),
               ds_Report := (ds_Report st)\<lparr>rp_RemovedNodes := rp_RemovedNodes (ds_Report st) + 1\<rparr>\<rparr>, None), engine))
         else
           let prune = f_lt F newImportance (dp_NodePruneEdgeThreshold cfg);
               st = (if prune then st\<lparr>ds_Cleared := fold (clear_for (sn_IDHash node)) (sn_EdgeIDs node) (ds_Cleared st)\<rparr> else st);
               node = node\<lparr>sn_Importance := newImportance, sn_EdgeIDs := (if prune then [] else sn_EdgeIDs node), sn_UpdatedAt := nowMs\<rparr>
           in (case WriteSceneNode (put_node J) agentID (sn_IDHash node) node engine of
               (Inl err, engine) \<Rightarrow> ((st, Some err), engine) | (Inr _, engine) \<Rightarrow> ((st, None), engine)))"

fun decay_nodes :: "'f float64 \<Rightarrow> 'f l1_json \<Rightarrow> 'f DecayParams \<Rightarrow> L2MetaIndex \<Rightarrow> u64 \<Rightarrow> i64 \<Rightarrow> 'f SceneNode list \<Rightarrow> decay_state
    \<Rightarrow> StorageEngine \<Rightarrow> (decay_state \<times> goerr option) \<times> StorageEngine" where
  "decay_nodes F J cfg l2Meta agentID nowMs [] st engine = ((st, None), engine)"
| "decay_nodes F J cfg l2Meta agentID nowMs (node # nodes) st engine =
     (if skipDeepNode l2Meta node then decay_nodes F J cfg l2Meta agentID nowMs nodes st engine
      else (case decayOneNode F J cfg agentID nowMs node st engine of
          ((st, Some err), engine) \<Rightarrow> ((st, Some err), engine)
        | ((st, None), engine) \<Rightarrow> decay_nodes F J cfg l2Meta agentID nowMs nodes st engine))"

definition decayNodes :: "'f float64 \<Rightarrow> 'f l1_json \<Rightarrow> 'f DecayParams \<Rightarrow> L2MetaIndex \<Rightarrow> u64 \<Rightarrow> i64
    \<Rightarrow> StorageEngine \<Rightarrow> (decay_state \<times> goerr option) \<times> StorageEngine" where
  "decayNodes F J cfg l2Meta agentID nowMs engine =
     (let st = \<lparr>ds_Report = \<lparr>rp_RemovedNodes = 0, rp_RemovedEdges = 0\<rparr>, ds_Removed = [], ds_Cleared = []\<rparr>
      in case CollectAllStrict (get_node J) engine agentID RecL1SceneNode of Inl err \<Rightarrow> ((st, Some err), engine)
         | Inr nodes \<Rightarrow> decay_nodes F J cfg l2Meta agentID nowMs nodes st engine)"

definition count_edge :: "DecayReport \<Rightarrow> DecayReport" where
  "count_edge rep = rep\<lparr>rp_RemovedEdges := rp_RemovedEdges rep + 1\<rparr>"

text \<open>The two nested loops over the cleared references, as one over their pairs.\<close>

fun propagate_loop :: "'f l1_json \<Rightarrow> 'f DecayParams \<Rightarrow> u64 \<Rightarrow> (u64 \<times> u64) list \<Rightarrow> DecayReport \<Rightarrow> StorageEngine
    \<Rightarrow> (DecayReport \<times> goerr option) \<times> StorageEngine" where
  "propagate_loop J cfg agentID [] rep engine = ((rep, None), engine)"
| "propagate_loop J cfg agentID ((edgeID, nodeID) # rest) rep engine = (case removeNodeFromEdge J cfg agentID edgeID nodeID engine of
     (Inl err, engine) \<Rightarrow> ((rep, Some err), engine)
   | (Inr gone, engine) \<Rightarrow> propagate_loop J cfg agentID rest (if gone then count_edge rep else rep) engine)"

definition propagateClearedEdges :: "'f l1_json \<Rightarrow> 'f DecayParams \<Rightarrow> u64 \<Rightarrow> (u64, u64 list) gomap \<Rightarrow> DecayReport \<Rightarrow> StorageEngine
    \<Rightarrow> (DecayReport \<times> goerr option) \<times> StorageEngine" where
  "propagateClearedEdges J cfg agentID clr rep engine =
     propagate_loop J cfg agentID (concat (map (\<lambda>(edgeID, ns). map (Pair edgeID) ns) clr)) rep engine"

definition decayOneEdge :: "'f float64 \<Rightarrow> 'f l1_json \<Rightarrow> 'f DecayParams \<Rightarrow> u64 \<Rightarrow> u64 list \<Rightarrow> i64 \<Rightarrow> 'f SceneEdge \<Rightarrow> u64 \<Rightarrow> DecayReport
    \<Rightarrow> StorageEngine \<Rightarrow> (DecayReport \<times> goerr option) \<times> StorageEngine" where
  "decayOneEdge F J cfg agentID removed nowMs edge idHash rep engine =
     (let baseMs = (if se_LastDecayAt edge = 0 then se_CreatedAt edge else se_LastDecayAt edge);
          newWeight = decayed F (se_Weight edge) (dp_LambdaEdge cfg) (ElapsedHours F nowMs baseMs);
          members = filter (\<lambda>i. \<not> (i \<in> set removed \<or> \<not> Contains engine agentID i)) (se_NodeIDs edge)
      in if int (length members) < dp_MinEdgeNodes cfg \<or> f_lt F newWeight (dp_EdgeRemoveThreshold cfg)
         then (case drop_edge J agentID idHash members engine of
             (Inl err, engine) \<Rightarrow> ((rep, Some err), engine) | (Inr _, engine) \<Rightarrow> ((count_edge rep, None), engine))
         else (case WriteSceneEdge J agentID idHash (edge\<lparr>se_NodeIDs := members, se_Weight := newWeight, se_LastDecayAt := nowMs\<rparr>) engine of
             (Inl err, engine) \<Rightarrow> ((rep, Some err), engine) | (Inr _, engine) \<Rightarrow> ((rep, None), engine)))"

fun decay_edges :: "'f float64 \<Rightarrow> 'f l1_json \<Rightarrow> 'f DecayParams \<Rightarrow> u64 \<Rightarrow> u64 list \<Rightarrow> i64 \<Rightarrow> u64 list \<Rightarrow> DecayReport
    \<Rightarrow> StorageEngine \<Rightarrow> (DecayReport \<times> goerr option) \<times> StorageEngine" where
  "decay_edges F J cfg agentID removed nowMs [] rep engine = ((rep, None), engine)"
| "decay_edges F J cfg agentID removed nowMs (idHash # rest) rep engine = (case ReadSceneEdge J engine agentID idHash of
     Inl err \<Rightarrow> if CodeOf err = ErrNotFound then decay_edges F J cfg agentID removed nowMs rest rep engine else ((rep, Some err), engine)
   | Inr edge \<Rightarrow> (case decayOneEdge F J cfg agentID removed nowMs edge idHash rep engine of
       ((rep, Some err), engine) \<Rightarrow> ((rep, Some err), engine)
     | ((rep, None), engine) \<Rightarrow> decay_edges F J cfg agentID removed nowMs rest rep engine))"

definition decayRemainingEdges :: "'f float64 \<Rightarrow> 'f l1_json \<Rightarrow> 'f DecayParams \<Rightarrow> u64 \<Rightarrow> u64 list \<Rightarrow> i64 \<Rightarrow> DecayReport
    \<Rightarrow> StorageEngine \<Rightarrow> (DecayReport \<times> goerr option) \<times> StorageEngine" where
  "decayRemainingEdges F J cfg agentID removed nowMs rep engine =
     decay_edges F J cfg agentID removed nowMs (IndexByType engine agentID RecL1Hyperedge) rep engine"

definition DecayNetwork :: "'f float64 \<Rightarrow> 'f l1_json \<Rightarrow> i64 \<Rightarrow> u64 \<Rightarrow> L2MetaIndex \<Rightarrow> 'f DecayParams
    \<Rightarrow> StorageEngine \<Rightarrow> (DecayReport \<times> goerr option) \<times> StorageEngine" where
  "DecayNetwork F J nowMs agentID l2Meta cfg engine = (case decayNodes F J cfg l2Meta agentID nowMs engine of
     ((st, Some err), engine) \<Rightarrow> ((ds_Report st, Some err), engine)
   | ((st, None), engine) \<Rightarrow> (case propagateClearedEdges J cfg agentID (ds_Cleared st) (ds_Report st) engine of
       ((rep, Some err), engine) \<Rightarrow> ((rep, Some err), engine)
     | ((rep, None), engine) \<Rightarrow> decayRemainingEdges F J cfg agentID (ds_Removed st) nowMs rep engine))"

end
