(* ===== verification/Config.thy ===== *)
theory Config
  imports Codec
begin

text \<open>
  The settings of a library (\<^verbatim>\<open>internal/config\<close>): the checks that refuse a configuration and the defaults that fill
  the knobs left at zero. A Go \<^verbatim>\<open>int\<close> is an \<^verbatim>\<open>int64\<close> here, as on every 64-bit build.
\<close>

record LlmConfig =
  lc_APIURL :: string
  lc_APIKey :: string
  lc_Model :: string
  lc_TimeoutSecs :: i64
  lc_MaxOutputTokens :: i64

text \<open>\<^verbatim>\<open>math.MaxInt64 / int64(time.Second)\<close> and \<^verbatim>\<open>math.MaxInt64 / int64(time.Millisecond)\<close>.\<close>

definition MaxTimeoutSecs :: i64 where "MaxTimeoutSecs = (2 ^ 63 - 1) div 10 ^ 9"
definition MaxContentRetentionMs :: i64 where "MaxContentRetentionMs = (2 ^ 63 - 1) div 10 ^ 6"

definition LlmConfig_Validate :: "LlmConfig \<Rightarrow> goerr + unit" where
  "LlmConfig_Validate c = (if lc_APIURL c = '''' \<or> lc_APIKey c = '''' \<or> lc_Model c = '''' then Inl (NewError ErrConfig)
     else if lc_TimeoutSecs c > MaxTimeoutSecs then Inl (NewError ErrConfig) else Inr ())"

record MemHopDefaults =
  md_SceneDreamTopicThreshold :: i64
  md_DreamCompressMinTopics :: i64
  md_AgentIdleTTLMs :: i64
  md_ContentRetentionMs :: i64

definition Defaults_Validate :: "MemHopDefaults \<Rightarrow> goerr + unit" where
  "Defaults_Validate m = (if md_ContentRetentionMs m < 0 then Inl (NewError ErrConfig)
     else if md_ContentRetentionMs m > MaxContentRetentionMs then Inl (NewError ErrConfig) else Inr ())"

definition DefaultMemHopDefaults :: MemHopDefaults where
  "DefaultMemHopDefaults = \<lparr>md_SceneDreamTopicThreshold = 24, md_DreamCompressMinTopics = 20, md_AgentIdleTTLMs = 3600000,
     md_ContentRetentionMs = 7 * 24 * 60 * 60 * 1000\<rparr>"

definition Normalized :: "MemHopDefaults \<Rightarrow> MemHopDefaults" where
  "Normalized m =
     \<lparr>md_SceneDreamTopicThreshold = (if md_SceneDreamTopicThreshold m = 0 then md_SceneDreamTopicThreshold DefaultMemHopDefaults else md_SceneDreamTopicThreshold m),
      md_DreamCompressMinTopics = (if md_DreamCompressMinTopics m = 0 then md_DreamCompressMinTopics DefaultMemHopDefaults
        else if md_DreamCompressMinTopics m < 0 then 0 else md_DreamCompressMinTopics m),
      md_AgentIdleTTLMs = (if md_AgentIdleTTLMs m = 0 then md_AgentIdleTTLMs DefaultMemHopDefaults else md_AgentIdleTTLMs m),
      md_ContentRetentionMs = (if md_ContentRetentionMs m \<le> 0 then md_ContentRetentionMs DefaultMemHopDefaults else md_ContentRetentionMs m)\<rparr>"

end
