(* ===== verification/Open_Handle.thy ===== *)
theory Open_Handle
  imports Agents Config
begin

text \<open>
  Opening a database (\<^verbatim>\<open>internal/config.go\<close>): what lies at the path decides between opening and creating, the
  name tables are read back from the registry records, and the primary domain gets its profile once.
\<close>

text \<open>What \<^verbatim>\<open>os.Stat\<close> finds at a path.\<close>

datatype path_state = No_Path | Directory | Stat_Failed goerr | Regular osfile

definition openEngine :: "path_state \<Rightarrow> osfile \<Rightarrow> bool \<Rightarrow> goerr + StorageEngine" where
  "openEngine at fresh allowCreate = (case at of
     Directory \<Rightarrow> Inl (NewError ErrInvalidQuery)
   | Regular f \<Rightarrow> fst (Open f)
   | No_Path \<Rightarrow> if \<not> allowCreate then Inl (NewError ErrConfig) else fst (Create fresh)
   | Stat_Failed err \<Rightarrow> Inl (Error ErrIO (Some err)))"

definition assemble :: "StorageEngine \<Rightarrow> MemHopDefaults \<Rightarrow> DB" where
  "assemble engine defaults = (case loadTenantRegistry engine of ((idToName, nameToID), _) \<Rightarrow>
     \<lparr>db_engine = engine, db_closed = False, db_agents = [], db_nameToID = nameToID, db_idToName = idToName,
      db_LastActiveAt = [], db_DreamInFlight = (\<lambda>_. {}), db_AgentIdleTTLMs = md_AgentIdleTTLMs defaults,
      db_SceneDreamTopicThreshold = md_SceneDreamTopicThreshold defaults\<rparr>)"

definition abandon :: "DB \<Rightarrow> goerr \<Rightarrow> goerr" where
  "abandon db cause = (case Close_DB db of (Inl err, _) \<Rightarrow> Joined [cause, err] | (Inr _, _) \<Rightarrow> cause)"

text \<open>\<open>fresh\<close> is the empty file a creation starts from, with the faults it will meet.\<close>

definition OpenDB :: "(('e, 'm) ProfileSlot \<Rightarrow> goerr + bytes) \<Rightarrow> (bytes \<Rightarrow> goerr + ('e, 'm) ProfileSlot) \<Rightarrow> (string \<Rightarrow> u64) \<Rightarrow> i64
    \<Rightarrow> string \<Rightarrow> path_state \<Rightarrow> osfile \<Rightarrow> LlmConfig \<Rightarrow> MemHopDefaults \<Rightarrow> ('e, 'm) ProfileSlot option \<Rightarrow> goerr + DB" where
  "OpenDB tojson dec H now path at fresh llmCfg defaults primary =
     (if path = '''' then Inl (NewError ErrConfig)
      else case LlmConfig_Validate llmCfg of Inl err \<Rightarrow> Inl err | Inr _ \<Rightarrow>
      (case Defaults_Validate defaults of Inl err \<Rightarrow> Inl err | Inr _ \<Rightarrow>
       if (case primary of None \<Rightarrow> False | Some p \<Rightarrow> TrimSpace (pr_Name p) = '''') then Inl (NewError ErrInvalidQuery)
       else case openEngine at fresh (primary \<noteq> None) of Inl err \<Rightarrow> Inl err | Inr engine \<Rightarrow>
       (let db = assemble engine (Normalized defaults)
        in case HasProfileL0 dec H engine DefaultAgentID of
            Inl err \<Rightarrow> Inl (abandon db err)
          | Inr has \<Rightarrow> if has then Inr db
              else (case primary of None \<Rightarrow> Inl (abandon db (NewError ErrConfig))
                | Some p \<Rightarrow>
                    let slot = p\<lparr>pr_Name := TrimSpace (pr_Name p), pr_AgentType := AgentTypePrimary, pr_UpdatedAtMs := now\<rparr>
                    in (case UpdateProfileL0 tojson H DefaultAgentID slot engine of
                        (Inl err, engine) \<Rightarrow> Inl (abandon (db\<lparr>db_engine := engine\<rparr>) err)
                      | (Inr _, engine) \<Rightarrow> Inr (db\<lparr>db_engine := engine\<rparr>))))))"

end
