(* ===== verification/Dream_Run.thy ===== *)
theory Dream_Run
  imports Dream Engram Open_Handle
begin

text \<open>
  One Dream from end to end: the distillation of a profile (\<^verbatim>\<open>internal/cap/profile/distill.go\<close>), the stages of
  \<^verbatim>\<open>internal/dream/structure.go\<close> with their cancellation checkpoints (\<^verbatim>\<open>report.go\<close>) and \<open>RunDream\<close> of
  \<^verbatim>\<open>internal/dream.go\<close>, which runs the passes of \<open>Dream\<close> and \<open>Engram\<close> in the order of the source under the domain
  lock. What a pass asks of the world, the clock, the cancellation of the host, the answers of the language model, is
  one record; the profile and the L1 records have their JSON form as arguments. \<open>CompactTo\<close> of \<^verbatim>\<open>internal/db.go\<close>
  comes last.
\<close>

section \<open>The samples of a distillation\<close>

record 'f DistillSample =
  dsm_IDHash :: u64
  dsm_Keywords :: "string list"
  dsm_Importance :: 'f

record ('e, 'm, 'f) DistillOutput =
  do_Emotion :: 'e
  do_MBTI :: 'm
  do_Personality :: string
  do_PerNode :: "(u64, 'f NodeEmotion) gomap"

definition maxDistillSamples :: nat where "maxDistillSamples = 200"
definition maxDistillKeywordsPerSample :: nat where "maxDistillKeywordsPerSample = 20"

text \<open>\<^verbatim>\<open>cmp.Compare\<close> on \<^verbatim>\<open>float64\<close>: a NaN, the one value not below or equal to itself, lies below all others.\<close>

definition cmp_float :: "'f float64 \<Rightarrow> 'f \<Rightarrow> 'f \<Rightarrow> int" where
  "cmp_float F x y =
     (if \<not> f_le F x x then (if \<not> f_le F y y then 0 else -1)
      else if \<not> f_le F y y then 1
      else if f_lt F x y then -1 else if f_lt F y x then 1 else 0)"

definition sampleRank :: "'f float64 \<Rightarrow> i64 \<Rightarrow> 'f SceneNode \<Rightarrow> 'f" where
  "sampleRank F nowMs node =
     f_mul F (sn_Importance node) (f_exp F (f_mul F (f_neg F (f_lit F 1 100)) (ElapsedHours F nowMs (sn_UpdatedAt node))))"

text \<open>The keywords of one sample, cut at the bound; a topic that does not read back is passed over.\<close>

definition sampleKeywords :: "StorageEngine \<Rightarrow> u64 \<Rightarrow> u64 list \<Rightarrow> string list" where
  "sampleKeywords engine agentID topicIDs = take maxDistillKeywordsPerSample
     (concat (map (\<lambda>i. case ReadTopicLenient engine agentID i of Inr (Some t) \<Rightarrow> ts_FusedKeywords t | _ \<Rightarrow> []) topicIDs))"

definition Samples :: "'f float64 \<Rightarrow> 'f l1_json \<Rightarrow> i64 \<Rightarrow> StorageEngine \<Rightarrow> u64 \<Rightarrow> 'f DistillSample list" where
  "Samples F J nowMs engine agentID =
     (let nodes = SortFunc (\<lambda>a b. cmp_float F (sampleRank F nowMs b) (sampleRank F nowMs a)) (CollectAllSceneNodes (get_node J) engine agentID)
      in filter (\<lambda>s. length (dsm_Keywords s) \<noteq> 0)
           (map (\<lambda>n. \<lparr>dsm_IDHash = sn_IDHash n, dsm_Keywords = sampleKeywords engine agentID (sn_TopicIDs n), dsm_Importance = sn_Importance n\<rparr>)
              (take maxDistillSamples nodes)))"

section \<open>The distilled profile\<close>

text \<open>\<open>blank\<close> is the slot of zero values.\<close>

definition defaultProfile :: "('e, 'm) ProfileSlot \<Rightarrow> ('e, 'm) ProfileSlot" where
  "defaultProfile blank = blank\<lparr>pr_Name := ''Agent'', pr_Role := ''assistant'', pr_Preferences := []\<rparr>"

definition distilled :: "i64 \<Rightarrow> 'e \<Rightarrow> 'm \<Rightarrow> string \<Rightarrow> ('e, 'm) ProfileSlot \<Rightarrow> ('e, 'm) ProfileSlot" where
  "distilled now emo mbti personality slot = slot\<lparr>pr_EmotionState := emo, pr_MBTI := mbti,
     pr_Personality := (if personality \<noteq> '''' then personality else pr_Personality slot), pr_UpdatedAtMs := now\<rparr>"

definition MergeDistill :: "(('e, 'm) ProfileSlot \<Rightarrow> goerr + bytes) \<Rightarrow> (bytes \<Rightarrow> goerr + ('e, 'm) ProfileSlot) \<Rightarrow> ('e, 'm) ProfileSlot \<Rightarrow> (string \<Rightarrow> u64)
    \<Rightarrow> i64 \<Rightarrow> u64 \<Rightarrow> 'e \<Rightarrow> 'm \<Rightarrow> string \<Rightarrow> StorageEngine \<Rightarrow> (goerr + unit) \<times> StorageEngine" where
  "MergeDistill tojson dec blank H now agentID emo mbti personality engine = (case GetProfileL0 dec H engine agentID of
     Inl err \<Rightarrow> if CodeOf err \<noteq> ErrNotFound then (Inl err, engine)
       else UpdateProfileL0 tojson H agentID (distilled now emo mbti personality (defaultProfile blank)) engine
   | Inr slot \<Rightarrow> UpdateProfileL0 tojson H agentID (distilled now emo mbti personality slot) engine)"

section \<open>The world of a pass\<close>

text \<open>
  The readings of the clock in nanoseconds, in the order they are taken, and the one at each node that gets an emotion;
  what \<^verbatim>\<open>ctx.Err\<close> answers at each checkpoint; and the three requests to the model. The settings are those of the
  library.
\<close>

record ('e, 'm, 'f) dream_world =
  dw_clock :: "nat \<Rightarrow> int"
  dw_node_clock :: "u64 \<Rightarrow> i64"
  dw_ctx :: "nat \<Rightarrow> goerr option"
  dw_keywords :: "string \<Rightarrow> goerr + string list"
  dw_consolidate :: "TopicSlot list \<Rightarrow> goerr + L2Group list"
  dw_distill :: "'f DistillSample list \<Rightarrow> goerr + ('e, 'm, 'f) DistillOutput"

definition UnixMilli :: "int \<Rightarrow> i64" where "UnixMilli t = t div 10 ^ 6"

text \<open>The formats of a file's typed records and the functions of the standard library a pass runs on.\<close>

record ('e, 'm, 'f) dream_lib =
  dl_float :: "'f float64"
  dl_l1 :: "'f l1_json"
  dl_put_profile :: "('e, 'm) ProfileSlot \<Rightarrow> goerr + bytes"
  dl_get_profile :: "bytes \<Rightarrow> goerr + ('e, 'm) ProfileSlot"
  dl_blank :: "('e, 'm) ProfileSlot"
  dl_hash :: "string \<Rightarrow> u64"
  dl_lower :: "string \<Rightarrow> string"

section \<open>The stages\<close>

definition StageCancelled :: "goerr option \<Rightarrow> goerr option" where
  "StageCancelled ctxErr = (case ctxErr of Some err \<Rightarrow> Some (Error ErrCancelled (Some err)) | None \<Rightarrow> None)"

definition stageOutcome :: "goerr option \<Rightarrow> goerr option \<Rightarrow> goerr option" where
  "stageOutcome ctxErr err = (case err of Some e \<Rightarrow> Some e | None \<Rightarrow> StageCancelled ctxErr)"

text \<open>The constants of the consolidation.\<close>

definition decayParams :: "'f float64 \<Rightarrow> 'f DecayParams" where
  "decayParams F = \<lparr>dp_LambdaNode = f_lit F 1 100, dp_LambdaEdge = f_lit F 2 100, dp_NodeRemoveThreshold = f_lit F 5 100,
     dp_NodePruneEdgeThreshold = f_lit F 15 100, dp_EdgeRemoveThreshold = f_lit F 5 100, dp_MinEdgeNodes = 2\<rparr>"

definition l1EdgeMinSimilarity :: "'f float64 \<Rightarrow> 'f" where "l1EdgeMinSimilarity F = f_lit F 15 100"

text \<open>The last three of the L1 stages, each from the state the one before it leaves.\<close>

definition decay_stage :: "('e, 'm, 'f) dream_lib \<Rightarrow> ('e, 'm, 'f) dream_world \<Rightarrow> u64 \<Rightarrow> L2MetaIndex \<Rightarrow> DreamReport
    \<Rightarrow> StorageEngine \<Rightarrow> (DreamReport \<times> goerr option) \<times> StorageEngine" where
  "decay_stage L w agentID l2Meta rep engine =
     (case DecayNetwork (dl_float L) (dl_l1 L) (UnixMilli (dw_clock w 5)) agentID l2Meta (decayParams (dl_float L)) engine of
        ((report, err), engine) \<Rightarrow>
          let rep = rep\<lparr>dr_L1NodesRemoved := dr_L1NodesRemoved rep + rp_RemovedNodes report,
                dr_L1EdgesRemoved := dr_L1EdgesRemoved rep + rp_RemovedEdges report\<rparr>;
              cErr = stageOutcome (dw_ctx w 5) err
          in ((AppendStage ''l1_decay'' cErr rep, cErr), engine))"

definition rebuild_stage :: "('e, 'm, 'f) dream_lib \<Rightarrow> ('e, 'm, 'f) dream_world \<Rightarrow> u64 \<Rightarrow> L2MetaIndex \<Rightarrow> DreamReport
    \<Rightarrow> StorageEngine \<Rightarrow> (DreamReport \<times> goerr option) \<times> StorageEngine" where
  "rebuild_stage L w agentID l2Meta rep engine =
     (case RebuildFromL2 (dl_l1 L) agentID l2Meta (decayParams (dl_float L)) engine of
        ((removedIDs, edgesRemoved, err), engine) \<Rightarrow>
          let cErr = stageOutcome (dw_ctx w 4) err;
              rep = AppendStage ''l1_rebuild'' cErr (rep\<lparr>dr_L1NodesRemoved := dr_L1NodesRemoved rep + length removedIDs,
                dr_L1EdgesRemoved := dr_L1EdgesRemoved rep + edgesRemoved\<rparr>)
          in (case cErr of Some e \<Rightarrow> ((rep, Some e), engine) | None \<Rightarrow> decay_stage L w agentID l2Meta rep engine))"

definition hyperedge_stage :: "('e, 'm, 'f) dream_lib \<Rightarrow> ('e, 'm, 'f) dream_world \<Rightarrow> u64 \<Rightarrow> L2MetaIndex \<Rightarrow> u64 list \<Rightarrow> DreamReport
    \<Rightarrow> StorageEngine \<Rightarrow> (DreamReport \<times> goerr option) \<times> StorageEngine" where
  "hyperedge_stage L w agentID l2Meta touched rep engine =
     (case BuildHyperedges (dl_float L) (dl_l1 L) (dl_hash L) (dl_lower L) (UnixMilli (dw_clock w 4)) agentID
          (l1EdgeMinSimilarity (dl_float L)) touched engine of
        ((added, err), engine) \<Rightarrow>
          let cErr = stageOutcome (dw_ctx w 3) err;
              rep = AppendStage ''l1_hyperedges'' cErr (rep\<lparr>dr_L1EdgesAdded := dr_L1EdgesAdded rep + added\<rparr>)
          in (case cErr of Some e \<Rightarrow> ((rep, Some e), engine) | None \<Rightarrow> rebuild_stage L w agentID l2Meta rep engine))"

definition l1Stages :: "('e, 'm, 'f) dream_lib \<Rightarrow> ('e, 'm, 'f) dream_world \<Rightarrow> u64 \<Rightarrow> L2MetaIndex \<Rightarrow> DreamReport
    \<Rightarrow> StorageEngine \<Rightarrow> (DreamReport \<times> goerr option) \<times> StorageEngine" where
  "l1Stages L w agentID l2Meta rep engine =
     (case SyncL1NodesFromL2 (put_node (dl_l1 L)) (get_node (dl_l1 L)) (f_lit (dl_float L) 0 1) (f_lit (dl_float L) 1 1) (dl_hash L)
          (UnixMilli (dw_clock w 3)) agentID engine of
        ((touched, Some err), engine) \<Rightarrow> ((AppendStage ''l1_nodes'' (Some err) rep, Some err), engine)
      | ((touched, None), engine) \<Rightarrow> hyperedge_stage L w agentID l2Meta touched
          (AppendStage ''l1_nodes'' None (rep\<lparr>dr_L1NodesAdded := dr_L1NodesAdded rep + length touched\<rparr>)) engine)"

text \<open>Whether the distillation ran. A wrapped error without a code of its own is a join of one.\<close>

definition distillL0Stage :: "('e, 'm, 'f) dream_lib \<Rightarrow> ('e, 'm, 'f) dream_world \<Rightarrow> u64 \<Rightarrow> StorageEngine \<Rightarrow> (goerr + bool) \<times> StorageEngine" where
  "distillL0Stage L w agentID engine =
     (let samples = Samples (dl_float L) (dl_l1 L) (UnixMilli (dw_clock w 6)) engine agentID
      in if length samples = 0 then (Inr False, engine)
         else case dw_distill w samples of Inl err \<Rightarrow> (Inl err, engine)
           | Inr out \<Rightarrow> (case MergeDistill (dl_put_profile L) (dl_get_profile L) (dl_blank L) (dl_hash L) (UnixMilli (dw_clock w 7)) agentID
                 (do_Emotion out) (do_MBTI out) (do_Personality out) engine of
               (Inl err, engine) \<Rightarrow> (Inl err, engine)
             | (Inr _, engine) \<Rightarrow> (case BackfillL1Emotions (put_node (dl_l1 L)) (get_node (dl_l1 L)) (dw_node_clock w) agentID (do_PerNode out) engine of
                 (Inl err, engine) \<Rightarrow> (Inl (Joined [err]), engine)
               | (Inr _, engine) \<Rightarrow> (Inr True, engine))))"

definition report_l0 :: "goerr + bool \<Rightarrow> DreamReport \<Rightarrow> DreamReport \<times> goerr option" where
  "report_l0 r rep = (case r of
     Inl err \<Rightarrow> (AppendStage ''l0_distill'' (Some err) rep, Some err)
   | Inr True \<Rightarrow> (AppendStage ''l0_distill'' None (rep\<lparr>dr_L0Updated := True\<rparr>), None)
   | Inr False \<Rightarrow> (rep\<lparr>dr_Stages := dr_Stages rep @ [\<lparr>dst_Name = ''l0_distill'', dst_Status = ''skipped''\<rparr>]\<rparr>, None))"

definition StructureStages :: "('e, 'm, 'f) dream_lib \<Rightarrow> ('e, 'm, 'f) dream_world \<Rightarrow> u64 \<Rightarrow> DreamReport \<Rightarrow> Context
    \<Rightarrow> (DreamReport \<times> goerr option) \<times> Context" where
  "StructureStages L w agentID rep ac =
     (let ac = install_meta ac; rep = AppendStage ''index_rebuild'' None rep
      in case StageCancelled (dw_ctx w 2) of Some cerr \<Rightarrow> ((rep, Some cerr), ac)
         | None \<Rightarrow> (case l1Stages L w agentID (ctx_L2Meta ac) rep (ctx_Engine ac) of
             ((rep, Some err), engine) \<Rightarrow> ((rep, Some err), ac\<lparr>ctx_Engine := engine\<rparr>)
           | ((rep, None), engine) \<Rightarrow> (case distillL0Stage L w agentID engine of
               (r, engine) \<Rightarrow> (report_l0 r rep, ac\<lparr>ctx_Engine := engine\<rparr>))))"

section \<open>The pipeline\<close>

definition retention_stages :: "('e, 'm, 'f) dream_world \<Rightarrow> MemHopDefaults \<Rightarrow> u64 \<Rightarrow> Context \<Rightarrow> Context \<times> DreamReport" where
  "retention_stages w defaults agentID ac =
     (case PruneContentStage (sweep_cutoff (dw_clock w 0) (Some (md_ContentRetentionMs defaults))) agentID ac new_report of
        (ac, rep) \<Rightarrow> PrunePlanStage (sweep_cutoff (dw_clock w 1) (Some (md_ContentRetentionMs defaults))) agentID ac rep)"

text \<open>What follows the compression: \<open>s\<close> is its outcome.\<close>

definition after_compress :: "('e, 'm, 'f) dream_lib \<Rightarrow> ('e, 'm, 'f) dream_world \<Rightarrow> u64 \<Rightarrow> compress_state \<Rightarrow> Context
    \<Rightarrow> (DreamReport \<times> goerr option) \<times> Context" where
  "after_compress L w agentID s ac =
     (let rep = cs_rep s in case cs_failed s of
        Some failed \<Rightarrow> ((AppendStage ''l2_compress'' (Some failed) rep, Some (Error (CodeOf failed) (Some failed))), ac)
      | None \<Rightarrow>
          if length (cs_succeeded s) = 0 \<and> cs_unusable s > 0
          then let err = (case dw_ctx w 0 of None \<Rightarrow> NewError ErrLLM | Some cerr \<Rightarrow> Error ErrCancelled (Some cerr))
               in ((AppendStage ''l2_compress'' (Some err) rep, Some err), ac)
          else StructureStages L w agentID
            (AppendStage ''l2_compress'' (StageCancelled (dw_ctx w 1)) (rep\<lparr>dr_ConsolidatedScenes := length (cs_succeeded s)\<rparr>)) ac)"

text \<open>A report comes back with every failure of a stage; \<open>None\<close> is a read of a cyclic topic cache that does not return.\<close>

definition RunDream_body :: "('e, 'm, 'f) dream_lib \<Rightarrow> ('e, 'm, 'f) dream_world \<Rightarrow> MemHopDefaults \<Rightarrow> u64 \<Rightarrow> u64 \<Rightarrow> Context
    \<Rightarrow> ((goerr + DreamReport \<times> goerr option) \<times> Context) option" where
  "RunDream_body L w defaults agentID sceneID ac = (case retention_stages w defaults agentID ac of
     (ac, rep) \<Rightarrow> (case SceneSet (ctx_Engine ac) agentID sceneID of
        Inl err \<Rightarrow> Some (Inr (rep, Some err), ac)
      | Inr scenes \<Rightarrow>
          if length scenes = 0 then Some (Inr (rep, None), ac)
          else (case compress_scenes (dl_hash L) (dw_keywords w) (dw_consolidate w) (md_DreamCompressMinTopics defaults)
                  (UnixMilli (dw_clock w 2)) scenes (\<lparr>cs_succeeded = [], cs_unusable = 0, cs_failed = None, cs_rep = rep\<rparr>, ac) of
              None \<Rightarrow> None
            | Some (s, ac) \<Rightarrow> (case after_compress L w agentID s ac of (out, ac) \<Rightarrow> Some (Inr out, ac)))))"

definition RunDream :: "('e, 'm, 'f) dream_lib \<Rightarrow> ('e, 'm, 'f) dream_world \<Rightarrow> MemHopDefaults \<Rightarrow> i64 \<Rightarrow> u64 \<Rightarrow> u64 \<Rightarrow> DB
    \<Rightarrow> ((goerr + DreamReport \<times> goerr option) \<times> DB) option" where
  "RunDream L w defaults now agentID sceneID = locked' (lockAgent now agentID) agentID (RunDream_body L w defaults agentID sceneID)"

text \<open>\<open>Dream\<close> of a session: the empty id stands for every scene of the domain.\<close>

definition Session_Dream :: "('e, 'm, 'f) dream_lib \<Rightarrow> ('e, 'm, 'f) dream_world \<Rightarrow> MemHopDefaults \<Rightarrow> i64 \<Rightarrow> u64 \<Rightarrow> string \<Rightarrow> DB
    \<Rightarrow> ((goerr + DreamReport \<times> goerr option) \<times> DB) option" where
  "Session_Dream L w defaults now agentID sceneID db =
     (if sceneID = '''' then RunDream L w defaults now agentID 0 db
      else case ParseID sceneID of Inl err \<Rightarrow> Some (Inl (Error ErrInvalidQuery (Some err)), db)
        | Inr hash \<Rightarrow> RunDream L w defaults now agentID hash db)"

section \<open>A compacted copy\<close>

text \<open>
  \<open>same\<close> says whether the two paths name one file, \<open>at\<close> is what lies at the new one and \<open>fresh\<close> the empty file a creation
  starts from.
\<close>

definition CompactTo :: "string \<Rightarrow> bool \<Rightarrow> path_state \<Rightarrow> osfile \<Rightarrow> DB \<Rightarrow> (goerr + unit) \<times> osfile" where
  "CompactTo newPath same at fresh db =
     (if db_closed db then (Inl errDBClosed, fresh)
      else if newPath = '''' then (Inl (NewError ErrInvalidQuery), fresh)
      else if same then (Inl (NewError ErrInvalidQuery), fresh)
      else case at of
          Directory \<Rightarrow> (Inl (NewError ErrInvalidQuery), fresh)
        | Regular _ \<Rightarrow> (Inl (NewError ErrInvalidQuery), fresh)
        | Stat_Failed err \<Rightarrow> (Inl (Error ErrIO (Some err)), fresh)
        | No_Path \<Rightarrow> Compact (db_engine db) fresh)"

end
