(* ===== verification/Agent_Steps.thy ===== *)
theory Agent_Steps
  imports Graph_Ops Content_Ops Scene_Ops Turn_Ops Engine_Crash Dream_Run
begin

text \<open>
  The database as a state machine. An agent step is one batch written or deleted under the agent's id,
  whatever its outcome; every operation of a domain, a whole Dream included, is a sequence of steps of the calling agent,
  on every path through it, failed writes included, and every graph operation one of the shared domain. What a step keeps,
  every operation keeps: the index entries of all other agents.
\<close>

inductive agent_step :: "u64 \<Rightarrow> StorageEngine \<Rightarrow> StorageEngine \<Rightarrow> bool" for a where
  put: "\<forall>r \<in> set rs. r_agent r = a \<Longrightarrow> WriteRecordBatch rs e = (out, e') \<Longrightarrow> agent_step a e e'"
| drop: "DeleteRecordBatch a ids e = (out, e') \<Longrightarrow> agent_step a e e'"

inductive_cases agent_stepE: "agent_step a e e'"

abbreviation agent_steps :: "u64 \<Rightarrow> StorageEngine \<Rightarrow> StorageEngine \<Rightarrow> bool" where
  "agent_steps a \<equiv> (agent_step a)\<^sup>*\<^sup>*"

named_theorems op_steps

lemma steps_trans: "agent_steps a e e1 \<Longrightarrow> agent_steps a e1 e2 \<Longrightarrow> agent_steps a e e2"
  by (rule rtranclp_trans)

section \<open>What a step keeps\<close>

lemma index_one_other: "r_agent (fst ro) \<noteq> b \<or> r_id (fst ro) \<noteq> i \<Longrightarrow> idx_lookup (index (index_one ro e)) b i = idx_lookup (index e) b i"
  by (auto simp: index_one_def Let_def idx_put_def idx_lookup_def split: option.splits)

lemma fold_index_other:
  "\<forall>ro \<in> set ros. r_agent (fst ro) \<noteq> b \<or> r_id (fst ro) \<noteq> i \<Longrightarrow> idx_lookup (index (fold index_one ros e)) b i = idx_lookup (index e) b i"
  by (induction ros arbitrary: e) (simp_all add: index_one_other)

lemma delete_one_other: "a \<noteq> b \<Longrightarrow> idx_lookup (index (delete_one a io e)) b i = idx_lookup (index e) b i"
  by (auto simp: delete_one_def Let_def idx_lookup_def split: option.splits)

lemma applyDeletions_other:
  assumes "a \<noteq> b"
  shows "idx_lookup (index (applyDeletions a offs e)) b i = idx_lookup (index e) b i"
proof -
  have "idx_lookup (index (fold (delete_one a) offs e)) b i = idx_lookup (index e) b i" for e
    using assms by (induction offs arbitrary: e) (simp_all add: delete_one_other)
  then show ?thesis using assms by (simp add: applyDeletions_def Let_def) (simp add: idx_lookup_def)
qed

lemma writeInactiveHeader_index: "writeInactiveHeader h e = (r, e') \<Longrightarrow> index e' = index e"
  by (auto simp: writeInactiveHeader_def Let_def split: sum.splits prod.splits if_splits)

lemma writeNull_index: "writeNullSnapshotHeader e = (r, e') \<Longrightarrow> index e' = index e"
  by (auto simp: writeNullSnapshotHeader_def switchHeader_def Let_def dest!: writeInactiveHeader_index split: sum.splits prod.splits if_splits)


lemma trimTail_index: "trimTailSnapshot e = (r, e') \<Longrightarrow> index e' = index e"
  by (auto simp: trimTailSnapshot_def Let_def dest!: truncateTail_frame writeNull_index split: sum.splits prod.splits if_splits)

lemma undoAppend_index: "undoAppend start cause e = (err, e') \<Longrightarrow> index e' = index e"
  by (auto simp: undoAppend_def dest!: truncateTail_frame split: sum.splits prod.splits)

lemma append_loop_index: "append_loop start rs offs e = (r, e') \<Longrightarrow> index e' = index e"
proof (induction rs arbitrary: offs e)
  case (Cons x rs)
  show ?case using Cons.prems by (auto simp: Let_def dest!: undoAppend_index Cons.IH split: sum.splits prod.splits)
qed simp

lemma appendFrames_index: "appendFrames rs e = (r, e') \<Longrightarrow> index e' = index e"
  by (auto simp: appendFrames_def dest!: append_loop_index split: sum.splits prod.splits)

lemma write_other:
  assumes "WriteRecordBatch rs e = (out, e')" "\<forall>r \<in> set rs. r_agent r \<noteq> b \<or> r_id r \<noteq> i"
  shows "idx_lookup (index e') b i = idx_lookup (index e) b i"
proof -
  have "\<forall>ro \<in> set (zip rs offs). r_agent (fst ro) \<noteq> b \<or> r_id (fst ro) \<noteq> i" for offs using assms(2) by (auto dest: set_zip_leftD)
  note other = fold_index_other [OF this]
  show ?thesis using assms(1)
    by (auto simp: WriteRecordBatch_def writeRecordBatch_def updateIndexAfterWrite_def other Let_def dest!: trimTail_index appendFrames_index
        split: sum.splits prod.splits if_splits)
qed

lemma delete_other:
  assumes "DeleteRecordBatch a ids e = (out, e')" "b \<noteq> a"
  shows "idx_lookup (index e') b i = idx_lookup (index e) b i"
  using assms by (auto simp: DeleteRecordBatch_def deleteRecordBatchLocked_def applyDeletions_other [of a b] Let_def
      dest!: trimTail_index undoAppend_index split: sum.splits prod.splits if_splits)

lemma agent_step_other:
  assumes "agent_step a e e'" "b \<noteq> a"
  shows "idx_lookup (index e') b i = idx_lookup (index e) b i"
  using assms by (elim agent_stepE) (auto intro: write_other delete_other)

lemma agent_steps_other:
  assumes "agent_steps a e e'" "b \<noteq> a"
  shows "idx_lookup (index e') b i = idx_lookup (index e) b i"
  using assms(1) by (induction rule: rtranclp_induct) (simp_all add: agent_step_other [OF _ assms(2)])

section \<open>The layers are sequences of steps\<close>

lemma write_steps [op_steps]: "WriteRecordBatch rs e = (out, e') \<Longrightarrow> \<forall>r \<in> set rs. r_agent r = a \<Longrightarrow> agent_steps a e e'"
  by (blast intro: agent_step.put)

lemma delete_steps [op_steps]: "DeleteRecordBatch a ids e = (out, e') \<Longrightarrow> agent_steps a e e'"
  by (blast intro: agent_step.drop)

lemma WriteRecord_one: "WriteRecord a t i d e = (r, e') \<Longrightarrow> \<exists>out. WriteRecordBatch [\<lparr>r_agent = a, r_type = t, r_id = i, r_data = d\<rparr>] e = (out, e')"
  by (auto simp: WriteRecord_def WriteRecordBatch_def split: sum.splits prod.splits if_splits)

lemma writeJSON_steps [op_steps]: "writeJSON marshal a rt i v e = (r, e') \<Longrightarrow> agent_steps a e e'"
  by (auto simp: writeJSON_def dest!: WriteRecord_one intro!: write_steps split: sum.splits prod.splits)

lemma slot_steps [op_steps]:
  "WriteSceneSlot a i s e = (r, e') \<Longrightarrow> agent_steps a e e'" "WriteTopicSlot a i t e = (r, e') \<Longrightarrow> agent_steps a e e'"
  "WriteHypergraphNode a i n e = (r, e') \<Longrightarrow> agent_steps a e e'" "WriteHypergraphEdge a i g e = (r, e') \<Longrightarrow> agent_steps a e e'"
  "WriteGraphSlot a i h e = (r, e') \<Longrightarrow> agent_steps a e e'" "WritePlanNodeRecord a i p e = (r, e') \<Longrightarrow> agent_steps a e e'"
  by (simp_all add: WriteSceneSlot_def WriteTopicSlot_def WriteHypergraphNode_def WriteHypergraphEdge_def WriteGraphSlot_def
      WritePlanNodeRecord_def writeJSON_steps)

lemma archive_writes_agent: "archive_writes a arcs = Inr rs \<Longrightarrow> \<forall>r \<in> set rs. r_agent r = a"
  by (induction arcs arbitrary: rs) (auto split: sum.splits)

lemma topic_writes_agent: "topic_writes a ts = Inr rs \<Longrightarrow> \<forall>r \<in> set rs. r_agent r = a"
  by (induction ts arbitrary: rs) (auto simp: TopicEntry_def split: sum.splits)

lemma AppendArchiveBatchL4_steps [op_steps]: "AppendArchiveBatchL4 H a arcs e idx = (r, e', idx') \<Longrightarrow> agent_steps a e e'"
  by (auto simp: AppendArchiveBatchL4_def Let_def dest!: archive_writes_agent split: sum.splits prod.splits intro: write_steps)

lemma l4_steps [op_steps]:
  "DeleteTopicArchives a ts e idx = (r, e', idx') \<Longrightarrow> agent_steps a e e'"
  "DropExpiredArchives a before e idx = (r1, e', idx') \<Longrightarrow> agent_steps a e e'"
  by (auto simp: DeleteTopicArchives_def DropExpiredArchives_def Let_def dest!: delete_steps split: sum.splits prod.splits)

lemma l5_steps [op_steps]:
  "WritePlanNode H a node e = (r, e') \<Longrightarrow> agent_steps a e e'" "DeletePlanNodesByIDs a ids e = (r1, e') \<Longrightarrow> agent_steps a e e'"
  by (auto simp: WritePlanNode_def DeletePlanNodesByIDs_def Let_def dest!: op_steps split: sum.splits prod.splits option.splits if_splits)

lemma l2_steps [op_steps]:
  "DeleteL2Records a ids e = (r, e') \<Longrightarrow> agent_steps a e e'" "OpenSceneTurn a i stamp e = (r1, e') \<Longrightarrow> agent_steps a e e'"
  "CreateSceneL2 a s e = (r, e') \<Longrightarrow> agent_steps a e e'" "RenameTopicL2 a t n e = (r2, e') \<Longrightarrow> agent_steps a e e'"
  "CreateTurnTopicL2 a sc t kws us as e = (r2, e') \<Longrightarrow> agent_steps a e e'"
  by (auto simp: DeleteL2Records_def OpenSceneTurn_def CreateSceneL2_def RenameTopicL2_def CreateTurnTopicL2_def Let_def dest!: delete_steps slot_steps
      split: sum.splits prod.splits option.splits if_splits)

lemma MergeScenesL2_steps [op_steps]: "MergeScenesL2 a p sids e = (r, e') \<Longrightarrow> agent_steps a e e'"
  by (auto simp: MergeScenesL2_def dest!: topic_writes_agent l2_steps(1) write_steps split: sum.splits prod.splits intro: steps_trans)


lemma create_scene_steps [op_steps]: "create_scene a g stamp draws e = Some (r, e') \<Longrightarrow> agent_steps a e e'"
  by (auto simp: create_scene_def Let_def dest!: l2_steps(3) split: option.splits sum.splits prod.splits)

lemma Create_Scene_steps [op_steps]: "Create_Scene a g stamp draws e = Some (r, e') \<Longrightarrow> agent_steps a e e'"
  by (auto simp: Create_Scene_def dest!: create_scene_steps split: sum.splits if_splits)

lemma DeleteSceneNodeL1_steps [op_steps]: "DeleteSceneNodeL1 H a i e = (r, e') \<Longrightarrow> agent_steps a e e'"
  by (auto simp: DeleteSceneNodeL1_def dest!: delete_steps split: sum.splits prod.splits)

lemma delete_scene_nodes_steps [op_steps]: "delete_scene_nodes H a ids e = (r, e') \<Longrightarrow> agent_steps a e e'"
  by (induction ids arbitrary: e) (auto dest!: DeleteSceneNodeL1_steps split: sum.splits prod.splits intro: steps_trans)

lemma set_anchor_steps [op_steps]: "set_anchor a p g e = (r, e') \<Longrightarrow> agent_steps a e e'"
  by (auto simp: set_anchor_def dest!: slot_steps(1) split: sum.splits if_splits)

section \<open>The domain operations are sequences of steps\<close>

abbreviation ctx_steps :: "u64 \<Rightarrow> Context \<Rightarrow> Context \<Rightarrow> bool" where
  "ctx_steps a c c' \<equiv> agent_steps a (ctx_Engine c) (ctx_Engine c') \<and> ctx_ID c' = ctx_ID c"

lemma cache_only [simp]:
  "ctx_Engine (SyncL2Meta t c) = ctx_Engine c" "ctx_Engine (RemoveTopicsFromIndices ids c) = ctx_Engine c"
  "ctx_Engine (ForgetScene s c) = ctx_Engine c" "ctx_Engine (ForgetTurn i c) = ctx_Engine c" "ctx_Engine (MoveScene s p c) = ctx_Engine c"
  "ctx_ID (SyncL2Meta t c) = ctx_ID c" "ctx_ID (RemoveTopicsFromIndices ids c) = ctx_ID c"
  "ctx_ID (ForgetScene s c) = ctx_ID c" "ctx_ID (ForgetTurn i c) = ctx_ID c" "ctx_ID (MoveScene s p c) = ctx_ID c"
proof -
  let ?drop = "fold (\<lambda>i c. c\<lparr>ctx_L2Meta := L2_Remove i (ctx_L2Meta c), ctx_Plans := PC_RemoveTopic i (ctx_Plans c)\<rparr>)"
  have "ctx_Engine (?drop ids c) = ctx_Engine c \<and> ctx_ID (?drop ids c) = ctx_ID c" by (induction ids arbitrary: c) simp_all
  then show "ctx_Engine (RemoveTopicsFromIndices ids c) = ctx_Engine c" "ctx_ID (RemoveTopicsFromIndices ids c) = ctx_ID c"
    by (simp_all add: RemoveTopicsFromIndices_def)
qed (simp_all add: SyncL2Meta_def ForgetScene_def ForgetTurn_def MoveScene_def)

lemma cache_only_fold [simp]:
  "ctx_Engine (fold (\<lambda>s. MoveScene s p) ss c) = ctx_Engine c" "ctx_ID (fold (\<lambda>s. MoveScene s p) ss c) = ctx_ID c"
  "ctx_Engine (fold ForgetTurn ts c) = ctx_Engine c" "ctx_ID (fold ForgetTurn ts c) = ctx_ID c"
  by (induction ss arbitrary: c, simp_all) (induction ss arbitrary: c, simp_all, (induction ts arbitrary: c, simp_all)+)

lemma DeleteCascade_steps [op_steps]: "DeleteCascade H a scenes topics c = (r, c') \<Longrightarrow> ctx_steps a c c'"
  by (auto simp: DeleteCascade_def Let_def dest!: l4_steps(1) l5_steps(2) l2_steps(1) split: sum.splits prod.splits intro: steps_trans)

lemma merge_records_steps [op_steps]: "merge_records H a p hashes g c = (r, c') \<Longrightarrow> ctx_steps a c c'"
  by (auto simp: merge_records_def dest!: delete_scene_nodes_steps MergeScenesL2_steps set_anchor_steps split: sum.splits prod.splits intro: steps_trans)

lemma AppendBatch_steps [op_steps]: "AppendBatch H a t recs c = (r, c') \<Longrightarrow> ctx_steps a c c'"
  by (auto simp: AppendBatch_def dest!: AppendArchiveBatchL4_steps split: sum.splits prod.splits)

lemma writeNode_steps [op_steps]: "writeNode H a node c = (r, c') \<Longrightarrow> ctx_steps a c c'"
  by (auto simp: writeNode_def dest!: l5_steps(1) split: sum.splits prod.splits)

lemma plan_steps [op_steps]:
  "CreateNode H now a spec c = (r, c') \<Longrightarrow> ctx_steps a c c'" "UpdateNode H now a step c = (r1, c') \<Longrightarrow> ctx_steps a c c'"
  "UpdateNodeSummaryLocked H now a i txt c = (r1, c') \<Longrightarrow> ctx_steps a c c'"
  by (auto simp: CreateNode_def UpdateNode_def UpdateNodeSummaryLocked_def Let_def dest!: writeNode_steps split: sum.splits prod.splits if_splits)


lemma each_do_steps:
  assumes "\<forall>x s r s'. f x s = Some (r, s') \<longrightarrow> ctx_steps a (fst s) (fst s')"
  shows "each_do f xs s = Some (r, s') \<Longrightarrow> ctx_steps a (fst s) (fst s')"
proof (induction xs arbitrary: s)
  case (Cons x xs)
  obtain r1 s1 where one: "f x s = Some (r1, s1)" using Cons.prems by (auto split: option.splits)
  then have "ctx_steps a (fst s) (fst s1)" using assms by blast
  then show ?case using Cons.prems one Cons.IH [of s1] by (auto split: sum.splits intro: steps_trans)
qed simp

lemma rollupNode_steps: "rollupNode H now a fuel s st = Some (r, st') \<Longrightarrow> ctx_steps a (fst st) (fst st')"
proof (induction fuel arbitrary: s st r st')
  case (Suc fuel)
  have kids: "each_do (rollupNode H now a fuel) xs st = Some (r, c, hp) \<Longrightarrow> ctx_steps a (fst st) c" for xs st r c hp
    using each_do_steps [of "rollupNode H now a fuel" a xs st r "(c, hp)"] Suc.IH by auto
  show ?case using Suc.prems
    by (auto simp: Let_def dest!: kids plan_steps(3) split: option.splits sum.splits prod.splits if_splits intro: steps_trans)
qed simp

lemma RollupTree_steps: "RollupTree H now a t c = Some (r, c') \<Longrightarrow> ctx_steps a c c'"
proof -
  assume run: "RollupTree H now a t c = Some (r, c')"
  then obtain roots heap hp where "each_do (rollupNode H now a (length (aggregate c t))) roots (c, heap) = Some (r, c', hp)"
    by (auto simp: RollupTree_def Let_def split: prod.splits)
  then show ?thesis using each_do_steps [of "rollupNode H now a (length (aggregate c t))" a roots "(c, heap)" r "(c', hp)"] rollupNode_steps by auto
qed

lemma ensureScene_engine: "ensureScene a c = (r, c') \<Longrightarrow> ctx_Engine c' = ctx_Engine c \<and> ctx_ID c' = ctx_ID c"
  by (auto simp: ensureScene_def split: sum.splits if_splits)

lemma NextUsedStamp_engine: "NextUsedStamp now c = (s, c') \<Longrightarrow> ctx_Engine c' = ctx_Engine c \<and> ctx_ID c' = ctx_ID c"
  by (auto simp: NextUsedStamp_def Let_def)

lemma resolveScene_steps: "resolveScene a q stamp draws c = Some (r, c') \<Longrightarrow> ctx_steps a c c'"
  by (auto simp: resolveScene_def create_in_def dest!: ensureScene_engine Create_Scene_steps
      split: sum.splits prod.splits if_splits)

lemma open_turn_steps: "open_turn dec blank H limit a i stamp c = Some (r, c') \<Longrightarrow> ctx_steps a c c'"
  by (auto simp: open_turn_def Let_def dest!: l2_steps(2) split: option.splits sum.splits prod.splits if_splits)

lemma settle_topic_steps: "settle_topic limit a i t ks us c = Some (r, c') \<Longrightarrow> ctx_steps a c c'"
  by (auto simp: settle_topic_def Let_def dest!: l2_steps(5) split: sum.splits prod.splits)

lemma settleLocked_steps: "settleLocked H f limit a i t c = Some (r, c') \<Longrightarrow> ctx_steps a c c'"
  by (auto simp: settleLocked_def dest!: settle_topic_steps split: option.splits sum.splits if_splits)

lemma UpdateL0_body_steps: "UpdateL0_body tojson dec H now a slot e = (r, e') \<Longrightarrow> agent_steps a e e'"
  by (auto simp: UpdateL0_body_def UpdateProfileL0_def dest: writeJSON_steps split: sum.splits if_splits)

lemma RetargetL2Meta_engine: "RetargetL2Meta p ss c = Some c' \<Longrightarrow> ctx_Engine c' = ctx_Engine c \<and> ctx_ID c' = ctx_ID c"
  by (auto simp: RetargetL2Meta_def split: option.splits)

lemma body_steps:
  "ListScenes_body a l c = (r1, c') \<Longrightarrow> ctx_steps a c c'" "UpdateScene_body a i patch c = (r2, c') \<Longrightarrow> ctx_steps a c c'"
  "RenameTopic_body a i n c = (r3, c') \<Longrightarrow> ctx_steps a c c'" "DeleteScene_body H a i c = (r4, c') \<Longrightarrow> ctx_steps a c c'"
  "AppendArchive_body H a slot c = (r5, c') \<Longrightarrow> ctx_steps a c c'" "PlanNodeAdd_body H now a p n c = (r6, c') \<Longrightarrow> ctx_steps a c c'"
  by (auto simp: ListScenes_body_def UpdateScene_body_def RenameTopic_body_def DeleteScene_body_def AppendArchive_body_def Append_def PlanNodeAdd_body_def
      dest!: slot_steps(1) l2_steps(4) DeleteCascade_steps DeleteSceneNodeL1_steps AppendBatch_steps plan_steps(1)
      split: sum.splits prod.splits if_splits intro: steps_trans)

lemma body'_steps:
  "MergeScenes_body H a p ss c = Some (r1, c') \<Longrightarrow> ctx_steps a c c'" "DeleteTopic_body H a i c = Some (r1, c') \<Longrightarrow> ctx_steps a c c'"
  "Search_body dec blank H limit now draws a q c = Some (r2, c') \<Longrightarrow> ctx_steps a c c'"
  "SceneContext_body a i c = Some (r3, c') \<Longrightarrow> ctx_steps a c c'" "Update_body H f limit a te c = Some (r4, c') \<Longrightarrow> ctx_steps a c c'"
  "SearchL4_body lower a lq c = Some (r5, c') \<Longrightarrow> ctx_steps a c c'" "PlanNodeUpdate_body H clocks now a st c = Some (r6, c') \<Longrightarrow> ctx_steps a c c'"
proof -
  show "MergeScenes_body H a p ss c = Some (r1, c') \<Longrightarrow> ctx_steps a c c'"
    by (auto simp: MergeScenes_body_def dest!: merge_records_steps RetargetL2Meta_engine split: sum.splits prod.splits if_splits)
  show "DeleteTopic_body H a i c = Some (r1, c') \<Longrightarrow> ctx_steps a c c'"
    by (auto simp: DeleteTopic_body_def dest!: DeleteCascade_steps split: option.splits sum.splits prod.splits if_splits)
  show "Search_body dec blank H limit now draws a q c = Some (r2, c') \<Longrightarrow> ctx_steps a c c'"
    by (auto simp: Search_body_def dest!: NextUsedStamp_engine resolveScene_steps open_turn_steps split: option.splits sum.splits prod.splits intro: steps_trans)
  show "SceneContext_body a i c = Some (r3, c') \<Longrightarrow> ctx_steps a c c'"
    by (auto simp: SceneContext_body_def readScene_def dest!: ensureScene_engine split: option.splits sum.splits prod.splits if_splits)
  show "Update_body H f limit a te c = Some (r4, c') \<Longrightarrow> ctx_steps a c c'"
    by (auto simp: Update_body_def Let_def dest!: AppendBatch_steps settleLocked_steps split: sum.splits prod.splits if_splits intro: steps_trans)
  show "SearchL4_body lower a lq c = Some (r5, c') \<Longrightarrow> ctx_steps a c c'"
    by (auto simp: SearchL4_body_def split: option.splits sum.splits)
  show "PlanNodeUpdate_body H clocks now a st c = Some (r6, c') \<Longrightarrow> ctx_steps a c c'"
    by (auto simp: PlanNodeUpdate_body_def dest!: plan_steps(2) RollupTree_steps split: sum.splits prod.splits intro: steps_trans)
qed


section \<open>The graph operations are sequences of steps of the shared domain\<close>

lemma create_at_steps: "create_at a i (wr :: StorageEngine \<Rightarrow> _) e = (r, e') \<Longrightarrow> (\<And>out e'. wr e = (out, e') \<Longrightarrow> agent_steps a e e') \<Longrightarrow> agent_steps a e e'"
  by (auto simp: create_at_def split: sum.splits prod.splits)

lemma l3_steps:
  "CreateEdgeL3 H now a g k ns e = (r, e') \<Longrightarrow> agent_steps a e e'" "EnsureGraphL3 H now a name e = (r, e') \<Longrightarrow> agent_steps a e e'"
  "CreateNodeL3 H now a g ti ty co kw src e = (r, e') \<Longrightarrow> agent_steps a e e'" "UpdateGraphL3 now a g n e = (r1, e') \<Longrightarrow> agent_steps a e e'"
  "MutateNodeL3 H a g ti mutate e = (r, e') \<Longrightarrow> agent_steps a e e'" "DeleteGraphL3 a g e = (r2, e') \<Longrightarrow> agent_steps a e e'"
  by (auto simp: CreateEdgeL3_def EnsureGraphL3_def createGraphL3_def CreateNodeL3_def UpdateGraphL3_def MutateNodeL3_def DeleteGraphL3_def Let_def
      dest!: create_at_steps delete_steps slot_steps(3,4,5) split: sum.splits prod.splits if_splits)

lemma graphFor_steps: "graphFor H now a d b = (r, b') \<Longrightarrow> agent_steps a (ib_engine b) (ib_engine b')"
  by (auto simp: graphFor_def dest!: l3_steps(2) split: option.splits sum.splits prod.splits)

lemma mutateNode_steps: "mutateNode H now a g item m b = (r, b') \<Longrightarrow> agent_steps a (ib_engine b) (ib_engine b')"
  by (auto simp: mutateNode_def dest!: l3_steps(5) split: prod.splits)

lemma ImportNode_steps: "ImportNode H now a item b = (r, b') \<Longrightarrow> agent_steps a (ib_engine b) (ib_engine b')"
  by (auto simp: ImportNode_def dest!: graphFor_steps mutateNode_steps l3_steps(3)
      split: option.splits sum.splits prod.splits if_splits intro: steps_trans)

lemma import_relation_steps: "agent_steps a (ib_engine b) (ib_engine (import_relation H now a g ti rel b))"
  by (auto simp: import_relation_def Let_def dest!: l3_steps(1) split: option.splits sum.splits prod.splits)

lemma fold_steps: "(\<And>x b. agent_steps a (ib_engine b) (ib_engine (f x b))) \<Longrightarrow> agent_steps a (ib_engine b) (ib_engine (fold f xs b))"
  by (induction xs arbitrary: b) (auto intro: steps_trans)

lemma ImportRelations_steps: "agent_steps a (ib_engine b) (ib_engine (ImportRelations H now a item b))"
  by (auto simp: ImportRelations_def split: option.splits intro!: fold_steps import_relation_steps)

lemma import_items_steps: "agent_steps SharedPoolAgentID (ib_engine b) (ib_engine (import_items H now items b))"
proof -
  have "agent_steps SharedPoolAgentID (ib_engine b) (ib_engine (import_node H now item b))" for item b
    by (auto simp: import_node_def dest!: ImportNode_steps split: sum.splits prod.splits)
  then show ?thesis unfolding import_items_def by (blast intro: steps_trans fold_steps ImportRelations_steps)
qed

lemma stamp_graphs_steps: "stamp_graphs now a gs e = (errs, e') \<Longrightarrow> agent_steps a e e'"
  by (induction gs arbitrary: e errs) (auto dest!: l3_steps(4) split: sum.splits prod.splits intro: steps_trans)

lemma import_report_steps: "import_report now b = (r, e') \<Longrightarrow> agent_steps SharedPoolAgentID (ib_engine b) e'"
  by (auto simp: import_report_def StampChanged_def Let_def dest!: stamp_graphs_steps split: sum.splits prod.splits)

lemma NewImportBatch_engine: "NewImportBatch H e a mode = Inr b \<Longrightarrow> ib_engine b = e"
  by (auto simp: NewImportBatch_def loadContents_def split: sum.splits)

lemma ImportL3_body_steps: "ImportL3_body H now items mode e = (r, e') \<Longrightarrow> agent_steps SharedPoolAgentID e e'"
  by (auto simp: ImportL3_body_def dest!: import_report_steps NewImportBatch_engine split: sum.splits prod.splits if_splits
      intro: steps_trans [OF import_items_steps])

lemma graph_body_steps:
  "UpdateL3_body now i name e = (r, e') \<Longrightarrow> agent_steps SharedPoolAgentID e e'" "DeleteL3_body i e = (r1, e') \<Longrightarrow> agent_steps SharedPoolAgentID e e'"
  by (auto simp: UpdateL3_body_def DeleteL3_body_def dest!: l3_steps(4,6) split: sum.splits prod.splits if_splits)


section \<open>A Dream is a sequence of steps\<close>

lemma l1_slot_steps [op_steps]:
  "WriteSceneNode tojson a i n e = (r, e') \<Longrightarrow> agent_steps a e e'" "WriteSceneEdge J a i g e = (r, e') \<Longrightarrow> agent_steps a e e'"
  "DeleteRecord a i e = (r1, e') \<Longrightarrow> agent_steps a e e'" "UpdateProfileL0 put H a p e = (r, e') \<Longrightarrow> agent_steps a e e'"
proof -
  show "DeleteRecord a i e = (r1, e') \<Longrightarrow> agent_steps a e e'"
    by (cases "DeleteRecordBatch a [i] e")
      (auto simp: DeleteRecord_def DeleteRecordBatch_def intro: delete_steps [unfolded DeleteRecordBatch_def] split: sum.splits prod.splits if_splits)
qed (simp_all add: WriteSceneNode_def WriteSceneEdge_def UpdateProfileL0_def writeJSON_steps)

lemma syncOneSceneNode_steps [op_steps]: "syncOneSceneNode put get zero one H a i ids now e = (r, e') \<Longrightarrow> agent_steps a e e'"
  by (auto simp: syncOneSceneNode_def Let_def dest!: l1_slot_steps(1) split: sum.splits prod.splits option.splits if_splits)

lemma sync_scenes_steps [op_steps]: "sync_scenes put get zero one H a now ss touched e = (r, e') \<Longrightarrow> agent_steps a e e'"
proof (induction ss arbitrary: touched e)
  case (Cons s ss)
  then show ?case by (cases s) (auto dest!: syncOneSceneNode_steps Cons.IH split: sum.splits prod.splits intro: steps_trans)
qed simp

lemma SyncL1NodesFromL2_steps [op_steps]: "SyncL1NodesFromL2 put get zero one H now a e = (r, e') \<Longrightarrow> agent_steps a e e'"
  by (auto simp: SyncL1NodesFromL2_def dest: sync_scenes_steps split: sum.splits)

lemma attach_edge_steps: "attach_edge J a i ns e = (r, e') \<Longrightarrow> agent_steps a e e'"
  by (induction ns arbitrary: e) (auto dest!: l1_slot_steps(1) split: sum.splits prod.splits if_splits intro: steps_trans)

lemma upsertSceneEdge_steps: "upsertSceneEdge F J H a x y sim now ev e = (r, e') \<Longrightarrow> agent_steps a e e'"
  by (auto simp: upsertSceneEdge_def Let_def simp del: attach_edge.simps dest!: l1_slot_steps(2) attach_edge_steps
      split: sum.splits prod.splits if_splits intro: steps_trans)

lemma pair_loop_steps: "pair_loop F J H a m touched kws now ps seen n e = (r, e') \<Longrightarrow> agent_steps a e e'"
proof (induction ps arbitrary: seen n e)
  case (Cons p ps)
  obtain x y where p: "p = (x, y)" by (cases p)
  let ?kws = "\<lambda>i. case map_of kws i of None \<Rightarrow> [] | Some ks \<Rightarrow> ks"
  consider "(min x y, max x y) \<in> set seen" | "(min x y, max x y) \<notin> set seen" "jaccard F (?kws (min x y)) (?kws (max x y)) = None"
    | sim where "(min x y, max x y) \<notin> set seen" "jaccard F (?kws (min x y)) (?kws (max x y)) = Some sim" by blast
  then show ?case using Cons.prems
    by cases (auto simp: p Let_def dest!: upsertSceneEdge_steps Cons.IH split: sum.splits prod.splits if_splits intro: steps_trans)
qed simp

lemma BuildHyperedges_steps [op_steps]: "BuildHyperedges F J H lower now a m touched e = (r, e') \<Longrightarrow> agent_steps a e e'"
  by (auto simp: BuildHyperedges_def dest: pair_loop_steps split: sum.splits prod.splits if_splits)

lemma removeEdgeFromNode_steps: "removeEdgeFromNode J a n g e = (r, e') \<Longrightarrow> agent_steps a e e'"
  by (auto simp: removeEdgeFromNode_def Let_def dest: l1_slot_steps(1) split: sum.splits if_splits)

lemma drop_edge_steps: "drop_edge J a g ns e = (r, e') \<Longrightarrow> agent_steps a e e'"
proof -
  have "clear_refs J a g ns e = (r, e') \<Longrightarrow> agent_steps a e e'" for r e e'
    by (induction ns arbitrary: e) (auto dest!: removeEdgeFromNode_steps split: sum.splits prod.splits intro: steps_trans)
  then show "drop_edge J a g ns e = (r, e') \<Longrightarrow> agent_steps a e e'"
    by (auto simp: drop_edge_def dest!: l1_slot_steps(3) split: sum.splits prod.splits intro: steps_trans)
qed

lemma removeNodeFromEdge_steps: "removeNodeFromEdge J cfg a g n e = (r, e') \<Longrightarrow> agent_steps a e e'"
  by (auto simp: removeNodeFromEdge_def Let_def dest!: drop_edge_steps l1_slot_steps(2) split: sum.splits prod.splits if_splits)

lemma leave_edges_steps: "leave_edges J cfg a n gs k e = (r, e') \<Longrightarrow> agent_steps a e e'"
  by (induction gs arbitrary: k e) (auto dest!: removeNodeFromEdge_steps split: sum.splits prod.splits intro: steps_trans)

lemma rebuild_nodes_steps: "rebuild_nodes J cfg mi a ns upd k e = (r, e') \<Longrightarrow> agent_steps a e e'"
  by (induction ns arbitrary: upd k e)
    (auto dest!: leave_edges_steps l1_slot_steps(3) split: sum.splits prod.splits option.splits if_splits intro: steps_trans)

lemma RebuildFromL2_steps [op_steps]: "RebuildFromL2 J a mi cfg e = (r, e') \<Longrightarrow> agent_steps a e e'"
  by (auto simp: RebuildFromL2_def dest: rebuild_nodes_steps split: sum.splits)

lemma decayNodes_steps: "decayNodes F J cfg mi a now e = (r, e') \<Longrightarrow> agent_steps a e e'"
proof -
  have one: "decayOneNode F J cfg a now n st e = (r, e') \<Longrightarrow> agent_steps a e e'" for n st r e e'
    by (auto simp: decayOneNode_def Let_def dest!: l1_slot_steps(1,3) split: sum.splits prod.splits if_splits)
  have "decay_nodes F J cfg mi a now ns st e = (r, e') \<Longrightarrow> agent_steps a e e'" for ns st e
    by (induction ns arbitrary: st e) (auto dest!: one split: prod.splits option.splits if_splits intro: steps_trans)
  then show "decayNodes F J cfg mi a now e = (r, e') \<Longrightarrow> agent_steps a e e'"
    by (auto simp: decayNodes_def Let_def split: sum.splits)
qed

lemma propagateClearedEdges_steps: "propagateClearedEdges J cfg a clr rep e = (r, e') \<Longrightarrow> agent_steps a e e'"
proof -
  have "propagate_loop J cfg a ps rep e = (r, e') \<Longrightarrow> agent_steps a e e'" for ps rep e
  proof (induction ps arbitrary: rep e)
    case (Cons p ps)
    then show ?case by (cases p) (auto dest!: removeNodeFromEdge_steps Cons.IH split: sum.splits prod.splits intro: steps_trans)
  qed simp
  then show "propagateClearedEdges J cfg a clr rep e = (r, e') \<Longrightarrow> agent_steps a e e'" by (simp add: propagateClearedEdges_def)
qed

lemma decayRemainingEdges_steps: "decayRemainingEdges F J cfg a gone now rep e = (r, e') \<Longrightarrow> agent_steps a e e'"
proof -
  have one: "decayOneEdge F J cfg a gone now g i rep e = (r, e') \<Longrightarrow> agent_steps a e e'" for g i rep r e e'
    by (auto simp: decayOneEdge_def Let_def dest!: drop_edge_steps l1_slot_steps(2) split: sum.splits prod.splits if_splits)
  have "decay_edges F J cfg a gone now is rep e = (r, e') \<Longrightarrow> agent_steps a e e'" for "is" rep e
    by (induction "is" arbitrary: rep e) (auto dest!: one split: sum.splits prod.splits option.splits if_splits intro: steps_trans)
  then show "decayRemainingEdges F J cfg a gone now rep e = (r, e') \<Longrightarrow> agent_steps a e e'" by (simp add: decayRemainingEdges_def)
qed

lemma DecayNetwork_steps [op_steps]: "DecayNetwork F J now a mi cfg e = (r, e') \<Longrightarrow> agent_steps a e e'"
  by (auto simp: DecayNetwork_def dest!: decayNodes_steps propagateClearedEdges_steps decayRemainingEdges_steps
      split: prod.splits option.splits intro: steps_trans)

lemma BackfillL1Emotions_steps [op_steps]: "BackfillL1Emotions put get now a ems e = (r, e') \<Longrightarrow> agent_steps a e e'"
proof (induction ems arbitrary: e)
  case (Cons p ems)
  then show ?case
    by (cases p) (auto simp: Let_def simp del: de_Morgan_disj dest!: l1_slot_steps(1) Cons.IH split: sum.splits prod.splits if_splits intro: steps_trans)
qed simp

lemma l1Stages_steps: "l1Stages L w a mi rep e = (r, e') \<Longrightarrow> agent_steps a e e'"
proof -
  have decay: "decay_stage L w a mi rep e = (r, e') \<Longrightarrow> agent_steps a e e'" for rep r e e'
    by (auto simp: decay_stage_def Let_def dest!: DecayNetwork_steps split: prod.splits)
  have rebuild: "rebuild_stage L w a mi rep e = (r, e') \<Longrightarrow> agent_steps a e e'" for rep r e e'
    by (auto simp: rebuild_stage_def Let_def dest!: RebuildFromL2_steps decay split: prod.splits option.splits intro: steps_trans)
  have hyper: "hyperedge_stage L w a mi touched rep e = (r, e') \<Longrightarrow> agent_steps a e e'" for touched rep r e e'
    by (auto simp: hyperedge_stage_def Let_def dest!: BuildHyperedges_steps rebuild split: prod.splits option.splits intro: steps_trans)
  show "l1Stages L w a mi rep e = (r, e') \<Longrightarrow> agent_steps a e e'"
    by (auto simp: l1Stages_def dest!: SyncL1NodesFromL2_steps hyper split: prod.splits option.splits intro: steps_trans)
qed

lemma distillL0Stage_steps: "distillL0Stage L w a e = (r, e') \<Longrightarrow> agent_steps a e e'"
proof -
  have merge: "MergeDistill put get blank H now a emo mbti pers e = (m, e') \<Longrightarrow> agent_steps a e e'" for put get blank H now emo mbti pers m e e'
    by (auto simp: MergeDistill_def dest: l1_slot_steps(4) split: sum.splits if_splits)
  show "distillL0Stage L w a e = (r, e') \<Longrightarrow> agent_steps a e e'"
    by (auto simp: distillL0Stage_def Let_def dest!: merge BackfillL1Emotions_steps split: sum.splits prod.splits if_splits intro: steps_trans)
qed

lemma StructureStages_steps: "StructureStages L w a rep c = (r, c') \<Longrightarrow> ctx_steps a c c'"
  by (auto simp: StructureStages_def install_meta_def Let_def dest!: l1Stages_steps distillL0Stage_steps split: prod.splits option.splits intro: steps_trans)

lemma CompressTopicsL2_steps [op_steps]: "CompressTopicsL2 a ms p e = (r, e') \<Longrightarrow> agent_steps a e e'"
proof -
  have writes: "sink_members e a p ms = Inr (ws, ds) \<Longrightarrow> \<forall>r \<in> set ws. r_agent r = a" for e ws ds
    by (induction ms arbitrary: ws ds) (auto simp: TopicEntry_def Let_def split: sum.splits option.splits if_splits)
  show "CompressTopicsL2 a ms p e = (r, e') \<Longrightarrow> agent_steps a e e'"
    by (auto simp: CompressTopicsL2_def dest!: delete_steps split: sum.splits prod.splits intro: steps_trans write_steps [OF _ writes])
qed

lemma RestoreSunkTopicsL2_steps [op_steps]: "RestoreSunkTopicsL2 a ms p e = (r, e') \<Longrightarrow> agent_steps a e e'"
proof (induction ms arbitrary: e)
  case (Cons i ms)
  then show ?case by (auto simp: Let_def dest!: slot_steps(2) Cons.IH split: sum.splits prod.splits option.splits if_splits intro: steps_trans)
qed simp

lemma CreateFusedTopicL2_steps [op_steps]: "CreateFusedTopicL2 H a s kws t1 t2 ms e = (r, e') \<Longrightarrow> agent_steps a e e'"
  by (auto simp: CreateFusedTopicL2_def Let_def dest!: slot_steps(2) split: sum.splits prod.splits option.splits if_splits)

lemma AppendArchiveL4_steps [op_steps]: "AppendArchiveL4 H a s e idx = (r, e', idx') \<Longrightarrow> agent_steps a e e'"
  by (auto simp: AppendArchiveL4_def dest!: AppendArchiveBatchL4_steps split: sum.splits prod.splits list.splits)

lemma discardFusedGroup_steps: "ctx_steps (ctx_ID c) c (discardFusedGroup p c)"
  by (cases "DeleteL2Records (ctx_ID c) [p] (ctx_Engine c)")
    (auto simp: discardFusedGroup_def Let_def dest!: l2_steps(1) l4_steps(1) split: prod.splits intro: steps_trans)

lemma discarded_after:
  assumes "agent_steps (ctx_ID c) (ctx_Engine c) e"
  shows "ctx_steps (ctx_ID c) c (discardFusedGroup p (c\<lparr>ctx_Engine := e\<rparr>))"
    "ctx_steps (ctx_ID c) c (discardFusedGroup p (c\<lparr>ctx_Engine := e, ctx_L4 := l4\<rparr>))"
  using assms discardFusedGroup_steps [of "c\<lparr>ctx_Engine := e\<rparr>" p] discardFusedGroup_steps [of "c\<lparr>ctx_Engine := e, ctx_L4 := l4\<rparr>" p]
  by (auto intro: steps_trans)

lemma fuse_group_steps: "fuse_group H s kws t1 t2 ms c = (r, c') \<Longrightarrow> ctx_steps (ctx_ID c) c c'"
proof -
  let ?p = "ComputeFusedTopicID H s t1 t2 ms"
  assume run: "fuse_group H s kws t1 t2 ms c = (r, c')"
  obtain r1 e1 where make: "CreateFusedTopicL2 H (ctx_ID c) s kws t1 t2 ms (ctx_Engine c) = (r1, e1)" by fastforce
  obtain r2 e2 where sink: "CompressTopicsL2 (ctx_ID c) ms ?p e1 = (r2, e2)" by fastforce
  obtain r3 e3 where restore: "RestoreSunkTopicsL2 (ctx_ID c) ms ?p e2 = (r3, e3)" by fastforce
  have e1: "agent_steps (ctx_ID c) (ctx_Engine c) e1" by (rule CreateFusedTopicL2_steps [OF make])
  have e2: "agent_steps (ctx_ID c) (ctx_Engine c) e2" using e1 CompressTopicsL2_steps [OF sink] by (rule steps_trans)
  have e3: "agent_steps (ctx_ID c) (ctx_Engine c) e3" using e2 RestoreSunkTopicsL2_steps [OF restore] by (rule steps_trans)
  show ?thesis using run e2 discarded_after(1) [OF e1, of ?p] discarded_after(1) [OF e3, of ?p]
    by (auto simp: fuse_group_def Let_def make sink restore split: sum.splits)
qed

lemma store_summary_steps: "store_summary H kw now s g t1 t2 c = (r, c') \<Longrightarrow> ctx_steps (ctx_ID c) c c'"
proof -
  let ?p = "ComputeFusedTopicID H s t1 t2 (NodeHashes g)"
  assume run: "store_summary H kw now s g t1 t2 c = (r, c')"
  obtain r1 e1 l4 where put: "AppendArchiveL4 H (ctx_ID c) (summary_slot ?p (MergedSummary g) now) (ctx_Engine c) (ctx_L4 c) = (r1, e1, l4)"
    by (metis prod_cases3)
  let ?c = "c\<lparr>ctx_Engine := e1, ctx_L4 := l4\<rparr>"
  have e1: "agent_steps (ctx_ID c) (ctx_Engine c) e1" by (rule AppendArchiveL4_steps [OF put])
  have fuse: "fuse_group H s kws t1 t2 (NodeHashes g) ?c = (r, c') \<Longrightarrow> ctx_steps (ctx_ID c) c c'" for kws
    using fuse_group_steps [of H s kws t1 t2 "NodeHashes g" ?c r c'] e1 by (auto intro: steps_trans)
  show ?thesis using run e1 discarded_after(2) [OF e1, of ?p l4] by (auto simp: store_summary_def Let_def put dest: fuse split: sum.splits if_splits)
qed

lemma applyOneGroup_steps: "applyOneGroup H kw now s g t1 t2 c = (r, c') \<Longrightarrow> ctx_steps (ctx_ID c) c c'"
  by (auto simp: applyOneGroup_def Let_def dest!: store_summary_steps split: sum.splits option.splits if_splits)

lemma group_loop_steps: "group_loop H kw now s byID gs claimed got c = (r, c') \<Longrightarrow> ctx_steps (ctx_ID c) c c'"
proof (induction gs arbitrary: claimed got c)
  case (Cons g gs)
  show ?case
  proof (cases "length (NodeHashes g) < 2 \<or> sharesMember (NodeHashes g) claimed")
    case True
    then show ?thesis using Cons by auto
  next
    case False
    obtain t1 t2 ok where ts: "groupTimestamps (NodeHashes g) byID = (t1, t2, ok)" by (metis prod_cases3)
    obtain r1 c1 where one: "applyOneGroup H kw now s g t1 t2 c = (r1, c1)" by fastforce
    have c1: "ctx_steps (ctx_ID c) c c1" by (rule applyOneGroup_steps [OF one])
    have rest: "group_loop H kw now s byID gs claimed' got' c1 = (r, c') \<Longrightarrow> ctx_steps (ctx_ID c) c c'" for claimed' got'
      using Cons.IH [of claimed' got' c1] c1 by (auto intro: steps_trans)
    show ?thesis using Cons.prems False c1 by (auto simp: ts one dest: Cons.IH rest split: sum.splits if_splits)
  qed
qed simp

lemma compress_scenes_steps: "compress_scenes H kw cons m now ss (s, c) = Some (s', c') \<Longrightarrow> ctx_steps (ctx_ID c) c c'"
proof (induction ss arbitrary: s c)
  case (Cons i ss)
  obtain s1 c1 where one: "compress_scene H kw cons m now i (s, c) = Some (s1, c1)"
    and rest: "compress_scenes H kw cons m now ss (s1, c1) = Some (s', c')" using Cons.prems by (auto split: option.splits)
  have "ctx_steps (ctx_ID c) c c1" using one
    by (auto simp: compress_scene_def applyGroups_def Let_def dest!: group_loop_steps split: sum.splits option.splits prod.splits if_splits)
  then show ?case using Cons.IH [OF rest] by (auto intro: steps_trans)
qed simp

lemma retention_steps: "retention_stages w defaults a c = (c', rep) \<Longrightarrow> ctx_steps a c c'"
proof -
  have content: "PruneContentStage t a c rep = (c', rep') \<Longrightarrow> ctx_steps a c c'" for t c rep c' rep'
    by (auto simp: PruneContentStage_def dest!: l4_steps(2) split: sum.splits prod.splits)
  have plan: "PrunePlanStage t a c rep = (c', rep') \<Longrightarrow> ctx_steps a c c'" for t c rep c' rep'
    by (auto simp: PrunePlanStage_def Let_def dest!: l5_steps(2) split: sum.splits prod.splits if_splits)
  show "retention_stages w defaults a c = (c', rep) \<Longrightarrow> ctx_steps a c c'"
    unfolding retention_stages_def by (auto dest!: content plan split: prod.splits intro: steps_trans)
qed

lemma after_compress_steps: "after_compress L w a s c = (r, c') \<Longrightarrow> ctx_steps a c c'"
  by (auto simp: after_compress_def Let_def dest!: StructureStages_steps split: option.splits if_splits)

lemma RunDream_body_steps:
  assumes "RunDream_body L w defaults a i c = Some (r, c')" "ctx_ID c = a"
  shows "ctx_steps a c c'"
proof -
  obtain c1 rep where ret: "retention_stages w defaults a c = (c1, rep)" by fastforce
  have c1: "ctx_steps a c c1" by (rule retention_steps [OF ret])
  have mid: "compress_scenes H kw cons m now ss (s, c1) = Some (s', c2) \<Longrightarrow> ctx_steps a c c2" for H kw cons m now ss s s' c2
    using compress_scenes_steps [of H kw cons m now ss s c1 s' c2] c1 assms(2) by (auto intro: steps_trans)
  show ?thesis using assms(1) c1 by (auto simp: RunDream_body_def ret dest!: mid after_compress_steps split: sum.splits option.splits prod.splits if_splits intro: steps_trans)
qed

section \<open>Operations on the handle\<close>

text \<open>Every context is filed under its own id, as in a handle just opened, which has none.\<close>

definition own_contexts :: "DB \<Rightarrow> bool" where
  "own_contexts db \<longleftrightarrow> (\<forall>(i, ac) \<in> set (db_agents db). ctx_ID ac = i)"

text \<open>What a lock hands out, and what an operation under it keeps.\<close>

definition lock_keeps :: "u64 \<Rightarrow> DB \<Rightarrow> goerr + Context \<Rightarrow> DB \<Rightarrow> bool" where
  "lock_keeps a db out db' \<longleftrightarrow> db_engine db' = db_engine db \<and> db_idToName db' = db_idToName db \<and> own_contexts db'
     \<and> (\<forall>c. out = Inr c \<longrightarrow> ctx_Engine c = db_engine db \<and> ctx_ID c = a)"

definition lock_ok :: "(DB \<Rightarrow> (goerr + Context) \<times> DB) \<Rightarrow> u64 \<Rightarrow> bool" where
  "lock_ok lock a \<longleftrightarrow> (\<forall>db out db'. own_contexts db \<longrightarrow> lock db = (out, db') \<longrightarrow> lock_keeps a db out db')"

definition call_of :: "u64 \<Rightarrow> DB \<Rightarrow> DB \<Rightarrow> bool" where
  "call_of a db db' \<longleftrightarrow> agent_steps a (db_engine db) (db_engine db') \<and> db_idToName db' = db_idToName db \<and> own_contexts db'"

lemma keeps_refl [simp]: "own_contexts db \<Longrightarrow> call_of a db db"
  by (simp add: call_of_def)

lemma set_update: "set (AList.update k v xs) \<subseteq> insert (k, v) (set xs)"
  by (induction xs) auto

lemma own_update: "own_contexts db \<Longrightarrow> ctx_ID c = i \<Longrightarrow> own_contexts (db\<lparr>db_agents := AList.update i c (db_agents db)\<rparr>)"
  using set_update [of i c "db_agents db"] by (fastforce simp: own_contexts_def)

lemma own_filed: "own_contexts db \<Longrightarrow> map_of (db_agents db) i = Some c \<Longrightarrow> ctx_ID c = i"
  by (auto simp: own_contexts_def dest: map_of_SomeD)

lemma sweep_keeps:
  "db_engine (sweepIdleLocked now db) = db_engine db" "db_idToName (sweepIdleLocked now db) = db_idToName db"
  "own_contexts db \<Longrightarrow> own_contexts (sweepIdleLocked now db)"
  by (auto simp: sweepIdleLocked_def own_contexts_def)

lemma contextFor_keeps:
  assumes "contextFor now a db = (r, db')" "own_contexts db"
  shows "db_engine db' = db_engine db \<and> db_idToName db' = db_idToName db \<and> own_contexts db' \<and> (\<forall>c. r = Inr c \<longrightarrow> ctx_ID c = a)"
proof -
  let ?s = "sweepIdleLocked now db"
  let ?c = "case map_of (db_agents ?s) a of Some c \<Rightarrow> c | None \<Rightarrow> NewContext a (db_engine ?s)"
  have s: "own_contexts ?s" by (rule sweep_keeps(3) [OF assms(2)])
  have c: "ctx_ID ?c = a" by (auto simp: NewContext_def dest: own_filed [OF s] split: option.splits)
  have "own_contexts (?s\<lparr>db_agents := AList.update a ?c (db_agents ?s), db_LastActiveAt := AList.update a now (db_LastActiveAt ?s)\<rparr>)"
    using own_update [OF s c] by (simp add: own_contexts_def)
  then show ?thesis using assms c by (auto simp: contextFor_def Let_def sweep_keeps split: if_splits)
qed

lemma lockAgent_keeps: "lockAgent now a db = (r, db') \<Longrightarrow> own_contexts db \<Longrightarrow> lock_keeps a db r db'"
  by (auto simp: lockAgent_def lock_keeps_def dest!: contextFor_keeps split: sum.splits prod.splits if_splits)

lemma lockTurn_keeps: "lockTurn now a db = (r, db') \<Longrightarrow> own_contexts db \<Longrightarrow> lock_keeps a db r db'"
  by (auto simp: lockTurn_def lock_keeps_def dest!: lockAgent_keeps [unfolded lock_keeps_def] split: sum.splits prod.splits if_splits)

lemma lockSharedPool_keeps: "lockSharedPool now a db = (r, db') \<Longrightarrow> own_contexts db \<Longrightarrow> lock_keeps SharedPoolAgentID db r db'"
  by (auto simp: lockSharedPool_def dest: lockAgent_keeps split: sum.splits) (simp add: lock_keeps_def)

lemma locks_ok: "lock_ok (lockAgent now a) a" "lock_ok (lockTurn now a) a" "lock_ok (lockSharedPool now a) SharedPoolAgentID"
  by (simp_all add: lock_ok_def lockAgent_keeps lockTurn_keeps lockSharedPool_keeps)

lemma unlock_keeps: "lock_keeps a db (Inr c) db1 \<Longrightarrow> ctx_steps x c c' \<Longrightarrow> call_of x db (unlock a c' db1)"
  using own_update [of "db1" c' a] by (auto simp: lock_keeps_def call_of_def unlock_def own_contexts_def)

lemma locked_keeps:
  assumes "locked lock a body db = (r, db')" "own_contexts db"
    and "lock_ok lock a"
    and "\<And>c out c'. body c = (out, c') \<Longrightarrow> ctx_steps x c c'"
  shows "call_of x db db'"
proof -
  obtain out db1 where l: "lock db = (out, db1)" by fastforce
  have k: "lock_keeps a db out db1" using assms(2,3) l by (auto simp: lock_ok_def)
  show ?thesis
  proof (cases out)
    case (Inr c)
    obtain out' c' where b: "body c = (out', c')" by fastforce
    show ?thesis using assms(1) unlock_keeps [OF k [unfolded Inr] assms(4) [OF b]] by (simp add: locked_def l Inr b)
  qed (use assms(1) k in \<open>simp add: locked_def l lock_keeps_def call_of_def\<close>)
qed

lemma locked'_keeps:
  assumes "locked' lock a body db = Some (r, db')" "own_contexts db"
    and "lock_ok lock a"
    and "\<And>c out c'. body c = Some (out, c') \<Longrightarrow> ctx_ID c = a \<Longrightarrow> ctx_steps x c c'"
  shows "call_of x db db'"
proof -
  obtain out db1 where l: "lock db = (out, db1)" by fastforce
  have k: "lock_keeps a db out db1" using assms(2,3) l by (auto simp: lock_ok_def)
  show ?thesis
  proof (cases out)
    case (Inr c)
    then obtain out' c' where b: "body c = Some (out', c')" "db' = unlock a c' db1" using assms(1) by (auto simp: locked'_def l)
    have "ctx_ID c = a" using k Inr by (simp add: lock_keeps_def)
    then show ?thesis using b(2) unlock_keeps [OF k [unfolded Inr] assms(4) [OF b(1)]] by simp
  qed (use assms(1) k in \<open>simp add: locked'_def l lock_keeps_def call_of_def\<close>)
qed

lemmas under_lock = locks_ok [THEN [3] locked_keeps]
lemmas under_lock' = locks_ok [THEN [3] locked'_keeps]

lemma scene_calls_keep:
  "ListScenes now a l db = (r1, db') \<Longrightarrow> own_contexts db \<Longrightarrow> call_of a db db'"
  "UpdateScene now a i patch db = (r2, db') \<Longrightarrow> own_contexts db \<Longrightarrow> call_of a db db'"
  "DeleteScene H now a i db = (r3, db') \<Longrightarrow> own_contexts db \<Longrightarrow> call_of a db db'"
  "AppendArchive H now a slot db = (r4, db') \<Longrightarrow> own_contexts db \<Longrightarrow> call_of a db db'"
  "PlanNodeAdd H now a parent title db = (r5, db') \<Longrightarrow> own_contexts db \<Longrightarrow> call_of a db db'"
  unfolding ListScenes_def UpdateScene_def DeleteScene_def AppendArchive_def PlanNodeAdd_def
  by - (erule (1) under_lock, erule body_steps)+

lemma turn_calls_keep:
  "MergeScenes H now a p ss db = Some (r1, db') \<Longrightarrow> own_contexts db \<Longrightarrow> call_of a db db'"
  "DeleteTopic H now a i db = Some (r2, db') \<Longrightarrow> own_contexts db \<Longrightarrow> call_of a db db'"
  "Search dec blank H now draws a q db = Some (r3, db') \<Longrightarrow> own_contexts db \<Longrightarrow> call_of a db db'"
  "Scene_Context now a i db = Some (r4, db') \<Longrightarrow> own_contexts db \<Longrightarrow> call_of a db db'"
  "Update H distil now a te db = Some (r5, db') \<Longrightarrow> own_contexts db \<Longrightarrow> call_of a db db'"
  "SearchL4 lower now a lq db = Some (r6, db') \<Longrightarrow> own_contexts db \<Longrightarrow> call_of a db db'"
  "PlanNodeUpdate H clocks now a step db = Some (r7, db') \<Longrightarrow> own_contexts db \<Longrightarrow> call_of a db db'"
  "RunDream L w defaults now a s db = Some (r8, db') \<Longrightarrow> own_contexts db \<Longrightarrow> call_of a db db'"
  unfolding MergeScenes_def DeleteTopic_def Search_def Scene_Context_def Update_def SearchL4_def PlanNodeUpdate_def RunDream_def
  by - (erule (1) under_lock', erule body'_steps | erule (1) under_lock', erule (1) RunDream_body_steps)+

lemma dream_call_keeps: "Session_Dream L w defaults now a i db = Some (r, db') \<Longrightarrow> own_contexts db \<Longrightarrow> call_of a db db'"
  by (auto simp: Session_Dream_def dest: turn_calls_keep(8) split: sum.splits if_splits)

lemma other_calls_keep:
  "RenameTopic now a i name db = (r1, db') \<Longrightarrow> own_contexts db \<Longrightarrow> call_of a db db'"
  "UpdateL0 put dec H now a profile db = (r2, db') \<Longrightarrow> own_contexts db \<Longrightarrow> call_of a db db'"
  "ImportL3 H now a items mode db = (r3, db') \<Longrightarrow> own_contexts db \<Longrightarrow> call_of SharedPoolAgentID db db'"
  "UpdateL3 now a i name db = (r4, db') \<Longrightarrow> own_contexts db \<Longrightarrow> call_of SharedPoolAgentID db db'"
proof -
  show "RenameTopic now a i name db = (r1, db') \<Longrightarrow> own_contexts db \<Longrightarrow> call_of a db db'"
    by (cases "name = []") (auto simp: RenameTopic_def elim!: under_lock body_steps)
  show "UpdateL0 put dec H now a profile db = (r2, db') \<Longrightarrow> own_contexts db \<Longrightarrow> call_of a db db'"
    unfolding UpdateL0_def by (erule (1) under_lock) (auto dest: UpdateL0_body_steps split: prod.splits)
  show "ImportL3 H now a items mode db = (r3, db') \<Longrightarrow> own_contexts db \<Longrightarrow> call_of SharedPoolAgentID db db'"
    unfolding ImportL3_def by (erule (1) under_lock) (auto simp: on_engine_def dest!: ImportL3_body_steps split: prod.splits)
  show "UpdateL3 now a i name db = (r4, db') \<Longrightarrow> own_contexts db \<Longrightarrow> call_of SharedPoolAgentID db db'"
    unfolding UpdateL3_def by (erule (1) under_lock) (auto simp: on_engine_def dest!: graph_body_steps(1) split: prod.splits)
qed

text \<open>A call that only reads is a step of any agent.\<close>

lemma reads_keep:
  "GetL3 now a i db = (r1, db') \<Longrightarrow> own_contexts db \<Longrightarrow> call_of x db db'"
  "ListL3 now a db = (r2, db') \<Longrightarrow> own_contexts db \<Longrightarrow> call_of x db db'"
  "QueryL3Nodes lower now a nq db = (r3, db') \<Longrightarrow> own_contexts db \<Longrightarrow> call_of x db db'"
  "GetL0 get blank H now a db = (r4, db') \<Longrightarrow> own_contexts db \<Longrightarrow> call_of x db db'"
  "ListL1 dec now a db = (r5, db') \<Longrightarrow> own_contexts db \<Longrightarrow> call_of x db db'"
  unfolding GetL3_def ListL3_def QueryL3Nodes_def GetL0_def ListL1_def
  by - (erule (1) under_lock, simp)+

lemma plan_reads_keep:
  "PlanState now a db = Some (r1, db') \<Longrightarrow> own_contexts db \<Longrightarrow> call_of x db db'"
  "PlanActive now a db = Some (r2, db') \<Longrightarrow> own_contexts db \<Longrightarrow> call_of x db db'"
  unfolding PlanState_def PlanActive_def by - (erule (1) under_lock', auto)+

lemma QueryL3Subgraph_keeps: "QueryL3Subgraph now a i start maxDepth kinds db = (r, db') \<Longrightarrow> own_contexts db \<Longrightarrow> call_of x db db'"
  by (cases "list_ex (\<lambda>k. \<not> GraphEdgeKind_Valid k) kinds") (auto simp: QueryL3Subgraph_def elim!: under_lock)

text \<open>
  One call a session makes under its agent's id, deleting a graph apart. A Dream the library starts in the background
  is the call \<open>run_dream\<close>.
\<close>

inductive host_call :: "('e, 'm, 'f) dream_lib \<Rightarrow> (string \<Rightarrow> goerr + string list) \<Rightarrow> u64 \<Rightarrow> DB \<Rightarrow> DB \<Rightarrow> bool"
  for L :: "('e, 'm, 'f) dream_lib" and distil :: "string \<Rightarrow> goerr + string list" and a :: u64 where
  list_scenes: "ListScenes now a l db = (r1, db') \<Longrightarrow> host_call L distil a db db'"
| update_scene: "UpdateScene now a i patch db = (r2, db') \<Longrightarrow> host_call L distil a db db'"
| rename_topic: "RenameTopic now a i name db = (r3, db') \<Longrightarrow> host_call L distil a db db'"
| merge_scenes: "MergeScenes (dl_hash L) now a p ss db = Some (r4, db') \<Longrightarrow> host_call L distil a db db'"
| delete_topic: "DeleteTopic (dl_hash L) now a i db = Some (r4, db') \<Longrightarrow> host_call L distil a db db'"
| delete_scene: "DeleteScene (dl_hash L) now a i db = (r4, db') \<Longrightarrow> host_call L distil a db db'"
| search: "Search (dl_get_profile L) (dl_blank L) (dl_hash L) now draws a q db = Some (r5, db') \<Longrightarrow> host_call L distil a db db'"
| scene_context: "Scene_Context now a i db = Some (r6, db') \<Longrightarrow> host_call L distil a db db'"
| update: "Update (dl_hash L) distil now a te db = Some (r7, db') \<Longrightarrow> host_call L distil a db db'"
| search_l4: "SearchL4 (dl_lower L) now a lq db = Some (r8, db') \<Longrightarrow> host_call L distil a db db'"
| append_archive: "AppendArchive (dl_hash L) now a slot db = (r9, db') \<Longrightarrow> host_call L distil a db db'"
| plan_add: "PlanNodeAdd (dl_hash L) now a parent title db = (r10, db') \<Longrightarrow> host_call L distil a db db'"
| plan_update: "PlanNodeUpdate (dl_hash L) clocks now a step db = Some (r4, db') \<Longrightarrow> host_call L distil a db db'"
| plan_state: "PlanState now a db = Some (r11, db') \<Longrightarrow> host_call L distil a db db'"
| plan_active: "PlanActive now a db = Some (r11, db') \<Longrightarrow> host_call L distil a db db'"
| get_l3: "GetL3 now a i db = (r12, db') \<Longrightarrow> host_call L distil a db db'"
| list_l3: "ListL3 now a db = (r13, db') \<Longrightarrow> host_call L distil a db db'"
| import_l3: "ImportL3 (dl_hash L) now a items mode db = (r14, db') \<Longrightarrow> host_call L distil a db db'"
| update_l3: "UpdateL3 now a i name db = (r12, db') \<Longrightarrow> host_call L distil a db db'"
| query_nodes: "QueryL3Nodes (dl_lower L) now a nq db = (r15, db') \<Longrightarrow> host_call L distil a db db'"
| query_subgraph: "QueryL3Subgraph now a i start maxDepth kinds db = (r16, db') \<Longrightarrow> host_call L distil a db db'"
| get_l0: "GetL0 (dl_get_profile L) (dl_blank L) (dl_hash L) now a db = (r17, db') \<Longrightarrow> host_call L distil a db db'"
| update_l0: "UpdateL0 (dl_put_profile L) (dl_get_profile L) (dl_hash L) now a profile db = (r18, db') \<Longrightarrow> host_call L distil a db db'"
| list_l1: "ListL1 (get_node (dl_l1 L)) now a db = (r19, db') \<Longrightarrow> host_call L distil a db db'"
| run_dream: "RunDream L w defaults now a s db = Some (r20, db') \<Longrightarrow> host_call L distil a db db'"
| dream: "Session_Dream L w defaults now a i db = Some (r20, db') \<Longrightarrow> host_call L distil a db db'"

lemma call_keeps: "host_call L distil a db db' \<Longrightarrow> own_contexts db \<Longrightarrow> call_of a db db' \<or> call_of SharedPoolAgentID db db'"
  by (induction rule: host_call.induct)
    (auto intro: scene_calls_keep turn_calls_keep dream_call_keeps other_calls_keep reads_keep plan_reads_keep QueryL3Subgraph_keeps)

end
