(* ===== verification/Session_Properties.thy ===== *)
theory Session_Properties
  imports Agent_Steps Sample_Store
begin

text \<open>
  The properties that span the handle: what one agent's calls leave alone, and what a closed handle answers.
\<close>

section \<open>The doors, and the life of the handle\<close>

text \<open>What a call leaves agent \<open>b\<close>: its index entries, and its place in the tables.\<close>

definition spares :: "u64 \<Rightarrow> DB \<Rightarrow> DB \<Rightarrow> bool" where
  "spares b db db' \<longleftrightarrow> (\<forall>i. idx_lookup (index (db_engine db')) b i = idx_lookup (index (db_engine db)) b i) \<and> own_contexts db' \<and> HasAgent b db'"

lemma keeps_spares: "call_of a db db' \<Longrightarrow> a \<noteq> b \<Longrightarrow> HasAgent b db \<Longrightarrow> spares b db db'"
  by (auto simp: call_of_def spares_def HasAgent_def dest: agent_steps_other [of a _ _ b])

lemma reads_spare: "(\<And>x. call_of x db db') \<Longrightarrow> HasAgent b db \<Longrightarrow> spares b db db'"
  using keeps_spares [of "b + 1" db db' b] by simp

lemma spares_trans: "spares b db db1 \<Longrightarrow> spares b db1 db2 \<Longrightarrow> spares b db db2"
  by (simp add: spares_def)

lemma WriteAgentRegistry_steps: "WriteAgentRegistry i name e = (r, e') \<Longrightarrow> agent_steps i e e'"
  by (auto simp: WriteAgentRegistry_def dest!: WriteRecord_one write_steps [where a = i] split: sum.splits prod.splits)

lemma allocate_spares:
  assumes "allocate_id name draws db = Some (r, db')" "own_contexts db" "HasAgent b db"
  shows "spares b db db' \<and> (\<forall>i. r = Inr i \<longrightarrow> i \<noteq> b)"
  using assms
proof (induction name draws db rule: allocate_id.induct)
  case (3 name d draws db)
  let ?i = "get_u64 d"
  show ?case
  proof (cases "?i = DefaultAgentID \<or> ?i = SharedPoolAgentID \<or> map_of (db_idToName db) ?i \<noteq> None")
    case True
    then show ?thesis using "3.IH" "3.prems" by (auto simp: Let_def split: if_splits)
  next
    case False
    then have new: "?i \<noteq> b" using "3.prems"(3) by (auto simp: HasAgent_def)
    obtain r1 e1 where reg: "WriteAgentRegistry ?i name (db_engine db) = (r1, e1)" by fastforce
    have "idx_lookup (index e1) b j = idx_lookup (index (db_engine db)) b j" for j
      using agent_steps_other [OF WriteAgentRegistry_steps [OF reg], of b j] new by simp
    then show ?thesis using "3.prems" False new
      by (auto simp: Let_def reg spares_def own_contexts_def HasAgent_def split: sum.splits)
  qed
qed (auto simp: spares_def)

lemma ensureRegistered_spares:
  assumes "ensureRegistered name draws db = Some (r, db')" "own_contexts db" "HasAgent b db"
    "\<forall>i. map_of (db_nameToID db) name = Some i \<longrightarrow> i \<noteq> b"
  shows "spares b db db' \<and> (\<forall>i. r = Inr i \<longrightarrow> i \<noteq> b)"
  using assms by (auto simp: ensureRegistered_def spares_def split: if_splits option.splits dest: allocate_spares)

lemma settle_profile_steps: "settle_profile put dec H now i name profile c = (r, c') \<Longrightarrow> ctx_steps i c c'"
  by (auto simp: settle_profile_def dest!: l1_slot_steps(4) split: sum.splits prod.splits if_splits)

lemma SubAgent_spares:
  assumes "SubAgent put dec H now draws llm profile db = Some (r, db')" "own_contexts db" "HasAgent b db"
    "\<forall>i. map_of (db_nameToID db) (TrimSpace (pr_Name profile)) = Some i \<longrightarrow> i \<noteq> b"
  shows "spares b db db'"
proof -
  let ?name = "TrimSpace (pr_Name profile)"
  have refl: "spares b db db" using assms(2,3) by (simp add: spares_def)
  have reg: "spares b db db1 \<and> (\<forall>i. r1 = Inr i \<longrightarrow> i \<noteq> b)" if "ensureRegistered ?name draws db = Some (r1, db1)" for r1 db1
    by (rule ensureRegistered_spares [OF that assms(2,3,4)])
  have settle: "spares b db1 db2" if "locked (lockAgent now i) i (settle_profile put dec H now i ?name profile) db1 = (r2, db2)"
      "spares b db db1" "i \<noteq> b" for i db1 r2 db2
  proof -
    have "own_contexts db1" "HasAgent b db1" using that(2) by (simp_all add: spares_def)
    moreover have "call_of i db1 db2" using that(1) \<open>own_contexts db1\<close> by (rule under_lock) (rule settle_profile_steps)
    ultimately show ?thesis using that(3) keeps_spares by blast
  qed
  show ?thesis using assms(1) refl
    by (auto simp: SubAgent_def Let_def dest!: reg settle split: sum.splits option.splits prod.splits if_splits intro: spares_trans)
qed

lemma agent_door_keeps: "Agent now llm hex db = (r, db') \<Longrightarrow> own_contexts db \<Longrightarrow> call_of x db db'"
  by (auto simp: Agent_def elim!: under_lock split: sum.splits)

lemma Agents_keeps: "Agents dec blank H now db = (r, db') \<Longrightarrow> own_contexts db \<Longrightarrow> call_of x db db'"
  by (auto simp: Agents_def dest!: reads_keep(4) split: sum.splits option.splits prod.splits if_splits)

lemma appendSnapshot_index: "appendSnapshot blob e = (r, e') \<Longrightarrow> index e' = index e"
  by (auto simp: appendSnapshot_def switchHeader_def Let_def dest!: writeInactiveHeader_index split: sum.splits prod.splits)

lemma shutdownHandles_index: "shutdownHandles e = (r, e') \<Longrightarrow> index e' = index e"
  by (auto simp: shutdownHandles_def Let_def split: prod.splits)

lemma Checkpoint_spares: "Checkpoint_DB db = (r, db') \<Longrightarrow> own_contexts db \<Longrightarrow> HasAgent b db \<Longrightarrow> spares b db db'"
  by (auto simp: Checkpoint_DB_def Checkpoint_def spares_def own_contexts_def HasAgent_def dest!: appendSnapshot_index split: prod.splits if_splits)

lemma Close_spares: "Close_DB db = (r, db') \<Longrightarrow> own_contexts db \<Longrightarrow> HasAgent b db \<Longrightarrow> spares b db db'"
  by (auto simp: Close_DB_def Close_def spares_def own_contexts_def HasAgent_def dest!: appendSnapshot_index shutdownHandles_index
      split: prod.splits sum.splits if_splits)

text \<open>A call on the handle itself. A name that is registered opens its agent, here one of the set; a new name gets an agent of its own.\<close>

inductive door_call :: "('e, 'm, 'f) dream_lib \<Rightarrow> u64 set \<Rightarrow> DB \<Rightarrow> DB \<Rightarrow> bool"
  for L :: "('e, 'm, 'f) dream_lib" and A :: "u64 set" where
  agent: "Agent now llm hex db = (r1, db') \<Longrightarrow> door_call L A db db'"
| agents: "Agents (dl_get_profile L) (dl_blank L) (dl_hash L) now db = (r2, db') \<Longrightarrow> door_call L A db db'"
| sub_agent: "SubAgent (dl_put_profile L) (dl_get_profile L) (dl_hash L) now draws llm profile db = Some (r3, db')
    \<Longrightarrow> \<forall>i. map_of (db_nameToID db) (TrimSpace (pr_Name profile)) = Some i \<longrightarrow> i \<in> A \<Longrightarrow> door_call L A db db'"
| checkpoint: "Checkpoint_DB db = (r4, db') \<Longrightarrow> door_call L A db db'"
| close: "Close_DB db = (r4, db') \<Longrightarrow> door_call L A db db'"

lemma door_spares: "door_call L A db db' \<Longrightarrow> own_contexts db \<Longrightarrow> HasAgent b db \<Longrightarrow> b \<notin> A \<Longrightarrow> spares b db db'"
proof (induction rule: door_call.induct)
  case (sub_agent now draws llm profile db r3 db')
  then show ?case by (auto intro!: SubAgent_spares)
qed (auto intro: reads_spare agent_door_keeps Agents_keeps Checkpoint_spares Close_spares)

section \<open>Deleting a graph\<close>

text \<open>
  The scene slots that deleting a graph writes, outside the graph's own domain: those whose scene names the graph when
  the loop of \<open>detachGraphAnchors\<close> comes to their domain.
\<close>

definition anchored_slots :: "u64 \<Rightarrow> u64 \<Rightarrow> StorageEngine \<Rightarrow> (u64 \<times> u64) set" where
  "anchored_slots a g e = (case CollectAllScenesL2 e a of Inl _ \<Rightarrow> {}
     | Inr ss \<Rightarrow> {(a, ss_SceneID s) |s. s \<in> set ss \<and> ss_L3ID s = g})"

fun cleared_in :: "i64 \<Rightarrow> u64 \<Rightarrow> u64 list \<Rightarrow> DB \<Rightarrow> (u64 \<times> u64) set" where
  "cleared_in now g [] db = {}"
| "cleared_in now g (a # as) db = (case lockAgent now a db of
     (Inl _, db) \<Rightarrow> cleared_in now g as db
   | (Inr ac, db) \<Rightarrow> anchored_slots a g (ctx_Engine ac) \<union> cleared_in now g as (unlock a (snd (on_engine (DetachGraph a g) ac)) db))"

definition cleared_slots :: "i64 \<Rightarrow> u64 \<Rightarrow> string \<Rightarrow> DB \<Rightarrow> (u64 \<times> u64) set" where
  "cleared_slots now a i db = (case locked (lockSharedPool now a) SharedPoolAgentID (on_engine (DeleteL3_body i)) db of
     (Inl _, _) \<Rightarrow> {} | (Inr g, db) \<Rightarrow> cleared_in now g (DefaultAgentID # map fst (db_idToName db)) db)"

lemma WriteSceneSlot_other:
  assumes "WriteSceneSlot a i s e = (r, e')" "a \<noteq> b \<or> i \<noteq> j"
  shows "idx_lookup (index e') b j = idx_lookup (index e) b j"
  using assms by (auto simp: WriteSceneSlot_def writeJSON_def dest!: WriteRecord_one intro!: write_other split: sum.splits prod.splits)

lemma detach_scenes_other:
  assumes "detach_scenes a g ss e = (r, e')" "\<forall>s \<in> set ss. ss_L3ID s = g \<longrightarrow> a \<noteq> b \<or> ss_SceneID s \<noteq> j"
  shows "idx_lookup (index e') b j = idx_lookup (index e) b j"
  using assms
proof (induction ss arbitrary: e r)
  case (Cons s ss)
  then show ?case by (auto dest!: WriteSceneSlot_other [where b = b and j = j] split: sum.splits prod.splits if_splits) 
qed simp

lemma DetachGraph_other:
  assumes "DetachGraph a g e = (r, e')" "(b, j) \<notin> anchored_slots a g e"
  shows "idx_lookup (index e') b j = idx_lookup (index e) b j"
  using assms by (auto simp: DetachGraph_def anchored_slots_def intro!: detach_scenes_other split: sum.splits prod.splits)

lemma detach_domains_other:
  assumes "detach_domains now g as db = (r, db')" "own_contexts db"
  shows "((b, j) \<notin> cleared_in now g as db \<longrightarrow> idx_lookup (index (db_engine db')) b j = idx_lookup (index (db_engine db)) b j)
    \<and> own_contexts db' \<and> db_idToName db' = db_idToName db"
  using assms
proof (induction "as" arbitrary: db r)
  case (Cons a "as")
  obtain out db1 where l: "lockAgent now a db = (out, db1)" by fastforce
  note k = lockAgent_keeps [OF l Cons.prems(2)]
  show ?case
  proof (cases out)
    case (Inl err)
    then show ?thesis using Cons k by (auto simp: l lock_keeps_def)
  next
    case (Inr ac)
    obtain r1 e1 where d: "DetachGraph a g (ctx_Engine ac) = (r1, e1)" by fastforce
    let ?db2 = "unlock a (ac\<lparr>ctx_Engine := e1\<rparr>) db1"
    have ac: "ctx_Engine ac = db_engine db" "ctx_ID ac = a" "own_contexts db1" "db_idToName db1 = db_idToName db"
      using k Inr by (simp_all add: lock_keeps_def)
    have own: "own_contexts ?db2" using own_update [OF ac(3), of "ac\<lparr>ctx_Engine := e1\<rparr>" a] ac(2) by (simp add: unlock_def own_contexts_def)
    have one: "(b, j) \<notin> cleared_in now g (a # as) db \<Longrightarrow> idx_lookup (index e1) b j = idx_lookup (index (db_engine db)) b j"
      using DetachGraph_other [OF d] ac(1) by (simp add: l Inr)
    obtain errs where "detach_domains now g as ?db2 = (errs, db')"
      using Cons.prems(1) by (auto simp: l Inr on_engine_def d split: prod.splits)
    from Cons.IH [OF this own] one ac(4) show ?thesis by (auto simp: l Inr on_engine_def d unlock_def)
  qed
qed simp

lemma DeleteL3_other:
  assumes "DeleteL3 now a i db = (r, db')" "own_contexts db" "HasAgent b db" "b \<noteq> SharedPoolAgentID"
  shows "((b, j) \<notin> cleared_slots now a i db \<longrightarrow> idx_lookup (index (db_engine db')) b j = idx_lookup (index (db_engine db)) b j)
    \<and> own_contexts db' \<and> HasAgent b db'"
proof -
  obtain out db1 where l: "locked (lockSharedPool now a) SharedPoolAgentID (on_engine (DeleteL3_body i)) db = (out, db1)" by fastforce
  have "call_of SharedPoolAgentID db db1"
    by (rule under_lock(3) [OF l assms(2)]) (auto simp: on_engine_def dest!: graph_body_steps(2) split: prod.splits)
  then have one: "spares b db db1" using assms(3,4) keeps_spares [of SharedPoolAgentID] by simp
  show ?thesis using assms(1) one
    by (cases out) (auto simp: DeleteL3_def l cleared_slots_def detachGraphAnchors_def spares_def HasAgent_def simp del: detach_domains.simps cleared_in.simps
        dest!: detach_domains_other [where b = b and j = j] split: prod.splits)
qed

section \<open>Isolation of agents\<close>

text \<open>
  What the agents of a set can make of a handle, calling in any order, with the scene slots their deletions of graphs
  cleared on the way.
\<close>

inductive agents_session :: "('e, 'm, 'f) dream_lib \<Rightarrow> (string \<Rightarrow> goerr + string list) \<Rightarrow> u64 set \<Rightarrow> DB \<Rightarrow> (u64 \<times> u64) set \<Rightarrow> DB \<Rightarrow> bool"
  for L :: "('e, 'm, 'f) dream_lib" and distil :: "string \<Rightarrow> goerr + string list" and A :: "u64 set" and db :: DB where
  start: "agents_session L distil A db {} db"
| call: "agents_session L distil A db S y \<Longrightarrow> a \<in> A \<Longrightarrow> host_call L distil a y z \<Longrightarrow> agents_session L distil A db S z"
| door: "agents_session L distil A db S y \<Longrightarrow> door_call L A y z \<Longrightarrow> agents_session L distil A db S z"
| delete_l3: "agents_session L distil A db S y \<Longrightarrow> a \<in> A \<Longrightarrow> DeleteL3 now a i y = (r, z)
    \<Longrightarrow> agents_session L distil A db (S \<union> cleared_slots now a i y) z"

text \<open>
  C37. Agents are isolated from one another: whatever calls the agents of a set make on a handle and on their sessions,
  in any order, with any arguments and any disk faults on the way, background Dreams, new agents, checkpoints and the
  final close included, the records of every agent outside the set that the handle knew at the start stay indexed exactly
  where they were. Two exceptions are stated: the shared graph domain belongs to everyone, and deleting a graph rewrites,
  in every domain, the slots of the scenes that name it, which \<open>S\<close> collects and nothing else. A handle just opened has no
  contexts, so they are all filed under their own ids.
\<close>

theorem agents_are_isolated:
  assumes "agents_session L distil A db S db'" "own_contexts db" "HasAgent b db" "b \<notin> A" "b \<noteq> SharedPoolAgentID" "(b, i) \<notin> S"
  shows "idx_lookup (index (db_engine db')) b i = idx_lookup (index (db_engine db)) b i"
proof -
  have "((b, i) \<notin> S \<longrightarrow> idx_lookup (index (db_engine db')) b i = idx_lookup (index (db_engine db)) b i) \<and> own_contexts db' \<and> HasAgent b db'"
    using assms(1)
  proof induction
    case (call S y a z)
    have "spares b y z" using call_keeps [OF call.hyps(3)] call.IH call.hyps(2) assms(4,5) keeps_spares by metis
    then show ?case using call.IH by (simp add: spares_def)
  next
    case (door S y z)
    have "spares b y z" using door_spares [OF door.hyps(2)] door.IH assms(4) by blast
    then show ?case using door.IH by (simp add: spares_def)
  next
    case (delete_l3 S y a now i' r z)
    show ?case using DeleteL3_other [OF delete_l3.hyps(3), of b i] delete_l3.IH assms(5) by auto
  qed (simp add: assms(2,3))
  then show ?thesis using assms(6) by blast
qed

lemma read_indexed: "ReadRecord e a i = Inr x \<Longrightarrow> \<exists>off. idx_lookup (index e) a i = Some off"
  by (auto simp: ReadRecord_def split: option.splits if_splits)

lemma sample_indexed: "engine_rep e sample_store \<Longrightarrow> \<exists>off. idx_lookup (index e) 1 7 = Some off"
  by (rule read_indexed [of e 1 7 "record_of marshal_scene RecL2Scene sample_scene"]) (simp add: eng.read_law sample_at)

definition handle :: "StorageEngine \<Rightarrow> DB" where
  "handle e = \<lparr>db_engine = e, db_closed = False, db_agents = [], db_nameToID = [(''a'', 1), (''b'', 2)],
     db_idToName = [(1, ''a''), (2, ''b'')], db_LastActiveAt = [], db_DreamInFlight = (\<lambda>_. {}), db_AgentIdleTTLMs = 0,
     db_SceneDreamTopicThreshold = 5\<rparr>"


definition no_profile :: "(unit, unit) ProfileSlot" where
  "no_profile = \<lparr>pr_Name = [], pr_Role = [], pr_Personality = [], pr_EmotionState = (), pr_MBTI = (), pr_Preferences = [],
     pr_AgentType = AgentTypePrimary, pr_UpdatedAtMs = 0\<rparr>"

definition unit_floats :: "unit float64" where
  "unit_floats = \<lparr>f_lit = (\<lambda>_ _. ()), f_of_int = (\<lambda>_. ()), f_lt = (\<lambda>_ _. False), f_le = (\<lambda>_ _. True), f_sub = (\<lambda>_ _. ()), f_mul = (\<lambda>_ _. ()),
     f_div = (\<lambda>_ _. ()), f_neg = (\<lambda>_. ()), f_exp = (\<lambda>_. ()), f_abs = (\<lambda>_. ()), f_min = (\<lambda>_ _. ()), f_max = (\<lambda>_ _. ())\<rparr>"

definition unit_lib :: "(unit, unit, unit) dream_lib" where
  "unit_lib = \<lparr>dl_float = unit_floats,
     dl_l1 = \<lparr>put_node = (\<lambda>_. Inl Plain_Err), get_node = (\<lambda>_. Inl Plain_Err), put_edge = (\<lambda>_. Inl Plain_Err), get_edge = (\<lambda>_. Inl Plain_Err)\<rparr>,
     dl_put_profile = (\<lambda>_. Inr []), dl_get_profile = (\<lambda>_. Inr no_profile), dl_blank = no_profile, dl_hash = sample_hash, dl_lower = (\<lambda>s. s)\<rparr>"

definition sample_item :: L3ImportItem where
  "sample_item = \<lparr>im_Title = ''x'', im_Domain = ''d'', im_NodeType = [], im_Content = ''c'', im_Keywords = [], im_SourceRef = [], im_Related = []\<rparr>"

theorem agents_are_isolated_witness:
  "\<exists>db db1 db2 db3 r1 r2 r3 off. ImportL3 sample_hash 5 2 [sample_item] L3ImportMerge db = (r1, db1)
    \<and> DeleteScene sample_hash 6 2 (FormatHash 7) db1 = (r2, db2) \<and> Close_DB db2 = (r3, db3)
    \<and> idx_lookup (index (db_engine db)) 1 7 = Some off \<and> idx_lookup (index (db_engine db3)) 1 7 = Some off"
proof -
  obtain e where e: "engine_rep e sample_store" using sample_domain by blast
  let ?db = "handle e" and ?s = "agents_session unit_lib (\<lambda>_. Inr []) {2} (handle e) {}"
  obtain r1 db1 where one: "ImportL3 sample_hash 5 2 [sample_item] L3ImportMerge ?db = (r1, db1)" by fastforce
  obtain r2 db2 where two: "DeleteScene sample_hash 6 2 (FormatHash 7) db1 = (r2, db2)" by fastforce
  obtain r3 db3 where three: "Close_DB db2 = (r3, db3)" by fastforce
  have H: "dl_hash unit_lib = sample_hash" by (simp add: unit_lib_def)
  have "?s db1" by (rule agents_session.call [OF agents_session.start, of 2]) (simp, rule host_call.import_l3 [where L = unit_lib, unfolded H, OF one])
  then have "?s db2" by (rule agents_session.call [of _ _ _ _ _ _ 2]) (simp, rule host_call.delete_scene [where L = unit_lib, unfolded H, OF two])
  then have "?s db3" by (rule agents_session.door) (rule door_call.close [OF three])
  then have "idx_lookup (index (db_engine db3)) 1 7 = idx_lookup (index (db_engine ?db)) 1 7"
    by (rule agents_are_isolated) (simp_all add: SharedPoolAgentID_def own_contexts_def handle_def HasAgent_def)
  moreover obtain off where "idx_lookup (index e) 1 7 = Some off" using sample_indexed [OF e] by blast
  moreover have "db_engine ?db = e" by (simp add: handle_def)
  ultimately have "idx_lookup (index (db_engine ?db)) 1 7 = Some off" "idx_lookup (index (db_engine db3)) 1 7 = Some off" by simp_all
  with one two three show ?thesis by blast
qed

section \<open>The closed handle\<close>

lemma closed_locks:
  assumes "db_closed db"
  shows "lockAgent now a db = (Inl errDBClosed, db)" "lockTurn now a db = (Inl errDBClosed, db)" "lockSharedPool now a db = (Inl errDBClosed, db)"
    "CheckSession a db = Inl errDBClosed"
  using assms by (simp_all add: lockSharedPool_def CheckSession_def lockTurn_def lockAgent_def contextFor_def)

lemma closed_locked:
  assumes "db_closed db"
  shows "locked (lockAgent now a) b body db = (Inl errDBClosed, db)" "locked (lockTurn now a) b body db = (Inl errDBClosed, db)"
    "locked (lockSharedPool now a) b body db = (Inl errDBClosed, db)"
    "locked' (lockAgent now a) b body' db = Some (Inl errDBClosed, db)" "locked' (lockTurn now a) b body' db = Some (Inl errDBClosed, db)"
  using closed_locks [OF assms] by (simp_all add: locked_def locked'_def)

lemmas ops_locked = ListScenes_def UpdateScene_def RenameTopic_def MergeScenes_def DeleteTopic_def DeleteScene_def Search_def Scene_Context_def
  Update_def SearchL4_def AppendArchive_def PlanNodeAdd_def PlanNodeUpdate_def PlanState_def PlanActive_def GetL3_def ListL3_def ImportL3_def
  UpdateL3_def QueryL3Nodes_def QueryL3Subgraph_def GetL0_def UpdateL0_def ListL1_def RunDream_def Session_Dream_def DeleteL3_def

lemmas doors_closed = ensureRegistered_def Agents_def Agent_def SubAgent_def Primary_def NewSession_def Close_DB_def Checkpoint_DB_def Stats_DB_def
  CompactTo_def IsClosed_def

lemma closed_call: "host_call L distil a db db' \<Longrightarrow> db_closed db \<Longrightarrow> db' = db"
  by (induction rule: host_call.induct) (auto simp: ops_locked closed_locked split: if_splits sum.splits)

lemma closed_door: "door_call L A db db' \<Longrightarrow> db_closed db \<Longrightarrow> db' = db"
  by (induction rule: door_call.induct) (auto simp: doors_closed closed_locks Let_def split: if_splits sum.splits)

lemma closed_session: "agents_session L distil A db S db' \<Longrightarrow> db_closed db \<Longrightarrow> S = {} \<and> db' = db"
  by (induction rule: agents_session.induct)
    (auto dest: closed_call closed_door simp: cleared_slots_def DeleteL3_def closed_locked)

text \<open>
  C38. Closing is final: after \<open>Close\<close>, whatever it reported, every call of the published surface is refused, the two
  getters \<open>IsClosed\<close> and \<open>AgentID\<close> apart, and nothing a host does changes the handle again. Every call answers
  \<open>ErrClosed\<close>, a second \<open>Close\<close> included, but for five that
  check an argument before they look at the handle and answer for that argument first: \<open>RenameTopic\<close> on an empty name,
  \<open>QueryL3Subgraph\<close> on an unknown edge kind, \<open>Dream\<close> on a scene id that does not parse, and the doors \<open>SubAgent\<close> and
  \<open>Agent\<close> on a bad endpoint, name or id.
\<close>

theorem closed_handle_answers_ErrClosed:
  assumes "Close_DB db = (r, db')"
  shows "IsClosed db'
    \<and> Close_DB db' = (Inl errDBClosed, db') \<and> Checkpoint_DB db' = (Inl errDBClosed, db') \<and> Stats_DB db' = Inl errDBClosed
    \<and> CompactTo newPath same at fresh db' = (Inl errDBClosed, fresh) \<and> Primary db' = Inl errDBClosed
    \<and> Agents dec blank H now db' = (Inl errDBClosed, db')
    \<and> Agent now llm hex db' = (Inl (case llm of Inl err \<Rightarrow> err | Inr _ \<Rightarrow> (case parseID hex of Inl err \<Rightarrow> err | Inr _ \<Rightarrow> errDBClosed)), db')
    \<and> SubAgent tojson dec H now draws llm profile db' = Some (Inl (case llm of Inl err \<Rightarrow> err | Inr _ \<Rightarrow>
        if TrimSpace (pr_Name profile) = [] \<or> length (TrimSpace (pr_Name profile)) > MaxSubAgentNameBytes
        then NewError ErrInvalidQuery else errDBClosed), db')
    \<and> Search dec blank H now sdraws a q db' = Some (Inl errDBClosed, db') \<and> Update H distil now a te db' = Some (Inl errDBClosed, db')
    \<and> GetL0 dec blank H now a db' = (Inl errDBClosed, db') \<and> UpdateL0 tojson dec H now a profile db' = (Inl errDBClosed, db')
    \<and> ListL1 getnode now a db' = (Inl errDBClosed, db')
    \<and> ListScenes now a l3 db' = (Inl errDBClosed, db') \<and> UpdateScene now a i patch db' = (Inl errDBClosed, db')
    \<and> RenameTopic now a i name db' = (Inl (if name = [] then NewError ErrInvalidQuery else errDBClosed), db')
    \<and> Scene_Context now a i db' = Some (Inl errDBClosed, db') \<and> MergeScenes H now a p ss db' = Some (Inl errDBClosed, db')
    \<and> DeleteScene H now a i db' = (Inl errDBClosed, db') \<and> DeleteTopic H now a i db' = Some (Inl errDBClosed, db')
    \<and> GetL3 now a i db' = (Inl errDBClosed, db') \<and> ListL3 now a db' = (Inl errDBClosed, db')
    \<and> ImportL3 H now a items mode db' = (Inl errDBClosed, db') \<and> UpdateL3 now a i name db' = (Inl errDBClosed, db')
    \<and> DeleteL3 now a i db' = (Inl errDBClosed, db') \<and> QueryL3Nodes lower now a nq db' = (Inl errDBClosed, db')
    \<and> QueryL3Subgraph now a i j depth kinds db'
        = (Inl (if list_ex (\<lambda>k. \<not> GraphEdgeKind_Valid k) kinds then NewError ErrInvalidQuery else errDBClosed), db')
    \<and> SearchL4 lower now a lq db' = Some (Inl errDBClosed, db') \<and> AppendArchive H now a slot db' = (Inl errDBClosed, db')
    \<and> PlanNodeAdd H now a parent title db' = (Inl errDBClosed, db') \<and> PlanNodeUpdate H clocks now a step db' = Some (Inl errDBClosed, db')
    \<and> PlanState now a db' = Some (Inl errDBClosed, db') \<and> PlanActive now a db' = Some (Inl errDBClosed, db')
    \<and> Session_Dream L w defaults now a i db' = Some (Inl (if i = [] then errDBClosed
        else case ParseID i of Inl err \<Rightarrow> Error ErrInvalidQuery (Some err) | Inr _ \<Rightarrow> errDBClosed), db')
    \<and> {(S, db''). agents_session L distil A db' S db''} = {({}, db')}"
proof -
  have c: "db_closed db'" using assms by (auto simp: Close_DB_def split: if_splits prod.splits)
  have "{(S, db''). agents_session L distil A db' S db''} = {({}, db')}" by (auto dest: closed_session [OF _ c] intro: agents_session.start)
  moreover have "Agent now llm hex db' = (Inl (case llm of Inl err \<Rightarrow> err | Inr _ \<Rightarrow> (case parseID hex of Inl err \<Rightarrow> err | Inr _ \<Rightarrow> errDBClosed)), db')"
    by (simp add: Agent_def closed_locks [OF c] split: sum.splits)
  moreover have "Session_Dream L w defaults now a i db' = Some (Inl (if i = [] then errDBClosed
        else case ParseID i of Inl err \<Rightarrow> Error ErrInvalidQuery (Some err) | Inr _ \<Rightarrow> errDBClosed), db')"
    by (simp add: Session_Dream_def RunDream_def closed_locked [OF c] split: sum.splits)
  moreover have "SubAgent tojson dec H now draws llm profile db' = Some (Inl (case llm of Inl err \<Rightarrow> err | Inr _ \<Rightarrow>
        if TrimSpace (pr_Name profile) = [] \<or> length (TrimSpace (pr_Name profile)) > MaxSubAgentNameBytes
        then NewError ErrInvalidQuery else errDBClosed), db')"
    using c by (simp add: SubAgent_def Let_def ensureRegistered_def split: sum.splits)
  ultimately show ?thesis using c by (simp add: closed_locked closed_locks ops_locked doors_closed)
qed

theorem closed_handle_answers_ErrClosed_witness:
  "\<exists>db r db'. \<not> IsClosed db \<and> Close_DB db = (r, db') \<and> Stats_DB db \<noteq> Inl errDBClosed \<and> Stats_DB db' = Inl errDBClosed"
proof -
  obtain e where e: "engine_rep e sample_store" using sample_domain by blast
  obtain r db' where close: "Close_DB (handle e) = (r, db')" by fastforce
  have "Stats_DB db' = Inl errDBClosed" by (rule closed_handle_answers_ErrClosed [OF close, THEN conjunct2, THEN conjunct2, THEN conjunct2, THEN conjunct1])
  moreover have "\<not> IsClosed (handle e)" "Stats_DB (handle e) \<noteq> Inl errDBClosed" by (simp_all add: handle_def Stats_DB_def IsClosed_def)
  ultimately show ?thesis using close by blast
qed

end
