(* ===== verification/Cache_Rebuild.thy ===== *)
theory Cache_Rebuild
  imports Scene_Properties
begin

text \<open>
  The caches of a domain are determined by its records: two contexts that mirror the same records answer
  alike whatever the caches answer, whatever history built them. So a context may be dropped and built again
  from the file, which is what the sweep of idle domains does (\<^verbatim>\<open>internal/db.go\<close>, \<open>sweepIdleLocked\<close> and
  \<open>contextFor\<close>). Three fields of a context have no record behind them and do not survive: the open turn, the
  current scene and the highest last-used stamp.
\<close>

section \<open>Lists determined by what they hold\<close>

lemma strict_sorted_unique:
  fixes f :: "'a \<Rightarrow> 'k::linorder"
  assumes "sorted_wrt (\<lambda>x y. f x < f y) xs" "sorted_wrt (\<lambda>x y. f x < f y) ys" "set xs = set ys"
  shows "xs = ys"
proof -
  have strict: "sorted (map f zs) \<and> distinct (map f zs)" if "sorted_wrt (\<lambda>x y. f x < f y) zs" for zs
    using that by (induction zs) (auto simp: less_imp_le)
  have "map f xs = map f ys"
    using strict [OF assms(1)] strict [OF assms(2)] assms(3) by (intro sorted_distinct_set_unique) simp_all
  moreover have "inj_on f (set xs \<union> set ys)" using strict [OF assms(1)] assms(3) by (simp add: distinct_map)
  ultimately show ?thesis by (rule map_inj_on)
qed

lemma l2_unique:
  assumes "l2_mirrors e a idx" "l2_mirrors e a idx'"
  shows "L2_Get idx' i = L2_Get idx i"
proof -
  have "L2_Get idx i = Some m \<longleftrightarrow> L2_Get idx' i = Some m" for m
    using l2_mirrorsD(2) [OF assms(1), of i "ToTopicSlot m"] l2_mirrorsD(2) [OF assms(2), of i "ToTopicSlot m"] by simp
  then show ?thesis by (cases "L2_Get idx' i"; cases "L2_Get idx i") auto
qed

lemma l4_unique:
  assumes "l4_mirrors H e a idx" "l4_mirrors H e a idx'"
  shows "entries_of idx' t = entries_of idx t"
proof -
  have half: "set (entries_of x t) \<subseteq> set (entries_of y t)" if mx: "l4_mirrors H e a x" and my: "l4_mirrors H e a y" for x y
  proof
    fix en
    assume en: "en \<in> set (entries_of x t)"
    note wf = by_seq_entries [OF l4_mirrorsD(1) [OF mx]] by_seq_entries [OF l4_mirrorsD(1) [OF my]]
    have "l4_view x t (le_Seq en) = Some en" using en find_by_seq [OF wf(1)] by (simp add: l4_view_def)
    then obtain r where r: "ReadArchiveSlot e a (le_IDHash en) = Inr r" "l4_entry r = en" "as_TopicID r = t"
      using l4_mirrorsD(2) [OF mx] by blast
    then have "l4_view y t (as_Seq r) = Some en" using l4_mirrorsD(5) [OF my r(1)] by simp
    then show "en \<in> set (entries_of y t)" using find_by_seq [OF wf(2)] by (simp add: l4_view_def)
  qed
  have "by_seq (entries_of idx t)" "by_seq (entries_of idx' t)"
    using l4_mirrorsD(1) [OF assms(1)] l4_mirrorsD(1) [OF assms(2)] by (simp_all add: by_seq_entries)
  then show ?thesis unfolding by_seq_def using half assms by (intro strict_sorted_unique [of le_Seq]) blast+
qed

lemma pc_unique:
  assumes "pc_mirrors H e a pc" "pc_mirrors H e a pc'"
  shows "map_of (pc_plans pc') t = map_of (pc_plans pc) t"
proof -
  have half: "set (nodes_of x t) \<subseteq> set (nodes_of y t)" if mx: "pc_mirrors H e a x" and my: "pc_mirrors H e a y" for x y
  proof
    fix n
    assume n: "n \<in> set (nodes_of x t)"
    then have "ReadPlanNode e a (pn_IDHash n) = Inr n" using pc_mirrorsD(2) [OF mx] by blast
    moreover have "pn_TopicID n = t"
      using n pc_wfD(5) [OF pc_mirrorsD(1) [OF mx], of t] by (cases "map_of (pc_plans x) t") (auto simp: nodes_of_def)
    ultimately show "n \<in> set (nodes_of y t)" using pc_mirrorsD(5) [OF my] by blast
  qed
  have sorted: "seq_sorted (nodes_of x t)" if "pc_mirrors H e a x" for x
    using pc_wfD(3) [OF pc_mirrorsD(1) [OF that]] by (auto simp: nodes_of_def seq_sorted_def split: option.splits)
  have same: "nodes_of pc t = nodes_of pc' t"
    using sorted [OF assms(1)] sorted [OF assms(2)] half assms unfolding seq_sorted_def by (intro strict_sorted_unique [of pn_Seq]) blast+
  have agg: "map_of (pc_plans x) t = (if nodes_of x t = [] then None else Some (agg_of t (nodes_of x t)))" if "pc_mirrors H e a x" for x
    using pc_wfD(1,2) [OF pc_mirrorsD(1) [OF that], of t] by (auto simp: nodes_of_def split: option.splits)
  show ?thesis using agg [OF assms(1)] agg [OF assms(2)] same by simp
qed

lemma SurfaceTopics_unique:
  assumes "l2_mirrors e a (ctx_L2Meta c)" "l2_mirrors e a (ctx_L2Meta c')"
  shows "SurfaceTopics c' sid = SurfaceTopics c sid"
proof -
  let ?surface = "\<lambda>rows. map ToTopicSlot (filter (\<lambda>m. \<not> lm_Depth m \<noteq> 1) rows)"
  obtain r where r: "TopicsByScene (ctx_L2Meta c) sid = map Some r" "distinct (map lm_IDHash r)"
    "set r = {m. lm_SceneID m = sid \<and> L2_Get (ctx_L2Meta c) (lm_IDHash m) = Some m}"
    using TopicsByScene_rows [OF l2_mirrorsD(1) [OF assms(1)]] by blast
  obtain r' where r': "TopicsByScene (ctx_L2Meta c') sid = map Some r'" "distinct (map lm_IDHash r')"
    "set r' = {m. lm_SceneID m = sid \<and> L2_Get (ctx_L2Meta c') (lm_IDHash m) = Some m}"
    using TopicsByScene_rows [OF l2_mirrorsD(1) [OF assms(2)]] by blast
  have "set r' = set r" unfolding r(3) r'(3) l2_unique [OF assms] ..
  moreover have "distinct r" "distinct r'" using r(2) r'(2) by (simp_all add: distinct_map)
  ultimately have "mset r' = mset r" using set_eq_iff_mset_eq_distinct by blast
  then have "mset (?surface r') = mset (?surface r)" by (simp add: mset_map mset_filter)
  moreover have "x = y" if in_r: "x \<in> set (?surface r')" "y \<in> set (?surface r')" and le: "CompareTopicOrder x y \<le> 0" "CompareTopicOrder y x \<le> 0" for x y
  proof -
    have "ts_ID x = ts_ID y" using le by (auto simp: CompareTopicOrder_def cmp_def split: if_splits)
    moreover obtain m n where mn: "m \<in> set r'" "n \<in> set r'" "x = ToTopicSlot m" "y = ToTopicSlot n" using in_r by auto
    moreover have "ts_ID (ToTopicSlot k) = lm_IDHash k" for k by (simp add: ToTopicSlot_def)
    ultimately have "lm_IDHash m = lm_IDHash n" by simp
    then have "m = n" using mn(1,2) r'(2) by (auto simp: distinct_map dest: inj_onD)
    then show ?thesis using mn by simp
  qed
  ultimately have "SortFunc CompareTopicOrder (?surface r') = SortFunc CompareTopicOrder (?surface r)"
    by (rule topic_order.SortFunc_mset)
  then show ?thesis unfolding SurfaceTopics_def r(1) r'(1) all_rows_Some by simp
qed


section \<open>A rebuilt context\<close>

text \<open>
  What two contexts answer out of their caches and records: topics by id and by scene, transcripts, slot
  numbers, plans. The current scene, the open turn and the stamp floor of a context are memory of the process
  and no part of it.
\<close>

definition same_stored_answers :: "Context \<Rightarrow> Context \<Rightarrow> bool" where
  "same_stored_answers c c' \<longleftrightarrow> (\<forall>i. L2_Get (ctx_L2Meta c') i = L2_Get (ctx_L2Meta c) i) \<and> (\<forall>s. SurfaceTopics c' s = SurfaceTopics c s)
     \<and> (\<forall>a t k. Read a c' t k = Read a c t k) \<and> (\<forall>t. AllIDs (ctx_L4 c') t = AllIDs (ctx_L4 c) t) \<and> (\<forall>t. MaxSeq (ctx_L4 c') t = MaxSeq (ctx_L4 c) t)
     \<and> (\<forall>t. BuildTree c' t = BuildTree c t) \<and> (\<forall>t s. HasSeq (ctx_Plans c') t s = HasSeq (ctx_Plans c) t s)
     \<and> (\<forall>t r. NextSeq (ctx_Plans c') t r = NextSeq (ctx_Plans c) t r)"

lemma mirrors_same_stored:
  assumes "domain_inv H a c" "domain_inv H a c'" "ctx_Engine c' = ctx_Engine c"
  shows "same_stored_answers c c'"
proof -
  note i = domain_invD [OF assms(1)] and i' = domain_invD [OF assms(2), unfolded assms(3)]
  note l4 = l4_unique [OF i(3) i'(3)] and pc = pc_unique [OF i(4) i'(4)]
  show ?thesis
    unfolding same_stored_answers_def Read_def IDs_def AllIDs_def l4_ids_def MaxSeq_def BuildTree_def aggregate_def Aggregate_def HasSeq_def NextSeq_def
      l4 pc assms(3) l2_unique [OF i(2) i'(2)] SurfaceTopics_unique [OF i(2) i'(2)] by simp
qed

lemma rebuilt_context:
  assumes "domain_inv H a c"
  shows "domain_inv H a (NewContext a (ctx_Engine c)) \<and> same_stored_answers c (NewContext a (ctx_Engine c))"
proof -
  note i = domain_invD [OF assms]
  have "l2_addressed (ctx_Engine c) a"
    unfolding l2_addressed_def l2_mirrorsD(2) [OF i(2)] using l2_wfD(1) [OF l2_mirrorsD(1) [OF i(2)]] by fastforce
  moreover have "l4_addressed H (ctx_Engine c) a" unfolding l4_addressed_def using l4_mirrorsD(3,4) [OF i(3)] by blast
  moreover have "plan_addressed H (ctx_Engine c) a" unfolding plan_addressed_def using pc_mirrorsD(3,4) [OF i(4)] by blast
  ultimately have inv: "domain_inv H a (NewContext a (ctx_Engine c))" using i(1) NewContext_inv by blast
  then show ?thesis using mirrors_same_stored [OF assms inv] by (simp add: NewContext_def)
qed

lemma map_of_filter_None: "\<not> P k \<Longrightarrow> map_of (filter (\<lambda>(i, v). P i) m) k = None"
  by (induction m) auto

text \<open>
  C39. The sweep of idle domains loses nothing that is stored: when the context of an idle domain is
  dropped, the next call builds one from the records that again mirrors them and gives the same topics,
  transcripts, slot numbers and plans. The three fields no record stands behind are lost. The open turn is
  forgotten, so the calls that need one are refused until a search opens the next. The current scene is
  forgotten and taken from the records again by the next read, which resumes the scene used last; after a merge
  that need not be the scene the domain had moved to. And the floor of the last-used stamps falls back to 0,
  so the next stamp is the clock's whatever was issued before, although the comment on the field
  (\<^verbatim>\<open>internal/domain/context.go\<close>) calls it the highest stamp issued since the process started.
\<close>

theorem swept_domain_is_rebuilt:
  assumes "map_of (db_agents db) a = Some c" "domain_inv H a (c\<lparr>ctx_Engine := db_engine db\<rparr>)"
    and "\<not> db_closed db" "map_of (db_idToName db) a \<noteq> None" "0 < db_AgentIdleTTLMs db" "reclaimable now db a"
  shows "\<exists>c' db'. lockAgent now a db = (Inr c', db') \<and> domain_inv H a c' \<and> ctx_Engine c' = db_engine db
    \<and> same_stored_answers (c\<lparr>ctx_Engine := db_engine db\<rparr>) c' \<and> ctx_Scene c' = 0 \<and> ctx_Turn c' = 0 \<and> ctx_lastUsedStamp c' = 0
    \<and> lockTurn now a db = (Inl (NewError ErrInvalidQuery), db')
    \<and> (\<forall>i. CurrentScene (db_engine db) a = Inr i \<longrightarrow> ensureScene a c' = (Inr (), c'\<lparr>ctx_Scene := i\<rparr>))
    \<and> (\<forall>clock > 0. NextUsedStamp clock c' = (clock, c'\<lparr>ctx_lastUsedStamp := clock\<rparr>))"
proof -
  let ?c = "c\<lparr>ctx_Engine := db_engine db\<rparr>" and ?c' = "NewContext a (db_engine db)"
  have eng: "ctx_Engine ?c = db_engine db" by simp
  have gone: "map_of (db_agents (sweepIdleLocked now db)) a = None"
    using assms(5,6) map_of_filter_None [of "\<lambda>i. \<not> reclaimable now db i" a "db_agents db"] by (simp add: sweepIdleLocked_def)
  have swept: "db_engine (sweepIdleLocked now db) = db_engine db" "db_closed (sweepIdleLocked now db) = db_closed db"
    by (simp_all add: sweepIdleLocked_def)
  obtain db' where lock: "lockAgent now a db = (Inr ?c', db')"
    using assms(3,4) gone swept by (simp add: lockAgent_def contextFor_def Let_def) (simp add: NewContext_def)
  have "lockTurn now a db = (Inl (NewError ErrInvalidQuery), db')" by (simp add: lockTurn_def lock) (simp add: NewContext_def)
  moreover have "domain_inv H a ?c' \<and> same_stored_answers ?c ?c'" using rebuilt_context [OF assms(2)] unfolding eng .
  moreover have lost: "ctx_Engine ?c' = db_engine db" "ctx_Scene ?c' = 0" "ctx_Turn ?c' = 0" "ctx_lastUsedStamp ?c' = 0"
    by (simp_all add: NewContext_def)
  moreover have "\<forall>i. CurrentScene (db_engine db) a = Inr i \<longrightarrow> ensureScene a ?c' = (Inr (), ?c'\<lparr>ctx_Scene := i\<rparr>)"
    by (simp add: ensureScene_def lost)
  moreover have "\<forall>clock > 0. NextUsedStamp clock ?c' = (clock, ?c'\<lparr>ctx_lastUsedStamp := clock\<rparr>)"
    by (simp add: NextUsedStamp_def lost Let_def)
  ultimately show ?thesis using lock by blast
qed

theorem swept_domain_is_rebuilt_witness:
  "\<exists>db c c' db'. map_of (db_agents db) 1 = Some c \<and> ctx_Turn c = 9 \<and> ctx_Scene c = 7 \<and> ctx_lastUsedStamp c = 5000 \<and> lockAgent 1000 1 db = (Inr c', db') \<and> same_stored_answers (c\<lparr>ctx_Engine := db_engine db\<rparr>) c'
    \<and> lockTurn 1000 1 db = (Inl (NewError ErrInvalidQuery), db')
    \<and> ctx_Scene c' = 0 \<and> fst (NextUsedStamp 1000 c') = 1000"
proof -
  obtain e where e: "engine_rep e sample_store" "sample_read e" "domain_inv sample_hash 1 (NewContext 1 e)" "engine_room e (2 ^ 60)"
    using sample_domain by blast
  let ?c = "NewContext 1 e\<lparr>ctx_Scene := 7, ctx_Turn := 9, ctx_lastUsedStamp := 5000\<rparr>"
  let ?db = "\<lparr>db_engine = e, db_closed = False, db_agents = [(1, ?c)], db_nameToID = [(''a'', 1)], db_idToName = [(1, ''a'')],
     db_LastActiveAt = [(1, 10)], db_DreamInFlight = (\<lambda>_. {}), db_AgentIdleTTLMs = 100, db_SceneDreamTopicThreshold = 5\<rparr>"
  have "domain_inv sample_hash 1 (?c\<lparr>ctx_Engine := db_engine ?db\<rparr>)" using e(3) by (simp add: domain_inv_def NewContext_def)
  moreover have "reclaimable 1000 ?db 1" by (simp add: reclaimable_def i64_wrap_def DefaultAgentID_def SharedPoolAgentID_def)
  ultimately obtain c' db' where r: "lockAgent 1000 1 ?db = (Inr c', db')" "same_stored_answers (?c\<lparr>ctx_Engine := db_engine ?db\<rparr>) c'"
    "lockTurn 1000 1 ?db = (Inl (NewError ErrInvalidQuery), db')" "ctx_Scene c' = 0"
    "\<forall>clock > 0. NextUsedStamp clock c' = (clock, c'\<lparr>ctx_lastUsedStamp := clock\<rparr>)"
    using swept_domain_is_rebuilt [of ?db 1 ?c sample_hash 1000] by auto
  have "fst (NextUsedStamp 1000 c') = 1000" using r(5) by simp
  moreover have "map_of (db_agents ?db) 1 = Some ?c" "ctx_Turn ?c = 9" "ctx_Scene ?c = 7" "ctx_lastUsedStamp ?c = 5000" by simp_all
  ultimately show ?thesis using r(1-4) by blast
qed

end
