(* ===== verification/Graph_Properties.thy ===== *)
theory Graph_Properties
  imports Graph_Ops Sample_Store
begin

text \<open>
  What a subgraph query answers (\<^verbatim>\<open>internal/l3query.go\<close>, \<^verbatim>\<open>internal/graph/query.go\<close>): the adjacency the source
  builds is exactly co-membership in an edge, so the walk reaches what chains of shared edges reach.
\<close>

section \<open>The adjacency is co-membership\<close>

lemma nbs_add_nb: "set (nbs (add_nb i j adj) k) = set (nbs adj k) \<union> (if k = i then {j} else {})"
  by (auto simp: nbs_def add_nb_def)

lemma adj_rel_pair: "adj_rel (connect_pair i j adj) = adj_rel adj \<union> {(x, y). x \<noteq> y \<and> {x, y} = {i, j}}"
  by (auto simp: adj_rel_def connect_pair_def nbs_add_nb doubleton_eq_iff split: if_splits)

lemma adj_rel_fold: "adj_rel (fold (connect_pair i) js adj) = adj_rel adj \<union> {(x, y). x \<noteq> y \<and> (\<exists>j \<in> set js. {x, y} = {i, j})}"
  by (induction js arbitrary: adj) (auto simp: adj_rel_pair)

lemma adj_rel_connectNodes: "adj_rel (connectNodes ids adj) = adj_rel adj \<union> {(x, y). x \<noteq> y \<and> x \<in> set ids \<and> y \<in> set ids}"
proof (induction ids arbitrary: adj)
  case (Cons i ids)
  have "{(x, y). x \<noteq> y \<and> (\<exists>j \<in> set ids. {x, y} = {i, j})} \<union> {(x, y). x \<noteq> y \<and> x \<in> set ids \<and> y \<in> set ids}
    = {(x, y). x \<noteq> y \<and> x \<in> set (i # ids) \<and> y \<in> set (i # ids)}"
    by (auto simp: doubleton_eq_iff)
  then show ?case by (simp add: Cons.IH adj_rel_fold Un_assoc)
qed simp

lemma adj_rel_edges:
  "adj_rel (fold (\<lambda>e. connectNodes (he_NodeIDs e)) es adj) = adj_rel adj \<union> {(x, y). x \<noteq> y \<and> (\<exists>e \<in> set es. x \<in> set (he_NodeIDs e) \<and> y \<in> set (he_NodeIDs e))}"
  by (induction es arbitrary: adj) (auto simp: adj_rel_connectNodes)

lemma within_relpow: "within adj start n = {j. \<exists>k \<le> n. (start, j) \<in> adj_rel adj ^^ k}"
  by (rule within_def)

text \<open>The edges of a graph a query may walk over, and the nodes they join.\<close>

definition walkable :: "StorageEngine \<Rightarrow> u64 \<Rightarrow> byte list \<Rightarrow> HypergraphEdge set" where
  "walkable e g kinds = {w. (\<exists>i. readJSON unmarshal_graph_edge e SharedPoolAgentID i RecL3GraphEdge = Inr w)
     \<and> he_GraphID w = g \<and> (kinds = [] \<or> he_Kind w \<in> set kinds)}"

definition joined :: "HypergraphEdge set \<Rightarrow> (u64 \<times> u64) set" where
  "joined W = {(i, j). i \<noteq> j \<and> (\<exists>w \<in> W. i \<in> set (he_NodeIDs w) \<and> j \<in> set (he_NodeIDs w))}"

text \<open>What lies within the depth bound of a query; a bound of zero or less is none.\<close>

definition in_reach :: "HypergraphEdge set \<Rightarrow> u64 \<Rightarrow> int \<Rightarrow> u64 set" where
  "in_reach W start d = (if d \<le> 0 then (joined W)\<^sup>* `` {start} else {j. \<exists>k \<le> nat d. (start, j) \<in> joined W ^^ k})"

interpretation edge_order: comparison "\<lambda>a b. cmp (he_IDHash a) (he_IDHash b)"
  by unfold_locales auto

lemma SubgraphAdjacency_law:
  assumes "engine_rep e m" "SubgraphAdjacency e SharedPoolAgentID g kinds = Inr (adj, edges)"
  shows "set edges = walkable e g kinds" "adj_rel adj = joined (walkable e g kinds)"
proof -
  obtain all where scan: "CollectAllStrict unmarshal_graph_edge e SharedPoolAgentID RecL3GraphEdge = Inr all"
    using assms(2) by (auto simp: SubgraphAdjacency_def ListEdgeL3_def split: sum.splits)
  have edges: "edges = filter (\<lambda>w. \<not> (length kinds > 0 \<and> he_Kind w \<notin> set kinds))
      (SortFunc (\<lambda>a b. cmp (he_IDHash a) (he_IDHash b)) (filter (\<lambda>w. he_GraphID w = g) all))"
    and adj: "adj = fold (\<lambda>w. connectNodes (he_NodeIDs w)) edges []"
    using assms(2) by (auto simp: SubgraphAdjacency_def ListEdgeL3_def scan Let_def)
  have "set all = {w. \<exists>i. readJSON unmarshal_graph_edge e SharedPoolAgentID i RecL3GraphEdge = Inr w}"
    using graph_edge.CollectAllStrict_ok(3) [OF assms(1) scan] unfolding graph_edge.readJSON_typed [OF assms(1)] .
  then show set: "set edges = walkable e g kinds"
    unfolding edges by (auto simp: walkable_def edge_order.set_SortFunc)
  show "adj_rel adj = joined (walkable e g kinds)"
    unfolding adj adj_rel_edges set [symmetric] joined_def by (auto simp: adj_rel_def nbs_def)
qed

lemma set_Bfs:
  assumes "adj_rel adj = joined W"
  shows "set (BfsWithinDepth start adj d) = in_reach W start d"
  using BfsWithinDepth_law [of start adj d] assms by (simp add: in_reach_def within_relpow)

lemma read_nodes_law: "read_nodes e ids = Inr ns \<Longrightarrow> list_all2 (\<lambda>i n. ReadHypergraphNode e SharedPoolAgentID i = Inr n) ids ns"
  by (induction ids arbitrary: ns) (auto split: sum.splits)

lemma distinct_bfs: "distinct (BfsWithinDepth start adj d)"
proof -
  have nb: "visit_nbs ns (v, n) = (v', n') \<Longrightarrow> distinct v \<Longrightarrow> distinct v'" for ns v n v' n'
    by (induction ns arbitrary: v n) (auto split: if_splits)
  have level: "visit_level adj q (v, n) = (v', n') \<Longrightarrow> distinct v \<Longrightarrow> distinct v'" for adj q v n v' n'
  proof (induction q arbitrary: v n)
    case (Cons c q)
    obtain v1 n1 where "visit_nbs (nbs adj c) (v, n) = (v1, n1)" by (cases "visit_nbs (nbs adj c) (v, n)")
    then show ?case using Cons nb by simp
  qed simp
  have "distinct v \<Longrightarrow> distinct (bfs adj d k v q)" for k v q
  proof (induction adj d k v q rule: bfs.induct)
    case (1 adj d k v q)
    show ?case
    proof (cases "(d \<le> 0 \<or> k < d) \<and> length q > 0")
      case True
      obtain v1 n1 where v1: "visit_level adj q (v, []) = (v1, n1)" by (cases "visit_level adj q (v, [])")
      then show ?thesis using 1(1) [OF True v1 [symmetric]] level [OF v1 1(2)] 1(2) by (subst bfs.simps) (simp add: True)
    qed (use 1(2) in \<open>subst bfs.simps, auto\<close>)
  qed
  then show ?thesis by (simp add: BfsWithinDepth_def)
qed

text \<open>
  C40. A subgraph query answers exactly the part of the graph within reach: the nodes that chains of at
  most \<open>maxDepth\<close> edges of the asked kinds lead to from the start node, each once and in id order, and the
  edges of those kinds whose members all lie among them. Without a bound it is the whole component.
\<close>

theorem QueryL3Subgraph_is_reach:
  assumes "engine_rep e m" "parseID graphID = Inr g" "parseID startID = Inr start"
    and "query_subgraph graphID startID maxDepth kinds e = Inr sub"
  shows "\<exists>ids. sorted ids \<and> distinct ids \<and> set ids = in_reach (walkable e g kinds) start maxDepth
    \<and> list_all2 (\<lambda>i n. ReadHypergraphNode e SharedPoolAgentID i = Inr n) ids (sg_Nodes sub)
    \<and> set (sg_Edges sub) = {w \<in> walkable e g kinds. set (he_NodeIDs w) \<subseteq> set ids}"
proof -
  obtain adj edges where adj: "SubgraphAdjacency e SharedPoolAgentID g kinds = Inr (adj, edges)"
    using assms(2-4) by (auto simp: query_subgraph_def split: sum.splits)
  let ?v = "BfsWithinDepth start adj maxDepth"
  obtain ns where ns: "read_nodes e (sort ?v) = Inr ns"
    "sub = \<lparr>sg_Nodes = ns, sg_Edges = filter (\<lambda>w. AllNodesVisited (he_NodeIDs w) ?v) edges\<rparr>"
    using assms(2-4) by (auto simp: query_subgraph_def adj Let_def split: sum.splits)
  note law = SubgraphAdjacency_law [OF assms(1) adj]
  have "set (sort ?v) = in_reach (walkable e g kinds) start maxDepth" using set_Bfs [OF law(2)] by simp
  moreover have "set (sg_Edges sub) = {w \<in> walkable e g kinds. set (he_NodeIDs w) \<subseteq> set (sort ?v)}"
    using law(1) by (auto simp: ns(2) AllNodesVisited_def list_all_iff)
  moreover have "list_all2 (\<lambda>i n. ReadHypergraphNode e SharedPoolAgentID i = Inr n) (sort ?v) (sg_Nodes sub)"
    using read_nodes_law [OF ns(1)] by (simp add: ns(2))
  moreover have "sorted (sort ?v)" "distinct (sort ?v)" using distinct_bfs by simp_all
  ultimately show ?thesis by (intro exI [of _ "sort ?v"] conjI)
qed

text \<open>Two nodes and an edge between them, in the shared domain.\<close>

definition pair_node :: "u64 \<Rightarrow> HypergraphNode" where
  "pair_node i = \<lparr>hn_IDHash = i, hn_GraphID = 10, hn_Title = ''tea'', hn_NodeType = ''fact'', hn_Content = ''green'', hn_Keywords = [],
     hn_SourceRef = None, hn_CreatedAt = 1000, hn_UpdatedAt = 1000\<rparr>"

definition pair_edge :: HypergraphEdge where
  "pair_edge = \<lparr>he_IDHash = 3, he_GraphID = 10, he_Kind = 1, he_NodeIDs = [1, 2], he_CreatedAt = 1000\<rparr>"

definition pair_store :: store where
  "pair_store = [(SharedPoolAgentID, 1) \<mapsto> record_of marshal_graph_node RecL3GraphNode (pair_node 1),
     (SharedPoolAgentID, 2) \<mapsto> record_of marshal_graph_node RecL3GraphNode (pair_node 2),
     (SharedPoolAgentID, 3) \<mapsto> record_of marshal_graph_edge RecL3GraphEdge pair_edge]"

lemma pair_ok: "graph_node_ok (pair_node i)" "graph_edge_ok pair_edge"
  unfolding graph_node_ok_def graph_edge_ok_def pair_node_def pair_edge_def by (simp_all add: i64_ok_def) (code_simp+)

lemma graph_kinds: "RecL3GraphNode \<noteq> RecL3GraphEdge" "RecL3GraphNode \<noteq> 0" "RecL3GraphEdge \<noteq> 0"
  by (simp_all add: RecL3GraphNode_def RecL3GraphEdge_def)

lemma pair_engine: "\<exists>e. engine_rep e pair_store"
proof -
  let ?rs = "[entry_for marshal_graph_node SharedPoolAgentID RecL3GraphNode hn_IDHash (pair_node 1),
    entry_for marshal_graph_node SharedPoolAgentID RecL3GraphNode hn_IDHash (pair_node 2),
    entry_for marshal_graph_edge SharedPoolAgentID RecL3GraphEdge he_IDHash pair_edge]"
  have size: "size_of marshal_graph_node (pair_node i) < 2000" "size_of marshal_graph_edge pair_edge < 2000" for i
    using graph_node_size [OF pair_ok(1) [of i]] graph_edge_size [OF pair_ok(2)] by (simp_all add: pair_node_def pair_edge_def)
  note s = less_trans [OF size(1), of "2 ^ 32", simplified] less_trans [OF size(2), of "2 ^ 32", simplified]
  note e = entry_for_ok [OF graph_node.entry_of [OF pair_ok(1) _ graph_kinds(2)]] entry_for_ok [OF graph_edge.entry_of [OF pair_ok(2) _ graph_kinds(3)]]
  have "\<forall>r \<in> set ?rs. entry_ok r" using s by (simp add: e)
  moreover have "batch_size ?rs < 2 ^ 60"
    using s size(1) [of 1] size(1) [of 2] size(2) by (simp add: e RecordHeaderSize_def)
  moreover have "put_all ?rs Map.empty = pair_store"
    by (rule ext) (simp add: pair_store_def put_entry_def entry_for_def record_of_def pair_node_def pair_edge_def)
  ultimately show ?thesis using stored_rep [of ?rs] by auto
qed

lemma pair_at:
  "i \<in> {1, 2} \<Longrightarrow> typed_at unmarshal_graph_node pair_store SharedPoolAgentID RecL3GraphNode i = Some (pair_node i)"
  "typed_at unmarshal_graph_edge pair_store SharedPoolAgentID RecL3GraphEdge i = Some w \<longleftrightarrow> i = 3 \<and> w = pair_edge"
proof -
  show "i \<in> {1, 2} \<Longrightarrow> typed_at unmarshal_graph_node pair_store SharedPoolAgentID RecL3GraphNode i = Some (pair_node i)"
    by (rule graph_node.typed_record_of [OF pair_ok(1)]) (auto simp: pair_store_def)
  have "typed_at unmarshal_graph_edge pair_store SharedPoolAgentID RecL3GraphEdge 3 = Some pair_edge"
    by (rule graph_edge.typed_record_of [OF pair_ok(2)]) (simp add: pair_store_def)
  moreover have "i \<noteq> 3 \<Longrightarrow> typed_at unmarshal_graph_edge pair_store SharedPoolAgentID RecL3GraphEdge i = None"
    using graph_kinds by (auto simp: typed_at_def pair_store_def record_of_def split: option.splits)
  ultimately show "typed_at unmarshal_graph_edge pair_store SharedPoolAgentID RecL3GraphEdge i = Some w \<longleftrightarrow> i = 3 \<and> w = pair_edge"
    by (cases "i = 3") auto
qed

lemma read_nodes_all: "\<forall>i \<in> set ids. \<exists>n. ReadHypergraphNode e SharedPoolAgentID i = Inr n \<Longrightarrow> \<exists>ns. read_nodes e ids = Inr ns"
  by (induction ids) auto

lemma pair_query:
  assumes "engine_rep e pair_store"
  shows "\<exists>sub. query_subgraph (FormatHash 10) (FormatHash 1) 1 [] e = Inr sub" "walkable e 10 [] = {pair_edge}"
    "in_reach {pair_edge} 1 1 = {1, 2}"
proof -
  have edge: "readJSON unmarshal_graph_edge e SharedPoolAgentID i RecL3GraphEdge = Inr w \<longleftrightarrow> i = 3 \<and> w = pair_edge" for i w
    unfolding graph_edge.readJSON_typed [OF assms] by (rule pair_at(2))
  show walk: "walkable e 10 [] = {pair_edge}" unfolding walkable_def edge by (auto simp: pair_edge_def)
  have "joined {pair_edge} = {(1, 2), (2, 1)}" by (auto simp: joined_def pair_edge_def)
  moreover have "(\<exists>k \<le> nat 1. P k) \<longleftrightarrow> P 0 \<or> P (Suc 0)" for P by (auto simp: le_Suc_eq)
  ultimately show reach: "in_reach {pair_edge} 1 1 = {1, 2}" unfolding in_reach_def by simp blast
  have node: "ReadHypergraphNode e SharedPoolAgentID i = Inr (pair_node i)" if "i \<in> {1, 2}" for i
    unfolding ReadHypergraphNode_def graph_node.readJSON_typed [OF assms] using that by (rule pair_at(1))
  have "\<exists>adj edges. SubgraphAdjacency e SharedPoolAgentID 10 [] = Inr (adj, edges)"
  proof -
    have "typed_at unmarshal_graph_edge pair_store SharedPoolAgentID RecL3GraphEdge i \<noteq> None"
      if "pair_store (SharedPoolAgentID, i) = Some (RecL3GraphEdge, d)" for i d
      using that pair_at(2) graph_kinds(1) by (auto simp: pair_store_def record_of_def split: if_splits)
    then show ?thesis using graph_edge.CollectAllStrict_law(1) [OF assms, of SharedPoolAgentID RecL3GraphEdge]
      by (simp add: SubgraphAdjacency_def ListEdgeL3_def Let_def)
  qed
  then obtain adj edges where adj: "SubgraphAdjacency e SharedPoolAgentID 10 [] = Inr (adj, edges)" by blast
  have "set (sort (BfsWithinDepth 1 adj 1)) = {1, 2}"
    using set_Bfs [OF SubgraphAdjacency_law(2) [OF assms adj]] walk reach by simp
  then have "\<forall>i \<in> set (sort (BfsWithinDepth 1 adj 1)). \<exists>n. ReadHypergraphNode e SharedPoolAgentID i = Inr n" using node by blast
  then obtain ns where "read_nodes e (sort (BfsWithinDepth 1 adj 1)) = Inr ns" using read_nodes_all by blast
  moreover have "CheckSubgraphStart e SharedPoolAgentID 10 1 = Inr ()" by (simp add: CheckSubgraphStart_def node) (simp add: pair_node_def)
  ultimately show "\<exists>sub. query_subgraph (FormatHash 10) (FormatHash 1) 1 [] e = Inr sub"
    by (simp add: query_subgraph_def parseID_def adj Let_def)
qed

theorem QueryL3Subgraph_is_reach_witness:
  "\<exists>e sub. query_subgraph (FormatHash 10) (FormatHash 1) 1 [] e = Inr sub \<and> length (sg_Nodes sub) = 2 \<and> set (sg_Edges sub) = {pair_edge}"
proof -
  obtain e where e: "engine_rep e pair_store" using pair_engine by blast
  note q = pair_query [OF e]
  obtain sub where sub: "query_subgraph (FormatHash 10) (FormatHash 1) 1 [] e = Inr sub" using q(1) by blast
  have p: "parseID (FormatHash w) = Inr w" for w by (simp add: parseID_def)
  obtain ids where ids: "distinct ids" "set ids = {1, 2}" "list_all2 (\<lambda>i n. ReadHypergraphNode e SharedPoolAgentID i = Inr n) ids (sg_Nodes sub)"
    "set (sg_Edges sub) = {w \<in> {pair_edge}. set (he_NodeIDs w) \<subseteq> set ids}"
    using QueryL3Subgraph_is_reach [OF e p p sub] unfolding q(2,3) by blast
  have "card {1 :: u64, 2} = 2" by simp
  then have "length ids = 2" using ids(1,2) by (metis distinct_card)
  then have "length (sg_Nodes sub) = 2" using list_all2_lengthD [OF ids(3)] by simp
  moreover have "set (sg_Edges sub) = {pair_edge}" unfolding ids(2,4) by (auto simp: pair_edge_def)
  ultimately show ?thesis using sub by blast
qed

end
