(* ===== verification/Dream_Correct.thy ===== *)
theory Dream_Correct
  imports Dream L2_Correct
begin

text \<open>
  Fusing a group of topics (\<^verbatim>\<open>internal/dream/compress.go\<close>, \<open>applyOneGroup\<close>): on a healthy disk it either stores
  the summary and the parent and sinks every member, or leaves the store exactly as it was.
\<close>

text \<open>
  The retention sweep of the plans (\<^verbatim>\<open>internal/dream/prune.go\<close>, \<open>PrunePlanStage\<close>): which nodes go, what the records
  and the plan cache hold afterwards.
\<close>

section \<open>Which nodes a sweep names\<close>

lemma last_active_ge: "c \<le> last_active ns \<longleftrightarrow> c \<le> 0 \<or> (\<exists>n \<in> set ns. c \<le> pn_UpdatedAt n)"
proof -
  have "c \<le> fold (\<lambda>n m. max m (pn_UpdatedAt n)) ns m \<longleftrightarrow> c \<le> m \<or> (\<exists>n \<in> set ns. c \<le> pn_UpdatedAt n)" for m
    by (induction ns arbitrary: m) auto
  then show ?thesis by (simp add: last_active_def)
qed

text \<open>
  A step is stale when it was last committed before the cutoff, and its plan is not in flight: every step is
  done, or nothing of the plan was committed since.
\<close>

definition stale :: "i64 \<Rightarrow> PlanNode set \<Rightarrow> PlanNode \<Rightarrow> bool" where
  "stale cutoff ns n \<longleftrightarrow> pn_UpdatedAt n < cutoff \<and>
     ((\<forall>m \<in> ns. pn_TopicID m = pn_TopicID n \<longrightarrow> pn_Status m = StatusDone)
      \<or> 0 < cutoff \<and> (\<forall>m \<in> ns. pn_TopicID m = pn_TopicID n \<longrightarrow> pn_UpdatedAt m < cutoff))"

lemma swept_ids_tree:
  "set (swept_ids cutoff (agg_of t (sort_nodes (filter (\<lambda>n. pn_TopicID n = t) ns)))) = pn_IDHash ` {n \<in> set ns. pn_TopicID n = t \<and> stale cutoff (set ns) n}"
proof -
  let ?tree = "sort_nodes (filter (\<lambda>n. pn_TopicID n = t) ns)"
  have tree: "set ?tree = {n \<in> set ns. pn_TopicID n = t}" by (simp add: node_seq.set_SortFunc)
  let ?busy = "(\<exists>n \<in> set ?tree. pn_Status n \<noteq> StatusDone) \<and> cutoff \<le> last_active ?tree"
  have "stale cutoff (set ns) n \<longleftrightarrow> pn_UpdatedAt n < cutoff \<and> \<not> ?busy" if "n \<in> set ns" "pn_TopicID n = t" for n
    unfolding stale_def last_active_ge tree using that by (auto simp: not_less not_le)
  then have "{n \<in> set ns. pn_TopicID n = t \<and> stale cutoff (set ns) n} = (if ?busy then {} else {n \<in> set ?tree. pn_UpdatedAt n < cutoff})"
    using tree by auto
  then show ?thesis by (auto simp: swept_ids_def agg_of_def)
qed

lemma plan_sweeps_names:
  "(\<exists>ids. (t, ids) \<in> set (plan_sweeps cutoff (GroupPlanNodes ns)) \<and> i \<in> set ids) \<longleftrightarrow> (\<exists>n \<in> set ns. pn_TopicID n = t \<and> stale cutoff (set ns) n \<and> pn_IDHash n = i)"
proof -
  let ?tree = "\<lambda>u. agg_of u (sort_nodes (filter (\<lambda>n. pn_TopicID n = u) ns))"
  have agg: "agg \<in> set (GroupPlanNodes ns) \<and> pa_TopicID agg = t \<longleftrightarrow> t \<in> pn_TopicID ` set ns \<and> agg = ?tree t" for agg
    unfolding GroupPlanNodes_spec(2) by (auto simp: agg_of_def)
  have "(\<exists>ids. (t, ids) \<in> set (plan_sweeps cutoff (GroupPlanNodes ns)) \<and> i \<in> set ids)
      \<longleftrightarrow> (\<exists>agg. (agg \<in> set (GroupPlanNodes ns) \<and> pa_TopicID agg = t) \<and> i \<in> set (swept_ids cutoff agg))"
    unfolding plan_sweeps_def by auto
  also have "\<dots> \<longleftrightarrow> t \<in> pn_TopicID ` set ns \<and> i \<in> set (swept_ids cutoff (?tree t))" unfolding agg by blast
  also have "\<dots> \<longleftrightarrow> (\<exists>n \<in> set ns. pn_TopicID n = t \<and> stale cutoff (set ns) n \<and> pn_IDHash n = i)"
    unfolding swept_ids_tree by auto
  finally show ?thesis .
qed

definition doomed_ids :: "i64 \<Rightarrow> PlanNode list \<Rightarrow> u64 list" where
  "doomed_ids cutoff ns = concat (map snd (plan_sweeps cutoff (GroupPlanNodes ns)))"

lemma set_doomed_ids: "set (doomed_ids cutoff ns) = pn_IDHash ` {n \<in> set ns. stale cutoff (set ns) n}"
proof -
  have "i \<in> set (doomed_ids cutoff ns) \<longleftrightarrow> (\<exists>t ids. (t, ids) \<in> set (plan_sweeps cutoff (GroupPlanNodes ns)) \<and> i \<in> set ids)" for i
    by (force simp: doomed_ids_def)
  then show ?thesis unfolding set_eq_iff plan_sweeps_names by auto
qed

section \<open>The sweep of the cache\<close>

lemma fold_RemoveNodes:
  assumes "pc_wf pc"
  shows "pc_wf (fold (\<lambda>(t, ids). RemoveNodes t ids) sw pc)
    \<and> (\<forall>u. nodes_of (fold (\<lambda>(t, ids). RemoveNodes t ids) sw pc) u = filter (\<lambda>n. \<not> (\<exists>ids. (u, ids) \<in> set sw \<and> pn_IDHash n \<in> set ids)) (nodes_of pc u))"
  using assms
proof (induction sw arbitrary: pc)
  case (Cons s sw)
  obtain t ids where s: "s = (t, ids)" by force
  note law = RemoveNodes_law [OF Cons.prems, of t ids]
  have fold: "fold (\<lambda>(t, ids). RemoveNodes t ids) (s # sw) pc = fold (\<lambda>(t, ids). RemoveNodes t ids) sw (RemoveNodes t ids pc)" by (simp add: s)
  show ?case unfolding fold using Cons.IH [OF law(1)] unfolding law(2) by (auto simp: s intro!: filter_cong)
qed simp

text \<open>Deleting plan records leaves every other kind alone.\<close>

lemma delete_plan_reads:
  assumes "engine_rep e m" "engine_rep e' (del_all a ids m)" "\<forall>i \<in> set ids. \<exists>n. ReadPlanNode e a i = Inr n"
  shows "ReadTopicSlot e' a i = Inr t \<longleftrightarrow> ReadTopicSlot e a i = Inr t" "ReadArchiveSlot e' a i = Inr x \<longleftrightarrow> ReadArchiveSlot e a i = Inr x"
    "ReadPlanNode e' a i = Inr n \<longleftrightarrow> i \<notin> set ids \<and> ReadPlanNode e a i = Inr n"
proof -
  have kind: "\<exists>d. m (a, i) = Some (RecL5PlanNode, d)" if i: "i \<in> set ids" for i
  proof -
    obtain n where "ReadPlanNode e a i = Inr n" using assms(3) i by blast
    then have "typed_at unmarshal_plan_node m a RecL5PlanNode i = Some n" by (simp add: ReadPlanNode_typed [OF assms(1)])
    then show ?thesis by (rule typed_kind)
  qed
  have other: "typed_at u (del_all a ids m) a rt i = typed_at u m a rt i" if rt: "rt \<noteq> RecL5PlanNode" for u rt
  proof (cases "i \<in> set ids")
    case True
    then obtain d where "m (a, i) = Some (RecL5PlanNode, d)" using kind by blast
    then show ?thesis using True rt by (simp add: typed_at_def del_all_def)
  qed (simp add: typed_del_all)
  show "ReadTopicSlot e' a i = Inr t \<longleftrightarrow> ReadTopicSlot e a i = Inr t" "ReadArchiveSlot e' a i = Inr x \<longleftrightarrow> ReadArchiveSlot e a i = Inr x"
    unfolding typed_reads [OF assms(1)] typed_reads [OF assms(2)] by (simp_all add: other kinds_distinct)
  show "ReadPlanNode e' a i = Inr n \<longleftrightarrow> i \<notin> set ids \<and> ReadPlanNode e a i = Inr n"
    unfolding typed_reads [OF assms(1)] typed_reads [OF assms(2)] typed_del_all by simp
qed

section \<open>The stage\<close>

lemma PrunePlanStage_cases:
  assumes "CollectAllPlanNodesStrict (ctx_Engine c) a = Inr ns"
  shows "PrunePlanStage cutoff a c rep = (if doomed_ids cutoff ns = [] then (c, AppendStage ''l5_prune'' None rep)
    else case DeletePlanNodesByIDs a (doomed_ids cutoff ns) (ctx_Engine c) of
        (Inl err, engine) \<Rightarrow> (c\<lparr>ctx_Engine := engine\<rparr>, AppendStage ''l5_prune'' (Some err) rep)
      | (Inr _, engine) \<Rightarrow> (c\<lparr>ctx_Engine := engine, ctx_Plans := fold (\<lambda>(t, ids). RemoveNodes t ids) (plan_sweeps cutoff (GroupPlanNodes ns)) (ctx_Plans c)\<rparr>,
          AppendStage ''l5_prune'' None (rep\<lparr>dr_L5NodesPruned := length (doomed_ids cutoff ns)\<rparr>)))"
proof -
  have "CollectPlanNodes (ctx_Engine c) a = Inr (GroupPlanNodes ns)" using assms by (simp add: CollectPlanNodes_def)
  then show ?thesis unfolding PrunePlanStage_def Let_def
    by (simp add: doomed_ids_def del: length_concat split: sum.splits prod.splits)
qed

lemma PrunePlanStage_law:
  assumes inv: "domain_inv H a c" and ns: "CollectAllPlanNodesStrict (ctx_Engine c) a = Inr ns"
    and room: "engine_room (ctx_Engine c) (RecordHeaderSize * length (doomed_ids cutoff ns) + k)"
  shows "\<exists>c' rep'. PrunePlanStage cutoff a c rep = (c', rep') \<and> domain_inv H a c' \<and> engine_room (ctx_Engine c') k
    \<and> (\<forall>i n. ReadPlanNode (ctx_Engine c') a i = Inr n \<longleftrightarrow> ReadPlanNode (ctx_Engine c) a i = Inr n \<and> \<not> stale cutoff (set ns) n)
    \<and> (\<forall>i t. ReadTopicSlot (ctx_Engine c') a i = Inr t \<longleftrightarrow> ReadTopicSlot (ctx_Engine c) a i = Inr t)
    \<and> (\<forall>i x. ReadArchiveSlot (ctx_Engine c') a i = Inr x \<longleftrightarrow> ReadArchiveSlot (ctx_Engine c) a i = Inr x)
    \<and> (\<forall>u. nodes_of (ctx_Plans c') u = filter (\<lambda>n. \<not> stale cutoff (set ns) n) (nodes_of (ctx_Plans c) u))
    \<and> (\<forall>b i. b \<noteq> a \<or> \<not> (\<exists>n. ReadPlanNode (ctx_Engine c) a i = Inr n \<and> stale cutoff (set ns) n)
         \<longrightarrow> ReadRecord (ctx_Engine c') b i = ReadRecord (ctx_Engine c) b i)"
proof -
  let ?e = "ctx_Engine c" and ?sw = "plan_sweeps cutoff (GroupPlanNodes ns)" and ?ids = "doomed_ids cutoff ns"
  obtain m where rep: "engine_rep ?e m" using domain_invD(1) [OF inv] by blast
  note mir = domain_invD(4) [OF inv]
  have mem: "n \<in> set ns \<longleftrightarrow> (\<exists>i. ReadPlanNode ?e a i = Inr n)" for n using plan_nodes_scan [OF rep ns] by blast
  have hit: "pn_IDHash n \<in> set ?ids \<longleftrightarrow> stale cutoff (set ns) n" if "ReadPlanNode ?e a i = Inr n" for i n
  proof -
    have "n' = n" if "n' \<in> set ns" "pn_IDHash n' = pn_IDHash n" for n'
    proof -
      obtain j where "ReadPlanNode ?e a j = Inr n'" using mem \<open>n' \<in> set ns\<close> by blast
      then show ?thesis using that(2) \<open>ReadPlanNode ?e a i = Inr n\<close> pc_mirrorsD(4) [OF mir] by (metis sum.inject(2))
    qed
    moreover have "n \<in> set ns" using that mem by blast
    ultimately show ?thesis unfolding set_doomed_ids by (metis (mono_tags, lifting) image_iff mem_Collect_eq)
  qed
  have live: "\<forall>i \<in> set ?ids. \<exists>n. ReadPlanNode ?e a i = Inr n"
    unfolding set_doomed_ids using mem pc_mirrorsD(4) [OF mir] by fastforce
  obtain e' where e': "DeletePlanNodesByIDs a ?ids ?e = (Inr (), e')" "engine_rep e' (del_all a ?ids m)" "engine_room e' k"
    using DeletePlanNodesByIDs_law [OF rep room] by blast
  note reads = delete_plan_reads [OF rep e'(2) live]
  let ?pc = "fold (\<lambda>(t, ids). RemoveNodes t ids) ?sw (ctx_Plans c)"
  note pc = fold_RemoveNodes [OF pc_mirrorsD(1) [OF mir], of ?sw]
  have cached: "(\<exists>ids. (u, ids) \<in> set ?sw \<and> pn_IDHash n \<in> set ids) \<longleftrightarrow> stale cutoff (set ns) n" if "n \<in> set (nodes_of (ctx_Plans c) u)" for u n
    using hit [OF pc_mirrorsD(2) [OF mir that]] pc_mirrors_node(2) [OF mir that] mem pc_mirrorsD(2) [OF mir that]
    unfolding plan_sweeps_names set_doomed_ids by (metis (mono_tags, lifting) image_eqI mem_Collect_eq)
  have nodes: "nodes_of ?pc u = filter (\<lambda>n. \<not> stale cutoff (set ns) n) (nodes_of (ctx_Plans c) u)" for u
    using pc cached by (auto intro!: filter_cong)
  have plan: "ReadPlanNode e' a i = Inr n \<longleftrightarrow> ReadPlanNode ?e a i = Inr n \<and> \<not> stale cutoff (set ns) n" for i n
    using reads(3) hit [of i n] pc_mirrorsD(4) [OF mir, of i n] by blast
  have frame: "ReadRecord e' b i = ReadRecord ?e b i" if "b \<noteq> a \<or> \<not> (\<exists>n. ReadPlanNode ?e a i = Inr n \<and> stale cutoff (set ns) n)" for b i
  proof (rule eng.read_frame_del [OF rep e'(2)])
    have "i \<notin> set ?ids" if "\<not> (\<exists>n. ReadPlanNode ?e a i = Inr n \<and> stale cutoff (set ns) n)"
      using that live hit [of i] pc_mirrorsD(4) [OF mir, of i] by metis
    then show "b \<noteq> a \<or> i \<notin> set ?ids" using that by blast
  qed
  have "pc_mirrors H e' a ?pc"
    unfolding pc_mirrors_def nodes plan using pc mir unfolding pc_mirrors_def by auto
  then have inv': "domain_inv H a (c\<lparr>ctx_Engine := e', ctx_Plans := ?pc\<rparr>)"
    using domain_invD(2,3) [OF inv] e'(2) l2_mirrors_cong [OF reads(1)] l4_mirrors_cong [OF reads(2)] by (auto simp: domain_inv_def)
  note stage = PrunePlanStage_cases [OF ns, of cutoff rep]
  show ?thesis
  proof (cases "?ids = []")
    case True
    then have none: "\<not> stale cutoff (set ns) n" if "n \<in> set ns" for n using that set_doomed_ids [of cutoff ns] by auto
    have "PrunePlanStage cutoff a c rep = (c, AppendStage ''l5_prune'' None rep)"
      using True stage by simp
    moreover have "filter (\<lambda>n. \<not> stale cutoff (set ns) n) (nodes_of (ctx_Plans c) u) = nodes_of (ctx_Plans c) u" for u
      using none mem pc_mirrorsD(2) [OF mir] by (intro filter_True) blast
    ultimately show ?thesis using inv room none mem True by (intro exI [of _ c]) auto
  next
    case False
    have "\<exists>rep'. PrunePlanStage cutoff a c rep = (c\<lparr>ctx_Engine := e', ctx_Plans := ?pc\<rparr>, rep')"
      using False stage e'(1) by simp
    then show ?thesis using inv' e'(3) plan reads(1,2) nodes frame by (intro exI [of _ "c\<lparr>ctx_Engine := e', ctx_Plans := ?pc\<rparr>"]) auto
  qed
qed

text \<open>What a group needs of the records, the disk and the hash.\<close>

definition group_ready :: "(string \<Rightarrow> u64) \<Rightarrow> u64 \<Rightarrow> TopicSlot \<Rightarrow> ArchiveSlot \<Rightarrow> TopicSlot list \<Rightarrow> Context \<Rightarrow> nat \<Rightarrow> bool" where
  "group_ready H a parent x ts c n \<longleftrightarrow> ctx_ID c = a \<and> ts_ID parent \<noteq> as_IDHash x
     \<and> ReadRecord (ctx_Engine c) a (ts_ID parent) = Inl (NewError ErrNotFound)
     \<and> ReadRecord (ctx_Engine c) a (as_IDHash x) = Inl (NewError ErrNotFound)
     \<and> archive_fits x \<and> topic_ok parent \<and> size_of marshal_topic parent < 2 ^ 32
     \<and> (\<forall>t \<in> set ts. ReadTopicSlot (ctx_Engine c) a (ts_ID t) = Inr t \<and> surfaced t \<and> topic_ok t
          \<and> size_of marshal_topic (sunk (ts_ID parent) t) < 2 ^ 32)
     \<and> distinct (map ts_ID ts) \<and> no_clash H (l4_addresses (ctx_L4 c) [x])
     \<and> (\<forall>i y. ReadArchiveSlot (ctx_Engine c) a i = Inr y \<longrightarrow> as_TopicID y \<noteq> ts_ID parent)
     \<and> engine_room (ctx_Engine c) (batch_room marshal_archive [x] + (batch_room marshal_topic [parent]
          + (batch_room marshal_topic (map (sunk (ts_ID parent)) ts) + (2 * RecordHeaderSize + n))))"

lemma group_readyD:
  assumes "group_ready H a parent x ts c n"
  shows "ctx_ID c = a" "ts_ID parent \<noteq> as_IDHash x" "ReadRecord (ctx_Engine c) a (ts_ID parent) = Inl (NewError ErrNotFound)"
    "ReadRecord (ctx_Engine c) a (as_IDHash x) = Inl (NewError ErrNotFound)" "archive_fits x" "topic_ok parent" "size_of marshal_topic parent < 2 ^ 32"
    "\<forall>t \<in> set ts. ReadTopicSlot (ctx_Engine c) a (ts_ID t) = Inr t \<and> surfaced t \<and> topic_ok t \<and> size_of marshal_topic (sunk (ts_ID parent) t) < 2 ^ 32"
    "distinct (map ts_ID ts)" "no_clash H (l4_addresses (ctx_L4 c) [x])"
    "ReadArchiveSlot (ctx_Engine c) a i = Inr y \<Longrightarrow> as_TopicID y \<noteq> ts_ID parent"
    "engine_room (ctx_Engine c) (batch_room marshal_archive [x] + (batch_room marshal_topic [parent]
        + (batch_room marshal_topic (map (sunk (ts_ID parent)) ts) + (2 * RecordHeaderSize + n))))"
  using assms unfolding group_ready_def by blast+

lemma engine_room_mono: "engine_room e n \<Longrightarrow> k \<le> n \<Longrightarrow> engine_room e k"
  by (simp add: engine_room_def)

lemma absent_record:
  assumes "engine_rep e m"
  shows "ReadRecord e a i = Inl (NewError ErrNotFound) \<longleftrightarrow> m (a, i) = None"
  using eng.read_law [OF assms, of a i] by (auto split: option.splits)

section \<open>Storing the summary\<close>

lemma summary_law:
  assumes rep: "engine_rep (ctx_Engine c) m" and inv: "domain_inv H a c" and ready: "group_ready H a parent x ts c n" and x: "stamp_id H x = x"
  shows "\<exists>e1. AppendArchiveL4 H a x (ctx_Engine c) (ctx_L4 c) = (Inr (), e1, append_slot x (ctx_L4 c))
    \<and> engine_rep e1 (m((a, as_IDHash x) \<mapsto> record_of marshal_archive RecL4Archive x))
    \<and> engine_room e1 (batch_room marshal_topic [parent] + (batch_room marshal_topic (map (sunk (ts_ID parent)) ts) + (2 * RecordHeaderSize + n)))
    \<and> domain_inv H a (c\<lparr>ctx_Engine := e1, ctx_L4 := append_slot x (ctx_L4 c)\<rparr>)"
proof -
  note r = group_readyD [OF ready]
  let ?m1 = "m((a, as_IDHash x) \<mapsto> record_of marshal_archive RecL4Archive x)"
  have m: "m (a, as_IDHash x) = None" using r(4) absent_record [OF rep] by blast
  obtain e1 where e1: "AppendArchiveBatchL4 H a [x] (ctx_Engine c) (ctx_L4 c) = (Inr (), e1, append_slot x (ctx_L4 c))"
    "l4_mirrors H e1 a (append_slot x (ctx_L4 c))"
    "engine_room e1 (batch_room marshal_topic [parent] + (batch_room marshal_topic (map (sunk (ts_ID parent)) ts) + (2 * RecordHeaderSize + n)))"
    "engine_rep e1 ?m1"
    using AppendArchiveBatchL4_law [OF rep domain_invD(3) [OF inv], of "[x]" "batch_room marshal_topic [parent] + (batch_room marshal_topic (map (sunk (ts_ID parent)) ts) + (2 * RecordHeaderSize + n))"] r(5,10,12) x
    by (auto simp: put_entry_def entry_for_def record_of_def)
  have other: "typed_at u ?m1 a rt i = typed_at u m a rt i" if "rt \<noteq> RecL4Archive" for u rt i
    using that m by (simp add: typed_at_def record_of_def)
  have reads: "(ReadTopicSlot e1 a i = Inr t) = (ReadTopicSlot (ctx_Engine c) a i = Inr t)"
    "(ReadPlanNode e1 a i = Inr q) = (ReadPlanNode (ctx_Engine c) a i = Inr q)" for i t q
    unfolding ReadTopicSlot_typed [OF rep] ReadTopicSlot_typed [OF e1(4)] ReadPlanNode_typed [OF rep] ReadPlanNode_typed [OF e1(4)]
    using other kinds_distinct(2,6) by metis+
  have "domain_inv H a (c\<lparr>ctx_Engine := e1, ctx_L4 := append_slot x (ctx_L4 c)\<rparr>)"
    using domain_invD(2,4) [OF inv] e1(2,4) l2_mirrors_cong [OF reads(1)] pc_mirrors_cong [OF reads(2)] by (auto simp: domain_inv_def)
  then show ?thesis using e1 x by (auto simp: AppendArchiveL4_def)
qed

section \<open>The rollback\<close>

lemma rollback_law:
  assumes rep: "engine_rep (ctx_Engine c) m" and inv: "domain_inv H a c" and ready: "group_ready H a parent x ts c n"
    and x: "stamp_id H x = x" "as_TopicID x = ts_ID parent"
    and c1: "engine_rep e1 (m((a, as_IDHash x) \<mapsto> record_of marshal_archive RecL4Archive x))" "engine_room e1 (2 * RecordHeaderSize)"
      "domain_inv H a (c\<lparr>ctx_Engine := e1, ctx_L4 := append_slot x (ctx_L4 c)\<rparr>)"
  shows "\<exists>e2 l4. discardFusedGroup (ts_ID parent) (c\<lparr>ctx_Engine := e1, ctx_L4 := append_slot x (ctx_L4 c)\<rparr>) = c\<lparr>ctx_Engine := e2, ctx_L4 := l4\<rparr>
    \<and> engine_rep e2 m \<and> domain_inv H a (c\<lparr>ctx_Engine := e2, ctx_L4 := l4\<rparr>)"
proof -
  note r = group_readyD [OF ready]
  let ?p = "ts_ID parent" and ?m1 = "m((a, as_IDHash x) \<mapsto> record_of marshal_archive RecL4Archive x)" and ?idx = "append_slot x (ctx_L4 c)"
  have m: "m (a, as_IDHash x) = None" "m (a, ?p) = None" using r(3,4) absent_record [OF rep] by blast+
  have gone: "del_all a [?p] ?m1 = ?m1" using m(2) r(2) by (auto simp: del_all_def fun_eq_iff)
  obtain e1' where e1': "DeleteL2Records a [?p] e1 = (Inr (), e1')" "engine_rep e1' ?m1" "engine_room e1' RecordHeaderSize"
    using DeleteL2Records_law [OF c1(1), of "[?p]" RecordHeaderSize a] c1(2) gone by (auto simp: mult_2)
  have same: "ReadArchiveSlot e1' a i = Inr y \<longleftrightarrow> ReadArchiveSlot e1 a i = Inr y" for i y
    unfolding ReadArchiveSlot_typed [OF e1'(2)] ReadArchiveSlot_typed [OF c1(1)] ..
  have mir: "l4_mirrors H e1' a ?idx" using domain_invD(3) [OF c1(3)] l4_mirrors_cong [OF same] by simp
  have okx: "archive_ok x" using r(5) by (simp add: archive_fits_def)
  have read: "ReadArchiveSlot e1' a i = Inr y \<longleftrightarrow> (if i = as_IDHash x then y = x else ReadArchiveSlot (ctx_Engine c) a i = Inr y)" for i y
    unfolding ReadArchiveSlot_typed [OF e1'(2)] ReadArchiveSlot_typed [OF rep]
    using archive.typed_record_of [OF okx, of ?m1 a "as_IDHash x" RecL4Archive] by (auto simp: typed_at_def)
  let ?arcs = "DedupSorted (concat (map (AllIDs ?idx) [?p]))"
  have arcs: "set ?arcs = {as_IDHash x}"
  proof
    show "set ?arcs \<subseteq> {as_IDHash x}"
    proof
      fix i assume "i \<in> set ?arcs"
      then obtain en s where "l4_view ?idx ?p s = Some en" "le_IDHash en = i"
        using l4.ids_view [OF l4_mirrorsD(1) [OF mir], of ?p] by (auto simp: DedupSorted_props)
      then obtain y where y: "ReadArchiveSlot e1' a i = Inr y" "as_TopicID y = ?p" using l4_mirrorsD(2) [OF mir] by blast
      then show "i \<in> {as_IDHash x}" using read [of i y] r(11) by (auto split: if_splits)
    qed
    have "ReadArchiveSlot e1' a (as_IDHash x) = Inr x" using read by simp
    then have "l4_view ?idx ?p (as_Seq x) = Some (l4_entry x)" using l4_mirrorsD(5) [OF mir] x(2) by metis
    then show "{as_IDHash x} \<subseteq> set ?arcs" using AllIDs_topics [OF mir, of ?p "as_Seq x" "l4_entry x" "[?p]"] by simp
  qed
  then have one: "length ?arcs = 1"
    using DedupSorted_props(2) [of "concat (map (AllIDs ?idx) [?p])"] distinct_card [of ?arcs] by simp
  have restored: "del_all a ?arcs ?m1 = m" using arcs m(1) by (auto simp: del_all_def fun_eq_iff)
  obtain e2 where e2: "DeleteTopicArchives a [?p] e1' ?idx = (Inr (), e2, L4_RemoveTopic ?p ?idx)" "engine_rep e2 m"
    "l4_mirrors H e2 a (L4_RemoveTopic ?p ?idx)"
    using DeleteTopicArchives_law [OF e1'(2) mir, of "[?p]" 0] e1'(3) one restored by auto
  have reads: "(ReadTopicSlot e2 a i = Inr t) = (ReadTopicSlot (ctx_Engine c) a i = Inr t)"
    "(ReadPlanNode e2 a i = Inr q) = (ReadPlanNode (ctx_Engine c) a i = Inr q)" for i t q
    unfolding ReadTopicSlot_typed [OF e2(2)] ReadTopicSlot_typed [OF rep] ReadPlanNode_typed [OF e2(2)] ReadPlanNode_typed [OF rep] by simp_all
  have "domain_inv H a (c\<lparr>ctx_Engine := e2, ctx_L4 := L4_RemoveTopic ?p ?idx\<rparr>)"
    using domain_invD(2,4) [OF inv] e2(2,3) l2_mirrors_cong [OF reads(1)] pc_mirrors_cong [OF reads(2)] by (auto simp: domain_inv_def)
  moreover have "discardFusedGroup ?p (c\<lparr>ctx_Engine := e1, ctx_L4 := ?idx\<rparr>) = c\<lparr>ctx_Engine := e2, ctx_L4 := L4_RemoveTopic ?p ?idx\<rparr>"
    using e1'(1) e2(1) r(1) by (simp add: discardFusedGroup_def Let_def)
  ultimately show ?thesis using e2(2) by blast
qed

section \<open>The parent and the sunk members\<close>

lemma fuse_law:
  assumes rep: "engine_rep (ctx_Engine c) m" and inv: "domain_inv H a c" and ready: "group_ready H a parent x ts c n"
    and parent: "parent = turn_topic sc (ComputeFusedTopicID H sc lo hi (map ts_ID ts)) kws lo hi"
    and c1: "engine_rep e1 (m((a, as_IDHash x) \<mapsto> record_of marshal_archive RecL4Archive x))"
      "engine_room e1 (batch_room marshal_topic [parent] + (batch_room marshal_topic (map (sunk (ts_ID parent)) ts) + (2 * RecordHeaderSize + n)))"
      "domain_inv H a (c\<lparr>ctx_Engine := e1, ctx_L4 := l4\<rparr>)"
  shows "\<exists>c'. fuse_group H sc kws lo hi (map ts_ID ts) (c\<lparr>ctx_Engine := e1, ctx_L4 := l4\<rparr>) = (Inr (), c') \<and> ctx_L2Meta c' = ctx_L2Meta c
    \<and> (\<forall>i u. ReadTopicSlot (ctx_Engine c') a i = Inr u \<longleftrightarrow>
        (if i = ts_ID parent then u = parent else if i \<in> ts_ID ` set ts then \<exists>t \<in> set ts. ts_ID t = i \<and> u = sunk (ts_ID parent) t
         else ReadTopicSlot (ctx_Engine c) a i = Inr u))
    \<and> (\<forall>i y. ReadArchiveSlot (ctx_Engine c') a i = Inr y \<longleftrightarrow> (if i = as_IDHash x then y = x else ReadArchiveSlot (ctx_Engine c) a i = Inr y))
    \<and> domain_inv H a (install_meta c')
    \<and> (\<forall>b i. b \<noteq> a \<or> i \<notin> {ts_ID parent, as_IDHash x} \<union> ts_ID ` set ts \<longrightarrow> ReadRecord (ctx_Engine c') b i = ReadRecord (ctx_Engine c) b i)"
proof -
  note r = group_readyD [OF ready]
  let ?p = "ts_ID parent" and ?m1 = "m((a, as_IDHash x) \<mapsto> record_of marshal_archive RecL4Archive x)" and ?c1 = "c\<lparr>ctx_Engine := e1, ctx_L4 := l4\<rparr>"
  have m: "m (a, ?p) = None" "m (a, as_IDHash x) = None" using r(3,4) absent_record [OF rep] by blast+
  have okx: "archive_ok x" using r(5) by (simp add: archive_fits_def)
  have top1: "ReadTopicSlot e1 a i = Inr u \<longleftrightarrow> ReadTopicSlot (ctx_Engine c) a i = Inr u" for i u
    unfolding ReadTopicSlot_typed [OF rep] ReadTopicSlot_typed [OF c1(1)] using m(2) kinds_distinct(2)
    by (auto simp: typed_at_def record_of_def)
  have arc1: "ReadArchiveSlot e1 a i = Inr y \<longleftrightarrow> (if i = as_IDHash x then y = x else ReadArchiveSlot (ctx_Engine c) a i = Inr y)" for i y
    unfolding ReadArchiveSlot_typed [OF c1(1)] ReadArchiveSlot_typed [OF rep]
    using archive.typed_record_of [OF okx, of ?m1 a "as_IDHash x" RecL4Archive] by (auto simp: typed_at_def)
  have own: "own_kind e1 a RecL2Topic ?p" unfolding own_kind_store [OF c1(1)] using m(1) r(2) by auto
  have fit1: "topics_fit a [parent] e1 (batch_room marshal_topic (map (sunk ?p) ts) + (2 * RecordHeaderSize + n))"
    using own r(6,7) c1(2) by (simp add: topics_fit_def)
  obtain out e2 where e2: "WriteRecordBatch (topic_entries a [parent]) e1 = (Inr out, e2)"
    "engine_rep e2 (put_all (topic_entries a [parent]) ?m1)"
    "engine_room e2 (batch_room marshal_topic (map (sunk ?p) ts) + (2 * RecordHeaderSize + n))"
    "\<forall>i u. ReadTopicSlot e2 a i = Inr u \<longleftrightarrow> (case List.find (\<lambda>x. ts_ID x = i) (rev [parent]) of Some x \<Rightarrow> u = x | None \<Rightarrow> ReadTopicSlot e1 a i = Inr u)"
    "\<forall>i y. ReadArchiveSlot e2 a i = Inr y \<longleftrightarrow> ReadArchiveSlot e1 a i = Inr y"
    "\<forall>i q. ReadPlanNode e2 a i = Inr q \<longleftrightarrow> ReadPlanNode e1 a i = Inr q"
    using topic_batch [OF c1(1) fit1] by blast
  have top2: "ReadTopicSlot e2 a i = Inr u \<longleftrightarrow> (if i = ?p then u = parent else ReadTopicSlot (ctx_Engine c) a i = Inr u)" for i u
    using e2(4) top1 by auto
  have made: "WriteTopicSlot a ?p parent e1 = (Inr (), e2)" using e2(1) r(6) by (simp add: WriteTopicSlot_batch)
  have ne: "ts_ID t \<noteq> ?p" if "t \<in> set ts" for t
    using that r(8) ReadTopicSlot_typed [OF rep, of a ?p t] m(1) by (auto simp: typed_at_def)
  have ts2: "\<forall>t \<in> set ts. ReadTopicSlot e2 a (ts_ID t) = Inr t \<and> surfaced t" using r(8) ne top2 by simp
  have fit2: "topics_fit a (map (sunk ?p) ts) e2 (2 * RecordHeaderSize + n)"
    using r(8) ts2 e2(3) own_kind_topic [OF e2(2)] by (auto simp: topics_fit_def)
  obtain e3 where e3: "CompressTopicsL2 a (map ts_ID ts) ?p e2 = (Inr (), e3)" "engine_rep e3 (put_all (topic_entries a (map (sunk ?p) ts)) (put_all (topic_entries a [parent]) ?m1))"
    "\<forall>t \<in> set ts. ReadTopicSlot e3 a (ts_ID t) = Inr (sunk ?p t)"
    "\<forall>i u. i \<notin> ts_ID ` set ts \<longrightarrow> (ReadTopicSlot e3 a i = Inr u \<longleftrightarrow> ReadTopicSlot e2 a i = Inr u)"
    "\<forall>i y. ReadArchiveSlot e3 a i = Inr y \<longleftrightarrow> ReadArchiveSlot e2 a i = Inr y"
    "\<forall>i q. ReadPlanNode e3 a i = Inr q \<longleftrightarrow> ReadPlanNode e2 a i = Inr q"
    using CompressTopicsL2_law [OF e2(2) ts2 r(9) fit2] by blast
  let ?c' = "?c1\<lparr>ctx_Engine := e3\<rparr>"
  have pid: "?p = ComputeFusedTopicID H sc lo hi (map ts_ID ts)" unfolding parent by (simp add: turn_topic_def)
  have "CreateFusedTopicL2 H a sc kws lo hi (map ts_ID ts) e1 = (Inr (), e2)"
    using made pid unfolding CreateFusedTopicL2_def Let_def parent [symmetric] by simp
  then have run: "fuse_group H sc kws lo hi (map ts_ID ts) ?c1 = (Inr (), ?c')"
    using e3(1) r(1) unfolding fuse_group_def Let_def pid [symmetric] by simp
  have top3: "ReadTopicSlot e3 a i = Inr u \<longleftrightarrow> (if i = ?p then u = parent else if i \<in> ts_ID ` set ts then \<exists>t \<in> set ts. ts_ID t = i \<and> u = sunk ?p t
      else ReadTopicSlot (ctx_Engine c) a i = Inr u)" for i u
  proof (cases "i \<in> ts_ID ` set ts")
    case True
    then obtain t where t: "t \<in> set ts" "ts_ID t = i" by blast
    then have "ReadTopicSlot e3 a i = Inr u \<longleftrightarrow> u = sunk ?p t" using e3(3) by auto
    moreover have "(\<exists>t' \<in> set ts. ts_ID t' = i \<and> u = sunk ?p t') \<longleftrightarrow> u = sunk ?p t" using t r(9) by (auto simp: distinct_map inj_on_def)
    ultimately show ?thesis using True ne t by auto
  next
    case False
    then show ?thesis using e3(4) top2 by simp
  qed
  have arc3: "ReadArchiveSlot e3 a i = Inr y \<longleftrightarrow> ReadArchiveSlot e1 a i = Inr y"
    and plan3: "ReadPlanNode e3 a i = Inr q \<longleftrightarrow> ReadPlanNode e1 a i = Inr q" for i y q
    using e2(5,6) e3(5,6) by blast+
  have addr: "l2_addressed e3 a"
    unfolding l2_addressed_def top3 using l2_mirrors_ids [OF domain_invD(2) [OF inv]] by auto
  have "domain_inv H a (?c1\<lparr>ctx_Engine := e3, ctx_L2Meta := BuildL2MetaFromEngine e3 a\<rparr>)"
    by (rule domain_topics [OF c1(3) e3(2) BuildL2Meta_mirrors [OF e3(2) addr]]) (simp_all add: arc3 plan3)
  then have "domain_inv H a (install_meta ?c')" using r(1) by (simp add: install_meta_def)
  moreover have "ReadRecord e3 b i = ReadRecord (ctx_Engine c) b i" if "b \<noteq> a \<or> i \<notin> {?p, as_IDHash x} \<union> ts_ID ` set ts" for b i
    using that by (intro eng.read_frame [OF rep e3(2)]) (subst put_all_other, auto simp: entry_for_def put_entry_def)
  ultimately show ?thesis using run top3 arc3 arc1 by (intro exI [of _ ?c'] conjI allI impI) simp_all
qed

end
