(* ===== verification/Dream_Properties.thy ===== *)
theory Dream_Properties
  imports Dream_Correct Sample_Store
begin

text \<open>
  What a Dream does to the records: the retention sweep of the plans, and the consolidation of a group of
  topics as one all-or-nothing step.
\<close>

lemma stamp_id_idem [simp]: "stamp_id H (stamp_id H x) = stamp_id H x"
  by (simp add: stamp_id_def)

lemma AppendArchiveL4_stamped: "AppendArchiveL4 H a (stamp_id H x) e idx = AppendArchiveL4 H a x e idx"
  by (simp add: AppendArchiveL4_def)

lemma absent_lenient: "ReadRecord e a i = Inl (NewError ErrNotFound) \<Longrightarrow> ReadTopicLenient e a i = Inl (NewError ErrNotFound)"
  by (simp add: ReadTopicLenient_def ReadTopicSlot_def readJSON_def)

lemma applyOneGroup_store:
  assumes "ReadRecord (ctx_Engine c) (ctx_ID c) (ComputeFusedTopicID H sc lo hi (NodeHashes g)) = Inl (NewError ErrNotFound)"
    "TrimSpace (MergedSummary g) \<noteq> []"
  shows "applyOneGroup H kw now sc g lo hi c = store_summary H kw now sc g lo hi c"
  using absent_lenient [OF assms(1)] assms(2) by (simp add: applyOneGroup_def Let_def)

text \<open>
  C33. A group of topics is fused whole or not at all. With keywords for its summary the step stores the
  summary and the parent, sinks every member below it, touches no other record of any domain, and the rebuilt topic cache
  agrees with the records (the one installed before it does not change). Without keywords it answers
  \<open>ErrLLM\<close> and every record of every domain reads as before.
\<close>

theorem group_is_fused_or_undone:
  assumes "domain_inv H a c" "group_ready H a parent x ts c n" "NodeHashes g = map ts_ID ts" "TrimSpace (MergedSummary g) \<noteq> []"
    "parent = turn_topic sc (ComputeFusedTopicID H sc lo hi (map ts_ID ts)) kws lo hi"
    "x = stamp_id H (summary_slot (ts_ID parent) (MergedSummary g) now)"
    "\<forall>ks. keywords_of (MergedSummary g) = Inr ks \<longrightarrow> ks = kws"
  shows "\<exists>out c'. applyOneGroup H keywords_of now sc g lo hi c = (out, c') \<and> ctx_L2Meta c' = ctx_L2Meta c
    \<and> (case keywords_of (MergedSummary g) of
        Inr (k # ks) \<Rightarrow> out = Inr ()
          \<and> (\<forall>i u. ReadTopicSlot (ctx_Engine c') a i = Inr u \<longleftrightarrow>
              (if i = ts_ID parent then u = parent else if i \<in> ts_ID ` set ts then \<exists>t \<in> set ts. ts_ID t = i \<and> u = sunk (ts_ID parent) t
               else ReadTopicSlot (ctx_Engine c) a i = Inr u))
          \<and> (\<forall>i y. ReadArchiveSlot (ctx_Engine c') a i = Inr y \<longleftrightarrow> (if i = as_IDHash x then y = x else ReadArchiveSlot (ctx_Engine c) a i = Inr y))
          \<and> domain_inv H a (install_meta c')
          \<and> (\<forall>b i. b \<noteq> a \<or> i \<notin> {ts_ID parent, as_IDHash x} \<union> ts_ID ` set ts \<longrightarrow> ReadRecord (ctx_Engine c') b i = ReadRecord (ctx_Engine c) b i)
      | _ \<Rightarrow> (\<exists>err. out = Inl err \<and> CodeOf err = ErrLLM)
          \<and> (\<forall>b i. ReadRecord (ctx_Engine c') b i = ReadRecord (ctx_Engine c) b i) \<and> domain_inv H a c')"
proof -
  note r = group_readyD [OF assms(2)]
  obtain m where rep: "engine_rep (ctx_Engine c) m" using domain_invD(1) [OF assms(1)] by blast
  have x: "stamp_id H x = x" "as_TopicID x = ts_ID parent" unfolding assms(6) by (simp_all add: stamp_id_def summary_slot_def)
  have pid: "ComputeFusedTopicID H sc lo hi (map ts_ID ts) = ts_ID parent" by (simp add: assms(5) turn_topic_def)
  obtain e1 where e1: "AppendArchiveL4 H a x (ctx_Engine c) (ctx_L4 c) = (Inr (), e1, append_slot x (ctx_L4 c))"
    "engine_rep e1 (m((a, as_IDHash x) \<mapsto> record_of marshal_archive RecL4Archive x))"
    "engine_room e1 (batch_room marshal_topic [parent] + (batch_room marshal_topic (map (sunk (ts_ID parent)) ts) + (2 * RecordHeaderSize + n)))"
    "domain_inv H a (c\<lparr>ctx_Engine := e1, ctx_L4 := append_slot x (ctx_L4 c)\<rparr>)"
    using summary_law [OF rep assms(1,2) x(1)] by blast
  let ?c1 = "c\<lparr>ctx_Engine := e1, ctx_L4 := append_slot x (ctx_L4 c)\<rparr>" and ?kw = "keywords_of (MergedSummary g)"
  have "AppendArchiveL4 H a (summary_slot (ts_ID parent) (MergedSummary g) now) (ctx_Engine c) (ctx_L4 c) = (Inr (), e1, append_slot x (ctx_L4 c))"
    using e1(1) unfolding assms(6) AppendArchiveL4_stamped .
  then have run: "applyOneGroup H keywords_of now sc g lo hi c = (case ?kw of
        Inl err \<Rightarrow> (Inl (Error ErrLLM (Some err)), discardFusedGroup (ts_ID parent) ?c1)
      | Inr keywords \<Rightarrow> if length keywords = 0 then (Inl (Error ErrLLM (Some (NewError ErrLLM))), discardFusedGroup (ts_ID parent) ?c1)
          else fuse_group H sc keywords lo hi (map ts_ID ts) ?c1)"
    using applyOneGroup_store [of c H sc lo hi g keywords_of now] r(1,3) assms(4)
    unfolding assms(3) pid by (simp add: pid assms(3) store_summary_def Let_def split: sum.splits)
  have "engine_room e1 (2 * RecordHeaderSize)" using e1(3) by (rule engine_room_mono) simp
  from rollback_law [OF rep assms(1,2) x e1(2) this e1(4)] obtain e2 l4 where
    e2: "discardFusedGroup (ts_ID parent) ?c1 = c\<lparr>ctx_Engine := e2, ctx_L4 := l4\<rparr>" "engine_rep e2 m" "domain_inv H a (c\<lparr>ctx_Engine := e2, ctx_L4 := l4\<rparr>)"
    by blast
  show ?thesis
  proof (cases "\<exists>k ks. ?kw = Inr (k # ks)")
    case True
    then obtain k ks where k: "?kw = Inr (k # ks)" "kws = k # ks" using assms(7) by blast
    obtain c' where "fuse_group H sc kws lo hi (map ts_ID ts) ?c1 = (Inr (), c')" "ctx_L2Meta c' = ctx_L2Meta c"
      "\<forall>i u. ReadTopicSlot (ctx_Engine c') a i = Inr u \<longleftrightarrow>
        (if i = ts_ID parent then u = parent else if i \<in> ts_ID ` set ts then \<exists>t \<in> set ts. ts_ID t = i \<and> u = sunk (ts_ID parent) t
         else ReadTopicSlot (ctx_Engine c) a i = Inr u)"
      "\<forall>i y. ReadArchiveSlot (ctx_Engine c') a i = Inr y \<longleftrightarrow> (if i = as_IDHash x then y = x else ReadArchiveSlot (ctx_Engine c) a i = Inr y)"
      "domain_inv H a (install_meta c')"
      "\<forall>b i. b \<noteq> a \<or> i \<notin> {ts_ID parent, as_IDHash x} \<union> ts_ID ` set ts \<longrightarrow> ReadRecord (ctx_Engine c') b i = ReadRecord (ctx_Engine c) b i"
      using fuse_law [OF rep assms(1,2,5) e1(2-4)] by blast
    then show ?thesis using run k by simp
  next
    case False
    then consider err where "?kw = Inl err" | "?kw = Inr []" by (metis list.exhaust obj_sumE)
    then have "\<exists>err. applyOneGroup H keywords_of now sc g lo hi c = (Inl err, c\<lparr>ctx_Engine := e2, ctx_L4 := l4\<rparr>) \<and> CodeOf err = ErrLLM
      \<and> (?kw = Inr [] \<or> (\<exists>err. ?kw = Inl err))"
      using run e2(1) by cases simp_all
    then show ?thesis using e2(3) eng.read_frame [OF rep e2(2)] by (elim exE conjE disjE) simp_all
  qed
qed

definition fuse_hash :: "string \<Rightarrow> u64" where
  "fuse_hash s = (if take 6 s = ''fused:'' then 20 else if s = ''content:20:1'' then 21 else sample_hash s)"

lemma fuse_keys: "HashContent fuse_hash 9 1 = 5" "HashContent fuse_hash 20 1 = 21" "HashPlanNode fuse_hash 9 1 = 6"
  "ComputeFusedTopicID fuse_hash 7 1000 1001 [9] = 20"
  by code_simp+

abbreviation fused_sample :: TopicSlot where "fused_sample \<equiv> turn_topic 7 20 [''tea''] 1000 1001"

abbreviation summary_sample :: ArchiveSlot where "summary_sample \<equiv> stamp_id fuse_hash (summary_slot 20 ''tea time'' 2000)"

lemma trim_tea: "TrimSpace ''tea time'' \<noteq> []"
  by code_simp

lemma fused_ok: "topic_ok fused_sample" "archive_ok summary_sample"
  unfolding turn_topic_def summary_slot_def topic_ok_def archive_ok_def stamp_id_def archive_zero_def
  by (simp_all add: i64_ok_def) (code_simp+)

lemma fuse_domain:
  assumes rep: "engine_rep e sample_store" and read: "sample_read e" and room: "engine_room e (2 ^ 60)"
  shows "domain_inv fuse_hash 1 (NewContext 1 e)"
    "group_ready fuse_hash 1 fused_sample summary_sample [sample_topic 9 None 1] (NewContext 1 e) 0"
proof -
  note r = sample_readD [OF read]
  have "l2_addressed e 1" "l4_addressed fuse_hash e 1" "plan_addressed fuse_hash e 1"
    unfolding l2_addressed_def l4_addressed_def plan_addressed_def r
    by (auto simp: sample_topic_def sample_archive_def sample_node_def fuse_keys)
  then show inv: "domain_inv fuse_hash 1 (NewContext 1 e)" using NewContext_inv [OF rep] by blast
  let ?c = "NewContext 1 e"
  have c: "ctx_ID ?c = 1" "ctx_Engine ?c = e" by (simp_all add: NewContext_def)
  have absent: "ReadRecord e 1 20 = Inl (NewError ErrNotFound)" "ReadRecord e 1 21 = Inl (NewError ErrNotFound)"
    unfolding absent_record [OF rep] by (simp_all add: sample_store_def)
  have id: "as_IDHash summary_sample = 21" "as_TopicID summary_sample = 20" "as_Seq summary_sample = 1"
    by (simp_all add: stamp_id_def summary_slot_def SeqUser_def fuse_keys)
  have slot: "as_TopicID (summary_slot 20 ''tea time'' 2000) = 20" "as_Seq (summary_slot 20 ''tea time'' 2000) = 1"
    by (simp_all add: summary_slot_def SeqUser_def)
  have top: "ts_ID fused_sample = 20" "ts_ID (sample_topic 9 None 1) = 9" by (simp_all add: turn_topic_def sample_topic_def)
  have s: "sunk 20 (sample_topic 9 None 1) = sample_topic 9 (Some 20) 2" by (simp add: sunk_def sample_topic_def)
  have size: "size_of marshal_topic fused_sample < 2000" "size_of marshal_archive summary_sample < 2000" "size_of marshal_topic (sample_topic i q d) < 2000" for i q d
    using topic_size [OF fused_ok(1)] archive_size [OF fused_ok(2)] sample_size(2)
    by (simp_all add: turn_topic_def stamp_id_def summary_slot_def archive_zero_def)
  note mir = domain_invD(3) [OF inv, unfolded c(2)]
  have "l4_view (ctx_L4 ?c) t s \<noteq> None \<Longrightarrow> (t, s) = (9, 1)" for t s
    using l4_mirrors_entry(3) [OF mir, of t s] r(3) by (auto simp: sample_archive_def)
  then have "l4_addresses (ctx_L4 ?c) [summary_sample] \<subseteq> {(9, 1), (20, 1)}"
    using slot by (auto simp: l4_addresses_def)
  then have clash: "no_clash fuse_hash (l4_addresses (ctx_L4 ?c) [summary_sample])"
    unfolding no_clash_def by (rule inj_on_subset [rotated]) (simp add: fuse_keys)
  have "surfaced (sample_topic 9 None 1)" by (simp add: surfaced_def sample_topic_def MaxDepth_def)
  moreover have "engine_room e (batch_room marshal_archive [summary_sample] + (batch_room marshal_topic [fused_sample]
      + (batch_room marshal_topic [sample_topic 9 (Some 20) 2] + (2 * RecordHeaderSize + 0))))"
    by (rule engine_room_mono [OF room]) (use size(1,2) size(3) [of 9 "Some 20" 2] in \<open>simp add: RecordHeaderSize_def\<close>)
  ultimately show "group_ready fuse_hash 1 fused_sample summary_sample [sample_topic 9 None 1] ?c 0"
    unfolding group_ready_def c id top using absent fused_ok sample_ok(2) clash size(1,2) size(3) [of 9 "Some 20" 2] r(1,3)
    by (simp add: archive_fits_def s top sample_archive_def)
qed

lemma group_is_fused_or_undone_witness:
  "\<exists>e c'. applyOneGroup fuse_hash (\<lambda>_. Inr [''tea'']) 2000 7 \<lparr>NodeHashes = [9], MergedSummary = ''tea time''\<rparr> 1000 1001 (NewContext 1 e) = (Inr (), c')
    \<and> ReadTopicSlot (ctx_Engine c') 1 20 = Inr fused_sample \<and> ReadTopicSlot (ctx_Engine c') 1 9 = Inr (sample_topic 9 (Some 20) 2)"
proof -
  obtain e where e: "engine_rep e sample_store" "sample_read e" "engine_room e (2 ^ 60)" using sample_domain by blast
  note f = fuse_domain [OF e]
  let ?g = "\<lparr>NodeHashes = [9], MergedSummary = ''tea time''\<rparr>" and ?ts = "[sample_topic 9 None 1]"
  have ids: "map ts_ID ?ts = [9]" "ts_ID fused_sample = 20" "ts_ID (sample_topic 9 None 1) = 9" by (simp_all add: sample_topic_def turn_topic_def)
  have s: "sunk 20 (sample_topic 9 None 1) = sample_topic 9 (Some 20) 2" by (simp add: sunk_def sample_topic_def)
  have h: "NodeHashes ?g = map ts_ID ?ts" "TrimSpace (MergedSummary ?g) \<noteq> []"
    "fused_sample = turn_topic 7 (ComputeFusedTopicID fuse_hash 7 1000 1001 (map ts_ID ?ts)) [''tea''] 1000 1001"
    "summary_sample = stamp_id fuse_hash (summary_slot (ts_ID fused_sample) (MergedSummary ?g) 2000)"
    "\<forall>ks. (\<lambda>_. Inr [''tea'']) (MergedSummary ?g) = Inr ks \<longrightarrow> ks = [''tea'']"
    unfolding ids by (simp_all add: fuse_keys trim_tea)
  from group_is_fused_or_undone [OF f h]
  obtain out c' where c': "applyOneGroup fuse_hash (\<lambda>_. Inr [''tea'']) 2000 7 ?g 1000 1001 (NewContext 1 e) = (out, c')" "out = Inr ()"
    "\<forall>i u. ReadTopicSlot (ctx_Engine c') 1 i = Inr u \<longleftrightarrow>
              (if i = ts_ID fused_sample then u = fused_sample else if i \<in> ts_ID ` set ?ts then \<exists>t \<in> set ?ts. ts_ID t = i \<and> u = sunk (ts_ID fused_sample) t
               else ReadTopicSlot (ctx_Engine (NewContext 1 e)) 1 i = Inr u)"
    by auto
  have "ReadTopicSlot (ctx_Engine c') 1 20 = Inr fused_sample" "ReadTopicSlot (ctx_Engine c') 1 9 = Inr (sample_topic 9 (Some 20) 2)"
    using c'(3) by (simp_all add: ids s)
  with c'(1,2) show ?thesis by (intro exI conjI) simp_all
qed

section \<open>A group that names one topic twice\<close>

text \<open>
  The guard of \<open>applyGroups\<close> counts the names of a group, not the topics: a group that repeats one id passes
  it, and counts as two topics sunk below the parent that stands over one.
\<close>

theorem repeated_member_is_applied:
  assumes "NodeHashes g = [i, i]" "map_of byID i = Some t"
    "applyOneGroup H keywords_of now sc g (ts_UserTimestamp t) (ts_AgentTimestamp t) c = (Inr (), c')"
  shows "group_loop H keywords_of now sc byID [g] [] got c
    = ((got\<lparr>go_groups := go_groups got + 1, go_topics := go_topics got + 2\<rparr>, None), c')"
  using assms by (simp add: sharesMember_def groupTimestamps_def)

section \<open>The sweep of the plans\<close>

text \<open>
  C22. The retention sweep of the plans deletes exactly the stale steps: those last committed before the
  cutoff whose plan is all done or wholly untouched since. A plan with an open step and a commit inside the
  window keeps every node, in the records and in the cache, and every record that is not one of the stale
  steps, of whatever kind and of whatever domain, reads as before.
\<close>

theorem PrunePlanStage_sweeps_stale:
  assumes "domain_inv H a c" "CollectAllPlanNodesStrict (ctx_Engine c) a = Inr ns"
    "engine_room (ctx_Engine c) (RecordHeaderSize * length (doomed_ids cutoff ns) + k)"
  shows "\<exists>c' rep'. PrunePlanStage cutoff a c rep = (c', rep') \<and> domain_inv H a c'
    \<and> (\<forall>i n. ReadPlanNode (ctx_Engine c') a i = Inr n \<longleftrightarrow> ReadPlanNode (ctx_Engine c) a i = Inr n
        \<and> \<not> (pn_UpdatedAt n < cutoff \<and> ((\<forall>m \<in> set ns. pn_TopicID m = pn_TopicID n \<longrightarrow> pn_Status m = StatusDone)
              \<or> 0 < cutoff \<and> (\<forall>m \<in> set ns. pn_TopicID m = pn_TopicID n \<longrightarrow> pn_UpdatedAt m < cutoff))))
    \<and> (\<forall>i t. ReadTopicSlot (ctx_Engine c') a i = Inr t \<longleftrightarrow> ReadTopicSlot (ctx_Engine c) a i = Inr t)
    \<and> (\<forall>i x. ReadArchiveSlot (ctx_Engine c') a i = Inr x \<longleftrightarrow> ReadArchiveSlot (ctx_Engine c) a i = Inr x)
    \<and> (\<forall>b i. b \<noteq> a \<or> \<not> (\<exists>n. ReadPlanNode (ctx_Engine c) a i = Inr n
          \<and> pn_UpdatedAt n < cutoff \<and> ((\<forall>m \<in> set ns. pn_TopicID m = pn_TopicID n \<longrightarrow> pn_Status m = StatusDone)
              \<or> 0 < cutoff \<and> (\<forall>m \<in> set ns. pn_TopicID m = pn_TopicID n \<longrightarrow> pn_UpdatedAt m < cutoff)))
        \<longrightarrow> ReadRecord (ctx_Engine c') b i = ReadRecord (ctx_Engine c) b i)"
proof -
  obtain c' rep' where "PrunePlanStage cutoff a c rep = (c', rep')" "domain_inv H a c'"
    "\<forall>i n. ReadPlanNode (ctx_Engine c') a i = Inr n \<longleftrightarrow> ReadPlanNode (ctx_Engine c) a i = Inr n \<and> \<not> stale cutoff (set ns) n"
    "\<forall>i t. ReadTopicSlot (ctx_Engine c') a i = Inr t \<longleftrightarrow> ReadTopicSlot (ctx_Engine c) a i = Inr t"
    "\<forall>i x. ReadArchiveSlot (ctx_Engine c') a i = Inr x \<longleftrightarrow> ReadArchiveSlot (ctx_Engine c) a i = Inr x"
    "\<forall>b i. b \<noteq> a \<or> \<not> (\<exists>n. ReadPlanNode (ctx_Engine c) a i = Inr n \<and> stale cutoff (set ns) n)
         \<longrightarrow> ReadRecord (ctx_Engine c') b i = ReadRecord (ctx_Engine c) b i"
    using PrunePlanStage_law [OF assms, of rep] by blast
  then show ?thesis unfolding stale_def by (intro exI conjI)
qed

lemma PrunePlanStage_sweeps_stale_witness:
  "\<exists>e c' rep'. ReadPlanNode e 1 6 = Inr sample_node \<and> PrunePlanStage 2000 1 (NewContext 1 e) new_report = (c', rep')
    \<and> ReadPlanNode (ctx_Engine c') 1 6 \<noteq> Inr sample_node \<and> ReadTopicSlot (ctx_Engine c') 1 9 = Inr (sample_topic 9 None 1)"
proof -
  obtain e where e: "engine_rep e sample_store" "sample_read e" "domain_inv sample_hash 1 (NewContext 1 e)" "engine_room e (2 ^ 60)"
    using sample_domain by blast
  have c: "ctx_Engine (NewContext 1 e) = e" by (simp add: NewContext_def)
  have ns: "CollectAllPlanNodesStrict (ctx_Engine (NewContext 1 e)) 1 = Inr [sample_node]" using sample_scans(2) [OF e(1)] c by simp
  have "doomed_ids 2000 [sample_node] = [6]" by code_simp
  then have room: "engine_room (ctx_Engine (NewContext 1 e)) (RecordHeaderSize * length (doomed_ids 2000 [sample_node]) + 0)"
    using e(4) by (simp add: c engine_room_def RecordHeaderSize_def)
  obtain c' rep' where c': "PrunePlanStage 2000 1 (NewContext 1 e) new_report = (c', rep')"
    "\<And>i n. ReadPlanNode (ctx_Engine c') 1 i = Inr n \<longleftrightarrow> ReadPlanNode e 1 i = Inr n
        \<and> \<not> (pn_UpdatedAt n < 2000 \<and> ((\<forall>m \<in> set [sample_node]. pn_TopicID m = pn_TopicID n \<longrightarrow> pn_Status m = StatusDone)
              \<or> 0 < (2000 :: int) \<and> (\<forall>m \<in> set [sample_node]. pn_TopicID m = pn_TopicID n \<longrightarrow> pn_UpdatedAt m < 2000)))"
    "\<And>i t. ReadTopicSlot (ctx_Engine c') 1 i = Inr t \<longleftrightarrow> ReadTopicSlot e 1 i = Inr t"
    using PrunePlanStage_sweeps_stale [OF e(3) ns room, of new_report] c by auto
  have "ReadPlanNode (ctx_Engine c') 1 6 \<noteq> Inr sample_node" unfolding c'(2) by (simp add: sample_node_def)
  moreover have "ReadPlanNode e 1 6 = Inr sample_node" "ReadTopicSlot (ctx_Engine c') 1 9 = Inr (sample_topic 9 None 1)"
    unfolding c'(3) sample_readD [OF e(2)] by simp_all
  ultimately show ?thesis using c'(1) by (intro exI conjI)
qed

end
