(* ===== verification/Agents_Correct.thy ===== *)
theory Agents_Correct
  imports Agents Codec_Size Fresh_Store
begin

text \<open>
  What the registry of sub-agents guarantees: the name tables in memory agree with the registry records, and an
  allocated name survives a reload of the tables from the records.
\<close>

section \<open>The codec of a name\<close>

interpretation tenant: slot_codec marshal_name unmarshal_name utf8
proof
  fix s :: string assume "utf8 s"
  then have "json_parse (enc_val (JStr s)) = Some (JStr s)" by (intro json_parse_enc_val) simp
  then show "\<exists>data. marshal_name s = Inr data \<and> unmarshal_name data = Inr s" by (simp add: marshal_name_def unmarshal_name_def)
qed

lemma name_size: "size_of marshal_name s \<le> 6 * length s + 2"
  using length_quote [of s] by (simp add: size_of_def marshal_name_def text_bytes_def)

section \<open>The domains of an engine\<close>

lemma IterAgents_law:
  assumes "engine_rep e m"
  shows "sorted (IterAgents e)" "distinct (IterAgents e)" "set (IterAgents e) = {a. \<exists>i. m (a, i) \<noteq> None}"
proof -
  obtain fs where fs: "engine_inv e fs" "m = view_of fs" using assms by (auto simp: engine_rep_def)
  note s = engine_inv_simps [OF fs(1)]
  have wf: "map_wf (index e)" and inner: "\<And>a mm. (a, mm) \<in> set (index e) \<Longrightarrow> map_wf mm \<and> mm \<noteq> []"
    using s(5) unfolding idx_ok_def index_wf_def by blast+
  show "sorted (IterAgents e)" "distinct (IterAgents e)" using wf s(2) by (simp_all add: IterAgents_def iterSnapshot_def map_wf_def)
  have "a \<in> fst ` set (index e) \<longleftrightarrow> (\<exists>i. m (a, i) \<noteq> None)" for a
  proof -
    have "m (a, i) \<noteq> None \<longleftrightarrow> idx_lookup (index e) a i \<noteq> None" for i
      using eng.has_law [OF assms, of a i] s(2) by (simp add: Contains_def)
    moreover have "a \<in> fst ` set (index e) \<longleftrightarrow> (\<exists>i. idx_lookup (index e) a i \<noteq> None)"
    proof
      assume "a \<in> fst ` set (index e)"
      then obtain mm where mm: "map_of (index e) a = Some mm" by (metis map_of_eq_None_iff option.exhaust)
      then obtain i v r where "mm = (i, v) # r" using inner [OF map_of_SomeD] by (metis neq_Nil_conv surj_pair)
      then show "\<exists>i. idx_lookup (index e) a i \<noteq> None" using mm by (auto simp: idx_lookup_def intro: exI [of _ i])
    next
      assume "\<exists>i. idx_lookup (index e) a i \<noteq> None"
      then show "a \<in> fst ` set (index e)" by (auto simp: idx_lookup_def map_of_eq_None_iff split: option.splits dest: map_of_SomeD intro: rev_image_eqI)
    qed
    ultimately show ?thesis by simp
  qed
  then have "fst ` set (index e) = {a. \<exists>i. m (a, i) \<noteq> None}" by (intro set_eqI) (simp only: mem_Collect_eq)
  then show "set (IterAgents e) = {a. \<exists>i. m (a, i) \<noteq> None}" using s(2) by (simp add: IterAgents_def iterSnapshot_def)
qed

section \<open>Listing the registry\<close>

definition registered :: "store \<Rightarrow> u64 \<Rightarrow> string option" where
  "registered m a = typed_at unmarshal_name m a RecAgentRegistry a"

text \<open>Every registry record lies at the id of its own domain and resolves to a name.\<close>

definition registry_tidy :: "store \<Rightarrow> bool" where
  "registry_tidy m \<longleftrightarrow> (\<forall>a i d. m (a, i) = Some (RecAgentRegistry, d) \<longrightarrow> i = a \<and> (\<exists>name. unmarshal_name d = Inr name \<and> name \<noteq> []))"

lemma list_names_tidy:
  assumes "engine_rep e m" "registry_tidy m" "\<forall>(a, i) \<in> set ps. \<exists>d. m (a, i) = Some (RecAgentRegistry, d)"
  shows "snd (list_names e ps out u) = u \<and> (map_wf out \<longrightarrow> map_wf (fst (list_names e ps out u)))
    \<and> (\<forall>a. map_of (fst (list_names e ps out u)) a = (if a \<in> fst ` set ps then registered m a else map_of out a))"
  using assms(3)
proof (induction ps arbitrary: out)
  case (Cons p ps)
  obtain a i where p: "p = (a, i)" by force
  then obtain d where d: "m (a, i) = Some (RecAgentRegistry, d)" using Cons.prems by auto
  then obtain name where name: "i = a" "unmarshal_name d = Inr name" "name \<noteq> []" using assms(2) unfolding registry_tidy_def by blast
  have "registry_name e a i = Inr name"
    using eng.read_law [OF assms(1), of a i] d name(2,3) by (simp add: registry_name_def)
  moreover have "registered m a = Some name" using d name by (simp add: registered_def typed_at_def)
  ultimately show ?case using Cons.IH [of "AList.update a name out"] Cons.prems p by (auto simp: map_wf_def distinct_update)
qed simp

lemma ListAgentRegistry_law:
  assumes "engine_rep e m" "registry_tidy m"
  shows "snd (ListAgentRegistry e) = None" "map_wf (fst (ListAgentRegistry e))" "map_of (fst (ListAgentRegistry e)) a = registered m a"
proof -
  let ?ps = "concat (map (\<lambda>a. map (Pair a) (IndexByType e a RecAgentRegistry)) (IterAgents e))"
  note ids = eng.ids_law [OF assms(1), of _ RecAgentRegistry]
  have ps: "\<forall>(a, i) \<in> set ?ps. \<exists>d. m (a, i) = Some (RecAgentRegistry, d)" using ids by auto
  note law = list_names_tidy [OF assms ps, of "[]" None]
  show "snd (ListAgentRegistry e) = None" "map_wf (fst (ListAgentRegistry e))"
    using law by (simp_all add: ListAgentRegistry_def map_wf_def)
  have "registered m a = None" if "a \<notin> fst ` set ?ps"
  proof (rule ccontr)
    assume "registered m a \<noteq> None"
    then obtain d where d: "m (a, a) = Some (RecAgentRegistry, d)" by (auto simp: registered_def typed_at_def split: option.splits prod.splits if_splits)
    then have "a \<in> set (IterAgents e)" "a \<in> set (IndexByType e a RecAgentRegistry)" using ids [of a] IterAgents_law(3) [OF assms(1)] by auto
    then have "(a, a) \<in> set ?ps" by auto
    then show False using that by force
  qed
  then show "map_of (fst (ListAgentRegistry e)) a = registered m a" using law by (auto simp: ListAgentRegistry_def)
qed

section \<open>The tables in memory\<close>

definition registry_inv :: "DB \<Rightarrow> store \<Rightarrow> bool" where
  "registry_inv db m \<longleftrightarrow> engine_rep (db_engine db) m \<and> registry_tidy m
     \<and> map_of (db_idToName db) = registered m
     \<and> (\<forall>n a. map_of (db_nameToID db) n = Some a \<longleftrightarrow> registered m a = Some n)"

lemma registry_invD:
  assumes "registry_inv db m"
  shows "engine_rep (db_engine db) m" "registry_tidy m" "map_of (db_idToName db) = registered m"
    "map_of (db_nameToID db) n = Some a \<longleftrightarrow> registered m a = Some n"
  using assms unfolding registry_inv_def by blast+

text \<open>Filing the listed ids one after another, when no name is listed twice.\<close>

lemma fold_file_name:
  assumes "\<forall>i \<in> set ids. map_of listed i \<noteq> None" "inj_on (\<lambda>i. the (map_of listed i)) (set ids \<union> A)" "distinct ids" "set ids \<inter> A = {}"
    "\<forall>i. map_of idn i = (if i \<in> A then map_of listed i else None)"
    "\<forall>n i. map_of nid n = Some i \<longleftrightarrow> i \<in> A \<and> map_of listed i = Some n" "\<forall>i \<in> A. map_of listed i \<noteq> None"
  shows "\<exists>idn' nid'. fold (file_name listed) ids (idn, nid) = (idn', nid')
    \<and> (\<forall>i. map_of idn' i = (if i \<in> set ids \<union> A then map_of listed i else None))
    \<and> (\<forall>n i. map_of nid' n = Some i \<longleftrightarrow> i \<in> set ids \<union> A \<and> map_of listed i = Some n)"
  using assms
proof (induction ids arbitrary: idn nid A)
  case (Cons j ids)
  obtain name where name: "map_of listed j = Some name" using Cons.prems(1) by auto
  have "map_of nid name = None"
  proof (rule ccontr)
    assume "map_of nid name \<noteq> None"
    then obtain i where "map_of nid name = Some i" by blast
    then have i: "i \<in> A" "map_of listed i = Some name" using Cons.prems(6) by blast+
    then have "i = j" using inj_onD [OF Cons.prems(2), of i j] name by simp
    then show False using i(1) Cons.prems(4) by simp
  qed
  then have step: "file_name listed j (idn, nid) = (AList.update j name idn, AList.update name j nid)"
    using name by (simp add: file_name_def)
  have other: "map_of listed i \<noteq> Some name" if "i \<in> A" for i
  proof
    assume "map_of listed i = Some name"
    then have "map_of nid name = Some i" using Cons.prems(6) that by blast
    then show False using \<open>map_of nid name = None\<close> by simp
  qed
  have "\<exists>idn' nid'. fold (file_name listed) ids (AList.update j name idn, AList.update name j nid) = (idn', nid')
    \<and> (\<forall>i. map_of idn' i = (if i \<in> set ids \<union> insert j A then map_of listed i else None))
    \<and> (\<forall>n i. map_of nid' n = Some i \<longleftrightarrow> i \<in> set ids \<union> insert j A \<and> map_of listed i = Some n)"
  proof (rule Cons.IH)
    show "inj_on (\<lambda>i. the (map_of listed i)) (set ids \<union> insert j A)" using Cons.prems(2) by simp
    show "\<forall>i. map_of (AList.update j name idn) i = (if i \<in> insert j A then map_of listed i else None)"
      using Cons.prems(5) name by simp
    show "\<forall>n i. map_of (AList.update name j nid) n = Some i \<longleftrightarrow> i \<in> insert j A \<and> map_of listed i = Some n"
    proof (intro allI)
      fix n i
      show "map_of (AList.update name j nid) n = Some i \<longleftrightarrow> i \<in> insert j A \<and> map_of listed i = Some n"
      proof (cases "n = name")
        case True
        then show ?thesis using name other by auto
      next
        case False
        then have "map_of (AList.update name j nid) n = Some i \<longleftrightarrow> i \<in> A \<and> map_of listed i = Some n" using Cons.prems(6) by simp
        then show ?thesis using False name by auto
      qed
    qed
    show "\<forall>i \<in> set ids. map_of listed i \<noteq> None" "distinct ids" "set ids \<inter> insert j A = {}" using Cons.prems(1,3,4) by simp_all
    show "\<forall>i \<in> insert j A. map_of listed i \<noteq> None" using Cons.prems(7) name by simp
  qed
  then show ?case by (simp add: step)
qed simp

lemma loadTenantRegistry_law:
  assumes "engine_rep e m" "registry_tidy m" "\<And>a b n. registered m a = Some n \<Longrightarrow> registered m b = Some n \<Longrightarrow> a = b"
  shows "\<exists>idToName nameToID. loadTenantRegistry e = ((idToName, nameToID), None) \<and> map_of idToName = registered m
    \<and> (\<forall>n a. map_of nameToID n = Some a \<longleftrightarrow> registered m a = Some n)"
proof -
  let ?l = "fst (ListAgentRegistry e)" and ?ids = "sort (map fst (fst (ListAgentRegistry e)))"
  note law = ListAgentRegistry_law [OF assms(1,2)]
  have keys: "set ?ids = {i. map_of ?l i \<noteq> None}" by (auto simp: map_of_eq_None_iff dom_map_of_conv_image_fst [symmetric])
  have inj: "inj_on (\<lambda>i. the (map_of ?l i)) (set ?ids \<union> {})" using assms(3) unfolding keys law(3) by (auto simp: inj_on_def)
  have "\<exists>idn' nid'. fold (file_name ?l) ?ids ([], []) = (idn', nid')
    \<and> (\<forall>i. map_of idn' i = (if i \<in> set ?ids \<union> {} then map_of ?l i else None))
    \<and> (\<forall>n i. map_of nid' n = Some i \<longleftrightarrow> i \<in> set ?ids \<union> {} \<and> map_of ?l i = Some n)"
    by (rule fold_file_name [OF _ inj]) (use law(2) keys in \<open>auto simp: map_wf_def\<close>)
  then obtain idn nid where f: "fold (file_name ?l) ?ids ([], []) = (idn, nid)"
    "\<And>i. map_of idn i = (if map_of ?l i \<noteq> None then map_of ?l i else None)"
    "\<And>n i. map_of nid n = Some i \<longleftrightarrow> map_of ?l i \<noteq> None \<and> map_of ?l i = Some n"
    unfolding keys by auto
  have "loadTenantRegistry e = ((idn, nid), None)" using f(1) law(1) by (cases "ListAgentRegistry e") (simp add: loadTenantRegistry_def)
  moreover have "map_of idn = registered m" using f(2) law(3) by (auto simp: fun_eq_iff)
  moreover have "map_of nid n = Some a \<longleftrightarrow> registered m a = Some n" for n a using f(3) law(3) by auto
  ultimately show ?thesis by blast
qed

section \<open>Allocation\<close>

definition usable :: "DB \<Rightarrow> u64 \<Rightarrow> bool" where
  "usable db i \<longleftrightarrow> i \<noteq> DefaultAgentID \<and> i \<noteq> SharedPoolAgentID \<and> map_of (db_idToName db) i = None"

lemma allocate_first_usable:
  assumes "\<forall>b \<in> set bs. \<not> usable db (get_u64 b)" "usable db (get_u64 b)"
  shows "allocate_id name (map Inr bs @ Inr b # rest) db = (case WriteAgentRegistry (get_u64 b) name (db_engine db) of
             (Inl err, engine) \<Rightarrow> Some (Inl err, db\<lparr>db_engine := engine\<rparr>)
           | (Inr _, engine) \<Rightarrow> Some (Inr (get_u64 b), db\<lparr>db_engine := engine, db_nameToID := AList.update name (get_u64 b) (db_nameToID db),
               db_idToName := AList.update (get_u64 b) name (db_idToName db)\<rparr>))"
  using assms(1) by (induction bs) (use assms(2) in \<open>auto simp: usable_def Let_def\<close>)

lemma write_registry_law:
  assumes "engine_rep e m" "length name \<le> MaxSubAgentNameBytes" "engine_room e (2000 + n)"
  shows "\<exists>e'. WriteAgentRegistry i name e = (Inr (), e') \<and> engine_room e' n
    \<and> engine_rep e' (m((i, i) \<mapsto> record_of marshal_name RecAgentRegistry name))"
proof -
  let ?r = "entry_for marshal_name i RecAgentRegistry (\<lambda>_. i) name"
  have size: "length (r_data ?r) < 1600"
    using name_size [of name] assms(2) by (simp add: MaxSubAgentNameBytes_def entry_for_def record_of_def size_of_def marshal_name_def)
  have "?r = \<lparr>r_agent = i, r_type = RecAgentRegistry, r_id = i, r_data = r_data ?r\<rparr>" by (simp add: entry_for_def)
  moreover have "(i, RecAgentRegistry, i, r_data ?r) \<noteq> (0, 0, 0, [])" by (simp add: RecAgentRegistry_def)
  ultimately have ok: "\<forall>r \<in> set [?r]. entry_ok r" using entry_ok_iff [of "r_data ?r" i RecAgentRegistry i] size by simp
  have "engine_room e (batch_size [?r] + n)" using assms(3) size by (simp add: engine_room_def RecordHeaderSize_def)
  with eng.write_law [OF assms(1) _ ok] obtain out e' where
    e': "WriteRecordBatch [?r] e = (Inr out, e')" "engine_rep e' (put_all [?r] m)" "engine_room e' n" by blast
  have "put_all [?r] m = m((i, i) \<mapsto> record_of marshal_name RecAgentRegistry name)"
    by (simp add: put_entry_def entry_for_def record_of_def)
  moreover have "WriteAgentRegistry i name e = (Inr (), e')"
    using e'(1) by (simp add: WriteAgentRegistry_def marshal_name_def WriteRecord_batch entry_for_def record_of_def)
  ultimately show ?thesis using e'(2,3) by auto
qed

lemma registered_write:
  assumes "utf8 name"
  shows "registered (m((i, i) \<mapsto> record_of marshal_name RecAgentRegistry name)) = (registered m)(i \<mapsto> name)"
proof
  fix a
  show "registered (m((i, i) \<mapsto> record_of marshal_name RecAgentRegistry name)) a = ((registered m)(i \<mapsto> name)) a"
    using tenant.typed_record_of [OF assms, of "m((i, i) \<mapsto> record_of marshal_name RecAgentRegistry name)" i i RecAgentRegistry]
    by (auto simp: registered_def typed_at_def)
qed

lemma registry_tidy_write:
  assumes "registry_tidy m" "utf8 name" "name \<noteq> []"
  shows "registry_tidy (m((i, i) \<mapsto> record_of marshal_name RecAgentRegistry name))"
  using assms tenant.round_trip [OF assms(2)] by (auto simp: registry_tidy_def record_of_def)

lemma ensureRegistered_law:
  assumes inv: "registry_inv db m" "\<not> db_closed db" and name: "utf8 name" "name \<noteq> []" "length name \<le> MaxSubAgentNameBytes"
    and room: "engine_room (db_engine db) (2000 + n)"
    and draws: "\<forall>b \<in> set bs. \<not> usable db (get_u64 b)" "usable db (get_u64 b)"
  shows "\<exists>i db' m'. ensureRegistered name (map Inr bs @ Inr b # rest) db = (Some (Inr i, db')) \<and> registry_inv db' m' \<and> \<not> db_closed db'
    \<and> engine_room (db_engine db') n
    \<and> (case map_of (db_nameToID db) name of Some j \<Rightarrow> i = j \<and> db' = db \<and> m' = m
        | None \<Rightarrow> i = get_u64 b \<and> m' = m((i, i) \<mapsto> record_of marshal_name RecAgentRegistry name)
            \<and> map_of (db_nameToID db') = (map_of (db_nameToID db))(name \<mapsto> i) \<and> map_of (db_idToName db') = (map_of (db_idToName db))(i \<mapsto> name))"
proof (cases "map_of (db_nameToID db) name")
  case (Some j)
  have "engine_room (db_engine db) n" using room by (simp add: engine_room_def)
  then show ?thesis using Some inv by (auto simp: ensureRegistered_def)
next
  case None
  note r = registry_invD [OF inv(1)]
  let ?i = "get_u64 b" and ?m = "m((get_u64 b, get_u64 b) \<mapsto> record_of marshal_name RecAgentRegistry name)"
  obtain e' where e': "WriteAgentRegistry ?i name (db_engine db) = (Inr (), e')" "engine_room e' n" "engine_rep e' ?m"
    using write_registry_law [OF r(1) name(3) room] by blast
  let ?db = "db\<lparr>db_engine := e', db_nameToID := AList.update name ?i (db_nameToID db), db_idToName := AList.update ?i name (db_idToName db)\<rparr>"
  have run: "ensureRegistered name (map Inr bs @ Inr b # rest) db = Some (Inr ?i, ?db)"
    using None inv(2) ListAgentRegistry_law(1) [OF r(1,2)] allocate_first_usable [OF draws] e'(1) by (simp add: ensureRegistered_def)
  have free: "registered m ?i = None" using draws(2) r(3) by (simp add: usable_def)
  have "registered m a \<noteq> Some name" for a using r(4) None by (metis option.distinct(1))
  then have "map_of (db_nameToID ?db) k = Some a \<longleftrightarrow> registered ?m a = Some k" for k a
    using r(4) free unfolding registered_write [OF name(1)] by auto
  then have "registry_inv ?db ?m"
    using e'(3) registry_tidy_write [OF r(2) name(1,2)] r(3) by (simp add: registry_inv_def registered_write [OF name(1)])
  then show ?thesis using run None inv(2) e'(2) by (intro exI [of _ ?i] exI [of _ ?db] exI [of _ ?m]) simp
qed

section \<open>Names that are not valid UTF-8\<close>

text \<open>The table of names holds only names some listed record resolves to.\<close>

lemma file_name_keys:
  "map_of (snd (fold (file_name listed) ids tables)) n \<noteq> None \<Longrightarrow> map_of (snd tables) n \<noteq> None \<or> (\<exists>i \<in> set ids. the (map_of listed i) = n)"
proof (induction ids arbitrary: tables)
  case (Cons i ids)
  then have "map_of (snd (file_name listed i tables)) n \<noteq> None \<or> (\<exists>i \<in> set ids. the (map_of listed i) = n)" by simp
  moreover have "map_of (snd (file_name listed i tables)) n \<noteq> None \<Longrightarrow> map_of (snd tables) n \<noteq> None \<or> the (map_of listed i) = n"
    by (cases tables) (auto simp: file_name_def Let_def split: if_splits)
  ultimately show ?case by auto
qed simp

lemma unlisted_name:
  assumes "engine_rep e m" "registry_tidy m" "\<And>a. registered m a \<noteq> Some n"
  shows "map_of (snd (fst (loadTenantRegistry e))) n = None"
proof (rule ccontr)
  let ?l = "fst (ListAgentRegistry e)"
  assume "map_of (snd (fst (loadTenantRegistry e))) n \<noteq> None"
  then have "map_of (snd (fold (file_name ?l) (sort (map fst ?l)) ([], []))) n \<noteq> None"
    by (cases "ListAgentRegistry e") (simp add: loadTenantRegistry_def)
  from file_name_keys [OF this] obtain i where "i \<in> fst ` set ?l" "the (map_of ?l i) = n" by auto
  then have "map_of ?l i = Some n" by (metis map_of_eq_None_iff option.collapse)
  then show False using ListAgentRegistry_law(3) [OF assms(1,2)] assms(3) by simp
qed

end
