(* ===== verification/Door_Properties.thy ===== *)
theory Door_Properties
  imports Agents_Correct Open_Handle Dream Sample_Store
begin

text \<open>
  What the doors of a file promise: a sub-agent keeps its id under its name for good, unless the name is one the file
  cannot hold.
\<close>

section \<open>Names and ids\<close>

lemma registered_inj: "registry_inv db m \<Longrightarrow> registered m a = Some n \<Longrightarrow> registered m b = Some n \<Longrightarrow> a = b"
  using registry_invD(4) by (metis option.inject)

lemma tables_from_records:
  assumes "registry_inv db m" "engine_rep e m"
  shows "\<exists>ids names. loadTenantRegistry e = ((ids, names), None) \<and> map_of ids = map_of (db_idToName db) \<and> map_of names = map_of (db_nameToID db)"
proof -
  note r = registry_invD [OF assms(1)]
  have inj: "\<And>a b n. registered m a = Some n \<Longrightarrow> registered m b = Some n \<Longrightarrow> a = b" using registered_inj [OF assms(1)] by blast
  have "\<exists>ids names. loadTenantRegistry e = ((ids, names), None) \<and> map_of ids = registered m
      \<and> (\<forall>n a. map_of names n = Some a \<longleftrightarrow> registered m a = Some n)"
    by (rule loadTenantRegistry_law [OF assms(2) r(2)]) (rule inj)
  then obtain ids names where l: "loadTenantRegistry e = ((ids, names), None)" "map_of ids = registered m"
    "\<And>n a. map_of names n = Some a \<longleftrightarrow> registered m a = Some n" by blast
  have "map_of names n = map_of (db_nameToID db) n" for n
    using l(3) [of n] r(4) [of n] by (metis not_None_eq)
  then show ?thesis using l(1,2) r(3) by auto
qed

lemma OpenDB_registered:
  assumes "registry_inv db m" "engine_rep e m" "Open f = (Inr e, efile e)" "HasProfileL0 dec H e DefaultAgentID = Inr True"
    and "path \<noteq> ''''" "LlmConfig_Validate llm = Inr ()" "Defaults_Validate defaults = Inr ()"
  shows "\<exists>db'. OpenDB tojson dec H now path (Regular f) fresh llm defaults None = Inr db' \<and> registry_inv db' m \<and> \<not> db_closed db'
    \<and> map_of (db_nameToID db') = map_of (db_nameToID db)"
proof -
  obtain ids names where l: "loadTenantRegistry e = ((ids, names), None)" "map_of ids = map_of (db_idToName db)" "map_of names = map_of (db_nameToID db)"
    using tables_from_records [OF assms(1,2)] by blast
  let ?db = "assemble e (Normalized defaults)"
  have "OpenDB tojson dec H now path (Regular f) fresh llm defaults None = Inr ?db"
    using assms(3-7) by (simp add: OpenDB_def openEngine_def Let_def)
  moreover have "registry_inv ?db m" "\<not> db_closed ?db" "map_of (db_nameToID ?db) = map_of (db_nameToID db)"
    using l assms(1,2) by (simp_all add: assemble_def registry_inv_def)
  ultimately show ?thesis by blast
qed

text \<open>
  C11. A sub-agent's name leads to one id for good. Registering a name that is valid UTF-8 answers the id it
  already has, or a drawn id that is neither reserved nor taken; no other name moves; every later call answers the
  same id whatever it draws; and a database opened on a file that holds these records has the same table.
\<close>

theorem sub_agent_keeps_its_id:
  assumes "registry_inv db m" "\<not> db_closed db" "utf8 name" "name \<noteq> []" "length name \<le> MaxSubAgentNameBytes"
    "engine_room (db_engine db) 2000" "\<forall>b \<in> set bs. \<not> usable db (get_u64 b)" "usable db (get_u64 b)"
  shows "\<exists>i db' m'. ensureRegistered name (map Inr bs @ Inr b # rest) db = Some (Inr i, db') \<and> registry_inv db' m'
    \<and> (map_of (db_nameToID db) name = Some i \<or> map_of (db_nameToID db) name = None
        \<and> i \<noteq> DefaultAgentID \<and> i \<noteq> SharedPoolAgentID \<and> map_of (db_idToName db) i = None)
    \<and> map_of (db_nameToID db') = (map_of (db_nameToID db))(name \<mapsto> i)
    \<and> (\<forall>draws. ensureRegistered name draws db' = Some (Inr i, db'))
    \<and> (\<forall>f e dec H tojson now path fresh llm defaults. Open f = (Inr e, efile e) \<and> engine_rep e m' \<and> HasProfileL0 dec H e DefaultAgentID = Inr True
          \<and> path \<noteq> '''' \<and> LlmConfig_Validate llm = Inr () \<and> Defaults_Validate defaults = Inr ()
        \<longrightarrow> (\<exists>db2. OpenDB (tojson :: ('e, 'm) ProfileSlot \<Rightarrow> goerr + bytes) dec H now path (Regular f) fresh llm defaults None = Inr db2
          \<and> map_of (db_nameToID db2) = map_of (db_nameToID db')))"
proof -
  have room: "engine_room (db_engine db) (2000 + 0)" using assms(6) by simp
  obtain i db' m' where i: "ensureRegistered name (map Inr bs @ Inr b # rest) db = Some (Inr i, db')" "registry_inv db' m'" "\<not> db_closed db'"
    "case map_of (db_nameToID db) name of Some j \<Rightarrow> i = j \<and> db' = db \<and> m' = m
      | None \<Rightarrow> i = get_u64 b \<and> m' = m((i, i) \<mapsto> record_of marshal_name RecAgentRegistry name)
            \<and> map_of (db_nameToID db') = (map_of (db_nameToID db))(name \<mapsto> i) \<and> map_of (db_idToName db') = (map_of (db_idToName db))(i \<mapsto> name)"
    using ensureRegistered_law [OF assms(1-5) room assms(7,8)] by blast
  have id: "map_of (db_nameToID db) name = Some i \<or> map_of (db_nameToID db) name = None
      \<and> i \<noteq> DefaultAgentID \<and> i \<noteq> SharedPoolAgentID \<and> map_of (db_idToName db) i = None"
    using i(4) assms(8) by (auto simp: usable_def split: option.splits)
  have table: "map_of (db_nameToID db') = (map_of (db_nameToID db))(name \<mapsto> i)"
    using i(4) by (auto split: option.splits)
  then have again: "\<forall>draws. ensureRegistered name draws db' = Some (Inr i, db')" using i(3) by (simp add: ensureRegistered_def)
  show ?thesis using i(1,2) id table again OpenDB_registered [OF i(2)] by blast
qed

definition bare_handle :: "StorageEngine \<Rightarrow> DB" where
  "bare_handle e = \<lparr>db_engine = e, db_closed = False, db_agents = [], db_nameToID = [], db_idToName = [], db_LastActiveAt = [],
     db_DreamInFlight = (\<lambda>_. {}), db_AgentIdleTTLMs = 0, db_SceneDreamTopicThreshold = 0\<rparr>"

theorem sub_agent_keeps_its_id_witness:
  "\<exists>e db'. Create blank_file = (Inr e, efile e)
     \<and> ensureRegistered ''kid'' [Inr [0, 0, 0, 0, 0, 0, 0, 0], Inr [7, 0, 0, 0, 0, 0, 0, 0]] (bare_handle e) = Some (Inr 7, db')
     \<and> (\<forall>draws. ensureRegistered ''kid'' draws db' = Some (Inr 7, db'))"
proof -
  let ?zero = "[0, 0, 0, 0, 0, 0, 0, 0] :: bytes" and ?seven = "[7, 0, 0, 0, 0, 0, 0, 0] :: bytes"
  obtain e where e: "Create blank_file = (Inr e, efile e)" "engine_rep e Map.empty" "engine_room e 2000"
    using fresh_rep [of 2000] by auto
  have inv: "registry_inv (bare_handle e) Map.empty" and live: "\<not> db_closed (bare_handle e)"
    using e(2) by (simp_all add: registry_inv_def bare_handle_def registry_tidy_def registered_def typed_at_def fun_eq_iff)
  have draws: "get_u64 ?zero = DefaultAgentID" "get_u64 ?seven = 7" by code_simp+
  have use: "\<forall>b \<in> set [?zero]. \<not> usable (bare_handle e) (get_u64 b)" "usable (bare_handle e) (get_u64 ?seven)"
    using draws by (simp_all add: usable_def bare_handle_def DefaultAgentID_def SharedPoolAgentID_def)
  have room: "engine_room (db_engine (bare_handle e)) 2000" using e(3) by (simp add: bare_handle_def)
  have name: "utf8 ''kid''" by code_simp
  have short: "length ''kid'' \<le> MaxSubAgentNameBytes" by (simp add: MaxSubAgentNameBytes_def)
  obtain i db' where i: "ensureRegistered ''kid'' (map Inr [?zero] @ Inr ?seven # []) (bare_handle e) = Some (Inr i, db')"
    "\<forall>draws. ensureRegistered ''kid'' draws db' = Some (Inr i, db')"
    using sub_agent_keeps_its_id [OF inv live name _ short room use] by blast
  moreover have "i = 7"
  proof -
    have more: "engine_room (db_engine (bare_handle e)) (2000 + 0)" using room by simp
    have unnamed: "map_of (db_nameToID (bare_handle e)) ''kid'' = None" by (simp add: bare_handle_def)
    obtain j db'' where "ensureRegistered ''kid'' (map Inr [?zero] @ Inr ?seven # []) (bare_handle e) = Some (Inr j, db'')" "j = get_u64 ?seven"
      using ensureRegistered_law [OF inv live name _ short more use, of "[]", unfolded unnamed] by auto
    then show ?thesis using i(1) draws(2) by simp
  qed
  ultimately show ?thesis using e(1) by auto
qed

section \<open>A name the file cannot hold\<close>

definition broken_name :: string where "broken_name = ''kid'' @ [CHR 0xFF]"

lemmas json_eval = cval_def between_def rune_len_def

lemma broken_name_esc: "esc broken_name = ''kid'' @ (CHR 0x5C # ''ufffd'')"
  by (simp add: broken_name_def esc.simps json_eval esc1_def)

lemma broken_name_unesc:
  "unesc (''kid'' @ (CHR 0x5C # ''ufffd'') @ [CHR 0x22]) = Some (''kid'' @ [CHR 0xEF, CHR 0xBF, CHR 0xBD], [])"
  by (simp add: unesc.simps json_eval simple_escape_def hex_of_def utf8_enc_def push_def chr_def) code_simp

lemma broken_name_parse: "json_parse (enc_val (JStr broken_name)) = Some (JStr (''kid'' @ [CHR 0xEF, CHR 0xBF, CHR 0xBD]))"
proof -
  have "skip_ws (quote broken_name) = quote broken_name" by (simp add: skip_ws_def is_ws_def quote_def)
  then have "p_val (Suc n) (quote broken_name) = Some (JStr (''kid'' @ [CHR 0xEF, CHR 0xBF, CHR 0xBD]), [])" for n
    using broken_name_unesc by (simp add: quote_def broken_name_esc)
  then show ?thesis by (simp add: json_parse_def skip_ws_def)
qed

lemma broken_name_json: "marshal_name broken_name = Inr d \<Longrightarrow> unmarshal_name d = Inr (''kid'' @ [CHR 0xEF, CHR 0xBF, CHR 0xBD])"
  using broken_name_parse by (auto simp: marshal_name_def unmarshal_name_def)

text \<open>
  \<^verbatim>\<open>json.Marshal\<close> replaces bytes that are not valid UTF-8, so such a name is answered an id now, and after the next
  open no domain carries it: asking for it again opens a second, empty memory.
\<close>

theorem broken_name_is_lost:
  assumes "registry_inv db m" "\<not> db_closed db" "map_of (db_nameToID db) broken_name = None" "engine_room (db_engine db) 2000" "usable db (get_u64 b)"
  shows "\<exists>i db' m'. ensureRegistered broken_name (Inr b # rest) db = Some (Inr i, db') \<and> map_of (db_nameToID db') broken_name = Some i
    \<and> engine_rep (db_engine db') m' \<and> (\<forall>e. engine_rep e m' \<longrightarrow> map_of (snd (fst (loadTenantRegistry e))) broken_name = None)"
proof -
  note r = registry_invD [OF assms(1)]
  let ?i = "get_u64 b" and ?m = "m((get_u64 b, get_u64 b) \<mapsto> record_of marshal_name RecAgentRegistry broken_name)"
  have len: "length broken_name \<le> MaxSubAgentNameBytes" by (simp add: broken_name_def MaxSubAgentNameBytes_def)
  have "engine_room (db_engine db) (2000 + 0)" using assms(4) by simp
  from write_registry_law [OF r(1) len this] obtain e' where
    e': "WriteAgentRegistry ?i broken_name (db_engine db) = (Inr (), e')" "engine_rep e' ?m" by blast
  let ?db = "db\<lparr>db_engine := e', db_nameToID := AList.update broken_name ?i (db_nameToID db), db_idToName := AList.update ?i broken_name (db_idToName db)\<rparr>"
  have run: "ensureRegistered broken_name (Inr b # rest) db = Some (Inr ?i, ?db)"
    using assms(2,3) ListAgentRegistry_law(1) [OF r(1,2)] allocate_first_usable [of "[]" db b broken_name rest] assms(5) e'(1)
    by (simp add: ensureRegistered_def)
  obtain d where d: "marshal_name broken_name = Inr d" by (simp add: marshal_name_def)
  have rec: "record_of marshal_name RecAgentRegistry broken_name = (RecAgentRegistry, d)" by (simp add: record_of_def d)
  note json = broken_name_json [OF d]
  have "registry_tidy ?m" using r(2) json unfolding rec by (auto simp: registry_tidy_def)
  moreover have "registered ?m a \<noteq> Some broken_name" for a
  proof (cases "a = ?i")
    case True
    then show ?thesis unfolding rec using json by (simp add: registered_def typed_at_def broken_name_def)
  next
    case False
    then have "registered ?m a = registered m a" by (simp add: registered_def typed_at_def)
    then show ?thesis using r(4) [of broken_name a] assms(3) by simp
  qed
  ultimately have "\<forall>e. engine_rep e ?m \<longrightarrow> map_of (snd (fst (loadTenantRegistry e))) broken_name = None" using unlisted_name by blast
  then show ?thesis using run e'(2) by (intro exI [of _ ?i] exI [of _ ?db] exI [of _ ?m]) simp
qed

end
