(* ===== verification/Llm_Provider.thy ===== *)
theory Llm_Provider
  imports Config Domain_Context Go_Text
begin

text \<open>
  \<^verbatim>\<open>internal/llm\<close>: the transport to the language model. The HTTP client is a library; what it answers to a request,
  given all requests sent before, is the argument \<open>create\<close>, and whether the caller's context ends during a wait is
  the argument \<open>gone\<close>. The requests sent are the state, so a call says how often it went over the network.
\<close>

definition defaultTimeoutSecs :: i64 where "defaultTimeoutSecs = 120"
definition defaultMaxOutputTokens :: i64 where "defaultMaxOutputTokens = 8192"

text \<open>The settings the HTTP client is built from stand beside the two fields of its wrapper.\<close>

record Provider =
  pv_APIKey :: string
  pv_BaseURL :: string
  pv_Timeout :: i64
  pv_model :: string
  pv_maxOutputTokens :: i64

definition budgets :: "LlmConfig \<Rightarrow> i64 \<times> i64" where
  "budgets llm =
     ((if lc_TimeoutSecs llm \<le> 0 then defaultTimeoutSecs else lc_TimeoutSecs llm),
      (if lc_MaxOutputTokens llm \<le> 0 then defaultMaxOutputTokens else lc_MaxOutputTokens llm))"

definition normalizeBaseURL :: "string \<Rightarrow> string" where
  "normalizeBaseURL raw =
     (let u = TrimRight (TrimSpace raw) ''/'';
          u = (case CutSuffix u ''/chat/completions'' of Some before \<Rightarrow> before | None \<Rightarrow> u)
      in if \<not> HasSuffix u ''/v1'' then u @ ''/v1'' else u)"

definition New :: "LlmConfig \<Rightarrow> Provider" where
  "New llm = (case budgets llm of (timeoutSecs, maxTokens) \<Rightarrow>
     \<lparr>pv_APIKey = lc_APIKey llm, pv_BaseURL = normalizeBaseURL (lc_APIURL llm), pv_Timeout = i64_wrap (timeoutSecs * 10 ^ 9),
      pv_model = lc_Model llm, pv_maxOutputTokens = maxTokens\<rparr>)"

section \<open>One call\<close>

record ChatRequest =
  rq_Model :: string
  rq_System :: string
  rq_User :: string
  rq_MaxTokens :: i64

text \<open>
  A failed request says whether the caller's context is gone and which HTTP status it met, 0 when none; an answered
  one lists its choices, each with whether the output ceiling cut it off.
\<close>

datatype http_answer = Failed bool nat | Choices "(string \<times> bool) list"

definition retryable :: "nat \<Rightarrow> bool" where
  "retryable status \<longleftrightarrow> status \<in> {429, 500, 502, 503, 504}"

fun attempts :: "(ChatRequest list \<Rightarrow> http_answer) \<Rightarrow> (ChatRequest list \<Rightarrow> bool) \<Rightarrow> ChatRequest \<Rightarrow> nat \<Rightarrow> bool \<Rightarrow> goerr option \<Rightarrow> ChatRequest list
    \<Rightarrow> (goerr + string) \<times> ChatRequest list" where
  "attempts create gone req 0 retried lastErr sent = ((case lastErr of None \<Rightarrow> Inr '''' | Some err \<Rightarrow> Inl err), sent)"
| "attempts create gone req (Suc left) retried lastErr sent =
     (if retried \<and> gone sent then (Inl (Error ErrCancelled (Some Plain_Err)), sent)
      else let sent = sent @ [req]
        in case create sent of
            Failed cancelled status \<Rightarrow>
              if cancelled then (Inl (Error ErrCancelled (Some Plain_Err)), sent)
              else if status > 0 then
                (if \<not> retryable status then (Inl (NewError ErrLLM), sent)
                 else attempts create gone req left True (Some (NewError ErrLLM)) sent)
              else (Inl (Error ErrLLM (Some Plain_Err)), sent)
          | Choices [] \<Rightarrow> (Inl (NewError ErrLLM), sent)
          | Choices ((content, clipped) # _) \<Rightarrow>
              if clipped then (Inl (Error ErrLLM (Some ErrTruncated)), sent) else (Inr content, sent))"

definition Chat :: "(ChatRequest list \<Rightarrow> http_answer) \<Rightarrow> (ChatRequest list \<Rightarrow> bool) \<Rightarrow> Provider \<Rightarrow> string \<Rightarrow> string \<Rightarrow> i64 \<Rightarrow> ChatRequest list
    \<Rightarrow> (goerr + string) \<times> ChatRequest list" where
  "Chat create gone p system user maxTokens sent =
     attempts create gone \<lparr>rq_Model = pv_model p, rq_System = system, rq_User = user, rq_MaxTokens = maxTokens\<rparr> 3 False None sent"

definition ChatWithRetry :: "(ChatRequest list \<Rightarrow> http_answer) \<Rightarrow> (ChatRequest list \<Rightarrow> bool) \<Rightarrow> Provider \<Rightarrow> string \<Rightarrow> string \<Rightarrow> i64 \<Rightarrow> i64 \<Rightarrow> ChatRequest list
    \<Rightarrow> (goerr + string) \<times> ChatRequest list" where
  "ChatWithRetry create gone p system user primaryMax retryMax sent =
     (case Chat create gone p system user primaryMax sent of
        (Inr response, sent) \<Rightarrow> (Inr response, sent)
      | (Inl err, sent) \<Rightarrow> if \<not> is_truncated err \<or> primaryMax \<ge> retryMax then (Inl err, sent)
          else Chat create gone p system user retryMax sent)"

definition MaxOutputTokens :: "Provider \<Rightarrow> i64" where "MaxOutputTokens p = pv_maxOutputTokens p"

section \<open>What a call does\<close>

text \<open>The errors a call ends in carry a code.\<close>

definition call_error :: "goerr \<Rightarrow> bool" where
  "call_error err \<longleftrightarrow> CodeOf err = ErrLLM \<or> CodeOf err = ErrCancelled"

lemma one_attempt:
  "\<exists>xs. sent = sent @ xs \<and> length xs \<le> n \<and> set xs \<subseteq> {req}" "0 < n \<Longrightarrow> \<exists>xs. sent @ [req] = sent @ xs \<and> length xs \<le> n \<and> set xs \<subseteq> {req}"
  by (simp, intro exI [of _ "[req]"], simp)

lemma attempts_sent:
  "attempts create gone req n retried lastErr sent = (out, sent') \<Longrightarrow> \<exists>xs. sent' = sent @ xs \<and> length xs \<le> n \<and> set xs \<subseteq> {req}"
proof (induction n arbitrary: retried lastErr sent)
  case (Suc n)
  show ?case
  proof (cases "attempts create gone req n True (Some (NewError ErrLLM)) (sent @ [req]) = (out, sent')")
    case True
    then obtain xs where "sent' = (sent @ [req]) @ xs" "length xs \<le> n" "set xs \<subseteq> {req}" using Suc.IH by blast
    then show ?thesis by (intro exI [of _ "req # xs"]) simp
  next
    case False
    then have "sent' = sent \<or> sent' = sent @ [req]"
      using Suc.prems by (auto simp: Let_def split: if_splits http_answer.splits list.splits)
    then show ?thesis using one_attempt [where sent = sent and n = "Suc n" and req = req] by auto
  qed
qed simp

lemma attempts_error:
  "attempts create gone req n retried lastErr sent = (Inl err, sent') \<Longrightarrow> (\<And>e. lastErr = Some e \<Longrightarrow> call_error e) \<Longrightarrow> call_error err"
proof (induction n arbitrary: retried lastErr sent)
  case (Suc n)
  show ?case
  proof (cases "attempts create gone req n True (Some (NewError ErrLLM)) (sent @ [req]) = (Inl err, sent')")
    case True
    then show ?thesis by (rule Suc.IH) (simp add: call_error_def)
  next
    case False
    then show ?thesis using Suc.prems(1) by (auto simp: Let_def call_error_def split: if_splits http_answer.splits list.splits)
  qed
qed (auto split: option.splits)

lemma Chat_law:
  assumes "Chat create gone p system user maxTokens sent = (out, sent')"
  shows "\<exists>xs. sent' = sent @ xs \<and> length xs \<le> 3 \<and> (\<forall>x \<in> set xs. rq_System x = system \<and> rq_User x = user \<and> rq_MaxTokens x = maxTokens)"
    "out = Inl err \<Longrightarrow> call_error err"
proof -
  show "\<exists>xs. sent' = sent @ xs \<and> length xs \<le> 3 \<and> (\<forall>x \<in> set xs. rq_System x = system \<and> rq_User x = user \<and> rq_MaxTokens x = maxTokens)"
    using attempts_sent [OF assms [unfolded Chat_def]] by fastforce
  show "out = Inl err \<Longrightarrow> call_error err"
    using attempts_error assms unfolding Chat_def by blast
qed

end
