(* ===== verification/Profile_Properties.thy ===== *)
theory Profile_Properties
  imports Agents_Correct Llm_Provider Dream
begin

text \<open>
  What a host's settings and edits may not do: rewriting a profile never moves the name a sub-agent is opened by,
  nor what a dream distilled, and a checked retention window never wraps around.
\<close>

section \<open>Profiles\<close>

text \<open>A host's edits of one profile, each with the time it is made at.\<close>

definition host_edits :: "(('e, 'm) ProfileSlot \<Rightarrow> goerr + bytes) \<Rightarrow> (bytes \<Rightarrow> goerr + ('e, 'm) ProfileSlot) \<Rightarrow> (string \<Rightarrow> u64) \<Rightarrow> u64
    \<Rightarrow> (i64 \<times> ('e, 'm) ProfileSlot) list \<Rightarrow> StorageEngine \<Rightarrow> StorageEngine" where
  "host_edits tojson dec H a = fold (\<lambda>(now, slot) e. snd (UpdateL0_body tojson dec H now a slot e))"

definition edited :: "('e, 'm) ProfileSlot \<Rightarrow> i64 \<Rightarrow> ('e, 'm) ProfileSlot \<Rightarrow> ('e, 'm) ProfileSlot" where
  "edited cur now slot = (keep_distilled cur slot)\<lparr>pr_UpdatedAtMs := now\<rparr>"

text \<open>The edits a profile takes: they have a name, and a sub-agent's is the one it has.\<close>

definition accepts :: "('e, 'm) ProfileSlot \<Rightarrow> ('e, 'm) ProfileSlot \<Rightarrow> bool" where
  "accepts cur slot \<longleftrightarrow> TrimSpace (pr_Name slot) \<noteq> [] \<and> (pr_AgentType cur = AgentTypeSub \<longrightarrow> pr_Name slot = pr_Name cur)"

lemma UpdateL0_refused:
  "GetProfileL0 dec H e a = Inr cur \<Longrightarrow> \<not> accepts cur slot \<Longrightarrow> UpdateL0_body tojson dec H now a slot e = (Inl (NewError ErrInvalidQuery), e)"
  by (auto simp: UpdateL0_body_def accepts_def)

lemma UpdateL0_on_record:
  assumes codec: "slot_codec tojson dec ok" and rep: "engine_rep e m" and cur: "GetProfileL0 dec H e a = Inr cur"
    and new: "ok (edited cur now slot)" "size_of tojson (edited cur now slot) < 2 ^ 32" "engine_room e (RecordHeaderSize + size_of tojson (edited cur now slot) + n)"
    and takes: "accepts cur slot"
  shows "\<exists>e'. UpdateL0_body tojson dec H now a slot e = (Inr (), e') \<and> engine_room e' n
      \<and> engine_rep e' (m((a, profile_id H) \<mapsto> record_of tojson RecL0Profile (edited cur now slot)))
      \<and> GetProfileL0 dec H e' a = Inr (edited cur now slot)"
proof -
  let ?m = "m((a, profile_id H) \<mapsto> record_of tojson RecL0Profile (edited cur now slot))"
  have "RecL0Profile \<noteq> 0" by (simp add: RecL0Profile_def)
  with slot_codec.writeJSON_law [OF codec rep new(1,2) _ new(3)] obtain e' where
    e': "writeJSON tojson a RecL0Profile (profile_id H) (edited cur now slot) e = (Inr (), e')" "engine_rep e' ?m" "engine_room e' n"
    by blast
  have "typed_at dec ?m a RecL0Profile (profile_id H) = Some (edited cur now slot)"
    using slot_codec.typed_record_of [OF codec new(1)] by simp
  then have "readJSON dec e' a (profile_id H) RecL0Profile = Inr (edited cur now slot)" using slot_codec.readJSON_typed [OF codec e'(2)] by blast
  then have "GetProfileL0 dec H e' a = Inr (edited cur now slot)" by (simp add: GetProfileL0_def)
  then show ?thesis using e' cur takes by (auto simp: UpdateL0_body_def UpdateProfileL0_def edited_def accepts_def)
qed

text \<open>What the edits leave of a profile, and of every other record.\<close>

definition same_handle :: "('e, 'm) ProfileSlot \<Rightarrow> ('e, 'm) ProfileSlot \<Rightarrow> bool" where
  "same_handle p q \<longleftrightarrow> (pr_AgentType p = AgentTypeSub \<longrightarrow> pr_Name p = pr_Name q) \<and> pr_AgentType p = pr_AgentType q
     \<and> pr_EmotionState p = pr_EmotionState q \<and> pr_MBTI p = pr_MBTI q"

lemma edited_same_handle: "accepts cur slot \<Longrightarrow> same_handle cur (edited cur now slot)"
  by (auto simp: same_handle_def edited_def keep_distilled_def accepts_def)

lemma same_handle_trans: "same_handle p q \<Longrightarrow> same_handle q r \<Longrightarrow> same_handle p r"
  unfolding same_handle_def by metis

lemma UpdateL0_step:
  assumes codec: "slot_codec tojson dec ok" and small: "\<forall>p. ok p \<longrightarrow> size_of tojson p \<le> n" "n < 2 ^ 32"
    and rep: "engine_rep e m" and cur: "GetProfileL0 dec H e a = Inr cur" "ok cur" and room: "engine_room e (RecordHeaderSize + n + k)"
    and legal: "\<forall>p. ok p \<and> accepts p slot \<longrightarrow> ok (edited p now slot)"
  shows "\<exists>m' q. engine_rep (snd (UpdateL0_body tojson dec H now a slot e)) m' \<and> engine_room (snd (UpdateL0_body tojson dec H now a slot e)) k
    \<and> GetProfileL0 dec H (snd (UpdateL0_body tojson dec H now a slot e)) a = Inr q \<and> ok q \<and> same_handle cur q
    \<and> (\<forall>b j. (b, j) \<noteq> (a, profile_id H) \<longrightarrow> m' (b, j) = m (b, j))
    \<and> (accepts cur slot \<longrightarrow> q = edited cur now slot)"
proof -
  show ?thesis
  proof (cases "accepts cur slot")
    case True
    then have new: "ok (edited cur now slot)" using legal cur(2) by blast
    then have "size_of tojson (edited cur now slot) < 2 ^ 32" "engine_room e (RecordHeaderSize + size_of tojson (edited cur now slot) + k)"
      using small room by (auto simp: engine_room_def intro: le_less_trans)
    from UpdateL0_on_record [OF codec rep cur(1) new this True] obtain e' where e': "UpdateL0_body tojson dec H now a slot e = (Inr (), e')"
      "engine_room e' k" "engine_rep e' (m((a, profile_id H) \<mapsto> record_of tojson RecL0Profile (edited cur now slot)))"
      "GetProfileL0 dec H e' a = Inr (edited cur now slot)"
      by blast
    then show ?thesis using new edited_same_handle [OF True]
      by (intro exI [of _ "m((a, profile_id H) \<mapsto> record_of tojson RecL0Profile (edited cur now slot))"] exI [of _ "edited cur now slot"]) simp
  next
    case False
    moreover have "engine_room e k" using room by (simp add: engine_room_def)
    ultimately show ?thesis using rep cur UpdateL0_refused [OF cur(1) False]
      by (intro exI [of _ m] exI [of _ cur]) (simp add: same_handle_def)
  qed
qed

lemma host_edits_law:
  assumes codec: "slot_codec tojson dec ok" and small: "\<forall>p. ok p \<longrightarrow> size_of tojson p \<le> n" "n < 2 ^ 32"
  shows "engine_rep e m \<Longrightarrow> GetProfileL0 dec H e a = Inr cur \<Longrightarrow> ok cur \<Longrightarrow> engine_room e ((RecordHeaderSize + n) * length es + k)
    \<Longrightarrow> \<forall>(now, slot) \<in> set es. \<forall>p. ok p \<and> accepts p slot \<longrightarrow> ok (edited p now slot)
    \<Longrightarrow> \<exists>m' q. engine_rep (host_edits tojson dec H a es e) m' \<and> engine_room (host_edits tojson dec H a es e) k \<and> GetProfileL0 dec H (host_edits tojson dec H a es e) a = Inr q \<and> ok q
      \<and> same_handle cur q \<and> (\<forall>b j. (b, j) \<noteq> (a, profile_id H) \<longrightarrow> m' (b, j) = m (b, j))"
proof (induction es arbitrary: e m cur)
  case Nil
  then show ?case by (intro exI [of _ m] exI [of _ cur]) (simp add: host_edits_def same_handle_def)
next
  case (Cons x es)
  obtain now slot where x: "x = (now, slot)" by (cases x)
  have legal: "\<forall>p. ok p \<and> accepts p slot \<longrightarrow> ok (edited p now slot)" using Cons.prems(5) x by simp
  have room: "engine_room e (RecordHeaderSize + n + ((RecordHeaderSize + n) * length es + k))" using Cons.prems(4) by (simp add: algebra_simps)
  let ?e = "snd (UpdateL0_body tojson dec H now a slot e)"
  obtain m1 q1 where s: "engine_rep ?e m1" "engine_room ?e ((RecordHeaderSize + n) * length es + k)" "GetProfileL0 dec H ?e a = Inr q1" "ok q1"
    "same_handle cur q1" "\<forall>b j. (b, j) \<noteq> (a, profile_id H) \<longrightarrow> m1 (b, j) = m (b, j)"
    using UpdateL0_step [OF codec small Cons.prems(1-3) room legal] by blast
  have "\<forall>(now, slot) \<in> set es. \<forall>p. ok p \<and> accepts p slot \<longrightarrow> ok (edited p now slot)" using Cons.prems(5) by simp
  from Cons.IH [OF s(1,3,4,2) this] obtain m2 q2 where t: "engine_rep (host_edits tojson dec H a es ?e) m2" "engine_room (host_edits tojson dec H a es ?e) k"
    "GetProfileL0 dec H (host_edits tojson dec H a es ?e) a = Inr q2" "ok q2" "same_handle q1 q2"
    "\<forall>b j. (b, j) \<noteq> (a, profile_id H) \<longrightarrow> m2 (b, j) = m1 (b, j)" by blast
  have "host_edits tojson dec H a (x # es) e = host_edits tojson dec H a es ?e" by (simp add: host_edits_def x)
  then show ?case using t s(6) same_handle_trans [OF s(5) t(5)] by (intro exI [of _ m2] exI [of _ q2]) simp
qed

definition kid :: "string \<Rightarrow> string \<Rightarrow> (unit, unit) ProfileSlot" where
  "kid name role = \<lparr>pr_Name = name, pr_Role = role, pr_Personality = [], pr_EmotionState = (), pr_MBTI = (), pr_Preferences = [],
     pr_AgentType = AgentTypeSub, pr_UpdatedAtMs = 0\<rparr>"

text \<open>A profile that differs only in its role is stored as its role.\<close>

definition kid_json :: "(unit, unit) ProfileSlot \<Rightarrow> goerr + bytes" where "kid_json p = marshal_name (pr_Role p)"
definition kid_of :: "bytes \<Rightarrow> goerr + (unit, unit) ProfileSlot" where
  "kid_of d = (case unmarshal_name d of Inl err \<Rightarrow> Inl err | Inr role \<Rightarrow> Inr (kid ''kid'' role))"
definition kid_ok :: "(unit, unit) ProfileSlot \<Rightarrow> bool" where
  "kid_ok p \<longleftrightarrow> p = kid ''kid'' (pr_Role p) \<and> utf8 (pr_Role p) \<and> length (pr_Role p) \<le> 9"

interpretation kid: slot_codec kid_json kid_of kid_ok
proof
  fix p assume ok: "kid_ok p"
  then have "utf8 (pr_Role p)" and p: "kid ''kid'' (pr_Role p) = p" by (simp_all add: kid_ok_def)
  with tenant.round_trip obtain d where "marshal_name (pr_Role p) = Inr d" "unmarshal_name d = Inr (pr_Role p)" by blast
  then show "\<exists>d. kid_json p = Inr d \<and> kid_of d = Inr p" using p by (simp add: kid_json_def kid_of_def)
qed

lemma kid_named: "kid_ok p \<Longrightarrow> pr_Name p = ''kid'' \<and> pr_AgentType p = AgentTypeSub"
  unfolding kid_ok_def kid_def by (metis ProfileSlot.select_convs(1,7))

lemma kid_small: "kid_ok p \<Longrightarrow> size_of kid_json p \<le> 56"
  using name_size [of "pr_Role p"] by (simp add: kid_ok_def kid_json_def size_of_def)

text \<open>
  C12. The host cannot move the handle of a domain by rewriting its profile. Whatever list of edits it makes, the
  stored kind of the domain and the emotion and type a dream distilled stay, a sub-agent keeps the name its door is
  opened by, and no other record changes; and the last edit, when it has a name and does not rename a sub-agent, is
  what is read: its role, personality, preferences and time.
\<close>

theorem host_edits_keep_the_handle:
  assumes codec: "slot_codec tojson dec ok" and small: "\<forall>p. ok p \<longrightarrow> size_of tojson p \<le> n" "n < 2 ^ 32"
    and rep: "engine_rep e m" and cur: "GetProfileL0 dec H e a = Inr cur" "ok cur"
    and room: "engine_room e ((RecordHeaderSize + n) * (length es + 1))"
    and legal: "\<forall>(now, slot) \<in> set (es @ [(now, slot)]). \<forall>p. ok p \<and> accepts p slot \<longrightarrow> ok (edited p now slot)"
  shows "\<exists>q. GetProfileL0 dec H (host_edits tojson dec H a (es @ [(now, slot)]) e) a = Inr q
    \<and> pr_AgentType q = pr_AgentType cur \<and> pr_EmotionState q = pr_EmotionState cur \<and> pr_MBTI q = pr_MBTI cur
    \<and> (pr_AgentType cur = AgentTypeSub \<longrightarrow> pr_Name q = pr_Name cur)
    \<and> (accepts cur slot \<longrightarrow> pr_Name q = pr_Name slot \<and> pr_Role q = pr_Role slot \<and> pr_Personality q = pr_Personality slot
          \<and> pr_Preferences q = pr_Preferences slot \<and> pr_UpdatedAtMs q = now)
    \<and> (\<forall>b j. (b, j) \<noteq> (a, profile_id H) \<longrightarrow> ReadRecord (host_edits tojson dec H a (es @ [(now, slot)]) e) b j = ReadRecord e b j)"
proof -
  let ?e1 = "host_edits tojson dec H a es e" and ?e2 = "host_edits tojson dec H a (es @ [(now, slot)]) e"
  have steps: "\<forall>(now, slot) \<in> set es. \<forall>p. ok p \<and> accepts p slot \<longrightarrow> ok (edited p now slot)" "\<forall>p. ok p \<and> accepts p slot \<longrightarrow> ok (edited p now slot)" using legal by auto
  have rest: "engine_room e ((RecordHeaderSize + n) * length es + (RecordHeaderSize + n + 0))" using room by (simp add: algebra_simps)
  obtain m1 p where p: "engine_rep ?e1 m1" "engine_room ?e1 (RecordHeaderSize + n + 0)" "GetProfileL0 dec H ?e1 a = Inr p" "ok p" "same_handle cur p"
    "\<forall>b j. (b, j) \<noteq> (a, profile_id H) \<longrightarrow> m1 (b, j) = m (b, j)"
    using host_edits_law [OF codec small rep cur rest steps(1)] by blast
  have last: "?e2 = snd (UpdateL0_body tojson dec H now a slot ?e1)" by (simp add: host_edits_def)
  have "\<exists>m2 q. engine_rep ?e2 m2 \<and> engine_room ?e2 0 \<and> GetProfileL0 dec H ?e2 a = Inr q \<and> ok q \<and> same_handle p q
    \<and> (\<forall>b j. (b, j) \<noteq> (a, profile_id H) \<longrightarrow> m2 (b, j) = m1 (b, j))
    \<and> (accepts p slot \<longrightarrow> q = edited p now slot)"
    unfolding last by (rule UpdateL0_step [OF codec small p(1,3,4,2) steps(2)])
  then obtain m2 q where q: "engine_rep ?e2 m2" "GetProfileL0 dec H ?e2 a = Inr q" "same_handle p q"
    "\<forall>b j. (b, j) \<noteq> (a, profile_id H) \<longrightarrow> m2 (b, j) = m1 (b, j)"
    "accepts p slot \<longrightarrow> q = edited p now slot"
    by blast
  have others: "\<forall>b j. (b, j) \<noteq> (a, profile_id H) \<longrightarrow> ReadRecord ?e2 b j = ReadRecord e b j"
    using eng.read_law [OF q(1)] eng.read_law [OF rep] q(4) p(6) by presburger
  have handle: "same_handle cur q" by (rule same_handle_trans [OF p(5) q(3)])
  have kept: "pr_AgentType p = AgentTypeSub \<longrightarrow> pr_Name p = pr_Name cur" "pr_AgentType p = pr_AgentType cur"
    using p(5) by (simp_all add: same_handle_def)
  have accepted: "pr_Name (edited p now slot) = pr_Name slot" "pr_Role (edited p now slot) = pr_Role slot"
    "pr_Personality (edited p now slot) = pr_Personality slot" "pr_Preferences (edited p now slot) = pr_Preferences slot"
    "pr_UpdatedAtMs (edited p now slot) = now"
    by (simp_all add: edited_def keep_distilled_def)
  have "accepts cur slot \<longrightarrow> q = edited p now slot"
    using q(5) kept by (simp add: accepts_def)
  then show ?thesis using q(2) handle others accepted unfolding same_handle_def by (intro exI [of _ q]) (metis (no_types, lifting))
qed

theorem host_edits_keep_the_handle_witness:
  "\<exists>e0 e. Create blank_file = (Inr e0, efile e0) \<and> writeJSON kid_json 7 RecL0Profile 1 (kid ''kid'' ''cook'') e0 = (Inr (), e)
     \<and> GetProfileL0 kid_of (\<lambda>_. 1) (host_edits kid_json kid_of (\<lambda>_. 1) 7 [(0, kid ''boss'' ''thief''), (0, kid ''kid'' ''baker'')] e) 7
       = Inr (kid ''kid'' ''baker'')"
proof -
  obtain e0 where e0: "Create blank_file = (Inr e0, efile e0)" "engine_rep e0 Map.empty" "engine_room e0 1000"
    using fresh_rep [of 1000] by auto
  have ascii: "utf8 ''cook''" "utf8 ''thief''" "utf8 ''baker''" by (simp_all add: name_simps)
  have ok: "kid_ok (kid ''kid'' ''cook'')" using ascii by (simp add: kid_ok_def kid_def)
  have "size_of kid_json (kid ''kid'' ''cook'') < 2 ^ 32" "engine_room e0 (RecordHeaderSize + size_of kid_json (kid ''kid'' ''cook'') + 500)"
    using kid_small [OF ok] e0(3) by (auto simp: engine_room_def RecordHeaderSize_def)
  from kid.writeJSON_law [OF e0(2) ok this(1) _ this(2), of RecL0Profile 7 1] obtain e where
    e: "writeJSON kid_json 7 RecL0Profile 1 (kid ''kid'' ''cook'') e0 = (Inr (), e)" "engine_room e 500"
      "engine_rep e [(7, 1) \<mapsto> record_of kid_json RecL0Profile (kid ''kid'' ''cook'')]"
    by (auto simp: RecL0Profile_def)
  have "typed_at kid_of [(7, 1) \<mapsto> record_of kid_json RecL0Profile (kid ''kid'' ''cook'')] 7 RecL0Profile 1 = Some (kid ''kid'' ''cook'')"
    using kid.typed_record_of [OF ok] by simp
  then have "readJSON kid_of e 7 1 RecL0Profile = Inr (kid ''kid'' ''cook'')" using kid.readJSON_typed [OF e(3)] by blast
  then have cur: "GetProfileL0 kid_of (\<lambda>_. 1) e 7 = Inr (kid ''kid'' ''cook'')" by (simp add: GetProfileL0_def profile_id_def)
  have room: "engine_room e ((RecordHeaderSize + 56) * (length [(0, kid ''boss'' ''thief'')] + 1))"
    using e(2) by (simp add: engine_room_def RecordHeaderSize_def)
  have legal: "\<forall>(now, slot) \<in> set ([(0, kid ''boss'' ''thief'')] @ [(0, kid ''kid'' ''baker'')]). \<forall>p. kid_ok p \<and> accepts p slot \<longrightarrow> kid_ok (edited p now slot)"
    using ascii kid_named by (auto simp: accepts_def edited_def) (simp_all add: kid_ok_def kid_def keep_distilled_def)
  have small: "\<forall>p. kid_ok p \<longrightarrow> size_of kid_json p \<le> 56" using kid_small by blast
  have trim: "TrimSpace ''kid'' \<noteq> []" by code_simp
  have takes: "accepts (kid ''kid'' ''cook'') (kid ''kid'' ''baker'')" using trim by (simp add: accepts_def kid_def)
  obtain q where q: "GetProfileL0 kid_of (\<lambda>_. 1) (host_edits kid_json kid_of (\<lambda>_. 1) 7 [(0, kid ''boss'' ''thief''), (0, kid ''kid'' ''baker'')] e) 7 = Inr q"
    "pr_AgentType q = AgentTypeSub" "pr_Name q = ''kid''" "pr_Role q = ''baker''" "pr_Personality q = []" "pr_Preferences q = []" "pr_UpdatedAtMs q = 0"
    using host_edits_keep_the_handle [OF kid.slot_codec_axioms small _ e(3) cur ok room legal] takes by (auto simp: kid_def)
  have "q = kid ''kid'' ''baker''" using q(2-7) by (simp add: kid_def)
  then show ?thesis using e0(1) e(1) q(1) by blast
qed

section \<open>Settings\<close>

text \<open>
  C14. The sweep of a checked configuration looks backwards. When the settings pass the door, the window in force is
  the one the host named, or the default when it named none; it is positive and its nanoseconds fit an \<open>int64\<close>,
  so the cutoff at any instant is exactly that many milliseconds before it. The bound of the check is tight: one
  millisecond more wraps the window to a negative one. The timeout of the model's endpoint is treated alike: what a
  checked configuration gives the HTTP client is positive and has not wrapped.
\<close>

theorem checked_window_cannot_wrap:
  assumes "Defaults_Validate m = Inr ()" "LlmConfig_Validate c = Inr ()"
  defines "w \<equiv> md_ContentRetentionMs (Normalized m)"
  shows "w = (if md_ContentRetentionMs m = 0 then md_ContentRetentionMs DefaultMemHopDefaults else md_ContentRetentionMs m)
    \<and> 0 < w \<and> i64_ok (w * 10 ^ 6) \<and> retentionWindow (Some w) = w * 10 ^ 6
    \<and> (\<forall>now. sweep_cutoff now (Some w) = now div 10 ^ 6 - w)
    \<and> retentionWindow (Some (MaxContentRetentionMs + 1)) < 0
    \<and> pv_Timeout (New c) = (if lc_TimeoutSecs c \<le> 0 then defaultTimeoutSecs else lc_TimeoutSecs c) * 10 ^ 9 \<and> 0 < pv_Timeout (New c)"
proof -
  have w: "w = (if md_ContentRetentionMs m = 0 then md_ContentRetentionMs DefaultMemHopDefaults else md_ContentRetentionMs m)" "0 < w"
    "w \<le> MaxContentRetentionMs"
    using assms(1) by (auto simp: w_def Normalized_def Defaults_Validate_def DefaultMemHopDefaults_def MaxContentRetentionMs_def split: if_splits)
  then have ok: "i64_ok (w * 10 ^ 6)" by (simp add: i64_ok_def MaxContentRetentionMs_def)
  then have win: "retentionWindow (Some w) = w * 10 ^ 6" using w(2) i64_wrap_id by (simp add: retentionWindow_def)
  have "sweep_cutoff now (Some w) = now div 10 ^ 6 - w" for now
    unfolding sweep_cutoff_def win using div_mult_self3 [of "10 ^ 6 :: int" "- w" now] by (simp add: algebra_simps)
  moreover have "retentionWindow (Some (MaxContentRetentionMs + 1)) < 0" by code_simp
  moreover have "pv_Timeout (New c) = (if lc_TimeoutSecs c \<le> 0 then defaultTimeoutSecs else lc_TimeoutSecs c) * 10 ^ 9 \<and> 0 < pv_Timeout (New c)"
  proof -
    let ?t = "if lc_TimeoutSecs c \<le> 0 then defaultTimeoutSecs else lc_TimeoutSecs c"
    have t: "0 < ?t" "?t \<le> MaxTimeoutSecs"
      using assms(2) by (auto simp: LlmConfig_Validate_def MaxTimeoutSecs_def defaultTimeoutSecs_def split: if_splits)
    then have "i64_ok (?t * 10 ^ 9)" unfolding i64_ok_def MaxTimeoutSecs_def by simp
    then show ?thesis using t(1) i64_wrap_id by (simp add: New_def budgets_def)
  qed
  ultimately show ?thesis using w(1,2) ok win by blast
qed

theorem checked_window_cannot_wrap_witness:
  "\<exists>c. Defaults_Validate DefaultMemHopDefaults = Inr () \<and> LlmConfig_Validate c = Inr ()
     \<and> retentionWindow (Some (md_ContentRetentionMs (Normalized DefaultMemHopDefaults))) = ContentRetention
     \<and> sweep_cutoff (10 ^ 18) (Some (md_ContentRetentionMs (Normalized DefaultMemHopDefaults))) = 10 ^ 12 - 604800000
     \<and> pv_Timeout (New c) = 30000000000"
proof -
  let ?c = "\<lparr>lc_APIURL = ''u'', lc_APIKey = ''k'', lc_Model = ''m'', lc_TimeoutSecs = 30, lc_MaxOutputTokens = 0\<rparr>"
  have ok: "Defaults_Validate DefaultMemHopDefaults = Inr ()" "LlmConfig_Validate ?c = Inr ()" by code_simp+
  show ?thesis using checked_window_cannot_wrap [OF ok] ok
    by (intro exI [of _ ?c]) (simp add: DefaultMemHopDefaults_def Normalized_def ContentRetention_def)
qed

end
