(* ===== verification/Llm_Ops.thy ===== *)
theory Llm_Ops
  imports Go_Text Model Go_Slices Codec
begin

text \<open>
  \<^verbatim>\<open>internal/cap/llmops\<close>: the exchanges with the language model. The transport is an interface of three methods; its
  state, whatever it is, is threaded through the calls. A loop that does not end is \<open>None\<close>.
\<close>

section \<open>The prompts\<close>

text \<open>
  The prompts of \<^verbatim>\<open>internal/cap/llmops\<close>, byte for byte: quotation marks, line ends and the runes beyond ASCII are
  written as their bytes.
\<close>

definition systemKeywords :: string where
  "systemKeywords =
    ''You compress text by extracting all meaningful keywords and phrases, removing noise while preserving '' @ ''full meaning and tone.'' @
    [CHR 0x0A, CHR 0x0A] @ ''Rules:'' @ [CHR 0x0A] @ ''1. Semantic completeness '' @ [CHR 0xE2, CHR 0x80, CHR 0x94] @
    '' the extracted items, read together, must let a reader understand the original text'' @ [CHR 0x27] @
    ''s facts, intent, relationships, and emotional tone as if reading the original'' @ [CHR 0x0A] @ ''2. Retrieval-oriented '' @
    [CHR 0xE2, CHR 0x80, CHR 0x94] @ '' think: '' @ [CHR 0x22] @ ''What words or phrases would someone use to find this content later?'' @
    [CHR 0x22] @ '' Extract those exact terms'' @ [CHR 0x0A] @
    ''3. Include: named entities (people, places, orgs, products), specific topics, key actions with their '' @
    ''objects, time expressions, locations, numbers, cause-effect relationships, emotional tone and attitude '' @ ''markers'' @ [CHR 0x0A] @
    ''4. Use both individual keywords AND short phrases '' @ [CHR 0xE2, CHR 0x80, CHR 0x94] @
    '' phrases preserve context that single words lose (e.g. '' @ [CHR 0x22] @ ''cancel picnic due to rain'' @ [CHR 0x22] @
    '' is more meaningful than just '' @ [CHR 0x22] @ ''rain'' @ [CHR 0x22] @ '' + '' @ [CHR 0x22] @ ''picnic'' @ [CHR 0x22] @ '')'' @ [CHR 0x0A] @
    ''5. No limit on count '' @ [CHR 0xE2, CHR 0x80, CHR 0x94] @
    '' extract everything meaningful; for long text, extract proportionally more; never truncate or summarize '' @ [CHR 0xE2, CHR 0x80, CHR 0x94] @
    '' only remove noise (greetings, filler, repetition)'' @ [CHR 0x0A] @ ''6. Colloquial variants '' @ [CHR 0xE2, CHR 0x80, CHR 0x94] @
    '' for important terms, include common synonyms or colloquial alternatives (e.g. '' @
    [CHR 0x22, CHR 0xE8, CHR 0x82, CHR 0x9A, CHR 0xE5, CHR 0xAD, CHR 0x90, CHR 0xE7, CHR 0x96, CHR 0xBC, CHR 0x22] @ '' '' @
    [CHR 0xE2, CHR 0x86, CHR 0x92] @ '' also add '' @ [CHR 0x22, CHR 0xE8, CHR 0x83, CHR 0x83, CHR 0xE7, CHR 0x97, CHR 0x9B, CHR 0x22] @ ''; '' @
    [CHR 0x22] @ ''bug'' @ [CHR 0x22] @ '' '' @ [CHR 0xE2, CHR 0x86, CHR 0x92] @ '' also add '' @
    [CHR 0x22, CHR 0xE7, CHR 0xBC, CHR 0xBA, CHR 0xE9, CHR 0x99, CHR 0xB7, CHR 0x22] @
    '') so one idea is not split across differently worded turns'' @ [CHR 0x0A] @
    ''7. Preserve original language; keep mixed-language terms as-is; preserve numbers and proper nouns exactly'' @ [CHR 0x0A] @
    ''8. Exclude: greetings, filler words, question words (when/where/what/why/how/who/which), generic verbs '' @
    ''(go/do/get/run/make/have/want/like/think) unless tied to a specific action'' @ [CHR 0x0A] @ ''9. Output ONLY valid JSON: {'' @ [CHR 0x22] @
    ''keywords'' @ [CHR 0x22] @ '':[...]}, no markdown, no code fences''"

definition keywordFormatRetry :: string where
  "keywordFormatRetry =
    [CHR 0x0A, CHR 0x0A] @ ''Output ONLY valid JSON: {'' @ [CHR 0x22] @ ''keywords'' @ [CHR 0x22] @ '':['' @ [CHR 0x22] @ ''keyword1'' @ [CHR 0x22] @
    '', '' @ [CHR 0x22] @ ''keyword2'' @ [CHR 0x22] @ '', ...]}.'' @ [CHR 0x0A] @ ''No markdown, no code fences, no explanations.''"

definition systemConsolidate :: "i64 \<Rightarrow> string" where
  "systemConsolidate floor =
    ''You analyze L2 chat memory topics, identify which adjacent topics belong to the same conversation thread, '' @
    ''and reconstruct their keywords into natural text that reads like the original conversation.'' @ [CHR 0x0A, CHR 0x0A] @ ''Rules:'' @
    [CHR 0x0A] @ ''1. Scan from the most recent topic backwards '' @ [CHR 0xE2, CHR 0x80, CHR 0x94] @
    '' group adjacent topics that share the same conversation thread (same subject, causal chain, topic continuation, '' @ ''or semantic overlap)'' @
    [CHR 0x0A] @ ''2. Do NOT merge topics that are clearly about different subjects, even if they occur in the same scene. '' @
    ''This rule outranks rule 3: an unrelated pair fused into one thread is a false memory, while an unmerged '' @
    ''pair costs nothing but a later pass'' @ [CHR 0x0A] @ ''3. Compression target: bring the number of remaining topics down toward ''
    @ int_dec floor @
    '' or below, by as many groups as rule 2 actually allows '' @ [CHR 0xE2, CHR 0x80, CHR 0x94] @ '' merge no further than that'' @ [CHR 0x0A] @
    ''4. For each merged group, reconstruct the multi-turn keywords into a single coherent natural-language '' @ ''text '' @
    [CHR 0xE2, CHR 0x80, CHR 0x94] @ '' write it as if you are rewriting what was originally said, not summarizing. The keywords are a fact '' @
    ''checklist: every keyword or phrase from every topic in the group MUST appear in the reconstructed text, '' @
    ''either verbatim or as the exact fact it stands for. Never drop, merge away, or generalize a fact (e.g. '' @ [CHR 0x22] @ ''yesterday'' @
    [CHR 0x22] @ '' must stay '' @ [CHR 0x22] @ ''yesterday'' @ [CHR 0x22] @ '', not become '' @ [CHR 0x22] @ ''recently'' @ [CHR 0x22] @ '')'' @
    [CHR 0x0A] @ ''5. No length limit on the reconstructed text '' @ [CHR 0xE2, CHR 0x80, CHR 0x94] @
    '' it must be as long as needed to faithfully preserve ALL details: names, numbers, dates, times (including '' @
    ''relative references such as '' @ [CHR 0x22] @ ''yesterday'' @ [CHR 0x22] @ '', '' @ [CHR 0x22] @ ''last week'' @ [CHR 0x22] @ '', '' @
    [CHR 0x22] @ ''next month'' @ [CHR 0x22] @ '' '' @ [CHR 0xE2, CHR 0x80, CHR 0x94] @
    '' keep them exactly as said), locations, cause-effect chains, emotional tone, attitudes, preferences, '' @ ''and specific facts'' @ [CHR 0x0A] @
    ''6. Preserve the emotional tone and attitude present in the keywords '' @ [CHR 0xE2, CHR 0x80, CHR 0x94] @
    '' if the original tone was frustrated, excited, curious, etc., the reconstructed text should reflect that'' @ [CHR 0x0A] @
    ''7. Preserve original language; keep mixed-language terms as-is; preserve numbers and proper nouns exactly'' @ [CHR 0x0A] @
    ''8. Echo node_hashes EXACTLY as given in the input'' @ [CHR 0x0A] @
    ''9. When no compression is possible (no adjacent topics share a thread, or the total is already ''
    @ int_dec floor @
    '' or fewer), output l2_groups as an empty array'' @ [CHR 0x0A, CHR 0x0A] @
    ''Output ONLY valid JSON in this exact shape (no markdown, no code fences):'' @ [CHR 0x0A] @ ''{'' @ [CHR 0x0A] @ ''  '' @ [CHR 0x22] @
    ''l2_groups'' @ [CHR 0x22] @ '': ['' @ [CHR 0x0A] @ ''    {'' @ [CHR 0x0A] @ ''      '' @ [CHR 0x22] @ ''node_hashes'' @ [CHR 0x22] @
    '': [<number>, ...],'' @ [CHR 0x0A] @ ''      '' @ [CHR 0x22] @ ''merged_summary'' @ [CHR 0x22] @ '': '' @ [CHR 0x22] @
    ''<natural-language reconstruction of the original conversation from the keywords>'' @ [CHR 0x22, CHR 0x0A] @ ''    }'' @ [CHR 0x0A] @ ''  ]'' @
    [CHR 0x0A] @ ''}'' @ [CHR 0x0A] @ ''Every merged group MUST include non-empty merged_summary.''"

definition consolidateFormatRetry :: string where
  "consolidateFormatRetry =
    [CHR 0x0A, CHR 0x0A] @ ''Output ONLY valid JSON in the exact shape from the system prompt. No markdown, no code fences, no commentary.''"

section \<open>The interface\<close>

record 's Chat_Interface =
  ci_Chat :: "string \<Rightarrow> string \<Rightarrow> i64 \<Rightarrow> 's \<Rightarrow> (goerr + string) \<times> 's"
  ci_ChatWithRetry :: "string \<Rightarrow> string \<Rightarrow> i64 \<Rightarrow> i64 \<Rightarrow> 's \<Rightarrow> (goerr + string) \<times> 's"
  ci_MaxOutputTokens :: i64

section \<open>The shared exchange\<close>

definition ConsolidationMaxTokens :: i64 where "ConsolidationMaxTokens = 8192"

definition escalationCeiling :: "('s, 'x) Chat_Interface_scheme \<Rightarrow> i64" where
  "escalationCeiling chat = (if ci_MaxOutputTokens chat > 0 then ci_MaxOutputTokens chat else ConsolidationMaxTokens)"

definition minTokens :: "i64 \<Rightarrow> i64 \<Rightarrow> i64" where
  "minTokens configured ceiling = (if configured \<le> 0 \<or> configured > ceiling then ceiling else configured)"

record jsonExchange =
  je_system :: string
  je_user :: string
  je_formatRetry :: string
  je_ceiling :: i64

definition askJSON :: "'s Chat_Interface \<Rightarrow> jsonExchange \<Rightarrow> (string \<Rightarrow> goerr + 'a) \<Rightarrow> 's \<Rightarrow> (goerr + 'a) \<times> 's" where
  "askJSON chat call parse s =
     (let budget = minTokens (ci_MaxOutputTokens chat) (je_ceiling call)
      in case ci_ChatWithRetry chat (je_system call) (je_user call) budget (escalationCeiling chat) s of
          (Inl err, s) \<Rightarrow> (Inl err, s)
        | (Inr response, s) \<Rightarrow> (case parse response of Inr out \<Rightarrow> (Inr out, s)
            | Inl perr \<Rightarrow> (case ci_Chat chat (je_system call) (je_user call @ je_formatRetry call) budget s of
                (Inl rerr, s) \<Rightarrow> (Inl (Error (CodeOf rerr) (Some (Joined [perr, rerr]))), s)
              | (Inr again, s) \<Rightarrow> (parse again, s))))"

text \<open>\<^verbatim>\<open>strconv.ParseUint\<close> in base 10.\<close>

definition ParseUint10 :: "string \<Rightarrow> u64 option" where
  "ParseUint10 s = (if s \<noteq> '''' \<and> list_all digit s \<and> dec_nat s < 2 ^ 64 then Some (of_nat (dec_nat s)) else None)"

definition parseUint64Flex :: "string \<Rightarrow> goerr + u64" where
  "parseUint64Flex raw =
     (let s = Trim (TrimSpace raw) [CHR 0x22]
      in if s = '''' \<or> s = ''null'' then Inl (NewError ErrLLM)
         else case ParseUint10 s of Some v \<Rightarrow> Inr v | None \<Rightarrow> ParseUint16 (TrimPrefix s ''0x''))"

definition fence :: string where "fence = [CHR 0x60, CHR 0x60, CHR 0x60]"

definition stripCodeBlocks :: "string \<Rightarrow> string" where
  "stripCodeBlocks s =
     (let trimmed = TrimSpace s
      in if \<not> HasPrefix trimmed fence then trimmed
         else let body = drop 3 trimmed;
                  body = (case after_newline body of Some rest \<Rightarrow> rest | None \<Rightarrow> '''');
                  body = (case before_last fence body of Some before \<Rightarrow> before | None \<Rightarrow> body)
              in TrimSpace body)"

section \<open>Keyword extraction\<close>

definition keywordExtractionMaxTokens :: i64 where "keywordExtractionMaxTokens = 512"
definition keywordRetryMaxTokens :: i64 where "keywordRetryMaxTokens = 4096"
definition keywordChunkRunes :: nat where "keywordChunkRunes = 2000"
definition errKeywordFormat :: goerr where "errKeywordFormat = NewError ErrLLM"

definition parseKeywords :: "string \<Rightarrow> string list option" where
  "parseKeywords response =
     (case unmarshal_struct [(''keywords'', slices d_str '''' (\<lambda>ks _. ks))] [] (text_bytes (stripCodeBlocks response)) of
        Inl _ \<Rightarrow> None | Inr keywords \<Rightarrow> Some keywords)"

fun dedupe_from :: "string list \<Rightarrow> string list \<Rightarrow> string list \<Rightarrow> string list" where
  "dedupe_from seen [] out = out"
| "dedupe_from seen (s # ss) out =
     (let s = TrimSpace s
      in if s = '''' then dedupe_from seen ss out
         else if s \<in> set seen then dedupe_from seen ss out
         else dedupe_from (s # seen) ss (out @ [s]))"

definition dedupeKeywords :: "string list \<Rightarrow> string list" where
  "dedupeKeywords ss = dedupe_from [] ss []"

text \<open>The three widening attempts; \<open>None\<close> when none of them settled it.\<close>

fun ladder :: "'s Chat_Interface \<Rightarrow> string \<Rightarrow> i64 list \<Rightarrow> 's \<Rightarrow> (goerr + string list) option \<times> 's" where
  "ladder chat user [] s = (None, s)"
| "ladder chat user (maxTokens # rest) s = (case ci_Chat chat systemKeywords user maxTokens s of
     (Inl err, s) \<Rightarrow> if is_truncated err then ladder chat user rest s else (Some (Inl err), s)
   | (Inr response, s) \<Rightarrow> (case parseKeywords response of Some keywords \<Rightarrow> (Some (Inr (dedupeKeywords keywords)), s)
       | None \<Rightarrow> ladder chat user rest s))"

definition extractOne :: "'s Chat_Interface \<Rightarrow> string \<Rightarrow> 's \<Rightarrow> (goerr + string list) \<times> 's" where
  "extractOne chat user s =
     (let widest = minTokens (ci_MaxOutputTokens chat) ConsolidationMaxTokens;
          budgets = [minTokens (ci_MaxOutputTokens chat) keywordExtractionMaxTokens,
            minTokens (ci_MaxOutputTokens chat) keywordRetryMaxTokens, widest]
      in case ladder chat user budgets s of
          (Some out, s) \<Rightarrow> (out, s)
        | (None, s) \<Rightarrow> (case ci_Chat chat systemKeywords (user @ keywordFormatRetry) widest s of
            (Inl err, s) \<Rightarrow> (Inl err, s)
          | (Inr response, s) \<Rightarrow> (case parseKeywords response of Some keywords \<Rightarrow> (Inr (dedupeKeywords keywords), s)
              | None \<Rightarrow> (Inl errKeywordFormat, s))))"

definition boundary :: "string \<Rightarrow> bool" where
  "boundary r \<longleftrightarrow> r \<in> {[CHR 0x0A], [CHR 0xE3, CHR 0x80, CHR 0x82], [CHR 0xEF, CHR 0xBC, CHR 0x9B], '';'', ''.''}"

text \<open>Where one chunk ends: at the last boundary of the back half of its window.\<close>

definition cut_at :: "nat \<Rightarrow> string list \<Rightarrow> nat" where
  "cut_at limit window = (case List.find (\<lambda>i. boundary (window ! i)) (rev [length window div 2 ..< length window]) of
     Some i \<Rightarrow> i | None \<Rightarrow> limit)"

text \<open>The loop over the runes that remain; with a limit of one it need not advance.\<close>

partial_function (option) split_runes :: "nat \<Rightarrow> string list \<Rightarrow> string list option" where
  "split_runes limit rs =
     (if rs = [] then Some []
      else if length rs \<le> limit then Some [concat rs]
      else let cut = cut_at limit (take limit rs)
        in Option.bind (split_runes limit (drop cut rs)) (\<lambda>chunks. Some (concat (take cut rs) # chunks)))"

definition splitForExtraction :: "string \<Rightarrow> nat \<Rightarrow> string list option" where
  "splitForExtraction text limit = (if length (runes text) \<le> limit then Some [text] else split_runes limit (runes text))"

definition extract_prefix :: string where "extract_prefix = ''Extract keywords from:'' @ [CHR 0x0A]"

fun extract_chunks :: "'s Chat_Interface \<Rightarrow> string list \<Rightarrow> string list \<Rightarrow> 's \<Rightarrow> (goerr + string list) \<times> 's" where
  "extract_chunks chat [] merged s = (Inr (dedupeKeywords merged), s)"
| "extract_chunks chat (chunk # chunks) merged s = (case extractOne chat (extract_prefix @ chunk) s of
     (Inl err, s) \<Rightarrow> (Inl (if CodeOf err \<noteq> ErrNone then Error (CodeOf err) (Some err) else err), s)
   | (Inr keywords, s) \<Rightarrow> extract_chunks chat chunks (merged @ keywords) s)"

definition extractKeywordsChunked :: "'s Chat_Interface \<Rightarrow> string \<Rightarrow> 's \<Rightarrow> ((goerr + string list) \<times> 's) option" where
  "extractKeywordsChunked chat trimmed s = (case splitForExtraction trimmed keywordChunkRunes of None \<Rightarrow> None
     | Some chunks \<Rightarrow> Some (extract_chunks chat chunks [] s))"

definition ExtractKeywords :: "'s Chat_Interface \<Rightarrow> string \<Rightarrow> 's \<Rightarrow> ((goerr + string list) \<times> 's) option" where
  "ExtractKeywords chat text s =
     (let trimmed = TrimSpace text
      in if trimmed = '''' then Some (Inr [], s)
         else if length (runes trimmed) > keywordChunkRunes then extractKeywordsChunked chat trimmed s
         else Some (extractOne chat (extract_prefix @ trimmed) s))"

section \<open>The consolidation prompt\<close>

text \<open>\<^verbatim>\<open>%v\<close> of a string slice.\<close>

definition spaced_list :: "string list \<Rightarrow> string" where
  "spaced_list ks = ''['' @ (case ks of [] \<Rightarrow> '''' | k # ks \<Rightarrow> k @ concat (map (\<lambda>k. CHR 0x20 # k) ks)) @ '']''"

definition topic_line :: "TopicSlot \<Rightarrow> string" where
  "topic_line n = ''- id='' @ nat_dec (unat (ts_ID n)) @ '' depth='' @ nat_dec (unat (ts_Depth n)) @ '' kw='' @ spaced_list (ts_FusedKeywords n) @ [CHR 0x0A]"

definition scene_section :: "TopicSlot list \<Rightarrow> u64 \<Rightarrow> string" where
  "scene_section topics sid =
     ''## scene_id = '' @ nat_dec (unat sid) @ [CHR 0x0A]
       @ concat (map topic_line (SortFunc CompareTopicOrder (filter (\<lambda>t. ts_SceneID t = sid) topics))) @ [CHR 0x0A]"

definition buildConsolidatePrompt :: "TopicSlot list \<Rightarrow> string" where
  "buildConsolidatePrompt topics =
     (let sceneIDs = sort (remdups (map ts_SceneID topics))
      in ''# L2 Topic Data ('' @ nat_dec (length sceneIDs) @ '' scenes)'' @ [CHR 0x0A, CHR 0x0A]
         @ concat (map (scene_section topics) sceneIDs)
         @ ''Decide which topics belong to the same topic and output the merged groups now.'')"

end
