(* ===== verification/Llm_Correct.thy ===== *)
theory Llm_Correct
  imports Llm_Ops Llm_Provider
begin

text \<open>
  What the exchanges with the language model guarantee: a long text is cut into bounded chunks that lose nothing, a
  keyword track is trimmed and free of repetitions, and the ladder of attempts ends within a known number of requests.
\<close>

section \<open>Runes of a concatenation\<close>

definition whole_rune :: "string \<Rightarrow> bool" where
  "whole_rune r \<longleftrightarrow> r \<noteq> [] \<and> (\<forall>t. rune_len (r @ t) = length r)"

lemma runes_concat: "\<forall>r \<in> set rs. whole_rune r \<Longrightarrow> runes (concat rs) = rs"
  by (induction rs) (auto simp: whole_rune_def runes.simps)

lemma replacement_rune: "whole_rune replacement"
  by (simp add: whole_rune_def replacement_def rune_len_def runes3_def cval_def between_def)

lemma runes_whole: "\<forall>r \<in> set (runes s). whole_rune r"
proof (induction s rule: runes.induct)
  case (1 s)
  show ?case
  proof (cases "s = [] \<or> rune_len s = 0")
    case True
    then show ?thesis using 1 replacement_rune by (auto simp: runes.simps [of s])
  next
    case False
    then have "whole_rune (take (rune_len s) s)" using rune_len_take [of s] rune_len_le [of s] by (auto simp: whole_rune_def)
    then show ?thesis using 1 False by (auto simp: runes.simps [of s])
  qed
qed

section \<open>Splitting\<close>

lemma cut_at_bounds: "2 \<le> limit \<Longrightarrow> length window = limit \<Longrightarrow> limit div 2 \<le> cut_at limit window \<and> cut_at limit window \<le> limit"
  by (auto simp: cut_at_def find_Some_iff rev_nth split: option.splits)

text \<open>What the pieces of a text are, and that every piece but the last has half a window.\<close>

definition cut_well :: "nat \<Rightarrow> string list \<Rightarrow> string list list \<Rightarrow> bool" where
  "cut_well limit rs ps \<longleftrightarrow> concat ps = rs \<and> (\<forall>p \<in> set ps. p \<noteq> [] \<and> length p \<le> limit) \<and> (length ps - 1) * (limit div 2) \<le> length rs"

lemma split_runes_law:
  assumes "2 \<le> limit"
  shows "\<exists>ps. split_runes limit rs = Some (map concat ps) \<and> cut_well limit rs ps"
proof (induction rs rule: length_induct)
  case (1 rs)
  let ?c = "cut_at limit (take limit rs)"
  show ?case
  proof (cases "length rs \<le> limit")
    case True
    then show ?thesis
      by (intro exI [of _ "if rs = [] then [] else [rs]"]) (simp add: split_runes.simps cut_well_def)
  next
    case False
    then have c: "limit div 2 \<le> ?c" "?c \<le> limit" "0 < ?c" using cut_at_bounds [of limit "take limit rs"] assms by auto
    then have "length (drop ?c rs) < length rs" using False by simp
    then obtain ps where ps: "split_runes limit (drop ?c rs) = Some (map concat ps)" "cut_well limit (drop ?c rs) ps" using 1 by blast
    have "split_runes limit rs = Some (map concat (take ?c rs # ps))"
      using False ps(1) by (subst split_runes.simps) (auto simp: Let_def)
    moreover have "cut_well limit rs (take ?c rs # ps)"
    proof -
      have "take ?c rs \<noteq> []" "length (take ?c rs) \<le> limit" using c False by auto
      moreover have "length ps * (limit div 2) \<le> length rs"
      proof (cases ps)
        case (Cons p qs)
        then have "length qs * (limit div 2) \<le> length rs - ?c" using ps(2) by (simp add: cut_well_def)
        moreover have "?c \<le> length rs" using c(2) False by simp
        ultimately show ?thesis using c(1) Cons by simp
      qed simp
      ultimately show ?thesis using ps(2) by (auto simp: cut_well_def)
    qed
    ultimately show ?thesis by blast
  qed
qed

lemma splitForExtraction_law:
  assumes "2 \<le> limit"
  shows "\<exists>chunks. splitForExtraction text limit = Some chunks \<and> (length chunks - 1) * (limit div 2) \<le> length (runes text)
    \<and> (\<forall>c \<in> set chunks. length (runes c) \<le> limit) \<and> (utf8 text \<longrightarrow> concat chunks = text)"
proof (cases "length (runes text) \<le> limit")
  case True
  then show ?thesis by (simp add: splitForExtraction_def)
next
  case False
  obtain ps where ps: "split_runes limit (runes text) = Some (map concat ps)" "cut_well limit (runes text) ps"
    using split_runes_law [OF assms] by blast
  have "\<forall>p \<in> set ps. runes (concat p) = p"
    using ps(2) runes_whole [of "text"] runes_concat unfolding cut_well_def by (metis UN_I set_concat)
  moreover have "concat (map concat ps) = concat (concat ps)" by (induction ps) auto
  ultimately show ?thesis using ps False concat_runes [of "text"] by (auto simp: splitForExtraction_def cut_well_def)
qed

section \<open>Keywords\<close>

text \<open>A keyword track as it is stored: every word is trimmed, none is empty, none comes twice.\<close>

definition tidy :: "string list \<Rightarrow> bool" where
  "tidy ks \<longleftrightarrow> distinct ks \<and> (\<forall>k \<in> set ks. k \<noteq> [] \<and> TrimSpace k = k)"

lemma dedupe_from_law:
  "set seen = set out \<Longrightarrow> tidy out \<Longrightarrow> tidy (dedupe_from seen ss out)
    \<and> set (dedupe_from seen ss out) = set out \<union> (TrimSpace ` set ss - {[]})"
proof (induction ss arbitrary: seen out)
  case (Cons s ss)
  let ?t = "TrimSpace s"
  show ?case
  proof (cases "?t = [] \<or> ?t \<in> set seen")
    case True
    then have "dedupe_from seen (s # ss) out = dedupe_from seen ss out" by (auto simp: Let_def)
    then show ?thesis using Cons.IH [OF Cons.prems] True Cons.prems(1) by auto
  next
    case False
    then have "dedupe_from seen (s # ss) out = dedupe_from (?t # seen) ss (out @ [?t])" by (simp add: Let_def)
    moreover have "set (?t # seen) = set (out @ [?t])" "tidy (out @ [?t])" using Cons.prems False by (auto simp: tidy_def)
    ultimately show ?thesis using Cons.IH [of "?t # seen" "out @ [?t]"] False by auto
  qed
qed simp

lemma dedupeKeywords_law: "tidy (dedupeKeywords ss)" "set (dedupeKeywords ss) = TrimSpace ` set ss - {[]}"
proof -
  have "tidy []" by (simp add: tidy_def)
  then have "tidy (dedupe_from [] ss []) \<and> set (dedupe_from [] ss []) = set [] \<union> (TrimSpace ` set ss - {[]})"
    by (intro dedupe_from_law) simp_all
  then show "tidy (dedupeKeywords ss)" "set (dedupeKeywords ss) = TrimSpace ` set ss - {[]}" unfolding dedupeKeywords_def by simp_all
qed

section \<open>The ladder over a transport\<close>

text \<open>
  What the ladder relies on: a call asks the same thing at most three times, with the budget it was given, and an
  error of it carries one of two codes.
\<close>

locale transport =
  fixes chat :: "'s Chat_Interface" and asked :: "'s \<Rightarrow> (string \<times> string \<times> i64) list"
  assumes asks: "ci_Chat chat system user n s = (out, s') \<Longrightarrow>
      \<exists>xs. asked s' = asked s @ xs \<and> length xs \<le> 3 \<and> set xs \<subseteq> {(system, user, n)}"
    and codes: "ci_Chat chat system user n s = (Inl err, s') \<Longrightarrow> call_error err"
begin

text \<open>At most \<open>k\<close> requests, each a keyword prompt within a budget of \<open>B\<close>.\<close>

definition asks_within :: "nat \<Rightarrow> i64 set \<Rightarrow> 's \<Rightarrow> 's \<Rightarrow> bool" where
  "asks_within k B s s' \<longleftrightarrow> (\<exists>xs. asked s' = asked s @ xs \<and> length xs \<le> k \<and> (\<forall>(system, user, n) \<in> set xs. system = systemKeywords \<and> n \<in> B))"

lemma asks_within_trans:
  assumes "asks_within k B s s'" "asks_within l B s' s''"
  shows "asks_within (k + l) B s s''"
proof -
  from assms obtain xs ys where "asked s' = asked s @ xs" "length xs \<le> k" "\<forall>(system, user, n) \<in> set xs. system = systemKeywords \<and> n \<in> B"
    "asked s'' = asked s' @ ys" "length ys \<le> l" "\<forall>(system, user, n) \<in> set ys. system = systemKeywords \<and> n \<in> B"
    unfolding asks_within_def by blast
  then show ?thesis unfolding asks_within_def by (intro exI [of _ "xs @ ys"]) auto
qed

lemma asks_within_refl: "asks_within k B s s"
  by (simp add: asks_within_def)

lemma asks_within_mono: "asks_within k B s s' \<Longrightarrow> k \<le> l \<Longrightarrow> asks_within l B s s'"
  unfolding asks_within_def by (meson le_trans)

lemma one_call: "ci_Chat chat systemKeywords user n s = (out, s') \<Longrightarrow> n \<in> B \<Longrightarrow> asks_within 3 B s s'"
  using asks [of systemKeywords user n s out s'] unfolding asks_within_def by fast

lemma ladder_law:
  "ladder chat user bs s = (out, s') \<Longrightarrow> set bs \<subseteq> B \<Longrightarrow> asks_within (3 * length bs) B s s'
    \<and> (\<forall>ks. out = Some (Inr ks) \<longrightarrow> tidy ks) \<and> (\<forall>err. out = Some (Inl err) \<longrightarrow> call_error err)"
proof (induction bs arbitrary: s)
  case Nil
  then show ?case by (auto simp: asks_within_refl)
next
  case (Cons b bs)
  obtain r s1 where r: "ci_Chat chat systemKeywords user b s = (r, s1)" by (cases "ci_Chat chat systemKeywords user b s")
  then have one: "asks_within 3 B s s1" using one_call Cons.prems(2) by simp
  have "ladder chat user bs s1 = (out, s') \<or> s' = s1 \<and> (\<exists>ks. out = Some (Inr (dedupeKeywords ks))) \<or> s' = s1 \<and> (\<exists>err. r = Inl err \<and> out = Some (Inl err))"
    using Cons.prems(1) r by (auto split: sum.splits if_splits option.splits)
  then consider (on) "ladder chat user bs s1 = (out, s')" | (settled) ks where "s' = s1" "out = Some (Inr (dedupeKeywords ks))"
    | (failed) err where "s' = s1" "r = Inl err" "out = Some (Inl err)" by blast
  then show ?case
  proof cases
    case on
    then show ?thesis using Cons.IH [of s1] Cons.prems(2) asks_within_trans [OF one, of "3 * length bs"] by simp
  next
    case settled
    then show ?thesis using asks_within_mono [OF one] dedupeKeywords_law(1) by simp
  next
    case failed
    then show ?thesis using asks_within_mono [OF one] codes [OF r [unfolded failed(2)]] by simp
  qed
qed

text \<open>The budgets a ladder may ask for: positive, and no wider than the ceilings allow.\<close>

definition allowed :: "i64 set" where
  "allowed = {n. 0 < n \<and> n \<le> ConsolidationMaxTokens \<and> (0 < ci_MaxOutputTokens chat \<longrightarrow> n \<le> ci_MaxOutputTokens chat)}"

lemma minTokens_allowed: "0 < c \<Longrightarrow> c \<le> ConsolidationMaxTokens \<Longrightarrow> minTokens (ci_MaxOutputTokens chat) c \<in> allowed"
  by (auto simp: minTokens_def allowed_def)

lemma extractOne_law:
  assumes "extractOne chat user s = (out, s')"
  shows "asks_within 12 allowed s s'" "out = Inr ks \<Longrightarrow> tidy ks" "out = Inl err \<Longrightarrow> call_error err"
proof -
  let ?w = "minTokens (ci_MaxOutputTokens chat) ConsolidationMaxTokens"
  let ?bs = "[minTokens (ci_MaxOutputTokens chat) keywordExtractionMaxTokens, minTokens (ci_MaxOutputTokens chat) keywordRetryMaxTokens, ?w]"
  have bs: "set ?bs \<subseteq> allowed"
    using minTokens_allowed by (simp add: keywordExtractionMaxTokens_def keywordRetryMaxTokens_def ConsolidationMaxTokens_def)
  obtain o1 s1 where l: "ladder chat user ?bs s = (o1, s1)" by (cases "ladder chat user ?bs s")
  obtain r s2 where r: "ci_Chat chat systemKeywords (user @ keywordFormatRetry) ?w s1 = (r, s2)"
    by (cases "ci_Chat chat systemKeywords (user @ keywordFormatRetry) ?w s1")
  note law = ladder_law [OF l bs]
  have last: "asks_within 3 allowed s1 s2" using one_call [OF r] bs by simp
  have "asks_within 12 allowed s s' \<and> (\<forall>ks. out = Inr ks \<longrightarrow> tidy ks) \<and> (\<forall>err. out = Inl err \<longrightarrow> call_error err)"
  proof (cases o1)
    case None
    then have "s' = s2" "(\<exists>err. r = Inl err \<and> out = Inl err) \<or> (\<exists>ks. out = Inr (dedupeKeywords ks)) \<or> out = Inl errKeywordFormat"
      using assms l r by (auto simp: extractOne_def Let_def split: sum.splits option.splits)
    moreover have "asks_within 12 allowed s s2" using asks_within_trans [OF _ last, of 9 s] law by simp
    moreover have "call_error errKeywordFormat" by (simp add: call_error_def errKeywordFormat_def)
    ultimately show ?thesis using codes r dedupeKeywords_law(1) by auto
  next
    case (Some o2)
    then have "out = o2" "s' = s1" using assms l by (simp_all add: extractOne_def Let_def)
    then show ?thesis using law Some asks_within_mono by auto
  qed
  then show "asks_within 12 allowed s s'" "out = Inr ks \<Longrightarrow> tidy ks" "out = Inl err \<Longrightarrow> call_error err" by blast+
qed

lemma extract_chunks_law:
  "extract_chunks chat chunks merged s = (out, s') \<Longrightarrow> asks_within (12 * length chunks) allowed s s'
    \<and> (\<forall>ks. out = Inr ks \<longrightarrow> tidy ks) \<and> (\<forall>err. out = Inl err \<longrightarrow> call_error err)"
proof (induction chunks arbitrary: merged s)
  case Nil
  then show ?case using dedupeKeywords_law(1) by (auto simp: asks_within_refl)
next
  case (Cons c chunks)
  obtain r s1 where r: "extractOne chat (extract_prefix @ c) s = (r, s1)" by (cases "extractOne chat (extract_prefix @ c) s")
  note one = extractOne_law [OF r]
  show ?case
  proof (cases r)
    case (Inl err)
    then have "call_error err" using one(3) by blast
    then have "out = Inl (Error (CodeOf err) (Some err))" "s' = s1" using Cons.prems r Inl by (auto simp: call_error_def)
    then show ?thesis using asks_within_mono [OF one(1)] \<open>call_error err\<close> by (simp add: call_error_def)
  next
    case (Inr ks)
    then have "extract_chunks chat chunks (merged @ ks) s1 = (out, s')" using Cons.prems r by simp
    note rest = Cons.IH [OF this]
    then have "asks_within (12 + 12 * length chunks) allowed s s'" using asks_within_trans [OF one(1)] by blast
    then show ?thesis using rest by simp
  qed
qed

lemma ExtractKeywords_law:
  "\<exists>out s'. ExtractKeywords chat text s = Some (out, s') \<and> asks_within (12 * (length (runes (TrimSpace text)) div 1000 + 1)) allowed s s'
    \<and> (\<forall>ks. out = Inr ks \<longrightarrow> tidy ks) \<and> (\<forall>err. out = Inl err \<longrightarrow> call_error err)"
proof (cases "TrimSpace text = [] \<or> length (runes (TrimSpace text)) \<le> keywordChunkRunes")
  case True
  obtain out s' where r: "extractOne chat (extract_prefix @ TrimSpace text) s = (out, s')"
    by (cases "extractOne chat (extract_prefix @ TrimSpace text) s")
  note one = extractOne_law [OF r]
  show ?thesis using True r one(2,3) asks_within_mono [OF one(1)] asks_within_refl
    by (auto simp: ExtractKeywords_def Let_def tidy_def)
next
  case False
  let ?t = "TrimSpace text"
  obtain chunks where c: "splitForExtraction ?t keywordChunkRunes = Some chunks" "(length chunks - 1) * 1000 \<le> length (runes ?t)"
    using splitForExtraction_law [of keywordChunkRunes ?t] by (auto simp: keywordChunkRunes_def)
  obtain out s' where r: "extract_chunks chat chunks [] s = (out, s')" by (cases "extract_chunks chat chunks [] s")
  have "length chunks \<le> length (runes ?t) div 1000 + 1" using c(2) by (simp add: le_div_geq less_eq_div_iff_mult_less_eq)
  then have "12 * length chunks \<le> 12 * (length (runes ?t) div 1000 + 1)" by simp
  moreover have "ExtractKeywords chat text s = Some (out, s')"
    using False c(1) r by (simp add: ExtractKeywords_def extractKeywordsChunked_def Let_def)
  ultimately show ?thesis using extract_chunks_law [OF r] asks_within_mono by blast
qed

end

text \<open>The provider is the transport the program runs on.\<close>

definition via :: "(ChatRequest list \<Rightarrow> http_answer) \<Rightarrow> (ChatRequest list \<Rightarrow> bool) \<Rightarrow> Provider \<Rightarrow> ChatRequest list Chat_Interface" where
  "via create gone p = \<lparr>ci_Chat = Chat create gone p, ci_ChatWithRetry = ChatWithRetry create gone p, ci_MaxOutputTokens = MaxOutputTokens p\<rparr>"

definition questions :: "ChatRequest list \<Rightarrow> (string \<times> string \<times> i64) list" where
  "questions = map (\<lambda>x. (rq_System x, rq_User x, rq_MaxTokens x))"

interpretation wire: transport "via create gone p" questions for create gone p
proof
  fix system user n s out s' err
  show "ci_Chat (via create gone p) system user n s = (out, s') \<Longrightarrow>
      \<exists>xs. questions s' = questions s @ xs \<and> length xs \<le> 3 \<and> set xs \<subseteq> {(system, user, n)}"
    using Chat_law(1) [of create gone p system user n s out s'] by (fastforce simp: via_def questions_def)
  show "ci_Chat (via create gone p) system user n s = (Inl err, s') \<Longrightarrow> call_error err"
    using Chat_law(2) by (fastforce simp: via_def)
qed

end
