(* ===== verification/Llm_Properties.thy ===== *)
theory Llm_Properties
  imports Llm_Correct
begin

text \<open>
  What the host may count on when a text is turned into keywords: nothing of a long text is dropped, the tracks are
  tidy, the model is asked a bounded number of times within the configured ceiling, and errors carry a code.
\<close>

section \<open>Cutting a long text\<close>

text \<open>
  C28. A long text is cut without loss: for any window of two runes or more the loop ends, no chunk is longer than the
  window, all but one chunk have at least half of it, so their number is bounded, and put together the chunks are the
  text again when that is valid UTF-8.
\<close>

theorem long_text_is_cut_without_loss:
  assumes "2 \<le> limit"
  shows "\<exists>chunks. splitForExtraction body limit = Some chunks \<and> (utf8 body \<longrightarrow> concat chunks = body)
    \<and> (\<forall>c \<in> set chunks. length (runes c) \<le> limit) \<and> (length chunks - 1) * (limit div 2) \<le> length (runes body)"
  using splitForExtraction_law [OF assms, of body] by blast

lemma sample_text: "utf8 ''green tea. sweet tea.''" "runes ''green tea. sweet tea.'' = map (\<lambda>c. [c]) ''green tea. sweet tea.''"
  by code_simp+

lemma sample_cut: "cut_at 12 (map (\<lambda>c. [c]) ''green tea. s'') = 9"
  by code_simp

lemma sample_chunks: "splitForExtraction ''green tea. sweet tea.'' 12 = Some [''green tea'', ''. sweet tea.'']"
  unfolding splitForExtraction_def sample_text(2)
  by (subst split_runes.simps, simp add: sample_cut [simplified], subst split_runes.simps, simp)

theorem long_text_is_cut_without_loss_witness:
  "splitForExtraction ''green tea. sweet tea.'' 12 = Some [''green tea'', ''. sweet tea.'']
    \<and> concat [''green tea'', ''. sweet tea.''] = ''green tea. sweet tea.''"
proof -
  have "2 \<le> (12 :: nat)" by simp
  from long_text_is_cut_without_loss [OF this, of "''green tea. sweet tea.''"] show ?thesis
    using sample_chunks sample_text(1) by auto
qed

section \<open>Extracting keywords\<close>

text \<open>
  C36. Extracting the keywords of a text ends within a known number of requests to the model, twelve for each chunk of
  the text, every one of them a keyword prompt with a positive budget that the configured ceiling allows. A track it
  answers is trimmed, without empty words and without repetitions; an error it answers carries a code of the model or
  of a cancellation, never none.
\<close>

theorem extraction_is_bounded_and_tidy:
  shows "\<exists>out sent'. ExtractKeywords (via create gone (New llm)) body sent = Some (out, sent')
    \<and> (\<exists>xs. questions sent' = questions sent @ xs \<and> length xs \<le> 12 * (length (runes (TrimSpace body)) div 1000 + 1)
        \<and> (\<forall>(system, user, n) \<in> set xs. system = systemKeywords \<and> 0 < n \<and> n \<le> 8192 \<and> n \<le> MaxOutputTokens (New llm)))
    \<and> (case out of Inr ks \<Rightarrow> distinct ks \<and> (\<forall>k \<in> set ks. k \<noteq> [] \<and> TrimSpace k = k)
        | Inl err \<Rightarrow> CodeOf err = ErrLLM \<or> CodeOf err = ErrCancelled)"
proof -
  have max: "0 < MaxOutputTokens (New llm)" "ci_MaxOutputTokens (via create gone (New llm)) = MaxOutputTokens (New llm)"
    by (simp_all add: via_def MaxOutputTokens_def New_def budgets_def defaultMaxOutputTokens_def)
  obtain out sent' xs where r: "ExtractKeywords (via create gone (New llm)) body sent = Some (out, sent')"
    "questions sent' = questions sent @ xs" "length xs \<le> 12 * (length (runes (TrimSpace body)) div 1000 + 1)"
    "\<forall>(system, user, n) \<in> set xs. system = systemKeywords \<and> n \<in> wire.allowed create gone (New llm)"
    "\<forall>ks. out = Inr ks \<longrightarrow> tidy ks" "\<forall>err. out = Inl err \<longrightarrow> call_error err"
    using wire.ExtractKeywords_law [of create gone "New llm" body sent] unfolding wire.asks_within_def by blast
  have "\<forall>(system, user, n) \<in> set xs. system = systemKeywords \<and> 0 < n \<and> n \<le> 8192 \<and> n \<le> MaxOutputTokens (New llm)"
    using r(4) max by (auto simp: wire.allowed_def ConsolidationMaxTokens_def)
  moreover have "case out of Inr ks \<Rightarrow> distinct ks \<and> (\<forall>k \<in> set ks. k \<noteq> [] \<and> TrimSpace k = k)
        | Inl err \<Rightarrow> CodeOf err = ErrLLM \<or> CodeOf err = ErrCancelled"
    using r(5,6) by (auto simp: tidy_def call_error_def split: sum.splits)
  ultimately show ?thesis using r(1-3) by blast
qed

definition sample_reply :: string where
  "sample_reply = enc_val (JObj [(''keywords'', JArr [JStr ''tea'', JStr ''tea ''])])"

definition sample_answers :: "ChatRequest list \<Rightarrow> http_answer" where
  "sample_answers sent = Choices [if length sent = 1 then ('''', True) else (sample_reply, False)]"

definition sample_llm :: LlmConfig where
  "sample_llm = \<lparr>lc_APIURL = ''u'', lc_APIKey = ''k'', lc_Model = ''m'', lc_TimeoutSecs = 0, lc_MaxOutputTokens = 1000\<rparr>"

lemma reply_bare: "stripCodeBlocks sample_reply = sample_reply" by code_simp

lemma reply_keywords: "parseKeywords sample_reply = Some [''tea'', ''tea '']"
proof -
  have "good (JObj [(''keywords'', JArr [JStr ''tea'', JStr ''tea ''])])" by (simp add: name_simps)
  from json_parse_enc_val [OF this] show ?thesis
    unfolding parseKeywords_def reply_bare unfolding sample_reply_def unmarshal_struct_def bytes_text_bytes
    by (simp add: decode_struct_def find_field_def slices_def d_list_def d_str_def del: enc_val.simps)
qed

lemma reply_tidied: "dedupeKeywords [''tea'', ''tea ''] = [''tea'']" by code_simp

lemma sample_body: "TrimSpace ''green tea '' = ''green tea''" "length (runes ''green tea'') = 9" by code_simp+

lemma sample_calls:
  "Chat sample_answers (\<lambda>_. False) p system user n []
    = (Inl (Error ErrLLM (Some ErrTruncated)), [\<lparr>rq_Model = pv_model p, rq_System = system, rq_User = user, rq_MaxTokens = n\<rparr>])"
  "Chat sample_answers (\<lambda>_. False) p system user n [r]
    = (Inr sample_reply, [r, \<lparr>rq_Model = pv_model p, rq_System = system, rq_User = user, rq_MaxTokens = n\<rparr>])"
  by (simp_all add: Chat_def sample_answers_def eval_nat_numeral)

lemma sample_budgets: "minTokens 1000 keywordExtractionMaxTokens = 512" "minTokens 1000 keywordRetryMaxTokens = 1000"
  by (simp_all add: minTokens_def keywordExtractionMaxTokens_def keywordRetryMaxTokens_def)

lemma sample_extract:
  "extractOne (via sample_answers (\<lambda>_. False) (New sample_llm)) user [] = (Inr [''tea''],
    map (\<lambda>n. \<lparr>rq_Model = pv_model (New sample_llm), rq_System = systemKeywords, rq_User = user, rq_MaxTokens = n\<rparr>) [512, 1000])"
proof -
  have "MaxOutputTokens (New sample_llm) = 1000" by (simp add: MaxOutputTokens_def New_def budgets_def sample_llm_def)
  then show ?thesis
    by (simp add: extractOne_def via_def sample_budgets sample_calls reply_keywords reply_tidied)
qed

theorem extraction_is_bounded_and_tidy_witness:
  "\<exists>sent'. ExtractKeywords (via sample_answers (\<lambda>_. False) (New sample_llm)) ''green tea '' [] = Some (Inr [''tea''], sent')
    \<and> map rq_MaxTokens sent' = [512, 1000] \<and> length sent' \<le> 12"
proof -
  let ?chat = "via sample_answers (\<lambda>_. False) (New sample_llm)"
  have run: "ExtractKeywords ?chat ''green tea '' [] = Some (Inr [''tea''],
      map (\<lambda>n. \<lparr>rq_Model = pv_model (New sample_llm), rq_System = systemKeywords, rq_User = extract_prefix @ ''green tea'', rq_MaxTokens = n\<rparr>) [512, 1000])"
    unfolding ExtractKeywords_def sample_body Let_def sample_extract by (simp add: keywordChunkRunes_def)
  obtain out s2 xs where "ExtractKeywords ?chat ''green tea '' [] = Some (out, s2)" "questions s2 = questions [] @ xs"
    "length xs \<le> 12 * (length (runes (TrimSpace ''green tea '')) div 1000 + 1)"
    using extraction_is_bounded_and_tidy [of sample_answers "\<lambda>_. False" sample_llm "''green tea ''" "[]"] by blast
  then have "length s2 \<le> 12" by (simp add: sample_body questions_def) (metis length_map)
  then show ?thesis using run \<open>ExtractKeywords ?chat ''green tea '' [] = Some (out, s2)\<close> by simp
qed

end
