(* ===== verification/L1_Correct.thy ===== *)
theory L1_Correct
  imports L1_Layer Sample_Store
begin

text \<open>
  Keeping the L1 nodes of a domain in step with its topics: after a pass every scene with topics near the surface has a
  node that lists them, a node whose list did not change was not written, and a second pass writes nothing.
\<close>

section \<open>The topics of each scene\<close>

definition near_topics :: "TopicSlot list \<Rightarrow> u64 \<Rightarrow> u64 set" where
  "near_topics ts s = {ts_ID t | t. t \<in> set ts \<and> ts_SceneID t = s \<and> ts_Depth t \<le> 2}"

definition filed :: "(u64, u64 list) gomap \<Rightarrow> TopicSlot list \<Rightarrow> bool" where
  "filed sc ts \<longleftrightarrow> map_wf sc \<and> (\<forall>s. case map_of sc s of None \<Rightarrow> near_topics ts s = {}
     | Some ids \<Rightarrow> distinct ids \<and> set ids = near_topics ts s \<and> near_topics ts s \<noteq> {})"

lemma near_snoc: "near_topics (ts @ [t]) s = (if ts_Depth t \<le> 2 \<and> ts_SceneID t = s then insert (ts_ID t) (near_topics ts s) else near_topics ts s)"
  by (auto simp: near_topics_def)

lemma filed_step:
  assumes "filed sc ts"
  shows "filed (file_topic t sc) (ts @ [t])"
proof (cases "ts_Depth t \<le> 2")
  case False
  then have "2 < ts_Depth t" by (simp add: not_le)
  then have same: "file_topic t sc = sc" by (simp add: file_topic_def)
  have near: "near_topics (ts @ [t]) = near_topics ts" using False by (simp add: near_snoc fun_eq_iff)
  show ?thesis using assms unfolding filed_def same near .
next
  case True
  let ?old = "case map_of sc (ts_SceneID t) of None \<Rightarrow> [] | Some ids \<Rightarrow> ids"
  have f: "file_topic t sc = AList.update (ts_SceneID t) (List.insert (ts_ID t) ?old) sc" using True by (simp add: file_topic_def not_less [symmetric])
  have old: "distinct ?old" "set ?old = near_topics ts (ts_SceneID t)"
    using assms [unfolded filed_def, THEN conjunct2, THEN spec, of "ts_SceneID t"] by (auto split: option.splits)
  have "case map_of (file_topic t sc) s of None \<Rightarrow> near_topics (ts @ [t]) s = {}
     | Some ids \<Rightarrow> distinct ids \<and> set ids = near_topics (ts @ [t]) s \<and> near_topics (ts @ [t]) s \<noteq> {}" for s
  proof (cases "s = ts_SceneID t")
    case True
    then show ?thesis using old \<open>ts_Depth t \<le> 2\<close> by (simp add: f update_conv' near_snoc)
  next
    case False
    then have "near_topics (ts @ [t]) s = near_topics ts s" "map_of (file_topic t sc) s = map_of sc s" by (simp_all add: near_snoc f update_conv')
    then show ?thesis using assms [unfolded filed_def, THEN conjunct2, THEN spec, of s] by (simp split: option.splits)
  qed
  moreover have "map_wf (file_topic t sc)" using assms by (simp add: filed_def f map_wf_def distinct_update)
  ultimately show ?thesis unfolding filed_def by blast
qed

lemma filed_all: "filed (fold file_topic ts []) ts"
proof (induction ts rule: rev_induct)
  case Nil
  then show ?case by (simp add: filed_def map_wf_def near_topics_def)
qed (simp add: filed_step)

lemma collect_law:
  assumes "CollectAllTopicsStrict e a = Inr ts"
  shows "\<exists>sc. collectTopicIDsByScene e a = Inr sc \<and> distinct (map fst sc) \<and> fst ` set sc = {s. near_topics ts s \<noteq> {}}
    \<and> (\<forall>(s, ids) \<in> set sc. sortedIDs ids = sorted_list_of_set (near_topics ts s))"
proof -
  let ?sc = "fold file_topic ts []"
  have wf: "distinct (map fst ?sc)" using filed_all [of ts] by (simp add: filed_def map_wf_def)
  have at: "case map_of ?sc s of None \<Rightarrow> near_topics ts s = {}
     | Some ids \<Rightarrow> distinct ids \<and> set ids = near_topics ts s \<and> near_topics ts s \<noteq> {}" for s
    using filed_all [of ts] unfolding filed_def by blast
  have "s \<in> fst ` set ?sc \<longleftrightarrow> near_topics ts s \<noteq> {}" for s
    using at [of s] map_of_eq_None_iff [of ?sc s] by (cases "map_of ?sc s") auto
  moreover have "sortedIDs ids = sorted_list_of_set (near_topics ts s)" if "(s, ids) \<in> set ?sc" for s ids
  proof -
    have "map_of ?sc s = Some ids" using wf that by simp
    then have "distinct ids" "set ids = near_topics ts s" using at [of s] by auto
    then show ?thesis by (metis sortedIDs_def sorted_list_of_set_sort_remdups distinct_remdups_id)
  qed
  ultimately show ?thesis using assms wf by (auto simp: collectTopicIDsByScene_def)
qed

section \<open>One scene\<close>

text \<open>The record at a node's address is that node's, or there is none.\<close>

definition node_fine :: "(bytes \<Rightarrow> goerr + 'f SceneNode) \<Rightarrow> ('f SceneNode \<Rightarrow> bool) \<Rightarrow> store \<Rightarrow> u64 \<Rightarrow> u64 \<Rightarrow> bool" where
  "node_fine dec ok m a i \<longleftrightarrow> m (a, i) = None \<or> (\<exists>n. typed_at dec m a RecL1SceneNode i = Some n \<and> ok n)"

lemma read_node:
  assumes "slot_codec tojson dec ok" "engine_rep e m" "node_fine dec ok m a i"
  shows "(case ReadSceneNode dec e a i of Inr n \<Rightarrow> Inr (Some n) | Inl err \<Rightarrow> if CodeOf err \<noteq> ErrNotFound then Inl err else Inr None)
    = Inr (typed_at dec m a RecL1SceneNode i)"
proof (cases "typed_at dec m a RecL1SceneNode i")
  case None
  then have "m (a, i) = None" using assms(3) by (auto simp: node_fine_def)
  then show ?thesis using slot_codec.readJSON_absent [OF assms(1,2)] None by (simp add: ReadSceneNode_def)
next
  case (Some n)
  then show ?thesis using slot_codec.readJSON_typed [OF assms(1,2), of a i RecL1SceneNode n] by (simp add: ReadSceneNode_def)
qed

definition node_after :: "'f \<Rightarrow> 'f \<Rightarrow> (string \<Rightarrow> u64) \<Rightarrow> i64 \<Rightarrow> u64 \<Rightarrow> u64 list \<Rightarrow> 'f SceneNode option \<Rightarrow> 'f SceneNode" where
  "node_after zero one H now s ids old = (case next_node zero one (SceneNodeID H s) s ids now old of Some n \<Rightarrow> n | None \<Rightarrow> the old)"

lemma node_after_ids: "sn_TopicIDs (node_after zero one H now s ids old) = ids"
  by (auto simp: node_after_def next_node_def split: option.splits)

text \<open>The nodes a pass may write: valid ones stay valid under a new list of topics, and a fresh one is valid.\<close>

definition legal_nodes :: "('f SceneNode \<Rightarrow> bool) \<Rightarrow> 'f \<Rightarrow> 'f \<Rightarrow> (string \<Rightarrow> u64) \<Rightarrow> i64 \<Rightarrow> (u64 \<times> u64 list) set \<Rightarrow> bool" where
  "legal_nodes ok zero one H now S \<longleftrightarrow> (\<forall>(s, ids) \<in> S. \<forall>old. (\<forall>n. old = Some n \<longrightarrow> ok n) \<longrightarrow> ok (node_after zero one H now s (sortedIDs ids) old))"

lemma sync_one:
  assumes codec: "slot_codec tojson dec ok" and small: "\<forall>p. ok p \<longrightarrow> size_of tojson p \<le> n" "n < 2 ^ 32"
    and rep: "engine_rep e m" and fine: "node_fine dec ok m a (SceneNodeID H s)" and room: "engine_room e (RecordHeaderSize + n + k)"
    and legal: "legal_nodes ok zero one H now {(s, ids)}"
  shows "\<exists>e' m'. syncOneSceneNode tojson dec zero one H a s (sortedIDs ids) now e
      = (Inr (SceneNodeID H s, next_node zero one (SceneNodeID H s) s (sortedIDs ids) now (typed_at dec m a RecL1SceneNode (SceneNodeID H s)) \<noteq> None), e')
    \<and> engine_rep e' m' \<and> engine_room e' k
    \<and> typed_at dec m' a RecL1SceneNode (SceneNodeID H s) = Some (node_after zero one H now s (sortedIDs ids) (typed_at dec m a RecL1SceneNode (SceneNodeID H s)))
    \<and> ok (node_after zero one H now s (sortedIDs ids) (typed_at dec m a RecL1SceneNode (SceneNodeID H s)))
    \<and> (\<forall>b j. (b, j) \<noteq> (a, SceneNodeID H s) \<longrightarrow> m' (b, j) = m (b, j))"
proof -
  let ?i = "SceneNodeID H s" and ?old = "typed_at dec m a RecL1SceneNode (SceneNodeID H s)"
  let ?new = "node_after zero one H now s (sortedIDs ids) ?old"
  have ok: "ok ?new" using legal fine by (auto simp: legal_nodes_def node_fine_def typed_at_def)
  note read = read_node [OF codec rep fine]
  show ?thesis
  proof (cases "next_node zero one ?i s (sortedIDs ids) now ?old")
    case None
    then obtain old where "?old = Some old" "?new = old" by (auto simp: next_node_def node_after_def split: option.splits if_splits)
    moreover have "engine_room e k" using room by (simp add: engine_room_def)
    ultimately show ?thesis using None read rep ok by (intro exI [of _ e] exI [of _ m]) (simp add: syncOneSceneNode_def Let_def)
  next
    case (Some new)
    then have new: "?new = new" by (simp add: node_after_def)
    have "size_of tojson new < 2 ^ 32" "engine_room e (RecordHeaderSize + size_of tojson new + k)" "RecL1SceneNode \<noteq> 0"
      using small room ok unfolding new by (auto simp: engine_room_def RecL1SceneNode_def intro: le_less_trans)
    with slot_codec.writeJSON_law [OF codec rep, of new RecL1SceneNode k a ?i] ok new obtain e' where
      e': "writeJSON tojson a RecL1SceneNode ?i new e = (Inr (), e')" "engine_rep e' (m((a, ?i) \<mapsto> record_of tojson RecL1SceneNode new))" "engine_room e' k"
      by auto
    have "typed_at dec (m((a, ?i) \<mapsto> record_of tojson RecL1SceneNode new)) a RecL1SceneNode ?i = Some new"
      using slot_codec.typed_record_of [OF codec] ok new by simp
    then show ?thesis using Some read e' ok new
      by (intro exI [of _ e'] exI [of _ "m((a, ?i) \<mapsto> record_of tojson RecL1SceneNode new)"]) (simp add: syncOneSceneNode_def Let_def WriteSceneNode_def)
  qed
qed

section \<open>All scenes\<close>

definition node_keys :: "(string \<Rightarrow> u64) \<Rightarrow> u64 \<Rightarrow> u64 set \<Rightarrow> (u64 \<times> u64) set" where
  "node_keys H a S = {(a, SceneNodeID H s) | s. s \<in> S}"

lemma sync_scenes_law:
  assumes codec: "slot_codec tojson dec ok" and small: "\<forall>p. ok p \<longrightarrow> size_of tojson p \<le> n" "n < 2 ^ 32"
  shows "engine_rep e m \<Longrightarrow> \<forall>s \<in> fst ` set sc. node_fine dec ok m a (SceneNodeID H s) \<Longrightarrow> engine_room e ((RecordHeaderSize + n) * length sc)
    \<Longrightarrow> legal_nodes ok zero one H now (set sc) \<Longrightarrow> distinct (map fst sc) \<Longrightarrow> inj_on (SceneNodeID H) (fst ` set sc)
    \<Longrightarrow> \<exists>touched' e' m'. sync_scenes tojson dec zero one H a now sc touched e = ((touched', None), e') \<and> engine_rep e' m'
      \<and> (\<forall>(s, ids) \<in> set sc. typed_at dec m' a RecL1SceneNode (SceneNodeID H s)
          = Some (node_after zero one H now s (sortedIDs ids) (typed_at dec m a RecL1SceneNode (SceneNodeID H s))))
      \<and> (\<forall>k. k \<notin> node_keys H a (fst ` set sc) \<longrightarrow> m' k = m k)
      \<and> set touched' = set touched \<union> {SceneNodeID H s | s ids. (s, ids) \<in> set sc
          \<and> next_node zero one (SceneNodeID H s) s (sortedIDs ids) now (typed_at dec m a RecL1SceneNode (SceneNodeID H s)) \<noteq> None}"
proof (induction sc arbitrary: e m touched)
  case Nil
  then show ?case by (intro exI [of _ touched] exI [of _ e] exI [of _ m]) simp
next
  case (Cons p sc)
  obtain s ids where p: "p = (s, ids)" by (cases p)
  let ?i = "SceneNodeID H s" and ?node = "\<lambda>m. typed_at dec m a RecL1SceneNode"
  let ?ch = "next_node zero one ?i s (sortedIDs ids) now (?node m ?i) \<noteq> None"
  have fine: "node_fine dec ok m a ?i" and room: "engine_room e (RecordHeaderSize + n + (RecordHeaderSize + n) * length sc)"
    and legal: "legal_nodes ok zero one H now {(s, ids)}" "legal_nodes ok zero one H now (set sc)"
    using Cons.prems(2,3,4) p by (auto simp: legal_nodes_def)
  obtain e1 m1 where one: "syncOneSceneNode tojson dec zero one H a s (sortedIDs ids) now e = (Inr (?i, ?ch), e1)" "engine_rep e1 m1"
    "engine_room e1 ((RecordHeaderSize + n) * length sc)" "?node m1 ?i = Some (node_after zero one H now s (sortedIDs ids) (?node m ?i))"
    "\<forall>b j. (b, j) \<noteq> (a, ?i) \<longrightarrow> m1 (b, j) = m (b, j)"
    using sync_one [OF codec small Cons.prems(1) fine room legal(1)] by blast
  have apart: "SceneNodeID H t \<noteq> ?i" if "t \<in> fst ` set sc" for t
    using Cons.prems(5,6) p that by (auto simp: inj_on_def)
  have same: "?node m1 (SceneNodeID H t) = ?node m (SceneNodeID H t)" "node_fine dec ok m1 a (SceneNodeID H t) = node_fine dec ok m a (SceneNodeID H t)"
    if "t \<in> fst ` set sc" for t
    using one(5) apart [OF that] by (simp_all add: typed_at_def node_fine_def)
  have later: "\<forall>t \<in> fst ` set sc. node_fine dec ok m1 a (SceneNodeID H t)" using Cons.prems(2) same(2) p by simp
  have rest: "distinct (map fst sc)" "inj_on (SceneNodeID H) (fst ` set sc)" using Cons.prems(5,6) p by (auto simp: inj_on_def)
  obtain touched' e' m' where r: "sync_scenes tojson dec zero one H a now sc (if ?ch then List.insert ?i touched else touched) e1 = ((touched', None), e')"
    "engine_rep e' m'"
    "\<forall>(t, ids) \<in> set sc. ?node m' (SceneNodeID H t) = Some (node_after zero one H now t (sortedIDs ids) (?node m1 (SceneNodeID H t)))"
    "\<forall>k. k \<notin> node_keys H a (fst ` set sc) \<longrightarrow> m' k = m1 k"
    "set touched' = set (if ?ch then List.insert ?i touched else touched) \<union> {SceneNodeID H t | t ids. (t, ids) \<in> set sc
      \<and> next_node zero one (SceneNodeID H t) t (sortedIDs ids) now (?node m1 (SceneNodeID H t)) \<noteq> None}"
    using Cons.IH [OF one(2) later one(3) legal(2) rest, of "if ?ch then List.insert ?i touched else touched"] by blast
  have run: "sync_scenes tojson dec zero one H a now (p # sc) touched e = ((touched', None), e')" using one(1) r(1) p by simp
  have "(a, ?i) \<notin> node_keys H a (fst ` set sc)" using apart unfolding node_keys_def by fastforce
  then have head: "?node m' ?i = Some (node_after zero one H now s (sortedIDs ids) (?node m ?i))" using r(4) one(4) by (simp add: typed_at_def)
  have nodes: "\<forall>(t, ids) \<in> set (p # sc). ?node m' (SceneNodeID H t) = Some (node_after zero one H now t (sortedIDs ids) (?node m (SceneNodeID H t)))"
    using r(3) head same(1) p by (force simp: image_iff)
  have others: "\<forall>k. k \<notin> node_keys H a (fst ` set (p # sc)) \<longrightarrow> m' k = m k"
  proof (intro allI impI)
    fix k assume k: "k \<notin> node_keys H a (fst ` set (p # sc))"
    then have "k \<noteq> (a, ?i)" "k \<notin> node_keys H a (fst ` set sc)" using p by (auto simp: node_keys_def)
    then show "m' k = m k" using r(4) one(5) by (cases k) auto
  qed
  have "{SceneNodeID H t | t ids. (t, ids) \<in> set sc \<and> next_node zero one (SceneNodeID H t) t (sortedIDs ids) now (?node m1 (SceneNodeID H t)) \<noteq> None}
    = {SceneNodeID H t | t ids. (t, ids) \<in> set sc \<and> next_node zero one (SceneNodeID H t) t (sortedIDs ids) now (?node m (SceneNodeID H t)) \<noteq> None}"
    using same(1) by (intro Collect_cong) (metis (no_types, lifting) fst_conv image_eqI)
  then have "set touched' = set touched \<union> {SceneNodeID H t | t ids. (t, ids) \<in> set (p # sc)
      \<and> next_node zero one (SceneNodeID H t) t (sortedIDs ids) now (?node m (SceneNodeID H t)) \<noteq> None}"
    using r(5) p by (cases ?ch) auto
  then show ?case using run r(2) nodes others by blast
qed

text \<open>A pass over nodes that already list their topics changes nothing.\<close>

lemma sync_scenes_again:
  assumes "\<forall>(s, ids) \<in> set sc. \<exists>n. ReadSceneNode dec e a (SceneNodeID H s) = Inr n \<and> sn_TopicIDs n = sortedIDs ids"
  shows "sync_scenes tojson dec zero one H a now sc touched e = ((touched, None), e)"
  using assms
proof (induction sc)
  case (Cons p sc)
  obtain s ids where p: "p = (s, ids)" by (cases p)
  then obtain n where "ReadSceneNode dec e a (SceneNodeID H s) = Inr n" "sn_TopicIDs n = sortedIDs ids" using Cons.prems by auto
  then have "syncOneSceneNode tojson dec zero one H a s (sortedIDs ids) now e = (Inr (SceneNodeID H s, False), e)"
    by (simp add: syncOneSceneNode_def Let_def next_node_def)
  then show ?case using Cons p by simp
qed simp

text \<open>The scan of the topics sees topic records only.\<close>

lemma topics_unchanged:
  assumes "engine_rep e m" "engine_rep e' m'" "\<And>i d. m (a, i) = Some (RecL2Topic, d) \<longleftrightarrow> m' (a, i) = Some (RecL2Topic, d)"
  shows "CollectAllTopicsStrict e' a = CollectAllTopicsStrict e a"
proof -
  have ids: "IndexByType e' a RecL2Topic = IndexByType e a RecL2Topic"
    using eng.ids_law [OF assms(1), of a RecL2Topic] eng.ids_law [OF assms(2), of a RecL2Topic] assms(3)
    by (intro sorted_distinct_set_unique) auto
  have "readJSON unmarshal_topic e' a i RecL2Topic = readJSON unmarshal_topic e a i RecL2Topic"
    if "i \<in> set (IndexByType e a RecL2Topic)" for i
  proof -
    obtain d where "m (a, i) = Some (RecL2Topic, d)" using eng.ids_law [OF assms(1), of a RecL2Topic] \<open>i \<in> set (IndexByType e a RecL2Topic)\<close> by auto
    then show ?thesis using assms(3) [of i d] eng.read_law [OF assms(1), of a i] eng.read_law [OF assms(2), of a i] by (simp add: readJSON_def)
  qed
  then have "collect_ids unmarshal_topic e' a RecL2Topic js out = collect_ids unmarshal_topic e a RecL2Topic js out"
    if "set js \<subseteq> set (IndexByType e a RecL2Topic)" for js out
    using that by (induction js arbitrary: out) (auto split: sum.splits)
  then show ?thesis by (simp add: CollectAllTopicsStrict_def CollectAllStrict_def ids)
qed

end
