(* ===== verification/L1_Properties.thy ===== *)
theory L1_Properties
  imports L1_Correct
begin

text \<open>
  What a sync of the L1 nodes promises, with a concrete run on a domain of one scene.
\<close>

lemma scenes_bound: "card {s. near_topics ts s \<noteq> {}} \<le> length ts"
proof -
  have "{s. near_topics ts s \<noteq> {}} \<subseteq> set (map ts_SceneID ts)" by (auto simp: near_topics_def)
  then have "card {s. near_topics ts s \<noteq> {}} \<le> card (set (map ts_SceneID ts))" by (intro card_mono) auto
  also have "\<dots> \<le> length ts" using card_length [of "map ts_SceneID ts"] by simp
  finally show ?thesis .
qed

lemma old_node:
  "next_node zero one i s ids now (Some old) = (if sn_TopicIDs old = ids then None else Some (old\<lparr>sn_TopicIDs := ids, sn_UpdatedAt := now\<rparr>))"
  "node_after zero one H now s ids (Some old) = (if sn_TopicIDs old = ids then old else old\<lparr>sn_TopicIDs := ids, sn_UpdatedAt := now\<rparr>)"
  by (simp_all add: next_node_def node_after_def)

lemma no_node:
  "next_node zero one i s ids now None = Some \<lparr>sn_IDHash = i, sn_SceneID = s, sn_TopicIDs = ids, sn_Importance = one,
     sn_Valence = zero, sn_Arousal = zero, sn_EmotionSet = False, sn_CreatedAt = now, sn_UpdatedAt = now, sn_EdgeIDs = []\<rparr>"
  "node_after zero one H now s ids None = \<lparr>sn_IDHash = SceneNodeID H s, sn_SceneID = s, sn_TopicIDs = ids, sn_Importance = one,
     sn_Valence = zero, sn_Arousal = zero, sn_EmotionSet = False, sn_CreatedAt = now, sn_UpdatedAt = now, sn_EdgeIDs = []\<rparr>"
  by (simp_all add: next_node_def node_after_def)

lemma not_topic: "RecL1SceneNode \<noteq> RecL2Topic"
  by (simp add: RecL1SceneNode_def RecL2Topic_def)

text \<open>
  C32. L1 follows the topics. A sync succeeds when the topics of the domain read back and every node address is free or
  holds a node; then each scene with topics near the surface has a node that lists exactly these, in order; a node that
  was there keeps its importance, its emotion, its edges and its age, and is written, with the time of the pass, just
  when its list changed; no other record changes; and a second pass, whenever it runs, writes nothing.
\<close>

theorem L1_follows_topics:
  assumes codec: "slot_codec tojson dec ok" and small: "\<forall>p. ok p \<longrightarrow> size_of tojson p \<le> n" "n < 2 ^ 32"
    and rep: "engine_rep e m" and scan: "CollectAllTopicsStrict e a = Inr ts" and room: "engine_room e ((RecordHeaderSize + n) * length ts)"
    and fine: "\<forall>s. near_topics ts s \<noteq> {} \<longrightarrow> node_fine dec ok m a (SceneNodeID H s)" and inj: "inj_on (SceneNodeID H) {s. near_topics ts s \<noteq> {}}"
    and legal: "legal_nodes ok zero one H now {(s, ids). near_topics ts s \<noteq> {} \<and> sortedIDs ids = sorted_list_of_set (near_topics ts s)}"
  shows "\<exists>touched e'. SyncL1NodesFromL2 tojson dec zero one H now a e = ((touched, None), e')
    \<and> (\<forall>s. near_topics ts s \<noteq> {} \<longrightarrow> (\<exists>new. ReadSceneNode dec e' a (SceneNodeID H s) = Inr new \<and> sn_TopicIDs new = sorted_list_of_set (near_topics ts s)
        \<and> (\<forall>old. ReadSceneNode dec e a (SceneNodeID H s) = Inr old \<longrightarrow>
            (SceneNodeID H s \<in> set touched \<longleftrightarrow> sn_TopicIDs old \<noteq> sn_TopicIDs new)
            \<and> new = (if SceneNodeID H s \<in> set touched then old\<lparr>sn_TopicIDs := sn_TopicIDs new, sn_UpdatedAt := now\<rparr> else old))
        \<and> (\<forall>err. ReadSceneNode dec e a (SceneNodeID H s) = Inl err \<longrightarrow> SceneNodeID H s \<in> set touched \<and> new =
          \<lparr>sn_IDHash = SceneNodeID H s, sn_SceneID = s, sn_TopicIDs = sorted_list_of_set (near_topics ts s), sn_Importance = one,
            sn_Valence = zero, sn_Arousal = zero, sn_EmotionSet = False, sn_CreatedAt = now, sn_UpdatedAt = now, sn_EdgeIDs = []\<rparr>)))
    \<and> (\<forall>b j. (b, j) \<notin> node_keys H a {s. near_topics ts s \<noteq> {}} \<longrightarrow> ReadRecord e' b j = ReadRecord e b j)
    \<and> (\<forall>later. SyncL1NodesFromL2 tojson dec zero one H later a e' = (([], None), e'))"
proof -
  let ?S = "{s. near_topics ts s \<noteq> {}}" and ?node = "\<lambda>m s. typed_at dec m a RecL1SceneNode (SceneNodeID H s)"
  obtain sc where sc: "collectTopicIDsByScene e a = Inr sc" "distinct (map fst sc)" "fst ` set sc = ?S"
    "\<forall>(s, ids) \<in> set sc. sortedIDs ids = sorted_list_of_set (near_topics ts s)" using collect_law [OF scan] by blast
  have "length sc \<le> length ts" using scenes_bound [of ts] sc(2,3) distinct_card [of "map fst sc"] by simp
  then have "(RecordHeaderSize + n) * length sc \<le> (RecordHeaderSize + n) * length ts" by (rule mult_le_mono2)
  then have room': "engine_room e ((RecordHeaderSize + n) * length sc)" using room unfolding engine_room_def by linarith
  have "set sc \<subseteq> {(s, ids). near_topics ts s \<noteq> {} \<and> sortedIDs ids = sorted_list_of_set (near_topics ts s)}"
    using sc(3,4) by force
  then have legal': "legal_nodes ok zero one H now (set sc)" using legal unfolding legal_nodes_def by blast
  have fine': "\<forall>s \<in> fst ` set sc. node_fine dec ok m a (SceneNodeID H s)" unfolding sc(3) using fine by blast
  obtain touched e' m' where r: "sync_scenes tojson dec zero one H a now sc [] e = ((touched, None), e')" "engine_rep e' m'"
    "\<forall>(s, ids) \<in> set sc. ?node m' s = Some (node_after zero one H now s (sortedIDs ids) (?node m s))"
    "\<forall>k. k \<notin> node_keys H a ?S \<longrightarrow> m' k = m k"
    "set touched = {} \<union> {SceneNodeID H s | s ids. (s, ids) \<in> set sc \<and> next_node zero one (SceneNodeID H s) s (sortedIDs ids) now (?node m s) \<noteq> None}"
    using sync_scenes_law [OF codec small rep fine' room' legal' sc(2) inj [folded sc(3)], of "[]", unfolded sc(3)] by auto
  have read: "ReadSceneNode dec e a (SceneNodeID H s) = Inr x \<longleftrightarrow> ?node m s = Some x" "ReadSceneNode dec e' a (SceneNodeID H s) = Inr x \<longleftrightarrow> ?node m' s = Some x" for s x
    using slot_codec.readJSON_typed [OF codec rep] slot_codec.readJSON_typed [OF codec r(2)] unfolding ReadSceneNode_def by blast+
  have nodes: "?node m' s = Some (node_after zero one H now s (sorted_list_of_set (near_topics ts s)) (?node m s))
      \<and> (SceneNodeID H s \<in> set touched \<longleftrightarrow> next_node zero one (SceneNodeID H s) s (sorted_list_of_set (near_topics ts s)) now (?node m s) \<noteq> None)"
    if "s \<in> ?S" for s
  proof -
    have "s \<in> fst ` set sc" unfolding sc(3) by (rule that)
    then obtain ids where ids: "(s, ids) \<in> set sc" by auto
    then have sorted: "sortedIDs ids = sorted_list_of_set (near_topics ts s)" using sc(4) by blast
    have only: "t = s \<and> ids' = ids" if "(t, ids') \<in> set sc" "SceneNodeID H t = SceneNodeID H s" for t ids'
    proof -
      have "t \<in> fst ` set sc" using that(1) by (rule image_eqI [rotated]) simp
      then have "t \<in> ?S" unfolding sc(3) .
      then have "t = s" using inj that(2) \<open>s \<in> ?S\<close> unfolding inj_on_def by blast
      then show ?thesis using eq_key_imp_eq_value [OF sc(2)] that(1) ids by blast
    qed
    have "SceneNodeID H s \<in> set touched \<longleftrightarrow> next_node zero one (SceneNodeID H s) s (sortedIDs ids) now (?node m s) \<noteq> None"
      unfolding r(5) Un_empty_left mem_Collect_eq using ids only by metis
    moreover have "?node m' s = Some (node_after zero one H now s (sortedIDs ids) (?node m s))" using r(3) ids by blast
    ultimately show ?thesis unfolding sorted by blast
  qed
  have each: "\<exists>new. ReadSceneNode dec e' a (SceneNodeID H s) = Inr new \<and> sn_TopicIDs new = sorted_list_of_set (near_topics ts s)
      \<and> (\<forall>old. ReadSceneNode dec e a (SceneNodeID H s) = Inr old \<longrightarrow>
          (SceneNodeID H s \<in> set touched \<longleftrightarrow> sn_TopicIDs old \<noteq> sn_TopicIDs new)
          \<and> new = (if SceneNodeID H s \<in> set touched then old\<lparr>sn_TopicIDs := sn_TopicIDs new, sn_UpdatedAt := now\<rparr> else old))
      \<and> (\<forall>err. ReadSceneNode dec e a (SceneNodeID H s) = Inl err \<longrightarrow> SceneNodeID H s \<in> set touched \<and> new =
          \<lparr>sn_IDHash = SceneNodeID H s, sn_SceneID = s, sn_TopicIDs = sorted_list_of_set (near_topics ts s), sn_Importance = one,
            sn_Valence = zero, sn_Arousal = zero, sn_EmotionSet = False, sn_CreatedAt = now, sn_UpdatedAt = now, sn_EdgeIDs = []\<rparr>)"
    if "s \<in> ?S" for s
  proof (intro exI conjI allI impI)
    let ?new = "node_after zero one H now s (sorted_list_of_set (near_topics ts s)) (?node m s)"
    note at = nodes [OF that]
    show "ReadSceneNode dec e' a (SceneNodeID H s) = Inr ?new" using at read(2) by blast
    show ids: "sn_TopicIDs ?new = sorted_list_of_set (near_topics ts s)" by (rule node_after_ids)
    fix old assume "ReadSceneNode dec e a (SceneNodeID H s) = Inr old"
    then have old: "?node m s = Some old" using read(1) by blast
    show change: "SceneNodeID H s \<in> set touched \<longleftrightarrow> sn_TopicIDs old \<noteq> sn_TopicIDs ?new" using at unfolding ids old old_node by simp
    show "?new = (if SceneNodeID H s \<in> set touched then old\<lparr>sn_TopicIDs := sn_TopicIDs ?new, sn_UpdatedAt := now\<rparr> else old)"
      unfolding change ids old old_node by simp
  next
    fix err assume "ReadSceneNode dec e a (SceneNodeID H s) = Inl err"
    then have none: "?node m s = None" using read(1) by (cases "?node m s") force+
    show "SceneNodeID H s \<in> set touched" using nodes [OF that] unfolding none no_node by simp
    show "node_after zero one H now s (sorted_list_of_set (near_topics ts s)) (?node m s) =
          \<lparr>sn_IDHash = SceneNodeID H s, sn_SceneID = s, sn_TopicIDs = sorted_list_of_set (near_topics ts s), sn_Importance = one,
            sn_Valence = zero, sn_Arousal = zero, sn_EmotionSet = False, sn_CreatedAt = now, sn_UpdatedAt = now, sn_EdgeIDs = []\<rparr>"
      unfolding none no_node by simp
  qed
  have same_topics: "m (a, i) = Some (RecL2Topic, d) \<longleftrightarrow> m' (a, i) = Some (RecL2Topic, d)" for i d
  proof (cases "(a, i) \<in> node_keys H a ?S")
    case True
    then obtain s where s: "s \<in> ?S" "i = SceneNodeID H s" by (auto simp: node_keys_def)
    have "m' (a, i) \<noteq> Some (RecL2Topic, d)" using nodes [OF s(1)] s(2) not_topic by (auto simp: typed_at_def split: option.splits if_splits)
    moreover have "m (a, i) \<noteq> Some (RecL2Topic, d)" using fine [rule_format, of s] s not_topic by (auto simp: node_fine_def typed_at_def split: option.splits if_splits)
    ultimately show ?thesis by simp
  qed (use r(4) in simp)
  have "collectTopicIDsByScene e' a = Inr sc"
    using sc(1) topics_unchanged [OF rep r(2) same_topics] by (simp add: collectTopicIDsByScene_def)
  moreover have "\<forall>(s, ids) \<in> set sc. \<exists>x. ReadSceneNode dec e' a (SceneNodeID H s) = Inr x \<and> sn_TopicIDs x = sortedIDs ids"
    using each sc(3,4) by fastforce
  ultimately have again: "SyncL1NodesFromL2 tojson dec zero one H later a e' = (([], None), e')" for later
    by (simp add: SyncL1NodesFromL2_def sync_scenes_again)
  have "SyncL1NodesFromL2 tojson dec zero one H now a e = ((touched, None), e')" using sc(1) r(1) by (simp add: SyncL1NodesFromL2_def)
  moreover have "ReadRecord e' b j = ReadRecord e b j" if "(b, j) \<notin> node_keys H a ?S" for b j
    using eng.read_law [OF r(2), of b j] eng.read_law [OF rep, of b j] r(4) that by simp
  ultimately show ?thesis using each again by blast
qed

section \<open>A concrete run\<close>

text \<open>A node without its floating-point fields, and its JSON form over the two lists that vary.\<close>

definition plain_node :: "u64 list \<Rightarrow> unit SceneNode" where
  "plain_node ids = \<lparr>sn_IDHash = 20, sn_SceneID = 7, sn_TopicIDs = ids, sn_Importance = (), sn_Valence = (), sn_Arousal = (),
     sn_EmotionSet = False, sn_CreatedAt = 5, sn_UpdatedAt = 5, sn_EdgeIDs = []\<rparr>"

definition plain_json :: "unit SceneNode \<Rightarrow> goerr + bytes" where
  "plain_json = marshal_struct (\<lambda>n. [(''topic_ids'', j_list j_word (sn_TopicIDs n))])"
definition plain_of :: "bytes \<Rightarrow> goerr + unit SceneNode" where
  "plain_of = unmarshal_struct [(''topic_ids'', slices d_word 0 (\<lambda>ids n. n\<lparr>sn_TopicIDs := ids\<rparr>))] (plain_node [])"
definition plain_ok :: "unit SceneNode \<Rightarrow> bool" where "plain_ok n \<longleftrightarrow> n = plain_node [8, 9]"

interpretation plain: slot_codec plain_json plain_of plain_ok
proof
  fix n assume "plain_ok n"
  then have n: "n = plain_node [8, 9]" by (simp add: plain_ok_def)
  have "good (JObj [(''topic_ids'', j_list j_word (sn_TopicIDs n))])"
    by (simp only: good_member codec_simps name_simps) (simp add: name_simps codec_simps)
  moreover have "set_members [(''topic_ids'', slices d_word 0 (\<lambda>ids n. n\<lparr>sn_TopicIDs := ids\<rparr>))]
      [(''topic_ids'', j_list j_word (sn_TopicIDs n))] (plain_node []) = Some n"
    by (simp add: find_field_def codec_simps n plain_node_def)
  ultimately show "\<exists>data. plain_json n = Inr data \<and> plain_of data = Inr n"
    unfolding plain_json_def plain_of_def by (rule struct_round_trip)
qed

lemma plain_small: "plain_ok p \<Longrightarrow> size_of plain_json p \<le> 100"
proof -
  have "size_of plain_json (plain_node [8, 9]) \<le> 100" by code_simp
  then show "plain_ok p \<Longrightarrow> size_of plain_json p \<le> 100" by (simp add: plain_ok_def)
qed

lemma near_Cons:
  "near_topics [] s = {}" "near_topics (t # ts) s = (if ts_Depth t \<le> 2 \<and> ts_SceneID t = s then insert (ts_ID t) (near_topics ts s) else near_topics ts s)"
  by (auto simp: near_topics_def)

lemma sample_near: "near_topics [sample_topic 8 (Some 9) 2, sample_topic 9 None 1] s = (if s = 7 then {8, 9} else {})"
  by (simp add: near_Cons sample_topic_def)

lemma free_key: "sample_store (1, 20) = None"
  by (simp add: sample_store_def)

theorem L1_follows_topics_witness:
  "\<exists>e touched e'. engine_rep e sample_store \<and> SyncL1NodesFromL2 plain_json plain_of () () (\<lambda>_. 20) 5 1 e = ((touched, None), e')
     \<and> ReadSceneNode plain_of e' 1 20 = Inr (plain_node [8, 9])
     \<and> SyncL1NodesFromL2 plain_json plain_of () () (\<lambda>_. 20) 6 1 e' = (([], None), e')"
proof -
  obtain e where e: "engine_rep e sample_store" "engine_room e (2 ^ 60)" using sample_domain by blast
  let ?ts = "[sample_topic 8 (Some 9) 2, sample_topic 9 None 1]" and ?H = "\<lambda>_ :: string. 20 :: u64"
  have small: "\<forall>p. plain_ok p \<longrightarrow> size_of plain_json p \<le> 100" using plain_small by blast
  have room: "engine_room e ((RecordHeaderSize + 100) * length ?ts)" using e(2) by (simp add: engine_room_def RecordHeaderSize_def)
  have fine: "\<forall>s. near_topics ?ts s \<noteq> {} \<longrightarrow> node_fine plain_of plain_ok sample_store 1 (SceneNodeID ?H s)"
    by (simp add: node_fine_def SceneNodeID_def free_key)
  have inj: "inj_on (SceneNodeID ?H) {s. near_topics ?ts s \<noteq> {}}" by (simp add: sample_near inj_on_def)
  have sorted: "sorted_list_of_set {8, 9 :: u64} = [8, 9]" by code_simp
  have legal: "legal_nodes plain_ok () () ?H 5 {(s, ids). near_topics ?ts s \<noteq> {} \<and> sortedIDs ids = sorted_list_of_set (near_topics ?ts s)}"
    by (auto simp: legal_nodes_def sample_near sorted node_after_def next_node_def plain_ok_def plain_node_def SceneNodeID_def split: option.splits if_splits)
  have absent: "ReadSceneNode plain_of e 1 20 = Inl (NewError ErrNotFound)"
    using plain.readJSON_absent [OF e(1)] free_key by (simp add: ReadSceneNode_def)
  note law = L1_follows_topics [OF plain.slot_codec_axioms small _ e(1) sample_scans(1) [OF e(1)] room fine inj legal]
  obtain touched e' where r: "SyncL1NodesFromL2 plain_json plain_of () () ?H 5 1 e = ((touched, None), e')"
    "\<forall>s. near_topics ?ts s \<noteq> {} \<longrightarrow> (\<exists>new. ReadSceneNode plain_of e' 1 (SceneNodeID ?H s) = Inr new
      \<and> (\<forall>err. ReadSceneNode plain_of e 1 (SceneNodeID ?H s) = Inl err \<longrightarrow> new =
          \<lparr>sn_IDHash = SceneNodeID ?H s, sn_SceneID = s, sn_TopicIDs = sorted_list_of_set (near_topics ?ts s), sn_Importance = (),
            sn_Valence = (), sn_Arousal = (), sn_EmotionSet = False, sn_CreatedAt = 5, sn_UpdatedAt = 5, sn_EdgeIDs = []\<rparr>))"
    "\<forall>later. SyncL1NodesFromL2 plain_json plain_of () () ?H later 1 e' = (([], None), e')"
    using law by fastforce
  have "ReadSceneNode plain_of e' 1 20 = Inr (plain_node [8, 9])"
    using r(2) [rule_format, of 7] absent by (auto simp: sample_near sorted SceneNodeID_def plain_node_def)
  then show ?thesis using e(1) r(1,3) by blast
qed

end
