(* ===== verification/Engram_Correct.thy ===== *)
theory Engram_Correct
  imports Engram Sample_Store
begin

text \<open>
  What the passes over the L1 network do to its two maps. Each operation is given as a function of the maps; the laws say
  that the operation succeeds when its writes fit, and has that effect. The reasoning about a whole decay is then about
  partial functions.
\<close>

text \<open>
  The L1 network as the engine stores it: the scene nodes and the hyperedges of one agent, as two partial maps, over the
  records the passes do not touch. Every read, write, scan and delete of the passes is an operation on the two maps.
\<close>

definition l1_kind :: "store \<Rightarrow> u64 \<Rightarrow> u64 \<Rightarrow> bool" where
  "l1_kind m a i \<longleftrightarrow> (case m (a, i) of None \<Rightarrow> False | Some (t, d) \<Rightarrow> t = RecL1SceneNode \<or> t = RecL1Hyperedge)"

text \<open>A codec of the two records whose values stay valid: \<open>N\<close> bounds their encodings and \<open>K\<close> their lists.\<close>

definition l1_codec :: "'f l1_json \<Rightarrow> ('f SceneNode \<Rightarrow> bool) \<Rightarrow> ('f SceneEdge \<Rightarrow> bool) \<Rightarrow> nat \<Rightarrow> nat \<Rightarrow> bool" where
  "l1_codec J okn oke N K \<longleftrightarrow> slot_codec (put_node J) (get_node J) okn \<and> slot_codec (put_edge J) (get_edge J) oke \<and> N < 2 ^ 32
     \<and> (\<forall>n. okn n \<longrightarrow> size_of (put_node J) n \<le> N \<and> length (sn_EdgeIDs n) \<le> K)
     \<and> (\<forall>x. oke x \<longrightarrow> size_of (put_edge J) x \<le> N \<and> length (se_NodeIDs x) \<le> K)"

type_synonym 'f nodes = "u64 \<rightharpoonup> 'f SceneNode"
type_synonym 'f edges = "u64 \<rightharpoonup> 'f SceneEdge"

definition nodes_in :: "'f l1_json \<Rightarrow> store \<Rightarrow> u64 \<Rightarrow> 'f nodes" where
  "nodes_in J m a i = typed_at (get_node J) m a RecL1SceneNode i"
definition edges_in :: "'f l1_json \<Rightarrow> store \<Rightarrow> u64 \<Rightarrow> 'f edges" where
  "edges_in J m a i = typed_at (get_edge J) m a RecL1Hyperedge i"

definition l1_sound :: "'f l1_json \<Rightarrow> ('f SceneNode \<Rightarrow> bool) \<Rightarrow> ('f SceneEdge \<Rightarrow> bool) \<Rightarrow> store \<Rightarrow> u64 \<Rightarrow> bool" where
  "l1_sound J okn oke m a \<longleftrightarrow> (\<forall>i. l1_kind m a i \<longrightarrow>
     (\<exists>n. nodes_in J m a i = Some n \<and> okn n \<and> sn_IDHash n = i) \<or> (\<exists>x. edges_in J m a i = Some x \<and> oke x))"

definition net_rep :: "'f l1_json \<Rightarrow> ('f SceneNode \<Rightarrow> bool) \<Rightarrow> ('f SceneEdge \<Rightarrow> bool) \<Rightarrow> u64 \<Rightarrow> store \<Rightarrow> StorageEngine \<Rightarrow> nat
    \<Rightarrow> 'f nodes \<Rightarrow> 'f edges \<Rightarrow> bool" where
  "net_rep J okn oke a base e k N E \<longleftrightarrow> (\<exists>m. engine_rep e m \<and> engine_room e k \<and> l1_sound J okn oke m a
     \<and> N = nodes_in J m a \<and> E = edges_in J m a
     \<and> (\<forall>b i. if b = a \<and> l1_kind base a i then m (a, i) = None \<or> l1_kind m a i else m (b, i) = base (b, i)))"

lemma l1_types: "RecL1SceneNode \<noteq> RecL1Hyperedge" "RecL1SceneNode \<noteq> 0" "RecL1Hyperedge \<noteq> 0"
  by (simp_all add: RecL1SceneNode_def RecL1Hyperedge_def)

lemma in_kind: "nodes_in J m a i = Some n \<Longrightarrow> l1_kind m a i" "edges_in J m a i = Some x \<Longrightarrow> l1_kind m a i"
  by (auto simp: nodes_in_def edges_in_def typed_at_def l1_kind_def split: option.splits if_splits)

lemma not_both: "nodes_in J m a i = Some n \<Longrightarrow> edges_in J m a i = None"
  using l1_types(1) by (auto simp: nodes_in_def edges_in_def typed_at_def split: option.splits if_splits)

lemma net_start:
  assumes "engine_rep e m" "engine_room e k" "l1_sound J okn oke m a"
  shows "net_rep J okn oke a m e k (nodes_in J m a) (edges_in J m a)"
  using assms by (auto simp: net_rep_def)

lemma net_less_room: "net_rep J okn oke a base e k N E \<Longrightarrow> j \<le> k \<Longrightarrow> net_rep J okn oke a base e j N E"
  unfolding net_rep_def engine_room_def by (elim exE conjE) (intro exI conjI; assumption?; linarith?)

lemma net_valid:
  assumes "net_rep J okn oke a base e k N E"
  shows "N i = Some n \<Longrightarrow> okn n \<and> sn_IDHash n = i \<and> E i = None" "E i = Some x \<Longrightarrow> oke x \<and> N i = None"
proof -
  obtain m where m: "l1_sound J okn oke m a" "N = nodes_in J m a" "E = edges_in J m a" using assms by (auto simp: net_rep_def)
  show "N i = Some n \<Longrightarrow> okn n \<and> sn_IDHash n = i \<and> E i = None"
    using m in_kind(1) [of J m a i n] not_both [of J m a i] unfolding l1_sound_def by fastforce
  show "E i = Some x \<Longrightarrow> oke x \<and> N i = None"
    using m in_kind(2) [of J m a i x] not_both [of J m a i] unfolding l1_sound_def by fastforce
qed

section \<open>Reads\<close>

lemma net_read:
  assumes "l1_codec J okn oke s q" "net_rep J okn oke a base e k N E"
  shows "ReadSceneNode (get_node J) e a i = (case N i of Some n \<Rightarrow> Inr n | None \<Rightarrow> Inl (NewError ErrNotFound))"
    and "ReadSceneEdge J e a i = (case E i of Some x \<Rightarrow> Inr x | None \<Rightarrow> Inl (NewError ErrNotFound))"
proof -
  obtain m where m: "engine_rep e m" "l1_sound J okn oke m a" "N = nodes_in J m a" "E = edges_in J m a"
    using assms(2) by (auto simp: net_rep_def)
  have c: "slot_codec (put_node J) (get_node J) okn" "slot_codec (put_edge J) (get_edge J) oke" using assms(1) by (auto simp: l1_codec_def)
  have absent: "m (a, i) = None \<or> (\<exists>t d. m (a, i) = Some (t, d) \<and> t \<noteq> rt)"
    if "rt = RecL1SceneNode \<and> N i = None \<or> rt = RecL1Hyperedge \<and> E i = None" for rt
  proof (rule ccontr)
    assume "\<not> ?thesis"
    then obtain d where d: "m (a, i) = Some (rt, d)" by (cases "m (a, i)") auto
    then have "l1_kind m a i" using that by (auto simp: l1_kind_def)
    then show False using m(2) that d l1_types(1) unfolding l1_sound_def m(3,4)
      by (auto simp: nodes_in_def edges_in_def typed_at_def split: if_splits dest!: spec [of _ i])
  qed
  show "ReadSceneNode (get_node J) e a i = (case N i of Some n \<Rightarrow> Inr n | None \<Rightarrow> Inl (NewError ErrNotFound))"
    using slot_codec.readJSON_typed [OF c(1) m(1), of a i RecL1SceneNode] slot_codec.readJSON_absent [OF c(1) m(1) absent]
    by (auto simp: ReadSceneNode_def m(3) nodes_in_def split: option.splits)
  show "ReadSceneEdge J e a i = (case E i of Some x \<Rightarrow> Inr x | None \<Rightarrow> Inl (NewError ErrNotFound))"
    using slot_codec.readJSON_typed [OF c(2) m(1), of a i RecL1Hyperedge] slot_codec.readJSON_absent [OF c(2) m(1) absent]
    by (auto simp: ReadSceneEdge_def m(4) edges_in_def split: option.splits)
qed

text \<open>Whether an id names a record: a node, an edge, or a record of another kind, which no pass moves.\<close>

definition present :: "u64 \<Rightarrow> store \<Rightarrow> 'f nodes \<Rightarrow> 'f edges \<Rightarrow> u64 \<Rightarrow> bool" where
  "present a base N E i \<longleftrightarrow> N i \<noteq> None \<or> E i \<noteq> None \<or> base (a, i) \<noteq> None \<and> \<not> l1_kind base a i"

lemma net_contains:
  assumes "net_rep J okn oke a base e k N E"
  shows "Contains e a i \<longleftrightarrow> present a base N E i"
proof -
  obtain m where m: "engine_rep e m" "l1_sound J okn oke m a" "N = nodes_in J m a" "E = edges_in J m a"
    "if l1_kind base a i then m (a, i) = None \<or> l1_kind m a i else m (a, i) = base (a, i)"
    using assms unfolding net_rep_def by metis
  have "l1_kind m a i \<longleftrightarrow> N i \<noteq> None \<or> E i \<noteq> None" using m(2) in_kind [of J m a i] unfolding l1_sound_def m(3,4) by blast
  moreover have "l1_kind m a i \<Longrightarrow> m (a, i) \<noteq> None" by (auto simp: l1_kind_def split: option.splits)
  moreover have "\<not> l1_kind base a i \<Longrightarrow> m (a, i) = base (a, i)" using m(5) by simp
  ultimately show ?thesis using eng.has_law [OF m(1), of a i] m(5)
    unfolding present_def by (cases "l1_kind base a i") auto
qed

lemma net_others:
  assumes "net_rep J okn oke a base e k N E" "engine_rep e0 base" "b \<noteq> a \<or> \<not> l1_kind base a i"
  shows "ReadRecord e b i = ReadRecord e0 b i"
proof -
  obtain m where m: "engine_rep e m" "if b = a \<and> l1_kind base a i then m (a, i) = None \<or> l1_kind m a i else m (b, i) = base (b, i)"
    using assms(1) unfolding net_rep_def by metis
  then have "m (b, i) = base (b, i)" using assms(3) by (auto split: if_splits)
  then show ?thesis using eng.read_law [OF m(1), of b i] eng.read_law [OF assms(2), of b i] by simp
qed

lemma net_scans:
  assumes "l1_codec J okn oke s q" "net_rep J okn oke a base e k N E"
  shows "\<exists>ids. CollectAllStrict (get_node J) e a RecL1SceneNode = Inr (map (\<lambda>i. the (N i)) ids) \<and> distinct ids \<and> set ids = dom N"
    and "distinct (IndexByType e a RecL1Hyperedge) \<and> set (IndexByType e a RecL1Hyperedge) = dom E"
proof -
  obtain m where m: "engine_rep e m" "l1_sound J okn oke m a" "N = nodes_in J m a" "E = edges_in J m a"
    using assms(2) by (auto simp: net_rep_def)
  have c: "slot_codec (put_node J) (get_node J) okn" using assms(1) by (auto simp: l1_codec_def)
  have here: "nodes_in J m a i \<noteq> None" if "m (a, i) = Some (RecL1SceneNode, d)" for i d
    using m(2) that l1_types(1) unfolding l1_sound_def
    by (auto simp: l1_kind_def edges_in_def typed_at_def split: if_splits dest!: spec [of _ i])
  have here': "edges_in J m a i \<noteq> None" if "m (a, i) = Some (RecL1Hyperedge, d)" for i d
    using m(2) that l1_types(1) unfolding l1_sound_def
    by (auto simp: l1_kind_def nodes_in_def typed_at_def split: if_splits dest!: spec [of _ i])
  have typed: "(\<exists>d. m (a, i) = Some (RecL1SceneNode, d)) \<longleftrightarrow> N i \<noteq> None" "(\<exists>d. m (a, i) = Some (RecL1Hyperedge, d)) \<longleftrightarrow> E i \<noteq> None" for i
    using here [of i] here' [of i] unfolding m(3,4) by (auto simp: nodes_in_def edges_in_def typed_at_def split: option.splits if_splits)
  have "CollectAllStrict (get_node J) e a RecL1SceneNode = Inr (map (\<lambda>i. the (N i)) (IndexByType e a RecL1SceneNode))"
    using slot_codec.CollectAllStrict_law(1) [OF c m(1), of a RecL1SceneNode] here unfolding m(3) nodes_in_def by blast
  then show "\<exists>ids. CollectAllStrict (get_node J) e a RecL1SceneNode = Inr (map (\<lambda>i. the (N i)) ids) \<and> distinct ids \<and> set ids = dom N"
    using eng.ids_law [OF m(1), of a RecL1SceneNode] typed(1) by (intro exI [of _ "IndexByType e a RecL1SceneNode"]) auto
  show "distinct (IndexByType e a RecL1Hyperedge) \<and> set (IndexByType e a RecL1Hyperedge) = dom E"
    using eng.ids_law [OF m(1), of a RecL1Hyperedge] typed(2) by auto
qed

section \<open>Writes and deletes\<close>

lemma put_l1:
  assumes m: "engine_rep e m" "l1_sound J okn oke m a"
    and frame: "\<forall>b i. if b = a \<and> l1_kind base a i then m (a, i) = None \<or> l1_kind m a i else m (b, i) = base (b, i)"
    and there: "l1_kind m a i"
  shows "l1_kind base a i"
  using frame [rule_format, of a i] there by (auto simp: l1_kind_def split: if_splits)

lemma net_write_node:
  assumes codec: "l1_codec J okn oke s q" and rep: "net_rep J okn oke a base e (RecordHeaderSize + s + k) N E"
    and n: "N i \<noteq> None" "okn n" "sn_IDHash n = i"
  shows "\<exists>e'. WriteSceneNode (put_node J) a i n e = (Inr (), e') \<and> net_rep J okn oke a base e' k (N(i \<mapsto> n)) E"
proof -
  obtain m where m: "engine_rep e m" "engine_room e (RecordHeaderSize + s + k)" "l1_sound J okn oke m a" "N = nodes_in J m a" "E = edges_in J m a"
    and frame: "\<forall>b i. if b = a \<and> l1_kind base a i then m (a, i) = None \<or> l1_kind m a i else m (b, i) = base (b, i)"
    using rep by (auto simp: net_rep_def)
  have c: "slot_codec (put_node J) (get_node J) okn" "size_of (put_node J) n \<le> s" "s < 2 ^ 32" using codec n(2) by (auto simp: l1_codec_def)
  have "size_of (put_node J) n < 2 ^ 32" "engine_room e (RecordHeaderSize + size_of (put_node J) n + k)"
    using c m(2) by (auto simp: engine_room_def intro: le_less_trans)
  then obtain e' where e': "writeJSON (put_node J) a RecL1SceneNode i n e = (Inr (), e')"
    "engine_rep e' (m((a, i) \<mapsto> record_of (put_node J) RecL1SceneNode n))" "engine_room e' k"
    using slot_codec.writeJSON_law [OF c(1) m(1) n(2) _ l1_types(2)] by blast
  let ?m = "m((a, i) \<mapsto> record_of (put_node J) RecL1SceneNode n)"
  have here: "typed_at (get_node J) ?m a RecL1SceneNode i = Some n" using slot_codec.typed_record_of [OF c(1)] n(2) by simp
  have nodes: "nodes_in J ?m a = N(i \<mapsto> n)" using here unfolding m(4) by (auto simp: fun_eq_iff nodes_in_def typed_at_def)
  have "E i = None" using n(1) not_both [of J m a i] unfolding m(4,5) by auto
  then have edges: "edges_in J ?m a = E" using l1_types(1) unfolding m(5) by (auto simp: fun_eq_iff edges_in_def typed_at_def record_of_def)
  have kind: "l1_kind ?m a j \<longleftrightarrow> l1_kind m a j \<or> j = i" for j by (auto simp: l1_kind_def record_of_def)
  have sound: "l1_sound J okn oke ?m a" unfolding l1_sound_def nodes edges kind
    using m(3) n(2,3) unfolding l1_sound_def m(4,5) by auto
  have there: "l1_kind m a i" using n(1) in_kind(1) [of J m a i] unfolding m(4) by auto
  have "l1_kind base a i" by (rule put_l1 [OF m(1,3) frame there])
  then have frame': "\<forall>b j. if b = a \<and> l1_kind base a j then ?m (a, j) = None \<or> l1_kind ?m a j else ?m (b, j) = base (b, j)"
    using frame kind by (simp add: fun_upd_apply)
  have "net_rep J okn oke a base e' k (N(i \<mapsto> n)) E"
    unfolding net_rep_def using e'(2,3) sound frame' by (intro exI [of _ ?m]) (simp add: nodes edges)
  then show ?thesis using e'(1) by (auto simp: WriteSceneNode_def)
qed

lemma net_write_edge:
  assumes codec: "l1_codec J okn oke s q" and rep: "net_rep J okn oke a base e (RecordHeaderSize + s + k) N E"
    and x: "E i \<noteq> None" "oke x"
  shows "\<exists>e'. WriteSceneEdge J a i x e = (Inr (), e') \<and> net_rep J okn oke a base e' k N (E(i \<mapsto> x))"
proof -
  obtain m where m: "engine_rep e m" "engine_room e (RecordHeaderSize + s + k)" "l1_sound J okn oke m a" "N = nodes_in J m a" "E = edges_in J m a"
    and frame: "\<forall>b i. if b = a \<and> l1_kind base a i then m (a, i) = None \<or> l1_kind m a i else m (b, i) = base (b, i)"
    using rep by (auto simp: net_rep_def)
  have c: "slot_codec (put_edge J) (get_edge J) oke" "size_of (put_edge J) x \<le> s" "s < 2 ^ 32" using codec x(2) by (auto simp: l1_codec_def)
  have "size_of (put_edge J) x < 2 ^ 32" "engine_room e (RecordHeaderSize + size_of (put_edge J) x + k)"
    using c m(2) by (auto simp: engine_room_def intro: le_less_trans)
  then obtain e' where e': "writeJSON (put_edge J) a RecL1Hyperedge i x e = (Inr (), e')"
    "engine_rep e' (m((a, i) \<mapsto> record_of (put_edge J) RecL1Hyperedge x))" "engine_room e' k"
    using slot_codec.writeJSON_law [OF c(1) m(1) x(2) _ l1_types(3)] by blast
  let ?m = "m((a, i) \<mapsto> record_of (put_edge J) RecL1Hyperedge x)"
  have here: "typed_at (get_edge J) ?m a RecL1Hyperedge i = Some x" using slot_codec.typed_record_of [OF c(1)] x(2) by simp
  have edges: "edges_in J ?m a = E(i \<mapsto> x)" using here unfolding m(5) by (auto simp: fun_eq_iff edges_in_def typed_at_def)
  have "N i = None" using x(1) not_both [of J m a i] unfolding m(4,5) by fastforce
  then have nodes: "nodes_in J ?m a = N" using l1_types(1) unfolding m(4) by (auto simp: fun_eq_iff nodes_in_def typed_at_def record_of_def)
  have kind: "l1_kind ?m a j \<longleftrightarrow> l1_kind m a j \<or> j = i" for j by (auto simp: l1_kind_def record_of_def)
  have sound: "l1_sound J okn oke ?m a" unfolding l1_sound_def nodes edges kind
    using m(3) x(2) unfolding l1_sound_def m(4,5) by auto
  have there: "l1_kind m a i" using x(1) in_kind(2) [of J m a i] unfolding m(5) by auto
  have "l1_kind base a i" by (rule put_l1 [OF m(1,3) frame there])
  then have frame': "\<forall>b j. if b = a \<and> l1_kind base a j then ?m (a, j) = None \<or> l1_kind ?m a j else ?m (b, j) = base (b, j)"
    using frame kind by (simp add: fun_upd_apply)
  have "net_rep J okn oke a base e' k N (E(i \<mapsto> x))"
    unfolding net_rep_def using e'(2,3) sound frame' by (intro exI [of _ ?m]) (simp add: nodes edges)
  then show ?thesis using e'(1) by (auto simp: WriteSceneEdge_def)
qed

lemma net_delete:
  assumes rep: "net_rep J okn oke a base e (RecordHeaderSize + k) N E" and there: "N i \<noteq> None \<or> E i \<noteq> None"
  shows "\<exists>b e'. DeleteRecord a i e = (Inr b, e') \<and> net_rep J okn oke a base e' k (N(i := None)) (E(i := None))"
proof -
  obtain m where m: "engine_rep e m" "engine_room e (RecordHeaderSize + k)" "l1_sound J okn oke m a" "N = nodes_in J m a" "E = edges_in J m a"
    and frame: "\<forall>b i. if b = a \<and> l1_kind base a i then m (a, i) = None \<or> l1_kind m a i else m (b, i) = base (b, i)"
    using rep by (auto simp: net_rep_def)
  obtain n e' where e': "DeleteRecordBatch a [i] e = (Inr n, e')" "engine_rep e' (del_all a [i] m)" "engine_room e' k"
    using eng.delete_law [OF m(1), of "[i]" k a] m(2) by auto
  let ?m = "del_all a [i] m"
  have at: "?m (b, j) = (if b = a \<and> j = i then None else m (b, j))" for b j by (simp add: del_all_def)
  have maps: "nodes_in J ?m a = N(i := None)" "edges_in J ?m a = E(i := None)"
    unfolding m(4,5) by (auto simp: fun_eq_iff nodes_in_def edges_in_def typed_at_def at)
  have kind: "l1_kind ?m a j \<longleftrightarrow> l1_kind m a j \<and> j \<noteq> i" for j by (auto simp: l1_kind_def at)
  have sound: "l1_sound J okn oke ?m a" unfolding l1_sound_def maps kind
    using m(3) unfolding l1_sound_def m(4,5) by auto
  have there: "l1_kind m a i" using there in_kind [of J m a i] unfolding m(4,5) by auto
  have "l1_kind base a i" by (rule put_l1 [OF m(1,3) frame there])
  then have frame': "\<forall>b j. if b = a \<and> l1_kind base a j then ?m (a, j) = None \<or> l1_kind ?m a j else ?m (b, j) = base (b, j)"
    using frame unfolding kind at by (simp split: if_splits)
  have "net_rep J okn oke a base e' k (N(i := None)) (E(i := None))"
    unfolding net_rep_def using e'(2,3) sound frame' by (intro exI [of _ ?m]) (simp add: maps)
  then show ?thesis using e'(1) by (auto simp: DeleteRecord_batch)
qed

definition trims :: "('f SceneNode \<Rightarrow> bool) \<Rightarrow> ('f SceneEdge \<Rightarrow> bool) \<Rightarrow> bool" where
  "trims okn oke \<longleftrightarrow> (\<forall>n P. okn n \<longrightarrow> okn (n\<lparr>sn_EdgeIDs := filter P (sn_EdgeIDs n)\<rparr>))
     \<and> (\<forall>x P. oke x \<longrightarrow> oke (x\<lparr>se_NodeIDs := filter P (se_NodeIDs x)\<rparr>))"

lemma filter_all: "length (filter P xs) = length xs \<longleftrightarrow> filter P xs = xs"
  by (metis filter_id_conv length_filter_less less_irrefl)

lemma trim_same [simp]: "filter P (sn_EdgeIDs n) = sn_EdgeIDs n \<Longrightarrow> n\<lparr>sn_EdgeIDs := filter P (sn_EdgeIDs n)\<rparr> = n"
  "filter Q (se_NodeIDs x) = se_NodeIDs x \<Longrightarrow> x\<lparr>se_NodeIDs := filter Q (se_NodeIDs x)\<rparr> = x"
  by simp_all

section \<open>One edge\<close>

text \<open>An edge leaves the edge lists of the nodes \<open>ms\<close>.\<close>

definition drop_refs :: "u64 \<Rightarrow> u64 set \<Rightarrow> 'f nodes \<Rightarrow> 'f nodes" where
  "drop_refs y S N i = map_option (\<lambda>n. if i \<in> S then n\<lparr>sn_EdgeIDs := filter (\<lambda>z. z \<noteq> y) (sn_EdgeIDs n)\<rparr> else n) (N i)"

lemma drop_refs_none [simp]: "drop_refs y {} N = N"
  by (simp add: drop_refs_def fun_eq_iff option.map_ident)

lemma drop_refs_more: "drop_refs y T (drop_refs y S N) = drop_refs y (S \<union> T) N"
  by (auto simp: drop_refs_def fun_eq_iff option.map_comp comp_def intro!: option.map_cong)

lemma removeEdge_law:
  assumes codec: "l1_codec J okn oke s q" and trims: "trims okn oke" and rep: "net_rep J okn oke a base e (RecordHeaderSize + s + k) N E"
  shows "\<exists>e'. removeEdgeFromNode J a i y e = (Inr (), e') \<and> net_rep J okn oke a base e' k (drop_refs y {i} N) E"
proof (cases "N i")
  case None
  have "drop_refs y {i} N j = N j" for j using None by (cases "N j") (auto simp: drop_refs_def)
  then have "drop_refs y {i} N = N" by blast
  then show ?thesis using net_read(1) [OF codec rep, of i] None net_less_room [OF rep, of k] by (simp add: removeEdgeFromNode_def)
next
  case (Some n)
  let ?n = "n\<lparr>sn_EdgeIDs := filter (\<lambda>z. z \<noteq> y) (sn_EdgeIDs n)\<rparr>"
  have upd: "drop_refs y {i} N = N(i \<mapsto> ?n)" using Some by (auto simp: drop_refs_def fun_eq_iff option.map_ident)
  show ?thesis
  proof (cases "length (filter (\<lambda>z. z \<noteq> y) (sn_EdgeIDs n)) = length (sn_EdgeIDs n)")
    case True
    then have "?n = n" by (simp add: filter_all)
    then have "drop_refs y {i} N = N" using upd Some by (auto simp: fun_eq_iff)
    then show ?thesis using net_read(1) [OF codec rep, of i] Some True net_less_room [OF rep, of k] by (simp add: removeEdgeFromNode_def Let_def)
  next
    case False
    have "okn ?n" "sn_IDHash ?n = i" using net_valid(1) [OF rep Some] trims by (auto simp: trims_def)
    then show ?thesis using net_write_node [OF codec rep, of i ?n] net_read(1) [OF codec rep, of i] Some False
      by (simp add: removeEdgeFromNode_def Let_def upd)
  qed
qed

lemma clear_refs_law:
  assumes codec: "l1_codec J okn oke s q" and trims: "trims okn oke"
  shows "net_rep J okn oke a base e ((RecordHeaderSize + s) * length ms + k) N E
    \<Longrightarrow> \<exists>e'. clear_refs J a y ms e = (Inr (), e') \<and> net_rep J okn oke a base e' k (drop_refs y (set ms) N) E"
proof (induction ms arbitrary: e N)
  case (Cons i ms)
  have "net_rep J okn oke a base e (RecordHeaderSize + s + ((RecordHeaderSize + s) * length ms + k)) N E"
    using Cons.prems by (simp add: algebra_simps)
  then obtain e1 where e1: "removeEdgeFromNode J a i y e = (Inr (), e1)"
    "net_rep J okn oke a base e1 ((RecordHeaderSize + s) * length ms + k) (drop_refs y {i} N) E"
    using removeEdge_law [OF codec trims] by blast
  show ?case using Cons.IH [OF e1(2)] e1(1) by (simp add: drop_refs_more)
qed simp

lemma drop_edge_law:
  assumes codec: "l1_codec J okn oke s q" and trims: "trims okn oke"
    and rep: "net_rep J okn oke a base e ((RecordHeaderSize + s) * (length ms + 1) + k) N E" and there: "E y \<noteq> None"
  shows "\<exists>e'. drop_edge J a y ms e = (Inr (), e') \<and> net_rep J okn oke a base e' k (drop_refs y (set ms) N) (E(y := None))"
proof -
  have "net_rep J okn oke a base e ((RecordHeaderSize + s) * length ms + (RecordHeaderSize + s + k)) N E"
    using rep by (simp add: algebra_simps)
  then obtain e1 where e1: "clear_refs J a y ms e = (Inr (), e1)" "net_rep J okn oke a base e1 (RecordHeaderSize + s + k) (drop_refs y (set ms) N) E"
    using clear_refs_law [OF codec trims] by blast
  have "net_rep J okn oke a base e1 (RecordHeaderSize + k) (drop_refs y (set ms) N) E" by (rule net_less_room [OF e1(2)]) simp
  then obtain b e' where e': "DeleteRecord a y e1 = (Inr b, e')"
    "net_rep J okn oke a base e' k ((drop_refs y (set ms) N)(y := None)) (E(y := None))" using net_delete there by blast
  have "drop_refs y (set ms) N y = None" using net_valid(2) [OF e1(2), of y] there by auto
  then have "(drop_refs y (set ms) N)(y := None) = drop_refs y (set ms) N" by (simp add: fun_upd_idem)
  then show ?thesis using e1(1) e' by (simp add: drop_edge_def)
qed

text \<open>A node leaves an edge.\<close>

definition strip_one :: "int \<Rightarrow> u64 \<times> u64 \<Rightarrow> 'f nodes \<times> 'f edges \<Rightarrow> 'f nodes \<times> 'f edges" where
  "strip_one least p NE = (case p of (y, j) \<Rightarrow> (case NE of (N, E) \<Rightarrow> (case E y of None \<Rightarrow> (N, E)
     | Some x \<Rightarrow> let ms = filter (\<lambda>i. i \<noteq> j) (se_NodeIDs x)
         in if ms = se_NodeIDs x then (N, E)
            else if int (length ms) < least then (drop_refs y (set ms) N, E(y := None))
            else (N, E(y \<mapsto> x\<lparr>se_NodeIDs := ms\<rparr>)))))"

lemma removeNode_law:
  assumes codec: "l1_codec J okn oke s q" and trims: "trims okn oke"
    and rep: "net_rep J okn oke a base e ((RecordHeaderSize + s) * (q + 1) + k) N E"
  shows "\<exists>gone e'. removeNodeFromEdge J cfg a y j e = (Inr gone, e')
    \<and> net_rep J okn oke a base e' k (fst (strip_one (dp_MinEdgeNodes cfg) (y, j) (N, E))) (snd (strip_one (dp_MinEdgeNodes cfg) (y, j) (N, E)))"
proof (cases "E y")
  case None
  then show ?thesis using net_read(2) [OF codec rep, of y] net_less_room [OF rep, of k]
    by (intro exI [of _ False] exI [of _ e]) (simp add: removeNodeFromEdge_def strip_one_def)
next
  case (Some x)
  let ?ms = "filter (\<lambda>i. i \<noteq> j) (se_NodeIDs x)"
  note read = net_read(2) [OF codec rep, of y] and valid = net_valid(2) [OF rep Some]
  have q: "length (se_NodeIDs x) \<le> q" using codec valid by (simp add: l1_codec_def)
  show ?thesis
  proof (cases "?ms = se_NodeIDs x")
    case True
    then show ?thesis using Some read net_less_room [OF rep, of k]
      by (intro exI [of _ False] exI [of _ e]) (simp add: removeNodeFromEdge_def strip_one_def filter_all)
  next
    case changed: False
    then have len: "length ?ms \<noteq> length (se_NodeIDs x)" by (simp add: filter_all)
    show ?thesis
    proof (cases "int (length ?ms) < dp_MinEdgeNodes cfg")
      case True
      have "length ?ms + 1 \<le> q + 1" using le_trans [OF length_filter_le q] by simp
      then have "(RecordHeaderSize + s) * (length ?ms + 1) + k \<le> (RecordHeaderSize + s) * (q + 1) + k" by (rule add_right_mono [OF mult_le_mono2])
      then have "net_rep J okn oke a base e ((RecordHeaderSize + s) * (length ?ms + 1) + k) N E" by (rule net_less_room [OF rep])
      then obtain e' where "drop_edge J a y ?ms e = (Inr (), e')" "net_rep J okn oke a base e' k (drop_refs y (set ?ms) N) (E(y := None))"
        using drop_edge_law [OF codec trims, of a base e ?ms k N E y] Some by auto
      then show ?thesis using Some read changed len True
        by (intro exI [of _ True] exI [of _ e']) (simp add: removeNodeFromEdge_def strip_one_def Let_def)
    next
      case False
      have "net_rep J okn oke a base e (RecordHeaderSize + s + k) N E" by (rule net_less_room [OF rep]) (simp add: algebra_simps)
      moreover have "oke (x\<lparr>se_NodeIDs := ?ms\<rparr>)" using valid trims by (simp add: trims_def)
      ultimately obtain e' where "WriteSceneEdge J a y (x\<lparr>se_NodeIDs := ?ms\<rparr>) e = (Inr (), e')"
        "net_rep J okn oke a base e' k N (E(y \<mapsto> x\<lparr>se_NodeIDs := ?ms\<rparr>))"
        using net_write_edge [OF codec, of a base e k N E y] Some by fastforce
      then show ?thesis using Some read changed len False
        by (intro exI [of _ False] exI [of _ e']) (simp add: removeNodeFromEdge_def strip_one_def Let_def)
    qed
  qed
qed

lemma propagate_law:
  assumes codec: "l1_codec J okn oke s q" and trims: "trims okn oke"
  shows "net_rep J okn oke a base e ((RecordHeaderSize + s) * (q + 1) * length ps + k) N E
    \<Longrightarrow> \<exists>rep' e'. propagate_loop J cfg a ps rep e = ((rep', None), e')
      \<and> net_rep J okn oke a base e' k (fst (fold (strip_one (dp_MinEdgeNodes cfg)) ps (N, E))) (snd (fold (strip_one (dp_MinEdgeNodes cfg)) ps (N, E)))"
proof (induction ps arbitrary: e N E rep)
  case (Cons p ps)
  obtain y j where p: "p = (y, j)" by (cases p)
  let ?NE = "strip_one (dp_MinEdgeNodes cfg) (y, j) (N, E)"
  have "net_rep J okn oke a base e ((RecordHeaderSize + s) * (q + 1) + ((RecordHeaderSize + s) * (q + 1) * length ps + k)) N E"
    using Cons.prems by (simp add: algebra_simps)
  then obtain gone e1 where e1: "removeNodeFromEdge J cfg a y j e = (Inr gone, e1)"
    "net_rep J okn oke a base e1 ((RecordHeaderSize + s) * (q + 1) * length ps + k) (fst ?NE) (snd ?NE)"
    using removeNode_law [OF codec trims] by blast
  show ?case using Cons.IH [OF e1(2), of "if gone then count_edge rep else rep"] e1(1) by (simp add: p)
qed simp

section \<open>Decay of the nodes\<close>

definition faded_node :: "'f float64 \<Rightarrow> 'f DecayParams \<Rightarrow> i64 \<Rightarrow> 'f SceneNode \<Rightarrow> 'f SceneNode" where
  "faded_node F cfg now n = n\<lparr>sn_Importance := node_importance F cfg now n,
     sn_EdgeIDs := (if f_lt F (node_importance F cfg now n) (dp_NodePruneEdgeThreshold cfg) then [] else sn_EdgeIDs n), sn_UpdatedAt := now\<rparr>"

text \<open>What becomes of a node: a deep one stays, one below the threshold goes, any other fades.\<close>

definition node_fate :: "'f float64 \<Rightarrow> 'f DecayParams \<Rightarrow> L2MetaIndex \<Rightarrow> i64 \<Rightarrow> 'f SceneNode \<Rightarrow> 'f SceneNode option" where
  "node_fate F cfg l2 now n =
     (if skipDeepNode l2 n then Some n else if f_lt F (node_importance F cfg now n) (dp_NodeRemoveThreshold cfg) then None
      else Some (faded_node F cfg now n))"

definition pruned :: "'f float64 \<Rightarrow> 'f DecayParams \<Rightarrow> L2MetaIndex \<Rightarrow> i64 \<Rightarrow> 'f SceneNode \<Rightarrow> bool" where
  "pruned F cfg l2 now n \<longleftrightarrow> \<not> skipDeepNode l2 n \<and> \<not> f_lt F (node_importance F cfg now n) (dp_NodeRemoveThreshold cfg)
     \<and> f_lt F (node_importance F cfg now n) (dp_NodePruneEdgeThreshold cfg)"

definition edge_weight :: "'f float64 \<Rightarrow> 'f DecayParams \<Rightarrow> i64 \<Rightarrow> 'f SceneEdge \<Rightarrow> 'f" where
  "edge_weight F cfg now x = decayed F (se_Weight x) (dp_LambdaEdge cfg)
     (ElapsedHours F now (if se_LastDecayAt x = 0 then se_CreatedAt x else se_LastDecayAt x))"

definition faded_edge :: "'f float64 \<Rightarrow> 'f DecayParams \<Rightarrow> i64 \<Rightarrow> u64 list \<Rightarrow> 'f SceneEdge \<Rightarrow> 'f SceneEdge" where
  "faded_edge F cfg now ms x = x\<lparr>se_NodeIDs := ms, se_Weight := edge_weight F cfg now x, se_LastDecayAt := now\<rparr>"

definition fades :: "'f float64 \<Rightarrow> 'f DecayParams \<Rightarrow> i64 \<Rightarrow> ('f SceneNode \<Rightarrow> bool) \<Rightarrow> ('f SceneEdge \<Rightarrow> bool) \<Rightarrow> bool" where
  "fades F cfg now okn oke \<longleftrightarrow> (\<forall>n. okn n \<longrightarrow> okn (faded_node F cfg now n))
     \<and> (\<forall>x P. oke x \<longrightarrow> oke (faded_edge F cfg now (filter P (se_NodeIDs x)) x))"

definition cleared_pairs :: "(u64, u64 list) gomap \<Rightarrow> (u64 \<times> u64) list" where
  "cleared_pairs c = concat (map (\<lambda>(y, ns). map (Pair y) ns) c)"

lemma cleared_set: "map_wf c \<Longrightarrow> set (cleared_pairs c) = {(y, i). \<exists>ns. map_of c y = Some ns \<and> i \<in> set ns}"
  by (auto simp: cleared_pairs_def map_wf_def)

lemma cleared_length:
  "length (cleared_pairs (AList.update y v c)) + length (case map_of c y of None \<Rightarrow> [] | Some old \<Rightarrow> old) = length (cleared_pairs c) + length v"
  by (induction c) (auto simp: cleared_pairs_def)

lemma clear_for_law:
  assumes "map_wf c"
  shows "map_wf (clear_for i y c)" "set (cleared_pairs (clear_for i y c)) = insert (y, i) (set (cleared_pairs c))"
    "length (cleared_pairs (clear_for i y c)) \<le> length (cleared_pairs c) + 1"
proof -
  show wf: "map_wf (clear_for i y c)" using assms by (simp add: clear_for_def)
  show "set (cleared_pairs (clear_for i y c)) = insert (y, i) (set (cleared_pairs c))"
    unfolding cleared_set [OF wf] cleared_set [OF assms] by (auto simp: clear_for_def split: option.splits if_splits)
  show "length (cleared_pairs (clear_for i y c)) \<le> length (cleared_pairs c) + 1"
    using cleared_length [of y "List.insert i (case map_of c y of None \<Rightarrow> [] | Some ns \<Rightarrow> ns)" c]
    by (auto simp: clear_for_def List.insert_def split: option.splits if_splits)
qed

lemma clear_for_fold:
  "map_wf c \<Longrightarrow> map_wf (fold (clear_for i) ys c)
    \<and> set (cleared_pairs (fold (clear_for i) ys c)) = (\<lambda>y. (y, i)) ` set ys \<union> set (cleared_pairs c)
    \<and> length (cleared_pairs (fold (clear_for i) ys c)) \<le> length (cleared_pairs c) + length ys"
proof (induction ys arbitrary: c)
  case (Cons y ys)
  note one = clear_for_law [OF Cons.prems, of i y] and rest = Cons.IH [OF clear_for_law(1) [OF Cons.prems, of i y]]
  have "length (cleared_pairs (fold (clear_for i) (y # ys) c)) \<le> length (cleared_pairs c) + length (y # ys)" using one(3) rest by simp
  then show ?case using one(2) rest by auto
qed simp

definition nodes_after :: "'f float64 \<Rightarrow> 'f DecayParams \<Rightarrow> L2MetaIndex \<Rightarrow> i64 \<Rightarrow> u64 set \<Rightarrow> 'f nodes \<Rightarrow> 'f nodes" where
  "nodes_after F cfg l2 now S N i = (if i \<in> S then Option.bind (N i) (node_fate F cfg l2 now) else N i)"

lemma decay_one_law:
  assumes codec: "l1_codec J okn oke s q" and fades: "fades F cfg now okn oke" and wf: "map_wf (ds_Cleared st)"
    and rep: "net_rep J okn oke a base e (RecordHeaderSize + s + k) N E" and n: "N i = Some n" and shallow: "\<not> skipDeepNode l2 n"
  shows "\<exists>st' e'. decayOneNode F J cfg a now n st e = ((st', None), e') \<and> net_rep J okn oke a base e' k (nodes_after F cfg l2 now {i} N) E
    \<and> set (ds_Removed st') = set (ds_Removed st) \<union> (if Option.bind (N i) (node_fate F cfg l2 now) = None then {i} else {})
    \<and> map_wf (ds_Cleared st') \<and> length (cleared_pairs (ds_Cleared st')) \<le> length (cleared_pairs (ds_Cleared st)) + q
    \<and> set (cleared_pairs (ds_Cleared st')) = set (cleared_pairs (ds_Cleared st)) \<union> (if pruned F cfg l2 now n then {(y, i) | y. y \<in> set (sn_EdgeIDs n)} else {})"
proof -
  note valid = net_valid(1) [OF rep n]
  have q: "length (sn_EdgeIDs n) \<le> q" using codec valid by (simp add: l1_codec_def)
  let ?v = "node_importance F cfg now n"
  show ?thesis
  proof (cases "f_lt F ?v (dp_NodeRemoveThreshold cfg)")
    case True
    have "net_rep J okn oke a base e (RecordHeaderSize + k) N E" by (rule net_less_room [OF rep]) simp
    then obtain b e' where e': "DeleteRecord a i e = (Inr b, e')" "net_rep J okn oke a base e' k (N(i := None)) (E(i := None))"
      using net_delete n by blast
    have "E(i := None) = E" using valid by (simp add: fun_upd_idem)
    moreover have "nodes_after F cfg l2 now {i} N = N(i := None)" using n shallow True by (auto simp: nodes_after_def node_fate_def fun_eq_iff)
    moreover have "Option.bind (N i) (node_fate F cfg l2 now) = None" using n shallow True by (auto simp: node_fate_def)
    ultimately show ?thesis using e' shallow True wf valid by (simp add: decayOneNode_def Let_def pruned_def)
  next
    case False
    have "okn (faded_node F cfg now n)" "sn_IDHash (faded_node F cfg now n) = i"
      using fades valid by (auto simp: fades_def) (simp add: faded_node_def)
    then obtain e' where e': "WriteSceneNode (put_node J) a i (faded_node F cfg now n) e = (Inr (), e')"
      "net_rep J okn oke a base e' k (N(i \<mapsto> faded_node F cfg now n)) E"
      using net_write_node [OF codec rep] n by blast
    have upd: "nodes_after F cfg l2 now {i} N = N(i \<mapsto> faded_node F cfg now n)"
      using n shallow False by (auto simp: nodes_after_def node_fate_def fun_eq_iff)
    note c = clear_for_fold [OF wf, of i "sn_EdgeIDs n"]
    let ?st = "if f_lt F ?v (dp_NodePruneEdgeThreshold cfg) then st\<lparr>ds_Cleared := fold (clear_for i) (sn_EdgeIDs n) (ds_Cleared st)\<rparr> else st"
    have "decayOneNode F J cfg a now n st e = ((?st, None), e')"
      using e'(1) False valid [THEN conjunct2, THEN conjunct1] unfolding faded_node_def
      by (simp add: decayOneNode_def Let_def cong: if_cong split del: if_split)
    moreover have "set (cleared_pairs (ds_Cleared ?st)) = set (cleared_pairs (ds_Cleared st))
        \<union> (if pruned F cfg l2 now n then {(y, i) | y. y \<in> set (sn_EdgeIDs n)} else {})"
      using c shallow False by (auto simp: pruned_def)
    moreover have "length (cleared_pairs (ds_Cleared ?st)) \<le> length (cleared_pairs (ds_Cleared st)) + q" using c q by auto
    moreover have "map_wf (ds_Cleared ?st)" "ds_Removed ?st = ds_Removed st" using c wf by auto
    moreover have "Option.bind (N i) (node_fate F cfg l2 now) = Some (faded_node F cfg now n)" using n shallow False by (auto simp: node_fate_def)
    ultimately show ?thesis using e'(2) upd by (intro exI [of _ ?st] exI [of _ e']) (simp split del: if_split)
  qed
qed

definition pruned_pairs :: "'f float64 \<Rightarrow> 'f DecayParams \<Rightarrow> L2MetaIndex \<Rightarrow> i64 \<Rightarrow> u64 set \<Rightarrow> 'f nodes \<Rightarrow> (u64 \<times> u64) set" where
  "pruned_pairs F cfg l2 now S N = {(y, i). i \<in> S \<and> (\<exists>n. N i = Some n \<and> pruned F cfg l2 now n \<and> y \<in> set (sn_EdgeIDs n))}"

lemma decay_nodes_law:
  assumes codec: "l1_codec J okn oke s q" and fades: "fades F cfg now okn oke"
  shows "net_rep J okn oke a base e ((RecordHeaderSize + s) * length ids + k) N E \<Longrightarrow> distinct ids \<Longrightarrow> set ids \<subseteq> dom N \<Longrightarrow> map_wf (ds_Cleared st)
    \<Longrightarrow> \<exists>st' e'. decay_nodes F J cfg l2 a now (map (\<lambda>i. the (N i)) ids) st e = ((st', None), e')
      \<and> net_rep J okn oke a base e' k (nodes_after F cfg l2 now (set ids) N) E
      \<and> set (ds_Removed st') = set (ds_Removed st) \<union> {i \<in> set ids. Option.bind (N i) (node_fate F cfg l2 now) = None}
      \<and> length (cleared_pairs (ds_Cleared st')) \<le> length (cleared_pairs (ds_Cleared st)) + q * length ids
      \<and> set (cleared_pairs (ds_Cleared st')) = set (cleared_pairs (ds_Cleared st)) \<union> pruned_pairs F cfg l2 now (set ids) N"
proof (induction ids arbitrary: e N st)
  case Nil
  then show ?case by (intro exI [of _ st] exI [of _ e]) (simp add: nodes_after_def [abs_def] pruned_pairs_def)
next
  case (Cons i ids)
  obtain n where n: "N i = Some n" using Cons.prems(3) by auto
  have i: "i \<notin> set ids" "distinct ids" using Cons.prems(2) by auto
  have room: "net_rep J okn oke a base e (RecordHeaderSize + s + ((RecordHeaderSize + s) * length ids + k)) N E"
    using Cons.prems(1) by (simp add: algebra_simps)
  let ?N = "if skipDeepNode l2 n then N else nodes_after F cfg l2 now {i} N"
  have one: "\<exists>st1 e1. (if skipDeepNode l2 n then ((st, None), e) else decayOneNode F J cfg a now n st e) = ((st1, None), e1)
    \<and> net_rep J okn oke a base e1 ((RecordHeaderSize + s) * length ids + k) ?N E
    \<and> set (ds_Removed st1) = set (ds_Removed st) \<union> (if Option.bind (N i) (node_fate F cfg l2 now) = None then {i} else {})
    \<and> map_wf (ds_Cleared st1) \<and> length (cleared_pairs (ds_Cleared st1)) \<le> length (cleared_pairs (ds_Cleared st)) + q
    \<and> set (cleared_pairs (ds_Cleared st1)) = set (cleared_pairs (ds_Cleared st)) \<union> (if pruned F cfg l2 now n then {(y, i) | y. y \<in> set (sn_EdgeIDs n)} else {})"
  proof (cases "skipDeepNode l2 n")
    case True
    have "net_rep J okn oke a base e ((RecordHeaderSize + s) * length ids + k) N E" by (rule net_less_room [OF room]) simp
    moreover have "Option.bind (N i) (node_fate F cfg l2 now) = Some n" using n True by (auto simp: node_fate_def)
    ultimately show ?thesis using True Cons.prems(4) by (intro exI [of _ st] exI [of _ e]) (simp add: pruned_def)
  next
    case False
    then show ?thesis using decay_one_law [OF codec fades Cons.prems(4) room n False] by simp
  qed
  then obtain st1 e1 where s1: "(if skipDeepNode l2 n then ((st, None), e) else decayOneNode F J cfg a now n st e) = ((st1, None), e1)"
    "net_rep J okn oke a base e1 ((RecordHeaderSize + s) * length ids + k) ?N E"
    "set (ds_Removed st1) = set (ds_Removed st) \<union> (if Option.bind (N i) (node_fate F cfg l2 now) = None then {i} else {})"
    "map_wf (ds_Cleared st1)" "length (cleared_pairs (ds_Cleared st1)) \<le> length (cleared_pairs (ds_Cleared st)) + q"
    "set (cleared_pairs (ds_Cleared st1)) = set (cleared_pairs (ds_Cleared st)) \<union> (if pruned F cfg l2 now n then {(y, i) | y. y \<in> set (sn_EdgeIDs n)} else {})"
    by blast
  define M where "M = ?N"
  have same: "M j = N j" if "j \<in> set ids" for j using that i(1) by (auto simp: M_def nodes_after_def)
  have rest: "set ids \<subseteq> dom M" "map (\<lambda>j. the (N j)) ids = map (\<lambda>j. the (M j)) ids" "pruned_pairs F cfg l2 now (set ids) M = pruned_pairs F cfg l2 now (set ids) N"
    "{j \<in> set ids. Option.bind (M j) (node_fate F cfg l2 now) = None} = {j \<in> set ids. Option.bind (N j) (node_fate F cfg l2 now) = None}"
    using Cons.prems(3) same by (auto simp: pruned_pairs_def)
  have both: "nodes_after F cfg l2 now (set ids) M = nodes_after F cfg l2 now (set (i # ids)) N"
    using i(1) n by (auto simp: M_def nodes_after_def fun_eq_iff node_fate_def)
  have pairs: "pruned_pairs F cfg l2 now (set (i # ids)) N = (if pruned F cfg l2 now n then {(y, i) | y. y \<in> set (sn_EdgeIDs n)} else {}) \<union> pruned_pairs F cfg l2 now (set ids) N"
    using n by (auto simp: pruned_pairs_def)
  obtain st2 e2 where s2: "decay_nodes F J cfg l2 a now (map (\<lambda>j. the (M j)) ids) st1 e1 = ((st2, None), e2)"
    "net_rep J okn oke a base e2 k (nodes_after F cfg l2 now (set ids) M) E"
    "set (ds_Removed st2) = set (ds_Removed st1) \<union> {j \<in> set ids. Option.bind (M j) (node_fate F cfg l2 now) = None}"
    "length (cleared_pairs (ds_Cleared st2)) \<le> length (cleared_pairs (ds_Cleared st1)) + q * length ids"
    "set (cleared_pairs (ds_Cleared st2)) = set (cleared_pairs (ds_Cleared st1)) \<union> pruned_pairs F cfg l2 now (set ids) M"
    using Cons.IH [OF s1(2) [folded M_def] i(2) rest(1) s1(4)] by blast
  have "decay_nodes F J cfg l2 a now (map (\<lambda>j. the (N j)) (i # ids)) st e = ((st2, None), e2)"
    using s1(1) s2(1) [folded rest(2)] n by (simp split: if_splits)
  moreover have "set (ds_Removed st2) = set (ds_Removed st) \<union> {j \<in> set (i # ids). Option.bind (N j) (node_fate F cfg l2 now) = None}"
    unfolding s2(3) rest(4) s1(3) by auto
  moreover have "length (cleared_pairs (ds_Cleared st2)) \<le> length (cleared_pairs (ds_Cleared st)) + q * length (i # ids)"
    using s2(4) s1(5) by simp
  moreover have "set (cleared_pairs (ds_Cleared st2)) = set (cleared_pairs (ds_Cleared st)) \<union> pruned_pairs F cfg l2 now (set (i # ids)) N"
    unfolding s2(5) rest(3) s1(6) pairs by auto
  ultimately show ?case using s2(2) unfolding both by blast
qed

section \<open>Decay of the edges\<close>

definition fade_one :: "'f float64 \<Rightarrow> 'f DecayParams \<Rightarrow> i64 \<Rightarrow> (u64 \<Rightarrow> 'f nodes \<Rightarrow> 'f edges \<Rightarrow> bool) \<Rightarrow> u64 \<Rightarrow> 'f nodes \<times> 'f edges \<Rightarrow> 'f nodes \<times> 'f edges" where
  "fade_one F cfg now alive y NE = (case NE of (N, E) \<Rightarrow> (case E y of None \<Rightarrow> (N, E)
     | Some x \<Rightarrow> let ms = filter (\<lambda>i. alive i N E) (se_NodeIDs x)
         in if int (length ms) < dp_MinEdgeNodes cfg \<or> f_lt F (edge_weight F cfg now x) (dp_EdgeRemoveThreshold cfg)
            then (drop_refs y (set ms) N, E(y := None))
            else (N, E(y \<mapsto> faded_edge F cfg now ms x))))"

lemma decay_edge_law:
  assumes codec: "l1_codec J okn oke s q" and trims: "trims okn oke" and fades: "fades F cfg now okn oke"
    and rep: "net_rep J okn oke a base e ((RecordHeaderSize + s) * (q + 1) + k) N E" and x: "E y = Some x"
    and alive: "alive = (\<lambda>i N E. i \<notin> set removed \<and> present a base N E i)"
  shows "\<exists>rep'' e'. decayOneEdge F J cfg a removed now x y rep' e = ((rep'', None), e')
    \<and> net_rep J okn oke a base e' k (fst (fade_one F cfg now alive y (N, E))) (snd (fade_one F cfg now alive y (N, E)))"
proof -
  let ?ms = "filter (\<lambda>i. alive i N E) (se_NodeIDs x)"
  let ?gone = "int (length ?ms) < dp_MinEdgeNodes cfg \<or> f_lt F (edge_weight F cfg now x) (dp_EdgeRemoveThreshold cfg)"
  note valid = net_valid(2) [OF rep x]
  have q: "length (se_NodeIDs x) \<le> q" using codec valid by (simp add: l1_codec_def)
  have ms: "filter (\<lambda>i. \<not> (i \<in> set removed \<or> \<not> Contains e a i)) (se_NodeIDs x) = ?ms" using net_contains [OF rep] by (simp add: alive)
  have run: "decayOneEdge F J cfg a removed now x y rep' e =
     (if ?gone then (case drop_edge J a y ?ms e of (Inl err, e) \<Rightarrow> ((rep', Some err), e) | (Inr _, e) \<Rightarrow> ((count_edge rep', None), e))
      else (case WriteSceneEdge J a y (faded_edge F cfg now ?ms x) e of (Inl err, e) \<Rightarrow> ((rep', Some err), e) | (Inr _, e) \<Rightarrow> ((rep', None), e)))"
    unfolding decayOneEdge_def Let_def ms edge_weight_def faded_edge_def by simp
  show ?thesis
  proof (cases ?gone)
    case True
    have "length ?ms + 1 \<le> q + 1" using le_trans [OF length_filter_le q] by simp
    then have "(RecordHeaderSize + s) * (length ?ms + 1) + k \<le> (RecordHeaderSize + s) * (q + 1) + k" by (rule add_right_mono [OF mult_le_mono2])
    then have "net_rep J okn oke a base e ((RecordHeaderSize + s) * (length ?ms + 1) + k) N E" by (rule net_less_room [OF rep])
    moreover have "E y \<noteq> None" using x by simp
    ultimately obtain e' where e': "drop_edge J a y ?ms e = (Inr (), e')" "net_rep J okn oke a base e' k (drop_refs y (set ?ms) N) (E(y := None))"
      using drop_edge_law [OF codec trims] by blast
    show ?thesis unfolding run using True e' x by (intro exI [of _ "count_edge rep'"] exI [of _ e']) (simp add: fade_one_def Let_def)
  next
    case False
    have room: "net_rep J okn oke a base e (RecordHeaderSize + s + k) N E" by (rule net_less_room [OF rep]) (simp add: algebra_simps)
    have "E y \<noteq> None" "oke (faded_edge F cfg now ?ms x)" using valid fades x by (simp_all add: fades_def)
    then obtain e' where e': "WriteSceneEdge J a y (faded_edge F cfg now ?ms x) e = (Inr (), e')"
      "net_rep J okn oke a base e' k N (E(y \<mapsto> faded_edge F cfg now ?ms x))" using net_write_edge [OF codec room] by blast
    show ?thesis unfolding run using False e' x by (intro exI [of _ rep'] exI [of _ e']) (simp add: fade_one_def Let_def)
  qed
qed

lemma decay_edges_law:
  assumes codec: "l1_codec J okn oke s q" and trims: "trims okn oke" and fades: "fades F cfg now okn oke"
    and alive: "alive = (\<lambda>i N E. i \<notin> set removed \<and> present a base N E i)"
  shows "net_rep J okn oke a base e ((RecordHeaderSize + s) * (q + 1) * length ys + k) N E
    \<Longrightarrow> \<exists>rep'' e'. decay_edges F J cfg a removed now ys rep' e = ((rep'', None), e')
      \<and> net_rep J okn oke a base e' k (fst (fold (fade_one F cfg now alive) ys (N, E))) (snd (fold (fade_one F cfg now alive) ys (N, E)))"
proof (induction ys arbitrary: e N E rep')
  case (Cons y ys)
  let ?NE = "fade_one F cfg now alive y (N, E)"
  have room: "net_rep J okn oke a base e ((RecordHeaderSize + s) * (q + 1) + ((RecordHeaderSize + s) * (q + 1) * length ys + k)) N E"
    using Cons.prems by (simp add: algebra_simps)
  note read = net_read(2) [OF codec room, of y]
  show ?case
  proof (cases "E y")
    case None
    have "net_rep J okn oke a base e ((RecordHeaderSize + s) * (q + 1) * length ys + k) N E" by (rule net_less_room [OF room]) simp
    from Cons.IH [OF this, of rep'] show ?thesis using None read by (simp add: fade_one_def)
  next
    case (Some x)
    obtain rep1 e1 where e1: "decayOneEdge F J cfg a removed now x y rep' e = ((rep1, None), e1)"
      "net_rep J okn oke a base e1 ((RecordHeaderSize + s) * (q + 1) * length ys + k) (fst ?NE) (snd ?NE)"
      using decay_edge_law [OF codec trims fades room Some alive, of rep'] by blast
    show ?thesis using Cons.IH [OF e1(2), of rep1] e1(1) read Some by simp
  qed
qed simp

end
