(* ===== verification/Engram_Properties.thy ===== *)
theory Engram_Properties
  imports Engram_Correct
begin

text \<open>
  What a decay of the L1 network promises: which nodes and edges go, what the others become, and that no node is left
  naming an edge that is gone. The effects of the single operations are composed as functions of the two maps.
\<close>

section \<open>Nodes that lose edges\<close>

definition thinner :: "'f nodes \<Rightarrow> 'f nodes \<Rightarrow> bool" where
  "thinner N N' \<longleftrightarrow> (\<forall>i. case N i of None \<Rightarrow> N' i = None
     | Some n \<Rightarrow> \<exists>P. N' i = Some (n\<lparr>sn_EdgeIDs := filter P (sn_EdgeIDs n)\<rparr>))"

lemma whole_list [simp]: "\<exists>P. n = n\<lparr>sn_EdgeIDs := filter P (sn_EdgeIDs n)\<rparr>"
  by (rule exI [of _ "\<lambda>_. True"]) simp

lemma thinner_refl [simp]: "thinner N N"
  by (simp add: thinner_def split: option.splits)

lemma thinner_none: "thinner N N' \<Longrightarrow> N' i = None \<longleftrightarrow> N i = None"
  unfolding thinner_def by (auto split: option.splits dest!: spec [of _ i])

lemma thinner_some:
  assumes "thinner N N'" "N' i = Some n'"
  shows "\<exists>n P. N i = Some n \<and> n' = n\<lparr>sn_EdgeIDs := filter P (sn_EdgeIDs n)\<rparr>"
  using assms unfolding thinner_def by (auto split: option.splits dest!: spec [of _ i])

lemma thinner_trans:
  assumes "thinner N M" "thinner M L"
  shows "thinner N L"
  unfolding thinner_def
proof
  fix i
  show "case N i of None \<Rightarrow> L i = None | Some n \<Rightarrow> \<exists>P. L i = Some (n\<lparr>sn_EdgeIDs := filter P (sn_EdgeIDs n)\<rparr>)"
  proof (cases "N i")
    case None
    then show ?thesis using thinner_none [OF assms(1)] thinner_none [OF assms(2)] by simp
  next
    case (Some n)
    then obtain P where P: "M i = Some (n\<lparr>sn_EdgeIDs := filter P (sn_EdgeIDs n)\<rparr>)"
      using assms(1) unfolding thinner_def by (auto split: option.splits dest!: spec [of _ i])
    then obtain Q where "L i = Some (n\<lparr>sn_EdgeIDs := filter (\<lambda>z. P z \<and> Q z) (sn_EdgeIDs n)\<rparr>)"
      using assms(2) unfolding thinner_def by (auto split: option.splits dest!: spec [of _ i])
    then show ?thesis using Some by auto
  qed
qed

lemma drop_refs_thinner [simp]: "thinner N (drop_refs y S N)"
  unfolding thinner_def
proof
  fix i
  show "case N i of None \<Rightarrow> drop_refs y S N i = None | Some n \<Rightarrow> \<exists>P. drop_refs y S N i = Some (n\<lparr>sn_EdgeIDs := filter P (sn_EdgeIDs n)\<rparr>)"
    by (cases "N i") (auto simp: drop_refs_def)
qed

text \<open>Every edge a node names is there and has the node among its members.\<close>

definition linked :: "'f nodes \<Rightarrow> 'f edges \<Rightarrow> bool" where
  "linked N E \<longleftrightarrow> (\<forall>i n y. N i = Some n \<longrightarrow> y \<in> set (sn_EdgeIDs n) \<longrightarrow> (\<exists>x. E y = Some x \<and> i \<in> set (se_NodeIDs x)))"

lemma linked_dropped:
  assumes "linked N E" "\<forall>i n. N i = Some n \<longrightarrow> y \<in> set (sn_EdgeIDs n) \<longrightarrow> i \<in> S"
  shows "linked (drop_refs y S N) (E(y := None))"
  unfolding linked_def
proof (intro allI impI)
  fix i n z
  assume "drop_refs y S N i = Some n" and z: "z \<in> set (sn_EdgeIDs n)"
  then obtain n0 where n0: "N i = Some n0" "n = (if i \<in> S then n0\<lparr>sn_EdgeIDs := filter (\<lambda>z. z \<noteq> y) (sn_EdgeIDs n0)\<rparr> else n0)"
    by (auto simp: drop_refs_def)
  then have "z \<in> set (sn_EdgeIDs n0)" "z \<noteq> y" using z assms(2) by (auto split: if_splits)
  then show "\<exists>x. (E(y := None)) z = Some x \<and> i \<in> set (se_NodeIDs x)" using assms(1) n0(1) by (simp add: linked_def)
qed

lemma linked_shrunk:
  assumes "linked N E" "\<forall>i n. N i = Some n \<longrightarrow> y \<in> set (sn_EdgeIDs n) \<longrightarrow> i \<in> set (se_NodeIDs x')"
  shows "linked N (E(y \<mapsto> x'))"
  unfolding linked_def
proof (intro allI impI)
  fix i n z
  assume n: "N i = Some n" "z \<in> set (sn_EdgeIDs n)"
  show "\<exists>x0. (E(y \<mapsto> x')) z = Some x0 \<and> i \<in> set (se_NodeIDs x0)"
  proof (cases "z = y")
    case True
    then show ?thesis using assms(2) n by simp
  next
    case False
    then show ?thesis using assms(1) n by (simp add: linked_def)
  qed
qed

section \<open>The cleared references\<close>

definition strip_edge :: "int \<Rightarrow> (u64 \<times> u64) set \<Rightarrow> u64 \<Rightarrow> 'f SceneEdge option \<Rightarrow> 'f SceneEdge option" where
  "strip_edge least S y old = (case old of None \<Rightarrow> None
     | Some x \<Rightarrow> let ms = filter (\<lambda>i. (y, i) \<notin> S) (se_NodeIDs x)
         in if ms = se_NodeIDs x then Some x else if int (length ms) < least then None else Some (x\<lparr>se_NodeIDs := ms\<rparr>))"

lemma strip_edge_step: "strip_edge least S z (snd (strip_one least p (N, E)) z) = strip_edge least (insert p S) z (E z)"
proof -
  obtain y j where p: "p = (y, j)" by (cases p)
  show ?thesis
  proof (cases "z = y \<and> E y \<noteq> None")
    case False
    then have "snd (strip_one least p (N, E)) z = E z" by (cases "E y") (auto simp: p strip_one_def Let_def)
    moreover have "(z, i) \<in> insert p S \<longleftrightarrow> (z, i) \<in> S" if "E z \<noteq> None" for i using False that p by auto
    ultimately show ?thesis by (auto simp: strip_edge_def split: option.splits)
  next
    case True
    then obtain x where x: "E y = Some x" by auto
    let ?ms = "filter (\<lambda>i. i \<noteq> j) (se_NodeIDs x)" and ?ms2 = "filter (\<lambda>i. (y, i) \<notin> insert p S) (se_NodeIDs x)"
    have two: "filter (\<lambda>i. (y, i) \<notin> S) ?ms = ?ms2" by (auto simp: p intro: filter_cong)
    have le: "length ?ms2 \<le> length ?ms" unfolding two [symmetric] by (rule length_filter_le)
    have all: "?ms2 \<noteq> se_NodeIDs x" if "?ms \<noteq> se_NodeIDs x"
      using that le length_filter_le [of "\<lambda>i. i \<noteq> j" "se_NodeIDs x"] filter_all by (metis le_antisym)
    show ?thesis
    proof (cases "?ms = se_NodeIDs x")
      case True
      then show ?thesis using x two \<open>z = y \<and> E y \<noteq> None\<close> by (simp add: p strip_one_def strip_edge_def)
    next
      case False
      then show ?thesis using x two le all \<open>z = y \<and> E y \<noteq> None\<close>
        by (auto simp: p strip_one_def strip_edge_def Let_def simp del: filter_filter)
    qed
  qed
qed

lemma strip_one_thinner: "thinner N (fst (strip_one least p (N, E)))"
  by (cases p) (auto simp: strip_one_def Let_def split: option.splits)

lemma strip_one_linked:
  assumes "linked N E" "\<forall>n. N (snd p) = Some n \<longrightarrow> fst p \<notin> set (sn_EdgeIDs n)"
  shows "linked (fst (strip_one least p (N, E))) (snd (strip_one least p (N, E)))"
proof -
  obtain y j where p: "p = (y, j)" by (cases p)
  show ?thesis
  proof (cases "E y")
    case (Some x)
    have "\<forall>i n. N i = Some n \<longrightarrow> y \<in> set (sn_EdgeIDs n) \<longrightarrow> i \<in> set (filter (\<lambda>i. i \<noteq> j) (se_NodeIDs x))"
      using assms Some by (fastforce simp: p linked_def)
    then show ?thesis using assms(1) Some linked_dropped [OF assms(1), of y] linked_shrunk [OF assms(1)]
      by (simp add: p strip_one_def Let_def)
  qed (use assms(1) in \<open>simp add: p strip_one_def\<close>)
qed

lemma strip_fold:
  "fold (strip_one least) ps (N, E) = (N', E') \<Longrightarrow> thinner N N' \<and> (\<forall>y. E' y = strip_edge least (set ps) y (E y))
    \<and> (linked N E \<longrightarrow> (\<forall>p \<in> set ps. \<forall>n. N (snd p) = Some n \<longrightarrow> fst p \<notin> set (sn_EdgeIDs n)) \<longrightarrow> linked N' E')"
proof (induction ps arbitrary: N E)
  case Nil
  then show ?case by (simp add: strip_edge_def split: option.splits)
next
  case (Cons p ps)
  obtain M D where md: "strip_one least p (N, E) = (M, D)" by (cases "strip_one least p (N, E)")
  have thin: "thinner N M" using strip_one_thinner [of N least p E] md by simp
  have run: "fold (strip_one least) ps (M, D) = (N', E')" using Cons.prems md by simp
  note rest = Cons.IH [OF run]
  have edges: "E' y = strip_edge least (set (p # ps)) y (E y)" for y
    using rest strip_edge_step [of least "set ps" y p N E] md by simp
  have links: "linked N' E'" if l: "linked N E" "\<forall>p \<in> set (p # ps). \<forall>n. N (snd p) = Some n \<longrightarrow> fst p \<notin> set (sn_EdgeIDs n)"
  proof -
    have "linked M D" using strip_one_linked [OF l(1), of p least] l(2) md by simp
    moreover have "\<forall>p \<in> set ps. \<forall>n. M (snd p) = Some n \<longrightarrow> fst p \<notin> set (sn_EdgeIDs n)"
      using l(2) by (fastforce dest: thinner_some [OF thin])
    ultimately show ?thesis using rest by blast
  qed
  show ?case using thinner_trans [OF thin] rest edges links by blast
qed

section \<open>The remaining edges\<close>

definition fade_edge :: "'f float64 \<Rightarrow> 'f DecayParams \<Rightarrow> i64 \<Rightarrow> (u64 \<Rightarrow> bool) \<Rightarrow> 'f SceneEdge option \<Rightarrow> 'f SceneEdge option" where
  "fade_edge F cfg now live old = (case old of None \<Rightarrow> None
     | Some x \<Rightarrow> let ms = filter live (se_NodeIDs x)
         in if int (length ms) < dp_MinEdgeNodes cfg \<or> f_lt F (edge_weight F cfg now x) (dp_EdgeRemoveThreshold cfg) then None
            else Some (faded_edge F cfg now ms x))"

definition members_free :: "'f edges \<Rightarrow> bool" where
  "members_free E \<longleftrightarrow> (\<forall>y x i. E y = Some x \<longrightarrow> i \<in> set (se_NodeIDs x) \<longrightarrow> E i = None)"

lemma fade_one_step:
  assumes "members_free E" "\<forall>i. E i = None \<longrightarrow> alive i N E = live i"
  shows "fade_one F cfg now alive y (N, E) = (case E y of None \<Rightarrow> (N, E)
     | Some x \<Rightarrow> (case fade_edge F cfg now live (E y) of None \<Rightarrow> (drop_refs y (set (filter live (se_NodeIDs x))) N, E(y := None))
         | Some x' \<Rightarrow> (N, E(y \<mapsto> x'))))"
proof (cases "E y")
  case (Some x)
  have "filter (\<lambda>i. alive i N E) (se_NodeIDs x) = filter live (se_NodeIDs x)"
    using assms Some by (intro filter_cong) (auto simp: members_free_def)
  then show ?thesis using Some by (simp add: fade_one_def fade_edge_def Let_def)
qed (simp add: fade_one_def)

lemma fade_edge_members: "fade_edge F cfg now live (Some x) = Some x' \<Longrightarrow> se_NodeIDs x' = filter live (se_NodeIDs x)"
  by (auto simp: fade_edge_def faded_edge_def Let_def split: if_splits)

lemma fade_fold:
  "fold (fade_one F cfg now alive) ys (N, E) = (N', E') \<Longrightarrow> distinct ys \<Longrightarrow> members_free E
    \<Longrightarrow> (\<And>i N1 E1. thinner N N1 \<Longrightarrow> E1 i = None \<Longrightarrow> alive i N1 E1 = live i)
    \<Longrightarrow> thinner N N' \<and> (\<forall>y. E' y = (if y \<in> set ys then fade_edge F cfg now live (E y) else E y))
      \<and> (linked N E \<longrightarrow> (\<forall>i. N i \<noteq> None \<longrightarrow> live i) \<longrightarrow> linked N' E')"
proof (induction ys arbitrary: N E)
  case (Cons z ys)
  obtain M D where md: "fade_one F cfg now alive z (N, E) = (M, D)" by (cases "fade_one F cfg now alive z (N, E)")
  note alive = Cons.prems(4)
  have step: "(M, D) = (case E z of None \<Rightarrow> (N, E)
     | Some x \<Rightarrow> (case fade_edge F cfg now live (E z) of None \<Rightarrow> (drop_refs z (set (filter live (se_NodeIDs x))) N, E(z := None))
         | Some x' \<Rightarrow> (N, E(z \<mapsto> x'))))"
    unfolding md [symmetric] using Cons.prems(3) alive [OF thinner_refl] by (intro fade_one_step) auto
  have thin: "thinner N M" using step by (auto split: option.splits)
  have at: "D = E(z := fade_edge F cfg now live (E z))" using step by (auto simp: fade_edge_def split: option.splits)
  have sub: "\<exists>x0. E y = Some x0 \<and> set (se_NodeIDs x) \<subseteq> set (se_NodeIDs x0)" if "D y = Some x" for y x
    using that fade_edge_members [of F cfg now live _ x] by (cases "E z") (auto simp: at fade_edge_def [of _ _ _ _ None] split: if_splits)
  have gone: "E i = None \<Longrightarrow> D i = None" for i by (auto simp: at fade_edge_def)
  have free: "members_free D" using Cons.prems(3) sub gone unfolding members_free_def by blast
  have later: "\<And>i N1 E1. thinner M N1 \<Longrightarrow> E1 i = None \<Longrightarrow> alive i N1 E1 = live i"
    using alive thinner_trans [OF thin] by blast
  have run: "fold (fade_one F cfg now alive) ys (M, D) = (N', E')" "distinct ys" using Cons.prems(1,2) md by simp_all
  note rest = Cons.IH [OF run free later]
  have edges: "E' y = (if y \<in> set (z # ys) then fade_edge F cfg now live (E y) else E y)" for y
    using rest Cons.prems(2) at by simp
  have links: "linked N' E'" if l: "linked N E" "\<forall>i. N i \<noteq> None \<longrightarrow> live i"
  proof -
    have "linked M D"
    proof (cases "E z")
      case None
      then show ?thesis using step l(1) by simp
    next
      case (Some x)
      have named: "\<forall>i n. N i = Some n \<longrightarrow> z \<in> set (sn_EdgeIDs n) \<longrightarrow> i \<in> set (filter live (se_NodeIDs x))"
        using l Some by (fastforce simp: linked_def)
      show ?thesis
      proof (cases "fade_edge F cfg now live (Some x)")
        case None
        then show ?thesis using step Some linked_dropped [OF l(1) named] by simp
      next
        case fresh: (Some x')
        then show ?thesis using step Some linked_shrunk [OF l(1)] named fade_edge_members [OF fresh] by simp
      qed
    qed
    moreover have "\<forall>i. M i \<noteq> None \<longrightarrow> live i" using l(2) thinner_none [OF thin] by simp
    ultimately show ?thesis using rest by blast
  qed
  show ?case using thinner_trans [OF thin] rest edges links by blast
qed simp

section \<open>A whole pass\<close>

text \<open>What becomes of an edge: it keeps the members that are still there and did not leave it, or goes.\<close>

definition edge_fate :: "'f float64 \<Rightarrow> 'f DecayParams \<Rightarrow> i64 \<Rightarrow> (u64 \<Rightarrow> bool) \<Rightarrow> 'f SceneEdge \<Rightarrow> 'f SceneEdge option" where
  "edge_fate F cfg now keep x = fade_edge F cfg now keep (Some x)"

lemma edge_after_strip:
  "fade_edge F cfg now live (strip_edge (dp_MinEdgeNodes cfg) S y old)
    = Option.bind old (edge_fate F cfg now (\<lambda>i. live i \<and> (y, i) \<notin> S))"
proof (cases old)
  case (Some x)
  let ?ms = "filter (\<lambda>i. (y, i) \<notin> S) (se_NodeIDs x)"
  have two: "filter (\<lambda>i. live i \<and> (y, i) \<notin> S) (se_NodeIDs x) = filter live ?ms" by (simp add: conj_commute)
  have fewer: "int (length ?ms) < k \<Longrightarrow> int (length (filter live ?ms)) < k" for k using length_filter_le [of live ?ms] by linarith
  have w: "edge_weight F cfg now (x\<lparr>se_NodeIDs := ms\<rparr>) = edge_weight F cfg now x" "faded_edge F cfg now l (x\<lparr>se_NodeIDs := ms\<rparr>) = faded_edge F cfg now l x" for ms l
    by (simp_all add: edge_weight_def faded_edge_def)
  show ?thesis
    unfolding Some edge_fate_def fade_edge_def strip_edge_def option.case two Let_def Option.bind.simps
    by (auto simp: w simp del: filter_filter intro: fewer)
qed (simp add: strip_edge_def fade_edge_def)

definition net_room :: "nat \<Rightarrow> nat \<Rightarrow> nat \<Rightarrow> nat \<Rightarrow> nat" where
  "net_room s q nodes edges = (RecordHeaderSize + s) * (nodes + (q + 1) * (q * nodes) + (q + 1) * edges)"

definition all_fates :: "'f float64 \<Rightarrow> 'f DecayParams \<Rightarrow> L2MetaIndex \<Rightarrow> i64 \<Rightarrow> 'f nodes \<Rightarrow> 'f nodes" where
  "all_fates F cfg l2 now N i = Option.bind (N i) (node_fate F cfg l2 now)"

lemma linked_fates:
  assumes "linked N E"
  shows "linked (all_fates F cfg l2 now N) E"
  unfolding linked_def
proof (intro allI impI)
  fix i n y
  assume n: "all_fates F cfg l2 now N i = Some n" "y \<in> set (sn_EdgeIDs n)"
  then obtain n0 where "N i = Some n0" "y \<in> set (sn_EdgeIDs n0)"
    by (cases "N i") (auto simp: all_fates_def node_fate_def faded_node_def split: if_splits)
  then show "\<exists>x. E y = Some x \<and> i \<in> set (se_NodeIDs x)" using assms by (auto simp: linked_def)
qed

lemma pruned_lets_go:
  assumes "p \<in> pruned_pairs F cfg l2 now S N" "all_fates F cfg l2 now N (snd p) = Some n"
  shows "fst p \<notin> set (sn_EdgeIDs n)"
proof -
  obtain y i n0 where p: "p = (y, i)" "N i = Some n0" "pruned F cfg l2 now n0" using assms(1) by (auto simp: pruned_pairs_def)
  then have "n = faded_node F cfg now n0" "sn_EdgeIDs (faded_node F cfg now n0) = []"
    using assms(2) by (auto simp: all_fates_def node_fate_def pruned_def faded_node_def)
  then show ?thesis by simp
qed

definition survives :: "u64 \<Rightarrow> store \<Rightarrow> 'f nodes \<Rightarrow> u64 \<Rightarrow> bool" where
  "survives a base N' i \<longleftrightarrow> N' i \<noteq> None \<or> base (a, i) \<noteq> None \<and> \<not> l1_kind base a i"

lemma decay_network_law:
  assumes codec: "l1_codec J okn oke s q" and trims: "trims okn oke" and fades: "fades F cfg now okn oke"
    and rep: "engine_rep e m" and sound: "l1_sound J okn oke m a" and free: "members_free (edges_in J m a)"
    and room: "engine_room e (net_room s q (card (dom (nodes_in J m a))) (card (dom (edges_in J m a))))"
  shows "\<exists>r e' N' E'. DecayNetwork F J now a l2 cfg e = ((r, None), e') \<and> net_rep J okn oke a m e' 0 N' E'
    \<and> thinner (all_fates F cfg l2 now (nodes_in J m a)) N'
    \<and> (\<forall>y. E' y = Option.bind (edges_in J m a y) (edge_fate F cfg now (\<lambda>i. survives a m N' i
        \<and> (y, i) \<notin> pruned_pairs F cfg l2 now (dom (nodes_in J m a)) (nodes_in J m a))))
    \<and> (linked (nodes_in J m a) (edges_in J m a) \<longrightarrow> linked N' E')"
proof -
  let ?C = "RecordHeaderSize + s" and ?N = "nodes_in J m a" and ?E = "edges_in J m a"
  let ?PP = "pruned_pairs F cfg l2 now (dom ?N) ?N" and ?gone = "{i \<in> dom ?N. Option.bind (?N i) (node_fate F cfg l2 now) = None}"
  have start: "net_rep J okn oke a m e (net_room s q (card (dom ?N)) (card (dom ?E))) ?N ?E" by (rule net_start [OF rep room sound])
  obtain ids where ids: "CollectAllStrict (get_node J) e a RecL1SceneNode = Inr (map (\<lambda>i. the (?N i)) ids)" "distinct ids" "set ids = dom ?N"
    using net_scans(1) [OF codec start] by blast
  have nn: "length ids = card (dom ?N)" using ids(2,3) distinct_card by metis
  have "net_rep J okn oke a m e (?C * length ids + (?C * (q + 1) * (q * length ids) + ?C * (q + 1) * card (dom ?E))) ?N ?E"
    by (rule net_less_room [OF start]) (simp add: net_room_def nn algebra_simps)
  from decay_nodes_law [OF codec fades this ids(2), of "\<lparr>ds_Report = \<lparr>rp_RemovedNodes = 0, rp_RemovedEdges = 0\<rparr>, ds_Removed = [], ds_Cleared = []\<rparr>" l2] ids(3)
  obtain st e1 where st: "decay_nodes F J cfg l2 a now (map (\<lambda>i. the (?N i)) ids) \<lparr>ds_Report = \<lparr>rp_RemovedNodes = 0, rp_RemovedEdges = 0\<rparr>, ds_Removed = [], ds_Cleared = []\<rparr> e = ((st, None), e1)"
    "net_rep J okn oke a m e1 (?C * (q + 1) * (q * length ids) + ?C * (q + 1) * card (dom ?E)) (nodes_after F cfg l2 now (dom ?N) ?N) ?E"
    "set (ds_Removed st) = ?gone" "length (cleared_pairs (ds_Cleared st)) \<le> q * length ids" "set (cleared_pairs (ds_Cleared st)) = ?PP"
    by (auto simp: cleared_pairs_def)
  have N1: "nodes_after F cfg l2 now (dom ?N) ?N = all_fates F cfg l2 now ?N" by (auto simp: nodes_after_def all_fates_def fun_eq_iff domIff)
  let ?N1 = "all_fates F cfg l2 now ?N" and ?ps = "cleared_pairs (ds_Cleared st)"
  have "?C * (q + 1) * length ?ps + ?C * (q + 1) * card (dom ?E) \<le> ?C * (q + 1) * (q * length ids) + ?C * (q + 1) * card (dom ?E)"
    using st(4) by (intro add_right_mono mult_le_mono2)
  then have "net_rep J okn oke a m e1 (?C * (q + 1) * length ?ps + ?C * (q + 1) * card (dom ?E)) ?N1 ?E"
    using net_less_room [OF st(2)] unfolding N1 by blast
  moreover obtain N2 E2 where ne2: "fold (strip_one (dp_MinEdgeNodes cfg)) ?ps (?N1, ?E) = (N2, E2)" by fastforce
  ultimately obtain r2 e2 where s2: "propagate_loop J cfg a ?ps (ds_Report st) e1 = ((r2, None), e2)"
    "net_rep J okn oke a m e2 (?C * (q + 1) * card (dom ?E)) N2 E2" using propagate_law [OF codec trims] by fastforce
  note strip = strip_fold [OF ne2, unfolded st(5)]
  let ?ys = "IndexByType e2 a RecL1Hyperedge" and ?alive = "\<lambda>i N E. i \<notin> set (ds_Removed st) \<and> present a m N E i"
  have ys: "distinct ?ys" "set ?ys = dom E2" using net_scans(2) [OF codec s2(2)] by auto
  have sub: "dom E2 \<subseteq> dom ?E" using strip by (auto simp: strip_edge_def split: option.splits)
  have "finite (dom ?E)" using net_scans(2) [OF codec start] by (metis List.finite_set)
  then have "length ?ys \<le> card (dom ?E)" using card_mono [OF _ sub] ys distinct_card by metis
  then have "?C * (q + 1) * length ?ys + 0 \<le> ?C * (q + 1) * card (dom ?E)" by simp
  then have "net_rep J okn oke a m e2 (?C * (q + 1) * length ?ys + 0) N2 E2" by (rule net_less_room [OF s2(2)])
  moreover obtain N3 E3 where ne3: "fold (fade_one F cfg now ?alive) ?ys (N2, E2) = (N3, E3)" by fastforce
  ultimately obtain r3 e3 where s3: "decay_edges F J cfg a (ds_Removed st) now ?ys r2 e2 = ((r3, None), e3)" "net_rep J okn oke a m e3 0 N3 E3"
    using decay_edges_law [OF codec trims fades, of ?alive "ds_Removed st" a m e2 ?ys 0 N2 E2 r2] by auto
  let ?live = "\<lambda>i. i \<notin> set (ds_Removed st) \<and> survives a m N2 i"
  have free2: "members_free E2" unfolding members_free_def
  proof (intro allI impI)
    fix y x i assume x: "E2 y = Some x" "i \<in> set (se_NodeIDs x)"
    then obtain x0 where "?E y = Some x0" "i \<in> set (se_NodeIDs x0)"
      using strip by (cases "?E y") (auto simp: strip_edge_def Let_def split: if_splits)
    then have "?E i = None" using free by (auto simp: members_free_def)
    then show "E2 i = None" using sub by auto
  qed
  have alive: "?alive i N E = ?live i" if "thinner N2 N" "E i = None" for i N E
    using thinner_none [OF that(1), of i] that(2) by (simp add: present_def survives_def)
  have fade: "thinner N2 N3 \<and> (\<forall>y. E3 y = (if y \<in> set ?ys then fade_edge F cfg now ?live (E2 y) else E2 y))
      \<and> (linked N2 E2 \<longrightarrow> (\<forall>i. N2 i \<noteq> None \<longrightarrow> ?live i) \<longrightarrow> linked N3 E3)"
    by (rule fade_fold [OF ne3 ys(1) free2]) (rule alive)
  have thin: "thinner ?N1 N3" using thinner_trans strip fade by blast
  have here: "?N1 i = None \<longleftrightarrow> N3 i = None" "N2 i = None \<longleftrightarrow> N3 i = None" for i
    using thinner_none [OF thin, of i] thinner_none [OF conjunct1 [OF fade], of i] by simp_all
  have gone: "i \<in> set (ds_Removed st) \<Longrightarrow> \<not> survives a m N3 i" for i
    using here(1) [of i] in_kind(1) [of J m a i] unfolding st(3) by (auto simp: survives_def all_fates_def)
  have same: "survives a m N2 = survives a m N3" by (simp add: survives_def fun_eq_iff here(2))
  have live: "?live = survives a m N3" unfolding same using gone by auto
  have edges: "E3 y = Option.bind (?E y) (edge_fate F cfg now (\<lambda>i. survives a m N3 i \<and> (y, i) \<notin> ?PP))" for y
  proof -
    have "E3 y = fade_edge F cfg now (survives a m N3) (E2 y)"
      using fade unfolding live ys(2) by (cases "E2 y") (auto simp: fade_edge_def)
    moreover have "E2 y = strip_edge (dp_MinEdgeNodes cfg) ?PP y (?E y)" using strip by blast
    ultimately show ?thesis by (simp only: edge_after_strip)
  qed
  have links: "linked N3 E3" if "linked ?N ?E"
  proof -
    have "linked N2 E2" using strip linked_fates [OF that] pruned_lets_go by blast
    moreover have "?live i" if "N2 i \<noteq> None" for i
    proof -
      have "survives a m N3 i" using that by (simp add: survives_def here(2))
      then show ?thesis using gone unfolding same by blast
    qed
    ultimately show ?thesis using fade by blast
  qed
  have "DecayNetwork F J now a l2 cfg e = ((r3, None), e3)"
    using st(1) s2(1) s3(1) ids(1) by (simp add: DecayNetwork_def decayNodes_def Let_def propagateClearedEdges_def cleared_pairs_def decayRemainingEdges_def)
  then show ?thesis using s3(2) thin edges links by blast
qed

lemma edge_fate_cong:
  "(\<And>i. i \<in> set (se_NodeIDs x) \<Longrightarrow> keep i = keep' i) \<Longrightarrow> edge_fate F cfg now keep x = edge_fate F cfg now keep' x"
  by (simp add: edge_fate_def fade_edge_def cong: filter_cong)

text \<open>Every edge a stored node names reads back and has the node among its members.\<close>

definition named_edges_hold :: "'f l1_json \<Rightarrow> StorageEngine \<Rightarrow> u64 \<Rightarrow> bool" where
  "named_edges_hold J e a \<longleftrightarrow> (\<forall>i n y. ReadSceneNode (get_node J) e a i = Inr n \<longrightarrow> y \<in> set (sn_EdgeIDs n)
     \<longrightarrow> (\<exists>x. ReadSceneEdge J e a y = Inr x \<and> i \<in> set (se_NodeIDs x)))"

lemma net_links:
  assumes "l1_codec J okn oke s q" "net_rep J okn oke a base e k N E"
  shows "named_edges_hold J e a \<longleftrightarrow> linked N E"
proof -
  have "ReadSceneNode (get_node J) e a i = Inr n \<longleftrightarrow> N i = Some n" "ReadSceneEdge J e a i = Inr x \<longleftrightarrow> E i = Some x" for i n x
    using net_read [OF assms, of i] by (auto split: option.splits)
  then show ?thesis by (simp add: named_edges_hold_def linked_def)
qed

text \<open>
  C13. Forgetting leaves no loose ends. On a sound network with room for its writes a decay pass succeeds. A node below
  the removal threshold is gone, a deep one is as it was, any other has its new importance and the time of the pass, each
  at most with fewer edges. An edge keeps the members that are still there and were not cut off, with its new weight, and is
  gone when these are too few or the weight too small. A network whose nodes name only edges they belong to is such a
  network afterwards, and no other record changes.
\<close>

theorem forgetting_leaves_no_loose_ends:
  assumes codec: "l1_codec J okn oke s q" and trims: "trims okn oke" and fades: "fades F cfg now okn oke"
    and rep: "engine_rep e m" and sound: "l1_sound J okn oke m a" and free: "members_free (edges_in J m a)"
    and room: "engine_room e (net_room s q (card (dom (nodes_in J m a))) (card (dom (edges_in J m a))))"
  shows "\<exists>r e'. DecayNetwork F J now a l2 cfg e = ((r, None), e')
    \<and> (\<forall>i n. ReadSceneNode (get_node J) e a i = Inr n \<longrightarrow> (case node_fate F cfg l2 now n of None \<Rightarrow> \<not> Contains e' a i
        | Some n' \<Rightarrow> \<exists>P. ReadSceneNode (get_node J) e' a i = Inr (n'\<lparr>sn_EdgeIDs := filter P (sn_EdgeIDs n')\<rparr>)))
    \<and> (\<forall>y x. ReadSceneEdge J e a y = Inr x \<longrightarrow> (case edge_fate F cfg now (\<lambda>i. Contains e' a i
          \<and> \<not> (\<exists>n. ReadSceneNode (get_node J) e a i = Inr n \<and> pruned F cfg l2 now n \<and> y \<in> set (sn_EdgeIDs n))) x of
        None \<Rightarrow> \<not> Contains e' a y | Some x' \<Rightarrow> ReadSceneEdge J e' a y = Inr x'))
    \<and> (named_edges_hold J e a \<longrightarrow> named_edges_hold J e' a)
    \<and> (\<forall>b i. b \<noteq> a \<or> \<not> l1_kind m a i \<longrightarrow> ReadRecord e' b i = ReadRecord e b i)"
proof -
  let ?N = "nodes_in J m a" and ?E = "edges_in J m a"
  have start: "net_rep J okn oke a m e (net_room s q (card (dom ?N)) (card (dom ?E))) ?N ?E" by (rule net_start [OF rep room sound])
  obtain r e' N' E' where run: "DecayNetwork F J now a l2 cfg e = ((r, None), e')" and fin: "net_rep J okn oke a m e' 0 N' E'"
    and thin: "thinner (all_fates F cfg l2 now ?N) N'"
    and edges: "\<And>y. E' y = Option.bind (?E y) (edge_fate F cfg now (\<lambda>i. survives a m N' i \<and> (y, i) \<notin> pruned_pairs F cfg l2 now (dom ?N) ?N))"
    and links: "linked ?N ?E \<longrightarrow> linked N' E'"
    using decay_network_law [OF codec trims fades rep sound free room, of l2] by blast
  have read: "ReadSceneNode (get_node J) e a i = Inr n \<longleftrightarrow> ?N i = Some n" "ReadSceneEdge J e a i = Inr x \<longleftrightarrow> ?E i = Some x" for i n x
    using net_read [OF codec start, of i] by (auto split: option.splits)
  note read' = net_read [OF codec fin]
  have node: "case node_fate F cfg l2 now n of None \<Rightarrow> \<not> Contains e' a i
      | Some n' \<Rightarrow> \<exists>P. ReadSceneNode (get_node J) e' a i = Inr (n'\<lparr>sn_EdgeIDs := filter P (sn_EdgeIDs n')\<rparr>)" if n: "?N i = Some n" for i n
  proof (cases "node_fate F cfg l2 now n")
    case None
    then have "N' i = None" using thinner_none [OF thin, of i] n by (simp add: all_fates_def)
    moreover have "E' i = None" using edges [of i] not_both [OF n] by simp
    ultimately show ?thesis using None net_contains [OF fin, of i] in_kind(1) [OF n] by (simp add: present_def)
  next
    case (Some n')
    then have "\<exists>P. N' i = Some (n'\<lparr>sn_EdgeIDs := filter P (sn_EdgeIDs n')\<rparr>)"
      using thin n unfolding thinner_def by (auto simp: all_fates_def dest!: spec [of _ i])
    then show ?thesis using Some read'(1) [of i] by auto
  qed
  have edge: "case edge_fate F cfg now (\<lambda>i. Contains e' a i
          \<and> \<not> (\<exists>n. ReadSceneNode (get_node J) e a i = Inr n \<and> pruned F cfg l2 now n \<and> y \<in> set (sn_EdgeIDs n))) x of
        None \<Rightarrow> \<not> Contains e' a y | Some x' \<Rightarrow> ReadSceneEdge J e' a y = Inr x'" (is "case edge_fate _ _ _ ?keep _ of None \<Rightarrow> _ | Some x' \<Rightarrow> _")
    if x: "?E y = Some x" for y x
  proof -
    have "edge_fate F cfg now ?keep x = edge_fate F cfg now (\<lambda>i. survives a m N' i \<and> (y, i) \<notin> pruned_pairs F cfg l2 now (dom ?N) ?N) x"
    proof (rule edge_fate_cong)
      fix i assume "i \<in> set (se_NodeIDs x)"
      then have "?E i = None" using free x by (auto simp: members_free_def)
      then have "E' i = None" using edges [of i] by simp
      then have "Contains e' a i \<longleftrightarrow> survives a m N' i" using net_contains [OF fin, of i] by (simp add: present_def survives_def)
      moreover have "(y, i) \<in> pruned_pairs F cfg l2 now (dom ?N) ?N \<longleftrightarrow> (\<exists>n. ReadSceneNode (get_node J) e a i = Inr n \<and> pruned F cfg l2 now n \<and> y \<in> set (sn_EdgeIDs n))"
        unfolding read by (auto simp: pruned_pairs_def)
      ultimately show "?keep i \<longleftrightarrow> survives a m N' i \<and> (y, i) \<notin> pruned_pairs F cfg l2 now (dom ?N) ?N" by blast
    qed
    then have "E' y = edge_fate F cfg now ?keep x" using edges [of y] x by simp
    moreover have "N' y = None" using thinner_none [OF thin, of y] net_valid(2) [OF start x] by (simp add: all_fates_def)
    ultimately show ?thesis using net_contains [OF fin, of y] in_kind(2) [OF x] read'(2) [of y] by (simp add: present_def split: option.splits)
  qed
  have "named_edges_hold J e a \<longrightarrow> named_edges_hold J e' a" using links net_links [OF codec start] net_links [OF codec fin] by blast
  then show ?thesis using run node edge net_others [OF fin rep] unfolding read by blast
qed

section \<open>The slowdown in exact arithmetic\<close>

text \<open>The operations of an ordered field, without rounding.\<close>

definition exact_ops :: "('f \<Rightarrow> 'f) \<Rightarrow> ('f :: linordered_field) float64" where
  "exact_ops ex = \<lparr>f_lit = (\<lambda>n d. of_int n / of_int d), f_of_int = of_int, f_lt = (<), f_le = (\<le>), f_sub = (-), f_mul = (*), f_div = (/),
     f_neg = uminus, f_exp = ex, f_abs = abs, f_min = min, f_max = max\<rparr>"

text \<open>Whatever the stored emotion, a memory fades at a tenth of the base rate or faster, and never faster than the base rate.\<close>

lemma slowdown_is_bounded:
  assumes "0 \<le> base"
  shows "base / 10 \<le> applyEmotionalBoost (exact_ops ex) base valence arousal" "applyEmotionalBoost (exact_ops ex) base valence arousal \<le> base"
proof -
  define x where "x = (if 1 < \<bar>valence - 1 / 2\<bar> * 2 then 1 else \<bar>valence - 1 / 2\<bar> * 2)"
  define y where "y = min (max arousal 0) 1"
  have rate: "applyEmotionalBoost (exact_ops ex) base valence arousal = base * (1 - 9 / 10 * (x * y))"
    by (simp add: applyEmotionalBoost_def exact_ops_def x_def y_def Let_def)
  have "0 \<le> x" "x \<le> 1" "0 \<le> y" "y \<le> 1" by (simp_all add: x_def y_def)
  then have "0 \<le> x * y" "x * y \<le> 1" by (auto intro: mult_le_one)
  then have "1 / 10 \<le> 1 - 9 / 10 * (x * y)" "1 - 9 / 10 * (x * y) \<le> 1" by (simp_all add: field_simps)
  then show "base / 10 \<le> applyEmotionalBoost (exact_ops ex) base valence arousal" "applyEmotionalBoost (exact_ops ex) base valence arousal \<le> base"
    unfolding rate using mult_left_mono [OF _ assms] by fastforce+
qed

section \<open>A concrete pass\<close>

text \<open>Two nodes on one edge, over a number type of two values: one node fades away and takes the edge with it.\<close>

definition two_valued :: "bool float64" where
  "two_valued = \<lparr>f_lit = (\<lambda>_ _. True), f_of_int = (\<lambda>_. True), f_lt = (\<lambda>x y. \<not> x \<and> y), f_le = (\<lambda>x y. x \<longrightarrow> y), f_sub = (\<lambda>x _. x),
     f_mul = (\<and>), f_div = (\<lambda>x _. x), f_neg = (\<lambda>x. x), f_exp = (\<lambda>_. True), f_abs = (\<lambda>x. x), f_min = (\<and>), f_max = (\<or>)\<rparr>"

definition two_params :: "bool DecayParams" where
  "two_params = \<lparr>dp_LambdaNode = True, dp_LambdaEdge = True, dp_NodeRemoveThreshold = True, dp_NodePruneEdgeThreshold = False,
     dp_EdgeRemoveThreshold = True, dp_MinEdgeNodes = 2\<rparr>"

definition tiny_node :: "u64 \<Rightarrow> bool \<Rightarrow> u64 list \<Rightarrow> i64 \<Rightarrow> bool SceneNode" where
  "tiny_node i v es t = \<lparr>sn_IDHash = i, sn_SceneID = 7, sn_TopicIDs = [], sn_Importance = v, sn_Valence = True, sn_Arousal = True,
     sn_EmotionSet = False, sn_CreatedAt = 5, sn_UpdatedAt = t, sn_EdgeIDs = es\<rparr>"

definition tiny_edge :: "u64 list \<Rightarrow> i64 \<Rightarrow> bool SceneEdge" where
  "tiny_edge ms t = \<lparr>se_IDHash = 30, se_NodeIDs = ms, se_Weight = True, se_CreatedAt = 5, se_LastDecayAt = t\<rparr>"

definition tiny_node_ok :: "bool SceneNode \<Rightarrow> bool" where
  "tiny_node_ok n \<longleftrightarrow> (\<exists>i \<in> {20, 21}. \<exists>v. \<exists>es \<in> {[], [30]}. \<exists>t \<in> {5, 100}. n = tiny_node i v es t)"
definition tiny_edge_ok :: "bool SceneEdge \<Rightarrow> bool" where
  "tiny_edge_ok x \<longleftrightarrow> (\<exists>ms \<in> {[], [20], [21], [20, 21]}. \<exists>t \<in> {0, 100}. x = tiny_edge ms t)"

definition tiny_json :: "bool l1_json" where
  "tiny_json = \<lparr>put_node = (\<lambda>n. Inr [if sn_IDHash n = 20 then 0 else 1, if sn_Importance n then 1 else 0, if sn_EdgeIDs n = [] then 0 else 1, if sn_UpdatedAt n = 5 then 0 else 1]),
     get_node = (\<lambda>d. Inr (tiny_node (if d ! 0 = 0 then 20 else 21) (d ! 1 = 1) (if d ! 2 = 0 then [] else [30]) (if d ! 3 = 0 then 5 else 100))),
     put_edge = (\<lambda>x. Inr [if 20 \<in> set (se_NodeIDs x) then 1 else 0, if 21 \<in> set (se_NodeIDs x) then 1 else 0, if se_LastDecayAt x = 0 then 0 else 1]),
     get_edge = (\<lambda>d. Inr (tiny_edge ((if d ! 0 = 1 then [20] else []) @ (if d ! 1 = 1 then [21] else [])) (if d ! 2 = 0 then 0 else 100)))\<rparr>"

lemma tiny_codec: "l1_codec tiny_json tiny_node_ok tiny_edge_ok 4 2"
proof -
  have "slot_codec (put_node tiny_json) (get_node tiny_json) tiny_node_ok"
    by unfold_locales (auto simp: tiny_json_def tiny_node_ok_def tiny_node_def)
  moreover have "slot_codec (put_edge tiny_json) (get_edge tiny_json) tiny_edge_ok"
    by unfold_locales (auto simp: tiny_json_def tiny_edge_ok_def tiny_edge_def)
  ultimately show ?thesis
    by (auto simp: l1_codec_def size_of_def tiny_json_def tiny_node_ok_def tiny_edge_ok_def tiny_node_def tiny_edge_def)
qed

lemma tiny_trims: "trims tiny_node_ok tiny_edge_ok"
proof -
  have "tiny_node_ok (n\<lparr>sn_EdgeIDs := filter P (sn_EdgeIDs n)\<rparr>)" if "tiny_node_ok n" for n P
    using that by (cases "P 30") (auto simp: tiny_node_ok_def tiny_node_def)
  moreover have "tiny_edge_ok (x\<lparr>se_NodeIDs := filter P (se_NodeIDs x)\<rparr>)" if "tiny_edge_ok x" for x P
    using that by (cases "P 20"; cases "P 21") (auto simp: tiny_edge_ok_def tiny_edge_def)
  ultimately show ?thesis by (simp add: trims_def)
qed

lemma tiny_fades: "fades two_valued two_params 100 tiny_node_ok tiny_edge_ok"
proof -
  have "tiny_node_ok (faded_node two_valued two_params 100 n)" if "tiny_node_ok n" for n
    using that by (auto simp: tiny_node_ok_def tiny_node_def faded_node_def)
  moreover have "tiny_edge_ok (faded_edge two_valued two_params 100 (filter P (se_NodeIDs x)) x)" if "tiny_edge_ok x" for x P
    using that by (cases "P 20"; cases "P 21") (auto simp: tiny_edge_ok_def tiny_edge_def faded_edge_def edge_weight_def decayed_def two_valued_def)
  ultimately show ?thesis by (simp add: fades_def)
qed

definition tiny_store :: store where
  "tiny_store = [(1, 20) \<mapsto> record_of (put_node tiny_json) RecL1SceneNode (tiny_node 20 False [30] 5),
     (1, 21) \<mapsto> record_of (put_node tiny_json) RecL1SceneNode (tiny_node 21 True [30] 5),
     (1, 30) \<mapsto> record_of (put_edge tiny_json) RecL1Hyperedge (tiny_edge [20, 21] 0)]"

lemma tiny_maps:
  "nodes_in tiny_json tiny_store 1 = [20 \<mapsto> tiny_node 20 False [30] 5, 21 \<mapsto> tiny_node 21 True [30] 5]"
  "edges_in tiny_json tiny_store 1 = [30 \<mapsto> tiny_edge [20, 21] 0]"
  using l1_types(1) by (auto simp: fun_eq_iff nodes_in_def edges_in_def typed_at_def tiny_store_def record_of_def tiny_json_def tiny_node_def tiny_edge_def)

lemma tiny_engine: "\<exists>e. engine_rep e tiny_store \<and> engine_room e (2 ^ 60)"
proof -
  let ?rs = "[entry_for (put_node tiny_json) 1 RecL1SceneNode sn_IDHash (tiny_node 20 False [30] 5),
    entry_for (put_node tiny_json) 1 RecL1SceneNode sn_IDHash (tiny_node 21 True [30] 5),
    entry_for (put_edge tiny_json) 1 RecL1Hyperedge se_IDHash (tiny_edge [20, 21] 0)]"
  have c: "slot_codec (put_node tiny_json) (get_node tiny_json) tiny_node_ok" "slot_codec (put_edge tiny_json) (get_edge tiny_json) tiny_edge_ok"
    using tiny_codec by (auto simp: l1_codec_def)
  have ok: "tiny_node_ok (tiny_node 20 False [30] 5)" "tiny_node_ok (tiny_node 21 True [30] 5)" "tiny_edge_ok (tiny_edge [20, 21] 0)"
    unfolding tiny_node_ok_def tiny_edge_ok_def by blast+
  have size: "size_of (put_node tiny_json) n = 4" "size_of (put_edge tiny_json) x = 3" for n x by (simp_all add: size_of_def tiny_json_def)
  note entries = entry_for_ok [OF slot_codec.entry_of [OF c(1) ok(1) _ l1_types(2)]] entry_for_ok [OF slot_codec.entry_of [OF c(1) ok(2) _ l1_types(2)]]
    entry_for_ok [OF slot_codec.entry_of [OF c(2) ok(3) _ l1_types(3)]]
  have "\<forall>r \<in> set ?rs. entry_ok r" "batch_size ?rs < 2 ^ 60" by (simp_all add: entries size RecordHeaderSize_def)
  then obtain e where "engine_rep e (put_all ?rs Map.empty)" "engine_room e (2 ^ 60)" using stored_rep by blast
  moreover have "put_all ?rs Map.empty = tiny_store"
    by (simp add: tiny_store_def put_entry_def entry_for_def record_of_def tiny_node_def tiny_edge_def)
  ultimately show ?thesis by auto
qed

theorem forgetting_leaves_no_loose_ends_witness:
  "\<exists>e r e'. engine_rep e tiny_store \<and> DecayNetwork two_valued tiny_json 100 1 newL2MetaIndex two_params e = ((r, None), e')
     \<and> \<not> Contains e' 1 20 \<and> \<not> Contains e' 1 30 \<and> ReadSceneNode (get_node tiny_json) e' 1 21 = Inr (tiny_node 21 True [] 100)"
proof -
  obtain e where e: "engine_rep e tiny_store" "engine_room e (2 ^ 60)" using tiny_engine by blast
  have sound: "l1_sound tiny_json tiny_node_ok tiny_edge_ok tiny_store 1" unfolding l1_sound_def tiny_maps
    by (auto simp: l1_kind_def tiny_store_def tiny_node_ok_def tiny_edge_ok_def split: if_splits) (simp_all add: tiny_node_def)
  have free: "members_free (edges_in tiny_json tiny_store 1)" by (auto simp: tiny_maps members_free_def tiny_edge_def split: if_splits)
  have "card (dom (nodes_in tiny_json tiny_store 1)) = 2" "card (dom (edges_in tiny_json tiny_store 1)) = 1" by (simp_all add: tiny_maps)
  then have room: "engine_room e (net_room 4 2 (card (dom (nodes_in tiny_json tiny_store 1))) (card (dom (edges_in tiny_json tiny_store 1))))"
    using e(2) by (simp add: engine_room_def net_room_def RecordHeaderSize_def)
  note start = net_start [OF e(1,2) sound]
  have before: "ReadSceneNode (get_node tiny_json) e 1 20 = Inr (tiny_node 20 False [30] 5)" "ReadSceneNode (get_node tiny_json) e 1 21 = Inr (tiny_node 21 True [30] 5)"
    "ReadSceneEdge tiny_json e 1 30 = Inr (tiny_edge [20, 21] 0)"
    using net_read [OF tiny_codec start] by (simp_all add: tiny_maps)
  have fate: "node_fate two_valued two_params newL2MetaIndex 100 (tiny_node 20 False [30] 5) = None"
    "node_fate two_valued two_params newL2MetaIndex 100 (tiny_node 21 True [30] 5) = Some (tiny_node 21 True [30] 100)"
    by (simp_all add: node_fate_def skipDeepNode_def node_importance_def decayed_def faded_node_def two_valued_def two_params_def tiny_node_def)
  have linked: "named_edges_hold tiny_json e 1" unfolding net_links [OF tiny_codec start]
    by (auto simp: linked_def tiny_maps tiny_node_def tiny_edge_def split: if_splits)
  note law = forgetting_leaves_no_loose_ends [OF tiny_codec tiny_trims tiny_fades e(1) sound free room, of newL2MetaIndex]
  obtain r e' where r: "DecayNetwork two_valued tiny_json 100 1 newL2MetaIndex two_params e = ((r, None), e')"
    and nodes: "\<forall>i n. ReadSceneNode (get_node tiny_json) e 1 i = Inr n \<longrightarrow> (case node_fate two_valued two_params newL2MetaIndex 100 n of None \<Rightarrow> \<not> Contains e' 1 i
        | Some n' \<Rightarrow> \<exists>P. ReadSceneNode (get_node tiny_json) e' 1 i = Inr (n'\<lparr>sn_EdgeIDs := filter P (sn_EdgeIDs n')\<rparr>))"
    and edges: "\<forall>y x. ReadSceneEdge tiny_json e 1 y = Inr x \<longrightarrow> (case edge_fate two_valued two_params 100 (\<lambda>i. Contains e' 1 i
          \<and> \<not> (\<exists>n. ReadSceneNode (get_node tiny_json) e 1 i = Inr n \<and> pruned two_valued two_params newL2MetaIndex 100 n \<and> y \<in> set (sn_EdgeIDs n))) x of
        None \<Rightarrow> \<not> Contains e' 1 y | Some x' \<Rightarrow> ReadSceneEdge tiny_json e' 1 y = Inr x')"
    and links: "named_edges_hold tiny_json e' 1"
    using law linked by blast
  have n20: "\<not> Contains e' 1 20" using nodes [rule_format, OF before(1)] fate(1) by simp
  have few: "edge_fate two_valued two_params 100 keep (tiny_edge [20, 21] 0) = None" if "\<not> keep 20" for keep
    using that by (simp add: edge_fate_def fade_edge_def tiny_edge_def two_params_def)
  have e30: "\<not> Contains e' 1 30" using edges [rule_format, OF before(3)] n20 few by simp
  obtain P where n21: "ReadSceneNode (get_node tiny_json) e' 1 21 = Inr ((tiny_node 21 True [30] 100)\<lparr>sn_EdgeIDs := filter P [30]\<rparr>)"
    using nodes [rule_format, OF before(2)] fate(2) by (auto simp: tiny_node_def)
  have "ReadSceneEdge tiny_json e' 1 30 \<noteq> Inr x" for x
  proof
    assume "ReadSceneEdge tiny_json e' 1 30 = Inr x"
    then have "Contains e' 1 30" by (auto simp: ReadSceneEdge_def readJSON_def ReadRecord_def Contains_def split: sum.splits prod.splits option.splits if_splits)
    then show False using e30 by simp
  qed
  then have "30 \<notin> set (filter P [30])" using links n21 unfolding named_edges_hold_def by fastforce
  then have "filter P [30] = ([] :: u64 list)" by (cases "P 30") simp_all
  then have "ReadSceneNode (get_node tiny_json) e' 1 21 = Inr (tiny_node 21 True [] 100)" using n21 by (simp add: tiny_node_def)
  then show ?thesis using e(1) r n20 e30 by blast
qed

end
