(* ===== verification/Spec2Isabelle.thy ===== *)
theory Spec2Isabelle
  imports Engine_Compact Content_Properties Plan_Properties Scene_Properties Session_Properties Cache_Rebuild Graph_Properties Dream_Properties Door_Properties Profile_Properties Llm_Properties L1_Properties Engram_Properties
begin

text \<open>
  MemHop, an embedded memory database for agents: a verification of its core in Isabelle/HOL.

  \<^bold>\<open>The program.\<close> A MemHop file is an append-only log of typed records with two checksummed headers and an index
  snapshot (\<^verbatim>\<open>internal/repo/core\<close>). Above it lie typed slots in JSON (\<^verbatim>\<open>record.go\<close>, \<^verbatim>\<open>model.go\<close>), one layer of record
  operations per kind of memory (\<^verbatim>\<open>internal/repo\<close>: L2 scenes and topics, L3 knowledge graphs, L4 contents, L5 plans),
  in-memory mirrors of some of them (\<^verbatim>\<open>internal/repo/index\<close>, \<^verbatim>\<open>internal/domain\<close>), the operations of a domain
  (\<^verbatim>\<open>internal/content\<close>, \<^verbatim>\<open>plan\<close>, \<^verbatim>\<open>scene\<close>, \<^verbatim>\<open>turn\<close>, \<^verbatim>\<open>graph\<close>, \<^verbatim>\<open>dream\<close>), the handle with its table of domains and their locks
  (\<^verbatim>\<open>internal/db.go\<close>, \<^verbatim>\<open>agents.go\<close>, \<^verbatim>\<open>l0.go\<close> to \<^verbatim>\<open>l5.go\<close>, \<^verbatim>\<open>search.go\<close>, \<^verbatim>\<open>update.go\<close>), and beside them the exchanges with a language
  model (\<^verbatim>\<open>internal/llm\<close>, \<^verbatim>\<open>internal/cap/llmops\<close>). A turn is opened by \<open>Search\<close>, filled by \<open>AppendArchive\<close> and the plan
  operations, and settled by \<open>Update\<close>; a Dream later sweeps what is too old, fuses topics, brings the L1 network in step
  and distils the profile.

  \<^bold>\<open>How the model stands to the code.\<close> A Go function is a definition of the same name; helpers that stand for a loop or
  for the tail of a function are mapped to it. A method with effects takes the state and returns it with its result, on
  every path, since a failing Go method leaves its mutations in place. An error is \<open>Inl\<close> of a \<open>goerr\<close>, messages dropped.
  A record id is a 64-bit word, other Go integers are words of their width or, for \<^verbatim>\<open>int64\<close>, integers with
  \<open>i64_wrap\<close> written where the code can wrap. A string is its bytes. A Go map is an association list and theorems speak of
  its \<open>map_of\<close>. System calls take their outcome from a script of faults. A loop that need not end is a partial function
  into \<open>option\<close>, and so is one that consumes random draws; \<open>None\<close> is never an error. Clocks, random draws, the
  third-party hash (\<open>H\<close>), the case folding of Unicode (\<open>lower\<close>), the HTTP client (\<open>create\<close>, \<open>gone\<close>) and the codecs of
  profiles and L1 records, whose fields are floating-point (\<open>tojson\<close>, \<open>dec\<close>, \<open>J\<close>), are arguments, as are the operations
  of \<^verbatim>\<open>float64\<close> (\<open>F\<close>). A whole Dream takes them as the record \<open>dream_lib\<close>, and its clock, its cancellation and the answers
  of the model as \<open>dream_world\<close>.

  \<^bold>\<open>The theories.\<close>
  \<^item> \<^verbatim>\<open>MH_Prelude\<close>, \<^verbatim>\<open>Go_Slices\<close>, \<^verbatim>\<open>Go_Text\<close>: words and little-endian bytes, maps, what is used of \<^verbatim>\<open>slices\<close> and \<^verbatim>\<open>strings\<close>. \<^verbatim>\<open>Common\<close> is \<^verbatim>\<open>internal/common\<close>.
  \<^item> \<^verbatim>\<open>Crc32\<close>, \<^verbatim>\<open>Frame\<close>, \<^verbatim>\<open>Header\<close>, \<^verbatim>\<open>Snapshot\<close>, \<^verbatim>\<open>Os_File\<close>, \<^verbatim>\<open>Engine\<close>, \<^verbatim>\<open>Engine_Lifecycle\<close>: the storage engine, definition by
    definition. \<^verbatim>\<open>Engine_Log\<close>, \<^verbatim>\<open>Engine_Correct\<close>, \<^verbatim>\<open>Engine_Recovery\<close>, \<^verbatim>\<open>Engine_Durable\<close>, \<^verbatim>\<open>Engine_Crash\<close>, \<^verbatim>\<open>Engine_Compact\<close>:
    its invariant, its refinement of a map from keys to typed payloads, what survives a close and a crash, compaction.
    \<^verbatim>\<open>Engine_Defects\<close>: two files on which it breaks its word. \<^verbatim>\<open>Fresh_Store\<close>, \<^verbatim>\<open>Sample_Store\<close>: concrete stores for examples.
  \<^item> \<^verbatim>\<open>Record_Store\<close>: the contract of the engine as the locale \<open>record_store\<close>, interpreted on it as \<open>eng\<close>; every layer above
    argues over that contract only.
  \<^item> \<^verbatim>\<open>Json\<close>, \<^verbatim>\<open>Json_Roundtrip\<close>, \<^verbatim>\<open>Codec\<close>, \<^verbatim>\<open>Model\<close>, \<^verbatim>\<open>Slot_Codecs\<close>, \<^verbatim>\<open>Codec_Size\<close>, \<^verbatim>\<open>Typed_Records\<close>: the JSON text of a slot and the
    parser of the whole grammar, the seven slot types as instances of the locales \<open>slot_codec\<close> and \<open>exact_codec\<close> (which
    slots come back, and that no others do), how long a text can get, and typed reads and writes.
  \<^item> \<^verbatim>\<open>L4_Index\<close>, \<^verbatim>\<open>L4_Layer\<close>, \<^verbatim>\<open>L4_Correct\<close>, \<^verbatim>\<open>Content\<close>, \<^verbatim>\<open>Content_Ops\<close>, \<^verbatim>\<open>Content_Properties\<close>: contents.
  \<^item> \<^verbatim>\<open>L5_Layer\<close>, \<^verbatim>\<open>Plan_Cache\<close>, \<^verbatim>\<open>Plan\<close>, \<^verbatim>\<open>Plan_Correct\<close>, \<^verbatim>\<open>Plan_Forest\<close>, \<^verbatim>\<open>Plan_Properties\<close>: plans.
  \<^item> \<^verbatim>\<open>L2_Meta\<close>, \<^verbatim>\<open>L2_Layer\<close>, \<^verbatim>\<open>L2_Correct\<close>, \<^verbatim>\<open>Scene\<close>, \<^verbatim>\<open>Cascade\<close>, \<^verbatim>\<open>Scene_Correct\<close>, \<^verbatim>\<open>Scene_Ops\<close>, \<^verbatim>\<open>Scene_Properties\<close>: scenes and
    topics. \<^verbatim>\<open>Domain_Context\<close>: the state of one domain. \<^verbatim>\<open>Turn_Ops\<close>: opening and settling a turn.
  \<^item> \<^verbatim>\<open>L1_Layer\<close>, \<^verbatim>\<open>L1_Correct\<close>, \<^verbatim>\<open>L1_Properties\<close>: the nodes that mirror the scenes, one per scene, and their sync.
    \<^verbatim>\<open>Engram\<close>, \<^verbatim>\<open>Engram_Correct\<close>, \<^verbatim>\<open>Engram_Properties\<close>: the edges between them, decay, and their abstraction to two maps.
  \<^item> \<^verbatim>\<open>L3_Layer\<close>, \<^verbatim>\<open>Graph\<close>, \<^verbatim>\<open>Graph_Query\<close>, \<^verbatim>\<open>Graph_Ops\<close>, \<^verbatim>\<open>Graph_Properties\<close>: knowledge graphs.
  \<^item> \<^verbatim>\<open>Dream\<close>, \<^verbatim>\<open>Dream_Correct\<close>, \<^verbatim>\<open>Dream_Properties\<close>: the retention sweeps and the fusion of topics. \<^verbatim>\<open>Dream_Run\<close>: the
    distillation of a profile and the whole of \<open>RunDream\<close>, stage by stage, with its report and its checkpoints.
  \<^item> \<^verbatim>\<open>Db\<close>, \<^verbatim>\<open>Agents\<close>, \<^verbatim>\<open>Config\<close>, \<^verbatim>\<open>Open_Handle\<close>, \<^verbatim>\<open>Agents_Correct\<close>, \<^verbatim>\<open>Door_Properties\<close>, \<^verbatim>\<open>Profile_Properties\<close>: the handle, the
    registry of sub-agents, the doors of a file, settings and profiles. \<^verbatim>\<open>Agent_Steps\<close>, \<^verbatim>\<open>Session_Properties\<close>,
    \<^verbatim>\<open>Cache_Rebuild\<close>: the handle as a state machine over all calls of a host.
  \<^item> \<^verbatim>\<open>Llm_Provider\<close>, \<^verbatim>\<open>Llm_Ops\<close>, \<^verbatim>\<open>Llm_Correct\<close>, \<^verbatim>\<open>Llm_Properties\<close>: the transport to the language model and the
    extraction of keywords over it, through the locale \<open>transport\<close>.

  \<^bold>\<open>What the theorems show.\<close> The engine is a durable map: writes and deletes do what they say, a clean close, a live file, a
  torn batch and a half-done trim all reopen to the store their log denotes, compaction keeps it, failed appends are
  undone (C1 to C9). Damage is seen (C10). A slot comes back exactly when its text is valid UTF-8 and its timestamps
  fit, slots are readable only as their kind, and fit their frames (C17 to C19). Appends store whole batches in fresh slots, queries answer the same with and without the mirror, the
  sweeps drop exactly what is too old, and no record outside what they name is touched (C20 to C24). Plans grow by one node at a time and their trees show every node
  (C25 to C27). Cascades, merges, sinks and fusions change exactly what they name and keep every other record of every
  agent, a turn opened in any domain whose profile reads can be settled, turns settle into their topics, and the L1
  nodes follow the topics (C29 to C35). Decay leaves no reference to an edge that is gone (C13). Names of sub-agents lead
  to one id for good, edits never move a handle, settings never wrap (C11, C12, C14). Keyword extraction ends, bounded, and
  loses nothing (C28, C36). Over all calls of a host, background Dreams included, agents do not reach each other's
  records, but for the anchors of a graph that is deleted; a closed handle refuses every call and stays closed; and a
  domain whose caches were dropped is rebuilt to one that gives the same stored answers, the open turn, the current scene
  and the floor of the stamps being what is lost (C37 to C39). Subgraph queries are bounded reachability (C40).
  C15 and C16 state two defects of recovery.

  \<^bold>\<open>Hypotheses and bounds.\<close> \<open>engine_rep e m\<close> says that the engine is healthy and denotes the store \<open>m\<close>; \<open>engine_room e n\<close>, that
  \<open>n\<close> more bytes of frames keep the file below \<open>2 ^ 63\<close>. \<open>domain_inv\<close> and the like say that the mirrors of a domain agree
  with its records and that records sit at their derived addresses; every operation proved about keeps them.
  \<open>own_contexts db\<close> says that the contexts of a handle are filed under their own ids, as in one just opened. Hash
  collisions are excluded where an operation derives two addresses, and by name. The JSON parser takes twice the length
  of the text plus two as fuel, since two of its calls consume a character; the recursive walks of a plan tree take the
  number of its nodes, which bounds their depth.

  \<^bold>\<open>Not modelled, and why.\<close>
  \<^item> IEEE arithmetic: the sync of the L1 nodes only copies such fields, which are a type variable; building and decay of
    edges take the operations on them as a record (\<open>float64\<close>), so their theorems hold whatever these compute, and
    \<open>slowdown_is_bounded\<close> says what the emotional slowdown is in exact arithmetic.
  \<^item> The digest of a profile for prompts (\<^verbatim>\<open>profile.go\<close>) and the request of a distillation (\<^verbatim>\<open>llmops/distill.go\<close>), which prints
    and reads floating-point numbers; its answer is an argument of a Dream.
  \<^item> \<^verbatim>\<open>parseConsolidateResponse\<close>: it needs the raw text of JSON members; its answer is the argument \<open>consolidate\<close> of a Dream.
  \<^item> Mutexes, atomics and goroutines: every exported call is one step, and the scenes of a Dream come one after another.
    \<open>triggerSceneDream\<close>, which starts a Dream in the background, is a call of \<open>RunDream\<close> in a session. Cancellation is
    modelled in the transport and at the checkpoints of a Dream.
  \<^item> The facade \<^verbatim>\<open>src/api\<close>, which forwards calls and renders ids; the Windows variants of mapping and lock; log output;
    error messages; the nesting limit of the JSON scanner.

  \<^bold>\<open>Where the code and its word part.\<close> Besides C15 and C16: the settle write does not un-sink a sunk turn, as the comment
  on \<^verbatim>\<open>SettleTarget\<close> has it (C35); five calls check an argument before they say that the handle is closed (C38); the
  floor of the last-used stamps lasts as long as a context, not as the process (C39); the write contract lets text
  through that is not valid UTF-8 and stores another one (\<open>accepted_text_is_altered\<close>); a name that is not valid UTF-8 is registered but lost at the
  next open (\<open>broken_name_is_lost\<close>); the worklist of a topic closure never ends on a cycle of parent links
  (\<open>TopicClosure_cycle_hangs\<close>); an append after a record in the last slot of a topic takes slot 0
  (\<open>append_after_top_slot\<close>).
\<close>

section \<open>The storage engine as a durable map\<close>

text \<open>
  C1. A record written is the record read: \<open>WriteRecord\<close> succeeds on a healthy disk with room, the
  written key then reads back as exactly the written type and payload, and every other key of every
  agent reads as before.
\<close>

theorem WriteRecord_ReadRecord:
  assumes "engine_rep e m" "engine_room e (RecordHeaderSize + length d)" "length d < 2 ^ 32" "(a, t, i, d) \<noteq> (0, 0, 0, [])"
  shows "\<exists>off e'. WriteRecord a t i d e = (Inr off, e') \<and> ReadRecord e' a i = Inr (t, d)
    \<and> (\<forall>b j. (b, j) \<noteq> (a, i) \<longrightarrow> ReadRecord e' b j = ReadRecord e b j)"
proof -
  let ?r = "\<lparr>r_agent = a, r_type = t, r_id = i, r_data = d\<rparr>"
  have "entry_ok ?r" using assms(3,4) entry_ok_iff by blast
  then obtain out e' where "WriteRecordBatch [?r] e = (Inr out, e')" "ReadRecord e' a i = Inr (t, d)"
    "\<forall>b j. (b, j) \<noteq> (a, i) \<longrightarrow> ReadRecord e' b j = ReadRecord e b j"
    using eng.write_read [OF assms(1), of ?r] assms(2) by auto
  then show ?thesis by (auto simp: WriteRecord_batch)
qed

theorem WriteRecord_ReadRecord_witness:
  "\<exists>e off e'. Create blank_file = (Inr e, efile e) \<and> WriteRecord 7 1 42 [1, 2, 3] e = (Inr off, e')
     \<and> ReadRecord e' 7 42 = Inr (1, [1, 2, 3])"
proof -
  obtain e where "Create blank_file = (Inr e, efile e)" "engine_rep e Map.empty" "engine_room e (RecordHeaderSize + length ([1, 2, 3] :: bytes))"
    using fresh_rep [of "RecordHeaderSize + length ([1, 2, 3] :: bytes)"] by (auto simp: RecordHeaderSize_def)
  with WriteRecord_ReadRecord [of e Map.empty "[1, 2, 3]" 7 1 42] show ?thesis by auto
qed

text \<open>
  C2. A batch delete removes the named records of one agent and nothing else, and its count is the
  number of names that were live when it started.
\<close>

theorem DeleteRecordBatch_ReadRecord:
  assumes "engine_rep e m" "engine_room e (RecordHeaderSize * length ids)"
  shows "\<exists>e'. DeleteRecordBatch a ids e = (Inr (length (filter (Contains e a) ids)), e')
    \<and> (\<forall>i \<in> set ids. ReadRecord e' a i = Inl (NewError ErrNotFound))
    \<and> (\<forall>b i. b \<noteq> a \<or> i \<notin> set ids \<longrightarrow> ReadRecord e' b i = ReadRecord e b i)"
proof -
  have "filter (Contains e a) ids = filter (\<lambda>i. m (a, i) \<noteq> None) ids"
    using eng.has_law [OF assms(1), of a] by (intro filter_cong) auto
  moreover obtain e' where "DeleteRecordBatch a ids e = (Inr (length (filter (\<lambda>i. m (a, i) \<noteq> None) ids)), e')"
    using eng.delete_law [OF assms(1), of ids 0 a] assms(2) by auto
  ultimately show ?thesis using eng.delete_read [OF assms, of a] by auto
qed

theorem DeleteRecordBatch_ReadRecord_witness:
  "\<exists>e e'. Create blank_file = (Inr e, efile e) \<and> DeleteRecordBatch 7 [42, 43] e = (Inr (length (filter (Contains e 7) [42, 43])), e')
     \<and> ReadRecord e' 7 42 = Inl (NewError ErrNotFound)"
proof -
  obtain e where "Create blank_file = (Inr e, efile e)" "engine_rep e Map.empty" "engine_room e (RecordHeaderSize * length ([42, 43] :: u64 list))"
    using fresh_rep [of "RecordHeaderSize * length ([42, 43] :: u64 list)"] by (auto simp: RecordHeaderSize_def)
  with DeleteRecordBatch_ReadRecord [of e Map.empty "[42, 43]" 7] show ?thesis by auto
qed

text \<open>
  C3. A clean close followed by an open restores the store: the checkpoint \<open>Close\<close> appends is the
  snapshot \<open>Open\<close> loads, and the reopened engine reads as the closed one did.
\<close>

theorem Close_then_Open:
  assumes "engine_rep e m" "snapshot_room e m"
  shows "\<exists>e1 e2. Close e = (Inr (), e1) \<and> Open (efile e1) = (Inr e2, efile e2) \<and> engine_rep e2 m
    \<and> (\<forall>a i. ReadRecord e2 a i = ReadRecord e a i)"
proof -
  obtain e1 e2 where e: "Close e = (Inr (), e1)" "Open (efile e1) = (Inr e2, efile e2)" "engine_rep e2 m"
    using Close_Open_rep [OF assms] by blast
  then show ?thesis using eng.read_law [OF assms(1)] eng.read_law [OF e(3)] by auto
qed

theorem Close_then_Open_witness:
  "\<exists>e e1 e2. Create blank_file = (Inr e, efile e) \<and> Close e = (Inr (), e1) \<and> Open (efile e1) = (Inr e2, efile e2)
     \<and> engine_rep e2 Map.empty"
proof -
  obtain e where e: "Create blank_file = (Inr e, efile e)" "engine_rep e Map.empty" "engine_room e 41"
    using fresh_rep [of 41] by auto
  have "snapshot_room e Map.empty"
    using e trim_room_commit by (auto simp: snapshot_room_def engine_room_def)
  with e Close_then_Open [of e Map.empty] show ?thesis by blast
qed

text \<open>
  C4. A crash in the middle of a batch: when the file holds the first \<open>n\<close> bytes of the batch's
  frames, \<open>Open\<close> keeps exactly the frames those bytes hold completely, cuts the torn one off, and
  the engine is healthy again. The hypothesis says that no byte of the torn frame happens to start
  something that reads as a frame.
\<close>

theorem Open_after_torn_batch:
  assumes "engine_inv e fs" "\<not> has_snapshot (activeHeaderRef e)" "\<forall>g \<in> set gs. frame_ok g" "n \<le> length (enc_log gs)"
    and "f = (efile e)\<lparr>contents := contents (efile e) @ take n (enc_log gs), cursor := cur\<rparr>"
    and "length (contents (efile e)) + n < 2 ^ 63"
    and "silent_after (contents f) (length (contents (efile e)) + length (enc_log (take (whole gs n) gs)))"
  shows "\<exists>e'. Open f = (Inr e', efile e') \<and> engine_inv e' (fs @ take (whole gs n) gs)"
  using Open_torn_batch assms by blast

theorem Open_after_torn_batch_witness:
  "\<exists>e f e'. Create blank_file = (Inr e, efile e)
     \<and> f = (efile e)\<lparr>contents := contents (efile e) @ take 40 (enc_log (map (\<lambda>i. \<lparr>f_type = 1, f_flags = 0, f_data = [9, 9],
          f_agent = 7, f_id = i\<rparr>) [1, 2])), cursor := 0\<rparr>
     \<and> Open f = (Inr e', efile e') \<and> engine_inv e' [\<lparr>f_type = 1, f_flags = 0, f_data = [9, 9], f_agent = 7, f_id = 1\<rparr>]"
proof -
  obtain e where e: "Create blank_file = (Inr e, efile e)" "engine_inv e []" "length (contents (efile e)) = DataStart"
    "\<not> has_snapshot (activeHeaderRef e)" using fresh_engine by blast
  let ?gs = "map (\<lambda>i. \<lparr>f_type = 1, f_flags = 0, f_data = [9, 9], f_agent = 7, f_id = i\<rparr>) [1, 2]"
  let ?f = "(efile e)\<lparr>contents := contents (efile e) @ take 40 (enc_log ?gs), cursor := 0\<rparr>"
  have w: "whole ?gs 40 = 1" by (simp add: RecordHeaderSize_def)
  have "silent_after (contents ?f) (length (contents (efile e)) + length (enc_log (take (whole ?gs 40) ?gs)))"
    unfolding w by (rule silent_short) (simp add: RecordHeaderSize_def)
  moreover have "\<forall>g \<in> set ?gs. frame_ok g" by (simp add: frame_ok_def blank_head_def)
  moreover have "40 \<le> length (enc_log ?gs)" by (simp add: RecordHeaderSize_def)
  moreover have "length (contents (efile e)) + 40 < 2 ^ 63" using e(3) by (simp add: DataStart_def HeaderSize_def)
  ultimately have "\<exists>e'. Open ?f = (Inr e', efile e') \<and> engine_inv e' ([] @ take (whole ?gs 40) ?gs)"
    using Open_after_torn_batch [OF e(2,4), of ?gs 40 ?f 0] by blast
  then show ?thesis using e(1) w by auto
qed

text \<open>
  C5. A crash in the window of \<open>trimTailSnapshot\<close>, after the file was cut back to its records and
  before the header without snapshot was written: the active header names a snapshot the file no
  longer holds, and \<open>Open\<close> still restores every record by scanning.
\<close>

theorem Open_after_trim_crash:
  assumes "engine_inv e fs" "has_snapshot (activeHeaderRef e)"
    and "f = (efile e)\<lparr>contents := take (nextOffset e) (contents (efile e))\<rparr>"
  shows "\<exists>e'. Open f = (Inr e', efile e') \<and> engine_inv e' fs"
  using Open_trim_window assms by blast

theorem Open_after_trim_crash_witness:
  "\<exists>e e1 f e'. Create blank_file = (Inr e, efile e) \<and> Checkpoint e = (Inr (), e1)
     \<and> f = (efile e1)\<lparr>contents := take (nextOffset e1) (contents (efile e1))\<rparr> \<and> Open f = (Inr e', efile e') \<and> engine_inv e' []"
proof -
  obtain e e1 where "Create blank_file = (Inr e, efile e)" "Checkpoint e = (Inr (), e1)" "engine_inv e1 []"
    "has_snapshot (activeHeaderRef e1)" using fresh_checkpointed by blast
  with Open_after_trim_crash [of e1 "[]"] show ?thesis by blast
qed

text \<open>
  C6. A process that dies between two operations loses nothing: whatever the engine did last (a
  write, a delete, a checkpoint), opening its file as it is gives the same store.
\<close>

theorem Open_live_file:
  assumes "engine_rep e m"
  shows "\<exists>e'. Open (efile e) = (Inr e', efile e') \<and> engine_rep e' m"
  using assms Open_engine unfolding engine_rep_def by blast

theorem Open_live_file_witness:
  "\<exists>e e'. Create blank_file = (Inr e, efile e) \<and> Open (efile e) = (Inr e', efile e') \<and> engine_rep e' Map.empty"
  using fresh_rep [of 0] Open_live_file [of _ Map.empty] by force

text \<open>
  C7. Compaction: on a healthy disk \<open>Compact\<close> succeeds, and opening the file it wrote gives a store
  with exactly the records of the engine it copied.
\<close>

theorem Compact_keeps_store:
  assumes "engine_rep e m" "m (0, 0) \<noteq> Some (0, [])" "faults f = []"
    and "DataStart + batch_size (live_entries (mmap e) (index e)) + 13 + 28 * card (dom m) < 2 ^ 63"
    and "13 + 28 * card (dom m) < 2 ^ 32"
  shows "\<exists>f' e'. Compact e f = (Inr (), f') \<and> Open f' = (Inr e', efile e') \<and> engine_rep e' m"
  using assms Compact_file unfolding engine_rep_def by blast

theorem Compact_keeps_store_witness:
  "\<exists>e f' e'. Create blank_file = (Inr e, efile e) \<and> Compact e blank_file = (Inr (), f')
     \<and> Open f' = (Inr e', efile e') \<and> engine_rep e' Map.empty"
proof -
  obtain e where e: "Create blank_file = (Inr e, efile e)" "engine_inv e []" "index e = []"
    using fresh_engine by blast
  have "engine_rep e Map.empty" unfolding engine_rep_def using e(2) view_of_Nil by metis
  moreover have "batch_size (live_entries (mmap e) (index e)) = 0" by (simp add: e(3) live_entries_def)
  moreover have "faults blank_file = []" by (simp add: blank_file_def)
  ultimately show ?thesis
    using Compact_keeps_store [of e Map.empty blank_file] e(1) by (auto simp: DataStart_def HeaderSize_def)
qed

text \<open>
  C8. A batch whose append fails, by any pattern of failing seeks and writes, changes no in-memory
  structure; unless cutting the file back failed as well (the second error of the pair), the file is
  as it was too.
\<close>

theorem failed_append_is_undone:
  assumes "appendFrames rs e = (Inl err, e')"
  shows "index e' = index e \<and> byAgentType e' = byAgentType e \<and> nextOffset e' = nextOffset e
    \<and> (contents (efile e') = contents (efile e) \<or> (\<exists>cause undo. err = Joined [cause, undo]))"
  using appendFrames_fail [OF assms] by blast

theorem failed_append_is_undone_witness:
  "\<exists>e'. appendFrames [\<lparr>r_agent = 7, r_type = 1, r_id = 42, r_data = [1, 2]\<rparr>]
        \<lparr>efile = \<lparr>contents = [5, 6, 7], cursor = 0, faults = [OpOk, OpOk, OpShort 4]\<rparr>, mapped = 3, headerA = NewFileHeader,
         headerB = NewFileHeader, activeHeader = False, index = [], byAgentType = [], nextOffset = 3, closed = False\<rparr>
      = (Inl (Joined [Error ErrIO (Some Plain_Err)]), e') \<and> contents (efile e') = [5, 6, 7] \<and> index e' = []"
proof -
  let ?e = "\<lparr>efile = \<lparr>contents = [5, 6, 7], cursor = 0, faults = [OpOk, OpOk, OpShort 4]\<rparr>, mapped = 3, headerA = NewFileHeader,
     headerB = NewFileHeader, activeHeader = False, index = [], byAgentType = [], nextOffset = 3, closed = False\<rparr>"
  obtain e' where e': "appendFrames [\<lparr>r_agent = 7, r_type = 1, r_id = 42, r_data = [1, 2]\<rparr>] ?e
      = (Inl (Joined [Error ErrIO (Some Plain_Err)]), e')"
    by (simp add: appendFrames_def f_seek_end_def f_write_def os_call_def next_op_def undoAppend_def truncateTail_def
        UnmapFile_def f_truncate_def f_sync_def MapFile_def Let_def)
  with failed_append_is_undone [OF e'] show ?thesis by auto
qed

section \<open>The file format\<close>

text \<open>
  C9. A frame decodes to what was encoded, wherever it stands in the file and whatever follows it.
\<close>

theorem EncodeRecord_RecordData:
  assumes "length d < 2 ^ 32" "(a, t, i, d) \<noteq> (0, 0, 0, []) \<or> fl \<noteq> 0"
  shows "RecordData (pre @ EncodeRecord a t fl i d @ post) (length pre)
    = Inr \<lparr>f_type = t, f_flags = fl, f_data = d, f_agent = a, f_id = i\<rparr>"
proof (rule RecordData_EncodeRecord [OF assms(1)])
  show "\<not> blank_head a t fl i (of_nat (length d))"
  proof
    assume b: "blank_head a t fl i (of_nat (length d))"
    then have "entry_ok \<lparr>r_agent = a, r_type = t, r_id = i, r_data = d\<rparr>"
      using assms(2) entry_ok_iff [OF assms(1)] by (auto simp: blank_head_def)
    then show False using b by (simp add: entry_ok_def frame_ok_def frame_of_def blank_head_def)
  qed
qed

theorem EncodeRecord_RecordData_witness:
  "RecordData ([0, 0, 0] @ EncodeRecord 7 1 0 42 [1, 2, 3] @ [9]) (length ([0, 0, 0] :: bytes))
     = Inr \<lparr>f_type = 1, f_flags = 0, f_data = [1, 2, 3], f_agent = 7, f_id = 42\<rparr>"
  using EncodeRecord_RecordData [of "[1, 2, 3]" 7 1 42 0 "[0, 0, 0]" "[9]"] by simp

text \<open>
  C10. A frame whose payload has one changed byte is reported as a checksum mismatch: it is never
  read as another record.
\<close>

theorem RecordData_detects_damage:
  assumes "length d < 2 ^ 32" "j < length d" "b \<noteq> d ! j"
  shows "RecordData (pre @ (EncodeRecord a t fl i d)[RecordHeaderSize + j := b] @ post) (length pre)
    = Inl (NewError ErrCRCMismatch)"
proof (rule RecordData_payload_changed [OF assms])
  have "unat (of_nat (length d) :: u32) = length d" using assms(1) by (simp add: unat_of_nat)
  then have "(of_nat (length d) :: u32) \<noteq> 0" using assms(2) unat_eq_zero [of "of_nat (length d) :: u32"] by auto
  then show "\<not> blank_head a t fl i (of_nat (length d))" by (simp add: blank_head_def)
qed

theorem RecordData_detects_damage_witness:
  "RecordData ([] @ (EncodeRecord 7 1 0 42 [1, 2, 3])[RecordHeaderSize + 1 := 5] @ []) (length ([] :: bytes))
     = Inl (NewError ErrCRCMismatch)"
  using RecordData_detects_damage [of "[1, 2, 3]" 1 5 "[]" 7 1 0 42 "[]"] by simp

text \<open>
  A file header with one changed byte in its checksummed part is refused, so a header torn by a
  crash falls back to the other copy.
\<close>

theorem header_detects_damage:
  assumes "j < 4088" "b \<noteq> ToBytes h ! j"
  shows "\<exists>err. FileHeaderFromBytes ((ToBytes h)[j := b]) = Inl err"
  using FileHeaderFromBytes_changed assms by blast

theorem header_detects_damage_witness:
  "\<exists>err. FileHeaderFromBytes ((ToBytes NewFileHeader)[0 := 0]) = Inl err"
  by (rule header_detects_damage) (simp_all add: ToBytes_def header_body_def Magic_def)

text \<open>
  Of the two header copies, \<open>loadHeaders\<close> makes active one that decodes and that no other
  decodable copy beats in commit id; it fails only when neither decodes.
\<close>

theorem loadHeaders_newest:
  "case loadHeaders mm of
     Inl _ \<Rightarrow> (\<forall>h. FileHeaderFromBytes (bslice mm 0 HeaderSize) \<noteq> Inr h
              \<and> FileHeaderFromBytes (bslice mm HeaderSize (HeaderSize * 2)) \<noteq> Inr h)
   | Inr (hA, hB, act) \<Rightarrow>
       (let active = (if act then hB else hA)
        in (FileHeaderFromBytes (bslice mm 0 HeaderSize) = Inr active
            \<or> FileHeaderFromBytes (bslice mm HeaderSize (HeaderSize * 2)) = Inr active)
         \<and> (\<nexists>h. (FileHeaderFromBytes (bslice mm 0 HeaderSize) = Inr h
              \<or> FileHeaderFromBytes (bslice mm HeaderSize (HeaderSize * 2)) = Inr h) \<and> CommitID active < CommitID h))"
proof (cases "loadHeaders mm")
  case (Inl err)
  then show ?thesis using loadHeaders_None [of mm] by auto
next
  case (Inr r)
  obtain hA hB act where r: "r = (hA, hB, act)" by (cases r)
  note a = loadHeaders_active [of mm hA hB act, OF Inr [unfolded r]]
  show ?thesis using a(1) a(2) by (auto simp: Inr r Let_def not_less)
qed

text \<open>
  The snapshot of an index parses back to the index without its empty agents.
\<close>

theorem BuildSnapshot_ParseSnapshot:
  assumes "index_wf idx" "index_fits idx"
  shows "ParseSnapshot (BuildSnapshot idx) = Inr (filter (\<lambda>(a, m). m \<noteq> []) idx)"
  using ParseSnapshot_BuildSnapshot [OF assms] by (simp add: live_domains_def)

theorem BuildSnapshot_ParseSnapshot_witness:
  "ParseSnapshot (BuildSnapshot [(7, [(1, 8192), (2, 8220)]), (8, [])]) = Inr [(7, [(1, 8192), (2, 8220)])]"
  using BuildSnapshot_ParseSnapshot [of "[(7, [(1, 8192), (2, 8220)]), (8, [])]"]
  by (simp add: index_wf_def map_wf_def index_fits_def)

text \<open>
  The type index enumerates, in increasing order and without repetition, exactly the ids of an
  agent whose live record has the type.
\<close>

theorem IndexByType_enumerates:
  assumes "engine_rep e m"
  shows "sorted (IndexByType e a t) \<and> distinct (IndexByType e a t)
    \<and> set (IndexByType e a t) = {i. \<exists>d. ReadRecord e a i = Inr (t, d)}"
  using eng.ids_law [OF assms, of a t] eng.read_law [OF assms, of a] by (auto split: option.splits)

theorem IndexByType_enumerates_witness:
  "\<exists>e. Create blank_file = (Inr e, efile e)
     \<and> set (IndexByType e 7 1) = {i. \<exists>d. ReadRecord e 7 i = Inr (1, d)}"
  using fresh_rep [of 0] IndexByType_enumerates [of _ Map.empty 7 1] by force

section \<open>Where the engine breaks its word\<close>

text \<open>
  C15. A zero-filled tail loses records: a file whose records are followed by a frame header of
  zeros opens without error, a record written then reads back, but opening the file again (without
  a checkpoint in between) no longer finds it, because the append went behind the zeros and the scan
  stops at them.
\<close>

theorem zero_tail_loses_record:
  assumes "left_behind e fs (replicate 26 0 @ post) f" "\<not> has_snapshot (activeHeaderRef e)" "length d < 2 ^ 32"
    and "length (contents f) + RecordHeaderSize + length d < 2 ^ 63" "(a, t, i, d) \<noteq> (0, 0, 0, [])"
    and "log_view fs (a, i) = None"
  shows "\<exists>e1 off e2 e3. Open f = (Inr e1, f) \<and> WriteRecord a t i d e1 = (Inr off, e2) \<and> ReadRecord e2 a i = Inr (t, d)
    \<and> Open (efile e2) = (Inr e3, efile e2) \<and> ReadRecord e3 a i = Inl (NewError ErrNotFound)"
proof -
  have "\<not> blank_head a t 0 i (of_nat (length d))"
    using entry_ok_iff [OF assms(3), of a t i] assms(5) by (simp add: entry_ok_def frame_ok_def frame_of_def)
  then show ?thesis using zero_tail_loses assms by blast
qed

theorem zero_tail_loses_record_witness:
  "\<exists>e f e1 off e2 e3. Create blank_file = (Inr e, efile e) \<and> f = (efile e)\<lparr>contents := contents (efile e) @ replicate 26 0\<rparr>
     \<and> Open f = (Inr e1, f) \<and> WriteRecord 7 1 42 [1] e1 = (Inr off, e2)
     \<and> ReadRecord e2 7 42 = Inr (1, [1]) \<and> Open (efile e2) = (Inr e3, efile e2) \<and> ReadRecord e3 7 42 = Inl (NewError ErrNotFound)"
proof -
  obtain e where e: "Create blank_file = (Inr e, efile e)" "engine_inv e []" "length (contents (efile e)) = DataStart"
    "\<not> has_snapshot (activeHeaderRef e)" using fresh_engine by blast
  let ?f = "(efile e)\<lparr>contents := contents (efile e) @ replicate 26 0\<rparr>"
  obtain tail where lb: "left_behind e [] tail (efile e)" "tail_ok e tail" using engine_left_behind [OF e(2)] by blast
  then have "tail = []" using e(4) by (simp add: tail_ok_def)
  then have "left_behind e [] (replicate 26 0 @ []) ?f"
    using lb(1) e(3) by (auto simp: left_behind_def DataStart_def HeaderSize_def)
  moreover have "length (contents ?f) + RecordHeaderSize + length ([1] :: bytes) < 2 ^ 63"
    using e(3) by (simp add: DataStart_def HeaderSize_def RecordHeaderSize_def)
  moreover have "log_view [] (7, 42) = None" by (simp add: log_view_def)
  ultimately show ?thesis
    using zero_tail_loses_record [OF _ e(4), of "[]" "[]" ?f "[1]" 7 1 42] e(1) by auto
qed

text \<open>
  C16. An unknown end of an empty record area destroys the file: when the active header B names the
  snapshot right after the headers and records no end of the record area, recovery answers the end
  0, and the trim of the next write then leaves a single header, too short a file to open.
\<close>

theorem unknown_record_end_destroys_file:
  assumes "mmap e = hdrs @ BuildSnapshot []" "length hdrs = DataStart" "RecordEnd (activeHeaderRef e) = 0"
    and "faults (efile e) = []" "activeHeader e"
    and "SnapshotOffset (activeHeaderRef e) = of_nat DataStart" "SnapshotLength (activeHeaderRef e) = 13"
  shows "recoverRecordAreaEnd e = 0 \<and> (\<exists>e'. trimTailSnapshot (e\<lparr>nextOffset := recoverRecordAreaEnd e\<rparr>) = (Inr (), e')
      \<and> length (contents (efile e')) = HeaderSize \<and> Open (efile e') = (Inl (NewError ErrCorruption), efile e'))"
proof
  show z: "recoverRecordAreaEnd e = 0" by (rule recoverRecordAreaEnd_empty [OF assms(1,2,3)])
  let ?e = "e\<lparr>nextOffset := recoverRecordAreaEnd e\<rparr>"
  have "has_snapshot (activeHeaderRef ?e)" using assms(6,7) by (simp add: has_snapshot_def DataStart_def HeaderSize_def)
  moreover have "SnapshotOffset (activeHeaderRef ?e) + ucast (SnapshotLength (activeHeaderRef ?e)) = of_nat (length (mmap ?e))"
    using assms(1,2,6,7) by (simp add: DataStart_def HeaderSize_def)
  ultimately show "\<exists>e'. trimTailSnapshot ?e = (Inr (), e') \<and> length (contents (efile e')) = HeaderSize
      \<and> Open (efile e') = (Inl (NewError ErrCorruption), efile e')"
    using trim_destroys [of ?e] assms(4,5) z by auto
qed

theorem unknown_record_end_destroys_file_witness:
  "\<exists>e. contents (efile e) = ToBytes NewFileHeader @ ToBytes (NewFileHeader\<lparr>CommitID := 1, SnapshotOffset := 8192, SnapshotLength := 13\<rparr>)
       @ BuildSnapshot [] \<and> recoverRecordAreaEnd e = 0"
proof -
  let ?h = "NewFileHeader\<lparr>CommitID := 1, SnapshotOffset := 8192, SnapshotLength := 13\<rparr>"
  let ?c = "ToBytes NewFileHeader @ ToBytes ?h @ BuildSnapshot []"
  let ?e = "\<lparr>efile = \<lparr>contents = ?c, cursor = 0, faults = []\<rparr>, mapped = length ?c, headerA = NewFileHeader, headerB = ?h,
     activeHeader = True, index = [], byAgentType = [], nextOffset = 0, closed = False\<rparr>"
  have "mmap ?e = (ToBytes NewFileHeader @ ToBytes ?h) @ BuildSnapshot []" by (simp add: mmap_def)
  moreover have "length (ToBytes NewFileHeader @ ToBytes ?h) = DataStart" by (simp add: DataStart_def HeaderSize_def)
  ultimately have "recoverRecordAreaEnd ?e = 0"
    using unknown_record_end_destroys_file [of ?e "ToBytes NewFileHeader @ ToBytes ?h"]
    by (simp add: activeHeaderRef_def NewFileHeader_def DataStart_def HeaderSize_def)
  then show ?thesis by (intro exI [of _ ?e]) simp
qed

end
